(* ===== verification/Prelude.thy ===== *)
theory Prelude
  imports Complex_Main "HOL-Library.Monad_Syntax" "HOL-Library.Multiset"
begin

text \<open>
  Shared vocabulary of the development.

  \<^item> \<open>f64\<close> is modelled by the real numbers: rounding, infinities and NaN of IEEE doubles are
    not part of the model. \<open>f_round\<close>, \<open>f_clamp\<close> and \<open>f_rem\<close> are Rust's \<open>f64::round\<close> (half away
    from zero), \<open>f64::clamp\<close> and \<open>%\<close>.
  \<^item> \<open>Duration\<close> is a number of nanoseconds.
  \<^item> An operation of the source that can panic (\<open>unwrap\<close>, \<open>expect\<close>, an index or
    \<open>Vec::remove\<close> out of range, an \<open>assert!\<close>) returns an \<open>option\<close> here, \<open>None\<close> being the panic;
    such operations are sequenced with the \<open>do\<close> notation of the option monad.
  \<^item> \<open>vec_remove\<close>, \<open>vec_insert\<close>, \<open>vec_swap\<close>, \<open>vec_get\<close> are the \<open>Vec\<close> operations with their panics,
    \<open>position\<close> is \<open>Iterator::position\<close>.
\<close>

named_theorems vec_simps "rewriting of the Vec operations"
named_theorems geo_simps "definitions of the geometry operations"

type_synonym f64 = real
type_synonym duration = nat

section \<open>Floating point and integers\<close>

definition f_round :: "f64 \<Rightarrow> f64" where
  "f_round x = (if 0 \<le> x then of_int \<lfloor>x + 1/2\<rfloor> else of_int \<lceil>x - 1/2\<rceil>)"

definition f_clamp :: "f64 \<Rightarrow> f64 \<Rightarrow> f64 \<Rightarrow> f64" where
  "f_clamp x lo hi = (if x < lo then lo else if hi < x then hi else x)"

definition i_clamp :: "int \<Rightarrow> int \<Rightarrow> int \<Rightarrow> int" where
  "i_clamp x lo hi = (if x < lo then lo else if hi < x then hi else x)"

text \<open>Truncation towards zero (\<open>as i32\<close> and the like, before saturation) and the remainder that goes
  with it, which has the sign of the dividend.\<close>

definition f_trunc :: "f64 \<Rightarrow> int" where
  "f_trunc x = (if 0 \<le> x then \<lfloor>x\<rfloor> else \<lceil>x\<rceil>)"

definition f_rem :: "f64 \<Rightarrow> f64 \<Rightarrow> f64" where
  "f_rem x y = x - of_int (f_trunc (x / y)) * y"

lemma f_clamp_bounds:
  "lo \<le> hi \<Longrightarrow> lo \<le> f_clamp x lo hi \<and> f_clamp x lo hi \<le> hi"
  by (auto simp: f_clamp_def)

lemma f_clamp_id: "lo \<le> x \<Longrightarrow> x \<le> hi \<Longrightarrow> f_clamp x lo hi = x"
  by (simp add: f_clamp_def)

lemma f_round_of_int [simp]: "f_round (of_int n) = of_int n"
proof (cases "0 \<le> n")
  case True
  have "\<lfloor>of_int n + 1 / (2::real)\<rfloor> = n" by linarith
  with True show ?thesis by (simp add: f_round_def)
next
  case False
  have "\<lceil>of_int n - 1 / (2::real)\<rceil> = n" by linarith
  with False show ?thesis by (simp add: f_round_def)
qed

lemma f_round_near: "\<bar>f_round x - x\<bar> \<le> 1/2"
proof (cases "0 \<le> x")
  case True
  then have "f_round x = of_int \<lfloor>x + 1/2\<rfloor>" by (simp add: f_round_def)
  moreover have "of_int \<lfloor>x + 1/2\<rfloor> \<le> x + 1/2" "x + 1/2 < of_int \<lfloor>x + 1/2\<rfloor> + 1"
    using floor_correct[of "x + 1/2"] by simp_all
  ultimately show ?thesis unfolding abs_le_iff by linarith
next
  case False
  then have "f_round x = of_int \<lceil>x - 1/2\<rceil>" by (simp add: f_round_def)
  moreover have "x - 1/2 \<le> of_int \<lceil>x - 1/2\<rceil>" "of_int \<lceil>x - 1/2\<rceil> - 1 < x - 1/2"
    using ceiling_correct[of "x - 1/2"] by simp_all
  ultimately show ?thesis unfolding abs_le_iff by linarith
qed

lemma f_round_integer: "\<exists>n. f_round x = of_int n"
  by (auto simp: f_round_def)

section \<open>Vec operations\<close>

definition vec_get :: "'a list \<Rightarrow> nat \<Rightarrow> 'a option" where
  "vec_get xs i = (if i < length xs then Some (xs ! i) else None)"

definition vec_remove :: "nat \<Rightarrow> 'a list \<Rightarrow> ('a \<times> 'a list) option" where
  "vec_remove i xs = (if i < length xs then Some (xs ! i, take i xs @ drop (Suc i) xs) else None)"

definition vec_insert :: "nat \<Rightarrow> 'a \<Rightarrow> 'a list \<Rightarrow> 'a list option" where
  "vec_insert i x xs = (if i \<le> length xs then Some (take i xs @ x # drop i xs) else None)"

definition vec_swap :: "nat \<Rightarrow> nat \<Rightarrow> 'a list \<Rightarrow> 'a list option" where
  "vec_swap i j xs = (if i < length xs \<and> j < length xs
     then Some (xs[i := xs ! j, j := xs ! i]) else None)"

fun position :: "('a \<Rightarrow> bool) \<Rightarrow> 'a list \<Rightarrow> nat option" where
  "position P [] = None"
| "position P (x # xs) = (if P x then Some 0 else map_option Suc (position P xs))"

lemma vec_get_Some [vec_simps]: "vec_get xs i = Some x \<longleftrightarrow> i < length xs \<and> x = xs ! i"
  by (auto simp: vec_get_def)

lemma vec_get_None [vec_simps]: "vec_get xs i = None \<longleftrightarrow> length xs \<le> i"
  by (auto simp: vec_get_def)

lemma vec_remove_Some [vec_simps]:
  "vec_remove i xs = Some (x, ys) \<longleftrightarrow> i < length xs \<and> x = xs ! i \<and> ys = take i xs @ drop (Suc i) xs"
  by (auto simp: vec_remove_def)

lemma vec_insert_Some [vec_simps]:
  "vec_insert i x xs = Some ys \<longleftrightarrow> i \<le> length xs \<and> ys = take i xs @ x # drop i xs"
  by (auto simp: vec_insert_def)

lemma vec_swap_Some [vec_simps]:
  "vec_swap i j xs = Some ys \<longleftrightarrow> i < length xs \<and> j < length xs \<and> ys = xs[i := xs ! j, j := xs ! i]"
  by (auto simp: vec_swap_def)

lemma mset_remove_nth:
  "i < length xs \<Longrightarrow> mset (take i xs @ drop (Suc i) xs) + {#xs ! i#} = mset xs"
  by (metis add_mset_add_single id_take_nth_drop mset.simps(2) mset_append union_mset_add_mset_right)

lemma mset_insert_nth: "mset (take i xs @ x # drop i xs) = add_mset x (mset xs)"
  by (metis append_take_drop_id mset.simps(2) mset_append union_mset_add_mset_right)

lemma remove_insert_id:
  "i \<le> length xs \<Longrightarrow> vec_remove i (take i xs @ x # drop i xs) = Some (x, xs)"
  by (simp add: vec_remove_def nth_append min_def)

lemma insert_remove_id:
  "i < length xs \<Longrightarrow> vec_insert i (xs ! i) (take i xs @ drop (Suc i) xs) = Some xs"
  by (simp add: vec_insert_def min_def id_take_nth_drop[symmetric])

lemma nth_remove:
  "j < length xs - 1 \<Longrightarrow> i < length xs \<Longrightarrow>
   (take i xs @ drop (Suc i) xs) ! j = (if j < i then xs ! j else xs ! Suc j)"
  by (auto simp: nth_append)

lemma position_Some:
  "position P xs = Some i \<Longrightarrow> i < length xs \<and> P (xs ! i) \<and> (\<forall>j<i. \<not> P (xs ! j))"
proof (induction xs arbitrary: i)
  case (Cons x xs)
  show ?case
  proof (cases "P x")
    case True
    with Cons.prems show ?thesis by simp
  next
    case False
    with Cons.prems obtain k where k: "position P xs = Some k" "i = Suc k" by auto
    from Cons.IH[OF k(1)] False k(2) show ?thesis by (auto simp: less_Suc_eq_0_disj)
  qed
qed simp

lemma position_None: "position P xs = None \<longleftrightarrow> (\<forall>x\<in>set xs. \<not> P x)"
  by (induction xs) auto

lemma position_length: "position P xs = Some i \<Longrightarrow> i < length xs"
  by (simp add: position_Some)

lemma position_ex: "x \<in> set xs \<Longrightarrow> P x \<Longrightarrow> \<exists>i. position P xs = Some i"
  using position_None[of P xs] by (cases "position P xs") auto

lemma position_nth_distinct:
  "distinct (map f xs) \<Longrightarrow> i < length xs \<Longrightarrow> position (\<lambda>x. f x = f (xs ! i)) xs = Some i"
proof -
  assume d: "distinct (map f xs)" and i: "i < length xs"
  obtain j where j: "position (\<lambda>x. f x = f (xs ! i)) xs = Some j"
    using position_ex[of "xs ! i" xs "\<lambda>x. f x = f (xs ! i)"] i by auto
  with d i have "j = i"
    using position_Some[OF j] by (metis (no_types, lifting) length_map nth_eq_iff_index_eq nth_map)
  with j show ?thesis by simp
qed

section \<open>Geometry\<close>

record size = sz_w :: f64  sz_h :: f64
record isize = isz_w :: int  isz_h :: int
record point = pt_x :: f64  pt_y :: f64
record rect = rloc :: point  rsize :: size

definition mk_size :: "f64 \<Rightarrow> f64 \<Rightarrow> size" where
  "mk_size a b = \<lparr>sz_w = a, sz_h = b\<rparr>"

definition mk_point :: "f64 \<Rightarrow> f64 \<Rightarrow> point" where
  "mk_point a b = \<lparr>pt_x = a, pt_y = b\<rparr>"

definition pt_add :: "point \<Rightarrow> point \<Rightarrow> point" where
  "pt_add p q = mk_point (pt_x p + pt_x q) (pt_y p + pt_y q)"

definition pt_sub :: "point \<Rightarrow> point \<Rightarrow> point" where
  "pt_sub p q = mk_point (pt_x p - pt_x q) (pt_y p - pt_y q)"

declare mk_size_def [geo_simps] mk_point_def [geo_simps] pt_add_def [geo_simps] pt_sub_def [geo_simps]

lemma mk_point_sel [simp]: "pt_x (mk_point a b) = a" "pt_y (mk_point a b) = b"
  by (simp_all add: mk_point_def)

lemma mk_size_sel [simp]: "sz_w (mk_size a b) = a" "sz_h (mk_size a b) = b"
  by (simp_all add: mk_size_def)

lemma pt_sel [simp]:
  "pt_x (pt_add p q) = pt_x p + pt_x q" "pt_y (pt_add p q) = pt_y p + pt_y q"
  "pt_x (pt_sub p q) = pt_x p - pt_x q" "pt_y (pt_sub p q) = pt_y p - pt_y q"
  by (simp_all add: pt_add_def pt_sub_def)

text \<open>Two rectangles do not overlap: one is left of, right of, above or below the other.\<close>

definition rect_disjoint :: "rect \<Rightarrow> rect \<Rightarrow> bool" where
  "rect_disjoint a b \<longleftrightarrow>
     pt_x (rloc a) + sz_w (rsize a) \<le> pt_x (rloc b) \<or> pt_x (rloc b) + sz_w (rsize b) \<le> pt_x (rloc a) \<or>
     pt_y (rloc a) + sz_h (rsize a) \<le> pt_y (rloc b) \<or> pt_y (rloc b) + sz_h (rsize b) \<le> pt_y (rloc a)"

definition rect_within :: "rect \<Rightarrow> rect \<Rightarrow> bool" where
  "rect_within a b \<longleftrightarrow>
     pt_x (rloc b) \<le> pt_x (rloc a) \<and> pt_x (rloc a) + sz_w (rsize a) \<le> pt_x (rloc b) + sz_w (rsize b) \<and>
     pt_y (rloc b) \<le> pt_y (rloc a) \<and> pt_y (rloc a) + sz_h (rsize a) \<le> pt_y (rloc b) + sz_h (rsize b)"

end
