(* ===== verification/HashMaps.thy ===== *)
theory HashMaps
  imports Prelude "HOL-Library.AList"
begin

text \<open>
  \<open>std::collections::HashMap\<close> as an association list with distinct keys. The order of the list
  stands for the (unspecified) iteration order; what a client may rely on is the finite map
  \<open>map_of m\<close>. \<open>hm_insert\<close> overwrites, \<open>hm_collect\<close> is \<open>collect()\<close> of a sequence of values keyed by
  one of their fields, later values winning; \<open>hm_for\<close> is a loop over \<open>values_mut()\<close> and
  \<open>hm_for_first\<close> such a loop that breaks after the first value it changes.
\<close>

type_synonym ('k, 'v) hmap = "('k \<times> 'v) list"

definition hm_insert :: "'k \<Rightarrow> 'v \<Rightarrow> ('k, 'v) hmap \<Rightarrow> ('k, 'v) hmap" where
  "hm_insert k v m = AList.update k v m"

definition hm_remove :: "'k \<Rightarrow> ('k, 'v) hmap \<Rightarrow> ('k, 'v) hmap" where
  "hm_remove k m = AList.delete k m"

definition hm_values :: "('k, 'v) hmap \<Rightarrow> 'v list" where
  "hm_values m = map snd m"

definition hm_collect :: "('v \<Rightarrow> 'k) \<Rightarrow> 'v list \<Rightarrow> ('k, 'v) hmap" where
  "hm_collect key vs = foldl (\<lambda>m v. hm_insert (key v) v m) [] vs"

definition hm_for :: "('v \<Rightarrow> 'v) \<Rightarrow> ('k, 'v) hmap \<Rightarrow> ('k, 'v) hmap" where
  "hm_for f m = map (\<lambda>(k, v). (k, f v)) m"

fun hm_for_first :: "('v \<Rightarrow> bool) \<Rightarrow> ('v \<Rightarrow> 'v) \<Rightarrow> ('k, 'v) hmap \<Rightarrow> ('k, 'v) hmap" where
  "hm_for_first P f [] = []"
| "hm_for_first P f ((k, v) # m) = (if P v then (k, f v) # m else (k, v) # hm_for_first P f m)"

text \<open>Keys are distinct and each value is stored under its own key.\<close>

definition hm_inv :: "('v \<Rightarrow> 'k) \<Rightarrow> ('k, 'v) hmap \<Rightarrow> bool" where
  "hm_inv key m \<longleftrightarrow> distinct (map fst m) \<and> (\<forall>(k, v) \<in> set m. key v = k)"

named_theorems hm_simps "lookup after an operation on a hash map"

lemma map_of_insert [hm_simps]: "map_of (hm_insert k v m) = (map_of m)(k \<mapsto> v)"
  by (simp add: hm_insert_def update_conv')

lemma map_of_remove [hm_simps]: "map_of (hm_remove k m) = (map_of m)(k := None)"
  by (simp add: hm_remove_def delete_conv')

lemma map_of_for [hm_simps]: "map_of (hm_for f m) = (\<lambda>k. map_option f (map_of m k))"
  unfolding hm_for_def by (induction m) auto

lemma hm_inv_empty [simp]: "hm_inv key []"
  by (simp add: hm_inv_def)

lemma hm_inv_value: "hm_inv key m \<Longrightarrow> map_of m k = Some v \<Longrightarrow> key v = k"
  unfolding hm_inv_def by (auto dest: map_of_SomeD)

lemma set_insert_subset: "set (hm_insert k v m) \<subseteq> insert (k, v) (set m)"
  unfolding hm_insert_def by (induction m) auto

lemma set_remove_subset: "set (hm_remove k m) \<subseteq> set m"
  unfolding hm_remove_def by (induction m) auto

lemma hm_inv_insert: "hm_inv key m \<Longrightarrow> key v = k \<Longrightarrow> hm_inv key (hm_insert k v m)"
  using set_insert_subset[of k v m]
  unfolding hm_inv_def hm_insert_def by (auto simp: distinct_update)

lemma hm_inv_upd:
  "hm_inv key m \<Longrightarrow> map_of m k = Some v \<Longrightarrow> key v' = key v \<Longrightarrow> hm_inv key (hm_insert k v' m)"
  by (rule hm_inv_insert) (auto dest: hm_inv_value)

lemma hm_inv_remove: "hm_inv key m \<Longrightarrow> hm_inv key (hm_remove k m)"
  using set_remove_subset[of k m] unfolding hm_inv_def hm_remove_def
  by (auto simp: distinct_delete)

lemma hm_inv_for: "hm_inv key m \<Longrightarrow> (\<And>v. key (f v) = key v) \<Longrightarrow> hm_inv key (hm_for f m)"
  unfolding hm_inv_def hm_for_def by (auto simp: case_prod_beta comp_def)

lemma keys_for_first: "map fst (hm_for_first P f m) = map fst m"
  by (induction P f m rule: hm_for_first.induct) auto

lemma hm_inv_for_first:
  "hm_inv key m \<Longrightarrow> (\<And>v. key (f v) = key v) \<Longrightarrow> hm_inv key (hm_for_first P f m)"
proof -
  assume m: "hm_inv key m" and f: "\<And>v. key (f v) = key v"
  have "\<forall>(k, v) \<in> set m. key v = k \<Longrightarrow> \<forall>(k, v) \<in> set (hm_for_first P f m). key v = k"
    by (induction m) (auto simp: f split: if_splits)
  with m show ?thesis by (auto simp: hm_inv_def keys_for_first)
qed

text \<open>Under the invariant at most one value has a given key, so breaking after it loses nothing.\<close>

lemma map_of_for_first [hm_simps]:
  assumes "hm_inv key m"
  shows "map_of (hm_for_first (\<lambda>v. key v = i) f m) = map_of (hm_for (\<lambda>v. if key v = i then f v else v) m)"
proof -
  have "distinct (map fst m) \<Longrightarrow> \<forall>(k, v) \<in> set m. key v = k \<Longrightarrow>
      map_of (hm_for_first (\<lambda>v. key v = i) f m) k =
      map_of (hm_for (\<lambda>v. if key v = i then f v else v) m) k" for k
  proof (induction m)
    case (Cons p m)
    obtain k' v where p: "p = (k', v)" by force
    have "k' \<notin> fst ` set m" using Cons.prems p by auto
    then have "\<forall>x \<in> set m. key (snd x) \<noteq> k'" using Cons.prems by force
    then have "hm_for (\<lambda>v. if key v = k' then f v else v) m = m"
      unfolding hm_for_def by (induction m) auto
    with Cons p show ?case by (auto simp: hm_for_def)
  qed (simp add: hm_for_def)
  with assms show ?thesis by (auto simp: hm_inv_def)
qed

lemma AList_update_append: "k \<notin> fst ` set m \<Longrightarrow> AList.update k v m = m @ [(k, v)]"
  by (induction m) auto

lemma hm_collect_snoc: "hm_collect key (vs @ [v]) = hm_insert (key v) v (hm_collect key vs)"
  by (simp add: hm_collect_def)

lemma hm_inv_collect [simp]: "hm_inv key (hm_collect key vs)"
  by (induction vs rule: rev_induct) (auto simp: hm_collect_snoc hm_inv_insert hm_collect_def[of _ "[]"])

text \<open>Collecting the values of a well-formed map gives the map back.\<close>

lemma hm_collect_distinct:
  "distinct (map key vs) \<Longrightarrow> hm_collect key vs = map (\<lambda>v. (key v, v)) vs"
proof (induction vs rule: rev_induct)
  case (snoc v vs)
  then show ?case by (auto simp: hm_collect_snoc hm_insert_def AList_update_append image_image)
qed (simp add: hm_collect_def)

lemma hm_collect_values: "hm_inv key m \<Longrightarrow> hm_collect key (hm_values m) = m"
proof -
  assume m: "hm_inv key m"
  then have k: "map key (hm_values m) = map fst m"
    by (auto simp: hm_inv_def hm_values_def)
  with m have "distinct (map key (hm_values m))" by (simp add: hm_inv_def)
  then have "hm_collect key (hm_values m) = map (\<lambda>v. (key v, v)) (hm_values m)"
    by (rule hm_collect_distinct)
  also have "\<dots> = m"
    using m by (auto simp: hm_values_def hm_inv_def comp_def intro!: map_idI)
  finally show ?thesis .
qed

lemma collect_ran: "map_of (hm_collect key vs) k = Some v \<Longrightarrow> v \<in> set vs"
  by (induction vs arbitrary: v rule: rev_induct)
     (auto simp: hm_collect_snoc hm_simps hm_collect_def[of _ "[]"] split: if_splits)

text \<open>The iteration order does not matter: collecting the values in any order gives an equal map.\<close>

lemma hm_collect_perm:
  assumes "hm_inv key m" and "mset vs = mset (hm_values m)"
  shows "map_of (hm_collect key vs) = map_of m"
proof -
  have k: "map key (hm_values m) = map fst m"
    using assms(1) by (auto simp: hm_inv_def hm_values_def)
  have "mset (map key vs) = mset (map fst m)"
    using assms(2) k by (metis mset_map)
  then have d: "distinct (map key vs)"
    using assms(1) by (metis hm_inv_def mset_eq_imp_distinct_iff)
  have "map (\<lambda>v. (key v, v)) (hm_values m) = m"
    using assms(1) by (auto simp: hm_values_def hm_inv_def comp_def intro!: map_idI)
  then have "mset (map (\<lambda>v. (key v, v)) vs) = mset m"
    using assms(2) by (metis mset_map)
  then have "set (map (\<lambda>v. (key v, v)) vs) = set m" by (rule mset_eq_setD)
  then have "map_of (map (\<lambda>v. (key v, v)) vs) = map_of m"
    using assms(1) d by (subst map_of_inject_set) (simp_all add: hm_inv_def comp_def)
  with hm_collect_distinct[OF d] show ?thesis by simp
qed

end
