(* ===== verification/EventStream.thy ===== *)
theory EventStream
  imports HashMaps
begin

text \<open>
  The client-side state of the IPC event stream, \<^verbatim>\<open>sol-ipc/src/state.rs\<close>, and the types it
  carries from \<^verbatim>\<open>sol-ipc/src/lib.rs\<close>. The trait \<^verbatim>\<open>EventStreamStatePart\<close> is the locale
  \<open>state_part\<close>; it is interpreted on the six parts and on the composite state. Identifiers
  (\<open>u64\<close>) are only compared, so they are natural numbers; \<open>apply\<close> returns \<open>None\<close> where the
  source panics (\<open>expect\<close>), and otherwise the new state with the event it passed on.
\<close>

section \<open>The IPC types\<close>

type_synonym u64_id = nat

record ipc_timestamp =
  ts_secs :: nat
  ts_nanos :: nat

record ipc_window_layout =
  pos_in_scrolling_layout :: "(nat \<times> nat) option"
  ipc_tile_size :: "f64 \<times> f64"
  ipc_window_size :: "int \<times> int"
  tile_pos_in_workspace_view :: "(f64 \<times> f64) option"
  window_offset_in_tile :: "f64 \<times> f64"

record ipc_window =
  iwin_id :: u64_id
  iwin_title :: "string option"
  iwin_app_id :: "string option"
  iwin_pid :: "int option"
  iwin_workspace_id :: "u64_id option"
  iwin_is_focused :: bool
  iwin_is_floating :: bool
  iwin_is_urgent :: bool
  iwin_layout :: ipc_window_layout
  iwin_focus_timestamp :: "ipc_timestamp option"

record ipc_workspace =
  iws_id :: u64_id
  iws_idx :: nat
  iws_name :: "string option"
  iws_output :: "string option"
  iws_is_urgent :: bool
  iws_is_active :: bool
  iws_is_focused :: bool
  iws_active_window_id :: "u64_id option"

record ipc_keyboard_layouts =
  kb_names :: "string list"
  kb_current_idx :: nat

datatype cast_kind = PipeWire | WlrScreencopy
datatype cast_target = CT_Nothing | CT_Output string | CT_Window u64_id

record ipc_cast =
  cast_stream_id :: u64_id
  cast_session_id :: u64_id
  cast_kind :: cast_kind
  cast_target :: cast_target
  cast_is_dynamic_target :: bool
  cast_is_active :: bool
  cast_pid :: "int option"
  cast_pw_node_id :: "nat option"

datatype event =
    WorkspacesChanged "ipc_workspace list"
  | WorkspaceUrgencyChanged u64_id bool
  | WorkspaceActivated u64_id bool
  | WorkspaceActiveWindowChanged u64_id "u64_id option"
  | WindowsChanged "ipc_window list"
  | WindowOpenedOrChanged ipc_window
  | WindowClosed u64_id
  | WindowFocusChanged "u64_id option"
  | WindowFocusTimestampChanged u64_id "ipc_timestamp option"
  | WindowUrgencyChanged u64_id bool
  | WindowLayoutsChanged "(u64_id \<times> ipc_window_layout) list"
  | KeyboardLayoutsChanged ipc_keyboard_layouts
  | KeyboardLayoutSwitched nat
  | OverviewOpenedOrClosed bool
  | ConfigLoaded bool
  | ScreenshotCaptured "string option"
  | CastsChanged "ipc_cast list"
  | CastStartedOrChanged ipc_cast
  | CastStopped u64_id

section \<open>The interface\<close>

text \<open>Feeding a list of events to a state part, stopping at the first panic.\<close>

fun run_events :: "(event \<Rightarrow> 's \<Rightarrow> ('s \<times> event option) option) \<Rightarrow> event list \<Rightarrow> 's \<Rightarrow> 's option" where
  "run_events ap [] s = Some s"
| "run_events ap (e # es) s = (case ap e s of None \<Rightarrow> None | Some (s', _) \<Rightarrow> run_events ap es s')"

lemma run_events_append:
  "run_events ap (es @ fs) s = Option.bind (run_events ap es s) (run_events ap fs)"
  by (induction es arbitrary: s) (auto split: option.splits)

locale state_part =
  fixes dflt :: 's
    and replicate :: "'s \<Rightarrow> event list"
    and ap :: "event \<Rightarrow> 's \<Rightarrow> ('s \<times> event option) option"
    and handles :: "event \<Rightarrow> bool"
    and inv :: "'s \<Rightarrow> bool"
  assumes ap_ignored: "\<not> handles e \<Longrightarrow> ap e s = Some (s, Some e)"
    and ap_consumed: "handles e \<Longrightarrow> ap e s = Some (s', r) \<Longrightarrow> r = None"
    and inv_dflt: "inv dflt"
    and inv_ap: "inv s \<Longrightarrow> ap e s = Some (s', r) \<Longrightarrow> inv s'"
    and replicate_handled: "e \<in> set (replicate s) \<Longrightarrow> handles e"
    and replicate_run: "inv s \<Longrightarrow> run_events ap (replicate s) dflt = Some s"
begin

lemma run_ignored: "\<forall>e \<in> set es. \<not> handles e \<Longrightarrow> run_events ap es s = Some s"
  by (induction es) (auto simp: ap_ignored)

lemma run_filter: "run_events ap es s = run_events ap (filter handles es) s"
  by (induction es arbitrary: s) (auto simp: ap_ignored split: option.splits)

lemma run_inv: "inv s \<Longrightarrow> run_events ap es s = Some s' \<Longrightarrow> inv s'"
  by (induction es arbitrary: s) (auto split: option.splits dest: inv_ap)

lemma reachable_replicates:
  "run_events ap es dflt = Some s \<Longrightarrow> run_events ap (replicate s) dflt = Some s"
  using run_inv[OF inv_dflt] replicate_run by blast

end

section \<open>The parts\<close>

record workspaces_state = es_workspaces :: "(u64_id, ipc_workspace) hmap"
record windows_state = es_windows :: "(u64_id, ipc_window) hmap"
record keyboard_layouts_state = es_keyboard_layouts :: "ipc_keyboard_layouts option"
record overview_state = es_is_open :: bool
record config_state = es_failed :: bool
record casts_state = es_casts :: "(u64_id, ipc_cast) hmap"

subsection \<open>Workspaces\<close>

definition workspaces_default :: workspaces_state where
  "workspaces_default = \<lparr>es_workspaces = []\<rparr>"

definition workspaces_replicate :: "workspaces_state \<Rightarrow> event list" where
  "workspaces_replicate s = [WorkspacesChanged (hm_values (es_workspaces s))]"

definition workspace_activated ::
  "u64_id \<Rightarrow> bool \<Rightarrow> string option \<Rightarrow> ipc_workspace \<Rightarrow> ipc_workspace" where
  "workspace_activated i focused output ws =
     (let got_activated = (iws_id ws = i);
          ws = (if iws_output ws = output then ws\<lparr>iws_is_active := got_activated\<rparr> else ws)
      in if focused then ws\<lparr>iws_is_focused := got_activated\<rparr> else ws)"

fun workspaces_apply ::
  "event \<Rightarrow> workspaces_state \<Rightarrow> (workspaces_state \<times> event option) option" where
  "workspaces_apply (WorkspacesChanged wss) s =
     Some (s\<lparr>es_workspaces := hm_collect iws_id wss\<rparr>, None)"
| "workspaces_apply (WorkspaceUrgencyChanged i urgent) s =
     Some (s\<lparr>es_workspaces := hm_for (\<lambda>ws. if iws_id ws = i then ws\<lparr>iws_is_urgent := urgent\<rparr> else ws)
                 (es_workspaces s)\<rparr>, None)"
| "workspaces_apply (WorkspaceActivated i focused) s =
     (case map_of (es_workspaces s) i of
        None \<Rightarrow> None
      | Some ws \<Rightarrow>
          Some (s\<lparr>es_workspaces := hm_for (workspace_activated i focused (iws_output ws))
                      (es_workspaces s)\<rparr>, None))"
| "workspaces_apply (WorkspaceActiveWindowChanged i win) s =
     (case map_of (es_workspaces s) i of
        None \<Rightarrow> None
      | Some ws \<Rightarrow>
          Some (s\<lparr>es_workspaces := hm_insert i (ws\<lparr>iws_active_window_id := win\<rparr>) (es_workspaces s)\<rparr>,
                None))"
| "workspaces_apply e s = Some (s, Some e)"

fun workspaces_handles :: "event \<Rightarrow> bool" where
  "workspaces_handles (WorkspacesChanged _) = True"
| "workspaces_handles (WorkspaceUrgencyChanged _ _) = True"
| "workspaces_handles (WorkspaceActivated _ _) = True"
| "workspaces_handles (WorkspaceActiveWindowChanged _ _) = True"
| "workspaces_handles _ = False"

definition workspaces_inv :: "workspaces_state \<Rightarrow> bool" where
  "workspaces_inv s \<longleftrightarrow> hm_inv iws_id (es_workspaces s)"

lemma workspace_activated_id [simp]: "iws_id (workspace_activated i f out ws) = iws_id ws"
  by (simp add: workspace_activated_def Let_def)

lemma workspaces_inv_apply:
  "workspaces_inv s \<Longrightarrow> workspaces_apply e s = Some (s', r) \<Longrightarrow> workspaces_inv s'"
  by (cases "(e, s)" rule: workspaces_apply.cases)
     (auto simp: workspaces_inv_def intro!: hm_inv_for hm_inv_upd split: option.splits)

interpretation wss: state_part workspaces_default workspaces_replicate workspaces_apply
    workspaces_handles workspaces_inv
proof
  fix e s s' r
  show "\<not> workspaces_handles e \<Longrightarrow> workspaces_apply e s = Some (s, Some e)"
    by (cases e) auto
  show "workspaces_handles e \<Longrightarrow> workspaces_apply e s = Some (s', r) \<Longrightarrow> r = None"
    by (cases e) (auto split: option.splits)
  show "workspaces_inv workspaces_default"
    by (simp add: workspaces_inv_def workspaces_default_def)
  show "workspaces_inv s \<Longrightarrow> workspaces_apply e s = Some (s', r) \<Longrightarrow> workspaces_inv s'"
    by (rule workspaces_inv_apply)
  show "e \<in> set (workspaces_replicate s) \<Longrightarrow> workspaces_handles e"
    by (auto simp: workspaces_replicate_def)
  show "workspaces_inv s \<Longrightarrow>
      run_events workspaces_apply (workspaces_replicate s) workspaces_default = Some s"
    by (simp add: workspaces_replicate_def workspaces_inv_def workspaces_default_def hm_collect_values)
qed

subsection \<open>Windows\<close>

definition windows_default :: windows_state where
  "windows_default = \<lparr>es_windows = []\<rparr>"

definition windows_replicate :: "windows_state \<Rightarrow> event list" where
  "windows_replicate s = [WindowsChanged (hm_values (es_windows s))]"

fun apply_layout_changes ::
  "(u64_id \<times> ipc_window_layout) list \<Rightarrow> (u64_id, ipc_window) hmap \<Rightarrow> (u64_id, ipc_window) hmap option" where
  "apply_layout_changes [] m = Some m"
| "apply_layout_changes ((i, update) # cs) m =
     (case map_of m i of
        None \<Rightarrow> None
      | Some win \<Rightarrow> apply_layout_changes cs (hm_insert i (win\<lparr>iwin_layout := update\<rparr>) m))"

fun windows_apply :: "event \<Rightarrow> windows_state \<Rightarrow> (windows_state \<times> event option) option" where
  "windows_apply (WindowsChanged wins) s =
     Some (s\<lparr>es_windows := hm_collect iwin_id wins\<rparr>, None)"
| "windows_apply (WindowOpenedOrChanged win) s =
     (let m = hm_insert (iwin_id win) win (es_windows s)
      in Some (s\<lparr>es_windows :=
            (if iwin_is_focused win
             then hm_for (\<lambda>w. if iwin_id w \<noteq> iwin_id win then w\<lparr>iwin_is_focused := False\<rparr> else w) m
             else m)\<rparr>, None))"
| "windows_apply (WindowClosed i) s =
     (case map_of (es_windows s) i of
        None \<Rightarrow> None
      | Some _ \<Rightarrow> Some (s\<lparr>es_windows := hm_remove i (es_windows s)\<rparr>, None))"
| "windows_apply (WindowFocusChanged i) s =
     Some (s\<lparr>es_windows := hm_for (\<lambda>w. w\<lparr>iwin_is_focused := (Some (iwin_id w) = i)\<rparr>) (es_windows s)\<rparr>,
           None)"
| "windows_apply (WindowFocusTimestampChanged i ts) s =
     Some (s\<lparr>es_windows := hm_for_first (\<lambda>w. iwin_id w = i) (\<lambda>w. w\<lparr>iwin_focus_timestamp := ts\<rparr>)
                 (es_windows s)\<rparr>, None)"
| "windows_apply (WindowUrgencyChanged i urgent) s =
     Some (s\<lparr>es_windows := hm_for_first (\<lambda>w. iwin_id w = i) (\<lambda>w. w\<lparr>iwin_is_urgent := urgent\<rparr>)
                 (es_windows s)\<rparr>, None)"
| "windows_apply (WindowLayoutsChanged changes) s =
     (case apply_layout_changes changes (es_windows s) of
        None \<Rightarrow> None
      | Some m \<Rightarrow> Some (s\<lparr>es_windows := m\<rparr>, None))"
| "windows_apply e s = Some (s, Some e)"

fun windows_handles :: "event \<Rightarrow> bool" where
  "windows_handles (WindowsChanged _) = True"
| "windows_handles (WindowOpenedOrChanged _) = True"
| "windows_handles (WindowClosed _) = True"
| "windows_handles (WindowFocusChanged _) = True"
| "windows_handles (WindowFocusTimestampChanged _ _) = True"
| "windows_handles (WindowUrgencyChanged _ _) = True"
| "windows_handles (WindowLayoutsChanged _) = True"
| "windows_handles _ = False"

definition windows_inv :: "windows_state \<Rightarrow> bool" where
  "windows_inv s \<longleftrightarrow> hm_inv iwin_id (es_windows s)"

lemma apply_layout_changes_inv:
  "hm_inv iwin_id m \<Longrightarrow> apply_layout_changes cs m = Some m' \<Longrightarrow> hm_inv iwin_id m'"
  by (induction cs m rule: apply_layout_changes.induct)
     (auto split: option.splits simp: hm_inv_upd)

lemma windows_inv_apply:
  "windows_inv s \<Longrightarrow> windows_apply e s = Some (s', r) \<Longrightarrow> windows_inv s'"
  by (cases "(e, s)" rule: windows_apply.cases)
     (auto simp: windows_inv_def Let_def intro!: hm_inv_for hm_inv_insert hm_inv_remove hm_inv_for_first
        dest: apply_layout_changes_inv split: option.splits if_splits)

interpretation wins: state_part windows_default windows_replicate windows_apply windows_handles windows_inv
proof
  fix e s s' r
  show "\<not> windows_handles e \<Longrightarrow> windows_apply e s = Some (s, Some e)"
    by (cases e) auto
  show "windows_handles e \<Longrightarrow> windows_apply e s = Some (s', r) \<Longrightarrow> r = None"
    by (cases e) (auto simp: Let_def split: option.splits)
  show "windows_inv windows_default"
    by (simp add: windows_inv_def windows_default_def)
  show "windows_inv s \<Longrightarrow> windows_apply e s = Some (s', r) \<Longrightarrow> windows_inv s'"
    by (rule windows_inv_apply)
  show "e \<in> set (windows_replicate s) \<Longrightarrow> windows_handles e"
    by (auto simp: windows_replicate_def)
  show "windows_inv s \<Longrightarrow> run_events windows_apply (windows_replicate s) windows_default = Some s"
    by (simp add: windows_replicate_def windows_inv_def windows_default_def hm_collect_values)
qed

subsection \<open>Keyboard layouts, overview and config\<close>

definition keyboard_default :: keyboard_layouts_state where
  "keyboard_default = \<lparr>es_keyboard_layouts = None\<rparr>"

definition keyboard_replicate :: "keyboard_layouts_state \<Rightarrow> event list" where
  "keyboard_replicate s =
     (case es_keyboard_layouts s of Some kb \<Rightarrow> [KeyboardLayoutsChanged kb] | None \<Rightarrow> [])"

fun keyboard_apply ::
  "event \<Rightarrow> keyboard_layouts_state \<Rightarrow> (keyboard_layouts_state \<times> event option) option" where
  "keyboard_apply (KeyboardLayoutsChanged kb) s = Some (s\<lparr>es_keyboard_layouts := Some kb\<rparr>, None)"
| "keyboard_apply (KeyboardLayoutSwitched idx) s =
     (case es_keyboard_layouts s of
        None \<Rightarrow> None
      | Some kb \<Rightarrow> Some (s\<lparr>es_keyboard_layouts := Some (kb\<lparr>kb_current_idx := idx\<rparr>)\<rparr>, None))"
| "keyboard_apply e s = Some (s, Some e)"

fun keyboard_handles :: "event \<Rightarrow> bool" where
  "keyboard_handles (KeyboardLayoutsChanged _) = True"
| "keyboard_handles (KeyboardLayoutSwitched _) = True"
| "keyboard_handles _ = False"

interpretation kbs: state_part keyboard_default keyboard_replicate keyboard_apply keyboard_handles "\<lambda>_. True"
proof
  fix e s s' r
  show "\<not> keyboard_handles e \<Longrightarrow> keyboard_apply e s = Some (s, Some e)"
    by (cases e) auto
  show "keyboard_handles e \<Longrightarrow> keyboard_apply e s = Some (s', r) \<Longrightarrow> r = None"
    by (cases e) (auto split: option.splits)
  show "e \<in> set (keyboard_replicate s) \<Longrightarrow> keyboard_handles e"
    by (auto simp: keyboard_replicate_def split: option.splits)
  show "run_events keyboard_apply (keyboard_replicate s) keyboard_default = Some s"
    by (cases s) (auto simp: keyboard_replicate_def keyboard_default_def split: option.splits)
qed auto

definition overview_default :: overview_state where
  "overview_default = \<lparr>es_is_open = False\<rparr>"

definition overview_replicate :: "overview_state \<Rightarrow> event list" where
  "overview_replicate s = [OverviewOpenedOrClosed (es_is_open s)]"

fun overview_apply :: "event \<Rightarrow> overview_state \<Rightarrow> (overview_state \<times> event option) option" where
  "overview_apply (OverviewOpenedOrClosed b) s = Some (s\<lparr>es_is_open := b\<rparr>, None)"
| "overview_apply e s = Some (s, Some e)"

fun overview_handles :: "event \<Rightarrow> bool" where
  "overview_handles (OverviewOpenedOrClosed _) = True"
| "overview_handles _ = False"

interpretation ovs: state_part overview_default overview_replicate overview_apply overview_handles "\<lambda>_. True"
proof
  fix e s s' r
  show "\<not> overview_handles e \<Longrightarrow> overview_apply e s = Some (s, Some e)"
    by (cases e) auto
  show "overview_handles e \<Longrightarrow> overview_apply e s = Some (s', r) \<Longrightarrow> r = None"
    by (cases e) auto
qed (auto simp: overview_replicate_def overview_default_def)

definition config_default :: config_state where
  "config_default = \<lparr>es_failed = False\<rparr>"

definition config_replicate :: "config_state \<Rightarrow> event list" where
  "config_replicate s = [ConfigLoaded (es_failed s)]"

fun config_apply :: "event \<Rightarrow> config_state \<Rightarrow> (config_state \<times> event option) option" where
  "config_apply (ConfigLoaded b) s = Some (s\<lparr>es_failed := b\<rparr>, None)"
| "config_apply e s = Some (s, Some e)"

fun config_handles :: "event \<Rightarrow> bool" where
  "config_handles (ConfigLoaded _) = True"
| "config_handles _ = False"

interpretation cfs: state_part config_default config_replicate config_apply config_handles "\<lambda>_. True"
proof
  fix e s s' r
  show "\<not> config_handles e \<Longrightarrow> config_apply e s = Some (s, Some e)"
    by (cases e) auto
  show "config_handles e \<Longrightarrow> config_apply e s = Some (s', r) \<Longrightarrow> r = None"
    by (cases e) auto
qed (auto simp: config_replicate_def config_default_def)

subsection \<open>Casts\<close>

definition casts_default :: casts_state where
  "casts_default = \<lparr>es_casts = []\<rparr>"

definition casts_replicate :: "casts_state \<Rightarrow> event list" where
  "casts_replicate s = [CastsChanged (hm_values (es_casts s))]"

fun casts_apply :: "event \<Rightarrow> casts_state \<Rightarrow> (casts_state \<times> event option) option" where
  "casts_apply (CastsChanged cs) s = Some (s\<lparr>es_casts := hm_collect cast_stream_id cs\<rparr>, None)"
| "casts_apply (CastStartedOrChanged c) s =
     Some (s\<lparr>es_casts := hm_insert (cast_stream_id c) c (es_casts s)\<rparr>, None)"
| "casts_apply (CastStopped i) s =
     (case map_of (es_casts s) i of
        None \<Rightarrow> None
      | Some _ \<Rightarrow> Some (s\<lparr>es_casts := hm_remove i (es_casts s)\<rparr>, None))"
| "casts_apply e s = Some (s, Some e)"

fun casts_handles :: "event \<Rightarrow> bool" where
  "casts_handles (CastsChanged _) = True"
| "casts_handles (CastStartedOrChanged _) = True"
| "casts_handles (CastStopped _) = True"
| "casts_handles _ = False"

definition casts_inv :: "casts_state \<Rightarrow> bool" where
  "casts_inv s \<longleftrightarrow> hm_inv cast_stream_id (es_casts s)"

interpretation cas: state_part casts_default casts_replicate casts_apply casts_handles casts_inv
proof
  fix e s s' r
  show "\<not> casts_handles e \<Longrightarrow> casts_apply e s = Some (s, Some e)"
    by (cases e) auto
  show "casts_handles e \<Longrightarrow> casts_apply e s = Some (s', r) \<Longrightarrow> r = None"
    by (cases e) (auto split: option.splits)
  show "casts_inv casts_default"
    by (simp add: casts_inv_def casts_default_def)
  show "casts_inv s \<Longrightarrow> casts_apply e s = Some (s', r) \<Longrightarrow> casts_inv s'"
    by (cases "(e, s)" rule: casts_apply.cases)
       (auto simp: casts_inv_def intro!: hm_inv_insert hm_inv_remove split: option.splits)
  show "e \<in> set (casts_replicate s) \<Longrightarrow> casts_handles e"
    by (auto simp: casts_replicate_def)
  show "casts_inv s \<Longrightarrow> run_events casts_apply (casts_replicate s) casts_default = Some s"
    by (simp add: casts_replicate_def casts_inv_def casts_default_def hm_collect_values)
qed

section \<open>The full state\<close>

record event_stream_state =
  ess_workspaces :: workspaces_state
  ess_windows :: windows_state
  ess_keyboard_layouts :: keyboard_layouts_state
  ess_overview :: overview_state
  ess_config :: config_state
  ess_casts :: casts_state

definition event_stream_default :: event_stream_state where
  "event_stream_default =
     \<lparr>ess_workspaces = workspaces_default, ess_windows = windows_default,
      ess_keyboard_layouts = keyboard_default, ess_overview = overview_default,
      ess_config = config_default, ess_casts = casts_default\<rparr>"

definition event_stream_replicate :: "event_stream_state \<Rightarrow> event list" where
  "event_stream_replicate s =
     workspaces_replicate (ess_workspaces s) @ windows_replicate (ess_windows s) @
     keyboard_replicate (ess_keyboard_layouts s) @ overview_replicate (ess_overview s) @
     config_replicate (ess_config s) @ casts_replicate (ess_casts s)"

text \<open>The \<open>?\<close> operator after each part: stop with \<open>None\<close> as soon as a part consumes the event.\<close>

definition event_stream_apply ::
  "event \<Rightarrow> event_stream_state \<Rightarrow> (event_stream_state \<times> event option) option" where
  "event_stream_apply e s =
    (case workspaces_apply e (ess_workspaces s) of None \<Rightarrow> None | Some (p, r) \<Rightarrow>
      let s = s\<lparr>ess_workspaces := p\<rparr> in case r of None \<Rightarrow> Some (s, None) | Some e \<Rightarrow>
    (case windows_apply e (ess_windows s) of None \<Rightarrow> None | Some (p, r) \<Rightarrow>
      let s = s\<lparr>ess_windows := p\<rparr> in case r of None \<Rightarrow> Some (s, None) | Some e \<Rightarrow>
    (case keyboard_apply e (ess_keyboard_layouts s) of None \<Rightarrow> None | Some (p, r) \<Rightarrow>
      let s = s\<lparr>ess_keyboard_layouts := p\<rparr> in case r of None \<Rightarrow> Some (s, None) | Some e \<Rightarrow>
    (case overview_apply e (ess_overview s) of None \<Rightarrow> None | Some (p, r) \<Rightarrow>
      let s = s\<lparr>ess_overview := p\<rparr> in case r of None \<Rightarrow> Some (s, None) | Some e \<Rightarrow>
    (case config_apply e (ess_config s) of None \<Rightarrow> None | Some (p, r) \<Rightarrow>
      let s = s\<lparr>ess_config := p\<rparr> in case r of None \<Rightarrow> Some (s, None) | Some e \<Rightarrow>
    (case casts_apply e (ess_casts s) of None \<Rightarrow> None | Some (p, r) \<Rightarrow>
      let s = s\<lparr>ess_casts := p\<rparr> in case r of None \<Rightarrow> Some (s, None) | Some e \<Rightarrow> Some (s, Some e)))))))"

definition event_stream_handles :: "event \<Rightarrow> bool" where
  "event_stream_handles e \<longleftrightarrow> workspaces_handles e \<or> windows_handles e \<or> keyboard_handles e \<or>
     overview_handles e \<or> config_handles e \<or> casts_handles e"

definition event_stream_inv :: "event_stream_state \<Rightarrow> bool" where
  "event_stream_inv s \<longleftrightarrow> workspaces_inv (ess_workspaces s) \<and> windows_inv (ess_windows s) \<and>
     casts_inv (ess_casts s)"

text \<open>The composite is the product of its parts: an event reaches the part that handles it, whatever
  the others hold.\<close>

definition run_parts :: "event list \<Rightarrow> event_stream_state \<Rightarrow> event_stream_state option" where
  "run_parts es s = do {
     w \<leftarrow> run_events workspaces_apply es (ess_workspaces s);
     n \<leftarrow> run_events windows_apply es (ess_windows s);
     k \<leftarrow> run_events keyboard_apply es (ess_keyboard_layouts s);
     v \<leftarrow> run_events overview_apply es (ess_overview s);
     c \<leftarrow> run_events config_apply es (ess_config s);
     a \<leftarrow> run_events casts_apply es (ess_casts s);
     Some \<lparr>ess_workspaces = w, ess_windows = n, ess_keyboard_layouts = k, ess_overview = v,
           ess_config = c, ess_casts = a\<rparr> }"

lemma event_stream_apply_one:
  "map_option fst (event_stream_apply e s) = run_parts [e] s"
  "map_option snd (event_stream_apply e s) =
     map_option (\<lambda>_. if event_stream_handles e then None else Some e) (run_parts [e] s)"
  by (cases s; cases e; simp add: event_stream_apply_def run_parts_def event_stream_handles_def
        Let_def split: option.splits)+

lemma run_parts_Cons: "run_parts (e # es) s = Option.bind (run_parts [e] s) (run_parts es)"
  by (simp add: run_parts_def split: option.splits Option.bind_splits)

lemma event_stream_parts: "run_events event_stream_apply es s = run_parts es s"
proof (induction es arbitrary: s)
  case Nil
  then show ?case by (simp add: run_parts_def)
next
  case (Cons e es)
  have IH: "run_events event_stream_apply es = run_parts es"
    by (rule ext) (rule Cons.IH)
  have "run_events event_stream_apply (e # es) s =
      Option.bind (map_option fst (event_stream_apply e s)) (run_events event_stream_apply es)"
    by (auto split: option.splits)
  also have "\<dots> = run_parts (e # es) s"
    by (subst run_parts_Cons) (simp add: event_stream_apply_one IH)
  finally show ?case .
qed

lemma run_parts_Some:
  "run_parts es s = Some s' \<Longrightarrow>
     run_events workspaces_apply es (ess_workspaces s) = Some (ess_workspaces s') \<and>
     run_events windows_apply es (ess_windows s) = Some (ess_windows s') \<and>
     run_events casts_apply es (ess_casts s) = Some (ess_casts s')"
  by (auto simp: run_parts_def bind_eq_Some_conv simp del: run_events.simps)

interpretation ess: state_part event_stream_default event_stream_replicate event_stream_apply
    event_stream_handles event_stream_inv
proof
  fix e s s' r
  note one = event_stream_apply_one[of e s]
  show "event_stream_handles e \<Longrightarrow> event_stream_apply e s = Some (s', r) \<Longrightarrow> r = None"
    using one(2) by (cases "run_parts [e] s") simp_all
  show "\<not> event_stream_handles e \<Longrightarrow> event_stream_apply e s = Some (s, Some e)"
    by (cases e) (auto simp: event_stream_apply_def event_stream_handles_def)
  show "event_stream_inv event_stream_default"
    by (simp add: event_stream_inv_def event_stream_default_def wss.inv_dflt wins.inv_dflt cas.inv_dflt)
  show "event_stream_inv s \<Longrightarrow> event_stream_apply e s = Some (s', r) \<Longrightarrow> event_stream_inv s'"
    using one(1) run_parts_Some[of "[e]" s s'] wss.run_inv[of _ "[e]"] wins.run_inv[of _ "[e]"]
      cas.run_inv[of _ "[e]"]
    unfolding event_stream_inv_def by (metis fst_conv option.simps(9))
  show "e \<in> set (event_stream_replicate s) \<Longrightarrow> event_stream_handles e"
    by (auto simp: event_stream_replicate_def event_stream_handles_def dest: wss.replicate_handled
        wins.replicate_handled kbs.replicate_handled ovs.replicate_handled cfs.replicate_handled
        cas.replicate_handled)
  assume inv: "event_stream_inv s"
  have f: "filter workspaces_handles (event_stream_replicate s) = workspaces_replicate (ess_workspaces s)"
    "filter windows_handles (event_stream_replicate s) = windows_replicate (ess_windows s)"
    "filter keyboard_handles (event_stream_replicate s) = keyboard_replicate (ess_keyboard_layouts s)"
    "filter overview_handles (event_stream_replicate s) = overview_replicate (ess_overview s)"
    "filter config_handles (event_stream_replicate s) = config_replicate (ess_config s)"
    "filter casts_handles (event_stream_replicate s) = casts_replicate (ess_casts s)"
    by (simp_all add: event_stream_replicate_def workspaces_replicate_def windows_replicate_def
        keyboard_replicate_def overview_replicate_def config_replicate_def casts_replicate_def
        split: option.splits)
  show "run_events event_stream_apply (event_stream_replicate s) event_stream_default = Some s"
    using inv unfolding event_stream_parts run_parts_def
    by (simp add: event_stream_inv_def event_stream_default_def f wss.replicate_run wins.replicate_run
        kbs.replicate_run ovs.replicate_run cfs.replicate_run cas.replicate_run
        wss.run_filter[of "event_stream_replicate s"] wins.run_filter[of "event_stream_replicate s"]
        kbs.run_filter[of "event_stream_replicate s"] ovs.run_filter[of "event_stream_replicate s"]
        cfs.run_filter[of "event_stream_replicate s"] cas.run_filter[of "event_stream_replicate s"])
qed

section \<open>Properties\<close>

text \<open>Property C6. Whatever events led to a state, feeding the events that
  \<open>replicate\<close> returns to a default state rebuilds exactly that state, without a panic: a client that
  connects late sees what an early one sees.\<close>

theorem event_stream_replicates:
  assumes "run_events event_stream_apply es event_stream_default = Some s"
  shows "run_events event_stream_apply (event_stream_replicate s) event_stream_default = Some s"
  using assms by (rule ess.reachable_replicates)

theorem event_stream_replicates_witness:
  "run_events event_stream_apply (event_stream_replicate (event_stream_default\<lparr>ess_overview := \<lparr>es_is_open = True\<rparr>\<rparr>))
     event_stream_default = Some (event_stream_default\<lparr>ess_overview := \<lparr>es_is_open = True\<rparr>\<rparr>)"
  by (rule event_stream_replicates[of "[OverviewOpenedOrClosed True]"])
     (simp add: event_stream_apply_def event_stream_default_def)

text \<open>Property C13. The six parts do not interfere: the state after any events is,
  part by part, the state after the events that part handles, and the composite panics exactly when
  a part does.\<close>

theorem event_stream_demux:
  "run_events event_stream_apply es s = do {
     w \<leftarrow> run_events workspaces_apply (filter workspaces_handles es) (ess_workspaces s);
     n \<leftarrow> run_events windows_apply (filter windows_handles es) (ess_windows s);
     k \<leftarrow> run_events keyboard_apply (filter keyboard_handles es) (ess_keyboard_layouts s);
     v \<leftarrow> run_events overview_apply (filter overview_handles es) (ess_overview s);
     c \<leftarrow> run_events config_apply (filter config_handles es) (ess_config s);
     a \<leftarrow> run_events casts_apply (filter casts_handles es) (ess_casts s);
     Some \<lparr>ess_workspaces = w, ess_windows = n, ess_keyboard_layouts = k, ess_overview = v,
           ess_config = c, ess_casts = a\<rparr> }"
  unfolding event_stream_parts run_parts_def
  by (simp only: wss.run_filter[symmetric] wins.run_filter[symmetric] kbs.run_filter[symmetric]
      ovs.run_filter[symmetric] cfs.run_filter[symmetric] cas.run_filter[symmetric])

subsection \<open>Windows against maps\<close>

text \<open>The windows state as a map from ids, and the meaning of each event there.\<close>

definition windows_abs :: "windows_state \<Rightarrow> u64_id \<Rightarrow> ipc_window option" where
  "windows_abs s = map_of (es_windows s)"

fun windows_spec :: "event \<Rightarrow> (u64_id \<Rightarrow> ipc_window option) \<Rightarrow> (u64_id \<Rightarrow> ipc_window option) option" where
  "windows_spec (WindowsChanged wins) m = Some (map_of (rev (map (\<lambda>w. (iwin_id w, w)) wins)))"
| "windows_spec (WindowOpenedOrChanged win) m = Some (\<lambda>i.
     if i = iwin_id win then Some win
     else if iwin_is_focused win then map_option (\<lambda>w. w\<lparr>iwin_is_focused := False\<rparr>) (m i) else m i)"
| "windows_spec (WindowClosed i) m = (if m i = None then None else Some (m(i := None)))"
| "windows_spec (WindowFocusChanged i) m =
     Some (\<lambda>j. map_option (\<lambda>w. w\<lparr>iwin_is_focused := (Some j = i)\<rparr>) (m j))"
| "windows_spec (WindowFocusTimestampChanged i ts) m =
     Some (m(i := map_option (\<lambda>w. w\<lparr>iwin_focus_timestamp := ts\<rparr>) (m i)))"
| "windows_spec (WindowUrgencyChanged i urgent) m =
     Some (m(i := map_option (\<lambda>w. w\<lparr>iwin_is_urgent := urgent\<rparr>) (m i)))"
| "windows_spec (WindowLayoutsChanged cs) m =
     (if \<forall>c \<in> set cs. m (fst c) \<noteq> None
      then Some (\<lambda>i. map_option (\<lambda>w. case map_of (rev cs) i of
                  None \<Rightarrow> w | Some l \<Rightarrow> w\<lparr>iwin_layout := l\<rparr>) (m i))
      else None)"
| "windows_spec e m = Some m"

lemma hm_collect_abs: "map_of (hm_collect key vs) = map_of (rev (map (\<lambda>v. (key v, v)) vs))"
  by (induction vs rule: rev_induct) (auto simp: hm_collect_snoc hm_simps hm_collect_def[of _ "[]"])

lemma apply_layout_changes_abs:
  "map_option map_of (apply_layout_changes cs m) =
    (if \<forall>c \<in> set cs. map_of m (fst c) \<noteq> None
     then Some (\<lambda>i. map_option (\<lambda>w. case map_of (rev cs) i of
                  None \<Rightarrow> w | Some l \<Rightarrow> w\<lparr>iwin_layout := l\<rparr>) (map_of m i))
     else None)"
proof (induction cs m rule: apply_layout_changes.induct)
  case (2 i update cs m)
  then show ?case
    by (auto simp: hm_simps map_add_def fun_eq_iff option.map_comp comp_def
        split: option.splits if_splits, force+)
qed (simp add: option.map_ident)

lemma windows_abs_apply:
  assumes "windows_inv s"
  shows "map_option (windows_abs \<circ> fst) (windows_apply e s) = windows_spec e (windows_abs s)"
proof -
  have key: "map_of (es_windows s) i = Some w \<Longrightarrow> iwin_id w = i" for i w
    using assms by (auto simp: windows_inv_def dest: hm_inv_value)
  note m = assms[unfolded windows_inv_def]
  show ?thesis
  proof (cases e)
    case (WindowLayoutsChanged cs)
    have "map_option (windows_abs \<circ> fst) (windows_apply e s) =
        map_option map_of (apply_layout_changes cs (es_windows s))"
      by (simp add: WindowLayoutsChanged windows_abs_def split: option.split)
    then show ?thesis
      by (simp add: WindowLayoutsChanged windows_abs_def apply_layout_changes_abs)
  next
    case (WindowOpenedOrChanged win)
    have "hm_inv iwin_id (hm_insert (iwin_id win) win (es_windows s))"
      using m by (simp add: hm_inv_insert)
    then show ?thesis
      by (auto simp: WindowOpenedOrChanged windows_abs_def hm_simps fun_eq_iff Let_def
          intro!: option.map_cong dest: key)
  qed (use m in \<open>auto simp: windows_abs_def hm_simps hm_collect_abs fun_eq_iff Let_def
        intro!: option.map_cong option.map_ident_strong dest: key split: option.split\<close>)
qed

text \<open>Property C12. The windows part, with its loops over the hash map, implements the
  pointwise description of the events on the map from window ids; it panics exactly when that
  description has no result.\<close>

theorem windows_refines:
  assumes "windows_inv s"
  shows "map_option (windows_abs \<circ> fst) (windows_apply e s) = windows_spec e (windows_abs s)"
  by (rule windows_abs_apply[OF assms])

theorem windows_refines_witness:
  "map_option (windows_abs \<circ> fst) (windows_apply (WindowClosed 7) windows_default) = None"
  using windows_refines[of windows_default "WindowClosed 7"]
  by (simp add: windows_inv_def windows_default_def windows_abs_def)

subsection \<open>Focus\<close>

definition focused_ids :: "windows_state \<Rightarrow> u64_id set" where
  "focused_ids s = {i. \<exists>w. windows_abs s i = Some w \<and> iwin_is_focused w}"

text \<open>The full lists the compositor sends name at most one focused window.\<close>

fun event_one_focus :: "event \<Rightarrow> bool" where
  "event_one_focus (WindowsChanged wins) =
     list_all (\<lambda>v. list_all (\<lambda>w. iwin_is_focused v \<longrightarrow> iwin_is_focused w \<longrightarrow> iwin_id v = iwin_id w) wins) wins"
| "event_one_focus _ = True"

definition at_most_one_focused :: "windows_state \<Rightarrow> bool" where
  "at_most_one_focused s \<longleftrightarrow> (\<forall>i j. i \<in> focused_ids s \<longrightarrow> j \<in> focused_ids s \<longrightarrow> i = j)"

lemma map_of_rev_keyed: "map_of (rev (map (\<lambda>w. (f w, w)) ws)) i = Some w \<Longrightarrow> w \<in> set ws \<and> f w = i"
  by (drule map_of_SomeD) auto

text \<open>Apart from a list, an opened window and a focus change, no event focuses a window.\<close>

lemma windows_spec_keeps_focus:
  assumes "windows_spec e m = Some m'" and "m' i = Some w" and "iwin_is_focused w"
    and "case e of WindowsChanged _ \<Rightarrow> False | WindowOpenedOrChanged _ \<Rightarrow> False
         | WindowFocusChanged _ \<Rightarrow> False | _ \<Rightarrow> True"
  shows "\<exists>v. m i = Some v \<and> iwin_is_focused v"
  using assms by (cases e) (auto split: if_splits option.splits)

lemma one_focus_apply:
  assumes inv: "windows_inv s" and one: "at_most_one_focused s" and e: "event_one_focus e"
    and step: "windows_apply e s = Some (s', r)"
  shows "at_most_one_focused s'"
proof -
  from windows_abs_apply[OF inv, of e] step
  have spec: "windows_spec e (windows_abs s) = Some (windows_abs s')" by simp
  have fewer: "focused_ids s' \<subseteq> focused_ids s \<Longrightarrow> ?thesis"
    using one by (auto simp: at_most_one_focused_def)
  have other: ?thesis if "case e of WindowsChanged _ \<Rightarrow> False | WindowOpenedOrChanged _ \<Rightarrow> False
      | WindowFocusChanged _ \<Rightarrow> False | _ \<Rightarrow> True"
    using windows_spec_keeps_focus[OF spec _ _ that] by (intro fewer) (auto simp: focused_ids_def)
  show ?thesis
  proof (cases e)
    case (WindowsChanged wins)
    have ok: "iwin_id v = iwin_id w"
      if "v \<in> set wins" "w \<in> set wins" "iwin_is_focused v" "iwin_is_focused w" for v w
      using e that unfolding WindowsChanged event_one_focus.simps list_all_iff by blast
    from WindowsChanged spec have "windows_abs s' = map_of (rev (map (\<lambda>w. (iwin_id w, w)) wins))" by simp
    then show ?thesis
      unfolding at_most_one_focused_def focused_ids_def
      by (auto dest!: map_of_rev_keyed dest: ok)
  next
    case (WindowOpenedOrChanged win)
    have eq: "windows_abs s' = (\<lambda>i. if i = iwin_id win then Some win
        else if iwin_is_focused win then map_option (\<lambda>w. w\<lparr>iwin_is_focused := False\<rparr>) (windows_abs s i)
        else windows_abs s i)"
      using spec[symmetric] unfolding WindowOpenedOrChanged windows_spec.simps option.inject .
    show ?thesis
    proof (cases "iwin_is_focused win")
      case True
      have "windows_abs s' = (\<lambda>i. if i = iwin_id win then Some win
          else map_option (\<lambda>w. w\<lparr>iwin_is_focused := False\<rparr>) (windows_abs s i))"
        unfolding eq using True by (simp cong: if_cong)
      then have "focused_ids s' \<subseteq> {iwin_id win}"
        by (auto simp: focused_ids_def split: if_splits)
      then show ?thesis by (auto simp: at_most_one_focused_def)
    next
      case False
      have "windows_abs s' = (windows_abs s)(iwin_id win \<mapsto> win)"
        unfolding eq using False by (auto simp: fun_eq_iff)
      then show ?thesis
        using False by (intro fewer) (auto simp: focused_ids_def split: if_splits)
    qed
  next
    case (WindowFocusChanged i)
    have "windows_abs s' = (\<lambda>j. map_option (\<lambda>w. w\<lparr>iwin_is_focused := (Some j = i)\<rparr>) (windows_abs s j))"
      using spec WindowFocusChanged by simp
    then show ?thesis by (auto simp: at_most_one_focused_def focused_ids_def)
  qed (simp_all add: other)
qed

text \<open>A client never sees two focused windows: from the default state,
  after any events whose full window lists name at most one focused window, at most one window of
  the state is focused, however the single-window updates in between are ordered.\<close>

theorem one_focused_window:
  assumes "list_all event_one_focus es"
    and "run_events event_stream_apply es event_stream_default = Some s"
  shows "at_most_one_focused (ess_windows s)"
proof -
  have "windows_inv t \<Longrightarrow> at_most_one_focused t \<Longrightarrow> list_all event_one_focus es \<Longrightarrow>
      run_events windows_apply es t = Some t' \<Longrightarrow> at_most_one_focused t'" for t t'
  proof (induction es arbitrary: t)
    case (Cons e es)
    from Cons.prems(4) obtain u r where u: "windows_apply e t = Some (u, r)"
        "run_events windows_apply es u = Some t'"
      by (auto split: option.splits)
    from Cons.prems(3) have "event_one_focus e" "list_all event_one_focus es" by auto
    with Cons.IH[OF _ _ _ u(2)] show ?case
      using one_focus_apply[OF Cons.prems(1,2) _ u(1)] windows_inv_apply[OF Cons.prems(1) u(1)] by blast
  qed simp
  moreover have "run_events windows_apply es windows_default = Some (ess_windows s)"
    using run_parts_Some assms(2) unfolding event_stream_parts
    by (force simp: event_stream_default_def)
  moreover have "at_most_one_focused windows_default"
    by (simp add: at_most_one_focused_def focused_ids_def windows_abs_def windows_default_def)
  ultimately show ?thesis using assms(1) wins.inv_dflt by blast
qed

theorem one_focused_window_witness:
  "\<exists>s. run_events event_stream_apply [WindowFocusChanged (Some 3)] event_stream_default = Some s \<and>
     at_most_one_focused (ess_windows s)"
  by (rule exI, rule conjI, simp add: event_stream_apply_def, rule one_focused_window[of "[WindowFocusChanged (Some 3)]"])
     (simp_all add: event_stream_apply_def)

text \<open>\<open>WorkspaceActivated\<close> for a known workspace makes it the only
  active workspace of its output and leaves the activity of other outputs alone; with \<open>focused\<close> it
  also becomes the only focused workspace. For an unknown workspace the client panics.\<close>

theorem workspace_activation:
  assumes inv: "workspaces_inv s"
  shows "case map_of (es_workspaces s) i of
      None \<Rightarrow> workspaces_apply (WorkspaceActivated i focused) s = None
    | Some ws \<Rightarrow> (\<exists>s'. workspaces_apply (WorkspaceActivated i focused) s = Some (s', None) \<and>
        (\<forall>j. map_of (es_workspaces s') j = map_option (\<lambda>v. v\<lparr>
             iws_is_active := (if iws_output v = iws_output ws then j = i else iws_is_active v),
             iws_is_focused := (if focused then j = i else iws_is_focused v)\<rparr>) (map_of (es_workspaces s) j)))"
proof (cases "map_of (es_workspaces s) i")
  case (Some ws)
  have key: "iws_id v = j" if "map_of (es_workspaces s) j = Some v" for j v
    using inv that by (auto simp: workspaces_inv_def dest: hm_inv_value)
  show ?thesis
    using Some by (auto simp: hm_simps workspace_activated_def Let_def intro!: option.map_cong dest: key)
qed simp

theorem workspace_activation_witness:
  "workspaces_apply (WorkspaceActivated 1 True) workspaces_default = None"
  using workspace_activation[of workspaces_default 1 True]
  by (simp add: workspaces_inv_def workspaces_default_def)

end
