(* ===== verification/Clocks.thy ===== *)
theory Clocks
  imports Prelude
begin

text \<open>
  Time: the lazy, adjustable clock that every animation reads (\<^verbatim>\<open>animation/clock.rs\<close>), the
  presentation clock of an output (\<^verbatim>\<open>frame_clock.rs\<close>), the VBlank throttle
  (\<^verbatim>\<open>utils/vblank_throttle.rs\<close>) and the counter of identifiers (\<^verbatim>\<open>utils/id.rs\<close>).
  The reading of \<open>get_monotonic_time\<close> is an argument \<open>mt\<close>. Sums of durations do not overflow.
\<close>

definition dur_of_millis :: "nat \<Rightarrow> duration" where
  "dur_of_millis ms = ms * 1000000"

definition dur_as_millis :: "duration \<Rightarrow> nat" where
  "dur_as_millis d = d div 1000000"

definition dur_as_secs :: "duration \<Rightarrow> f64" where
  "dur_as_secs d = real d / 10 ^ 9"

text \<open>\<open>from_secs_f64\<close> rounds to the nearest nanosecond and panics below zero and from \<open>2 ^ 64\<close>
  seconds on.\<close>

definition dur_of_secs :: "f64 \<Rightarrow> duration option" where
  "dur_of_secs x = (if x < 0 \<or> 2 ^ 64 \<le> x then None else Some (nat (round (x * 10 ^ 9))))"

definition dur_mul :: "duration \<Rightarrow> f64 \<Rightarrow> duration" where
  "dur_mul d r = nat (round (real d * r))"

definition dur_max :: duration where
  "dur_max = (2 ^ 64 - 1) * 10 ^ 9 + 999999999"

section \<open>The adjustable clock\<close>

record lazy_clock = lz_time :: "duration option"

record adjustable_clock =
  ac_inner :: lazy_clock
  ac_current_time :: duration
  ac_last_seen_time :: duration
  ac_rate :: f64
  ac_complete_instantly :: bool

definition lazy_with_time :: "duration \<Rightarrow> lazy_clock" where
  "lazy_with_time t = \<lparr>lz_time = Some t\<rparr>"

definition lazy_clear :: "lazy_clock \<Rightarrow> lazy_clock" where
  "lazy_clear c = c\<lparr>lz_time := None\<rparr>"

definition lazy_set :: "duration \<Rightarrow> lazy_clock \<Rightarrow> lazy_clock" where
  "lazy_set t c = c\<lparr>lz_time := Some t\<rparr>"

definition lazy_now :: "duration \<Rightarrow> lazy_clock \<Rightarrow> duration \<times> lazy_clock" where
  "lazy_now mt c = (case lz_time c of
     Some t \<Rightarrow> (t, c) | None \<Rightarrow> (mt, c\<lparr>lz_time := Some mt\<rparr>))"

definition clock_new :: "duration \<Rightarrow> lazy_clock \<Rightarrow> adjustable_clock" where
  "clock_new mt inner =
     (let (time, inner) = lazy_now mt inner
      in \<lparr>ac_inner = inner, ac_current_time = time, ac_last_seen_time = time,
          ac_rate = 1, ac_complete_instantly = False\<rparr>)"

definition clock_set_rate :: "f64 \<Rightarrow> adjustable_clock \<Rightarrow> adjustable_clock" where
  "clock_set_rate r c = c\<lparr>ac_rate := f_clamp r 0 1000\<rparr>"

definition clock_set_complete_instantly :: "bool \<Rightarrow> adjustable_clock \<Rightarrow> adjustable_clock" where
  "clock_set_complete_instantly v c = c\<lparr>ac_complete_instantly := v\<rparr>"

definition clock_set_unadjusted :: "duration \<Rightarrow> adjustable_clock \<Rightarrow> adjustable_clock" where
  "clock_set_unadjusted t c = c\<lparr>ac_inner := lazy_set t (ac_inner c)\<rparr>"

definition clock_clear :: "adjustable_clock \<Rightarrow> adjustable_clock" where
  "clock_clear c = c\<lparr>ac_inner := lazy_clear (ac_inner c)\<rparr>"

definition clock_now_unadjusted :: "duration \<Rightarrow> adjustable_clock \<Rightarrow> duration \<times> adjustable_clock" where
  "clock_now_unadjusted mt c =
     (let (time, inner) = lazy_now mt (ac_inner c) in (time, c\<lparr>ac_inner := inner\<rparr>))"

text \<open>Natural subtraction is \<open>saturating_sub\<close>.\<close>

definition clock_now :: "duration \<Rightarrow> adjustable_clock \<Rightarrow> duration \<times> adjustable_clock" where
  "clock_now mt c =
     (let (time, inner) = lazy_now mt (ac_inner c); c = c\<lparr>ac_inner := inner\<rparr>
      in if ac_last_seen_time c = time then (ac_current_time c, c)
         else
           let cur = (if ac_last_seen_time c < time
                      then ac_current_time c + dur_mul (time - ac_last_seen_time c) (ac_rate c)
                      else ac_current_time c - dur_mul (ac_last_seen_time c - time) (ac_rate c));
               c = c\<lparr>ac_current_time := cur, ac_last_seen_time := time\<rparr>
           in (ac_current_time c, c))"

named_theorems clock_defs "definitions of the clock operations"

declare lazy_with_time_def [clock_defs] lazy_clear_def [clock_defs] lazy_set_def [clock_defs]
  lazy_now_def [clock_defs] clock_new_def [clock_defs] clock_set_rate_def [clock_defs]
  clock_set_unadjusted_def [clock_defs] clock_clear_def [clock_defs] clock_now_unadjusted_def [clock_defs]
  clock_now_def [clock_defs]

text \<open>Within one event-loop cycle time stands still: once the clock
  was read, every further reading gives the same value and leaves the clock as it is, however far the
  monotonic time has moved on, until the stored time is cleared or set.\<close>

theorem clock_stable_in_cycle:
  "clock_now mt' (snd (clock_now mt c)) = clock_now mt c"
  by (auto simp: clock_now_def lazy_now_def Let_def split: option.splits)

lemma dur_mul_mono: "a \<le> b \<Longrightarrow> 0 \<le> r \<Longrightarrow> dur_mul a r \<le> dur_mul b r"
  unfolding dur_mul_def by (intro nat_mono round_mono mult_right_mono) auto

lemma clock_now_current: "fst (clock_now mt c) = ac_current_time (snd (clock_now mt c))"
  by (simp add: clock_now_def Let_def split: prod.splits)

text \<open>While the underlying time advances from \<open>t1\<close> to \<open>t2\<close>, the adjusted
  time never runs backwards, whatever non-negative rate is set in between, and it advances by the
  elapsed time times the rate, to within half a nanosecond; at rate zero it stands still.\<close>

theorem clock_monotone:
  assumes "t1 \<le> t2"
  shows "let c1 = snd (clock_now m1 (clock_set_unadjusted t1 c));
             c2 = clock_set_rate r c1;
             d = real (fst (clock_now m2 (clock_set_unadjusted t2 c2))) - real (ac_current_time c1)
         in 0 \<le> d \<and> \<bar>d - real (t2 - t1) * f_clamp r 0 1000\<bar> \<le> 1/2"
proof -
  let ?r = "f_clamp r 0 1000"
  define c1 where "c1 = snd (clock_now m1 (clock_set_unadjusted t1 c))"
  have seen: "ac_last_seen_time c1 = t1"
    by (auto simp: c1_def clock_defs Let_def)
  have r: "0 \<le> ?r" by (auto simp: f_clamp_def)
  have x: "0 \<le> real (t2 - t1) * ?r" using r by simp
  have "fst (clock_now m2 (clock_set_unadjusted t2 (clock_set_rate r c1))) =
      ac_current_time c1 + dur_mul (t2 - t1) ?r"
    using assms seen by (auto simp: clock_defs Let_def dur_mul_def)
  moreover have "\<bar>real (dur_mul (t2 - t1) ?r) - real (t2 - t1) * ?r\<bar> \<le> 1/2"
  proof -
    have "0 \<le> round (real (t2 - t1) * ?r)"
      using round_mono[OF x] by simp
    then have "real (dur_mul (t2 - t1) ?r) = of_int (round (real (t2 - t1) * ?r))"
      by (simp add: dur_mul_def)
    then show ?thesis using of_int_round_abs_le[of "real (t2 - t1) * ?r"] by simp
  qed
  ultimately show ?thesis by (simp add: Let_def c1_def)
qed

theorem clock_monotone_witness:
  "let c1 = snd (clock_now 0 (clock_set_unadjusted 100 (clock_new 0 (lazy_with_time 0))));
       c2 = clock_set_rate (1/2) c1;
       d = real (fst (clock_now 0 (clock_set_unadjusted 200 c2))) - real (ac_current_time c1)
   in 0 \<le> d \<and> \<bar>d - real (200 - 100 :: nat) * f_clamp (1/2) 0 1000\<bar> \<le> 1/2"
  by (rule clock_monotone) simp

section \<open>The presentation clock\<close>

record frame_clock =
  fc_last_presentation_time :: "duration option"
  fc_refresh_interval_ns :: "nat option"
  fc_vrr :: bool

text \<open>The interval is below one second and not zero; \<open>new\<close> panics otherwise.\<close>

definition frame_clock_new :: "duration option \<Rightarrow> bool \<Rightarrow> frame_clock option" where
  "frame_clock_new interval vrr = do {
     ns \<leftarrow> (case interval of
        None \<Rightarrow> Some None
      | Some i \<Rightarrow> if i div 10 ^ 9 \<noteq> 0 \<or> i mod 10 ^ 9 = 0 then None else Some (Some (i mod 10 ^ 9)));
     Some \<lparr>fc_last_presentation_time = None, fc_refresh_interval_ns = ns, fc_vrr = vrr\<rparr> }"

definition frame_clock_set_vrr :: "bool \<Rightarrow> frame_clock \<Rightarrow> frame_clock" where
  "frame_clock_set_vrr v c =
     (if fc_vrr c = v then c else c\<lparr>fc_vrr := v, fc_last_presentation_time := None\<rparr>)"

definition frame_clock_presented :: "duration \<Rightarrow> frame_clock \<Rightarrow> frame_clock" where
  "frame_clock_presented t c = (if t = 0 then c else c\<lparr>fc_last_presentation_time := Some t\<rparr>)"

definition next_presentation_time :: "duration \<Rightarrow> frame_clock \<Rightarrow> duration" where
  "next_presentation_time mt c =
    (case (fc_refresh_interval_ns c, fc_last_presentation_time c) of
       (Some ri, Some lst) \<Rightarrow>
         let now = (if mt \<le> lst
                    then (let now = mt + ri in if now < lst then lst + ri else now)
                    else mt);
             since_last = now - lst;
             to_next = (since_last div ri + 1) * ri
         in if fc_vrr c \<and> to_next > ri then now else lst + to_next
     | _ \<Rightarrow> mt)"

text \<open>Property C15. With a known refresh interval and last presentation, the
  predicted time lies strictly after the last presentation; without VRR it is a whole number of
  refresh intervals later, after the current time and at most two intervals beyond the later of the
  two; with VRR and a frame missed it is the current time.\<close>

theorem next_presentation_time_ok:
  assumes ri: "fc_refresh_interval_ns c = Some ri" "0 < ri"
    and lst: "fc_last_presentation_time c = Some lst"
  shows "lst < next_presentation_time mt c \<and>
    next_presentation_time mt c \<le> max mt lst + 2 * ri \<and>
    mt \<le> next_presentation_time mt c \<and>
    (\<not> fc_vrr c \<longrightarrow> ri dvd (next_presentation_time mt c - lst)) \<and>
    (fc_vrr c \<and> lst + ri \<le> mt \<longrightarrow> next_presentation_time mt c = mt)"
proof -
  define now where "now = (if mt \<le> lst
      then (let now = mt + ri in if now < lst then lst + ri else now) else mt)"
  define k where "k = (now - lst) div ri"
  have np: "next_presentation_time mt c =
      (if fc_vrr c \<and> (k + 1) * ri > ri then now else lst + (k + 1) * ri)"
    using ri lst by (simp add: next_presentation_time_def Let_def now_def k_def)
  have now: "lst \<le> now" "mt \<le> now" "now \<le> max mt lst + ri" "lst < mt \<Longrightarrow> now = mt"
    by (auto simp: now_def Let_def)
  have kr: "k * ri \<le> now - lst" "now - lst < k * ri + ri"
    using dividend_less_div_times[OF ri(2), of "now - lst"] by (simp_all add: k_def add.commute)
  have kpos: "(k + 1) * ri > ri \<longleftrightarrow> ri \<le> now - lst"
    using ri(2) kr by (cases k) auto
  have "lst < next_presentation_time mt c"
    unfolding np using ri(2) now(1) kpos by auto
  moreover have "next_presentation_time mt c \<le> max mt lst + 2 * ri"
    unfolding np using now kr by auto
  moreover have "mt \<le> next_presentation_time mt c"
    unfolding np using now kr by auto
  moreover have "\<not> fc_vrr c \<Longrightarrow> ri dvd (next_presentation_time mt c - lst)"
    unfolding np by simp
  moreover have "fc_vrr c \<and> lst + ri \<le> mt \<Longrightarrow> next_presentation_time mt c = mt"
    unfolding np using kpos ri(2) now(4) by auto
  ultimately show ?thesis by blast
qed

theorem next_presentation_time_ok_witness:
  "next_presentation_time 1050 \<lparr>fc_last_presentation_time = Some 1000,
     fc_refresh_interval_ns = Some 16, fc_vrr = True\<rparr> = 1050"
  using next_presentation_time_ok[of "\<lparr>fc_last_presentation_time = Some 1000,
     fc_refresh_interval_ns = Some 16, fc_vrr = True\<rparr>" 16 1000 1050] by simp

section \<open>The VBlank throttle\<close>

text \<open>The event loop belongs to calloop: a timer is a token, \<open>tok\<close> is the one \<open>insert_source\<close>
  returns, and the timers to remove and to start are returned.\<close>

record vblank_throttle =
  vt_last_vblank_timestamp :: "duration option"
  vt_throttle_timer_token :: "nat option"
  vt_printed_warning :: bool

definition vblank_throttle_new :: vblank_throttle where
  "vblank_throttle_new = \<lparr>vt_last_vblank_timestamp = None, vt_throttle_timer_token = None,
     vt_printed_warning = False\<rparr>"

datatype timer_effect = RemoveTimer nat | StartTimer nat duration

definition vblank_throttle ::
  "nat \<Rightarrow> duration option \<Rightarrow> duration \<Rightarrow> vblank_throttle \<Rightarrow> bool \<times> timer_effect list \<times> vblank_throttle" where
  "vblank_throttle tok refresh_interval timestamp v =
    (let removed = (case vt_throttle_timer_token v of Some t \<Rightarrow> [RemoveTimer t] | None \<Rightarrow> []);
         v = v\<lparr>vt_throttle_timer_token := None\<rparr>;
         done = (False, removed, v\<lparr>vt_last_vblank_timestamp := Some timestamp\<rparr>)
     in case (vt_last_vblank_timestamp v, refresh_interval) of
          (Some lst, Some refresh) \<Rightarrow>
            let passed = timestamp - lst
            in if passed < refresh div 2
               then (True, removed @ [StartTimer tok (refresh - passed)],
                     v\<lparr>vt_printed_warning := True, vt_throttle_timer_token := Some tok\<rparr>)
               else done
        | _ \<Rightarrow> done)"

fun timers_after :: "timer_effect list \<Rightarrow> nat set \<Rightarrow> nat set" where
  "timers_after [] ts = ts"
| "timers_after (RemoveTimer t # es) ts = timers_after es (ts - {t})"
| "timers_after (StartTimer t d # es) ts = timers_after es (insert t ts)"

lemma timers_after_append: "timers_after (es @ fs) ts = timers_after fs (timers_after es ts)"
  by (induction es ts rule: timers_after.induct) auto

text \<open>The throttle never has more than the one timer it remembers, so a
  delayed VBlank is never delivered twice; a VBlank that arrives less than half a refresh interval
  after the last accepted one is put off to exactly one interval after it, and one that arrives later,
  or has nothing to be compared with, is accepted and becomes the last one.\<close>

theorem vblank_throttle_ok:
  "case vblank_throttle tok ri t v of (throttled, es, v') \<Rightarrow>
     timers_after es (set_option (vt_throttle_timer_token v)) = set_option (vt_throttle_timer_token v') \<and>
     throttled = (\<exists>lst refresh. vt_last_vblank_timestamp v = Some lst \<and> ri = Some refresh \<and>
                     t - lst < refresh div 2) \<and>
     vt_last_vblank_timestamp v' = (if throttled then vt_last_vblank_timestamp v else Some t) \<and>
     (case (vt_last_vblank_timestamp v, ri) of
        (Some lst, Some refresh) \<Rightarrow> throttled = (StartTimer tok (refresh - (t - lst)) \<in> set es)
      | _ \<Rightarrow> \<not> throttled)"
  by (auto simp: vblank_throttle_def Let_def split: option.splits)

section \<open>Identifiers\<close>

text \<open>\<open>fetch_add\<close> wraps at \<open>2 ^ 64\<close>.\<close>

definition id_counter_new :: nat where "id_counter_new = 1"

definition id_counter_next :: "nat \<Rightarrow> nat \<times> nat" where
  "id_counter_next c = (c, (c + 1) mod 2 ^ 64)"

fun take_ids :: "nat \<Rightarrow> nat \<Rightarrow> nat list" where
  "take_ids 0 c = []"
| "take_ids (Suc n) c = (let (i, c') = id_counter_next c in i # take_ids n c')"

lemma take_ids_upt: "c + n \<le> 2 ^ 64 \<Longrightarrow> take_ids n c = [c..<c + n]"
proof (induction n arbitrary: c)
  case (Suc n)
  show ?case
  proof (cases n)
    case 0
    then show ?thesis by (simp add: id_counter_next_def)
  next
    case (Suc m)
    with Suc.prems have "(c + 1) mod 2 ^ 64 = c + 1" by simp
    then show ?thesis
      using Suc.IH[of "c + 1"] Suc.prems
      by (simp add: id_counter_next_def upt_conv_Cons del: upt_Suc)
  qed
qed simp

text \<open>The identifiers a new counter hands out are the numbers from 1 on, so they
  are pairwise different and none is zero, for as long as fewer than \<open>2 ^ 64\<close> have been taken.\<close>

theorem ids_unique:
  assumes "n < 2 ^ 64"
  shows "take_ids n id_counter_new = [1..<n + 1] \<and> distinct (take_ids n id_counter_new)"
  using take_ids_upt[of 1 n] assms by (simp add: id_counter_new_def)

theorem ids_unique_witness: "take_ids 3 id_counter_new = [1, 2, 3]"
  using ids_unique[of 3] by (simp add: upt_rec)

end
