(* ===== verification/Animations.thy ===== *)
theory Animations
  imports Clocks
begin

text \<open>
  Animations: the cubic Bezier easing with its bisection (\<^verbatim>\<open>animation/bezier.rs\<close>), the spring
  (\<^verbatim>\<open>animation/spring.rs\<close>) and the animation itself (\<^verbatim>\<open>animation/mod.rs\<close>), with the
  configuration it reads (\<^verbatim>\<open>sol-config/src/animations.rs\<close>).

  The record \<open>env\<close> carries what these and the layout operations use of code outside the repository
  (the easing functions of the keyframe crate, smithay's rounding and its comparison of serials,
  the Wayland toplevel operations) and the readings of the shared clock, which are constant within
  an operation (\<open>clock_stable_in_cycle\<close>).
\<close>

section \<open>Cubic Bezier easing\<close>

record cubic_bezier =
  bz_x1 :: f64  bz_y1 :: f64  bz_x2 :: f64  bz_y2 :: f64

definition bezier_for_t :: "f64 \<Rightarrow> f64 \<Rightarrow> f64 \<Rightarrow> f64" where
  "bezier_for_t a b t = (let omt = 1 - t in 3 * omt * omt * t * a + 3 * omt * t * t * b + t * t * t)"

definition x_for_t :: "cubic_bezier \<Rightarrow> f64 \<Rightarrow> f64" where
  "x_for_t b t = bezier_for_t (bz_x1 b) (bz_x2 b) t"

definition y_for_t :: "cubic_bezier \<Rightarrow> f64 \<Rightarrow> f64" where
  "y_for_t b t = bezier_for_t (bz_y1 b) (bz_y2 b) t"

fun bisect_t :: "nat \<Rightarrow> cubic_bezier \<Rightarrow> f64 \<Rightarrow> f64 \<Rightarrow> f64 \<Rightarrow> f64 \<times> f64" where
  "bisect_t 0 b x min_t max_t = (min_t, max_t)"
| "bisect_t (Suc n) b x min_t max_t =
     (let guess_t = (min_t + max_t) / 2; guess_x = x_for_t b guess_t
      in if x < guess_x then bisect_t n b x min_t guess_t else bisect_t n b x guess_t max_t)"

definition t_for_x :: "cubic_bezier \<Rightarrow> f64 \<Rightarrow> f64" where
  "t_for_x b x = (let (min_t, max_t) = bisect_t 31 b x 0 1 in (min_t + max_t) / 2)"

definition f64_epsilon :: f64 where "f64_epsilon = 1 / 2 ^ 52"
definition f32_epsilon :: f64 where "f32_epsilon = 1 / 2 ^ 23"

definition bezier_y :: "cubic_bezier \<Rightarrow> f64 \<Rightarrow> f64" where
  "bezier_y b x = (if x \<le> f64_epsilon then 0
     else if 1 - f64_epsilon \<le> x then 1 else y_for_t b (t_for_x b x))"

lemma bisect_invariant:
  assumes "bisect_t n b x lo hi = (lo', hi')" and "lo \<le> hi" and "x_for_t b lo \<le> x" "x < x_for_t b hi"
  shows "lo \<le> lo' \<and> lo' \<le> hi' \<and> hi' \<le> hi \<and> x_for_t b lo' \<le> x \<and> x < x_for_t b hi' \<and>
    hi' - lo' = (hi - lo) / 2 ^ n"
  using assms
proof (induction n b x lo hi rule: bisect_t.induct)
  case (2 n b x lo hi)
  define g where "g = (lo + hi) / 2"
  have g: "lo \<le> g" "g \<le> hi" "g - lo = (hi - lo) / 2" "hi - g = (hi - lo) / 2"
    using 2(4) by (simp_all add: g_def field_simps)
  have half: "d / 2 / 2 ^ n = d / 2 ^ Suc n" for d :: real by simp
  show ?case
  proof (cases "x < x_for_t b g")
    case True
    have "bisect_t n b x lo g = (lo', hi')" using 2(3) True by (simp add: g_def Let_def)
    from 2(1)[OF refl refl, folded g_def, OF True this g(1) 2(5) True] show ?thesis
      unfolding g(3) half using g by linarith
  next
    case False
    have "bisect_t n b x g hi = (lo', hi')" using 2(3) False by (simp add: g_def Let_def)
    from 2(2)[OF refl refl, folded g_def, OF False this g(2) _ 2(6)] False show ?thesis
      unfolding g(4) half using g by linarith
  qed
qed simp

lemma bezier_continuous: "continuous_on S (bezier_for_t a b)"
  unfolding bezier_for_t_def Let_def by (intro continuous_intros)

text \<open>For every curve and every \<open>x\<close> in \<open>[0, 1)\<close> the 31 bisection steps
  find a curve parameter within \<open>2 ^ -32\<close> of one at which the curve really passes through \<open>x\<close>; no
  condition on the control points is needed.\<close>

theorem bezier_bisection:
  assumes "0 \<le> x" "x < 1"
  shows "\<exists>t. 0 \<le> t \<and> t \<le> 1 \<and> x_for_t b t = x \<and> \<bar>t_for_x b x - t\<bar> \<le> 1 / 2 ^ 32"
proof -
  obtain lo hi where bi: "bisect_t 31 b x 0 1 = (lo, hi)" by fastforce
  have inv: "0 \<le> lo \<and> lo \<le> hi \<and> hi \<le> 1 \<and> x_for_t b lo \<le> x \<and> x < x_for_t b hi \<and>
      hi - lo = (1 - 0) / 2 ^ 31"
    using assms by (intro bisect_invariant[OF bi]) (simp_all add: x_for_t_def bezier_for_t_def)
  then obtain t where t: "lo \<le> t" "t \<le> hi" "x_for_t b t = x"
    using IVT'[of "x_for_t b" lo x hi] bezier_continuous unfolding x_for_t_def by force
  have "\<bar>t_for_x b x - t\<bar> \<le> (hi - lo) / 2"
    using t by (auto simp: t_for_x_def bi abs_le_iff field_simps)
  also have "\<dots> = 1 / 2 ^ 32" using inv by simp
  finally show ?thesis using t inv by (intro exI[of _ t]) auto
qed

theorem bezier_bisection_witness:
  "\<exists>t. 0 \<le> t \<and> t \<le> 1 \<and> x_for_t \<lparr>bz_x1 = 1/4, bz_y1 = 1/10, bz_x2 = 1/4, bz_y2 = 1\<rparr> t = 1/2 \<and>
     \<bar>t_for_x \<lparr>bz_x1 = 1/4, bz_y1 = 1/10, bz_x2 = 1/4, bz_y2 = 1\<rparr> (1/2) - t\<bar> \<le> 1 / 2 ^ 32"
  by (rule bezier_bisection) simp_all

lemma bezier_for_t_range:
  assumes "0 \<le> t" "t \<le> 1" and "0 \<le> a" "a \<le> 1" "0 \<le> b" "b \<le> 1"
  shows "0 \<le> bezier_for_t a b t \<and> bezier_for_t a b t \<le> 1"
proof
  let ?o = "1 - t"
  have o: "0 \<le> ?o" using assms by simp
  show "0 \<le> bezier_for_t a b t"
    unfolding bezier_for_t_def Let_def using assms o by (intro add_nonneg_nonneg mult_nonneg_nonneg) auto
  have "bezier_for_t a b t \<le> 3 * ?o * ?o * t * 1 + 3 * ?o * t * t * 1 + t * t * t"
    unfolding bezier_for_t_def Let_def using assms o
    by (intro add_mono mult_left_mono mult_nonneg_nonneg) auto
  also have "\<dots> \<le> ?o * ?o * ?o + 3 * ?o * ?o * t + 3 * ?o * t * t + t * t * t"
    using o by (simp add: mult_nonneg_nonneg)
  also have "\<dots> = 1" by (simp add: algebra_simps)
  finally show "bezier_for_t a b t \<le> 1" .
qed

lemma t_for_x_range: "0 \<le> x \<Longrightarrow> x < 1 \<Longrightarrow> 0 \<le> t_for_x b x \<and> t_for_x b x \<le> 1"
proof -
  assume x: "0 \<le> x" "x < 1"
  obtain lo hi where bi: "bisect_t 31 b x 0 1 = (lo, hi)" by fastforce
  have "0 \<le> lo \<and> lo \<le> hi \<and> hi \<le> 1"
    using bisect_invariant[OF bi] x by (simp add: x_for_t_def bezier_for_t_def)
  then show ?thesis by (auto simp: t_for_x_def bi)
qed

lemma bezier_y_range:
  assumes "0 \<le> bz_y1 b" "bz_y1 b \<le> 1" "0 \<le> bz_y2 b" "bz_y2 b \<le> 1" and "x \<le> 1"
  shows "0 \<le> bezier_y b x \<and> bezier_y b x \<le> 1"
proof (cases "f64_epsilon < x \<and> x < 1 - f64_epsilon")
  case True
  then have "0 \<le> x" "x < 1" by (auto simp: f64_epsilon_def intro: less_imp_le order.strict_trans2)
  with t_for_x_range[OF this] show ?thesis
    using True assms bezier_for_t_range[of "t_for_x b x"] by (simp add: bezier_y_def y_for_t_def)
qed (auto simp: bezier_y_def)

section \<open>Springs\<close>

record spring_params =
  sp_damping :: f64  sp_mass :: f64  sp_stiffness :: f64  sp_epsilon :: f64

record spring =
  spr_from :: f64  spr_to :: f64  spr_initial_velocity :: f64  spr_params :: spring_params

definition spring_params_new :: "f64 \<Rightarrow> f64 \<Rightarrow> f64 \<Rightarrow> spring_params" where
  "spring_params_new damping_ratio stiffness eps =
     (let damping_ratio = max damping_ratio 0; stiffness = max stiffness 0; eps = max eps 0;
          mass = 1; critical_damping = 2 * sqrt (mass * stiffness)
      in \<lparr>sp_damping = damping_ratio * critical_damping, sp_mass = mass,
          sp_stiffness = stiffness, sp_epsilon = eps\<rparr>)"

definition spring_beta :: "spring \<Rightarrow> f64" where
  "spring_beta s = sp_damping (spr_params s) / (2 * sp_mass (spr_params s))"

definition spring_omega0 :: "spring \<Rightarrow> f64" where
  "spring_omega0 s = sqrt (sp_stiffness (spr_params s) / sp_mass (spr_params s))"

definition oscillate :: "spring \<Rightarrow> f64 \<Rightarrow> f64" where
  "oscillate s t =
    (let v0 = spr_initial_velocity s; beta = spring_beta s; omega0 = spring_omega0 s;
         x0 = spr_from s - spr_to s; envelope = exp (- beta * t)
     in if \<bar>beta - omega0\<bar> \<le> f32_epsilon
        then spr_to s + envelope * (x0 + (beta * x0 + v0) * t)
        else if beta < omega0
        then (let omega1 = sqrt (omega0 * omega0 - beta * beta)
              in spr_to s + envelope * (x0 * cos (omega1 * t) + ((beta * x0 + v0) / omega1) * sin (omega1 * t)))
        else (let omega2 = sqrt (beta * beta - omega0 * omega0)
              in spr_to s + envelope * (x0 * cosh (omega2 * t) + ((beta * x0 + v0) / omega2) * sinh (omega2 * t))))"

definition spring_value_at :: "spring \<Rightarrow> duration \<Rightarrow> f64" where
  "spring_value_at s t = oscillate s (dur_as_secs t)"

text \<open>One Newton step from \<open>(x0, y0)\<close>; where the slope is zero the source divides by it and gets an
  infinity or NaN, here \<open>None\<close>. The first argument of the loop counts the iterations left before the
  source gives up (\<open>i > 1000\<close>).\<close>

definition newton_step :: "spring \<Rightarrow> f64 \<Rightarrow> f64 \<Rightarrow> f64 option" where
  "newton_step s x0 y0 =
     (let m = (oscillate s (x0 + 0.001) - y0) / 0.001
      in if m = 0 then None else Some ((spr_to s - y0 + m * x0) / m))"

fun newton_loop :: "nat \<Rightarrow> spring \<Rightarrow> f64 \<Rightarrow> f64 \<Rightarrow> duration option" where
  "newton_loop fuel s x1 y1 =
     (if \<bar>spr_to s - y1\<bar> > sp_epsilon (spr_params s)
      then (case fuel of
              0 \<Rightarrow> Some 0
            | Suc fuel \<Rightarrow>
                (case newton_step s x1 y1 of
                   None \<Rightarrow> dur_of_secs x1
                 | Some x \<Rightarrow> newton_loop fuel s x (oscillate s x)))
      else dur_of_secs x1)"

declare newton_loop.simps [simp del]

text \<open>With \<open>epsilon = 0\<close> the logarithm is infinite and \<open>from_secs_f64\<close> panics on every path.\<close>

definition spring_duration :: "spring \<Rightarrow> duration option" where
  "spring_duration s =
    (let beta = spring_beta s; omega0 = spring_omega0 s; eps = sp_epsilon (spr_params s)
     in if \<bar>beta\<bar> \<le> f64_epsilon \<or> beta < 0 then Some dur_max
        else if \<bar>spr_to s - spr_from s\<bar> \<le> f64_epsilon then Some 0
        else if eps \<le> 0 then None
        else let x0 = - ln eps / beta
             in if \<bar>beta - omega0\<bar> \<le> f32_epsilon \<or> beta < omega0 then dur_of_secs x0
                else (case newton_step s x0 (oscillate s x0) of
                        None \<Rightarrow> None
                      | Some x1 \<Rightarrow> newton_loop 1001 s x1 (oscillate s x1)))"

definition spring_before_target :: "spring \<Rightarrow> f64 \<Rightarrow> bool" where
  "spring_before_target s y \<longleftrightarrow>
     (spr_to s - spr_from s > f64_epsilon \<and> spr_to s - y > sp_epsilon (spr_params s)) \<or>
     (spr_from s - spr_to s > f64_epsilon \<and> y - spr_to s > sp_epsilon (spr_params s))"

text \<open>The scan over milliseconds, giving up once \<open>i > 3000\<close>.\<close>

function clamped_scan :: "spring \<Rightarrow> nat \<Rightarrow> nat option" where
  "clamped_scan s i =
     (if spring_before_target s (oscillate s (real i / 1000))
      then (if i > 3000 then None else clamped_scan s (i + 1))
      else Some i)"
  by pat_completeness auto
termination by (relation "measure (\<lambda>(s, i). 3001 - i)") auto

declare clamped_scan.simps [simp del]

definition spring_clamped_duration :: "spring \<Rightarrow> duration option" where
  "spring_clamped_duration s =
    (let beta = spring_beta s
     in if \<bar>beta\<bar> \<le> f64_epsilon \<or> beta < 0 then Some dur_max
        else if \<bar>spr_to s - spr_from s\<bar> \<le> f64_epsilon then Some 0
        else map_option dur_of_millis (clamped_scan s 1))"

lemma oscillate_0 [simp]: "oscillate s 0 = spr_from s"
  by (simp add: oscillate_def Let_def)

lemma oscillate_underdamped:
  assumes "spring_beta s < spring_omega0 s - f32_epsilon"
  shows "\<bar>oscillate s t - spr_to s\<bar> \<le> exp (- spring_beta s * t) *
    (\<bar>spr_from s - spr_to s\<bar> +
     \<bar>(spring_beta s * (spr_from s - spr_to s) + spr_initial_velocity s) /
       sqrt (spring_omega0 s * spring_omega0 s - spring_beta s * spring_beta s)\<bar>)"
proof -
  define o1 where "o1 = sqrt (spring_omega0 s * spring_omega0 s - spring_beta s * spring_beta s)"
  define x where "x = spr_from s - spr_to s"
  define c where "c = (spring_beta s * x + spr_initial_velocity s) / o1"
  have eps: "0 < f32_epsilon" by (simp add: f32_epsilon_def)
  with assms have "\<not> \<bar>spring_beta s - spring_omega0 s\<bar> \<le> f32_epsilon" "spring_beta s < spring_omega0 s"
    by linarith+
  then have "oscillate s t - spr_to s =
      exp (- spring_beta s * t) * (x * cos (o1 * t) + c * sin (o1 * t))"
    by (simp add: oscillate_def Let_def o1_def x_def c_def)
  moreover have "\<bar>x * cos (o1 * t) + c * sin (o1 * t)\<bar> \<le> \<bar>x\<bar> + \<bar>c\<bar>"
  proof -
    have "\<bar>x * cos (o1 * t)\<bar> \<le> \<bar>x\<bar>" "\<bar>c * sin (o1 * t)\<bar> \<le> \<bar>c\<bar>"
      by (simp_all add: abs_mult mult_left_le)
    then show ?thesis by linarith
  qed
  ultimately show ?thesis
    unfolding o1_def[symmetric] x_def[symmetric] c_def[symmetric] by (simp add: abs_mult)
qed

lemma dur_of_secs_near:
  assumes "dur_of_secs x = Some d"
  shows "0 \<le> x \<and> \<bar>dur_as_secs d - x\<bar> \<le> 1 / 2 / 10 ^ 9"
proof -
  from assms have x: "0 \<le> x" and d: "d = nat (round (x * 10 ^ 9))"
    by (auto simp: dur_of_secs_def split: if_splits)
  have "0 \<le> round (x * 10 ^ 9)" using x round_mono[of 0 "x * 10 ^ 9"] by simp
  then have "real d = of_int (round (x * 10 ^ 9))" by (simp add: d)
  moreover have "\<bar>of_int (round (x * 10 ^ 9)) - x * 10 ^ 9\<bar> \<le> 1 / 2"
    by (rule of_int_round_abs_le)
  ultimately have "\<bar>real d - x * 10 ^ 9\<bar> \<le> 1 / 2" by simp
  then show ?thesis using x by (simp add: dur_as_secs_def abs_le_iff field_simps)
qed

text \<open>Property C14. The duration computed for an underdamped spring is long
  enough: when it has passed, up to the rounding to nanoseconds, the spring is within \<open>epsilon\<close> of
  its target, relative to the amplitude of the oscillation.\<close>

theorem underdamped_spring_settles:
  assumes under: "spring_beta s < spring_omega0 s - f32_epsilon"
    and beta: "f64_epsilon < spring_beta s"
    and moved: "f64_epsilon < \<bar>spr_to s - spr_from s\<bar>"
    and dur: "spring_duration s = Some d"
    and later: "dur_as_secs d + 1 / 10 ^ 9 \<le> t"
  shows "\<bar>oscillate s t - spr_to s\<bar> \<le> sp_epsilon (spr_params s) *
    (\<bar>spr_from s - spr_to s\<bar> +
     \<bar>(spring_beta s * (spr_from s - spr_to s) + spr_initial_velocity s) /
       sqrt (spring_omega0 s * spring_omega0 s - spring_beta s * spring_beta s)\<bar>)"
proof -
  let ?e = "sp_epsilon (spr_params s)"
  have b: "0 < spring_beta s" using beta by (auto simp: f64_epsilon_def intro: less_trans[rotated])
  have eps0: "0 < f32_epsilon" by (simp add: f32_epsilon_def)
  with under have "spring_beta s < spring_omega0 s" by linarith
  with dur b beta moved have e: "0 < ?e" and d: "dur_of_secs (- ln ?e / spring_beta s) = Some d"
    by (auto simp: spring_duration_def Let_def split: if_splits)
  have "- ln ?e / spring_beta s \<le> t"
    using dur_of_secs_near[OF d] later unfolding abs_le_iff by linarith
  then have "- ln ?e \<le> t * spring_beta s" using pos_divide_le_eq[OF b] by blast
  then have "exp (- spring_beta s * t) \<le> exp (ln ?e)" by (simp add: mult.commute)
  then have "exp (- spring_beta s * t) \<le> ?e" using e by simp
  then show ?thesis
    using oscillate_underdamped[OF under, of t] by (meson abs_ge_zero add_nonneg_nonneg mult_right_mono order_trans)
qed

theorem underdamped_spring_settles_witness:
  fixes s :: spring
  defines "s \<equiv> \<lparr>spr_from = 0, spr_to = 1, spr_initial_velocity = 0, spr_params = spring_params_new (1/2) 1 (1/2)\<rparr>"
  shows "\<exists>d. spring_duration s = Some d \<and> \<bar>oscillate s (dur_as_secs d + 1) - 1\<bar> \<le> 1/2 *
    (\<bar>0 - 1\<bar> + \<bar>(1/2 * (0 - 1) + 0) / sqrt (1 * 1 - 1/2 * (1/2))\<bar>)"
proof -
  have s: "spring_beta s = 1/2" "spring_omega0 s = 1" "sp_epsilon (spr_params s) = 1/2"
    "spr_from s = 0" "spr_to s = 1" "spr_initial_velocity s = 0"
    by (simp_all add: s_def spring_beta_def spring_omega0_def spring_params_new_def Let_def)
  have "0 \<le> - ln (1/2 :: real) / (1/2)" "- ln (1/2 :: real) / (1/2) < 2 ^ 64"
    using ln_2_less_1 by (simp_all add: ln_div)
  then obtain d where d: "spring_duration s = Some d"
    using s by (auto simp: spring_duration_def Let_def dur_of_secs_def f64_epsilon_def f32_epsilon_def)
  have "\<bar>oscillate s (dur_as_secs d + 1) - spr_to s\<bar> \<le> sp_epsilon (spr_params s) *
    (\<bar>spr_from s - spr_to s\<bar> +
     \<bar>(spring_beta s * (spr_from s - spr_to s) + spr_initial_velocity s) /
       sqrt (spring_omega0 s * spring_omega0 s - spring_beta s * spring_beta s)\<bar>)"
    by (rule underdamped_spring_settles[OF _ _ _ d])
       (simp_all add: s f64_epsilon_def f32_epsilon_def)
  from this[unfolded s] d show ?thesis by blast
qed

section \<open>Configuration\<close>

datatype cfg_curve = CfgLinear | CfgEaseOutQuad | CfgEaseOutCubic | CfgEaseOutExpo
  | CfgCubicBezier f64 f64 f64 f64

record easing_params = ep_duration_ms :: nat  ep_curve :: cfg_curve
record cfg_spring_params = csp_damping_ratio :: f64  csp_stiffness :: nat  csp_epsilon :: f64

datatype cfg_kind = CfgEasing easing_params | CfgSpring cfg_spring_params

record anim_config = ac_off :: bool  ac_kind :: cfg_kind

section \<open>The environment\<close>

record env0 =
  e_now :: duration
  e_rate :: f64
  e_complete_instantly :: bool
  e_ease_out_quad :: "f64 \<Rightarrow> f64"
  e_ease_out_cubic :: "f64 \<Rightarrow> f64"
  e_i32_floor :: "f64 \<Rightarrow> int"
  e_i32_round :: "f64 \<Rightarrow> int"
  e_phys_ceil :: "f64 \<Rightarrow> f64 \<Rightarrow> f64"
  e_phys_round :: "f64 \<Rightarrow> f64 \<Rightarrow> f64"
  e_no_older_than :: "nat \<Rightarrow> nat \<Rightarrow> bool"

section \<open>Animations\<close>

datatype curve = Linear | EaseOutQuad | EaseOutCubic | EaseOutExpo | CubicBezier cubic_bezier

datatype anim_kind = Easing curve | SpringKind spring | Deceleration f64 f64

record animation =
  an_from :: f64
  an_to :: f64
  an_initial_velocity :: f64
  an_is_off :: bool
  an_duration :: duration
  an_clamped_duration :: duration
  an_start_time :: duration
  an_kind :: anim_kind

definition curve_y :: "'e env0_scheme \<Rightarrow> curve \<Rightarrow> f64 \<Rightarrow> f64" where
  "curve_y E c x = (case c of
     Linear \<Rightarrow> x
   | EaseOutQuad \<Rightarrow> e_ease_out_quad E x
   | EaseOutCubic \<Rightarrow> e_ease_out_cubic E x
   | EaseOutExpo \<Rightarrow> 1 - 2 powr (- 10 * x)
   | CubicBezier b \<Rightarrow> bezier_y b x)"

fun curve_from :: "cfg_curve \<Rightarrow> curve" where
  "curve_from CfgLinear = Linear"
| "curve_from CfgEaseOutQuad = EaseOutQuad"
| "curve_from CfgEaseOutCubic = EaseOutCubic"
| "curve_from CfgEaseOutExpo = EaseOutExpo"
| "curve_from (CfgCubicBezier x1 y1 x2 y2) =
     CubicBezier \<lparr>bz_x1 = x1, bz_y1 = y1, bz_x2 = x2, bz_y2 = y2\<rparr>"

definition anim_ease :: "'e env0_scheme \<Rightarrow> f64 \<Rightarrow> f64 \<Rightarrow> f64 \<Rightarrow> nat \<Rightarrow> curve \<Rightarrow> animation" where
  "anim_ease E fr to v ms c =
     \<lparr>an_from = fr, an_to = to, an_initial_velocity = v, an_is_off = False,
      an_duration = dur_of_millis ms, an_clamped_duration = dur_of_millis ms,
      an_start_time = e_now E, an_kind = Easing c\<rparr>"

definition anim_spring :: "'e env0_scheme \<Rightarrow> spring \<Rightarrow> animation option" where
  "anim_spring E s = do {
     d \<leftarrow> spring_duration s;
     Some \<lparr>an_from = spr_from s, an_to = spr_to s, an_initial_velocity = spr_initial_velocity s,
           an_is_off = False, an_duration = d,
           an_clamped_duration = (case spring_clamped_duration s of Some cd \<Rightarrow> cd | None \<Rightarrow> d),
           an_start_time = e_now E, an_kind = SpringKind s\<rparr> }"

definition anim_decelerate :: "'e env0_scheme \<Rightarrow> f64 \<Rightarrow> f64 \<Rightarrow> f64 \<Rightarrow> f64 \<Rightarrow> animation option" where
  "anim_decelerate E fr v rate threshold = do {
     let coeff = 1000 * ln rate;
     d \<leftarrow> dur_of_secs (if v = 0 then 0 else ln (- coeff * threshold / \<bar>v\<bar>) / coeff);
     Some \<lparr>an_from = fr, an_to = fr - v / (1000 * ln rate), an_initial_velocity = v,
           an_is_off = False, an_duration = d, an_clamped_duration = d,
           an_start_time = e_now E, an_kind = Deceleration v rate\<rparr> }"

definition anim_replace_config :: "'e env0_scheme \<Rightarrow> anim_config \<Rightarrow> animation \<Rightarrow> animation option" where
  "anim_replace_config E cfg a =
    (let a = a\<lparr>an_is_off := ac_off cfg\<rparr>
     in if ac_off cfg then Some (a\<lparr>an_duration := 0, an_clamped_duration := 0\<rparr>)
        else
          let start_time = an_start_time a
          in map_option (an_start_time_update (\<lambda>_. start_time))
               (case ac_kind cfg of
                  CfgSpring p \<Rightarrow>
                    anim_spring E \<lparr>spr_from = an_from a, spr_to = an_to a,
                       spr_initial_velocity = an_initial_velocity a,
                       spr_params = spring_params_new (csp_damping_ratio p) (real (csp_stiffness p)) (csp_epsilon p)\<rparr>
                | CfgEasing p \<Rightarrow>
                    Some (anim_ease E (an_from a) (an_to a) (an_initial_velocity a)
                            (ep_duration_ms p) (curve_from (ep_curve p)))))"

definition anim_new ::
  "'e env0_scheme \<Rightarrow> f64 \<Rightarrow> f64 \<Rightarrow> f64 \<Rightarrow> anim_config \<Rightarrow> animation option" where
  "anim_new E fr to v cfg =
    (let v = v / max (e_rate E) 0.001;
         rv = anim_ease E fr to v 0 EaseOutCubic
     in if ac_off cfg then Some (rv\<lparr>an_is_off := True\<rparr>) else anim_replace_config E cfg rv)"

definition anim_restarted ::
  "'e env0_scheme \<Rightarrow> f64 \<Rightarrow> f64 \<Rightarrow> f64 \<Rightarrow> animation \<Rightarrow> animation option" where
  "anim_restarted E fr to v a =
    (if an_is_off a then Some a
     else
       let v = v / max (e_rate E) 0.001
       in case an_kind a of
            Easing c \<Rightarrow> Some (anim_ease E fr to v (dur_as_millis (an_duration a)) c)
          | SpringKind s \<Rightarrow>
              anim_spring E \<lparr>spr_from = fr, spr_to = to,
                 spr_initial_velocity = an_initial_velocity a, spr_params = spr_params s\<rparr>
          | Deceleration v rate \<Rightarrow> anim_decelerate E fr v rate 0.001)"

definition anim_is_done :: "'e env0_scheme \<Rightarrow> animation \<Rightarrow> bool" where
  "anim_is_done E a \<longleftrightarrow> e_complete_instantly E \<or> an_start_time a + an_duration a \<le> e_now E"

definition anim_is_clamped_done :: "'e env0_scheme \<Rightarrow> animation \<Rightarrow> bool" where
  "anim_is_clamped_done E a \<longleftrightarrow>
     e_complete_instantly E \<or> an_start_time a + an_clamped_duration a \<le> e_now E"

definition anim_value_at :: "'e env0_scheme \<Rightarrow> duration \<Rightarrow> animation \<Rightarrow> f64" where
  "anim_value_at E t a =
    (if t \<le> an_start_time a then an_from a
     else if an_start_time a + an_duration a \<le> t then an_to a
     else if e_complete_instantly E then an_to a
     else
       let passed = t - an_start_time a
       in case an_kind a of
            Easing c \<Rightarrow>
              (let x = f_clamp (dur_as_secs passed / dur_as_secs (an_duration a)) 0 1
               in curve_y E c x * (an_to a - an_from a) + an_from a)
          | SpringKind s \<Rightarrow>
              (let value = spring_value_at s passed;
                   range = (an_to a - an_from a) * 10;
                   x = an_from a - range;
                   y = an_to a + range
               in if an_from a \<le> an_to a then f_clamp value x y else f_clamp value y x)
          | Deceleration v rate \<Rightarrow>
              (let passed = dur_as_secs passed;
                   coeff = 1000 * ln rate
               in an_from a + (rate powr (1000 * passed) - 1) / coeff * v))"

definition anim_value :: "'e env0_scheme \<Rightarrow> animation \<Rightarrow> f64" where
  "anim_value E a = anim_value_at E (e_now E) a"

definition anim_clamped_value :: "'e env0_scheme \<Rightarrow> animation \<Rightarrow> f64" where
  "anim_clamped_value E a = (if anim_is_clamped_done E a then an_to a else anim_value E a)"

definition anim_offset :: "f64 \<Rightarrow> animation \<Rightarrow> animation" where
  "anim_offset d a =
    a\<lparr>an_from := an_from a + d, an_to := an_to a + d,
      an_kind := (case an_kind a of
         SpringKind s \<Rightarrow> SpringKind (s\<lparr>spr_from := spr_from s + d, spr_to := spr_to s + d\<rparr>)
       | k \<Rightarrow> k)\<rparr>"

subsection \<open>Lemmas\<close>

text \<open>A new animation, and a restarted one unless animations are off, stands at \<open>from\<close> now.\<close>

lemma anim_spring_fields:
  "anim_spring E s = Some a \<Longrightarrow> an_from a = spr_from s \<and> an_to a = spr_to s \<and>
     an_start_time a = e_now E \<and> an_kind a = SpringKind s \<and> \<not> an_is_off a"
  by (auto simp: anim_spring_def bind_eq_Some_conv)

lemma anim_new_fields:
  "anim_new E fr to v cfg = Some a \<Longrightarrow> an_from a = fr \<and> an_to a = to \<and> an_start_time a = e_now E \<and>
     an_is_off a = ac_off cfg"
  by (auto simp: anim_new_def anim_replace_config_def anim_ease_def Let_def
      dest: anim_spring_fields split: if_splits cfg_kind.splits)

lemma anim_new_value: "anim_new E fr to v cfg = Some a \<Longrightarrow> anim_value E a = fr"
  by (simp add: anim_value_def anim_value_at_def anim_new_fields)

lemma anim_restarted_fields:
  "anim_restarted E fr to v a = Some b \<Longrightarrow> \<not> an_is_off a \<Longrightarrow>
     an_from b = fr \<and> an_start_time b = e_now E \<and> \<not> an_is_off b"
  by (auto simp: anim_restarted_def Let_def anim_ease_def anim_decelerate_def bind_eq_Some_conv
      dest: anim_spring_fields split: anim_kind.splits)

lemma anim_restarted_value:
  "anim_restarted E fr to v a = Some b \<Longrightarrow> \<not> an_is_off a \<Longrightarrow> anim_value E b = fr"
  by (simp add: anim_value_def anim_value_at_def anim_restarted_fields)

lemma anim_new_easing: "ac_kind cfg = CfgEasing p \<Longrightarrow> anim_new E fr to v cfg \<noteq> None"
  by (simp add: anim_new_def anim_replace_config_def Let_def)

subsection \<open>Configured animations start\<close>

text \<open>An animation of the configuration that is off, an easing, or a spring within the bounds the parser of the
  configuration enforces that is not overdamped (every default is one of these): the duration is then in closed form.
  For an overdamped spring it comes from Newton's iteration, whose result nothing keeps in the range of a duration.\<close>

definition startable :: "anim_config \<Rightarrow> bool" where
  "startable c \<longleftrightarrow> ac_off c \<or> (case ac_kind c of
     CfgEasing _ \<Rightarrow> True
   | CfgSpring p \<Rightarrow> 0.1 \<le> csp_damping_ratio p \<and> csp_damping_ratio p \<le> 1 \<and> 1 \<le> csp_stiffness p \<and>
       0.00001 \<le> csp_epsilon p \<and> csp_epsilon p \<le> 0.1)"

text \<open>What of that is in a running animation, which can then be restarted.\<close>

definition params_sure :: "spring_params \<Rightarrow> bool" where
  "params_sure p \<longleftrightarrow> sp_mass p = 1 \<and> 0.2 \<le> sp_damping p \<and> sp_damping p / 2 \<le> sqrt (sp_stiffness p) \<and>
     0.00001 \<le> sp_epsilon p \<and> sp_epsilon p \<le> 0.1"

definition restarts_surely :: "animation \<Rightarrow> bool" where
  "restarts_surely a \<longleftrightarrow> an_is_off a \<or> (case an_kind a of
     Easing _ \<Rightarrow> True | SpringKind s \<Rightarrow> params_sure (spr_params s) | Deceleration _ _ \<Rightarrow> False)"

lemma startable_params:
  assumes "0.1 \<le> csp_damping_ratio p" "csp_damping_ratio p \<le> 1" "1 \<le> csp_stiffness p"
    "0.00001 \<le> csp_epsilon p" "csp_epsilon p \<le> 0.1"
  shows "params_sure (spring_params_new (csp_damping_ratio p) (real (csp_stiffness p)) (csp_epsilon p))"
proof -
  let ?q = "sqrt (real (csp_stiffness p))"
  have q: "1 \<le> ?q" using assms(3) by simp
  have "0.1 * 1 \<le> csp_damping_ratio p * ?q" using assms q by (intro mult_mono) auto
  moreover have "csp_damping_ratio p * ?q \<le> 1 * ?q" using assms q by (intro mult_right_mono) auto
  ultimately show ?thesis using assms by (simp add: params_sure_def spring_params_new_def Let_def)
qed

lemma ln_epsilon:
  assumes "0.00001 \<le> (e :: real)" "e \<le> 0.1"
  shows "0 \<le> - ln e" "- ln e \<le> 17"
proof -
  have "(1 :: real) / 2 ^ 17 \<le> e" using assms by simp
  then have "ln (1 / 2 ^ 17) \<le> ln e" using assms by (subst ln_le_cancel_iff) auto
  moreover have "ln (1 / 2 ^ 17 :: real) = - (17 * ln 2)"
    using ln_realpow[of "2 :: real" 17] by (simp only: ln_div zero_less_power zero_less_numeral) simp
  ultimately show "- ln e \<le> 17" using ln_2_less_1 by linarith
  show "0 \<le> - ln e" using assms ln_le_zero_iff[of e] by simp
qed

lemma dur_of_secs_bounded:
  assumes "0 \<le> x" "x \<le> real n" "n < 2 ^ 64"
  shows "\<exists>d. dur_of_secs x = Some d \<and> d \<le> n * 10 ^ 9"
proof -
  have "real n < real (2 ^ 64)" using assms(3) by (simp only: of_nat_less_iff)
  with assms have "dur_of_secs x = Some (nat (round (x * 10 ^ 9)))" by (simp add: dur_of_secs_def)
  moreover have "round (x * 10 ^ 9) \<le> round (real (n * 10 ^ 9))" using assms by (intro round_mono) simp
  ultimately show ?thesis by (simp only: round_of_nat) simp
qed

lemma sure_duration:
  assumes "params_sure (spr_params s)"
  shows "\<exists>d. spring_duration s = Some d \<and> d \<le> dur_of_millis 170000"
proof -
  let ?e = "sp_epsilon (spr_params s)" and ?b = "spring_beta s"
  have b: "0.1 \<le> ?b" "?b \<le> spring_omega0 s" and e: "0.00001 \<le> ?e" "?e \<le> 0.1"
    using assms by (simp_all add: params_sure_def spring_beta_def spring_omega0_def)
  have "- ln ?e / ?b \<le> 17 / 0.1" using ln_epsilon[OF e] b by (intro frac_le) auto
  moreover have "0 \<le> - ln ?e / ?b" using ln_epsilon[OF e] b by (intro divide_nonneg_pos) auto
  ultimately have d: "\<exists>d. dur_of_secs (- ln ?e / ?b) = Some d \<and> d \<le> dur_of_millis 170000"
    using dur_of_secs_bounded[of "- ln ?e / ?b" 170] by (simp add: dur_of_millis_def)
  have "\<not> ?b \<le> f64_epsilon" "0 < ?b" using b by (simp_all add: f64_epsilon_def)
  moreover have "\<bar>?b - spring_omega0 s\<bar> \<le> f32_epsilon \<or> ?b < spring_omega0 s"
    using b(2) by (cases "?b = spring_omega0 s") (auto simp: f32_epsilon_def)
  ultimately show ?thesis using d e by (simp add: spring_duration_def Let_def)
qed

lemma sure_spring:
  assumes "params_sure (spr_params s)"
  shows "\<exists>a. anim_spring E s = Some a \<and> an_duration a \<le> dur_of_millis 170000 \<and> an_kind a = SpringKind s \<and>
    an_to a = spr_to s \<and> an_from a = spr_from s"
  using sure_duration[OF assms] by (auto simp: anim_spring_def)

lemma startable_new:
  assumes "startable c"
  shows "\<exists>a. anim_new E fr to v c = Some a \<and> restarts_surely a"
proof (cases "ac_off c")
  case False
  show ?thesis
  proof (cases "ac_kind c")
    case (CfgSpring p)
    with assms False have "params_sure (spring_params_new (csp_damping_ratio p) (real (csp_stiffness p)) (csp_epsilon p))"
      by (intro startable_params) (auto simp: startable_def)
    then show ?thesis
      using sure_spring[of "\<lparr>spr_from = fr, spr_to = to, spr_initial_velocity = v / max (e_rate E) 0.001,
        spr_params = spring_params_new (csp_damping_ratio p) (real (csp_stiffness p)) (csp_epsilon p)\<rparr>" E] False CfgSpring
      by (auto simp: anim_new_def anim_replace_config_def anim_ease_def Let_def restarts_surely_def)
  qed (use False in \<open>simp add: anim_new_def anim_replace_config_def anim_ease_def Let_def restarts_surely_def\<close>)
qed (simp add: anim_new_def anim_ease_def Let_def restarts_surely_def)

lemma startable_restarts:
  assumes "restarts_surely a"
  shows "\<exists>b. anim_restarted E fr to v a = Some b \<and> restarts_surely b"
proof (cases "an_is_off a")
  case False
  show ?thesis
  proof (cases "an_kind a")
    case (SpringKind s)
    with assms False have "params_sure (spr_params s)" by (simp add: restarts_surely_def)
    then show ?thesis
      using sure_spring[of "\<lparr>spr_from = fr, spr_to = to, spr_initial_velocity = an_initial_velocity a, spr_params = spr_params s\<rparr>" E]
        False SpringKind
      by (auto simp: anim_restarted_def Let_def restarts_surely_def)
  qed (use False assms in \<open>auto simp: anim_restarted_def anim_ease_def Let_def restarts_surely_def\<close>)
qed (use assms in \<open>simp add: anim_restarted_def\<close>)

text \<open>How long an animation of the configuration can take.\<close>

definition longest_duration :: "anim_config \<Rightarrow> duration" where
  "longest_duration c = (if ac_off c then 0 else case ac_kind c of
     CfgEasing p \<Rightarrow> dur_of_millis (ep_duration_ms p) | CfgSpring _ \<Rightarrow> dur_of_millis 170000)"

text \<open>Property C40. An animation of the configuration that is off, an easing or a spring that is not overdamped always
  starts, whatever its end points and its velocity: the duration of the spring fits what \<open>Duration::from_secs_f64\<close>
  takes. It starts at its first value, and it ends, at its target: at once, after the configured duration, or, for a
  spring, within the 170 seconds that the bounds of the configuration parser allow.\<close>

theorem configured_animation_ends:
  fixes E :: "'e env0_scheme"
  assumes c: "startable c"
  shows "\<exists>a. anim_new E fr to v c = Some a \<and> anim_value E a = fr \<and>
    (\<forall>E' :: 'e env0_scheme. e_now E + longest_duration c < e_now E' \<longrightarrow> anim_is_done E' a \<and> anim_value E' a = to)"
proof -
  obtain a where a: "anim_new E fr to v c = Some a" using startable_new[OF c] by blast
  have "an_duration a \<le> longest_duration c"
  proof (cases "\<exists>p. \<not> ac_off c \<and> ac_kind c = CfgSpring p")
    case False
    with a show ?thesis
      by (cases "ac_kind c") (auto simp: anim_new_def anim_replace_config_def anim_ease_def Let_def dur_of_millis_def
          longest_duration_def split: if_splits)
  next
    case True
    then obtain p where p: "\<not> ac_off c" "ac_kind c = CfgSpring p" by blast
    then have "params_sure (spring_params_new (csp_damping_ratio p) (real (csp_stiffness p)) (csp_epsilon p))"
      using c by (intro startable_params) (auto simp: startable_def)
    from sure_spring[of "\<lparr>spr_from = fr, spr_to = to, spr_initial_velocity = v / max (e_rate E) 0.001,
        spr_params = spring_params_new (csp_damping_ratio p) (real (csp_stiffness p)) (csp_epsilon p)\<rparr>" E] p a this
    show ?thesis by (auto simp: anim_new_def anim_replace_config_def anim_ease_def Let_def longest_duration_def)
  qed
  moreover note anim_new_fields[OF a]
  ultimately show ?thesis using a anim_new_value[OF a]
    by (intro exI[of _ a]) (auto simp: anim_is_done_def anim_value_def anim_value_at_def)
qed

theorem configured_animation_ends_witness:
  "\<forall>E :: env0. \<exists>a. anim_new E 0 3 (- 5) \<lparr>ac_off = False,
      ac_kind = CfgSpring \<lparr>csp_damping_ratio = 1, csp_stiffness = 1000, csp_epsilon = 0.0001\<rparr>\<rparr> = Some a \<and>
    anim_value (E\<lparr>e_now := e_now E + 171 * 10 ^ 9\<rparr>) a = 3"
proof
  fix E :: env0
  let ?c = "\<lparr>ac_off = False, ac_kind = CfgSpring \<lparr>csp_damping_ratio = 1, csp_stiffness = 1000, csp_epsilon = 0.0001\<rparr>\<rparr>"
  have "startable ?c" by (simp add: startable_def)
  from configured_animation_ends[OF this, of E 0 3 "- 5"] obtain a where
    "anim_new E 0 3 (- 5) ?c = Some a"
    "\<And>E' :: env0. e_now E + longest_duration ?c < e_now E' \<Longrightarrow> anim_value E' a = 3" by blast
  then show "\<exists>a. anim_new E 0 3 (- 5) ?c = Some a \<and> anim_value (E\<lparr>e_now := e_now E + 171 * 10 ^ 9\<rparr>) a = 3"
    by (intro exI[of _ a]) (simp add: longest_duration_def dur_of_millis_def)
qed

subsection \<open>Properties\<close>

text \<open>Curves that stay within the unit interval; those of the keyframe crate by hypothesis.\<close>

definition curve_unit :: "'e env0_scheme \<Rightarrow> curve \<Rightarrow> bool" where
  "curve_unit E c = (case c of
     EaseOutQuad \<Rightarrow> (\<forall>x. 0 \<le> x \<and> x \<le> 1 \<longrightarrow> 0 \<le> e_ease_out_quad E x \<and> e_ease_out_quad E x \<le> 1)
   | EaseOutCubic \<Rightarrow> (\<forall>x. 0 \<le> x \<and> x \<le> 1 \<longrightarrow> 0 \<le> e_ease_out_cubic E x \<and> e_ease_out_cubic E x \<le> 1)
   | CubicBezier b \<Rightarrow> 0 \<le> bz_y1 b \<and> bz_y1 b \<le> 1 \<and> 0 \<le> bz_y2 b \<and> bz_y2 b \<le> 1
   | _ \<Rightarrow> True)"

lemma curve_y_unit:
  assumes "curve_unit E c" "0 \<le> x" "x \<le> 1"
  shows "0 \<le> curve_y E c x \<and> curve_y E c x \<le> 1"
proof (cases c)
  case EaseOutExpo
  have "2 powr (- 10 * x) \<le> 2 powr (0::real)" using assms by (intro powr_mono) auto
  with EaseOutExpo show ?thesis by (simp add: curve_y_def)
next
  case (CubicBezier b)
  with assms show ?thesis by (simp add: curve_y_def curve_unit_def bezier_y_range)
qed (use assms in \<open>auto simp: curve_y_def curve_unit_def\<close>)

lemma between_affine:
  fixes y :: real
  assumes "0 \<le> y" "y \<le> 1"
  shows "min a b \<le> y * (b - a) + a \<and> y * (b - a) + a \<le> max a b"
proof -
  have e: "y * (b - a) + a = (1 - y) * a + y * b" by (simp add: algebra_simps)
  have "(1 - y) * a + y * b \<le> max a b"
    using assms by (intro convex_bound_le) auto
  moreover have "(1 - y) * - a + y * - b \<le> - min a b"
    using assms by (intro convex_bound_le) auto
  ultimately show ?thesis unfolding e by simp
qed

text \<open>An easing animation whose curve stays in the unit interval has a value
  between its end points at every time, equals \<open>from\<close> until it starts and \<open>to\<close> from its end on.\<close>

theorem easing_range:
  assumes "an_kind a = Easing c" "curve_unit E c"
  shows "min (an_from a) (an_to a) \<le> anim_value_at E t a \<and> anim_value_at E t a \<le> max (an_from a) (an_to a) \<and>
    (t \<le> an_start_time a \<longrightarrow> anim_value_at E t a = an_from a) \<and>
    (an_start_time a < t \<and> an_start_time a + an_duration a \<le> t \<longrightarrow> anim_value_at E t a = an_to a)"
proof -
  let ?x = "f_clamp (dur_as_secs (t - an_start_time a) / dur_as_secs (an_duration a)) 0 1"
  have "0 \<le> curve_y E c ?x \<and> curve_y E c ?x \<le> 1"
    using assms(2) f_clamp_bounds by (intro curve_y_unit) auto
  from between_affine[OF conjunct1[OF this] conjunct2[OF this], of "an_from a" "an_to a"]
  show ?thesis by (auto simp: anim_value_at_def assms(1) Let_def)
qed

theorem easing_range_witness:
  "anim_value_at (undefined :: env0) 5 (\<lparr>an_from = 2, an_to = 1, an_initial_velocity = 0, an_is_off = False,
      an_duration = 10, an_clamped_duration = 10, an_start_time = 0, an_kind = Easing Linear\<rparr>) \<le> 2"
  using easing_range[of "\<lparr>an_from = 2, an_to = 1, an_initial_velocity = 0, an_is_off = False,
      an_duration = 10, an_clamped_duration = 10, an_start_time = 0, an_kind = Easing Linear\<rparr>" Linear
      "undefined :: env0" 5]
  by (simp add: curve_unit_def)

text \<open>A Bezier curve may leave the unit interval before its end (the
  control points are those of a common configuration), although \<open>ease\<close> takes the whole duration as
  the time until the animation first reaches its target because no curve overshoots: the clamped value
  of such an animation passes the target and is above it while the animation is running.\<close>

theorem bezier_overshoots:
  fixes E :: env0
  defines "a \<equiv> anim_ease (E\<lparr>e_now := 0, e_complete_instantly := False\<rparr>) 0 1 0 1000
     (curve_from (CfgCubicBezier 0.05 0.9 0.1 1.05))"
  shows "1 < anim_clamped_value (E\<lparr>e_now := 675000000, e_complete_instantly := False\<rparr>) a"
proof -
  let ?b = "\<lparr>bz_x1 = 0.05, bz_y1 = 0.9, bz_x2 = 0.1, bz_y2 = 1.05\<rparr> :: cubic_bezier"
  obtain lo hi where bi: "bisect_t 27 ?b (675 / 1000) (13 / 16) (7 / 8) = (lo, hi)" by fastforce
  have "bisect_t (Suc (Suc (Suc (Suc 27)))) ?b (675 / 1000) 0 1 = (lo, hi)"
    using bi by (simp only: bisect_t.simps(2) x_for_t_def bezier_for_t_def Let_def) simp
  then have t: "t_for_x ?b (675 / 1000) = (lo + hi) / 2" by (simp add: t_for_x_def)
  define t where "t = (lo + hi) / 2"
  have "13 / 16 \<le> lo" "lo \<le> hi" "hi \<le> 7 / 8"
    using bisect_invariant[OF bi] by (simp_all add: x_for_t_def bezier_for_t_def)
  then have b: "13 / 16 \<le> t" "t \<le> 7 / 8" by (simp_all add: t_def)
  have "y_for_t ?b t - 1 = (1 - t) * (0.15 * (t * t) - (1 - t) * (1 - t) - 0.3 * ((1 - t) * t))"
    by (simp add: y_for_t_def bezier_for_t_def Let_def field_simps)
  moreover have "0 < 0.15 * (t * t) - (1 - t) * (1 - t) - 0.3 * ((1 - t) * t)"
  proof -
    have lin: "0 < 0.15 * p - q - 0.3 * r"
      if "(13 / 16) * (13 / 16) \<le> p" "q \<le> (3 / 16) * (3 / 16)" "r \<le> (3 / 16) * (7 / 8)" for p q r :: real
      using that by simp
    show ?thesis using b by (intro lin mult_mono) simp_all
  qed
  ultimately have "0 < y_for_t ?b t - 1" using b by (simp only:) (rule mult_pos_pos, simp_all)
  then have "1 < y_for_t ?b (t_for_x ?b (675 / 1000))" unfolding t t_def by simp
  then show ?thesis
    by (simp add: a_def anim_clamped_value_def anim_is_clamped_done_def anim_ease_def anim_value_def
        anim_value_at_def dur_of_millis_def dur_as_secs_def f_clamp_def curve_y_def bezier_y_def
        f64_epsilon_def)
qed

end
