(* ===== verification/Scaling.thy ===== *)
theory Scaling
  imports Animations
begin

text \<open>
  Rounding to physical pixels, size bounds and placement in an area (\<^verbatim>\<open>utils/mod.rs\<close>), the choice
  of a monitor's scale (\<^verbatim>\<open>utils/scale.rs\<close>) and the rubber band (\<^verbatim>\<open>rubber_band.rs\<close>).
\<close>

section \<open>Physical pixels\<close>

definition round_logical_in_physical :: "f64 \<Rightarrow> f64 \<Rightarrow> f64" where
  "round_logical_in_physical scale x = f_round (x * scale) / scale"

definition round_logical_in_physical_max1 :: "f64 \<Rightarrow> f64 \<Rightarrow> f64" where
  "round_logical_in_physical_max1 scale x =
     (if x = 0 then 0 else f_round (max (x * scale) 1) / scale)"

definition floor_logical_in_physical_max1 :: "f64 \<Rightarrow> f64 \<Rightarrow> f64" where
  "floor_logical_in_physical_max1 scale x =
     (if x = 0 then 0 else of_int \<lfloor>max (x * scale) 1\<rfloor> / scale)"

lemma f_round_ge_1: "1 \<le> f_round (max x 1)"
proof -
  have "1 \<le> \<lfloor>max x 1 + 1/2\<rfloor>" by linarith
  then show ?thesis by (simp add: f_round_def)
qed

text \<open>A length that is not zero stays at least one physical pixel, whole
  pixels stay whole, and zero stays zero: rounding a gap or a border never makes it vanish.\<close>

theorem max1_is_visible:
  assumes "0 < scale"
  shows "(x \<noteq> 0 \<longrightarrow> 1 \<le> round_logical_in_physical_max1 scale x * scale) \<and>
    (\<exists>n::int. round_logical_in_physical_max1 scale x * scale = of_int n) \<and>
    (x \<noteq> 0 \<longrightarrow> floor_logical_in_physical_max1 scale x \<le> round_logical_in_physical_max1 scale x) \<and>
    round_logical_in_physical_max1 scale (round_logical_in_physical_max1 scale x) =
      round_logical_in_physical_max1 scale x"
proof -
  obtain n where n: "f_round (max (x * scale) 1) = of_int n" using f_round_integer by auto
  have n1: "1 \<le> n" using f_round_ge_1[of "x * scale"] n by simp
  have r: "round_logical_in_physical_max1 scale x = (if x = 0 then 0 else of_int n / scale)"
    by (simp add: round_logical_in_physical_max1_def n)
  have "x \<noteq> 0 \<Longrightarrow> round_logical_in_physical_max1 scale (of_int n / scale) = of_int n / scale"
    using assms n1 by (simp add: round_logical_in_physical_max1_def max_absorb1)
  moreover have "\<lfloor>max (x * scale) 1\<rfloor> \<le> n"
  proof -
    have "\<bar>of_int n - max (x * scale) 1\<bar> \<le> 1/2" using f_round_near[of "max (x * scale) 1"] n by simp
    moreover have "f_round (max (x * scale) 1) = of_int \<lfloor>max (x * scale) 1 + 1/2\<rfloor>"
      by (simp add: f_round_def)
    ultimately show ?thesis using n by linarith
  qed
  then have "x \<noteq> 0 \<Longrightarrow> floor_logical_in_physical_max1 scale x \<le> of_int n / scale"
    using assms by (simp add: floor_logical_in_physical_max1_def divide_right_mono)
  ultimately show ?thesis
    using assms n1 unfolding r
    by (auto simp: round_logical_in_physical_max1_def intro: exI[of _ 0] exI[of _ n])
qed

theorem max1_is_visible_witness: "1 \<le> round_logical_in_physical_max1 2 (1/10) * 2"
  using max1_is_visible[of 2 "1/10"] by simp

section \<open>Size bounds\<close>

definition ensure_min_max_size :: "int \<Rightarrow> int \<Rightarrow> int \<Rightarrow> int" where
  "ensure_min_max_size x min_size max_size =
    (let x = (if max_size > 0 then min x max_size else x)
     in if min_size > 0 then max x min_size else x)"

definition ensure_min_max_size_maybe_zero :: "int \<Rightarrow> int \<Rightarrow> int \<Rightarrow> int" where
  "ensure_min_max_size_maybe_zero x min_size max_size =
    (if x \<noteq> 0 then ensure_min_max_size x min_size max_size
     else if min_size > 0 \<and> min_size = max_size then min_size else 0)"

text \<open>The size is brought within the bounds that are set (zero is unset), the
  minimum winning over a contradictory maximum, moved no further than needed, and a second application
  changes nothing; a zero size, which lets the window choose, stays zero unless the size is fixed.\<close>

theorem min_max_size_ok:
  "(0 < mn \<longrightarrow> mn \<le> ensure_min_max_size x mn mx) \<and>
   (0 < mx \<and> mn \<le> mx \<longrightarrow> ensure_min_max_size x mn mx \<le> mx) \<and>
   ((mn \<le> 0 \<or> mn \<le> x) \<and> (mx \<le> 0 \<or> x \<le> mx) \<longrightarrow> ensure_min_max_size x mn mx = x) \<and>
   ensure_min_max_size (ensure_min_max_size x mn mx) mn mx = ensure_min_max_size x mn mx \<and>
   (ensure_min_max_size_maybe_zero 0 mn mx \<noteq> 0 \<longrightarrow>
      mn = mx \<and> ensure_min_max_size_maybe_zero 0 mn mx = mn)"
  by (auto simp: ensure_min_max_size_def ensure_min_max_size_maybe_zero_def Let_def)

theorem min_max_size_ok_witness: "ensure_min_max_size 5 10 20 = 10"
  using min_max_size_ok[of 10 5 20] by (simp add: ensure_min_max_size_def)

section \<open>Placement in an area\<close>

definition clamp_preferring_top_left_in_area :: "rect \<Rightarrow> rect \<Rightarrow> rect" where
  "clamp_preferring_top_left_in_area area r =
    (let x = min (pt_x (rloc r)) (pt_x (rloc area) + sz_w (rsize area) - sz_w (rsize r));
         y = min (pt_y (rloc r)) (pt_y (rloc area) + sz_h (rsize area) - sz_h (rsize r))
     in r\<lparr>rloc := mk_point (max x (pt_x (rloc area))) (max y (pt_y (rloc area)))\<rparr>)"

definition center_preferring_top_left_in_area :: "rect \<Rightarrow> size \<Rightarrow> point" where
  "center_preferring_top_left_in_area area s =
     mk_point (pt_x (rloc area) + max ((sz_w (rsize area) - sz_w s) / 2) 0)
              (pt_y (rloc area) + max ((sz_h (rsize area) - sz_h s) / 2) 0)"

definition rect_fits :: "size \<Rightarrow> rect \<Rightarrow> bool" where
  "rect_fits s area \<longleftrightarrow> sz_w s \<le> sz_w (rsize area) \<and> sz_h s \<le> sz_h (rsize area)"

text \<open>Clamping keeps the size, leaves a rectangle that is inside the area
  where it is, brings one that fits inside, and lets the top-left corner win for one that does not;
  centring a size that fits puts it inside the area.\<close>

theorem clamp_in_area_ok:
  defines "c \<equiv> \<lambda>area r. clamp_preferring_top_left_in_area area r"
  shows "rsize (c area r) = rsize r \<and>
    (rect_fits (rsize r) area \<longrightarrow> rect_within (c area r) area) \<and>
    (rect_within r area \<longrightarrow> c area r = r) \<and>
    pt_x (rloc area) \<le> pt_x (rloc (c area r)) \<and> pt_y (rloc area) \<le> pt_y (rloc (c area r)) \<and>
    (sz_w (rsize area) \<le> sz_w (rsize r) \<longrightarrow> pt_x (rloc (c area r)) = pt_x (rloc area)) \<and>
    c area (c area r) = c area r \<and>
    (rect_fits s area \<longrightarrow>
       rect_within \<lparr>rloc = center_preferring_top_left_in_area area s, rsize = s\<rparr> area)"
  by (cases r; cases "rloc r")
     (auto simp: c_def clamp_preferring_top_left_in_area_def center_preferring_top_left_in_area_def
        rect_fits_def rect_within_def mk_point_def Let_def max_def min_def field_simps)

theorem clamp_in_area_ok_witness:
  "rect_within (clamp_preferring_top_left_in_area
      \<lparr>rloc = mk_point 0 0, rsize = mk_size 10 10\<rparr> \<lparr>rloc = mk_point 20 (-5), rsize = mk_size 4 4\<rparr>)
     \<lparr>rloc = mk_point 0 0, rsize = mk_size 10 10\<rparr>"
  using clamp_in_area_ok[of "\<lparr>rloc = mk_point 0 0, rsize = mk_size 10 10\<rparr>"
      "\<lparr>rloc = mk_point 20 (-5), rsize = mk_size 4 4\<rparr>"]
  by (simp add: rect_fits_def)

section \<open>Monitor scale\<close>

definition is_valid_for_resolution :: "'e env0_scheme \<Rightarrow> isize \<Rightarrow> f64 \<Rightarrow> bool" where
  "is_valid_for_resolution E res scale =
    (let w = e_i32_round E (of_int (isz_w res) / scale); h = e_i32_round E (of_int (isz_h res) / scale)
     in w * h \<ge> 800 * 480)"

definition supported_scales :: "'e env0_scheme \<Rightarrow> isize \<Rightarrow> f64 list" where
  "supported_scales E res =
     filter (is_valid_for_resolution E res) (map (\<lambda>x. of_int x / of_int 4) [1 * 4..4 * 4])"

text \<open>\<open>Iterator::min_by\<close>: the first of the minimal elements.\<close>

fun min_by :: "('a \<Rightarrow> f64) \<Rightarrow> 'a list \<Rightarrow> 'a option" where
  "min_by f [] = None"
| "min_by f (x # xs) = (case min_by f xs of
     None \<Rightarrow> Some x | Some y \<Rightarrow> if f x \<le> f y then Some x else Some y)"

definition guess_monitor_scale :: "'e env0_scheme \<Rightarrow> isize \<Rightarrow> isize \<Rightarrow> f64" where
  "guess_monitor_scale E size_mm res =
    (if isz_w size_mm = 0 \<or> isz_h size_mm = 0 then 1
     else
       let diag_inches = sqrt (of_int (isz_w size_mm * isz_w size_mm + isz_h size_mm * isz_h size_mm)) / 25.4;
           target_dpi = (if diag_inches < 20 then 135 else 110);
           physical_dpi = sqrt (of_int (isz_w res * isz_w res + isz_h res * isz_h res)) / diag_inches;
           perfect_scale = physical_dpi / target_dpi
       in case min_by (\<lambda>s. \<bar>s - perfect_scale\<bar>) (supported_scales E res) of Some s \<Rightarrow> s | None \<Rightarrow> 1)"

definition closest_representable_scale :: "f64 \<Rightarrow> f64" where
  "closest_representable_scale scale = f_round (scale * 120) / 120"

lemma min_by_None: "min_by f xs = None \<longleftrightarrow> xs = []"
  by (cases xs) (auto split: option.splits)

lemma min_by_Some: "min_by f xs = Some y \<Longrightarrow> y \<in> set xs \<and> (\<forall>x \<in> set xs. f y \<le> f x)"
  by (induction xs arbitrary: y) (auto simp: min_by_None split: option.splits if_splits)

text \<open>The guessed scale is 1, or a quarter step between 1 and 4 at which
  the logical area is large enough and no other such scale is closer to the ideal one. Rounding a
  scale for the fractional-scale protocol moves it by at most \<open>1/240\<close>, yields a multiple of \<open>1/120\<close>
  and fixes the guessed scales.\<close>

theorem guessed_scale_ok:
  fixes E :: "'e env0_scheme" and size_mm res :: isize
  defines "g \<equiv> guess_monitor_scale E size_mm res"
  shows "(g = 1 \<or> g \<in> set (supported_scales E res)) \<and> 1 \<le> g \<and> g \<le> 4 \<and>
    closest_representable_scale g = g \<and>
    \<bar>closest_representable_scale x - x\<bar> \<le> 1/240 \<and>
    closest_representable_scale (closest_representable_scale x) = closest_representable_scale x"
proof -
  have sup: "\<exists>n::int. s = of_int n / 4 \<and> 4 \<le> n \<and> n \<le> 16" if "s \<in> set (supported_scales E res)" for s
    using that unfolding supported_scales_def set_filter set_map set_upto by auto
  have g: "g = 1 \<or> g \<in> set (supported_scales E res)"
    by (auto simp: g_def guess_monitor_scale_def Let_def dest: min_by_Some split: option.split)
  then obtain n :: int where n: "g = of_int n / 4" "4 \<le> n" "n \<le> 16"
    using sup[of g] by (cases "g = 1") (force intro: that[of 4])+
  have "closest_representable_scale g = g"
  proof -
    have "g * 120 = of_int (n * 30)" using n(1) by simp
    then have "f_round (g * 120) = g * 120" by (metis f_round_of_int)
    then show ?thesis by (simp add: closest_representable_scale_def)
  qed
  moreover have "\<bar>closest_representable_scale x - x\<bar> \<le> 1/240"
    using f_round_near[of "x * 120"] by (simp add: closest_representable_scale_def abs_le_iff field_simps)
  moreover have "closest_representable_scale (closest_representable_scale x) = closest_representable_scale x"
    using f_round_integer[of "x * 120"] by (auto simp: closest_representable_scale_def)
  moreover have "1 \<le> g" "g \<le> 4" using n by simp_all
  ultimately show ?thesis using g by blast
qed

section \<open>Rubber band\<close>

record rubber_band = rb_stiffness :: f64  rb_limit :: f64

definition rb_band :: "rubber_band \<Rightarrow> f64 \<Rightarrow> f64" where
  "rb_band r x = (let c = rb_stiffness r; d = rb_limit r in (1 - (1 / (x * c / d + 1))) * d)"

definition rb_derivative :: "rubber_band \<Rightarrow> f64 \<Rightarrow> f64" where
  "rb_derivative r x = (let c = rb_stiffness r; d = rb_limit r in c * d * d / (c * x + d) ^ 2)"

definition rb_clamp :: "rubber_band \<Rightarrow> f64 \<Rightarrow> f64 \<Rightarrow> f64 \<Rightarrow> f64" where
  "rb_clamp r mn mx x =
    (let clamped = f_clamp x mn mx; sign = (if x < clamped then - 1 else 1); diff = \<bar>x - clamped\<bar>
     in clamped + sign * rb_band r diff)"

definition rb_clamp_derivative :: "rubber_band \<Rightarrow> f64 \<Rightarrow> f64 \<Rightarrow> f64 \<Rightarrow> f64" where
  "rb_clamp_derivative r mn mx x =
    (if mn \<le> x \<and> x \<le> mx then 1
     else let clamped = f_clamp x mn mx; diff = \<bar>x - clamped\<bar> in rb_derivative r diff)"

lemma rb_band_bounds:
  assumes "0 < rb_stiffness r" "0 < rb_limit r" "0 \<le> x"
  shows "0 \<le> rb_band r x \<and> rb_band r x < rb_limit r"
proof -
  let ?u = "x * rb_stiffness r / rb_limit r + 1"
  have u: "1 \<le> ?u" using assms by simp
  then have "1 / ?u \<le> 1" "0 < 1 / ?u" by simp_all
  moreover have "(1 - 1 / ?u) * rb_limit r < 1 * rb_limit r"
    using assms \<open>0 < 1 / ?u\<close> by (intro mult_strict_right_mono) auto
  ultimately show ?thesis using assms by (simp add: rb_band_def Let_def)
qed

text \<open>Inside its range the rubber band does not act; outside, the result never
  leaves the range by as much as the limit, on the side it was pulled; and the derivative the gestures
  use is the derivative of the band.\<close>

theorem rubber_band_ok:
  assumes "0 < rb_stiffness r" "0 < rb_limit r" "mn \<le> mx"
  shows "mn - rb_limit r < rb_clamp r mn mx x \<and> rb_clamp r mn mx x < mx + rb_limit r \<and>
    (mn \<le> x \<and> x \<le> mx \<longrightarrow> rb_clamp r mn mx x = x) \<and>
    (x < mn \<longrightarrow> rb_clamp r mn mx x \<le> mn) \<and> (mx < x \<longrightarrow> mx \<le> rb_clamp r mn mx x) \<and>
    (0 \<le> y \<longrightarrow> (rb_band r has_real_derivative rb_derivative r y) (at y))"
proof -
  let ?d = "\<bar>x - f_clamp x mn mx\<bar>"
  note b = rb_band_bounds[OF assms(1,2), of ?d, simplified]
  have z: "rb_band r 0 = 0" by (simp add: rb_band_def)
  have "(rb_band r has_real_derivative rb_derivative r y) (at y)" if "0 \<le> y"
  proof -
    have nz: "rb_stiffness r * y + rb_limit r \<noteq> 0"
      using assms that by (metis add_nonneg_pos less_numeral_extra(3) mult_nonneg_nonneg less_imp_le)
    have "rb_band r = (\<lambda>x. rb_limit r - rb_limit r * rb_limit r / (rb_stiffness r * x + rb_limit r))"
    proof
      fix x
      have "x * rb_stiffness r / rb_limit r + 1 = (rb_stiffness r * x + rb_limit r) / rb_limit r"
        using assms(2) by (simp add: field_simps)
      then show "rb_band r x = rb_limit r - rb_limit r * rb_limit r / (rb_stiffness r * x + rb_limit r)"
        by (simp add: rb_band_def Let_def left_diff_distrib)
    qed
    then show ?thesis
      using nz by (auto intro!: derivative_eq_intros simp: rb_derivative_def Let_def power2_eq_square)
  qed
  then show ?thesis
    using b assms(3) z unfolding rb_clamp_def Let_def by (auto simp: f_clamp_def)
qed

theorem rubber_band_ok_witness:
  "rb_clamp \<lparr>rb_stiffness = 1/2, rb_limit = 1/20\<rparr> 0 1 5 < 1 + 1/20"
  using rubber_band_ok[of "\<lparr>rb_stiffness = 1/2, rb_limit = 1/20\<rparr>" 0 1 5] by simp

end
