(* ===== verification/Rules.thy ===== *)
theory Rules
  imports Prelude
begin

text \<open>
  Window rules: the configuration records of \<^verbatim>\<open>sol-config/src/appearance.rs\<close> and
  \<^verbatim>\<open>window_rule.rs\<close>, how they merge, and their resolution for a window in \<^verbatim>\<open>window/mod.rs\<close>.
  Matching a regular expression belongs to the \<open>regex\<close> crate and is a parameter: a rule carries regular
  expressions of some type \<open>'r\<close> and \<open>re r s\<close> tells whether \<open>r\<close> matches the string \<open>s\<close>.
\<close>

section \<open>Appearance\<close>

record color = cl_r :: f64  cl_g :: f64  cl_b :: f64  cl_a :: f64

datatype gradient_relative_to = GradientWindow | GradientWorkspaceView
datatype gradient_color_space = Srgb | SrgbLinear | Oklab | Oklch
datatype hue_interpolation = Shorter | Longer | Increasing | Decreasing

record gradient_interpolation =
  gi_color_space :: gradient_color_space
  gi_hue_interpolation :: hue_interpolation

record gradient =
  gr_from :: color
  gr_to :: color
  gr_angle :: int
  gr_relative_to :: gradient_relative_to
  gr_in :: gradient_interpolation

definition color_from_array_premul :: "f64 \<Rightarrow> f64 \<Rightarrow> f64 \<Rightarrow> f64 \<Rightarrow> color" where
  "color_from_array_premul r g b a =
    (let a = f_clamp a 0 1
     in if a = 0 then \<lparr>cl_r = 0, cl_g = 0, cl_b = 0, cl_a = 0\<rparr>
        else \<lparr>cl_r = f_clamp (r / a) 0 1, cl_g = f_clamp (g / a) 0 1, cl_b = f_clamp (b / a) 0 1, cl_a = a\<rparr>)"

definition color_to_array_premul :: "color \<Rightarrow> f64 \<times> f64 \<times> f64 \<times> f64" where
  "color_to_array_premul c = (cl_r c * cl_a c, cl_g c * cl_a c, cl_b c * cl_a c, cl_a c)"

definition gradient_from_color :: "color \<Rightarrow> gradient" where
  "gradient_from_color c = \<lparr>gr_from = c, gr_to = c, gr_angle = 0, gr_relative_to = GradientWindow,
     gr_in = \<lparr>gi_color_space = Srgb, gi_hue_interpolation = Shorter\<rparr>\<rparr>"

record corner_radius = cr_top_left :: f64  cr_top_right :: f64  cr_bottom_right :: f64  cr_bottom_left :: f64

text \<open>\<open>merge_clone_opt\<close> and \<open>merge_color_gradient_opt\<close>: what is set in the part replaces; setting a color
  removes the gradient.\<close>

definition set_opt :: "'a option \<Rightarrow> 'a option \<Rightarrow> 'a option" where
  "set_opt part self = (case part of Some x \<Rightarrow> Some x | None \<Rightarrow> self)"

record border_config =
  bc_off :: bool
  bc_width :: f64
  bc_active_color :: color
  bc_inactive_color :: color
  bc_urgent_color :: color
  bc_active_gradient :: "gradient option"
  bc_inactive_gradient :: "gradient option"
  bc_urgent_gradient :: "gradient option"

record border_rule =
  br_off :: bool
  br_on :: bool
  br_width :: "f64 option"
  br_active_color :: "color option"
  br_inactive_color :: "color option"
  br_urgent_color :: "color option"
  br_active_gradient :: "gradient option"
  br_inactive_gradient :: "gradient option"
  br_urgent_gradient :: "gradient option"

definition color_opt :: "color option \<Rightarrow> color \<Rightarrow> color" where
  "color_opt part self = (case part of Some x \<Rightarrow> x | None \<Rightarrow> self)"

definition gradient_opt :: "color option \<Rightarrow> gradient option \<Rightarrow> gradient option \<Rightarrow> gradient option" where
  "gradient_opt color part self =
     set_opt part (case color of Some _ \<Rightarrow> None | None \<Rightarrow> self)"

definition border_merged_with :: "border_config \<Rightarrow> border_rule \<Rightarrow> border_config" where
  "border_merged_with c r =
     \<lparr>bc_off = (if br_on r then False else bc_off c \<or> br_off r),
      bc_width = (case br_width r of Some w \<Rightarrow> w | None \<Rightarrow> bc_width c),
      bc_active_color = color_opt (br_active_color r) (bc_active_color c),
      bc_inactive_color = color_opt (br_inactive_color r) (bc_inactive_color c),
      bc_urgent_color = color_opt (br_urgent_color r) (bc_urgent_color c),
      bc_active_gradient = gradient_opt (br_active_color r) (br_active_gradient r) (bc_active_gradient c),
      bc_inactive_gradient = gradient_opt (br_inactive_color r) (br_inactive_gradient r) (bc_inactive_gradient c),
      bc_urgent_gradient = gradient_opt (br_urgent_color r) (br_urgent_gradient r) (bc_urgent_gradient c)\<rparr>"

text \<open>\<open>merge_on_off\<close>\<close>

definition merge_off :: "bool \<Rightarrow> bool \<Rightarrow> bool \<Rightarrow> bool" where
  "merge_off part_off part_on off = (if part_on then False else if part_off then True else off)"

definition merge_on :: "bool \<Rightarrow> bool \<Rightarrow> bool \<Rightarrow> bool" where
  "merge_on part_off part_on on = (if part_on then True else if part_off then False else on)"

definition border_rule_merge :: "border_rule \<Rightarrow> border_rule \<Rightarrow> border_rule" where
  "border_rule_merge p s =
     \<lparr>br_off = merge_off (br_off p) (br_on p) (br_off s), br_on = merge_on (br_off p) (br_on p) (br_on s),
      br_width = set_opt (br_width p) (br_width s),
      br_active_color = set_opt (br_active_color p) (br_active_color s),
      br_inactive_color = set_opt (br_inactive_color p) (br_inactive_color s),
      br_urgent_color = set_opt (br_urgent_color p) (br_urgent_color s),
      br_active_gradient = gradient_opt (br_active_color p) (br_active_gradient p) (br_active_gradient s),
      br_inactive_gradient = gradient_opt (br_inactive_color p) (br_inactive_gradient p) (br_inactive_gradient s),
      br_urgent_gradient = gradient_opt (br_urgent_color p) (br_urgent_gradient p) (br_urgent_gradient s)\<rparr>"

record shadow_offset = so_x :: f64  so_y :: f64

record shadow_rule =
  sr_off :: bool
  sr_on :: bool
  sr_offset :: "shadow_offset option"
  sr_softness :: "f64 option"
  sr_spread :: "f64 option"
  sr_draw_behind_window :: "bool option"
  sr_color :: "color option"
  sr_inactive_color :: "color option"

definition shadow_rule_merge :: "shadow_rule \<Rightarrow> shadow_rule \<Rightarrow> shadow_rule" where
  "shadow_rule_merge p s =
     \<lparr>sr_off = merge_off (sr_off p) (sr_on p) (sr_off s), sr_on = merge_on (sr_off p) (sr_on p) (sr_on s),
      sr_offset = set_opt (sr_offset p) (sr_offset s), sr_softness = set_opt (sr_softness p) (sr_softness s),
      sr_spread = set_opt (sr_spread p) (sr_spread s),
      sr_draw_behind_window = set_opt (sr_draw_behind_window p) (sr_draw_behind_window s),
      sr_color = set_opt (sr_color p) (sr_color s),
      sr_inactive_color = set_opt (sr_inactive_color p) (sr_inactive_color s)\<rparr>"

record tab_indicator_rule =
  ti_active_color :: "color option"
  ti_inactive_color :: "color option"
  ti_urgent_color :: "color option"
  ti_active_gradient :: "gradient option"
  ti_inactive_gradient :: "gradient option"
  ti_urgent_gradient :: "gradient option"

definition tab_indicator_rule_merge :: "tab_indicator_rule \<Rightarrow> tab_indicator_rule \<Rightarrow> tab_indicator_rule" where
  "tab_indicator_rule_merge p s =
     \<lparr>ti_active_color = set_opt (ti_active_color p) (ti_active_color s),
      ti_inactive_color = set_opt (ti_inactive_color p) (ti_inactive_color s),
      ti_urgent_color = set_opt (ti_urgent_color p) (ti_urgent_color s),
      ti_active_gradient = gradient_opt (ti_active_color p) (ti_active_gradient p) (ti_active_gradient s),
      ti_inactive_gradient = gradient_opt (ti_inactive_color p) (ti_inactive_gradient p) (ti_inactive_gradient s),
      ti_urgent_gradient = gradient_opt (ti_urgent_color p) (ti_urgent_gradient p) (ti_urgent_gradient s)\<rparr>"

text \<open>The rule and the resolved effect have the same fields.\<close>

record background_effect =
  be_xray :: "bool option"
  be_blur :: "bool option"
  be_noise :: "f64 option"
  be_saturation :: "f64 option"

definition background_effect_merge :: "background_effect \<Rightarrow> background_effect \<Rightarrow> background_effect" where
  "background_effect_merge p s =
     \<lparr>be_xray = set_opt (be_xray p) (be_xray s), be_blur = set_opt (be_blur p) (be_blur s),
      be_noise = set_opt (be_noise p) (be_noise s),
      be_saturation = set_opt (be_saturation p) (be_saturation s)\<rparr>"

record popups_rule =
  pr_opacity :: "f64 option"
  pr_geometry_corner_radius :: "corner_radius option"
  pr_background_effect :: background_effect

definition popups_rule_merge :: "popups_rule \<Rightarrow> popups_rule \<Rightarrow> popups_rule" where
  "popups_rule_merge p s =
     \<lparr>pr_opacity = set_opt (pr_opacity p) (pr_opacity s),
      pr_geometry_corner_radius = set_opt (pr_geometry_corner_radius p) (pr_geometry_corner_radius s),
      pr_background_effect = background_effect_merge (pr_background_effect p) (pr_background_effect s)\<rparr>"

section \<open>Rules\<close>

datatype preset_size = PresetProportion f64 | PresetFixed int

datatype relative_to = RelTopLeft | RelTopRight | RelBottomLeft | RelBottomRight
  | RelTop | RelBottom | RelLeft | RelRight

record floating_position = fp_x :: f64  fp_y :: f64  fp_relative_to :: relative_to

datatype column_display = DisplayNormal | DisplayTabbed
datatype block_out_from = Screencast | ScreenCapture

record 'r match_rule =
  mt_app_id :: "'r option"
  mt_title :: "'r option"
  mt_is_active :: "bool option"
  mt_is_focused :: "bool option"
  mt_is_active_in_column :: "bool option"
  mt_is_floating :: "bool option"
  mt_is_window_cast_target :: "bool option"
  mt_is_urgent :: "bool option"
  mt_at_startup :: "bool option"

record 'r window_rule =
  rl_matches :: "'r match_rule list"
  rl_excludes :: "'r match_rule list"
  rl_default_column_width :: "preset_size option option"
  rl_default_window_height :: "preset_size option option"
  rl_open_on_output :: "string option"
  rl_open_on_workspace :: "string option"
  rl_open_maximized :: "bool option"
  rl_open_maximized_to_edges :: "bool option"
  rl_open_fullscreen :: "bool option"
  rl_open_floating :: "bool option"
  rl_open_focused :: "bool option"
  rl_min_width :: "nat option"
  rl_min_height :: "nat option"
  rl_max_width :: "nat option"
  rl_max_height :: "nat option"
  rl_focus_ring :: border_rule
  rl_border :: border_rule
  rl_shadow :: shadow_rule
  rl_tab_indicator :: tab_indicator_rule
  rl_draw_border_with_background :: "bool option"
  rl_opacity :: "f64 option"
  rl_geometry_corner_radius :: "corner_radius option"
  rl_clip_to_geometry :: "bool option"
  rl_baba_is_float :: "bool option"
  rl_block_out_from :: "block_out_from option"
  rl_variable_refresh_rate :: "bool option"
  rl_default_column_display :: "column_display option"
  rl_default_floating_position :: "floating_position option"
  rl_scroll_factor :: "f64 option"
  rl_tiled_state :: "bool option"
  rl_background_effect :: background_effect
  rl_popups :: popups_rule

record window_rules =
  wr_default_width :: "preset_size option option"
  wr_default_height :: "preset_size option option"
  wr_default_column_display :: "column_display option"
  wr_default_floating_position :: "floating_position option"
  wr_open_on_output :: "string option"
  wr_open_on_workspace :: "string option"
  wr_open_maximized :: "bool option"
  wr_open_maximized_to_edges :: "bool option"
  wr_open_fullscreen :: "bool option"
  wr_open_floating :: "bool option"
  wr_open_focused :: "bool option"
  wr_min_width :: "nat option"
  wr_min_height :: "nat option"
  wr_max_width :: "nat option"
  wr_max_height :: "nat option"
  wr_focus_ring :: border_rule
  wr_border :: border_rule
  wr_shadow :: shadow_rule
  wr_tab_indicator :: tab_indicator_rule
  wr_draw_border_with_background :: "bool option"
  wr_opacity :: "f64 option"
  wr_geometry_corner_radius :: "corner_radius option"
  wr_clip_to_geometry :: "bool option"
  wr_baba_is_float :: "bool option"
  wr_block_out_from :: "block_out_from option"
  wr_variable_refresh_rate :: "bool option"
  wr_scroll_factor :: "f64 option"
  wr_tiled_state :: "bool option"
  wr_background_effect :: background_effect
  wr_popups :: popups_rule

definition border_rule_default :: border_rule where
  "border_rule_default = \<lparr>br_off = False, br_on = False, br_width = None, br_active_color = None,
     br_inactive_color = None, br_urgent_color = None, br_active_gradient = None,
     br_inactive_gradient = None, br_urgent_gradient = None\<rparr>"

definition background_effect_default :: background_effect where
  "background_effect_default = \<lparr>be_xray = None, be_blur = None, be_noise = None, be_saturation = None\<rparr>"

definition rules_default :: window_rules where
  "rules_default =
     \<lparr>wr_default_width = None, wr_default_height = None, wr_default_column_display = None,
      wr_default_floating_position = None, wr_open_on_output = None, wr_open_on_workspace = None,
      wr_open_maximized = None, wr_open_maximized_to_edges = None, wr_open_fullscreen = None,
      wr_open_floating = None, wr_open_focused = None, wr_min_width = None, wr_min_height = None,
      wr_max_width = None, wr_max_height = None, wr_focus_ring = border_rule_default,
      wr_border = border_rule_default,
      wr_shadow = \<lparr>sr_off = False, sr_on = False, sr_offset = None, sr_softness = None, sr_spread = None,
        sr_draw_behind_window = None, sr_color = None, sr_inactive_color = None\<rparr>,
      wr_tab_indicator = \<lparr>ti_active_color = None, ti_inactive_color = None, ti_urgent_color = None,
        ti_active_gradient = None, ti_inactive_gradient = None, ti_urgent_gradient = None\<rparr>,
      wr_draw_border_with_background = None, wr_opacity = None, wr_geometry_corner_radius = None,
      wr_clip_to_geometry = None, wr_baba_is_float = None, wr_block_out_from = None,
      wr_variable_refresh_rate = None, wr_scroll_factor = None, wr_tiled_state = None,
      wr_background_effect = background_effect_default,
      wr_popups = \<lparr>pr_opacity = None, pr_geometry_corner_radius = None,
        pr_background_effect = background_effect_default\<rparr>\<rparr>"

section \<open>Resolution\<close>

text \<open>What is matched: the role of the toplevel and the state of the window, mapped or not.\<close>

record window_facts =
  wf_is_focused :: bool
  wf_is_urgent :: bool
  wf_pending_activated :: bool
  wf_app_id :: "string option"
  wf_title :: "string option"
  wf_is_active_in_column :: bool
  wf_is_floating :: bool
  wf_is_window_cast_target :: bool

definition bool_matches :: "bool option \<Rightarrow> bool \<Rightarrow> bool" where
  "bool_matches m b = (case m of Some x \<Rightarrow> b = x | None \<Rightarrow> True)"

definition string_matches :: "('r \<Rightarrow> string \<Rightarrow> bool) \<Rightarrow> 'r option \<Rightarrow> string option \<Rightarrow> bool" where
  "string_matches re m s = (case m of None \<Rightarrow> True
     | Some r \<Rightarrow> (case s of None \<Rightarrow> False | Some s \<Rightarrow> re r s))"

definition window_matches :: "('r \<Rightarrow> string \<Rightarrow> bool) \<Rightarrow> window_facts \<Rightarrow> 'r match_rule \<Rightarrow> bool" where
  "window_matches re w m \<longleftrightarrow>
     bool_matches (mt_is_focused m) (wf_is_focused w) \<and>
     bool_matches (mt_is_urgent m) (wf_is_urgent w) \<and>
     bool_matches (mt_is_active m) (wf_pending_activated w) \<and>
     string_matches re (mt_app_id m) (wf_app_id w) \<and>
     string_matches re (mt_title m) (wf_title w) \<and>
     bool_matches (mt_is_active_in_column m) (wf_is_active_in_column w) \<and>
     bool_matches (mt_is_floating m) (wf_is_floating w) \<and>
     bool_matches (mt_is_window_cast_target m) (wf_is_window_cast_target w)"

definition rule_applies ::
  "('r \<Rightarrow> string \<Rightarrow> bool) \<Rightarrow> window_facts \<Rightarrow> bool \<Rightarrow> 'r window_rule \<Rightarrow> bool" where
  "rule_applies re w is_at_startup r \<longleftrightarrow>
    (let m = (\<lambda>m. (case mt_at_startup m of Some x \<Rightarrow> x = is_at_startup | None \<Rightarrow> True) \<and> window_matches re w m)
     in (rl_matches r = [] \<or> list_ex m (rl_matches r)) \<and> \<not> list_ex m (rl_excludes r))"

definition apply_rule :: "'r window_rule \<Rightarrow> window_rules \<Rightarrow> window_rules" where
  "apply_rule r w =
     \<lparr>wr_default_width = set_opt (rl_default_column_width r) (wr_default_width w),
      wr_default_height = set_opt (rl_default_window_height r) (wr_default_height w),
      wr_default_column_display = set_opt (rl_default_column_display r) (wr_default_column_display w),
      wr_default_floating_position = set_opt (rl_default_floating_position r) (wr_default_floating_position w),
      wr_open_on_output = set_opt (rl_open_on_output r) (wr_open_on_output w),
      wr_open_on_workspace = set_opt (rl_open_on_workspace r) (wr_open_on_workspace w),
      wr_open_maximized = set_opt (rl_open_maximized r) (wr_open_maximized w),
      wr_open_maximized_to_edges = set_opt (rl_open_maximized_to_edges r) (wr_open_maximized_to_edges w),
      wr_open_fullscreen = set_opt (rl_open_fullscreen r) (wr_open_fullscreen w),
      wr_open_floating = set_opt (rl_open_floating r) (wr_open_floating w),
      wr_open_focused = set_opt (rl_open_focused r) (wr_open_focused w),
      wr_min_width = set_opt (rl_min_width r) (wr_min_width w),
      wr_min_height = set_opt (rl_min_height r) (wr_min_height w),
      wr_max_width = set_opt (rl_max_width r) (wr_max_width w),
      wr_max_height = set_opt (rl_max_height r) (wr_max_height w),
      wr_focus_ring = border_rule_merge (rl_focus_ring r) (wr_focus_ring w),
      wr_border = border_rule_merge (rl_border r) (wr_border w),
      wr_shadow = shadow_rule_merge (rl_shadow r) (wr_shadow w),
      wr_tab_indicator = tab_indicator_rule_merge (rl_tab_indicator r) (wr_tab_indicator w),
      wr_draw_border_with_background = set_opt (rl_draw_border_with_background r) (wr_draw_border_with_background w),
      wr_opacity = set_opt (rl_opacity r) (wr_opacity w),
      wr_geometry_corner_radius = set_opt (rl_geometry_corner_radius r) (wr_geometry_corner_radius w),
      wr_clip_to_geometry = set_opt (rl_clip_to_geometry r) (wr_clip_to_geometry w),
      wr_baba_is_float = set_opt (rl_baba_is_float r) (wr_baba_is_float w),
      wr_block_out_from = set_opt (rl_block_out_from r) (wr_block_out_from w),
      wr_variable_refresh_rate = set_opt (rl_variable_refresh_rate r) (wr_variable_refresh_rate w),
      wr_scroll_factor = set_opt (rl_scroll_factor r) (wr_scroll_factor w),
      wr_tiled_state = set_opt (rl_tiled_state r) (wr_tiled_state w),
      wr_background_effect = background_effect_merge (rl_background_effect r) (wr_background_effect w),
      wr_popups = popups_rule_merge (rl_popups r) (wr_popups w)\<rparr>"

definition rules_compute ::
  "('r \<Rightarrow> string \<Rightarrow> bool) \<Rightarrow> 'r window_rule list \<Rightarrow> window_facts \<Rightarrow> bool \<Rightarrow> window_rules" where
  "rules_compute re rules w is_at_startup =
     fold (\<lambda>r resolved. if rule_applies re w is_at_startup r then apply_rule r resolved else resolved)
       rules rules_default"

definition apply_min_size :: "window_rules \<Rightarrow> isize \<Rightarrow> isize" where
  "apply_min_size r s =
     \<lparr>isz_w = (case wr_min_width r of Some x \<Rightarrow> max (isz_w s) (int x) | None \<Rightarrow> isz_w s),
      isz_h = (case wr_min_height r of Some x \<Rightarrow> max (isz_h s) (int x) | None \<Rightarrow> isz_h s)\<rparr>"

definition apply_max :: "nat option \<Rightarrow> int \<Rightarrow> int" where
  "apply_max rule v = (case rule of
     Some x \<Rightarrow> if v = 0 then int x else if x > 0 then min v (int x) else v
   | None \<Rightarrow> v)"

definition apply_max_size :: "window_rules \<Rightarrow> isize \<Rightarrow> isize" where
  "apply_max_size r s =
     \<lparr>isz_w = apply_max (wr_max_width r) (isz_w s), isz_h = apply_max (wr_max_height r) (isz_h s)\<rparr>"

text \<open>Whether the window has a parent and its own size limits are given.\<close>

definition compute_open_floating :: "bool \<Rightarrow> isize \<Rightarrow> isize \<Rightarrow> window_rules \<Rightarrow> bool" where
  "compute_open_floating has_parent min_size max_size r =
    (case wr_open_floating r of
       Some res \<Rightarrow> res
     | None \<Rightarrow>
         has_parent \<or>
         (let mn = apply_min_size r min_size; mx = apply_max_size r max_size
          in isz_h mn > 0 \<and> isz_h mn = isz_h mx))"

section \<open>Lemmas\<close>

text \<open>The last value that is set.\<close>

definition last_set :: "('a \<Rightarrow> 'b option) \<Rightarrow> 'a list \<Rightarrow> 'b option" where
  "last_set f xs = (case rev (List.map_filter f xs) of [] \<Rightarrow> None | y # _ \<Rightarrow> Some y)"

lemma last_set_snoc: "last_set f (xs @ [x]) = set_opt (f x) (last_set f xs)"
  by (cases "f x") (auto simp: last_set_def set_opt_def map_filter_def split: list.split)

lemma compute_snoc:
  "rules_compute re (rs @ [r]) w st =
     (if rule_applies re w st r then apply_rule r (rules_compute re rs w st) else rules_compute re rs w st)"
  by (simp add: rules_compute_def)

lemma compute_field:
  assumes "\<And>r w. g (apply_rule r w) = set_opt (f r) (g w)" "g rules_default = None"
  shows "g (rules_compute re rs w st) = last_set f (filter (rule_applies re w st) rs)"
proof (induction rs rule: rev_induct)
  case Nil
  then show ?case by (simp add: rules_compute_def assms(2) last_set_def map_filter_def)
next
  case (snoc r rs)
  then show ?case by (simp add: compute_snoc assms(1) last_set_snoc)
qed

text \<open>The last rule that turns something on or off, both counting as on.\<close>

definition on_off :: "bool \<Rightarrow> bool \<Rightarrow> bool option" where
  "on_off on off = (if on then Some True else if off then Some False else None)"

text \<open>What a rule says of a gradient: a color without a gradient removes it.\<close>

definition gradient_told :: "color option \<Rightarrow> gradient option \<Rightarrow> gradient option option" where
  "gradient_told color gradient = (if gradient = None \<and> color = None then None else Some gradient)"

text \<open>The parts of the resolved rules as what the rules last say of each setting.\<close>

definition border_resolved :: "('a \<Rightarrow> border_rule) \<Rightarrow> 'a list \<Rightarrow> border_rule \<Rightarrow> bool" where
  "border_resolved f rs b \<longleftrightarrow>
     (let say = last_set (\<lambda>r. on_off (br_on (f r)) (br_off (f r))) rs
      in br_on b = (say = Some True) \<and> br_off b = (say = Some False)) \<and>
     br_width b = last_set (br_width \<circ> f) rs \<and>
     br_active_color b = last_set (br_active_color \<circ> f) rs \<and>
     br_inactive_color b = last_set (br_inactive_color \<circ> f) rs \<and>
     br_urgent_color b = last_set (br_urgent_color \<circ> f) rs \<and>
     br_active_gradient b =
       Option.bind (last_set (\<lambda>r. gradient_told (br_active_color (f r)) (br_active_gradient (f r))) rs) id \<and>
     br_inactive_gradient b =
       Option.bind (last_set (\<lambda>r. gradient_told (br_inactive_color (f r)) (br_inactive_gradient (f r))) rs) id \<and>
     br_urgent_gradient b =
       Option.bind (last_set (\<lambda>r. gradient_told (br_urgent_color (f r)) (br_urgent_gradient (f r))) rs) id"

definition shadow_resolved :: "('a \<Rightarrow> shadow_rule) \<Rightarrow> 'a list \<Rightarrow> shadow_rule \<Rightarrow> bool" where
  "shadow_resolved f rs b \<longleftrightarrow>
     (let say = last_set (\<lambda>r. on_off (sr_on (f r)) (sr_off (f r))) rs
      in sr_on b = (say = Some True) \<and> sr_off b = (say = Some False)) \<and>
     sr_offset b = last_set (sr_offset \<circ> f) rs \<and> sr_softness b = last_set (sr_softness \<circ> f) rs \<and>
     sr_spread b = last_set (sr_spread \<circ> f) rs \<and>
     sr_draw_behind_window b = last_set (sr_draw_behind_window \<circ> f) rs \<and>
     sr_color b = last_set (sr_color \<circ> f) rs \<and> sr_inactive_color b = last_set (sr_inactive_color \<circ> f) rs"

definition tab_indicator_resolved :: "('a \<Rightarrow> tab_indicator_rule) \<Rightarrow> 'a list \<Rightarrow> tab_indicator_rule \<Rightarrow> bool" where
  "tab_indicator_resolved f rs b \<longleftrightarrow>
     ti_active_color b = last_set (ti_active_color \<circ> f) rs \<and>
     ti_inactive_color b = last_set (ti_inactive_color \<circ> f) rs \<and>
     ti_urgent_color b = last_set (ti_urgent_color \<circ> f) rs \<and>
     ti_active_gradient b =
       Option.bind (last_set (\<lambda>r. gradient_told (ti_active_color (f r)) (ti_active_gradient (f r))) rs) id \<and>
     ti_inactive_gradient b =
       Option.bind (last_set (\<lambda>r. gradient_told (ti_inactive_color (f r)) (ti_inactive_gradient (f r))) rs) id \<and>
     ti_urgent_gradient b =
       Option.bind (last_set (\<lambda>r. gradient_told (ti_urgent_color (f r)) (ti_urgent_gradient (f r))) rs) id"

definition effect_resolved :: "('a \<Rightarrow> background_effect) \<Rightarrow> 'a list \<Rightarrow> background_effect \<Rightarrow> bool" where
  "effect_resolved f rs b \<longleftrightarrow>
     be_xray b = last_set (be_xray \<circ> f) rs \<and> be_blur b = last_set (be_blur \<circ> f) rs \<and>
     be_noise b = last_set (be_noise \<circ> f) rs \<and> be_saturation b = last_set (be_saturation \<circ> f) rs"

definition popups_resolved :: "('a \<Rightarrow> popups_rule) \<Rightarrow> 'a list \<Rightarrow> popups_rule \<Rightarrow> bool" where
  "popups_resolved f rs b \<longleftrightarrow>
     pr_opacity b = last_set (pr_opacity \<circ> f) rs \<and>
     pr_geometry_corner_radius b = last_set (pr_geometry_corner_radius \<circ> f) rs \<and>
     effect_resolved (pr_background_effect \<circ> f) rs (pr_background_effect b)"

lemma gradient_told_merge:
  "gradient_opt c g (Option.bind x id) = Option.bind (set_opt (gradient_told c g) x) id"
  by (auto simp: gradient_opt_def gradient_told_def set_opt_def split: option.split)

lemma on_off_merge:
  "merge_on off on (x = Some True) = (set_opt (on_off on off) x = Some True)"
  "merge_off off on (x = Some False) = (set_opt (on_off on off) x = Some False)"
  by (auto simp: merge_on_def merge_off_def on_off_def set_opt_def)

lemmas resolved_snoc = last_set_snoc gradient_told_merge on_off_merge comp_def Let_def

lemma last_set_Nil: "last_set f [] = None"
  by (simp add: last_set_def map_filter_def)

lemma border_resolved:
  "border_resolved f [] border_rule_default"
  "border_resolved f rs b \<Longrightarrow> border_resolved f (rs @ [r]) (border_rule_merge (f r) b)"
  by (simp_all add: border_resolved_def border_rule_merge_def border_rule_default_def last_set_Nil resolved_snoc)

lemma shadow_resolved:
  "shadow_resolved f [] (wr_shadow rules_default)"
  "shadow_resolved f rs b \<Longrightarrow> shadow_resolved f (rs @ [r]) (shadow_rule_merge (f r) b)"
  by (simp_all add: shadow_resolved_def shadow_rule_merge_def rules_default_def last_set_Nil resolved_snoc)

lemma tab_indicator_resolved:
  "tab_indicator_resolved f [] (wr_tab_indicator rules_default)"
  "tab_indicator_resolved f rs b \<Longrightarrow> tab_indicator_resolved f (rs @ [r]) (tab_indicator_rule_merge (f r) b)"
  by (simp_all add: tab_indicator_resolved_def tab_indicator_rule_merge_def rules_default_def last_set_Nil resolved_snoc)

lemma effect_resolved:
  "effect_resolved f [] background_effect_default"
  "effect_resolved f rs b \<Longrightarrow> effect_resolved f (rs @ [r]) (background_effect_merge (f r) b)"
  by (simp_all add: effect_resolved_def background_effect_merge_def background_effect_default_def last_set_Nil resolved_snoc)

lemma popups_resolved:
  "popups_resolved f [] (wr_popups rules_default)"
  "popups_resolved f rs b \<Longrightarrow> popups_resolved f (rs @ [r]) (popups_rule_merge (f r) b)"
  using effect_resolved(1)[of "pr_background_effect \<circ> f"]
    effect_resolved(2)[of "pr_background_effect \<circ> f" rs "pr_background_effect b" r]
  by (simp_all add: popups_resolved_def popups_rule_merge_def rules_default_def last_set_Nil last_set_snoc)

text \<open>A part of the resolved rules, resolved rule by rule.\<close>

lemma compute_part:
  assumes "\<And>r w. g (apply_rule r w) = merge (f r) (g w)" "P [] (g rules_default)"
    and "\<And>rs r b. P rs b \<Longrightarrow> P (rs @ [r]) (merge (f r) b)"
  shows "P (filter (rule_applies re w st) rs) (g (rules_compute re rs w st))"
proof (induction rs rule: rev_induct)
  case Nil
  then show ?case using assms(2) by (simp add: rules_compute_def)
next
  case (snoc r rs)
  then show ?case by (simp add: compute_snoc assms(1,3))
qed

section \<open>Properties\<close>

text \<open>Property C11. A rule applies when it has no matchers or one of them matches, and none of
  its excludes does. Every setting a window gets, of all the settings there are, is the one of the last applicable rule
  that has it: the sizes and places it opens with, its limits, how it looks, and each setting within its border, focus
  ring, shadow, tab indicator, background effect and popups. The border, the focus ring and the shadow are on or off as
  the last applicable rule that says so has it, and a gradient is that of the last applicable rule that sets it or
  its color: a later color without a gradient removes it.\<close>

theorem rules_last_wins:
  fixes re :: "'r \<Rightarrow> string \<Rightarrow> bool" and w :: window_facts and st :: bool
  defines "res \<equiv> \<lambda>rs. rules_compute re rs w st"
  defines "ap \<equiv> \<lambda>rs. filter (\<lambda>r. (rl_matches r = [] \<or> (\<exists>m\<in>set (rl_matches r). mt_at_startup m \<in> {None, Some st} \<and> window_matches re w m)) \<and>
     (\<forall>m\<in>set (rl_excludes r). mt_at_startup m = Some (\<not> st) \<or> \<not> window_matches re w m)) rs"
  shows "wr_default_width (res rs) = last_set rl_default_column_width (ap rs) \<and>
    wr_default_height (res rs) = last_set rl_default_window_height (ap rs) \<and>
    wr_default_column_display (res rs) = last_set rl_default_column_display (ap rs) \<and>
    wr_default_floating_position (res rs) = last_set rl_default_floating_position (ap rs) \<and>
    wr_open_on_output (res rs) = last_set rl_open_on_output (ap rs) \<and>
    wr_open_on_workspace (res rs) = last_set rl_open_on_workspace (ap rs) \<and>
    wr_open_maximized (res rs) = last_set rl_open_maximized (ap rs) \<and>
    wr_open_maximized_to_edges (res rs) = last_set rl_open_maximized_to_edges (ap rs) \<and>
    wr_open_fullscreen (res rs) = last_set rl_open_fullscreen (ap rs) \<and>
    wr_open_floating (res rs) = last_set rl_open_floating (ap rs) \<and>
    wr_open_focused (res rs) = last_set rl_open_focused (ap rs) \<and>
    wr_min_width (res rs) = last_set rl_min_width (ap rs) \<and>
    wr_min_height (res rs) = last_set rl_min_height (ap rs) \<and>
    wr_max_width (res rs) = last_set rl_max_width (ap rs) \<and>
    wr_max_height (res rs) = last_set rl_max_height (ap rs) \<and>
    wr_draw_border_with_background (res rs) = last_set rl_draw_border_with_background (ap rs) \<and>
    wr_opacity (res rs) = last_set rl_opacity (ap rs) \<and>
    wr_geometry_corner_radius (res rs) = last_set rl_geometry_corner_radius (ap rs) \<and>
    wr_clip_to_geometry (res rs) = last_set rl_clip_to_geometry (ap rs) \<and>
    wr_baba_is_float (res rs) = last_set rl_baba_is_float (ap rs) \<and>
    wr_block_out_from (res rs) = last_set rl_block_out_from (ap rs) \<and>
    wr_variable_refresh_rate (res rs) = last_set rl_variable_refresh_rate (ap rs) \<and>
    wr_scroll_factor (res rs) = last_set rl_scroll_factor (ap rs) \<and>
    wr_tiled_state (res rs) = last_set rl_tiled_state (ap rs) \<and>
    border_resolved rl_focus_ring (ap rs) (wr_focus_ring (res rs)) \<and>
    border_resolved rl_border (ap rs) (wr_border (res rs)) \<and>
    shadow_resolved rl_shadow (ap rs) (wr_shadow (res rs)) \<and>
    tab_indicator_resolved rl_tab_indicator (ap rs) (wr_tab_indicator (res rs)) \<and>
    effect_resolved rl_background_effect (ap rs) (wr_background_effect (res rs)) \<and>
    popups_resolved rl_popups (ap rs) (wr_popups (res rs))"
proof -
  have st: "(case x of Some b \<Rightarrow> b = st | None \<Rightarrow> True) = (x \<in> {None, Some st})"
    "(x = Some (\<not> st)) = (x \<notin> {None, Some st})" for x
    by (cases x; auto)+
  have "ap rs = filter (rule_applies re w st) rs" for rs
    unfolding ap_def rule_applies_def Let_def st list_ex_iff by (rule filter_cong) blast+
  note a = this
  note f = compute_field[of _ _ re rs w st]
  have parts: "border_resolved rl_focus_ring (ap rs) (wr_focus_ring (res rs))"
    "border_resolved rl_border (ap rs) (wr_border (res rs))"
    "shadow_resolved rl_shadow (ap rs) (wr_shadow (res rs))"
    "tab_indicator_resolved rl_tab_indicator (ap rs) (wr_tab_indicator (res rs))"
    "effect_resolved rl_background_effect (ap rs) (wr_background_effect (res rs))"
    "popups_resolved rl_popups (ap rs) (wr_popups (res rs))"
    unfolding a res_def
    by (rule compute_part, simp_all add: apply_rule_def border_resolved shadow_resolved tab_indicator_resolved
        effect_resolved popups_resolved; simp add: rules_default_def border_resolved effect_resolved)+
  show ?thesis
    unfolding a res_def
    by (intro conjI f parts[unfolded a res_def]) (simp_all add: apply_rule_def rules_default_def)
qed

text \<open>Two rules: every window is half as wide as the output with a border, and a terminal that is not
  floating opens fullscreen without one.\<close>

definition rule_blank :: "string window_rule" where
  "rule_blank = \<lparr>rl_matches = [], rl_excludes = [], rl_default_column_width = None,
     rl_default_window_height = None, rl_open_on_output = None, rl_open_on_workspace = None,
     rl_open_maximized = None, rl_open_maximized_to_edges = None, rl_open_fullscreen = None,
     rl_open_floating = None, rl_open_focused = None, rl_min_width = None, rl_min_height = None,
     rl_max_width = None, rl_max_height = None, rl_focus_ring = border_rule_default,
     rl_border = border_rule_default, rl_shadow = wr_shadow rules_default,
     rl_tab_indicator = wr_tab_indicator rules_default, rl_draw_border_with_background = None,
     rl_opacity = None, rl_geometry_corner_radius = None, rl_clip_to_geometry = None,
     rl_baba_is_float = None, rl_block_out_from = None, rl_variable_refresh_rate = None,
     rl_default_column_display = None, rl_default_floating_position = None, rl_scroll_factor = None,
     rl_tiled_state = None, rl_background_effect = background_effect_default,
     rl_popups = wr_popups rules_default\<rparr>"

definition match_blank :: "string match_rule" where
  "match_blank = \<lparr>mt_app_id = None, mt_title = None, mt_is_active = None, mt_is_focused = None,
     mt_is_active_in_column = None, mt_is_floating = None, mt_is_window_cast_target = None,
     mt_is_urgent = None, mt_at_startup = None\<rparr>"

definition rules_two :: "string window_rule list" where
  "rules_two =
    [rule_blank\<lparr>rl_default_column_width := Some (Some (PresetProportion (1/2))),
       rl_border := border_rule_default\<lparr>br_on := True\<rparr>\<rparr>,
     rule_blank\<lparr>rl_matches := [match_blank\<lparr>mt_app_id := Some ''foot''\<rparr>],
       rl_excludes := [match_blank\<lparr>mt_is_floating := Some True\<rparr>],
       rl_open_fullscreen := Some True, rl_border := border_rule_default\<lparr>br_off := True\<rparr>\<rparr>]"

definition facts_foot :: window_facts where
  "facts_foot = \<lparr>wf_is_focused = False, wf_is_urgent = False, wf_pending_activated = False,
     wf_app_id = Some ''foot'', wf_title = None, wf_is_active_in_column = True, wf_is_floating = False,
     wf_is_window_cast_target = False\<rparr>"

theorem rules_last_wins_witness:
  "wr_default_width (rules_compute (=) rules_two facts_foot False) = Some (Some (PresetProportion (1/2))) \<and>
   wr_open_fullscreen (rules_compute (=) rules_two facts_foot False) = Some True \<and>
   br_on (wr_border (rules_compute (=) rules_two facts_foot False)) = False \<and>
   br_off (wr_border (rules_compute (=) rules_two facts_foot False)) = True"
proof -
  let ?ap = "filter (\<lambda>r. (rl_matches r = [] \<or> (\<exists>m\<in>set (rl_matches r).
      mt_at_startup m \<in> {None, Some False} \<and> window_matches (=) facts_foot m)) \<and>
     (\<forall>m\<in>set (rl_excludes r). mt_at_startup m = Some (\<not> False) \<or> \<not> window_matches (=) facts_foot m)) rules_two"
  have ap: "?ap = rules_two"
    by (simp add: rules_two_def rule_blank_def match_blank_def facts_foot_def window_matches_def
        string_matches_def bool_matches_def)
  have last: "last_set rl_default_column_width rules_two = Some (Some (PresetProportion (1/2)))"
    "last_set rl_open_fullscreen rules_two = Some True"
    "last_set (\<lambda>r. on_off (br_on (rl_border r)) (br_off (rl_border r))) rules_two = Some False"
    by (auto simp: rules_two_def rule_blank_def last_set_def map_filter_def on_off_def border_rule_default_def ex_bool_eq)
  show ?thesis
    using rules_last_wins[where re = "(=)" and rs = rules_two and w = facts_foot and st = False]
    unfolding ap by (simp add: last border_resolved_def)
qed

end
