(* ===== verification/Windows.thy ===== *)
theory Windows
  imports Animations Rules
begin

text \<open>
  A mapped window, \<^verbatim>\<open>window/mapped.rs\<close>, as the layout sees it: the size and state requests it turns
  into Wayland configures, and the commits that answer them. The toplevel surface belongs to
  smithay: the record \<open>toplevel\<close> holds the data the code reads and writes through its accessors
  (\<open>with_pending_state\<close> gives access to \<open>tp_server_pending\<close>), and sending a configure is a
  parameter of the environment. Rendering, hooks, credentials and offscreen data are left out.
\<close>

section \<open>The toplevel surface\<close>

type_synonym serial = nat

record toplevel_state =
  ts_size :: "isize option"
  ts_bounds :: "isize option"
  ts_fullscreen :: bool
  ts_maximized :: bool
  ts_activated :: bool
  ts_resizing :: bool

text \<open>\<open>tp_has_pending\<close> tells whether smithay holds a server-pending state; accessing the pending
  state creates it from the current server state.\<close>

record toplevel =
  tp_server_pending :: toplevel_state
  tp_has_pending :: bool
  tp_current_server :: toplevel_state
  tp_pending_configures :: "(serial \<times> toplevel_state) list"
  tp_last_acked :: "(serial \<times> toplevel_state) option"
  tp_committed_acked :: "serial option"
  tp_committed :: "toplevel_state option"
  tp_geometry_size :: isize
  tp_min_size :: isize
  tp_max_size :: isize
  tp_surface :: nat
  tp_parent :: "nat option"
  tp_app_id :: "string option"
  tp_title :: "string option"

record env = env0 +
  e_send_configure :: "toplevel \<Rightarrow> serial \<times> toplevel"

definition with_pending_state :: "(toplevel_state \<Rightarrow> toplevel_state) \<Rightarrow> toplevel \<Rightarrow> toplevel" where
  "with_pending_state f t = t\<lparr>tp_server_pending := f (tp_server_pending t), tp_has_pending := True\<rparr>"

definition last_uncommitted_configure ::
  "env \<Rightarrow> toplevel \<Rightarrow> (serial \<times> toplevel_state) option" where
  "last_uncommitted_configure E t =
    (if tp_pending_configures t \<noteq> [] then Some (last (tp_pending_configures t))
     else case tp_last_acked t of
       None \<Rightarrow> None
     | Some (serial, st) \<Rightarrow>
         (case tp_committed_acked t of
            Some committed \<Rightarrow> if e_no_older_than E committed serial then None else Some (serial, st)
          | None \<Rightarrow> Some (serial, st)))"

section \<open>The window\<close>

datatype sizing_mode = Normal | Maximized | Fullscreen

record resize_edge = re_top :: bool  re_bottom :: bool  re_left :: bool  re_right :: bool

datatype win_interactive_resize =
    Ongoing resize_edge
  | WaitingForLastConfigure resize_edge
  | WaitingForLastCommit resize_edge serial

datatype request_size_once_state = WaitingForConfigure | WaitingForCommit serial | UseWindowSize

type_synonym transaction = nat

record mapped =
  mw_id :: nat
  mw_toplevel :: toplevel
  mw_rules :: window_rules
  mw_need_to_recompute_rules :: bool
  mw_needs_configure :: bool
  mw_needs_frame_callback :: bool
  mw_is_urgent :: bool
  mw_is_focused :: bool
  mw_is_active_in_column :: bool
  mw_is_floating :: bool
  mw_is_window_cast_target :: bool
  mw_ignore_opacity_window_rule :: bool
  mw_animate_next_configure :: bool
  mw_animate_serials :: "serial list"
  mw_animation_snapshot :: "size option"
  mw_request_size_once :: "request_size_once_state option"
  mw_transaction_for_next_configure :: "transaction option"
  mw_pending_transactions :: "(serial \<times> transaction) list"
  mw_interactive_resize :: "win_interactive_resize option"
  mw_is_windowed_fullscreen :: bool
  mw_is_pending_windowed_fullscreen :: bool
  mw_uncommitted_windowed_fullscreen :: "(serial \<times> bool) list"
  mw_is_maximized :: bool
  mw_is_pending_maximized :: bool
  mw_uncommitted_maximized :: "(serial \<times> bool) list"

abbreviation pending_upd :: "(toplevel_state \<Rightarrow> toplevel_state) \<Rightarrow> mapped \<Rightarrow> mapped" where
  "pending_upd f w \<equiv> w\<lparr>mw_toplevel := with_pending_state f (mw_toplevel w)\<rparr>"

subsection \<open>Reading\<close>

definition win_size :: "mapped \<Rightarrow> isize" where
  "win_size w = tp_geometry_size (mw_toplevel w)"

definition win_min_size :: "mapped \<Rightarrow> isize" where
  "win_min_size w = apply_min_size (mw_rules w) (tp_min_size (mw_toplevel w))"

definition win_max_size :: "mapped \<Rightarrow> isize" where
  "win_max_size w = apply_max_size (mw_rules w) (tp_max_size (mw_toplevel w))"

definition state_sizing_mode :: "toplevel_state \<Rightarrow> sizing_mode" where
  "state_sizing_mode st =
     (if ts_fullscreen st then Fullscreen else if ts_maximized st then Maximized else Normal)"

definition win_sizing_mode :: "mapped \<Rightarrow> sizing_mode" where
  "win_sizing_mode w =
    (if mw_is_windowed_fullscreen w then (if mw_is_maximized w then Maximized else Normal)
     else case tp_committed (mw_toplevel w) of None \<Rightarrow> Normal | Some st \<Rightarrow> state_sizing_mode st)"

definition win_pending_sizing_mode :: "mapped \<Rightarrow> sizing_mode" where
  "win_pending_sizing_mode w =
    (if mw_is_pending_windowed_fullscreen w
     then (if mw_is_pending_maximized w then Maximized else Normal)
     else state_sizing_mode (tp_server_pending (mw_toplevel w)))"

definition win_requested_size :: "mapped \<Rightarrow> isize option" where
  "win_requested_size w = ts_size (tp_server_pending (mw_toplevel w))"

definition size_or_default :: "isize option \<Rightarrow> isize" where
  "size_or_default s = (case s of Some s \<Rightarrow> s | None \<Rightarrow> \<lparr>isz_w = 0, isz_h = 0\<rparr>)"

definition win_expected_size :: "env \<Rightarrow> mapped \<Rightarrow> isize option" where
  "win_expected_size E w =
    (let t = mw_toplevel w;
         current_size = (if win_sizing_mode w = Normal then Some (tp_geometry_size t) else None)
     in if mw_request_size_once w = Some UseWindowSize then current_size
        else
          let pending =
            (if tp_has_pending t \<and> ts_size (tp_server_pending t) \<noteq> ts_size (tp_current_server t)
             then Some (tp_server_pending t)
             else map_option snd (last_uncommitted_configure E t))
          in case pending of
               None \<Rightarrow> current_size
             | Some st \<Rightarrow>
                 if ts_maximized st \<or> ts_fullscreen st \<and>
                      (\<not> mw_is_pending_windowed_fullscreen w \<or> mw_is_pending_maximized w)
                 then None
                 else do {
                   let size = size_or_default (ts_size st);
                   sw \<leftarrow> (if isz_w size = 0 then map_option isz_w current_size else Some (isz_w size));
                   sh \<leftarrow> (if isz_h size = 0 then map_option isz_h current_size else Some (isz_h size));
                   Some \<lparr>isz_w = sw, isz_h = sh\<rparr> })"

definition win_is_child_of :: "mapped \<Rightarrow> mapped \<Rightarrow> bool" where
  "win_is_child_of w parent \<longleftrightarrow> tp_parent (mw_toplevel w) = Some (tp_surface (mw_toplevel parent))"

fun resize_edges :: "win_interactive_resize \<Rightarrow> resize_edge" where
  "resize_edges (Ongoing d) = d"
| "resize_edges (WaitingForLastConfigure d) = d"
| "resize_edges (WaitingForLastCommit d _) = d"

definition win_interactive_resize_data :: "mapped \<Rightarrow> resize_edge option" where
  "win_interactive_resize_data w = map_option resize_edges (mw_interactive_resize w)"

subsection \<open>Requests\<close>

definition note_pending_maximized :: "bool \<Rightarrow> mapped \<Rightarrow> mapped" where
  "note_pending_maximized m w =
     w\<lparr>mw_is_pending_maximized := m,
       mw_needs_configure := (mw_needs_configure w \<or> mw_is_maximized w \<noteq> m)\<rparr>"

definition win_request_size ::
  "isize \<Rightarrow> sizing_mode \<Rightarrow> bool \<Rightarrow> transaction option \<Rightarrow> mapped \<Rightarrow> mapped" where
  "win_request_size sz mode animate tr w =
    (let w = (if mode = Fullscreen
              then w\<lparr>mw_is_pending_windowed_fullscreen := False,
                     mw_needs_configure := (mw_needs_configure w \<or> mw_is_windowed_fullscreen w)\<rparr>
              else w);
         w = note_pending_maximized (mode = Maximized) w;
         changed = (ts_size (tp_server_pending (mw_toplevel w)) \<noteq> Some sz);
         windowed = mw_is_pending_windowed_fullscreen w;
         w = pending_upd (\<lambda>st. st\<lparr>ts_size := Some sz,
               ts_fullscreen := windowed,
               ts_maximized := (\<not> windowed \<and> (mode = Fullscreen \<or> mode = Maximized))\<rparr>) w;
         w = (if changed \<and> animate then w\<lparr>mw_animate_next_configure := True\<rparr> else w);
         w = w\<lparr>mw_request_size_once := None\<rparr>
     in if tr = None then w else w\<lparr>mw_transaction_for_next_configure := tr\<rparr>)"

definition win_request_size_once :: "env \<Rightarrow> isize \<Rightarrow> bool \<Rightarrow> mapped \<Rightarrow> mapped" where
  "win_request_size_once E sz animate w =
    (let w = w\<lparr>mw_transaction_for_next_configure := None\<rparr>;
         w = note_pending_maximized False w;
         windowed = mw_is_pending_windowed_fullscreen w;
         already_sent = (case last_uncommitted_configure E (mw_toplevel w) of
            None \<Rightarrow> None
          | Some (serial, st) \<Rightarrow>
              if size_or_default (ts_size st) = sz \<and> ts_fullscreen st = windowed \<and> \<not> ts_maximized st
              then Some serial else None)
     in case already_sent of
          Some serial \<Rightarrow>
            w\<lparr>mw_request_size_once := Some
               (case tp_committed_acked (mw_toplevel w) of
                  Some current \<Rightarrow> if \<not> e_no_older_than E current serial then WaitingForCommit serial
                                  else UseWindowSize
                | None \<Rightarrow> UseWindowSize)\<rparr>
        | None \<Rightarrow>
            let changed = (ts_size (tp_server_pending (mw_toplevel w)) \<noteq> Some sz);
                w = pending_upd (\<lambda>st. st\<lparr>ts_size := Some sz,
                      ts_fullscreen := (windowed \<and> ts_fullscreen st), ts_maximized := False\<rparr>) w;
                w = (if changed \<and> animate then w\<lparr>mw_animate_next_configure := True\<rparr> else w)
            in w\<lparr>mw_request_size_once := Some WaitingForConfigure\<rparr>)"

definition win_request_windowed_fullscreen :: "bool \<Rightarrow> mapped \<Rightarrow> mapped" where
  "win_request_windowed_fullscreen value w =
    (if mw_is_pending_windowed_fullscreen w = value then w
     else
       let w = w\<lparr>mw_is_pending_windowed_fullscreen := value\<rparr>;
           maximized = mw_is_pending_maximized w;
           w = pending_upd (\<lambda>st. if value then st\<lparr>ts_fullscreen := True, ts_maximized := False\<rparr>
                 else st\<lparr>ts_fullscreen := False, ts_maximized := (maximized \<or> ts_maximized st)\<rparr>) w
       in w\<lparr>mw_needs_configure := True\<rparr>)"

definition win_set_activated :: "bool \<Rightarrow> mapped \<Rightarrow> mapped" where
  "win_set_activated active w =
    (let changed = (ts_activated (tp_server_pending (mw_toplevel w)) \<noteq> active);
         w = pending_upd (\<lambda>st. st\<lparr>ts_activated := active\<rparr>) w
     in w\<lparr>mw_need_to_recompute_rules := (mw_need_to_recompute_rules w \<or> changed)\<rparr>)"

definition win_set_active_in_column :: "bool \<Rightarrow> mapped \<Rightarrow> mapped" where
  "win_set_active_in_column active w =
    (let changed = (mw_is_active_in_column w \<noteq> active)
     in w\<lparr>mw_is_active_in_column := active,
          mw_need_to_recompute_rules := (mw_need_to_recompute_rules w \<or> changed)\<rparr>)"

definition win_set_floating :: "bool \<Rightarrow> mapped \<Rightarrow> mapped" where
  "win_set_floating floating w =
    (let changed = (mw_is_floating w \<noteq> floating)
     in w\<lparr>mw_is_floating := floating,
          mw_need_to_recompute_rules := (mw_need_to_recompute_rules w \<or> changed)\<rparr>)"

definition win_set_bounds :: "isize \<Rightarrow> mapped \<Rightarrow> mapped" where
  "win_set_bounds bounds w = pending_upd (\<lambda>st. st\<lparr>ts_bounds := Some bounds\<rparr>) w"

definition win_set_interactive_resize :: "resize_edge option \<Rightarrow> mapped \<Rightarrow> mapped" where
  "win_set_interactive_resize data w =
    (let w = pending_upd (\<lambda>st. st\<lparr>ts_resizing := (data \<noteq> None)\<rparr>) w
     in case data of
          Some d \<Rightarrow> w\<lparr>mw_interactive_resize := Some (Ongoing d)\<rparr>
        | None \<Rightarrow> w\<lparr>mw_interactive_resize := (case mw_interactive_resize w of
             Some (Ongoing d) \<Rightarrow> Some (WaitingForLastConfigure d) | x \<Rightarrow> x)\<rparr>)"

definition win_cancel_interactive_resize :: "mapped \<Rightarrow> mapped" where
  "win_cancel_interactive_resize w = (win_set_interactive_resize None w)\<lparr>mw_interactive_resize := None\<rparr>"

definition win_set_is_focused :: "bool \<Rightarrow> mapped \<Rightarrow> mapped" where
  "win_set_is_focused f w =
    (if mw_is_focused w = f then w
     else w\<lparr>mw_is_focused := f, mw_is_urgent := False, mw_need_to_recompute_rules := True\<rparr>)"

definition win_set_is_window_cast_target :: "bool \<Rightarrow> mapped \<Rightarrow> mapped" where
  "win_set_is_window_cast_target value w =
    (if mw_is_window_cast_target w = value then w
     else w\<lparr>mw_is_window_cast_target := value, mw_need_to_recompute_rules := True\<rparr>)"

definition win_set_urgent :: "bool \<Rightarrow> mapped \<Rightarrow> mapped" where
  "win_set_urgent urgent w =
    (if mw_is_focused w \<and> urgent then w
     else w\<lparr>mw_is_urgent := urgent,
            mw_need_to_recompute_rules := (mw_need_to_recompute_rules w \<or> mw_is_urgent w \<noteq> urgent)\<rparr>)"

definition win_toggle_ignore_opacity_window_rule :: "mapped \<Rightarrow> mapped" where
  "win_toggle_ignore_opacity_window_rule w =
     w\<lparr>mw_ignore_opacity_window_rule := (\<not> mw_ignore_opacity_window_rule w)\<rparr>"

subsection \<open>Rules\<close>

text \<open>What the matchers of a rule read of a window, mapped or not; resolving the rules first makes sure
  that there is a server-pending state.\<close>

definition mapped_facts :: "mapped \<Rightarrow> window_facts" where
  "mapped_facts w =
     \<lparr>wf_is_focused = mw_is_focused w, wf_is_urgent = mw_is_urgent w,
      wf_pending_activated = ts_activated (tp_server_pending (mw_toplevel w)),
      wf_app_id = tp_app_id (mw_toplevel w), wf_title = tp_title (mw_toplevel w),
      wf_is_active_in_column = mw_is_active_in_column w, wf_is_floating = mw_is_floating w,
      wf_is_window_cast_target = mw_is_window_cast_target w\<rparr>"

definition unmapped_facts :: "toplevel \<Rightarrow> window_facts" where
  "unmapped_facts t =
     \<lparr>wf_is_focused = False, wf_is_urgent = False,
      wf_pending_activated = ts_activated (tp_server_pending t),
      wf_app_id = tp_app_id t, wf_title = tp_title t,
      wf_is_active_in_column = True, wf_is_floating = False, wf_is_window_cast_target = False\<rparr>"

definition win_recompute_window_rules ::
  "('r \<Rightarrow> string \<Rightarrow> bool) \<Rightarrow> 'r window_rule list \<Rightarrow> bool \<Rightarrow> mapped \<Rightarrow> bool \<times> mapped" where
  "win_recompute_window_rules re rules is_at_startup w =
    (let w = w\<lparr>mw_need_to_recompute_rules := False\<rparr>;
         w = w\<lparr>mw_toplevel := with_pending_state (\<lambda>st. st) (mw_toplevel w)\<rparr>;
         new_rules = rules_compute re rules (mapped_facts w) is_at_startup
     in if new_rules = mw_rules w then (False, w)
        else
          let w = (if (case wr_opacity new_rules of Some o' \<Rightarrow> o' < 1 | None \<Rightarrow> False) then w
                   else w\<lparr>mw_ignore_opacity_window_rule := False\<rparr>)
          in (True, w\<lparr>mw_rules := new_rules\<rparr>))"

definition win_recompute_window_rules_if_needed ::
  "('r \<Rightarrow> string \<Rightarrow> bool) \<Rightarrow> 'r window_rule list \<Rightarrow> bool \<Rightarrow> mapped \<Rightarrow> bool \<times> mapped" where
  "win_recompute_window_rules_if_needed re rules is_at_startup w =
    (if \<not> mw_need_to_recompute_rules w then (False, w)
     else win_recompute_window_rules re rules is_at_startup w)"

subsection \<open>Configures and commits\<close>

datatype configure_intent = NotNeeded | Throttled | CanSend | ShouldSend

definition win_configure_intent :: "mapped \<Rightarrow> configure_intent" where
  "win_configure_intent w =
    (let t = mw_toplevel w; server_pending = tp_server_pending t; current_server = tp_current_server t
     in if mw_needs_configure w then ShouldSend
        else if tp_has_pending t \<and> server_pending \<noteq> current_server
        then (if current_server\<lparr>ts_size := ts_size server_pending\<rparr> = server_pending
              then (case tp_committed t of
                      None \<Rightarrow> ShouldSend
                    | Some current_committed \<Rightarrow>
                        if ts_size current_committed = ts_size current_server then CanSend else Throttled)
              else ShouldSend)
        else NotNeeded)"

definition last_sent :: "(serial \<times> bool) list \<Rightarrow> bool \<Rightarrow> bool" where
  "last_sent uncommitted dflt = (if uncommitted = [] then dflt else snd (last uncommitted))"

definition win_configure_sent :: "serial \<Rightarrow> mapped \<Rightarrow> mapped" where
  "win_configure_sent serial w =
    (let w = w\<lparr>mw_needs_configure := False, mw_needs_frame_callback := True\<rparr>;
         w = (if mw_animate_next_configure w
              then w\<lparr>mw_animate_serials := mw_animate_serials w @ [serial]\<rparr> else w);
         w = (case mw_transaction_for_next_configure w of
                Some tr \<Rightarrow> w\<lparr>mw_transaction_for_next_configure := None,
                             mw_pending_transactions := mw_pending_transactions w @ [(serial, tr)]\<rparr>
              | None \<Rightarrow> w);
         w = w\<lparr>mw_interactive_resize := (case mw_interactive_resize w of
                Some (WaitingForLastConfigure d) \<Rightarrow> Some (WaitingForLastCommit d serial) | x \<Rightarrow> x)\<rparr>;
         w = (if mw_request_size_once w = Some WaitingForConfigure
              then w\<lparr>mw_request_size_once := Some (WaitingForCommit serial)\<rparr> else w);
         w = (if last_sent (mw_uncommitted_windowed_fullscreen w) (mw_is_windowed_fullscreen w)
                   \<noteq> mw_is_pending_windowed_fullscreen w
              then w\<lparr>mw_uncommitted_windowed_fullscreen := mw_uncommitted_windowed_fullscreen w @
                       [(serial, mw_is_pending_windowed_fullscreen w)]\<rparr> else w)
     in if last_sent (mw_uncommitted_maximized w) (mw_is_maximized w) \<noteq> mw_is_pending_maximized w
        then w\<lparr>mw_uncommitted_maximized := mw_uncommitted_maximized w @
                 [(serial, mw_is_pending_maximized w)]\<rparr>
        else w)"

definition win_has_pending_changes :: "mapped \<Rightarrow> mapped \<times> bool" where
  "win_has_pending_changes w =
    (let t = mw_toplevel w
     in if mw_needs_configure w then (w, True)
        else if \<not> tp_has_pending t then (w, False)
        else
          let t = (if mw_request_size_once w = Some UseWindowSize
                   then t\<lparr>tp_server_pending := (tp_server_pending t)\<lparr>ts_size := ts_size (tp_current_server t)\<rparr>\<rparr>
                   else t)
          in (w\<lparr>mw_toplevel := t\<rparr>, tp_server_pending t \<noteq> tp_current_server t))"

definition win_send_pending_configure :: "env \<Rightarrow> mapped \<Rightarrow> mapped" where
  "win_send_pending_configure E w =
    (let (w, has_pending_changes) = win_has_pending_changes w;
         w = (if has_pending_changes
              then
                let w = (if mw_request_size_once w = Some UseWindowSize
                         then pending_upd (\<lambda>st. st\<lparr>ts_size := Some (win_size w)\<rparr>) w else w);
                    (serial, t) = e_send_configure E (mw_toplevel w)
                in win_configure_sent serial (w\<lparr>mw_toplevel := t\<rparr>)
              else
                w\<lparr>mw_interactive_resize := (case mw_interactive_resize w of
                   Some (WaitingForLastConfigure _) \<Rightarrow> None | x \<Rightarrow> x)\<rparr>)
     in w\<lparr>mw_animate_next_configure := False, mw_transaction_for_next_configure := None\<rparr>)"

fun commit_flags :: "env \<Rightarrow> serial \<Rightarrow> (serial \<times> bool) list \<Rightarrow> bool \<Rightarrow> (serial \<times> bool) list \<times> bool" where
  "commit_flags E c [] b = ([], b)"
| "commit_flags E c ((s, v) # us) b =
     (if e_no_older_than E c s then commit_flags E c us v
      else (let (us', b') = commit_flags E c us b in ((s, v) # us', b')))"

definition win_on_commit :: "env \<Rightarrow> serial \<Rightarrow> mapped \<Rightarrow> mapped" where
  "win_on_commit E c w =
    (let w = (case mw_interactive_resize w of
                Some (WaitingForLastCommit _ serial) \<Rightarrow>
                  if e_no_older_than E c serial then w\<lparr>mw_interactive_resize := None\<rparr> else w
              | _ \<Rightarrow> w);
         w = (case mw_request_size_once w of
                Some (WaitingForCommit serial) \<Rightarrow>
                  if e_no_older_than E c serial then w\<lparr>mw_request_size_once := Some UseWindowSize\<rparr> else w
              | _ \<Rightarrow> w);
         (us, b) = commit_flags E c (mw_uncommitted_windowed_fullscreen w) (mw_is_windowed_fullscreen w);
         w = w\<lparr>mw_uncommitted_windowed_fullscreen := us, mw_is_windowed_fullscreen := b\<rparr>;
         (us, b) = commit_flags E c (mw_uncommitted_maximized w) (mw_is_maximized w)
     in w\<lparr>mw_uncommitted_maximized := us, mw_is_maximized := b\<rparr>)"

definition win_should_animate_commit :: "env \<Rightarrow> serial \<Rightarrow> mapped \<Rightarrow> bool \<times> mapped" where
  "win_should_animate_commit E c w =
    (list_ex (e_no_older_than E c) (mw_animate_serials w),
     w\<lparr>mw_animate_serials := filter (\<lambda>s. \<not> e_no_older_than E c s) (mw_animate_serials w)\<rparr>)"

fun take_pending_transaction ::
  "env \<Rightarrow> serial \<Rightarrow> (serial \<times> transaction) list \<Rightarrow> transaction option \<Rightarrow>
     transaction option \<times> (serial \<times> transaction) list" where
  "take_pending_transaction E c [] rv = (rv, [])"
| "take_pending_transaction E c ((s, tr) # ts) rv =
     (if e_no_older_than E c s then take_pending_transaction E c ts (Some tr) else (rv, (s, tr) # ts))"

definition win_take_pending_transaction :: "env \<Rightarrow> serial \<Rightarrow> mapped \<Rightarrow> transaction option \<times> mapped" where
  "win_take_pending_transaction E c w =
    (let (rv, ts) = take_pending_transaction E c (mw_pending_transactions w) None
     in (rv, w\<lparr>mw_pending_transactions := ts\<rparr>))"

subsection \<open>A new window\<close>

definition win_new :: "nat \<Rightarrow> toplevel \<Rightarrow> window_rules \<Rightarrow> mapped" where
  "win_new i t rules =
    (let rv = \<lparr>mw_id = i, mw_toplevel = t, mw_rules = rules, mw_need_to_recompute_rules = False,
           mw_needs_configure = False, mw_needs_frame_callback = False, mw_is_urgent = False,
           mw_is_focused = False, mw_is_active_in_column = True, mw_is_floating = False,
           mw_is_window_cast_target = False, mw_ignore_opacity_window_rule = False,
           mw_animate_next_configure = False, mw_animate_serials = [], mw_animation_snapshot = None,
           mw_request_size_once = None, mw_transaction_for_next_configure = None,
           mw_pending_transactions = [], mw_interactive_resize = None,
           mw_is_windowed_fullscreen = False, mw_is_pending_windowed_fullscreen = False,
           mw_uncommitted_windowed_fullscreen = [], mw_is_maximized = False,
           mw_is_pending_maximized = False, mw_uncommitted_maximized = []\<rparr>;
         rv = rv\<lparr>mw_is_maximized := (win_sizing_mode rv = Maximized)\<rparr>
     in rv\<lparr>mw_is_pending_maximized := (win_pending_sizing_mode rv = Maximized)\<rparr>)"

text \<open>A toplevel that was configured once, with nothing requested, for the concrete examples.\<close>

definition state_blank :: toplevel_state where
  "state_blank = \<lparr>ts_size = None, ts_bounds = None, ts_fullscreen = False, ts_maximized = False,
     ts_activated = False, ts_resizing = False\<rparr>"

definition toplevel_blank :: "nat \<Rightarrow> toplevel" where
  "toplevel_blank surface = \<lparr>tp_server_pending = state_blank, tp_has_pending = False,
     tp_current_server = state_blank, tp_pending_configures = [], tp_last_acked = Some (1, state_blank),
     tp_committed_acked = Some 1, tp_committed = Some state_blank,
     tp_geometry_size = \<lparr>isz_w = 200, isz_h = 100\<rparr>, tp_min_size = \<lparr>isz_w = 0, isz_h = 0\<rparr>,
     tp_max_size = \<lparr>isz_w = 0, isz_h = 0\<rparr>, tp_surface = surface, tp_parent = None,
     tp_app_id = None, tp_title = None\<rparr>"

definition win_blank :: "nat \<Rightarrow> mapped" where
  "win_blank i = win_new i (toplevel_blank i) rules_default"

text \<open>An environment: time zero, exact rounding to whole pixels, serials compared as numbers, every
  configure sent with serial \<open>s\<close> and becoming the current server state.\<close>

definition env_blank :: "serial \<Rightarrow> env" where
  "env_blank s = \<lparr>e_now = 0, e_rate = 1, e_complete_instantly = False,
     e_ease_out_quad = (\<lambda>x. x), e_ease_out_cubic = (\<lambda>x. x),
     e_i32_floor = floor, e_i32_round = (\<lambda>x. \<lfloor>x + 1/2\<rfloor>),
     e_phys_ceil = (\<lambda>scale x. of_int \<lceil>x * scale\<rceil> / scale), e_phys_round = (\<lambda>scale x. f_round (x * scale) / scale),
     e_no_older_than = (\<lambda>a b. b \<le> a),
     e_send_configure = (\<lambda>t. (s, t\<lparr>tp_current_server := tp_server_pending t, tp_has_pending := False,
        tp_pending_configures := tp_pending_configures t @ [(s, tp_server_pending t)]\<rparr>))\<rparr>"

named_theorems blank_defs "the concrete states used in examples"
declare state_blank_def [blank_defs] toplevel_blank_def [blank_defs] rules_default_def [blank_defs]
  border_rule_default_def [blank_defs] background_effect_default_def [blank_defs]
  win_new_def [blank_defs] win_blank_def [blank_defs] env_blank_def [blank_defs]
  win_sizing_mode_def [blank_defs] win_pending_sizing_mode_def [blank_defs] state_sizing_mode_def [blank_defs]

section \<open>Lemmas\<close>

named_theorems win_simps "what the operations leave of a window"

lemma request_size_keeps [win_simps]:
  "mw_id (win_request_size sz m a tr w) = mw_id w"
  "mw_rules (win_request_size sz m a tr w) = mw_rules w"
  "mw_is_maximized (win_request_size sz m a tr w) = mw_is_maximized w"
  "mw_is_windowed_fullscreen (win_request_size sz m a tr w) = mw_is_windowed_fullscreen w"
  "win_sizing_mode (win_request_size sz m a tr w) = win_sizing_mode w"
  "win_size (win_request_size sz m a tr w) = win_size w"
  "tp_parent (mw_toplevel (win_request_size sz m a tr w)) = tp_parent (mw_toplevel w)"
  "tp_surface (mw_toplevel (win_request_size sz m a tr w)) = tp_surface (mw_toplevel w)"
  by (simp_all add: win_request_size_def note_pending_maximized_def with_pending_state_def Let_def
      win_sizing_mode_def win_size_def)

lemma request_size_once_keeps [win_simps]:
  "mw_id (win_request_size_once E sz a w) = mw_id w"
  "mw_rules (win_request_size_once E sz a w) = mw_rules w"
  "win_sizing_mode (win_request_size_once E sz a w) = win_sizing_mode w"
  "win_size (win_request_size_once E sz a w) = win_size w"
  "tp_parent (mw_toplevel (win_request_size_once E sz a w)) = tp_parent (mw_toplevel w)"
  "tp_surface (mw_toplevel (win_request_size_once E sz a w)) = tp_surface (mw_toplevel w)"
  by (simp_all add: win_request_size_once_def note_pending_maximized_def with_pending_state_def Let_def
      win_sizing_mode_def win_size_def split: option.split)

lemma set_keeps [win_simps]:
  "mw_id (win_set_activated b w) = mw_id w"
  "mw_id (win_set_active_in_column b w) = mw_id w"
  "mw_id (win_set_floating b w) = mw_id w"
  "mw_id (win_set_bounds s w) = mw_id w"
  "mw_id (win_set_interactive_resize d w) = mw_id w"
  "mw_id (win_cancel_interactive_resize w) = mw_id w"
  "mw_id (win_request_windowed_fullscreen b w) = mw_id w"
  by (simp_all add: win_set_activated_def win_set_active_in_column_def win_set_floating_def
      win_set_bounds_def win_set_interactive_resize_def win_cancel_interactive_resize_def
      win_request_windowed_fullscreen_def Let_def split: option.split)

lemma configure_sent_id [win_simps]: "mw_id (win_configure_sent s w) = mw_id w"
  by (simp add: win_configure_sent_def Let_def split: option.split)

lemma send_pending_configure_id [win_simps]: "mw_id (win_send_pending_configure E w) = mw_id w"
  by (simp add: win_send_pending_configure_def win_has_pending_changes_def Let_def configure_sent_id
      split: prod.split)

lemma on_commit_id [win_simps]: "mw_id (win_on_commit E c w) = mw_id w"
  by (simp add: win_on_commit_def Let_def split: prod.split option.split win_interactive_resize.split
      request_size_once_state.split)

lemma on_commit_fields:
  "mw_is_maximized (win_on_commit E c w) =
     snd (commit_flags E c (mw_uncommitted_maximized w) (mw_is_maximized w))"
  "mw_uncommitted_maximized (win_on_commit E c w) =
     fst (commit_flags E c (mw_uncommitted_maximized w) (mw_is_maximized w))"
  "mw_is_windowed_fullscreen (win_on_commit E c w) =
     snd (commit_flags E c (mw_uncommitted_windowed_fullscreen w) (mw_is_windowed_fullscreen w))"
  "mw_uncommitted_windowed_fullscreen (win_on_commit E c w) =
     fst (commit_flags E c (mw_uncommitted_windowed_fullscreen w) (mw_is_windowed_fullscreen w))"
  "mw_request_size_once (win_on_commit E c w) = (case mw_request_size_once w of
     Some (WaitingForCommit s) \<Rightarrow> if e_no_older_than E c s then Some UseWindowSize else Some (WaitingForCommit s)
   | r \<Rightarrow> r)"
proof -
  define w1 where "w1 = (case mw_interactive_resize w of
      Some (WaitingForLastCommit _ serial) \<Rightarrow>
        if e_no_older_than E c serial then w\<lparr>mw_interactive_resize := None\<rparr> else w
    | _ \<Rightarrow> w)"
  define w2 where "w2 = (case mw_request_size_once w1 of
      Some (WaitingForCommit serial) \<Rightarrow>
        if e_no_older_than E c serial then w1\<lparr>mw_request_size_once := Some UseWindowSize\<rparr> else w1
    | _ \<Rightarrow> w1)"
  have w1: "mw_is_maximized w1 = mw_is_maximized w"
    "mw_uncommitted_maximized w1 = mw_uncommitted_maximized w"
    "mw_is_windowed_fullscreen w1 = mw_is_windowed_fullscreen w"
    "mw_uncommitted_windowed_fullscreen w1 = mw_uncommitted_windowed_fullscreen w"
    "mw_request_size_once w1 = mw_request_size_once w"
    by (simp_all add: w1_def split: option.split win_interactive_resize.split)
  have w2: "mw_is_maximized w2 = mw_is_maximized w"
    "mw_uncommitted_maximized w2 = mw_uncommitted_maximized w"
    "mw_is_windowed_fullscreen w2 = mw_is_windowed_fullscreen w"
    "mw_uncommitted_windowed_fullscreen w2 = mw_uncommitted_windowed_fullscreen w"
    "mw_request_size_once w2 = (case mw_request_size_once w of
     Some (WaitingForCommit s) \<Rightarrow> if e_no_older_than E c s then Some UseWindowSize else Some (WaitingForCommit s)
   | r \<Rightarrow> r)"
    by (simp_all add: w2_def w1 split: option.split request_size_once_state.split)
  show "mw_is_maximized (win_on_commit E c w) =
     snd (commit_flags E c (mw_uncommitted_maximized w) (mw_is_maximized w))"
   and "mw_uncommitted_maximized (win_on_commit E c w) =
     fst (commit_flags E c (mw_uncommitted_maximized w) (mw_is_maximized w))"
   and "mw_is_windowed_fullscreen (win_on_commit E c w) =
     snd (commit_flags E c (mw_uncommitted_windowed_fullscreen w) (mw_is_windowed_fullscreen w))"
   and "mw_uncommitted_windowed_fullscreen (win_on_commit E c w) =
     fst (commit_flags E c (mw_uncommitted_windowed_fullscreen w) (mw_is_windowed_fullscreen w))"
   and "mw_request_size_once (win_on_commit E c w) = (case mw_request_size_once w of
     Some (WaitingForCommit s) \<Rightarrow> if e_no_older_than E c s then Some UseWindowSize else Some (WaitingForCommit s)
   | r \<Rightarrow> r)"
    unfolding win_on_commit_def Let_def w1_def[symmetric] w2_def[symmetric]
    by (simp_all add: w2 split: prod.split)
qed

text \<open>A commit that answers every configure sent so far brings a flag to the value sent last.\<close>

lemma commit_flags_all:
  "\<forall>(s, v) \<in> set us. e_no_older_than E c s \<Longrightarrow> commit_flags E c us b = ([], last_sent us b)"
  by (induction us arbitrary: b) (auto simp: last_sent_def)

lemma last_sent_append [simp]: "last_sent (us @ [(s, v)]) b = v"
  by (simp add: last_sent_def)

text \<open>What is left uncommitted is what the commit does not answer, in order.\<close>

lemma commit_flags_left: "fst (commit_flags E c us b) = filter (\<lambda>(s, v). \<not> e_no_older_than E c s) us"
  by (induction E c us b rule: commit_flags.induct) (auto split: prod.split)

section \<open>Properties\<close>

text \<open>A size request always leaves the window asked for exactly that size,
  and pending in normal mode for a normal request and maximized for every other: the compositor never
  asks a client for real fullscreen. Real fullscreen also ends windowed fullscreen.\<close>

theorem request_size_mode:
  "let w' = win_request_size sz mode animate tr w
   in win_requested_size w' = Some sz \<and>
      win_pending_sizing_mode w' = (if mode = Normal then Normal else Maximized) \<and>
      mw_is_pending_windowed_fullscreen w' = (mw_is_pending_windowed_fullscreen w \<and> mode \<noteq> Fullscreen) \<and>
      mw_request_size_once w' = None"
  by (cases mode) (simp_all add: win_request_size_def note_pending_maximized_def with_pending_state_def
      Let_def win_requested_size_def win_pending_sizing_mode_def state_sizing_mode_def)

definition serials_before :: "env \<Rightarrow> serial \<Rightarrow> mapped \<Rightarrow> bool" where
  "serials_before E s w \<longleftrightarrow>
     (\<forall>(x, v) \<in> set (mw_uncommitted_maximized w). e_no_older_than E s x) \<and>
     (\<forall>(x, v) \<in> set (mw_uncommitted_windowed_fullscreen w). e_no_older_than E s x)"

lemma configure_sent_flags:
  "mw_is_maximized (win_configure_sent s w) = mw_is_maximized w"
  "mw_is_windowed_fullscreen (win_configure_sent s w) = mw_is_windowed_fullscreen w"
  "last_sent (mw_uncommitted_maximized (win_configure_sent s w)) (mw_is_maximized w) = mw_is_pending_maximized w"
  "last_sent (mw_uncommitted_windowed_fullscreen (win_configure_sent s w)) (mw_is_windowed_fullscreen w) =
     mw_is_pending_windowed_fullscreen w"
  "set (mw_uncommitted_maximized (win_configure_sent s w)) \<subseteq>
     insert (s, mw_is_pending_maximized w) (set (mw_uncommitted_maximized w))"
  "set (mw_uncommitted_windowed_fullscreen (win_configure_sent s w)) \<subseteq>
     insert (s, mw_is_pending_windowed_fullscreen w) (set (mw_uncommitted_windowed_fullscreen w))"
  by (auto simp: win_configure_sent_def Let_def split: option.split)

lemma fresh_serial:
  "set us' \<subseteq> insert (s, b) (set us) \<Longrightarrow> \<forall>(x, v) \<in> set us. P x \<Longrightarrow> P s \<Longrightarrow> \<forall>(x, v) \<in> set us'. P x"
  by blast

lemma send_pending_configure_sent:
  assumes "snd (win_has_pending_changes w)"
    and "\<And>t. fst (e_send_configure E t) = s"
  obtains v where "win_send_pending_configure E w =
      (win_configure_sent s v)\<lparr>mw_animate_next_configure := False, mw_transaction_for_next_configure := None\<rparr>"
    and "mw_uncommitted_maximized v = mw_uncommitted_maximized w"
    and "mw_uncommitted_windowed_fullscreen v = mw_uncommitted_windowed_fullscreen w"
    and "mw_is_maximized v = mw_is_maximized w" "mw_is_windowed_fullscreen v = mw_is_windowed_fullscreen w"
    and "mw_is_pending_maximized v = mw_is_pending_maximized w"
    and "mw_is_pending_windowed_fullscreen v = mw_is_pending_windowed_fullscreen w"
    and "mw_request_size_once v = mw_request_size_once w"
proof -
  define u where "u = fst (win_has_pending_changes w)"
  have hp: "win_has_pending_changes w = (u, True)"
    using assms(1) by (simp add: u_def prod_eq_iff)
  define u' where "u' = (if mw_request_size_once u = Some UseWindowSize
      then pending_upd (\<lambda>st. st\<lparr>ts_size := Some (win_size u)\<rparr>) u else u)"
  have u: "\<exists>t. u = w\<lparr>mw_toplevel := t\<rparr>"
    unfolding u_def win_has_pending_changes_def Let_def
    by (auto intro: exI[of _ "mw_toplevel w"] exI[of _ "mw_toplevel w\<lparr>tp_server_pending := _\<rparr>"])
  then have u': "\<exists>t. u' = w\<lparr>mw_toplevel := t\<rparr>" by (auto simp: u'_def)
  define v where "v = u'\<lparr>mw_toplevel := snd (e_send_configure E (mw_toplevel u'))\<rparr>"
  have "win_send_pending_configure E w =
      (win_configure_sent s v)\<lparr>mw_animate_next_configure := False, mw_transaction_for_next_configure := None\<rparr>"
    by (simp add: win_send_pending_configure_def hp Let_def u'_def v_def case_prod_beta assms(2))
  then show thesis using u' by (elim that; (auto simp: v_def)?)
qed

text \<open>Property C7. When a configure goes out and the client commits in answer to it (and
  so to every earlier one), the window's maximized and windowed-fullscreen state become what was
  pending when it was sent, no update is left in flight, and a size requested once is then left to the
  window.\<close>

theorem commit_catches_up:
  assumes "snd (win_has_pending_changes w)"
    and "\<And>t. fst (e_send_configure E t) = s"
    and "serials_before E s w" and "e_no_older_than E s s"
  shows "let w' = win_on_commit E s (win_send_pending_configure E w)
    in mw_is_maximized w' = mw_is_pending_maximized w \<and>
       mw_is_windowed_fullscreen w' = mw_is_pending_windowed_fullscreen w \<and>
       mw_uncommitted_maximized w' = [] \<and> mw_uncommitted_windowed_fullscreen w' = [] \<and>
       (mw_request_size_once w = Some WaitingForConfigure \<longrightarrow> mw_request_size_once w' = Some UseWindowSize)"
proof -
  obtain v where sent: "win_send_pending_configure E w =
      (win_configure_sent s v)\<lparr>mw_animate_next_configure := False, mw_transaction_for_next_configure := None\<rparr>"
    and v: "mw_uncommitted_maximized v = mw_uncommitted_maximized w"
      "mw_uncommitted_windowed_fullscreen v = mw_uncommitted_windowed_fullscreen w"
      "mw_is_maximized v = mw_is_maximized w" "mw_is_windowed_fullscreen v = mw_is_windowed_fullscreen w"
      "mw_is_pending_maximized v = mw_is_pending_maximized w"
      "mw_is_pending_windowed_fullscreen v = mw_is_pending_windowed_fullscreen w"
      "mw_request_size_once v = mw_request_size_once w"
    by (rule send_pending_configure_sent[OF assms(1,2)])
  let ?c = "win_configure_sent s v"
  note f = configure_sent_flags[of s v]
  have "\<forall>(x, v) \<in> set (mw_uncommitted_maximized w). e_no_older_than E s x"
    "\<forall>(x, v) \<in> set (mw_uncommitted_windowed_fullscreen w). e_no_older_than E s x"
    using assms(3) by (simp_all add: serials_before_def)
  note all = fresh_serial[OF f(5)[unfolded v(1)] this(1) assms(4), THEN commit_flags_all]
    fresh_serial[OF f(6)[unfolded v(2)] this(2) assms(4), THEN commit_flags_all]
  have once: "mw_request_size_once w = Some WaitingForConfigure \<Longrightarrow>
      mw_request_size_once ?c = Some (WaitingForCommit s)"
    using v(7) by (simp add: win_configure_sent_def Let_def split: option.split)
  show ?thesis
    unfolding Let_def sent using all f once v assms(4) by (auto simp: on_commit_fields)
qed

theorem commit_catches_up_witness:
  "mw_is_maximized (win_on_commit (env_blank 7) 7 (win_send_pending_configure (env_blank 7)
     (win_request_size \<lparr>isz_w = 800, isz_h = 600\<rparr> Maximized False None (win_blank 1))))"
  using commit_catches_up[of "win_request_size \<lparr>isz_w = 800, isz_h = 600\<rparr> Maximized False None (win_blank 1)"
      "env_blank 7" 7]
  by (simp add: blank_defs win_request_size_def note_pending_maximized_def with_pending_state_def
      win_has_pending_changes_def serials_before_def Let_def)

text \<open>A windowed-fullscreen window that is asked to maximize and back,
  to one and the same size, before it commits: the second request changes nothing smithay would send,
  and is compared with the committed instead of the sent state, so no configure goes out and the
  client's commit leaves the window maximized although it is pending unmaximized.\<close>

theorem maximized_can_stick:
  defines "sz \<equiv> \<lparr>isz_w = 800, isz_h = 600\<rparr>"
  defines "w0 \<equiv> win_on_commit (env_blank 5) 5 (win_send_pending_configure (env_blank 5)
     (win_request_windowed_fullscreen True (win_blank 1)))"
  defines "w1 \<equiv> win_send_pending_configure (env_blank 6) (win_request_size sz Maximized False None w0)"
  defines "w2 \<equiv> win_send_pending_configure (env_blank 7) (win_request_size sz Normal False None w1)"
  shows "win_on_commit (env_blank 7) 6 w2 = w2\<lparr>mw_is_maximized := True, mw_uncommitted_maximized := []\<rparr> \<and>
     \<not> mw_is_pending_maximized w2 \<and> \<not> mw_needs_configure w2 \<and> win_configure_intent w2 = NotNeeded"
  unfolding w2_def w1_def w0_def sz_def by code_simp

end
