(* ===== verification/Tiles.thy ===== *)
theory Tiles
  imports Windows Scaling
begin

text \<open>
  A tile, \<^verbatim>\<open>layout/tile.rs\<close>: a window with its border, its sizes in and out of fullscreen, and the
  animations that displace, resize and fade it; and the options of the layout it reads. Focus ring,
  shadow, backdrop, offscreen buffers and everything about rendering and hit testing are left out.
  An operation that creates or restarts an animation returns \<open>None\<close> where \<open>Duration::from_secs_f64\<close>
  panics.
\<close>

section \<open>Options\<close>

record struts = st_left :: f64  st_right :: f64  st_top :: f64  st_bottom :: f64

datatype center_focused_column = CenterNever | CenterAlways | CenterOnOverflow

record layout_options =
  lo_gaps :: f64
  lo_struts :: struts
  lo_border :: border_config
  lo_preset_column_widths :: "preset_size list"
  lo_preset_window_heights :: "preset_size list"
  lo_default_column_width :: "preset_size option"
  lo_center_focused_column :: center_focused_column
  lo_empty_workspace_above_first :: bool
  lo_workspace_count :: nat

record animation_options =
  ao_workspace_switch :: anim_config
  ao_window_open :: anim_config
  ao_window_close :: anim_config
  ao_window_movement :: anim_config
  ao_tile_movement :: anim_config
  ao_window_resize :: anim_config

record options =
  op_layout :: layout_options
  op_animations :: animation_options
  op_inactive_alpha :: "f64 option"
  op_disable_resize_throttling :: bool
  op_disable_transactions :: bool
  op_deactivate_unfocused_windows :: bool

definition options_adjusted_for_scale :: "f64 \<Rightarrow> options \<Rightarrow> options" where
  "options_adjusted_for_scale scale opts =
     opts\<lparr>op_layout := (op_layout opts)\<lparr>lo_gaps := round_logical_in_physical_max1 scale (lo_gaps (op_layout opts))\<rparr>\<rparr>"

section \<open>The tile\<close>

record resize_animation =
  ra_anim :: animation
  ra_size_from :: size
  ra_tile_size_from :: size
  ra_fullscreen_progress :: "animation option"
  ra_expanded_progress :: "animation option"

record move_animation = ma_anim :: animation  ma_from :: f64

record alpha_animation = aa_anim :: animation  aa_hold_after_done :: bool

record tile =
  tl_window :: mapped
  tl_border :: border_config
  tl_sizing_mode :: sizing_mode
  tl_restore_to_floating :: bool
  tl_floating_window_size :: "isize option"
  tl_floating_pos :: "point option"
  tl_floating_preset_width_idx :: "nat option"
  tl_floating_preset_height_idx :: "nat option"
  tl_open_animation :: "animation option"
  tl_resize_animation :: "resize_animation option"
  tl_move_x_animation :: "move_animation option"
  tl_move_y_animation :: "move_animation option"
  tl_alpha_animation :: "alpha_animation option"
  tl_interactive_move_offset :: point
  tl_view_size :: size
  tl_scale :: f64
  tl_options :: options

abbreviation tile_id :: "tile \<Rightarrow> nat" where
  "tile_id t \<equiv> mw_id (tl_window t)"

definition tile_new :: "mapped \<Rightarrow> size \<Rightarrow> f64 \<Rightarrow> options \<Rightarrow> tile" where
  "tile_new w view_size scale opts =
     \<lparr>tl_window = w,
      tl_border = border_merged_with (lo_border (op_layout opts)) (wr_border (mw_rules w)),
      tl_sizing_mode = win_sizing_mode w, tl_restore_to_floating = False,
      tl_floating_window_size = None, tl_floating_pos = None,
      tl_floating_preset_width_idx = None, tl_floating_preset_height_idx = None,
      tl_open_animation = None, tl_resize_animation = None,
      tl_move_x_animation = None, tl_move_y_animation = None, tl_alpha_animation = None,
      tl_interactive_move_offset = mk_point 0 0,
      tl_view_size = view_size, tl_scale = scale, tl_options = opts\<rparr>"

definition tile_border_config :: "tile \<Rightarrow> border_config" where
  "tile_border_config t =
    (let c = border_merged_with (lo_border (op_layout (tl_options t))) (wr_border (mw_rules (tl_window t)))
     in c\<lparr>bc_width := round_logical_in_physical_max1 (tl_scale t) (bc_width c)\<rparr>)"

definition tile_update_config :: "size \<Rightarrow> f64 \<Rightarrow> options \<Rightarrow> tile \<Rightarrow> tile" where
  "tile_update_config view_size scale opts t =
    (let t = (if lo_preset_column_widths (op_layout (tl_options t)) \<noteq> lo_preset_column_widths (op_layout opts)
              then t\<lparr>tl_floating_preset_width_idx := None\<rparr> else t);
         t = (if lo_preset_window_heights (op_layout (tl_options t)) \<noteq> lo_preset_window_heights (op_layout opts)
              then t\<lparr>tl_floating_preset_height_idx := None\<rparr> else t);
         t = t\<lparr>tl_view_size := view_size, tl_scale := scale, tl_options := opts\<rparr>
     in t\<lparr>tl_border := tile_border_config t\<rparr>)"

subsection \<open>Sizes\<close>

definition size_phys_round :: "'e env0_scheme \<Rightarrow> f64 \<Rightarrow> size \<Rightarrow> size" where
  "size_phys_round E scale s = mk_size (e_phys_round E scale (sz_w s)) (e_phys_round E scale (sz_h s))"

definition isize_to_f64 :: "isize \<Rightarrow> size" where
  "isize_to_f64 s = mk_size (of_int (isz_w s)) (of_int (isz_h s))"

definition size_to_i32_floor :: "'e env0_scheme \<Rightarrow> size \<Rightarrow> isize" where
  "size_to_i32_floor E s = \<lparr>isz_w = e_i32_floor E (sz_w s), isz_h = e_i32_floor E (sz_h s)\<rparr>"

definition size_to_i32_round :: "'e env0_scheme \<Rightarrow> size \<Rightarrow> isize" where
  "size_to_i32_round E s = \<lparr>isz_w = e_i32_round E (sz_w s), isz_h = e_i32_round E (sz_h s)\<rparr>"

definition size_grow :: "f64 \<Rightarrow> size \<Rightarrow> size" where
  "size_grow d s = mk_size (sz_w s + d) (sz_h s + d)"

definition size_max :: "size \<Rightarrow> size \<Rightarrow> size" where
  "size_max a b = mk_size (max (sz_w a) (sz_w b)) (max (sz_h a) (sz_h b))"

definition effective_border_width :: "tile \<Rightarrow> f64 option" where
  "effective_border_width t =
    (if tl_sizing_mode t \<noteq> Normal then None
     else if bc_off (tl_border t) then None else Some (bc_width (tl_border t)))"

definition tile_window_size :: "'e env0_scheme \<Rightarrow> tile \<Rightarrow> size" where
  "tile_window_size E t = size_phys_round E (tl_scale t) (isize_to_f64 (win_size (tl_window t)))"

definition window_expected_or_current_size :: "env \<Rightarrow> tile \<Rightarrow> size" where
  "window_expected_or_current_size E t =
    (let s = (case win_expected_size E (tl_window t) of Some s \<Rightarrow> s | None \<Rightarrow> win_size (tl_window t))
     in size_phys_round E (tl_scale t) (isize_to_f64 s))"

definition tile_size_from :: "tile \<Rightarrow> size \<Rightarrow> size" where
  "tile_size_from t s =
    (if tl_sizing_mode t = Fullscreen then size_max s (tl_view_size t)
     else case effective_border_width t of Some b \<Rightarrow> size_grow (b * 2) s | None \<Rightarrow> s)"

definition tile_size :: "'e env0_scheme \<Rightarrow> tile \<Rightarrow> size" where
  "tile_size E t = tile_size_from t (tile_window_size E t)"

definition tile_expected_or_current_size :: "env \<Rightarrow> tile \<Rightarrow> size" where
  "tile_expected_or_current_size E t = tile_size_from t (window_expected_or_current_size E t)"

definition size_lerp :: "size \<Rightarrow> size \<Rightarrow> f64 \<Rightarrow> size" where
  "size_lerp a b v = mk_size (sz_w a + (sz_w b - sz_w a) * v) (sz_h a + (sz_h b - sz_h a) * v)"

definition animated_size ::
  "'e env0_scheme \<Rightarrow> tile \<Rightarrow> (resize_animation \<Rightarrow> size) \<Rightarrow> size \<Rightarrow> size" where
  "animated_size E t from s =
    (case tl_resize_animation t of
       None \<Rightarrow> s
     | Some r \<Rightarrow> size_phys_round E (tl_scale t)
         (size_max (mk_size 1 1) (size_lerp (from r) s (anim_value E (ra_anim r)))))"

definition animated_window_size :: "'e env0_scheme \<Rightarrow> tile \<Rightarrow> size" where
  "animated_window_size E t = animated_size E t ra_size_from (tile_window_size E t)"

definition animated_tile_size :: "'e env0_scheme \<Rightarrow> tile \<Rightarrow> size" where
  "animated_tile_size E t = animated_size E t ra_tile_size_from (tile_size E t)"

definition tile_window_loc :: "'e env0_scheme \<Rightarrow> tile \<Rightarrow> point" where
  "tile_window_loc E t =
    (let ws = animated_window_size E t; ts = animated_tile_size E t
     in mk_point (e_phys_round E (tl_scale t) ((sz_w ts - sz_w ws) / 2))
                 (e_phys_round E (tl_scale t) ((sz_h ts - sz_h ws) / 2)))"

definition tile_length_for_window_length :: "tile \<Rightarrow> f64 \<Rightarrow> f64" where
  "tile_length_for_window_length t x = (if bc_off (tl_border t) then x else x + bc_width (tl_border t) * 2)"

definition window_length_for_tile_length :: "tile \<Rightarrow> f64 \<Rightarrow> f64" where
  "window_length_for_tile_length t x = (if bc_off (tl_border t) then x else x - bc_width (tl_border t) * 2)"

definition min_size_nonfullscreen :: "tile \<Rightarrow> size" where
  "min_size_nonfullscreen t =
    (let s = isize_to_f64 (win_min_size (tl_window t))
     in if bc_off (tl_border t) then s
        else size_grow (bc_width (tl_border t) * 2) (size_max (mk_size 1 1) s))"

definition max_size_nonfullscreen :: "tile \<Rightarrow> size" where
  "max_size_nonfullscreen t =
    (let s = isize_to_f64 (win_max_size (tl_window t)); w = bc_width (tl_border t) * 2
     in if bc_off (tl_border t) then s
        else mk_size (if sz_w s > 0 then sz_w s + w else sz_w s) (if sz_h s > 0 then sz_h s + w else sz_h s))"

subsection \<open>Size requests\<close>

definition request_tile_size ::
  "env \<Rightarrow> size \<Rightarrow> bool \<Rightarrow> transaction option \<Rightarrow> tile \<Rightarrow> tile" where
  "request_tile_size E s animate tr t =
    (let s = (if bc_off (tl_border t) then s
              else size_max (mk_size 1 1) (size_grow (- (bc_width (tl_border t) * 2)) s))
     in t\<lparr>tl_window := win_request_size (size_to_i32_floor E s) Normal animate tr (tl_window t)\<rparr>)"

definition request_maximized ::
  "env \<Rightarrow> size \<Rightarrow> bool \<Rightarrow> transaction option \<Rightarrow> tile \<Rightarrow> tile" where
  "request_maximized E s animate tr t =
     t\<lparr>tl_window := win_request_size (size_to_i32_round E s) Maximized animate tr (tl_window t)\<rparr>"

definition request_fullscreen :: "env \<Rightarrow> bool \<Rightarrow> transaction option \<Rightarrow> tile \<Rightarrow> tile" where
  "request_fullscreen E animate tr t =
     t\<lparr>tl_window := win_request_size (size_to_i32_round E (tl_view_size t)) Fullscreen animate tr (tl_window t)\<rparr>"

subsection \<open>Animations\<close>

definition render_offset :: "'e env0_scheme \<Rightarrow> tile \<Rightarrow> point" where
  "render_offset E t =
    (let mv = (\<lambda>a. case a of Some m \<Rightarrow> ma_from m * anim_value E (ma_anim m) | None \<Rightarrow> 0)
     in pt_add (mk_point (mv (tl_move_x_animation t)) (mv (tl_move_y_animation t)))
          (tl_interactive_move_offset t))"

definition move_animation_from ::
  "'e env0_scheme \<Rightarrow> f64 \<Rightarrow> f64 \<Rightarrow> anim_config \<Rightarrow> move_animation option \<Rightarrow> move_animation option" where
  "move_animation_from E from current_offset cfg m = do {
     a \<leftarrow> (case m of
        Some m \<Rightarrow> anim_restarted E 1 0 0 (ma_anim m)
      | None \<Rightarrow> anim_new E 1 0 0 cfg);
     Some \<lparr>ma_anim = a, ma_from = from + current_offset\<rparr> }"

definition animate_move_x_from_with_config ::
  "'e env0_scheme \<Rightarrow> f64 \<Rightarrow> anim_config \<Rightarrow> tile \<Rightarrow> tile option" where
  "animate_move_x_from_with_config E from cfg t = do {
     m \<leftarrow> move_animation_from E from (pt_x (render_offset E t)) cfg (tl_move_x_animation t);
     Some (t\<lparr>tl_move_x_animation := Some m\<rparr>) }"

definition animate_move_y_from_with_config ::
  "'e env0_scheme \<Rightarrow> f64 \<Rightarrow> anim_config \<Rightarrow> tile \<Rightarrow> tile option" where
  "animate_move_y_from_with_config E from cfg t = do {
     m \<leftarrow> move_animation_from E from (pt_y (render_offset E t)) cfg (tl_move_y_animation t);
     Some (t\<lparr>tl_move_y_animation := Some m\<rparr>) }"

definition animate_move_from :: "'e env0_scheme \<Rightarrow> point \<Rightarrow> tile \<Rightarrow> tile option" where
  "animate_move_from E from t = do {
     let cfg = ao_window_movement (op_animations (tl_options t));
     t \<leftarrow> animate_move_x_from_with_config E (pt_x from) cfg t;
     animate_move_y_from_with_config E (pt_y from) cfg t }"

definition offset_move_y_anim_current :: "'e env0_scheme \<Rightarrow> f64 \<Rightarrow> tile \<Rightarrow> tile" where
  "offset_move_y_anim_current E d t =
     t\<lparr>tl_move_y_animation := map_option (\<lambda>m.
        let value = anim_value E (ma_anim m)
        in if value > 0.001 then m\<lparr>ma_from := ma_from m + d / value\<rparr> else m) (tl_move_y_animation t)\<rparr>"

definition stop_move_animations :: "tile \<Rightarrow> tile" where
  "stop_move_animations t = t\<lparr>tl_move_x_animation := None, tl_move_y_animation := None\<rparr>"

definition start_open_animation :: "'e env0_scheme \<Rightarrow> tile \<Rightarrow> tile option" where
  "start_open_animation E t = do {
     a \<leftarrow> anim_new E 0 1 0 (ao_window_open (op_animations (tl_options t)));
     Some (t\<lparr>tl_open_animation := Some a\<rparr>) }"

definition animate_alpha ::
  "'e env0_scheme \<Rightarrow> f64 \<Rightarrow> f64 \<Rightarrow> anim_config \<Rightarrow> tile \<Rightarrow> tile option" where
  "animate_alpha E fr to cfg t = do {
     let fr = f_clamp fr 0 1;
     let to = f_clamp to 0 1;
     let current = (case tl_alpha_animation t of Some a \<Rightarrow> anim_clamped_value E (aa_anim a) | None \<Rightarrow> fr);
     a \<leftarrow> anim_new E current to 0 cfg;
     Some (t\<lparr>tl_alpha_animation := Some \<lparr>aa_anim = a, aa_hold_after_done = False\<rparr>\<rparr>) }"

definition ensure_alpha_animates_to_1 :: "tile \<Rightarrow> tile" where
  "ensure_alpha_animates_to_1 t = (case tl_alpha_animation t of
     Some a \<Rightarrow> if an_to (aa_anim a) \<noteq> 1 then t\<lparr>tl_alpha_animation := None\<rparr> else t
   | None \<Rightarrow> t)"

definition hold_alpha_animation_after_done :: "tile \<Rightarrow> tile" where
  "hold_alpha_animation_after_done t =
     t\<lparr>tl_alpha_animation := map_option (\<lambda>a. a\<lparr>aa_hold_after_done := True\<rparr>) (tl_alpha_animation t)\<rparr>"

definition drop_done :: "'e env0_scheme \<Rightarrow> ('m \<Rightarrow> animation) \<Rightarrow> 'm option \<Rightarrow> 'm option" where
  "drop_done E anim m = (case m of Some m \<Rightarrow> if anim_is_done E (anim m) then None else Some m | None \<Rightarrow> None)"

definition tile_advance_animations :: "'e env0_scheme \<Rightarrow> tile \<Rightarrow> tile" where
  "tile_advance_animations E t =
    (let t = t\<lparr>tl_open_animation := drop_done E id (tl_open_animation t)\<rparr>;
         t = t\<lparr>tl_resize_animation := drop_done E ra_anim (tl_resize_animation t)\<rparr>;
         t = t\<lparr>tl_move_x_animation := drop_done E ma_anim (tl_move_x_animation t)\<rparr>;
         t = t\<lparr>tl_move_y_animation := drop_done E ma_anim (tl_move_y_animation t)\<rparr>
     in t\<lparr>tl_alpha_animation := (case tl_alpha_animation t of
            Some a \<Rightarrow> if \<not> aa_hold_after_done a \<and> anim_is_done E (aa_anim a) then None else Some a
          | None \<Rightarrow> None)\<rparr>)"

definition tile_are_transitions_ongoing :: "'e env0_scheme \<Rightarrow> tile \<Rightarrow> bool" where
  "tile_are_transitions_ongoing E t \<longleftrightarrow>
     tl_open_animation t \<noteq> None \<or> tl_resize_animation t \<noteq> None \<or>
     tl_move_x_animation t \<noteq> None \<or> tl_move_y_animation t \<noteq> None \<or>
     (case tl_alpha_animation t of Some a \<Rightarrow> \<not> anim_is_done E (aa_anim a) | None \<Rightarrow> False)"

definition tile_are_animations_ongoing :: "'e env0_scheme \<Rightarrow> tile \<Rightarrow> bool" where
  "tile_are_animations_ongoing E t \<longleftrightarrow>
     tile_are_transitions_ongoing E t \<or> wr_baba_is_float (mw_rules (tl_window t)) = Some True"

definition tile_fullscreen_progress :: "'e env0_scheme \<Rightarrow> tile \<Rightarrow> f64" where
  "tile_fullscreen_progress E t =
    (case Option.bind (tl_resize_animation t) ra_fullscreen_progress of
       Some a \<Rightarrow> f_clamp (anim_clamped_value E a) 0 1
     | None \<Rightarrow> if tl_sizing_mode t = Fullscreen then 1 else 0)"

definition tile_expanded_progress :: "'e env0_scheme \<Rightarrow> tile \<Rightarrow> f64" where
  "tile_expanded_progress E t =
    (case Option.bind (tl_resize_animation t) ra_expanded_progress of
       Some a \<Rightarrow> f_clamp (anim_clamped_value E a) 0 1
     | None \<Rightarrow> if tl_sizing_mode t = Normal then 0 else 1)"

definition visual_border_width :: "'e env0_scheme \<Rightarrow> tile \<Rightarrow> f64 option" where
  "visual_border_width E t =
    (if bc_off (tl_border t) then None
     else if tile_expanded_progress E t = 1 then None else Some (bc_width (tl_border t)))"

definition compute_win_alpha :: "'e env0_scheme \<Rightarrow> bool \<Rightarrow> tile \<Rightarrow> f64" where
  "compute_win_alpha E is_active t =
    (let p = tile_fullscreen_progress E t;
         w = tl_window t;
         win_alpha = (if mw_ignore_opacity_window_rule w then 1
           else let alpha = f_clamp (case wr_opacity (mw_rules w) of Some x \<Rightarrow> x | None \<Rightarrow> 1) 0 1
                in alpha * (1 - p) + 1 * p)
     in if is_active then win_alpha
        else let dim = f_clamp (case op_inactive_alpha (tl_options t) of Some x \<Rightarrow> x | None \<Rightarrow> 1) 0 1
             in win_alpha * (dim * (1 - p) + 1 * p))"

subsection \<open>Commits\<close>

text \<open>The size of the tile around a window of size \<open>s\<close> in the previous sizing mode.\<close>

definition prev_tile_size :: "sizing_mode \<Rightarrow> tile \<Rightarrow> size \<Rightarrow> size" where
  "prev_tile_size prev t s =
    (if prev = Fullscreen then size_max s (tl_view_size t)
     else if prev = Normal \<and> \<not> bc_off (tl_border t) then size_grow (bc_width (tl_border t) * 2) s
     else s)"

definition progress_from ::
  "'e env0_scheme \<Rightarrow> animation option \<Rightarrow> f64 \<Rightarrow> f64" where
  "progress_from E p dflt = (case p of Some a \<Rightarrow> f_clamp (anim_clamped_value E a) 0 1 | None \<Rightarrow> dflt)"

definition progress_to ::
  "'e env0_scheme \<Rightarrow> animation \<Rightarrow> f64 \<Rightarrow> f64 \<Rightarrow> animation option option" where
  "progress_to E a fr to =
     (if fr \<noteq> to then map_option Some (anim_restarted E fr to 0 a) else Some None)"

definition size_dist :: "size \<Rightarrow> size \<Rightarrow> f64" where
  "size_dist a b = max \<bar>sz_w a - sz_w b\<bar> \<bar>sz_h a - sz_h b\<bar>"

definition tile_update_window :: "'e env0_scheme \<Rightarrow> tile \<Rightarrow> tile option" where
  "tile_update_window E t = do {
     let prev = tl_sizing_mode t;
     let t = t\<lparr>tl_sizing_mode := win_sizing_mode (tl_window t)\<rparr>;
     t \<leftarrow> (case mw_animation_snapshot (tl_window t) of
        None \<Rightarrow> Some t
      | Some animate_from \<Rightarrow> do {
          let t = t\<lparr>tl_window := (tl_window t)\<lparr>mw_animation_snapshot := None\<rparr>\<rparr>;
          let dflt_full = (if prev = Fullscreen then 1 else 0 :: f64);
          let dflt_exp = (if prev = Normal then 0 else 1 :: f64);
          let tile_from = prev_tile_size prev t animate_from;
          let (size_from, tile_size_from, fullscreen_from, expanded_from) =
            (case tl_resize_animation t of
               Some r \<Rightarrow>
                 (let val = anim_value E (ra_anim r)
                  in (size_lerp (ra_size_from r) animate_from val,
                      size_lerp (ra_tile_size_from r) tile_from val,
                      progress_from E (ra_fullscreen_progress r) dflt_full,
                      progress_from E (ra_expanded_progress r) dflt_exp))
             | None \<Rightarrow> (animate_from, tile_from, dflt_full, dflt_exp));
          let t = t\<lparr>tl_resize_animation := None\<rparr>;
          let change = max (size_dist (isize_to_f64 (win_size (tl_window t))) size_from)
                           (size_dist (tile_size E t) tile_size_from);
          if change > 10 then do {
            anim \<leftarrow> anim_new E 0 1 0 (ao_window_resize (op_animations (tl_options t)));
            fp \<leftarrow> progress_to E anim fullscreen_from (if tl_sizing_mode t = Fullscreen then 1 else 0);
            ep \<leftarrow> progress_to E anim expanded_from (if tl_sizing_mode t = Normal then 0 else 1);
            Some (t\<lparr>tl_resize_animation := Some \<lparr>ra_anim = anim, ra_size_from = size_from,
              ra_tile_size_from = tile_size_from, ra_fullscreen_progress = fp,
              ra_expanded_progress = ep\<rparr>\<rparr>) }
          else Some t });
     Some (t\<lparr>tl_border := tile_border_config t\<rparr>) }"

definition tile_ipc_layout_template :: "'e env0_scheme \<Rightarrow> tile \<Rightarrow> isize \<times> size \<times> point" where
  "tile_ipc_layout_template E t = (win_size (tl_window t), tile_size E t, tile_window_loc E t)"

section \<open>Lemmas\<close>

named_theorems tile_simps "what the operations leave of a tile"

lemma request_keeps [tile_simps]:
  "tile_id (request_tile_size E s a tr t) = tile_id t"
  "tile_id (request_maximized E s a tr t) = tile_id t"
  "tile_id (request_fullscreen E a tr t) = tile_id t"
  "tile_id (tile_update_config vs sc opts t) = tile_id t"
  "tile_id (tile_advance_animations E t) = tile_id t"
  "tile_id (stop_move_animations t) = tile_id t"
  by (simp_all add: request_tile_size_def request_maximized_def request_fullscreen_def win_simps
      tile_update_config_def tile_advance_animations_def stop_move_animations_def Let_def)

text \<open>Requests touch nothing but the window.\<close>

lemma request_render_offset [tile_simps]:
  "render_offset E' (request_tile_size E s a tr t) = render_offset E' t"
  "render_offset E' (request_maximized E s a tr t) = render_offset E' t"
  "render_offset E' (request_fullscreen E a tr t) = render_offset E' t"
  by (simp_all add: request_tile_size_def request_maximized_def request_fullscreen_def render_offset_def)

lemma request_moves [tile_simps]:
  "tl_move_x_animation (request_tile_size E s a tr t) = tl_move_x_animation t"
  "tl_move_y_animation (request_tile_size E s a tr t) = tl_move_y_animation t"
  "tl_interactive_move_offset (request_tile_size E s a tr t) = tl_interactive_move_offset t"
  by (simp_all add: request_tile_size_def)

lemma animate_move_id:
  "animate_move_x_from_with_config E d cfg t = Some t' \<Longrightarrow> tile_id t' = tile_id t"
  "animate_move_y_from_with_config E d cfg t = Some t' \<Longrightarrow> tile_id t' = tile_id t"
  by (auto simp: animate_move_x_from_with_config_def animate_move_y_from_with_config_def
      bind_eq_Some_conv)

lemma tile_update_window_id: "tile_update_window E t = Some t' \<Longrightarrow> tile_id t' = tile_id t"
  by (auto simp: tile_update_window_def bind_eq_Some_conv Let_def split: option.splits prod.splits if_splits)

lemma start_open_animation_id: "start_open_animation E t = Some t' \<Longrightarrow> tile_id t' = tile_id t"
  by (auto simp: start_open_animation_def bind_eq_Some_conv)

lemma render_offset_sel:
  "pt_x (render_offset E t) = (case tl_move_x_animation t of Some m \<Rightarrow> ma_from m * anim_value E (ma_anim m)
     | None \<Rightarrow> 0) + pt_x (tl_interactive_move_offset t)"
  "pt_y (render_offset E t) = (case tl_move_y_animation t of Some m \<Rightarrow> ma_from m * anim_value E (ma_anim m)
     | None \<Rightarrow> 0) + pt_y (tl_interactive_move_offset t)"
  by (simp_all add: render_offset_def Let_def)

text \<open>A running move animation was started with animations on; restarting it keeps its place.\<close>

definition move_on :: "move_animation option \<Rightarrow> bool" where
  "move_on m \<longleftrightarrow> (case m of Some m \<Rightarrow> \<not> an_is_off (ma_anim m) | None \<Rightarrow> True)"

lemma move_animation_from_value:
  assumes "move_animation_from E d cur cfg m = Some m'" and "move_on m"
  shows "ma_from m' * anim_value E (ma_anim m') = d + cur"
proof (cases m)
  case None
  with assms show ?thesis
    by (auto simp: move_animation_from_def bind_eq_Some_conv dest!: anim_new_value)
next
  case (Some a)
  with assms show ?thesis
    by (auto simp: move_animation_from_def bind_eq_Some_conv move_on_def dest!: anim_restarted_value)
qed

section \<open>Properties\<close>

text \<open>Moving a tile to another slot is invisible at the moment it happens:
  when the animation starts from the displacement of the slots, old minus new, the tile is still drawn
  exactly where it was, also in the middle of a previous movement, as long as that was not started
  with animations off and no interactive move displaces the tile.\<close>

theorem move_continuity:
  assumes "animate_move_x_from_with_config E (pt_x old - pt_x new) cfg t = Some t1"
    and "animate_move_y_from_with_config E (pt_y old - pt_y new) cfg t1 = Some t2"
    and "move_on (tl_move_x_animation t)" "move_on (tl_move_y_animation t)"
    and "tl_interactive_move_offset t = mk_point 0 0"
  shows "pt_add new (render_offset E t2) = pt_add old (render_offset E t)"
proof -
  obtain mx where x: "move_animation_from E (pt_x old - pt_x new) (pt_x (render_offset E t)) cfg
      (tl_move_x_animation t) = Some mx" "t1 = t\<lparr>tl_move_x_animation := Some mx\<rparr>"
    using assms(1) by (auto simp: animate_move_x_from_with_config_def bind_eq_Some_conv)
  obtain my where y: "move_animation_from E (pt_y old - pt_y new) (pt_y (render_offset E t1)) cfg
      (tl_move_y_animation t1) = Some my" "t2 = t1\<lparr>tl_move_y_animation := Some my\<rparr>"
    using assms(2) by (auto simp: animate_move_y_from_with_config_def bind_eq_Some_conv)
  have "pt_y (render_offset E t1) = pt_y (render_offset E t)"
    by (simp add: x(2) render_offset_sel)
  then show ?thesis
    using move_animation_from_value[OF x(1) assms(3)] move_animation_from_value[OF y(1)] assms(4,5) x(2) y(2)
    by (simp add: pt_add_def mk_point_def render_offset_sel)
qed

definition anim_config_blank :: anim_config where
  "anim_config_blank = \<lparr>ac_off = False, ac_kind = CfgEasing \<lparr>ep_duration_ms = 250, ep_curve = CfgLinear\<rparr>\<rparr>"

definition border_config_blank :: border_config where
  "border_config_blank =
    (let c = \<lparr>cl_r = 0, cl_g = 0, cl_b = 0, cl_a = 1\<rparr>
     in \<lparr>bc_off = True, bc_width = 4, bc_active_color = c, bc_inactive_color = c, bc_urgent_color = c,
         bc_active_gradient = None, bc_inactive_gradient = None, bc_urgent_gradient = None\<rparr>)"

definition options_blank :: options where
  "options_blank =
    \<lparr>op_layout = \<lparr>lo_gaps = 10, lo_struts = \<lparr>st_left = 0, st_right = 0, st_top = 0, st_bottom = 0\<rparr>,
        lo_border = border_config_blank, lo_preset_column_widths = [PresetProportion (1/2)],
        lo_preset_window_heights = [PresetProportion (1/2)], lo_default_column_width = None,
        lo_center_focused_column = CenterNever, lo_empty_workspace_above_first = False, lo_workspace_count = 1\<rparr>,
     op_animations = \<lparr>ao_workspace_switch = anim_config_blank, ao_window_open = anim_config_blank,
        ao_window_close = anim_config_blank, ao_window_movement = anim_config_blank,
        ao_tile_movement = anim_config_blank, ao_window_resize = anim_config_blank\<rparr>,
     op_inactive_alpha = None, op_disable_resize_throttling = False, op_disable_transactions = False,
     op_deactivate_unfocused_windows = False\<rparr>"

definition tile_blank :: "nat \<Rightarrow> tile" where
  "tile_blank i = tile_new (win_blank i) (mk_size 1000 800) 1 options_blank"

declare anim_config_blank_def [blank_defs] options_blank_def [blank_defs] border_config_blank_def [blank_defs] tile_blank_def [blank_defs]
  tile_new_def [blank_defs]

theorem move_continuity_witness:
  "\<exists>t1 t2. animate_move_x_from_with_config (env_blank 1) (30 - 10) anim_config_blank (tile_blank 1) = Some t1 \<and>
     animate_move_y_from_with_config (env_blank 1) (5 - 0) anim_config_blank t1 = Some t2 \<and>
     pt_add (mk_point 10 0) (render_offset (env_blank 1) t2) = pt_add (mk_point 30 5) (render_offset (env_blank 1) (tile_blank 1))"
proof -
  let ?E = "env_blank 1" let ?c = anim_config_blank
  have new: "\<exists>a. anim_new ?E 1 0 0 ?c = Some a"
    by (simp add: anim_new_def anim_replace_config_def anim_config_blank_def Let_def)
  obtain t1 where t1: "animate_move_x_from_with_config ?E (30 - 10) ?c (tile_blank 1) = Some t1"
      "tl_move_y_animation t1 = None"
    using new by (auto simp: animate_move_x_from_with_config_def move_animation_from_def tile_blank_def tile_new_def)
  then obtain t2 where t2: "animate_move_y_from_with_config ?E (5 - 0) ?c t1 = Some t2"
    using new by (auto simp: animate_move_y_from_with_config_def move_animation_from_def)
  have "pt_add (mk_point 10 0) (render_offset ?E t2) = pt_add (mk_point 30 5) (render_offset ?E (tile_blank 1))"
    using t1(1) t2 by (intro move_continuity[where cfg = ?c and ?t1.0 = t1])
      (simp_all add: move_on_def tile_blank_def tile_new_def)
  with t1(1) t2 show ?thesis by blast
qed

text \<open>A window that takes the size requested for its slot makes a tile that
  never exceeds the slot and misses it by less than one pixel in each direction, borders included, if
  the borders leave it a pixel, the rounding is smithay's and whole logical pixels are whole physical
  ones.\<close>

theorem tile_fills_slot:
  assumes "\<And>x. e_i32_floor E x = \<lfloor>x\<rfloor>" and "\<And>n::int. e_phys_round E (tl_scale t) (of_int n) = of_int n"
    and "tl_sizing_mode t = Normal" "0 \<le> bc_width (tl_border t)"
    and "2 * bc_width (tl_border t) + 1 \<le> sz_w slot" "2 * bc_width (tl_border t) + 1 \<le> sz_h slot"
    and "win_requested_size (tl_window (request_tile_size E slot a tr t)) = Some req"
    and "win_size (tl_window t') = req" "tl_sizing_mode t' = Normal" "tl_border t' = tl_border t"
    and "tl_scale t' = tl_scale t"
  shows "sz_w (tile_size E t') \<le> sz_w slot \<and> sz_w slot < sz_w (tile_size E t') + 1 \<and>
         sz_h (tile_size E t') \<le> sz_h slot \<and> sz_h slot < sz_h (tile_size E t') + 1"
proof -
  define b where "b = (if bc_off (tl_border t) then 0 else bc_width (tl_border t) * 2)"
  have req: "isz_w req = \<lfloor>sz_w slot - b\<rfloor>" "isz_h req = \<lfloor>sz_h slot - b\<rfloor>"
    using assms(1,7) assms(5,6)
    by (auto simp: b_def request_tile_size_def win_request_size_def win_requested_size_def Let_def
        with_pending_state_def note_pending_maximized_def size_to_i32_floor_def size_grow_def size_max_def
        max_absorb2 split: if_splits)
  have "sz_w (tile_size E t') = of_int (isz_w req) + b" "sz_h (tile_size E t') = of_int (isz_h req) + b"
    using assms(2,8-11)
    by (auto simp: b_def tile_size_def tile_size_from_def tile_window_size_def size_phys_round_def
        isize_to_f64_def effective_border_width_def size_grow_def)
  then show ?thesis unfolding req by (simp; linarith)
qed

theorem tile_fills_slot_witness:
  "\<exists>t'. sz_w (tile_size (env_blank 1) t') \<le> 300 \<and> 300 < sz_w (tile_size (env_blank 1) t') + 1"
proof -
  let ?t = "tile_blank 1" let ?req = "\<lparr>isz_w = 300, isz_h = 200\<rparr>"
  let ?t' = "?t\<lparr>tl_window := (tl_window ?t)\<lparr>mw_toplevel := (mw_toplevel (tl_window ?t))\<lparr>tp_geometry_size := ?req\<rparr>\<rparr>\<rparr>"
  have "sz_w (tile_size (env_blank 1) ?t') \<le> sz_w (mk_size 300 200) \<and>
      sz_w (mk_size 300 200) < sz_w (tile_size (env_blank 1) ?t') + 1 \<and>
      sz_h (tile_size (env_blank 1) ?t') \<le> sz_h (mk_size 300 200) \<and>
      sz_h (mk_size 300 200) < sz_h (tile_size (env_blank 1) ?t') + 1"
    by (rule tile_fills_slot[where t = ?t and req = ?req and a = False and tr = None])
       (simp_all add: blank_defs border_merged_with_def win_size_def request_tile_size_def
          win_request_size_def win_requested_size_def Let_def with_pending_state_def
          note_pending_maximized_def size_to_i32_floor_def)
  then show ?thesis by auto
qed

end
