(* ===== verification/MasterStack.thy ===== *)
theory MasterStack
  imports Tiles
begin

text \<open>
  The master-stack tiling engine, \<^verbatim>\<open>layout/scrolling.rs\<close>: one master column, a list of stack
  columns of one tile each, and the focus. The operations are translated in the order of the file;
  an index out of range, an \<open>expect\<close> on a missing window and a \<open>todo!()\<close> are \<open>None\<close>. Closing-window
  snapshots, rendering and hit testing are left out; the options without effect in this engine are
  the operations that do nothing.
\<close>

section \<open>Columns\<close>

datatype column_width = Proportion f64 | Fixed f64

fun column_width_from :: "preset_size \<Rightarrow> column_width" where
  "column_width_from (PresetProportion p) = Proportion (f_clamp p 0 10000)"
| "column_width_from (PresetFixed f) = Fixed (of_int (i_clamp f 1 100000))"

record column =
  co_tile :: tile
  co_width :: column_width
  co_is_full_width :: bool
  co_is_pending_fullscreen :: bool
  co_is_pending_maximized :: bool
  co_view_size :: size
  co_working_area :: rect
  co_parent_area :: rect
  co_scale :: f64
  co_options :: options

abbreviation column_id :: "column \<Rightarrow> nat" where
  "column_id c \<equiv> tile_id (co_tile c)"

definition column_set_fullscreen :: "env \<Rightarrow> bool \<Rightarrow> column \<Rightarrow> column \<times> bool" where
  "column_set_fullscreen E is_fullscreen c =
    (if co_is_pending_fullscreen c = is_fullscreen then (c, False)
     else
       let c = c\<lparr>co_is_pending_fullscreen := is_fullscreen\<rparr>;
           c = (if is_fullscreen
                then c\<lparr>co_is_pending_maximized := False,
                       co_tile := request_fullscreen E False None (co_tile c)\<rparr>
                else c)
       in (c, True))"

definition column_set_maximized :: "env \<Rightarrow> bool \<Rightarrow> size \<Rightarrow> column \<Rightarrow> column \<times> bool" where
  "column_set_maximized E maximize working_area_size c =
    (if co_is_pending_maximized c = maximize then (c, False)
     else
       let c = c\<lparr>co_is_pending_maximized := maximize\<rparr>;
           c = (if maximize
                then c\<lparr>co_is_pending_fullscreen := False,
                       co_tile := request_maximized E working_area_size False None (co_tile c)\<rparr>
                else c)
       in (c, True))"

definition column_new_with_tile ::
  "env \<Rightarrow> tile \<Rightarrow> size \<Rightarrow> rect \<Rightarrow> rect \<Rightarrow> f64 \<Rightarrow> column_width \<Rightarrow> bool \<Rightarrow> column" where
  "column_new_with_tile E t view_size working_area parent_area scale width is_full_width =
    (let rv = \<lparr>co_tile = t, co_width = width, co_is_full_width = is_full_width,
           co_is_pending_fullscreen = False, co_is_pending_maximized = False,
           co_view_size = view_size, co_working_area = working_area, co_parent_area = parent_area,
           co_scale = scale, co_options = tl_options t\<rparr>
     in case win_pending_sizing_mode (tl_window t) of
          Normal \<Rightarrow> rv
        | Maximized \<Rightarrow> fst (column_set_maximized E True (rsize working_area) rv)
        | Fullscreen \<Rightarrow> fst (column_set_fullscreen E True rv))"

definition column_update_config ::
  "size \<Rightarrow> rect \<Rightarrow> rect \<Rightarrow> f64 \<Rightarrow> options \<Rightarrow> column \<Rightarrow> column" where
  "column_update_config view_size working_area parent_area scale opts c =
     c\<lparr>co_tile := tile_update_config view_size scale opts (co_tile c), co_view_size := view_size,
       co_working_area := working_area, co_parent_area := parent_area, co_scale := scale,
       co_options := opts\<rparr>"

definition column_pending_sizing_mode :: "column \<Rightarrow> sizing_mode" where
  "column_pending_sizing_mode c =
     (if co_is_pending_fullscreen c then Fullscreen
      else if co_is_pending_maximized c then Maximized else Normal)"

section \<open>The space\<close>

datatype focus = FocusEmpty | FocusMaster | FocusStack nat

record scrolling_space =
  ss_master :: "column option"
  ss_stack :: "column list"
  ss_focus :: focus
  ss_last_stack_idx :: "nat option"
  ss_master_ratio :: f64
  ss_view_size :: size
  ss_working_area :: rect
  ss_parent_area :: rect
  ss_scale :: f64
  ss_options :: options

definition compute_working_area :: "'e env0_scheme \<Rightarrow> rect \<Rightarrow> f64 \<Rightarrow> struts \<Rightarrow> rect" where
  "compute_working_area E parent_area scale s =
    (let w = max 0 (sz_w (rsize parent_area) - st_left s - st_right s);
         x = pt_x (rloc parent_area) + st_left s;
         h = max 0 (sz_h (rsize parent_area) - st_top s - st_bottom s);
         y = pt_y (rloc parent_area) + st_top s;
         lx = e_phys_ceil E scale x;
         ly = e_phys_ceil E scale y;
         dw = min w (lx - x);
         dh = min h (ly - y)
     in \<lparr>rloc = mk_point lx ly, rsize = mk_size (w - dw) (h - dh)\<rparr>)"

definition ss_new :: "'e env0_scheme \<Rightarrow> size \<Rightarrow> rect \<Rightarrow> f64 \<Rightarrow> options \<Rightarrow> scrolling_space" where
  "ss_new E view_size parent_area scale opts =
     \<lparr>ss_master = None, ss_stack = [], ss_focus = FocusEmpty, ss_last_stack_idx = None,
      ss_master_ratio = 0.5, ss_view_size = view_size,
      ss_working_area = compute_working_area E parent_area scale (lo_struts (op_layout opts)),
      ss_parent_area = parent_area, ss_scale = scale, ss_options = opts\<rparr>"

definition columns :: "scrolling_space \<Rightarrow> column list" where
  "columns s = (case ss_master s of Some c \<Rightarrow> [c] | None \<Rightarrow> []) @ ss_stack s"

text \<open>\<open>columns_mut\<close>: the loop over all columns, given what it makes of the list of them.\<close>

definition with_columns :: "(column list \<Rightarrow> column list) \<Rightarrow> scrolling_space \<Rightarrow> scrolling_space" where
  "with_columns f s =
    (case ss_master s of
       Some c \<Rightarrow> (case f (c # ss_stack s) of
           m # st \<Rightarrow> s\<lparr>ss_master := Some m, ss_stack := st\<rparr> | [] \<Rightarrow> s)
     | None \<Rightarrow> s\<lparr>ss_stack := f (ss_stack s)\<rparr>)"

definition ss_tiles :: "scrolling_space \<Rightarrow> tile list" where
  "ss_tiles s = map co_tile (columns s)"

definition ss_is_empty :: "scrolling_space \<Rightarrow> bool" where
  "ss_is_empty s \<longleftrightarrow> ss_master s = None \<and> ss_stack s = []"

definition focused_column :: "scrolling_space \<Rightarrow> column option" where
  "focused_column s = (case ss_focus s of
     FocusEmpty \<Rightarrow> None | FocusMaster \<Rightarrow> ss_master s | FocusStack i \<Rightarrow> vec_get (ss_stack s) i)"

definition ss_active_window :: "scrolling_space \<Rightarrow> mapped option" where
  "ss_active_window s = map_option (\<lambda>c. tl_window (co_tile c)) (focused_column s)"

definition ss_is_active_pending_fullscreen :: "scrolling_space \<Rightarrow> bool" where
  "ss_is_active_pending_fullscreen s =
     (case focused_column s of Some c \<Rightarrow> co_is_pending_fullscreen c | None \<Rightarrow> False)"

definition active_column_idx :: "scrolling_space \<Rightarrow> nat option" where
  "active_column_idx s = (case ss_focus s of
     FocusEmpty \<Rightarrow> None | FocusMaster \<Rightarrow> Some 0 | FocusStack i \<Rightarrow> Some (i + 1))"

definition column_by_unified_idx :: "nat \<Rightarrow> scrolling_space \<Rightarrow> column option" where
  "column_by_unified_idx i s = (if i = 0 then ss_master s else vec_get (ss_stack s) (i - 1))"

definition column_layout :: "scrolling_space \<Rightarrow> (nat \<times> point \<times> size) list" where
  "column_layout s =
    (let work = ss_working_area s;
         g = lo_gaps (op_layout (ss_options s));
         n_stack = length (ss_stack s);
         col_y = pt_y (rloc work) + g;
         col_h = max (sz_h (rsize work) - 2 * g) 1
     in if n_stack = 0
        then (case ss_master s of
                Some _ \<Rightarrow> [(0, mk_point (pt_x (rloc work) + g) col_y,
                               mk_size (max (sz_w (rsize work) - 2 * g) 1) col_h)]
              | None \<Rightarrow> [])
        else
          let avail_w = max (sz_w (rsize work) - 3 * g) 1;
              master_w = max (avail_w * ss_master_ratio s) 1;
              stack_w = max (avail_w - master_w) 1;
              master_x = pt_x (rloc work) + g;
              stack_x = pt_x (rloc work) + g + master_w + g;
              avail_h = max (col_h - (real n_stack - 1) * g) 1;
              stack_h = avail_h / real n_stack
          in (case ss_master s of
                Some _ \<Rightarrow> [(0, mk_point master_x col_y, mk_size master_w col_h)]
              | None \<Rightarrow> []) @
             map (\<lambda>i. (i + 1, mk_point stack_x (col_y + real i * (stack_h + g)), mk_size stack_w stack_h))
               [0..<n_stack])"

definition update_tile_sizes :: "env \<Rightarrow> scrolling_space \<Rightarrow> scrolling_space" where
  "update_tile_sizes E s =
     with_columns (\<lambda>cs. map (\<lambda>((_, _, sz), c).
        if co_is_pending_fullscreen c \<or> co_is_pending_maximized c then c
        else c\<lparr>co_tile := request_tile_size E sz False None (co_tile c)\<rparr>) (zip (column_layout s) cs)) s"

definition ss_update_config ::
  "env \<Rightarrow> size \<Rightarrow> rect \<Rightarrow> f64 \<Rightarrow> options \<Rightarrow> scrolling_space \<Rightarrow> scrolling_space" where
  "ss_update_config E view_size parent_area scale opts s =
    (let working_area = compute_working_area E parent_area scale (lo_struts (op_layout opts));
         s = with_columns (map (column_update_config view_size working_area parent_area scale opts)) s;
         s = s\<lparr>ss_view_size := view_size, ss_working_area := working_area,
               ss_parent_area := parent_area, ss_scale := scale, ss_options := opts\<rparr>
     in update_tile_sizes E s)"

definition ss_advance_animations :: "env \<Rightarrow> scrolling_space \<Rightarrow> scrolling_space" where
  "ss_advance_animations E =
     with_columns (map (\<lambda>c. c\<lparr>co_tile := tile_advance_animations E (co_tile c)\<rparr>))"

definition takeover :: "scrolling_space \<Rightarrow> (nat \<times> rect) option" where
  "takeover s =
    (case position (\<lambda>c. co_is_pending_fullscreen c \<or> co_is_pending_maximized c) (columns s) of
       None \<Rightarrow> None
     | Some i \<Rightarrow>
         if co_is_pending_fullscreen (columns s ! i)
         then Some (i, \<lparr>rloc = mk_point 0 0, rsize = ss_view_size s\<rparr>)
         else Some (i, ss_working_area s))"

definition new_window_toplevel_bounds :: "env \<Rightarrow> scrolling_space \<Rightarrow> isize" where
  "new_window_toplevel_bounds E s =
    (let gaps = lo_gaps (op_layout (ss_options s))
     in size_to_i32_floor E (mk_size (max (sz_w (rsize (ss_working_area s)) - gaps * 2) 1)
                                     (max (sz_h (rsize (ss_working_area s)) - gaps * 2) 1)))"

definition new_window_size :: "env \<Rightarrow> scrolling_space \<Rightarrow> isize" where
  "new_window_size E s =
    (let work = rsize (ss_working_area s);
         (w, h) = (if ss_master s = None then (sz_w work, sz_h work)
                   else let new_stack_count = length (ss_stack s) + 1
                        in (sz_w work * (1 - ss_master_ratio s), sz_h work / real new_stack_count))
     in size_to_i32_floor E (mk_size (max w 1) (max h 1)))"

subsection \<open>Adding\<close>

definition add_column :: "env \<Rightarrow> column \<Rightarrow> bool \<Rightarrow> scrolling_space \<Rightarrow> scrolling_space" where
  "add_column E col activate s =
    (let wa_size = rsize (ss_working_area s);
         s = with_columns (map (\<lambda>c.
               fst (column_set_maximized E False wa_size (fst (column_set_fullscreen E False c))))) s;
         col = column_update_config (ss_view_size s) (ss_working_area s) (ss_parent_area s)
                 (ss_scale s) (ss_options s) col;
         s = (case ss_master s of
                None \<Rightarrow>
                  (let s = s\<lparr>ss_master := Some col\<rparr>
                   in if activate \<or> ss_focus s = FocusEmpty then s\<lparr>ss_focus := FocusMaster\<rparr> else s)
              | Some _ \<Rightarrow>
                  (let new_idx = length (ss_stack s);
                       s = s\<lparr>ss_stack := ss_stack s @ [col]\<rparr>
                   in if activate then s\<lparr>ss_focus := FocusStack new_idx\<rparr>
                      else if ss_focus s = FocusEmpty then s\<lparr>ss_focus := FocusMaster\<rparr> else s))
     in update_tile_sizes E s)"

definition ss_add_tile ::
  "env \<Rightarrow> tile \<Rightarrow> bool \<Rightarrow> column_width \<Rightarrow> bool \<Rightarrow> scrolling_space \<Rightarrow> scrolling_space" where
  "ss_add_tile E t activate width is_full_width s =
     add_column E (column_new_with_tile E t (ss_view_size s) (ss_working_area s) (ss_parent_area s)
       (ss_scale s) width is_full_width) activate s"

definition ss_add_tile_to_column :: "env \<Rightarrow> tile \<Rightarrow> bool \<Rightarrow> scrolling_space \<Rightarrow> scrolling_space" where
  "ss_add_tile_to_column E t activate s =
     add_column E (column_new_with_tile E t (ss_view_size s) (ss_working_area s) (ss_parent_area s)
       (ss_scale s) (Proportion (ss_master_ratio s)) False) activate s"

definition ss_add_tile_right_of ::
  "env \<Rightarrow> tile \<Rightarrow> bool \<Rightarrow> column_width \<Rightarrow> bool \<Rightarrow> scrolling_space \<Rightarrow> scrolling_space" where
  "ss_add_tile_right_of E t activate width is_full_width s = ss_add_tile E t activate width is_full_width s"

subsection \<open>Springing tiles to their new slots\<close>

text \<open>The laid out columns with their slot, \<open>column_layout\<close> looked up by unified index.\<close>

definition slots :: "scrolling_space \<Rightarrow> (nat \<times> nat \<times> point) list" where
  "slots s = List.map_filter (\<lambda>(uidx, pos, _).
     map_option (\<lambda>c. (uidx, column_id c, pos)) (column_by_unified_idx uidx s)) (column_layout s)"

definition slot_positions :: "(nat \<Rightarrow> bool) \<Rightarrow> scrolling_space \<Rightarrow> (nat \<times> point) list" where
  "slot_positions P s = map snd (filter (\<lambda>(uidx, _). P uidx) (slots s))"

definition slot_of :: "nat \<Rightarrow> scrolling_space \<Rightarrow> point option" where
  "slot_of i s = map_option (\<lambda>(_, _, pos). pos) (find (\<lambda>(_, j, _). j = i) (slots s))"

fun update_first :: "nat \<Rightarrow> (tile \<Rightarrow> tile option) \<Rightarrow> column list \<Rightarrow> column list option" where
  "update_first i f [] = Some []"
| "update_first i f (c # cs) =
     (if column_id c = i then do { t \<leftarrow> f (co_tile c); Some (c\<lparr>co_tile := t\<rparr> # cs) }
      else do { cs' \<leftarrow> update_first i f cs; Some (c # cs') })"

definition update_column_by_id ::
  "nat \<Rightarrow> (tile \<Rightarrow> tile option) \<Rightarrow> scrolling_space \<Rightarrow> scrolling_space option" where
  "update_column_by_id i f s = do { cs \<leftarrow> update_first i f (columns s); Some (with_columns (\<lambda>_. cs) s) }"

definition spring_tile :: "env \<Rightarrow> anim_config \<Rightarrow> point \<Rightarrow> tile \<Rightarrow> tile option" where
  "spring_tile E cfg delta t = do {
     t \<leftarrow> (if \<bar>pt_x delta\<bar> \<ge> 0.5 then animate_move_x_from_with_config E (pt_x delta) cfg t else Some t);
     if \<bar>pt_y delta\<bar> \<ge> 0.5 then animate_move_y_from_with_config E (pt_y delta) cfg t else Some t }"

fun spring_all ::
  "env \<Rightarrow> (nat \<times> point) list \<Rightarrow> scrolling_space \<Rightarrow> scrolling_space option" where
  "spring_all E [] s = Some s"
| "spring_all E ((i, old_pos) # pre) s =
    (case slot_of i s of
       None \<Rightarrow> spring_all E pre s
     | Some new_pos \<Rightarrow>
         (let delta = pt_sub old_pos new_pos;
              cfg = ao_tile_movement (op_animations (ss_options s))
          in if \<bar>pt_x delta\<bar> < 0.5 \<and> \<bar>pt_y delta\<bar> < 0.5 then spring_all E pre s
             else do {
               s \<leftarrow> update_column_by_id i (spring_tile E cfg delta) s;
               spring_all E pre s }))"

subsection \<open>Removing\<close>

definition update_focus_after_removal :: "nat \<Rightarrow> scrolling_space \<Rightarrow> scrolling_space" where
  "update_focus_after_removal removed_idx s =
    (let has_master = (ss_master s \<noteq> None); n = length (ss_stack s);
         set = (\<lambda>f. s\<lparr>ss_focus := f\<rparr>)
     in if \<not> has_master \<and> n = 0 then set FocusEmpty
        else case ss_focus s of
          FocusEmpty \<Rightarrow> if has_master then set FocusMaster
                        else if n > 0 then set (FocusStack 0) else s
        | FocusMaster \<Rightarrow> if \<not> has_master then (if n > 0 then set (FocusStack 0) else set FocusEmpty) else s
        | FocusStack idx \<Rightarrow>
            (let stack_removed_idx = removed_idx - 1
             in if removed_idx = 0
                then (if idx = 0 then set FocusMaster
                      else let new_idx = idx - 1
                           in if new_idx < n then set (FocusStack new_idx)
                              else if n > 0 then set (FocusStack (n - 1)) else set FocusMaster)
                else if stack_removed_idx = idx
                then (if idx > 0 then set (FocusStack (idx - 1))
                      else if n > 0 then set (FocusStack 0)
                      else if has_master then set FocusMaster else set FocusEmpty)
                else if stack_removed_idx < idx then set (FocusStack (idx - 1))
                else s))"

definition remove_column_at :: "nat \<Rightarrow> scrolling_space \<Rightarrow> (column \<times> scrolling_space) option" where
  "remove_column_at column_idx s =
    (if column_idx = 0 then do {
       removed \<leftarrow> ss_master s;
       let s = s\<lparr>ss_master := None\<rparr>;
       let s = (case ss_stack s of c # cs \<Rightarrow> s\<lparr>ss_master := Some c, ss_stack := cs\<rparr> | [] \<Rightarrow> s);
       Some (removed, update_focus_after_removal 0 s) }
     else do {
       (removed, st) \<leftarrow> vec_remove (column_idx - 1) (ss_stack s);
       Some (removed, update_focus_after_removal column_idx (s\<lparr>ss_stack := st\<rparr>)) })"

definition take_column_at :: "env \<Rightarrow> nat \<Rightarrow> scrolling_space \<Rightarrow> (column \<times> scrolling_space) option" where
  "take_column_at E column_idx s = do {
     let pre = slot_positions (\<lambda>u. u \<noteq> column_idx) s;
     (removed, s) \<leftarrow> remove_column_at column_idx s;
     let s = update_tile_sizes E s;
     s \<leftarrow> spring_all E pre s;
     Some (removed, s) }"

record removed_tile =
  rt_tile :: tile
  rt_width :: column_width
  rt_is_full_width :: bool
  rt_is_floating :: bool

definition ss_remove_tile_by_idx ::
  "env \<Rightarrow> nat \<Rightarrow> scrolling_space \<Rightarrow> (removed_tile \<times> scrolling_space) option" where
  "ss_remove_tile_by_idx E column_idx s = do {
     (c, s) \<leftarrow> take_column_at E column_idx s;
     Some (\<lparr>rt_tile = co_tile c, rt_width = co_width c, rt_is_full_width = co_is_full_width c,
            rt_is_floating = False\<rparr>, s) }"

definition ss_remove_tile :: "env \<Rightarrow> nat \<Rightarrow> scrolling_space \<Rightarrow> (removed_tile \<times> scrolling_space) option" where
  "ss_remove_tile E window s = do {
     unified_idx \<leftarrow> position (\<lambda>c. column_id c = window) (columns s);
     ss_remove_tile_by_idx E unified_idx s }"

text \<open>The outer option is the panic, the inner one the result: \<open>None\<close> when nothing is focused.\<close>

definition ss_remove_active_tile ::
  "env \<Rightarrow> scrolling_space \<Rightarrow> (removed_tile option \<times> scrolling_space) option" where
  "ss_remove_active_tile E s =
    (case focused_column s of
       None \<Rightarrow> Some (None, s)
     | Some c \<Rightarrow> do { (rt, s) \<leftarrow> ss_remove_tile E (column_id c) s; Some (Some rt, s) })"

definition ss_remove_active_column ::
  "env \<Rightarrow> scrolling_space \<Rightarrow> (column option \<times> scrolling_space) option" where
  "ss_remove_active_column E s =
    (case ss_focus s of
       FocusEmpty \<Rightarrow> Some (None, s)
     | FocusMaster \<Rightarrow> do { (c, s) \<leftarrow> take_column_at E 0 s; Some (Some c, s) }
     | FocusStack idx \<Rightarrow> do { (c, s) \<leftarrow> take_column_at E (idx + 1) s; Some (Some c, s) })"

definition ss_update_window ::
  "env \<Rightarrow> nat \<Rightarrow> serial option \<Rightarrow> scrolling_space \<Rightarrow> scrolling_space option" where
  "ss_update_window E window serial s =
     update_column_by_id window (\<lambda>t.
        let t = (case serial of Some c \<Rightarrow> t\<lparr>tl_window := win_on_commit E c (tl_window t)\<rparr> | None \<Rightarrow> t)
        in tile_update_window E t) s"

definition ss_activate_window :: "nat \<Rightarrow> scrolling_space \<Rightarrow> scrolling_space \<times> bool" where
  "ss_activate_window window s =
    (if (case ss_master s of Some c \<Rightarrow> column_id c = window | None \<Rightarrow> False)
     then (s\<lparr>ss_focus := FocusMaster\<rparr>, True)
     else case position (\<lambda>c. column_id c = window) (ss_stack s) of
            Some i \<Rightarrow> (s\<lparr>ss_focus := FocusStack i\<rparr>, True)
          | None \<Rightarrow> (s, False))"

definition ss_start_open_animation ::
  "env \<Rightarrow> nat \<Rightarrow> scrolling_space \<Rightarrow> (scrolling_space \<times> bool) option" where
  "ss_start_open_animation E window s = do {
     s' \<leftarrow> update_column_by_id window (start_open_animation E) s;
     Some (s', list_ex (\<lambda>c. column_id c = window) (columns s)) }"

subsection \<open>Focus\<close>

definition focus_left :: "scrolling_space \<Rightarrow> scrolling_space \<times> bool" where
  "focus_left s = (case ss_focus s of
     FocusStack idx \<Rightarrow> if ss_master s \<noteq> None
       then (s\<lparr>ss_last_stack_idx := Some idx, ss_focus := FocusMaster\<rparr>, True) else (s, False)
   | _ \<Rightarrow> (s, False))"

text \<open>The remembered stack row when it is still there, else the top.\<close>

definition restored_stack_idx :: "scrolling_space \<Rightarrow> nat" where
  "restored_stack_idx s = (case ss_last_stack_idx s of
     Some i \<Rightarrow> if i < length (ss_stack s) then i else 0 | None \<Rightarrow> 0)"

definition focus_right :: "scrolling_space \<Rightarrow> scrolling_space \<times> bool" where
  "focus_right s = (case ss_focus s of
     FocusMaster \<Rightarrow> if ss_stack s \<noteq> []
       then (s\<lparr>ss_focus := FocusStack (restored_stack_idx s)\<rparr>, True) else (s, False)
   | _ \<Rightarrow> (s, False))"

definition focus_column_first :: "scrolling_space \<Rightarrow> scrolling_space" where
  "focus_column_first s = (if ss_master s \<noteq> None then s\<lparr>ss_focus := FocusMaster\<rparr> else s)"

definition focus_column_last :: "scrolling_space \<Rightarrow> scrolling_space" where
  "focus_column_last s =
    (if ss_stack s \<noteq> [] then s\<lparr>ss_focus := FocusStack (length (ss_stack s) - 1)\<rparr>
     else if ss_master s \<noteq> None then s\<lparr>ss_focus := FocusMaster\<rparr> else s)"

definition focus_column :: "nat \<Rightarrow> scrolling_space \<Rightarrow> scrolling_space" where
  "focus_column index s =
    (if index = 0 then (if ss_master s \<noteq> None then s\<lparr>ss_focus := FocusMaster\<rparr> else s)
     else if index - 1 < length (ss_stack s) then s\<lparr>ss_focus := FocusStack (index - 1)\<rparr> else s)"

definition focus_down :: "scrolling_space \<Rightarrow> scrolling_space \<times> bool" where
  "focus_down s = (case ss_focus s of
     FocusStack idx \<Rightarrow> if idx + 1 < length (ss_stack s)
       then (s\<lparr>ss_focus := FocusStack (idx + 1)\<rparr>, True) else (s, False)
   | FocusMaster \<Rightarrow> if ss_stack s \<noteq> [] then (s\<lparr>ss_focus := FocusStack 0\<rparr>, True) else (s, False)
   | FocusEmpty \<Rightarrow> (s, False))"

definition focus_up :: "scrolling_space \<Rightarrow> scrolling_space \<times> bool" where
  "focus_up s = (case ss_focus s of
     FocusStack idx \<Rightarrow> if idx > 0 then (s\<lparr>ss_focus := FocusStack (idx - 1)\<rparr>, True) else (s, False)
   | _ \<Rightarrow> (s, False))"

definition or_else ::
  "(scrolling_space \<Rightarrow> scrolling_space \<times> bool) \<Rightarrow> (scrolling_space \<Rightarrow> scrolling_space \<times> bool) \<Rightarrow>
     scrolling_space \<Rightarrow> scrolling_space" where
  "or_else f g s = (let (s, ok) = f s in if ok then s else fst (g s))"

definition focus_down_or_left where "focus_down_or_left = or_else focus_down focus_left"
definition focus_down_or_right where "focus_down_or_right = or_else focus_down focus_right"
definition focus_up_or_left where "focus_up_or_left = or_else focus_up focus_left"
definition focus_up_or_right where "focus_up_or_right = or_else focus_up focus_right"

definition focus_top :: "scrolling_space \<Rightarrow> scrolling_space" where
  "focus_top s = (case ss_focus s of FocusStack _ \<Rightarrow> s\<lparr>ss_focus := FocusStack 0\<rparr> | _ \<Rightarrow> s)"

definition focus_bottom :: "scrolling_space \<Rightarrow> scrolling_space" where
  "focus_bottom s =
    (if ss_stack s \<noteq> [] then s\<lparr>ss_focus := FocusStack (length (ss_stack s) - 1)\<rparr> else s)"

subsection \<open>Moving\<close>

definition move_left :: "env \<Rightarrow> scrolling_space \<Rightarrow> (scrolling_space \<times> bool) option" where
  "move_left E s = (case ss_focus s of
     FocusStack idx \<Rightarrow> do {
       (promoted, st) \<leftarrow> vec_remove idx (ss_stack s);
       st \<leftarrow> (case ss_master s of Some old_master \<Rightarrow> vec_insert idx old_master st | None \<Rightarrow> Some st);
       Some (update_tile_sizes E (s\<lparr>ss_stack := st, ss_master := Some promoted,
         ss_focus := FocusMaster, ss_last_stack_idx := Some idx\<rparr>), True) }
   | _ \<Rightarrow> Some (s, False))"

definition move_right :: "env \<Rightarrow> scrolling_space \<Rightarrow> (scrolling_space \<times> bool) option" where
  "move_right E s = (case ss_focus s of
     FocusMaster \<Rightarrow>
       (if ss_stack s = [] then Some (s, False)
        else
          let idx = restored_stack_idx s
          in case ss_master s of
               None \<Rightarrow> Some (s, False)
             | Some old_master \<Rightarrow> do {
                 (new_master, st) \<leftarrow> vec_remove idx (ss_stack s);
                 st \<leftarrow> vec_insert idx old_master st;
                 Some (update_tile_sizes E (s\<lparr>ss_master := Some new_master, ss_stack := st,
                   ss_focus := FocusStack idx\<rparr>), True) })
   | _ \<Rightarrow> Some (s, False))"

definition move_down :: "scrolling_space \<Rightarrow> (scrolling_space \<times> bool) option" where
  "move_down s = (case ss_focus s of
     FocusStack idx \<Rightarrow>
       (if idx + 1 < length (ss_stack s) then do {
          st \<leftarrow> vec_swap idx (idx + 1) (ss_stack s);
          Some (s\<lparr>ss_stack := st, ss_focus := FocusStack (idx + 1)\<rparr>, True) }
        else Some (s, False))
   | _ \<Rightarrow> Some (s, False))"

definition move_up :: "scrolling_space \<Rightarrow> (scrolling_space \<times> bool) option" where
  "move_up s = (case ss_focus s of
     FocusStack idx \<Rightarrow>
       (if idx > 0 then do {
          st \<leftarrow> vec_swap idx (idx - 1) (ss_stack s);
          Some (s\<lparr>ss_stack := st, ss_focus := FocusStack (idx - 1)\<rparr>, True) }
        else Some (s, False))
   | _ \<Rightarrow> Some (s, False))"

definition swap_with_spring ::
  "env \<Rightarrow> (scrolling_space \<Rightarrow> (scrolling_space \<times> bool) option) \<Rightarrow> scrolling_space \<Rightarrow>
     (scrolling_space \<times> bool) option" where
  "swap_with_spring E mutate s = do {
     let pre = slot_positions (\<lambda>_. True) s;
     (s, ok) \<leftarrow> mutate s;
     if \<not> ok then Some (s, False) else do { s \<leftarrow> spring_all E pre s; Some (s, True) } }"

definition move_left_animated where "move_left_animated E = swap_with_spring E (move_left E)"
definition move_right_animated where "move_right_animated E = swap_with_spring E (move_right E)"
definition move_up_animated where "move_up_animated E = swap_with_spring E move_up"
definition move_down_animated where "move_down_animated E = swap_with_spring E move_down"

definition move_column_to_first :: "env \<Rightarrow> scrolling_space \<Rightarrow> scrolling_space option" where
  "move_column_to_first E s = (case ss_focus s of
     FocusStack _ \<Rightarrow> map_option fst (move_left E s) | _ \<Rightarrow> Some s)"

definition move_column_to_last :: "scrolling_space \<Rightarrow> scrolling_space option" where
  "move_column_to_last s = (case ss_focus s of
     FocusStack idx \<Rightarrow>
       (if idx + 1 < length (ss_stack s) then do {
          (col, st) \<leftarrow> vec_remove idx (ss_stack s);
          let st = st @ [col];
          Some (s\<lparr>ss_stack := st, ss_focus := FocusStack (length st - 1)\<rparr>) }
        else Some s)
   | _ \<Rightarrow> Some s)"

datatype scroll_direction = ScrollLeft | ScrollRight

definition swap_window_in_direction ::
  "env \<Rightarrow> scroll_direction \<Rightarrow> scrolling_space \<Rightarrow> scrolling_space option" where
  "swap_window_in_direction E d s =
     map_option fst (case d of ScrollLeft \<Rightarrow> move_left E s | ScrollRight \<Rightarrow> move_right E s)"

text \<open>These end in \<open>todo!()\<close>.\<close>

definition consume_or_expel_window_left :: "scrolling_space \<Rightarrow> scrolling_space option" where
  "consume_or_expel_window_left s = None"
definition consume_or_expel_window_right :: "scrolling_space \<Rightarrow> scrolling_space option" where
  "consume_or_expel_window_right s = None"
definition consume_into_column :: "scrolling_space \<Rightarrow> scrolling_space option" where
  "consume_into_column s = None"
definition expel_from_column :: "scrolling_space \<Rightarrow> scrolling_space option" where
  "expel_from_column s = None"

subsection \<open>Sizing\<close>

definition nudge_master_ratio :: "env \<Rightarrow> f64 \<Rightarrow> scrolling_space \<Rightarrow> scrolling_space option" where
  "nudge_master_ratio E delta s =
    (let new_ratio = f_clamp (ss_master_ratio s + delta) 0.15 0.85
     in if \<bar>new_ratio - ss_master_ratio s\<bar> < 1 / 10 ^ 6 then Some s
        else
          let pre = slot_positions (\<lambda>_. True) s;
              s = update_tile_sizes E (s\<lparr>ss_master_ratio := new_ratio\<rparr>)
          in spring_all E pre s)"

text \<open>A column by its position in \<open>columns()\<close>, to change it; \<open>expect\<close> panics when it is not there.\<close>

definition column_mut_by_unified_idx :: "nat \<Rightarrow> scrolling_space \<Rightarrow> column option" where
  "column_mut_by_unified_idx i s = (if i = 0 then ss_master s else vec_get (ss_stack s) (i - 1))"

definition update_column_at ::
  "nat \<Rightarrow> (column \<Rightarrow> column \<times> bool) \<Rightarrow> scrolling_space \<Rightarrow> (scrolling_space \<times> bool) option" where
  "update_column_at i f s = do {
     c \<leftarrow> column_mut_by_unified_idx i s;
     let (c, changed) = f c;
     Some (if i = 0 then s\<lparr>ss_master := Some c\<rparr> else s\<lparr>ss_stack := (ss_stack s)[i - 1 := c]\<rparr>, changed) }"

definition ss_set_fullscreen ::
  "env \<Rightarrow> nat \<Rightarrow> bool \<Rightarrow> scrolling_space \<Rightarrow> (scrolling_space \<times> bool) option" where
  "ss_set_fullscreen E window is_fullscreen s =
    (case position (\<lambda>c. column_id c = window) (columns s) of
       None \<Rightarrow> Some (s, False)
     | Some i \<Rightarrow> do {
         (s, changed) \<leftarrow> update_column_at i (column_set_fullscreen E is_fullscreen) s;
         Some (if is_fullscreen then s else update_tile_sizes E s, changed) })"

definition ss_set_maximized ::
  "env \<Rightarrow> nat \<Rightarrow> bool \<Rightarrow> scrolling_space \<Rightarrow> (scrolling_space \<times> bool) option" where
  "ss_set_maximized E window maximize s =
    (case position (\<lambda>c. column_id c = window) (columns s) of
       None \<Rightarrow> Some (s, False)
     | Some i \<Rightarrow> do {
         (s, changed) \<leftarrow> update_column_at i (column_set_maximized E maximize (rsize (ss_working_area s))) s;
         Some (if maximize then s else update_tile_sizes E s, changed) })"

definition render_above_top_layer :: "scrolling_space \<Rightarrow> bool" where
  "render_above_top_layer s \<longleftrightarrow>
     (case ss_master s of Some c \<Rightarrow> co_is_pending_fullscreen c | None \<Rightarrow> False) \<or>
     list_ex co_is_pending_fullscreen (ss_stack s)"

definition refresh_window :: "env \<Rightarrow> bool \<Rightarrow> isize \<Rightarrow> mapped \<Rightarrow> mapped" where
  "refresh_window E activated bounds w =
     win_send_pending_configure E (win_set_bounds bounds (win_set_interactive_resize None
       (win_set_activated activated (win_set_active_in_column True (win_set_floating False w)))))"

definition ss_refresh :: "env \<Rightarrow> bool \<Rightarrow> bool \<Rightarrow> scrolling_space \<Rightarrow> scrolling_space" where
  "ss_refresh E is_active is_focused s =
    (let active = active_column_idx s; bounds = size_to_i32_round E (rsize (ss_working_area s))
     in with_columns (\<lambda>cs. map (\<lambda>(col_idx, c).
          c\<lparr>co_tile := (co_tile c)\<lparr>tl_window := refresh_window E
              (is_active \<and> is_focused \<and> Some col_idx = active) bounds (tl_window (co_tile c))\<rparr>\<rparr>)
          (enumerate 0 cs)) s)"

subsection \<open>Queries\<close>

definition tiles_with_render_positions :: "scrolling_space \<Rightarrow> (tile \<times> point \<times> bool) list" where
  "tiles_with_render_positions s =
     map (\<lambda>((_, pos, _), c). (co_tile c, pos, True)) (zip (column_layout s) (columns s))"

definition active_window_visual_rectangle :: "scrolling_space \<Rightarrow> rect option" where
  "active_window_visual_rectangle s = do {
     active_idx \<leftarrow> active_column_idx s;
     (_, pos, sz) \<leftarrow> find (\<lambda>(i, _, _). i = active_idx) (column_layout s);
     Some \<lparr>rloc = pos, rsize = sz\<rparr> }"

definition popup_target_rect :: "nat \<Rightarrow> scrolling_space \<Rightarrow> rect option" where
  "popup_target_rect window s = do {
     i \<leftarrow> position (\<lambda>c. column_id c = window) (columns s);
     (_, pos, sz) \<leftarrow> find (\<lambda>(j, _, _). j = i) (column_layout s);
     Some \<lparr>rloc = pos, rsize = sz\<rparr> }"

datatype insert_position = NewColumn nat | InColumn nat nat | InsertFloating

definition ss_insert_position :: "scrolling_space \<Rightarrow> insert_position" where
  "ss_insert_position s = (if ss_master s = None then NewColumn 0 else NewColumn (length (ss_stack s) + 1))"

section \<open>The skeleton of a space\<close>

text \<open>What is left of a space when the contents of the tiles, apart from the identity of their
  windows, are forgotten. Size requests, animations, commits and refreshes do not change it.\<close>

definition column_key :: "column \<Rightarrow> nat \<times> column_width \<times> bool \<times> bool \<times> bool" where
  "column_key c = (column_id c, co_width c, co_is_full_width c, co_is_pending_fullscreen c,
     co_is_pending_maximized c)"

definition skeleton where
  "skeleton s = (map_option column_key (ss_master s), map column_key (ss_stack s),
     s\<lparr>ss_master := None, ss_stack := []\<rparr>)"

named_theorems skel "operations that keep the skeleton"

lemma columns_with:
  "length (f (columns s)) = length (columns s) \<Longrightarrow> columns (with_columns f s) = f (columns s)"
  by (auto simp: columns_def with_columns_def split: option.splits list.splits)

lemma with_columns_sel [simp]:
  "ss_focus (with_columns f s) = ss_focus s"
  "ss_last_stack_idx (with_columns f s) = ss_last_stack_idx s"
  "ss_master_ratio (with_columns f s) = ss_master_ratio s"
  "ss_view_size (with_columns f s) = ss_view_size s"
  "ss_working_area (with_columns f s) = ss_working_area s"
  "ss_parent_area (with_columns f s) = ss_parent_area s"
  "ss_scale (with_columns f s) = ss_scale s"
  "ss_options (with_columns f s) = ss_options s"
  by (simp_all add: with_columns_def split: option.split list.split)

lemma skeleton_with_columns:
  "map column_key (f (columns s)) = map column_key (columns s) \<Longrightarrow> skeleton (with_columns f s) = skeleton s"
  by (cases s) (auto simp: skeleton_def columns_def with_columns_def split: option.splits list.splits)

lemma map_columns:
  "map g (columns s) = (case map_option g (ss_master s) of Some k \<Rightarrow> [k] | None \<Rightarrow> []) @ map g (ss_stack s)"
  by (simp add: columns_def split: option.split)

lemma skeleton_sel:
  assumes "skeleton s = skeleton s'"
  shows "ss_focus s = ss_focus s'" "ss_last_stack_idx s = ss_last_stack_idx s'"
    "ss_master_ratio s = ss_master_ratio s'" "ss_view_size s = ss_view_size s'"
    "ss_working_area s = ss_working_area s'" "ss_parent_area s = ss_parent_area s'"
    "ss_scale s = ss_scale s'" "ss_options s = ss_options s'"
    "(ss_master s = None) = (ss_master s' = None)" "length (ss_stack s) = length (ss_stack s')"
    "map column_key (columns s) = map column_key (columns s')"
    "map_option column_key (ss_master s) = map_option column_key (ss_master s')"
    "map column_key (ss_stack s) = map column_key (ss_stack s')"
proof -
  have m: "map_option column_key (ss_master s) = map_option column_key (ss_master s')"
    and st: "map column_key (ss_stack s) = map column_key (ss_stack s')"
    and r: "s\<lparr>ss_master := None, ss_stack := []\<rparr> = s'\<lparr>ss_master := None, ss_stack := []\<rparr>"
    using assms unfolding skeleton_def prod.inject by blast+
  show "ss_focus s = ss_focus s'" using arg_cong[OF r, of ss_focus] by simp
  show "ss_last_stack_idx s = ss_last_stack_idx s'" using arg_cong[OF r, of ss_last_stack_idx] by simp
  show "ss_master_ratio s = ss_master_ratio s'" using arg_cong[OF r, of ss_master_ratio] by simp
  show "ss_view_size s = ss_view_size s'" using arg_cong[OF r, of ss_view_size] by simp
  show "ss_working_area s = ss_working_area s'" using arg_cong[OF r, of ss_working_area] by simp
  show "ss_parent_area s = ss_parent_area s'" using arg_cong[OF r, of ss_parent_area] by simp
  show "ss_scale s = ss_scale s'" using arg_cong[OF r, of ss_scale] by simp
  show "ss_options s = ss_options s'" using arg_cong[OF r, of ss_options] by simp
  show "(ss_master s = None) = (ss_master s' = None)" using m by (metis option.map_disc_iff)
  show "length (ss_stack s) = length (ss_stack s')" using st by (rule map_eq_imp_length_eq)
  show "map column_key (columns s) = map column_key (columns s')" unfolding map_columns m st ..
  show "map_option column_key (ss_master s) = map_option column_key (ss_master s')" by (rule m)
  show "map column_key (ss_stack s) = map column_key (ss_stack s')" by (rule st)
qed

lemma map_column_id: "map column_id cs = map fst (map column_key cs)"
  by (simp add: column_key_def)

lemma column_key_id: "map column_key cs = map column_key cs' \<Longrightarrow> map column_id cs = map column_id cs'"
  unfolding map_column_id by (rule arg_cong)

lemma column_layout_length: "length (column_layout s) = length (columns s)"
  by (auto simp: column_layout_def columns_def Let_def split: option.split)

lemma skeleton_layout:
  assumes "skeleton s = skeleton s'"
  shows "column_layout s = column_layout s'"
proof -
  have "(case ss_master s of Some _ \<Rightarrow> x | None \<Rightarrow> y) = (case ss_master s' of Some _ \<Rightarrow> x | None \<Rightarrow> y)"
    for x y :: "(nat \<times> point \<times> size) list"
    using skeleton_sel(9)[OF assms] by (cases "ss_master s"; cases "ss_master s'") simp_all
  with skeleton_sel(3,5,8,10)[OF assms] show ?thesis
    unfolding column_layout_def by (simp only:)
qed

lemma column_key_tile: "tile_id t = column_id c \<Longrightarrow> column_key (c\<lparr>co_tile := t\<rparr>) = column_key c"
  by (simp add: column_key_def)

lemma map_zip_key:
  "length xs = length cs \<Longrightarrow> (\<And>x c. column_key (g (x, c)) = column_key c) \<Longrightarrow>
     map column_key (map g (zip xs cs)) = map column_key cs"
  by (induction xs cs rule: list_induct2) auto

lemma update_tile_sizes_skel [skel]: "skeleton (update_tile_sizes E s) = skeleton s"
  unfolding update_tile_sizes_def
  by (rule skeleton_with_columns, rule map_zip_key)
     (simp_all add: column_layout_length column_key_tile tile_simps split: prod.split)

lemma update_first_keys:
  "update_first i f cs = Some cs' \<Longrightarrow> (\<And>t t'. f t = Some t' \<Longrightarrow> tile_id t' = tile_id t) \<Longrightarrow>
     map column_key cs' = map column_key cs"
  by (induction cs arbitrary: cs')
     (auto simp: column_key_def bind_eq_Some_conv split: if_splits)

lemma update_column_by_id_skel:
  assumes "update_column_by_id i f s = Some s'" and "\<And>t t'. f t = Some t' \<Longrightarrow> tile_id t' = tile_id t"
  shows "skeleton s' = skeleton s"
proof -
  from assms(1) obtain cs where cs: "update_first i f (columns s) = Some cs" "s' = with_columns (\<lambda>_. cs) s"
    by (auto simp: update_column_by_id_def bind_eq_Some_conv)
  then show ?thesis using update_first_keys[OF cs(1) assms(2)] by (simp add: skeleton_with_columns)
qed

lemma spring_tile_id: "spring_tile E cfg d t = Some t' \<Longrightarrow> tile_id t' = tile_id t"
  by (auto simp: spring_tile_def bind_eq_Some_conv dest!: animate_move_id split: if_splits)

lemma spring_all_skel: "spring_all E pre s = Some s' \<Longrightarrow> skeleton s' = skeleton s"
proof (induction E pre s rule: spring_all.induct)
  case (2 E i old_pos pre s)
  show ?case
  proof (cases "slot_of i s")
    case None
    with 2 show ?thesis by simp
  next
    case (Some new_pos)
    show ?thesis
    proof (cases "\<bar>pt_x (pt_sub old_pos new_pos)\<bar> < 0.5 \<and> \<bar>pt_y (pt_sub old_pos new_pos)\<bar> < 0.5")
      case True
      have "spring_all E ((i, old_pos) # pre) s = spring_all E pre s"
        using Some True by (simp only: spring_all.simps option.case Let_def simp_thms if_True)
      with 2(2)[OF Some refl refl True] 2(4) show ?thesis by simp
    next
      case False
      let ?cfg = "ao_tile_movement (op_animations (ss_options s))"
      have eq: "spring_all E ((i, old_pos) # pre) s = do {
          s1 \<leftarrow> update_column_by_id i (spring_tile E ?cfg (pt_sub old_pos new_pos)) s; spring_all E pre s1 }"
        using Some False by (simp only: spring_all.simps option.case Let_def simp_thms if_False)
      then obtain s1 where s1: "update_column_by_id i (spring_tile E ?cfg (pt_sub old_pos new_pos)) s = Some s1"
          "spring_all E pre s1 = Some s'"
        using 2(4) by (auto simp: bind_eq_Some_conv)
      have "skeleton s1 = skeleton s"
        using update_column_by_id_skel[OF s1(1)] spring_tile_id by blast
      with 2(3)[OF Some refl refl False s1] show ?thesis by simp
    qed
  qed
qed simp

lemma advance_skel [skel]: "skeleton (ss_advance_animations E s) = skeleton s"
  unfolding ss_advance_animations_def
  by (rule skeleton_with_columns) (simp add: column_key_def comp_def tile_simps)

lemma refresh_skel [skel]: "skeleton (ss_refresh E a f s) = skeleton s"
  unfolding ss_refresh_def Let_def enumerate_eq_zip
  by (rule skeleton_with_columns, rule map_zip_key)
     (simp_all add: column_key_tile refresh_window_def win_simps)

lemma update_window_skel: "ss_update_window E w c s = Some s' \<Longrightarrow> skeleton s' = skeleton s"
  unfolding ss_update_window_def
  by (erule update_column_by_id_skel)
     (auto simp: win_simps dest!: tile_update_window_id split: option.splits)

lemma open_animation_skel: "ss_start_open_animation E w s = Some (s', b) \<Longrightarrow> skeleton s' = skeleton s"
  unfolding ss_start_open_animation_def
  by (auto simp: bind_eq_Some_conv dest: start_open_animation_id elim!: update_column_by_id_skel)

end
