(* ===== verification/MasterStackSpec.thy ===== *)
theory MasterStackSpec
  imports MasterStack
begin

text \<open>
  What the master-stack engine promises: its invariant (the assertions of \<open>verify_invariants\<close> and the
  ones the code relies on), and a refinement of its operations to a list of windows, master first,
  with a cursor.
\<close>

section \<open>The invariant\<close>

definition focus_ok :: "scrolling_space \<Rightarrow> bool" where
  "focus_ok s \<longleftrightarrow> (case ss_focus s of
     FocusEmpty \<Rightarrow> ss_master s = None \<and> ss_stack s = []
   | FocusMaster \<Rightarrow> ss_master s \<noteq> None
   | FocusStack i \<Rightarrow> i < length (ss_stack s))"

definition ss_ids :: "scrolling_space \<Rightarrow> nat list" where
  "ss_ids s = map column_id (columns s)"

definition takeover_free :: "column \<Rightarrow> bool" where
  "takeover_free c \<longleftrightarrow> \<not> co_is_pending_fullscreen c \<and> \<not> co_is_pending_maximized c"

definition ss_inv :: "env \<Rightarrow> scrolling_space \<Rightarrow> bool" where
  "ss_inv E s \<longleftrightarrow>
     focus_ok s \<and> (ss_master s = None \<longrightarrow> ss_stack s = []) \<and> distinct (ss_ids s) \<and>
     0.15 \<le> ss_master_ratio s \<and> ss_master_ratio s \<le> 0.85 \<and>
     list_all (\<lambda>c. \<not> (co_is_pending_fullscreen c \<and> co_is_pending_maximized c)) (columns s) \<and>
     ss_working_area s = compute_working_area E (ss_parent_area s) (ss_scale s)
       (lo_struts (op_layout (ss_options s)))"

lemma skeleton_ids: "skeleton s = skeleton s' \<Longrightarrow> ss_ids s = ss_ids s'"
  unfolding ss_ids_def by (intro column_key_id skeleton_sel)

lemma not_both_key:
  "list_all (\<lambda>c. \<not> (co_is_pending_fullscreen c \<and> co_is_pending_maximized c)) cs =
   list_all (\<lambda>(_, _, _, f, m). \<not> (f \<and> m)) (map column_key cs)"
  by (simp add: list_all_iff column_key_def)

lemma skeleton_inv:
  assumes "skeleton s = skeleton s'"
  shows "ss_inv E s = ss_inv E s'"
proof -
  note k = skeleton_sel[OF assms]
  have st: "(ss_stack s = []) = (ss_stack s' = [])" using k(10) by (metis length_0_conv)
  have "focus_ok s = focus_ok s'"
    unfolding focus_ok_def k(1) k(9) k(10) st ..
  note f = this
  show ?thesis
    unfolding ss_inv_def skeleton_ids[OF assms] k(3) k(5) k(6) k(7) k(8) k(9) st not_both_key k(11) f ..
qed

section \<open>The abstract list with a cursor\<close>

definition ss_abs :: "scrolling_space \<Rightarrow> nat list \<times> nat option" where
  "ss_abs s = (ss_ids s, active_column_idx s)"

lemma skeleton_abs:
  assumes "skeleton s = skeleton s'"
  shows "ss_abs s = ss_abs s'"
  unfolding ss_abs_def active_column_idx_def skeleton_ids[OF assms] skeleton_sel(1)[OF assms] ..

lemma inv_columns:
  assumes "ss_inv E s"
  shows "columns s = (case ss_master s of Some c \<Rightarrow> c # ss_stack s | None \<Rightarrow> [])"
  using assms by (auto simp: columns_def ss_inv_def split: option.split)

lemma inv_cursor:
  assumes "ss_inv E s"
  shows "case active_column_idx s of None \<Rightarrow> columns s = [] \<and> focused_column s = None
     | Some k \<Rightarrow> k < length (columns s) \<and> focused_column s = Some (columns s ! k)"
  using assms
  by (auto simp: ss_inv_def focus_ok_def columns_def active_column_idx_def focused_column_def vec_get_def
      split: focus.splits option.splits)

lemma ids_nth: "i < length (columns s) \<Longrightarrow> ss_ids s ! i = column_id (columns s ! i)"
  by (simp add: ss_ids_def)

text \<open>The operations on the abstract state. The third component of \<open>spec_swap\<close> is what is remembered.\<close>

definition list_swap :: "nat \<Rightarrow> nat \<Rightarrow> 'a list \<Rightarrow> 'a list" where
  "list_swap i j xs = xs[i := xs ! j, j := xs ! i]"

definition spec_move_left :: "nat list \<times> nat option \<Rightarrow> nat list \<times> nat option" where
  "spec_move_left a = (case a of (ids, Some (Suc k)) \<Rightarrow> (list_swap 0 (Suc k) ids, Some 0) | _ \<Rightarrow> a)"

definition spec_move_right :: "nat \<Rightarrow> nat list \<times> nat option \<Rightarrow> nat list \<times> nat option" where
  "spec_move_right row a = (case a of
     (ids, Some 0) \<Rightarrow> if Suc row < length ids then (list_swap 0 (Suc row) ids, Some (Suc row)) else a
   | _ \<Rightarrow> a)"

definition spec_move_down :: "nat list \<times> nat option \<Rightarrow> nat list \<times> nat option" where
  "spec_move_down a = (case a of
     (ids, Some (Suc k)) \<Rightarrow> if Suc (Suc k) < length ids
        then (list_swap (Suc k) (Suc (Suc k)) ids, Some (Suc (Suc k))) else a
   | _ \<Rightarrow> a)"

definition spec_move_up :: "nat list \<times> nat option \<Rightarrow> nat list \<times> nat option" where
  "spec_move_up a = (case a of
     (ids, Some (Suc (Suc k))) \<Rightarrow> (list_swap (Suc (Suc k)) (Suc k) ids, Some (Suc k))
   | _ \<Rightarrow> a)"

text \<open>Removal: the cursor stays on its window; when that is the one removed, it moves to the one above,
  and from the top of the stack to the next in the stack, or else to the master.\<close>

definition cursor_after_remove :: "nat \<Rightarrow> nat \<Rightarrow> nat option \<Rightarrow> nat option" where
  "cursor_after_remove n i cur = (case cur of
     None \<Rightarrow> None
   | Some j \<Rightarrow>
       if n \<le> 1 then None
       else if j < i then Some j
       else if i < j then Some (j - 1)
       else if j = 0 then Some 0
       else if j = 1 then Some (if n = 2 then 0 else 1)
       else Some (j - 1))"

definition list_remove :: "nat \<Rightarrow> 'a list \<Rightarrow> 'a list" where
  "list_remove i xs = take i xs @ drop (Suc i) xs"

definition spec_remove :: "nat \<Rightarrow> nat list \<times> nat option \<Rightarrow> nat list \<times> nat option" where
  "spec_remove i a = (list_remove i (fst a), cursor_after_remove (length (fst a)) i (snd a))"

definition spec_add :: "nat \<Rightarrow> bool \<Rightarrow> nat list \<times> nat option \<Rightarrow> nat list \<times> nat option" where
  "spec_add i activate a =
     (fst a @ [i], if activate \<or> snd a = None then Some (length (fst a)) else snd a)"

section \<open>Removing a column\<close>

lemma remove_insert_update:
  "k < length xs \<Longrightarrow> take k (list_remove k xs) @ y # drop k (list_remove k xs) = xs[k := y]"
  by (simp add: list_remove_def min_def upd_conv_take_nth_drop)

lemma vec_remove_insert:
  assumes "k < length xs"
  shows "vec_remove k xs = Some (xs ! k, list_remove k xs)"
    and "vec_insert k y (list_remove k xs) = Some (xs[k := y])"
proof -
  show "vec_remove k xs = Some (xs ! k, list_remove k xs)"
    using assms by (simp add: vec_remove_def list_remove_def)
  have "k \<le> length (list_remove k xs)" using assms by (simp add: list_remove_def)
  then show "vec_insert k y (list_remove k xs) = Some (xs[k := y])"
    unfolding vec_insert_def remove_insert_update[OF assms] by simp
qed

lemma list_remove_Cons: "list_remove (Suc i) (x # xs) = x # list_remove i xs"
  by (simp add: list_remove_def)

lemma length_list_remove: "i < length xs \<Longrightarrow> length (list_remove i xs) = length xs - 1"
  by (simp add: list_remove_def min_def)

lemma map_list_remove: "map f (list_remove i xs) = list_remove i (map f xs)"
  by (simp add: list_remove_def take_map drop_map)

lemma set_list_remove: "set (list_remove i xs) \<subseteq> set xs"
  by (auto simp: list_remove_def dest: in_set_takeD in_set_dropD)

lemma distinct_list_remove: "distinct xs \<Longrightarrow> distinct (list_remove i xs)"
  unfolding list_remove_def
  by (simp add: set_take_disj_set_drop_if_distinct)

lemma update_focus_sel [simp]:
  "ss_master (update_focus_after_removal i s) = ss_master s"
  "ss_stack (update_focus_after_removal i s) = ss_stack s"
  "ss_last_stack_idx (update_focus_after_removal i s) = ss_last_stack_idx s"
  "ss_master_ratio (update_focus_after_removal i s) = ss_master_ratio s"
  "ss_view_size (update_focus_after_removal i s) = ss_view_size s"
  "ss_working_area (update_focus_after_removal i s) = ss_working_area s"
  "ss_parent_area (update_focus_after_removal i s) = ss_parent_area s"
  "ss_scale (update_focus_after_removal i s) = ss_scale s"
  "ss_options (update_focus_after_removal i s) = ss_options s"
  "columns (update_focus_after_removal i s) = columns s"
  by (simp_all add: update_focus_after_removal_def columns_def Let_def split: focus.split)

lemma remove_column_columns:
  assumes "ss_inv E s" and "remove_column_at i s = Some (c, s')"
  shows "i < length (columns s) \<and> c = columns s ! i \<and> columns s' = list_remove i (columns s) \<and>
    (ss_master s' = None \<longrightarrow> ss_stack s' = []) \<and> ss_last_stack_idx s' = ss_last_stack_idx s \<and>
    ss_master_ratio s' = ss_master_ratio s \<and> ss_working_area s' = ss_working_area s \<and>
    ss_parent_area s' = ss_parent_area s \<and> ss_scale s' = ss_scale s \<and> ss_options s' = ss_options s"
proof (cases "i = 0")
  case True
  with assms(2) obtain m where m: "ss_master s = Some m"
    by (auto simp: remove_column_at_def bind_eq_Some_conv)
  with assms True show ?thesis
    by (cases "ss_stack s") (auto simp: remove_column_at_def columns_def list_remove_def)
next
  case False
  then obtain k where k: "i = Suc k" by (cases i) auto
  with assms(2) have st: "k < length (ss_stack s)" "c = ss_stack s ! k"
    and s': "s' = update_focus_after_removal i (s\<lparr>ss_stack := list_remove k (ss_stack s)\<rparr>)"
    by (auto simp: remove_column_at_def bind_eq_Some_conv vec_remove_def list_remove_def split: if_splits)
  then obtain m where "ss_master s = Some m" using assms(1) by (auto simp: ss_inv_def)
  with st s' k show ?thesis by (simp add: columns_def list_remove_Cons)
qed

text \<open>The focus after a removal, against the unified index.\<close>

lemma remove_column_focus:
  assumes inv: "ss_inv E s" and r: "remove_column_at i s = Some (c, s')"
  shows "active_column_idx s' = cursor_after_remove (length (columns s)) i (active_column_idx s) \<and> focus_ok s'"
proof -
  from inv have f: "focus_ok s" and ms: "ss_master s = None \<Longrightarrow> ss_stack s = []"
    by (simp_all add: ss_inv_def)
  show ?thesis
  proof (cases "i = 0")
    case True
    with r obtain m where m: "ss_master s = Some m"
      by (auto simp: remove_column_at_def bind_eq_Some_conv)
    show ?thesis
    proof (cases "ss_stack s")
      case Nil
      with m r True have "s' = update_focus_after_removal 0 (s\<lparr>ss_master := None\<rparr>)"
        by (simp add: remove_column_at_def Let_def)
      with f m Nil True show ?thesis
        by (auto simp: update_focus_after_removal_def focus_ok_def columns_def
            active_column_idx_def cursor_after_remove_def split: focus.splits)
    next
      case (Cons x xs)
      with m r True have s': "s' = update_focus_after_removal 0 (s\<lparr>ss_master := Some x, ss_stack := xs\<rparr>)"
        by (simp add: remove_column_at_def Let_def)
      show ?thesis
        using f m Cons True unfolding s'
        by (auto simp: update_focus_after_removal_def focus_ok_def columns_def
            active_column_idx_def cursor_after_remove_def Let_def split: focus.splits)
    qed
  next
    case False
    then obtain k where k: "i = Suc k" by (cases i) auto
    with r have st: "k < length (ss_stack s)"
      and s': "s' = update_focus_after_removal i (s\<lparr>ss_stack := list_remove k (ss_stack s)\<rparr>)"
      by (auto simp: remove_column_at_def bind_eq_Some_conv vec_remove_def list_remove_def split: if_splits)
    then obtain m where m: "ss_master s = Some m" using ms by fastforce
    have n: "length (list_remove k (ss_stack s)) = length (ss_stack s) - 1"
      using st by (rule length_list_remove)
    have n0: "(list_remove k (ss_stack s) = []) = (length (ss_stack s) = 1)"
      using n st by (cases "list_remove k (ss_stack s)") auto
    show ?thesis
      using f m st n n0 unfolding s'
      by (auto simp: k update_focus_after_removal_def focus_ok_def columns_def Let_def
          active_column_idx_def cursor_after_remove_def split: focus.splits)
  qed
qed

lemma remove_column_total:
  assumes "ss_inv E s" "i < length (columns s)"
  shows "\<exists>c s'. remove_column_at i s = Some (c, s')"
  using assms inv_columns[OF assms(1)]
  by (auto simp: remove_column_at_def vec_remove_def Let_def split: option.splits)

lemma remove_column_inv:
  assumes "ss_inv E s" and "remove_column_at i s = Some (c, s')"
  shows "ss_inv E s'"
proof -
  note c = remove_column_columns[OF assms] and f = remove_column_focus[OF assms]
  from assms(1) have d: "distinct (ss_ids s)"
    and b: "list_all (\<lambda>c. \<not> (co_is_pending_fullscreen c \<and> co_is_pending_maximized c)) (columns s)"
    by (simp_all add: ss_inv_def)
  have "distinct (ss_ids s')"
    using d c by (simp add: ss_ids_def map_list_remove distinct_list_remove)
  moreover have "list_all (\<lambda>c. \<not> (co_is_pending_fullscreen c \<and> co_is_pending_maximized c)) (columns s')"
    using b c set_list_remove by (fastforce simp: list_all_iff)
  ultimately show ?thesis using assms(1) c f by (simp add: ss_inv_def)
qed

lemma take_column_cases:
  assumes "take_column_at E i s = Some (c, s')"
  obtains s0 where "remove_column_at i s = Some (c, s0)" "skeleton s' = skeleton s0"
  using assms
  by (auto simp: take_column_at_def bind_eq_Some_conv dest!: spring_all_skel intro: that simp: skel)

lemma take_column_inv: "ss_inv E s \<Longrightarrow> take_column_at E' i s = Some (c, s') \<Longrightarrow> ss_inv E s'"
  by (erule take_column_cases) (simp add: remove_column_inv skeleton_inv[of s'])

lemma take_column_abs:
  assumes "ss_inv E s" "take_column_at E' i s = Some (c, s')"
  shows "ss_abs s' = spec_remove i (ss_abs s) \<and> i < length (columns s) \<and> c = columns s ! i"
proof -
  obtain s0 where s0: "remove_column_at i s = Some (c, s0)" "skeleton s' = skeleton s0"
    using assms(2) by (rule take_column_cases)
  note r = remove_column_columns[OF assms(1) s0(1)] remove_column_focus[OF assms(1) s0(1)]
  then show ?thesis
    unfolding skeleton_abs[OF s0(2)] by (simp add: ss_abs_def spec_remove_def ss_ids_def map_list_remove)
qed

section \<open>Moving\<close>

lemma mset_list_swap: "i < length xs \<Longrightarrow> j < length xs \<Longrightarrow> mset (list_swap i j xs) = mset xs"
  by (simp add: list_swap_def mset_swap)

lemma map_list_swap: "i < length xs \<Longrightarrow> j < length xs \<Longrightarrow> map f (list_swap i j xs) = list_swap i j (map f xs)"
  by (simp add: list_swap_def map_update)

lemma length_list_swap [simp]: "length (list_swap i j xs) = length xs"
  by (simp add: list_swap_def)

text \<open>A state that differs in the order of the columns and in a valid focus only.\<close>

lemma inv_perm:
  assumes "ss_inv E s" and "mset (columns s') = mset (columns s)" and "focus_ok s'"
    and "ss_master s' = None \<longrightarrow> ss_stack s' = []"
    and "ss_master_ratio s' = ss_master_ratio s" "ss_working_area s' = ss_working_area s"
    "ss_parent_area s' = ss_parent_area s" "ss_scale s' = ss_scale s" "ss_options s' = ss_options s"
  shows "ss_inv E s'"
proof -
  have "mset (ss_ids s') = mset (ss_ids s)" using arg_cong[OF assms(2), of "image_mset column_id"] by (simp add: ss_ids_def)
  then have "distinct (ss_ids s') = distinct (ss_ids s)" by (rule mset_eq_imp_distinct_iff)
  moreover have "set (columns s') = set (columns s)" using assms(2) by (rule mset_eq_setD)
  ultimately show ?thesis using assms by (simp add: ss_inv_def list_all_iff)
qed

lemma move_left_eq:
  assumes "ss_inv E s" "ss_focus s = FocusStack k"
  obtains m where "ss_master s = Some m" "k < length (ss_stack s)"
    "move_left E' s = Some (update_tile_sizes E' (s\<lparr>ss_stack := (ss_stack s)[k := m],
       ss_master := Some (ss_stack s ! k), ss_focus := FocusMaster, ss_last_stack_idx := Some k\<rparr>), True)"
proof -
  from assms obtain m where m: "ss_master s = Some m" "k < length (ss_stack s)"
    by (cases "ss_master s") (auto simp: ss_inv_def focus_ok_def)
  then show thesis
    by (intro that[OF m]) (simp add: move_left_def assms(2) vec_remove_insert[OF m(2)])
qed

lemma move_right_eq:
  assumes "ss_inv E s" "ss_focus s = FocusMaster" "ss_stack s \<noteq> []"
  obtains m where "ss_master s = Some m" "restored_stack_idx s < length (ss_stack s)"
    "move_right E' s = Some (update_tile_sizes E' (s\<lparr>ss_master := Some (ss_stack s ! restored_stack_idx s),
       ss_stack := (ss_stack s)[restored_stack_idx s := m],
       ss_focus := FocusStack (restored_stack_idx s)\<rparr>), True)"
proof -
  from assms obtain m where m: "ss_master s = Some m"
    by (auto simp: ss_inv_def focus_ok_def)
  have k: "restored_stack_idx s < length (ss_stack s)"
    using assms(3) by (auto simp: restored_stack_idx_def split: option.split)
  show thesis
    by (intro that[OF m k]) (simp add: move_right_def assms(2,3) m vec_remove_insert[OF k] Let_def)
qed

lemma swap_Cons:
  "k < length xs \<Longrightarrow> xs ! k # xs[k := x] = list_swap 0 (Suc k) (x # xs)"
  by (simp add: list_swap_def)

lemma moved_left:
  assumes "ss_inv E s" "move_left E' s = Some (s', b)"
  shows "ss_inv E s' \<and> ss_abs s' = spec_move_left (ss_abs s)"
proof (cases "ss_focus s")
  case (FocusStack k)
  obtain m where m: "ss_master s = Some m" "k < length (ss_stack s)"
    and mv: "move_left E' s = Some (update_tile_sizes E' (s\<lparr>ss_stack := (ss_stack s)[k := m],
       ss_master := Some (ss_stack s ! k), ss_focus := FocusMaster, ss_last_stack_idx := Some k\<rparr>), True)"
    by (rule move_left_eq[OF assms(1) FocusStack])
  let ?s = "s\<lparr>ss_stack := (ss_stack s)[k := m], ss_master := Some (ss_stack s ! k),
    ss_focus := FocusMaster, ss_last_stack_idx := Some k\<rparr>"
  have c: "columns ?s = list_swap 0 (Suc k) (columns s)"
    using m by (simp add: columns_def swap_Cons)
  have k: "0 < length (columns s)" "Suc k < length (columns s)" using m by (simp_all add: columns_def)
  have "skeleton s' = skeleton ?s" using mv assms(2) by (auto simp: skel)
  moreover have "ss_inv E ?s"
    by (rule inv_perm[OF assms(1)]) (simp_all add: c mset_list_swap[OF k] focus_ok_def)
  moreover have "ss_abs ?s = spec_move_left (ss_abs s)"
    using k by (simp add: ss_abs_def ss_ids_def c map_list_swap active_column_idx_def FocusStack
        spec_move_left_def)
  ultimately show ?thesis using skeleton_inv[of s' ?s] skeleton_abs[of s' ?s] by simp
qed (use assms in \<open>auto simp: move_left_def spec_move_left_def ss_abs_def active_column_idx_def\<close>)

lemma moved_right:
  assumes "ss_inv E s" "move_right E' s = Some (s', b)"
  shows "ss_inv E s' \<and> ss_abs s' = spec_move_right (restored_stack_idx s) (ss_abs s)"
proof (cases "ss_focus s = FocusMaster \<and> ss_stack s \<noteq> []")
  case True
  let ?k = "restored_stack_idx s"
  obtain m where m: "ss_master s = Some m" "?k < length (ss_stack s)"
    and mv: "move_right E' s = Some (update_tile_sizes E' (s\<lparr>ss_master := Some (ss_stack s ! ?k),
       ss_stack := (ss_stack s)[?k := m], ss_focus := FocusStack ?k\<rparr>), True)"
    using move_right_eq[OF assms(1)] True by metis
  let ?s = "s\<lparr>ss_master := Some (ss_stack s ! ?k), ss_stack := (ss_stack s)[?k := m],
    ss_focus := FocusStack ?k\<rparr>"
  have c: "columns ?s = list_swap 0 (Suc ?k) (columns s)"
    using m by (simp add: columns_def swap_Cons)
  have k: "0 < length (columns s)" "Suc ?k < length (columns s)" using m by (simp_all add: columns_def)
  have "skeleton s' = skeleton ?s" using mv assms(2) by (auto simp: skel)
  moreover have "ss_inv E ?s"
    by (rule inv_perm[OF assms(1)]) (use m in \<open>simp_all add: c mset_list_swap[OF k] focus_ok_def\<close>)
  moreover have "ss_abs ?s = spec_move_right ?k (ss_abs s)"
    using k True by (simp add: ss_abs_def ss_ids_def c map_list_swap active_column_idx_def
        spec_move_right_def)
  ultimately show ?thesis using skeleton_inv[of s' ?s] skeleton_abs[of s' ?s] by simp
next
  case False
  have "length (ss_ids s) \<le> Suc 0" if "ss_focus s = FocusMaster"
    using that False by (simp add: ss_ids_def columns_def split: option.split)
  moreover have "s' = s"
    using False assms(2) by (auto simp: move_right_def split: focus.splits)
  ultimately show ?thesis
    using assms(1) by (auto simp: spec_move_right_def ss_abs_def active_column_idx_def split: focus.split)
qed

lemma swap_stack:
  assumes "ss_inv E s" "ss_focus s = FocusStack i" "j < length (ss_stack s)"
  defines "s' \<equiv> s\<lparr>ss_stack := (ss_stack s)[i := ss_stack s ! j, j := ss_stack s ! i], ss_focus := FocusStack j\<rparr>"
  shows "ss_inv E s' \<and> ss_abs s' = (list_swap (Suc i) (Suc j) (ss_ids s), Some (Suc j))"
proof -
  from assms(1,2) obtain m where m: "ss_master s = Some m" "i < length (ss_stack s)"
    by (cases "ss_master s") (auto simp: ss_inv_def focus_ok_def)
  have c: "columns s' = list_swap (Suc i) (Suc j) (columns s)"
    using m assms(3) by (simp add: s'_def columns_def list_swap_def)
  have k: "Suc i < length (columns s)" "Suc j < length (columns s)"
    using m assms(3) by (simp_all add: columns_def)
  have "ss_inv E s'"
    by (rule inv_perm[OF assms(1)]) (use m assms(3) c mset_list_swap[OF k] in \<open>simp_all add: focus_ok_def s'_def\<close>)
  moreover have "ss_abs s' = (list_swap (Suc i) (Suc j) (ss_ids s), Some (Suc j))"
    unfolding ss_abs_def ss_ids_def c map_list_swap[OF k] by (simp add: s'_def active_column_idx_def)
  ultimately show ?thesis ..
qed

lemma inv_stack_idx: "ss_inv E s \<Longrightarrow> ss_focus s = FocusStack i \<Longrightarrow> i < length (ss_stack s)"
  by (simp add: ss_inv_def focus_ok_def)

lemma inv_ids_length:
  "ss_inv E s \<Longrightarrow> length (ss_ids s) = (if ss_master s = None then 0 else Suc (length (ss_stack s)))"
  by (auto simp: ss_ids_def columns_def ss_inv_def split: option.split)

lemma moved_down:
  assumes "ss_inv E s" "move_down s = Some (s', b)"
  shows "ss_inv E s' \<and> ss_abs s' = spec_move_down (ss_abs s)"
proof (cases "ss_focus s")
  case (FocusStack i)
  note i = inv_stack_idx[OF assms(1) FocusStack]
  have n: "length (ss_ids s) = Suc (length (ss_stack s))"
    using inv_ids_length[OF assms(1)] i assms(1) by (auto simp: ss_inv_def)
  show ?thesis
  proof (cases "i + 1 < length (ss_stack s)")
    case True
    then have "s' = s\<lparr>ss_stack := (ss_stack s)[i := ss_stack s ! (i + 1), i + 1 := ss_stack s ! i],
        ss_focus := FocusStack (i + 1)\<rparr>"
      using assms(2) FocusStack by (auto simp: move_down_def bind_eq_Some_conv vec_simps)
    then show ?thesis
      using swap_stack[OF assms(1) FocusStack True] True n
      by (simp add: spec_move_down_def ss_abs_def[of s] active_column_idx_def FocusStack)
  next
    case False
    with assms FocusStack n show ?thesis
      by (auto simp: move_down_def spec_move_down_def ss_abs_def active_column_idx_def)
  qed
qed (use assms in \<open>auto simp: move_down_def spec_move_down_def ss_abs_def active_column_idx_def\<close>)

lemma moved_up:
  assumes "ss_inv E s" "move_up s = Some (s', b)"
  shows "ss_inv E s' \<and> ss_abs s' = spec_move_up (ss_abs s)"
proof (cases "ss_focus s")
  case (FocusStack i)
  note i = inv_stack_idx[OF assms(1) FocusStack]
  show ?thesis
  proof (cases i)
    case 0
    with assms FocusStack show ?thesis
      by (auto simp: move_up_def spec_move_up_def ss_abs_def active_column_idx_def)
  next
    case (Suc j)
    with i have j: "j < length (ss_stack s)" by simp
    have "s' = s\<lparr>ss_stack := (ss_stack s)[i := ss_stack s ! j, j := ss_stack s ! i],
        ss_focus := FocusStack j\<rparr>"
      using assms(2) FocusStack Suc by (auto simp: move_up_def bind_eq_Some_conv vec_simps)
    then show ?thesis
      using swap_stack[OF assms(1) FocusStack j] Suc
      by (simp add: spec_move_up_def ss_abs_def[of s] active_column_idx_def FocusStack)
  qed
qed (use assms in \<open>auto simp: move_up_def spec_move_up_def ss_abs_def active_column_idx_def\<close>)

lemma swap_with_spring_cases:
  assumes "swap_with_spring E mutate s = Some (s', b)"
  obtains s0 where "mutate s = Some (s0, b)" "skeleton s' = skeleton s0"
  using assms
  by (auto simp: swap_with_spring_def bind_eq_Some_conv intro: that dest!: spring_all_skel split: if_splits)

lemma swap_with_spring_moved:
  assumes "swap_with_spring E' mutate s = Some (s', b)"
    and "\<And>s0 b. mutate s = Some (s0, b) \<Longrightarrow> ss_inv E s0 \<and> ss_abs s0 = a"
  shows "ss_inv E s' \<and> ss_abs s' = a"
proof -
  obtain s0 where "mutate s = Some (s0, b)" "skeleton s' = skeleton s0"
    using assms(1) by (rule swap_with_spring_cases)
  with assms(2) show ?thesis using skeleton_inv[of s' s0] skeleton_abs[of s' s0] by auto
qed

section \<open>Adding\<close>

lemma columns_with_map: "columns (with_columns (map f) s) = map f (columns s)"
  by (simp add: columns_with)

lemma with_columns_none [simp]: "(ss_master (with_columns f s) = None) = (ss_master s = None)"
  by (auto simp: with_columns_def split: option.split list.split)

lemma with_columns_stack: "ss_master s = None \<Longrightarrow> ss_stack s = [] \<Longrightarrow> ss_stack (with_columns (map f) s) = []"
  by (simp add: with_columns_def)

lemma with_columns_stack_length: "length (ss_stack (with_columns (map f) s)) = length (ss_stack s)"
  by (auto simp: with_columns_def split: option.split list.split)

lemma column_set_id [simp]:
  "column_id (fst (column_set_fullscreen E b c)) = column_id c"
  "column_id (fst (column_set_maximized E b sz c)) = column_id c"
  by (simp_all add: column_set_fullscreen_def column_set_maximized_def Let_def tile_simps)

lemma column_clear_takeover:
  "takeover_free (fst (column_set_maximized E False sz (fst (column_set_fullscreen E False c))))"
  by (simp add: takeover_free_def column_set_fullscreen_def column_set_maximized_def Let_def)

lemma column_update_config_key [simp]:
  "column_key (column_update_config vs wa pa sc opts c) = column_key c"
  by (simp add: column_update_config_def column_key_def tile_simps)

lemma key_id: "column_key c = column_key c' \<Longrightarrow> column_id c = column_id c'"
  by (simp add: column_key_def)

lemma key_free: "column_key c = column_key c' \<Longrightarrow> takeover_free c = takeover_free c'"
  by (simp add: column_key_def takeover_free_def)

text \<open>The state \<open>add_column\<close> builds before it asks for sizes.\<close>

lemma added_column:
  assumes inv: "ss_inv E s"
  obtains s0 col' where "skeleton (add_column E' col act s) = skeleton s0"
    and "columns s0 = map (\<lambda>c. fst (column_set_maximized E' False (rsize (ss_working_area s))
           (fst (column_set_fullscreen E' False c)))) (columns s) @ [col']"
    and "column_key col' = column_key col" and "focus_ok s0" "ss_master s0 \<noteq> None"
    and "active_column_idx s0 =
       (if act \<or> active_column_idx s = None then Some (length (columns s)) else active_column_idx s)"
    and "ss_master_ratio s0 = ss_master_ratio s" "ss_working_area s0 = ss_working_area s"
    "ss_parent_area s0 = ss_parent_area s" "ss_scale s0 = ss_scale s" "ss_options s0 = ss_options s"
    "ss_last_stack_idx s0 = ss_last_stack_idx s"
proof -
  let ?f = "\<lambda>c. fst (column_set_maximized E' False (rsize (ss_working_area s))
           (fst (column_set_fullscreen E' False c)))"
  let ?col = "column_update_config (ss_view_size s) (ss_working_area s) (ss_parent_area s) (ss_scale s)
    (ss_options s) col"
  define s1 where "s1 = with_columns (map ?f) s"
  have foc: "ss_focus s1 = ss_focus s" "(ss_master s1 = None) = (ss_master s = None)"
    "length (ss_stack s1) = length (ss_stack s)" "columns s1 = map ?f (columns s)"
    by (simp_all add: s1_def columns_with_map with_columns_stack_length)
  show thesis
  proof (cases "ss_master s")
    case None
    with inv have st: "ss_stack s = []" and fo: "ss_focus s = FocusEmpty"
      by (auto simp: ss_inv_def focus_ok_def split: focus.splits)
    have st1: "ss_stack s1 = []" using foc(3) st by simp
    have m1: "ss_master s1 = None" using None foc(2) by simp
    have add: "add_column E' col act s = update_tile_sizes E' (s1\<lparr>ss_master := Some ?col, ss_focus := FocusMaster\<rparr>)"
      unfolding add_column_def Let_def s1_def[symmetric]
      by (simp add: foc(1) m1 fo) (simp add: s1_def)
    show thesis
      by (rule that[of "s1\<lparr>ss_master := Some ?col, ss_focus := FocusMaster\<rparr>" ?col])
         (use None st st1 fo in \<open>simp_all add: add skel columns_def active_column_idx_def focus_ok_def, simp_all add: s1_def\<close>)
  next
    case (Some m)
    then obtain m1 where m1: "ss_master s1 = Some m1" using foc(2) by auto
    have fo: "ss_focus s \<noteq> FocusEmpty" using inv Some by (auto simp: ss_inv_def focus_ok_def)
    define s2 where "s2 = s1\<lparr>ss_stack := ss_stack s1 @ [?col]\<rparr>"
    define s3 where "s3 = (if act then s2\<lparr>ss_focus := FocusStack (length (ss_stack s))\<rparr> else s2)"
    have add: "add_column E' col act s = update_tile_sizes E' s3"
      unfolding add_column_def Let_def s1_def[symmetric] s3_def s2_def
      by (simp add: m1 foc(1,3) fo) (simp add: s1_def)
    have sel: "ss_master s3 = Some m1" "ss_stack s3 = ss_stack s1 @ [?col]"
      "ss_focus s3 = (if act then FocusStack (length (ss_stack s)) else ss_focus s)"
      by (simp_all add: s3_def s2_def m1 foc(1))
    have c: "columns s3 = columns s1 @ [?col]" using m1 by (simp add: columns_def sel)
    have n: "length (columns s) = Suc (length (ss_stack s))" using Some by (simp add: columns_def)
    have fok: "focus_ok s3"
      using inv foc(3) fo by (auto simp: ss_inv_def focus_ok_def sel split: focus.splits)
    have cur: "active_column_idx s3 = (if act \<or> active_column_idx s = None then Some (length (columns s))
        else active_column_idx s)"
      using fo n by (auto simp: active_column_idx_def sel split: focus.split)
    show thesis
      by (rule that[of s3 ?col])
         (simp_all only: add skel c foc(4) fok cur sel, simp_all add: s3_def s2_def s1_def)
  qed
qed

lemma added_abs:
  assumes "ss_inv E s"
  shows "ss_abs (add_column E' col act s) = spec_add (column_id col) act (ss_abs s)"
proof -
  obtain s0 col' where s0: "skeleton (add_column E' col act s) = skeleton s0"
    and c: "columns s0 = map (\<lambda>c. fst (column_set_maximized E' False (rsize (ss_working_area s))
           (fst (column_set_fullscreen E' False c)))) (columns s) @ [col']"
    and k: "column_key col' = column_key col"
    and cur: "active_column_idx s0 =
       (if act \<or> active_column_idx s = None then Some (length (columns s)) else active_column_idx s)"
    by (rule added_column[OF assms, of E' col act])
  show ?thesis
    unfolding skeleton_abs[OF s0]
    using key_id[OF k] by (simp add: ss_abs_def spec_add_def ss_ids_def c cur comp_def)
qed

definition not_both :: "column \<Rightarrow> bool" where
  "not_both c \<longleftrightarrow> \<not> (co_is_pending_fullscreen c \<and> co_is_pending_maximized c)"

lemma inv_not_both: "ss_inv E s \<Longrightarrow> list_all not_both (columns s)"
  by (simp add: ss_inv_def not_both_def[abs_def])

lemma not_both_set [simp]:
  "not_both c \<Longrightarrow> not_both (fst (column_set_fullscreen E b c))"
  "not_both c \<Longrightarrow> not_both (fst (column_set_maximized E b sz c))"
  by (auto simp: not_both_def column_set_fullscreen_def column_set_maximized_def Let_def)

lemma column_new_not_both: "not_both (column_new_with_tile E t vs wa pa sc w f)"
  by (simp add: column_new_with_tile_def not_both_def column_set_fullscreen_def column_set_maximized_def
      Let_def split: sizing_mode.split)

lemma column_new_id [simp]: "column_id (column_new_with_tile E t vs wa pa sc w f) = tile_id t"
  by (simp add: column_new_with_tile_def Let_def split: sizing_mode.split)

lemma inv_alt:
  "ss_inv E s \<longleftrightarrow> focus_ok s \<and> (ss_master s = None \<longrightarrow> ss_stack s = []) \<and> distinct (ss_ids s) \<and>
     0.15 \<le> ss_master_ratio s \<and> ss_master_ratio s \<le> 0.85 \<and> list_all not_both (columns s) \<and>
     ss_working_area s = compute_working_area E (ss_parent_area s) (ss_scale s)
       (lo_struts (op_layout (ss_options s)))"
  by (simp add: ss_inv_def not_both_def[abs_def])

lemma added_inv:
  assumes "ss_inv E s" "column_id col \<notin> set (ss_ids s)" "not_both col"
  shows "ss_inv E (add_column E' col act s) \<and>
    (\<forall>i < length (columns s). takeover_free (columns (add_column E' col act s) ! i)) \<and>
    length (columns (add_column E' col act s)) = Suc (length (columns s))"
proof -
  let ?a = "add_column E' col act s"
  let ?f = "\<lambda>c. fst (column_set_maximized E' False (rsize (ss_working_area s))
           (fst (column_set_fullscreen E' False c)))"
  obtain s0 col' where s0: "skeleton ?a = skeleton s0"
    and c: "columns s0 = map ?f (columns s) @ [col']" and k: "column_key col' = column_key col"
    and m: "focus_ok s0" "ss_master s0 \<noteq> None"
    and sel: "ss_master_ratio s0 = ss_master_ratio s" "ss_working_area s0 = ss_working_area s"
    "ss_parent_area s0 = ss_parent_area s" "ss_scale s0 = ss_scale s" "ss_options s0 = ss_options s"
    by (rule added_column[OF assms(1), of E' col act])
  have "not_both col'" using k assms(3) by (simp add: column_key_def not_both_def)
  moreover have "list_all not_both (map ?f (columns s))"
    using inv_not_both[OF assms(1)] by (auto simp: list_all_iff)
  moreover have "distinct (ss_ids s0)"
    using assms(1,2) key_id[OF k] by (simp add: ss_ids_def c comp_def ss_inv_def)
  ultimately have "ss_inv E s0"
    using assms(1) m unfolding inv_alt sel by (auto simp: c)
  then have inv: "ss_inv E ?a" unfolding skeleton_inv[OF s0] .
  note keys = skeleton_sel(11)[OF s0]
  have n: "length (columns ?a) = length (columns s0)" using keys by (rule map_eq_imp_length_eq)
  have "takeover_free (columns ?a ! i)" if i: "i < length (columns s)" for i
  proof -
    have "column_key (columns ?a ! i) = column_key (columns s0 ! i)"
      using keys i n by (metis c length_append length_map nth_map trans_less_add1)
    moreover have "columns s0 ! i = ?f (columns s ! i)" using i by (simp add: c nth_append)
    ultimately show ?thesis using column_clear_takeover key_free by metis
  qed
  with inv n show ?thesis by (simp add: c)
qed

section \<open>Setting one column\<close>

lemma length_columns: "length (columns s) = (if ss_master s = None then 0 else 1) + length (ss_stack s)"
  by (auto simp: columns_def split: option.split)

lemma with_columns_stack_len:
  "length (f (columns s)) = length (columns s) \<Longrightarrow> length (ss_stack (with_columns f s)) = length (ss_stack s)"
  using columns_with[of f s] length_columns[of s] length_columns[of "with_columns f s"] by simp

lemma update_column_at_Some:
  assumes "ss_inv E s" "i < length (columns s)"
  shows "update_column_at i f s =
    Some (with_columns (\<lambda>cs. cs[i := fst (f (columns s ! i))]) s, snd (f (columns s ! i)))"
proof (cases "ss_master s")
  case None
  then show ?thesis using assms by (simp add: ss_inv_def columns_def)
next
  case (Some m)
  then show ?thesis using assms(2)
    by (cases i) (simp_all add: update_column_at_def column_mut_by_unified_idx_def columns_def with_columns_def vec_get_def
        case_prod_beta)
qed

lemma update_column_at_columns:
  assumes "ss_inv E s" "i < length (columns s)" "update_column_at i f s = Some (s', b)"
  shows "columns s' = (columns s)[i := fst (f (columns s ! i))] \<and> b = snd (f (columns s ! i)) \<and>
     ss_focus s' = ss_focus s \<and> (ss_master s' = None) = (ss_master s = None) \<and>
     length (ss_stack s') = length (ss_stack s) \<and>
     ss_master_ratio s' = ss_master_ratio s \<and> ss_working_area s' = ss_working_area s \<and>
     ss_parent_area s' = ss_parent_area s \<and> ss_scale s' = ss_scale s \<and> ss_options s' = ss_options s"
  using assms(3) with_columns_stack_len[of "\<lambda>cs. cs[i := fst (f (columns s ! i))]" s]
    columns_with[of "\<lambda>cs. cs[i := fst (f (columns s ! i))]" s]
  by (auto simp: update_column_at_Some[OF assms(1,2)])

lemma list_all_update: "list_all P xs \<Longrightarrow> P x \<Longrightarrow> list_all P (xs[i := x])"
  unfolding list_all_iff using set_update_subset_insert[of xs i x] by blast

lemma update_column_at_inv:
  assumes "ss_inv E s" "update_column_at i f s = Some (s', b)" "i < length (columns s)"
    and "column_id (fst (f (columns s ! i))) = column_id (columns s ! i)"
    and "not_both (fst (f (columns s ! i)))"
  shows "ss_inv E s' \<and> ss_abs s' = ss_abs s"
proof -
  note u = update_column_at_columns[OF assms(1,3,2)]
  have ids: "ss_ids s' = ss_ids s"
    using u assms(3,4) by (simp add: ss_ids_def map_update list_update_same_conv)
  have fo: "focus_ok s'"
    using assms(1) u by (auto simp: ss_inv_def focus_ok_def split: focus.splits)
  have nb: "list_all not_both (columns s')"
    using list_all_update[OF inv_not_both[OF assms(1)] assms(5)] u by simp
  have "ss_master s' = None \<longrightarrow> ss_stack s' = []"
    using assms(1) u by (auto simp: ss_inv_def)
  with assms(1) u ids fo nb have "ss_inv E s'" by (simp add: inv_alt)
  moreover have "ss_abs s' = ss_abs s" using u ids by (simp add: ss_abs_def active_column_idx_def)
  ultimately show ?thesis ..
qed

text \<open>The position both operations look up is one of \<open>columns()\<close>, so \<open>expect\<close> holds.\<close>

lemma set_fullscreen_inv:
  assumes "ss_inv E s"
  shows "\<exists>s' ch. ss_set_fullscreen E' w b s = Some (s', ch) \<and> ss_inv E s' \<and> ss_abs s' = ss_abs s"
proof (cases "position (\<lambda>c. column_id c = w) (columns s)")
  case None
  then show ?thesis using assms by (auto simp: ss_set_fullscreen_def)
next
  case (Some i)
  note i = position_length[OF Some]
  obtain s1 ch1 where u: "update_column_at i (column_set_fullscreen E' b) s = Some (s1, ch1)"
    using update_column_at_Some[OF assms i] by blast
  have "columns s ! i \<in> set (columns s)" using i by simp
  then have "not_both (columns s ! i)" using inv_not_both[OF assms] by (simp add: list_all_iff)
  then have "ss_inv E s1 \<and> ss_abs s1 = ss_abs s" by (intro update_column_at_inv[OF assms u i]) simp_all
  moreover have "ss_set_fullscreen E' w b s = Some (if b then s1 else update_tile_sizes E' s1, ch1)"
    using u Some by (simp add: ss_set_fullscreen_def)
  moreover have "skeleton (if b then s1 else update_tile_sizes E' s1) = skeleton s1" by (simp add: skel)
  ultimately show ?thesis using skeleton_inv skeleton_abs by metis
qed

lemma set_maximized_inv:
  assumes "ss_inv E s"
  shows "\<exists>s' ch. ss_set_maximized E' w b s = Some (s', ch) \<and> ss_inv E s' \<and> ss_abs s' = ss_abs s"
proof (cases "position (\<lambda>c. column_id c = w) (columns s)")
  case None
  then show ?thesis using assms by (auto simp: ss_set_maximized_def)
next
  case (Some i)
  note i = position_length[OF Some]
  obtain s1 ch1 where u: "update_column_at i (column_set_maximized E' b (rsize (ss_working_area s))) s = Some (s1, ch1)"
    using update_column_at_Some[OF assms i] by blast
  have "columns s ! i \<in> set (columns s)" using i by simp
  then have "not_both (columns s ! i)" using inv_not_both[OF assms] by (simp add: list_all_iff)
  then have "ss_inv E s1 \<and> ss_abs s1 = ss_abs s" by (intro update_column_at_inv[OF assms u i]) simp_all
  moreover have "ss_set_maximized E' w b s = Some (if b then s1 else update_tile_sizes E' s1, ch1)"
    using u Some by (simp add: ss_set_maximized_def)
  moreover have "skeleton (if b then s1 else update_tile_sizes E' s1) = skeleton s1" by (simp add: skel)
  ultimately show ?thesis using skeleton_inv skeleton_abs by metis
qed

section \<open>Focus\<close>

text \<open>A new focus among the columns there are.\<close>

lemma refocus:
  assumes "ss_inv E s" and "s' = s\<lparr>ss_focus := f\<rparr> \<or> s' = s\<lparr>ss_last_stack_idx := l, ss_focus := f\<rparr>"
    and "case f of FocusEmpty \<Rightarrow> columns s = [] | FocusMaster \<Rightarrow> ss_master s \<noteq> None
       | FocusStack i \<Rightarrow> i < length (ss_stack s)"
  shows "ss_inv E s' \<and> ss_ids s' = ss_ids s"
proof -
  have c: "columns s' = columns s" "ss_master s' = ss_master s" "ss_stack s' = ss_stack s" "ss_focus s' = f"
    "ss_master_ratio s' = ss_master_ratio s" "ss_working_area s' = ss_working_area s"
    "ss_parent_area s' = ss_parent_area s" "ss_scale s' = ss_scale s" "ss_options s' = ss_options s"
    using assms(2) by (auto simp: columns_def)
  have "focus_ok s'"
    using assms(3) by (auto simp: focus_ok_def c columns_def split: focus.splits option.splits)
  then show ?thesis using assms(1) unfolding inv_alt ss_ids_def c by blast
qed

lemma focus_ops_inv:
  assumes "ss_inv E s"
  shows "ss_inv E (fst (focus_left s)) \<and> ss_ids (fst (focus_left s)) = ss_ids s"
    "ss_inv E (fst (focus_right s)) \<and> ss_ids (fst (focus_right s)) = ss_ids s"
    "ss_inv E (focus_column_first s) \<and> ss_ids (focus_column_first s) = ss_ids s"
    "ss_inv E (focus_column_last s) \<and> ss_ids (focus_column_last s) = ss_ids s"
    "ss_inv E (focus_column k s) \<and> ss_ids (focus_column k s) = ss_ids s"
    "ss_inv E (fst (focus_down s)) \<and> ss_ids (fst (focus_down s)) = ss_ids s"
    "ss_inv E (fst (focus_up s)) \<and> ss_ids (fst (focus_up s)) = ss_ids s"
    "ss_inv E (focus_top s) \<and> ss_ids (focus_top s) = ss_ids s"
    "ss_inv E (focus_bottom s) \<and> ss_ids (focus_bottom s) = ss_ids s"
    "ss_inv E (fst (ss_activate_window w s)) \<and> ss_ids (fst (ss_activate_window w s)) = ss_ids s"
proof -
  note R = refocus[OF assms]
  note F = inv_stack_idx[OF assms]
  show "ss_inv E (fst (focus_left s)) \<and> ss_ids (fst (focus_left s)) = ss_ids s"
    using R[OF disjI2, OF refl, of FocusMaster] assms
    by (auto simp: focus_left_def split: focus.split)
  have row: "ss_stack s \<noteq> [] \<Longrightarrow> restored_stack_idx s < length (ss_stack s)"
    by (auto simp: restored_stack_idx_def split: option.split)
  show "ss_inv E (fst (focus_right s)) \<and> ss_ids (fst (focus_right s)) = ss_ids s"
    using R[OF disjI1, OF refl, of "FocusStack (restored_stack_idx s)"] assms row
    by (auto simp: focus_right_def split: focus.split)
  show "ss_inv E (focus_column_first s) \<and> ss_ids (focus_column_first s) = ss_ids s"
    using R[OF disjI1, OF refl, of FocusMaster] assms by (auto simp: focus_column_first_def)
  show "ss_inv E (focus_column_last s) \<and> ss_ids (focus_column_last s) = ss_ids s"
    using R[OF disjI1, OF refl, of FocusMaster] assms
      R[OF disjI1, OF refl, of "FocusStack (length (ss_stack s) - 1)"]
    by (auto simp: focus_column_last_def)
  show "ss_inv E (focus_column k s) \<and> ss_ids (focus_column k s) = ss_ids s"
    using R[OF disjI1, OF refl, of FocusMaster] assms R[OF disjI1, OF refl, of "FocusStack (k - 1)"]
    by (auto simp: focus_column_def)
  show "ss_inv E (fst (focus_down s)) \<and> ss_ids (fst (focus_down s)) = ss_ids s"
    using R[OF disjI1, OF refl, of "FocusStack 0"] assms
      R[OF disjI1, OF refl, of "FocusStack (i + 1)" for i]
    by (auto simp: focus_down_def split: focus.split)
  show "ss_inv E (fst (focus_up s)) \<and> ss_ids (fst (focus_up s)) = ss_ids s"
    using F R[OF disjI1, OF refl, of "FocusStack (i - 1)" for i] assms
    by (auto simp: focus_up_def split: focus.split)
  show "ss_inv E (focus_top s) \<and> ss_ids (focus_top s) = ss_ids s"
    using F R[OF disjI1, OF refl, of "FocusStack 0"] assms
    by (fastforce simp: focus_top_def split: focus.split)
  show "ss_inv E (focus_bottom s) \<and> ss_ids (focus_bottom s) = ss_ids s"
    using R[OF disjI1, OF refl, of "FocusStack (length (ss_stack s) - 1)"] assms
    by (auto simp: focus_bottom_def)
  show "ss_inv E (fst (ss_activate_window w s)) \<and> ss_ids (fst (ss_activate_window w s)) = ss_ids s"
    using R[OF disjI1, OF refl, of FocusMaster] assms R[OF disjI1, OF refl, of "FocusStack i" for i]
    by (auto simp: ss_activate_window_def dest: position_length split: option.split)
qed

lemma or_else_inv:
  assumes "ss_inv E s"
    and "\<And>s. ss_inv E s \<Longrightarrow> ss_inv E (fst (f s)) \<and> ss_ids (fst (f s)) = ss_ids s"
    and "\<And>s. ss_inv E s \<Longrightarrow> ss_inv E (fst (g s)) \<and> ss_ids (fst (g s)) = ss_ids s"
  shows "ss_inv E (or_else f g s) \<and> ss_ids (or_else f g s) = ss_ids s"
proof -
  have 1: "ss_inv E (fst (f s)) \<and> ss_ids (fst (f s)) = ss_ids s" using assms by blast
  with assms(3)[of "fst (f s)"] show ?thesis
    by (simp add: or_else_def Let_def case_prod_beta)
qed

end
