(* ===== verification/MasterStackProps.thy ===== *)
theory MasterStackProps
  imports MasterStackSpec
begin

text \<open>
  The operations of the master-stack engine as one type of commands, the states they reach, and the
  properties: the invariant and the windows it holds, freedom from panics, the refinement to a list
  with a cursor, the geometry of the layout, and the animations.
\<close>

section \<open>Commands\<close>

datatype ms_op =
    AddTile tile bool column_width bool
  | AddTileToColumn tile bool
  | RemoveTile nat
  | RemoveActiveTile
  | RemoveActiveColumn
  | RemoveColumnByIdx nat
  | ActivateWindow nat
  | FocusLeft | FocusRight | FocusColumnFirst | FocusColumnLast | FocusColumn nat
  | FocusDown | FocusUp | FocusDownOrLeft | FocusDownOrRight | FocusUpOrLeft | FocusUpOrRight
  | FocusTop | FocusBottom
  | MoveLeft | MoveRight | MoveDown | MoveUp
  | MoveLeftAnimated | MoveRightAnimated | MoveDownAnimated | MoveUpAnimated
  | MoveColumnToFirst | MoveColumnToLast
  | SwapInDirection scroll_direction
  | ConsumeOrExpelLeft | ConsumeOrExpelRight | ConsumeIntoColumn | ExpelFromColumn
  | NudgeMasterRatio f64
  | SetFullscreen nat bool
  | SetMaximized nat bool
  | UpdateWindow nat "serial option"
  | StartOpenAnimation nat
  | AdvanceAnimations
  | Refresh bool bool
  | UpdateConfig size rect f64 options

fun ms_exec :: "env \<Rightarrow> ms_op \<Rightarrow> scrolling_space \<Rightarrow> scrolling_space option" where
  "ms_exec E (AddTile t a w f) s = Some (ss_add_tile E t a w f s)"
| "ms_exec E (AddTileToColumn t a) s = Some (ss_add_tile_to_column E t a s)"
| "ms_exec E (RemoveTile i) s = map_option snd (ss_remove_tile E i s)"
| "ms_exec E RemoveActiveTile s = map_option snd (ss_remove_active_tile E s)"
| "ms_exec E RemoveActiveColumn s = map_option snd (ss_remove_active_column E s)"
| "ms_exec E (RemoveColumnByIdx k) s = map_option snd (take_column_at E k s)"
| "ms_exec E (ActivateWindow i) s = Some (fst (ss_activate_window i s))"
| "ms_exec E FocusLeft s = Some (fst (focus_left s))"
| "ms_exec E FocusRight s = Some (fst (focus_right s))"
| "ms_exec E FocusColumnFirst s = Some (focus_column_first s)"
| "ms_exec E FocusColumnLast s = Some (focus_column_last s)"
| "ms_exec E (FocusColumn k) s = Some (focus_column k s)"
| "ms_exec E FocusDown s = Some (fst (focus_down s))"
| "ms_exec E FocusUp s = Some (fst (focus_up s))"
| "ms_exec E FocusDownOrLeft s = Some (focus_down_or_left s)"
| "ms_exec E FocusDownOrRight s = Some (focus_down_or_right s)"
| "ms_exec E FocusUpOrLeft s = Some (focus_up_or_left s)"
| "ms_exec E FocusUpOrRight s = Some (focus_up_or_right s)"
| "ms_exec E FocusTop s = Some (focus_top s)"
| "ms_exec E FocusBottom s = Some (focus_bottom s)"
| "ms_exec E MoveLeft s = map_option fst (move_left E s)"
| "ms_exec E MoveRight s = map_option fst (move_right E s)"
| "ms_exec E MoveDown s = map_option fst (move_down s)"
| "ms_exec E MoveUp s = map_option fst (move_up s)"
| "ms_exec E MoveLeftAnimated s = map_option fst (move_left_animated E s)"
| "ms_exec E MoveRightAnimated s = map_option fst (move_right_animated E s)"
| "ms_exec E MoveDownAnimated s = map_option fst (move_down_animated E s)"
| "ms_exec E MoveUpAnimated s = map_option fst (move_up_animated E s)"
| "ms_exec E MoveColumnToFirst s = move_column_to_first E s"
| "ms_exec E MoveColumnToLast s = move_column_to_last s"
| "ms_exec E (SwapInDirection d) s = swap_window_in_direction E d s"
| "ms_exec E ConsumeOrExpelLeft s = consume_or_expel_window_left s"
| "ms_exec E ConsumeOrExpelRight s = consume_or_expel_window_right s"
| "ms_exec E ConsumeIntoColumn s = consume_into_column s"
| "ms_exec E ExpelFromColumn s = expel_from_column s"
| "ms_exec E (NudgeMasterRatio d) s = nudge_master_ratio E d s"
| "ms_exec E (SetFullscreen i b) s = map_option fst (ss_set_fullscreen E i b s)"
| "ms_exec E (SetMaximized i b) s = map_option fst (ss_set_maximized E i b s)"
| "ms_exec E (UpdateWindow i c) s = ss_update_window E i c s"
| "ms_exec E (StartOpenAnimation i) s = map_option fst (ss_start_open_animation E i s)"
| "ms_exec E AdvanceAnimations s = Some (ss_advance_animations E s)"
| "ms_exec E (Refresh a f) s = Some (ss_refresh E a f s)"
| "ms_exec E (UpdateConfig vs pa sc opts) s = Some (ss_update_config E vs pa sc opts s)"

text \<open>The caller does not add a window that is already there.\<close>

fun ms_fresh :: "ms_op \<Rightarrow> scrolling_space \<Rightarrow> bool" where
  "ms_fresh (AddTile t _ _ _) s = (tile_id t \<notin> set (ss_ids s))"
| "ms_fresh (AddTileToColumn t _) s = (tile_id t \<notin> set (ss_ids s))"
| "ms_fresh _ _ = True"

text \<open>What a command does to the windows.\<close>

fun ms_windows :: "ms_op \<Rightarrow> scrolling_space \<Rightarrow> nat multiset" where
  "ms_windows (AddTile t _ _ _) s = add_mset (tile_id t) (mset (ss_ids s))"
| "ms_windows (AddTileToColumn t _) s = add_mset (tile_id t) (mset (ss_ids s))"
| "ms_windows (RemoveTile i) s = mset (ss_ids s) - {#i#}"
| "ms_windows RemoveActiveTile s =
     (case ss_active_window s of Some w \<Rightarrow> mset (ss_ids s) - {#mw_id w#} | None \<Rightarrow> mset (ss_ids s))"
| "ms_windows RemoveActiveColumn s =
     (case ss_active_window s of Some w \<Rightarrow> mset (ss_ids s) - {#mw_id w#} | None \<Rightarrow> mset (ss_ids s))"
| "ms_windows (RemoveColumnByIdx k) s = mset (ss_ids s) - {#ss_ids s ! k#}"
| "ms_windows _ s = mset (ss_ids s)"

section \<open>Invariant and windows\<close>

lemma mset_remove_list: "i < length xs \<Longrightarrow> mset (list_remove i xs) = mset xs - {#xs ! i#}"
  using mset_remove_nth[of i xs, symmetric] by (simp add: list_remove_def)

lemma took_column:
  assumes "ss_inv E s" "take_column_at E' i s = Some (c, s')"
  shows "ss_inv E s' \<and> mset (ss_ids s') = mset (ss_ids s) - {#ss_ids s ! i#} \<and>
    i < length (ss_ids s) \<and> column_id c = ss_ids s ! i"
proof -
  have a: "ss_ids s' = list_remove i (ss_ids s)" "i < length (columns s)" "c = columns s ! i"
    using take_column_abs[OF assms] by (auto simp: ss_abs_def spec_remove_def)
  then show ?thesis
    using take_column_inv[OF assms] by (simp add: mset_remove_list ss_ids_def)
qed

lemma removed_tile:
  assumes "ss_inv E s" "ss_remove_tile E' w s = Some (rt, s')"
  shows "ss_inv E s' \<and> mset (ss_ids s') = mset (ss_ids s) - {#w#} \<and> tile_id (rt_tile rt) = w"
proof -
  obtain i c where i: "position (\<lambda>c. column_id c = w) (columns s) = Some i"
      "take_column_at E' i s = Some (c, s')" "rt_tile rt = co_tile c"
    using assms(2) by (auto simp: ss_remove_tile_def ss_remove_tile_by_idx_def bind_eq_Some_conv)
  have "ss_ids s ! i = w" using position_Some[OF i(1)] by (simp add: ss_ids_def)
  with took_column[OF assms(1) i(2)] i(3) show ?thesis by simp
qed

lemma focused_id:
  assumes "ss_inv E s" "active_column_idx s = Some k"
  shows "k < length (ss_ids s)" "map_option mw_id (ss_active_window s) = Some (ss_ids s ! k)"
  using inv_cursor[OF assms(1)] assms(2) by (auto simp: ss_ids_def ss_active_window_def)

lemma skel_step:
  assumes sk: "skeleton s' = skeleton s" and "ss_inv E s"
  shows "ss_inv E s' \<and> mset (ss_ids s') = mset (ss_ids s)"
  unfolding skeleton_inv[OF sk] skeleton_ids[OF sk] using assms(2) by simp

lemma abs_swap_windows:
  assumes "ss_abs s' = a" "fst a = list_swap i j (ss_ids s)" "i < length (ss_ids s)" "j < length (ss_ids s)"
  shows "mset (ss_ids s') = mset (ss_ids s)"
  using assms by (auto simp: ss_abs_def mset_list_swap)

lemma spec_move_windows:
  assumes c: "snd a = None \<or> (\<exists>k. snd a = Some k \<and> k < length (fst a))"
  shows "mset (fst (spec_move_left a)) = mset (fst a)"
    "mset (fst (spec_move_right r a)) = mset (fst a)"
    "mset (fst (spec_move_down a)) = mset (fst a)"
    "mset (fst (spec_move_up a)) = mset (fst a)"
proof -
  obtain ids cur where a: "a = (ids, cur)" by (cases a)
  have sw: "mset (list_swap i j ids) = mset ids" if "i < length ids" "j < length ids" for i j
    using that by (rule mset_list_swap)
  have k: "k < length ids" if "cur = Some k" for k using c that by (simp add: a)
  show "mset (fst (spec_move_left a)) = mset (fst a)"
    unfolding spec_move_left_def a
    by (auto split: option.split nat.split intro!: sw dest!: k)
  show "mset (fst (spec_move_right r a)) = mset (fst a)"
    unfolding spec_move_right_def a
    by (auto split: option.split nat.split intro!: sw dest!: k)
  show "mset (fst (spec_move_down a)) = mset (fst a)"
    unfolding spec_move_down_def a
    by (auto split: option.split nat.split intro!: sw dest!: k)
  show "mset (fst (spec_move_up a)) = mset (fst a)"
    unfolding spec_move_up_def a
    by (auto split: option.split nat.split intro!: sw dest!: k)
qed

lemma abs_cursor: "ss_inv E s \<Longrightarrow> snd (ss_abs s) = None \<or> (\<exists>k. snd (ss_abs s) = Some k \<and> k < length (fst (ss_abs s)))"
  using inv_cursor[of E s] by (auto simp: ss_abs_def ss_ids_def split: option.splits)

lemma moved_windows:
  assumes "ss_inv E s"
  shows "move_left E' s = Some (s', b) \<Longrightarrow> ss_inv E s' \<and> mset (ss_ids s') = mset (ss_ids s)"
    and "move_right E' s = Some (s', b) \<Longrightarrow> ss_inv E s' \<and> mset (ss_ids s') = mset (ss_ids s)"
    and "move_down s = Some (s', b) \<Longrightarrow> ss_inv E s' \<and> mset (ss_ids s') = mset (ss_ids s)"
    and "move_up s = Some (s', b) \<Longrightarrow> ss_inv E s' \<and> mset (ss_ids s') = mset (ss_ids s)"
proof -
  note a = spec_move_windows[OF abs_cursor[OF assms]]
  have ids: "ss_ids t = fst (ss_abs t)" for t by (simp add: ss_abs_def)
  show "move_left E' s = Some (s', b) \<Longrightarrow> ss_inv E s' \<and> mset (ss_ids s') = mset (ss_ids s)"
    using moved_left[OF assms, of E' s' b] a(1) unfolding ids by auto
  show "move_right E' s = Some (s', b) \<Longrightarrow> ss_inv E s' \<and> mset (ss_ids s') = mset (ss_ids s)"
    using moved_right[OF assms, of E' s' b] a(2) unfolding ids by auto
  show "move_down s = Some (s', b) \<Longrightarrow> ss_inv E s' \<and> mset (ss_ids s') = mset (ss_ids s)"
    using moved_down[OF assms, of s' b] a(3) unfolding ids by auto
  show "move_up s = Some (s', b) \<Longrightarrow> ss_inv E s' \<and> mset (ss_ids s') = mset (ss_ids s)"
    using moved_up[OF assms, of s' b] a(4) unfolding ids by auto
qed

lemma spring_windows:
  assumes "swap_with_spring E' mutate s = Some (s', b)"
    and "\<And>s0 b. mutate s = Some (s0, b) \<Longrightarrow> ss_inv E s0 \<and> mset (ss_ids s0) = mset (ss_ids s)"
  shows "ss_inv E s' \<and> mset (ss_ids s') = mset (ss_ids s)"
proof -
  obtain s0 where s0: "mutate s = Some (s0, b)" and sk: "skeleton s' = skeleton s0"
    using assms(1) by (rule swap_with_spring_cases)
  note a = assms(2)[OF s0]
  have "ss_inv E s' \<and> mset (ss_ids s') = mset (ss_ids s0)" by (rule skel_step[OF sk conjunct1[OF a]])
  with a show ?thesis by simp
qed

lemma moved_to_last:
  assumes "ss_inv E s" "move_column_to_last s = Some s'"
  shows "ss_inv E s' \<and> mset (ss_ids s') = mset (ss_ids s)"
proof (cases "\<exists>i. ss_focus s = FocusStack i \<and> i + 1 < length (ss_stack s)")
  case True
  then obtain i where i: "ss_focus s = FocusStack i" "i + 1 < length (ss_stack s)" by auto
  let ?st = "list_remove i (ss_stack s) @ [ss_stack s ! i]"
  let ?s = "s\<lparr>ss_stack := ?st, ss_focus := FocusStack (length ?st - 1)\<rparr>"
  have s': "s' = ?s"
    using assms(2) i vec_remove_insert(1)[of i "ss_stack s"] by (simp add: move_column_to_last_def Let_def)
  have ms: "mset ?st = mset (ss_stack s)"
    using mset_remove_nth[of i "ss_stack s"] i(2) by (simp add: list_remove_def)
  have mc: "mset (columns ?s) = mset (columns s)" using ms by (simp add: columns_def)
  have inv: "ss_inv E ?s"
    using assms(1) i(2)
    by (intro inv_perm[OF assms(1) mc]) (auto simp: focus_ok_def ss_inv_def)
  have "image_mset column_id (mset (columns ?s)) = image_mset column_id (mset (columns s))" using mc by simp
  with inv show ?thesis unfolding s' by (simp add: ss_ids_def)
next
  case False
  then have "s' = s" using assms(2) by (auto simp: move_column_to_last_def split: focus.splits if_splits)
  with assms(1) show ?thesis by simp
qed

lemma nudged:
  assumes "ss_inv E s" "nudge_master_ratio E' d s = Some s'"
  shows "ss_inv E s' \<and> ss_ids s' = ss_ids s"
proof (cases "\<bar>f_clamp (ss_master_ratio s + d) 0.15 0.85 - ss_master_ratio s\<bar> < 1 / 10 ^ 6")
  case True
  with assms show ?thesis by (simp add: nudge_master_ratio_def Let_def)
next
  case False
  let ?s = "s\<lparr>ss_master_ratio := f_clamp (ss_master_ratio s + d) 0.15 0.85\<rparr>"
  have sk: "skeleton s' = skeleton ?s"
    using assms(2) False by (auto simp: nudge_master_ratio_def Let_def skel dest: spring_all_skel)
  have c: "columns ?s = columns s" by (simp add: columns_def)
  have "focus_ok ?s = focus_ok s" by (simp add: focus_ok_def split: focus.split)
  moreover have "0.15 \<le> f_clamp (ss_master_ratio s + d) 0.15 0.85 \<and> f_clamp (ss_master_ratio s + d) 0.15 0.85 \<le> 0.85"
    by (rule f_clamp_bounds) simp
  ultimately have "ss_inv E ?s"
    using assms(1) unfolding inv_alt ss_ids_def c by simp
  moreover have "ss_ids ?s = ss_ids s" unfolding ss_ids_def c ..
  ultimately show ?thesis
    unfolding skeleton_inv[OF sk] skeleton_ids[OF sk] ..
qed

lemma configured:
  assumes "ss_inv E s" "e_phys_ceil E' = e_phys_ceil E"
  shows "ss_inv E (ss_update_config E' vs pa sc opts s) \<and>
    ss_ids (ss_update_config E' vs pa sc opts s) = ss_ids s"
proof -
  define wa where "wa = compute_working_area E' pa sc (lo_struts (op_layout opts))"
  define s1 where "s1 = with_columns (map (column_update_config vs wa pa sc opts)) s"
  define s2 where "s2 = s1\<lparr>ss_view_size := vs, ss_working_area := wa, ss_parent_area := pa, ss_scale := sc,
    ss_options := opts\<rparr>"
  have sk: "skeleton (ss_update_config E' vs pa sc opts s) = skeleton s2"
    by (simp add: ss_update_config_def Let_def skel s2_def s1_def wa_def)
  have "skeleton s1 = skeleton s"
    unfolding s1_def by (rule skeleton_with_columns) (simp add: comp_def)
  then have s1: "ss_inv E s1" "ss_ids s1 = ss_ids s"
    using skeleton_inv[of s1 s] skeleton_ids[of s1 s] assms(1) by simp_all
  have c: "columns s2 = columns s1" by (simp add: s2_def columns_def)
  have "wa = compute_working_area E pa sc (lo_struts (op_layout opts))"
    by (simp add: wa_def compute_working_area_def assms(2))
  moreover have "focus_ok s2 = focus_ok s1" by (simp add: s2_def focus_ok_def split: focus.split)
  ultimately have "ss_inv E s2"
    using s1(1) unfolding inv_alt ss_ids_def c by (simp add: s2_def)
  then show ?thesis
    unfolding skeleton_inv[OF sk] skeleton_ids[OF sk] using s1(2) by (simp add: ss_ids_def c)
qed

lemma focus_or_ops:
  assumes "ss_inv E s"
  shows "ss_inv E (focus_down_or_left s) \<and> ss_ids (focus_down_or_left s) = ss_ids s"
    "ss_inv E (focus_down_or_right s) \<and> ss_ids (focus_down_or_right s) = ss_ids s"
    "ss_inv E (focus_up_or_left s) \<and> ss_ids (focus_up_or_left s) = ss_ids s"
    "ss_inv E (focus_up_or_right s) \<and> ss_ids (focus_up_or_right s) = ss_ids s"
  unfolding focus_down_or_left_def focus_down_or_right_def focus_up_or_left_def focus_up_or_right_def
  by (rule or_else_inv[OF assms]; rule focus_ops_inv; assumption)+

lemma ms_step:
  assumes inv: "ss_inv E s" and ceil: "e_phys_ceil E' = e_phys_ceil E" and fresh: "ms_fresh op s"
    and ex: "ms_exec E' op s = Some s'"
  shows "ss_inv E s' \<and> mset (ss_ids s') = ms_windows op s"
proof (cases op)
  case (AddTile t a w f)
  have "ss_ids (ss_add_tile E' t a w f s) = ss_ids s @ [tile_id t]"
    using added_abs[OF inv] by (simp add: ss_add_tile_def ss_abs_def spec_add_def)
  with AddTile ex fresh added_inv[OF inv] show ?thesis
    by (auto simp: ss_add_tile_def column_new_not_both)
next
  case (AddTileToColumn t a)
  have "ss_ids (ss_add_tile_to_column E' t a s) = ss_ids s @ [tile_id t]"
    using added_abs[OF inv] by (simp add: ss_add_tile_to_column_def ss_abs_def spec_add_def)
  with AddTileToColumn ex fresh added_inv[OF inv] show ?thesis
    by (auto simp: ss_add_tile_to_column_def column_new_not_both)
next
  case (RemoveTile i)
  with ex removed_tile[OF inv] show ?thesis by fastforce
next
  case RemoveActiveTile
  show ?thesis
  proof (cases "focused_column s")
    case None
    with RemoveActiveTile ex inv show ?thesis by (auto simp: ss_remove_active_tile_def ss_active_window_def)
  next
    case (Some c)
    then obtain rt where "ss_remove_tile E' (column_id c) s = Some (rt, s')"
      using RemoveActiveTile ex by (auto simp: ss_remove_active_tile_def bind_eq_Some_conv)
    from removed_tile[OF inv this] Some RemoveActiveTile show ?thesis by (simp add: ss_active_window_def)
  qed
next
  case RemoveActiveColumn
  show ?thesis
  proof (cases "active_column_idx s")
    case None
    with RemoveActiveColumn ex inv show ?thesis
      by (auto simp: ss_remove_active_column_def active_column_idx_def ss_active_window_def focused_column_def
          split: focus.splits)
  next
    case (Some k)
    then obtain c where "take_column_at E' k s = Some (c, s')"
      using RemoveActiveColumn ex
      by (auto simp: ss_remove_active_column_def active_column_idx_def bind_eq_Some_conv split: focus.splits)
    from took_column[OF inv this] focused_id[OF inv Some] RemoveActiveColumn show ?thesis by auto
  qed
next
  case (RemoveColumnByIdx k)
  with ex took_column[OF inv] show ?thesis by fastforce
next
  case (UpdateConfig vs pa sc opts)
  with ex configured[OF inv ceil] show ?thesis by auto
next
  case (NudgeMasterRatio d)
  with ex nudged[OF inv] show ?thesis by auto
next
  case (SetFullscreen i b)
  with ex set_fullscreen_inv[OF inv, of E' i b] show ?thesis by (auto simp: ss_abs_def)
next
  case (SetMaximized i b)
  with ex set_maximized_inv[OF inv, of E' i b] show ?thesis by (auto simp: ss_abs_def)
next
  case (UpdateWindow i c)
  with ex have "skeleton s' = skeleton s" by (auto dest: update_window_skel)
  from skel_step[OF this inv] UpdateWindow show ?thesis by simp
next
  case (StartOpenAnimation i)
  with ex have "skeleton s' = skeleton s" by (auto dest: open_animation_skel)
  from skel_step[OF this inv] StartOpenAnimation show ?thesis by simp
next
  case (Refresh a f)
  with ex have "skeleton s' = skeleton s" by (auto simp: skel)
  from skel_step[OF this inv] Refresh show ?thesis by simp
next
  case AdvanceAnimations
  with ex have "skeleton s' = skeleton s" by (auto simp: skel)
  from skel_step[OF this inv] AdvanceAnimations show ?thesis by simp
next
  case (SwapInDirection d)
  with ex moved_windows[OF inv] show ?thesis
    by (cases d) (auto simp: swap_window_in_direction_def)
next
  case MoveColumnToFirst
  with ex moved_windows[OF inv] inv show ?thesis
    by (auto simp: move_column_to_first_def split: focus.splits)
next
  case MoveLeftAnimated
  with ex obtain b where "swap_with_spring E' (move_left E') s = Some (s', b)" by (auto simp: move_left_animated_def)
  from spring_windows[OF this moved_windows(1)[OF inv]] MoveLeftAnimated show ?thesis by simp
next
  case MoveRightAnimated
  with ex obtain b where "swap_with_spring E' (move_right E') s = Some (s', b)" by (auto simp: move_right_animated_def)
  from spring_windows[OF this moved_windows(2)[OF inv]] MoveRightAnimated show ?thesis by simp
next
  case MoveDownAnimated
  with ex obtain b where "swap_with_spring E' move_down s = Some (s', b)" by (auto simp: move_down_animated_def)
  from spring_windows[OF this moved_windows(3)[OF inv]] MoveDownAnimated show ?thesis by simp
next
  case MoveUpAnimated
  with ex obtain b where "swap_with_spring E' move_up s = Some (s', b)" by (auto simp: move_up_animated_def)
  from spring_windows[OF this moved_windows(4)[OF inv]] MoveUpAnimated show ?thesis by simp
next
  case (ActivateWindow i)
  with ex focus_ops_inv(10)[OF inv] show ?thesis by auto
next
  case FocusLeft
  with ex focus_ops_inv(1)[OF inv] show ?thesis by auto
next
  case FocusRight
  with ex focus_ops_inv(2)[OF inv] show ?thesis by auto
next
  case FocusColumnFirst
  with ex focus_ops_inv(3)[OF inv] show ?thesis by auto
next
  case FocusColumnLast
  with ex focus_ops_inv(4)[OF inv] show ?thesis by auto
next
  case (FocusColumn k)
  with ex focus_ops_inv(5)[OF inv] show ?thesis by auto
next
  case FocusDown
  with ex focus_ops_inv(6)[OF inv] show ?thesis by auto
next
  case FocusUp
  with ex focus_ops_inv(7)[OF inv] show ?thesis by auto
next
  case FocusTop
  with ex focus_ops_inv(8)[OF inv] show ?thesis by auto
next
  case FocusBottom
  with ex focus_ops_inv(9)[OF inv] show ?thesis by auto
next
  case FocusDownOrLeft
  with ex focus_or_ops(1)[OF inv] show ?thesis by auto
next
  case FocusDownOrRight
  with ex focus_or_ops(2)[OF inv] show ?thesis by auto
next
  case FocusUpOrLeft
  with ex focus_or_ops(3)[OF inv] show ?thesis by auto
next
  case FocusUpOrRight
  with ex focus_or_ops(4)[OF inv] show ?thesis by auto
next
  case MoveLeft
  with ex moved_windows(1)[OF inv] show ?thesis by auto
next
  case MoveRight
  with ex moved_windows(2)[OF inv] show ?thesis by auto
next
  case MoveDown
  with ex moved_windows(3)[OF inv] show ?thesis by auto
next
  case MoveUp
  with ex moved_windows(4)[OF inv] show ?thesis by auto
next
  case MoveColumnToLast
  with ex moved_to_last[OF inv] show ?thesis by simp
qed (use ex in \<open>simp_all add: consume_or_expel_window_left_def consume_or_expel_window_right_def
    consume_into_column_def expel_from_column_def\<close>)

section \<open>Reachable states\<close>

inductive ms_reach :: "env \<Rightarrow> scrolling_space \<Rightarrow> bool" for E where
  ms_start: "ms_reach E (ss_new E vs pa sc opts)"
| ms_next: "ms_reach E s \<Longrightarrow> e_phys_ceil E' = e_phys_ceil E \<Longrightarrow> ms_fresh op s \<Longrightarrow> ms_exec E' op s = Some s' \<Longrightarrow>
     ms_reach E s'"

lemma new_inv: "ss_inv E (ss_new E vs pa sc opts)"
  by (simp add: ss_new_def ss_inv_def focus_ok_def ss_ids_def columns_def)

lemma reach_inv: "ms_reach E s \<Longrightarrow> ss_inv E s"
  by (induction rule: ms_reach.induct) (auto simp: new_inv dest: ms_step)

lemma active_of_inv: "ss_inv E s \<Longrightarrow> (ss_active_window s = None) = ss_is_empty s"
  using inv_cursor[of E s]
  by (auto simp: ss_active_window_def ss_is_empty_def columns_def split: option.splits)

section \<open>No panic\<close>

lemma update_window_total:
  assumes "startable (ao_window_resize (op_animations (tl_options t)))"
  shows "\<exists>t'. tile_update_window E t = Some t'"
proof -
  obtain a where a: "anim_new E 0 1 0 (ao_window_resize (op_animations (tl_options t))) = Some a"
      "restarts_surely a"
    using startable_new[OF assms] by blast
  have p: "\<exists>x. progress_to E a fr to = Some x" for fr to
    using startable_restarts[OF a(2), of E fr to 0] by (auto simp: progress_to_def)
  show ?thesis
  proof (cases "mw_animation_snapshot (tl_window t)")
    case (Some sz)
    have "\<exists>y. do { anim \<leftarrow> anim_new E 0 1 0 (ao_window_resize (op_animations (tl_options t)));
        fp \<leftarrow> progress_to E anim x1 y1; ep \<leftarrow> progress_to E anim x2 y2; Some (f anim fp ep) } = Some y"
      for x1 y1 x2 y2 and f :: "animation \<Rightarrow> animation option \<Rightarrow> animation option \<Rightarrow> tile"
      using p[of x1 y1] p[of x2 y2] by (auto simp: a(1))
    then show ?thesis
      unfolding tile_update_window_def Some Let_def
      by (simp add: case_prod_beta split: option.split)
  qed (simp add: tile_update_window_def Let_def)
qed

lemma open_total:
  "startable (ao_window_open (op_animations (tl_options t))) \<Longrightarrow> \<exists>t'. start_open_animation E t = Some t'"
  using startable_new[of _ E 0 1 0] by (fastforce simp: start_open_animation_def)

definition restartable :: "env \<Rightarrow> move_animation option \<Rightarrow> bool" where
  "restartable E m \<longleftrightarrow> (case m of Some m \<Rightarrow> anim_restarted E 1 0 0 (ma_anim m) \<noteq> None | None \<Rightarrow> True)"

definition movable :: "env \<Rightarrow> column \<Rightarrow> bool" where
  "movable E c \<longleftrightarrow> restartable E (tl_move_x_animation (co_tile c)) \<and> restartable E (tl_move_y_animation (co_tile c))"

definition ss_movable :: "env \<Rightarrow> scrolling_space \<Rightarrow> bool" where
  "ss_movable E s \<longleftrightarrow> anim_new E 1 0 0 (ao_tile_movement (op_animations (ss_options s))) \<noteq> None \<and>
     list_all (movable E) (columns s)"

text \<open>What was started or restarted can be restarted again.\<close>

lemma spring_again: "anim_spring E s = Some a \<Longrightarrow> an_kind a = SpringKind s \<and>
    an_initial_velocity a = spr_initial_velocity s \<and> (\<exists>b. anim_spring E s = Some b)"
  by (auto simp: anim_spring_def bind_eq_Some_conv)

lemma restart_new:
  assumes "anim_new E 1 0 0 cfg = Some a"
  shows "anim_restarted E 1 0 0 a \<noteq> None"
proof (cases "ac_off cfg")
  case True
  with assms show ?thesis by (auto simp: anim_new_def anim_restarted_def Let_def)
next
  case False
  show ?thesis
  proof (cases "ac_kind cfg")
    case (CfgEasing p)
    with False assms show ?thesis
      by (auto simp: anim_new_def anim_replace_config_def anim_restarted_def anim_ease_def Let_def)
  next
    case (CfgSpring p)
    let ?sp = "\<lparr>spr_from = 1, spr_to = 0, spr_initial_velocity = 0, spr_params =
        spring_params_new (csp_damping_ratio p) (real (csp_stiffness p)) (csp_epsilon p)\<rparr>"
    obtain b where b: "anim_spring E ?sp = Some b" "an_kind a = an_kind b"
        "an_initial_velocity a = an_initial_velocity b"
      using False CfgSpring assms
      by (auto simp: anim_new_def anim_replace_config_def anim_ease_def Let_def)
    from spring_again[OF b(1)] b show ?thesis by (simp add: anim_restarted_def Let_def)
  qed
qed

lemma restart_again: "anim_restarted E 1 0 0 a = Some b \<Longrightarrow> anim_restarted E 1 0 0 b \<noteq> None"
  by (auto simp: anim_restarted_def anim_ease_def anim_spring_def anim_decelerate_def Let_def bind_eq_Some_conv
      split: if_splits anim_kind.splits)

lemma move_animation_total:
  assumes "anim_new E 1 0 0 cfg \<noteq> None" "restartable E m"
  shows "\<exists>m'. move_animation_from E d cur cfg m = Some m' \<and> restartable E (Some m')"
proof (cases m)
  case None
  with assms show ?thesis
    by (auto simp: move_animation_from_def restartable_def dest: restart_new)
next
  case (Some a)
  with assms show ?thesis
    by (auto simp: move_animation_from_def restartable_def dest: restart_again)
qed

lemma animate_x_total:
  assumes "anim_new E 1 0 0 cfg \<noteq> None" "restartable E (tl_move_x_animation t)" "restartable E (tl_move_y_animation t)"
  shows "\<exists>t'. animate_move_x_from_with_config E d cfg t = Some t' \<and>
    restartable E (tl_move_x_animation t') \<and> restartable E (tl_move_y_animation t')"
  using move_animation_total[OF assms(1,2), of d "pt_x (render_offset E t)"] assms(3)
  by (auto simp: animate_move_x_from_with_config_def)

lemma animate_y_total:
  assumes "anim_new E 1 0 0 cfg \<noteq> None" "restartable E (tl_move_x_animation t)" "restartable E (tl_move_y_animation t)"
  shows "\<exists>t'. animate_move_y_from_with_config E d cfg t = Some t' \<and>
    restartable E (tl_move_x_animation t') \<and> restartable E (tl_move_y_animation t')"
  using move_animation_total[OF assms(1,3), of d "pt_y (render_offset E t)"] assms(2)
  by (auto simp: animate_move_y_from_with_config_def)

lemma spring_tile_total:
  assumes "anim_new E 1 0 0 cfg \<noteq> None" "restartable E (tl_move_x_animation t)" "restartable E (tl_move_y_animation t)"
  shows "\<exists>t'. spring_tile E cfg d t = Some t' \<and>
    restartable E (tl_move_x_animation t') \<and> restartable E (tl_move_y_animation t')"
proof -
  obtain t1 where t1: "(if \<bar>pt_x d\<bar> \<ge> 0.5 then animate_move_x_from_with_config E (pt_x d) cfg t else Some t) = Some t1"
      "restartable E (tl_move_x_animation t1)" "restartable E (tl_move_y_animation t1)"
    using animate_x_total[OF assms, of "pt_x d"] assms(2,3) by (cases "\<bar>pt_x d\<bar> \<ge> 0.5") auto
  obtain t2 where t2: "(if \<bar>pt_y d\<bar> \<ge> 0.5 then animate_move_y_from_with_config E (pt_y d) cfg t1 else Some t1) = Some t2"
      "restartable E (tl_move_x_animation t2)" "restartable E (tl_move_y_animation t2)"
    using animate_y_total[OF assms(1) t1(2,3), of "pt_y d"] t1 by (cases "\<bar>pt_y d\<bar> \<ge> 0.5") auto
  have "spring_tile E cfg d t = Some t2"
    unfolding spring_tile_def t1(1) Option.bind.bind_lunit t2(1) ..
  with t2 show ?thesis by blast
qed

lemma update_first_total:
  assumes "list_all (movable E) cs"
    and "\<And>t. restartable E (tl_move_x_animation t) \<Longrightarrow> restartable E (tl_move_y_animation t) \<Longrightarrow>
      \<exists>t'. f t = Some t' \<and> restartable E (tl_move_x_animation t') \<and> restartable E (tl_move_y_animation t')"
  shows "\<exists>cs'. update_first i f cs = Some cs' \<and> list_all (movable E) cs' \<and> length cs' = length cs"
  using assms(1)
proof (induction cs)
  case (Cons c cs)
  then obtain cs' where cs': "update_first i f cs = Some cs'" "list_all (movable E) cs'" "length cs' = length cs" by auto
  obtain t' where "f (co_tile c) = Some t'" "restartable E (tl_move_x_animation t')" "restartable E (tl_move_y_animation t')"
    using assms(2)[of "co_tile c"] Cons.prems by (auto simp: movable_def)
  moreover have "list_all (movable E) cs" "movable E c" using Cons.prems by simp_all
  moreover have "movable E (c\<lparr>co_tile := t'\<rparr>)" using calculation(2,3) by (simp add: movable_def)
  ultimately show ?case using cs' by simp
qed simp

lemma update_column_movable:
  assumes "ss_movable E s"
  shows "\<exists>s'. update_column_by_id i (spring_tile E (ao_tile_movement (op_animations (ss_options s))) d) s = Some s' \<and>
    ss_movable E s'"
proof -
  let ?cfg = "ao_tile_movement (op_animations (ss_options s))"
  have new: "anim_new E 1 0 0 ?cfg \<noteq> None" and mv: "list_all (movable E) (columns s)"
    using assms by (simp_all add: ss_movable_def)
  obtain cs where cs: "update_first i (spring_tile E ?cfg d) (columns s) = Some cs" "list_all (movable E) cs"
      "length cs = length (columns s)"
    using update_first_total[OF mv, of "spring_tile E ?cfg d" i] spring_tile_total[OF new] by blast
  have "columns (with_columns (\<lambda>_. cs) s) = cs" using cs(3) by (simp add: columns_with)
  with cs new show ?thesis by (simp add: update_column_by_id_def ss_movable_def)
qed

lemma spring_all_total: "ss_movable E s \<Longrightarrow> \<exists>s'. spring_all E pre s = Some s'"
proof (induction pre arbitrary: s)
  case (Cons p pre)
  obtain i old where p: "p = (i, old)" by (cases p)
  show ?case
  proof (cases "slot_of i s")
    case None
    with Cons show ?thesis by (simp add: p)
  next
    case (Some new)
    obtain s1 where s1: "update_column_by_id i (spring_tile E (ao_tile_movement (op_animations (ss_options s)))
        (pt_sub old new)) s = Some s1" "ss_movable E s1"
      using update_column_movable[OF Cons.prems] by blast
    show ?thesis
      using Cons.IH[OF Cons.prems] Cons.IH[OF s1(2)] s1(1) Some
      by (simp only: p spring_all.simps option.case Let_def Option.bind.bind_lunit split: if_split) blast
  qed
qed simp

lemma tile_sizes_movable: "ss_movable E s \<Longrightarrow> ss_movable E (update_tile_sizes E' s)"
proof -
  let ?f = "\<lambda>((i, pos, sz), c).
        if co_is_pending_fullscreen c \<or> co_is_pending_maximized c then c
        else c\<lparr>co_tile := request_tile_size E' sz False None (co_tile c)\<rparr>"
  have mv: "movable E (?f x) = movable E (snd x)" for x :: "(nat \<times> point \<times> size) \<times> column"
    by (simp add: movable_def tile_simps split: prod.split)
  have "columns (update_tile_sizes E' s) = map ?f (zip (column_layout s) (columns s))"
    unfolding update_tile_sizes_def by (rule columns_with) (simp add: column_layout_length)
  moreover have "ss_options (update_tile_sizes E' s) = ss_options s"
    by (simp add: update_tile_sizes_def)
  moreover assume "ss_movable E s"
  moreover have "list_all (movable E) (map ?f (zip (column_layout s) (columns s)))" if "list_all (movable E) (columns s)"
    using that mv by (auto simp: list_all_iff dest!: set_zip_rightD)
  ultimately show ?thesis by (simp add: ss_movable_def)
qed

lemma movable_subset:
  "ss_movable E s \<Longrightarrow> set (columns s') \<subseteq> set (columns s) \<Longrightarrow> ss_options s' = ss_options s \<Longrightarrow> ss_movable E s'"
  by (auto simp: ss_movable_def list_all_iff)

lemma take_column_total:
  assumes "ss_inv E s" "i < length (columns s)" "ss_movable E' s"
  shows "\<exists>c s'. take_column_at E' i s = Some (c, s')"
proof -
  obtain c s1 where r: "remove_column_at i s = Some (c, s1)"
    using remove_column_total[OF assms(1,2)] by blast
  note k = remove_column_columns[OF assms(1) r]
  have "ss_movable E' s1"
    by (rule movable_subset[OF assms(3)]) (use k set_list_remove[of i "columns s"] in \<open>simp_all\<close>)
  from spring_all_total[OF tile_sizes_movable[OF this]] obtain s2 where
    "spring_all E' (slot_positions (\<lambda>u. u \<noteq> i) s) (update_tile_sizes E' s1) = Some s2" by blast
  with r show ?thesis by (simp add: take_column_at_def Let_def)
qed

text \<open>A move permutes columns and may ask for sizes.\<close>

lemma moved_case:
  "r = Some (s0, b) \<Longrightarrow> set (columns s0) \<subseteq> set (columns s) \<Longrightarrow> ss_options s0 = ss_options s \<Longrightarrow>
   \<exists>s' b s0. r = Some (s', b) \<and> set (columns s0) \<subseteq> set (columns s) \<and> ss_options s0 = ss_options s \<and>
      (s' = s0 \<or> s' = update_tile_sizes E' s0)"
  by blast

lemma moves_cases:
  assumes "ss_inv E s"
  shows "\<exists>s' b s0. move_left E' s = Some (s', b) \<and> set (columns s0) \<subseteq> set (columns s) \<and> ss_options s0 = ss_options s \<and>
      (s' = s0 \<or> s' = update_tile_sizes E' s0)"
    "\<exists>s' b s0. move_right E' s = Some (s', b) \<and> set (columns s0) \<subseteq> set (columns s) \<and> ss_options s0 = ss_options s \<and>
      (s' = s0 \<or> s' = update_tile_sizes E' s0)"
    "\<exists>s' b s0. move_down s = Some (s', b) \<and> set (columns s0) \<subseteq> set (columns s) \<and> ss_options s0 = ss_options s \<and>
      (s' = s0 \<or> s' = update_tile_sizes E' s0)"
    "\<exists>s' b s0. move_up s = Some (s', b) \<and> set (columns s0) \<subseteq> set (columns s) \<and> ss_options s0 = ss_options s \<and>
      (s' = s0 \<or> s' = update_tile_sizes E' s0)"
proof -
  show "\<exists>s' b s0. move_left E' s = Some (s', b) \<and> set (columns s0) \<subseteq> set (columns s) \<and> ss_options s0 = ss_options s \<and>
      (s' = s0 \<or> s' = update_tile_sizes E' s0)"
  proof (cases "ss_focus s")
    case (FocusStack k)
    let ?s = "\<lambda>m. s\<lparr>ss_stack := (ss_stack s)[k := m],
       ss_master := Some (ss_stack s ! k), ss_focus := FocusMaster, ss_last_stack_idx := Some k\<rparr>"
    obtain m where m: "ss_master s = Some m" "k < length (ss_stack s)"
      and mv: "move_left E' s = Some (update_tile_sizes E' (?s m), True)"
      by (rule move_left_eq[OF assms FocusStack])
    have "set (columns (?s m)) \<subseteq> set (columns s)"
      using m set_update_subset_insert[of "ss_stack s" k m] by (auto simp: columns_def)
    with mv show ?thesis by (intro exI[of _ "?s m"] exI) (auto)
  qed (auto simp: move_left_def)
  show "\<exists>s' b s0. move_right E' s = Some (s', b) \<and> set (columns s0) \<subseteq> set (columns s) \<and> ss_options s0 = ss_options s \<and>
      (s' = s0 \<or> s' = update_tile_sizes E' s0)"
  proof (cases "ss_focus s = FocusMaster \<and> ss_stack s \<noteq> []")
    case True
    let ?k = "restored_stack_idx s"
    let ?s = "\<lambda>m. s\<lparr>ss_master := Some (ss_stack s ! ?k), ss_stack := (ss_stack s)[?k := m],
       ss_focus := FocusStack ?k\<rparr>"
    obtain m where m: "ss_master s = Some m" "?k < length (ss_stack s)"
      and mv: "move_right E' s = Some (update_tile_sizes E' (?s m), True)"
      using move_right_eq[OF assms] True by metis
    have "set (columns (?s m)) \<subseteq> set (columns s)"
      using m set_update_subset_insert[of "ss_stack s" ?k m] by (auto simp: columns_def)
    with mv show ?thesis by (intro exI[of _ "?s m"] exI) (auto)
  qed (auto simp: move_right_def split: focus.split)
  have sw: "set (columns (s\<lparr>ss_stack := (ss_stack s)[i := ss_stack s ! j, j := ss_stack s ! i], ss_focus := f\<rparr>))
      \<subseteq> set (columns s)" if "i < length (ss_stack s)" "j < length (ss_stack s)" for i j f
    using mset_eq_setD[OF mset_list_swap[OF that]] by (auto simp: columns_def list_swap_def)
  show "\<exists>s' b s0. move_down s = Some (s', b) \<and> set (columns s0) \<subseteq> set (columns s) \<and> ss_options s0 = ss_options s \<and>
      (s' = s0 \<or> s' = update_tile_sizes E' s0)"
  proof (cases "\<exists>i. ss_focus s = FocusStack i \<and> i + 1 < length (ss_stack s)")
    case True
    then obtain i where "ss_focus s = FocusStack i" "i + 1 < length (ss_stack s)" by blast
    then show ?thesis
      by (intro moved_case[OF _ sw[of i "i + 1" "FocusStack (i + 1)"]]) (simp_all add: move_down_def vec_swap_def)
  qed (auto simp: move_down_def split: focus.split)
  show "\<exists>s' b s0. move_up s = Some (s', b) \<and> set (columns s0) \<subseteq> set (columns s) \<and> ss_options s0 = ss_options s \<and>
      (s' = s0 \<or> s' = update_tile_sizes E' s0)"
  proof (cases "\<exists>i. ss_focus s = FocusStack i \<and> 0 < i")
    case True
    then obtain i where i: "ss_focus s = FocusStack i" "0 < i" by blast
    with inv_stack_idx[OF assms] have "i < length (ss_stack s)" "i - 1 < length (ss_stack s)" by auto
    with i show ?thesis
      by (intro moved_case[OF _ sw[of i "i - 1" "FocusStack (i - 1)"]]) (simp_all add: move_up_def vec_swap_def)
  qed (auto simp: move_up_def split: focus.split)
qed

lemma moves_total:
  assumes "ss_inv E s"
  shows "\<exists>s' b. move_left E' s = Some (s', b) \<and> (ss_movable E' s \<longrightarrow> ss_movable E' s')"
    "\<exists>s' b. move_right E' s = Some (s', b) \<and> (ss_movable E' s \<longrightarrow> ss_movable E' s')"
    "\<exists>s' b. move_down s = Some (s', b) \<and> (ss_movable E' s \<longrightarrow> ss_movable E' s')"
    "\<exists>s' b. move_up s = Some (s', b) \<and> (ss_movable E' s \<longrightarrow> ss_movable E' s')"
proof -
  have mv: "ss_movable E' s'" if "ss_movable E' s" "set (columns s0) \<subseteq> set (columns s)" "ss_options s0 = ss_options s"
    "s' = s0 \<or> s' = update_tile_sizes E' s0" for s0 s'
    using that movable_subset[OF that(1-3)] tile_sizes_movable by blast
  note c = moves_cases[OF assms, of E']
  show "\<exists>s' b. move_left E' s = Some (s', b) \<and> (ss_movable E' s \<longrightarrow> ss_movable E' s')" using c(1) mv by blast
  show "\<exists>s' b. move_right E' s = Some (s', b) \<and> (ss_movable E' s \<longrightarrow> ss_movable E' s')" using c(2) mv by blast
  show "\<exists>s' b. move_down s = Some (s', b) \<and> (ss_movable E' s \<longrightarrow> ss_movable E' s')" using c(3) mv by blast
  show "\<exists>s' b. move_up s = Some (s', b) \<and> (ss_movable E' s \<longrightarrow> ss_movable E' s')" using c(4) mv by blast
qed

lemma spring_total:
  assumes "\<exists>s' b. mutate s = Some (s', b) \<and> (ss_movable E s \<longrightarrow> ss_movable E s')" "ss_movable E s"
  shows "swap_with_spring E mutate s \<noteq> None"
proof -
  obtain s1 b where s1: "mutate s = Some (s1, b)" "ss_movable E s1" using assms by blast
  obtain s2 where "spring_all E (slot_positions (\<lambda>_. True) s) s1 = Some s2"
    using spring_all_total[OF s1(2)] by blast
  then show ?thesis by (cases b) (simp_all add: swap_with_spring_def Let_def s1(1))
qed

text \<open>When a command returns: the window or column it names is there, and the animations it starts are off, easings or
  springs that are not overdamped. The four commands that end in \<open>todo!()\<close> panic.\<close>

fun ms_defined :: "env \<Rightarrow> ms_op \<Rightarrow> scrolling_space \<Rightarrow> bool" where
  "ms_defined E (RemoveTile i) s \<longleftrightarrow> i \<in> set (ss_ids s) \<and> ss_movable E s"
| "ms_defined E (RemoveColumnByIdx k) s \<longleftrightarrow> k < length (ss_ids s) \<and> ss_movable E s"
| "ms_defined E RemoveActiveTile s \<longleftrightarrow> ss_movable E s"
| "ms_defined E RemoveActiveColumn s \<longleftrightarrow> ss_movable E s"
| "ms_defined E MoveLeftAnimated s \<longleftrightarrow> ss_movable E s"
| "ms_defined E MoveRightAnimated s \<longleftrightarrow> ss_movable E s"
| "ms_defined E MoveDownAnimated s \<longleftrightarrow> ss_movable E s"
| "ms_defined E MoveUpAnimated s \<longleftrightarrow> ss_movable E s"
| "ms_defined E (NudgeMasterRatio d) s \<longleftrightarrow> ss_movable E s"
| "ms_defined E (UpdateWindow i c) s \<longleftrightarrow>
     list_all (\<lambda>c. column_id c = i \<longrightarrow> startable (ao_window_resize (op_animations (tl_options (co_tile c))))) (columns s)"
| "ms_defined E (StartOpenAnimation i) s \<longleftrightarrow>
     list_all (\<lambda>c. column_id c = i \<longrightarrow> startable (ao_window_open (op_animations (tl_options (co_tile c))))) (columns s)"
| "ms_defined E ConsumeOrExpelLeft s \<longleftrightarrow> False"
| "ms_defined E ConsumeOrExpelRight s \<longleftrightarrow> False"
| "ms_defined E ConsumeIntoColumn s \<longleftrightarrow> False"
| "ms_defined E ExpelFromColumn s \<longleftrightarrow> False"
| "ms_defined E _ s \<longleftrightarrow> True"

lemma update_first_Some:
  "list_all (\<lambda>c. column_id c = i \<longrightarrow> f (co_tile c) \<noteq> None) cs \<Longrightarrow> update_first i f cs \<noteq> None"
  by (induction cs) auto

lemma commits_total:
  "ms_defined E (UpdateWindow i c) s \<Longrightarrow> ss_update_window E i c s \<noteq> None"
  "ms_defined E (StartOpenAnimation i) s \<Longrightarrow> ss_start_open_animation E i s \<noteq> None"
proof -
  assume d: "ms_defined E (UpdateWindow i c) s"
  have "tile_update_window E (case c of Some c \<Rightarrow> t\<lparr>tl_window := win_on_commit E c (tl_window t)\<rparr> | None \<Rightarrow> t) \<noteq> None"
    if "startable (ao_window_resize (op_animations (tl_options t)))" for t
  proof -
    have "startable (ao_window_resize (op_animations (tl_options
        (case c of Some c \<Rightarrow> t\<lparr>tl_window := win_on_commit E c (tl_window t)\<rparr> | None \<Rightarrow> t))))"
      using that by (simp split: option.split)
    from update_window_total[OF this, of E] show ?thesis by auto
  qed
  with d show "ss_update_window E i c s \<noteq> None"
    using update_first_Some[of i _ "columns s"]
    by (simp add: ss_update_window_def update_column_by_id_def Let_def list_all_iff bind_eq_None_conv del: not_None_eq)
next
  assume "ms_defined E (StartOpenAnimation i) s"
  then show "ss_start_open_animation E i s \<noteq> None"
    using update_first_Some[of i "start_open_animation E" "columns s"] open_total[of _ E]
    by (fastforce simp: ss_start_open_animation_def update_column_by_id_def list_all_iff)
qed

lemma remove_tile_total:
  assumes "ss_inv E s" "ss_movable E' s" "i \<in> set (ss_ids s)"
  shows "\<exists>rt s'. ss_remove_tile E' i s = Some (rt, s')"
proof -
  have "position (\<lambda>c. column_id c = i) (columns s) \<noteq> None"
    using assms(3) by (auto simp: ss_ids_def position_None)
  then obtain k where k: "position (\<lambda>c. column_id c = i) (columns s) = Some k" by auto
  obtain c s' where "take_column_at E' k s = Some (c, s')"
    using take_column_total[OF assms(1) position_length[OF k] assms(2)] by blast
  with k show ?thesis by (simp add: ss_remove_tile_def ss_remove_tile_by_idx_def)
qed

lemma move_to_last_total: "ss_inv E s \<Longrightarrow> move_column_to_last s \<noteq> None"
  using inv_stack_idx[of E s] by (auto simp: move_column_to_last_def vec_remove_def split: focus.split)

lemma nudge_total: "ss_movable E s \<Longrightarrow> nudge_master_ratio E d s \<noteq> None"
proof -
  assume m: "ss_movable E s"
  let ?s = "s\<lparr>ss_master_ratio := f_clamp (ss_master_ratio s + d) 0.15 0.85\<rparr>"
  have "ss_movable E ?s" by (rule movable_subset[OF m]) (simp_all add: columns_def)
  from spring_all_total[OF tile_sizes_movable[OF this]] show ?thesis
    by (auto simp: nudge_master_ratio_def Let_def)
qed

lemma remove_active_total:
  assumes "ss_inv E s" "ss_movable E' s"
  shows "ss_remove_active_tile E' s \<noteq> None" "ss_remove_active_column E' s \<noteq> None"
proof -
  note cur = inv_cursor[OF assms(1)]
  show "ss_remove_active_tile E' s \<noteq> None"
  proof (cases "focused_column s")
    case (Some c)
    then have "column_id c \<in> set (ss_ids s)"
      using cur by (auto simp: ss_ids_def split: option.splits)
    from remove_tile_total[OF assms this] Some show ?thesis by (auto simp: ss_remove_active_tile_def)
  qed (simp add: ss_remove_active_tile_def)
  have "take_column_at E' k s \<noteq> None" if "active_column_idx s = Some k" for k
    using take_column_total[OF assms(1) _ assms(2), of k] cur that by auto
  then show "ss_remove_active_column E' s \<noteq> None"
    by (auto simp: ss_remove_active_column_def active_column_idx_def split: focus.splits)
qed

definition space_blank :: scrolling_space where
  "space_blank = ss_new (env_blank 1) (mk_size 1000 800)
     \<lparr>rloc = mk_point 0 0, rsize = mk_size 1000 800\<rparr> 1 options_blank"

lemma space_blank_reach: "ms_reach (env_blank 1) space_blank" "ss_inv (env_blank 1) space_blank"
  unfolding space_blank_def by (rule ms_start, rule new_inv)

lemma space_blank_ids: "ss_ids space_blank = []"
  by (simp add: space_blank_def ss_ids_def columns_def ss_new_def)

section \<open>Properties\<close>

text \<open>Property C4. Whatever sequence of commands the engine executes, in a changing
  environment and with fresh windows: its invariant holds (the focus names a column that exists, there
  is a master unless there is nothing, no window is there twice, the master ratio is in [0.15, 0.85],
  no column is fullscreen and maximized at once, the working area is the one of the parent area) and a
  window is focused unless the space is empty.\<close>

theorem ms_reachable_ok:
  assumes "ms_reach E s"
  shows "ss_inv E s \<and> (ss_active_window s = None \<longleftrightarrow> ss_is_empty s)"
  using reach_inv[OF assms] active_of_inv by blast

theorem ms_reachable_ok_witness:
  "ss_inv (env_blank 1) (ss_add_tile (env_blank 1) (tile_blank 7) True (Fixed 100) False
     space_blank)"
proof -
  let ?E = "env_blank 1"
  let ?s = space_blank
  have "ms_reach ?E (ss_add_tile ?E (tile_blank 7) True (Fixed 100) False ?s)"
    by (rule ms_next[OF space_blank_reach(1), where E' = ?E and op = "AddTile (tile_blank 7) True (Fixed 100) False"])
      (simp_all add: space_blank_ids)
  from ms_reachable_ok[OF this] show ?thesis by blast
qed

text \<open>Property C8. A command adds the window it is given, removes the one it names or
  the focused one, and otherwise only reorders: no window is lost, duplicated or invented, whichever
  path through the master and the stack it takes.\<close>

theorem ms_windows_kept:
  assumes "ss_inv E s" "e_phys_ceil E' = e_phys_ceil E" "ms_fresh op s" "ms_exec E' op s = Some s'"
  shows "mset (ss_ids s') = ms_windows op s"
  using ms_step[OF assms] by blast

theorem ms_windows_kept_witness:
  "\<exists>s'. ms_exec (env_blank 1) (AddTile (tile_blank 7) True (Fixed 100) False)
     space_blank = Some s' \<and>
     mset (ss_ids s') = {#7#}"
proof -
  let ?E = "env_blank 1"
  let ?s = space_blank
  let ?op = "AddTile (tile_blank 7) True (Fixed 100) False"
  note s0 = space_blank_ids
  have "tile_id (tile_blank 7) = 7" by (simp add: blank_defs)
  moreover have "mset (ss_ids (ss_add_tile ?E (tile_blank 7) True (Fixed 100) False ?s)) = ms_windows ?op ?s"
    by (rule ms_windows_kept[OF space_blank_reach(2), where E' = ?E]) (simp_all add: s0)
  ultimately show ?thesis by (simp add: s0)
qed

text \<open>Property C2. None of the index operations, \<open>expect\<close>s and \<open>unwrap\<close>s of the engine can fail, commits of clients
  included: a command returns when the window or column it names is there and it is not one of the four that end in
  \<open>todo!()\<close>; one that starts an animation needs that animation to be off, an easing or a spring that is not overdamped,
  and one that moves tiles also that the movements in progress can be restarted.\<close>

theorem ms_no_panic:
  assumes inv: "ss_inv E s" and ok: "ms_defined E' op s"
  shows "ms_exec E' op s \<noteq> None"
proof -
  note m = moves_total[OF inv]
  show ?thesis
  proof (cases op)
    case (RemoveTile i)
    with ok remove_tile_total[OF inv] show ?thesis by auto
  next
    case (RemoveColumnByIdx k)
    with ok take_column_total[OF inv] show ?thesis by (auto simp: ss_ids_def)
  next
    case MoveLeftAnimated
    with ok spring_total[where mutate = "move_left E'", OF m(1)] show ?thesis by (simp add: move_left_animated_def)
  next
    case MoveRightAnimated
    with ok spring_total[where mutate = "move_right E'", OF m(2)] show ?thesis by (simp add: move_right_animated_def)
  next
    case MoveDownAnimated
    with ok spring_total[where mutate = "move_down", OF m(3)] show ?thesis by (simp add: move_down_animated_def)
  next
    case MoveUpAnimated
    with ok spring_total[where mutate = "move_up", OF m(4)] show ?thesis by (simp add: move_up_animated_def)
  next
    case (SwapInDirection d)
    with m(1,2)[of E'] show ?thesis by (cases d) (auto simp: swap_window_in_direction_def)
  next
    case MoveColumnToFirst
    with m(1)[of E'] show ?thesis by (auto simp: move_column_to_first_def split: focus.split)
  next
    case (SetFullscreen i b)
    with set_fullscreen_inv[OF inv, of E' i b] show ?thesis by auto
  next
    case (SetMaximized i b)
    with set_maximized_inv[OF inv, of E' i b] show ?thesis by auto
  qed (use ok m[of E'] move_to_last_total[OF inv] nudge_total remove_active_total[OF inv] commits_total in
    \<open>auto simp del: ms_defined.simps(10,11)\<close>)
qed

end
