(* ===== verification/MasterStackRefinement.thy ===== *)
theory MasterStackRefinement
  imports MasterStackProps
begin

text \<open>
  The master-stack engine refines a list of windows with a cursor: every command is simulated by one on
  the list. The remembered stack row, which the list does not have, is an argument of the abstract
  command.
\<close>

section \<open>The abstract commands\<close>

type_synonym cursor_list = "nat list \<times> nat option"

definition spec_focus_left :: "cursor_list \<Rightarrow> cursor_list" where
  "spec_focus_left a = (case a of (ids, Some (Suc k)) \<Rightarrow> (ids, Some 0) | _ \<Rightarrow> a)"

definition spec_focus_right :: "nat \<Rightarrow> cursor_list \<Rightarrow> cursor_list" where
  "spec_focus_right row a = (case a of
     (ids, Some 0) \<Rightarrow> if 1 < length ids then (ids, Some (Suc row)) else a | _ \<Rightarrow> a)"

definition spec_focus_down :: "cursor_list \<Rightarrow> cursor_list" where
  "spec_focus_down a = (case a of (ids, Some k) \<Rightarrow> if Suc k < length ids then (ids, Some (Suc k)) else a | _ \<Rightarrow> a)"

definition spec_focus_up :: "cursor_list \<Rightarrow> cursor_list" where
  "spec_focus_up a = (case a of (ids, Some (Suc (Suc k))) \<Rightarrow> (ids, Some (Suc k)) | _ \<Rightarrow> a)"

definition spec_focus_at :: "nat \<Rightarrow> cursor_list \<Rightarrow> cursor_list" where
  "spec_focus_at k a = (if k < length (fst a) then (fst a, Some k) else a)"

text \<open>The first of two that does something.\<close>

definition spec_or :: "(cursor_list \<Rightarrow> cursor_list) \<Rightarrow> (cursor_list \<Rightarrow> cursor_list) \<Rightarrow> cursor_list \<Rightarrow> cursor_list" where
  "spec_or f g a = (if f a \<noteq> a then f a else g a)"

fun ms_spec :: "nat \<Rightarrow> ms_op \<Rightarrow> cursor_list \<Rightarrow> cursor_list" where
  "ms_spec row (AddTile t act _ _) a = spec_add (tile_id t) act a"
| "ms_spec row (AddTileToColumn t act) a = spec_add (tile_id t) act a"
| "ms_spec row (RemoveTile i) a = (case position (\<lambda>j. j = i) (fst a) of Some k \<Rightarrow> spec_remove k a | None \<Rightarrow> a)"
| "ms_spec row (RemoveColumnByIdx k) a = spec_remove k a"
| "ms_spec row RemoveActiveTile a = (case snd a of Some k \<Rightarrow> spec_remove k a | None \<Rightarrow> a)"
| "ms_spec row RemoveActiveColumn a = (case snd a of Some k \<Rightarrow> spec_remove k a | None \<Rightarrow> a)"
| "ms_spec row (ActivateWindow i) a =
     (case position (\<lambda>j. j = i) (fst a) of Some k \<Rightarrow> (fst a, Some k) | None \<Rightarrow> a)"
| "ms_spec row FocusLeft a = spec_focus_left a"
| "ms_spec row FocusRight a = spec_focus_right row a"
| "ms_spec row FocusColumnFirst a = spec_focus_at 0 a"
| "ms_spec row FocusColumnLast a = spec_focus_at (length (fst a) - 1) a"
| "ms_spec row (FocusColumn k) a = spec_focus_at k a"
| "ms_spec row FocusDown a = spec_focus_down a"
| "ms_spec row FocusUp a = spec_focus_up a"
| "ms_spec row FocusDownOrLeft a = spec_or spec_focus_down spec_focus_left a"
| "ms_spec row FocusDownOrRight a = spec_or spec_focus_down (spec_focus_right row) a"
| "ms_spec row FocusUpOrLeft a = spec_or spec_focus_up spec_focus_left a"
| "ms_spec row FocusUpOrRight a = spec_or spec_focus_up (spec_focus_right row) a"
| "ms_spec row FocusTop a = (case snd a of Some (Suc k) \<Rightarrow> (fst a, Some 1) | _ \<Rightarrow> a)"
| "ms_spec row FocusBottom a = (if 1 < length (fst a) then (fst a, Some (length (fst a) - 1)) else a)"
| "ms_spec row MoveLeft a = spec_move_left a"
| "ms_spec row MoveRight a = spec_move_right row a"
| "ms_spec row MoveDown a = spec_move_down a"
| "ms_spec row MoveUp a = spec_move_up a"
| "ms_spec row MoveLeftAnimated a = spec_move_left a"
| "ms_spec row MoveRightAnimated a = spec_move_right row a"
| "ms_spec row MoveDownAnimated a = spec_move_down a"
| "ms_spec row MoveUpAnimated a = spec_move_up a"
| "ms_spec row MoveColumnToFirst a = spec_move_left a"
| "ms_spec row MoveColumnToLast a = (case snd a of
     Some (Suc k) \<Rightarrow> (list_remove (Suc k) (fst a) @ [fst a ! Suc k], Some (length (fst a) - 1)) | _ \<Rightarrow> a)"
| "ms_spec row (SwapInDirection ScrollLeft) a = spec_move_left a"
| "ms_spec row (SwapInDirection ScrollRight) a = spec_move_right row a"
| "ms_spec row _ a = a"

section \<open>Simulation\<close>

lemma position_map: "position P (map f xs) = position (P \<circ> f) xs"
  by (induction xs) simp_all

lemma position_ids: "position (\<lambda>j. j = i) (ss_ids s) = position (\<lambda>c. column_id c = i) (columns s)"
  by (simp add: ss_ids_def position_map comp_def)

lemma abs_cases:
  assumes "ss_inv E s"
  obtains (empty) "ss_focus s = FocusEmpty" "ss_ids s = []" "ss_master s = None" "ss_stack s = []"
  | (master) m where "ss_focus s = FocusMaster" "ss_master s = Some m" "length (ss_ids s) = Suc (length (ss_stack s))"
  | (stack) m k where "ss_focus s = FocusStack k" "ss_master s = Some m" "k < length (ss_stack s)"
      "length (ss_ids s) = Suc (length (ss_stack s))"
proof (cases "ss_focus s")
  case FocusEmpty
  with assms show thesis by (intro empty) (auto simp: ss_inv_def focus_ok_def ss_ids_def columns_def)
next
  case FocusMaster
  with assms inv_ids_length[OF assms] show thesis
    by (cases "ss_master s") (auto simp: ss_inv_def focus_ok_def intro: master)
next
  case (FocusStack k)
  with assms inv_ids_length[OF assms] show thesis
    by (cases "ss_master s") (auto simp: ss_inv_def focus_ok_def intro: stack)
qed

lemma abs_focus [simp]:
  "ss_abs (s\<lparr>ss_focus := f\<rparr>) = (ss_ids s, case f of FocusEmpty \<Rightarrow> None | FocusMaster \<Rightarrow> Some 0 | FocusStack i \<Rightarrow> Some (i + 1))"
  "ss_abs (s\<lparr>ss_last_stack_idx := l, ss_focus := f\<rparr>) =
     (ss_ids s, case f of FocusEmpty \<Rightarrow> None | FocusMaster \<Rightarrow> Some 0 | FocusStack i \<Rightarrow> Some (i + 1))"
  by (simp_all add: ss_abs_def ss_ids_def columns_def active_column_idx_def)

lemma ids_last_row [simp]: "ss_ids (s\<lparr>ss_last_stack_idx := l\<rparr>) = ss_ids s"
  by (simp add: ss_ids_def columns_def)

lemma focus_sim:
  assumes inv: "ss_inv E s"
  shows "ss_abs (fst (focus_left s)) = spec_focus_left (ss_abs s)"
    "ss_abs (fst (focus_right s)) = spec_focus_right (restored_stack_idx s) (ss_abs s)"
    "ss_abs (fst (focus_down s)) = spec_focus_down (ss_abs s)"
    "ss_abs (fst (focus_up s)) = spec_focus_up (ss_abs s)"
    "ss_abs (focus_column k s) = spec_focus_at k (ss_abs s)"
    "ss_abs (focus_column_first s) = spec_focus_at 0 (ss_abs s)"
    "ss_abs (focus_column_last s) = spec_focus_at (length (ss_ids s) - 1) (ss_abs s)"
    "ss_abs (focus_top s) = (case snd (ss_abs s) of Some (Suc k) \<Rightarrow> (fst (ss_abs s), Some 1) | _ \<Rightarrow> ss_abs s)"
    "ss_abs (focus_bottom s) = (if 1 < length (ss_ids s) then (ss_ids s, Some (length (ss_ids s) - 1)) else ss_abs s)"
proof -
  note a = ss_abs_def[of s] active_column_idx_def
  show "ss_abs (fst (focus_left s)) = spec_focus_left (ss_abs s)"
    by (rule abs_cases[OF inv]) (auto simp: a focus_left_def spec_focus_left_def split: nat.splits)
  show "ss_abs (fst (focus_right s)) = spec_focus_right (restored_stack_idx s) (ss_abs s)"
    by (rule abs_cases[OF inv]) (auto simp: a focus_right_def spec_focus_right_def split: nat.splits)
  show "ss_abs (fst (focus_down s)) = spec_focus_down (ss_abs s)"
    by (rule abs_cases[OF inv]) (auto simp: a focus_down_def spec_focus_down_def split: nat.splits)
  show "ss_abs (fst (focus_up s)) = spec_focus_up (ss_abs s)"
    by (rule abs_cases[OF inv]) (auto simp: a focus_up_def spec_focus_up_def split: nat.splits)
  show "ss_abs (focus_column k s) = spec_focus_at k (ss_abs s)"
    by (rule abs_cases[OF inv]) (auto simp: a focus_column_def spec_focus_at_def split: nat.splits)
  show "ss_abs (focus_column_first s) = spec_focus_at 0 (ss_abs s)"
    by (rule abs_cases[OF inv]) (auto simp: a focus_column_first_def spec_focus_at_def split: nat.splits)
  show "ss_abs (focus_column_last s) = spec_focus_at (length (ss_ids s) - 1) (ss_abs s)"
    by (rule abs_cases[OF inv]) (auto simp: a focus_column_last_def spec_focus_at_def split: nat.splits)
  show "ss_abs (focus_top s) = (case snd (ss_abs s) of Some (Suc k) \<Rightarrow> (fst (ss_abs s), Some 1) | _ \<Rightarrow> ss_abs s)"
    by (rule abs_cases[OF inv]) (auto simp: a focus_top_def split: nat.splits)
  show "ss_abs (focus_bottom s) = (if 1 < length (ss_ids s) then (ss_ids s, Some (length (ss_ids s) - 1)) else ss_abs s)"
    by (rule abs_cases[OF inv]) (auto simp: a focus_bottom_def split: nat.splits)
qed


lemma focus_or_sim:
  assumes f: "ss_abs (fst (f s)) = f' (ss_abs s)" "snd (f s) \<Longrightarrow> ss_abs (fst (f s)) \<noteq> ss_abs s"
      "snd (f s) \<or> fst (f s) = s"
    and g: "ss_abs (fst (g s)) = g' (ss_abs s)"
  shows "ss_abs (or_else f g s) = spec_or f' g' (ss_abs s)"
proof (cases "snd (f s)")
  case True
  with f show ?thesis by (simp add: or_else_def spec_or_def Let_def case_prod_beta)
next
  case False
  with f(3) have e: "fst (f s) = s" by simp
  have "f' (ss_abs s) = ss_abs s" using f(1)[symmetric] unfolding e .
  then show ?thesis by (simp add: or_else_def spec_or_def Let_def case_prod_beta False e g)
qed

lemma focus_changed:
  assumes "ss_inv E s"
  shows "snd (focus_down s) \<Longrightarrow> ss_abs (fst (focus_down s)) \<noteq> ss_abs s"
    "snd (focus_up s) \<Longrightarrow> ss_abs (fst (focus_up s)) \<noteq> ss_abs s"
    "snd (focus_down s) \<or> fst (focus_down s) = s" "snd (focus_up s) \<or> fst (focus_up s) = s"
  by (auto simp: focus_down_def focus_up_def ss_abs_def[of s] active_column_idx_def split: focus.splits if_splits)

lemma activate_sim:
  assumes "ss_inv E s"
  shows "ss_abs (fst (ss_activate_window i s)) =
    (case position (\<lambda>j. j = i) (ss_ids s) of Some k \<Rightarrow> (ss_ids s, Some k) | None \<Rightarrow> ss_abs s)"
  unfolding position_ids
  by (rule abs_cases[OF assms]) (auto simp: ss_activate_window_def columns_def split: option.split)

lemma remove_tile_sim:
  assumes "ss_inv E s" "ss_remove_tile E' i s = Some (rt, s')"
  shows "\<exists>k. position (\<lambda>j. j = i) (ss_ids s) = Some k \<and> ss_abs s' = spec_remove k (ss_abs s)"
  using assms(2) take_column_abs[OF assms(1)]
  by (auto simp: ss_remove_tile_def ss_remove_tile_by_idx_def bind_eq_Some_conv position_ids)

lemma focused_position:
  assumes "ss_inv E s" "active_column_idx s = Some k"
  shows "position (\<lambda>j. j = ss_ids s ! k) (ss_ids s) = Some k"
proof -
  have d: "distinct (ss_ids s)" and k: "k < length (ss_ids s)"
    using assms focused_id by (auto simp: ss_inv_def)
  have "\<exists>j. position (\<lambda>j. j = ss_ids s ! k) (ss_ids s) = Some j"
    using position_None[of "\<lambda>j. j = ss_ids s ! k" "ss_ids s"] nth_mem[OF k]
    by (cases "position (\<lambda>j. j = ss_ids s ! k) (ss_ids s)") blast+
  then obtain j where j: "position (\<lambda>j. j = ss_ids s ! k) (ss_ids s) = Some j" by blast
  from position_Some[OF j] position_length[OF j] d k have "j = k"
    by (simp add: nth_eq_iff_index_eq)
  with j show ?thesis by simp
qed

lemma remove_active_sim:
  assumes "ss_inv E s" "ss_remove_active_tile E' s = Some (rt, s')"
  shows "ss_abs s' = (case snd (ss_abs s) of Some k \<Rightarrow> spec_remove k (ss_abs s) | None \<Rightarrow> ss_abs s)"
proof (cases "active_column_idx s")
  case None
  with inv_cursor[OF assms(1)] assms(2) show ?thesis
    by (simp add: ss_remove_active_tile_def ss_abs_def)
next
  case (Some k)
  with inv_cursor[OF assms(1)] have f: "focused_column s = Some (columns s ! k)" and k: "k < length (columns s)" by auto
  then obtain r where r: "ss_remove_tile E' (ss_ids s ! k) s = Some (r, s')"
    using assms(2) by (auto simp: ss_remove_active_tile_def ids_nth bind_eq_Some_conv)
  from remove_tile_sim[OF assms(1) this] focused_position[OF assms(1) Some] Some show ?thesis
    by (simp add: ss_abs_def[of s])
qed

lemma remove_column_sim:
  assumes "ss_inv E s" "ss_remove_active_column E' s = Some (rt, s')"
  shows "ss_abs s' = (case snd (ss_abs s) of Some k \<Rightarrow> spec_remove k (ss_abs s) | None \<Rightarrow> ss_abs s)"
  using assms(2) take_column_abs[OF assms(1)]
  by (cases "ss_focus s")
    (auto simp: ss_remove_active_column_def ss_abs_def active_column_idx_def bind_eq_Some_conv)

lemma move_to_last_sim:
  assumes "ss_inv E s" "move_column_to_last s = Some s'"
  shows "ss_abs s' = (case snd (ss_abs s) of
     Some (Suc k) \<Rightarrow> (list_remove (Suc k) (ss_ids s) @ [ss_ids s ! Suc k], Some (length (ss_ids s) - 1)) | _ \<Rightarrow> ss_abs s)"
  using assms(1)
proof (cases rule: abs_cases)
  case (stack m k)
  then have c: "columns s = m # ss_stack s" by (simp add: columns_def)
  show ?thesis
  proof (cases "k + 1 < length (ss_stack s)")
    case True
    have "s' = s\<lparr>ss_stack := list_remove k (ss_stack s) @ [ss_stack s ! k], ss_focus := FocusStack (length (ss_stack s) - 1)\<rparr>"
      using assms(2) stack True vec_remove_insert(1)[of k "ss_stack s"] length_list_remove[of k "ss_stack s"]
      by (simp add: move_column_to_last_def Let_def)
    with stack c show ?thesis
      by (simp add: ss_abs_def ss_ids_def columns_def active_column_idx_def list_remove_Cons map_list_remove)
  next
    case False
    with stack have k: "length (ss_stack s) = Suc k" by simp
    have "s' = s" using assms(2) stack False by (simp add: move_column_to_last_def)
    moreover have "list_remove k (map column_id (ss_stack s)) @ [map column_id (ss_stack s) ! k] = map column_id (ss_stack s)"
      using k take_Suc_conv_app_nth[of k "map column_id (ss_stack s)"] by (simp add: list_remove_def)
    ultimately show ?thesis using stack c k
      by (simp add: ss_abs_def ss_ids_def active_column_idx_def list_remove_Cons)
  qed
qed (use assms(2) in \<open>auto simp: move_column_to_last_def ss_abs_def active_column_idx_def\<close>)


lemma moved_spring:
  assumes "swap_with_spring E' mutate s = Some (s', b)"
    and "\<And>s0 b. mutate s = Some (s0, b) \<Longrightarrow> ss_inv E s0 \<and> ss_abs s0 = a"
  shows "ss_abs s' = a"
  using swap_with_spring_moved[of E' mutate s s' b E a] assms by blast

lemma skel_sim: "skeleton s' = skeleton s \<Longrightarrow> ss_abs s' = ss_abs s"
  by (rule skeleton_abs)

lemma configured_sim: "ss_abs (ss_update_config E vs pa sc opts s) = ss_abs s"
proof -
  define wa where "wa = compute_working_area E pa sc (lo_struts (op_layout opts))"
  define s1 where "s1 = with_columns (map (column_update_config vs wa pa sc opts)) s"
  define s2 where "s2 = s1\<lparr>ss_view_size := vs, ss_working_area := wa, ss_parent_area := pa, ss_scale := sc,
    ss_options := opts\<rparr>"
  have sk: "skeleton (ss_update_config E vs pa sc opts s) = skeleton s2"
    by (simp add: ss_update_config_def Let_def skel s2_def s1_def wa_def)
  have "skeleton s1 = skeleton s"
    unfolding s1_def by (rule skeleton_with_columns) (simp add: comp_def)
  then have s1: "ss_abs s1 = ss_abs s" by (rule skeleton_abs)
  have "ss_abs s2 = ss_abs s1" by (simp add: s2_def ss_abs_def ss_ids_def columns_def active_column_idx_def)
  with s1 show ?thesis unfolding skeleton_abs[OF sk] by simp
qed

lemma nudged_sim:
  assumes "nudge_master_ratio E d s = Some s'"
  shows "ss_abs s' = ss_abs s"
proof (cases "\<bar>f_clamp (ss_master_ratio s + d) 0.15 0.85 - ss_master_ratio s\<bar> < 1 / 10 ^ 6")
  case True
  with assms show ?thesis by (simp add: nudge_master_ratio_def Let_def)
next
  case False
  let ?s = "s\<lparr>ss_master_ratio := f_clamp (ss_master_ratio s + d) 0.15 0.85\<rparr>"
  have sk: "skeleton s' = skeleton ?s"
    using assms False by (auto simp: nudge_master_ratio_def Let_def skel dest: spring_all_skel)
  show ?thesis
    unfolding skeleton_abs[OF sk] by (simp add: ss_abs_def ss_ids_def columns_def active_column_idx_def)
qed

text \<open>Property C1. Every command of the engine does to the list of its windows, master first,
  and to the focused position what the abstract command of \<open>ms_spec\<close> says: a new window goes to the end,
  a removal keeps the focus on its window and otherwise moves it up, a move swaps two windows and takes
  the focus along, and no command but these touches the order.\<close>

theorem ms_refines:
  assumes inv: "ss_inv E s" and ex: "ms_exec E' op s = Some s'"
  shows "ss_abs s' = ms_spec (restored_stack_idx s) op (ss_abs s)"
proof -
  note F = focus_sim[OF inv] and C = focus_changed[OF inv]
  have ids: "fst (ss_abs s) = ss_ids s" by (simp add: ss_abs_def)
  note mL = moved_left[OF inv, THEN conjunct2] and mR = moved_right[OF inv, THEN conjunct2]
    and mD = moved_down[OF inv, THEN conjunct2] and mU = moved_up[OF inv, THEN conjunct2]
  show ?thesis
  proof (cases op)
    case (RemoveTile i)
    with ex obtain rt where "ss_remove_tile E' i s = Some (rt, s')" by auto
    from remove_tile_sim[OF inv this] RemoveTile show ?thesis by (auto simp: ids)
  next
    case MoveLeftAnimated
    with ex obtain b where "swap_with_spring E' (move_left E') s = Some (s', b)" by (auto simp: move_left_animated_def)
    from moved_spring[OF this moved_left[OF inv]] MoveLeftAnimated show ?thesis by simp
  next
    case MoveRightAnimated
    with ex obtain b where "swap_with_spring E' (move_right E') s = Some (s', b)" by (auto simp: move_right_animated_def)
    from moved_spring[OF this moved_right[OF inv]] MoveRightAnimated show ?thesis by simp
  next
    case MoveDownAnimated
    with ex obtain b where "swap_with_spring E' move_down s = Some (s', b)" by (auto simp: move_down_animated_def)
    from moved_spring[OF this moved_down[OF inv]] MoveDownAnimated show ?thesis by simp
  next
    case MoveUpAnimated
    with ex obtain b where "swap_with_spring E' move_up s = Some (s', b)" by (auto simp: move_up_animated_def)
    from moved_spring[OF this moved_up[OF inv]] MoveUpAnimated show ?thesis by simp
  next
    case (SwapInDirection d)
    with ex mL mR show ?thesis by (cases d) (auto simp: swap_window_in_direction_def)
  next
    case MoveColumnToFirst
    show ?thesis
    proof (cases "ss_focus s")
      case (FocusStack k)
      with ex MoveColumnToFirst mL show ?thesis by (auto simp: move_column_to_first_def)
    qed (use ex MoveColumnToFirst in \<open>auto simp: move_column_to_first_def spec_move_left_def ss_abs_def active_column_idx_def\<close>)
  next
    case (UpdateWindow i c)
    with ex have "skeleton s' = skeleton s" by (auto dest: update_window_skel)
    from skel_sim[OF this] UpdateWindow show ?thesis by simp
  next
    case (StartOpenAnimation i)
    with ex have "skeleton s' = skeleton s" by (auto dest: open_animation_skel)
    from skel_sim[OF this] StartOpenAnimation show ?thesis by simp
  next
    case (Refresh a f)
    with ex have "skeleton s' = skeleton s" by (auto simp: skel)
    from skel_sim[OF this] Refresh show ?thesis by simp
  next
    case AdvanceAnimations
    with ex have "skeleton s' = skeleton s" by (auto simp: skel)
    from skel_sim[OF this] AdvanceAnimations show ?thesis by simp
  next
    case (SetFullscreen i b)
    with set_fullscreen_inv[OF inv, of E' i b] ex show ?thesis by auto
  next
    case (SetMaximized i b)
    with set_maximized_inv[OF inv, of E' i b] ex show ?thesis by auto
  next
    case MoveLeft with ex mL show ?thesis by auto
  next
    case MoveRight with ex mR show ?thesis by auto
  next
    case MoveDown with ex mD show ?thesis by auto
  next
    case MoveUp with ex mU show ?thesis by auto
  next
    case (AddTile t a w f) with ex added_abs[OF inv] show ?thesis by (auto simp: ss_add_tile_def)
  next
    case (AddTileToColumn t a) with ex added_abs[OF inv] show ?thesis by (auto simp: ss_add_tile_to_column_def)
  next
    case (RemoveColumnByIdx k) with ex take_column_abs[OF inv] show ?thesis by auto
  next
    case RemoveActiveTile with ex remove_active_sim[OF inv] show ?thesis by auto
  next
    case RemoveActiveColumn with ex remove_column_sim[OF inv] show ?thesis by auto
  next
    case (ActivateWindow i) with ex activate_sim[OF inv] show ?thesis by (auto simp: ids split: option.split)
  next
    case MoveColumnToLast with ex move_to_last_sim[OF inv] show ?thesis
      by (auto simp: ids split: option.split nat.split)
  next
    case FocusDownOrLeft
    with ex focus_or_sim[where s = s and f = focus_down and g = focus_left
        and f' = spec_focus_down and g' = spec_focus_left, OF F(3) C(1,3) F(1)] show ?thesis by (simp add: focus_down_or_left_def)
  next
    case FocusDownOrRight
    with ex focus_or_sim[where s = s and f = focus_down and g = focus_right
        and f' = spec_focus_down and g' = "spec_focus_right (restored_stack_idx s)", OF F(3) C(1,3) F(2)] show ?thesis by (simp add: focus_down_or_right_def)
  next
    case FocusUpOrLeft
    with ex focus_or_sim[where s = s and f = focus_up and g = focus_left
        and f' = spec_focus_up and g' = spec_focus_left, OF F(4) C(2,4) F(1)] show ?thesis by (simp add: focus_up_or_left_def)
  next
    case FocusUpOrRight
    with ex focus_or_sim[where s = s and f = focus_up and g = focus_right
        and f' = spec_focus_up and g' = "spec_focus_right (restored_stack_idx s)", OF F(4) C(2,4) F(2)] show ?thesis by (simp add: focus_up_or_right_def)
  qed (use ex F in \<open>auto simp: ids configured_sim nudged_sim consume_or_expel_window_left_def
      consume_or_expel_window_right_def consume_into_column_def expel_from_column_def\<close>)
qed


text \<open>A space with three windows, the last added one focused.\<close>

definition space_three :: scrolling_space where
  "space_three = (let add = (\<lambda>i. ss_add_tile (env_blank 1) (tile_blank i) True (Fixed 100) False)
     in add 3 (add 2 (add 1 space_blank)))"

lemma blank_id [simp]: "tile_id (tile_blank i) = i"
  by (simp add: blank_defs)

lemma add_blank:
  assumes "ms_reach (env_blank 1) s" "i \<notin> set (ss_ids s)"
  shows "ms_reach (env_blank 1) (ss_add_tile (env_blank 1) (tile_blank i) True (Fixed 100) False s) \<and>
    ss_abs (ss_add_tile (env_blank 1) (tile_blank i) True (Fixed 100) False s) = (ss_ids s @ [i], Some (length (ss_ids s)))"
proof -
  have "ms_reach (env_blank 1) (ss_add_tile (env_blank 1) (tile_blank i) True (Fixed 100) False s)"
    by (rule ms_next[OF assms(1), where E' = "env_blank 1" and op = "AddTile (tile_blank i) True (Fixed 100) False"])
      (simp_all add: assms(2))
  moreover have "ss_abs (ss_add_tile (env_blank 1) (tile_blank i) True (Fixed 100) False s) =
      (ss_ids s @ [i], Some (length (ss_ids s)))"
    using added_abs[OF reach_inv[OF assms(1)]] by (simp add: ss_add_tile_def spec_add_def ss_abs_def[of s])
  ultimately show ?thesis ..
qed

lemma space_three: "ms_reach (env_blank 1) space_three" "ss_inv (env_blank 1) space_three"
  "ss_abs space_three = ([1, 2, 3], Some 2)"
proof -
  let ?add = "\<lambda>i. ss_add_tile (env_blank 1) (tile_blank i) True (Fixed 100) False"
  have ids: "ss_ids s = fst (ss_abs s)" for s by (simp add: ss_abs_def)
  have 1: "ms_reach (env_blank 1) (?add 1 space_blank) \<and> ss_abs (?add 1 space_blank) = ([1], Some 0)"
    using add_blank[OF space_blank_reach(1), of 1] by (simp add: space_blank_ids)
  then have 2: "ms_reach (env_blank 1) (?add 2 (?add 1 space_blank)) \<and>
      ss_abs (?add 2 (?add 1 space_blank)) = ([1, 2], Some 1)"
    using add_blank[of "?add 1 space_blank" 2] by (simp add: ids)
  then have 3: "ms_reach (env_blank 1) space_three \<and> ss_abs space_three = ([1, 2, 3], Some 2)"
    using add_blank[of "?add 2 (?add 1 space_blank)" 3] by (simp add: ids space_three_def)
  then show "ms_reach (env_blank 1) space_three" "ss_abs space_three = ([1, 2, 3], Some 2)" by blast+
  then show "ss_inv (env_blank 1) space_three" by (rule_tac reach_inv)
qed

theorem ms_refines_witness: "\<exists>s'. ms_exec (env_blank 1) MoveUp space_three = Some s' \<and> ss_abs s' = ([1, 3, 2], Some 1)"
proof -
  obtain s' b where m: "move_up space_three = Some (s', b)" using moves_total(4)[OF space_three(2)] by blast
  have "ss_abs s' = ms_spec (restored_stack_idx space_three) MoveUp (ss_abs space_three)"
    by (rule ms_refines[OF space_three(2), where E' = "env_blank 1"]) (simp add: m)
  with m show ?thesis by (simp add: space_three spec_move_up_def list_swap_def)
qed

section \<open>Consequences\<close>

lemma list_remove_filter: "distinct xs \<Longrightarrow> k < length xs \<Longrightarrow> list_remove k xs = filter (\<lambda>x. x \<noteq> xs ! k) xs"
proof (induction xs arbitrary: k)
  case (Cons x xs)
  show ?case
  proof (cases k)
    case 0
    have "filter (\<lambda>y. y \<noteq> x) xs = xs" using Cons.prems(1) by (intro filter_True) auto
    with 0 show ?thesis by (simp add: list_remove_def)
  next
    case (Suc j)
    with Cons show ?thesis by (auto simp: list_remove_Cons)
  qed
qed simp

lemma space_three_movable: "ss_movable (env_blank 1) space_three"
proof -
  have "list_all (\<lambda>c. Option.is_none (tl_move_x_animation (co_tile c)) \<and>
      Option.is_none (tl_move_y_animation (co_tile c))) (columns space_three) \<and>
      ac_off (ao_tile_movement (op_animations (ss_options space_three))) = False \<and>
      (case ac_kind (ao_tile_movement (op_animations (ss_options space_three))) of CfgEasing p \<Rightarrow> True | _ \<Rightarrow> False)"
    by code_simp
  then have nomove: "list_all (\<lambda>c. tl_move_x_animation (co_tile c) = None \<and> tl_move_y_animation (co_tile c) = None)
      (columns space_three)"
    and "\<exists>p. ac_kind (ao_tile_movement (op_animations (ss_options space_three))) = CfgEasing p"
    by (auto simp: Option.is_none_def split: cfg_kind.splits)
  then have "anim_new (env_blank 1) 1 0 0 (ao_tile_movement (op_animations (ss_options space_three))) \<noteq> None"
    using anim_new_easing by blast
  with nomove show "ss_movable (env_blank 1) space_three"
    by (simp add: ss_movable_def list_all_iff movable_def restartable_def del: not_None_eq)
qed

theorem ms_no_panic_witness:
  "ms_exec (env_blank 1) (RemoveTile 2) space_three \<noteq> None \<and> ms_exec (env_blank 1) MoveUpAnimated space_three \<noteq> None"
  using ms_no_panic[OF space_three(2), of "env_blank 1" "RemoveTile 2"]
    ms_no_panic[OF space_three(2), of "env_blank 1" MoveUpAnimated] space_three_movable space_three(3)
  by (simp add: ss_abs_def del: not_None_eq)

lemma removed_focus:
  assumes inv: "ss_inv E s" and r: "ss_remove_tile E' i s = Some (rt, s')"
  shows "tile_id (rt_tile rt) = i \<and> ss_ids s' = filter (\<lambda>j. j \<noteq> i) (ss_ids s) \<and>
    (\<forall>w. map_option mw_id (ss_active_window s) = Some w \<and> w \<noteq> i \<longrightarrow> map_option mw_id (ss_active_window s') = Some w)"
proof -
  obtain k where k: "position (\<lambda>j. j = i) (ss_ids s) = Some k" "ss_abs s' = spec_remove k (ss_abs s)"
    using remove_tile_sim[OF inv r] by blast
  note inv' = removed_tile[OF inv r]
  have d: "distinct (ss_ids s)" using inv by (simp add: ss_inv_def)
  have ki: "k < length (ss_ids s)" "ss_ids s ! k = i"
    using position_length[OF k(1)] position_Some[OF k(1)] by auto
  have a: "ss_ids s' = list_remove k (ss_ids s)"
    "active_column_idx s' = cursor_after_remove (length (ss_ids s)) k (active_column_idx s)"
    using k(2) by (simp_all add: ss_abs_def spec_remove_def)
  have "map_option mw_id (ss_active_window s') = Some w"
    if w: "map_option mw_id (ss_active_window s) = Some w" "w \<noteq> i" for w
  proof (cases "active_column_idx s")
    case None
    with w inv_cursor[OF inv] show ?thesis by (simp add: ss_active_window_def)
  next
    case (Some j)
    with w have j: "j < length (ss_ids s)" "ss_ids s ! j = w" using focused_id[OF inv Some] by auto
    with w(2) ki have "j \<noteq> k" by auto
    then have "active_column_idx s' = Some (if j < k then j else j - 1)"
      using a(2) Some j ki by (auto simp: cursor_after_remove_def)
    from focused_id[OF conjunct1[OF inv'] this] j ki \<open>j \<noteq> k\<close> show ?thesis
      by (auto simp: a(1) list_remove_def nth_append)
  qed
  with inv' a(1) list_remove_filter[OF d ki(1)] ki(2) show ?thesis by auto
qed

text \<open>Closing a window takes out exactly that window and keeps the order
  of the others; if it was not the focused one, the focus stays on the window it was on, although its
  index, and with the master its role, may change.\<close>

theorem removal_keeps_focus:
  assumes inv: "ss_inv E s" and r: "ss_remove_tile E' i s = Some (rt, s')"
  shows "tile_id (rt_tile rt) = i \<and> ss_ids s' = filter (\<lambda>j. j \<noteq> i) (ss_ids s) \<and>
    (\<forall>w. map_option mw_id (ss_active_window s) = Some w \<and> w \<noteq> i \<longrightarrow> map_option mw_id (ss_active_window s') = Some w)"
  using assms by (rule removed_focus)

theorem removal_keeps_focus_witness:
  "\<exists>rt s'. ss_remove_tile (env_blank 1) 1 space_three = Some (rt, s') \<and> ss_ids s' = [2, 3] \<and>
     map_option mw_id (ss_active_window s') = Some 3"
proof -
  have ids: "ss_ids space_three = [1, 2, 3]" "active_column_idx space_three = Some 2"
    using space_three(3) by (simp_all add: ss_abs_def)
  obtain rt s' where r: "ss_remove_tile (env_blank 1) 1 space_three = Some (rt, s')"
    using remove_tile_total[OF space_three(2) space_three_movable, of 1] by (auto simp: ids)
  have "map_option mw_id (ss_active_window space_three) = Some 3"
    using focused_id(2)[OF space_three(2) ids(2)] by (simp add: ids(1))
  with removal_keeps_focus[OF space_three(2) r] r show ?thesis by (auto simp: ids(1))
qed

text \<open>Property C9. Moving a window of the stack to the master and back puts every window,
  and the focus, back where it was: the row it came from is remembered.\<close>

theorem move_left_right:
  assumes inv: "ss_inv E s" and f: "ss_focus s = FocusStack k"
  shows "\<exists>s1 s2. move_left E' s = Some (s1, True) \<and> move_right E'' s1 = Some (s2, True) \<and> ss_abs s2 = ss_abs s"
proof -
  let ?s = "\<lambda>m. s\<lparr>ss_stack := (ss_stack s)[k := m], ss_master := Some (ss_stack s ! k),
    ss_focus := FocusMaster, ss_last_stack_idx := Some k\<rparr>"
  obtain m where m: "ss_master s = Some m" "k < length (ss_stack s)"
    and mv: "move_left E' s = Some (update_tile_sizes E' (?s m), True)"
    by (rule move_left_eq[OF inv f])
  let ?s1 = "update_tile_sizes E' (?s m)"
  have sk: "skeleton ?s1 = skeleton (?s m)" by (rule update_tile_sizes_skel)
  have st: "length (ss_stack ?s1) = length (ss_stack s)" "ss_last_stack_idx ?s1 = Some k" "ss_focus ?s1 = FocusMaster"
    using skeleton_sel(10)[OF sk] skeleton_sel(2)[OF sk] skeleton_sel(1)[OF sk] by simp_all
  then have row: "restored_stack_idx ?s1 = k" using m by (simp add: restored_stack_idx_def)
  note l = moved_left[OF inv mv]
  have ne: "ss_stack ?s1 \<noteq> []" using st(1) m(2) by auto
  obtain s2 where s2: "move_right E'' ?s1 = Some (s2, True)"
    by (rule move_right_eq[OF conjunct1[OF l] st(3) ne]) blast
  from moved_right[OF conjunct1[OF l] s2] have "ss_abs s2 = spec_move_right k (ss_abs ?s1)" unfolding row by blast
  also have "\<dots> = spec_move_right k (spec_move_left (ss_abs s))" using l by simp
  also have "\<dots> = ss_abs s"
  proof -
    have "length (ss_ids s) = Suc (length (ss_stack s))" using inv_ids_length[OF inv] m by simp
    with m(2) show ?thesis
      by (auto simp: ss_abs_def active_column_idx_def f spec_move_left_def spec_move_right_def list_swap_def list_eq_iff_nth_eq nth_list_update)
  qed
  finally show ?thesis using mv s2 by blast
qed

theorem move_left_right_witness:
  "\<exists>s1 s2. move_left (env_blank 1) space_three = Some (s1, True) \<and>
     move_right (env_blank 1) s1 = Some (s2, True) \<and> ss_abs s2 = ss_abs space_three"
proof -
  have "active_column_idx space_three = Some 2" using space_three(3) by (simp add: ss_abs_def)
  then have "ss_focus space_three = FocusStack 1" by (auto simp: active_column_idx_def split: focus.splits)
  from move_left_right[OF space_three(2) this] show ?thesis .
qed

end
