(* ===== verification/MasterStackGeometry.thy ===== *)
theory MasterStackGeometry
  imports MasterStackRefinement
begin

text \<open>
  Where the master-stack engine puts its windows: the slots are inside the working area, a gap apart and
  leave nothing unused; the working area is inside the parent area; and no command makes a tile jump,
  since the tiles of the windows that stay are sprung from where they were drawn.
\<close>

section \<open>The slots\<close>

abbreviation slot_x1 :: "nat \<times> point \<times> size \<Rightarrow> f64" where "slot_x1 l \<equiv> pt_x (fst (snd l))"
abbreviation slot_y1 :: "nat \<times> point \<times> size \<Rightarrow> f64" where "slot_y1 l \<equiv> pt_y (fst (snd l))"
abbreviation slot_w :: "nat \<times> point \<times> size \<Rightarrow> f64" where "slot_w l \<equiv> sz_w (snd (snd l))"
abbreviation slot_h :: "nat \<times> point \<times> size \<Rightarrow> f64" where "slot_h l \<equiv> sz_h (snd (snd l))"

text \<open>Apart by at least a gap, horizontally or vertically.\<close>

definition apart :: "f64 \<Rightarrow> nat \<times> point \<times> size \<Rightarrow> nat \<times> point \<times> size \<Rightarrow> bool" where
  "apart g a b \<longleftrightarrow>
     slot_x1 a + slot_w a + g \<le> slot_x1 b \<or> slot_x1 b + slot_w b + g \<le> slot_x1 a \<or>
     slot_y1 a + slot_h a + g \<le> slot_y1 b \<or> slot_y1 b + slot_h b + g \<le> slot_y1 a"

definition inside :: "rect \<Rightarrow> f64 \<Rightarrow> nat \<times> point \<times> size \<Rightarrow> bool" where
  "inside area g a \<longleftrightarrow>
     pt_x (rloc area) + g \<le> slot_x1 a \<and> slot_x1 a + slot_w a + g \<le> pt_x (rloc area) + sz_w (rsize area) \<and>
     pt_y (rloc area) + g \<le> slot_y1 a \<and> slot_y1 a + slot_h a + g \<le> pt_y (rloc area) + sz_h (rsize area)"

text \<open>The area has room for the gaps, the narrowest column and one pixel for each row.\<close>

definition has_room :: "scrolling_space \<Rightarrow> bool" where
  "has_room s \<longleftrightarrow>
     (let g = lo_gaps (op_layout (ss_options s)); area = rsize (ss_working_area s)
      in 0 \<le> g \<and> 3 * g + 7 \<le> sz_w area \<and> (real (length (ss_stack s)) + 2) * g + 1 \<le> sz_h area)"

definition stack_slot :: "scrolling_space \<Rightarrow> nat \<Rightarrow> nat \<times> point \<times> size" where
  "stack_slot s i =
    (let work = ss_working_area s; g = lo_gaps (op_layout (ss_options s)); n = real (length (ss_stack s));
         w = sz_w (rsize work) - 3 * g; m = w * ss_master_ratio s;
         h = (sz_h (rsize work) - 2 * g - (n - 1) * g) / n
     in (i + 1, mk_point (pt_x (rloc work) + g + m + g) (pt_y (rloc work) + g + real i * (h + g)), mk_size (w - m) h))"

definition master_slot :: "scrolling_space \<Rightarrow> nat \<times> point \<times> size" where
  "master_slot s =
    (let work = ss_working_area s; g = lo_gaps (op_layout (ss_options s));
         w = (if ss_stack s = [] then sz_w (rsize work) - 2 * g
              else (sz_w (rsize work) - 3 * g) * ss_master_ratio s)
     in (0, mk_point (pt_x (rloc work) + g) (pt_y (rloc work) + g), mk_size w (sz_h (rsize work) - 2 * g)))"

text \<open>With room, none of the lower bounds of one pixel in \<open>column_layout\<close> is effective.\<close>

lemma layout_with_room:
  assumes inv: "ss_inv E s" and room: "has_room s" and m: "ss_master s \<noteq> None"
  shows "column_layout s = master_slot s # map (stack_slot s) [0..<length (ss_stack s)]"
proof -
  let ?g = "lo_gaps (op_layout (ss_options s))" and ?area = "rsize (ss_working_area s)" and ?r = "ss_master_ratio s"
  let ?n = "real (length (ss_stack s))"
  from room have g: "0 \<le> ?g" and w: "3 * ?g + 7 \<le> sz_w ?area" and h: "(?n + 2) * ?g + 1 \<le> sz_h ?area"
    by (simp_all add: has_room_def Let_def)
  have r: "0.15 \<le> ?r" "?r \<le> 0.85" using inv by (simp_all add: ss_inv_def)
  have ng: "0 \<le> ?n * ?g" using g by simp
  have h1: "max (sz_h ?area - 2 * ?g) 1 = sz_h ?area - 2 * ?g"
    using h ng by (simp add: algebra_simps max_def)
  have w1: "max (sz_w ?area - 2 * ?g) 1 = sz_w ?area - 2 * ?g" "max (sz_w ?area - 3 * ?g) 1 = sz_w ?area - 3 * ?g"
    using w g by simp_all
  have "7 * 0.15 \<le> (sz_w ?area - 3 * ?g) * ?r" "7 * 0.15 \<le> (sz_w ?area - 3 * ?g) * (1 - ?r)"
    using w r by (intro mult_mono; simp)+
  then have w2: "max ((sz_w ?area - 3 * ?g) * ?r) 1 = (sz_w ?area - 3 * ?g) * ?r"
    "max (sz_w ?area - 3 * ?g - (sz_w ?area - 3 * ?g) * ?r) 1 = sz_w ?area - 3 * ?g - (sz_w ?area - 3 * ?g) * ?r"
    by (simp_all add: algebra_simps max_def)
  have h2: "max (sz_h ?area - 2 * ?g - (?n - 1) * ?g) 1 = sz_h ?area - 2 * ?g - (?n - 1) * ?g"
    using h g by (simp add: algebra_simps max_def)
  obtain c where c: "ss_master s = Some c" using m by auto
  show ?thesis
  proof (cases "ss_stack s")
    case Nil
    then show ?thesis by (simp add: column_layout_def master_slot_def Let_def h1 w1 c)
  next
    case (Cons x xs)
    then have ne: "length (ss_stack s) \<noteq> 0" "ss_stack s \<noteq> []" by simp_all
    show ?thesis
      unfolding column_layout_def master_slot_def stack_slot_def Let_def h1 w1 w2 h2 c
      by (simp add: ne del: upt_Suc)
  qed
qed

lemma stack_height:
  "0 < (n::nat) \<Longrightarrow> real n * ((H - 2 * g - (real n - 1) * g) / real n + g) = H - g"
  by (simp add: field_simps)

lemma stack_slot_inside:
  assumes inv: "ss_inv E s" and room: "has_room s" and i: "i < length (ss_stack s)"
  shows "inside (ss_working_area s) (lo_gaps (op_layout (ss_options s))) (stack_slot s i)"
proof -
  let ?g = "lo_gaps (op_layout (ss_options s))" and ?H = "sz_h (rsize (ss_working_area s))"
  let ?n = "length (ss_stack s)"
  define h where "h = (?H - 2 * ?g - (real ?n - 1) * ?g) / real ?n"
  have n: "0 < ?n" using i by linarith
  have room': "0 \<le> ?g" "(real ?n + 2) * ?g + 1 \<le> ?H" using room by (simp_all add: has_room_def Let_def)
  have "0 \<le> ?H - 2 * ?g - (real ?n - 1) * ?g" using room' by (simp add: algebra_simps)
  then have hg: "0 \<le> h + ?g" using room' by (simp add: h_def)
  have e: "real ?n * (h + ?g) = ?H - ?g" using stack_height[OF n] by (simp add: h_def)
  have "(real i + 1) * (h + ?g) \<le> real ?n * (h + ?g)" using hg i by (intro mult_right_mono) linarith+
  then have "real i * (h + ?g) + h + ?g \<le> ?H - ?g" unfolding e by (simp add: algebra_simps)
  moreover have "0 \<le> real i * (h + ?g)" using hg by simp
  moreover have "0 \<le> (sz_w (rsize (ss_working_area s)) - 3 * ?g) * ss_master_ratio s"
    using inv room by (intro mult_nonneg_nonneg) (simp_all add: has_room_def Let_def ss_inv_def)
  moreover note room'(1)
  ultimately show ?thesis
    by (simp add: inside_def stack_slot_def Let_def flip: h_def)
qed

lemma master_slot_inside: "ss_inv E s \<Longrightarrow> has_room s \<Longrightarrow>
  inside (ss_working_area s) (lo_gaps (op_layout (ss_options s))) (master_slot s)"
proof -
  assume inv: "ss_inv E s" and room: "has_room s"
  let ?g = "lo_gaps (op_layout (ss_options s))" and ?W = "sz_w (rsize (ss_working_area s))"
  have "(?W - 3 * ?g) * ss_master_ratio s \<le> (?W - 3 * ?g) * 1"
    using inv room by (intro mult_left_mono) (simp_all add: has_room_def Let_def ss_inv_def)
  moreover have "0 \<le> ?g" using room by (simp add: has_room_def Let_def)
  ultimately show ?thesis by (simp add: inside_def master_slot_def Let_def)
qed

lemma stack_slots_apart:
  assumes "has_room s" "i < j" "j < length (ss_stack s)"
  shows "apart (lo_gaps (op_layout (ss_options s))) (stack_slot s i) (stack_slot s j)"
proof -
  let ?g = "lo_gaps (op_layout (ss_options s))" and ?H = "sz_h (rsize (ss_working_area s))"
  let ?n = "length (ss_stack s)"
  define h where "h = (?H - 2 * ?g - (real ?n - 1) * ?g) / real ?n"
  have room': "0 \<le> ?g" "(real ?n + 2) * ?g + 1 \<le> ?H" using assms(1) by (simp_all add: has_room_def Let_def)
  have "0 \<le> ?H - 2 * ?g - (real ?n - 1) * ?g" using room' by (simp add: algebra_simps)
  then have hg: "0 \<le> h + ?g" using room' by (simp add: h_def)
  have "(real i + 1) * (h + ?g) \<le> real j * (h + ?g)" using assms(2) hg by (intro mult_right_mono) linarith+
  then show ?thesis
    by (simp add: apart_def stack_slot_def Let_def flip: h_def) (simp add: algebra_simps)
qed

lemma apart_sym: "apart g a b = apart g b a"
  by (auto simp: apart_def)

lemma master_stack_apart: "i < length (ss_stack s) \<Longrightarrow>
  apart (lo_gaps (op_layout (ss_options s))) (master_slot s) (stack_slot s i)"
  by (cases "ss_stack s") (simp_all add: apart_def master_slot_def stack_slot_def Let_def)

text \<open>Property C5. On a working area with room for the gaps, seven pixels and one pixel
  for each row, the slots are inside the area, a gap away from its edges, any two of them are at least a
  gap apart, and together with the gaps they use up the whole area.\<close>

theorem layout_partitions:
  assumes inv: "ss_inv E s" and room: "has_room s" and m: "ss_master s \<noteq> None"
  defines "g \<equiv> lo_gaps (op_layout (ss_options s))" and "area \<equiv> ss_working_area s"
  shows "list_all (inside area g) (column_layout s) \<and> sorted_wrt (apart g) (column_layout s) \<and>
    (\<Sum>l\<leftarrow>column_layout s. (slot_w l + g) * (slot_h l + g)) = (sz_w (rsize area) - g) * (sz_h (rsize area) - g)"
proof -
  let ?n = "length (ss_stack s)"
  note l = layout_with_room[OF inv room m]
  have "sorted_wrt (apart g) (map (stack_slot s) [0..<?n])"
    unfolding sorted_wrt_map by (rule sorted_wrt_mono_rel[OF _ sorted_wrt_upt])
      (use stack_slots_apart[OF room] in \<open>auto simp: g_def\<close>)
  moreover have "\<forall>i < ?n. apart g (master_slot s) (stack_slot s i)"
    using master_stack_apart[where s = s] by (auto simp: g_def)
  moreover have "list_all (inside area g) (column_layout s)"
    unfolding l using stack_slot_inside[OF inv room] master_slot_inside[OF inv room]
    by (simp add: list_all_iff g_def area_def)
  moreover have "(\<Sum>l\<leftarrow>column_layout s. (slot_w l + g) * (slot_h l + g)) =
    (sz_w (rsize area) - g) * (sz_h (rsize area) - g)"
  proof (cases "ss_stack s")
    case Nil
    then show ?thesis unfolding l by (simp add: master_slot_def Let_def g_def area_def algebra_simps)
  next
    case (Cons x xs)
    then have n: "0 < ?n" "ss_stack s \<noteq> []" by simp_all
    define mw where "mw = (sz_w (rsize area) - 3 * g) * ss_master_ratio s"
    define sw where "sw = sz_w (rsize area) - 3 * g - mw"
    define h where "h = (sz_h (rsize area) - 2 * g - (real ?n - 1) * g) / real ?n"
    have "slot_w (stack_slot s i) = sw \<and> slot_h (stack_slot s i) = h" for i
      by (simp add: stack_slot_def Let_def sw_def mw_def h_def area_def g_def)
    moreover have "slot_w (master_slot s) = mw \<and> slot_h (master_slot s) = sz_h (rsize area) - 2 * g"
      using n by (simp add: master_slot_def Let_def mw_def area_def g_def)
    ultimately have "(\<Sum>l\<leftarrow>column_layout s. (slot_w l + g) * (slot_h l + g)) =
        (mw + g) * (sz_h (rsize area) - g) + (sw + g) * (real ?n * (h + g))"
      unfolding l by (simp add: comp_def sum_list_triv)
    also have "real ?n * (h + g) = sz_h (rsize area) - g"
      using stack_height[OF n(1)] by (simp add: h_def)
    also have "(mw + g) * (sz_h (rsize area) - g) + (sw + g) * (sz_h (rsize area) - g) =
        (sz_w (rsize area) - g) * (sz_h (rsize area) - g)"
      unfolding distrib_right[symmetric] by (simp add: sw_def)
    finally show ?thesis .
  qed
  ultimately show ?thesis unfolding l by simp
qed

theorem layout_partitions_witness:
  "list_all (inside (ss_working_area space_three) 10) (column_layout space_three) \<and>
   sorted_wrt (apart 10) (column_layout space_three)"
proof -
  have room: "has_room space_three" and g: "lo_gaps (op_layout (ss_options space_three)) = 10"
    and m: "\<not> Option.is_none (ss_master space_three)"
    by code_simp+
  have "ss_master space_three \<noteq> None" using m by (simp add: Option.is_none_def)
  from layout_partitions[OF space_three(2) room this] show ?thesis unfolding g by blast
qed


section \<open>No tile jumps\<close>

definition tile_of :: "nat \<Rightarrow> scrolling_space \<Rightarrow> tile option" where
  "tile_of i s = map_option co_tile (find (\<lambda>c. column_id c = i) (columns s))"

text \<open>Where the tile of a window is drawn: its slot, displaced by its animations.\<close>

definition drawn_at :: "env \<Rightarrow> nat \<Rightarrow> scrolling_space \<Rightarrow> point option" where
  "drawn_at E i s = do { t \<leftarrow> tile_of i s; p \<leftarrow> slot_of i s; Some (pt_add p (render_offset E t)) }"

definition near :: "point \<Rightarrow> point \<Rightarrow> bool" where
  "near p q \<longleftrightarrow> \<bar>pt_x p - pt_x q\<bar> < 0.5 \<and> \<bar>pt_y p - pt_y q\<bar> < 0.5"

text \<open>No interactive move displaces the tile and no movement was started with animations off.\<close>

definition steady :: "tile \<Rightarrow> bool" where
  "steady t \<longleftrightarrow> move_on (tl_move_x_animation t) \<and> move_on (tl_move_y_animation t) \<and>
     tl_interactive_move_offset t = mk_point 0 0"

definition motion where
  "motion t = (tl_move_x_animation t, tl_move_y_animation t, tl_interactive_move_offset t)"

lemma motion_draws: "motion t = motion t' \<Longrightarrow> render_offset E t = render_offset E t' \<and> steady t = steady t'"
  by (simp add: motion_def render_offset_def steady_def)

lemma spring_tile_drawn:
  assumes sp: "spring_tile E cfg (pt_sub old new) t = Some t'" and st: "steady t"
  shows "near (pt_add new (render_offset E t')) (pt_add old (render_offset E t))"
proof -
  let ?dx = "pt_x (pt_sub old new)" and ?dy = "pt_y (pt_sub old new)"
  obtain t1 where t1: "(if \<bar>?dx\<bar> \<ge> 0.5 then animate_move_x_from_with_config E ?dx cfg t else Some t) = Some t1"
    and t2: "(if \<bar>?dy\<bar> \<ge> 0.5 then animate_move_y_from_with_config E ?dy cfg t1 else Some t1) = Some t'"
    using sp by (auto simp: spring_tile_def bind_eq_Some_conv)
  have x: "pt_y (render_offset E t1) = pt_y (render_offset E t) \<and> move_on (tl_move_y_animation t1) \<and>
      \<bar>pt_x (render_offset E t1) - pt_x (render_offset E t) - ?dx\<bar> < 0.5 \<and> tl_interactive_move_offset t1 = mk_point 0 0"
  proof (cases "\<bar>?dx\<bar> \<ge> 0.5")
    case True
    with t1 obtain m where "move_animation_from E ?dx (pt_x (render_offset E t)) cfg (tl_move_x_animation t) = Some m"
        "t1 = t\<lparr>tl_move_x_animation := Some m\<rparr>"
      by (auto simp: animate_move_x_from_with_config_def bind_eq_Some_conv)
    with st move_animation_from_value[OF this(1)] show ?thesis
      by (simp add: render_offset_sel steady_def mk_point_def)
  qed (use t1 st in \<open>auto simp: steady_def abs_minus_commute\<close>)
  have y: "pt_x (render_offset E t') = pt_x (render_offset E t1) \<and>
      \<bar>pt_y (render_offset E t') - pt_y (render_offset E t1) - ?dy\<bar> < 0.5"
  proof (cases "\<bar>?dy\<bar> \<ge> 0.5")
    case True
    with t2 obtain m where "move_animation_from E ?dy (pt_y (render_offset E t1)) cfg (tl_move_y_animation t1) = Some m"
        "t' = t1\<lparr>tl_move_y_animation := Some m\<rparr>"
      by (auto simp: animate_move_y_from_with_config_def bind_eq_Some_conv)
    with x move_animation_from_value[OF this(1)] show ?thesis
      by (simp add: render_offset_sel mk_point_def)
  qed (use t2 in \<open>auto simp: abs_minus_commute\<close>)
  have "pt_x (pt_add new (render_offset E t')) - pt_x (pt_add old (render_offset E t)) =
      pt_x (render_offset E t1) - pt_x (render_offset E t) - ?dx"
    using y by (simp add: pt_sub_def pt_add_def)
  moreover have "pt_y (pt_add new (render_offset E t')) - pt_y (pt_add old (render_offset E t)) =
      pt_y (render_offset E t') - pt_y (render_offset E t1) - ?dy"
    using x by (simp add: pt_sub_def pt_add_def)
  ultimately show ?thesis using x y unfolding near_def by argo
qed

lemma find_update_first:
  assumes "update_first i f cs = Some cs'" "\<And>t t'. f t = Some t' \<Longrightarrow> tile_id t' = tile_id t"
  shows "map_option co_tile (find (\<lambda>c. column_id c = j) cs') =
    (if j = i then Option.bind (map_option co_tile (find (\<lambda>c. column_id c = i) cs)) f
     else map_option co_tile (find (\<lambda>c. column_id c = j) cs))"
  using assms(1)
proof (induction cs arbitrary: cs')
  case (Cons c cs)
  show ?case
  proof (cases "column_id c = i")
    case True
    with Cons.prems obtain t where t: "f (co_tile c) = Some t" "cs' = c\<lparr>co_tile := t\<rparr> # cs"
      by (auto simp: bind_eq_Some_conv)
    with assms(2)[OF t(1)] True show ?thesis by simp
  next
    case False
    with Cons.prems obtain cs1 where "update_first i f cs = Some cs1" "cs' = c # cs1"
      by (auto simp: bind_eq_Some_conv)
    with Cons.IH[OF this(1)] False show ?thesis by auto
  qed
qed simp

lemma tile_of_update:
  assumes "update_column_by_id i f s = Some s'" "\<And>t t'. f t = Some t' \<Longrightarrow> tile_id t' = tile_id t"
  shows "tile_of j s' = (if j = i then Option.bind (tile_of i s) f else tile_of j s)"
proof -
  obtain cs where cs: "update_first i f (columns s) = Some cs" "s' = with_columns (\<lambda>_. cs) s"
    using assms(1) by (auto simp: update_column_by_id_def bind_eq_Some_conv)
  have "length cs = length (columns s)"
    using arg_cong[OF update_first_keys[OF cs(1) assms(2)], of length] by simp
  then have "columns s' = cs" unfolding cs(2) by (intro columns_with)
  with find_update_first[OF cs(1) assms(2)] show ?thesis by (simp add: tile_of_def)
qed

lemma skeleton_slots:
  assumes "skeleton s = skeleton s'"
  shows "slots s = slots s'"
proof -
  have nth: "map_option column_id (vec_get xs i) = map_option column_id (vec_get ys i)"
    if "map column_key xs = map column_key ys" for xs ys i
  proof -
    have "length xs = length ys" using that by (rule map_eq_imp_length_eq)
    with arg_cong[OF column_key_id[OF that], of "\<lambda>zs. zs ! i"] show ?thesis by (auto simp: vec_get_def)
  qed
  have m: "map_option column_id (ss_master s) = map_option column_id (ss_master s')"
    using arg_cong[OF skeleton_sel(12)[OF assms], of "map_option fst"]
    by (simp add: option.map_comp comp_def column_key_def)
  have c: "map_option column_id (column_by_unified_idx i s) = map_option column_id (column_by_unified_idx i s')" for i
    using m nth[OF skeleton_sel(13)[OF assms]] by (simp add: column_by_unified_idx_def)
  have e: "map_option (\<lambda>c. (i, column_id c, p)) (column_by_unified_idx i s) =
      map_option (\<lambda>c. (i, column_id c, p)) (column_by_unified_idx i s')" for i and p :: point
    using arg_cong[OF c[of i], of "map_option (\<lambda>j. (i, j, p))"] by (simp add: option.map_comp comp_def)
  show ?thesis unfolding slots_def skeleton_layout[OF assms] e ..
qed

lemma skeleton_slot_of: "skeleton s = skeleton s' \<Longrightarrow> slot_of i s = slot_of i s'"
  unfolding slot_of_def using skeleton_slots[of s s'] by simp

text \<open>What springing does to the tile of one window.\<close>

definition sprung :: "env \<Rightarrow> anim_config \<Rightarrow> point option \<Rightarrow> point option \<Rightarrow> tile option \<Rightarrow> tile option" where
  "sprung E cfg old new t = (case (old, new) of
     (Some p, Some q) \<Rightarrow> if near p q then t else Option.bind t (spring_tile E cfg (pt_sub p q)) | _ \<Rightarrow> t)"

lemma spring_all_tiles:
  assumes "spring_all E pre s = Some s'" "distinct (map fst pre)"
  shows "tile_of i s' = sprung E (ao_tile_movement (op_animations (ss_options s))) (map_of pre i) (slot_of i s) (tile_of i s)"
  using assms
proof (induction pre arbitrary: s)
  case (Cons p pre)
  obtain j old where p: "p = (j, old)" by (cases p)
  let ?cfg = "ao_tile_movement (op_animations (ss_options s))"
  have j: "map_of pre j = None" using Cons.prems(2) by (auto simp: p map_of_eq_None_iff)
  show ?case
  proof (cases "slot_of j s")
    case None
    with Cons.prems Cons.IH[of s] j show ?thesis by (auto simp: p sprung_def split: option.splits)
  next
    case (Some new)
    have n: "(\<bar>pt_x (pt_sub old new)\<bar> < 0.5 \<and> \<bar>pt_y (pt_sub old new)\<bar> < 0.5) = near old new"
      by (simp add: near_def pt_sub_def)
    show ?thesis
    proof (cases "near old new")
      case True
      with Cons.prems Some have "spring_all E pre s = Some s'"
        unfolding p spring_all.simps Some option.case Let_def n by simp
      with Cons.IH[of s] Cons.prems(2) j Some True show ?thesis by (auto simp: p sprung_def)
    next
      case False
      then obtain s1 where s1: "update_column_by_id j (spring_tile E ?cfg (pt_sub old new)) s = Some s1"
          "spring_all E pre s1 = Some s'"
        using Cons.prems(1) unfolding p spring_all.simps Some option.case Let_def n by (auto simp: bind_eq_Some_conv)
      have sk: "skeleton s1 = skeleton s"
        using update_column_by_id_skel[OF s1(1)] spring_tile_id by blast
      have t: "tile_of i s1 = (if i = j then Option.bind (tile_of j s) (spring_tile E ?cfg (pt_sub old new)) else tile_of i s)"
        by (rule tile_of_update[OF s1(1)]) (rule spring_tile_id)
      have "tile_of i s' = sprung E ?cfg (map_of pre i) (slot_of i s) (tile_of i s1)"
        using Cons.IH[OF s1(2)] Cons.prems(2)
        unfolding skeleton_slot_of[OF sk] skeleton_sel(8)[OF sk] by (simp add: p)
      with j Some False t show ?thesis by (auto simp: p sprung_def)
    qed
  qed
qed (simp add: sprung_def)


text \<open>The slots are those of the windows in order.\<close>

lemma layout_indices: "ss_inv E s \<Longrightarrow> map fst (column_layout s) = [0..<length (columns s)]"
proof -
  assume inv: "ss_inv E s"
  show ?thesis
  proof (cases "ss_master s")
    case None
    with inv show ?thesis by (simp add: ss_inv_def column_layout_def columns_def Let_def)
  next
    case (Some m)
    have "0 # [Suc 0..<Suc n] = [0..<Suc n]" for n by (simp add: upt_conv_Cons del: upt_Suc)
    with Some show ?thesis
      by (cases "ss_stack s = []", simp add: column_layout_def columns_def Let_def)
        (simp add: column_layout_def columns_def Let_def comp_def map_Suc_upt del: upt_Suc)
  qed
qed

lemma column_at_index: "ss_inv E s \<Longrightarrow> i < length (columns s) \<Longrightarrow> column_by_unified_idx i s = Some (columns s ! i)"
  by (cases i) (auto simp: column_by_unified_idx_def columns_def vec_get_def ss_inv_def split: option.splits)

lemma slots_map:
  assumes inv: "ss_inv E s"
  shows "slots s = map (\<lambda>(u, p, _). (u, column_id (columns s ! u), p)) (column_layout s)"
proof -
  have "List.map_filter (\<lambda>(u, p, _). map_option (\<lambda>c. (u, column_id c, p)) (column_by_unified_idx u s)) l =
      map (\<lambda>(u, p, _). (u, column_id (columns s ! u), p)) l"
    if "\<forall>u \<in> set (map fst l). u < length (columns s)" for l :: "(nat \<times> point \<times> size) list"
    using that column_at_index[OF inv] by (induction l) (auto simp: map_filter_simps)
  moreover have "\<forall>u \<in> set (map fst (column_layout s)). u < length (columns s)"
    unfolding layout_indices[OF inv] by simp
  ultimately show ?thesis unfolding slots_def by blast
qed

lemma slots_in_order:
  assumes inv: "ss_inv E s"
  shows "map (\<lambda>(u, i, _). (u, i)) (slots s) = zip [0..<length (ss_ids s)] (ss_ids s)"
proof -
  have "map (\<lambda>(u, i, _). (u, i)) (slots s) = map (\<lambda>u. (u, column_id (columns s ! u))) (map fst (column_layout s))"
    by (auto simp: slots_map[OF inv] comp_def split_def)
  then show ?thesis unfolding layout_indices[OF inv]
    by (auto simp: ss_ids_def intro!: nth_equalityI)
qed

lemma slot_windows: "ss_inv E s \<Longrightarrow> map (\<lambda>(_, i, _). i) (slots s) = ss_ids s"
proof -
  assume inv: "ss_inv E s"
  have "map (\<lambda>(_, i, _). i) (slots s) = map snd (map (\<lambda>(u, i, _). (u, i)) (slots s))"
    by (auto simp: comp_def split_def)
  then show ?thesis unfolding slots_in_order[OF inv] by simp
qed

lemma positions_distinct:
  assumes "ss_inv E s"
  shows "distinct (map fst (slot_positions P s))"
proof -
  have "map fst (slot_positions P s) = map (\<lambda>(_, i, _). i) (filter (\<lambda>(u, _). P u) (slots s))"
    by (auto simp: slot_positions_def comp_def split_def)
  moreover have "distinct (map (\<lambda>(_, i, _). i) (slots s))"
    using assms by (simp add: slot_windows[OF assms] ss_inv_def)
  ultimately show ?thesis by (simp add: distinct_map_filter)
qed

lemma map_of_slot: "map_of (slot_positions (\<lambda>_. True) s) i = slot_of i s"
proof -
  have "map_of (map snd l) i = map_option (\<lambda>(_, _, pos). pos) (find (\<lambda>(_, j, _). j = i) l)"
    for l :: "(nat \<times> nat \<times> point) list"
    by (induction l) auto
  then show ?thesis by (simp add: slot_positions_def slot_of_def)
qed

section \<open>What the commands leave of the motion of the tiles\<close>

definition motions where
  "motions s = map (\<lambda>c. (column_id c, motion (co_tile c))) (columns s)"

lemma tile_of_motion:
  assumes "distinct (ss_ids s)" "tile_of i s = Some t" "set (motions s0) \<subseteq> set (motions s)" "tile_of i s0 = Some t0"
  shows "motion t0 = motion t"
proof -
  have mem: "(i, motion t') \<in> set (motions s')" if "tile_of i s' = Some t'" for s' t'
    using that by (auto simp: tile_of_def motions_def find_Some_iff intro!: image_eqI nth_mem)
  have "distinct (map fst (motions s))" using assms(1) by (simp add: motions_def comp_def ss_ids_def)
  then show ?thesis using subsetD[OF assms(3) mem[OF assms(4)]] mem[OF assms(2)]
    by (rule eq_key_imp_eq_value)
qed

lemma motions_subset: "set (columns s0) \<subseteq> set (columns s) \<Longrightarrow> set (motions s0) \<subseteq> set (motions s)"
  by (auto simp: motions_def)

lemma tile_sizes_motion: "motions (update_tile_sizes E s) = motions s"
proof -
  let ?f = "\<lambda>((_, _, sz), c).
        if co_is_pending_fullscreen c \<or> co_is_pending_maximized c then c
        else c\<lparr>co_tile := request_tile_size E sz False None (co_tile c)\<rparr>"
  have "columns (update_tile_sizes E s) = map ?f (zip (column_layout s) (columns s))"
    unfolding update_tile_sizes_def by (rule columns_with) (simp add: column_layout_length)
  moreover have "map (\<lambda>c. (column_id c, motion (co_tile c))) (map ?f (zip l cs)) =
      map (\<lambda>c. (column_id c, motion (co_tile c))) cs" if "length l = length cs" for l :: "(nat \<times> point \<times> size) list" and cs
    using that by (induction l cs rule: list_induct2) (auto simp: motion_def tile_simps)
  ultimately show ?thesis by (simp add: motions_def column_layout_length)
qed


lemma moves_motion:
  assumes "ss_inv E s"
  shows "move_left E' s = Some (s', b) \<Longrightarrow> set (motions s') \<subseteq> set (motions s) \<and> ss_options s' = ss_options s"
    "move_right E' s = Some (s', b) \<Longrightarrow> set (motions s') \<subseteq> set (motions s) \<and> ss_options s' = ss_options s"
    "move_down s = Some (s', b) \<Longrightarrow> set (motions s') \<subseteq> set (motions s) \<and> ss_options s' = ss_options s"
    "move_up s = Some (s', b) \<Longrightarrow> set (motions s') \<subseteq> set (motions s) \<and> ss_options s' = ss_options s"
proof -
  have A: "set (motions s') \<subseteq> set (motions s) \<and> ss_options s' = ss_options s"
    if ex: "\<exists>t b s0. r = Some (t, b) \<and> set (columns s0) \<subseteq> set (columns s) \<and> ss_options s0 = ss_options s \<and>
      (t = s0 \<or> t = update_tile_sizes E' s0)" and r: "r = Some (s', b)" for r and b :: bool
  proof -
    obtain s0 where s0: "set (columns s0) \<subseteq> set (columns s)" "ss_options s0 = ss_options s"
        "s' = s0 \<or> s' = update_tile_sizes E' s0"
      using ex r by auto
    from s0(2,3) motions_subset[OF s0(1)] show ?thesis
      by (auto simp only: tile_sizes_motion skeleton_sel(8)[OF update_tile_sizes_skel])
  qed
  note c = moves_cases[OF assms, of E']
  show "move_left E' s = Some (s', b) \<Longrightarrow> set (motions s') \<subseteq> set (motions s) \<and> ss_options s' = ss_options s"
    by (rule A[OF c(1)])
  show "move_right E' s = Some (s', b) \<Longrightarrow> set (motions s') \<subseteq> set (motions s) \<and> ss_options s' = ss_options s"
    by (rule A[OF c(2)])
  show "move_down s = Some (s', b) \<Longrightarrow> set (motions s') \<subseteq> set (motions s) \<and> ss_options s' = ss_options s"
    by (rule A[OF c(3)])
  show "move_up s = Some (s', b) \<Longrightarrow> set (motions s') \<subseteq> set (motions s) \<and> ss_options s' = ss_options s"
    by (rule A[OF c(4)])
qed

section \<open>No jump\<close>

text \<open>Springing to the slots of \<open>s1\<close> from those of \<open>s\<close>, when the tiles still move as they did in \<open>s\<close>.\<close>

lemma sprung_near:
  assumes inv: "ss_inv E s"
    and pre: "distinct (map fst pre)" "i \<in> set (ss_ids s') \<Longrightarrow> map_of pre i = slot_of i s"
    and mo: "set (motions s1) \<subseteq> set (motions s)"
    and sp: "spring_all E' pre s1 = Some s'"
    and t: "tile_of i s = Some t" "steady t" "drawn_at E' i s = Some p" "drawn_at E' i s' = Some q"
  shows "near q p"
proof -
  have sk: "skeleton s' = skeleton s1" by (rule spring_all_skel[OF sp])
  obtain t' new where t': "tile_of i s' = Some t'" "slot_of i s' = Some new" "q = pt_add new (render_offset E' t')"
    using t(4) by (auto simp: drawn_at_def bind_eq_Some_conv)
  obtain old where old: "slot_of i s = Some old" "p = pt_add old (render_offset E' t)"
    using t(1,3) by (auto simp: drawn_at_def bind_eq_Some_conv)
  have "i \<in> set (ss_ids s')" using t'(1) by (auto simp: tile_of_def ss_ids_def find_Some_iff)
  note pre' = pre(2)[OF this]
  let ?cfg = "ao_tile_movement (op_animations (ss_options s1))"
  have new: "slot_of i s1 = Some new" using t'(2) unfolding skeleton_slot_of[OF sk] .
  have eq: "Some t' = sprung E' ?cfg (Some old) (Some new) (tile_of i s1)"
    using spring_all_tiles[OF sp pre(1), of i] unfolding t'(1) pre' old(1) new .
  then obtain t1 where t1: "tile_of i s1 = Some t1"
    by (cases "tile_of i s1") (auto simp: sprung_def split: if_splits)
  have d: "distinct (ss_ids s)" using inv by (simp add: ss_inv_def)
  have m: "motion t1 = motion t" by (rule tile_of_motion[OF d t(1) mo t1])
  note m = motion_draws[OF m, of E']
  show ?thesis
  proof (cases "near old new")
    case True
    then have "t' = t1" using eq t1 by (simp add: sprung_def)
    with m True show ?thesis
      unfolding t'(3) old(2) by (simp add: near_def pt_add_def abs_minus_commute)
  next
    case False
    then have "spring_tile E' ?cfg (pt_sub old new) t1 = Some t'" using eq t1 by (simp add: sprung_def)
    from spring_tile_drawn[OF this] m t(2) show ?thesis unfolding t'(3) old(2) by simp
  qed
qed

lemma swap_near:
  assumes inv: "ss_inv E s"
    and mo: "\<And>s1 b. mutate s = Some (s1, b) \<Longrightarrow> set (motions s1) \<subseteq> set (motions s)"
      "\<And>s1. mutate s = Some (s1, False) \<Longrightarrow> s1 = s"
    and sw: "swap_with_spring E' mutate s = Some (s', b)"
    and t: "tile_of i s = Some t" "steady t" "drawn_at E' i s = Some p" "drawn_at E' i s' = Some q"
  shows "near q p"
proof -
  let ?pre = "slot_positions (\<lambda>_. True) s"
  obtain s1 ok where s1: "mutate s = Some (s1, ok)"
    "(if \<not> ok then Some (s1, False) else do { s \<leftarrow> spring_all E' ?pre s1; Some (s, True) }) = Some (s', b)"
    using sw by (auto simp: swap_with_spring_def bind_eq_Some_conv)
  show ?thesis
  proof (cases ok)
    case True
    then have "spring_all E' ?pre s1 = Some s'" using s1(2) by (auto simp: bind_eq_Some_conv)
    from sprung_near[OF inv positions_distinct[OF inv] map_of_slot mo(1)[OF s1(1)] this t] show ?thesis .
  next
    case False
    then have "s' = s" using s1 mo(2) by auto
    with t show ?thesis by (simp add: near_def)
  qed
qed


text \<open>Leaving out the removed column leaves out the slot of no tile that stays.\<close>

lemma map_of_others:
  assumes inv: "ss_inv E s" and k: "k < length (ss_ids s)" and i: "i \<noteq> ss_ids s ! k"
  shows "map_of (slot_positions (\<lambda>u. u \<noteq> k) s) i = slot_of i s"
proof -
  have "map_of (map snd (filter (\<lambda>(u, _). u \<noteq> k) l)) i = map_option (\<lambda>(_, _, pos). pos) (find (\<lambda>(_, j, _). j = i) l)"
    if "\<forall>(u, j, _) \<in> set l. j = i \<longrightarrow> u \<noteq> k" for l :: "(nat \<times> nat \<times> point) list"
    using that by (induction l) auto
  moreover have "\<forall>(u, j, _) \<in> set (slots s). j = i \<longrightarrow> u \<noteq> k"
  proof -
    have "(u, j) \<in> set (zip [0..<length (ss_ids s)] (ss_ids s))" if "(u, j, p) \<in> set (slots s)" for u j p
      unfolding slots_in_order[OF inv, symmetric] using that by force
    with i k show ?thesis by (fastforce simp: in_set_zip)
  qed
  ultimately show ?thesis by (simp add: slot_positions_def slot_of_def)
qed

lemma take_column_near:
  assumes inv: "ss_inv E s" and tk: "take_column_at E' k s = Some (c, s')"
    and t: "tile_of i s = Some t" "steady t" "drawn_at E' i s = Some p" "drawn_at E' i s' = Some q"
  shows "near q p"
proof -
  let ?pre = "slot_positions (\<lambda>u. u \<noteq> k) s"
  obtain s0 where r: "remove_column_at k s = Some (c, s0)"
    and sp: "spring_all E' ?pre (update_tile_sizes E' s0) = Some s'"
    using tk by (auto simp: take_column_at_def Let_def bind_eq_Some_conv)
  note rc = remove_column_columns[OF inv r]
  have "set (columns s0) \<subseteq> set (columns s)" using rc set_list_remove[of k "columns s"] by simp
  then have mo: "set (motions (update_tile_sizes E' s0)) \<subseteq> set (motions s)"
    unfolding tile_sizes_motion by (rule motions_subset)
  have k: "k < length (ss_ids s)" using rc by (simp add: ss_ids_def)
  have ids: "ss_ids s' = list_remove k (ss_ids s)"
    using take_column_abs[OF inv tk] by (simp add: ss_abs_def spec_remove_def)
  have "distinct (ss_ids s)" using inv by (simp add: ss_inv_def)
  then have "i \<noteq> ss_ids s ! k" if "i \<in> set (ss_ids s')"
    using that k by (simp add: ids list_remove_filter)
  then have pre: "i \<in> set (ss_ids s') \<Longrightarrow> map_of ?pre i = slot_of i s" by (intro map_of_others[OF inv k])
  show ?thesis by (rule sprung_near[OF inv positions_distinct[OF inv] pre mo sp t])
qed

lemma nudge_near:
  assumes inv: "ss_inv E s" and ex: "nudge_master_ratio E' d s = Some s'"
    and t: "tile_of i s = Some t" "steady t" "drawn_at E' i s = Some p" "drawn_at E' i s' = Some q"
  shows "near q p"
proof (cases "\<bar>f_clamp (ss_master_ratio s + d) 0.15 0.85 - ss_master_ratio s\<bar> < 1 / 10 ^ 6")
  case True
  with ex t show ?thesis by (simp add: nudge_master_ratio_def Let_def near_def)
next
  case False
  let ?s = "s\<lparr>ss_master_ratio := f_clamp (ss_master_ratio s + d) 0.15 0.85\<rparr>"
  have sp: "spring_all E' (slot_positions (\<lambda>_. True) s) (update_tile_sizes E' ?s) = Some s'"
    using ex False by (simp add: nudge_master_ratio_def Let_def)
  have mo: "set (motions (update_tile_sizes E' ?s)) \<subseteq> set (motions s)"
    unfolding tile_sizes_motion by (rule motions_subset) (simp add: columns_def)
  show ?thesis by (rule sprung_near[OF inv positions_distinct[OF inv] map_of_slot mo sp t])
qed

lemma unmoved:
  "move_left E' s = Some (s1, False) \<Longrightarrow> s1 = s" "move_right E' s = Some (s1, False) \<Longrightarrow> s1 = s"
  "move_down s = Some (s1, False) \<Longrightarrow> s1 = s" "move_up s = Some (s1, False) \<Longrightarrow> s1 = s"
  by (auto simp: move_left_def move_right_def move_down_def move_up_def bind_eq_Some_conv Let_def
      split: focus.splits if_splits option.splits)

text \<open>The commands that spring the tiles.\<close>

fun ms_springs :: "ms_op \<Rightarrow> bool" where
  "ms_springs (RemoveTile i) = True"
| "ms_springs RemoveActiveTile = True"
| "ms_springs RemoveActiveColumn = True"
| "ms_springs (RemoveColumnByIdx k) = True"
| "ms_springs MoveLeftAnimated = True"
| "ms_springs MoveRightAnimated = True"
| "ms_springs MoveDownAnimated = True"
| "ms_springs MoveUpAnimated = True"
| "ms_springs (NudgeMasterRatio d) = True"
| "ms_springs _ = False"

text \<open>Property C3. Closing a window, an animated move and a change of the master ratio rearrange
  the slots, but no window that stays jumps: right after the command each is drawn less than half a
  pixel from where it was, also in the middle of an earlier movement, unless that was started with
  animations off or an interactive move displaces the tile.\<close>

theorem ms_no_jump:
  assumes inv: "ss_inv E s" and ex: "ms_exec E' op s = Some s'" and op: "ms_springs op"
    and t: "tile_of i s = Some t" "steady t" "drawn_at E' i s = Some p" "drawn_at E' i s' = Some q"
  shows "near q p"
proof -
  note m = moves_motion[OF inv, THEN conjunct1]
  show ?thesis
  proof (cases op)
    case (RemoveTile w)
    with ex obtain k c where "take_column_at E' k s = Some (c, s')"
      by (auto simp: ss_remove_tile_def ss_remove_tile_by_idx_def bind_eq_Some_conv)
    from take_column_near[OF inv this t] show ?thesis .
  next
    case (RemoveColumnByIdx k)
    with ex obtain c where "take_column_at E' k s = Some (c, s')" by auto
    from take_column_near[OF inv this t] show ?thesis .
  next
    case RemoveActiveTile
    show ?thesis
    proof (cases "focused_column s")
      case None
      with RemoveActiveTile ex t show ?thesis by (simp add: ss_remove_active_tile_def near_def)
    next
      case (Some c)
      with RemoveActiveTile ex obtain k c where "take_column_at E' k s = Some (c, s')"
        by (auto simp: ss_remove_active_tile_def ss_remove_tile_def ss_remove_tile_by_idx_def bind_eq_Some_conv)
      from take_column_near[OF inv this t] show ?thesis .
    qed
  next
    case RemoveActiveColumn
    show ?thesis
    proof (cases "ss_focus s = FocusEmpty")
      case True
      with RemoveActiveColumn ex t show ?thesis by (simp add: ss_remove_active_column_def near_def)
    next
      case False
      with RemoveActiveColumn ex obtain k c where "take_column_at E' k s = Some (c, s')"
        by (auto simp: ss_remove_active_column_def bind_eq_Some_conv split: focus.splits)
      from take_column_near[OF inv this t] show ?thesis .
    qed
  next
    case MoveLeftAnimated
    with ex obtain b where "swap_with_spring E' (move_left E') s = Some (s', b)" by (auto simp: move_left_animated_def)
    from swap_near[OF inv m(1) unmoved(1) this t] show ?thesis .
  next
    case MoveRightAnimated
    with ex obtain b where "swap_with_spring E' (move_right E') s = Some (s', b)" by (auto simp: move_right_animated_def)
    from swap_near[OF inv m(2) unmoved(2) this t] show ?thesis .
  next
    case MoveDownAnimated
    with ex obtain b where "swap_with_spring E' move_down s = Some (s', b)" by (auto simp: move_down_animated_def)
    from swap_near[OF inv m(3) unmoved(3) this t] show ?thesis .
  next
    case MoveUpAnimated
    with ex obtain b where "swap_with_spring E' move_up s = Some (s', b)" by (auto simp: move_up_animated_def)
    from swap_near[OF inv m(4) unmoved(4) this t] show ?thesis .
  next
    case (NudgeMasterRatio d)
    with ex have "nudge_master_ratio E' d s = Some s'" by simp
    from nudge_near[OF inv this t] show ?thesis .
  qed (use op in auto)
qed


lemma window_drawn:
  assumes "ss_inv E s" "i \<in> set (ss_ids s)"
  shows "\<exists>t p. tile_of i s = Some t \<and> drawn_at E' i s = Some p"
proof -
  have "find (\<lambda>(_, j, _). j = i) (slots s) \<noteq> None"
    using assms(2) unfolding slot_windows[OF assms(1), symmetric] by (auto simp: find_None_iff)
  moreover have "find (\<lambda>c. column_id c = i) (columns s) \<noteq> None"
    using assms(2) by (auto simp: find_None_iff ss_ids_def)
  ultimately show ?thesis by (auto simp: drawn_at_def tile_of_def slot_of_def)
qed

theorem ms_no_jump_witness:
  "\<exists>s' p q. ms_exec (env_blank 1) MoveUpAnimated space_three = Some s' \<and>
     drawn_at (env_blank 1) 3 space_three = Some p \<and> drawn_at (env_blank 1) 3 s' = Some q \<and> near q p"
proof -
  have ids: "set (ss_ids space_three) = {1, 2, 3}" using space_three(3) by (auto simp: ss_abs_def)
  have "ms_exec (env_blank 1) MoveUpAnimated space_three \<noteq> None"
    using spring_total[where mutate = move_up, OF moves_total(4)[OF space_three(2)] space_three_movable]
    by (simp add: move_up_animated_def)
  then obtain s' where s': "ms_exec (env_blank 1) MoveUpAnimated space_three = Some s'" by blast
  have fr: "ms_fresh MoveUpAnimated space_three" by simp
  note st = ms_step[OF space_three(2) refl fr s']
  have ids': "set (ss_ids s') = set (ss_ids space_three)" using mset_eq_setD[OF conjunct2[OF st, unfolded ms_windows.simps]] .
  obtain t p where t: "tile_of 3 space_three = Some t" "drawn_at (env_blank 1) 3 space_three = Some p"
    using window_drawn[OF space_three(2), of 3 "env_blank 1"] ids by auto
  obtain q where q: "drawn_at (env_blank 1) 3 s' = Some q"
    using window_drawn[OF conjunct1[OF st], of 3 "env_blank 1"] ids ids' by auto
  have "list_all (\<lambda>c. Option.is_none (tl_move_x_animation (co_tile c)) \<and> Option.is_none (tl_move_y_animation (co_tile c)) \<and>
      pt_x (tl_interactive_move_offset (co_tile c)) = 0 \<and> pt_y (tl_interactive_move_offset (co_tile c)) = 0)
      (columns space_three)"
    by code_simp
  then have "steady t"
    using t(1) by (auto simp: tile_of_def find_Some_iff list_all_length steady_def move_on_def Option.is_none_def mk_point_def)
  with ms_no_jump[OF space_three(2) s' _ t(1) _ t(2) q] s' t q show ?thesis by auto
qed


section \<open>The working area\<close>

text \<open>When rounding up to physical pixels moves a coordinate by less than what
  the struts leave of the parent area, the working area starts at a physical pixel, at or after the
  struts, and ends exactly where the right and bottom struts begin; and it never has a negative size,
  whatever the struts.\<close>

theorem working_area_ok:
  fixes pa :: rect and st :: struts
  assumes ceil: "\<And>x. x \<le> e_phys_ceil E sc x"
  defines "w \<equiv> compute_working_area E pa sc st"
  shows "0 \<le> sz_w (rsize w) \<and> 0 \<le> sz_h (rsize w) \<and>
    rloc w = mk_point (e_phys_ceil E sc (pt_x (rloc pa) + st_left st)) (e_phys_ceil E sc (pt_y (rloc pa) + st_top st)) \<and>
    (e_phys_ceil E sc (pt_x (rloc pa) + st_left st) \<le> pt_x (rloc pa) + sz_w (rsize pa) - st_right st \<longrightarrow>
       pt_x (rloc w) + sz_w (rsize w) = pt_x (rloc pa) + sz_w (rsize pa) - st_right st) \<and>
    (e_phys_ceil E sc (pt_y (rloc pa) + st_top st) \<le> pt_y (rloc pa) + sz_h (rsize pa) - st_bottom st \<longrightarrow>
       pt_y (rloc w) + sz_h (rsize w) = pt_y (rloc pa) + sz_h (rsize pa) - st_bottom st)"
  using ceil[of "pt_x (rloc pa) + st_left st"] ceil[of "pt_y (rloc pa) + st_top st"]
  by (simp add: w_def compute_working_area_def Let_def min_def max_def)

theorem working_area_ok_witness:
  "let w = compute_working_area (env_blank 1) \<lparr>rloc = mk_point 0 0, rsize = mk_size 1000 800\<rparr> 1
      \<lparr>st_left = 10, st_right = 20, st_top = 0, st_bottom = 5\<rparr>
   in pt_x (rloc w) + sz_w (rsize w) = 980"
proof -
  let ?pa = "\<lparr>rloc = mk_point 0 0, rsize = mk_size 1000 800\<rparr>" and ?st = "\<lparr>st_left = 10, st_right = 20, st_top = 0, st_bottom = 5\<rparr>"
  have c: "x \<le> e_phys_ceil (env_blank 1) 1 x" for x by (simp add: blank_defs)
  have "e_phys_ceil (env_blank 1) 1 10 = 10" by (simp add: blank_defs)
  with working_area_ok[of "env_blank 1" 1 ?pa ?st, OF c] show ?thesis by (auto simp: Let_def)
qed

section \<open>The predicted size of a new window\<close>

text \<open>The size proposed to a new window, which is to predict the slot it
  will get, leaves out the gaps: on an empty 1000 by 800 area with gaps of 10 it is 1000 by 800, and the
  slot the window then gets is 980 by 780.\<close>

theorem predicted_size_misses:
  "new_window_size (env_blank 1) space_blank = \<lparr>isz_w = 1000, isz_h = 800\<rparr> \<and>
   column_layout (ss_add_tile (env_blank 1) (tile_blank 7) True (Fixed 100) False space_blank) =
     [(0, mk_point 10 10, mk_size 980 780)]"
  by (intro conjI) code_simp+

end
