(* ===== verification/WindowSteps.thy ===== *)
theory WindowSteps
  imports Windows
begin

text \<open>
  The operations on a mapped window as one step relation, and the freshness of its resolved rules:
  every operation that changes what a matcher reads asks for the rules to be resolved again.
\<close>

section \<open>Steps\<close>

inductive win_step :: "env \<Rightarrow> ('r \<Rightarrow> string \<Rightarrow> bool) \<Rightarrow> 'r window_rule list \<Rightarrow> bool \<Rightarrow> mapped \<Rightarrow> mapped \<Rightarrow> bool"
  for E re rules st where
  step_request_size: "win_step E re rules st w (win_request_size sz m a tr w)"
| step_request_size_once: "win_step E re rules st w (win_request_size_once E sz a w)"
| step_windowed_fullscreen: "win_step E re rules st w (win_request_windowed_fullscreen b w)"
| step_set_activated: "win_step E re rules st w (win_set_activated b w)"
| step_set_active_in_column: "win_step E re rules st w (win_set_active_in_column b w)"
| step_set_floating: "win_step E re rules st w (win_set_floating b w)"
| step_set_bounds: "win_step E re rules st w (win_set_bounds sz w)"
| step_set_interactive_resize: "win_step E re rules st w (win_set_interactive_resize d w)"
| step_cancel_interactive_resize: "win_step E re rules st w (win_cancel_interactive_resize w)"
| step_set_is_focused: "win_step E re rules st w (win_set_is_focused b w)"
| step_set_urgent: "win_step E re rules st w (win_set_urgent b w)"
| step_set_cast_target: "win_step E re rules st w (win_set_is_window_cast_target b w)"
| step_toggle_opacity: "win_step E re rules st w (win_toggle_ignore_opacity_window_rule w)"
| step_send_pending_configure: "win_step E re rules st w (win_send_pending_configure E w)"
| step_on_commit: "win_step E re rules st w (win_on_commit E c w)"
| step_take_transaction: "win_step E re rules st w (snd (win_take_pending_transaction E c w))"
| step_animate_commit: "win_step E re rules st w (snd (win_should_animate_commit E c w))"
| step_recompute: "win_step E re rules st w (snd (win_recompute_window_rules re rules st w))"
| step_recompute_if_needed: "win_step E re rules st w (snd (win_recompute_window_rules_if_needed re rules st w))"

text \<open>Sending a configure leaves the role of the toplevel and the pending state it sent.\<close>

definition configure_keeps_role :: "env \<Rightarrow> bool" where
  "configure_keeps_role E \<longleftrightarrow> (\<forall>t.
     ts_activated (tp_server_pending (snd (e_send_configure E t))) = ts_activated (tp_server_pending t) \<and>
     tp_app_id (snd (e_send_configure E t)) = tp_app_id t \<and> tp_title (snd (e_send_configure E t)) = tp_title t)"

definition rules_fresh :: "('r \<Rightarrow> string \<Rightarrow> bool) \<Rightarrow> 'r window_rule list \<Rightarrow> bool \<Rightarrow> mapped \<Rightarrow> bool" where
  "rules_fresh re rules st w \<longleftrightarrow>
     mw_need_to_recompute_rules w \<or> mw_rules w = rules_compute re rules (mapped_facts w) st"

section \<open>Lemmas\<close>

text \<open>What a step may not do without asking for the rules to be resolved again.\<close>

definition same_facts :: "mapped \<Rightarrow> mapped \<Rightarrow> bool" where
  "same_facts w w' \<longleftrightarrow> mw_rules w' = mw_rules w \<and>
     (mw_need_to_recompute_rules w' \<or>
      mw_need_to_recompute_rules w' = mw_need_to_recompute_rules w \<and> mapped_facts w' = mapped_facts w)"

lemma same_factsI:
  "mw_rules w' = mw_rules w \<Longrightarrow> mw_need_to_recompute_rules w' = mw_need_to_recompute_rules w \<Longrightarrow>
   mapped_facts w' = mapped_facts w \<Longrightarrow> same_facts w w'"
  by (simp add: same_facts_def)

lemma same_facts_fresh: "same_facts w w' \<Longrightarrow> rules_fresh re rules st w \<Longrightarrow> rules_fresh re rules st w'"
  by (auto simp: same_facts_def rules_fresh_def)

lemma same_facts_trans [trans]: "same_facts u v \<Longrightarrow> same_facts v w \<Longrightarrow> same_facts u w"
  by (auto simp: same_facts_def)

lemmas request_defs = win_request_size_def win_request_size_once_def win_request_windowed_fullscreen_def
  win_set_bounds_def win_set_interactive_resize_def win_cancel_interactive_resize_def
  note_pending_maximized_def with_pending_state_def

lemma requests_same_facts:
  "same_facts w (win_request_size sz m a tr w)"
  "same_facts w (win_request_size_once E sz a w)"
  "same_facts w (win_request_windowed_fullscreen b w)"
  "same_facts w (win_set_bounds sz w)"
  "same_facts w (win_set_interactive_resize d w)"
  "same_facts w (win_cancel_interactive_resize w)"
  by (rule same_factsI; simp add: request_defs Let_def mapped_facts_def split: option.split)+

lemma sets_same_facts:
  "same_facts w (win_set_activated b w)" "same_facts w (win_set_active_in_column b w)"
  "same_facts w (win_set_floating b w)" "same_facts w (win_set_is_focused b w)"
  "same_facts w (win_set_urgent b w)" "same_facts w (win_set_is_window_cast_target b w)"
  "same_facts w (win_toggle_ignore_opacity_window_rule w)"
  "same_facts w (snd (win_take_pending_transaction E c w))"
  "same_facts w (snd (win_should_animate_commit E c w))"
  by (auto simp: same_facts_def mapped_facts_def win_set_activated_def win_set_active_in_column_def
      win_set_floating_def win_set_is_focused_def win_set_urgent_def win_set_is_window_cast_target_def
      win_toggle_ignore_opacity_window_rule_def win_take_pending_transaction_def
      win_should_animate_commit_def with_pending_state_def Let_def split: prod.split)

lemma field_same_facts:
  "same_facts w (w\<lparr>mw_interactive_resize := ir\<rparr>)" "same_facts w (w\<lparr>mw_request_size_once := ro\<rparr>)"
  "same_facts w (w\<lparr>mw_uncommitted_windowed_fullscreen := us, mw_is_windowed_fullscreen := b\<rparr>)"
  "same_facts w (w\<lparr>mw_uncommitted_maximized := us, mw_is_maximized := b\<rparr>)"
  "same_facts w (w\<lparr>mw_animate_next_configure := b, mw_transaction_for_next_configure := tr\<rparr>)"
  by (rule same_factsI; simp add: mapped_facts_def)+

lemma same_facts_refl [simp]: "same_facts w w"
  by (rule same_factsI) simp_all

lemma on_commit_same_facts: "same_facts w (win_on_commit E c w)"
proof -
  define w1 where "w1 = (case mw_interactive_resize w of
      Some (WaitingForLastCommit _ serial) \<Rightarrow>
        if e_no_older_than E c serial then w\<lparr>mw_interactive_resize := None\<rparr> else w
    | _ \<Rightarrow> w)"
  define w2 where "w2 = (case mw_request_size_once w1 of
      Some (WaitingForCommit serial) \<Rightarrow>
        if e_no_older_than E c serial then w1\<lparr>mw_request_size_once := Some UseWindowSize\<rparr> else w1
    | _ \<Rightarrow> w1)"
  have "same_facts w w1"
    by (simp add: w1_def field_same_facts split: option.split win_interactive_resize.split)
  also have "same_facts w1 w2"
    by (simp add: w2_def field_same_facts split: option.split request_size_once_state.split)
  finally show ?thesis
    unfolding win_on_commit_def Let_def w1_def[symmetric] w2_def[symmetric] case_prod_beta
    by (rule same_facts_trans[OF same_facts_trans[OF _ field_same_facts(3)] field_same_facts(4)])
qed

lemma same_facts_let:
  "same_facts w e \<Longrightarrow> (\<And>x. same_facts w x \<Longrightarrow> same_facts w (f x)) \<Longrightarrow> same_facts w (Let e f)"
  by (simp add: Let_def)

lemma sent_same_facts:
  "same_facts w v \<Longrightarrow> same_facts w (v\<lparr>mw_needs_configure := b, mw_needs_frame_callback := b'\<rparr>)"
  "same_facts w v \<Longrightarrow> same_facts w (v\<lparr>mw_animate_serials := ss\<rparr>)"
  "same_facts w v \<Longrightarrow> same_facts w (v\<lparr>mw_transaction_for_next_configure := tr, mw_pending_transactions := ts\<rparr>)"
  "same_facts w v \<Longrightarrow> same_facts w (v\<lparr>mw_interactive_resize := ir\<rparr>)"
  "same_facts w v \<Longrightarrow> same_facts w (v\<lparr>mw_request_size_once := ro\<rparr>)"
  "same_facts w v \<Longrightarrow> same_facts w (v\<lparr>mw_uncommitted_windowed_fullscreen := us\<rparr>)"
  "same_facts w v \<Longrightarrow> same_facts w (v\<lparr>mw_uncommitted_maximized := us\<rparr>)"
  by (auto simp: same_facts_def mapped_facts_def)

lemma configure_sent_same_facts: "same_facts w (win_configure_sent s w)"
  unfolding win_configure_sent_def
  by (intro same_facts_let) (auto intro: sent_same_facts split: option.split)

lemma send_same_facts:
  assumes "configure_keeps_role E"
  shows "same_facts w (win_send_pending_configure E w)"
proof -
  have k: "ts_activated (tp_server_pending (snd (e_send_configure E t))) = ts_activated (tp_server_pending t)"
    "tp_app_id (snd (e_send_configure E t)) = tp_app_id t" "tp_title (snd (e_send_configure E t)) = tp_title t" for t
    using assms by (simp_all add: configure_keeps_role_def)
  have t: "same_facts v (v\<lparr>mw_toplevel := snd (e_send_configure E (mw_toplevel v))\<rparr>)"
    "same_facts v (v\<lparr>mw_toplevel := snd (e_send_configure E
       (with_pending_state (ts_size_update f) (mw_toplevel v)))\<rparr>)" for v f
    by (rule same_factsI; simp add: mapped_facts_def k with_pending_state_def)+
  have h: "same_facts w (fst (win_has_pending_changes w))"
    by (rule same_factsI; simp add: win_has_pending_changes_def Let_def mapped_facts_def)
  define u where "u = fst (win_has_pending_changes w)"
  have "same_facts u (if snd (win_has_pending_changes w)
      then let v = (if mw_request_size_once u = Some UseWindowSize
                    then pending_upd (\<lambda>st. st\<lparr>ts_size := Some (win_size u)\<rparr>) u else u);
               (serial, t) = e_send_configure E (mw_toplevel v)
           in win_configure_sent serial (v\<lparr>mw_toplevel := t\<rparr>)
      else u\<lparr>mw_interactive_resize := (case mw_interactive_resize u of
             Some (WaitingForLastConfigure _) \<Rightarrow> None | x \<Rightarrow> x)\<rparr>)" (is "same_facts u ?v")
    using same_facts_trans[OF t(1) configure_sent_same_facts] same_facts_trans[OF t(2) configure_sent_same_facts]
    by (simp add: Let_def case_prod_beta field_same_facts(1))
  with h have "same_facts w ?v" by (simp add: u_def[symmetric] same_facts_trans[of w u])
  then have "same_facts w (?v\<lparr>mw_animate_next_configure := False, mw_transaction_for_next_configure := None\<rparr>)"
    by (rule same_facts_trans[OF _ field_same_facts(5)])
  then show ?thesis
    by (simp only: win_send_pending_configure_def Let_def case_prod_beta u_def)
qed

lemma recompute_fresh:
  "rules_fresh re rules st (snd (win_recompute_window_rules re rules st w))"
  "mw_rules (snd (win_recompute_window_rules re rules st w)) =
     rules_compute re rules (mapped_facts (snd (win_recompute_window_rules re rules st w))) st"
  by (auto simp: win_recompute_window_rules_def rules_fresh_def Let_def mapped_facts_def with_pending_state_def)

lemma step_fresh:
  assumes "win_step E re rules st w w'" "configure_keeps_role E" "rules_fresh re rules st w"
  shows "rules_fresh re rules st w'"
  using assms(1)
proof cases
  case step_send_pending_configure
  then show ?thesis using same_facts_fresh[OF send_same_facts[OF assms(2)] assms(3)] by simp
next
  case (step_recompute_if_needed)
  then show ?thesis
    using assms(3) recompute_fresh(1)[of re rules st w] by (simp add: win_recompute_window_rules_if_needed_def)
qed (use assms(3) in \<open>simp_all add: recompute_fresh requests_same_facts[THEN same_facts_fresh]
  sets_same_facts[THEN same_facts_fresh] on_commit_same_facts[THEN same_facts_fresh]\<close>)

section \<open>Properties\<close>

text \<open>Property C10. Whatever happens to a window, its rules are always those its own state,
  its title and its application id resolve to, or it is marked for them to be resolved again; so resolving
  them when needed always ends with exactly the rules of the configuration for the window as it is.\<close>

theorem rules_stay_fresh:
  assumes "(win_step E re rules st)\<^sup>*\<^sup>* w w'" and "rules_fresh re rules st w" and "configure_keeps_role E"
  shows "rules_fresh re rules st w' \<and>
    (let w'' = snd (win_recompute_window_rules_if_needed re rules st w')
     in mw_rules w'' = rules_compute re rules (mapped_facts w'') st)"
proof -
  have f: "rules_fresh re rules st w'"
    using assms(1,2) by (induction rule: rtranclp_induct) (auto intro: step_fresh[OF _ assms(3)])
  then show ?thesis
    using recompute_fresh(2)[of re rules st w']
    by (auto simp: win_recompute_window_rules_if_needed_def Let_def rules_fresh_def)
qed

theorem rules_stay_fresh_witness:
  "rules_fresh (=) rules_two False (win_set_floating True
     (snd (win_recompute_window_rules (=) rules_two False (win_blank 1))))"
proof -
  let ?w = "snd (win_recompute_window_rules (=) rules_two False (win_blank 1))"
  have "(win_step (env_blank 1) (=) rules_two False)\<^sup>*\<^sup>* ?w (win_set_floating True ?w)"
    by (rule r_into_rtranclp, rule step_set_floating)
  from rules_stay_fresh[OF this recompute_fresh(1)] show ?thesis
    by (simp add: configure_keeps_role_def env_blank_def)
qed

end
