(* ===== verification/Floating.thy ===== *)
theory Floating
  imports MasterStack
begin

text \<open>
  The floating space, \<^verbatim>\<open>layout/floating.rs\<close>: windows stacked from top to bottom, each with a position
  relative to the working area, in the order of the file. An index out of range, an \<open>unwrap\<close> of a missing
  window, a failed \<open>assert!\<close> and a panic of \<open>Duration::from_secs_f64\<close> are \<open>None\<close>. Closing-window
  snapshots, rendering and shaders are left out.
\<close>

section \<open>Changes\<close>

datatype size_change = SetFixed int | SetProportion f64 | AdjustFixed int | AdjustProportion f64

datatype position_change = PosSetFixed f64 | PosSetProportion f64 | PosAdjustFixed f64 | PosAdjustProportion f64

fun size_change_from :: "preset_size \<Rightarrow> size_change" where
  "size_change_from (PresetProportion p) = SetProportion (p * 100)"
| "size_change_from (PresetFixed f) = SetFixed f"

datatype resolved_size = ResolvedTile f64 | ResolvedWindow f64

fun resolve_preset_size :: "preset_size \<Rightarrow> f64 \<Rightarrow> resolved_size" where
  "resolve_preset_size (PresetProportion p) view_size = ResolvedTile (view_size * p)"
| "resolve_preset_size (PresetFixed w) view_size = ResolvedWindow (of_int w)"

text \<open>\<open>as i32\<close>, which saturates, and \<open>saturating_add\<close>.\<close>

definition i32_sat :: "int \<Rightarrow> int" where
  "i32_sat x = i_clamp x (- (2 ^ 31)) (2 ^ 31 - 1)"

definition f_as_i32 :: "f64 \<Rightarrow> int" where
  "f_as_i32 x = i32_sat (f_trunc x)"

section \<open>Positions\<close>

record fdata =
  fd_pos :: point
  fd_logical_pos :: point
  fd_size :: size
  fd_working_area :: rect

definition scale_by_working_area :: "rect \<Rightarrow> point \<Rightarrow> point" where
  "scale_by_working_area area p =
     pt_add (mk_point (pt_x p * sz_w (rsize area)) (pt_y p * sz_h (rsize area))) (rloc area)"

definition logical_to_size_frac :: "rect \<Rightarrow> point \<Rightarrow> point" where
  "logical_to_size_frac area p =
    (let p = pt_sub p (rloc area)
     in mk_point (pt_x p / max (sz_w (rsize area)) 1) (pt_y p / max (sz_h (rsize area)) 1))"

text \<open>One coordinate of \<open>recompute_logical_pos\<close>, relative to the working area.\<close>

definition max_off_screen :: "f64 \<Rightarrow> f64" where
  "max_off_screen len = max 0 (len - f_clamp (len / 4) 10 75)"

definition keep_on_screen :: "f64 \<Rightarrow> f64 \<Rightarrow> f64 \<Rightarrow> f64" where
  "keep_on_screen area_len len x =
     min (max x (- max_off_screen len)) (area_len - len + max_off_screen len)"

definition fdata_recompute_logical_pos :: "fdata \<Rightarrow> fdata" where
  "fdata_recompute_logical_pos d =
    (let area = fd_working_area d;
         p = pt_sub (scale_by_working_area area (fd_pos d)) (rloc area);
         p = mk_point (keep_on_screen (sz_w (rsize area)) (sz_w (fd_size d)) (pt_x p))
                      (keep_on_screen (sz_h (rsize area)) (sz_h (fd_size d)) (pt_y p))
     in d\<lparr>fd_logical_pos := pt_add p (rloc area)\<rparr>)"

definition fdata_update_config :: "rect \<Rightarrow> fdata \<Rightarrow> fdata" where
  "fdata_update_config working_area d =
    (if fd_working_area d = working_area then d
     else fdata_recompute_logical_pos (d\<lparr>fd_working_area := working_area\<rparr>))"

definition fdata_update :: "env \<Rightarrow> tile \<Rightarrow> fdata \<Rightarrow> fdata" where
  "fdata_update E t d =
    (let sz = tile_size E t
     in if fd_size d = sz then d else fdata_recompute_logical_pos (d\<lparr>fd_size := sz\<rparr>))"

definition fdata_set_logical_pos :: "point \<Rightarrow> fdata \<Rightarrow> fdata" where
  "fdata_set_logical_pos p d =
     fdata_recompute_logical_pos (d\<lparr>fd_pos := logical_to_size_frac (fd_working_area d) p\<rparr>)"

definition fdata_new :: "env \<Rightarrow> rect \<Rightarrow> tile \<Rightarrow> point \<Rightarrow> fdata" where
  "fdata_new E working_area t p =
     fdata_set_logical_pos p (fdata_update E t
       \<lparr>fd_pos = mk_point 0 0, fd_logical_pos = mk_point 0 0, fd_size = mk_size 0 0,
        fd_working_area = working_area\<rparr>)"

definition fdata_center :: "fdata \<Rightarrow> point" where
  "fdata_center d = pt_add (fd_logical_pos d) (mk_point (sz_w (fd_size d) / 2) (sz_h (fd_size d) / 2))"

section \<open>The space\<close>

record interactive_resize =
  ir_window :: nat
  ir_original_window_size :: size
  ir_edges :: resize_edge

record floating_space =
  fs_tiles :: "tile list"
  fs_data :: "fdata list"
  fs_active_window_id :: "nat option"
  fs_interactive_resize :: "interactive_resize option"
  fs_view_size :: size
  fs_working_area :: rect
  fs_scale :: f64
  fs_options :: options

definition fs_new :: "size \<Rightarrow> rect \<Rightarrow> f64 \<Rightarrow> options \<Rightarrow> floating_space" where
  "fs_new view_size working_area scale opts =
     \<lparr>fs_tiles = [], fs_data = [], fs_active_window_id = None, fs_interactive_resize = None,
      fs_view_size = view_size, fs_working_area = working_area, fs_scale = scale, fs_options = opts\<rparr>"

definition fs_update_config ::
  "env \<Rightarrow> size \<Rightarrow> rect \<Rightarrow> f64 \<Rightarrow> options \<Rightarrow> floating_space \<Rightarrow> floating_space" where
  "fs_update_config E view_size working_area scale opts s =
    (let n = min (length (fs_tiles s)) (length (fs_data s));
         ts = map (tile_update_config view_size scale opts) (take n (fs_tiles s));
         ds = map (\<lambda>(t, d). fdata_update_config working_area (fdata_update E t d)) (zip ts (fs_data s))
     in s\<lparr>fs_tiles := ts @ drop n (fs_tiles s), fs_data := ds @ drop n (fs_data s),
          fs_view_size := view_size, fs_working_area := working_area, fs_scale := scale,
          fs_options := opts\<rparr>)"

definition fs_advance_animations :: "env \<Rightarrow> floating_space \<Rightarrow> floating_space" where
  "fs_advance_animations E s = s\<lparr>fs_tiles := map (tile_advance_animations E) (fs_tiles s)\<rparr>"

definition fs_are_animations_ongoing :: "env \<Rightarrow> floating_space \<Rightarrow> bool" where
  "fs_are_animations_ongoing E s \<longleftrightarrow> list_ex (tile_are_animations_ongoing E) (fs_tiles s)"

definition fs_are_transitions_ongoing :: "env \<Rightarrow> floating_space \<Rightarrow> bool" where
  "fs_are_transitions_ongoing E s \<longleftrightarrow> list_ex (tile_are_transitions_ongoing E) (fs_tiles s)"

definition fs_tiles_with_offsets :: "floating_space \<Rightarrow> (tile \<times> point) list" where
  "fs_tiles_with_offsets s = zip (fs_tiles s) (map fd_logical_pos (fs_data s))"

definition fs_tiles_with_render_positions :: "env \<Rightarrow> bool \<Rightarrow> floating_space \<Rightarrow> (tile \<times> point) list" where
  "fs_tiles_with_render_positions E rnd s =
     map (\<lambda>(t, offset).
       (let p = pt_add offset (render_offset E t)
        in (t, if rnd then mk_point (e_phys_round E (fs_scale s) (pt_x p)) (e_phys_round E (fs_scale s) (pt_y p))
               else p))) (fs_tiles_with_offsets s)"

definition compute_toplevel_bounds :: "env \<Rightarrow> border_config \<Rightarrow> size \<Rightarrow> isize" where
  "compute_toplevel_bounds E border_config working_area_size =
    (let border = (if bc_off border_config then 0 else bc_width border_config * 2)
     in size_to_i32_floor E (mk_size (max (sz_w working_area_size - border) 1)
                                     (max (sz_h working_area_size - border) 1)))"

definition fs_new_window_toplevel_bounds :: "env \<Rightarrow> window_rules \<Rightarrow> floating_space \<Rightarrow> isize" where
  "fs_new_window_toplevel_bounds E rules s =
     compute_toplevel_bounds E (border_merged_with (lo_border (op_layout (fs_options s))) (wr_border rules))
       (rsize (fs_working_area s))"

text \<open>\<open>Rectangle::intersection\<close> belongs to smithay.\<close>

definition fs_active_window_visual_rectangle ::
  "(rect \<Rightarrow> rect \<Rightarrow> rect option) \<Rightarrow> env \<Rightarrow> floating_space \<Rightarrow> rect option" where
  "fs_active_window_visual_rectangle rect_intersection E s =
    (case fs_tiles_with_offsets s of
       [] \<Rightarrow> None
     | (t, offset) # _ \<Rightarrow> rect_intersection (fs_working_area s)
         \<lparr>rloc = pt_add offset (tile_window_loc E t), rsize = tile_window_size E t\<rparr>)"

definition fs_popup_target_rect :: "env \<Rightarrow> nat \<Rightarrow> floating_space \<Rightarrow> rect option" where
  "fs_popup_target_rect E i s =
     map_option (\<lambda>(t, p). (fs_working_area s)
       \<lparr>rloc := pt_sub (pt_sub (rloc (fs_working_area s)) p) (tile_window_loc E t)\<rparr>)
       (find (\<lambda>(t, _). tile_id t = i) (fs_tiles_with_offsets s))"

definition fs_idx_of :: "nat \<Rightarrow> floating_space \<Rightarrow> nat option" where
  "fs_idx_of i s = position (\<lambda>t. tile_id t = i) (fs_tiles s)"

definition fs_contains :: "nat \<Rightarrow> floating_space \<Rightarrow> bool" where
  "fs_contains i s \<longleftrightarrow> fs_idx_of i s \<noteq> None"

definition fs_active_window :: "floating_space \<Rightarrow> mapped option" where
  "fs_active_window s = do {
     i \<leftarrow> fs_active_window_id s;
     t \<leftarrow> find (\<lambda>t. tile_id t = i) (fs_tiles s);
     Some (tl_window t) }"

definition fs_has_window :: "nat \<Rightarrow> floating_space \<Rightarrow> bool" where
  "fs_has_window i s \<longleftrightarrow> list_ex (\<lambda>t. tile_id t = i) (fs_tiles s)"

definition fs_is_empty :: "floating_space \<Rightarrow> bool" where
  "fs_is_empty s \<longleftrightarrow> fs_tiles s = []"

subsection \<open>Stacking\<close>

definition fs_raise_window :: "nat \<Rightarrow> nat \<Rightarrow> floating_space \<Rightarrow> floating_space option" where
  "fs_raise_window from_idx to_idx s =
    (if to_idx \<le> from_idx then do {
       (t, ts) \<leftarrow> vec_remove from_idx (fs_tiles s);
       (d, ds) \<leftarrow> vec_remove from_idx (fs_data s);
       ts \<leftarrow> vec_insert to_idx t ts;
       ds \<leftarrow> vec_insert to_idx d ds;
       Some (s\<lparr>fs_tiles := ts, fs_data := ds\<rparr>) }
     else None)"

text \<open>The scan for descendants, from the bottom up, over any list with a child relation.\<close>

definition descendants_below :: "('a \<Rightarrow> 'a \<Rightarrow> bool) \<Rightarrow> 'a list \<Rightarrow> nat \<Rightarrow> nat list" where
  "descendants_below child xs idx =
     fold (\<lambda>i ds. if child (xs ! i) (xs ! idx) \<or> list_ex (\<lambda>j. child (xs ! i) (xs ! j)) ds
                  then ds @ [i] else ds) (rev [idx + 1..<length xs]) []"

fun fs_raise_all :: "nat list \<Rightarrow> nat \<Rightarrow> floating_space \<Rightarrow> floating_space option" where
  "fs_raise_all [] idx s = Some s"
| "fs_raise_all (i # is) idx s = do { s \<leftarrow> fs_raise_window i idx s; fs_raise_all is (idx + 1) s }"

definition tile_child :: "tile \<Rightarrow> tile \<Rightarrow> bool" where
  "tile_child t p \<longleftrightarrow> win_is_child_of (tl_window t) (tl_window p)"

definition fs_bring_up_descendants_of :: "nat \<Rightarrow> floating_space \<Rightarrow> floating_space option" where
  "fs_bring_up_descendants_of idx s =
    (if idx < length (fs_tiles s)
     then fs_raise_all (rev (descendants_below tile_child (fs_tiles s) idx)) idx s
     else None)"

definition fs_activate_window_without_raising :: "nat \<Rightarrow> floating_space \<Rightarrow> floating_space \<times> bool" where
  "fs_activate_window_without_raising i s =
    (if \<not> fs_contains i s then (s, False) else (s\<lparr>fs_active_window_id := Some i\<rparr>, True))"

definition fs_activate_window :: "nat \<Rightarrow> floating_space \<Rightarrow> (floating_space \<times> bool) option" where
  "fs_activate_window i s =
    (case fs_idx_of i s of
       None \<Rightarrow> Some (s, False)
     | Some idx \<Rightarrow> do {
         s \<leftarrow> fs_raise_window idx 0 s;
         s \<leftarrow> fs_bring_up_descendants_of 0 (s\<lparr>fs_active_window_id := Some i\<rparr>);
         Some (s, True) })"

definition fs_descendants_added :: "nat \<Rightarrow> floating_space \<Rightarrow> (floating_space \<times> bool) option" where
  "fs_descendants_added i s =
    (case fs_idx_of i s of
       None \<Rightarrow> Some (s, False)
     | Some idx \<Rightarrow> do { s \<leftarrow> fs_bring_up_descendants_of idx s; Some (s, True) })"

subsection \<open>Adding and removing\<close>

definition relative_position :: "floating_position \<Rightarrow> size \<Rightarrow> rect \<Rightarrow> point" where
  "relative_position fp sz area =
    (let rel = fp_relative_to fp;
         x = fp_x fp;
         y = fp_y fp;
         x = (if rel = RelTopRight \<or> rel = RelBottomRight \<or> rel = RelRight
              then sz_w (rsize area) - sz_w sz - x else x);
         y = (if rel = RelBottomLeft \<or> rel = RelBottomRight \<or> rel = RelBottom
              then sz_h (rsize area) - sz_h sz - y else y);
         x = (if rel = RelTop \<or> rel = RelBottom
              then x + (sz_w (rsize area) / 2 - sz_w sz / 2) else x);
         y = (if rel = RelLeft \<or> rel = RelRight
              then y + (sz_h (rsize area) / 2 - sz_h sz / 2) else y)
     in pt_add (mk_point x y) (rloc area))"

definition fs_stored_or_default_tile_pos :: "env \<Rightarrow> tile \<Rightarrow> floating_space \<Rightarrow> point option" where
  "fs_stored_or_default_tile_pos E t s =
    (case tl_floating_pos t of
       Some p \<Rightarrow> Some (scale_by_working_area (fs_working_area s) p)
     | None \<Rightarrow> map_option (\<lambda>fp. relative_position fp (tile_size E t) (fs_working_area s))
                 (wr_default_floating_position (mw_rules (tl_window t))))"

definition floating_request_size :: "env \<Rightarrow> tile \<Rightarrow> isize" where
  "floating_request_size E t =
    (let w = tl_window t;
         sz = (case tl_floating_window_size t of
                 Some sz \<Rightarrow> sz
               | None \<Rightarrow> if win_pending_sizing_mode w \<noteq> Normal then size_or_default None
                         else size_or_default (win_expected_size E w));
         mn = win_min_size w;
         mx = win_max_size w
     in \<lparr>isz_w = ensure_min_max_size_maybe_zero (isz_w sz) (isz_w mn) (isz_w mx),
         isz_h = ensure_min_max_size_maybe_zero (isz_h sz) (isz_h mn) (isz_h mx)\<rparr>)"

definition fs_prepared :: "env \<Rightarrow> tile \<Rightarrow> floating_space \<Rightarrow> tile" where
  "fs_prepared E t s =
    (let t = tile_update_config (fs_view_size s) (fs_scale s) (fs_options s) t
     in t\<lparr>tl_window := win_request_size_once E (floating_request_size E t) True (tl_window t)\<rparr>)"

definition fs_initial_pos :: "env \<Rightarrow> tile \<Rightarrow> floating_space \<Rightarrow> point" where
  "fs_initial_pos E t s = (case fs_stored_or_default_tile_pos E t s of
     Some p \<Rightarrow> p | None \<Rightarrow> center_preferring_top_left_in_area (fs_working_area s) (tile_size E t))"

definition fs_add_tile_at :: "env \<Rightarrow> nat \<Rightarrow> tile \<Rightarrow> bool \<Rightarrow> floating_space \<Rightarrow> floating_space option" where
  "fs_add_tile_at E idx t activate s =
    (let t = fs_prepared E t s;
         s = (if activate \<or> fs_tiles s = [] then s\<lparr>fs_active_window_id := Some (tile_id t)\<rparr> else s);
         idx = (case position (tile_child t) (take idx (fs_tiles s)) of Some i \<Rightarrow> i | None \<Rightarrow> idx);
         d = fdata_new E (fs_working_area s) t (fs_initial_pos E t s)
     in do {
       ds \<leftarrow> vec_insert idx d (fs_data s);
       ts \<leftarrow> vec_insert idx t (fs_tiles s);
       fs_bring_up_descendants_of idx (s\<lparr>fs_tiles := ts, fs_data := ds\<rparr>) })"

definition fs_add_tile :: "env \<Rightarrow> tile \<Rightarrow> bool \<Rightarrow> floating_space \<Rightarrow> floating_space option" where
  "fs_add_tile E t activate s = fs_add_tile_at E 0 t activate s"

definition fs_clamp_within_working_area :: "point \<Rightarrow> size \<Rightarrow> floating_space \<Rightarrow> point" where
  "fs_clamp_within_working_area p sz s =
     rloc (clamp_preferring_top_left_in_area (fs_working_area s) \<lparr>rloc = p, rsize = sz\<rparr>)"

definition fs_add_tile_above ::
  "env \<Rightarrow> nat \<Rightarrow> tile \<Rightarrow> bool \<Rightarrow> floating_space \<Rightarrow> floating_space option" where
  "fs_add_tile_above E i t activate s = do {
     idx \<leftarrow> fs_idx_of i s;
     d \<leftarrow> vec_get (fs_data s) idx;
     let sz = tile_size E t;
     let p = pt_add (fd_logical_pos d)
       (mk_point ((sz_w (fd_size d) - sz_w sz) / 2) ((sz_h (fd_size d) - sz_h sz) / 2));
     let p = fs_clamp_within_working_area p sz s;
     fs_add_tile_at E idx (t\<lparr>tl_floating_pos := Some (logical_to_size_frac (fs_working_area s) p)\<rparr>) activate s }"

definition fs_remove_tile_by_idx ::
  "env \<Rightarrow> nat \<Rightarrow> floating_space \<Rightarrow> (removed_tile \<times> floating_space) option" where
  "fs_remove_tile_by_idx E idx s = do {
     (t, ts) \<leftarrow> vec_remove idx (fs_tiles s);
     (d, ds) \<leftarrow> vec_remove idx (fs_data s);
     let s = s\<lparr>fs_tiles := ts, fs_data := ds\<rparr>;
     let s = (case ts of
         [] \<Rightarrow> s\<lparr>fs_active_window_id := None\<rparr>
       | t0 # _ \<Rightarrow> if Some (tile_id t) = fs_active_window_id s
                   then s\<lparr>fs_active_window_id := Some (tile_id t0)\<rparr> else s);
     let s = (case fs_interactive_resize s of
         Some r \<Rightarrow> if tile_id t = ir_window r then s\<lparr>fs_interactive_resize := None\<rparr> else s
       | None \<Rightarrow> s);
     let t = (case win_expected_size E (tl_window t) of
         Some sz \<Rightarrow> t\<lparr>tl_floating_window_size := Some sz\<rparr> | None \<Rightarrow> t);
     let t = t\<lparr>tl_floating_pos := Some (fd_pos d)\<rparr>;
     Some (\<lparr>rt_tile = t, rt_width = Fixed (sz_w (tile_expected_or_current_size E t)),
            rt_is_full_width = False, rt_is_floating = True\<rparr>, s) }"

definition fs_remove_tile :: "env \<Rightarrow> nat \<Rightarrow> floating_space \<Rightarrow> (removed_tile \<times> floating_space) option" where
  "fs_remove_tile E i s = do { idx \<leftarrow> fs_idx_of i s; fs_remove_tile_by_idx E idx s }"

text \<open>The outer option is the panic, the inner one the result.\<close>

definition fs_remove_active_tile ::
  "env \<Rightarrow> floating_space \<Rightarrow> (removed_tile option \<times> floating_space) option" where
  "fs_remove_active_tile E s =
    (case fs_active_window_id s of
       None \<Rightarrow> Some (None, s)
     | Some i \<Rightarrow> do { (rt, s) \<leftarrow> fs_remove_tile E i s; Some (Some rt, s) })"

definition fs_start_open_animation :: "env \<Rightarrow> nat \<Rightarrow> floating_space \<Rightarrow> (floating_space \<times> bool) option" where
  "fs_start_open_animation E i s =
    (case fs_idx_of i s of
       None \<Rightarrow> Some (s, False)
     | Some idx \<Rightarrow> do {
         t \<leftarrow> start_open_animation E (fs_tiles s ! idx);
         Some (s\<lparr>fs_tiles := (fs_tiles s)[idx := t]\<rparr>, True) })"

subsection \<open>Sizes\<close>

definition fs_resize_end :: "nat option \<Rightarrow> floating_space \<Rightarrow> floating_space" where
  "fs_resize_end window s =
    (case fs_interactive_resize s of
       None \<Rightarrow> s
     | Some r \<Rightarrow> (case window of
           Some w \<Rightarrow> if w \<noteq> ir_window r then s else s\<lparr>fs_interactive_resize := None\<rparr>
         | None \<Rightarrow> s\<lparr>fs_interactive_resize := None\<rparr>))"

definition or_active :: "nat option \<Rightarrow> floating_space \<Rightarrow> nat option" where
  "or_active i s = (case i of Some i \<Rightarrow> Some i | None \<Rightarrow> fs_active_window_id s)"

text \<open>The length in pixels a change asks for, before bounds: the available length, the expected or current
  length of the window and that of the tile are given.\<close>

definition changed_length :: "tile \<Rightarrow> f64 \<Rightarrow> int \<Rightarrow> f64 \<Rightarrow> size_change \<Rightarrow> int" where
  "changed_length t available current_window current_tile change =
    (let len = (case change of
           SetFixed x \<Rightarrow> of_int x
         | SetProportion prop \<Rightarrow>
             window_length_for_tile_length t (available * f_clamp (prop / 100) 0 10000)
         | AdjustFixed delta \<Rightarrow> of_int (i32_sat (current_window + delta))
         | AdjustProportion delta \<Rightarrow>
             window_length_for_tile_length t
               (available * f_clamp (current_tile / available + delta / 100) 0 10000))
     in f_trunc (f_clamp (f_round len) 1 100000))"

definition current_window_size :: "env \<Rightarrow> tile \<Rightarrow> isize" where
  "current_window_size E t = (case win_expected_size E (tl_window t) of
     Some sz \<Rightarrow> sz | None \<Rightarrow> win_size (tl_window t))"

definition tile_set_window_width :: "env \<Rightarrow> f64 \<Rightarrow> size_change \<Rightarrow> bool \<Rightarrow> tile \<Rightarrow> tile" where
  "tile_set_window_width E available change animate t =
    (let t = t\<lparr>tl_floating_preset_width_idx := None\<rparr>;
         w = changed_length t available (isz_w (current_window_size E t))
               (sz_w (tile_expected_or_current_size E t)) change;
         win = tl_window t;
         mn = win_min_size win;
         mx = win_max_size win;
         w = ensure_min_max_size w (isz_w mn) (isz_w mx);
         h = isz_h (size_or_default (win_expected_size E win));
         h = ensure_min_max_size h (isz_h mn) (isz_h mx)
     in t\<lparr>tl_window := win_request_size_once E \<lparr>isz_w = w, isz_h = h\<rparr> animate win\<rparr>)"

definition tile_set_window_height :: "env \<Rightarrow> f64 \<Rightarrow> size_change \<Rightarrow> bool \<Rightarrow> tile \<Rightarrow> tile" where
  "tile_set_window_height E available change animate t =
    (let t = t\<lparr>tl_floating_preset_height_idx := None\<rparr>;
         h = changed_length t available (isz_h (current_window_size E t))
               (sz_h (tile_expected_or_current_size E t)) change;
         win = tl_window t;
         mn = win_min_size win;
         mx = win_max_size win;
         h = ensure_min_max_size h (isz_h mn) (isz_h mx);
         w = isz_w (size_or_default (win_expected_size E win));
         w = ensure_min_max_size w (isz_w mn) (isz_w mx)
     in t\<lparr>tl_window := win_request_size_once E \<lparr>isz_w = w, isz_h = h\<rparr> animate win\<rparr>)"

definition fs_set_window_width ::
  "env \<Rightarrow> nat option \<Rightarrow> size_change \<Rightarrow> bool \<Rightarrow> floating_space \<Rightarrow> floating_space option" where
  "fs_set_window_width E i change animate s =
    (case or_active i s of
       None \<Rightarrow> Some s
     | Some i \<Rightarrow> do {
         idx \<leftarrow> fs_idx_of i s;
         Some (s\<lparr>fs_tiles := (fs_tiles s)[idx := tile_set_window_width E
           (sz_w (rsize (fs_working_area s))) change animate (fs_tiles s ! idx)]\<rparr>) })"

definition fs_set_window_height ::
  "env \<Rightarrow> nat option \<Rightarrow> size_change \<Rightarrow> bool \<Rightarrow> floating_space \<Rightarrow> floating_space option" where
  "fs_set_window_height E i change animate s =
    (case or_active i s of
       None \<Rightarrow> Some s
     | Some i \<Rightarrow> do {
         idx \<leftarrow> fs_idx_of i s;
         Some (s\<lparr>fs_tiles := (fs_tiles s)[idx := tile_set_window_height E
           (sz_h (rsize (fs_working_area s))) change animate (fs_tiles s ! idx)]\<rparr>) })"

text \<open>\<open>Iterator::rposition\<close>: the last index at which the predicate holds.\<close>

definition rposition :: "('a \<Rightarrow> bool) \<Rightarrow> 'a list \<Rightarrow> nat option" where
  "rposition P xs = map_option (\<lambda>i. length xs - 1 - i) (position P (rev xs))"

text \<open>The preset to switch to; \<open>None\<close> stands for an index that is out of range with no presets at all.\<close>

definition next_preset ::
  "preset_size list \<Rightarrow> f64 \<Rightarrow> nat option \<Rightarrow> f64 \<Rightarrow> f64 \<Rightarrow> bool \<Rightarrow> nat option" where
  "next_preset presets available cur current_window current_tile forwards =
    (let len = length presets
     in if len = 0 then None
        else case cur of
          Some i \<Rightarrow> Some ((i + (if forwards then 1 else len - 1)) mod len)
        | None \<Rightarrow>
            let it = map (\<lambda>p. resolve_preset_size p available) presets
            in if forwards
               then (case position (\<lambda>r. case r of ResolvedTile x \<Rightarrow> current_tile + 1 < x
                                                | ResolvedWindow x \<Rightarrow> current_window + 1 < x) it of
                       Some i \<Rightarrow> Some i | None \<Rightarrow> Some 0)
               else (case rposition (\<lambda>r. case r of ResolvedTile x \<Rightarrow> x + 1 < current_tile
                                                 | ResolvedWindow x \<Rightarrow> x + 1 < current_window) it of
                       Some i \<Rightarrow> Some i | None \<Rightarrow> Some (len - 1)))"

definition fs_toggle_window_width ::
  "env \<Rightarrow> nat option \<Rightarrow> bool \<Rightarrow> floating_space \<Rightarrow> floating_space option" where
  "fs_toggle_window_width E i forwards s =
    (case or_active i s of
       None \<Rightarrow> Some s
     | Some i \<Rightarrow> do {
         idx \<leftarrow> fs_idx_of i s;
         let t = fs_tiles s ! idx;
         let presets = lo_preset_column_widths (op_layout (fs_options s));
         preset_idx \<leftarrow> next_preset presets (sz_w (rsize (fs_working_area s)))
           (tl_floating_preset_width_idx t) (sz_w (window_expected_or_current_size E t))
           (sz_w (tile_expected_or_current_size E t)) forwards;
         preset \<leftarrow> vec_get presets preset_idx;
         s \<leftarrow> fs_set_window_width E (Some i) (size_change_from preset) True s;
         let s = s\<lparr>fs_tiles := (fs_tiles s)[idx :=
           (fs_tiles s ! idx)\<lparr>tl_floating_preset_width_idx := Some preset_idx\<rparr>]\<rparr>;
         Some (fs_resize_end (Some i) s) })"

definition fs_toggle_window_height ::
  "env \<Rightarrow> nat option \<Rightarrow> bool \<Rightarrow> floating_space \<Rightarrow> floating_space option" where
  "fs_toggle_window_height E i forwards s =
    (case or_active i s of
       None \<Rightarrow> Some s
     | Some i \<Rightarrow> do {
         idx \<leftarrow> fs_idx_of i s;
         let t = fs_tiles s ! idx;
         let presets = lo_preset_window_heights (op_layout (fs_options s));
         preset_idx \<leftarrow> next_preset presets (sz_h (rsize (fs_working_area s)))
           (tl_floating_preset_height_idx t) (sz_h (window_expected_or_current_size E t))
           (sz_h (tile_expected_or_current_size E t)) forwards;
         preset \<leftarrow> vec_get presets preset_idx;
         s \<leftarrow> fs_set_window_height E (Some i) (size_change_from preset) True s;
         let s = s\<lparr>fs_tiles := (fs_tiles s)[idx :=
           (fs_tiles s ! idx)\<lparr>tl_floating_preset_height_idx := Some preset_idx\<rparr>]\<rparr>;
         Some (fs_resize_end (Some i) s) })"

definition fs_resize_begin ::
  "env \<Rightarrow> nat \<Rightarrow> resize_edge \<Rightarrow> floating_space \<Rightarrow> (floating_space \<times> bool) option" where
  "fs_resize_begin E window edges s =
    (if fs_interactive_resize s \<noteq> None then Some (s, False)
     else do {
       t \<leftarrow> find (\<lambda>t. tile_id t = window) (fs_tiles s);
       Some (s\<lparr>fs_interactive_resize := Some \<lparr>ir_window = window,
         ir_original_window_size = tile_window_size E t, ir_edges = edges\<rparr>\<rparr>, True) })"

definition fs_resize_update ::
  "env \<Rightarrow> nat \<Rightarrow> point \<Rightarrow> floating_space \<Rightarrow> (floating_space \<times> bool) option" where
  "fs_resize_update E window delta s =
    (case fs_interactive_resize s of
       None \<Rightarrow> Some (s, False)
     | Some r \<Rightarrow>
         if window \<noteq> ir_window r then Some (s, False)
         else do {
           let sz = ir_original_window_size r;
           let e = ir_edges r;
           s \<leftarrow> (if re_left e \<or> re_right e
                then let dx = (if re_left e then - pt_x delta else pt_x delta)
                     in fs_set_window_width E (Some window) (SetFixed (f_as_i32 (f_round (sz_w sz + dx)))) False s
                else Some s);
           s \<leftarrow> (if re_top e \<or> re_bottom e
                then let dy = (if re_top e then - pt_y delta else pt_y delta)
                     in fs_set_window_height E (Some window) (SetFixed (f_as_i32 (f_round (sz_h sz + dy)))) False s
                else Some s);
           Some (s, True) })"

subsection \<open>Focus\<close>

text \<open>\<open>Iterator::max_by\<close>: the last of the maximal elements.\<close>

definition max_by :: "('a \<Rightarrow> f64) \<Rightarrow> 'a list \<Rightarrow> 'a option" where
  "max_by f xs = min_by (\<lambda>x. - f x) (rev xs)"

definition focus_directional ::
  "(point \<Rightarrow> point \<Rightarrow> f64) \<Rightarrow> floating_space \<Rightarrow> (floating_space \<times> bool) option" where
  "focus_directional distance s =
    (case fs_active_window_id s of
       None \<Rightarrow> Some (s, False)
     | Some active_id \<Rightarrow> do {
         active_idx \<leftarrow> fs_idx_of active_id s;
         d \<leftarrow> vec_get (fs_data s) active_idx;
         let center = fdata_center d;
         let others = filter (\<lambda>(t, _). tile_id t \<noteq> active_id) (zip (fs_tiles s) (fs_data s));
         let dists = filter (\<lambda>(_, dist). dist > 0) (map (\<lambda>(t, d). (t, distance center (fdata_center d))) others);
         case min_by snd dists of
           None \<Rightarrow> Some (s, False)
         | Some (t, _) \<Rightarrow> do { (s, _) \<leftarrow> fs_activate_window (tile_id t) s; Some (s, True) } })"

definition fs_focus_left :: "floating_space \<Rightarrow> (floating_space \<times> bool) option" where
  "fs_focus_left = focus_directional (\<lambda>focus other. pt_x focus - pt_x other)"

definition fs_focus_right :: "floating_space \<Rightarrow> (floating_space \<times> bool) option" where
  "fs_focus_right = focus_directional (\<lambda>focus other. pt_x other - pt_x focus)"

definition fs_focus_up :: "floating_space \<Rightarrow> (floating_space \<times> bool) option" where
  "fs_focus_up = focus_directional (\<lambda>focus other. pt_y focus - pt_y other)"

definition fs_focus_down :: "floating_space \<Rightarrow> (floating_space \<times> bool) option" where
  "fs_focus_down = focus_directional (\<lambda>focus other. pt_y other - pt_y focus)"

definition activate_found :: "(tile \<times> point) option \<Rightarrow> floating_space \<Rightarrow> floating_space option" where
  "activate_found r s = (case r of
     None \<Rightarrow> Some s
   | Some (t, _) \<Rightarrow> do { (s, _) \<leftarrow> fs_activate_window (tile_id t) s; Some s })"

definition fs_focus_leftmost :: "floating_space \<Rightarrow> floating_space option" where
  "fs_focus_leftmost s = activate_found (min_by (\<lambda>(_, p). pt_x p) (fs_tiles_with_offsets s)) s"

definition fs_focus_rightmost :: "floating_space \<Rightarrow> floating_space option" where
  "fs_focus_rightmost s = activate_found (max_by (\<lambda>(_, p). pt_x p) (fs_tiles_with_offsets s)) s"

definition fs_focus_topmost :: "floating_space \<Rightarrow> floating_space option" where
  "fs_focus_topmost s = activate_found (min_by (\<lambda>(_, p). pt_y p) (fs_tiles_with_offsets s)) s"

definition fs_focus_bottommost :: "floating_space \<Rightarrow> floating_space option" where
  "fs_focus_bottommost s = activate_found (max_by (\<lambda>(_, p). pt_y p) (fs_tiles_with_offsets s)) s"

subsection \<open>Movement\<close>

definition fs_move_and_animate :: "env \<Rightarrow> nat \<Rightarrow> point \<Rightarrow> floating_space \<Rightarrow> floating_space option" where
  "fs_move_and_animate E idx new_pos s = do {
     t \<leftarrow> vec_get (fs_tiles s) idx;
     d \<leftarrow> vec_get (fs_data s) idx;
     let prev_pos = fd_logical_pos d;
     let d = fdata_set_logical_pos new_pos d;
     let diff = pt_sub prev_pos (fd_logical_pos d);
     t \<leftarrow> (if pt_x diff * pt_x diff + pt_y diff * pt_y diff > 10 * 10 then animate_move_from E diff t
          else Some t);
     Some (s\<lparr>fs_tiles := (fs_tiles s)[idx := t], fs_data := (fs_data s)[idx := d]\<rparr>) }"

definition fs_move_to :: "env \<Rightarrow> nat \<Rightarrow> point \<Rightarrow> bool \<Rightarrow> floating_space \<Rightarrow> floating_space option" where
  "fs_move_to E idx new_pos animate s = do {
     s \<leftarrow> (if animate then fs_move_and_animate E idx new_pos s
          else do {
            d \<leftarrow> vec_get (fs_data s) idx;
            Some (s\<lparr>fs_data := (fs_data s)[idx := fdata_set_logical_pos new_pos d]\<rparr>) });
     Some (fs_resize_end None s) }"

definition fs_move_by :: "env \<Rightarrow> point \<Rightarrow> floating_space \<Rightarrow> floating_space option" where
  "fs_move_by E amount s =
    (case fs_active_window_id s of
       None \<Rightarrow> Some s
     | Some active_id \<Rightarrow> do {
         idx \<leftarrow> fs_idx_of active_id s;
         d \<leftarrow> vec_get (fs_data s) idx;
         fs_move_to E idx (pt_add (fd_logical_pos d) amount) True s })"

definition directional_move_px :: f64 where "directional_move_px = 50"

definition fs_move_left :: "env \<Rightarrow> floating_space \<Rightarrow> floating_space option" where
  "fs_move_left E = fs_move_by E (mk_point (- directional_move_px) 0)"

definition fs_move_right :: "env \<Rightarrow> floating_space \<Rightarrow> floating_space option" where
  "fs_move_right E = fs_move_by E (mk_point directional_move_px 0)"

definition fs_move_up :: "env \<Rightarrow> floating_space \<Rightarrow> floating_space option" where
  "fs_move_up E = fs_move_by E (mk_point 0 (- directional_move_px))"

definition fs_move_down :: "env \<Rightarrow> floating_space \<Rightarrow> floating_space option" where
  "fs_move_down E = fs_move_by E (mk_point 0 directional_move_px)"

text \<open>One coordinate of \<open>move_window\<close>: the available length, where the area starts, the coordinate.\<close>

definition changed_coord :: "f64 \<Rightarrow> f64 \<Rightarrow> f64 \<Rightarrow> position_change \<Rightarrow> f64" where
  "changed_coord available loc x change = (case change of
     PosSetFixed y \<Rightarrow> y + loc
   | PosSetProportion prop \<Rightarrow> available * f_clamp (prop / 100) 0 10000 + loc
   | PosAdjustFixed y \<Rightarrow> x + y
   | PosAdjustProportion prop \<Rightarrow>
       available * f_clamp ((x - loc) / max available 1 + prop / 100) 0 10000 + loc)"

definition fs_move_window ::
  "env \<Rightarrow> nat option \<Rightarrow> position_change \<Rightarrow> position_change \<Rightarrow> bool \<Rightarrow> floating_space \<Rightarrow> floating_space option" where
  "fs_move_window E i x y animate s =
    (case or_active i s of
       None \<Rightarrow> Some s
     | Some i \<Rightarrow> do {
         idx \<leftarrow> fs_idx_of i s;
         d \<leftarrow> vec_get (fs_data s) idx;
         let p = fd_logical_pos d;
         let area = fs_working_area s;
         fs_move_to E idx
           (mk_point (changed_coord (sz_w (rsize area)) (pt_x (rloc area)) (pt_x p) x)
                     (changed_coord (sz_h (rsize area)) (pt_y (rloc area)) (pt_y p) y)) animate s })"

definition fs_center_window :: "env \<Rightarrow> nat option \<Rightarrow> floating_space \<Rightarrow> floating_space option" where
  "fs_center_window E i s =
    (case or_active i s of
       None \<Rightarrow> Some s
     | Some i \<Rightarrow> do {
         idx \<leftarrow> fs_idx_of i s;
         d \<leftarrow> vec_get (fs_data s) idx;
         fs_move_to E idx (center_preferring_top_left_in_area (fs_working_area s) (fd_size d)) True s })"

subsection \<open>Commits and refresh\<close>

definition fs_update_window ::
  "env \<Rightarrow> nat \<Rightarrow> serial option \<Rightarrow> floating_space \<Rightarrow> (floating_space \<times> bool) option" where
  "fs_update_window E i serial s =
    (case fs_idx_of i s of
       None \<Rightarrow> Some (s, False)
     | Some idx \<Rightarrow> do {
         let t = fs_tiles s ! idx;
         d \<leftarrow> vec_get (fs_data s) idx;
         let resize = win_interactive_resize_data (tl_window t);
         let t = (case serial of Some c \<Rightarrow> t\<lparr>tl_window := win_on_commit E c (tl_window t)\<rparr> | None \<Rightarrow> t);
         let prev_size = fd_size d;
         t \<leftarrow> tile_update_window E t;
         let d = fdata_update E t d;
         let d = (case resize of
             None \<Rightarrow> d
           | Some e \<Rightarrow> fdata_set_logical_pos (pt_add (fd_logical_pos d)
               (mk_point (if re_left e then sz_w prev_size - sz_w (fd_size d) else 0)
                         (if re_top e then sz_h prev_size - sz_h (fd_size d) else 0))) d);
         Some (s\<lparr>fs_tiles := (fs_tiles s)[idx := t], fs_data := (fs_data s)[idx := d]\<rparr>, True) })"

definition fs_refresh_window :: "env \<Rightarrow> bool \<Rightarrow> bool \<Rightarrow> floating_space \<Rightarrow> mapped \<Rightarrow> mapped" where
  "fs_refresh_window E is_active is_focused s w =
    (let w = win_set_active_in_column True w;
         w = win_set_floating True w;
         is_active = (is_active \<and> Some (mw_id w) = fs_active_window_id s);
         is_active = (if op_deactivate_unfocused_windows (fs_options s) then is_active \<and> is_focused else is_active);
         w = win_set_activated is_active w;
         resize_data = (case fs_interactive_resize s of
            Some r \<Rightarrow> if ir_window r = mw_id w then Some (ir_edges r) else None | None \<Rightarrow> None);
         w = win_set_interactive_resize resize_data w;
         border_config = border_merged_with (lo_border (op_layout (fs_options s))) (wr_border (mw_rules w));
         w = win_set_bounds (compute_toplevel_bounds E border_config (rsize (fs_working_area s))) w;
         intent = (if op_disable_resize_throttling (fs_options s) then CanSend else win_configure_intent w)
     in if intent = CanSend \<or> intent = ShouldSend then win_send_pending_configure E w else w)"

definition fs_refresh :: "env \<Rightarrow> bool \<Rightarrow> bool \<Rightarrow> floating_space \<Rightarrow> floating_space" where
  "fs_refresh E is_active is_focused s =
     s\<lparr>fs_tiles := map (\<lambda>t. t\<lparr>tl_window := fs_refresh_window E is_active is_focused s (tl_window t)\<rparr>)
        (fs_tiles s)\<rparr>"

definition fs_new_window_size ::
  "env \<Rightarrow> preset_size option \<Rightarrow> preset_size option \<Rightarrow> window_rules \<Rightarrow> floating_space \<Rightarrow> isize" where
  "fs_new_window_size E width height rules s =
    (let border = border_merged_with (lo_border (op_layout (fs_options s))) (wr_border rules);
         resolve = (\<lambda>sz working_area_size. (case sz of
            None \<Rightarrow> 0
          | Some p \<Rightarrow> max 1 (i32_sat (floor (case resolve_preset_size p working_area_size of
                ResolvedTile x \<Rightarrow> if bc_off border then x else x - bc_width border * 2
              | ResolvedWindow x \<Rightarrow> x)))))
     in \<lparr>isz_w = resolve width (sz_w (rsize (fs_working_area s))),
         isz_h = resolve height (sz_h (rsize (fs_working_area s)))\<rparr>)"

subsection \<open>A new parent\<close>

text \<open>A client gives one of its windows another parent; \<^verbatim>\<open>parent_changed\<close> in \<^verbatim>\<open>handlers/xdg_shell.rs\<close>
  then looks the new parent up by its surface and tells the layout that it has a new descendant.\<close>

definition tile_surface :: "tile \<Rightarrow> nat" where
  "tile_surface t = tp_surface (mw_toplevel (tl_window t))"

definition tile_set_parent :: "nat option \<Rightarrow> tile \<Rightarrow> tile" where
  "tile_set_parent p t =
     t\<lparr>tl_window := (tl_window t)\<lparr>mw_toplevel := (mw_toplevel (tl_window t))\<lparr>tp_parent := p\<rparr>\<rparr>\<rparr>"

definition fs_set_parent :: "nat \<Rightarrow> nat option \<Rightarrow> floating_space \<Rightarrow> floating_space" where
  "fs_set_parent i p s =
     s\<lparr>fs_tiles := map (\<lambda>t. if tile_id t = i then tile_set_parent p t else t) (fs_tiles s)\<rparr>"

definition fs_parent_changed :: "nat option \<Rightarrow> floating_space \<Rightarrow> floating_space option" where
  "fs_parent_changed p s =
    (case p of
       None \<Rightarrow> Some s
     | Some surface \<Rightarrow>
         (case find (\<lambda>t. tile_surface t = surface) (fs_tiles s) of
            None \<Rightarrow> Some s
          | Some t \<Rightarrow> map_option fst (fs_descendants_added (tile_id t) s)))"

end
