(* ===== verification/FloatingInv.thy ===== *)
theory FloatingInv
  imports Floating
begin

text \<open>
  The invariant of the floating space, that of \<^verbatim>\<open>verify_invariants\<close>: how \<open>bring_up_descendants_of\<close>
  reorders the windows and why that stacks children above their parents, and which changes of a tile
  keep the invariant.
\<close>

section \<open>Raising elements of a list\<close>

text \<open>\<open>raise_window\<close> on any list, and the order \<open>bring_up_descendants_of\<close> makes of the indices.\<close>

definition raise_elem :: "nat \<Rightarrow> nat \<Rightarrow> 'a list \<Rightarrow> 'a list" where
  "raise_elem i k xs = take k xs @ xs ! i # drop k (take i xs) @ drop (Suc i) xs"

fun raise_elems :: "nat list \<Rightarrow> nat \<Rightarrow> 'a list \<Rightarrow> 'a list" where
  "raise_elems [] k xs = xs"
| "raise_elems (i # is) k xs = raise_elems is (k + 1) (raise_elem i k xs)"

definition raised_order :: "nat list \<Rightarrow> nat \<Rightarrow> nat \<Rightarrow> nat list" where
  "raised_order is k n = [0..<k] @ is @ filter (\<lambda>j. j \<notin> set is) [k..<n]"

lemma length_raise_elem [simp]: "i < length xs \<Longrightarrow> k \<le> i \<Longrightarrow> length (raise_elem i k xs) = length xs"
  by (simp add: raise_elem_def)

lemma raise_elem_as_map:
  assumes "i < length xs" "k \<le> i"
  shows "raise_elem i k xs = map ((!) xs) ([0..<k] @ i # [k..<i] @ [Suc i..<length xs])"
proof -
  define ys where "ys = [0..<length xs]"
  have "raise_elem i k (map ((!) xs) ys) = map ((!) xs) (raise_elem i k ys)"
    using assms by (simp add: raise_elem_def ys_def take_map drop_map)
  moreover have "raise_elem i k ys = [0..<k] @ i # [k..<i] @ [Suc i..<length xs]"
    using assms by (simp add: raise_elem_def ys_def min_def drop_take)
  ultimately show ?thesis by (simp add: ys_def map_nth)
qed

lemma raise_elems_order:
  assumes "sorted_wrt (<) is" "\<forall>i\<in>set is. k \<le> i \<and> i < length xs" "k \<le> length xs"
  shows "raise_elems is k xs = map ((!) xs) (raised_order is k (length xs))"
  using assms
proof (induction "is" arbitrary: k xs)
  case Nil
  then have "[0..<k] @ [k..<length xs] = [0..<length xs]"
    by (metis le0 le_add_diff_inverse upt_add_eq_append)
  then show ?case by (simp add: raised_order_def map_nth flip: map_append)
next
  case (Cons i js)
  let ?n = "length xs"
  define q where "q = [0..<k] @ i # [k..<i] @ [Suc i..<?n]"
  have i: "k \<le> i" "i < ?n" and js: "sorted_wrt (<) js" "\<forall>j\<in>set js. i < j \<and> j < ?n"
    using Cons.prems by auto
  have len: "length (raise_elem i k xs) = ?n" using i by simp
  have lq: "length q = ?n" using i by (simp add: q_def)
  have "raise_elems (i # js) k xs = map ((!) (raise_elem i k xs)) (raised_order js (k + 1) ?n)"
    using Cons.IH[of "k + 1" "raise_elem i k xs"] js i len by fastforce
  also have "\<dots> = map ((!) xs) (map ((!) q) (raised_order js (k + 1) ?n))"
    unfolding raise_elem_as_map[OF i(2) i(1)] q_def[symmetric]
    using js(2) i lq by (auto simp: raised_order_def nth_map)
  also have "map ((!) q) (raised_order js (k + 1) ?n) = raised_order (i # js) k ?n"
  proof -
    have a: "map ((!) q) [0..<k + 1] = [0..<k] @ [i]"
      by (rule nth_equalityI) (auto simp: q_def nth_append less_Suc_eq)
    have hi: "q ! j = j" if "i < j" "j < ?n" for j
    proof -
      have "q = ([0..<k] @ i # [k..<i]) @ [Suc i..<?n]" by (simp add: q_def)
      moreover have "length ([0..<k] @ i # [k..<i]) = Suc i" using i by simp
      ultimately show ?thesis using that by (simp only: nth_append) simp
    qed
    have b: "map ((!) q) js = js" using js(2) by (auto intro: map_idI simp: hi)
    have split: "[k + 1..<?n] = [k + 1..<Suc i] @ [Suc i..<?n]"
      using i by (metis Suc_eq_plus1 Suc_leI Suc_le_mono le_add_diff_inverse upt_add_eq_append)
    have c1: "filter (\<lambda>j. j \<notin> set js) [k + 1..<Suc i] = [k + 1..<Suc i]"
      using js(2) by (auto simp: filter_id_conv)
    have c2: "map ((!) q) [k + 1..<Suc i] = [k..<i]"
      by (rule nth_equalityI) (use i in \<open>auto simp: q_def nth_append\<close>)
    have c3: "map ((!) q) (filter (\<lambda>j. j \<notin> set js) [Suc i..<?n]) = filter (\<lambda>j. j \<notin> set js) [Suc i..<?n]"
      by (rule map_idI) (auto simp: hi)
    have split': "[k..<?n] = [k..<i] @ i # [Suc i..<?n]"
      using i by (metis le_add_diff_inverse less_imp_le_nat upt_add_eq_append upt_conv_Cons)
    have d1: "filter (\<lambda>j. j \<notin> set (i # js)) [k..<i] = [k..<i]"
      using js(2) by (auto simp: filter_id_conv)
    have d2: "filter (\<lambda>j. j \<notin> set (i # js)) [Suc i..<?n] = filter (\<lambda>j. j \<notin> set js) [Suc i..<?n]"
      by (rule filter_cong) auto
    have "map ((!) q) (raised_order js (k + 1) ?n) =
        ([0..<k] @ [i]) @ js @ [k..<i] @ filter (\<lambda>j. j \<notin> set js) [Suc i..<?n]"
      unfolding raised_order_def map_append a b split filter_append c1 c2 c3 by simp
    also have "\<dots> = raised_order (i # js) k ?n"
      unfolding raised_order_def split' filter_append d1 using d2 by simp
    finally show ?thesis .
  qed
  finally show ?case .
qed

section \<open>Descendants\<close>

definition add_descendant :: "('a \<Rightarrow> 'a \<Rightarrow> bool) \<Rightarrow> 'a list \<Rightarrow> nat \<Rightarrow> nat \<Rightarrow> nat list \<Rightarrow> nat list" where
  "add_descendant child xs idx i ds =
     (if child (xs ! i) (xs ! idx) \<or> list_ex (\<lambda>j. child (xs ! i) (xs ! j)) ds then ds @ [i] else ds)"

lemma descendants_scan:
  fixes child :: "'a \<Rightarrow> 'a \<Rightarrow> bool" and xs :: "'a list" and idx a n :: nat
  assumes "a \<le> n"
  defines "D \<equiv> \<lambda>a. fold (add_descendant child xs idx) (rev [a..<n]) []"
  shows "set (D a) \<subseteq> {a..<n} \<and> sorted_wrt (>) (D a) \<and>
    (\<forall>i\<in>{a..<n}. i \<in> set (D a) \<longleftrightarrow>
       child (xs ! i) (xs ! idx) \<or> (\<exists>j\<in>set (D a). i < j \<and> child (xs ! i) (xs ! j)))"
  using assms(1)
proof (induction a rule: inc_induct)
  case base
  show ?case by (simp add: D_def)
next
  case (step a)
  have D: "D a = add_descendant child xs idx a (D (Suc a))"
    using step.hyps by (simp add: D_def upt_conv_Cons)
  have sub: "\<forall>j\<in>set (D (Suc a)). a < j" using step.IH by fastforce
  have set: "set (D a) = (if child (xs ! a) (xs ! idx) \<or> (\<exists>j\<in>set (D (Suc a)). child (xs ! a) (xs ! j))
      then insert a (set (D (Suc a))) else set (D (Suc a)))"
    unfolding D add_descendant_def list_ex_iff by auto
  have "sorted_wrt (>) (D a)"
    using step.IH sub unfolding D add_descendant_def by (simp add: sorted_wrt_append)
  moreover have "set (D a) \<subseteq> {a..<n}" using step.IH step.hyps unfolding set by auto
  moreover have "i \<in> set (D a) \<longleftrightarrow>
       child (xs ! i) (xs ! idx) \<or> (\<exists>j\<in>set (D a). i < j \<and> child (xs ! i) (xs ! j))" if "i \<in> {a..<n}" for i
  proof (cases "i = a")
    case True
    have "a \<notin> set (D (Suc a))" using sub by blast
    with True sub show ?thesis unfolding set by (auto split: if_splits)
  next
    case False
    with that have i: "i \<in> {Suc a..<n}" by auto
    have "i \<in> set (D a) \<longleftrightarrow> i \<in> set (D (Suc a))" using False unfolding set by auto
    moreover have "(\<exists>j\<in>set (D a). i < j \<and> child (xs ! i) (xs ! j)) \<longleftrightarrow>
        (\<exists>j\<in>set (D (Suc a)). i < j \<and> child (xs ! i) (xs ! j))"
      using i unfolding set by auto
    ultimately show ?thesis using step.IH i by simp
  qed
  ultimately show ?case by blast
qed

lemma descendants_below:
  assumes "idx < length xs"
  shows "set (descendants_below child xs idx) \<subseteq> {idx<..<length xs}"
    and "sorted_wrt (<) (rev (descendants_below child xs idx))"
    and "i \<in> {idx<..<length xs} \<Longrightarrow> i \<in> set (descendants_below child xs idx) \<longleftrightarrow>
       child (xs ! i) (xs ! idx) \<or>
       (\<exists>j\<in>set (descendants_below child xs idx). i < j \<and> child (xs ! i) (xs ! j))"
proof -
  have D: "descendants_below child xs idx =
      fold (add_descendant child xs idx) (rev [Suc idx..<length xs]) []"
    by (simp add: descendants_below_def add_descendant_def[abs_def])
  note s = descendants_scan[of "Suc idx" "length xs" child xs idx, folded D]
  show "set (descendants_below child xs idx) \<subseteq> {idx<..<length xs}"
    "sorted_wrt (<) (rev (descendants_below child xs idx))"
    using s assms by (auto simp: sorted_wrt_rev Suc_le_eq)
  show "i \<in> {idx<..<length xs} \<Longrightarrow> i \<in> set (descendants_below child xs idx) \<longleftrightarrow>
       child (xs ! i) (xs ! idx) \<or>
       (\<exists>j\<in>set (descendants_below child xs idx). i < j \<and> child (xs ! i) (xs ! j))"
    using s assms by auto
qed

section \<open>Stacking\<close>

text \<open>No element is below one it is a child of.\<close>

definition stacked :: "('a \<Rightarrow> 'a \<Rightarrow> bool) \<Rightarrow> 'a list \<Rightarrow> bool" where
  "stacked child xs \<longleftrightarrow> sorted_wrt (\<lambda>a b. \<not> child b a) xs"

definition bring_up_order :: "('a \<Rightarrow> 'a \<Rightarrow> bool) \<Rightarrow> 'a list \<Rightarrow> nat \<Rightarrow> nat list" where
  "bring_up_order child xs idx = raised_order (rev (descendants_below child xs idx)) idx (length xs)"

lemma descendant_tranclp:
  assumes "idx < length xs" "d \<in> set (descendants_below child xs idx)"
  shows "(\<lambda>a b. a \<in> set xs \<and> b \<in> set xs \<and> child a b)\<^sup>+\<^sup>+ (xs ! d) (xs ! idx)"
  using assms(2)
proof (induction "length xs - d" arbitrary: d rule: less_induct)
  case less
  have d: "d \<in> {idx<..<length xs}" using descendants_below(1)[OF assms(1)] less.prems by blast
  from descendants_below(3)[OF assms(1) d, of child] less.prems
  consider "child (xs ! d) (xs ! idx)"
    | j where "j \<in> set (descendants_below child xs idx)" "d < j" "child (xs ! d) (xs ! j)" by blast
  then show ?case
  proof cases
    case 1
    then show ?thesis using d assms(1) by (simp add: tranclp.r_into_trancl)
  next
    case 2
    have "j < length xs" using descendants_below(1)[OF assms(1)] 2(1) by fastforce
    then show ?thesis
      using 2 d less.hyps[of j] by (simp add: tranclp_into_tranclp2[where b = "xs ! j"])
  qed
qed

lemma bring_up_stacks:
  assumes idx: "idx < length xs"
    and rest: "stacked child (take idx xs @ drop (Suc idx) xs)"
    and above: "\<forall>k<idx. \<not> child (xs ! idx) (xs ! k)"
    and acyclic: "\<And>a. a \<in> set xs \<Longrightarrow> \<not> (\<lambda>a b. a \<in> set xs \<and> b \<in> set xs \<and> child a b)\<^sup>+\<^sup>+ a a"
  shows "stacked child (map ((!) xs) (bring_up_order child xs idx))"
proof -
  let ?n = "length xs" and ?ds = "descendants_below child xs idx"
  let ?R = "\<lambda>i j. \<not> child (xs ! j) (xs ! i)"
  have h1: "?R i j" if "i < j" "i \<noteq> idx" "j \<noteq> idx" "j < ?n" for i j
  proof -
    define f where "f i = (if i < idx then i else i - 1)" for i
    have "f i < f j" "f j < ?n - 1" using that idx by (auto simp: f_def)
    then have "\<not> child ((take idx xs @ drop (Suc idx) xs) ! f j) ((take idx xs @ drop (Suc idx) xs) ! f i)"
      using rest idx unfolding stacked_def sorted_wrt_iff_nth_less by simp
    moreover have "(take idx xs @ drop (Suc idx) xs) ! f k = xs ! k" if "k \<noteq> idx" "k < ?n" for k
      using that idx by (auto simp: f_def nth_append)
    ultimately show ?thesis using that by simp
  qed
  note sub = descendants_below(1)[OF idx, of child]
  note mem = descendants_below(3)[OF idx, of _ child]
  have in_ds: "d \<noteq> idx" "d < ?n" if "d \<in> set ?ds" for d using sub that by auto
  have h3: "?R d idx" if "d \<in> set ?ds" for d
  proof
    assume "child (xs ! idx) (xs ! d)"
    moreover have "d < ?n" using sub that by auto
    ultimately have "(\<lambda>a b. a \<in> set xs \<and> b \<in> set xs \<and> child a b)\<^sup>+\<^sup>+ (xs ! idx) (xs ! idx)"
      using descendant_tranclp[OF idx that] idx
      by (simp add: tranclp_into_tranclp2[where b = "xs ! d"])
    then show False using acyclic idx by (meson nth_mem)
  qed
  have rd: "filter (\<lambda>j. j \<notin> set ?ds) [idx..<?n] = idx # filter (\<lambda>j. j \<notin> set ?ds) [Suc idx..<?n]"
    using idx sub by (auto simp: upt_conv_Cons)
  have dr: "?R d r" if "d \<in> set ?ds" "r \<notin> set ?ds" "idx < r" "r < ?n" for d r
  proof (cases "d < r")
    case True
    then show ?thesis using h1[of d r] that sub by auto
  next
    case False
    then have "r < d" using that by (metis linorder_neqE_nat)
    then show ?thesis using mem[of r] that by auto
  qed
  define rest' where "rest' = filter (\<lambda>j. j \<notin> set ?ds) [Suc idx..<?n]"
  have r: "j \<notin> set ?ds \<and> idx < j \<and> j < ?n" if "j \<in> set rest'" for j
    using that by (auto simp: rest'_def)
  have "?R x y" if "x < idx" "y \<in> set ?ds \<or> y = idx \<or> y \<in> set rest'" for x y
    using that(2)
  proof (elim disjE)
    assume "y \<in> set ?ds"
    then show ?thesis using h1[of x y] sub that(1) by auto
  next
    assume "y = idx"
    then show ?thesis using above that(1) by simp
  next
    assume "y \<in> set rest'"
    then show ?thesis using h1[of x y] r[of y] that(1) by simp
  qed
  moreover have "?R d y" if "d \<in> set ?ds" "y = idx \<or> y \<in> set rest'" for d y
    using that h3[of d] dr[of d y] r[of y] by blast
  moreover have "?R idx y" if "y \<in> set rest'" for y
    using mem[of y] r[OF that] by auto
  moreover have "sorted_wrt ?R [0..<idx]"
    by (rule sorted_wrt_mono_rel[OF _ sorted_wrt_upt]) (use h1 idx in auto)
  moreover have "sorted_wrt ?R (rev ?ds)"
    by (rule sorted_wrt_mono_rel[OF _ descendants_below(2)[OF idx, of child]]) (use h1 in_ds in fastforce)
  moreover have "sorted_wrt ?R rest'"
    unfolding rest'_def
    by (rule sorted_wrt_filter, rule sorted_wrt_mono_rel[OF _ sorted_wrt_upt]) (use h1 in auto)
  ultimately have "sorted_wrt ?R ([0..<idx] @ rev ?ds @ idx # rest')"
    unfolding sorted_wrt_append sorted_wrt.simps by auto
  then show ?thesis
    unfolding stacked_def bring_up_order_def raised_order_def sorted_wrt_map by (simp add: rd rest'_def)
qed

section \<open>The invariant\<close>

definition fs_ids :: "floating_space \<Rightarrow> nat list" where
  "fs_ids s = map tile_id (fs_tiles s)"

text \<open>The data of a tile is up to date, and the tile has the configuration of the space.\<close>

definition pair_ok :: "env \<Rightarrow> size \<Rightarrow> f64 \<Rightarrow> options \<Rightarrow> rect \<Rightarrow> tile \<Rightarrow> fdata \<Rightarrow> bool" where
  "pair_ok E view_size scale opts area t d \<longleftrightarrow>
     tl_view_size t = view_size \<and> tl_scale t = scale \<and> tl_options t = opts \<and>
     fd_size d = tile_size E t \<and> fd_working_area d = area \<and> fdata_recompute_logical_pos d = d"

definition pairs_ok :: "env \<Rightarrow> floating_space \<Rightarrow> bool" where
  "pairs_ok E s \<longleftrightarrow>
     list_all2 (pair_ok E (fs_view_size s) (fs_scale s) (fs_options s) (fs_working_area s)) (fs_tiles s) (fs_data s)"

definition active_ok :: "floating_space \<Rightarrow> bool" where
  "active_ok s \<longleftrightarrow> (case fs_active_window_id s of
     None \<Rightarrow> fs_tiles s = [] | Some i \<Rightarrow> i \<in> set (fs_ids s))"

definition resize_ok :: "floating_space \<Rightarrow> bool" where
  "resize_ok s \<longleftrightarrow> (case fs_interactive_resize s of
     None \<Rightarrow> True | Some r \<Rightarrow> ir_window r \<in> set (fs_ids s))"

definition fs_core :: "env \<Rightarrow> floating_space \<Rightarrow> bool" where
  "fs_core E s \<longleftrightarrow> pairs_ok E s \<and> distinct (fs_ids s) \<and> active_ok s \<and> resize_ok s"

definition fs_inv :: "env \<Rightarrow> floating_space \<Rightarrow> bool" where
  "fs_inv E s \<longleftrightarrow> fs_core E s \<and> stacked tile_child (fs_tiles s)"

text \<open>No window is its own ancestor.\<close>

definition parent_links :: "tile list \<Rightarrow> (nat \<times> nat) set" where
  "parent_links ts = {(tp_surface (mw_toplevel (tl_window t)), p) | t p.
     t \<in> set ts \<and> tp_parent (mw_toplevel (tl_window t)) = Some p}"

definition parents_acyclic :: "tile list \<Rightarrow> bool" where
  "parents_acyclic ts \<longleftrightarrow> acyclic (parent_links ts)"

lemma parents_acyclic_child:
  assumes "parents_acyclic ts"
  shows "\<not> (\<lambda>a b. a \<in> set ts \<and> b \<in> set ts \<and> tile_child a b)\<^sup>+\<^sup>+ a a"
proof
  let ?sf = "\<lambda>t. tp_surface (mw_toplevel (tl_window t))"
  have step: "(?sf x, ?sf y) \<in> (parent_links ts)\<^sup>+"
    if "(\<lambda>a b. a \<in> set ts \<and> b \<in> set ts \<and> tile_child a b)\<^sup>+\<^sup>+ x y" for x y
    using that
  proof (induction rule: tranclp_induct)
    case (base y)
    then show ?case by (auto simp: parent_links_def tile_child_def win_is_child_of_def)
  next
    case (step y z)
    then have "(?sf y, ?sf z) \<in> parent_links ts"
      by (auto simp: parent_links_def tile_child_def win_is_child_of_def)
    with step.IH show ?case by (rule trancl_into_trancl)
  qed
  assume "(\<lambda>a b. a \<in> set ts \<and> b \<in> set ts \<and> tile_child a b)\<^sup>+\<^sup>+ a a"
  from step[OF this] show False using assms by (simp add: parents_acyclic_def acyclic_def)
qed

subsection \<open>Reordering\<close>

definition reorder :: "nat list \<Rightarrow> floating_space \<Rightarrow> floating_space" where
  "reorder p s = s\<lparr>fs_tiles := map ((!) (fs_tiles s)) p, fs_data := map ((!) (fs_data s)) p\<rparr>"

lemma raise_window_eq:
  assumes "i < length (fs_tiles s)" "length (fs_data s) = length (fs_tiles s)" "k \<le> i"
  shows "fs_raise_window i k s =
    Some (s\<lparr>fs_tiles := raise_elem i k (fs_tiles s), fs_data := raise_elem i k (fs_data s)\<rparr>)"
  using assms
  by (simp add: fs_raise_window_def vec_remove_def vec_insert_def raise_elem_def min_def)

lemma raise_all_eq:
  assumes "sorted_wrt (<) is" "\<forall>i\<in>set is. k \<le> i \<and> i < length (fs_tiles s)"
    and "length (fs_data s) = length (fs_tiles s)"
  shows "fs_raise_all is k s =
    Some (s\<lparr>fs_tiles := raise_elems is k (fs_tiles s), fs_data := raise_elems is k (fs_data s)\<rparr>)"
  using assms
proof (induction "is" arbitrary: k s)
  case (Cons i js)
  then have "\<forall>j\<in>set js. k + 1 \<le> j \<and> j < length (fs_tiles s)" by fastforce
  with Cons show ?case by (simp add: raise_window_eq)
qed simp

lemma bring_up_eq:
  assumes "idx < length (fs_tiles s)" "length (fs_data s) = length (fs_tiles s)"
  shows "fs_bring_up_descendants_of idx s = Some (reorder (bring_up_order tile_child (fs_tiles s) idx) s)"
proof -
  let ?ds = "rev (descendants_below tile_child (fs_tiles s) idx)"
  have b: "\<forall>i\<in>set ?ds. idx \<le> i \<and> i < length (fs_tiles s)"
    using descendants_below(1)[OF assms(1), of tile_child] by fastforce
  note sd = descendants_below(2)[OF assms(1), of tile_child]
  show ?thesis
    using assms raise_all_eq[OF sd b assms(2)] raise_elems_order[OF sd b]
      raise_elems_order[OF sd, of idx "fs_data s"] b
    by (simp add: fs_bring_up_descendants_of_def reorder_def bring_up_order_def)
qed

lemma mset_raised_order:
  "distinct is \<Longrightarrow> \<forall>i\<in>set is. k \<le> i \<and> i < n \<Longrightarrow> k \<le> n \<Longrightarrow> mset (raised_order is k n) = mset [0..<n]"
proof -
  assume a: "distinct is" "\<forall>i\<in>set is. k \<le> i \<and> i < n" "k \<le> n"
  then have "distinct (raised_order is k n)" "set (raised_order is k n) = {0..<n}"
    by (auto simp: raised_order_def)
  then show ?thesis by (metis atLeastLessThan_upt distinct_upt set_eq_iff_mset_eq_distinct)
qed

lemma mset_bring_up_order:
  assumes "idx < length xs"
  shows "mset (bring_up_order child xs idx) = mset [0..<length xs]"
  unfolding bring_up_order_def
proof (rule mset_raised_order)
  show "distinct (rev (descendants_below child xs idx))"
    using descendants_below(2)[OF assms, of child] by (simp add: strict_sorted_iff)
  show "\<forall>i\<in>set (rev (descendants_below child xs idx)). idx \<le> i \<and> i < length xs"
    using descendants_below(1)[OF assms, of child] by fastforce
qed (use assms in simp)

lemma mset_reordered: "mset p = mset [0..<length xs] \<Longrightarrow> mset (map ((!) xs) p) = mset xs"
  by (metis map_nth mset_map)

lemma reorder_core:
  assumes "fs_core E s" "mset p = mset [0..<length (fs_tiles s)]"
  shows "fs_core E (reorder p s)" "mset (fs_ids (reorder p s)) = mset (fs_ids s)"
    "mset (fs_tiles (reorder p s)) = mset (fs_tiles s)"
proof -
  have sp: "set p = {0..<length (fs_tiles s)}" using assms(2) by (metis atLeastLessThan_upt set_mset_mset)
  show m: "mset (fs_tiles (reorder p s)) = mset (fs_tiles s)"
    using mset_reordered[OF assms(2)] by (simp add: reorder_def)
  then show i: "mset (fs_ids (reorder p s)) = mset (fs_ids s)"
    by (simp add: fs_ids_def)
  have "pairs_ok E (reorder p s)"
    using assms(1) sp unfolding fs_core_def pairs_ok_def reorder_def
    by (auto simp: list_all2_map1 list_all2_map2 list_all2_same dest: list_all2_nthD)
  moreover have "fs_tiles (reorder p s) = [] \<longleftrightarrow> fs_tiles s = []"
    using m by (metis mset_zero_iff)
  moreover have "set (fs_ids (reorder p s)) = set (fs_ids s)" by (rule mset_eq_setD[OF i])
  moreover have "fs_active_window_id (reorder p s) = fs_active_window_id s"
    "fs_interactive_resize (reorder p s) = fs_interactive_resize s" by (simp_all add: reorder_def)
  moreover have "distinct (fs_ids (reorder p s))"
    using assms(1) i mset_eq_imp_distinct_iff fs_core_def by blast
  ultimately show "fs_core E (reorder p s)"
    using assms(1) by (simp add: fs_core_def active_ok_def resize_ok_def split: option.splits)
qed

lemma core_length: "fs_core E s \<Longrightarrow> length (fs_data s) = length (fs_tiles s)"
  by (auto simp: fs_core_def pairs_ok_def dest: list_all2_lengthD)

text \<open>Bringing up the descendants of a window restores the stacking that only it may break.\<close>

lemma bring_up_inv:
  assumes "fs_core E s" "idx < length (fs_tiles s)"
    and "stacked tile_child (take idx (fs_tiles s) @ drop (Suc idx) (fs_tiles s))"
    and "\<forall>k<idx. \<not> tile_child (fs_tiles s ! idx) (fs_tiles s ! k)"
    and "parents_acyclic (fs_tiles s)"
  shows "\<exists>s'. fs_bring_up_descendants_of idx s = Some s' \<and> fs_inv E s' \<and>
     mset (fs_tiles s') = mset (fs_tiles s) \<and> mset (fs_ids s') = mset (fs_ids s) \<and>
     fs_active_window_id s' = fs_active_window_id s \<and> (\<exists>p. s' = reorder p s)"
proof -
  let ?p = "bring_up_order tile_child (fs_tiles s) idx"
  have l: "length (fs_data s) = length (fs_tiles s)"
    by (rule core_length[OF assms(1)])
  note r = reorder_core[OF assms(1) mset_bring_up_order[OF assms(2)]]
  have "stacked tile_child (fs_tiles (reorder ?p s))"
    unfolding reorder_def
    using bring_up_stacks[OF assms(2,3,4) parents_acyclic_child[OF assms(5)]] by simp
  then show ?thesis
    using bring_up_eq[OF assms(2) l] r by (auto simp: fs_inv_def reorder_def)
qed

subsection \<open>Changing tiles in place\<close>

text \<open>What the space depends on of a window and of a tile, and the operations that leave it alone.\<close>

definition wkey :: "mapped \<Rightarrow> nat \<times> nat \<times> nat option \<times> isize" where
  "wkey w = (mw_id w, tp_surface (mw_toplevel w), tp_parent (mw_toplevel w), win_size w)"

definition tkey :: "tile \<Rightarrow> nat \<times> nat \<times> nat option" where
  "tkey t = (tile_id t, tp_surface (mw_toplevel (tl_window t)), tp_parent (mw_toplevel (tl_window t)))"

definition keeps :: "env \<Rightarrow> tile \<Rightarrow> tile \<Rightarrow> bool" where
  "keeps E t t' \<longleftrightarrow> tkey t' = tkey t \<and> tile_size E t' = tile_size E t \<and> tl_view_size t' = tl_view_size t \<and>
     tl_scale t' = tl_scale t \<and> tl_options t' = tl_options t"

named_theorems wkeys "operations that keep the key of a window"

lemma set_wkey [wkeys]:
  "wkey (win_set_activated b w) = wkey w" "wkey (win_set_active_in_column b w) = wkey w"
  "wkey (win_set_floating b w) = wkey w" "wkey (win_set_bounds sz w) = wkey w"
  "wkey (win_set_interactive_resize e w) = wkey w"
  by (simp_all add: wkey_def win_size_def win_set_activated_def win_set_active_in_column_def
      win_set_floating_def win_set_bounds_def win_set_interactive_resize_def with_pending_state_def
      Let_def split: option.split)

lemma request_once_wkey [wkeys]: "wkey (win_request_size_once E sz a w) = wkey w"
  by (simp add: wkey_def win_simps)

lemma configure_sent_toplevel: "mw_toplevel (win_configure_sent s w) = mw_toplevel w"
  unfolding win_configure_sent_def Let_def by (simp split: option.split)

lemma on_commit_toplevel: "mw_toplevel (win_on_commit E c w) = mw_toplevel w"
  unfolding win_on_commit_def Let_def case_prod_beta
  by (simp split: option.split win_interactive_resize.split request_size_once_state.split)

lemma on_commit_wkey [wkeys]: "wkey (win_on_commit E c w) = wkey w"
  by (simp add: wkey_def win_size_def win_simps on_commit_toplevel)

text \<open>Sending a configure leaves the surface, its parent and its geometry.\<close>

definition configure_keeps :: "env \<Rightarrow> bool" where
  "configure_keeps E \<longleftrightarrow> (\<forall>t. tp_surface (snd (e_send_configure E t)) = tp_surface t \<and>
     tp_parent (snd (e_send_configure E t)) = tp_parent t \<and>
     tp_geometry_size (snd (e_send_configure E t)) = tp_geometry_size t)"

lemma send_wkey:
  assumes "configure_keeps E"
  shows "wkey (win_send_pending_configure E w) = wkey w"
proof -
  have p: "tp_surface (with_pending_state f t) = tp_surface t" "tp_parent (with_pending_state f t) = tp_parent t"
    "tp_geometry_size (with_pending_state f t) = tp_geometry_size t" for f t
    by (simp_all add: with_pending_state_def)
  have h: "tp_surface (mw_toplevel (fst (win_has_pending_changes w))) = tp_surface (mw_toplevel w)"
    "tp_parent (mw_toplevel (fst (win_has_pending_changes w))) = tp_parent (mw_toplevel w)"
    "tp_geometry_size (mw_toplevel (fst (win_has_pending_changes w))) = tp_geometry_size (mw_toplevel w)"
    by (simp_all add: win_has_pending_changes_def Let_def)
  have k: "tp_surface (snd (e_send_configure E t)) = tp_surface t"
    "tp_parent (snd (e_send_configure E t)) = tp_parent t"
    "tp_geometry_size (snd (e_send_configure E t)) = tp_geometry_size t" for t
    using assms by (simp_all add: configure_keeps_def)
  have "tp_surface (mw_toplevel (win_send_pending_configure E w)) = tp_surface (mw_toplevel w)"
    "tp_parent (mw_toplevel (win_send_pending_configure E w)) = tp_parent (mw_toplevel w)"
    "tp_geometry_size (mw_toplevel (win_send_pending_configure E w)) = tp_geometry_size (mw_toplevel w)"
    unfolding win_send_pending_configure_def Let_def case_prod_beta
    by (simp_all add: configure_sent_toplevel k p h)
  then show ?thesis by (simp add: wkey_def win_size_def win_simps)
qed

lemma keeps_refl [simp]: "keeps E t t"
  by (simp add: keeps_def)

lemma keeps_window: "wkey w = wkey (tl_window t) \<Longrightarrow> keeps E t (t\<lparr>tl_window := w\<rparr>)"
  by (simp add: keeps_def wkey_def tkey_def tile_size_def tile_size_from_def effective_border_width_def
      tile_window_size_def)

lemma keeps_trans: "keeps E t u \<Longrightarrow> keeps E u v \<Longrightarrow> keeps E t v"
  by (simp add: keeps_def)

lemmas tile_size_defs = tile_size_def tile_size_from_def effective_border_width_def tile_window_size_def

lemma keeps_fields:
  "keeps E t (t\<lparr>tl_floating_preset_width_idx := i\<rparr>)" "keeps E t (t\<lparr>tl_floating_preset_height_idx := i\<rparr>)"
  "keeps E t (t\<lparr>tl_floating_pos := p\<rparr>)" "keeps E t (t\<lparr>tl_open_animation := a\<rparr>)"
  "keeps E t (t\<lparr>tl_move_x_animation := m\<rparr>)" "keeps E t (t\<lparr>tl_move_y_animation := m\<rparr>)"
  "keeps E t (tile_advance_animations E' t)"
  by (simp_all add: keeps_def tkey_def tile_size_defs tile_advance_animations_def Let_def)

lemma keeps_moves: "animate_move_from E' d t = Some t' \<Longrightarrow> keeps E t t'"
  by (auto simp: animate_move_from_def animate_move_x_from_with_config_def Let_def
      animate_move_y_from_with_config_def bind_eq_Some_conv keeps_def tkey_def tile_size_defs)

lemma keeps_open: "start_open_animation E' t = Some t' \<Longrightarrow> keeps E t t'"
  by (auto simp: start_open_animation_def bind_eq_Some_conv keeps_fields)

lemma keeps_resized:
  "keeps E t (tile_set_window_width E' av ch an t)" "keeps E t (tile_set_window_height E' av ch an t)"
  unfolding tile_set_window_width_def tile_set_window_height_def Let_def
  by (rule keeps_trans[OF keeps_fields(1) keeps_window]; simp add: wkeys)
     (rule keeps_trans[OF keeps_fields(2) keeps_window]; simp add: wkeys)

lemma stacked_keys: "map tkey ts = map tkey us \<Longrightarrow> stacked tile_child ts = stacked tile_child us"
proof -
  have c: "tile_child a b = (\<lambda>(_, _, p) (_, f, _). p = Some f) (tkey a) (tkey b)" for a b
    by (simp add: tile_child_def win_is_child_of_def tkey_def)
  have "stacked tile_child xs = sorted_wrt (\<lambda>b a. \<not> (\<lambda>(_, _, p) (_, f, _). p = Some f) a b) (map tkey xs)" for xs
    unfolding stacked_def sorted_wrt_map c ..
  then show "map tkey ts = map tkey us \<Longrightarrow> stacked tile_child ts = stacked tile_child us" by metis
qed

lemma links_keys: "tkey ` set ts = tkey ` set us \<Longrightarrow> parent_links ts = parent_links us"
proof -
  have "parent_links xs = {(f, p) | i f p. (i, f, Some p) \<in> tkey ` set xs}" for xs
    by (auto simp: parent_links_def tkey_def image_iff; metis)
  then show "tkey ` set ts = tkey ` set us \<Longrightarrow> parent_links ts = parent_links us" by simp
qed

lemma keys_ids: "map tkey ts = map tkey us \<Longrightarrow> map tile_id ts = map tile_id us"
  by (metis (no_types, lifting) fst_conv list.map_cong0 list.map_comp comp_apply tkey_def map_eq_conv)

text \<open>Replacing a tile and its data.\<close>

lemma inv_replace:
  assumes "fs_inv E s" "i < length (fs_tiles s)" "tkey t = tkey (fs_tiles s ! i)"
    and "pair_ok E (fs_view_size s) (fs_scale s) (fs_options s) (fs_working_area s) t d"
  shows "fs_inv E (s\<lparr>fs_tiles := (fs_tiles s)[i := t], fs_data := (fs_data s)[i := d]\<rparr>)"
    "fs_ids (s\<lparr>fs_tiles := (fs_tiles s)[i := t], fs_data := (fs_data s)[i := d]\<rparr>) = fs_ids s"
proof -
  let ?s = "s\<lparr>fs_tiles := (fs_tiles s)[i := t], fs_data := (fs_data s)[i := d]\<rparr>"
  have k: "map tkey (fs_tiles ?s) = map tkey (fs_tiles s)"
    using assms(2,3) by (simp add: map_update list_update_same_conv)
  then show ids: "fs_ids ?s = fs_ids s" unfolding fs_ids_def by (rule keys_ids)
  have "pairs_ok E ?s"
    using assms(1,4) by (simp add: fs_inv_def fs_core_def pairs_ok_def list_all2_update_cong)
  moreover have "fs_tiles ?s = [] \<longleftrightarrow> fs_tiles s = []" by simp
  ultimately show "fs_inv E ?s"
    using assms(1) ids stacked_keys[OF k]
    by (simp add: fs_inv_def fs_core_def active_ok_def resize_ok_def cong: option.case_cong)
qed

lemma inv_keeps_all:
  assumes "fs_inv E s" "list_all2 (keeps E) (fs_tiles s) ts"
  shows "fs_inv E (s\<lparr>fs_tiles := ts\<rparr>)" "fs_ids (s\<lparr>fs_tiles := ts\<rparr>) = fs_ids s"
proof -
  let ?s = "s\<lparr>fs_tiles := ts\<rparr>"
  have k: "map tkey (fs_tiles ?s) = map tkey (fs_tiles s)"
    using assms(2) by (auto simp: list_all2_conv_all_nth keeps_def intro: nth_equalityI)
  then show ids: "fs_ids ?s = fs_ids s" unfolding fs_ids_def by (rule keys_ids)
  have "pairs_ok E ?s"
    using assms by (auto simp: fs_inv_def fs_core_def pairs_ok_def list_all2_conv_all_nth keeps_def pair_ok_def)
  moreover have "fs_tiles ?s = [] \<longleftrightarrow> fs_tiles s = []" using assms(2) by auto
  ultimately show "fs_inv E ?s"
    using assms(1) ids stacked_keys[OF k]
    by (simp add: fs_inv_def fs_core_def active_ok_def resize_ok_def cong: option.case_cong)
qed

lemma inv_keeps:
  assumes "fs_inv E s" "i < length (fs_tiles s)" "keeps E (fs_tiles s ! i) t"
  shows "fs_inv E (s\<lparr>fs_tiles := (fs_tiles s)[i := t]\<rparr>)" "fs_ids (s\<lparr>fs_tiles := (fs_tiles s)[i := t]\<rparr>) = fs_ids s"
proof -
  have "list_all2 (keeps E) (fs_tiles s) ((fs_tiles s)[i := t])"
    using assms(2,3) by (auto simp: list_all2_conv_all_nth nth_list_update)
  from inv_keeps_all[OF assms(1) this]
  show "fs_inv E (s\<lparr>fs_tiles := (fs_tiles s)[i := t]\<rparr>)" "fs_ids (s\<lparr>fs_tiles := (fs_tiles s)[i := t]\<rparr>) = fs_ids s"
    by blast+
qed

end
