(* ===== verification/FloatingOps.thy ===== *)
theory FloatingOps
  imports FloatingInv
begin

text \<open>
  Every operation of the floating space keeps its invariant and says what it does to the windows: one
  lemma for each, in the order adding and removing, activating, changes in place, a new parent.
\<close>

section \<open>Positions\<close>

lemma recompute_idem [simp]: "fdata_recompute_logical_pos (fdata_recompute_logical_pos d) = fdata_recompute_logical_pos d"
  by (simp add: fdata_recompute_logical_pos_def Let_def)

lemma recompute_sel [simp]:
  "fd_pos (fdata_recompute_logical_pos d) = fd_pos d" "fd_size (fdata_recompute_logical_pos d) = fd_size d"
  "fd_working_area (fdata_recompute_logical_pos d) = fd_working_area d"
  by (simp_all add: fdata_recompute_logical_pos_def Let_def)

lemma set_logical_pos_sel [simp]:
  "fd_size (fdata_set_logical_pos p d) = fd_size d"
  "fd_working_area (fdata_set_logical_pos p d) = fd_working_area d"
  "fdata_recompute_logical_pos (fdata_set_logical_pos p d) = fdata_set_logical_pos p d"
  by (simp_all add: fdata_set_logical_pos_def)

lemma update_sel [simp]:
  "fd_size (fdata_update E t d) = tile_size E t" "fd_pos (fdata_update E t d) = fd_pos d"
  "fd_working_area (fdata_update E t d) = fd_working_area d"
  "fdata_recompute_logical_pos d = d \<Longrightarrow>
     fdata_recompute_logical_pos (fdata_update E t d) = fdata_update E t d"
  by (simp_all add: fdata_update_def Let_def)

lemma update_config_sel [simp]:
  "fd_size (fdata_update_config wa d) = fd_size d" "fd_pos (fdata_update_config wa d) = fd_pos d"
  "fd_working_area (fdata_update_config wa d) = wa"
  "fdata_recompute_logical_pos d = d \<Longrightarrow>
     fdata_recompute_logical_pos (fdata_update_config wa d) = fdata_update_config wa d"
  by (simp_all add: fdata_update_config_def)

lemma new_sel [simp]:
  "fd_size (fdata_new E wa t p) = tile_size E t" "fd_working_area (fdata_new E wa t p) = wa"
  "fdata_recompute_logical_pos (fdata_new E wa t p) = fdata_new E wa t p"
  by (simp_all add: fdata_new_def)

section \<open>Adding and removing\<close>

lemma fs_inv_core: "fs_inv E s \<Longrightarrow> fs_core E s"
  by (simp add: fs_inv_def)

lemma idx_of_Some:
  "fs_idx_of i s = Some k \<Longrightarrow> k < length (fs_tiles s) \<and> tile_id (fs_tiles s ! k) = i"
  by (auto simp: fs_idx_of_def dest: position_Some)

lemma idx_of_total: "i \<in> set (fs_ids s) \<Longrightarrow> \<exists>k. fs_idx_of i s = Some k"
  by (auto simp: fs_idx_of_def fs_ids_def intro: position_ex)

lemma idx_of_None: "fs_idx_of i s = None \<longleftrightarrow> i \<notin> set (fs_ids s)"
  by (auto simp: fs_idx_of_def fs_ids_def position_None)

lemma prepared_sel:
  "tkey (fs_prepared E t s) = tkey t" "tile_id (fs_prepared E t s) = tile_id t"
  "tl_view_size (fs_prepared E t s) = fs_view_size s" "tl_scale (fs_prepared E t s) = fs_scale s"
  "tl_options (fs_prepared E t s) = fs_options s"
  by (simp_all add: fs_prepared_def tile_update_config_def tkey_def win_simps Let_def)

lemma insert_core:
  assumes "fs_core E s" "idx \<le> length (fs_tiles s)" "tile_id t \<notin> set (fs_ids s)"
    and "pair_ok E (fs_view_size s) (fs_scale s) (fs_options s) (fs_working_area s) t d"
    and "act = Some (tile_id t) \<or> act = fs_active_window_id s \<and> fs_tiles s \<noteq> []"
  shows "fs_core E (s\<lparr>fs_active_window_id := act, fs_tiles := take idx (fs_tiles s) @ t # drop idx (fs_tiles s),
     fs_data := take idx (fs_data s) @ d # drop idx (fs_data s)\<rparr>)" (is "fs_core E ?s")
proof -
  have ids: "fs_ids ?s = take idx (fs_ids s) @ tile_id t # drop idx (fs_ids s)"
    by (simp add: fs_ids_def take_map drop_map)
  then have m: "mset (fs_ids ?s) = add_mset (tile_id t) (mset (fs_ids s))"
    by (simp only: mset_insert_nth)
  then have "distinct (fs_ids ?s)"
    using assms(1,3) by (metis distinct.simps(2) fs_core_def mset.simps(2) mset_eq_imp_distinct_iff)
  moreover have "set (fs_ids ?s) = insert (tile_id t) (set (fs_ids s))"
    using m by (metis set_mset_add_mset_insert set_mset_mset)
  moreover have "pairs_ok E ?s"
    using assms(1,4) by (simp add: fs_core_def pairs_ok_def list_all2_appendI list_all2_takeI list_all2_dropI)
  ultimately show ?thesis
    using assms(1,5) by (auto simp: fs_core_def active_ok_def resize_ok_def split: option.splits)
qed

lemma add_tile_at_inv:
  assumes inv: "fs_inv E s" and idx: "idx \<le> length (fs_tiles s)" and new: "tile_id t \<notin> set (fs_ids s)"
    and acyclic: "parents_acyclic (t # fs_tiles s)"
  shows "\<exists>s'. fs_add_tile_at E idx t a s = Some s' \<and> fs_inv E s' \<and>
     mset (fs_ids s') = add_mset (tile_id t) (mset (fs_ids s)) \<and>
     fs_active_window_id s' = (if a \<or> fs_tiles s = [] then Some (tile_id t) else fs_active_window_id s)"
proof -
  define t' where "t' = fs_prepared E t s"
  define act where "act = (if a \<or> fs_tiles s = [] then Some (tile_id t') else fs_active_window_id s)"
  define k where "k = (case position (tile_child t') (take idx (fs_tiles s)) of Some i \<Rightarrow> i | None \<Rightarrow> idx)"
  define d where "d = fdata_new E (fs_working_area s) t' (fs_initial_pos E t' s)"
  define s1 where "s1 = s\<lparr>fs_active_window_id := act, fs_tiles := take k (fs_tiles s) @ t' # drop k (fs_tiles s),
     fs_data := take k (fs_data s) @ d # drop k (fs_data s)\<rparr>"
  have k: "k \<le> length (fs_tiles s)" "k \<le> idx"
    using idx unfolding k_def by (auto split: option.split dest!: position_length)
  have l: "length (fs_data s) = length (fs_tiles s)" using core_length[OF fs_inv_core[OF inv]] .
  have exec: "fs_add_tile_at E idx t a s = fs_bring_up_descendants_of k s1"
  proof -
    have [simp]: "fs_initial_pos E t' (s\<lparr>fs_active_window_id := x\<rparr>) = fs_initial_pos E t' s" for x
      by (simp add: fs_initial_pos_def fs_stored_or_default_tile_pos_def split: option.split)
    show ?thesis
      using k l unfolding fs_add_tile_at_def Let_def
      by (simp add: t'_def[symmetric] k_def[symmetric] vec_insert_def s1_def d_def act_def)
  qed
  have "fs_core E s1"
    unfolding s1_def
    by (rule insert_core[OF fs_inv_core[OF inv] k(1)])
      (auto simp: t'_def prepared_sel new pair_ok_def d_def act_def)
  moreover have kl: "k < length (fs_tiles s1)" using k by (simp add: s1_def)
  moreover have "take k (fs_tiles s1) @ drop (Suc k) (fs_tiles s1) = fs_tiles s"
    using k by (simp add: s1_def min_def)
  moreover have "\<forall>j<k. \<not> tile_child (fs_tiles s1 ! k) (fs_tiles s1 ! j)"
  proof (intro allI impI)
    fix j assume j: "j < k"
    have "\<not> tile_child t' (fs_tiles s ! j)"
    proof (cases "position (tile_child t') (take idx (fs_tiles s))")
      case None
      then have "\<forall>x\<in>set (take idx (fs_tiles s)). \<not> tile_child t' x" by (simp add: position_None)
      then show ?thesis using j k by (metis in_set_conv_nth length_take min.absorb2 nth_take order_less_le_trans idx)
    next
      case (Some i)
      then show ?thesis using position_Some[OF Some] j k by (auto simp: k_def)
    qed
    then show "\<not> tile_child (fs_tiles s1 ! k) (fs_tiles s1 ! j)"
      using j k by (simp add: s1_def nth_append min_def)
  qed
  moreover have "parents_acyclic (fs_tiles s1)"
  proof -
    have "set (fs_tiles s1) = insert t' (set (fs_tiles s))"
      using mset_insert_nth[of k "fs_tiles s" t'] by (simp add: s1_def flip: set_mset_mset)
    then have "tkey ` set (fs_tiles s1) = tkey ` set (t # fs_tiles s)"
      by (simp add: t'_def prepared_sel)
    from links_keys[OF this] acyclic show ?thesis by (simp add: parents_acyclic_def)
  qed
  moreover have "stacked tile_child (fs_tiles s)" using inv by (simp add: fs_inv_def)
  ultimately obtain s' where s': "fs_bring_up_descendants_of k s1 = Some s'" "fs_inv E s'"
      "mset (fs_ids s') = mset (fs_ids s1)" "fs_active_window_id s' = fs_active_window_id s1"
    using bring_up_inv[of E s1 k] by auto
  moreover have "mset (fs_ids s1) = add_mset (tile_id t) (mset (fs_ids s))"
  proof -
    have "fs_ids s1 = take k (fs_ids s) @ tile_id t # drop k (fs_ids s)"
      by (simp add: s1_def fs_ids_def take_map drop_map t'_def prepared_sel)
    then show ?thesis by (simp only: mset_insert_nth)
  qed
  ultimately show ?thesis
    by (auto simp: exec s1_def act_def t'_def prepared_sel)
qed

lemma add_above_inv:
  assumes inv: "fs_inv E s" and above: "i \<in> set (fs_ids s)" and new: "tile_id t \<notin> set (fs_ids s)"
    and acyclic: "parents_acyclic (t # fs_tiles s)"
  shows "\<exists>s'. fs_add_tile_above E i t a s = Some s' \<and> fs_inv E s' \<and>
     mset (fs_ids s') = add_mset (tile_id t) (mset (fs_ids s)) \<and>
     fs_active_window_id s' = (if a \<or> fs_tiles s = [] then Some (tile_id t) else fs_active_window_id s)"
proof -
  obtain k where k: "fs_idx_of i s = Some k" using idx_of_total[OF above] by blast
  then have kl: "k < length (fs_tiles s)" by (simp add: idx_of_Some)
  define u where "u p = t\<lparr>tl_floating_pos := Some p\<rparr>" for p
  have key: "tkey (u p) = tkey t" "tile_id (u p) = tile_id t" for p by (simp_all add: u_def tkey_def)
  then have "parent_links (u p # fs_tiles s) = parent_links (t # fs_tiles s)" for p
    by (intro links_keys) simp
  then have "parents_acyclic (u p # fs_tiles s)" for p
    using acyclic by (simp add: parents_acyclic_def)
  then have "\<exists>s'. fs_add_tile_at E k (u p) a s = Some s' \<and> fs_inv E s' \<and>
     mset (fs_ids s') = add_mset (tile_id t) (mset (fs_ids s)) \<and>
     fs_active_window_id s' = (if a \<or> fs_tiles s = [] then Some (tile_id t) else fs_active_window_id s)" for p
    using add_tile_at_inv[OF inv less_imp_le[OF kl], of "u p" a] new key by auto
  then show ?thesis
    using k kl core_length[OF fs_inv_core[OF inv]]
    by (simp add: fs_add_tile_above_def Let_def vec_get_def u_def)
qed

lemma stacked_remove: "stacked child xs \<Longrightarrow> stacked child (take i xs @ drop (Suc i) xs)"
proof (cases "i < length xs")
  case True
  assume "stacked child xs"
  then have "sorted_wrt (\<lambda>a b. \<not> child b a) (take i xs @ xs ! i # drop (Suc i) xs)"
    using id_take_nth_drop[OF True] by (simp add: stacked_def)
  then show ?thesis by (simp add: stacked_def sorted_wrt_append)
qed simp

lemma remove_ids:
  assumes "distinct (map f xs)" "i < length xs"
  shows "map f (take i xs @ drop (Suc i) xs) = remove1 (f (xs ! i)) (map f xs)"
proof -
  have "map f xs = map f (take i xs) @ f (xs ! i) # map f (drop (Suc i) xs)"
    by (metis assms(2) id_take_nth_drop list.simps(9) map_append)
  moreover from this have "f (xs ! i) \<notin> set (map f (take i xs))" using assms(1) by (metis distinct_append
    distinct.simps(2) disjoint_iff list.set_intros(1))
  ultimately show ?thesis by (simp add: remove1_append)
qed

text \<open>The next active window.\<close>

definition active_after_remove :: "nat \<Rightarrow> floating_space \<Rightarrow> nat option" where
  "active_after_remove i s = (case remove1 i (fs_ids s) of
     [] \<Rightarrow> None
   | j # _ \<Rightarrow> if fs_active_window_id s = Some i then Some j else fs_active_window_id s)"

lemma remove_inv:
  assumes inv: "fs_inv E s" and i: "i \<in> set (fs_ids s)"
  shows "\<exists>rt s'. fs_remove_tile E' i s = Some (rt, s') \<and> tile_id (rt_tile rt) = i \<and> fs_inv E s' \<and>
     fs_ids s' = remove1 i (fs_ids s) \<and> fs_active_window_id s' = active_after_remove i s"
proof -
  obtain k where k: "fs_idx_of i s = Some k" using idx_of_total[OF i] by blast
  then have kl: "k < length (fs_tiles s)" and ki: "tile_id (fs_tiles s ! k) = i"
    using idx_of_Some by blast+
  note core = fs_inv_core[OF inv]
  note l = core_length[OF core]
  have dist: "distinct (map tile_id (fs_tiles s))" using core by (simp add: fs_core_def fs_ids_def)
  define ts where "ts = take k (fs_tiles s) @ drop (Suc k) (fs_tiles s)"
  define ds where "ds = take k (fs_data s) @ drop (Suc k) (fs_data s)"
  have ids: "map tile_id ts = remove1 i (fs_ids s)"
    using remove_ids[OF dist kl] by (simp add: ts_def ki fs_ids_def)
  define s1 where "s1 = s\<lparr>fs_tiles := ts, fs_data := ds\<rparr>"
  define s2 where "s2 = (case ts of
       [] \<Rightarrow> s1\<lparr>fs_active_window_id := None\<rparr>
     | t0 # _ \<Rightarrow> if Some i = fs_active_window_id s1 then s1\<lparr>fs_active_window_id := Some (tile_id t0)\<rparr> else s1)"
  define s' where "s' = (case fs_interactive_resize s2 of
       Some r \<Rightarrow> if i = ir_window r then s2\<lparr>fs_interactive_resize := None\<rparr> else s2 | None \<Rightarrow> s2)"
  have rms: "vec_remove k (fs_tiles s) = Some (fs_tiles s ! k, ts)" "vec_remove k (fs_data s) = Some (fs_data s ! k, ds)"
    using kl l by (simp_all add: vec_remove_def ts_def ds_def)
  have s2: "fs_tiles s2 = ts" "fs_data s2 = ds" "fs_interactive_resize s2 = fs_interactive_resize s"
    "fs_view_size s2 = fs_view_size s" "fs_scale s2 = fs_scale s" "fs_options s2 = fs_options s"
    "fs_working_area s2 = fs_working_area s"
    "fs_active_window_id s2 = (case ts of [] \<Rightarrow> None
       | t0 # _ \<Rightarrow> if fs_active_window_id s = Some i then Some (tile_id t0) else fs_active_window_id s)"
    by (auto simp: s2_def s1_def split: list.split)
  have ts': "fs_tiles s' = ts" and ds': "fs_data s' = ds"
    and act: "fs_active_window_id s' = (case ts of [] \<Rightarrow> None
       | t0 # _ \<Rightarrow> if fs_active_window_id s = Some i then Some (tile_id t0) else fs_active_window_id s)"
    and rsz: "fs_interactive_resize s' = (case fs_interactive_resize s of
       Some r \<Rightarrow> if i = ir_window r then None else Some r | None \<Rightarrow> None)"
    and conf: "fs_view_size s' = fs_view_size s" "fs_scale s' = fs_scale s" "fs_options s' = fs_options s"
      "fs_working_area s' = fs_working_area s"
    by (simp_all add: s'_def s2 split: option.split)
  obtain rt where rm: "fs_remove_tile E' i s = Some (rt, s')" and rt: "tile_id (rt_tile rt) = i"
  proof -
    let ?t = "(case win_expected_size E' (tl_window (fs_tiles s ! k)) of
        Some sz \<Rightarrow> (fs_tiles s ! k)\<lparr>tl_floating_window_size := Some sz\<rparr> | None \<Rightarrow> fs_tiles s ! k)
        \<lparr>tl_floating_pos := Some (fd_pos (fs_data s ! k))\<rparr>"
    have "fs_remove_tile E' i s = Some (\<lparr>rt_tile = ?t,
        rt_width = Fixed (sz_w (tile_expected_or_current_size E' ?t)), rt_is_full_width = False,
        rt_is_floating = True\<rparr>, s')"
      unfolding fs_remove_tile_def k fs_remove_tile_by_idx_def Let_def s'_def s2_def s1_def
      by (simp only: rms Option.bind.simps prod.case ki)
    moreover have "tile_id ?t = i" using ki by (simp split: option.split)
    ultimately show thesis using that by simp
  qed
  have ids': "fs_ids s' = remove1 i (fs_ids s)" by (simp add: fs_ids_def ts' ids[unfolded fs_ids_def])
  then have active: "fs_active_window_id s' = active_after_remove i s"
    unfolding act active_after_remove_def ids[symmetric] by (cases ts) auto
  have sub: "set (fs_ids s') = set (fs_ids s) - {i}"
    using dist ids' by (simp add: set_remove1_eq fs_ids_def)
  have "pairs_ok E s'"
    using core unfolding fs_core_def pairs_ok_def ts' ds' conf ts_def ds_def
    by (simp add: list_all2_appendI list_all2_takeI list_all2_dropI)
  moreover have "distinct (fs_ids s')" using dist ids' by (simp add: fs_ids_def)
  moreover have "active_ok s'"
  proof (cases ts)
    case (Cons t0 us)
    then have "tile_id t0 \<in> set (fs_ids s')" by (simp add: fs_ids_def ts')
    moreover have "fs_active_window_id s \<noteq> None"
      using core kl by (auto simp: fs_core_def active_ok_def split: option.splits)
    ultimately show ?thesis
      using core sub unfolding active_ok_def act Cons fs_core_def by (auto split: option.splits)
  qed (simp add: active_ok_def act ts')
  moreover have "resize_ok s'"
    using core sub unfolding resize_ok_def rsz fs_core_def by (auto split: option.splits)
  moreover have "stacked tile_child (fs_tiles s')"
    using inv by (simp add: ts' ts_def stacked_remove fs_inv_def)
  ultimately show ?thesis
    using rm rt ids' active by (auto simp: fs_inv_def fs_core_def)
qed

section \<open>Activating\<close>

lemma acyclic_reorder: "mset ts = mset us \<Longrightarrow> parents_acyclic ts = parents_acyclic us"
  by (metis links_keys mset_eq_setD parents_acyclic_def)

lemma activate_inv:
  assumes inv: "fs_inv E s" and i: "i \<in> set (fs_ids s)" and acyclic: "parents_acyclic (fs_tiles s)"
  shows "\<exists>s'. fs_activate_window i s = Some (s', True) \<and> fs_inv E s' \<and> mset (fs_tiles s') = mset (fs_tiles s) \<and>
     fs_active_window_id s' = Some i"
proof -
  obtain k where k: "fs_idx_of i s = Some k" using idx_of_total[OF i] by blast
  then have kl: "k < length (fs_tiles s)" using idx_of_Some by blast
  note core = fs_inv_core[OF inv]
  note l = core_length[OF core]
  define p where "p = [0..<0] @ k # [0..<k] @ [Suc k..<length (fs_tiles s)]"
  define s1 where "s1 = (reorder p s)\<lparr>fs_active_window_id := Some i\<rparr>"
  have mp: "mset p = mset [0..<length (fs_tiles s)]"
  proof -
    have "[0..<length (fs_tiles s)] = [0..<k] @ k # [Suc k..<length (fs_tiles s)]"
      using kl by (metis le0 le_add_diff_inverse less_imp_le_nat upt_add_eq_append upt_conv_Cons)
    then show ?thesis by (simp add: p_def)
  qed
  have raise: "fs_raise_window k 0 s = Some (reorder p s)"
    using raise_window_eq[OF kl l, of 0] raise_elem_as_map[OF kl, of 0] raise_elem_as_map[of k "fs_data s" 0] kl l
    by (simp add: reorder_def p_def)
  note r = reorder_core[OF core mp]
  have ids: "set (fs_ids (reorder p s)) = set (fs_ids s)" by (rule mset_eq_setD[OF r(2)])
  have c1: "fs_core E s1"
    using r(1) i ids by (auto simp: s1_def fs_core_def pairs_ok_def active_ok_def resize_ok_def fs_ids_def
      split: option.splits)
  have tl: "drop (Suc 0) (fs_tiles s1) = take k (fs_tiles s) @ drop (Suc k) (fs_tiles s)"
    using raise_elem_as_map[OF kl, of 0] kl by (simp add: s1_def reorder_def p_def raise_elem_def)
  have "stacked tile_child (take 0 (fs_tiles s1) @ drop (Suc 0) (fs_tiles s1))"
    using inv stacked_remove[of tile_child "fs_tiles s" k] unfolding tl by (simp add: fs_inv_def)
  moreover have "0 < length (fs_tiles s1)" by (simp add: s1_def reorder_def p_def)
  moreover have "parents_acyclic (fs_tiles s1)"
    using acyclic acyclic_reorder[OF r(3)] by (simp add: s1_def)
  ultimately obtain s' where "fs_bring_up_descendants_of 0 s1 = Some s'" "fs_inv E s'"
      "mset (fs_tiles s') = mset (fs_tiles s1)" "fs_active_window_id s' = fs_active_window_id s1"
    using bring_up_inv[OF c1, of 0] by auto
  then show ?thesis
    using r(3) by (auto simp: fs_activate_window_def k raise s1_def)
qed

lemma activate_missing: "i \<notin> set (fs_ids s) \<Longrightarrow> fs_activate_window i s = Some (s, False)"
  by (simp add: fs_activate_window_def idx_of_None[THEN iffD2])

lemma mset_tiles_ids: "mset (fs_tiles s') = mset (fs_tiles s) \<Longrightarrow> mset (fs_ids s') = mset (fs_ids s)"
  by (simp add: fs_ids_def)

text \<open>Bringing up the descendants of a window that got a new child: the other windows are stacked, and the
  window is not below its own parent.\<close>

lemma descendants_added_inv:
  assumes core: "fs_core E s" and k: "fs_idx_of i s = Some k"
    and "stacked tile_child (take k (fs_tiles s) @ drop (Suc k) (fs_tiles s))"
    and "\<forall>j<k. \<not> tile_child (fs_tiles s ! k) (fs_tiles s ! j)" and "parents_acyclic (fs_tiles s)"
  shows "\<exists>s'. fs_descendants_added i s = Some (s', True) \<and> fs_inv E s' \<and> mset (fs_tiles s') = mset (fs_tiles s)"
proof -
  have "k < length (fs_tiles s)" using idx_of_Some[OF k] by blast
  from bring_up_inv[OF core this assms(3,4,5)] show ?thesis
    by (auto simp: fs_descendants_added_def k)
qed

lemma stacked_above:
  "stacked child xs \<Longrightarrow> k < length xs \<Longrightarrow> \<forall>j<k. \<not> child (xs ! k) (xs ! j)"
  by (auto simp: stacked_def sorted_wrt_iff_nth_less)

text \<open>The focus commands activate a window of the space.\<close>

lemma found_inv:
  assumes "fs_inv E s" "parents_acyclic (fs_tiles s)" "case r of Some (t, x) \<Rightarrow> t \<in> set (fs_tiles s) | None \<Rightarrow> True"
  shows "\<exists>s'. activate_found r s = Some s' \<and> fs_inv E s' \<and> mset (fs_tiles s') = mset (fs_tiles s)"
  using assms activate_inv[OF assms(1) _ assms(2)]
  by (cases r) (force simp: activate_found_def fs_ids_def split: prod.splits)+

lemma min_by_offsets:
  "min_by f (fs_tiles_with_offsets s) = Some (t, x) \<Longrightarrow> t \<in> set (fs_tiles s)"
  "max_by f (fs_tiles_with_offsets s) = Some (t, x) \<Longrightarrow> t \<in> set (fs_tiles s)"
  by (auto simp: max_by_def fs_tiles_with_offsets_def dest!: min_by_Some dest: set_zip_leftD)

lemma focus_ends_inv:
  assumes "fs_inv E s" "parents_acyclic (fs_tiles s)"
  shows "\<exists>s'. fs_focus_leftmost s = Some s' \<and> fs_inv E s' \<and> mset (fs_tiles s') = mset (fs_tiles s)"
    "\<exists>s'. fs_focus_rightmost s = Some s' \<and> fs_inv E s' \<and> mset (fs_tiles s') = mset (fs_tiles s)"
    "\<exists>s'. fs_focus_topmost s = Some s' \<and> fs_inv E s' \<and> mset (fs_tiles s') = mset (fs_tiles s)"
    "\<exists>s'. fs_focus_bottommost s = Some s' \<and> fs_inv E s' \<and> mset (fs_tiles s') = mset (fs_tiles s)"
  unfolding fs_focus_leftmost_def fs_focus_rightmost_def fs_focus_topmost_def fs_focus_bottommost_def
  by (rule found_inv[OF assms]; auto split: option.split dest: min_by_offsets)+

lemma active_idx:
  "fs_inv E s \<Longrightarrow> fs_active_window_id s = Some i \<Longrightarrow> \<exists>k. fs_idx_of i s = Some k \<and> k < length (fs_data s)"
  using idx_of_total[of i s] idx_of_Some[of i s] core_length[of E s]
  by (auto simp: fs_inv_def fs_core_def active_ok_def)

lemma focus_directional_inv:
  assumes inv: "fs_inv E s" and acyclic: "parents_acyclic (fs_tiles s)"
  shows "\<exists>s' b. focus_directional dst s = Some (s', b) \<and> fs_inv E s' \<and> mset (fs_tiles s') = mset (fs_tiles s)"
proof (cases "fs_active_window_id s")
  case (Some i)
  then obtain k where k: "fs_idx_of i s = Some k" "k < length (fs_data s)" using active_idx[OF inv] by blast
  define ds where "ds = filter (\<lambda>(_, x). x > 0) (map (\<lambda>(t, d). (t, dst (fdata_center (fs_data s ! k)) (fdata_center d)))
     (filter (\<lambda>(t, _). tile_id t \<noteq> i) (zip (fs_tiles s) (fs_data s))))"
  have f: "focus_directional dst s = (case min_by snd ds of None \<Rightarrow> Some (s, False)
      | Some (t, _) \<Rightarrow> do { (s, _) \<leftarrow> fs_activate_window (tile_id t) s; Some (s, True) })"
    using k by (simp add: focus_directional_def Some vec_get_def ds_def Let_def)
  show ?thesis
  proof (cases "min_by snd ds")
    case None
    then show ?thesis using inv f by auto
  next
    case (Some r)
    obtain t x where r: "r = (t, x)" by (cases r)
    have "(t, x) \<in> set ds" using min_by_Some[OF Some] r by blast
    then have "t \<in> set (fs_tiles s)" by (auto simp: ds_def dest: set_zip_leftD)
    then show ?thesis
      using activate_inv[OF inv _ acyclic, of "tile_id t"] f Some r by (auto simp: fs_ids_def)
  qed
qed (use inv in \<open>auto simp: focus_directional_def\<close>)

section \<open>Changes in place\<close>

text \<open>What such an operation promises: the invariant and the same windows in the same order.\<close>

definition in_place :: "env \<Rightarrow> floating_space \<Rightarrow> floating_space \<Rightarrow> bool" where
  "in_place E s s' \<longleftrightarrow> fs_inv E s' \<and> fs_ids s' = fs_ids s \<and> fs_active_window_id s' = fs_active_window_id s"

lemma resize_end_in_place: "fs_inv E s \<Longrightarrow> in_place E s (fs_resize_end i s)"
  by (auto simp: in_place_def fs_resize_end_def fs_inv_def fs_core_def pairs_ok_def active_ok_def
      resize_ok_def fs_ids_def split: option.split)

lemma in_place_inv: "in_place E s s' \<Longrightarrow> fs_inv E s'"
  by (simp add: in_place_def)

lemma in_place_trans: "in_place E s s' \<Longrightarrow> in_place E s' s'' \<Longrightarrow> in_place E s s''"
  by (simp add: in_place_def)

lemma keeps_in_place:
  assumes "fs_inv E s" "k < length (fs_tiles s)" "keeps E (fs_tiles s ! k) t"
  shows "in_place E s (s\<lparr>fs_tiles := (fs_tiles s)[k := t]\<rparr>)"
  using inv_keeps[OF assms] by (simp add: in_place_def)

lemma pair_of_inv:
  "fs_inv E s \<Longrightarrow> k < length (fs_tiles s) \<Longrightarrow>
   pair_ok E (fs_view_size s) (fs_scale s) (fs_options s) (fs_working_area s) (fs_tiles s ! k) (fs_data s ! k)"
  by (auto simp: fs_inv_def fs_core_def pairs_ok_def dest: list_all2_nthD)

lemma or_active_Some:
  "fs_inv E s \<Longrightarrow> or_active i s = Some j \<Longrightarrow> (case i of Some i \<Rightarrow> i \<in> set (fs_ids s) | None \<Rightarrow> True) \<Longrightarrow>
   \<exists>k. fs_idx_of j s = Some k \<and> k < length (fs_tiles s) \<and> k < length (fs_data s)"
  using idx_of_total[of j s] idx_of_Some[of j s] core_length[of E s]
  by (auto simp: or_active_def fs_inv_def fs_core_def active_ok_def split: option.splits)

abbreviation known :: "nat option \<Rightarrow> floating_space \<Rightarrow> bool" where
  "known i s \<equiv> (case i of Some i \<Rightarrow> i \<in> set (fs_ids s) | None \<Rightarrow> True)"

lemma set_size_in_place:
  assumes inv: "fs_inv E s" and i: "known i s"
  shows "\<exists>s'. fs_set_window_width E' i ch an s = Some s' \<and> in_place E s s'"
    "\<exists>s'. fs_set_window_height E' i ch an s = Some s' \<and> in_place E s s'"
proof -
  have self: "in_place E s s" using inv by (simp add: in_place_def)
  show "\<exists>s'. fs_set_window_width E' i ch an s = Some s' \<and> in_place E s s'"
    "\<exists>s'. fs_set_window_height E' i ch an s = Some s' \<and> in_place E s s'"
    using or_active_Some[OF inv _ i] self keeps_in_place[OF inv _ keeps_resized(1)]
      keeps_in_place[OF inv _ keeps_resized(2)]
    by (cases "or_active i s"; fastforce simp: fs_set_window_width_def fs_set_window_height_def)+
qed

lemma set_size_keeps_options:
  "fs_set_window_width E' i ch an s = Some s' \<Longrightarrow> fs_options s' = fs_options s"
  "fs_set_window_height E' i ch an s = Some s' \<Longrightarrow> fs_options s' = fs_options s"
  by (auto simp: fs_set_window_width_def fs_set_window_height_def bind_eq_Some_conv split: option.splits)

lemma position_bound: "position P xs = Some i \<Longrightarrow> i < length xs"
  by (simp add: position_Some)

lemma rposition_bound: "rposition P xs = Some i \<Longrightarrow> i < length xs"
  by (auto simp: rposition_def dest!: position_bound)

lemma next_preset_bound:
  assumes "presets \<noteq> []"
  shows "\<exists>k. next_preset presets av cur cw ct fw = Some k \<and> k < length presets"
proof (cases cur)
  case (Some i)
  then show ?thesis using assms by (simp add: next_preset_def Let_def)
next
  case None
  then show ?thesis
    using assms by (auto simp: next_preset_def Let_def dest: position_bound rposition_bound split: option.split)
qed

lemma toggle_in_place:
  assumes inv: "fs_inv E s" and i: "known i s"
  shows "lo_preset_column_widths (op_layout (fs_options s)) \<noteq> [] \<Longrightarrow>
      \<exists>s'. fs_toggle_window_width E' i fw s = Some s' \<and> in_place E s s'"
    and "lo_preset_window_heights (op_layout (fs_options s)) \<noteq> [] \<Longrightarrow>
      \<exists>s'. fs_toggle_window_height E' i fw s = Some s' \<and> in_place E s s'"
proof -
  have self: "in_place E s s" using inv by (simp add: in_place_def)
  have fin: "in_place E s (fs_resize_end x (u\<lparr>fs_tiles := (fs_tiles u)[k := f (fs_tiles u ! k)]\<rparr>))"
    if "in_place E s u" "k < length (fs_tiles u)" "\<And>t. keeps E t (f t)" for u k f x
  proof -
    have "fs_inv E u" using that(1) by (simp add: in_place_def)
    from keeps_in_place[OF this that(2) that(3)] in_place_trans[OF that(1)]
    have c: "in_place E s (u\<lparr>fs_tiles := (fs_tiles u)[k := f (fs_tiles u ! k)]\<rparr>)" by blast
    show ?thesis by (rule in_place_trans[OF c resize_end_in_place[OF in_place_inv[OF c]]])
  qed
  have len: "length (fs_tiles u) = length (fs_tiles s)" if "in_place E s u" for u
    using that by (metis fs_ids_def in_place_def length_map)
  show "\<exists>s'. fs_toggle_window_width E' i fw s = Some s' \<and> in_place E s s'"
    if p: "lo_preset_column_widths (op_layout (fs_options s)) \<noteq> []"
  proof (cases "or_active i s")
    case (Some j)
    obtain k where k: "fs_idx_of j s = Some k" "k < length (fs_tiles s)" using or_active_Some[OF inv Some i] by blast
    have "j \<in> set (fs_ids s)" using idx_of_Some[OF k(1)] by (auto simp: fs_ids_def)
    then have kn: "known (Some j) s" by simp
    obtain q where q: "next_preset (lo_preset_column_widths (op_layout (fs_options s)))
        (sz_w (rsize (fs_working_area s))) (tl_floating_preset_width_idx (fs_tiles s ! k))
        (sz_w (window_expected_or_current_size E' (fs_tiles s ! k)))
        (sz_w (tile_expected_or_current_size E' (fs_tiles s ! k))) fw = Some q"
      "q < length (lo_preset_column_widths (op_layout (fs_options s)))"
      using next_preset_bound[OF p] by blast
    obtain u where u: "fs_set_window_width E' (Some j)
        (size_change_from (lo_preset_column_widths (op_layout (fs_options s)) ! q)) True s = Some u" "in_place E s u"
      using set_size_in_place(1)[OF inv kn] by blast
    show ?thesis
      using fin[OF u(2), of k "\<lambda>t. t\<lparr>tl_floating_preset_width_idx := Some q\<rparr>" "Some j"] len[OF u(2)] k q u
      by (simp add: fs_toggle_window_width_def Some vec_get_def Let_def keeps_fields)
  qed (use self in \<open>simp add: fs_toggle_window_width_def\<close>)
  show "\<exists>s'. fs_toggle_window_height E' i fw s = Some s' \<and> in_place E s s'"
    if p: "lo_preset_window_heights (op_layout (fs_options s)) \<noteq> []"
  proof (cases "or_active i s")
    case (Some j)
    obtain k where k: "fs_idx_of j s = Some k" "k < length (fs_tiles s)" using or_active_Some[OF inv Some i] by blast
    have "j \<in> set (fs_ids s)" using idx_of_Some[OF k(1)] by (auto simp: fs_ids_def)
    then have kn: "known (Some j) s" by simp
    obtain q where q: "next_preset (lo_preset_window_heights (op_layout (fs_options s)))
        (sz_h (rsize (fs_working_area s))) (tl_floating_preset_height_idx (fs_tiles s ! k))
        (sz_h (window_expected_or_current_size E' (fs_tiles s ! k)))
        (sz_h (tile_expected_or_current_size E' (fs_tiles s ! k))) fw = Some q"
      "q < length (lo_preset_window_heights (op_layout (fs_options s)))"
      using next_preset_bound[OF p] by blast
    obtain u where u: "fs_set_window_height E' (Some j)
        (size_change_from (lo_preset_window_heights (op_layout (fs_options s)) ! q)) True s = Some u" "in_place E s u"
      using set_size_in_place(2)[OF inv kn] by blast
    show ?thesis
      using fin[OF u(2), of k "\<lambda>t. t\<lparr>tl_floating_preset_height_idx := Some q\<rparr>" "Some j"] len[OF u(2)] k q u
      by (simp add: fs_toggle_window_height_def Some vec_get_def Let_def keeps_fields)
  qed (use self in \<open>simp add: fs_toggle_window_height_def\<close>)
qed

lemma resize_begin_in_place:
  assumes inv: "fs_inv E s" and i: "i \<in> set (fs_ids s)"
  shows "\<exists>s' b. fs_resize_begin E' i e s = Some (s', b) \<and> in_place E s s'"
proof (cases "fs_interactive_resize s")
  case None
  obtain t where t: "find (\<lambda>t. tile_id t = i) (fs_tiles s) = Some t"
    using i by (cases "find (\<lambda>t. tile_id t = i) (fs_tiles s)") (auto simp: fs_ids_def find_None_iff)
  have "in_place E s (s\<lparr>fs_interactive_resize := Some r\<rparr>)" if "ir_window r = i" for r
    using inv i that by (auto simp: in_place_def fs_inv_def fs_core_def pairs_ok_def active_ok_def resize_ok_def
        fs_ids_def split: option.splits)
  then show ?thesis using None t by (auto simp: fs_resize_begin_def)
qed (use inv in \<open>auto simp: fs_resize_begin_def in_place_def\<close>)

lemma resize_update_in_place:
  assumes inv: "fs_inv E s"
  shows "\<exists>s' b. fs_resize_update E' i delta s = Some (s', b) \<and> in_place E s s'"
proof (cases "fs_interactive_resize s")
  case (Some r)
  have self: "in_place E s s" using inv by (simp add: in_place_def)
  show ?thesis
  proof (cases "i = ir_window r")
    case True
    then have i: "i \<in> set (fs_ids s)" using inv Some by (simp add: fs_inv_def fs_core_def resize_ok_def)
    define e where "e = ir_edges r"
    define u where "u = (if re_left e \<or> re_right e
        then let dx = (if re_left e then - pt_x delta else pt_x delta)
             in fs_set_window_width E' (Some i)
                  (SetFixed (f_as_i32 (f_round (sz_w (ir_original_window_size r) + dx)))) False s
        else Some s)"
    obtain s1 where s1: "u = Some s1" "in_place E s s1"
      using self set_size_in_place(1)[OF inv, of "Some i"] i unfolding u_def Let_def
      by (metis option.case(2))
    have i1: "known (Some i) s1" using i s1(2) by (simp add: in_place_def)
    define v where "v = (if re_top e \<or> re_bottom e
        then let dy = (if re_top e then - pt_y delta else pt_y delta)
             in fs_set_window_height E' (Some i)
                  (SetFixed (f_as_i32 (f_round (sz_h (ir_original_window_size r) + dy)))) False s1
        else Some s1)"
    have self1: "in_place E s1 s1" using s1(2) by (simp add: in_place_def)
    obtain s2 where s2: "v = Some s2" "in_place E s1 s2"
      using self1 set_size_in_place(2)[OF in_place_inv[OF s1(2)] i1] unfolding v_def Let_def by metis
    have "fs_resize_update E' i delta s = Some (s2, True)"
      using True s1(1) s2(1) unfolding fs_resize_update_def Some u_def v_def e_def Let_def by simp
    then show ?thesis using in_place_trans[OF s1(2) s2(2)] by blast
  qed (use Some self in \<open>auto simp: fs_resize_update_def\<close>)
qed (use inv in \<open>auto simp: fs_resize_update_def in_place_def\<close>)

lemma keeps_map_in_place:
  assumes "fs_inv E s" "\<And>t. t \<in> set (fs_tiles s) \<Longrightarrow> keeps E t (f t)"
  shows "in_place E s (s\<lparr>fs_tiles := map f (fs_tiles s)\<rparr>)"
proof -
  have "list_all2 (keeps E) (fs_tiles s) (map f (fs_tiles s))"
    using assms(2) by (simp add: list_all2_map2 list_all2_same)
  from inv_keeps_all[OF assms(1) this] show ?thesis by (simp add: in_place_def)
qed

lemma advance_in_place: "fs_inv E s \<Longrightarrow> in_place E s (fs_advance_animations E' s)"
  unfolding fs_advance_animations_def by (rule keeps_map_in_place) (simp_all add: keeps_fields)

lemma refresh_wkey: "configure_keeps E' \<Longrightarrow> wkey (fs_refresh_window E' a f s w) = wkey w"
  by (simp add: fs_refresh_window_def Let_def wkeys send_wkey)

lemma refresh_in_place:
  "fs_inv E s \<Longrightarrow> configure_keeps E' \<Longrightarrow> in_place E s (fs_refresh E' a f s)"
  unfolding fs_refresh_def by (rule keeps_map_in_place) (simp_all add: keeps_window refresh_wkey)

lemma start_open_in_place:
  assumes "fs_inv E s" "fs_start_open_animation E' i s = Some (s', b)"
  shows "in_place E s s'"
  using assms keeps_in_place[OF assms(1) _ keeps_open]
  by (auto simp: fs_start_open_animation_def in_place_def bind_eq_Some_conv split: option.splits dest!: idx_of_Some)

lemma replace_in_place:
  assumes "fs_inv E s" "k < length (fs_tiles s)" "tkey t = tkey (fs_tiles s ! k)"
    and "pair_ok E (fs_view_size s) (fs_scale s) (fs_options s) (fs_working_area s) t d"
  shows "in_place E s (s\<lparr>fs_tiles := (fs_tiles s)[k := t], fs_data := (fs_data s)[k := d]\<rparr>)"
  using inv_replace[OF assms] by (simp add: in_place_def)

lemma move_and_animate_in_place:
  assumes inv: "fs_inv E s" and mv: "fs_move_and_animate E' k p s = Some s'"
  shows "in_place E s s'"
proof -
  have kl: "k < length (fs_tiles s)" "k < length (fs_data s)"
    using mv by (auto simp: fs_move_and_animate_def bind_eq_Some_conv vec_simps)
  let ?d = "fdata_set_logical_pos p (fs_data s ! k)"
  let ?diff = "pt_sub (fd_logical_pos (fs_data s ! k)) (fd_logical_pos ?d)"
  obtain t where ex: "(if pt_x ?diff * pt_x ?diff + pt_y ?diff * pt_y ?diff > 10 * 10
        then animate_move_from E' ?diff (fs_tiles s ! k) else Some (fs_tiles s ! k)) = Some t"
      "s' = s\<lparr>fs_tiles := (fs_tiles s)[k := t], fs_data := (fs_data s)[k := ?d]\<rparr>"
    using mv kl unfolding fs_move_and_animate_def Let_def vec_get_def
    by (simp only: if_True Option.bind.simps bind_eq_Some_conv option.inject) blast
  have t: "keeps E (fs_tiles s ! k) t"
    using ex(1) by (auto split: if_splits intro: keeps_moves)
  have "pair_ok E (fs_view_size s) (fs_scale s) (fs_options s) (fs_working_area s) t ?d"
    using pair_of_inv[OF inv kl(1)] t by (simp add: pair_ok_def keeps_def)
  then show ?thesis
    unfolding ex(2) using t by (intro replace_in_place[OF inv kl(1)]) (simp_all add: keeps_def)
qed

lemma move_to_in_place:
  assumes inv: "fs_inv E s" and kl: "k < length (fs_tiles s)" and mv: "fs_move_to E' k p an s = Some s'"
  shows "in_place E s s'"
proof -
  have "pair_ok E (fs_view_size s) (fs_scale s) (fs_options s) (fs_working_area s) (fs_tiles s ! k)
      (fdata_set_logical_pos p (fs_data s ! k))"
    using pair_of_inv[OF inv kl] by (simp add: pair_ok_def)
  from replace_in_place[OF inv kl refl this]
  have "in_place E s (s\<lparr>fs_data := (fs_data s)[k := fdata_set_logical_pos p (fs_data s ! k)]\<rparr>)" by simp
  moreover have "\<exists>u. s' = fs_resize_end None u \<and> (if an then fs_move_and_animate E' k p s = Some u
      else u = s\<lparr>fs_data := (fs_data s)[k := fdata_set_logical_pos p (fs_data s ! k)]\<rparr>)"
    using mv by (cases an) (auto simp: fs_move_to_def bind_eq_Some_conv vec_simps)
  ultimately obtain u where "in_place E s u" "s' = fs_resize_end None u"
    using move_and_animate_in_place[OF inv] by (metis (full_types))
  then show ?thesis by (metis in_place_inv in_place_trans resize_end_in_place)
qed

lemma moves_in_place:
  assumes inv: "fs_inv E s"
  shows "fs_move_by E' p s = Some s' \<Longrightarrow> in_place E s s'"
    and "fs_move_window E' i x y an s = Some s' \<Longrightarrow> in_place E s s'"
    and "fs_center_window E' i s = Some s' \<Longrightarrow> in_place E s s'"
  using inv move_to_in_place[OF inv]
  by (auto simp: fs_move_by_def fs_move_window_def fs_center_window_def in_place_def Let_def
      bind_eq_Some_conv split: option.splits dest!: idx_of_Some)

lemma update_window_keeps:
  assumes "tile_update_window E' t = Some t'"
  shows "tl_window t' = (tl_window t)\<lparr>mw_animation_snapshot := None\<rparr> \<or> tl_window t' = tl_window t"
    and "tl_view_size t' = tl_view_size t" "tl_scale t' = tl_scale t" "tl_options t' = tl_options t"
  using assms
  by (auto simp: tile_update_window_def bind_eq_Some_conv Let_def split: option.splits prod.splits if_splits)

lemma update_window_tkey:
  assumes "tile_update_window E' t = Some t'"
  shows "tkey t' = tkey t"
  using update_window_keeps(1)[OF assms] by (auto simp: tkey_def)

lemma update_window_in_place:
  assumes inv: "fs_inv E s" and up: "fs_update_window E i c s = Some (s', b)"
  shows "in_place E s s'"
proof (cases "fs_idx_of i s")
  case (Some k)
  then have kl: "k < length (fs_tiles s)" by (simp add: idx_of_Some)
  define t0 where "t0 = (case c of Some c \<Rightarrow> (fs_tiles s ! k)\<lparr>tl_window := win_on_commit E c (tl_window (fs_tiles s ! k))\<rparr>
      | None \<Rightarrow> fs_tiles s ! k)"
  define r where "r = win_interactive_resize_data (tl_window (fs_tiles s ! k))"
  obtain t where t: "tile_update_window E t0 = Some t"
    and s': "s' = s\<lparr>fs_tiles := (fs_tiles s)[k := t], fs_data := (fs_data s)[k :=
       (let d = fdata_update E t (fs_data s ! k)
        in case r of None \<Rightarrow> d
          | Some e \<Rightarrow> fdata_set_logical_pos (pt_add (fd_logical_pos d)
             (mk_point (if re_left e then sz_w (fd_size (fs_data s ! k)) - sz_w (fd_size d) else 0)
                       (if re_top e then sz_h (fd_size (fs_data s ! k)) - sz_h (fd_size d) else 0))) d)]\<rparr>"
    using up core_length[OF fs_inv_core[OF inv]] kl
    by (auto simp: fs_update_window_def Some vec_get_def Let_def bind_eq_Some_conv t0_def[symmetric] r_def[symmetric])
  have t0: "tkey t0 = tkey (fs_tiles s ! k)" "tl_view_size t0 = tl_view_size (fs_tiles s ! k)"
    "tl_scale t0 = tl_scale (fs_tiles s ! k)" "tl_options t0 = tl_options (fs_tiles s ! k)"
    by (auto simp: t0_def tkey_def win_simps on_commit_toplevel split: option.split)
  note p = pair_of_inv[OF inv kl]
  have "fdata_recompute_logical_pos (fs_data s ! k) = fs_data s ! k" using p by (simp add: pair_ok_def)
  then show ?thesis
    unfolding s'
    using p t0 update_window_keeps(2-4)[OF t] update_window_tkey[OF t]
    by (intro replace_in_place[OF inv kl]) (auto simp: pair_ok_def Let_def split: option.split)
qed (use assms in \<open>auto simp: fs_update_window_def in_place_def\<close>)

lemma update_config_inv:
  assumes inv: "fs_inv E s"
  shows "fs_inv E (fs_update_config E vs wa sc opts s)" "fs_ids (fs_update_config E vs wa sc opts s) = fs_ids s"
    "fs_active_window_id (fs_update_config E vs wa sc opts s) = fs_active_window_id s"
proof -
  note l = core_length[OF fs_inv_core[OF inv]]
  let ?s = "fs_update_config E vs wa sc opts s"
  define ts where "ts = map (tile_update_config vs sc opts) (fs_tiles s)"
  have s: "?s = s\<lparr>fs_tiles := ts,
      fs_data := map (\<lambda>(t, d). fdata_update_config wa (fdata_update E t d)) (zip ts (fs_data s)),
      fs_view_size := vs, fs_working_area := wa, fs_scale := sc, fs_options := opts\<rparr>"
    by (simp add: fs_update_config_def l ts_def Let_def)
  have k: "map tkey ts = map tkey (fs_tiles s)"
    by (simp add: ts_def tkey_def tile_update_config_def Let_def)
  have ids: "fs_ids ?s = fs_ids s" using keys_ids[OF k] by (simp add: fs_ids_def s)
  then show "fs_ids ?s = fs_ids s" .
  show act: "fs_active_window_id ?s = fs_active_window_id s" by (simp add: s)
  have "pairs_ok E ?s"
    using inv by (auto simp: fs_inv_def fs_core_def pairs_ok_def s ts_def list_all2_conv_all_nth pair_ok_def
        tile_update_config_def Let_def)
  moreover have "fs_tiles ?s = [] \<longleftrightarrow> fs_tiles s = []" by (simp add: s ts_def)
  moreover have "fs_interactive_resize ?s = fs_interactive_resize s" by (simp add: s)
  moreover have "stacked tile_child (fs_tiles ?s)"
    using inv stacked_keys[OF k] by (simp add: fs_inv_def s)
  ultimately show "fs_inv E ?s"
    using inv ids act by (simp add: fs_inv_def fs_core_def active_ok_def resize_ok_def cong: option.case_cong)
qed

section \<open>A new parent\<close>

lemma set_parent_core:
  assumes "fs_core E s"
  shows "fs_core E (fs_set_parent i p s)" "fs_ids (fs_set_parent i p s) = fs_ids s"
proof -
  have t: "tile_id (tile_set_parent p t) = tile_id t" "tile_size E (tile_set_parent p t) = tile_size E t"
    "tl_view_size (tile_set_parent p t) = tl_view_size t" "tl_scale (tile_set_parent p t) = tl_scale t"
    "tl_options (tile_set_parent p t) = tl_options t" for t
    by (simp_all add: tile_set_parent_def tile_size_defs win_size_def)
  show ids: "fs_ids (fs_set_parent i p s) = fs_ids s" by (simp add: fs_set_parent_def fs_ids_def t)
  have "fs_tiles (fs_set_parent i p s) = [] \<longleftrightarrow> fs_tiles s = []" "pairs_ok E (fs_set_parent i p s)"
    "fs_active_window_id (fs_set_parent i p s) = fs_active_window_id s"
    "fs_interactive_resize (fs_set_parent i p s) = fs_interactive_resize s"
    using assms by (auto simp: fs_set_parent_def fs_core_def pairs_ok_def list_all2_conv_all_nth pair_ok_def t)
  then show "fs_core E (fs_set_parent i p s)"
    using assms ids by (simp add: fs_core_def active_ok_def resize_ok_def cong: option.case_cong)
qed

lemma child_after_set_parent:
  assumes "tile_child (if tile_id t = i then tile_set_parent p t else t) (if tile_id u = i then tile_set_parent p u else u)"
  shows "tile_child t u \<or> tile_id t = i \<and> p = Some (tile_surface u)"
  using assms by (auto simp: tile_child_def win_is_child_of_def tile_set_parent_def tile_surface_def split: if_splits)

lemma reparent_inv:
  assumes inv: "fs_inv E s" and acyclic: "parents_acyclic (fs_tiles (fs_set_parent i p s))"
    and surfaces: "distinct (map tile_surface (fs_tiles s))"
  shows "\<exists>s'. fs_parent_changed p (fs_set_parent i p s) = Some s' \<and> fs_inv E s' \<and>
     mset (fs_ids s') = mset (fs_ids s)"
proof -
  define f where "f t = (if tile_id t = i then tile_set_parent p t else t)" for t
  define s1 where "s1 = fs_set_parent i p s"
  have ts: "fs_tiles s1 = map f (fs_tiles s)" by (simp add: s1_def fs_set_parent_def f_def)
  note core = set_parent_core[OF fs_inv_core[OF inv], of i p, folded s1_def]
  have n: "n < length (fs_tiles s1) \<longleftrightarrow> n < length (fs_tiles s)" for n by (simp add: ts)
  have surf: "tile_surface (f t) = tile_surface t" for t by (simp add: f_def tile_surface_def tile_set_parent_def)
  have old: "\<not> tile_child (fs_tiles s ! b) (fs_tiles s ! a)" if "a < b" "b < length (fs_tiles s)" for a b
    using inv that by (simp add: fs_inv_def stacked_def sorted_wrt_iff_nth_less)
  have new: "p = Some (tile_surface (fs_tiles s ! a))"
    if "tile_child (fs_tiles s1 ! b) (fs_tiles s1 ! a)" "a < b" "b < length (fs_tiles s)" for a b
    using that(1) child_after_set_parent[of "fs_tiles s ! b" i p "fs_tiles s ! a"] old[OF that(2,3)] that(2,3)
    by (simp add: ts f_def)
  show ?thesis
  proof (cases "\<exists>a<length (fs_tiles s). p = Some (tile_surface (fs_tiles s ! a))")
    case False
    then have "stacked tile_child (fs_tiles s1)"
      using new unfolding stacked_def sorted_wrt_iff_nth_less by (metis n order_less_trans)
    moreover have "fs_parent_changed p s1 = Some s1"
    proof (cases p)
      case (Some g)
      have "find (\<lambda>t. tile_surface t = g) (fs_tiles s1) = None"
        using False Some by (auto simp: find_None_iff ts surf in_set_conv_nth)
      then show ?thesis by (simp add: fs_parent_changed_def Some)
    qed (simp add: fs_parent_changed_def)
    ultimately show ?thesis using core by (auto simp: fs_inv_def s1_def[symmetric])
  next
    case True
    then obtain q where q: "q < length (fs_tiles s)" "p = Some (tile_surface (fs_tiles s ! q))" by blast
    have only_q: "a = q" if "p = Some (tile_surface (fs_tiles s ! a))" "a < length (fs_tiles s)" for a
      using that q nth_eq_iff_index_eq[OF surfaces, of a q] by simp
    have dist: "distinct (map tile_id (fs_tiles s1))" using core(1) by (simp add: fs_core_def fs_ids_def)
    define t where "t = fs_tiles s1 ! q"
    have find: "find (\<lambda>t. tile_surface t = tile_surface (fs_tiles s ! q)) (fs_tiles s1) = Some t"
    proof -
      obtain u where u: "find (\<lambda>t. tile_surface t = tile_surface (fs_tiles s ! q)) (fs_tiles s1) = Some u"
        using q(1) by (cases "find (\<lambda>t. tile_surface t = tile_surface (fs_tiles s ! q)) (fs_tiles s1)")
          (auto simp: find_None_iff ts surf)
      obtain a where a: "a < length (fs_tiles s1)" "tile_surface (fs_tiles s1 ! a) = tile_surface (fs_tiles s ! q)"
          "u = fs_tiles s1 ! a"
        using u unfolding find_Some_iff by blast
      then have "p = Some (tile_surface (fs_tiles s ! a))" "a < length (fs_tiles s)"
        using q(2) by (simp_all add: ts surf)
      from only_q[OF this] show ?thesis using u a(3) by (simp only: t_def)
    qed
    have idx: "fs_idx_of (tile_id t) s1 = Some q"
      using position_nth_distinct[OF dist, of q] q(1) by (simp add: fs_idx_of_def t_def ts)
    have "stacked tile_child (take q (fs_tiles s1) @ drop (Suc q) (fs_tiles s1))"
      unfolding stacked_def sorted_wrt_iff_nth_less
    proof (intro allI impI)
      fix a b assume ab: "a < b" "b < length (take q (fs_tiles s1) @ drop (Suc q) (fs_tiles s1))"
      let ?g = "\<lambda>a. if a < q then a else Suc a"
      have "(take q (fs_tiles s1) @ drop (Suc q) (fs_tiles s1)) ! c = fs_tiles s1 ! ?g c"
        if "c \<le> b" for c
        using that ab q(1) by (auto simp: nth_append ts)
      moreover have "?g a < ?g b" "?g b < length (fs_tiles s)" "?g a \<noteq> q" using ab q(1) by (auto simp: ts)
      ultimately show "\<not> tile_child ((take q (fs_tiles s1) @ drop (Suc q) (fs_tiles s1)) ! b)
          ((take q (fs_tiles s1) @ drop (Suc q) (fs_tiles s1)) ! a)"
        using new[of "?g b" "?g a"] only_q[of "?g a"] ab(1) by (metis less_imp_le order_less_trans order_refl)
    qed
    moreover have "\<forall>j<q. \<not> tile_child (fs_tiles s1 ! q) (fs_tiles s1 ! j)"
      using new[of q] only_q q(1) by (metis order_less_irrefl order_less_trans)
    ultimately obtain s' where "fs_descendants_added (tile_id t) s1 = Some (s', True)" "fs_inv E s'"
        "mset (fs_tiles s') = mset (fs_tiles s1)"
      using descendants_added_inv[OF core(1) idx] acyclic by (auto simp: s1_def[symmetric])
    then have "fs_parent_changed p s1 = Some s'" using q(2) find by (simp add: fs_parent_changed_def)
    moreover have "mset (fs_ids s') = mset (fs_ids s)"
      using mset_tiles_ids[OF \<open>mset (fs_tiles s') = mset (fs_tiles s1)\<close>] core(2) by simp
    ultimately show ?thesis using \<open>fs_inv E s'\<close> by (auto simp: s1_def[symmetric])
  qed
qed

end
