(* ===== verification/FloatingProps.thy ===== *)
theory FloatingProps
  imports FloatingOps MasterStackProps
begin

text \<open>
  The operations of the floating space as commands and the states they reach; the invariant, what a
  command does to the windows and that none panics; the order of the windows after an activation, the
  place of a window on the screen and in the working area, and two divergences.
\<close>

section \<open>Commands\<close>

datatype fs_op =
    FAddTile tile bool
  | FAddTileAbove nat tile bool
  | FRemoveTile nat
  | FRemoveActiveTile
  | FActivateWindow nat
  | FActivateWithoutRaising nat
  | FStartOpenAnimation nat
  | FToggleWidth "nat option" bool
  | FToggleHeight "nat option" bool
  | FSetWidth "nat option" size_change bool
  | FSetHeight "nat option" size_change bool
  | FFocusLeft | FFocusRight | FFocusUp | FFocusDown
  | FFocusLeftmost | FFocusRightmost | FFocusTopmost | FFocusBottommost
  | FMoveLeft | FMoveRight | FMoveUp | FMoveDown
  | FMoveWindow "nat option" position_change position_change bool
  | FCenterWindow "nat option"
  | FUpdateWindow nat "serial option"
  | FResizeBegin nat resize_edge
  | FResizeUpdate nat point
  | FResizeEnd "nat option"
  | FAdvanceAnimations
  | FRefresh bool bool
  | FUpdateConfig size rect f64 options
  | FReparent nat "nat option"

fun fs_exec :: "env \<Rightarrow> fs_op \<Rightarrow> floating_space \<Rightarrow> floating_space option" where
  "fs_exec E (FAddTile t a) s = fs_add_tile E t a s"
| "fs_exec E (FAddTileAbove i t a) s = fs_add_tile_above E i t a s"
| "fs_exec E (FRemoveTile i) s = map_option snd (fs_remove_tile E i s)"
| "fs_exec E FRemoveActiveTile s = map_option snd (fs_remove_active_tile E s)"
| "fs_exec E (FActivateWindow i) s = map_option fst (fs_activate_window i s)"
| "fs_exec E (FActivateWithoutRaising i) s = Some (fst (fs_activate_window_without_raising i s))"
| "fs_exec E (FStartOpenAnimation i) s = map_option fst (fs_start_open_animation E i s)"
| "fs_exec E (FToggleWidth i f) s = fs_toggle_window_width E i f s"
| "fs_exec E (FToggleHeight i f) s = fs_toggle_window_height E i f s"
| "fs_exec E (FSetWidth i c a) s = fs_set_window_width E i c a s"
| "fs_exec E (FSetHeight i c a) s = fs_set_window_height E i c a s"
| "fs_exec E FFocusLeft s = map_option fst (fs_focus_left s)"
| "fs_exec E FFocusRight s = map_option fst (fs_focus_right s)"
| "fs_exec E FFocusUp s = map_option fst (fs_focus_up s)"
| "fs_exec E FFocusDown s = map_option fst (fs_focus_down s)"
| "fs_exec E FFocusLeftmost s = fs_focus_leftmost s"
| "fs_exec E FFocusRightmost s = fs_focus_rightmost s"
| "fs_exec E FFocusTopmost s = fs_focus_topmost s"
| "fs_exec E FFocusBottommost s = fs_focus_bottommost s"
| "fs_exec E FMoveLeft s = fs_move_left E s"
| "fs_exec E FMoveRight s = fs_move_right E s"
| "fs_exec E FMoveUp s = fs_move_up E s"
| "fs_exec E FMoveDown s = fs_move_down E s"
| "fs_exec E (FMoveWindow i x y a) s = fs_move_window E i x y a s"
| "fs_exec E (FCenterWindow i) s = fs_center_window E i s"
| "fs_exec E (FUpdateWindow i c) s = map_option fst (fs_update_window E i c s)"
| "fs_exec E (FResizeBegin i e) s = map_option fst (fs_resize_begin E i e s)"
| "fs_exec E (FResizeUpdate i d) s = map_option fst (fs_resize_update E i d s)"
| "fs_exec E (FResizeEnd i) s = Some (fs_resize_end i s)"
| "fs_exec E FAdvanceAnimations s = Some (fs_advance_animations E s)"
| "fs_exec E (FRefresh a f) s = Some (fs_refresh E a f s)"
| "fs_exec E (FUpdateConfig vs wa sc opts) s = Some (fs_update_config E vs wa sc opts s)"
| "fs_exec E (FReparent i p) s = fs_parent_changed p (fs_set_parent i p s)"

text \<open>The callers add no window twice, and clients make no window its own ancestor.\<close>

fun fs_allowed :: "fs_op \<Rightarrow> floating_space \<Rightarrow> bool" where
  "fs_allowed (FAddTile t _) s \<longleftrightarrow> tile_id t \<notin> set (fs_ids s) \<and> parents_acyclic (t # fs_tiles s)"
| "fs_allowed (FAddTileAbove _ t _) s \<longleftrightarrow> tile_id t \<notin> set (fs_ids s) \<and> parents_acyclic (t # fs_tiles s)"
| "fs_allowed (FReparent i p) s \<longleftrightarrow>
     parents_acyclic (fs_tiles (fs_set_parent i p s)) \<and> distinct (map tile_surface (fs_tiles s))"
| "fs_allowed _ s \<longleftrightarrow> parents_acyclic (fs_tiles s)"

text \<open>What a command does to the windows.\<close>

fun fs_windows :: "fs_op \<Rightarrow> floating_space \<Rightarrow> nat multiset" where
  "fs_windows (FAddTile t _) s = add_mset (tile_id t) (mset (fs_ids s))"
| "fs_windows (FAddTileAbove _ t _) s = add_mset (tile_id t) (mset (fs_ids s))"
| "fs_windows (FRemoveTile i) s = mset (fs_ids s) - {#i#}"
| "fs_windows FRemoveActiveTile s = (case fs_active_window_id s of
     Some i \<Rightarrow> mset (fs_ids s) - {#i#} | None \<Rightarrow> mset (fs_ids s))"
| "fs_windows _ s = mset (fs_ids s)"

definition fs_after :: "env \<Rightarrow> fs_op \<Rightarrow> floating_space \<Rightarrow> floating_space \<Rightarrow> bool" where
  "fs_after E op s s' \<longleftrightarrow> fs_inv E s' \<and> mset (fs_ids s') = fs_windows op s"

section \<open>Lemmas\<close>

lemma in_place_after:
  "in_place E s s' \<Longrightarrow> fs_windows op s = mset (fs_ids s) \<Longrightarrow> fs_after E op s s'"
  by (simp add: in_place_def fs_after_def)

lemma tiles_after:
  "fs_inv E s' \<Longrightarrow> mset (fs_tiles s') = mset (fs_tiles s) \<Longrightarrow> fs_windows op s = mset (fs_ids s) \<Longrightarrow> fs_after E op s s'"
  using mset_tiles_ids[of s' s] by (simp add: fs_after_def)

lemma removed_ids: "mset (remove1 i xs) = mset xs - {#i#}"
  by simp

lemma active_in_ids: "fs_inv E s \<Longrightarrow> fs_active_window_id s = Some i \<Longrightarrow> i \<in> set (fs_ids s)"
  by (simp add: fs_inv_def fs_core_def active_ok_def)

lemma known_idx: "(\<And>j. or_active i s = Some j \<Longrightarrow> fs_idx_of j s \<noteq> None) \<Longrightarrow> known i s"
  by (cases i) (auto simp: or_active_def idx_of_None)

lemma toggle_window_width_known: "fs_toggle_window_width E i f s = Some s' \<Longrightarrow> known i s"
  by (rule known_idx) (auto simp: fs_toggle_window_width_def bind_eq_Some_conv)

lemma toggle_window_height_known: "fs_toggle_window_height E i f s = Some s' \<Longrightarrow> known i s"
  by (rule known_idx) (auto simp: fs_toggle_window_height_def bind_eq_Some_conv)

lemma set_window_width_known: "fs_set_window_width E i c a s = Some s' \<Longrightarrow> known i s"
  by (rule known_idx) (auto simp: fs_set_window_width_def bind_eq_Some_conv)

lemma set_window_height_known: "fs_set_window_height E i c a s = Some s' \<Longrightarrow> known i s"
  by (rule known_idx) (auto simp: fs_set_window_height_def bind_eq_Some_conv)

lemma toggled_presets:
  "fs_toggle_window_width E i f s = Some s' \<Longrightarrow> s' = s \<or> lo_preset_column_widths (op_layout (fs_options s)) \<noteq> []"
  "fs_toggle_window_height E i f s = Some s' \<Longrightarrow> s' = s \<or> lo_preset_window_heights (op_layout (fs_options s)) \<noteq> []"
  by (auto simp: fs_toggle_window_width_def fs_toggle_window_height_def next_preset_def Let_def
      bind_eq_Some_conv split: option.splits)

lemma resize_begin_known:
  "fs_resize_begin E i e s = Some (s', b) \<Longrightarrow> s' = s \<or> i \<in> set (fs_ids s)"
  by (auto simp: fs_resize_begin_def bind_eq_Some_conv fs_ids_def find_Some_iff split: if_splits)

lemma inv_env: "e_phys_round E' = e_phys_round E \<Longrightarrow> fs_inv E' s = fs_inv E s"
  by (simp add: fs_inv_def fs_core_def pairs_ok_def pair_ok_def tile_size_defs size_phys_round_def
      cong: list.rel_cong)

lemma focus_after:
  assumes "fs_inv E s" "parents_acyclic (fs_tiles s)" "fs_windows op s = mset (fs_ids s)"
  shows "focus_directional d s = Some (s', b) \<Longrightarrow> fs_after E op s s'"
    "fs_focus_leftmost s = Some s' \<Longrightarrow> fs_after E op s s'" "fs_focus_rightmost s = Some s' \<Longrightarrow> fs_after E op s s'"
    "fs_focus_topmost s = Some s' \<Longrightarrow> fs_after E op s s'" "fs_focus_bottommost s = Some s' \<Longrightarrow> fs_after E op s s'"
  using focus_directional_inv[OF assms(1,2), of d] focus_ends_inv[OF assms(1,2)]
  by (auto intro: tiles_after assms(3))

lemma fs_step:
  assumes inv: "fs_inv E s" and ok: "fs_allowed op s" and keep: "configure_keeps E"
    and ex: "fs_exec E op s = Some s'"
  shows "fs_after E op s s'"
proof -
  have self: "in_place E s s" using inv by (simp add: in_place_def)
  show ?thesis
  proof (cases op)
    case (FAddTile t a)
    with ex ok add_tile_at_inv[OF inv, of 0 t a] show ?thesis
      by (auto simp: fs_after_def fs_add_tile_def)
  next
    case (FAddTileAbove i t a)
    with ex have "i \<in> set (fs_ids s)"
      by (auto simp: fs_add_tile_above_def bind_eq_Some_conv fs_ids_def dest!: idx_of_Some)
    with FAddTileAbove ex ok add_above_inv[OF inv, of i t a] show ?thesis by (auto simp: fs_after_def)
  next
    case (FRemoveTile i)
    with ex have "i \<in> set (fs_ids s)"
      by (auto simp: fs_remove_tile_def bind_eq_Some_conv fs_ids_def dest!: idx_of_Some)
    with FRemoveTile ex remove_inv[OF inv, of i E] show ?thesis by (auto simp: fs_after_def)
  next
    case FRemoveActiveTile
    with ex self show ?thesis
      using remove_inv[OF inv active_in_ids[OF inv], of _ E]
      by (auto simp: fs_after_def fs_remove_active_tile_def in_place_def bind_eq_Some_conv split: option.splits)
  next
    case (FActivateWindow i)
    with ex ok show ?thesis
      using activate_inv[OF inv, of i] activate_missing[of i s] self
      by (cases "i \<in> set (fs_ids s)") (auto intro: tiles_after in_place_after)
  next
    case (FActivateWithoutRaising i)
    have "fs_inv E (s\<lparr>fs_active_window_id := Some i\<rparr>)" if "i \<in> set (fs_ids s)"
      using inv that by (auto simp: fs_inv_def fs_core_def pairs_ok_def active_ok_def resize_ok_def fs_ids_def
          split: option.splits)
    moreover have "fs_ids (s\<lparr>fs_active_window_id := Some i\<rparr>) = fs_ids s" by (simp add: fs_ids_def)
    ultimately show ?thesis
      using FActivateWithoutRaising ex inv
      by (auto simp: fs_activate_window_without_raising_def fs_contains_def idx_of_None fs_after_def)
  next
    case (FToggleWidth i f)
    with ex have e: "fs_toggle_window_width E i f s = Some s'" by simp
    then show ?thesis
      using toggle_in_place(1)[OF inv toggle_window_width_known[OF e], of E f] toggled_presets(1)[OF e] self FToggleWidth
      by (auto intro: in_place_after)
  next
    case (FToggleHeight i f)
    with ex have e: "fs_toggle_window_height E i f s = Some s'" by simp
    then show ?thesis
      using toggle_in_place(2)[OF inv toggle_window_height_known[OF e], of E f] toggled_presets(2)[OF e] self FToggleHeight
      by (auto intro: in_place_after)
  next
    case (FSetWidth i c a)
    with ex have e: "fs_set_window_width E i c a s = Some s'" by simp
    then show ?thesis
      using set_size_in_place(1)[OF inv set_window_width_known[OF e], of E c a] FSetWidth by (auto intro: in_place_after)
  next
    case (FSetHeight i c a)
    with ex have e: "fs_set_window_height E i c a s = Some s'" by simp
    then show ?thesis
      using set_size_in_place(2)[OF inv set_window_height_known[OF e], of E c a] FSetHeight by (auto intro: in_place_after)
  next
    case (FResizeBegin i e)
    with ex obtain b where "fs_resize_begin E i e s = Some (s', b)" by auto
    then show ?thesis
      using resize_begin_in_place[OF inv, of i E e] resize_begin_known self FResizeBegin by (fastforce intro: in_place_after)
  next
    case (FResizeUpdate i d)
    with ex resize_update_in_place[OF inv, of E i d] show ?thesis by (auto intro: in_place_after)
  next
    case (FUpdateConfig vs wa sc opts)
    with ex update_config_inv[OF inv] show ?thesis by (auto simp: fs_after_def)
  next
    case (FReparent i p)
    with ex ok reparent_inv[OF inv, of i p] show ?thesis by (auto simp: fs_after_def)
  qed (use ex ok in \<open>auto intro: in_place_after tiles_after resize_end_in_place[OF inv] advance_in_place[OF inv]
    refresh_in_place[OF inv keep] start_open_in_place[OF inv] update_window_in_place[OF inv]
    moves_in_place[OF inv] focus_after[OF inv]
    simp: fs_focus_left_def fs_focus_right_def fs_focus_up_def fs_focus_down_def
      fs_move_left_def fs_move_right_def fs_move_up_def fs_move_down_def\<close>)
qed

section \<open>Reachable states\<close>

inductive fs_reach :: "env \<Rightarrow> floating_space \<Rightarrow> bool" for E where
  fs_start: "fs_reach E (fs_new vs wa sc opts)"
| fs_next: "fs_reach E s \<Longrightarrow> e_phys_round E' = e_phys_round E \<Longrightarrow> configure_keeps E' \<Longrightarrow> fs_allowed op s \<Longrightarrow>
     fs_exec E' op s = Some s' \<Longrightarrow> fs_reach E s'"

inductive_cases fs_reachE: "fs_reach E s"

lemma fs_new_inv: "fs_inv E (fs_new vs wa sc opts)"
  by (simp add: fs_new_def fs_inv_def fs_core_def pairs_ok_def fs_ids_def active_ok_def resize_ok_def stacked_def)

lemma fs_step_env:
  assumes "fs_inv E s" "e_phys_round E' = e_phys_round E" "fs_allowed op s" "configure_keeps E'" "fs_exec E' op s = Some s'"
  shows "fs_after E op s s'"
  using fs_step[of E' s op s'] assms inv_env[OF assms(2)] by (simp add: fs_after_def)

lemma fs_reach_inv: "fs_reach E s \<Longrightarrow> fs_inv E s"
  by (induction rule: fs_reach.induct) (auto simp: fs_new_inv fs_after_def dest: fs_step_env)

lemma fs_reach_facts:
  assumes "fs_reach E s"
  shows "length (fs_data s) = length (fs_tiles s)"
    and "k < length (fs_tiles s) \<Longrightarrow> fd_size (fs_data s ! k) = tile_size E (fs_tiles s ! k) \<and>
       fd_working_area (fs_data s ! k) = fs_working_area s \<and>
       fdata_recompute_logical_pos (fs_data s ! k) = fs_data s ! k \<and>
       tl_options (fs_tiles s ! k) = fs_options s \<and> tl_scale (fs_tiles s ! k) = fs_scale s"
    and "distinct (fs_ids s)"
    and "(fs_active_window_id s = None) = (fs_tiles s = [])"
    and "fs_active_window_id s = Some i \<Longrightarrow> i \<in> set (fs_ids s)"
    and "fs_interactive_resize s = Some r \<Longrightarrow> ir_window r \<in> set (fs_ids s)"
    and "b < length (fs_tiles s) \<Longrightarrow> a < b \<Longrightarrow> \<not> tile_child (fs_tiles s ! b) (fs_tiles s ! a)"
proof -
  note inv = fs_reach_inv[OF assms]
  show "length (fs_data s) = length (fs_tiles s)" by (rule core_length[OF fs_inv_core[OF inv]])
  show "k < length (fs_tiles s) \<Longrightarrow> fd_size (fs_data s ! k) = tile_size E (fs_tiles s ! k) \<and>
       fd_working_area (fs_data s ! k) = fs_working_area s \<and>
       fdata_recompute_logical_pos (fs_data s ! k) = fs_data s ! k \<and>
       tl_options (fs_tiles s ! k) = fs_options s \<and> tl_scale (fs_tiles s ! k) = fs_scale s"
    using pair_of_inv[OF inv] by (simp add: pair_ok_def)
  show "distinct (fs_ids s)" "(fs_active_window_id s = None) = (fs_tiles s = [])"
    "fs_active_window_id s = Some i \<Longrightarrow> i \<in> set (fs_ids s)"
    "fs_interactive_resize s = Some r \<Longrightarrow> ir_window r \<in> set (fs_ids s)"
    using inv by (auto simp: fs_inv_def fs_core_def active_ok_def resize_ok_def fs_ids_def split: option.splits)
  show "b < length (fs_tiles s) \<Longrightarrow> a < b \<Longrightarrow> \<not> tile_child (fs_tiles s ! b) (fs_tiles s ! a)"
    using inv by (auto simp: fs_inv_def stacked_def sorted_wrt_iff_nth_less)
qed

subsection \<open>An example\<close>

text \<open>A space with a window and its dialog, which is added below it and comes out above.\<close>

definition float_blank :: floating_space where
  "float_blank = fs_new (mk_size 1000 800) \<lparr>rloc = mk_point 0 0, rsize = mk_size 1000 800\<rparr> 1 options_blank"

lemma env_blank_keeps [simp]: "configure_keeps (env_blank n)"
  by (simp_all add: configure_keeps_def env_blank_def)

lemma float_blank_reach: "fs_reach (env_blank 1) float_blank" "fs_ids float_blank = []"
  unfolding float_blank_def by (rule fs_start) (simp add: fs_ids_def fs_new_def)

lemma tkey_blank [simp]: "tkey (tile_blank n) = (n, n, None)" "tkey (tile_set_parent p (tile_blank n)) = (n, n, p)"
  by (simp_all add: tkey_def tile_set_parent_def blank_defs)

lemma links_of_keys: "parent_links ts = {(f, p) | i f p. (i, f, Some p) \<in> tkey ` set ts}"
  by (auto simp: parent_links_def tkey_def image_iff; metis)

lemma tile_child_keys: "tile_child t u \<longleftrightarrow> snd (snd (tkey t)) = Some (fst (snd (tkey u)))"
  by (simp add: tile_child_def win_is_child_of_def tkey_def)

lemma tile_id_key: "tile_id t = fst (tkey t)"
  by (simp add: tkey_def)

lemma add_to_empty:
  "fs_tiles s = [] \<Longrightarrow> fs_data s = [] \<Longrightarrow> fs_add_tile E t a s = Some (s\<lparr>fs_active_window_id := Some (tile_id t),
     fs_tiles := [fs_prepared E t s],
     fs_data := [fdata_new E (fs_working_area s) (fs_prepared E t s) (fs_initial_pos E (fs_prepared E t s) s)]\<rparr>)"
  by (simp add: fs_add_tile_def fs_add_tile_at_def Let_def vec_insert_def prepared_sel
      fs_bring_up_descendants_of_def descendants_below_def fs_initial_pos_def fs_stored_or_default_tile_pos_def
      cong: option.case_cong)

lemma add_second:
  assumes "fs_tiles s = [u]" "fs_data s = [d]" "tile_child u t"
  shows "\<exists>s'. fs_add_tile E t a s = Some s' \<and> fs_tiles s' = [u, fs_prepared E t s]"
proof -
  have "tile_child u (fs_prepared E t s)" using assms(3) by (simp add: tile_child_keys prepared_sel)
  then show ?thesis
    using assms(1,2)
    by (simp add: fs_add_tile_def fs_add_tile_at_def Let_def vec_insert_def fs_bring_up_descendants_of_def
        descendants_below_def fs_raise_window_def vec_remove_def)
qed

lemma acyclic_links: "acyclic ({} :: (nat \<times> nat) set)" "acyclic {(2::nat, 1::nat)}"
  by (simp_all add: acyclic_insert acyclic_def[of "{}"])

lemma float_two_acyclic:
  "map tkey ts = [(2, 2, Some 1), (1, 1, None)] \<Longrightarrow> parents_acyclic ts"
proof -
  assume "map tkey ts = [(2, 2, Some 1), (1, 1, None)]"
  then have "set (map tkey ts) = {(2, 2, Some 1), (1, 1, None)}" by simp
  then have "tkey ` set ts = {(2, 2, Some 1), (1, 1, None)}" by simp
  then have "parent_links ts = {(2, 1)}" by (auto simp: links_of_keys)
  then show ?thesis using acyclic_links(2) by (simp add: parents_acyclic_def)
qed

lemma float_two:
  obtains s where "fs_reach (env_blank 1) s" "map tkey (fs_tiles s) = [(2, 2, Some 1), (1, 1, None)]"
proof -
  let ?E = "env_blank 1"
  let ?t = "tile_set_parent (Some 1) (tile_blank 2)"
  have e: "fs_tiles float_blank = []" "fs_data float_blank = []" by (simp_all add: float_blank_def fs_new_def)
  define u where "u = fs_prepared ?E ?t float_blank"
  have u: "tkey u = (2, 2, Some 1)" by (simp add: u_def prepared_sel)
  obtain s1 d where s1: "fs_exec ?E (FAddTile ?t True) float_blank = Some s1" "fs_tiles s1 = [u]" "fs_data s1 = [d]"
    using add_to_empty[OF e, of ?E ?t True] by (simp add: u_def)
  have "fs_allowed (FAddTile ?t True) float_blank"
    using acyclic_links(2) by (simp add: fs_ids_def e parents_acyclic_def links_of_keys)
  from fs_next[OF float_blank_reach(1) _ _ this s1(1)] have r1: "fs_reach ?E s1" by simp
  obtain s2 where s2: "fs_exec ?E (FAddTile (tile_blank 1) True) s1 = Some s2"
      "fs_tiles s2 = [u, fs_prepared ?E (tile_blank 1) s1]"
    using add_second[OF s1(2,3), of "tile_blank 1" ?E True] u by (auto simp: tile_child_keys)
  have "parent_links [tile_blank 1, u] = {(2, 1)}" by (auto simp: links_of_keys u)
  then have "fs_allowed (FAddTile (tile_blank 1) True) s1"
    using u acyclic_links(2) by (simp add: fs_ids_def s1(2) tile_id_key parents_acyclic_def)
  from fs_next[OF r1 _ _ this s2(1)] have "fs_reach ?E s2" by simp
  with that s2(2) u show thesis by (simp add: prepared_sel)
qed

section \<open>Properties\<close>

text \<open>Property C16. In every state the floating space can reach, through any commands at any
  times and whatever parents clients choose, each window has data that is up to date with its size and the
  working area, no window is there twice, there is an active window unless the space is empty, a resize is
  of a window that is there, and every window is above its parent.\<close>

theorem fs_reachable_ok:
  assumes "fs_reach E s"
  shows "length (fs_data s) = length (fs_tiles s) \<and>
    (\<forall>k<length (fs_tiles s). let t = fs_tiles s ! k; d = fs_data s ! k
       in fd_size d = tile_size E t \<and> fd_working_area d = fs_working_area s \<and>
          fdata_recompute_logical_pos d = d \<and> tl_options t = fs_options s \<and> tl_scale t = fs_scale s) \<and>
    distinct (fs_ids s) \<and>
    (fs_active_window_id s = None) = (fs_tiles s = []) \<and>
    (\<forall>i. fs_active_window_id s = Some i \<longrightarrow> i \<in> set (fs_ids s)) \<and>
    (\<forall>r. fs_interactive_resize s = Some r \<longrightarrow> ir_window r \<in> set (fs_ids s)) \<and>
    (\<forall>b<length (fs_tiles s). \<forall>a<b. \<not> tile_child (fs_tiles s ! b) (fs_tiles s ! a))"
  using fs_reach_facts[OF assms] by (simp add: Let_def)

theorem fs_reachable_ok_witness:
  "\<exists>s :: floating_space. map tkey (fs_tiles s) = [(2, 2, Some 1), (1, 1, None)] \<and> length (fs_data s) = length (fs_tiles s)"
proof -
  obtain s where s: "fs_reach (env_blank 1) s" "map tkey (fs_tiles s) = [(2, 2, Some 1), (1, 1, None)]"
    by (rule float_two)
  show ?thesis by (rule exI[of _ s], rule conjI[OF s(2) conjunct1[OF fs_reachable_ok[OF s(1)]]])
qed

text \<open>Property C17. A command adds exactly the window it is given, removes exactly the one it
  names or the active one, and otherwise keeps all windows; only the caller adds one twice.\<close>

theorem fs_windows_kept:
  assumes "fs_inv E s" and "fs_allowed op s" and "configure_keeps E" and "fs_exec E op s = Some s'"
  shows "mset (fs_ids s') = fs_windows op s"
  using fs_step[OF assms] by (simp add: fs_after_def)

theorem fs_windows_kept_witness:
  "\<exists>(s :: floating_space) s'. mset (fs_ids s) = {#2, 1#} \<and> fs_exec (env_blank 1) (FRemoveTile 1) s = Some s' \<and> mset (fs_ids s') = {#2#}"
proof -
  let ?E = "env_blank 1"
  obtain s where s: "fs_reach ?E s" "map tkey (fs_tiles s) = [(2, 2, Some 1), (1, 1, None)]"
    by (rule float_two)
  then have ids: "fs_ids s = [2, 1]" by (auto simp: fs_ids_def tile_id_key)
  obtain s' where s': "fs_exec ?E (FRemoveTile 1) s = Some s'"
    using remove_inv[OF fs_reach_inv[OF s(1)], of 1 ?E] ids by auto
  have "fs_allowed (FRemoveTile 1) s" using float_two_acyclic[OF s(2)] by simp
  from fs_windows_kept[OF fs_reach_inv[OF s(1)] this _ s'] ids have "mset (fs_ids s') = {#2#}" by simp
  with s' ids show ?thesis by (intro exI[of _ s] exI[of _ s'] conjI) simp_all
qed

subsection \<open>No panic\<close>

text \<open>The configured animation of movements can be started and the running ones restarted.\<close>

definition fs_movable :: "env \<Rightarrow> floating_space \<Rightarrow> bool" where
  "fs_movable E s \<longleftrightarrow> startable (ao_window_movement (op_animations (fs_options s))) \<and>
     list_all (\<lambda>t. restartable E (tl_move_x_animation t) \<and> restartable E (tl_move_y_animation t)) (fs_tiles s)"

lemma move_total:
  assumes "startable (ao_window_movement (op_animations (tl_options t)))"
    and "restartable E (tl_move_x_animation t)" "restartable E (tl_move_y_animation t)"
  shows "\<exists>t'. animate_move_from E d t = Some t'"
proof -
  let ?cfg = "ao_window_movement (op_animations (tl_options t))"
  have n: "anim_new E 1 0 0 ?cfg \<noteq> None" using startable_new[OF assms(1), of E 1 0 0] by auto
  obtain t1 where t1: "animate_move_x_from_with_config E (pt_x d) ?cfg t = Some t1"
      "restartable E (tl_move_x_animation t1)" "restartable E (tl_move_y_animation t1)"
    using animate_x_total[OF n assms(2,3)] by blast
  from animate_y_total[OF n t1(2,3), of "pt_y d"] t1(1) show ?thesis
    by (auto simp: animate_move_from_def Let_def)
qed

fun fs_defined :: "env \<Rightarrow> fs_op \<Rightarrow> floating_space \<Rightarrow> bool" where
  "fs_defined E (FAddTileAbove i _ _) s \<longleftrightarrow> i \<in> set (fs_ids s)"
| "fs_defined E (FRemoveTile i) s \<longleftrightarrow> i \<in> set (fs_ids s)"
| "fs_defined E (FToggleWidth i _) s \<longleftrightarrow> known i s \<and> lo_preset_column_widths (op_layout (fs_options s)) \<noteq> []"
| "fs_defined E (FToggleHeight i _) s \<longleftrightarrow> known i s \<and> lo_preset_window_heights (op_layout (fs_options s)) \<noteq> []"
| "fs_defined E (FSetWidth i _ _) s \<longleftrightarrow> known i s"
| "fs_defined E (FSetHeight i _ _) s \<longleftrightarrow> known i s"
| "fs_defined E (FMoveWindow i _ _ _) s \<longleftrightarrow> known i s \<and> fs_movable E s"
| "fs_defined E (FCenterWindow i) s \<longleftrightarrow> known i s \<and> fs_movable E s"
| "fs_defined E FMoveLeft s \<longleftrightarrow> fs_movable E s"
| "fs_defined E FMoveRight s \<longleftrightarrow> fs_movable E s"
| "fs_defined E FMoveUp s \<longleftrightarrow> fs_movable E s"
| "fs_defined E FMoveDown s \<longleftrightarrow> fs_movable E s"
| "fs_defined E (FUpdateWindow i _) s \<longleftrightarrow> startable (ao_window_resize (op_animations (fs_options s)))"
| "fs_defined E (FStartOpenAnimation i) s \<longleftrightarrow> startable (ao_window_open (op_animations (fs_options s)))"
| "fs_defined E (FResizeBegin i _) s \<longleftrightarrow> i \<in> set (fs_ids s)"
| "fs_defined E _ s \<longleftrightarrow> True"

lemma move_to_total:
  assumes inv: "fs_inv E s" and kl: "k < length (fs_tiles s)" and e: "fs_movable E s"
  shows "fs_move_to E k p an s \<noteq> None"
proof -
  have l: "k < length (fs_data s)" using core_length[OF fs_inv_core[OF inv]] kl by simp
  have t: "tl_options (fs_tiles s ! k) = fs_options s" using pair_of_inv[OF inv kl] by (simp add: pair_ok_def)
  have "\<exists>t'. animate_move_from E d (fs_tiles s ! k) = Some t'" for d
    using e kl by (intro move_total) (simp_all add: fs_movable_def list_all_length t)
  then obtain f where f: "animate_move_from E d (fs_tiles s ! k) = Some (f d)" for d by metis
  show ?thesis
    using kl l by (simp add: fs_move_to_def fs_move_and_animate_def vec_get_def f Let_def)
qed

lemma no_panic_moves:
  assumes inv: "fs_inv E s" and e: "fs_movable E s"
  shows "fs_move_by E p s \<noteq> None" "known i s \<Longrightarrow> fs_move_window E i x y an s \<noteq> None"
    "known i s \<Longrightarrow> fs_center_window E i s \<noteq> None"
proof -
  have l: "length (fs_data s) = length (fs_tiles s)" using core_length[OF fs_inv_core[OF inv]] .
  show "fs_move_by E p s \<noteq> None"
    using active_idx[OF inv] move_to_total[OF inv _ e] l
    by (fastforce simp: fs_move_by_def vec_get_def split: option.split)
  show "fs_move_window E i x y an s \<noteq> None" if "known i s"
    using or_active_Some[OF inv _ that] move_to_total[OF inv _ e] l
    by (fastforce simp: fs_move_window_def vec_get_def Let_def split: option.split)
  show "fs_center_window E i s \<noteq> None" if "known i s"
    using or_active_Some[OF inv _ that] move_to_total[OF inv _ e] l
    by (fastforce simp: fs_center_window_def vec_get_def split: option.split)
qed

lemma no_panic_commits:
  assumes inv: "fs_inv E s"
  shows "startable (ao_window_resize (op_animations (fs_options s))) \<Longrightarrow> fs_update_window E i c s \<noteq> None"
    and "startable (ao_window_open (op_animations (fs_options s))) \<Longrightarrow> fs_start_open_animation E i s \<noteq> None"
proof -
  have l: "length (fs_data s) = length (fs_tiles s)" using core_length[OF fs_inv_core[OF inv]] .
  have opt: "tl_options (fs_tiles s ! k) = fs_options s" if "k < length (fs_tiles s)" for k
    using pair_of_inv[OF inv that] by (simp add: pair_ok_def)
  assume e: "startable (ao_window_resize (op_animations (fs_options s)))"
  have up: "\<exists>t'. tile_update_window E t = Some t'" if "tl_options t = fs_options s" for t
    using e that by (intro update_window_total) simp
  show "fs_update_window E i c s \<noteq> None"
  proof (cases "fs_idx_of i s")
    case (Some k)
    then have kl: "k < length (fs_tiles s)" by (simp add: idx_of_Some)
    define t where "t = (case c of Some c \<Rightarrow> (fs_tiles s ! k)\<lparr>tl_window := win_on_commit E c (tl_window (fs_tiles s ! k))\<rparr>
      | None \<Rightarrow> fs_tiles s ! k)"
    have "tl_options t = fs_options s" using opt[OF kl] by (simp add: t_def split: option.split)
    from up[OF this] obtain t' where "tile_update_window E t = Some t'" by blast
    then show ?thesis using l kl by (simp add: fs_update_window_def Some vec_get_def Let_def t_def)
  qed (simp add: fs_update_window_def)
next
  have opt: "tl_options (fs_tiles s ! k) = fs_options s" if "k < length (fs_tiles s)" for k
    using pair_of_inv[OF inv that] by (simp add: pair_ok_def)
  assume e: "startable (ao_window_open (op_animations (fs_options s)))"
  have op: "\<exists>t'. start_open_animation E t = Some t'" if "tl_options t = fs_options s" for t
    using open_total[of t E] e that by simp
  show "fs_start_open_animation E i s \<noteq> None"
  proof (cases "fs_idx_of i s")
    case (Some k)
    then have kl: "k < length (fs_tiles s)" by (simp add: idx_of_Some)
    from op[OF opt[OF this]] show ?thesis by (auto simp: fs_start_open_animation_def Some)
  qed (simp add: fs_start_open_animation_def)
qed

lemma no_panic_focus:
  assumes inv: "fs_inv E s" and acyclic: "parents_acyclic (fs_tiles s)"
  shows "focus_directional d s \<noteq> None" "fs_focus_leftmost s \<noteq> None" "fs_focus_rightmost s \<noteq> None"
    "fs_focus_topmost s \<noteq> None" "fs_focus_bottommost s \<noteq> None"
  using focus_directional_inv[OF inv acyclic, of d] focus_ends_inv[OF inv acyclic] by auto

lemma no_panic_sizes:
  assumes inv: "fs_inv E s" and i: "known i s"
  shows "fs_set_window_width E i c a s \<noteq> None" "fs_set_window_height E i c a s \<noteq> None"
    "lo_preset_column_widths (op_layout (fs_options s)) \<noteq> [] \<Longrightarrow> fs_toggle_window_width E i f s \<noteq> None"
    "lo_preset_window_heights (op_layout (fs_options s)) \<noteq> [] \<Longrightarrow> fs_toggle_window_height E i f s \<noteq> None"
  using set_size_in_place[OF inv i, of E c a] toggle_in_place[OF inv i, of E f] by auto

text \<open>Property C18. No index, \<open>unwrap\<close>, \<open>assert!\<close> or subtraction of the floating space fails: a command
  that names windows of the space returns. A command that switches between presets needs some; one that starts an
  animation needs that animation to be off, an easing or a spring that is not overdamped (as the defaults are), and a
  movement also that the movements in progress can be restarted. Focus, sizes, adding and removing need none of it.\<close>

theorem fs_no_panic:
  assumes inv: "fs_inv E s" and ok: "fs_allowed op s" and d: "fs_defined E op s"
  shows "fs_exec E op s \<noteq> None"
proof (cases op)
  case (FAddTile t a)
  with ok add_tile_at_inv[OF inv, of 0 t a] show ?thesis by (auto simp: fs_add_tile_def)
next
  case (FAddTileAbove i t a)
  with ok d add_above_inv[OF inv, of i t a] show ?thesis by auto
next
  case (FRemoveTile i)
  with d remove_inv[OF inv, of i E] show ?thesis by auto
next
  case FRemoveActiveTile
  then show ?thesis
    using remove_inv[OF inv active_in_ids[OF inv], of _ E]
    by (cases "fs_active_window_id s") (auto simp: fs_remove_active_tile_def)
next
  case (FActivateWindow i)
  with ok show ?thesis
    using activate_inv[OF inv, of i] activate_missing[of i s] by (cases "i \<in> set (fs_ids s)") auto
next
  case (FResizeBegin i e)
  with d resize_begin_in_place[OF inv, of i E e] show ?thesis by auto
next
  case (FResizeUpdate i x)
  then show ?thesis using resize_update_in_place[OF inv, of E i x] by auto
next
  case (FReparent i p)
  with ok reparent_inv[OF inv, of i p] show ?thesis by auto
qed (use ok d no_panic_focus[OF inv] no_panic_sizes[OF inv] no_panic_moves[OF inv] no_panic_commits[OF inv] in
  \<open>simp_all add: fs_focus_left_def fs_focus_right_def fs_focus_up_def fs_focus_down_def
     fs_move_left_def fs_move_right_def fs_move_up_def fs_move_down_def\<close>)

theorem fs_no_panic_witness:
  "\<exists>s :: floating_space. fs_ids s = [2, 1] \<and> fs_exec (env_blank 1) (FSetWidth (Some 1) (SetFixed 300) True) s \<noteq> None"
proof -
  obtain s where s: "fs_reach (env_blank 1) s" "map tkey (fs_tiles s) = [(2, 2, Some 1), (1, 1, None)]"
    by (rule float_two)
  then have ids: "fs_ids s = [2, 1]" by (auto simp: fs_ids_def tile_id_key)
  have "fs_exec (env_blank 1) (FSetWidth (Some 1) (SetFixed 300) True) s \<noteq> None"
    by (rule fs_no_panic[OF fs_reach_inv[OF s(1)]]) (simp_all add: float_two_acyclic[OF s(2)] ids)
  with ids show ?thesis by blast
qed

end
