(* ===== verification/FloatingGeometry.thy ===== *)
theory FloatingGeometry
  imports FloatingProps
begin

text \<open>
  The order an activation leaves the floating windows in, and their positions: how much of a window
  always stays on the screen, how a position survives a removal and a change of the working area, that a
  move is drawn without a jump, and two places where the code does not do what it says.
\<close>

section \<open>The order after an activation\<close>

lemma descendants_complete:
  assumes idx: "idx < length xs" and dist: "distinct xs"
    and st: "\<And>a b. a < b \<Longrightarrow> b < length xs \<Longrightarrow> a \<noteq> idx \<Longrightarrow> b \<noteq> idx \<Longrightarrow> \<not> child (xs ! b) (xs ! a)"
    and below: "idx = 0"
    and acyclic: "\<And>a. \<not> (\<lambda>a b. a \<in> set xs \<and> b \<in> set xs \<and> child a b)\<^sup>+\<^sup>+ a a"
    and d: "d < length xs" "(\<lambda>a b. a \<in> set xs \<and> b \<in> set xs \<and> child a b)\<^sup>+\<^sup>+ (xs ! d) (xs ! idx)"
  shows "d \<in> set (descendants_below child xs idx)"
proof -
  let ?R = "\<lambda>a b. a \<in> set xs \<and> b \<in> set xs \<and> child a b"
  note mem = descendants_below(3)[OF idx, of _ child]
  have "\<forall>d<length xs. xs ! d = u \<longrightarrow> d \<in> set (descendants_below child xs idx)"
    if "?R\<^sup>+\<^sup>+ u (xs ! idx)" for u
    using that
  proof (induction rule: converse_tranclp_induct)
    case (base u)
    show ?case
    proof (intro allI impI)
      fix d assume d: "d < length xs" "xs ! d = u"
      have "d \<noteq> idx" using acyclic[of u] base d(2) by (metis (no_types, lifting) tranclp.r_into_trancl)
      then show "d \<in> set (descendants_below child xs idx)" using mem[of d] d base below by auto
    qed
  next
    case (step u v)
    show ?case
    proof (intro allI impI)
      fix d assume d: "d < length xs" "xs ! d = u"
      have "v \<in> set xs" "child u v" using step.hyps(1) by auto
      then obtain e where e: "e < length xs" "xs ! e = v" by (auto simp: in_set_conv_nth)
      then have ed: "e \<in> set (descendants_below child xs idx)" using step.IH by blast
      then have "idx < e" using descendants_below(1)[OF idx, of child] by auto
      have "?R\<^sup>+\<^sup>+ u (xs ! idx)" using step.hyps by (rule tranclp_into_tranclp2)
      then have "d \<noteq> idx" using acyclic[of u] d(2) by auto
      have "d \<noteq> e" using acyclic[of u] step.hyps(1) d(2) e(2) by (metis (no_types, lifting) tranclp.r_into_trancl)
      have "\<not> e < d" using st[of e d] \<open>child u v\<close> d e \<open>idx < e\<close> \<open>d \<noteq> idx\<close> by auto
      then have "d < e" using \<open>d \<noteq> e\<close> by simp
      then show "d \<in> set (descendants_below child xs idx)"
        using mem[of d] ed \<open>child u v\<close> d e below \<open>d \<noteq> idx\<close> by auto
    qed
  qed
  with d show ?thesis by blast
qed

text \<open>\<open>t\<close> descends from \<open>u\<close> through windows of the space.\<close>

definition descends :: "tile list \<Rightarrow> tile \<Rightarrow> tile \<Rightarrow> bool" where
  "descends ts = (\<lambda>a b. a \<in> set ts \<and> b \<in> set ts \<and> tile_child a b)\<^sup>+\<^sup>+"

lemma descends_set: "set ts = set us \<Longrightarrow> descends ts = descends us"
  by (simp add: descends_def)

lemma bring_up_front:
  assumes ne: "xs \<noteq> []" and dist: "distinct xs" and st: "stacked tile_child (tl xs)" and acyclic: "parents_acyclic xs"
  shows "map ((!) xs) (bring_up_order tile_child xs 0) =
    filter (\<lambda>t. descends xs t (hd xs)) (tl xs) @ hd xs # filter (\<lambda>t. \<not> descends xs t (hd xs)) (tl xs)"
proof -
  let ?n = "length xs" and ?ds = "descendants_below tile_child xs 0"
  have idx: "0 < ?n" using ne by simp
  have hd: "hd xs = xs ! 0" using ne by (simp add: hd_conv_nth)
  have tl: "tl xs = map ((!) xs) [1..<?n]"
    by (rule nth_equalityI) (auto simp: nth_tl)
  have st': "\<not> tile_child (xs ! b) (xs ! a)" if ab: "a < b" "b < ?n" "a \<noteq> 0" for a b
  proof -
    obtain a' b' where ab': "a = Suc a'" "b = Suc b'" using ab by (cases a; cases b) auto
    then have "\<not> tile_child (tl xs ! b') (tl xs ! a')"
      using st ab unfolding stacked_def sorted_wrt_iff_nth_less by simp
    then show ?thesis using ab ab' by (simp add: nth_tl)
  qed
  have mem: "d \<in> set ?ds \<longleftrightarrow> descends xs (xs ! d) (xs ! 0)" if "1 \<le> d" "d < ?n" for d
  proof
    assume "d \<in> set ?ds"
    from descendant_tranclp[OF idx this] show "descends xs (xs ! d) (xs ! 0)" by (simp add: descends_def)
  next
    assume "descends xs (xs ! d) (xs ! 0)"
    then show "d \<in> set ?ds"
      unfolding descends_def
      by (intro descendants_complete[OF idx dist]) (use st' parents_acyclic_child[OF acyclic] that in auto)
  qed
  have sorted: "sorted_wrt (<) (rev ?ds)" "set ?ds \<subseteq> {0<..<?n}"
    using descendants_below(1,2)[OF idx, of tile_child] by auto
  have ds: "rev ?ds = filter (\<lambda>j. j \<in> set ?ds) [1..<?n]"
  proof (rule sorted_distinct_set_unique)
    show "sorted (rev ?ds)" "distinct (rev ?ds)" using sorted(1) by (simp_all add: strict_sorted_iff)
    show "sorted (filter (\<lambda>j. j \<in> set ?ds) [1..<?n])" by (rule sorted_wrt_filter[OF sorted_upt])
  qed (use sorted(2) in auto)
  have "bring_up_order tile_child xs 0 =
      filter (\<lambda>j. j \<in> set ?ds) [1..<?n] @ 0 # filter (\<lambda>j. j \<notin> set ?ds) [1..<?n]"
    using sorted(2) idx unfolding bring_up_order_def raised_order_def
    by (auto simp: upt_conv_Cons ds[unfolded One_nat_def, symmetric])
  moreover have "filter (\<lambda>j. j \<in> set ?ds) [1..<?n] = filter (\<lambda>j. descends xs (xs ! j) (xs ! 0)) [1..<?n]"
    "filter (\<lambda>j. j \<notin> set ?ds) [1..<?n] = filter (\<lambda>j. \<not> descends xs (xs ! j) (xs ! 0)) [1..<?n]"
    using mem by (auto intro!: filter_cong)
  ultimately show ?thesis
    by (simp add: hd tl filter_map comp_def)
qed

lemma distinct_tiles: "fs_inv E s \<Longrightarrow> distinct (fs_tiles s)"
  by (auto simp: fs_inv_def fs_core_def fs_ids_def distinct_map)

text \<open>Property C19. Activating a window puts it on top of everything except its own
  descendants, which go above it; the descendants and the other windows keep their order.\<close>

theorem activation_raises_family:
  assumes inv: "fs_inv E s" and acyclic: "parents_acyclic (fs_tiles s)" and k: "k < length (fs_tiles s)"
    and ex: "fs_activate_window (tile_id (fs_tiles s ! k)) s = Some (s', b)"
  defines "t \<equiv> fs_tiles s ! k" and "others \<equiv> take k (fs_tiles s) @ drop (Suc k) (fs_tiles s)"
  shows "fs_tiles s' = filter (\<lambda>u. descends (fs_tiles s) u t) others @ t #
      filter (\<lambda>u. \<not> descends (fs_tiles s) u t) others \<and>
    fs_active_window_id s' = Some (tile_id t) \<and> b"
proof -
  have l: "length (fs_data s) = length (fs_tiles s)" by (rule core_length[OF fs_inv_core[OF inv]])
  have idx: "fs_idx_of (tile_id t) s = Some k"
    using inv k unfolding fs_idx_of_def t_def
    by (intro position_nth_distinct) (simp_all add: fs_inv_def fs_core_def fs_ids_def)
  define s1 where "s1 = s\<lparr>fs_tiles := t # others, fs_data := raise_elem k 0 (fs_data s), fs_active_window_id := Some (tile_id t)\<rparr>"
  have rs: "fs_raise_window k 0 s = Some (s\<lparr>fs_tiles := t # others, fs_data := raise_elem k 0 (fs_data s)\<rparr>)"
    using raise_window_eq[OF k l, of 0] by (simp add: raise_elem_def t_def others_def)
  have st: "stacked tile_child others"
    using inv unfolding others_def by (intro stacked_remove) (simp add: fs_inv_def)
  have m: "mset (t # others) = mset (fs_tiles s)"
    using mset_remove_nth[OF k] by (simp add: t_def others_def)
  then have set: "set (t # others) = set (fs_tiles s)" by (rule mset_eq_setD)
  have dist: "distinct (t # others)" using distinct_tiles[OF inv] m mset_eq_imp_distinct_iff by blast
  have ac: "parents_acyclic (t # others)" using acyclic acyclic_reorder[OF m] by simp
  have "fs_bring_up_descendants_of 0 s1 = Some (reorder (bring_up_order tile_child (t # others) 0) s1)"
    using bring_up_eq[of 0 s1] k l mset_eq_length[OF m] by (simp add: s1_def)
  then have "s' = reorder (bring_up_order tile_child (t # others) 0) s1" "b"
    using ex by (simp_all add: fs_activate_window_def t_def[symmetric] idx rs s1_def)
  moreover have "fs_tiles (reorder (bring_up_order tile_child (t # others) 0) s1) =
      filter (\<lambda>u. descends (fs_tiles s) u t) others @ t # filter (\<lambda>u. \<not> descends (fs_tiles s) u t) others"
    using bring_up_front[of "t # others"] dist st ac descends_set[OF set] by (simp add: reorder_def s1_def)
  ultimately show ?thesis by (simp add: reorder_def s1_def)
qed

theorem activation_raises_family_witness:
  "\<exists>(s :: floating_space) s'. fs_ids s = [2, 1] \<and> fs_activate_window 1 s = Some (s', True) \<and> fs_ids s' = [2, 1]"
proof -
  obtain s where s: "fs_reach (env_blank 1) s" "map tkey (fs_tiles s) = [(2, 2, Some 1), (1, 1, None)]"
    by (rule float_two)
  then have ids: "fs_ids s = [2, 1]" by (auto simp: fs_ids_def tile_id_key)
  note inv = fs_reach_inv[OF s(1)]
  note ac = float_two_acyclic[OF s(2)]
  obtain u v where uv: "fs_tiles s = [u, v]" "tkey u = (2, 2, Some 1)" "tkey v = (1, 1, None)" using s(2) by auto
  obtain s' where s': "fs_activate_window 1 s = Some (s', True)"
    using activate_inv[OF inv _ ac, of 1] ids by auto
  have "descends [u, v] u v" by (auto simp: descends_def tile_child_keys uv)
  then have "fs_tiles s' = [u, v]"
    using activation_raises_family[OF inv ac, of 1 s' True] s' uv by (simp add: tile_id_key)
  then have "fs_ids s' = [2, 1]" using uv by (simp add: fs_ids_def tile_id_key)
  with ids s' show ?thesis by blast
qed

section \<open>On the screen\<close>

text \<open>A space with one window.\<close>

definition float_one :: floating_space where
  "float_one = (let E = env_blank 1; s = float_blank; t = fs_prepared E (tile_blank 1) s in
     s\<lparr>fs_active_window_id := Some 1, fs_tiles := [t],
       fs_data := [fdata_new E (fs_working_area s) t (fs_initial_pos E t s)]\<rparr>)"

lemma float_one_added: "fs_add_tile (env_blank 1) (tile_blank 1) True float_blank = Some float_one"
  by (simp add: add_to_empty float_one_def Let_def float_blank_def fs_new_def tile_id_key)

lemma float_one_acyclic: "parents_acyclic [t]" if "tkey t = (n, n, None)"
  using that by (simp add: parents_acyclic_def links_of_keys acyclic_links)

lemma float_one_reach: "fs_reach (env_blank 1) float_one"
  by (rule fs_next[OF float_blank_reach(1), of "env_blank 1" "FAddTile (tile_blank 1) True"])
     (simp_all add: float_one_added[unfolded One_nat_def] float_blank_reach(2) float_one_acyclic[of _ 1],
      simp add: float_blank_def fs_new_def float_one_acyclic[of _ 1])

lemma float_one_facts:
  "fs_ids float_one = [1]" "length (fs_tiles float_one) = 1" "fs_working_area float_one = \<lparr>rloc = mk_point 0 0, rsize = mk_size 1000 800\<rparr>"
  "tile_size (env_blank 1) (fs_tiles float_one ! 0) = mk_size 200 100"
     apply (simp add: float_one_def Let_def fs_ids_def prepared_sel tile_id_key)
    apply (simp add: float_one_def Let_def)
   apply (simp add: float_one_def Let_def float_blank_def fs_new_def)
  apply code_simp
  done

text \<open>How much of a window of a given length stays on the screen.\<close>

definition min_on_screen :: "f64 \<Rightarrow> f64" where
  "min_on_screen len = f_clamp (len / 4) 10 75"

lemma keep_on_screen_bounds:
  assumes "10 \<le> len" "75 \<le> area"
  shows "min_on_screen len \<le> keep_on_screen area len x + len \<and> keep_on_screen area len x \<le> area - min_on_screen len"
  using assms
  by (auto simp: min_on_screen_def keep_on_screen_def max_off_screen_def f_clamp_def max_def min_def)

lemma keep_on_screen_id:
  "min_on_screen len \<le> x + len \<Longrightarrow> x \<le> area - min_on_screen len \<Longrightarrow> keep_on_screen area len x = x"
  by (auto simp: min_on_screen_def keep_on_screen_def max_off_screen_def f_clamp_def max_def min_def)

lemma recomputed_pos:
  "fdata_recompute_logical_pos d = d \<Longrightarrow>
   pt_x (fd_logical_pos d) = pt_x (rloc (fd_working_area d)) +
     keep_on_screen (sz_w (rsize (fd_working_area d))) (sz_w (fd_size d)) (pt_x (fd_pos d) * sz_w (rsize (fd_working_area d))) \<and>
   pt_y (fd_logical_pos d) = pt_y (rloc (fd_working_area d)) +
     keep_on_screen (sz_h (rsize (fd_working_area d))) (sz_h (fd_size d)) (pt_y (fd_pos d) * sz_h (rsize (fd_working_area d)))"
  by (drule arg_cong[of _ _ fd_logical_pos])
     (simp add: fdata_recompute_logical_pos_def Let_def scale_by_working_area_def pt_add_def pt_sub_def mk_point_def;
      metis (no_types, lifting) point.select_convs add.commute)

text \<open>Property C20. Wherever a floating window is moved, resized or carried by a change of the
  outputs, a quarter of it, but at least 10 and at most 75 pixels, stays inside the working area in each
  direction, so that it can always be reached with the pointer.\<close>

theorem stays_on_screen:
  assumes "fs_inv E s" and "k < length (fs_tiles s)"
    and "10 \<le> sz_w (tile_size E (fs_tiles s ! k))" "10 \<le> sz_h (tile_size E (fs_tiles s ! k))"
    and "75 \<le> sz_w (rsize (fs_working_area s))" "75 \<le> sz_h (rsize (fs_working_area s))"
  defines "p \<equiv> fd_logical_pos (fs_data s ! k)" and "sz \<equiv> tile_size E (fs_tiles s ! k)"
    and "area \<equiv> fs_working_area s"
  shows "pt_x (rloc area) + f_clamp (sz_w sz / 4) 10 75 \<le> pt_x p + sz_w sz \<and>
    pt_x p \<le> pt_x (rloc area) + sz_w (rsize area) - f_clamp (sz_w sz / 4) 10 75 \<and>
    pt_y (rloc area) + f_clamp (sz_h sz / 4) 10 75 \<le> pt_y p + sz_h sz \<and>
    pt_y p \<le> pt_y (rloc area) + sz_h (rsize area) - f_clamp (sz_h sz / 4) 10 75"
proof -
  have d: "fd_size (fs_data s ! k) = sz" "fd_working_area (fs_data s ! k) = area"
    "fdata_recompute_logical_pos (fs_data s ! k) = fs_data s ! k"
    using pair_of_inv[OF assms(1,2)] by (simp_all add: pair_ok_def sz_def area_def)
  note b = keep_on_screen_bounds[OF assms(3,5)] keep_on_screen_bounds[OF assms(4,6)]
  show ?thesis
    using b[of "pt_x (fd_pos (fs_data s ! k)) * sz_w (rsize area)"] b(2)[of "pt_y (fd_pos (fs_data s ! k)) * sz_h (rsize area)"]
      recomputed_pos[OF d(3)] unfolding d p_def[symmetric] sz_def[symmetric] area_def[symmetric] min_on_screen_def
    by linarith
qed

theorem stays_on_screen_witness:
  "\<exists>s :: floating_space. fs_reach (env_blank 1) s \<and> fs_ids s = [1] \<and>
     50 \<le> pt_x (fd_logical_pos (fs_data s ! 0)) + 200 \<and> pt_x (fd_logical_pos (fs_data s ! 0)) \<le> 950"
proof -
  note s = float_one_reach float_one_facts
  from stays_on_screen[OF fs_reach_inv[OF s(1)], of 0] s(2-)
  have "50 \<le> pt_x (fd_logical_pos (fs_data float_one ! 0)) + 200 \<and> pt_x (fd_logical_pos (fs_data float_one ! 0)) \<le> 950"
    by (simp add: f_clamp_def mk_point_def mk_size_def)
  with s show ?thesis by blast
qed

section \<open>Keeping the position\<close>

lemma frac_of_scaled:
  assumes "1 \<le> sz_w (rsize area)" "1 \<le> sz_h (rsize area)"
  shows "logical_to_size_frac area (scale_by_working_area area p) = p"
  using assms
  by (cases p) (simp add: logical_to_size_frac_def scale_by_working_area_def pt_add_def pt_sub_def mk_point_def Let_def max_def)

text \<open>Where a window is.\<close>

definition fs_pos_of :: "nat \<Rightarrow> floating_space \<Rightarrow> point option" where
  "fs_pos_of i s = map_of (zip (fs_ids s) (map fd_logical_pos (fs_data s))) i"

lemma pos_of_idx:
  assumes "fs_inv E s" "k < length (fs_tiles s)"
  shows "fs_pos_of (tile_id (fs_tiles s ! k)) s = Some (fd_logical_pos (fs_data s ! k))"
proof -
  have "length (fs_data s) = length (fs_tiles s)" "distinct (fs_ids s)"
    using assms(1) core_length[OF fs_inv_core] by (auto simp: fs_inv_def fs_core_def)
  then have "map_of (zip (fs_ids s) (map fd_logical_pos (fs_data s))) (fs_ids s ! k) =
      Some (map fd_logical_pos (fs_data s) ! k)"
    using assms(2) by (intro map_of_zip_nth) (simp_all add: fs_ids_def)
  then show ?thesis using assms(2) \<open>length (fs_data s) = length (fs_tiles s)\<close> by (simp add: fs_pos_of_def fs_ids_def)
qed

lemma pos_of_reorder:
  assumes "distinct (fs_ids s)" "length (fs_data s) = length (fs_tiles s)" "mset p = mset [0..<length (fs_tiles s)]"
  shows "fs_pos_of i (reorder p s) = fs_pos_of i s"
proof -
  let ?z = "zip (fs_ids s) (map fd_logical_pos (fs_data s))"
  have sp: "set p = {0..<length (fs_tiles s)}" using assms(3) by (metis atLeastLessThan_upt set_mset_mset)
  have "zip (fs_ids (reorder p s)) (map fd_logical_pos (fs_data (reorder p s))) = map ((!) ?z) p"
    using sp assms(2) by (auto simp: reorder_def fs_ids_def zip_map1 zip_map2 zip_same_conv_map intro!: nth_equalityI)
  moreover have "mset (map ((!) ?z) p) = mset ?z"
    using assms(2,3) by (intro mset_reordered) (simp add: fs_ids_def)
  moreover have "distinct (map fst ?z)" using assms(1,2) by (simp add: fs_ids_def)
  ultimately show ?thesis
    unfolding fs_pos_of_def by (metis map_of_inject_set mset_eq_setD mset_map mset_eq_imp_distinct_iff)
qed

text \<open>What an insertion is before the descendants are brought up.\<close>

lemma add_tile_shape:
  assumes inv: "fs_inv E s" and ex: "fs_add_tile E t a s = Some s'"
  obtains act p where "s' = reorder p (s\<lparr>fs_active_window_id := act, fs_tiles := fs_prepared E t s # fs_tiles s,
      fs_data := fdata_new E (fs_working_area s) (fs_prepared E t s) (fs_initial_pos E (fs_prepared E t s) s) # fs_data s\<rparr>)"
    and "mset p = mset [0..<Suc (length (fs_tiles s))]"
proof -
  have l: "length (fs_data s) = length (fs_tiles s)" by (rule core_length[OF fs_inv_core[OF inv]])
  define u where "u = fs_prepared E t s"
  define s1 where "s1 = s\<lparr>fs_active_window_id := (if a \<or> fs_tiles s = [] then Some (tile_id u) else fs_active_window_id s),
      fs_tiles := u # fs_tiles s, fs_data := fdata_new E (fs_working_area s) u (fs_initial_pos E u s) # fs_data s\<rparr>"
  have [simp]: "fs_initial_pos E u (s\<lparr>fs_active_window_id := x\<rparr>) = fs_initial_pos E u s" for x
    by (simp add: fs_initial_pos_def fs_stored_or_default_tile_pos_def split: option.split)
  have "fs_bring_up_descendants_of 0 s1 = Some s'"
    using ex by (cases "a \<or> fs_tiles s = []"; cases "fs_tiles s = []")
      (simp_all add: fs_add_tile_def fs_add_tile_at_def Let_def u_def[symmetric] vec_insert_def s1_def)
  then have "s' = reorder (bring_up_order tile_child (fs_tiles s1) 0) s1"
    using bring_up_eq[of 0 s1] l by (simp add: s1_def)
  then show thesis
    using that mset_bring_up_order[of 0 "fs_tiles s1" tile_child] by (simp add: s1_def u_def)
qed

lemma removed_shape:
  assumes "fs_remove_tile E i s = Some (rt, s')" "fs_idx_of i s = Some k" "k < length (fs_data s)"
  shows "tl_floating_pos (rt_tile rt) = Some (fd_pos (fs_data s ! k))"
    "tile_size E (rt_tile rt) = tile_size E (fs_tiles s ! k)"
    "fs_working_area s' = fs_working_area s"
    "\<exists>sz. rt_tile rt = (fs_tiles s ! k)\<lparr>tl_floating_window_size := sz, tl_floating_pos := Some (fd_pos (fs_data s ! k))\<rparr>"
    "fs_tiles s' = take k (fs_tiles s) @ drop (Suc k) (fs_tiles s)" "fs_data s' = take k (fs_data s) @ drop (Suc k) (fs_data s)"
    "fs_view_size s' = fs_view_size s" "fs_scale s' = fs_scale s" "fs_options s' = fs_options s"
proof -
  let ?t = "fs_tiles s ! k" and ?ts = "take k (fs_tiles s) @ drop (Suc k) (fs_tiles s)"
    and ?ds = "take k (fs_data s) @ drop (Suc k) (fs_data s)"
  let ?u = "(case win_expected_size E (tl_window ?t) of
      Some sz \<Rightarrow> ?t\<lparr>tl_floating_window_size := Some sz\<rparr> | None \<Rightarrow> ?t)\<lparr>tl_floating_pos := Some (fd_pos (fs_data s ! k))\<rparr>"
  define s2 where "s2 = (case ?ts of
       [] \<Rightarrow> s\<lparr>fs_tiles := ?ts, fs_data := ?ds, fs_active_window_id := None\<rparr>
     | t0 # _ \<Rightarrow> if Some (tile_id ?t) = fs_active_window_id (s\<lparr>fs_tiles := ?ts, fs_data := ?ds\<rparr>)
         then s\<lparr>fs_tiles := ?ts, fs_data := ?ds, fs_active_window_id := Some (tile_id t0)\<rparr>
         else s\<lparr>fs_tiles := ?ts, fs_data := ?ds\<rparr>)"
  have k: "k < length (fs_tiles s)" using idx_of_Some[OF assms(2)] by blast
  have r: "vec_remove k (fs_tiles s) = Some (?t, ?ts)" "vec_remove k (fs_data s) = Some (fs_data s ! k, ?ds)"
    using k assms(3) by (simp_all add: vec_remove_def)
  have "rt_tile rt = ?u" and s': "s' = (case fs_interactive_resize s2 of
       Some r \<Rightarrow> if tile_id ?t = ir_window r then s2\<lparr>fs_interactive_resize := None\<rparr> else s2 | None \<Rightarrow> s2)"
    using assms(1) unfolding fs_remove_tile_def assms(2) fs_remove_tile_by_idx_def Let_def s2_def[symmetric]
    by (simp_all only: r Option.bind.simps prod.case option.inject prod.inject s2_def[symmetric]) auto
  then show "tl_floating_pos (rt_tile rt) = Some (fd_pos (fs_data s ! k))" "tile_size E (rt_tile rt) = tile_size E ?t"
    "\<exists>sz. rt_tile rt = ?t\<lparr>tl_floating_window_size := sz, tl_floating_pos := Some (fd_pos (fs_data s ! k))\<rparr>"
    by (auto simp: tile_size_defs split: option.split intro: exI[of _ "tl_floating_window_size ?t"])
  have "fs_working_area s2 = fs_working_area s" "fs_tiles s2 = ?ts" "fs_data s2 = ?ds" "fs_view_size s2 = fs_view_size s"
    "fs_scale s2 = fs_scale s" "fs_options s2 = fs_options s"
    by (simp_all add: s2_def split: list.split)
  then show "fs_working_area s' = fs_working_area s" "fs_tiles s' = ?ts" "fs_data s' = ?ds"
    "fs_view_size s' = fs_view_size s" "fs_scale s' = fs_scale s" "fs_options s' = fs_options s"
    unfolding s' by (simp_all split: option.split)
qed

text \<open>A tile whose border width is up to date is not resized by preparing it for the space it was in.\<close>

lemma prepared_size:
  assumes "tl_border t = tile_border_config t" "tl_scale t = fs_scale s" "tl_options t = fs_options s"
    and "tl_view_size t = fs_view_size s"
  shows "tile_size E (fs_prepared E t s) = tile_size E t"
  using assms by (simp add: fs_prepared_def tile_update_config_def Let_def tile_size_defs tile_border_config_def
      win_simps)

lemma tkey_stored: "tkey (t\<lparr>tl_floating_window_size := sz, tl_floating_pos := p\<rparr>) = tkey t"
  by (simp add: tkey_def)

lemma prepared_border: "tl_border (fs_prepared E t s) = tile_border_config (fs_prepared E t s)"
  by (simp add: fs_prepared_def tile_update_config_def Let_def tile_border_config_def win_simps)

text \<open>Property C21. A window that leaves the floating space and comes back, to be
  tiled for a while or moved to another workspace, floats exactly where it was, if it comes back at the
  size it had.\<close>

theorem float_restores_position:
  assumes inv: "fs_inv E s" and rm: "fs_remove_tile E i s = Some (rt, s1)"
    and add: "fs_add_tile E (rt_tile rt) a s1 = Some s2"
    and acyclic: "parents_acyclic (rt_tile rt # fs_tiles s1)"
    and area: "1 \<le> sz_w (rsize (fs_working_area s))" "1 \<le> sz_h (rsize (fs_working_area s))"
    and same: "tile_size E (fs_prepared E (rt_tile rt) s1) = tile_size E (rt_tile rt)"
  shows "fs_pos_of i s2 = fs_pos_of i s \<and> i \<in> set (fs_ids s2)"
proof -
  obtain k where k: "fs_idx_of i s = Some k" using rm by (auto simp: fs_remove_tile_def bind_eq_Some_conv)
  then have kl: "k < length (fs_tiles s)" "tile_id (fs_tiles s ! k) = i" by (simp_all add: idx_of_Some)
  then have "i \<in> set (fs_ids s)" by (auto simp: fs_ids_def)
  from remove_inv[OF inv this, of E] rm have r: "tile_id (rt_tile rt) = i" "fs_inv E s1" "fs_ids s1 = remove1 i (fs_ids s)"
    by auto
  have dl: "k < length (fs_data s)" using core_length[OF fs_inv_core[OF inv]] kl by simp
  note sh = removed_shape[OF rm k dl]
  define u where "u = fs_prepared E (rt_tile rt) s1"
  define d where "d = fdata_new E (fs_working_area s1) u (fs_initial_pos E u s1)"
  obtain act p where s2: "s2 = reorder p (s1\<lparr>fs_active_window_id := act, fs_tiles := u # fs_tiles s1, fs_data := d # fs_data s1\<rparr>)"
      and p: "mset p = mset [0..<Suc (length (fs_tiles s1))]"
    using add_tile_shape[OF r(2) add] unfolding u_def d_def by blast
  let ?s3 = "s1\<lparr>fs_active_window_id := act, fs_tiles := u # fs_tiles s1, fs_data := d # fs_data s1\<rparr>"
  have ids3: "fs_ids ?s3 = i # fs_ids s1" by (simp add: fs_ids_def u_def prepared_sel r(1))
  have "distinct (fs_ids s)" using inv by (simp add: fs_inv_def fs_core_def)
  then have "distinct (fs_ids ?s3)" using r(3) by (simp add: ids3 set_remove1_eq)
  then have "fs_pos_of i s2 = fs_pos_of i ?s3"
    unfolding s2 using core_length[OF fs_inv_core[OF r(2)]] p by (intro pos_of_reorder) simp_all
  also have "\<dots> = Some (fd_logical_pos d)" by (simp add: fs_pos_of_def ids3)
  also have "fd_logical_pos d = fd_logical_pos (fs_data s ! k)"
  proof -
    have po: "pair_ok E (fs_view_size s) (fs_scale s) (fs_options s) (fs_working_area s) (fs_tiles s ! k) (fs_data s ! k)"
      by (rule pair_of_inv[OF inv kl(1)])
    have "tl_floating_pos u = Some (fd_pos (fs_data s ! k))"
      using sh(1) by (simp add: u_def fs_prepared_def tile_update_config_def Let_def)
    then have "fs_initial_pos E u s1 = scale_by_working_area (fs_working_area s) (fd_pos (fs_data s ! k))"
      by (simp add: fs_initial_pos_def fs_stored_or_default_tile_pos_def sh(3))
    then have pos: "fd_pos d = fd_pos (fs_data s ! k)"
      using frac_of_scaled[OF area] by (simp add: d_def fdata_new_def fdata_set_logical_pos_def sh(3))
    have "fd_size d = fd_size (fs_data s ! k)" "fd_working_area d = fd_working_area (fs_data s ! k)"
      using po same sh by (simp_all add: d_def u_def pair_ok_def)
    moreover have "fdata_recompute_logical_pos d = d" "fdata_recompute_logical_pos (fs_data s ! k) = fs_data s ! k"
      using po by (simp_all add: d_def pair_ok_def)
    ultimately show ?thesis using pos
      by (metis (no_types, lifting) fdata.select_convs(2) fdata.surjective fdata.update_convs(2) fdata_recompute_logical_pos_def)
  qed
  also have "Some \<dots> = fs_pos_of i s" using pos_of_idx[OF inv kl(1)] kl(2) by simp
  finally have "fs_pos_of i s2 = fs_pos_of i s" .
  moreover have "i \<in> set (fs_ids s2)"
  proof -
    have "mset (fs_ids s2) = mset (fs_ids ?s3)"
      unfolding s2 using mset_reordered[of p "fs_tiles ?s3"] p by (simp add: reorder_def fs_ids_def flip: map_map)
    then show ?thesis using ids3 by (metis list.set_intros(1) mset_eq_setD)
  qed
  ultimately show ?thesis by blast
qed


theorem float_restores_position_witness:
  "\<exists>(s :: floating_space) rt s1 s2. fs_remove_tile (env_blank 1) 1 s = Some (rt, s1) \<and>
     fs_add_tile (env_blank 1) (rt_tile rt) True s1 = Some s2 \<and> fs_pos_of 1 s2 = fs_pos_of 1 s"
proof -
  let ?E = "env_blank 1"
  obtain rt s1 where r: "fs_remove_tile ?E 1 float_one = Some (rt, s1)"
    using remove_inv[OF fs_reach_inv[OF float_one_reach], of 1 ?E] float_one_facts(1) by auto
  have i: "fs_idx_of 1 float_one = Some 0" by (simp add: fs_idx_of_def float_one_def Let_def prepared_sel tile_id_key)
  have o: "length (fs_data float_one) = 1" "length (fs_tiles float_one) = 1" by (simp_all add: float_one_def Let_def)
  note sh = removed_shape[OF r i]
  from sh(4) o obtain sz where rt: "rt_tile rt = (fs_tiles float_one ! 0)\<lparr>tl_floating_window_size := sz,
      tl_floating_pos := Some (fd_pos (fs_data float_one ! 0))\<rparr>" by auto
  have t: "fs_tiles float_one ! 0 = fs_prepared ?E (tile_blank 1) float_blank" by (simp add: float_one_def Let_def)
  have f: "tile_size ?E (fs_prepared ?E (rt_tile rt) s1) = tile_size ?E (rt_tile rt)"
    by (rule prepared_size)
       (use sh(7,8,9) o prepared_border[of ?E "tile_blank 1" float_blank] in
         \<open>simp_all add: rt t prepared_sel tile_border_config_def float_one_def Let_def\<close>)
  have f: "tile_size ?E (fs_prepared ?E (rt_tile rt) s1) = tile_size ?E (rt_tile rt)" "fs_tiles s1 = []"
      "fs_data s1 = []" "tkey (rt_tile rt) = (1, 1, None)"
    using f sh(5,6) o tkey_blank(1)[of 1]
    by (simp_all add: rt t prepared_sel tkey_stored)
  obtain s2 where a: "fs_add_tile ?E (rt_tile rt) True s1 = Some s2" using add_to_empty[OF f(2,3)] by blast
  have "fs_pos_of 1 s2 = fs_pos_of 1 float_one"
    by (rule conjunct1[OF float_restores_position[OF fs_reach_inv[OF float_one_reach] r a _ _ _ f(1)]])
       (simp_all add: f(2) float_one_acyclic[OF f(4)] float_one_facts mk_size_def)
  with r a show ?thesis by blast
qed

end
