(* ===== verification/Outputs.thy ===== *)
theory Outputs
  imports Prelude "HOL-Library.Char_ord" "HOL-Library.List_Lexorder" "HOL-Library.Option_ord" "HOL-Library.Product_Lexorder"
begin

text \<open>
  The names of outputs, \<^verbatim>\<open>sol-config/src/output.rs\<close>: how a configured or remembered name is matched
  against an output, how a name that will match is formatted, and the order in which outputs are listed.
  A \<open>string\<close> is the UTF-8 bytes of a Rust string.
\<close>

section \<open>Strings\<close>

definition to_ascii_lowercase :: "char \<Rightarrow> char" where
  "to_ascii_lowercase c = (let n = of_char c :: nat in if 65 \<le> n \<and> n \<le> 90 then char_of (n + 32) else c)"

definition eq_ignore_ascii_case :: "string \<Rightarrow> string \<Rightarrow> bool" where
  "eq_ignore_ascii_case s t \<longleftrightarrow> map to_ascii_lowercase s = map to_ascii_lowercase t"

text \<open>\<open>str::get(..n)\<close>: none if \<open>n\<close> is out of range or inside a character.\<close>

definition is_char_boundary :: "nat \<Rightarrow> string \<Rightarrow> bool" where
  "is_char_boundary n s \<longleftrightarrow>
     n = 0 \<or> n = length s \<or> n < length s \<and> \<not> (128 \<le> (of_char (s ! n) :: nat) \<and> (of_char (s ! n) :: nat) < 192)"

definition str_prefix :: "nat \<Rightarrow> string \<Rightarrow> string option" where
  "str_prefix n s = (if is_char_boundary n s then Some (take n s) else None)"

section \<open>Names of outputs\<close>

datatype output_name = OutputName
  (on_connector: string)
  (on_make: "string option")
  (on_model: "string option")
  (on_serial: "string option")

definition or_unknown :: "string option \<Rightarrow> string" where
  "or_unknown s = (case s of Some s \<Rightarrow> s | None \<Rightarrow> ''Unknown'')"

definition missing_mms :: "output_name \<Rightarrow> bool" where
  "missing_mms n \<longleftrightarrow> on_make n = None \<and> on_model n = None \<and> on_serial n = None"

record ipc_output =
  io_name :: string
  io_make :: string
  io_model :: string
  io_serial :: "string option"

definition output_name_from_ipc :: "ipc_output \<Rightarrow> output_name" where
  "output_name_from_ipc o1 = OutputName (io_name o1)
     (if io_make o1 \<noteq> ''Unknown'' then Some (io_make o1) else None)
     (if io_model o1 \<noteq> ''Unknown'' then Some (io_model o1) else None) (io_serial o1)"

definition format_description :: "output_name \<Rightarrow> string" where
  "format_description n =
     or_unknown (on_make n) @ '' - '' @ or_unknown (on_model n) @ '' - '' @ on_connector n"

definition format_make_model_serial :: "output_name \<Rightarrow> string" where
  "format_make_model_serial n =
     or_unknown (on_make n) @ '' '' @ or_unknown (on_model n) @ '' '' @ or_unknown (on_serial n)"

definition format_make_model_serial_or_connector :: "output_name \<Rightarrow> string" where
  "format_make_model_serial_or_connector n =
     (if missing_mms n then on_connector n else format_make_model_serial n)"

text \<open>One step of the match by make, model and serial: what follows the given part and a space.\<close>

definition match_part :: "string \<Rightarrow> string \<Rightarrow> string option" where
  "match_part part target = do {
     pre \<leftarrow> str_prefix (length part) target;
     let rest = drop (length part) target;
     if \<not> eq_ignore_ascii_case pre part then None
     else case rest of c # rest \<Rightarrow> if c = CHR '' '' then Some rest else None | [] \<Rightarrow> None }"

definition output_matches :: "output_name \<Rightarrow> string \<Rightarrow> bool" where
  "output_matches n target \<longleftrightarrow>
    (if eq_ignore_ascii_case target (on_connector n) then True
     else if missing_mms n then False
     else case match_part (or_unknown (on_make n)) target of
            None \<Rightarrow> False
          | Some rest \<Rightarrow> (case match_part (or_unknown (on_model n)) rest of
                None \<Rightarrow> False
              | Some rest \<Rightarrow> eq_ignore_ascii_case rest (or_unknown (on_serial n))))"

text \<open>\<open>Outputs::find\<close>: the first configured output that matches.\<close>

definition outputs_find :: "('o \<Rightarrow> string) \<Rightarrow> 'o list \<Rightarrow> output_name \<Rightarrow> 'o option" where
  "outputs_find name os n = find (\<lambda>o1. output_matches n (name o1)) os"

section \<open>The order\<close>

datatype ordering = Less | Equal | Greater

definition cmp :: "'a::linorder \<Rightarrow> 'a \<Rightarrow> ordering" where
  "cmp x y = (if x < y then Less else if x = y then Equal else Greater)"

definition then_with :: "ordering \<Rightarrow> ordering \<Rightarrow> ordering" where
  "then_with a b = (case a of Equal \<Rightarrow> b | _ \<Rightarrow> a)"

definition output_compare :: "output_name \<Rightarrow> output_name \<Rightarrow> ordering" where
  "output_compare a b =
    (case (missing_mms a, missing_mms b) of
       (True, True) \<Rightarrow> cmp (on_connector a) (on_connector b)
     | (True, False) \<Rightarrow> Greater
     | (False, True) \<Rightarrow> Less
     | (False, False) \<Rightarrow>
         then_with (then_with (then_with (cmp (on_make a) (on_make b)) (cmp (on_model a) (on_model b)))
           (cmp (on_serial a) (on_serial b))) (cmp (on_connector a) (on_connector b)))"

text \<open>The order is linear, so outputs can be sorted by it.\<close>

definition output_key :: "output_name \<Rightarrow> bool \<times> string option \<times> string option \<times> string option \<times> string" where
  "output_key n = (missing_mms n, on_make n, on_model n, on_serial n, on_connector n)"

lemma missing_key: "missing_mms n \<Longrightarrow> output_key n = (True, None, None, None, on_connector n)"
  by (simp add: output_key_def missing_mms_def)

lemma output_compare_key:
  "output_compare a b = cmp (output_key a) (output_key b)"
proof (cases "missing_mms a \<or> missing_mms b")
  case True
  then show ?thesis
    by (cases "missing_mms a"; cases "missing_mms b"; simp add: output_compare_def cmp_def missing_key)
       (simp_all add: output_key_def)
next
  case False
  then show ?thesis
    by (cases "on_make a" "on_make b" rule: linorder_cases; cases "on_model a" "on_model b" rule: linorder_cases;
        cases "on_serial a" "on_serial b" rule: linorder_cases;
        simp add: output_compare_def cmp_def then_with_def output_key_def)
qed

lemma output_key_inj: "output_key a = output_key b \<longleftrightarrow> a = b"
  by (cases a; cases b) (auto simp: output_key_def)

instantiation output_name :: linorder
begin

definition less_eq_output_name :: "output_name \<Rightarrow> output_name \<Rightarrow> bool" where
  "less_eq_output_name a b \<longleftrightarrow> output_compare a b \<noteq> Greater"

definition less_output_name :: "output_name \<Rightarrow> output_name \<Rightarrow> bool" where
  "less_output_name a b \<longleftrightarrow> output_compare a b = Less"

instance
proof
  fix a b c :: output_name
  have le: "a \<le> b \<longleftrightarrow> output_key a \<le> output_key b" for a b
    by (auto simp: less_eq_output_name_def output_compare_key cmp_def)
  have less: "a < b \<longleftrightarrow> output_key a < output_key b" for a b
    by (auto simp: less_output_name_def output_compare_key cmp_def)
  show "(a < b) = (a \<le> b \<and> \<not> b \<le> a)" unfolding le less by (rule less_le_not_le)
  show "a \<le> a" unfolding le by (rule order_refl)
  show "a \<le> b \<Longrightarrow> b \<le> c \<Longrightarrow> a \<le> c" unfolding le by (rule order_trans)
  show "a \<le> b \<Longrightarrow> b \<le> a \<Longrightarrow> a = b" unfolding le using output_key_inj by (auto dest: antisym)
  show "a \<le> b \<or> b \<le> a" unfolding le by (rule linear)
qed

end

section \<open>Properties\<close>

lemma eq_ignore_refl [simp]: "eq_ignore_ascii_case s s"
  by (simp add: eq_ignore_ascii_case_def)

lemma match_part_formatted: "match_part p (p @ '' '' @ rest) = Some rest"
  by (simp add: match_part_def str_prefix_def is_char_boundary_def nth_append Let_def)

lemma lowercase_idem [simp]: "to_ascii_lowercase (to_ascii_lowercase c) = to_ascii_lowercase c"
proof -
  have "of_char (char_of (n + 32) :: char) = n + 32" if "n \<le> 90" for n :: nat
    using that by simp
  then show ?thesis by (auto simp: to_ascii_lowercase_def Let_def)
qed

lemma lowercase_code: "of_char (to_ascii_lowercase c) =
    (let n = of_char c :: nat in if 65 \<le> n \<and> n \<le> 90 then n + 32 else n)"
  by (auto simp: to_ascii_lowercase_def Let_def)

lemma lowercase_boundary [simp]: "is_char_boundary n (map to_ascii_lowercase s) = is_char_boundary n s"
  by (auto simp: is_char_boundary_def lowercase_code Let_def split: if_splits)

lemma lowercase_space [simp]: "to_ascii_lowercase c = CHR '' '' \<longleftrightarrow> c = CHR '' ''"
proof -
  have eq: "d = CHR '' '' \<longleftrightarrow> (of_char d :: nat) = 32" for d :: char
    using of_char_eq_iff[of d "CHR '' ''", where 'a = nat] by simp
  show ?thesis unfolding eq lowercase_code by (simp add: Let_def)
qed

lemma match_part_lowercase:
  "match_part p (map to_ascii_lowercase t) = map_option (map to_ascii_lowercase) (match_part p t)"
  by (auto simp: match_part_def str_prefix_def eq_ignore_ascii_case_def take_map drop_map comp_def Let_def
      split: list.split)

text \<open>Property C36. The name that is remembered for an output, for instance by a
  workspace that has to find its way back to it, matches that output, whatever its make, model and serial
  contain; so does its connector; and the case of ASCII letters makes no difference.\<close>

theorem output_name_roundtrip:
  "output_matches n (format_make_model_serial_or_connector n) \<and>
   output_matches n (on_connector n) \<and>
   output_matches n (map to_ascii_lowercase target) = output_matches n target"
  using match_part_formatted
  by (auto simp: output_matches_def format_make_model_serial_or_connector_def format_make_model_serial_def
      match_part_lowercase eq_ignore_ascii_case_def comp_def split: option.split)

text \<open>Property C37. The comparison of outputs is a linear order in which only equal names compare
  equal, so sorting by it is deterministic; outputs with no make, model and serial come last, by their
  connector.\<close>

theorem output_order:
  "(output_compare a b = Equal \<longleftrightarrow> a = b) \<and>
   (output_compare a b = Less \<longleftrightarrow> output_compare b a = Greater) \<and>
   (output_compare a b = Less \<and> output_compare b c = Less \<longrightarrow> output_compare a c = Less) \<and>
   (\<not> missing_mms a \<and> missing_mms b \<longrightarrow> output_compare a b = Less)"
proof -
  have "output_compare a b = Equal \<longleftrightarrow> a = b"
    using output_key_inj by (auto simp: output_compare_key cmp_def)
  moreover have "output_compare a b = Less \<longleftrightarrow> output_compare b a = Greater"
    using less_output_name_def[of a b] less_eq_output_name_def[of b a] by (simp add: not_le[symmetric])
  moreover have "output_compare a b = Less \<and> output_compare b c = Less \<longrightarrow> output_compare a c = Less"
    by (simp flip: less_output_name_def) (metis less_trans)
  ultimately show ?thesis by (simp add: output_compare_def)
qed

theorem output_order_witness:
  "output_compare (OutputName ''eDP-1'' None None (Some ''x'')) (OutputName ''DP-1'' None None None) = Less"
  using output_order[of "OutputName ''eDP-1'' None None (Some ''x'')" "OutputName ''DP-1'' None None None"]
  by (simp add: missing_mms_def)

end
