(* ===== verification/Spaces.thy ===== *)
theory Spaces
  imports Prelude
begin

text \<open>
  What a workspace relies on of the two spaces it keeps its windows in, as one interface: a space holds
  distinct windows, one of which is active unless there is none; adding puts in exactly the given window;
  removing takes out exactly the named one and leaves the focus where it was. The second locale pairs two
  such spaces and proves what happens to a window that changes from one to the other.
\<close>

locale window_space =
  fixes ids :: "'s \<Rightarrow> nat list"
    and inv :: "'s \<Rightarrow> bool"
    and active :: "'s \<Rightarrow> nat option"
    and ident :: "'t \<Rightarrow> nat"
    and fits :: "'p \<Rightarrow> 't \<Rightarrow> 's \<Rightarrow> bool"
    and add :: "'p \<Rightarrow> 't \<Rightarrow> bool \<Rightarrow> 's \<Rightarrow> 's option"
    and remove :: "nat \<Rightarrow> 's \<Rightarrow> ('t \<times> 's) option"
  assumes ids_distinct: "inv s \<Longrightarrow> distinct (ids s)"
    and active_law: "inv s \<Longrightarrow> case active s of None \<Rightarrow> ids s = [] | Some i \<Rightarrow> i \<in> set (ids s)"
    and add_law: "inv s \<Longrightarrow> ident t \<notin> set (ids s) \<Longrightarrow> fits p t s \<Longrightarrow>
      \<exists>s'. add p t a s = Some s' \<and> inv s' \<and> mset (ids s') = add_mset (ident t) (mset (ids s)) \<and>
        active s' = (if a \<or> ids s = [] then Some (ident t) else active s)"
    and remove_law: "inv s \<Longrightarrow> remove i s = Some (t, s') \<Longrightarrow>
      i \<in> set (ids s) \<and> ident t = i \<and> inv s' \<and> mset (ids s') = mset (ids s) - {#i#} \<and>
        (active s \<noteq> Some i \<longrightarrow> active s' = active s)"
begin

lemma active_none: "inv s \<Longrightarrow> active s = None \<longleftrightarrow> ids s = []"
  using active_law[of s] by (cases "active s") auto

lemma active_some: "inv s \<Longrightarrow> active s = Some i \<Longrightarrow> i \<in> set (ids s)"
  using active_law[of s] by simp

lemma added:
  assumes "inv s" "ident t \<notin> set (ids s)" "fits p t s" "add p t a s = Some s'"
  shows "inv s'" "mset (ids s') = add_mset (ident t) (mset (ids s))" "set (ids s') = insert (ident t) (set (ids s))"
    "active s' = (if a \<or> ids s = [] then Some (ident t) else active s)" "ids s' \<noteq> []"
proof -
  show m: "inv s'" "mset (ids s') = add_mset (ident t) (mset (ids s))"
    "active s' = (if a \<or> ids s = [] then Some (ident t) else active s)"
    using add_law[OF assms(1-3), of a] assms(4) by auto
  show "set (ids s') = insert (ident t) (set (ids s))"
    using arg_cong[OF m(2), of set_mset] by simp
  then show "ids s' \<noteq> []" by auto
qed

lemma removed:
  assumes "inv s" "remove i s = Some (t, s')"
  shows "inv s'" "ident t = i" "mset (ids s) = add_mset i (mset (ids s'))" "i \<in> set (ids s)" "i \<notin> set (ids s')"
    "set (ids s') = set (ids s) - {i}" "active s \<noteq> Some i \<Longrightarrow> active s' = active s"
proof -
  note r = remove_law[OF assms]
  show "inv s'" "ident t = i" "i \<in> set (ids s)" "active s \<noteq> Some i \<Longrightarrow> active s' = active s" using r by blast+
  show m: "mset (ids s) = add_mset i (mset (ids s'))" using r by simp
  have "distinct (ids s)" "distinct (ids s')" using r assms(1) ids_distinct by blast+
  with m show "i \<notin> set (ids s')"
    by (metis count_add_mset distinct_count_atmost_1 One_nat_def Suc_inject nat.distinct(1) count_mset_0_iff
        count_mset count_mset_gt_0 add.commute plus_1_eq_Suc set_mset_mset union_single_eq_member)
  then show "set (ids s') = set (ids s) - {i}" using arg_cong[OF m, of set_mset] by auto
qed

text \<open>Adding a window and removing it again leaves the same windows, and so does the reverse.\<close>

lemma add_remove:
  assumes "inv s" "ident t \<notin> set (ids s)" "fits p t s" "add p t a s = Some s1" "remove (ident t) s1 = Some (u, s2)"
  shows "mset (ids s2) = mset (ids s)" "\<not> a \<Longrightarrow> ids s \<noteq> [] \<Longrightarrow> active s2 = active s"
proof -
  note a = added[OF assms(1-4)]
  note r = removed[OF a(1) assms(5)]
  show "mset (ids s2) = mset (ids s)" using a(2) r(3) by simp
  have "active s \<noteq> Some (ident t)" using active_some[OF assms(1)] assms(2) by auto
  then show "\<not> a \<Longrightarrow> ids s \<noteq> [] \<Longrightarrow> active s2 = active s" using a(4) r(7) by simp
qed

lemma remove_add:
  assumes "inv s" "remove i s = Some (t, s1)" "ident u = i" "fits p u s1" "add p u a s1 = Some s2"
  shows "inv s2" "mset (ids s2) = mset (ids s)"
proof -
  note r = removed[OF assms(1,2)]
  have "ident u \<notin> set (ids s1)" using r(5) assms(3) by simp
  note a = added[OF r(1) this assms(4,5)]
  show "inv s2" "mset (ids s2) = mset (ids s)" using a(1,2) r(3) assms(3) by simp_all
qed

end

locale two_spaces =
  src: window_space ids inv active ident fits add remove +
  dst: window_space ids' inv' active' ident fits' add' remove'
  for ids :: "'s \<Rightarrow> nat list" and inv active and ident :: "'t \<Rightarrow> nat"
    and fits :: "'p \<Rightarrow> 't \<Rightarrow> 's \<Rightarrow> bool" and add remove
    and ids' :: "'d \<Rightarrow> nat list" and inv' active' and fits' :: "'q \<Rightarrow> 't \<Rightarrow> 'd \<Rightarrow> bool" and add' remove'
begin

text \<open>A window taken out of one space and put into the other: nothing is lost or duplicated.\<close>

lemma moved:
  assumes "inv s" "inv' d" "set (ids s) \<inter> set (ids' d) = {}"
    and "remove i s = Some (t, s1)" "ident u = i" "fits' q u d"
  shows "\<exists>d1. add' q u a d = Some d1 \<and> inv s1 \<and> inv' d1 \<and> set (ids s1) \<inter> set (ids' d1) = {} \<and>
    mset (ids s1) + mset (ids' d1) = mset (ids s) + mset (ids' d) \<and> i \<in> set (ids' d1) \<and> i \<notin> set (ids s1) \<and>
    set (ids s1) = set (ids s) - {i} \<and> set (ids' d1) = insert i (set (ids' d)) \<and>
    (active s \<noteq> Some i \<longrightarrow> active s1 = active s) \<and>
    active' d1 = (if a \<or> ids' d = [] then Some i else active' d)"
proof -
  note r = src.removed[OF assms(1,4)]
  have "ident u \<notin> set (ids' d)" using r(4) assms(3,5) by auto
  from dst.add_law[OF assms(2) this assms(6), of a] obtain d1 where d1: "add' q u a d = Some d1" by blast
  note a = dst.added[OF assms(2) \<open>ident u \<notin> set (ids' d)\<close> assms(6) d1]
  have "set (ids s1) \<inter> set (ids' d1) = {}" using r(5,6) a(3) assms(3,5) by auto
  moreover have "mset (ids s1) + mset (ids' d1) = mset (ids s) + mset (ids' d)" using r(3) a(2) assms(5) by simp
  ultimately show ?thesis using d1 r a assms(5) by auto
qed

end

end
