(* ===== verification/SpaceContracts.thy ===== *)
theory SpaceContracts
  imports Spaces MasterStackRefinement FloatingGeometry
begin

text \<open>
  The master-stack engine and the floating space meet the contract of a window space, and pair up in
  both directions.
\<close>

section \<open>The master-stack engine\<close>

definition ss_active_id :: "scrolling_space \<Rightarrow> nat option" where
  "ss_active_id s = map_option mw_id (ss_active_window s)"

definition ss_put :: "env \<Rightarrow> column_width \<times> bool \<Rightarrow> tile \<Rightarrow> bool \<Rightarrow> scrolling_space \<Rightarrow> scrolling_space option" where
  "ss_put E = (\<lambda>(width, full) t a s. Some (ss_add_tile E t a width full s))"

definition ss_take :: "env \<Rightarrow> nat \<Rightarrow> scrolling_space \<Rightarrow> (tile \<times> scrolling_space) option" where
  "ss_take E i s = map_option (\<lambda>(rt, s). (rt_tile rt, s)) (ss_remove_tile E i s)"

lemma ss_active_cursor:
  "ss_inv E s \<Longrightarrow> ss_active_id s = map_option ((!) (ss_ids s)) (active_column_idx s)"
  using focused_id(2)[of E s] inv_cursor[of E s]
  by (cases "active_column_idx s") (auto simp: ss_active_id_def ss_active_window_def)

lemma ss_put_law:
  assumes inv: "ss_inv E s" and new: "tile_id t \<notin> set (ss_ids s)"
  shows "ss_inv E (ss_add_tile E' t a w f s) \<and> ss_ids (ss_add_tile E' t a w f s) = ss_ids s @ [tile_id t] \<and>
    ss_active_id (ss_add_tile E' t a w f s) = (if a \<or> ss_ids s = [] then Some (tile_id t) else ss_active_id s)"
proof -
  let ?s = "ss_add_tile E' t a w f s"
  have abs: "ss_abs ?s = spec_add (tile_id t) a (ss_abs s)"
    using added_abs[OF inv] by (simp add: ss_add_tile_def)
  have inv': "ss_inv E ?s" using added_inv[OF inv, of _ E' a] new by (simp add: ss_add_tile_def column_new_not_both)
  have cur: "active_column_idx s = None \<longleftrightarrow> ss_ids s = []"
    "\<And>k. active_column_idx s = Some k \<Longrightarrow> k < length (ss_ids s)"
    using inv_cursor[OF inv] by (auto simp: ss_ids_def split: option.splits)
  have ids: "ss_ids ?s = ss_ids s @ [tile_id t]"
    and idx: "active_column_idx ?s = (if a \<or> active_column_idx s = None then Some (length (ss_ids s)) else active_column_idx s)"
    using abs by (simp_all add: ss_abs_def spec_add_def)
  have "ss_active_id ?s = (if a \<or> ss_ids s = [] then Some (tile_id t) else ss_active_id s)"
    unfolding ss_active_cursor[OF inv'] ss_active_cursor[OF inv] ids idx
    using cur by (cases "active_column_idx s") (auto simp: nth_append)
  with inv' ids show ?thesis by blast
qed

interpretation tiling: window_space ss_ids "ss_inv E" ss_active_id tile_id "\<lambda>_ _ _. True" "ss_put E'" "ss_take E'"
  for E E' :: env
proof
  fix s s' t i a and p :: "column_width \<times> bool"
  assume inv: "ss_inv E s"
  show "distinct (ss_ids s)" using inv by (simp add: ss_inv_def)
  show act: "case ss_active_id s of None \<Rightarrow> ss_ids s = [] | Some i \<Rightarrow> i \<in> set (ss_ids s)"
    unfolding ss_active_cursor[OF inv] using inv_cursor[OF inv] by (auto simp: ss_ids_def split: option.splits)
  show "tile_id t \<notin> set (ss_ids s) \<Longrightarrow> \<exists>s'. ss_put E' p t a s = Some s' \<and> ss_inv E s' \<and>
      mset (ss_ids s') = add_mset (tile_id t) (mset (ss_ids s)) \<and>
      ss_active_id s' = (if a \<or> ss_ids s = [] then Some (tile_id t) else ss_active_id s)"
    using ss_put_law[OF inv, of t E' a "fst p" "snd p"] by (auto simp: ss_put_def split: prod.split)
  assume "ss_take E' i s = Some (t, s')"
  then obtain rt where rt: "ss_remove_tile E' i s = Some (rt, s')" "t = rt_tile rt" by (auto simp: ss_take_def)
  have "i \<in> set (ss_ids s)"
    using rt(1) by (auto simp: ss_remove_tile_def bind_eq_Some_conv ss_ids_def dest!: position_Some)
  moreover from this act have "ss_active_id s \<noteq> None" by (cases "ss_active_id s") auto
  ultimately show "i \<in> set (ss_ids s) \<and> tile_id t = i \<and> ss_inv E s' \<and> mset (ss_ids s') = mset (ss_ids s) - {#i#} \<and>
      (ss_active_id s \<noteq> Some i \<longrightarrow> ss_active_id s' = ss_active_id s)"
    using removed_tile[OF inv rt(1)] removed_focus[OF inv rt(1)] rt(2)
    by (auto simp: ss_active_id_def)
qed

section \<open>The floating space\<close>

definition fs_put :: "env \<Rightarrow> nat option \<Rightarrow> tile \<Rightarrow> bool \<Rightarrow> floating_space \<Rightarrow> floating_space option" where
  "fs_put E next_to t a s = (case next_to of None \<Rightarrow> fs_add_tile E t a s | Some i \<Rightarrow> fs_add_tile_above E i t a s)"

definition fs_take :: "env \<Rightarrow> nat \<Rightarrow> floating_space \<Rightarrow> (tile \<times> floating_space) option" where
  "fs_take E i s = map_option (\<lambda>(rt, s). (rt_tile rt, s)) (fs_remove_tile E i s)"

definition fs_fits :: "nat option \<Rightarrow> tile \<Rightarrow> floating_space \<Rightarrow> bool" where
  "fs_fits next_to t s \<longleftrightarrow> parents_acyclic (t # fs_tiles s) \<and> (\<forall>i \<in> set_option next_to. i \<in> set (fs_ids s))"

interpretation floating: window_space fs_ids "fs_inv E" fs_active_window_id tile_id fs_fits "fs_put E" "fs_take E'"
  for E E' :: env
proof
  fix s s' t i a and p :: "nat option"
  assume inv: "fs_inv E s"
  show d: "distinct (fs_ids s)" using inv by (simp add: fs_inv_def fs_core_def)
  show act: "case fs_active_window_id s of None \<Rightarrow> fs_ids s = [] | Some i \<Rightarrow> i \<in> set (fs_ids s)"
    using inv by (auto simp: fs_inv_def fs_core_def active_ok_def fs_ids_def split: option.splits)
  have e: "fs_tiles s = [] \<longleftrightarrow> fs_ids s = []" by (simp add: fs_ids_def)
  show "tile_id t \<notin> set (fs_ids s) \<Longrightarrow> fs_fits p t s \<Longrightarrow> \<exists>s'. fs_put E p t a s = Some s' \<and> fs_inv E s' \<and>
      mset (fs_ids s') = add_mset (tile_id t) (mset (fs_ids s)) \<and>
      fs_active_window_id s' = (if a \<or> fs_ids s = [] then Some (tile_id t) else fs_active_window_id s)"
    using add_tile_at_inv[OF inv, of 0 t a] add_above_inv[OF inv, of _ t a]
    by (cases p) (auto simp: fs_put_def fs_add_tile_def fs_fits_def e)
  assume "fs_take E' i s = Some (t, s')"
  then obtain rt where rt: "fs_remove_tile E' i s = Some (rt, s')" "t = rt_tile rt" by (auto simp: fs_take_def)
  have i: "i \<in> set (fs_ids s)"
    using rt(1) by (auto simp: fs_remove_tile_def bind_eq_Some_conv fs_ids_def dest!: idx_of_Some)
  have "fs_active_window_id s' = fs_active_window_id s" if "fs_active_window_id s \<noteq> Some i"
  proof -
    obtain j where "fs_active_window_id s = Some j" "j \<in> set (fs_ids s)"
      using act i by (cases "fs_active_window_id s") auto
    with that have "remove1 i (fs_ids s) \<noteq> []" using d by (metis in_set_remove1 list.distinct(1) list.set_cases)
    then show ?thesis using remove_inv[OF inv i, of E'] rt(1) that
      by (auto simp: active_after_remove_def split: list.splits)
  qed
  then show "i \<in> set (fs_ids s) \<and> tile_id t = i \<and> fs_inv E s' \<and> mset (fs_ids s') = mset (fs_ids s) - {#i#} \<and>
      (fs_active_window_id s \<noteq> Some i \<longrightarrow> fs_active_window_id s' = fs_active_window_id s)"
    using remove_inv[OF inv i, of E'] rt i by auto
qed

section \<open>Changing between them\<close>

interpretation to_tiling: two_spaces fs_ids "fs_inv E" fs_active_window_id tile_id fs_fits "fs_put E" "fs_take E'"
    ss_ids "ss_inv E" ss_active_id "\<lambda>_ _ _. True" "ss_put E'" "ss_take E'"
  for E E' :: env ..

interpretation to_floating: two_spaces ss_ids "ss_inv E" ss_active_id tile_id "\<lambda>_ _ _. True" "ss_put E'" "ss_take E'"
    fs_ids "fs_inv E" fs_active_window_id fs_fits "fs_put E" "fs_take E'"
  for E E' :: env ..

end
