(* ===== verification/LayoutOptions.thy ===== *)
theory LayoutOptions
  imports Tiles
begin

text \<open>
  The layout section of the configuration and its parts, \<^verbatim>\<open>sol-config/src/layout.rs\<close>: an output or a
  workspace overrides some of the settings, and the options in force are the configured ones, merged with
  the override, with the gaps rounded to the scale. Settings that only rendering or the scrolling engine of
  upstream read are left out, here as in \<open>layout_options\<close>.
\<close>

record layout_part =
  lp_border :: "border_rule option"
  lp_preset_column_widths :: "preset_size list option"
  lp_default_column_width :: "preset_size option option"
  lp_preset_window_heights :: "preset_size list option"
  lp_center_focused_column :: "center_focused_column option"
  lp_empty_workspace_above_first :: "bool option"
  lp_gaps :: "f64 option"
  lp_struts :: "struts option"
  lp_workspace_count :: "nat option"

definition default_presets :: "preset_size list" where
  "default_presets = [PresetProportion (1 / 3), PresetProportion 0.5, PresetProportion (2 / 3)]"

text \<open>\<open>merge!\<close> and \<open>merge_clone!\<close> for one field.\<close>

definition override :: "'a option \<Rightarrow> 'a \<Rightarrow> 'a" where
  "override part x = (case part of Some y \<Rightarrow> y | None \<Rightarrow> x)"

definition layout_merge_with :: "layout_part \<Rightarrow> layout_options \<Rightarrow> layout_options" where
  "layout_merge_with part l =
    (let l = l\<lparr>lo_border := (case lp_border part of Some r \<Rightarrow> border_merged_with (lo_border l) r | None \<Rightarrow> lo_border l),
           lo_empty_workspace_above_first := override (lp_empty_workspace_above_first part) (lo_empty_workspace_above_first l),
           lo_gaps := override (lp_gaps part) (lo_gaps l),
           lo_preset_column_widths := override (lp_preset_column_widths part) (lo_preset_column_widths l),
           lo_preset_window_heights := override (lp_preset_window_heights part) (lo_preset_window_heights l),
           lo_center_focused_column := override (lp_center_focused_column part) (lo_center_focused_column l),
           lo_struts := override (lp_struts part) (lo_struts l),
           lo_workspace_count := override (lp_workspace_count part) (lo_workspace_count l),
           lo_default_column_width := override (lp_default_column_width part) (lo_default_column_width l)\<rparr>;
         l = (if lo_preset_column_widths l = [] then l\<lparr>lo_preset_column_widths := default_presets\<rparr> else l)
     in if lo_preset_window_heights l = [] then l\<lparr>lo_preset_window_heights := default_presets\<rparr> else l)"

definition options_with_merged_layout :: "layout_part option \<Rightarrow> options \<Rightarrow> options" where
  "options_with_merged_layout part opts = (case part of
     None \<Rightarrow> opts | Some part \<Rightarrow> opts\<lparr>op_layout := layout_merge_with part (op_layout opts)\<rparr>)"

lemma presets_after_merge:
  "lo_preset_column_widths (layout_merge_with part l) \<noteq> []" "lo_preset_window_heights (layout_merge_with part l) \<noteq> []"
  by (simp_all add: layout_merge_with_def default_presets_def Let_def)

end
