(* ===== verification/Workspace.thy ===== *)
theory Workspace
  imports SpaceContracts LayoutOptions Outputs
begin

text \<open>
  A workspace, \<^verbatim>\<open>layout/workspace.rs\<close>: a tiling and a floating space, which of the two is active, the
  output it is on and the configuration, in the order of the file. A panic of one of the spaces, an
  \<open>unwrap\<close> of a missing window or output is \<open>None\<close>. What the workspace sends to the client when a window
  enters or leaves an output, its shadow and background, snapshots, rendering and hit testing are left out.
\<close>

section \<open>The state\<close>

datatype floating_active = FloatNo | FloatNoButRaised | FloatYes

definition fa_get :: "floating_active \<Rightarrow> bool" where
  "fa_get a \<longleftrightarrow> a = FloatYes"

text \<open>What is read of an output: its identity, its name, the two readings of its scale, the transform
  (only compared), the logical size and the area the layer-shell surfaces leave.\<close>

record out_scale = os_integer :: int  os_fractional :: f64

record wl_output =
  ou_id :: nat
  ou_name :: output_name
  ou_scale :: out_scale
  ou_transform :: nat
  ou_size :: size
  ou_area :: rect

definition output_id_matches :: "string \<Rightarrow> wl_output \<Rightarrow> bool" where
  "output_id_matches i o1 \<longleftrightarrow> output_matches (ou_name o1) i"

definition output_id_new :: "wl_output \<Rightarrow> string" where
  "output_id_new o1 = format_make_model_serial_or_connector (ou_name o1)"

record workspace_config =
  wc_name :: string
  wc_open_on_output :: "string option"
  wc_layout :: "layout_part option"

record workspace =
  ws_scrolling :: scrolling_space
  ws_floating :: floating_space
  ws_floating_is_active :: floating_active
  ws_original_output :: string
  ws_output :: "nat option"
  ws_scale :: out_scale
  ws_transform :: nat
  ws_view_size :: size
  ws_working_area :: rect
  ws_base_options :: options
  ws_options :: options
  ws_name :: "string option"
  ws_layout_config :: "layout_part option"
  ws_id :: nat

definition ws_compute_options :: "options \<Rightarrow> layout_part option \<Rightarrow> f64 \<Rightarrow> options" where
  "ws_compute_options base part scale = options_adjusted_for_scale scale (options_with_merged_layout part base)"

text \<open>The next identifier is given.\<close>

definition ws_build :: "env \<Rightarrow> nat \<Rightarrow> workspace_config option \<Rightarrow> options \<Rightarrow> string \<Rightarrow> nat option \<Rightarrow> out_scale \<Rightarrow>
    nat \<Rightarrow> size \<Rightarrow> rect \<Rightarrow> workspace" where
  "ws_build E i config base original out scale transform view_size area =
    (let part = Option.bind config wc_layout;
         opts = ws_compute_options base part (os_fractional scale)
     in \<lparr>ws_scrolling = ss_new E view_size area (os_fractional scale) opts,
         ws_floating = fs_new view_size area (os_fractional scale) opts,
         ws_floating_is_active = FloatNo, ws_original_output = original, ws_output = out,
         ws_scale = scale, ws_transform = transform, ws_view_size = view_size, ws_working_area = area,
         ws_base_options = base, ws_options = opts, ws_name = map_option wc_name config,
         ws_layout_config = part, ws_id = i\<rparr>)"

definition ws_new_with_config :: "env \<Rightarrow> nat \<Rightarrow> wl_output \<Rightarrow> workspace_config option \<Rightarrow> options \<Rightarrow> workspace" where
  "ws_new_with_config E i o1 config base =
     ws_build E i config base
       (case Option.bind config wc_open_on_output of Some s \<Rightarrow> s | None \<Rightarrow> output_id_new o1)
       (Some (ou_id o1)) (ou_scale o1) (ou_transform o1) (ou_size o1) (ou_area o1)"

definition ws_new :: "env \<Rightarrow> nat \<Rightarrow> wl_output \<Rightarrow> options \<Rightarrow> workspace" where
  "ws_new E i o1 base = ws_new_with_config E i o1 None base"

definition ws_new_with_config_no_outputs :: "env \<Rightarrow> nat \<Rightarrow> workspace_config option \<Rightarrow> options \<Rightarrow> workspace" where
  "ws_new_with_config_no_outputs E i config base =
     ws_build E i config base
       (case Option.bind config wc_open_on_output of Some s \<Rightarrow> s | None \<Rightarrow> []) None
       \<lparr>os_integer = 1, os_fractional = 1\<rparr> 0 (mk_size 1280 720) \<lparr>rloc = mk_point 0 0, rsize = mk_size 1280 720\<rparr>"

definition ws_new_no_outputs :: "env \<Rightarrow> nat \<Rightarrow> options \<Rightarrow> workspace" where
  "ws_new_no_outputs E i base = ws_new_with_config_no_outputs E i None base"

definition ws_unname :: "workspace \<Rightarrow> workspace" where
  "ws_unname w = w\<lparr>ws_name := None\<rparr>"

definition ws_tiles :: "workspace \<Rightarrow> tile list" where
  "ws_tiles w = ss_tiles (ws_scrolling w) @ fs_tiles (ws_floating w)"

definition ws_windows :: "workspace \<Rightarrow> mapped list" where
  "ws_windows w = map tl_window (ws_tiles w)"

definition ws_has_windows :: "workspace \<Rightarrow> bool" where
  "ws_has_windows w \<longleftrightarrow> ws_windows w \<noteq> []"

definition ws_has_windows_or_name :: "workspace \<Rightarrow> bool" where
  "ws_has_windows_or_name w \<longleftrightarrow> ws_has_windows w \<or> ws_name w \<noteq> None"

definition ws_has_window :: "nat \<Rightarrow> workspace \<Rightarrow> bool" where
  "ws_has_window i w \<longleftrightarrow> list_ex (\<lambda>x. mw_id x = i) (ws_windows w)"

definition ws_is_floating :: "nat \<Rightarrow> workspace \<Rightarrow> bool" where
  "ws_is_floating i w \<longleftrightarrow> fs_has_window i (ws_floating w)"

definition ws_active_window :: "workspace \<Rightarrow> mapped option" where
  "ws_active_window w =
    (if fa_get (ws_floating_is_active w) then fs_active_window (ws_floating w) else ss_active_window (ws_scrolling w))"

definition ws_is_active_pending_fullscreen :: "workspace \<Rightarrow> bool" where
  "ws_is_active_pending_fullscreen w \<longleftrightarrow> ss_is_active_pending_fullscreen (ws_scrolling w)"

definition ws_find_wl_surface :: "nat \<Rightarrow> workspace \<Rightarrow> mapped option" where
  "ws_find_wl_surface surface w = find (\<lambda>x. tp_surface (mw_toplevel x) = surface) (ws_windows w)"

definition ws_is_urgent :: "workspace \<Rightarrow> bool" where
  "ws_is_urgent w \<longleftrightarrow> list_ex mw_is_urgent (ws_windows w)"

section \<open>Passing on\<close>

definition on_ss :: "(scrolling_space \<Rightarrow> scrolling_space) \<Rightarrow> workspace \<Rightarrow> workspace" where
  "on_ss f w = w\<lparr>ws_scrolling := f (ws_scrolling w)\<rparr>"

definition on_fs :: "(floating_space \<Rightarrow> floating_space) \<Rightarrow> workspace \<Rightarrow> workspace" where
  "on_fs f w = w\<lparr>ws_floating := f (ws_floating w)\<rparr>"

definition try_ss :: "(scrolling_space \<Rightarrow> scrolling_space option) \<Rightarrow> workspace \<Rightarrow> workspace option" where
  "try_ss f w = map_option (\<lambda>s. w\<lparr>ws_scrolling := s\<rparr>) (f (ws_scrolling w))"

definition try_fs :: "(floating_space \<Rightarrow> floating_space option) \<Rightarrow> workspace \<Rightarrow> workspace option" where
  "try_fs f w = map_option (\<lambda>s. w\<lparr>ws_floating := s\<rparr>) (f (ws_floating w))"

definition ask_ss :: "(scrolling_space \<Rightarrow> (scrolling_space \<times> 'r) option) \<Rightarrow> workspace \<Rightarrow> (workspace \<times> 'r) option" where
  "ask_ss f w = map_option (\<lambda>(s, r). (w\<lparr>ws_scrolling := s\<rparr>, r)) (f (ws_scrolling w))"

definition ask_fs :: "(floating_space \<Rightarrow> (floating_space \<times> 'r) option) \<Rightarrow> workspace \<Rightarrow> (workspace \<times> 'r) option" where
  "ask_fs f w = map_option (\<lambda>(s, r). (w\<lparr>ws_floating := s\<rparr>, r)) (f (ws_floating w))"

section \<open>Configuration and output\<close>

definition ws_advance_animations :: "env \<Rightarrow> workspace \<Rightarrow> workspace" where
  "ws_advance_animations E w = on_fs (fs_advance_animations E) (on_ss (ss_advance_animations E) w)"

definition ws_are_animations_ongoing :: "env \<Rightarrow> workspace \<Rightarrow> bool" where
  "ws_are_animations_ongoing E w \<longleftrightarrow>
     list_ex (tile_are_animations_ongoing E) (ss_tiles (ws_scrolling w)) \<or> fs_are_animations_ongoing E (ws_floating w)"

definition ws_update_config :: "env \<Rightarrow> options \<Rightarrow> workspace \<Rightarrow> workspace" where
  "ws_update_config E base w =
    (let scale = os_fractional (ws_scale w);
         opts = ws_compute_options base (ws_layout_config w) scale
     in w\<lparr>ws_scrolling := ss_update_config E (ws_view_size w) (ws_working_area w) scale opts (ws_scrolling w),
          ws_floating := fs_update_config E (ws_view_size w) (ws_working_area w) scale opts (ws_floating w),
          ws_base_options := base, ws_options := opts\<rparr>)"

definition ws_update_layout_config :: "env \<Rightarrow> layout_part option \<Rightarrow> workspace \<Rightarrow> workspace" where
  "ws_update_layout_config E part w =
    (if ws_layout_config w = part then w
     else let w = w\<lparr>ws_layout_config := part\<rparr> in ws_update_config E (ws_base_options w) w)"

definition ws_set_view_size :: "env \<Rightarrow> out_scale \<Rightarrow> nat \<Rightarrow> size \<Rightarrow> rect \<Rightarrow> workspace \<Rightarrow> workspace" where
  "ws_set_view_size E scale transform sz area w =
    (let scale_transform_changed = (ws_transform w \<noteq> transform \<or>
           os_integer (ws_scale w) \<noteq> os_integer scale \<or> os_fractional (ws_scale w) \<noteq> os_fractional scale)
     in if \<not> scale_transform_changed \<and> ws_view_size w = sz \<and> ws_working_area w = area then w
        else
          let fractional_scale_changed = (os_fractional (ws_scale w) \<noteq> os_fractional scale);
              w = w\<lparr>ws_scale := scale, ws_transform := transform, ws_view_size := sz, ws_working_area := area\<rparr>
          in if fractional_scale_changed then ws_update_config E (ws_base_options w) w
             else w\<lparr>ws_scrolling := ss_update_config E sz area (os_fractional scale) (ws_options w) (ws_scrolling w),
                    ws_floating := fs_update_config E sz area (os_fractional scale) (ws_options w) (ws_floating w)\<rparr>)"

text \<open>The current readings of the output are given.\<close>

definition ws_update_output_size :: "env \<Rightarrow> wl_output \<Rightarrow> workspace \<Rightarrow> workspace option" where
  "ws_update_output_size E o1 w =
    (case ws_output w of
       None \<Rightarrow> None
     | Some _ \<Rightarrow> Some (ws_set_view_size E (ou_scale o1) (ou_transform o1) (ou_size o1) (ou_area o1) w))"

definition ws_set_output :: "env \<Rightarrow> wl_output option \<Rightarrow> workspace \<Rightarrow> workspace option" where
  "ws_set_output E out w =
    (if ws_output w = map_option ou_id out then Some w
     else
       let w = w\<lparr>ws_output := map_option ou_id out\<rparr>
       in case out of
            None \<Rightarrow> Some w
          | Some o1 \<Rightarrow>
              let w = (if output_id_matches (ws_original_output w) o1
                       then w\<lparr>ws_original_output := output_id_new o1\<rparr> else w)
              in ws_update_output_size E o1 w)"

section \<open>Adding and removing\<close>

datatype activate_window = ActYes | ActSmart | ActNo

fun map_smart :: "bool \<Rightarrow> activate_window \<Rightarrow> bool" where
  "map_smart b ActYes = True"
| "map_smart b ActSmart = b"
| "map_smart b ActNo = False"

datatype add_target = AddAuto | AddNewColumnAt nat | AddNextTo nat

definition ws_make_tile :: "mapped \<Rightarrow> workspace \<Rightarrow> tile" where
  "ws_make_tile win w = tile_new win (ws_view_size w) (os_fractional (ws_scale w)) (ws_options w)"

definition ws_tiles_with_render_positions :: "env \<Rightarrow> bool \<Rightarrow> workspace \<Rightarrow> (tile \<times> point) list" where
  "ws_tiles_with_render_positions E rnd w =
     fs_tiles_with_render_positions E rnd (ws_floating w) @
     map (\<lambda>(t, p, _). (t, p)) (tiles_with_render_positions (ws_scrolling w))"

text \<open>\<open>if activate { self.floating_is_active = ... }\<close>.\<close>

definition ws_activated :: "bool \<Rightarrow> floating_active \<Rightarrow> workspace \<Rightarrow> workspace" where
  "ws_activated b fa w = (if b then w\<lparr>ws_floating_is_active := fa\<rparr> else w)"

definition ws_add_scrolling :: "env \<Rightarrow> tile \<Rightarrow> bool \<Rightarrow> column_width \<Rightarrow> bool \<Rightarrow> workspace \<Rightarrow> workspace" where
  "ws_add_scrolling E t activate width full w =
     ws_activated activate FloatNo (on_ss (ss_add_tile E t activate width full) w)"

definition ws_add_floating :: "env \<Rightarrow> nat option \<Rightarrow> tile \<Rightarrow> bool \<Rightarrow> workspace \<Rightarrow> workspace option" where
  "ws_add_floating E next_to t activate w = do {
     w \<leftarrow> try_fs (fs_put E next_to t activate) w;
     Some (ws_activated (activate \<or> ss_is_empty (ws_scrolling w)) FloatYes w) }"

text \<open>The stored position of a dialog that is opened over a tiled window.\<close>

definition ws_dialog_pos :: "env \<Rightarrow> nat \<Rightarrow> tile \<Rightarrow> workspace \<Rightarrow> point option" where
  "ws_dialog_pos E next_to t w = do {
     (nt, render_pos, _) \<leftarrow> find (\<lambda>(u, _, _). tile_id u = next_to) (tiles_with_render_positions (ws_scrolling w));
     let sz = tile_size E t;
     let p = pt_add render_pos (mk_point ((sz_w (tile_size E nt) - sz_w sz) / 2) ((sz_h (tile_size E nt) - sz_h sz) / 2));
     let p = fs_clamp_within_working_area p sz (ws_floating w);
     Some (logical_to_size_frac (fs_working_area (ws_floating w)) p) }"

definition ws_add_tile ::
  "env \<Rightarrow> tile \<Rightarrow> add_target \<Rightarrow> activate_window \<Rightarrow> column_width \<Rightarrow> bool \<Rightarrow> bool \<Rightarrow> workspace \<Rightarrow> workspace option" where
  "ws_add_tile E t target activate width full is_floating w =
    (let t = t\<lparr>tl_restore_to_floating := is_floating\<rparr>;
         floats = (is_floating \<and> win_pending_sizing_mode (tl_window t) = Normal)
     in case target of
          AddAuto \<Rightarrow>
            let activate = map_smart (\<not> ws_is_active_pending_fullscreen w) activate
            in if floats then ws_add_floating E None t activate w
               else Some (ws_add_scrolling E t activate width full w)
        | AddNewColumnAt _ \<Rightarrow>
            Some (ws_add_scrolling E t (map_smart False activate) width full w)
        | AddNextTo next_to \<Rightarrow> do {
            activate \<leftarrow> (if activate = ActSmart then map_option (\<lambda>x. mw_id x = next_to) (ws_active_window w)
                        else Some (map_smart False activate));
            let floating_has_window = fs_has_window next_to (ws_floating w);
            if floats then
              (if floating_has_window then ws_add_floating E (Some next_to) t activate w
               else do {
                 p \<leftarrow> ws_dialog_pos E next_to t w;
                 ws_add_floating E None (t\<lparr>tl_floating_pos := Some p\<rparr>) activate w })
            else Some (ws_add_scrolling E t activate width full w) })"

definition ws_add_tile_to_column :: "env \<Rightarrow> tile \<Rightarrow> bool \<Rightarrow> workspace \<Rightarrow> workspace" where
  "ws_add_tile_to_column E t activate w =
     ws_activated activate FloatNo (on_ss (ss_add_tile_to_column E t activate) w)"

definition ws_add_column :: "env \<Rightarrow> column \<Rightarrow> bool \<Rightarrow> workspace \<Rightarrow> workspace" where
  "ws_add_column E c activate w = ws_activated activate FloatNo (on_ss (add_column E c activate) w)"

definition ws_update_focus_after_removing :: "bool \<Rightarrow> workspace \<Rightarrow> workspace" where
  "ws_update_focus_after_removing removed_from_floating w =
    (if removed_from_floating
     then (if fs_is_empty (ws_floating w) then w\<lparr>ws_floating_is_active := FloatNo\<rparr> else w)
     else (if ss_is_empty (ws_scrolling w) \<and> \<not> fs_is_empty (ws_floating w)
           then w\<lparr>ws_floating_is_active := FloatYes\<rparr> else w))"

definition ws_remove_tile :: "env \<Rightarrow> nat \<Rightarrow> workspace \<Rightarrow> (removed_tile \<times> workspace) option" where
  "ws_remove_tile E i w =
    (let from_floating = fs_has_window i (ws_floating w)
     in do {
       (rt, w) \<leftarrow> (if from_floating
          then map_option (\<lambda>(rt, s). (rt, w\<lparr>ws_floating := s\<rparr>)) (fs_remove_tile E i (ws_floating w))
          else map_option (\<lambda>(rt, s). (rt, w\<lparr>ws_scrolling := s\<rparr>)) (ss_remove_tile E i (ws_scrolling w)));
       Some (rt, ws_update_focus_after_removing from_floating w) })"

text \<open>The outer option is the panic, the inner one the result.\<close>

definition ws_remove_active_tile :: "env \<Rightarrow> workspace \<Rightarrow> (removed_tile option \<times> workspace) option" where
  "ws_remove_active_tile E w =
    (let from_floating = fa_get (ws_floating_is_active w)
     in do {
       (rt, w) \<leftarrow> (if from_floating
          then map_option (\<lambda>(rt, s). (rt, w\<lparr>ws_floating := s\<rparr>)) (fs_remove_active_tile E (ws_floating w))
          else map_option (\<lambda>(rt, s). (rt, w\<lparr>ws_scrolling := s\<rparr>)) (ss_remove_active_tile E (ws_scrolling w)));
       case rt of
         None \<Rightarrow> Some (None, w)
       | Some rt \<Rightarrow> Some (Some rt, ws_update_focus_after_removing from_floating w) })"

definition ws_remove_active_column :: "env \<Rightarrow> workspace \<Rightarrow> (column option \<times> workspace) option" where
  "ws_remove_active_column E w =
    (if fa_get (ws_floating_is_active w) then Some (None, w)
     else do {
       (c, s) \<leftarrow> ss_remove_active_column E (ws_scrolling w);
       let w = w\<lparr>ws_scrolling := s\<rparr>;
       case c of
         None \<Rightarrow> Some (None, w)
       | Some c \<Rightarrow> Some (Some c, ws_update_focus_after_removing False w) })"

section \<open>New windows\<close>

definition ws_resolve_default_width :: "preset_size option option \<Rightarrow> bool \<Rightarrow> workspace \<Rightarrow> preset_size option" where
  "ws_resolve_default_width default_width is_floating w = (case default_width of
     Some width \<Rightarrow> width
   | None \<Rightarrow> if is_floating then None else lo_default_column_width (op_layout (ws_options w)))"

definition ws_resolve_default_height :: "preset_size option option \<Rightarrow> preset_size option" where
  "ws_resolve_default_height default_height = (case default_height of Some height \<Rightarrow> height | None \<Rightarrow> None)"

definition ws_new_window_size ::
  "env \<Rightarrow> preset_size option \<Rightarrow> preset_size option \<Rightarrow> bool \<Rightarrow> window_rules \<Rightarrow> isize \<Rightarrow> isize \<Rightarrow> workspace \<Rightarrow> isize" where
  "ws_new_window_size E width height is_floating rules mn mx w =
    (let sz = (if is_floating then fs_new_window_size E width height rules (ws_floating w)
               else new_window_size E (ws_scrolling w));
         mn = apply_min_size rules mn;
         mx = apply_max_size rules mx;
         sz = sz\<lparr>isz_w := ensure_min_max_size_maybe_zero (isz_w sz) (isz_w mn) (isz_w mx)\<rparr>
     in if isz_h mn = isz_h mx then sz\<lparr>isz_h := ensure_min_max_size (isz_h sz) (isz_h mn) (isz_h mx)\<rparr>
        else if 0 < isz_h sz then sz\<lparr>isz_h := max (isz_h sz) (isz_h mn)\<rparr>
        else sz)"

text \<open>The initial configure of a window that is not mapped yet.\<close>

definition ws_configure_new_window ::
  "env \<Rightarrow> preset_size option \<Rightarrow> preset_size option \<Rightarrow> bool \<Rightarrow> window_rules \<Rightarrow> workspace \<Rightarrow> toplevel \<Rightarrow> toplevel" where
  "ws_configure_new_window E width height is_floating rules w tp =
     with_pending_state (\<lambda>st.
       (let st = (if ts_fullscreen st then st\<lparr>ts_size := Some (size_to_i32_round E (ws_view_size w))\<rparr>
                  else if ts_maximized st then st\<lparr>ts_size := Some (size_to_i32_round E (rsize (ws_working_area w)))\<rparr>
                  else st\<lparr>ts_size := Some (ws_new_window_size E width height is_floating rules
                         (tp_min_size tp) (tp_max_size tp) w)\<rparr>)
        in st\<lparr>ts_bounds := Some (if is_floating then fs_new_window_toplevel_bounds E rules (ws_floating w)
                                else new_window_toplevel_bounds E (ws_scrolling w))\<rparr>)) tp"

definition ws_resolve_scrolling_width :: "mapped \<Rightarrow> preset_size option \<Rightarrow> workspace \<Rightarrow> column_width" where
  "ws_resolve_scrolling_width win width w =
    (case (case width of Some p \<Rightarrow> p | None \<Rightarrow> PresetFixed (isz_w (win_size win))) of
       PresetFixed fixed \<Rightarrow>
         (let border = border_merged_with (lo_border (op_layout (ws_options w))) (wr_border (mw_rules win))
          in Fixed (if bc_off border then of_int fixed else of_int fixed + bc_width border * 2))
     | PresetProportion prop \<Rightarrow> Proportion prop)"

section \<open>Focus\<close>

definition ws_focus_by ::
  "(floating_space \<Rightarrow> (floating_space \<times> bool) option) \<Rightarrow> (scrolling_space \<Rightarrow> scrolling_space \<times> bool) \<Rightarrow>
     workspace \<Rightarrow> (workspace \<times> bool) option" where
  "ws_focus_by f g w = (if fa_get (ws_floating_is_active w) then ask_fs f w else ask_ss (Some \<circ> g) w)"

definition ws_focus_to ::
  "(floating_space \<Rightarrow> floating_space option) \<Rightarrow> (scrolling_space \<Rightarrow> scrolling_space) \<Rightarrow> workspace \<Rightarrow> workspace option" where
  "ws_focus_to f g w = (if fa_get (ws_floating_is_active w) then try_fs f w else Some (on_ss g w))"

definition ws_focus_left where "ws_focus_left = ws_focus_by fs_focus_left focus_left"
definition ws_focus_right where "ws_focus_right = ws_focus_by fs_focus_right focus_right"
definition ws_focus_down where "ws_focus_down = ws_focus_by fs_focus_down focus_down"
definition ws_focus_up where "ws_focus_up = ws_focus_by fs_focus_up focus_up"
definition ws_focus_column_first where "ws_focus_column_first = ws_focus_to fs_focus_leftmost focus_column_first"
definition ws_focus_column_last where "ws_focus_column_last = ws_focus_to fs_focus_rightmost focus_column_last"
definition ws_focus_window_top where "ws_focus_window_top = ws_focus_to fs_focus_topmost focus_top"
definition ws_focus_window_bottom where "ws_focus_window_bottom = ws_focus_to fs_focus_bottommost focus_bottom"
definition ws_focus_down_or_left where
  "ws_focus_down_or_left = ws_focus_to (map_option fst \<circ> fs_focus_down) focus_down_or_left"
definition ws_focus_down_or_right where
  "ws_focus_down_or_right = ws_focus_to (map_option fst \<circ> fs_focus_down) focus_down_or_right"
definition ws_focus_up_or_left where
  "ws_focus_up_or_left = ws_focus_to (map_option fst \<circ> fs_focus_up) focus_up_or_left"
definition ws_focus_up_or_right where
  "ws_focus_up_or_right = ws_focus_to (map_option fst \<circ> fs_focus_up) focus_up_or_right"

text \<open>\<open>if !self.f() { self.g() }\<close>.\<close>

definition ws_or ::
  "(workspace \<Rightarrow> (workspace \<times> bool) option) \<Rightarrow> (workspace \<Rightarrow> workspace option) \<Rightarrow> workspace \<Rightarrow> workspace option" where
  "ws_or f g w = do { (w, ok) \<leftarrow> f w; if ok then Some w else g w }"

definition ws_focus_column_right_or_first where
  "ws_focus_column_right_or_first = ws_or ws_focus_right ws_focus_column_first"
definition ws_focus_column_left_or_last where
  "ws_focus_column_left_or_last = ws_or ws_focus_left ws_focus_column_last"
definition ws_focus_window_down_or_top where
  "ws_focus_window_down_or_top = ws_or ws_focus_down ws_focus_window_top"
definition ws_focus_window_up_or_bottom where
  "ws_focus_window_up_or_bottom = ws_or ws_focus_up ws_focus_window_bottom"

definition ws_switch_focus_floating_tiling :: "workspace \<Rightarrow> workspace" where
  "ws_switch_focus_floating_tiling w =
    (if fs_is_empty (ws_floating w) then w
     else if ss_is_empty (ws_scrolling w) then w
     else w\<lparr>ws_floating_is_active := (if fa_get (ws_floating_is_active w) then FloatNo else FloatYes)\<rparr>)"

definition ws_focus_floating :: "workspace \<Rightarrow> workspace" where
  "ws_focus_floating w = (if \<not> fa_get (ws_floating_is_active w) then ws_switch_focus_floating_tiling w else w)"

definition ws_focus_tiling :: "workspace \<Rightarrow> workspace" where
  "ws_focus_tiling w = (if fa_get (ws_floating_is_active w) then ws_switch_focus_floating_tiling w else w)"

definition ws_focus_column :: "nat \<Rightarrow> workspace \<Rightarrow> workspace" where
  "ws_focus_column index w =
    (let w = (if fa_get (ws_floating_is_active w) then ws_focus_tiling w else w)
     in on_ss (focus_column index) w)"

definition ws_activate_window :: "nat \<Rightarrow> workspace \<Rightarrow> (workspace \<times> bool) option" where
  "ws_activate_window i w = do {
     (w, ok) \<leftarrow> ask_fs (fs_activate_window i) w;
     if ok then Some (w\<lparr>ws_floating_is_active := FloatYes\<rparr>, True)
     else do {
       (w, ok) \<leftarrow> ask_ss (Some \<circ> ss_activate_window i) w;
       if ok then Some (w\<lparr>ws_floating_is_active := FloatNo\<rparr>, True) else Some (w, False) } }"

definition ws_activate_window_without_raising :: "nat \<Rightarrow> workspace \<Rightarrow> (workspace \<times> bool) option" where
  "ws_activate_window_without_raising i w = do {
     (w, ok) \<leftarrow> ask_fs (Some \<circ> fs_activate_window_without_raising i) w;
     if ok then Some (w\<lparr>ws_floating_is_active := FloatYes\<rparr>, True)
     else do {
       (w, ok) \<leftarrow> ask_ss (Some \<circ> ss_activate_window i) w;
       if ok then Some (w\<lparr>ws_floating_is_active := (case ws_floating_is_active w of
            FloatNo \<Rightarrow> FloatNo | FloatNoButRaised \<Rightarrow> FloatNoButRaised | FloatYes \<Rightarrow> FloatNoButRaised)\<rparr>, True)
       else Some (w, False) } }"

section \<open>Movement\<close>

definition ws_move_by ::
  "(floating_space \<Rightarrow> floating_space option) \<Rightarrow> (scrolling_space \<Rightarrow> (scrolling_space \<times> bool) option) \<Rightarrow>
     workspace \<Rightarrow> (workspace \<times> bool) option" where
  "ws_move_by f g w =
    (if fa_get (ws_floating_is_active w) then map_option (\<lambda>w. (w, True)) (try_fs f w) else ask_ss g w)"

definition ws_move_left where "ws_move_left E = ws_move_by (fs_move_left E) (move_left E)"
definition ws_move_right where "ws_move_right E = ws_move_by (fs_move_right E) (move_right E)"
definition ws_move_down where "ws_move_down E = ws_move_by (fs_move_down E) move_down"
definition ws_move_up where "ws_move_up E = ws_move_by (fs_move_up E) move_up"
definition ws_move_left_animated where "ws_move_left_animated E = ws_move_by (fs_move_left E) (move_left_animated E)"
definition ws_move_right_animated where "ws_move_right_animated E = ws_move_by (fs_move_right E) (move_right_animated E)"
definition ws_move_down_animated where "ws_move_down_animated E = ws_move_by (fs_move_down E) (move_down_animated E)"
definition ws_move_up_animated where "ws_move_up_animated E = ws_move_by (fs_move_up E) (move_up_animated E)"

text \<open>Commands for the tiling space only.\<close>

definition ws_tiling_only :: "(scrolling_space \<Rightarrow> scrolling_space option) \<Rightarrow> workspace \<Rightarrow> workspace option" where
  "ws_tiling_only f w = (if fa_get (ws_floating_is_active w) then Some w else try_ss f w)"

definition ws_move_column_to_first where "ws_move_column_to_first E = ws_tiling_only (move_column_to_first E)"
definition ws_move_column_to_last where "ws_move_column_to_last = ws_tiling_only move_column_to_last"
definition ws_swap_window_in_direction where
  "ws_swap_window_in_direction E d = ws_tiling_only (swap_window_in_direction E d)"
definition ws_consume_into_column where "ws_consume_into_column = ws_tiling_only consume_into_column"
definition ws_expel_from_column where "ws_expel_from_column = ws_tiling_only expel_from_column"

definition ws_nudge_master_ratio :: "env \<Rightarrow> f64 \<Rightarrow> workspace \<Rightarrow> workspace option" where
  "ws_nudge_master_ratio E delta = try_ss (nudge_master_ratio E delta)"

text \<open>\<open>window.map_or(self.floating_is_active.get(), |id| self.floating.has_window(id))\<close>.\<close>

definition targets_floating :: "nat option \<Rightarrow> workspace \<Rightarrow> bool" where
  "targets_floating window w = (case window of
     None \<Rightarrow> fa_get (ws_floating_is_active w) | Some i \<Rightarrow> fs_has_window i (ws_floating w))"

definition ws_consume_or_expel_window_left :: "nat option \<Rightarrow> workspace \<Rightarrow> workspace option" where
  "ws_consume_or_expel_window_left window w =
    (if targets_floating window w then Some w else try_ss consume_or_expel_window_left w)"

definition ws_consume_or_expel_window_right :: "nat option \<Rightarrow> workspace \<Rightarrow> workspace option" where
  "ws_consume_or_expel_window_right window w =
    (if targets_floating window w then Some w else try_ss consume_or_expel_window_right w)"

text \<open>Commands that do nothing to a tiled window.\<close>

definition ws_floating_only ::
  "(nat option \<Rightarrow> floating_space \<Rightarrow> floating_space option) \<Rightarrow> nat option \<Rightarrow> workspace \<Rightarrow> workspace option" where
  "ws_floating_only f window w = (if targets_floating window w then try_fs (f window) w else Some w)"

definition ws_center_column where "ws_center_column E = ws_floating_only (fs_center_window E) None"
definition ws_center_window where "ws_center_window E = ws_floating_only (fs_center_window E)"
definition ws_toggle_width where
  "ws_toggle_width E forwards = ws_floating_only (\<lambda>i. fs_toggle_window_width E i forwards) None"
definition ws_set_column_width where
  "ws_set_column_width E change = ws_floating_only (\<lambda>i. fs_set_window_width E i change True) None"
definition ws_set_window_width where
  "ws_set_window_width E window change = ws_floating_only (\<lambda>i. fs_set_window_width E i change True) window"
definition ws_set_window_height where
  "ws_set_window_height E window change = ws_floating_only (\<lambda>i. fs_set_window_height E i change True) window"
definition ws_toggle_window_width where
  "ws_toggle_window_width E window forwards = ws_floating_only (\<lambda>i. fs_toggle_window_width E i forwards) window"
definition ws_toggle_window_height where
  "ws_toggle_window_height E window forwards = ws_floating_only (\<lambda>i. fs_toggle_window_height E i forwards) window"

section \<open>Between tiling and floating\<close>

text \<open>\<open>tiles_mut().find(...).unwrap()\<close> followed by a change of the tile.\<close>

definition ss_update_tile :: "nat \<Rightarrow> (tile \<Rightarrow> tile option) \<Rightarrow> scrolling_space \<Rightarrow> scrolling_space option" where
  "ss_update_tile i f s = (if list_ex (\<lambda>t. tile_id t = i) (ss_tiles s) then update_column_by_id i f s else None)"

definition ws_update_tile :: "nat \<Rightarrow> (tile \<Rightarrow> tile option) \<Rightarrow> workspace \<Rightarrow> workspace option" where
  "ws_update_tile i f w =
    (case fs_idx_of i (ws_floating w) of
       Some k \<Rightarrow> do {
         t \<leftarrow> f (fs_tiles (ws_floating w) ! k);
         Some (on_fs (\<lambda>s. s\<lparr>fs_tiles := (fs_tiles s)[k := t]\<rparr>) w) }
     | None \<Rightarrow> try_ss (ss_update_tile i f) w)"

definition ws_pos_of :: "env \<Rightarrow> bool \<Rightarrow> nat \<Rightarrow> workspace \<Rightarrow> point option" where
  "ws_pos_of E rnd i w =
     map_option snd (find (\<lambda>(t, _). tile_id t = i) (ws_tiles_with_render_positions E rnd w))"

definition ws_float_to_tile :: "env \<Rightarrow> nat \<Rightarrow> bool \<Rightarrow> workspace \<Rightarrow> workspace option" where
  "ws_float_to_tile E i target_is_active w = do {
     (rt, fs) \<leftarrow> fs_remove_tile E i (ws_floating w);
     Some (ws_add_scrolling E (rt_tile rt) target_is_active (rt_width rt) (rt_is_full_width rt) (w\<lparr>ws_floating := fs\<rparr>)) }"

text \<open>The tile with the position it floats at: the stored or default one, or one near the place it had.\<close>

definition ws_with_floating_pos :: "env \<Rightarrow> point \<Rightarrow> tile \<Rightarrow> workspace \<Rightarrow> tile" where
  "ws_with_floating_pos E render_pos t w =
    (case fs_stored_or_default_tile_pos E t (ws_floating w) of
       Some _ \<Rightarrow> t
     | None \<Rightarrow>
         let offset = (if lo_center_focused_column (op_layout (ws_options w)) = CenterAlways
                       then mk_point 0 0 else mk_point 50 50);
             p = fs_clamp_within_working_area (pt_add render_pos offset) (tile_size E t) (ws_floating w)
         in t\<lparr>tl_floating_pos := Some (logical_to_size_frac (fs_working_area (ws_floating w)) p)\<rparr>)"

definition ws_tile_to_float :: "env \<Rightarrow> nat \<Rightarrow> bool \<Rightarrow> point \<Rightarrow> workspace \<Rightarrow> workspace option" where
  "ws_tile_to_float E i target_is_active render_pos w = do {
     (rt, ss) \<leftarrow> ss_remove_tile E i (ws_scrolling w);
     let t = ws_with_floating_pos E render_pos (stop_move_animations (rt_tile rt)) w;
     w \<leftarrow> try_fs (fs_add_tile E t target_is_active) (w\<lparr>ws_scrolling := ss\<rparr>);
     Some (ws_activated target_is_active FloatYes w) }"

definition ws_toggle_window_floating :: "env \<Rightarrow> nat option \<Rightarrow> workspace \<Rightarrow> workspace option" where
  "ws_toggle_window_floating E window w =
    (let active_id = map_option mw_id (ws_active_window w);
         target_is_active = (window = None \<or> window = active_id)
     in case (case window of Some i \<Rightarrow> Some i | None \<Rightarrow> active_id) of
          None \<Rightarrow> Some w
        | Some i \<Rightarrow> do {
            render_pos \<leftarrow> ws_pos_of E True i w;
            w \<leftarrow> (if fs_has_window i (ws_floating w) then ws_float_to_tile E i target_is_active w
                 else ws_tile_to_float E i target_is_active render_pos w);
            new_render_pos \<leftarrow> ws_pos_of E False i w;
            ws_update_tile i (animate_move_from E (pt_sub render_pos new_render_pos)) w })"

definition ws_set_window_floating :: "env \<Rightarrow> nat option \<Rightarrow> bool \<Rightarrow> workspace \<Rightarrow> workspace option" where
  "ws_set_window_floating E window floating w =
    (if targets_floating window w = floating then Some w else ws_toggle_window_floating E window w)"

text \<open>The end of \<open>set_fullscreen\<close> and \<open>set_maximized\<close>, on a tiled window.\<close>

definition ws_set_takeover ::
  "(scrolling_space \<Rightarrow> scrolling_space option) \<Rightarrow> nat \<Rightarrow> bool \<Rightarrow> workspace \<Rightarrow> workspace option" where
  "ws_set_takeover f i restore w = do {
     t \<leftarrow> find (\<lambda>t. tile_id t = i) (ss_tiles (ws_scrolling w));
     let was_normal = (win_pending_sizing_mode (tl_window t) = Normal);
     w \<leftarrow> try_ss f w;
     try_ss (ss_update_tile i (\<lambda>t. Some (
         if was_normal \<and> win_pending_sizing_mode (tl_window t) \<noteq> Normal
         then t\<lparr>tl_restore_to_floating := restore\<rparr> else t))) w }"

definition ws_set_fullscreen :: "env \<Rightarrow> nat \<Rightarrow> bool \<Rightarrow> workspace \<Rightarrow> workspace option" where
  "ws_set_fullscreen E i is_fullscreen w =
    (let set = ws_set_takeover (\<lambda>s. map_option fst (ss_set_fullscreen E i is_fullscreen s)) i
     in if fs_has_window i (ws_floating w)
        then (if is_fullscreen then do { w \<leftarrow> ws_toggle_window_floating E (Some i) w; set True w } else Some w)
        else if \<not> is_fullscreen then do {
          c \<leftarrow> find (\<lambda>c. column_id c = i) (columns (ws_scrolling w));
          if co_is_pending_fullscreen c \<and> \<not> co_is_pending_maximized c \<and> tl_restore_to_floating (co_tile c)
          then ws_toggle_window_floating E (Some i) w else set False w }
        else set False w)"

definition ws_toggle_fullscreen :: "env \<Rightarrow> nat \<Rightarrow> workspace \<Rightarrow> workspace option" where
  "ws_toggle_fullscreen E i w = do {
     t \<leftarrow> find (\<lambda>t. tile_id t = i) (ws_tiles w);
     ws_set_fullscreen E i (win_pending_sizing_mode (tl_window t) \<noteq> Fullscreen) w }"

definition ws_set_maximized :: "env \<Rightarrow> nat \<Rightarrow> bool \<Rightarrow> workspace \<Rightarrow> workspace option" where
  "ws_set_maximized E i maximize w =
    (let set = ws_set_takeover (\<lambda>s. map_option fst (ss_set_maximized E i maximize s)) i
     in if fs_has_window i (ws_floating w)
        then (if maximize then do { w \<leftarrow> ws_toggle_window_floating E (Some i) w; set True w } else Some w)
        else if \<not> maximize then do {
          t \<leftarrow> find (\<lambda>t. tile_id t = i) (ss_tiles (ws_scrolling w));
          if win_pending_sizing_mode (tl_window t) = Maximized \<and> tl_restore_to_floating t
          then ws_toggle_window_floating E (Some i) w else set False w }
        else set False w)"

definition ws_toggle_maximized :: "env \<Rightarrow> nat \<Rightarrow> workspace \<Rightarrow> workspace option" where
  "ws_toggle_maximized E i w =
    (let current = (case find (\<lambda>c. column_id c = i) (columns (ws_scrolling w)) of
           Some c \<Rightarrow> co_is_pending_maximized c | None \<Rightarrow> False)
     in ws_set_maximized E i (\<not> current) w)"

text \<open>A position is set, not adjusted.\<close>

fun pos_is_set :: "position_change \<Rightarrow> bool" where
  "pos_is_set (PosSetFixed _) = True"
| "pos_is_set (PosSetProportion _) = True"
| "pos_is_set _ = False"

definition ws_move_floating_window ::
  "env \<Rightarrow> nat option \<Rightarrow> position_change \<Rightarrow> position_change \<Rightarrow> bool \<Rightarrow> workspace \<Rightarrow> workspace option" where
  "ws_move_floating_window E window x y animate w =
    (if targets_floating window w then try_fs (fs_move_window E window x y animate) w
     else
       let store = (\<lambda>t.
             (let area = fs_working_area (ws_floating w)
              in case (case fs_stored_or_default_tile_pos E t (ws_floating w) of
                         Some p \<Rightarrow> Some p
                       | None \<Rightarrow> if pos_is_set x \<and> pos_is_set y then Some (mk_point 0 0) else None) of
                   None \<Rightarrow> t
                 | Some p \<Rightarrow> t\<lparr>tl_floating_pos := Some (logical_to_size_frac area
                     (mk_point (changed_coord (sz_w (rsize area)) (pt_x (rloc area)) (pt_x p) x)
                               (changed_coord (sz_h (rsize area)) (pt_y (rloc area)) (pt_y p) y)))\<rparr>))
       in case window of
            Some i \<Rightarrow> try_ss (ss_update_tile i (Some \<circ> store)) w
          | None \<Rightarrow> (case focused_column (ws_scrolling w) of
                None \<Rightarrow> Some w
              | Some c \<Rightarrow> try_ss (ss_update_tile (column_id c) (Some \<circ> store)) w))"

section \<open>Commits, refresh and interactive resizing\<close>

definition ws_start_open_animation :: "env \<Rightarrow> nat \<Rightarrow> workspace \<Rightarrow> (workspace \<times> bool) option" where
  "ws_start_open_animation E i w = do {
     (w, ok) \<leftarrow> ask_ss (ss_start_open_animation E i) w;
     if ok then Some (w, True) else ask_fs (fs_start_open_animation E i) w }"

definition ws_descendants_added :: "nat \<Rightarrow> workspace \<Rightarrow> (workspace \<times> bool) option" where
  "ws_descendants_added i = ask_fs (fs_descendants_added i)"

definition ws_update_window :: "env \<Rightarrow> nat \<Rightarrow> serial option \<Rightarrow> workspace \<Rightarrow> workspace option" where
  "ws_update_window E i c w = do {
     (w, ok) \<leftarrow> ask_fs (fs_update_window E i c) w;
     if ok then Some w else try_ss (ss_update_window E i c) w }"

definition ws_refresh :: "env \<Rightarrow> bool \<Rightarrow> bool \<Rightarrow> workspace \<Rightarrow> workspace" where
  "ws_refresh E is_active is_focused w =
     on_fs (fs_refresh E (is_active \<and> fa_get (ws_floating_is_active w)) is_focused)
       (on_ss (ss_refresh E (is_active \<and> \<not> fa_get (ws_floating_is_active w)) is_focused) w)"

definition ws_render_above_top_layer :: "workspace \<Rightarrow> bool" where
  "ws_render_above_top_layer w \<longleftrightarrow> render_above_top_layer (ws_scrolling w)"

definition ws_is_floating_visible :: "workspace \<Rightarrow> bool" where
  "ws_is_floating_visible w \<longleftrightarrow>
     ws_floating_is_active w = FloatYes \<or> ws_floating_is_active w = FloatNoButRaised \<or>
     \<not> ws_render_above_top_layer w"

definition ws_active_window_visual_rectangle :: "(rect \<Rightarrow> rect \<Rightarrow> rect option) \<Rightarrow> env \<Rightarrow> workspace \<Rightarrow> rect option" where
  "ws_active_window_visual_rectangle rect_intersection E w =
    (if fa_get (ws_floating_is_active w)
     then fs_active_window_visual_rectangle rect_intersection E (ws_floating w)
     else active_window_visual_rectangle (ws_scrolling w))"

definition ws_popup_target_rect :: "env \<Rightarrow> nat \<Rightarrow> workspace \<Rightarrow> rect option" where
  "ws_popup_target_rect E i w =
    (if fs_has_window i (ws_floating w) then fs_popup_target_rect E i (ws_floating w)
     else popup_target_rect i (ws_scrolling w))"

definition ws_resize_begin :: "env \<Rightarrow> nat \<Rightarrow> resize_edge \<Rightarrow> workspace \<Rightarrow> (workspace \<times> bool) option" where
  "ws_resize_begin E i edges w =
    (if fs_has_window i (ws_floating w) then ask_fs (fs_resize_begin E i edges) w else Some (w, False))"

definition ws_resize_update :: "env \<Rightarrow> nat \<Rightarrow> point \<Rightarrow> workspace \<Rightarrow> (workspace \<times> bool) option" where
  "ws_resize_update E i delta w =
    (if fs_has_window i (ws_floating w) then ask_fs (fs_resize_update E i delta) w else Some (w, False))"

definition ws_resize_end :: "nat option \<Rightarrow> workspace \<Rightarrow> workspace" where
  "ws_resize_end window w =
    (case window of
       Some i \<Rightarrow> if fs_has_window i (ws_floating w) then on_fs (fs_resize_end (Some i)) w else w
     | None \<Rightarrow> on_fs (fs_resize_end None) w)"

text \<open>The speed at which dragging near an edge scrolls: how deep the pointer is in the trigger area.\<close>

definition ws_dnd_scroll_delta :: "f64 \<Rightarrow> point \<Rightarrow> f64 \<Rightarrow> workspace \<Rightarrow> f64" where
  "ws_dnd_scroll_delta trigger_width pos speed w =
    (let width = sz_w (rsize (ws_working_area w));
         x = f_clamp (pt_x pos - pt_x (rloc (ws_working_area w))) 0 width;
         tw = f_clamp trigger_width 0 (width / 2);
         delta = (if x < tw then - (tw - x) else if width - x < tw then tw - (width - x) else 0);
         delta = (if tw < 0.01 then 0 else delta / tw)
     in delta * speed)"

end
