(* ===== verification/SpaceConfig.thy ===== *)
theory SpaceConfig
  imports Workspace
begin

text \<open>
  No operation of a space changes the size of the view, the working area, the scale or the options it was
  given, except the one that is told new ones.
\<close>

section \<open>The master-stack engine\<close>

definition ss_config :: "scrolling_space \<Rightarrow> size \<times> rect \<times> f64 \<times> options" where
  "ss_config s = (ss_view_size s, ss_parent_area s, ss_scale s, ss_options s)"

lemma skeleton_config: "skeleton s' = skeleton s \<Longrightarrow> ss_config s' = ss_config s"
  unfolding ss_config_def by (simp add: skeleton_sel[of s' s])

lemma ss_config_upd [simp]:
  "ss_config (s\<lparr>ss_master := m\<rparr>) = ss_config s" "ss_config (s\<lparr>ss_stack := st\<rparr>) = ss_config s"
  "ss_config (s\<lparr>ss_focus := f\<rparr>) = ss_config s" "ss_config (s\<lparr>ss_last_stack_idx := l\<rparr>) = ss_config s"
  "ss_config (s\<lparr>ss_master_ratio := r\<rparr>) = ss_config s" "ss_config (with_columns g s) = ss_config s"
  "ss_config (update_tile_sizes E s) = ss_config s"
  by (simp_all add: ss_config_def update_tile_sizes_def)

lemma ss_config_add [simp]: "ss_config (add_column E c a s) = ss_config s"
  unfolding add_column_def Let_def by (simp split: option.split)

lemma ss_config_focus_after [simp]: "ss_config (update_focus_after_removal k s) = ss_config s"
  by (simp add: update_focus_after_removal_def Let_def split: focus.split)

lemma ss_config_remove: "remove_column_at k s = Some (c, s') \<Longrightarrow> ss_config s' = ss_config s"
  by (auto simp: remove_column_at_def Let_def bind_eq_Some_conv split: if_splits list.splits)

lemma ss_config_take: "take_column_at E k s = Some (c, s') \<Longrightarrow> ss_config s' = ss_config s"
  by (auto simp: take_column_at_def Let_def bind_eq_Some_conv dest!: ss_config_remove spring_all_skel[THEN skeleton_config])

lemma ss_config_removed: "ss_remove_tile E i s = Some (rt, s') \<Longrightarrow> ss_config s' = ss_config s"
  by (auto simp: ss_remove_tile_def ss_remove_tile_by_idx_def bind_eq_Some_conv dest: ss_config_take)

lemma ss_config_focus [simp]:
  "ss_config (fst (focus_left s)) = ss_config s" "ss_config (fst (focus_right s)) = ss_config s"
  "ss_config (fst (focus_down s)) = ss_config s" "ss_config (fst (focus_up s)) = ss_config s"
  "ss_config (focus_column_first s) = ss_config s" "ss_config (focus_column_last s) = ss_config s"
  "ss_config (focus_column k s) = ss_config s" "ss_config (focus_top s) = ss_config s"
  "ss_config (focus_bottom s) = ss_config s" "ss_config (fst (ss_activate_window i s)) = ss_config s"
  by (simp_all add: focus_left_def focus_right_def focus_down_def focus_up_def focus_column_first_def
      focus_column_last_def focus_column_def focus_top_def focus_bottom_def ss_activate_window_def
      split: focus.split option.split)

lemma ss_config_or_else [simp]:
  assumes "\<And>s. ss_config (fst (f s)) = ss_config s" "\<And>s. ss_config (fst (g s)) = ss_config s"
  shows "ss_config (or_else f g s) = ss_config s"
  using assms by (simp add: or_else_def Let_def case_prod_beta)

lemma ss_config_moves:
  "move_left E s = Some (s', b) \<Longrightarrow> ss_config s' = ss_config s"
  "move_right E s = Some (s', b) \<Longrightarrow> ss_config s' = ss_config s"
  "move_down s = Some (s', b) \<Longrightarrow> ss_config s' = ss_config s"
  "move_up s = Some (s', b) \<Longrightarrow> ss_config s' = ss_config s"
  by (auto simp: move_left_def move_right_def move_down_def move_up_def Let_def bind_eq_Some_conv
      split: focus.splits if_splits option.splits)

lemma ss_config_spring:
  assumes "swap_with_spring E f s = Some (s', b)" "\<And>s' b. f s = Some (s', b) \<Longrightarrow> ss_config s' = ss_config s"
  shows "ss_config s' = ss_config s"
  using swap_with_spring_cases[OF assms(1)] assms(2) skeleton_config by metis

lemma ss_config_takeover:
  "ss_set_fullscreen E i b s = Some (s', ch) \<Longrightarrow> ss_config s' = ss_config s"
  "ss_set_maximized E i b s = Some (s', ch) \<Longrightarrow> ss_config s' = ss_config s"
  by (auto simp: ss_set_fullscreen_def ss_set_maximized_def update_column_at_def Let_def case_prod_beta bind_eq_Some_conv
      split: option.splits if_splits)

lemma ss_config_kept:
  assumes "ms_exec E op s = Some s'" "\<And>vs pa sc opts. op \<noteq> UpdateConfig vs pa sc opts"
  shows "ss_config s' = ss_config s"
proof (cases op)
  case RemoveActiveTile
  with assms show ?thesis
    by (auto simp: ss_remove_active_tile_def bind_eq_Some_conv dest: ss_config_removed split: option.splits)
next
  case RemoveActiveColumn
  with assms show ?thesis
    by (auto simp: ss_remove_active_column_def bind_eq_Some_conv dest: ss_config_take split: focus.splits)
next
  case (SwapInDirection d)
  with assms show ?thesis by (cases d) (auto simp: swap_window_in_direction_def dest: ss_config_moves)
next
  case MoveColumnToFirst
  with assms show ?thesis by (auto simp: move_column_to_first_def dest: ss_config_moves split: focus.splits)
next
  case MoveColumnToLast
  with assms show ?thesis
    by (auto simp: move_column_to_last_def Let_def bind_eq_Some_conv split: focus.splits if_splits)
next
  case MoveLeftAnimated
  with assms show ?thesis by (auto simp: move_left_animated_def dest!: ss_config_spring dest: ss_config_moves)
next
  case MoveRightAnimated
  with assms show ?thesis by (auto simp: move_right_animated_def dest!: ss_config_spring dest: ss_config_moves)
next
  case MoveUpAnimated
  with assms show ?thesis by (auto simp: move_up_animated_def dest!: ss_config_spring dest: ss_config_moves)
next
  case MoveDownAnimated
  with assms show ?thesis by (auto simp: move_down_animated_def dest!: ss_config_spring dest: ss_config_moves)
next
  case (NudgeMasterRatio d)
  with assms show ?thesis
    by (auto simp: nudge_master_ratio_def Let_def dest!: spring_all_skel[THEN skeleton_config] split: if_splits)
next
  case (UpdateWindow i c)
  with assms show ?thesis by (auto dest!: update_window_skel[THEN skeleton_config])
next
  case (StartOpenAnimation i)
  with assms show ?thesis by (auto dest!: open_animation_skel[THEN skeleton_config])
next
  case (Refresh a f)
  with assms show ?thesis by (auto simp: skeleton_config[OF refresh_skel])
next
  case AdvanceAnimations
  with assms show ?thesis by (auto simp: skeleton_config[OF advance_skel])
qed (use assms in \<open>auto simp: ss_add_tile_def ss_add_tile_to_column_def consume_or_expel_window_left_def
    consume_or_expel_window_right_def consume_into_column_def expel_from_column_def
    focus_down_or_left_def focus_down_or_right_def focus_up_or_left_def focus_up_or_right_def
    dest: ss_config_removed ss_config_take ss_config_moves ss_config_takeover\<close>)

section \<open>The floating space\<close>

definition fs_config :: "floating_space \<Rightarrow> size \<times> rect \<times> f64 \<times> options" where
  "fs_config s = (fs_view_size s, fs_working_area s, fs_scale s, fs_options s)"

lemma fs_config_upd [simp]:
  "fs_config (s\<lparr>fs_tiles := ts\<rparr>) = fs_config s" "fs_config (s\<lparr>fs_data := ds\<rparr>) = fs_config s"
  "fs_config (s\<lparr>fs_active_window_id := a\<rparr>) = fs_config s" "fs_config (s\<lparr>fs_interactive_resize := r\<rparr>) = fs_config s"
  "fs_config (fs_resize_end i s) = fs_config s"
  by (simp_all add: fs_config_def fs_resize_end_def split: option.split)

lemma fs_config_raise: "fs_raise_window i k s = Some s' \<Longrightarrow> fs_config s' = fs_config s"
  by (auto simp: fs_raise_window_def bind_eq_Some_conv split: if_splits)

lemma fs_config_raise_all: "fs_raise_all is k s = Some s' \<Longrightarrow> fs_config s' = fs_config s"
  by (induction "is" k s rule: fs_raise_all.induct) (auto simp: bind_eq_Some_conv dest: fs_config_raise)

lemma fs_config_bring_up: "fs_bring_up_descendants_of k s = Some s' \<Longrightarrow> fs_config s' = fs_config s"
  by (auto simp: fs_bring_up_descendants_of_def dest: fs_config_raise_all split: if_splits)

lemma fs_config_activate: "fs_activate_window i s = Some (s', b) \<Longrightarrow> fs_config s' = fs_config s"
  by (auto simp: fs_activate_window_def bind_eq_Some_conv dest!: fs_config_raise fs_config_bring_up split: option.splits)

lemma fs_config_descendants: "fs_descendants_added i s = Some (s', b) \<Longrightarrow> fs_config s' = fs_config s"
  by (auto simp: fs_descendants_added_def bind_eq_Some_conv dest!: fs_config_bring_up split: option.splits)

lemma fs_config_added: "fs_add_tile_at E k t a s = Some s' \<Longrightarrow> fs_config s' = fs_config s"
  by (auto simp: fs_add_tile_at_def Let_def bind_eq_Some_conv dest!: fs_config_bring_up split: if_splits)

lemma fs_config_removed: "fs_remove_tile E i s = Some (rt, s') \<Longrightarrow> fs_config s' = fs_config s"
  by (auto simp: fs_remove_tile_def fs_remove_tile_by_idx_def Let_def bind_eq_Some_conv
      split: if_splits option.splits list.splits)

lemma fs_config_sizes:
  "fs_set_window_width E i c a s = Some s' \<Longrightarrow> fs_config s' = fs_config s"
  "fs_set_window_height E i c a s = Some s' \<Longrightarrow> fs_config s' = fs_config s"
  by (auto simp: fs_set_window_width_def fs_set_window_height_def bind_eq_Some_conv split: option.splits)

lemma fs_config_move_to: "fs_move_to E k p a s = Some s' \<Longrightarrow> fs_config s' = fs_config s"
  by (auto simp: fs_move_to_def fs_move_and_animate_def Let_def bind_eq_Some_conv split: if_splits)

lemma fs_config_found: "activate_found r s = Some s' \<Longrightarrow> fs_config s' = fs_config s"
  by (auto simp: activate_found_def bind_eq_Some_conv dest!: fs_config_activate split: option.splits)

lemma fs_config_directional: "focus_directional d s = Some (s', b) \<Longrightarrow> fs_config s' = fs_config s"
  by (auto simp: focus_directional_def Let_def bind_eq_Some_conv dest!: fs_config_activate split: option.splits)

lemma fs_config_kept:
  assumes "fs_exec E op s = Some s'" "\<And>vs wa sc opts. op \<noteq> FUpdateConfig vs wa sc opts"
  shows "fs_config s' = fs_config s"
proof (cases op)
  case (FAddTileAbove i t a)
  with assms show ?thesis
    by (auto simp: fs_add_tile_above_def Let_def bind_eq_Some_conv dest!: fs_config_added)
next
  case FRemoveActiveTile
  with assms show ?thesis
    by (auto simp: fs_remove_active_tile_def bind_eq_Some_conv dest!: fs_config_removed split: option.splits)
next
  case (FToggleWidth i f)
  with assms show ?thesis
    by (auto simp: fs_toggle_window_width_def Let_def bind_eq_Some_conv dest!: fs_config_sizes split: option.splits)
next
  case (FToggleHeight i f)
  with assms show ?thesis
    by (auto simp: fs_toggle_window_height_def Let_def bind_eq_Some_conv dest!: fs_config_sizes split: option.splits)
next
  case (FResizeUpdate i d)
  with assms show ?thesis
    by (auto simp: fs_resize_update_def Let_def bind_eq_Some_conv dest!: fs_config_sizes split: option.splits if_splits)
next
  case (FMoveWindow i x y a)
  with assms show ?thesis
    by (auto simp: fs_move_window_def Let_def bind_eq_Some_conv dest!: fs_config_move_to split: option.splits)
next
  case (FCenterWindow i)
  with assms show ?thesis
    by (auto simp: fs_center_window_def Let_def bind_eq_Some_conv dest!: fs_config_move_to split: option.splits)
next
  case (FUpdateWindow i c)
  with assms show ?thesis
    by (auto simp: fs_update_window_def Let_def bind_eq_Some_conv split: option.splits)
next
  case (FResizeBegin i e)
  with assms show ?thesis by (auto simp: fs_resize_begin_def bind_eq_Some_conv split: if_splits)
next
  case (FStartOpenAnimation i)
  with assms show ?thesis by (auto simp: fs_start_open_animation_def bind_eq_Some_conv split: option.splits)
next
  case (FReparent i p)
  with assms show ?thesis
    by (auto simp: fs_parent_changed_def fs_set_parent_def dest!: fs_config_descendants split: option.splits)
next
  case (FActivateWithoutRaising i)
  with assms show ?thesis by (auto simp: fs_activate_window_without_raising_def)
qed (use assms in \<open>auto simp: fs_add_tile_def fs_refresh_def fs_advance_animations_def
    fs_focus_left_def fs_focus_right_def fs_focus_up_def fs_focus_down_def
    fs_focus_leftmost_def fs_focus_rightmost_def fs_focus_topmost_def fs_focus_bottommost_def
    fs_move_left_def fs_move_right_def fs_move_up_def fs_move_down_def fs_move_by_def bind_eq_Some_conv
    dest!: fs_config_added fs_config_removed fs_config_sizes fs_config_activate fs_config_directional fs_config_found fs_config_move_to
    split: option.splits\<close>)

end
