(* ===== verification/WorkspaceInv.thy ===== *)
theory WorkspaceInv
  imports SpaceConfig
begin

text \<open>
  The invariant of a workspace (the assertions of its \<open>verify_invariants\<close> and the ones the code relies on)
  and the lemmas by which an operation of one of its spaces becomes an operation of the workspace.
\<close>

section \<open>The invariant\<close>

definition ws_ids :: "workspace \<Rightarrow> nat list" where
  "ws_ids w = ss_ids (ws_scrolling w) @ fs_ids (ws_floating w)"

text \<open>Floating is never active when it is empty, and always active when it is all there is.\<close>

definition fa_ok :: "workspace \<Rightarrow> bool" where
  "fa_ok w \<longleftrightarrow>
     (if fs_ids (ws_floating w) = [] then ws_floating_is_active w \<noteq> FloatYes
      else ss_ids (ws_scrolling w) = [] \<longrightarrow> ws_floating_is_active w = FloatYes)"

text \<open>Both spaces have the view, the area, the scale and the options of the workspace.\<close>

definition ws_config_ok :: "workspace \<Rightarrow> bool" where
  "ws_config_ok w \<longleftrightarrow>
     ss_config (ws_scrolling w) = (ws_view_size w, ws_working_area w, os_fractional (ws_scale w), ws_options w) \<and>
     fs_config (ws_floating w) = (ws_view_size w, ws_working_area w, os_fractional (ws_scale w), ws_options w) \<and>
     ws_options w = ws_compute_options (ws_base_options w) (ws_layout_config w) (os_fractional (ws_scale w))"

definition ws_inv :: "env \<Rightarrow> workspace \<Rightarrow> bool" where
  "ws_inv E w \<longleftrightarrow> ss_inv E (ws_scrolling w) \<and> fs_inv E (ws_floating w) \<and>
     set (ss_ids (ws_scrolling w)) \<inter> set (fs_ids (ws_floating w)) = {} \<and> fa_ok w \<and> ws_config_ok w"

definition ws_acyclic :: "workspace \<Rightarrow> bool" where
  "ws_acyclic w \<longleftrightarrow> parents_acyclic (ws_tiles w)"

lemma ws_invD:
  assumes "ws_inv E w"
  shows "ss_inv E (ws_scrolling w)" "fs_inv E (ws_floating w)"
    "set (ss_ids (ws_scrolling w)) \<inter> set (fs_ids (ws_floating w)) = {}" "fa_ok w" "ws_config_ok w"
  using assms by (simp_all add: ws_inv_def)

lemma ss_tiles_ids: "map tile_id (ss_tiles s) = ss_ids s"
  by (simp add: ss_tiles_def ss_ids_def)

lemma ws_tiles_ids: "map tile_id (ws_tiles w) = ws_ids w"
  by (simp add: ws_tiles_def ws_ids_def ss_tiles_ids fs_ids_def)

lemma acyclic_subset:
  assumes "parents_acyclic us" "tkey ` set ts \<subseteq> tkey ` set us"
  shows "parents_acyclic ts"
proof -
  have "parent_links ts \<subseteq> parent_links us" unfolding links_of_keys using assms(2) by blast
  with assms(1) show ?thesis unfolding parents_acyclic_def by (rule acyclic_subset)
qed

lemma ws_acyclicD: "ws_acyclic w \<Longrightarrow> parents_acyclic (fs_tiles (ws_floating w))"
  unfolding ws_acyclic_def by (erule acyclic_subset) (auto simp: ws_tiles_def)

lemma ss_empty_ids: "ss_is_empty s \<longleftrightarrow> ss_ids s = []"
  by (auto simp: ss_is_empty_def ss_ids_def columns_def split: option.split)

lemma fs_empty_ids: "fs_is_empty s \<longleftrightarrow> fs_ids s = []" "fs_tiles s = [] \<longleftrightarrow> fs_ids s = []"
  by (simp_all add: fs_is_empty_def fs_ids_def)

lemma fs_has_ids: "fs_has_window i s \<longleftrightarrow> i \<in> set (fs_ids s)"
  by (auto simp: fs_has_window_def fs_ids_def list_ex_iff)

lemma ss_has_ids: "list_ex (\<lambda>t. tile_id t = i) (ss_tiles s) \<longleftrightarrow> i \<in> set (ss_ids s)"
  by (auto simp: ss_tiles_def ss_ids_def list_ex_iff)

text \<open>The active window of the workspace is the one of the active space.\<close>

definition ws_active_id :: "workspace \<Rightarrow> nat option" where
  "ws_active_id w = map_option mw_id (ws_active_window w)"

lemma fs_active_window_id: "fs_inv E s \<Longrightarrow> map_option mw_id (fs_active_window s) = fs_active_window_id s"
proof -
  assume inv: "fs_inv E s"
  show ?thesis
  proof (cases "fs_active_window_id s")
    case (Some i)
    then have "i \<in> set (fs_ids s)" using active_in_ids[OF inv] by blast
    then obtain t where t: "find (\<lambda>t. tile_id t = i) (fs_tiles s) = Some t" "tile_id t = i"
      by (cases "find (\<lambda>t. tile_id t = i) (fs_tiles s)") (auto simp: fs_ids_def find_None_iff find_Some_iff)
    with Some show ?thesis by (simp add: fs_active_window_def)
  qed (simp add: fs_active_window_def)
qed

lemma ws_active_id_eq:
  assumes "ws_inv E w"
  shows "ws_active_id w = (if ws_floating_is_active w = FloatYes then fs_active_window_id (ws_floating w)
     else ss_active_id (ws_scrolling w))"
  using fs_active_window_id[OF ws_invD(2)[OF assms]]
  by (simp add: ws_active_id_def ws_active_window_def fa_get_def ss_active_id_def)

lemma ws_active_some:
  assumes "ws_inv E w"
  shows "ws_active_id w = None \<longleftrightarrow> ws_ids w = []" "ws_active_id w = Some i \<Longrightarrow> i \<in> set (ws_ids w)"
proof -
  note i = ws_invD[OF assms]
  show "ws_active_id w = None \<longleftrightarrow> ws_ids w = []"
    using floating.active_none[OF i(2)] tiling.active_none[OF i(1)] i(4)
    by (auto simp: ws_active_id_eq[OF assms] ws_ids_def fa_ok_def split: if_splits)
  show "ws_active_id w = Some i \<Longrightarrow> i \<in> set (ws_ids w)"
    using floating.active_some[OF i(2)] tiling.active_some[OF i(1)]
    by (auto simp: ws_active_id_eq[OF assms] ws_ids_def split: if_splits)
qed

section \<open>The same windows\<close>

text \<open>What an operation promises that neither adds nor removes a window; most also leave each window in its
  space.\<close>

definition ws_same :: "env \<Rightarrow> workspace \<Rightarrow> workspace \<Rightarrow> bool" where
  "ws_same E w w' \<longleftrightarrow> ws_inv E w' \<and> mset (ws_ids w') = mset (ws_ids w)"

definition ws_quiet :: "env \<Rightarrow> workspace \<Rightarrow> workspace \<Rightarrow> bool" where
  "ws_quiet E w w' \<longleftrightarrow> ws_inv E w' \<and> mset (ss_ids (ws_scrolling w')) = mset (ss_ids (ws_scrolling w)) \<and>
     mset (fs_ids (ws_floating w')) = mset (fs_ids (ws_floating w)) \<and> ws_id w' = ws_id w \<and> ws_name w' = ws_name w \<and>
     ws_output w' = ws_output w"

lemma quiet_same: "ws_quiet E w w' \<Longrightarrow> ws_same E w w'"
  by (simp add: ws_quiet_def ws_same_def ws_ids_def)

lemma quiet_refl: "ws_inv E w \<Longrightarrow> ws_quiet E w w"
  by (simp add: ws_quiet_def)

lemma same_refl: "ws_inv E w \<Longrightarrow> ws_same E w w"
  by (simp add: ws_same_def)

lemma same_trans: "ws_same E w w' \<Longrightarrow> ws_same E w' w'' \<Longrightarrow> ws_same E w w''"
  by (simp add: ws_same_def)

lemma same_inv: "ws_same E w w' \<Longrightarrow> ws_inv E w'"
  by (simp add: ws_same_def)

lemma quiet_inv: "ws_quiet E w w' \<Longrightarrow> ws_inv E w'"
  by (simp add: ws_quiet_def)

lemma mset_nil: "mset xs = mset ys \<Longrightarrow> xs = [] \<longleftrightarrow> ys = []"
  by auto

lemma quiet_ss:
  assumes "ws_inv E w" "ss_inv E s" "mset (ss_ids s) = mset (ss_ids (ws_scrolling w))"
    "ss_config s = ss_config (ws_scrolling w)"
  shows "ws_quiet E w (w\<lparr>ws_scrolling := s\<rparr>)"
  using assms mset_eq_setD[OF assms(3)] mset_nil[OF assms(3)]
  by (simp add: ws_quiet_def ws_inv_def fa_ok_def ws_config_ok_def)

lemma quiet_fs:
  assumes "ws_inv E w" "fs_inv E s" "mset (fs_ids s) = mset (fs_ids (ws_floating w))"
    "fs_config s = fs_config (ws_floating w)"
  shows "ws_quiet E w (w\<lparr>ws_floating := s\<rparr>)"
  using assms mset_eq_setD[OF assms(3)] mset_nil[OF assms(3)]
  by (simp add: ws_quiet_def ws_inv_def fa_ok_def ws_config_ok_def)

text \<open>Changing which space is active.\<close>

lemma quiet_fa:
  assumes "ws_quiet E w w'" "a = FloatYes \<Longrightarrow> fs_ids (ws_floating w') \<noteq> []"
    "a \<noteq> FloatYes \<Longrightarrow> fs_ids (ws_floating w') = [] \<or> ss_ids (ws_scrolling w') \<noteq> []"
  shows "ws_quiet E w (w'\<lparr>ws_floating_is_active := a\<rparr>)"
  using assms by (auto simp: ws_quiet_def ws_inv_def fa_ok_def ws_config_ok_def)

section \<open>Operations of the spaces\<close>

text \<open>The commands of a space that neither add nor remove windows nor change the configuration.\<close>

definition ms_quiet :: "ms_op \<Rightarrow> bool" where
  "ms_quiet op \<longleftrightarrow> (\<forall>s. ms_windows op s = mset (ss_ids s) \<and> ms_fresh op s) \<and> (\<forall>vs pa sc opts. op \<noteq> UpdateConfig vs pa sc opts)"

definition fs_quiet :: "fs_op \<Rightarrow> bool" where
  "fs_quiet op \<longleftrightarrow> (\<forall>s. fs_windows op s = mset (fs_ids s) \<and> (fs_allowed op s \<longleftrightarrow> parents_acyclic (fs_tiles s))) \<and>
     (\<forall>vs wa sc opts. op \<noteq> FUpdateConfig vs wa sc opts)"

lemma ss_quiet_step:
  assumes "ws_inv E w" "ms_exec E op (ws_scrolling w) = Some s" "ms_quiet op"
  shows "ws_quiet E w (w\<lparr>ws_scrolling := s\<rparr>)"
  using ms_step[OF ws_invD(1)[OF assms(1)] refl _ assms(2)] ss_config_kept[OF assms(2)] assms(3)
  by (intro quiet_ss[OF assms(1)]) (simp_all add: ms_quiet_def)

lemma fs_quiet_step:
  assumes "ws_inv E w" "parents_acyclic (fs_tiles (ws_floating w))" "configure_keeps E" "fs_exec E op (ws_floating w) = Some s" "fs_quiet op"
  shows "ws_quiet E w (w\<lparr>ws_floating := s\<rparr>)"
  using fs_step[OF ws_invD(2)[OF assms(1)] _ assms(3,4)] fs_config_kept[OF assms(4)] assms(5) assms(2)
  by (intro quiet_fs[OF assms(1)]) (simp_all add: fs_quiet_def fs_after_def)

lemma on_ss_quiet:
  assumes "ws_inv E w" "ms_exec E op (ws_scrolling w) = Some (f (ws_scrolling w))" "ms_quiet op"
  shows "ws_quiet E w (on_ss f w)"
  using ss_quiet_step[OF assms] by (simp add: on_ss_def)

lemma try_ss_quiet:
  assumes "ws_inv E w" "try_ss f w = Some w'" "\<And>s'. f (ws_scrolling w) = Some s' \<Longrightarrow> ms_exec E op (ws_scrolling w) = Some s'"
    "ms_quiet op"
  shows "ws_quiet E w w'"
  using assms ss_quiet_step by (auto simp: try_ss_def)

lemma ask_ss_quiet:
  assumes "ws_inv E w" "ask_ss f w = Some (w', r)"
    "\<And>s' r. f (ws_scrolling w) = Some (s', r) \<Longrightarrow> ms_exec E op (ws_scrolling w) = Some s'" "ms_quiet op"
  shows "ws_quiet E w w'"
  using assms ss_quiet_step by (fastforce simp: ask_ss_def)

lemma on_fs_quiet:
  assumes "ws_inv E w" "parents_acyclic (fs_tiles (ws_floating w))" "configure_keeps E" "fs_exec E op (ws_floating w) = Some (f (ws_floating w))" "fs_quiet op"
  shows "ws_quiet E w (on_fs f w)"
  using fs_quiet_step[OF assms] by (simp add: on_fs_def)

lemma try_fs_quiet:
  assumes "ws_inv E w" "parents_acyclic (fs_tiles (ws_floating w))" "configure_keeps E" "try_fs f w = Some w'"
    "\<And>s'. f (ws_floating w) = Some s' \<Longrightarrow> fs_exec E op (ws_floating w) = Some s'" "fs_quiet op"
  shows "ws_quiet E w w'"
  using assms fs_quiet_step by (auto simp: try_fs_def)

lemma ask_fs_quiet:
  assumes "ws_inv E w" "parents_acyclic (fs_tiles (ws_floating w))" "configure_keeps E" "ask_fs f w = Some (w', r)"
    "\<And>s' r. f (ws_floating w) = Some (s', r) \<Longrightarrow> fs_exec E op (ws_floating w) = Some s'" "fs_quiet op"
  shows "ws_quiet E w w'"
  using assms fs_quiet_step by (fastforce simp: ask_fs_def)

end
