(* ===== verification/WorkspaceOps.thy ===== *)
theory WorkspaceOps
  imports WorkspaceInv
begin

text \<open>
  What each operation of a workspace does to its invariant and its windows.
\<close>

section \<open>Focus\<close>

lemma quiet_ops [simp]:
  "ms_quiet FocusLeft" "ms_quiet FocusRight" "ms_quiet FocusDown" "ms_quiet FocusUp" "ms_quiet FocusColumnFirst"
  "ms_quiet FocusColumnLast" "ms_quiet (FocusColumn k)" "ms_quiet FocusTop" "ms_quiet FocusBottom"
  "ms_quiet FocusDownOrLeft" "ms_quiet FocusDownOrRight" "ms_quiet FocusUpOrLeft" "ms_quiet FocusUpOrRight"
  "ms_quiet (ActivateWindow i)" "ms_quiet MoveLeft" "ms_quiet MoveRight" "ms_quiet MoveDown" "ms_quiet MoveUp"
  "ms_quiet MoveLeftAnimated" "ms_quiet MoveRightAnimated" "ms_quiet MoveDownAnimated" "ms_quiet MoveUpAnimated"
  "ms_quiet MoveColumnToFirst" "ms_quiet MoveColumnToLast" "ms_quiet (SwapInDirection dd)"
  "ms_quiet ConsumeOrExpelLeft" "ms_quiet ConsumeOrExpelRight" "ms_quiet ConsumeIntoColumn" "ms_quiet ExpelFromColumn"
  "ms_quiet (NudgeMasterRatio r)" "ms_quiet (SetFullscreen i b)" "ms_quiet (SetMaximized i b)"
  "ms_quiet (UpdateWindow i c)" "ms_quiet (StartOpenAnimation i)" "ms_quiet AdvanceAnimations" "ms_quiet (Refresh ac f)"
  "fs_quiet FFocusLeft" "fs_quiet FFocusRight" "fs_quiet FFocusDown" "fs_quiet FFocusUp" "fs_quiet FFocusLeftmost"
  "fs_quiet FFocusRightmost" "fs_quiet FFocusTopmost" "fs_quiet FFocusBottommost" "fs_quiet (FActivateWindow i)"
  "fs_quiet (FActivateWithoutRaising i)" "fs_quiet FMoveLeft" "fs_quiet FMoveRight" "fs_quiet FMoveDown" "fs_quiet FMoveUp"
  "fs_quiet (FMoveWindow j x y a)" "fs_quiet (FCenterWindow j)" "fs_quiet (FToggleWidth j b)" "fs_quiet (FToggleHeight j b)"
  "fs_quiet (FSetWidth j ch b)" "fs_quiet (FSetHeight j ch b)" "fs_quiet (FUpdateWindow i c)" "fs_quiet (FStartOpenAnimation i)"
  "fs_quiet FAdvanceAnimations" "fs_quiet (FRefresh ac f)" "fs_quiet (FResizeBegin i e)" "fs_quiet (FResizeUpdate i d)"
  "fs_quiet (FResizeEnd j)"
  by (simp_all add: ms_quiet_def fs_quiet_def)

lemma focus_by_quiet:
  assumes "ws_inv E w" "parents_acyclic (fs_tiles (ws_floating w))" "configure_keeps E" "ws_focus_by f g w = Some (w', b)"
    and "\<And>s. map_option fst (f s) = fs_exec E fop s" "\<And>s. Some (fst (g s)) = ms_exec E mop s" "fs_quiet fop" "ms_quiet mop"
  shows "ws_quiet E w w'"
proof (cases "fa_get (ws_floating_is_active w)")
  case True
  then have "ask_fs f w = Some (w', b)" using assms(4) by (simp add: ws_focus_by_def)
  from ask_fs_quiet[OF assms(1-3) this _ assms(7)] assms(5) show ?thesis by (metis fst_conv option.map(2))
next
  case False
  then have "ask_ss (Some \<circ> g) w = Some (w', b)" using assms(4) by (simp add: ws_focus_by_def)
  from ask_ss_quiet[OF assms(1) this _ assms(8)] assms(6) show ?thesis by (metis comp_apply fst_conv option.inject)
qed

lemma focus_to_quiet:
  assumes "ws_inv E w" "parents_acyclic (fs_tiles (ws_floating w))" "configure_keeps E" "ws_focus_to f g w = Some w'"
    and "\<And>s. f s = fs_exec E fop s" "\<And>s. Some (g s) = ms_exec E mop s" "fs_quiet fop" "ms_quiet mop"
  shows "ws_quiet E w w'"
proof (cases "fa_get (ws_floating_is_active w)")
  case True
  then have "try_fs f w = Some w'" using assms(4) by (simp add: ws_focus_to_def)
  from try_fs_quiet[OF assms(1-3) this _ assms(7)] assms(5) show ?thesis by simp
next
  case False
  then have "w' = on_ss g w" using assms(4) by (simp add: ws_focus_to_def)
  with on_ss_quiet[OF assms(1) _ assms(8), of g] assms(6) show ?thesis by simp
qed

lemma fs_focus_false:
  "focus_directional d s = Some (s', False) \<Longrightarrow> s' = s"
  by (auto simp: focus_directional_def Let_def bind_eq_Some_conv split: option.splits)

lemma ms_focus_false:
  "focus_left s = (s', False) \<Longrightarrow> s' = s" "focus_right s = (s', False) \<Longrightarrow> s' = s"
  "focus_down s = (s', False) \<Longrightarrow> s' = s" "focus_up s = (s', False) \<Longrightarrow> s' = s"
  by (auto simp: focus_left_def focus_right_def focus_down_def focus_up_def split: focus.splits if_splits)

lemma focus_by_false:
  assumes "ws_focus_by f g w = Some (w', False)" "\<And>s s'. f s = Some (s', False) \<Longrightarrow> s' = s" "\<And>s s'. g s = (s', False) \<Longrightarrow> s' = s"
  shows "w' = w"
  using assms(1) assms(2)[of "ws_floating w"] assms(3)[of "ws_scrolling w"]
  by (auto simp: ws_focus_by_def ask_fs_def ask_ss_def comp_def split: if_splits prod.splits)

lemma or_quiet:
  assumes "ws_or f g w = Some w'" "\<And>w' b. f w = Some (w', b) \<Longrightarrow> ws_quiet E w w'" "\<And>w'. g w = Some w' \<Longrightarrow> ws_quiet E w w'"
    and "\<And>w'. f w = Some (w', False) \<Longrightarrow> w' = w"
  shows "ws_quiet E w w'"
  using assms by (fastforce simp: ws_or_def bind_eq_Some_conv split: if_splits)

lemmas ws_focus_defs = ws_focus_left_def ws_focus_right_def ws_focus_down_def ws_focus_up_def
  ws_focus_column_first_def ws_focus_column_last_def ws_focus_window_top_def ws_focus_window_bottom_def
  ws_focus_down_or_left_def ws_focus_down_or_right_def ws_focus_up_or_left_def ws_focus_up_or_right_def

lemma focus_quiet:
  assumes "ws_inv E w" "parents_acyclic (fs_tiles (ws_floating w))" "configure_keeps E"
  shows "ws_focus_left w = Some (w', b) \<Longrightarrow> ws_quiet E w w'"
    "ws_focus_right w = Some (w', b) \<Longrightarrow> ws_quiet E w w'"
    "ws_focus_down w = Some (w', b) \<Longrightarrow> ws_quiet E w w'"
    "ws_focus_up w = Some (w', b) \<Longrightarrow> ws_quiet E w w'"
    "ws_focus_column_first w = Some w' \<Longrightarrow> ws_quiet E w w'"
    "ws_focus_column_last w = Some w' \<Longrightarrow> ws_quiet E w w'"
    "ws_focus_window_top w = Some w' \<Longrightarrow> ws_quiet E w w'"
    "ws_focus_window_bottom w = Some w' \<Longrightarrow> ws_quiet E w w'"
    "ws_focus_down_or_left w = Some w' \<Longrightarrow> ws_quiet E w w'"
    "ws_focus_down_or_right w = Some w' \<Longrightarrow> ws_quiet E w w'"
    "ws_focus_up_or_left w = Some w' \<Longrightarrow> ws_quiet E w w'"
    "ws_focus_up_or_right w = Some w' \<Longrightarrow> ws_quiet E w w'"
  unfolding ws_focus_defs
             apply (erule focus_by_quiet[OF assms, where fop = FFocusLeft and mop = FocusLeft]; simp)
            apply (erule focus_by_quiet[OF assms, where fop = FFocusRight and mop = FocusRight]; simp)
           apply (erule focus_by_quiet[OF assms, where fop = FFocusDown and mop = FocusDown]; simp)
          apply (erule focus_by_quiet[OF assms, where fop = FFocusUp and mop = FocusUp]; simp)
         apply (erule focus_to_quiet[OF assms, where fop = FFocusLeftmost and mop = FocusColumnFirst]; simp)
        apply (erule focus_to_quiet[OF assms, where fop = FFocusRightmost and mop = FocusColumnLast]; simp)
       apply (erule focus_to_quiet[OF assms, where fop = FFocusTopmost and mop = FocusTop]; simp)
      apply (erule focus_to_quiet[OF assms, where fop = FFocusBottommost and mop = FocusBottom]; simp)
     apply (erule focus_to_quiet[OF assms, where fop = FFocusDown and mop = FocusDownOrLeft]; simp)
    apply (erule focus_to_quiet[OF assms, where fop = FFocusDown and mop = FocusDownOrRight]; simp)
   apply (erule focus_to_quiet[OF assms, where fop = FFocusUp and mop = FocusUpOrLeft]; simp)
  apply (erule focus_to_quiet[OF assms, where fop = FFocusUp and mop = FocusUpOrRight]; simp)
  done

lemma focus_false:
  "ws_focus_left w = Some (w', False) \<Longrightarrow> w' = w" "ws_focus_right w = Some (w', False) \<Longrightarrow> w' = w"
  "ws_focus_down w = Some (w', False) \<Longrightarrow> w' = w" "ws_focus_up w = Some (w', False) \<Longrightarrow> w' = w"
  unfolding ws_focus_defs fs_focus_left_def fs_focus_right_def fs_focus_down_def fs_focus_up_def
  by (erule focus_by_false; fast dest: fs_focus_false ms_focus_false)+

lemma focus_or_quiet:
  assumes "ws_inv E w" "parents_acyclic (fs_tiles (ws_floating w))" "configure_keeps E"
  shows "ws_focus_column_right_or_first w = Some w' \<Longrightarrow> ws_quiet E w w'"
    "ws_focus_column_left_or_last w = Some w' \<Longrightarrow> ws_quiet E w w'"
    "ws_focus_window_down_or_top w = Some w' \<Longrightarrow> ws_quiet E w w'"
    "ws_focus_window_up_or_bottom w = Some w' \<Longrightarrow> ws_quiet E w w'"
  unfolding ws_focus_column_right_or_first_def ws_focus_column_left_or_last_def
    ws_focus_window_down_or_top_def ws_focus_window_up_or_bottom_def
  by (erule or_quiet; fast dest: focus_quiet[OF assms] focus_false)+

lemma switch_focus_quiet:
  assumes "ws_inv E w"
  shows "ws_quiet E w (ws_switch_focus_floating_tiling w)" "ws_quiet E w (ws_focus_floating w)" "ws_quiet E w (ws_focus_tiling w)"
proof -
  show s: "ws_quiet E w (ws_switch_focus_floating_tiling w)"
    using quiet_refl[OF assms] quiet_fa[OF quiet_refl[OF assms]]
    by (auto simp: ws_switch_focus_floating_tiling_def ss_empty_ids fs_empty_ids)
  show "ws_quiet E w (ws_focus_floating w)" "ws_quiet E w (ws_focus_tiling w)"
    using s quiet_refl[OF assms] by (simp_all add: ws_focus_floating_def ws_focus_tiling_def)
qed

lemma quiet_trans: "ws_quiet E w w' \<Longrightarrow> ws_quiet E w' w'' \<Longrightarrow> ws_quiet E w w''"
  by (simp add: ws_quiet_def)

lemma focus_column_quiet: "ws_inv E w \<Longrightarrow> ws_quiet E w (ws_focus_column k w)"
proof -
  assume inv: "ws_inv E w"
  define w1 where "w1 = (if fa_get (ws_floating_is_active w) then ws_focus_tiling w else w)"
  have q: "ws_quiet E w w1" using switch_focus_quiet(3)[OF inv] quiet_refl[OF inv] by (simp add: w1_def)
  from on_ss_quiet[OF quiet_inv[OF q], of "FocusColumn k" "focus_column k"] q show ?thesis
    by (auto simp: ws_focus_column_def Let_def w1_def[symmetric] intro: quiet_trans)
qed

section \<open>Activation\<close>

lemma fs_activate_ids:
  assumes "fs_inv E s" "parents_acyclic (fs_tiles s)" "fs_activate_window i s = Some (s', b)"
  shows "b \<longleftrightarrow> i \<in> set (fs_ids s)" "\<not> b \<Longrightarrow> s' = s"
  using activate_inv[OF assms(1) _ assms(2), of i] activate_missing[of i s] assms(3)
  by (cases "i \<in> set (fs_ids s)"; auto)+

lemma ss_activate_ids:
  "ss_activate_window i s = (s', b) \<Longrightarrow> b \<longleftrightarrow> i \<in> set (ss_ids s)" "ss_activate_window i s = (s', False) \<Longrightarrow> s' = s"
  by (auto simp: ss_activate_window_def ss_ids_def columns_def position_None split: option.splits if_splits
      dest!: position_Some)

lemma activate_quiet:
  assumes inv: "ws_inv E w" and ac: "parents_acyclic (fs_tiles (ws_floating w))" and keep: "configure_keeps E"
  shows "ws_activate_window i w = Some (w', b) \<Longrightarrow> ws_quiet E w w' \<and> (b \<longleftrightarrow> i \<in> set (ws_ids w))"
    and "ws_activate_window_without_raising i w = Some (w', b) \<Longrightarrow> ws_quiet E w w' \<and> (b \<longleftrightarrow> i \<in> set (ws_ids w))"
proof -
  have tiled: "ws_quiet E w (w\<lparr>ws_scrolling := s, ws_floating_is_active := a\<rparr>) \<and> i \<in> set (ss_ids (ws_scrolling w))"
    if "ss_activate_window i (ws_scrolling w) = (s, True)" "a \<noteq> FloatYes" for s a
  proof -
    have i: "i \<in> set (ss_ids (ws_scrolling w))" using ss_activate_ids(1)[OF that(1)] by simp
    have q: "ws_quiet E w (w\<lparr>ws_scrolling := s\<rparr>)"
      using that(1) by (intro ss_quiet_step[OF inv, where op = "ActivateWindow i"]) simp_all
    then have "set (ss_ids s) = set (ss_ids (ws_scrolling w))" unfolding ws_quiet_def by (auto dest: mset_eq_setD)
    with i q that(2) have "ws_quiet E w (w\<lparr>ws_scrolling := s\<rparr>\<lparr>ws_floating_is_active := a\<rparr>)"
      by (intro quiet_fa) auto
    with i show ?thesis by simp
  qed
  show "ws_activate_window i w = Some (w', b) \<Longrightarrow> ws_quiet E w w' \<and> (b \<longleftrightarrow> i \<in> set (ws_ids w))"
  proof -
    assume ex: "ws_activate_window i w = Some (w', b)"
    then obtain s ok where s: "fs_activate_window i (ws_floating w) = Some (s, ok)"
      by (auto simp: ws_activate_window_def ask_fs_def bind_eq_Some_conv)
    note f = fs_activate_ids[OF ws_invD(2)[OF inv] ac s]
    have q: "ws_quiet E w (w\<lparr>ws_floating := s\<rparr>)"
      using s by (intro fs_quiet_step[OF inv ac keep, where op = "FActivateWindow i"]) simp_all
    show ?thesis
    proof (cases ok)
      case True
      then have "fs_ids s \<noteq> []" using q f(1) mset_nil[of "fs_ids s"] by (auto simp: ws_quiet_def)
      with q have "ws_quiet E w (w\<lparr>ws_floating := s\<rparr>\<lparr>ws_floating_is_active := FloatYes\<rparr>)" by (intro quiet_fa) auto
      with True s ex f(1) show ?thesis by (auto simp: ws_activate_window_def ask_fs_def ws_ids_def)
    next
      case False
      obtain s' ok' where s': "ss_activate_window i (ws_scrolling w) = (s', ok')" by fastforce
      with False s ex f tiled[of s' FloatNo] ss_activate_ids(1)[OF s'] ss_activate_ids(2)[of i "ws_scrolling w"] quiet_refl[OF inv]
      show ?thesis
        by (cases ok') (auto simp: ws_activate_window_def ask_fs_def ask_ss_def comp_def ws_ids_def)
    qed
  qed
  show "ws_activate_window_without_raising i w = Some (w', b) \<Longrightarrow> ws_quiet E w w' \<and> (b \<longleftrightarrow> i \<in> set (ws_ids w))"
  proof -
    assume ex: "ws_activate_window_without_raising i w = Some (w', b)"
    obtain s ok where s: "fs_activate_window_without_raising i (ws_floating w) = (s, ok)" by fastforce
    have f: "ok \<longleftrightarrow> i \<in> set (fs_ids (ws_floating w))" "\<not> ok \<Longrightarrow> s = ws_floating w"
      using s idx_of_None[of i "ws_floating w"]
      by (auto simp: fs_activate_window_without_raising_def fs_contains_def split: if_splits)
    have q: "ws_quiet E w (w\<lparr>ws_floating := s\<rparr>)"
      using s by (intro fs_quiet_step[OF inv ac keep, where op = "FActivateWithoutRaising i"]) simp_all
    show ?thesis
    proof (cases ok)
      case True
      then have "fs_ids s \<noteq> []" using q f(1) mset_nil[of "fs_ids s"] by (auto simp: ws_quiet_def)
      with q have "ws_quiet E w (w\<lparr>ws_floating := s\<rparr>\<lparr>ws_floating_is_active := FloatYes\<rparr>)" by (intro quiet_fa) auto
      with True s ex f(1) show ?thesis
        by (auto simp: ws_activate_window_without_raising_def ask_fs_def comp_def ws_ids_def)
    next
      case False
      define a where "a = (case ws_floating_is_active w of
            FloatNo \<Rightarrow> FloatNo | FloatNoButRaised \<Rightarrow> FloatNoButRaised | FloatYes \<Rightarrow> FloatNoButRaised)"
      have "a \<noteq> FloatYes" by (simp add: a_def split: floating_active.split)
      obtain s' ok' where s': "ss_activate_window i (ws_scrolling w) = (s', ok')" by fastforce
      with False s ex f tiled[of s' a] \<open>a \<noteq> FloatYes\<close> ss_activate_ids(1)[OF s'] ss_activate_ids(2)[of i "ws_scrolling w"]
        quiet_refl[OF inv]
      show ?thesis
        by (cases ok') (auto simp: ws_activate_window_without_raising_def ask_fs_def ask_ss_def comp_def ws_ids_def a_def[symmetric])
    qed
  qed
qed

end
