(* ===== verification/WorkspaceMoves.thy ===== *)
theory WorkspaceMoves
  imports WorkspaceOps
begin

text \<open>
  The operations of a workspace that leave every window in its space: movement, sizes, commits, refresh,
  interactive resizing, configuration.
\<close>

section \<open>Commands passed to one space\<close>

lemma move_by_quiet:
  assumes "ws_inv E w" "parents_acyclic (fs_tiles (ws_floating w))" "configure_keeps E" "ws_move_by f g w = Some (w', b)"
    and "\<And>s. f s = fs_exec E fop s" "\<And>s. map_option fst (g s) = ms_exec E mop s" "fs_quiet fop" "ms_quiet mop"
  shows "ws_quiet E w w'"
proof (cases "fa_get (ws_floating_is_active w)")
  case True
  then have "try_fs f w = Some w'" using assms(4) by (auto simp: ws_move_by_def)
  from try_fs_quiet[OF assms(1-3) this _ assms(7)] assms(5) show ?thesis by simp
next
  case False
  then have "ask_ss g w = Some (w', b)" using assms(4) by (simp add: ws_move_by_def)
  from ask_ss_quiet[OF assms(1) this _ assms(8)] assms(6) show ?thesis by (metis fst_conv option.map(2))
qed

lemma move_quiet:
  assumes "ws_inv E w" "parents_acyclic (fs_tiles (ws_floating w))" "configure_keeps E"
  shows "ws_move_left E w = Some (w', b) \<Longrightarrow> ws_quiet E w w'"
    "ws_move_right E w = Some (w', b) \<Longrightarrow> ws_quiet E w w'"
    "ws_move_down E w = Some (w', b) \<Longrightarrow> ws_quiet E w w'"
    "ws_move_up E w = Some (w', b) \<Longrightarrow> ws_quiet E w w'"
    "ws_move_left_animated E w = Some (w', b) \<Longrightarrow> ws_quiet E w w'"
    "ws_move_right_animated E w = Some (w', b) \<Longrightarrow> ws_quiet E w w'"
    "ws_move_down_animated E w = Some (w', b) \<Longrightarrow> ws_quiet E w w'"
    "ws_move_up_animated E w = Some (w', b) \<Longrightarrow> ws_quiet E w w'"
  unfolding ws_move_left_def ws_move_right_def ws_move_down_def ws_move_up_def
    ws_move_left_animated_def ws_move_right_animated_def ws_move_down_animated_def ws_move_up_animated_def
         apply (erule move_by_quiet[OF assms, where fop = FMoveLeft and mop = MoveLeft]; simp)
        apply (erule move_by_quiet[OF assms, where fop = FMoveRight and mop = MoveRight]; simp)
       apply (erule move_by_quiet[OF assms, where fop = FMoveDown and mop = MoveDown]; simp)
      apply (erule move_by_quiet[OF assms, where fop = FMoveUp and mop = MoveUp]; simp)
     apply (erule move_by_quiet[OF assms, where fop = FMoveLeft and mop = MoveLeftAnimated]; simp)
    apply (erule move_by_quiet[OF assms, where fop = FMoveRight and mop = MoveRightAnimated]; simp)
   apply (erule move_by_quiet[OF assms, where fop = FMoveDown and mop = MoveDownAnimated]; simp)
  apply (erule move_by_quiet[OF assms, where fop = FMoveUp and mop = MoveUpAnimated]; simp)
  done

lemma tiling_only_quiet:
  assumes "ws_inv E w" "ws_tiling_only f w = Some w'" "\<And>s. f s = ms_exec E op s" "ms_quiet op"
  shows "ws_quiet E w w'"
  using assms(2) try_ss_quiet[OF assms(1) _ _ assms(4), of f w'] assms(3) quiet_refl[OF assms(1)]
  by (auto simp: ws_tiling_only_def split: if_splits)

lemma tiling_commands_quiet:
  assumes "ws_inv E w"
  shows "ws_move_column_to_first E w = Some w' \<Longrightarrow> ws_quiet E w w'"
    "ws_move_column_to_last w = Some w' \<Longrightarrow> ws_quiet E w w'"
    "ws_swap_window_in_direction E d w = Some w' \<Longrightarrow> ws_quiet E w w'"
    "ws_consume_into_column w = Some w' \<Longrightarrow> ws_quiet E w w'"
    "ws_expel_from_column w = Some w' \<Longrightarrow> ws_quiet E w w'"
    "ws_nudge_master_ratio E r w = Some w' \<Longrightarrow> ws_quiet E w w'"
    "ws_consume_or_expel_window_left i w = Some w' \<Longrightarrow> ws_quiet E w w'"
    "ws_consume_or_expel_window_right i w = Some w' \<Longrightarrow> ws_quiet E w w'"
  unfolding ws_move_column_to_first_def ws_move_column_to_last_def ws_swap_window_in_direction_def
    ws_consume_into_column_def ws_expel_from_column_def ws_nudge_master_ratio_def
         apply (erule tiling_only_quiet[OF assms, where op = MoveColumnToFirst]; simp)
        apply (erule tiling_only_quiet[OF assms, where op = MoveColumnToLast]; simp)
       apply (erule tiling_only_quiet[OF assms, where op = "SwapInDirection d"]; simp)
      apply (erule tiling_only_quiet[OF assms, where op = ConsumeIntoColumn]; simp)
     apply (erule tiling_only_quiet[OF assms, where op = ExpelFromColumn]; simp)
    apply (erule try_ss_quiet[OF assms, where op = "NudgeMasterRatio r"]; simp)
  using quiet_refl[OF assms] try_ss_quiet[OF assms, of consume_or_expel_window_left w' ConsumeOrExpelLeft]
    try_ss_quiet[OF assms, of consume_or_expel_window_right w' ConsumeOrExpelRight]
  by (auto simp: ws_consume_or_expel_window_left_def ws_consume_or_expel_window_right_def split: if_splits)

lemma floating_only_quiet:
  assumes "ws_inv E w" "parents_acyclic (fs_tiles (ws_floating w))" "configure_keeps E"
    and "ws_floating_only f i w = Some w'" "\<And>s. f i s = fs_exec E op s" "fs_quiet op"
  shows "ws_quiet E w w'"
  using assms(4) try_fs_quiet[OF assms(1-3) _ _ assms(6), of "f i" w'] assms(5) quiet_refl[OF assms(1)]
  by (auto simp: ws_floating_only_def split: if_splits)

lemma floating_commands_quiet:
  assumes "ws_inv E w" "parents_acyclic (fs_tiles (ws_floating w))" "configure_keeps E"
  shows "ws_center_column E w = Some w' \<Longrightarrow> ws_quiet E w w'"
    "ws_center_window E i w = Some w' \<Longrightarrow> ws_quiet E w w'"
    "ws_toggle_width E b w = Some w' \<Longrightarrow> ws_quiet E w w'"
    "ws_set_column_width E ch w = Some w' \<Longrightarrow> ws_quiet E w w'"
    "ws_set_window_width E i ch w = Some w' \<Longrightarrow> ws_quiet E w w'"
    "ws_set_window_height E i ch w = Some w' \<Longrightarrow> ws_quiet E w w'"
    "ws_toggle_window_width E i b w = Some w' \<Longrightarrow> ws_quiet E w w'"
    "ws_toggle_window_height E i b w = Some w' \<Longrightarrow> ws_quiet E w w'"
  unfolding ws_center_column_def ws_center_window_def ws_toggle_width_def ws_set_column_width_def
    ws_set_window_width_def ws_set_window_height_def ws_toggle_window_width_def ws_toggle_window_height_def
         apply (erule floating_only_quiet[OF assms, where op = "FCenterWindow None"]; simp)
        apply (erule floating_only_quiet[OF assms, where op = "FCenterWindow i"]; simp)
       apply (erule floating_only_quiet[OF assms, where op = "FToggleWidth None b"]; simp)
      apply (erule floating_only_quiet[OF assms, where op = "FSetWidth None ch True"]; simp)
     apply (erule floating_only_quiet[OF assms, where op = "FSetWidth i ch True"]; simp)
    apply (erule floating_only_quiet[OF assms, where op = "FSetHeight i ch True"]; simp)
   apply (erule floating_only_quiet[OF assms, where op = "FToggleWidth i b"]; simp)
  apply (erule floating_only_quiet[OF assms, where op = "FToggleHeight i b"]; simp)
  done

section \<open>Commits, refresh and interactive resizing\<close>

text \<open>Both spaces change.\<close>

lemma quiet_both:
  assumes "ws_inv E w" "ss_inv E s" "mset (ss_ids s) = mset (ss_ids (ws_scrolling w))"
    "ss_config s = ss_config (ws_scrolling w)" "fs_inv E f" "mset (fs_ids f) = mset (fs_ids (ws_floating w))"
    "fs_config f = fs_config (ws_floating w)"
  shows "ws_quiet E w (w\<lparr>ws_scrolling := s, ws_floating := f\<rparr>)"
proof -
  have q: "ws_quiet E w (w\<lparr>ws_scrolling := s\<rparr>)" by (rule quiet_ss[OF assms(1-4)])
  have "ws_quiet E (w\<lparr>ws_scrolling := s\<rparr>) (w\<lparr>ws_scrolling := s\<rparr>\<lparr>ws_floating := f\<rparr>)"
    using assms(5-7) by (intro quiet_fs[OF quiet_inv[OF q]]) simp_all
  from quiet_trans[OF q this] show ?thesis by simp
qed

lemma both_step_quiet:
  assumes "ws_inv E w" "parents_acyclic (fs_tiles (ws_floating w))" "configure_keeps E"
    and "ms_exec E mop (ws_scrolling w) = Some (g (ws_scrolling w))" "ms_quiet mop"
    and "fs_exec E fop (ws_floating w) = Some (f (ws_floating w))" "fs_quiet fop"
  shows "ws_quiet E w (on_fs f (on_ss g w))"
proof -
  have q: "ws_quiet E w (on_ss g w)" using assms(1,4,5) by (rule on_ss_quiet)
  have "ws_quiet E (on_ss g w) (on_fs f (on_ss g w))"
    using assms(2,3,6,7) quiet_inv[OF q] by (intro on_fs_quiet[where op = fop]) (simp_all add: on_ss_def)
  from quiet_trans[OF q this] show ?thesis .
qed

lemma routine_quiet:
  assumes "ws_inv E w" "parents_acyclic (fs_tiles (ws_floating w))" "configure_keeps E"
  shows "ws_quiet E w (ws_advance_animations E w)" "ws_quiet E w (ws_refresh E a f w)" "ws_quiet E w (ws_resize_end j w)"
    and "ws_resize_begin E i e w = Some (w', b) \<Longrightarrow> ws_quiet E w w'"
    and "ws_resize_update E i d w = Some (w', b) \<Longrightarrow> ws_quiet E w w'"
proof -
  show "ws_quiet E w (ws_advance_animations E w)" "ws_quiet E w (ws_refresh E a f w)"
    unfolding ws_advance_animations_def ws_refresh_def
     apply (rule both_step_quiet[OF assms, where mop = AdvanceAnimations and fop = FAdvanceAnimations]; simp)
    apply (rule both_step_quiet[OF assms, where mop = "Refresh (a \<and> \<not> fa_get (ws_floating_is_active w)) f"
        and fop = "FRefresh (a \<and> fa_get (ws_floating_is_active w)) f"]; simp)
    done
  have "ws_quiet E w (on_fs (fs_resize_end j) w)"
    by (rule on_fs_quiet[OF assms, where op = "FResizeEnd j"]) simp_all
  then show "ws_quiet E w (ws_resize_end j w)"
    using quiet_refl[OF assms(1)] by (cases j) (simp_all add: ws_resize_end_def)
  show "ws_resize_begin E i e w = Some (w', b) \<Longrightarrow> ws_quiet E w w'"
    using quiet_refl[OF assms(1)] ask_fs_quiet[OF assms, of "fs_resize_begin E i e" w' b "FResizeBegin i e"]
    by (auto simp: ws_resize_begin_def split: if_splits)
  show "ws_resize_update E i d w = Some (w', b) \<Longrightarrow> ws_quiet E w w'"
    using quiet_refl[OF assms(1)] ask_fs_quiet[OF assms, of "fs_resize_update E i d" w' b "FResizeUpdate i d"]
    by (auto simp: ws_resize_update_def split: if_splits)
qed

lemma update_window_quiet:
  assumes "ws_inv E w" "parents_acyclic (fs_tiles (ws_floating w))" "configure_keeps E" "ws_update_window E i c w = Some w'"
  shows "ws_quiet E w w'"
proof -
  obtain w1 ok where w1: "ask_fs (fs_update_window E i c) w = Some (w1, ok)"
      "(if ok then Some w1 else try_ss (ss_update_window E i c) w1) = Some w'"
    using assms(4) by (auto simp: ws_update_window_def bind_eq_Some_conv)
  have q: "ws_quiet E w w1" by (rule ask_fs_quiet[OF assms(1-3) w1(1), where op = "FUpdateWindow i c"]) simp_all
  from w1(2) q try_ss_quiet[OF quiet_inv[OF q], of "ss_update_window E i c" w' "UpdateWindow i c"] show ?thesis
    by (auto intro: quiet_trans split: if_splits)
qed

lemma open_animation_quiet:
  assumes "ws_inv E w" "parents_acyclic (fs_tiles (ws_floating w))" "configure_keeps E"
    "ws_start_open_animation E i w = Some (w', b)"
  shows "ws_quiet E w w'"
proof -
  obtain w1 ok where w1: "ask_ss (ss_start_open_animation E i) w = Some (w1, ok)"
      "(if ok then Some (w1, True) else ask_fs (fs_start_open_animation E i) w1) = Some (w', b)"
    using assms(4) by (auto simp: ws_start_open_animation_def bind_eq_Some_conv)
  have q: "ws_quiet E w w1" by (rule ask_ss_quiet[OF assms(1) w1(1), where op = "StartOpenAnimation i"]) simp_all
  have f: "ws_floating w1 = ws_floating w" using w1(1) by (auto simp: ask_ss_def)
  from w1(2) q f assms(2) ask_fs_quiet[OF quiet_inv[OF q] _ assms(3), of "fs_start_open_animation E i" w' b "FStartOpenAnimation i"]
  show ?thesis by (auto intro: quiet_trans split: if_splits)
qed

lemma reparent_quiet:
  assumes "ws_inv E w" "configure_keeps E" "try_fs (\<lambda>s. fs_parent_changed p (fs_set_parent i p s)) w = Some w'"
    and "fs_allowed (FReparent i p) (ws_floating w)"
  shows "ws_quiet E w w'"
proof -
  obtain s where s: "fs_exec E (FReparent i p) (ws_floating w) = Some s" "w' = w\<lparr>ws_floating := s\<rparr>"
    using assms(3) by (auto simp: try_fs_def)
  have "fs_after E (FReparent i p) (ws_floating w) s"
    by (rule fs_step[OF ws_invD(2)[OF assms(1)] assms(4,2) s(1)])
  with s(2) fs_config_kept[OF s(1)] show ?thesis
    by (auto simp: fs_after_def intro!: quiet_fs[OF assms(1)])
qed

end
