(* ===== verification/WorkspaceChanges.thy ===== *)
theory WorkspaceChanges
  imports WorkspaceMoves
begin

text \<open>
  The operations of a workspace that change its configuration, its windows, or the space a window is in.
\<close>

section \<open>Configuration\<close>

lemma ss_update_config_config: "ss_config (ss_update_config E vs pa sc opts s) = (vs, pa, sc, opts)"
  by (simp add: ss_config_def ss_update_config_def update_tile_sizes_def Let_def with_columns_def split: option.split list.split)

lemma fs_update_config_config: "fs_config (fs_update_config E vs wa sc opts s) = (vs, wa, sc, opts)"
  by (simp add: fs_config_def fs_update_config_def Let_def)

lemma reconfigured:
  assumes inv: "ss_inv E (ws_scrolling w)" "fs_inv E (ws_floating w)"
    "set (ss_ids (ws_scrolling w)) \<inter> set (fs_ids (ws_floating w)) = {}" "fa_ok w"
    and s: "ws_scrolling w' = ss_update_config E (ws_view_size w') (ws_working_area w') (os_fractional (ws_scale w'))
        (ws_options w') (ws_scrolling w)"
    and f: "ws_floating w' = fs_update_config E (ws_view_size w') (ws_working_area w') (os_fractional (ws_scale w'))
        (ws_options w') (ws_floating w)"
    and o1: "ws_options w' = ws_compute_options (ws_base_options w') (ws_layout_config w') (os_fractional (ws_scale w'))"
    and a: "ws_floating_is_active w' = ws_floating_is_active w"
  shows "ws_inv E w'" "ss_ids (ws_scrolling w') = ss_ids (ws_scrolling w)" "fs_ids (ws_floating w') = fs_ids (ws_floating w)"
proof -
  have c: "ss_inv E (ws_scrolling w')" "ss_ids (ws_scrolling w') = ss_ids (ws_scrolling w)"
    unfolding s using configured[OF inv(1) refl] by blast+
  have d: "fs_inv E (ws_floating w')" "fs_ids (ws_floating w') = fs_ids (ws_floating w)"
    unfolding f using update_config_inv[OF inv(2)] by blast+
  have "ws_config_ok w'"
    unfolding ws_config_ok_def s f ss_update_config_config fs_update_config_config using o1 by simp
  with c d inv a show "ws_inv E w'" by (simp add: ws_inv_def fa_ok_def)
  show "ss_ids (ws_scrolling w') = ss_ids (ws_scrolling w)" "fs_ids (ws_floating w') = fs_ids (ws_floating w)"
    by (rule c(2), rule d(2))
qed

definition ws_settled :: "env \<Rightarrow> workspace \<Rightarrow> workspace \<Rightarrow> bool" where
  "ws_settled E w w' \<longleftrightarrow> ws_inv E w' \<and> ss_ids (ws_scrolling w') = ss_ids (ws_scrolling w) \<and>
     fs_ids (ws_floating w') = fs_ids (ws_floating w)"

lemma settled_same: "ws_settled E w w' \<Longrightarrow> ws_same E w w'"
  by (simp add: ws_settled_def ws_same_def ws_ids_def)

lemma update_config_settled:
  assumes "ss_inv E (ws_scrolling w)" "fs_inv E (ws_floating w)"
    "set (ss_ids (ws_scrolling w)) \<inter> set (fs_ids (ws_floating w)) = {}" "fa_ok w"
  shows "ws_settled E w (ws_update_config E base w)"
  using reconfigured[OF assms, of "ws_update_config E base w"] unfolding ws_settled_def
  by (simp add: ws_update_config_def Let_def)

lemma update_layout_config_settled: "ws_inv E w \<Longrightarrow> ws_settled E w (ws_update_layout_config E part w)"
proof -
  assume inv: "ws_inv E w"
  show ?thesis
    using inv update_config_settled[of E "w\<lparr>ws_layout_config := part\<rparr>" "ws_base_options w"]
    by (simp add: ws_update_layout_config_def Let_def ws_settled_def ws_invD[OF inv] fa_ok_def[of "w\<lparr>ws_layout_config := part\<rparr>"]
        ws_invD(4)[OF inv, unfolded fa_ok_def])
qed

lemma set_view_size_settled:
  assumes inv: "ws_inv E w"
  shows "ws_settled E w (ws_set_view_size E scale transform sz area w)"
proof -
  define w1 where "w1 = w\<lparr>ws_scale := scale, ws_transform := transform, ws_view_size := sz, ws_working_area := area\<rparr>"
  have w1: "ss_inv E (ws_scrolling w1)" "fs_inv E (ws_floating w1)"
    "set (ss_ids (ws_scrolling w1)) \<inter> set (fs_ids (ws_floating w1)) = {}" "fa_ok w1"
    "ws_scrolling w1 = ws_scrolling w" "ws_floating w1 = ws_floating w"
    using ws_invD[OF inv] by (simp_all add: w1_def fa_ok_def)
  define w2 where "w2 = w1\<lparr>ws_scrolling := ss_update_config E sz area (os_fractional scale) (ws_options w) (ws_scrolling w),
      ws_floating := fs_update_config E sz area (os_fractional scale) (ws_options w) (ws_floating w)\<rparr>"
  have "ws_set_view_size E scale transform sz area w =
      (if \<not> (ws_transform w \<noteq> transform \<or> os_integer (ws_scale w) \<noteq> os_integer scale \<or>
             os_fractional (ws_scale w) \<noteq> os_fractional scale) \<and> ws_view_size w = sz \<and> ws_working_area w = area then w
       else if os_fractional (ws_scale w) \<noteq> os_fractional scale then ws_update_config E (ws_base_options w) w1
       else w2)"
    unfolding ws_set_view_size_def Let_def w1_def w2_def by simp
  then consider "ws_set_view_size E scale transform sz area w = w"
    | "ws_set_view_size E scale transform sz area w = ws_update_config E (ws_base_options w) w1"
    | "os_fractional (ws_scale w) = os_fractional scale" "ws_set_view_size E scale transform sz area w = w2"
    by metis
  then show ?thesis
  proof cases
    case 1
    with inv show ?thesis by (simp add: ws_settled_def)
  next
    case 2
    with update_config_settled[OF w1(1-4)] w1(5,6) show ?thesis by (simp add: ws_settled_def)
  next
    case 3
    have "ws_inv E w2 \<and> ss_ids (ws_scrolling w2) = ss_ids (ws_scrolling w1) \<and> fs_ids (ws_floating w2) = fs_ids (ws_floating w1)"
      using reconfigured[OF w1(1-4), of w2] ws_invD(5)[OF inv] 3(1)
      by (simp add: w2_def w1_def ws_config_ok_def)
    with 3(2) w1(5,6) show ?thesis by (simp add: ws_settled_def)
  qed
qed

lemma update_output_size_settled:
  "ws_inv E w \<Longrightarrow> ws_update_output_size E o1 w = Some w' \<Longrightarrow> ws_settled E w w'"
  using set_view_size_settled[of E w] by (auto simp: ws_update_output_size_def split: option.splits)

lemma settled_upd:
  assumes "ws_inv E w"
  shows "ws_settled E w (w\<lparr>ws_output := x\<rparr>)" "ws_settled E w (w\<lparr>ws_original_output := y\<rparr>)" "ws_settled E w (w\<lparr>ws_name := n\<rparr>)"
  using assms by (simp_all add: ws_settled_def ws_inv_def fa_ok_def ws_config_ok_def)

lemma settled_trans: "ws_settled E w w' \<Longrightarrow> ws_settled E w' w'' \<Longrightarrow> ws_settled E w w''"
  by (simp add: ws_settled_def)

lemma settled_inv: "ws_settled E w w' \<Longrightarrow> ws_inv E w'"
  by (simp add: ws_settled_def)

lemma settled_refl: "ws_inv E w \<Longrightarrow> ws_settled E w w"
  by (simp add: ws_settled_def)

lemma set_output_settled:
  assumes inv: "ws_inv E w" and ex: "ws_set_output E out w = Some w'"
  shows "ws_settled E w w'"
proof -
  define w1 where "w1 = w\<lparr>ws_output := map_option ou_id out\<rparr>"
  note q = settled_upd(1)[OF inv, of "map_option ou_id out", folded w1_def]
  show ?thesis
  proof (cases out)
    case None
    with ex q settled_refl[OF inv] show ?thesis by (auto simp: ws_set_output_def w1_def Let_def split: if_splits)
  next
    case (Some o1)
    define w2 where "w2 = (if output_id_matches (ws_original_output w1) o1
        then w1\<lparr>ws_original_output := output_id_new o1\<rparr> else w1)"
    have "ws_settled E w w2" using q settled_upd(2)[OF settled_inv[OF q]] by (auto simp: w2_def intro: settled_trans)
    moreover have "w' = w \<or> ws_update_output_size E o1 w2 = Some w'"
      using ex Some by (auto simp: ws_set_output_def Let_def w1_def w2_def split: if_splits)
    ultimately show ?thesis using update_output_size_settled[OF settled_inv] settled_trans settled_refl[OF inv] by metis
  qed
qed

section \<open>Adding\<close>

text \<open>What adding a window does.\<close>

definition ws_added :: "env \<Rightarrow> nat \<Rightarrow> workspace \<Rightarrow> workspace \<Rightarrow> bool" where
  "ws_added E i w w' \<longleftrightarrow> ws_inv E w' \<and> mset (ws_ids w') = add_mset i (mset (ws_ids w))"

lemma activated_simps [simp]:
  "ws_scrolling (ws_activated b a w) = ws_scrolling w" "ws_floating (ws_activated b a w) = ws_floating w"
  "ws_ids (ws_activated b a w) = ws_ids w" "ws_config_ok (ws_activated b a w) = ws_config_ok w"
  "ws_floating_is_active (ws_activated b a w) = (if b then a else ws_floating_is_active w)"
  by (simp_all add: ws_activated_def ws_ids_def ws_config_ok_def)

lemma ws_ids_upd [simp]:
  "ws_ids (w\<lparr>ws_scrolling := s\<rparr>) = ss_ids s @ fs_ids (ws_floating w)"
  "ws_ids (w\<lparr>ws_floating := f\<rparr>) = ss_ids (ws_scrolling w) @ fs_ids f"
  by (simp_all add: ws_ids_def)

lemma config_ok_upd:
  "ws_config_ok w \<Longrightarrow> ss_config s = ss_config (ws_scrolling w) \<Longrightarrow> ws_config_ok (w\<lparr>ws_scrolling := s\<rparr>)"
  "ws_config_ok w \<Longrightarrow> fs_config f = fs_config (ws_floating w) \<Longrightarrow> ws_config_ok (w\<lparr>ws_floating := f\<rparr>)"
  by (simp_all add: ws_config_ok_def)

text \<open>The law does not need the focus flag to be right before: floating may just have lost its last window.\<close>

lemma add_scrolling_law:
  assumes inv: "ss_inv E (ws_scrolling w)" "fs_inv E (ws_floating w)"
    "set (ss_ids (ws_scrolling w)) \<inter> set (fs_ids (ws_floating w)) = {}" "ws_config_ok w"
    and fa: "\<not> a \<Longrightarrow> fs_ids (ws_floating w) = [] \<longrightarrow> ws_floating_is_active w \<noteq> FloatYes"
    and new: "tile_id t \<notin> set (ws_ids w)"
  shows "ws_added E (tile_id t) w (ws_add_scrolling E t a width full w)"
proof -
  let ?s = "ss_add_tile E t a width full (ws_scrolling w)"
  let ?w = "ws_add_scrolling E t a width full w"
  have n: "tile_id t \<notin> set (ss_ids (ws_scrolling w))" "tile_id t \<notin> set (fs_ids (ws_floating w))"
    using new by (simp_all add: ws_ids_def)
  note l = ss_put_law[OF inv(1) n(1), of E a width full]
  have w: "ws_scrolling ?w = ?s" "ws_floating ?w = ws_floating w"
    "ws_floating_is_active ?w = (if a then FloatNo else ws_floating_is_active w)"
    by (simp_all add: ws_add_scrolling_def on_ss_def)
  have c: "ws_config_ok ?w"
    using config_ok_upd(1)[OF inv(4), of ?s] by (simp add: ws_add_scrolling_def on_ss_def ss_add_tile_def)
  have fa': "fa_ok ?w" using fa by (auto simp: fa_ok_def w l)
  show ?thesis using l inv(2,3) n fa' c unfolding ws_added_def ws_inv_def w by (simp add: ws_ids_def w)
qed

lemma add_floating_law:
  assumes inv: "ss_inv E (ws_scrolling w)" "fs_inv E (ws_floating w)"
    "set (ss_ids (ws_scrolling w)) \<inter> set (fs_ids (ws_floating w)) = {}" "ws_config_ok w"
    and new: "tile_id t \<notin> set (ws_ids w)" and fit: "fs_fits next_to t (ws_floating w)"
  shows "\<exists>w'. ws_add_floating E next_to t a w = Some w' \<and> ws_added E (tile_id t) w w'"
proof -
  have n: "tile_id t \<notin> set (ss_ids (ws_scrolling w))" "tile_id t \<notin> set (fs_ids (ws_floating w))"
    using new by (simp_all add: ws_ids_def)
  obtain f where f: "fs_put E next_to t a (ws_floating w) = Some f"
    using floating.add_law[OF inv(2) n(2) fit] by blast
  note l = floating.added[OF inv(2) n(2) fit f]
  define w' where "w' = ws_activated (a \<or> ss_is_empty (ws_scrolling w)) FloatYes (w\<lparr>ws_floating := f\<rparr>)"
  have "fs_config f = fs_config (ws_floating w)"
    using f fs_config_kept[of E "FAddTileAbove (the next_to) t a" "ws_floating w" f]
      fs_config_kept[of E "FAddTile t a" "ws_floating w" f]
    by (cases next_to) (auto simp: fs_put_def)
  then have c: "ws_config_ok w'" using config_ok_upd(2)[OF inv(4)] by (simp add: w'_def)
  have fa: "fa_ok w'" using l(5) by (auto simp: fa_ok_def w'_def ss_empty_ids)
  have w': "ws_scrolling w' = ws_scrolling w" "ws_floating w' = f" by (simp_all add: w'_def)
  have "ws_added E (tile_id t) w w'"
    using l inv(1,3) n fa c unfolding ws_added_def ws_inv_def w' by (simp add: ws_ids_def w')
  then show ?thesis using f by (simp add: ws_add_floating_def try_fs_def w'_def)
qed

end
