(* ===== verification/WorkspaceTransfers.thy ===== *)
theory WorkspaceTransfers
  imports WorkspaceChanges
begin

text \<open>
  Adding a window to a workspace and removing it, and a window that changes between the tiling and the
  floating space: no window is lost, duplicated or left in both spaces, and the flag of the active space
  stays right.
\<close>

section \<open>Adding\<close>

lemma acyclic_cons:
  assumes "parents_acyclic (t # us)" "tkey u = tkey t" "tkey ` set ts \<subseteq> tkey ` set us"
  shows "parents_acyclic (u # ts)"
  using assms(2,3) by (intro acyclic_subset[OF assms(1)]) auto

lemma added_fields:
  "tile_id (t\<lparr>tl_restore_to_floating := b\<rparr>) = tile_id t" "tkey (t\<lparr>tl_restore_to_floating := b\<rparr>) = tkey t"
  "tile_id (t\<lparr>tl_floating_pos := p\<rparr>) = tile_id t" "tkey (t\<lparr>tl_floating_pos := p\<rparr>) = tkey t"
  by (simp_all add: tkey_def)

lemma dialog_pos_some:
  "i \<in> set (ss_ids (ws_scrolling w)) \<Longrightarrow> ws_dialog_pos E i t w \<noteq> None"
proof -
  assume "i \<in> set (ss_ids (ws_scrolling w))"
  then obtain c where c: "c \<in> set (columns (ws_scrolling w))" "column_id c = i" by (auto simp: ss_ids_def)
  let ?ps = "tiles_with_render_positions (ws_scrolling w)"
  have l: "length (column_layout (ws_scrolling w)) = length (columns (ws_scrolling w))"
    using column_layout_length by blast
  obtain k where k: "k < length (columns (ws_scrolling w))" "columns (ws_scrolling w) ! k = c"
    using c(1) by (auto simp: in_set_conv_nth)
  then have "?ps ! k = (co_tile c, fst (snd (column_layout (ws_scrolling w) ! k)), True)" "k < length ?ps"
    using l by (simp_all add: tiles_with_render_positions_def case_prod_beta)
  then have "(co_tile c, fst (snd (column_layout (ws_scrolling w) ! k)), True) \<in> set ?ps" by (metis nth_mem)
  then have "find (\<lambda>(u, _, _). tile_id u = i) ?ps \<noteq> None" using c(2) unfolding find_None_iff by fastforce
  then show ?thesis by (auto simp: ws_dialog_pos_def Let_def)
qed

lemma add_tile_added:
  assumes inv: "ws_inv E w" and new: "tile_id t \<notin> set (ws_ids w)" and ac: "parents_acyclic (t # ws_tiles w)"
    and to: "\<And>i. target = AddNextTo i \<Longrightarrow> i \<in> set (ws_ids w)"
  shows "\<exists>w'. ws_add_tile E t target activate width full is_floating w = Some w' \<and> ws_added E (tile_id t) w w'"
proof -
  note i = ws_invD[OF inv]
  define u where "u = t\<lparr>tl_restore_to_floating := is_floating\<rparr>"
  have new': "tile_id u \<notin> set (ws_ids w)" "tile_id (u\<lparr>tl_floating_pos := p\<rparr>) \<notin> set (ws_ids w)" for p
    using new by (simp_all add: u_def added_fields)
  have s: "ws_added E (tile_id t) w (ws_add_scrolling E u a width full w)" for a
    using add_scrolling_law[OF i(1,2,3,5) _ new'(1), of a width full] i(4) by (simp add: u_def added_fields fa_ok_def)
  have fit: "fs_fits n v (ws_floating w)" if "tkey v = tkey t" "\<forall>i\<in>set_option n. i \<in> set (fs_ids (ws_floating w))" for n v
    unfolding fs_fits_def using that by (auto simp: ws_tiles_def intro!: acyclic_cons[OF ac])
  have f: "\<exists>w'. ws_add_floating E n u a w = Some w' \<and> ws_added E (tile_id t) w w'"
    if "\<forall>i\<in>set_option n. i \<in> set (fs_ids (ws_floating w))" for n a
    using add_floating_law[OF i(1,2,3,5) new'(1) fit] that by (simp add: u_def added_fields)
  have p: "\<exists>w'. ws_add_floating E None (u\<lparr>tl_floating_pos := q\<rparr>) a w = Some w' \<and> ws_added E (tile_id t) w w'" for q a
    using add_floating_law[OF i(1,2,3,5) new'(2) fit] by (simp add: u_def added_fields)
  show ?thesis
  proof (cases target)
    case (AddNextTo n)
    have n: "n \<in> set (ws_ids w)" by (rule to[OF AddNextTo])
    then have "ws_active_window w \<noteq> None" using ws_active_some(1)[OF inv] by (auto simp: ws_active_id_def)
    then obtain a where a: "(if activate = ActSmart then map_option (\<lambda>x. mw_id x = n) (ws_active_window w)
        else Some (map_smart False activate)) = Some a" by (cases "activate = ActSmart") auto
    have "n \<notin> set (fs_ids (ws_floating w)) \<Longrightarrow> ws_dialog_pos E n u w \<noteq> None"
      using n by (intro dialog_pos_some) (simp add: ws_ids_def)
    with s[of a] f[of "Some n" a] p[of _ a] show ?thesis
      unfolding ws_add_tile_def Let_def AddNextTo u_def[symmetric]
      by (simp only: a Option.bind.simps add_target.case) (auto simp: fs_has_ids)
  qed (use s f[of None] in \<open>auto simp: ws_add_tile_def Let_def u_def[symmetric]\<close>)
qed

lemma add_column_added:
  assumes inv: "ws_inv E w" and new: "column_id c \<notin> set (ws_ids w)" and nb: "not_both c"
  shows "ws_added E (column_id c) w (ws_add_column E c a w)"
proof -
  note i = ws_invD[OF inv]
  have n: "column_id c \<notin> set (ss_ids (ws_scrolling w))" "column_id c \<notin> set (fs_ids (ws_floating w))"
    using new by (simp_all add: ws_ids_def)
  let ?s = "add_column E c a (ws_scrolling w)"
  let ?w = "ws_add_column E c a w"
  have s: "ss_inv E ?s" "ss_ids ?s = ss_ids (ws_scrolling w) @ [column_id c]"
    using added_inv[OF i(1) n(1) nb] added_abs[OF i(1)] by (auto simp: ss_abs_def spec_add_def)
  have w: "ws_scrolling ?w = ?s" "ws_floating ?w = ws_floating w"
    "ws_floating_is_active ?w = (if a then FloatNo else ws_floating_is_active w)"
    by (simp_all add: ws_add_column_def on_ss_def)
  have c: "ws_config_ok ?w"
    using config_ok_upd(1)[OF i(5), of ?s] by (simp add: ws_add_column_def on_ss_def)
  have fa: "fa_ok ?w" using i(4) by (auto simp: fa_ok_def w s)
  show ?thesis using s i(2,3) n fa c unfolding ws_added_def ws_inv_def w by (simp add: ws_ids_def w)
qed

lemma add_to_column_added:
  assumes "ws_inv E w" "tile_id t \<notin> set (ws_ids w)"
  shows "ws_added E (tile_id t) w (ws_add_tile_to_column E t a w)"
proof -
  let ?c = "column_new_with_tile E t (ss_view_size (ws_scrolling w)) (ss_working_area (ws_scrolling w))
      (ss_parent_area (ws_scrolling w)) (ss_scale (ws_scrolling w)) (Proportion (ss_master_ratio (ws_scrolling w))) False"
  have "ws_add_tile_to_column E t a w = ws_add_column E ?c a w"
    by (simp add: ws_add_tile_to_column_def ws_add_column_def on_ss_def ss_add_tile_to_column_def)
  with add_column_added[OF assms(1), of ?c a] assms(2) column_new_not_both show ?thesis by simp
qed

section \<open>Removing\<close>

definition ws_removed :: "env \<Rightarrow> nat \<Rightarrow> workspace \<Rightarrow> workspace \<Rightarrow> bool" where
  "ws_removed E i w w' \<longleftrightarrow> ws_inv E w' \<and> mset (ws_ids w) = add_mset i (mset (ws_ids w'))"

lemma focus_after_simps [simp]:
  "ws_scrolling (ws_update_focus_after_removing b w) = ws_scrolling w"
  "ws_floating (ws_update_focus_after_removing b w) = ws_floating w"
  "ws_ids (ws_update_focus_after_removing b w) = ws_ids w"
  "ws_config_ok (ws_update_focus_after_removing b w) = ws_config_ok w"
  by (simp_all add: ws_update_focus_after_removing_def ws_ids_def ws_config_ok_def)

lemma remove_floating_law:
  assumes inv: "ws_inv E w" and r: "fs_take E i (ws_floating w) = Some (t, f)"
  shows "ws_removed E i w (ws_update_focus_after_removing True (w\<lparr>ws_floating := f\<rparr>))"
proof -
  note i = ws_invD[OF inv]
  note m = floating.removed[OF i(2) r]
  obtain rt where "fs_remove_tile E i (ws_floating w) = Some (rt, f)" using r by (auto simp: fs_take_def)
  then have c: "ws_config_ok (w\<lparr>ws_floating := f\<rparr>)"
    using config_ok_upd(2)[OF i(5)] fs_config_removed by blast
  let ?w = "ws_update_focus_after_removing True (w\<lparr>ws_floating := f\<rparr>)"
  have "fa_ok ?w"
    using i(4) m by (auto simp: fa_ok_def ws_update_focus_after_removing_def fs_empty_ids split: if_splits)
  with i(1,3) m c show ?thesis unfolding ws_removed_def ws_inv_def by (auto simp: ws_ids_def)
qed

lemma remove_tiled_law:
  assumes inv: "ws_inv E w" and r: "ss_take E i (ws_scrolling w) = Some (t, s)"
  shows "ws_removed E i w (ws_update_focus_after_removing False (w\<lparr>ws_scrolling := s\<rparr>))"
proof -
  note i = ws_invD[OF inv]
  note m = tiling.removed[OF i(1) r]
  obtain rt where "ss_remove_tile E i (ws_scrolling w) = Some (rt, s)" using r by (auto simp: ss_take_def)
  then have c: "ws_config_ok (w\<lparr>ws_scrolling := s\<rparr>)"
    using config_ok_upd(1)[OF i(5)] ss_config_removed by blast
  let ?w = "ws_update_focus_after_removing False (w\<lparr>ws_scrolling := s\<rparr>)"
  have "fa_ok ?w"
    using i(4) m by (auto simp: fa_ok_def ws_update_focus_after_removing_def fs_empty_ids ss_empty_ids split: if_splits)
  with i(2,3) m c show ?thesis unfolding ws_removed_def ws_inv_def by (auto simp: ws_ids_def)
qed

lemma remove_tile_removed:
  assumes inv: "ws_inv E w" and ex: "ws_remove_tile E i w = Some (rt, w')"
  shows "ws_removed E i w w' \<and> tile_id (rt_tile rt) = i"
proof (cases "fs_has_window i (ws_floating w)")
  case True
  then obtain f where f: "fs_remove_tile E i (ws_floating w) = Some (rt, f)"
      "w' = ws_update_focus_after_removing True (w\<lparr>ws_floating := f\<rparr>)"
    using ex by (auto simp: ws_remove_tile_def Let_def bind_eq_Some_conv)
  then have "fs_take E i (ws_floating w) = Some (rt_tile rt, f)" by (simp add: fs_take_def)
  with f(2) remove_floating_law[OF inv this] floating.removed(2)[OF ws_invD(2)[OF inv] this] show ?thesis by simp
next
  case False
  then obtain s where s: "ss_remove_tile E i (ws_scrolling w) = Some (rt, s)"
      "w' = ws_update_focus_after_removing False (w\<lparr>ws_scrolling := s\<rparr>)"
    using ex by (auto simp: ws_remove_tile_def Let_def bind_eq_Some_conv)
  then have "ss_take E i (ws_scrolling w) = Some (rt_tile rt, s)" by (simp add: ss_take_def)
  with s(2) remove_tiled_law[OF inv this] tiling.removed(2)[OF ws_invD(1)[OF inv] this] show ?thesis by simp
qed

lemma remove_active_removed:
  assumes inv: "ws_inv E w" and ex: "ws_remove_active_tile E w = Some (rt, w')"
  shows "case rt of None \<Rightarrow> w' = w \<and> ws_ids w = [] | Some r \<Rightarrow>
    ws_removed E (tile_id (rt_tile r)) w w' \<and> ws_active_id w = Some (tile_id (rt_tile r))"
proof (cases "ws_floating_is_active w = FloatYes")
  case True
  note i = ws_invD[OF inv]
  have ne: "fs_ids (ws_floating w) \<noteq> []" using i(4) True by (auto simp: fa_ok_def)
  then obtain j where j: "fs_active_window_id (ws_floating w) = Some j"
    using floating.active_none[OF i(2)] by auto
  with True ex obtain r f where f: "fs_remove_tile E j (ws_floating w) = Some (r, f)" "rt = Some r"
      "w' = ws_update_focus_after_removing True (w\<lparr>ws_floating := f\<rparr>)"
    by (auto simp: ws_remove_active_tile_def Let_def fa_get_def fs_remove_active_tile_def bind_eq_Some_conv)
  then have t: "fs_take E j (ws_floating w) = Some (rt_tile r, f)" by (simp add: fs_take_def)
  from remove_floating_law[OF inv t] floating.removed(2)[OF i(2) t] f(2,3) j True show ?thesis
    by (simp add: ws_active_id_eq[OF inv])
next
  case False
  note i = ws_invD[OF inv]
  show ?thesis
  proof (cases "focused_column (ws_scrolling w)")
    case None
    then have "ss_active_id (ws_scrolling w) = None" by (simp add: ss_active_id_def ss_active_window_def)
    then have "ws_ids w = []" using ws_active_some(1)[OF inv] False by (simp add: ws_active_id_eq[OF inv])
    moreover have "rt = None \<and> w' = w"
      using ex None False by (auto simp: ws_remove_active_tile_def Let_def fa_get_def ss_remove_active_tile_def)
    ultimately show ?thesis by simp
  next
    case (Some c)
    with ex False obtain r s where s: "ss_remove_tile E (column_id c) (ws_scrolling w) = Some (r, s)" "rt = Some r"
        "w' = ws_update_focus_after_removing False (w\<lparr>ws_scrolling := s\<rparr>)"
      by (auto simp: ws_remove_active_tile_def Let_def fa_get_def ss_remove_active_tile_def bind_eq_Some_conv)
    then have t: "ss_take E (column_id c) (ws_scrolling w) = Some (rt_tile r, s)" by (simp add: ss_take_def)
    from remove_tiled_law[OF inv t] tiling.removed(2)[OF i(1) t] s(2,3) Some False show ?thesis
      by (simp add: ws_active_id_eq[OF inv] ss_active_id_def ss_active_window_def)
  qed
qed

text \<open>\<open>remove_active_column\<close> takes the focused column of the tiling space, and nothing when floating is active.\<close>

lemma remove_active_column_removed:
  assumes inv: "ws_inv E w" and ex: "ws_remove_active_column E w = Some (c, w')"
  shows "case c of None \<Rightarrow> w' = w \<and> (ws_floating_is_active w = FloatYes \<or> ws_ids w = []) | Some c \<Rightarrow>
    ws_removed E (column_id c) w w' \<and> ws_active_id w = Some (column_id c)"
proof (cases "ws_floating_is_active w = FloatYes")
  case True
  with ex show ?thesis by (simp add: ws_remove_active_column_def fa_get_def)
next
  case False
  note i = ws_invD[OF inv]
  obtain s where s: "ss_remove_active_column E (ws_scrolling w) = Some (c, s)"
      "w' = (case c of None \<Rightarrow> w\<lparr>ws_scrolling := s\<rparr>
        | Some c \<Rightarrow> ws_update_focus_after_removing False (w\<lparr>ws_scrolling := s\<rparr>))"
    using ex False by (auto simp: ws_remove_active_column_def fa_get_def Let_def bind_eq_Some_conv split: option.splits)
  show ?thesis
  proof (cases "active_column_idx (ws_scrolling w)")
    case None
    then have "c = None \<and> s = ws_scrolling w"
      using s(1) by (auto simp: ss_remove_active_column_def active_column_idx_def split: focus.splits)
    moreover have "ws_active_id w = None"
      using None False by (simp add: ws_active_id_eq[OF inv] ss_active_cursor[OF i(1)])
    ultimately show ?thesis using s(2) ws_active_some(1)[OF inv] by simp
  next
    case (Some k)
    have k: "k < length (columns (ws_scrolling w))" using inv_cursor[OF i(1)] Some by (simp add: ss_ids_def)
    obtain c1 where c1: "c = Some c1" "take_column_at E k (ws_scrolling w) = Some (c1, s)"
      using s(1) Some by (auto simp: ss_remove_active_column_def active_column_idx_def bind_eq_Some_conv split: focus.splits)
    have id: "column_id c1 = ss_ids (ws_scrolling w) ! k" using took_column[OF i(1) c1(2)] by simp
    have "position (\<lambda>d. column_id d = column_id c1) (columns (ws_scrolling w)) = Some k"
    proof (cases "position (\<lambda>d. column_id d = column_id c1) (columns (ws_scrolling w))")
      case None
      with id k show ?thesis by (auto simp: position_None ss_ids_def)
    next
      case (Some j)
      have "distinct (ss_ids (ws_scrolling w))" using i(1) by (simp add: ss_inv_def)
      with position_Some[OF Some] id k show ?thesis using Some by (auto simp: ss_ids_def distinct_conv_nth)
    qed
    with c1(2) have t: "ss_take E (column_id c1) (ws_scrolling w) = Some (co_tile c1, s)"
      by (simp add: ss_take_def ss_remove_tile_def ss_remove_tile_by_idx_def)
    from remove_tiled_law[OF inv t] s(2) c1(1) id Some False show ?thesis
      by (simp add: ws_active_id_eq[OF inv] ss_active_cursor[OF i(1)])
  qed
qed

end
