(* ===== verification/WorkspaceFloating.thy ===== *)
theory WorkspaceFloating
  imports WorkspaceTransfers
begin

text \<open>
  A window that changes between the tiling and the floating space of its workspace, by itself or because it
  becomes fullscreen or maximized or stops to be.
\<close>

section \<open>A change of one tile\<close>

lemma update_tile_quiet:
  assumes inv: "ws_inv E w" and keep: "\<And>t t'. f t = Some t' \<Longrightarrow> keeps E t t'" and ex: "ws_update_tile i f w = Some w'"
  shows "ws_quiet E w w'"
proof (cases "fs_idx_of i (ws_floating w)")
  case None
  then obtain s where s: "update_column_by_id i f (ws_scrolling w) = Some s" "w' = w\<lparr>ws_scrolling := s\<rparr>"
    using ex by (auto simp: ws_update_tile_def try_ss_def ss_update_tile_def split: if_splits)
  have "skeleton s = skeleton (ws_scrolling w)"
    by (rule update_column_by_id_skel[OF s(1)]) (use keep in \<open>auto simp: keeps_def tile_id_key\<close>)
  from quiet_ss[OF inv _ _ skeleton_config[OF this]] skeleton_inv[OF this, of E] skeleton_ids[OF this] ws_invD(1)[OF inv]
  show ?thesis by (simp add: s(2))
next
  case (Some k)
  then obtain t where t: "f (fs_tiles (ws_floating w) ! k) = Some t"
      "w' = w\<lparr>ws_floating := (ws_floating w)\<lparr>fs_tiles := (fs_tiles (ws_floating w))[k := t]\<rparr>\<rparr>"
    using ex by (auto simp: ws_update_tile_def on_fs_def bind_eq_Some_conv)
  from inv_keeps[OF ws_invD(2)[OF inv] _ keep[OF t(1)]] idx_of_Some[OF Some] show ?thesis
    unfolding t(2) by (intro quiet_fs[OF inv]) simp_all
qed

lemma ss_update_tile_quiet:
  assumes inv: "ws_inv E w" and keep: "\<And>t t'. f t = Some t' \<Longrightarrow> tile_id t' = tile_id t"
    and ex: "try_ss (ss_update_tile i f) w = Some w'"
  shows "ws_quiet E w w'"
proof -
  obtain s where s: "update_column_by_id i f (ws_scrolling w) = Some s" "w' = w\<lparr>ws_scrolling := s\<rparr>"
    using ex by (auto simp: try_ss_def ss_update_tile_def split: if_splits)
  have "skeleton s = skeleton (ws_scrolling w)" by (rule update_column_by_id_skel[OF s(1) keep])
  from quiet_ss[OF inv _ _ skeleton_config[OF this]] skeleton_inv[OF this, of E] skeleton_ids[OF this] ws_invD(1)[OF inv]
  show ?thesis by (simp add: s(2))
qed

text \<open>A change of one tile leaves the active window, too.\<close>

lemma update_tile_active:
  assumes inv: "ws_inv E w" and keep: "\<And>t t'. f t = Some t' \<Longrightarrow> keeps E t t'" and ex: "ws_update_tile i f w = Some w'"
  shows "ws_active_id w' = ws_active_id w"
proof -
  have inv': "ws_inv E w'" by (rule quiet_inv[OF update_tile_quiet[OF assms]])
  have fa: "ws_floating_is_active w' = ws_floating_is_active w"
      "fs_active_window_id (ws_floating w') = fs_active_window_id (ws_floating w)"
    using ex by (auto simp: ws_update_tile_def on_fs_def try_ss_def bind_eq_Some_conv split: option.splits)
  have "ss_active_id (ws_scrolling w') = ss_active_id (ws_scrolling w)"
  proof (cases "fs_idx_of i (ws_floating w)")
    case None
    then obtain s where s: "update_column_by_id i f (ws_scrolling w) = Some s" "ws_scrolling w' = s"
      using ex by (auto simp: ws_update_tile_def try_ss_def ss_update_tile_def split: if_splits)
    have sk: "skeleton s = skeleton (ws_scrolling w)"
      by (rule update_column_by_id_skel[OF s(1)]) (use keep in \<open>auto simp: keeps_def tile_id_key\<close>)
    then have "ss_inv E s" "ss_abs s = ss_abs (ws_scrolling w)"
      using skeleton_inv[OF sk] ws_invD(1)[OF inv] skeleton_abs[OF sk] by blast+
    with s(2) ss_active_cursor ws_invD(1)[OF inv] show ?thesis by (simp add: ss_abs_def)
  next
    case (Some k)
    with ex show ?thesis by (auto simp: ws_update_tile_def on_fs_def bind_eq_Some_conv)
  qed
  with fa show ?thesis by (simp add: ws_active_id_eq[OF inv] ws_active_id_eq[OF inv'])
qed

section \<open>From floating to tiling\<close>

text \<open>What a change of space does: the windows of the workspace stay, the named one is on the other side.\<close>

definition ws_moved_to_tiling :: "env \<Rightarrow> nat \<Rightarrow> workspace \<Rightarrow> workspace \<Rightarrow> bool" where
  "ws_moved_to_tiling E i w w' \<longleftrightarrow> ws_same E w w' \<and> i \<in> set (ss_ids (ws_scrolling w')) \<and>
     set (fs_ids (ws_floating w')) = set (fs_ids (ws_floating w)) - {i} \<and>
     set (ss_ids (ws_scrolling w')) = insert i (set (ss_ids (ws_scrolling w)))"

definition ws_moved_to_floating :: "env \<Rightarrow> nat \<Rightarrow> workspace \<Rightarrow> workspace \<Rightarrow> bool" where
  "ws_moved_to_floating E i w w' \<longleftrightarrow> ws_same E w w' \<and> i \<in> set (fs_ids (ws_floating w')) \<and>
     set (ss_ids (ws_scrolling w')) = set (ss_ids (ws_scrolling w)) - {i} \<and>
     set (fs_ids (ws_floating w')) = insert i (set (fs_ids (ws_floating w)))"

lemma float_to_tile_law:
  assumes inv: "ws_inv E w" and active: "\<not> a \<Longrightarrow> ws_active_id w \<noteq> Some i"
    and ex: "ws_float_to_tile E i a w = Some w'"
  shows "ws_moved_to_tiling E i w w' \<and> ws_active_id w' = (if a then Some i else ws_active_id w)"
proof -
  note i = ws_invD[OF inv]
  obtain rt f where rt: "fs_remove_tile E i (ws_floating w) = Some (rt, f)"
      "w' = ws_add_scrolling E (rt_tile rt) a (rt_width rt) (rt_is_full_width rt) (w\<lparr>ws_floating := f\<rparr>)"
    using ex by (auto simp: ws_float_to_tile_def bind_eq_Some_conv)
  then have t: "fs_take E i (ws_floating w) = Some (rt_tile rt, f)" by (simp add: fs_take_def)
  note m = floating.removed[OF i(2) t]
  let ?w = "w\<lparr>ws_floating := f\<rparr>"
  have w: "ss_inv E (ws_scrolling ?w)" "fs_inv E (ws_floating ?w)"
    "set (ss_ids (ws_scrolling ?w)) \<inter> set (fs_ids (ws_floating ?w)) = {}" "ws_config_ok ?w"
    using i m config_ok_upd(2)[OF i(5) fs_config_removed[OF rt(1)]] by auto
  have fa: "\<not> a \<Longrightarrow> fs_ids (ws_floating ?w) = [] \<longrightarrow> ws_floating_is_active ?w \<noteq> FloatYes"
  proof (intro impI notI)
    assume a: "\<not> a" and e: "fs_ids (ws_floating ?w) = []" and y: "ws_floating_is_active ?w = FloatYes"
    have "fs_active_window_id (ws_floating w) \<noteq> Some i" using active[OF a] y by (simp add: ws_active_id_eq[OF inv])
    moreover have "fs_active_window_id (ws_floating w) \<noteq> None" using floating.active_none[OF i(2)] m(4) by auto
    ultimately show False using m(1,7) e floating.active_none[OF m(1)] by auto
  qed
  have new: "tile_id (rt_tile rt) \<notin> set (ws_ids ?w)" using m i(3) by (auto simp: ws_ids_def)
  from add_scrolling_law[OF w fa new, where width = "rt_width rt" and full = "rt_is_full_width rt"]
  have ad: "ws_added E i ?w w'" using rt(2) m(2) by simp
  have "ws_same E w w'" using ad m(3) by (simp add: ws_same_def ws_added_def ws_ids_def[of w])
  moreover have w': "ss_ids (ws_scrolling w') = ss_ids (ws_scrolling w) @ [i]" "ws_floating w' = f"
    "ss_active_id (ws_scrolling w') = (if a \<or> ss_ids (ws_scrolling w) = [] then Some i else ss_active_id (ws_scrolling w))"
    using ss_put_law[OF i(1), of "rt_tile rt" E a "rt_width rt" "rt_is_full_width rt"] new m(2)
    by (simp_all add: rt(2) ws_add_scrolling_def on_ss_def ws_ids_def)
  moreover have "ws_active_id w' = (if a then Some i else ws_active_id w)"
  proof -
    have inv': "ws_inv E w'" using ad by (simp add: ws_added_def)
    have fl: "ws_floating_is_active w' = (if a then FloatNo else ws_floating_is_active w)"
      by (simp add: rt(2) ws_add_scrolling_def on_ss_def)
    have "ws_floating_is_active w = FloatYes" if "ss_ids (ws_scrolling w) = []"
      using i(4) that m(4) by (auto simp: fa_ok_def split: if_splits)
    with active fl w' m(7) show ?thesis
      by (auto simp: ws_active_id_eq[OF inv] ws_active_id_eq[OF inv'])
  qed
  ultimately show ?thesis using m by (auto simp: ws_moved_to_tiling_def)
qed

section \<open>From tiling to floating\<close>

lemma with_floating_pos_key:
  "tile_id (ws_with_floating_pos E p t w) = tile_id t" "tkey (ws_with_floating_pos E p t w) = tkey t"
  by (simp_all add: ws_with_floating_pos_def Let_def added_fields split: option.split)

lemma stop_move_key: "tkey (stop_move_animations t) = tkey t"
  by (simp add: stop_move_animations_def tkey_def)

text \<open>What leaves the tiling space is one of its tiles.\<close>

lemma taken_tile:
  assumes "ss_inv E s" "ss_remove_tile E' i s = Some (rt, s')"
  shows "rt_tile rt \<in> set (ss_tiles s)"
proof -
  obtain k c where c: "take_column_at E' k s = Some (c, s')" "rt_tile rt = co_tile c"
    using assms(2) by (auto simp: ss_remove_tile_def ss_remove_tile_by_idx_def bind_eq_Some_conv)
  from take_column_abs[OF assms(1) c(1)] c(2) show ?thesis by (simp add: ss_tiles_def)
qed

lemma tile_to_float_law:
  assumes inv: "ws_inv E w" and ac: "ws_acyclic w" and active: "\<not> a \<Longrightarrow> ws_active_id w \<noteq> Some i"
    and ex: "ws_tile_to_float E i a p w = Some w'"
  shows "ws_moved_to_floating E i w w' \<and> ws_active_id w' = (if a then Some i else ws_active_id w)"
proof -
  note i = ws_invD[OF inv]
  obtain rt s where rt: "ss_remove_tile E i (ws_scrolling w) = Some (rt, s)"
    using ex by (auto simp: ws_tile_to_float_def bind_eq_Some_conv)
  define u where "u = ws_with_floating_pos E p (stop_move_animations (rt_tile rt)) w"
  have u: "tile_id u = tile_id (rt_tile rt)" "tkey u = tkey (rt_tile rt)"
    by (simp_all add: u_def with_floating_pos_key stop_move_key tile_id_key)
  from ex rt obtain f where f: "fs_add_tile E u a (ws_floating w) = Some f"
      "w' = ws_activated a FloatYes (w\<lparr>ws_scrolling := s, ws_floating := f\<rparr>)"
    by (auto simp: ws_tile_to_float_def Let_def try_fs_def u_def bind_eq_Some_conv)
  have t: "ss_take E i (ws_scrolling w) = Some (rt_tile rt, s)" using rt by (simp add: ss_take_def)
  note m = tiling.removed[OF i(1) t]
  have n: "tile_id u \<notin> set (fs_ids (ws_floating w))" using m(2,4) i(3) u(1) by auto
  have fit: "fs_fits None u (ws_floating w)"
  proof -
    have "tkey ` set (u # fs_tiles (ws_floating w)) \<subseteq> tkey ` set (ws_tiles w)"
      using taken_tile[OF i(1) rt] u(2) by (auto simp: ws_tiles_def)
    from acyclic_subset[OF ac[unfolded ws_acyclic_def] this] show ?thesis by (simp add: fs_fits_def)
  qed
  have put: "fs_put E None u a (ws_floating w) = Some f" using f(1) by (simp add: fs_put_def)
  note l = floating.added[OF i(2) n fit put]
  have c: "ws_config_ok w'"
    using config_ok_upd(2)[OF config_ok_upd(1)[OF i(5) ss_config_removed[OF rt]]] f
      fs_config_kept[of E "FAddTile u a" "ws_floating w" f] by simp
  have fa: "fa_ok w'"
  proof (cases a)
    case True
    with l(5) f(2) show ?thesis by (simp add: fa_ok_def)
  next
    case False
    have "ws_floating_is_active w = FloatYes" if "ss_ids s = []"
    proof (rule ccontr)
      assume "ws_floating_is_active w \<noteq> FloatYes"
      then have "ss_active_id (ws_scrolling w) \<noteq> Some i" using active[OF False] by (simp add: ws_active_id_eq[OF inv])
      with m(1,7) that tiling.active_none[OF m(1)] tiling.active_none[OF i(1)] m(4) show False by auto
    qed
    with False l(5) f(2) show ?thesis by (simp add: fa_ok_def)
  qed
  have w': "ws_scrolling w' = s" "ws_floating w' = f" by (simp_all add: f(2))
  have inv': "ws_inv E w'"
    using m i(3) l c fa u(1) by (auto simp: ws_inv_def w')
  then have "ws_inv E w'" .
  moreover have "mset (ws_ids w') = mset (ws_ids w)" using m l u(1) by (simp add: ws_ids_def w')
  moreover have "ws_active_id w' = (if a then Some i else ws_active_id w)"
  proof -
    have fl: "ws_floating_is_active w' = (if a then FloatYes else ws_floating_is_active w)" by (simp add: f(2))
    have "ws_floating_is_active w \<noteq> FloatYes" if "fs_ids (ws_floating w) = []" using i(4) that by (simp add: fa_ok_def)
    with active fl l(4) m(2,7) u(1) show ?thesis
      by (auto simp: ws_active_id_eq[OF inv] ws_active_id_eq[OF inv'] w')
  qed
  ultimately show ?thesis using m l u(1) by (auto simp: ws_moved_to_floating_def ws_same_def w')
qed

section \<open>The toggle\<close>

lemma quiet_sets:
  assumes "ws_quiet E w w'"
  shows "set (ss_ids (ws_scrolling w')) = set (ss_ids (ws_scrolling w))" "set (fs_ids (ws_floating w')) = set (fs_ids (ws_floating w))"
  using assms by (auto simp: ws_quiet_def dest: mset_eq_setD)

definition toggle_target :: "nat option \<Rightarrow> workspace \<Rightarrow> nat option" where
  "toggle_target window w = (case window of Some i \<Rightarrow> Some i | None \<Rightarrow> ws_active_id w)"

lemma toggle_floating_law:
  assumes inv: "ws_inv E w" and ac: "ws_acyclic w" and ex: "ws_toggle_window_floating E window w = Some w'"
  shows "case toggle_target window w of None \<Rightarrow> w' = w
    | Some i \<Rightarrow> (if i \<in> set (fs_ids (ws_floating w)) then ws_moved_to_tiling E i w w' else ws_moved_to_floating E i w w') \<and>
        ws_active_id w' = ws_active_id w"
proof -
  define a where "a = (window = None \<or> window = ws_active_id w)"
  have tt: "toggle_target window w = (case window of Some i \<Rightarrow> Some i | None \<Rightarrow> map_option mw_id (ws_active_window w))"
    by (cases window) (simp_all add: toggle_target_def ws_active_id_def)
  show ?thesis
  proof (cases "toggle_target window w")
    case None
    with ex tt show ?thesis by (simp add: ws_toggle_window_floating_def Let_def)
  next
    case (Some i)
    have act: "\<not> a \<Longrightarrow> ws_active_id w \<noteq> Some i" using Some by (auto simp: a_def toggle_target_def)
    have a: "a = (window = None \<or> window = map_option mw_id (ws_active_window w))" by (simp add: a_def ws_active_id_def)
    obtain p q w1 where w1: "(if fs_has_window i (ws_floating w) then ws_float_to_tile E i a w
        else ws_tile_to_float E i a p w) = Some w1" "ws_update_tile i (animate_move_from E q) w1 = Some w'"
      using ex Some unfolding tt ws_toggle_window_floating_def Let_def a[symmetric]
      by (simp del: if_split_asm add: bind_eq_Some_conv) blast
    have moved: "if i \<in> set (fs_ids (ws_floating w)) then ws_moved_to_tiling E i w w1 else ws_moved_to_floating E i w w1"
      and act1: "ws_active_id w1 = (if a then Some i else ws_active_id w)"
      using w1(1) float_to_tile_law[OF inv act, of a w1] tile_to_float_law[OF inv ac act, of a p w1]
      by (simp_all add: fs_has_ids split: if_split_asm)
    have keep_active: "ws_active_id w1 = ws_active_id w"
      using act1 Some by (auto simp: a_def toggle_target_def split: option.splits if_splits)
    from moved have inv1: "ws_inv E w1" by (auto simp: ws_moved_to_tiling_def ws_moved_to_floating_def ws_same_def split: if_splits)
    then have q: "ws_quiet E w1 w'" using update_tile_quiet[OF _ _ w1(2)] keeps_moves by blast
    have "ws_same E w w'" using moved quiet_same[OF q]
      by (auto simp: ws_moved_to_tiling_def ws_moved_to_floating_def split: if_splits elim: same_trans)
    moreover have "ws_active_id w' = ws_active_id w"
      using update_tile_active[OF inv1 _ w1(2)] keeps_moves keep_active by metis
    ultimately show ?thesis using moved quiet_sets[OF q] Some
      by (auto simp: ws_moved_to_tiling_def ws_moved_to_floating_def split: if_splits)
  qed
qed

lemma toggle_floating_same:
  "ws_inv E w \<Longrightarrow> ws_acyclic w \<Longrightarrow> ws_toggle_window_floating E window w = Some w' \<Longrightarrow> ws_same E w w'"
  using toggle_floating_law[of E w window w'] same_refl[of E w]
  by (auto simp: ws_moved_to_tiling_def ws_moved_to_floating_def split: option.splits if_splits)

lemma set_floating_same:
  "ws_inv E w \<Longrightarrow> ws_acyclic w \<Longrightarrow> ws_set_window_floating E window b w = Some w' \<Longrightarrow> ws_same E w w'"
  using toggle_floating_same[of E w window w'] same_refl[of E w]
  by (auto simp: ws_set_window_floating_def split: if_splits)

section \<open>Fullscreen and maximized windows\<close>

lemma set_takeover_quiet:
  assumes inv: "ws_inv E w" and f: "ms_exec E op (ws_scrolling w) = f (ws_scrolling w)" "ms_quiet op"
    and ex: "ws_set_takeover f i b w = Some w'"
  shows "ws_quiet E w w'"
proof -
  from ex obtain n v where v: "try_ss f w = Some v" and g: "try_ss (ss_update_tile i (\<lambda>t. Some (if n \<and> win_pending_sizing_mode (tl_window t) \<noteq> Normal
      then t\<lparr>tl_restore_to_floating := b\<rparr> else t))) v = Some w'" (is "try_ss (ss_update_tile i ?g) _ = _")
    by (auto simp: ws_set_takeover_def bind_eq_Some_conv Let_def)
  have q: "ws_quiet E w v" by (rule try_ss_quiet[where op = op, OF inv v]) (use f in simp_all)
  have "?g t = Some t' \<Longrightarrow> tile_id t' = tile_id t" for t t' by (auto simp: added_fields split: if_splits)
  from quiet_trans[OF q ss_update_tile_quiet[OF quiet_inv[OF q] this g]] show ?thesis .
qed

lemma set_fullscreen_same:
  assumes inv: "ws_inv E w" and ac: "ws_acyclic w" and ex: "ws_set_fullscreen E i b w = Some w'"
  shows "ws_same E w w'"
proof -
  have set: "ws_same E v w'" if "ws_inv E v" "ws_set_takeover (\<lambda>s. map_option fst (ss_set_fullscreen E i b s)) i r v = Some w'" for v r
    using set_takeover_quiet[OF that(1) _ _ that(2), where op = "SetFullscreen i b"] by (simp add: quiet_same)
  have tog: "ws_same E w v" if "ws_toggle_window_floating E (Some i) w = Some v" for v
    using toggle_floating_same[OF inv ac that] .
  from ex set[OF inv] tog set[OF same_inv[OF tog]] same_refl[OF inv] show ?thesis
    unfolding ws_set_fullscreen_def Let_def
    by (auto simp: bind_eq_Some_conv split: if_splits intro: same_trans)
qed

lemma toggle_fullscreen_same:
  "ws_inv E w \<Longrightarrow> ws_acyclic w \<Longrightarrow> ws_toggle_fullscreen E i w = Some w' \<Longrightarrow> ws_same E w w'"
  using set_fullscreen_same by (auto simp: ws_toggle_fullscreen_def bind_eq_Some_conv)

lemma set_maximized_same:
  assumes inv: "ws_inv E w" and ac: "ws_acyclic w" and ex: "ws_set_maximized E i b w = Some w'"
  shows "ws_same E w w'"
proof -
  have set: "ws_same E v w'" if "ws_inv E v" "ws_set_takeover (\<lambda>s. map_option fst (ss_set_maximized E i b s)) i r v = Some w'" for v r
    using set_takeover_quiet[OF that(1) _ _ that(2), where op = "SetMaximized i b"] by (simp add: quiet_same)
  have tog: "ws_same E w v" if "ws_toggle_window_floating E (Some i) w = Some v" for v
    using toggle_floating_same[OF inv ac that] .
  from ex set[OF inv] tog set[OF same_inv[OF tog]] same_refl[OF inv] show ?thesis
    unfolding ws_set_maximized_def Let_def
    by (auto simp: bind_eq_Some_conv split: if_splits intro: same_trans)
qed

lemma toggle_maximized_same:
  "ws_inv E w \<Longrightarrow> ws_acyclic w \<Longrightarrow> ws_toggle_maximized E i w = Some w' \<Longrightarrow> ws_same E w w'"
  using set_maximized_same by (auto simp: ws_toggle_maximized_def Let_def)

section \<open>Moving a window\<close>

lemma move_floating_quiet:
  assumes inv: "ws_inv E w" and ac: "parents_acyclic (fs_tiles (ws_floating w))" and keep: "configure_keeps E"
    and ex: "ws_move_floating_window E window x y animate w = Some w'"
  shows "ws_quiet E w w'"
proof (cases "targets_floating window w")
  case True
  with ex try_fs_quiet[OF inv ac keep, of "fs_move_window E window x y animate" w' "FMoveWindow window x y animate"]
  show ?thesis by (simp add: ws_move_floating_window_def)
next
  case False
  have st: "ws_quiet E w w'" if "\<And>t. tile_id (g t) = tile_id t" "try_ss (ss_update_tile i (Some \<circ> g)) w = Some w'" for i g
    using ss_update_tile_quiet[OF inv _ that(2)] that(1) by auto
  show ?thesis
    using ex False quiet_refl[OF inv] unfolding ws_move_floating_window_def Let_def
    by (auto split: option.splits if_splits elim!: st[rotated])
qed

end
