(* ===== verification/WorkspaceCommands.thy ===== *)
theory WorkspaceCommands
  imports WorkspaceFloating
begin

text \<open>
  The operations of a workspace as one type of commands, when the layout runs them, and what each does to the
  windows.
\<close>

section \<open>Commands\<close>

text \<open>Focus, movement, sizes and the routine work leave each window in its space.\<close>

datatype ws_focus_op =
    WFocusLeft | WFocusRight | WFocusDown | WFocusUp
  | WFocusColumnFirst | WFocusColumnLast | WFocusColumnRightOrFirst | WFocusColumnLeftOrLast | WFocusColumn nat
  | WFocusDownOrLeft | WFocusDownOrRight | WFocusUpOrLeft | WFocusUpOrRight
  | WFocusWindowTop | WFocusWindowBottom | WFocusWindowDownOrTop | WFocusWindowUpOrBottom
  | WFocusFloating | WFocusTiling | WSwitchFocusFloatingTiling
  | WActivateWindow nat | WActivateWindowWithoutRaising nat

primrec ws_exec_focus :: "env \<Rightarrow> ws_focus_op \<Rightarrow> workspace \<Rightarrow> workspace option" where
  "ws_exec_focus E WFocusLeft w = map_option fst (ws_focus_left w)"
| "ws_exec_focus E WFocusRight w = map_option fst (ws_focus_right w)"
| "ws_exec_focus E WFocusDown w = map_option fst (ws_focus_down w)"
| "ws_exec_focus E WFocusUp w = map_option fst (ws_focus_up w)"
| "ws_exec_focus E WFocusColumnFirst w = ws_focus_column_first w"
| "ws_exec_focus E WFocusColumnLast w = ws_focus_column_last w"
| "ws_exec_focus E WFocusColumnRightOrFirst w = ws_focus_column_right_or_first w"
| "ws_exec_focus E WFocusColumnLeftOrLast w = ws_focus_column_left_or_last w"
| "ws_exec_focus E (WFocusColumn k) w = Some (ws_focus_column k w)"
| "ws_exec_focus E WFocusDownOrLeft w = ws_focus_down_or_left w"
| "ws_exec_focus E WFocusDownOrRight w = ws_focus_down_or_right w"
| "ws_exec_focus E WFocusUpOrLeft w = ws_focus_up_or_left w"
| "ws_exec_focus E WFocusUpOrRight w = ws_focus_up_or_right w"
| "ws_exec_focus E WFocusWindowTop w = ws_focus_window_top w"
| "ws_exec_focus E WFocusWindowBottom w = ws_focus_window_bottom w"
| "ws_exec_focus E WFocusWindowDownOrTop w = ws_focus_window_down_or_top w"
| "ws_exec_focus E WFocusWindowUpOrBottom w = ws_focus_window_up_or_bottom w"
| "ws_exec_focus E WFocusFloating w = Some (ws_focus_floating w)"
| "ws_exec_focus E WFocusTiling w = Some (ws_focus_tiling w)"
| "ws_exec_focus E WSwitchFocusFloatingTiling w = Some (ws_switch_focus_floating_tiling w)"
| "ws_exec_focus E (WActivateWindow i) w = map_option fst (ws_activate_window i w)"
| "ws_exec_focus E (WActivateWindowWithoutRaising i) w = map_option fst (ws_activate_window_without_raising i w)"

datatype ws_move_op =
    WMoveLeft | WMoveRight | WMoveDown | WMoveUp
  | WMoveLeftAnimated | WMoveRightAnimated | WMoveDownAnimated | WMoveUpAnimated
  | WMoveColumnToFirst | WMoveColumnToLast
  | WConsumeOrExpelLeft "nat option" | WConsumeOrExpelRight "nat option" | WConsumeIntoColumn | WExpelFromColumn
  | WSwapInDirection scroll_direction
  | WNudgeMasterRatio f64

primrec ws_exec_move :: "env \<Rightarrow> ws_move_op \<Rightarrow> workspace \<Rightarrow> workspace option" where
  "ws_exec_move E WMoveLeft w = map_option fst (ws_move_left E w)"
| "ws_exec_move E WMoveRight w = map_option fst (ws_move_right E w)"
| "ws_exec_move E WMoveDown w = map_option fst (ws_move_down E w)"
| "ws_exec_move E WMoveUp w = map_option fst (ws_move_up E w)"
| "ws_exec_move E WMoveLeftAnimated w = map_option fst (ws_move_left_animated E w)"
| "ws_exec_move E WMoveRightAnimated w = map_option fst (ws_move_right_animated E w)"
| "ws_exec_move E WMoveDownAnimated w = map_option fst (ws_move_down_animated E w)"
| "ws_exec_move E WMoveUpAnimated w = map_option fst (ws_move_up_animated E w)"
| "ws_exec_move E WMoveColumnToFirst w = ws_move_column_to_first E w"
| "ws_exec_move E WMoveColumnToLast w = ws_move_column_to_last w"
| "ws_exec_move E (WConsumeOrExpelLeft i) w = ws_consume_or_expel_window_left i w"
| "ws_exec_move E (WConsumeOrExpelRight i) w = ws_consume_or_expel_window_right i w"
| "ws_exec_move E WConsumeIntoColumn w = ws_consume_into_column w"
| "ws_exec_move E WExpelFromColumn w = ws_expel_from_column w"
| "ws_exec_move E (WSwapInDirection d) w = ws_swap_window_in_direction E d w"
| "ws_exec_move E (WNudgeMasterRatio r) w = ws_nudge_master_ratio E r w"

datatype ws_size_op =
    WCenterColumn | WCenterWindow "nat option" | WToggleWidth bool | WSetColumnWidth size_change
  | WSetWindowWidth "nat option" size_change | WSetWindowHeight "nat option" size_change
  | WToggleWindowWidth "nat option" bool | WToggleWindowHeight "nat option" bool
  | WMoveFloatingWindow "nat option" position_change position_change bool
  | WStartOpenAnimation nat | WUpdateWindow nat "serial option" | WAdvanceAnimations | WRefresh bool bool
  | WResizeBegin nat resize_edge | WResizeUpdate nat point | WResizeEnd "nat option"

primrec ws_exec_size :: "env \<Rightarrow> ws_size_op \<Rightarrow> workspace \<Rightarrow> workspace option" where
  "ws_exec_size E WCenterColumn w = ws_center_column E w"
| "ws_exec_size E (WCenterWindow i) w = ws_center_window E i w"
| "ws_exec_size E (WToggleWidth b) w = ws_toggle_width E b w"
| "ws_exec_size E (WSetColumnWidth c) w = ws_set_column_width E c w"
| "ws_exec_size E (WSetWindowWidth i c) w = ws_set_window_width E i c w"
| "ws_exec_size E (WSetWindowHeight i c) w = ws_set_window_height E i c w"
| "ws_exec_size E (WToggleWindowWidth i b) w = ws_toggle_window_width E i b w"
| "ws_exec_size E (WToggleWindowHeight i b) w = ws_toggle_window_height E i b w"
| "ws_exec_size E (WMoveFloatingWindow i x y a) w = ws_move_floating_window E i x y a w"
| "ws_exec_size E (WStartOpenAnimation i) w = map_option fst (ws_start_open_animation E i w)"
| "ws_exec_size E (WUpdateWindow i c) w = ws_update_window E i c w"
| "ws_exec_size E WAdvanceAnimations w = Some (ws_advance_animations E w)"
| "ws_exec_size E (WRefresh a f) w = Some (ws_refresh E a f w)"
| "ws_exec_size E (WResizeBegin i e) w = map_option fst (ws_resize_begin E i e w)"
| "ws_exec_size E (WResizeUpdate i d) w = map_option fst (ws_resize_update E i d w)"
| "ws_exec_size E (WResizeEnd i) w = Some (ws_resize_end i w)"

text \<open>The configuration and the output.\<close>

datatype ws_config_op =
    WUpdateConfig options
  | WUpdateLayoutConfig "layout_part option"
  | WSetOutput "wl_output option"
  | WUpdateOutputSize wl_output
  | WSetViewSize out_scale nat size rect
  | WUnname

primrec ws_exec_config :: "env \<Rightarrow> ws_config_op \<Rightarrow> workspace \<Rightarrow> workspace option" where
  "ws_exec_config E (WUpdateConfig base) w = Some (ws_update_config E base w)"
| "ws_exec_config E (WUpdateLayoutConfig part) w = Some (ws_update_layout_config E part w)"
| "ws_exec_config E (WSetOutput out) w = ws_set_output E out w"
| "ws_exec_config E (WUpdateOutputSize o1) w = ws_update_output_size E o1 w"
| "ws_exec_config E (WSetViewSize scale transform sz area) w = Some (ws_set_view_size E scale transform sz area w)"
| "ws_exec_config E WUnname w = Some (ws_unname w)"

text \<open>The commands that can take a window from one space to the other.\<close>

datatype ws_change_op =
    WSetFullscreen nat bool | WToggleFullscreen nat | WSetMaximized nat bool | WToggleMaximized nat
  | WToggleWindowFloating "nat option" | WSetWindowFloating "nat option" bool

primrec ws_exec_change :: "env \<Rightarrow> ws_change_op \<Rightarrow> workspace \<Rightarrow> workspace option" where
  "ws_exec_change E (WSetFullscreen i b) w = ws_set_fullscreen E i b w"
| "ws_exec_change E (WToggleFullscreen i) w = ws_toggle_fullscreen E i w"
| "ws_exec_change E (WSetMaximized i b) w = ws_set_maximized E i b w"
| "ws_exec_change E (WToggleMaximized i) w = ws_toggle_maximized E i w"
| "ws_exec_change E (WToggleWindowFloating i) w = ws_toggle_window_floating E i w"
| "ws_exec_change E (WSetWindowFloating i b) w = ws_set_window_floating E i b w"

datatype ws_op =
    WAddTile tile add_target activate_window column_width bool bool
  | WAddTileToColumn tile bool
  | WAddColumn column bool
  | WRemoveTile nat
  | WRemoveActiveTile
  | WRemoveActiveColumn
  | WReparent nat "nat option"
  | WFocus ws_focus_op
  | WMove ws_move_op
  | WSize ws_size_op
  | WConfig ws_config_op
  | WChange ws_change_op

primrec ws_exec :: "env \<Rightarrow> ws_op \<Rightarrow> workspace \<Rightarrow> workspace option" where
  "ws_exec E (WAddTile t target activate width full is_floating) w = ws_add_tile E t target activate width full is_floating w"
| "ws_exec E (WAddTileToColumn t a) w = Some (ws_add_tile_to_column E t a w)"
| "ws_exec E (WAddColumn c a) w = Some (ws_add_column E c a w)"
| "ws_exec E (WRemoveTile i) w = map_option snd (ws_remove_tile E i w)"
| "ws_exec E WRemoveActiveTile w = map_option snd (ws_remove_active_tile E w)"
| "ws_exec E WRemoveActiveColumn w = map_option snd (ws_remove_active_column E w)"
| "ws_exec E (WReparent i p) w = try_fs (\<lambda>s. fs_parent_changed p (fs_set_parent i p s)) w"
| "ws_exec E (WFocus op) w = ws_exec_focus E op w"
| "ws_exec E (WMove op) w = ws_exec_move E op w"
| "ws_exec E (WSize op) w = ws_exec_size E op w"
| "ws_exec E (WConfig op) w = ws_exec_config E op w"
| "ws_exec E (WChange op) w = ws_exec_change E op w"

text \<open>The layout adds no window twice and next to a window of the workspace only; clients make no window its
  own ancestor.\<close>

primrec ws_allowed :: "ws_op \<Rightarrow> workspace \<Rightarrow> bool" where
  "ws_allowed (WAddTile t target _ _ _ _) w \<longleftrightarrow> tile_id t \<notin> set (ws_ids w) \<and> parents_acyclic (t # ws_tiles w) \<and>
     (case target of AddNextTo i \<Rightarrow> i \<in> set (ws_ids w) | _ \<Rightarrow> True)"
| "ws_allowed (WAddTileToColumn t _) w \<longleftrightarrow> tile_id t \<notin> set (ws_ids w)"
| "ws_allowed (WAddColumn c _) w \<longleftrightarrow> column_id c \<notin> set (ws_ids w) \<and> not_both c"
| "ws_allowed (WRemoveTile _) w \<longleftrightarrow> True"
| "ws_allowed WRemoveActiveTile w \<longleftrightarrow> True"
| "ws_allowed WRemoveActiveColumn w \<longleftrightarrow> True"
| "ws_allowed (WReparent i p) w \<longleftrightarrow> fs_allowed (FReparent i p) (ws_floating w)"
| "ws_allowed (WFocus _) w \<longleftrightarrow> ws_acyclic w"
| "ws_allowed (WMove _) w \<longleftrightarrow> ws_acyclic w"
| "ws_allowed (WSize _) w \<longleftrightarrow> ws_acyclic w"
| "ws_allowed (WConfig _) w \<longleftrightarrow> True"
| "ws_allowed (WChange _) w \<longleftrightarrow> ws_acyclic w"

text \<open>What a command does to the windows.\<close>

fun ws_windows_after :: "ws_op \<Rightarrow> workspace \<Rightarrow> nat multiset" where
  "ws_windows_after (WAddTile t _ _ _ _ _) w = add_mset (tile_id t) (mset (ws_ids w))"
| "ws_windows_after (WAddTileToColumn t _) w = add_mset (tile_id t) (mset (ws_ids w))"
| "ws_windows_after (WAddColumn c _) w = add_mset (column_id c) (mset (ws_ids w))"
| "ws_windows_after (WRemoveTile i) w = mset (ws_ids w) - {#i#}"
| "ws_windows_after WRemoveActiveTile w =
     (case ws_active_id w of Some i \<Rightarrow> mset (ws_ids w) - {#i#} | None \<Rightarrow> mset (ws_ids w))"
| "ws_windows_after WRemoveActiveColumn w =
     (case ws_active_id w of
        Some i \<Rightarrow> if fa_get (ws_floating_is_active w) then mset (ws_ids w) else mset (ws_ids w) - {#i#}
      | None \<Rightarrow> mset (ws_ids w))"
| "ws_windows_after _ w = mset (ws_ids w)"

end
