(* ===== verification/WorkspaceProps.thy ===== *)
theory WorkspaceProps
  imports WorkspaceCommands
begin

text \<open>
  The states the commands of a workspace reach and their properties: the invariant of the two spaces and the
  flag between them, and what a command does to the windows.
\<close>

section \<open>Every command\<close>

definition ws_after :: "env \<Rightarrow> ws_op \<Rightarrow> workspace \<Rightarrow> workspace \<Rightarrow> bool" where
  "ws_after E op w w' \<longleftrightarrow> ws_inv E w' \<and> mset (ws_ids w') = ws_windows_after op w"

lemma same_after: "ws_same E w w' \<Longrightarrow> ws_windows_after op w = mset (ws_ids w) \<Longrightarrow> ws_after E op w w'"
  by (simp add: ws_same_def ws_after_def)

lemma quiet_after: "ws_quiet E w w' \<Longrightarrow> ws_windows_after op w = mset (ws_ids w) \<Longrightarrow> ws_after E op w w'"
  by (rule same_after[OF quiet_same])

lemma settled_after: "ws_settled E w w' \<Longrightarrow> ws_windows_after op w = mset (ws_ids w) \<Longrightarrow> ws_after E op w w'"
  by (rule same_after[OF settled_same])

lemma stays_quiet:
  assumes inv: "ws_inv E w" and ac: "ws_acyclic w" and keep: "configure_keeps E"
  shows "ws_exec_focus E fop w = Some w' \<Longrightarrow> ws_quiet E w w'"
    and "ws_exec_move E mop w = Some w' \<Longrightarrow> ws_quiet E w w'"
    and "ws_exec_size E sop w = Some w' \<Longrightarrow> ws_quiet E w w'"
proof -
  note a = ws_acyclicD[OF ac]
  show "ws_exec_focus E fop w = Some w' \<Longrightarrow> ws_quiet E w w'"
    by (cases fop) (auto simp: focus_column_quiet[OF inv] switch_focus_quiet[OF inv] dest: focus_quiet[OF inv a keep]
      focus_or_quiet[OF inv a keep] activate_quiet[OF inv a keep, THEN conjunct1])
  show "ws_exec_move E mop w = Some w' \<Longrightarrow> ws_quiet E w w'"
    by (cases mop) (auto dest: move_quiet[OF inv a keep] tiling_commands_quiet[OF inv])
  show "ws_exec_size E sop w = Some w' \<Longrightarrow> ws_quiet E w w'"
    by (cases sop) (auto simp: routine_quiet(1-3)[OF inv a keep] dest: floating_commands_quiet[OF inv a keep]
      routine_quiet(4,5)[OF inv a keep] update_window_quiet[OF inv a keep] open_animation_quiet[OF inv a keep]
      move_floating_quiet[OF inv a keep])
qed

lemma config_settled: "ws_inv E w \<Longrightarrow> ws_exec_config E cop w = Some w' \<Longrightarrow> ws_settled E w w'"
  by (cases cop) (auto simp: ws_unname_def update_config_settled ws_invD settled_upd set_view_size_settled
      update_layout_config_settled dest: set_output_settled update_output_size_settled)

lemma change_same:
  assumes "ws_inv E w" "ws_acyclic w" "ws_exec_change E cop w = Some w'"
  shows "ws_same E w w'"
  using assms(3) by (cases cop) (auto dest: set_fullscreen_same[OF assms(1,2)] toggle_fullscreen_same[OF assms(1,2)]
      set_maximized_same[OF assms(1,2)] toggle_maximized_same[OF assms(1,2)] toggle_floating_same[OF assms(1,2)]
      set_floating_same[OF assms(1,2)])

lemma ws_step:
  assumes inv: "ws_inv E w" and ok: "ws_allowed op w" and keep: "configure_keeps E" and ex: "ws_exec E op w = Some w'"
  shows "ws_after E op w w'"
proof (cases op)
  case (WAddTile t target activate width full is_floating)
  with ok have "tile_id t \<notin> set (ws_ids w)" "parents_acyclic (t # ws_tiles w)"
    "\<And>i. target = AddNextTo i \<Longrightarrow> i \<in> set (ws_ids w)" by auto
  from add_tile_added[OF inv this(1,2), of target activate width full is_floating] this(3) ex WAddTile show ?thesis
    by (auto simp: ws_after_def ws_added_def)
next
  case (WAddTileToColumn t a)
  with ok add_to_column_added[OF inv, of t a] ex show ?thesis by (auto simp: ws_after_def ws_added_def)
next
  case (WAddColumn c a)
  with ok add_column_added[OF inv, of c a] ex show ?thesis by (auto simp: ws_after_def ws_added_def)
next
  case (WRemoveTile i)
  with ex remove_tile_removed[OF inv, of i] show ?thesis by (auto simp: ws_after_def ws_removed_def)
next
  case WRemoveActiveTile
  with ex obtain rt where "ws_remove_active_tile E w = Some (rt, w')" by auto
  from remove_active_removed[OF inv this] ws_active_some(1)[OF inv] inv WRemoveActiveTile show ?thesis
    by (auto simp: ws_after_def ws_removed_def split: option.splits)
next
  case WRemoveActiveColumn
  with ex obtain c where c: "ws_remove_active_column E w = Some (c, w')" by auto
  have "ws_floating_is_active w = FloatYes \<Longrightarrow> c = None"
    using c by (simp add: ws_remove_active_column_def fa_get_def)
  with remove_active_column_removed[OF inv c] ws_active_some(1)[OF inv] inv WRemoveActiveColumn show ?thesis
    by (auto simp: ws_after_def ws_removed_def fa_get_def split: option.splits)
next
  case (WReparent i p)
  then have "ws_quiet E w w'" using ex ok reparent_quiet[OF inv keep] by auto
  from quiet_after[OF this] WReparent show ?thesis by simp
next
  case (WConfig cop)
  with ex have "ws_settled E w w'" using config_settled[OF inv] by simp
  from settled_after[OF this] WConfig show ?thesis by simp
next
  case (WChange cop)
  with ex ok have "ws_same E w w'" using change_same[OF inv] by simp
  from same_after[OF this] WChange show ?thesis by simp
qed (use ok ex stays_quiet[OF inv _ keep] quiet_after in auto)

section \<open>Reachable states\<close>

lemma ss_inv_env: "e_phys_ceil E' = e_phys_ceil E \<Longrightarrow> ss_inv E' s = ss_inv E s"
  by (simp add: ss_inv_def compute_working_area_def)

lemma ws_inv_env:
  "e_phys_ceil E' = e_phys_ceil E \<Longrightarrow> e_phys_round E' = e_phys_round E \<Longrightarrow> ws_inv E' w = ws_inv E w"
  unfolding ws_inv_def by (simp only: ss_inv_env[of E' E] inv_env[of E' E])

inductive ws_reach :: "env \<Rightarrow> workspace \<Rightarrow> bool" for E where
  ws_start: "ws_reach E (ws_build E i config base original out scale transform view_size area)"
| ws_next: "ws_reach E w \<Longrightarrow> e_phys_ceil E' = e_phys_ceil E \<Longrightarrow> e_phys_round E' = e_phys_round E \<Longrightarrow>
     configure_keeps E' \<Longrightarrow> ws_allowed op w \<Longrightarrow> ws_exec E' op w = Some w' \<Longrightarrow> ws_reach E w'"

inductive_cases ws_reachE: "ws_reach E w"

lemma build_inv: "ws_inv E (ws_build E i config base original out scale transform view_size area)"
proof -
  have "ss_ids (ss_new E vs pa sc opts) = []" "fs_ids (fs_new vs pa sc opts) = []" for vs pa sc opts
    by (simp_all add: ss_new_def ss_ids_def columns_def fs_new_def fs_ids_def)
  then show ?thesis
    by (simp add: ws_build_def Let_def ws_inv_def new_inv fs_new_inv fa_ok_def ws_config_ok_def ss_config_def fs_config_def)
       (simp add: ss_new_def fs_new_def)
qed

lemma ws_reach_inv: "ws_reach E w \<Longrightarrow> ws_inv E w"
proof (induction rule: ws_reach.induct)
  case (ws_next w E' op w')
  with ws_step[of E' w op w'] ws_inv_env[OF ws_next.hyps(2,3)] show ?case by (simp add: ws_after_def)
qed (rule build_inv)

subsection \<open>An example\<close>

text \<open>An empty workspace, and the one with a tiled window 1 that is put on it.\<close>

definition ws_blank :: workspace where
  "ws_blank = ws_new_no_outputs (env_blank 1) 3 options_blank"

lemma ws_blank_reach: "ws_reach (env_blank 1) ws_blank"
  unfolding ws_blank_def ws_new_no_outputs_def ws_new_with_config_no_outputs_def by (rule ws_start)

lemma ws_blank_empty: "ws_ids ws_blank = []" "ws_tiles ws_blank = []"
  by (simp_all add: ws_blank_def ws_new_no_outputs_def ws_new_with_config_no_outputs_def ws_build_def Let_def ws_ids_def
      ws_tiles_def ss_ids_def ss_tiles_def columns_def ss_new_def fs_new_def fs_ids_def)

lemma ws_example_add:
  "\<exists>w. ws_exec (env_blank 1) (WAddTile (tile_blank 1) AddAuto ActYes (Fixed 300) False floats) ws_blank = Some w \<and>
     ws_reach (env_blank 1) w \<and> ws_ids w = [1] \<and> ws_inv (env_blank 1) w"
proof -
  let ?op = "WAddTile (tile_blank 1) AddAuto ActYes (Fixed 300) False floats"
  have id: "tile_id (tile_blank 1) = 1" by (simp add: blank_defs)
  have ac: "parents_acyclic [tile_blank 1]" by (rule float_one_acyclic) simp
  have ok: "ws_allowed ?op ws_blank" using id ac by (simp add: ws_blank_empty)
  obtain w where w: "ws_exec (env_blank 1) ?op ws_blank = Some w" "ws_added (env_blank 1) 1 ws_blank w"
    using add_tile_added[OF ws_reach_inv[OF ws_blank_reach], of "tile_blank 1" AddAuto ActYes "Fixed 300" False floats] id ac
    by (auto simp: ws_blank_empty)
  have "ws_reach (env_blank 1) w" by (rule ws_next[OF ws_blank_reach refl refl _ ok w(1)]) simp
  with w show ?thesis by (auto simp: ws_added_def ws_blank_empty)
qed

section \<open>Properties\<close>

text \<open>Property C22. Whatever sequence of commands a workspace executes, in a changing
  environment: both spaces keep their invariants, no window is in it twice or in both spaces, the floating
  space is active only when it has windows and always when only it has, there is an active window, one of
  its own, unless it is empty, and both spaces have the view size, working area, scale and merged options
  of the workspace.\<close>

theorem ws_reachable_ok:
  assumes "ws_reach E w"
  shows "ss_inv E (ws_scrolling w) \<and> fs_inv E (ws_floating w) \<and> distinct (map mw_id (ws_windows w)) \<and>
    (ws_floating_is_active w = FloatYes \<longrightarrow> \<not> fs_is_empty (ws_floating w)) \<and>
    (ss_is_empty (ws_scrolling w) \<and> \<not> fs_is_empty (ws_floating w) \<longrightarrow> ws_floating_is_active w = FloatYes) \<and>
    (ws_active_window w = None \<longleftrightarrow> \<not> ws_has_windows w) \<and>
    (\<forall>x. ws_active_window w = Some x \<longrightarrow> ws_has_window (mw_id x) w) \<and>
    ws_config_ok w"
proof -
  note inv = ws_reach_inv[OF assms]
  note i = ws_invD[OF inv]
  have m: "map mw_id (ws_windows w) = ws_ids w" by (simp add: ws_windows_def ws_tiles_ids[symmetric] comp_def)
  have h: "ws_has_windows w \<longleftrightarrow> ws_ids w \<noteq> []" unfolding ws_has_windows_def m[symmetric] by simp
  have "distinct (ws_ids w)"
    using tiling.ids_distinct[OF i(1)] floating.ids_distinct[OF i(2)] i(3) by (simp add: ws_ids_def)
  moreover have "ws_has_window (mw_id x) w" if "ws_active_window w = Some x" for x
  proof -
    have "mw_id x \<in> set (map mw_id (ws_windows w))" unfolding m
      using ws_active_some(2)[OF inv] that by (simp add: ws_active_id_def)
    then show ?thesis by (auto simp: ws_has_window_def list_ex_iff)
  qed
  moreover have "ws_active_window w = None \<longleftrightarrow> \<not> ws_has_windows w"
    using ws_active_some(1)[OF inv] by (simp add: h ws_active_id_def)
  ultimately show ?thesis using i by (auto simp: m fa_ok_def ss_empty_ids fs_empty_ids)
qed

theorem ws_reachable_ok_witness:
  "\<exists>w. ws_ids w = [1] \<and> ws_active_window w \<noteq> None \<and> ws_floating_is_active w = FloatYes"
proof -
  obtain w where w: "ws_exec (env_blank 1) (WAddTile (tile_blank 1) AddAuto ActYes (Fixed 300) False True) ws_blank = Some w"
      "ws_reach (env_blank 1) w" "ws_ids w = [1]"
    using ws_example_add by blast
  have "ws_has_windows w"
    using w(3) by (auto simp: ws_has_windows_def ws_windows_def ws_tiles_ids[symmetric])
  moreover have "ws_floating_is_active w = FloatYes"
  proof -
    have "win_pending_sizing_mode (tl_window (tile_blank 1)) = Normal" by (simp add: blank_defs)
    with w(1) show ?thesis
      by (auto simp: ws_add_tile_def ws_add_floating_def ws_is_active_pending_fullscreen_def bind_eq_Some_conv ws_activated_def
          ws_blank_def ws_new_no_outputs_def ws_new_with_config_no_outputs_def ws_build_def Let_def ss_is_empty_def ss_new_def
          split: if_splits)
  qed
  ultimately show ?thesis using ws_reachable_ok[OF w(2)] w(3) by blast
qed

text \<open>Property C23. A command of a workspace adds exactly the window it is given, removes
  exactly the one it names or the active one (\<open>remove_active_column\<close> nothing when a floating window is
  active), and otherwise keeps all: whatever moves between the tiling and the floating space, goes fullscreen
  or comes back, no window is lost, duplicated or invented.\<close>

theorem ws_windows_kept:
  assumes "ws_reach E w" "e_phys_ceil E' = e_phys_ceil E" "e_phys_round E' = e_phys_round E" "configure_keeps E'"
    and "ws_allowed op w" "ws_exec E' op w = Some w'"
  shows "mset (map mw_id (ws_windows w')) = ws_windows_after op w"
proof -
  have "ws_inv E' w" using ws_reach_inv[OF assms(1)] ws_inv_env[OF assms(2,3)] by simp
  from ws_step[OF this assms(5,4,6)] show ?thesis
    by (simp add: ws_after_def ws_windows_def ws_tiles_ids[symmetric] comp_def)
qed

theorem ws_windows_kept_witness:
  "\<exists>w. mset (map mw_id (ws_windows w)) = {#1#} \<and>
     ws_exec (env_blank 1) (WAddTile (tile_blank 1) AddAuto ActYes (Fixed 300) False True) ws_blank = Some w"
proof -
  let ?op = "WAddTile (tile_blank 1) AddAuto ActYes (Fixed 300) False True"
  obtain w where w: "ws_exec (env_blank 1) ?op ws_blank = Some w" using ws_example_add by blast
  have id: "tile_id (tile_blank 1) = 1" by (simp add: blank_defs)
  have ac: "parents_acyclic [tile_blank 1]" by (rule float_one_acyclic) simp
  have ok: "ws_allowed ?op ws_blank" using id ac by (simp add: ws_blank_empty)
  from ws_windows_kept[OF ws_blank_reach refl refl _ ok w] w id show ?thesis
    by (intro exI[of _ w]) (simp add: ws_blank_empty)
qed

end
