(* ===== verification/WorkspaceTotal.thy ===== *)
theory WorkspaceTotal
  imports WorkspaceProps
begin

text \<open>
  What becomes of the tile that changes between the tiling and the floating space: what it is asked for, how
  it is animated, and that no \<open>unwrap\<close> on the way fails; then fullscreen from floating and back.
\<close>

section \<open>The column a window is put in\<close>

text \<open>What \<open>update_tile_sizes\<close> does to a column, given the size of its slot.\<close>

definition resized :: "env \<Rightarrow> size \<Rightarrow> column \<Rightarrow> column" where
  "resized E sz c = (if co_is_pending_fullscreen c \<or> co_is_pending_maximized c then c
     else c\<lparr>co_tile := request_tile_size E sz False None (co_tile c)\<rparr>)"

lemma tile_sizes_columns:
  "columns (update_tile_sizes E s) = map (\<lambda>((_, _, sz), c). resized E sz c) (zip (column_layout s) (columns s))"
  unfolding update_tile_sizes_def resized_def by (rule columns_with) (simp add: column_layout_length)

lemma add_column_last:
  assumes "ss_inv E s"
  shows "\<exists>cs sz. columns (add_column E' col a s) = cs @ [resized E' sz
      (column_update_config (ss_view_size s) (ss_working_area s) (ss_parent_area s) (ss_scale s) (ss_options s) col)]"
proof -
  define s1 where "s1 = with_columns (map (\<lambda>c. fst (column_set_maximized E' False (rsize (ss_working_area s))
      (fst (column_set_fullscreen E' False c))))) s"
  define col1 where "col1 = column_update_config (ss_view_size s) (ss_working_area s) (ss_parent_area s) (ss_scale s)
      (ss_options s) col"
  have ms: "ss_master s1 = None \<longrightarrow> ss_stack s1 = []"
    using assms by (auto simp: s1_def with_columns_def ss_inv_def columns_def split: option.splits list.splits)
  have sel: "ss_view_size s1 = ss_view_size s" "ss_working_area s1 = ss_working_area s" "ss_parent_area s1 = ss_parent_area s"
    "ss_scale s1 = ss_scale s" "ss_options s1 = ss_options s"
    by (simp_all add: s1_def with_columns_def split: list.split option.split)
  obtain s2 where s2: "add_column E' col a s = update_tile_sizes E' s2" "columns s2 = columns s1 @ [col1]"
    using ms that unfolding add_column_def Let_def s1_def[symmetric] sel col1_def[symmetric]
    by (cases "ss_master s1") (auto simp: columns_def)
  define l where "l = column_layout s2"
  have "length l = Suc (length (columns s1))" by (simp add: l_def column_layout_length s2(2))
  then obtain l1 x where l: "l = l1 @ [x]" "length l1 = length (columns s1)" by (metis length_Suc_conv_rev)
  show ?thesis
    unfolding s2(1) tile_sizes_columns s2(2) l_def[symmetric] l(1) col1_def[symmetric]
    using l(2) by (auto simp: case_prod_beta)
qed

text \<open>A tile that is not asked to be fullscreen or maximized stays so, moves as it did, and gets the options.\<close>

definition follows :: "options \<Rightarrow> tile \<Rightarrow> tile \<Rightarrow> bool" where
  "follows opts t u \<longleftrightarrow> tile_id u = tile_id t \<and> tl_move_x_animation u = tl_move_x_animation t \<and>
     tl_move_y_animation u = tl_move_y_animation t \<and> tl_options u = opts \<and>
     (win_pending_sizing_mode (tl_window t) = Normal \<longrightarrow> win_pending_sizing_mode (tl_window u) = Normal)"

lemma request_mode:
  "win_pending_sizing_mode (win_request_size sz Normal an tr w) = Normal"
  "win_pending_sizing_mode (win_request_size sz Fullscreen an tr w) = Maximized"
  by (simp_all add: win_request_size_def win_pending_sizing_mode_def note_pending_maximized_def with_pending_state_def
      state_sizing_mode_def Let_def)

lemma added_tile:
  assumes inv: "ss_inv E s" and new: "tile_id t \<notin> set (ss_ids s)"
  shows "\<exists>c \<in> set (columns (ss_add_tile E' t a width full s)). follows (ss_options s) t (co_tile c) \<and>
    (win_pending_sizing_mode (tl_window t) = Normal \<longrightarrow> \<not> co_is_pending_fullscreen c \<and> \<not> co_is_pending_maximized c)"
proof -
  let ?col = "column_new_with_tile E' t (ss_view_size s) (ss_working_area s) (ss_parent_area s) (ss_scale s) width full"
  let ?col1 = "column_update_config (ss_view_size s) (ss_working_area s) (ss_parent_area s) (ss_scale s) (ss_options s) ?col"
  obtain cs sz where cs: "columns (ss_add_tile E' t a width full s) = cs @ [resized E' sz ?col1]"
    using add_column_last[OF inv] unfolding ss_add_tile_def by blast
  have col: "tl_move_x_animation (co_tile ?col) = tl_move_x_animation t" "tl_move_y_animation (co_tile ?col) = tl_move_y_animation t"
    "win_pending_sizing_mode (tl_window t) = Normal \<Longrightarrow>
      co_tile ?col = t \<and> \<not> co_is_pending_fullscreen ?col \<and> \<not> co_is_pending_maximized ?col"
    by (auto simp: column_new_with_tile_def column_set_fullscreen_def column_set_maximized_def Let_def
        request_fullscreen_def request_maximized_def split: sizing_mode.split)
  have "follows (ss_options s) t (co_tile (resized E' sz ?col1)) \<and> (win_pending_sizing_mode (tl_window t) = Normal \<longrightarrow>
      \<not> co_is_pending_fullscreen (resized E' sz ?col1) \<and> \<not> co_is_pending_maximized (resized E' sz ?col1))"
    using col by (auto simp: follows_def resized_def column_update_config_def tile_update_config_def Let_def
        request_tile_size_def request_mode win_simps)
  with cs show ?thesis by auto
qed

text \<open>What identifies a tile and moves it is carried along.\<close>

definition trace where
  "trace t = (tkey t, tl_move_x_animation t, tl_move_y_animation t)"

lemma trace_ops:
  "trace (request_tile_size E sz an tr t) = trace t" "trace (request_fullscreen E an tr t) = trace t"
  "trace (request_maximized E sz an tr t) = trace t" "trace (tile_update_config vs sc opts t) = trace t"
  by (simp_all add: trace_def tkey_def request_tile_size_def request_fullscreen_def request_maximized_def
      tile_update_config_def Let_def win_simps)

lemma set_column_trace:
  "trace (co_tile (fst (column_set_fullscreen E b c))) = trace (co_tile c)"
  "trace (co_tile (fst (column_set_maximized E b sz c))) = trace (co_tile c)"
  by (simp_all add: column_set_fullscreen_def column_set_maximized_def Let_def trace_ops)

lemma add_tile_traces:
  assumes "ss_inv E s"
  shows "map (trace \<circ> co_tile) (columns (ss_add_tile E' t a width full s)) = map (trace \<circ> co_tile) (columns s) @ [trace t]"
proof -
  let ?g = "\<lambda>c. fst (column_set_maximized E' False (rsize (ss_working_area s)) (fst (column_set_fullscreen E' False c)))"
  define col where "col = column_new_with_tile E' t (ss_view_size s) (ss_working_area s) (ss_parent_area s) (ss_scale s) width full"
  define s1 where "s1 = with_columns (map ?g) s"
  define col1 where "col1 = column_update_config (ss_view_size s) (ss_working_area s) (ss_parent_area s) (ss_scale s)
      (ss_options s) col"
  have ms: "ss_master s1 = None \<longrightarrow> ss_stack s1 = []"
    using assms by (auto simp: s1_def with_columns_def ss_inv_def columns_def split: option.splits list.splits)
  have sel: "ss_view_size s1 = ss_view_size s" "ss_working_area s1 = ss_working_area s" "ss_parent_area s1 = ss_parent_area s"
    "ss_scale s1 = ss_scale s" "ss_options s1 = ss_options s"
    by (simp_all add: s1_def with_columns_def split: list.split option.split)
  obtain s2 where s2: "ss_add_tile E' t a width full s = update_tile_sizes E' s2" "columns s2 = columns s1 @ [col1]"
    using ms that unfolding ss_add_tile_def add_column_def Let_def s1_def[symmetric] sel col_def[symmetric] col1_def[symmetric]
    by (cases "ss_master s1") (auto simp: columns_def)
  have z: "map (trace \<circ> co_tile) (map (\<lambda>((_, _, sz), c). resized E' sz c) (zip l cs)) = map (trace \<circ> co_tile) cs"
    if "length l = length cs" for l :: "(nat \<times> point \<times> size) list" and cs
    using that by (induction l cs rule: list_induct2) (auto simp: resized_def trace_ops)
  have "columns s1 = map ?g (columns s)" unfolding s1_def by (rule columns_with) simp
  moreover have "trace (co_tile col1) = trace t"
    by (simp add: col1_def column_update_config_def trace_ops)
       (simp add: col_def column_new_with_tile_def Let_def set_column_trace split: sizing_mode.split)
  moreover have "map (trace \<circ> co_tile) (columns (update_tile_sizes E' s2)) = map (trace \<circ> co_tile) (columns s2)"
    unfolding tile_sizes_columns by (rule z[OF column_layout_length])
  ultimately show ?thesis by (simp add: s2 set_column_trace)
qed

section \<open>The tile a floating window is put in\<close>

lemma add_floating_tile:
  assumes inv: "fs_inv E s" and ex: "fs_add_tile E t a s = Some s'"
  shows "\<exists>u \<in> set (fs_tiles s'). tile_id u = tile_id t \<and> tl_move_x_animation u = tl_move_x_animation t \<and>
    tl_move_y_animation u = tl_move_y_animation t \<and> tl_options u = fs_options s"
proof -
  obtain act p where s': "s' = reorder p (s\<lparr>fs_active_window_id := act, fs_tiles := fs_prepared E t s # fs_tiles s,
      fs_data := fdata_new E (fs_working_area s) (fs_prepared E t s) (fs_initial_pos E (fs_prepared E t s) s) # fs_data s\<rparr>)"
    "mset p = mset [0..<Suc (length (fs_tiles s))]"
    by (rule add_tile_shape[OF inv ex])
  have "0 \<in> set p" using arg_cong[OF s'(2), of set_mset] by auto
  then have "fs_prepared E t s \<in> set (fs_tiles s')" by (force simp: s'(1) reorder_def image_iff)
  moreover have "tile_id (fs_prepared E t s) = tile_id t" "tl_move_x_animation (fs_prepared E t s) = tl_move_x_animation t"
    "tl_move_y_animation (fs_prepared E t s) = tl_move_y_animation t" "tl_options (fs_prepared E t s) = fs_options s"
    by (simp_all add: fs_prepared_def tile_update_config_def Let_def win_simps split: option.split)
  ultimately show ?thesis by blast
qed

section \<open>No panic\<close>

lemma pos_of_total:
  assumes inv: "ws_inv E w" and i: "i \<in> set (ws_ids w)"
  shows "\<exists>p. ws_pos_of E' rnd i w = Some p"
proof -
  let ?ps = "ws_tiles_with_render_positions E' rnd w"
  have ss: "map fst (map (\<lambda>(t, p, _). (t, p)) (tiles_with_render_positions s)) = ss_tiles s" for s
  proof -
    have "map fst (map (\<lambda>(t, p, _). (t, p)) (tiles_with_render_positions s)) =
        map co_tile (map snd (zip (column_layout s) (columns s)))"
      unfolding tiles_with_render_positions_def map_map comp_def case_prod_beta by simp
    also have "map snd (zip (column_layout s) (columns s)) = columns s" by (rule map_snd_zip) (rule column_layout_length)
    finally show ?thesis by (simp add: ss_tiles_def)
  qed
  have fs: "map fst (fs_tiles_with_render_positions E' rnd (ws_floating w)) = fs_tiles (ws_floating w)"
    using core_length[OF fs_inv_core[OF ws_invD(2)[OF inv]]]
    by (simp add: fs_tiles_with_render_positions_def fs_tiles_with_offsets_def comp_def case_prod_beta Let_def)
  have "map fst ?ps = fs_tiles (ws_floating w) @ ss_tiles (ws_scrolling w)"
    unfolding ws_tiles_with_render_positions_def map_append fs ss ..
  then have "i \<in> set (map tile_id (map fst ?ps))"
    using i by (auto simp: ws_tiles_ids[symmetric] ws_tiles_def)
  then obtain t p where "(t, p) \<in> set ?ps" "tile_id t = i" by auto
  then have "find (\<lambda>(t, _). tile_id t = i) ?ps \<noteq> None" unfolding find_None_iff by auto
  then show ?thesis by (auto simp: ws_pos_of_def)
qed

lemma update_first_one:
  "distinct (map column_id cs) \<Longrightarrow> c \<in> set cs \<Longrightarrow> f (co_tile c) = Some t \<Longrightarrow> update_first (column_id c) f cs \<noteq> None"
  by (induction cs) auto

lemma ss_update_one:
  assumes "ss_inv E s" "c \<in> set (columns s)" "f (co_tile c) = Some t"
  shows "ss_update_tile (column_id c) f s \<noteq> None"
  using update_first_one[of "columns s" c f t] assms
  by (auto simp: ss_update_tile_def ss_tiles_def list_ex_iff update_column_by_id_def ss_inv_def ss_ids_def)

lemma ss_fs_options: "ws_inv E w \<Longrightarrow> ss_options (ws_scrolling w) = ws_options w \<and> fs_options (ws_floating w) = ws_options w"
  using ws_invD(5)[of E w] by (simp add: ws_config_ok_def ss_config_def fs_config_def)

lemma float_to_tile_total:
  assumes inv: "ws_inv E w" and i: "i \<in> set (fs_ids (ws_floating w))" and ez: "fs_movable E (ws_floating w)"
    and a: "\<not> a \<Longrightarrow> ws_active_id w \<noteq> Some i"
  shows "\<exists>w1. ws_float_to_tile E i a w = Some w1 \<and> (\<forall>d. ws_update_tile i (animate_move_from E d) w1 \<noteq> None)"
proof -
  note v = ws_invD[OF inv]
  obtain rt f where rt: "fs_remove_tile E i (ws_floating w) = Some (rt, f)" "tile_id (rt_tile rt) = i"
    using remove_inv[OF v(2) i, of E] by blast
  obtain k where k: "fs_idx_of i (ws_floating w) = Some k" using idx_of_total[OF i] by blast
  then have kl: "k < length (fs_tiles (ws_floating w))" using idx_of_Some by blast
  have "fs_remove_tile_by_idx E k (ws_floating w) = Some (rt, f)" using rt(1) k by (simp add: fs_remove_tile_def)
  then obtain sz p where t: "rt_tile rt = (fs_tiles (ws_floating w) ! k)\<lparr>tl_floating_window_size := sz, tl_floating_pos := p\<rparr>"
    using removed_shape(4)[OF rt(1) k] core_length[OF fs_inv_core[OF v(2)]] kl by auto
  then have mv: "restartable E (tl_move_x_animation (rt_tile rt))" "restartable E (tl_move_y_animation (rt_tile rt))"
    using ez kl by (auto simp: fs_movable_def list_all_length)
  define w1 where "w1 = ws_add_scrolling E (rt_tile rt) a (rt_width rt) (rt_is_full_width rt) (w\<lparr>ws_floating := f\<rparr>)"
  have w1: "ws_float_to_tile E i a w = Some w1" using rt(1) by (simp add: ws_float_to_tile_def w1_def)
  have inv1: "ws_inv E w1"
    using float_to_tile_law[OF inv a w1] by (auto simp: ws_moved_to_tiling_def ws_same_def)
  have new: "tile_id (rt_tile rt) \<notin> set (ss_ids (ws_scrolling w))" using v(3) i rt(2) by auto
  have sc: "ws_scrolling w1 = ss_add_tile E (rt_tile rt) a (rt_width rt) (rt_is_full_width rt) (ws_scrolling w)"
    by (simp add: w1_def ws_add_scrolling_def on_ss_def)
  obtain c where c: "c \<in> set (columns (ws_scrolling w1))" "follows (ws_options w) (rt_tile rt) (co_tile c)"
    using added_tile[OF v(1) new, of E a "rt_width rt" "rt_is_full_width rt"] ss_fs_options[OF inv] by (auto simp: sc)
  have ci: "column_id c = i" using c(2) rt(2) by (simp add: follows_def)
  have "i \<notin> set (fs_ids (ws_floating w1))" using ws_invD(3)[OF inv1] c(1) ci by (auto simp: ss_ids_def)
  then have none: "fs_idx_of i (ws_floating w1) = None" using idx_of_None by blast
  have ws: "startable (ao_window_movement (op_animations (ws_options w)))"
    using ez ss_fs_options[OF inv] by (simp add: fs_movable_def)
  have "ws_update_tile i (animate_move_from E d) w1 \<noteq> None" for d
  proof -
    obtain t' where t': "animate_move_from E d (co_tile c) = Some t'"
      using move_total[of "co_tile c" E d] mv ws c(2) by (auto simp: follows_def)
    from ss_update_one[OF ws_invD(1)[OF inv1] c(1), of "animate_move_from E d" t'] t' ci none show ?thesis
      by (auto simp: ws_update_tile_def try_ss_def)
  qed
  with w1 show ?thesis by blast
qed

lemma tile_to_float_total:
  assumes inv: "ws_inv E w" and ac: "ws_acyclic w" and i: "i \<in> set (ss_ids (ws_scrolling w))"
    and mv: "ss_movable E (ws_scrolling w)" and ez: "fs_movable E (ws_floating w)" and a: "\<not> a \<Longrightarrow> ws_active_id w \<noteq> Some i"
  shows "\<exists>w1. ws_tile_to_float E i a p w = Some w1 \<and> (\<forall>d. ws_update_tile i (animate_move_from E d) w1 \<noteq> None)"
proof -
  note v = ws_invD[OF inv]
  obtain rt s where rt: "ss_remove_tile E i (ws_scrolling w) = Some (rt, s)"
    using remove_tile_total[OF v(1) mv i] by blast
  have id: "tile_id (rt_tile rt) = i" using removed_tile[OF v(1) rt] by blast
  define u where "u = ws_with_floating_pos E p (stop_move_animations (rt_tile rt)) w"
  have u: "tile_id u = i" "tkey u = tkey (rt_tile rt)" "tl_move_x_animation u = None" "tl_move_y_animation u = None"
    using id by (simp_all add: u_def with_floating_pos_key stop_move_key tile_id_key)
      (simp_all add: ws_with_floating_pos_def stop_move_animations_def Let_def split: option.split)
  have "tkey ` set (u # fs_tiles (ws_floating w)) \<subseteq> tkey ` set (ws_tiles w)"
    using taken_tile[OF v(1) rt] u(2) by (auto simp: ws_tiles_def)
  from acyclic_subset[OF ac[unfolded ws_acyclic_def] this] have "parents_acyclic (u # fs_tiles (ws_floating w))" .
  moreover have "tile_id u \<notin> set (fs_ids (ws_floating w))" using v(3) i u(1) by auto
  ultimately obtain f where f: "fs_add_tile E u a (ws_floating w) = Some f" "fs_inv E f"
    using add_tile_at_inv[OF v(2), of 0 u a] by (auto simp: fs_add_tile_def)
  define w1 where "w1 = ws_activated a FloatYes (w\<lparr>ws_scrolling := s, ws_floating := f\<rparr>)"
  have w1: "ws_tile_to_float E i a p w = Some w1"
    using rt f(1) by (simp add: ws_tile_to_float_def Let_def try_fs_def u_def[symmetric] w1_def)
  obtain x where x: "x \<in> set (fs_tiles f)" "tile_id x = i" "tl_move_x_animation x = None" "tl_move_y_animation x = None"
      "tl_options x = ws_options w"
    using add_floating_tile[OF v(2) f(1)] u ss_fs_options[OF inv] by auto
  then have "i \<in> set (fs_ids f)" by (auto simp: fs_ids_def)
  then obtain k where k: "fs_idx_of i f = Some k" using idx_of_total by blast
  then have kk: "k < length (fs_tiles f)" "tile_id (fs_tiles f ! k) = i" using idx_of_Some by blast+
  obtain j where j: "j < length (fs_tiles f)" "fs_tiles f ! j = x" using x(1) by (auto simp: in_set_conv_nth)
  have "distinct (fs_ids f)" by (rule floating.ids_distinct[OF f(2)])
  then have "j = k" using kk j x(2) by (auto simp: fs_ids_def distinct_conv_nth)
  with j have kx: "fs_tiles f ! k = x" by simp
  have ws: "startable (ao_window_movement (op_animations (ws_options w)))"
    using ez ss_fs_options[OF inv] by (simp add: fs_movable_def)
  have "ws_update_tile i (animate_move_from E d) w1 \<noteq> None" for d
    using move_total[of x E d] x ws k kx by (auto simp: ws_update_tile_def w1_def restartable_def)
  with w1 show ?thesis by blast
qed

lemma toggle_total:
  assumes inv: "ws_inv E w" and ac: "ws_acyclic w" and i: "i \<in> set (ws_ids w)"
    and mv: "ss_movable E (ws_scrolling w)" and ez: "fs_movable E (ws_floating w)"
  shows "\<exists>w'. ws_toggle_window_floating E (Some i) w = Some w'"
proof -
  define a where "a = (Some i = map_option mw_id (ws_active_window w))"
  have a: "\<not> a \<Longrightarrow> ws_active_id w \<noteq> Some i" by (auto simp: a_def ws_active_id_def)
  obtain p where p: "ws_pos_of E True i w = Some p" using pos_of_total[OF inv i] by blast
  obtain w1 where w1: "(if fs_has_window i (ws_floating w) then ws_float_to_tile E i a w else ws_tile_to_float E i a p w) = Some w1"
      "\<And>d. ws_update_tile i (animate_move_from E d) w1 \<noteq> None"
  proof (cases "i \<in> set (fs_ids (ws_floating w))")
    case True
    with float_to_tile_total[OF inv True ez a] that show thesis by (auto simp: fs_has_ids)
  next
    case False
    then have "i \<in> set (ss_ids (ws_scrolling w))" using i by (simp add: ws_ids_def)
    from tile_to_float_total[OF inv ac this mv ez a, of a p] that False show thesis by (auto simp: fs_has_ids)
  qed
  have "ws_same E w w1"
    using w1(1) float_to_tile_law[OF inv a, of a w1] tile_to_float_law[OF inv ac a, of a p w1]
    by (auto simp: ws_moved_to_tiling_def ws_moved_to_floating_def split: if_split_asm)
  then have "ws_inv E w1" "i \<in> set (ws_ids w1)" using i by (auto simp: ws_same_def dest: mset_eq_setD)
  then obtain q where q: "ws_pos_of E False i w1 = Some q" using pos_of_total by blast
  show ?thesis
    using p w1(1) q w1(2)[of "pt_sub p q"]
    by (auto simp: ws_toggle_window_floating_def Let_def a_def[symmetric] simp del: if_split_asm)
qed

section \<open>The column that is fullscreened\<close>

lemma update_first_at:
  "distinct (map column_id cs) \<Longrightarrow> k < length cs \<Longrightarrow> column_id (cs ! k) = i \<Longrightarrow> f (co_tile (cs ! k)) = Some t \<Longrightarrow>
   update_first i f cs = Some (cs[k := (cs ! k)\<lparr>co_tile := t\<rparr>])"
proof (induction cs arbitrary: k)
  case (Cons c cs)
  show ?case
  proof (cases k)
    case 0
    have "update_first i f cs = Some cs" if "i \<notin> set (map column_id cs)" for cs
      using that by (induction cs) auto
    with Cons.prems 0 show ?thesis by auto
  next
    case (Suc j)
    with Cons.IH[of j] Cons.prems show ?thesis by auto
  qed
qed simp

lemma ss_update_at:
  assumes "ss_inv E s" "k < length (columns s)" "column_id (columns s ! k) = i" "f (co_tile (columns s ! k)) = Some t"
  shows "\<exists>s'. ss_update_tile i f s = Some s' \<and> columns s' = (columns s)[k := (columns s ! k)\<lparr>co_tile := t\<rparr>]"
proof -
  let ?cs = "(columns s)[k := (columns s ! k)\<lparr>co_tile := t\<rparr>]"
  have "update_first i f (columns s) = Some ?cs"
    using assms by (intro update_first_at) (simp_all add: ss_inv_def ss_ids_def)
  moreover have "list_ex (\<lambda>t. tile_id t = i) (ss_tiles s)"
    using assms(2,3) by (auto simp: list_ex_iff ss_tiles_def intro!: bexI[of _ "columns s ! k"])
  moreover have "columns (with_columns (\<lambda>_. ?cs) s) = ?cs" by (rule columns_with) simp
  ultimately show ?thesis by (simp add: ss_update_tile_def update_column_by_id_def)
qed

lemma position_at:
  assumes "ss_inv E s" "k < length (columns s)"
  shows "position (\<lambda>c. column_id c = column_id (columns s ! k)) (columns s) = Some k"
proof (cases "position (\<lambda>c. column_id c = column_id (columns s ! k)) (columns s)")
  case None
  with assms(2) show ?thesis by (auto simp: position_None)
next
  case (Some j)
  have "distinct (map column_id (columns s))" using assms(1) by (simp add: ss_inv_def ss_ids_def)
  with position_Some[OF Some] assms(2) Some show ?thesis by (auto simp: distinct_conv_nth)
qed

lemma find_append: "find P xs = Some x \<Longrightarrow> find P (xs @ ys) = Some x"
  by (induction xs) auto

lemma find_at:
  assumes "ss_inv E s" "k < length (columns s)" "column_id (columns s ! k) = i"
  shows "find (\<lambda>c. column_id c = i) (columns s) = Some (columns s ! k)"
    "find (\<lambda>t. tile_id t = i) (ss_tiles s) = Some (co_tile (columns s ! k))"
proof -
  have d: "distinct (map column_id (columns s))" using assms(1) by (simp add: ss_inv_def ss_ids_def)
  have "find (\<lambda>c. column_id c = i) cs = Some (cs ! k)" "find (\<lambda>t. tile_id t = i) (map co_tile cs) = Some (co_tile (cs ! k))"
    if "distinct (map column_id cs)" "k < length cs" "column_id (cs ! k) = i" for cs :: "column list"
    using that
  proof (induction cs arbitrary: k)
    case (Cons c cs)
    { case 1 with Cons.IH(1)[of "k - 1"] show ?case by (cases k) auto }
    { case 2 with Cons.IH(2)[of "k - 1"] show ?case by (cases k) auto }
  qed simp_all
  with d assms(2,3) show "find (\<lambda>c. column_id c = i) (columns s) = Some (columns s ! k)"
    "find (\<lambda>t. tile_id t = i) (ss_tiles s) = Some (co_tile (columns s ! k))"
    by (simp_all add: ss_tiles_def)
qed

lemma set_fullscreen_columns:
  assumes "ss_inv E s" "k < length (columns s)"
  shows "\<exists>s' ch. ss_set_fullscreen E' (column_id (columns s ! k)) True s = Some (s', ch) \<and>
    columns s' = (columns s)[k := fst (column_set_fullscreen E' True (columns s ! k))]"
proof -
  obtain s' ch where u: "update_column_at k (column_set_fullscreen E' True) s = Some (s', ch)"
    using update_column_at_Some[OF assms] by blast
  with update_column_at_columns[OF assms u] position_at[OF assms] show ?thesis by (simp add: ss_set_fullscreen_def)
qed

text \<open>A tiled window is made fullscreen: its column is, and it is asked to be maximized, never fullscreen.\<close>

lemma takeover_fullscreen:
  assumes inv: "ws_inv E w" and k: "k < length (columns (ws_scrolling w))" "column_id (columns (ws_scrolling w) ! k) = i"
    and c: "\<not> co_is_pending_fullscreen (columns (ws_scrolling w) ! k)"
  shows "\<exists>w'. ws_set_takeover (\<lambda>s. map_option fst (ss_set_fullscreen E' i True s)) i b w = Some w' \<and>
    ws_floating w' = ws_floating w \<and> ss_options (ws_scrolling w') = ss_options (ws_scrolling w) \<and>
    map (trace \<circ> co_tile) (columns (ws_scrolling w')) = map (trace \<circ> co_tile) (columns (ws_scrolling w)) \<and>
    length (columns (ws_scrolling w')) = length (columns (ws_scrolling w)) \<and>
    (let c' = columns (ws_scrolling w') ! k in column_id c' = i \<and> co_is_pending_fullscreen c' \<and> \<not> co_is_pending_maximized c' \<and>
      win_pending_sizing_mode (tl_window (co_tile c')) = Maximized \<and>
      (win_pending_sizing_mode (tl_window (co_tile (columns (ws_scrolling w) ! k))) = Normal \<longrightarrow> tl_restore_to_floating (co_tile c') = b))"
proof -
  let ?s = "ws_scrolling w"
  define n where "n = (win_pending_sizing_mode (tl_window (co_tile (columns ?s ! k))) = Normal)"
  define f :: "tile \<Rightarrow> tile" where "f t = (if n \<and> win_pending_sizing_mode (tl_window t) \<noteq> Normal
      then t\<lparr>tl_restore_to_floating := b\<rparr> else t)" for t
  note v = ws_invD[OF inv]
  obtain s1 ch where s1: "ss_set_fullscreen E' i True ?s = Some (s1, ch)"
      and cols: "columns s1 = (columns ?s)[k := fst (column_set_fullscreen E' True (columns ?s ! k))]"
    using set_fullscreen_columns[OF v(1) k(1), of E'] k(2) by auto
  have inv1: "ss_inv E s1" using set_fullscreen_inv[OF v(1), of E' i True] s1 by auto
  have ck: "columns s1 ! k = (columns ?s ! k)\<lparr>co_is_pending_fullscreen := True, co_is_pending_maximized := False,
      co_tile := request_fullscreen E' False None (co_tile (columns ?s ! k))\<rparr>"
    using c k(1) by (simp add: cols column_set_fullscreen_def Let_def)
  have id1: "column_id (columns s1 ! k) = i" "k < length (columns s1)"
    using k by (simp_all add: ck tile_simps cols)
  obtain s2 where s2: "ss_update_tile i (\<lambda>t. Some (f t)) s1 = Some s2"
      "columns s2 = (columns s1)[k := (columns s1 ! k)\<lparr>co_tile := f (co_tile (columns s1 ! k))\<rparr>]"
    using ss_update_at[OF inv1 id1(2,1), of "\<lambda>t. Some (f t)"] by blast
  define w' where "w' = w\<lparr>ws_scrolling := s2\<rparr>"
  have ex: "ws_set_takeover (\<lambda>s. map_option fst (ss_set_fullscreen E' i True s)) i b w = Some w'"
    using s2(1) find_at(2)[OF v(1) k]
    by (simp add: w'_def ws_set_takeover_def Let_def n_def[symmetric] f_def[symmetric] try_ss_def s1)
  moreover have "win_pending_sizing_mode (tl_window (co_tile (columns s1 ! k))) = Maximized"
    by (simp add: ck request_fullscreen_def request_mode)
  moreover have "co_is_pending_fullscreen (columns s1 ! k)" "\<not> co_is_pending_maximized (columns s1 ! k)"
    by (simp_all add: ck)
  moreover have "length (columns s1) = length (columns ?s)" by (simp add: cols)
  moreover have "ss_options s2 = ss_options ?s"
    using s2(1) ss_config_takeover(1)[OF s1]
    by (auto simp: ss_update_tile_def update_column_by_id_def ss_config_def with_columns_def bind_eq_Some_conv
        split: if_splits option.splits list.splits)
  moreover have "map (trace \<circ> co_tile) (columns s2) = map (trace \<circ> co_tile) (columns ?s)"
  proof -
    have "trace (f t) = trace t" for t by (simp add: f_def trace_def tkey_def)
    then show ?thesis
      unfolding s2(2) cols map_update using k(1) by (simp add: ck[unfolded cols] trace_ops list_update_same_conv)
  qed
  ultimately show ?thesis
    using id1 ex by (auto simp: s2(2) f_def n_def Let_def w'_def)
qed

lemma column_index:
  assumes "i \<in> set (ss_ids s)"
  obtains k where "k < length (columns s)" "column_id (columns s ! k) = i"
  using assms by (auto simp: ss_ids_def in_set_conv_nth)

text \<open>Asking for what already holds does nothing.\<close>

lemma takeover_again:
  assumes inv: "ws_inv E w" and k: "k < length (columns (ws_scrolling w))" "column_id (columns (ws_scrolling w) ! k) = i"
    and c: "co_is_pending_fullscreen (columns (ws_scrolling w) ! k)"
  shows "ws_set_takeover (\<lambda>s. map_option fst (ss_set_fullscreen E' i True s)) i b w = Some w"
proof -
  let ?s = "ws_scrolling w"
  let ?n = "win_pending_sizing_mode (tl_window (co_tile (columns ?s ! k))) = Normal"
  define f :: "tile \<Rightarrow> tile" where "f t = (if ?n \<and> win_pending_sizing_mode (tl_window t) \<noteq> Normal
      then t\<lparr>tl_restore_to_floating := b\<rparr> else t)" for t
  note v = ws_invD[OF inv]
  have p: "position (\<lambda>c. column_id c = i) (columns ?s) = Some k" using position_at[OF v(1) k(1)] k(2) by simp
  have "column_set_fullscreen E' True (columns ?s ! k) = (columns ?s ! k, False)"
    using c by (simp add: column_set_fullscreen_def)
  moreover have id: "with_columns (\<lambda>_. columns s) s = s" if "ss_master s = None \<longrightarrow> ss_stack s = []" for s
    using that by (cases "ss_master s") (simp_all add: with_columns_def columns_def)
  moreover have m: "ss_master ?s = None \<longrightarrow> ss_stack ?s = []" using v(1) by (simp add: ss_inv_def)
  moreover have "with_columns (\<lambda>cs. cs[k := columns ?s ! k]) ?s = with_columns (\<lambda>_. (columns ?s)[k := columns ?s ! k]) ?s"
    unfolding with_columns_def columns_def by (simp split: option.split)
  then have "with_columns (\<lambda>cs. cs[k := columns ?s ! k]) ?s = ?s" using id[OF m] by simp
  ultimately have s: "ss_set_fullscreen E' i True ?s = Some (?s, False)"
    using update_column_at_Some[OF v(1) k(1), of "column_set_fullscreen E' True"] by (simp add: ss_set_fullscreen_def p)
  have "f (co_tile (columns ?s ! k)) = co_tile (columns ?s ! k)" by (simp add: f_def)
  then have "update_first i (\<lambda>t. Some (f t)) (columns ?s) = Some (columns ?s)"
    using update_first_at[of "columns ?s" k i "\<lambda>t. Some (f t)" "co_tile (columns ?s ! k)"] v(1) k
    by (simp add: ss_inv_def ss_ids_def)
  moreover have "list_ex (\<lambda>t. tile_id t = i) (ss_tiles ?s)"
    using k by (auto simp: list_ex_iff ss_tiles_def intro!: bexI[of _ "columns ?s ! k"])
  ultimately have "ss_update_tile i (\<lambda>t. Some (f t)) ?s = Some ?s"
    using id[OF m] by (simp add: ss_update_tile_def update_column_by_id_def)
  then show ?thesis
    using find_at(2)[OF v(1) k] s
    by (simp add: ws_set_takeover_def Let_def f_def[symmetric] try_ss_def)
qed

lemma takeover_inv:
  "ws_inv E w \<Longrightarrow> ws_set_takeover (\<lambda>s. map_option fst (ss_set_fullscreen E i b s)) i r w = Some w' \<Longrightarrow> ws_inv E w'"
  using set_takeover_quiet[where op = "SetFullscreen i b" and w = w and E = E] by (auto simp: ws_quiet_def)

section \<open>Fullscreen from floating\<close>

lemma animate_window: "animate_move_from E d t = Some t' \<Longrightarrow> tl_window t' = tl_window t"
  by (auto simp: animate_move_from_def animate_move_x_from_with_config_def animate_move_y_from_with_config_def Let_def
      bind_eq_Some_conv)

lemma animate_restartable:
  assumes "startable (ao_window_movement (op_animations (tl_options t)))"
    and "restartable E (tl_move_x_animation t)" "restartable E (tl_move_y_animation t)"
  shows "\<exists>t'. animate_move_from E d t = Some t' \<and> restartable E (tl_move_x_animation t') \<and> restartable E (tl_move_y_animation t')"
proof -
  let ?cfg = "ao_window_movement (op_animations (tl_options t))"
  have n: "anim_new E 1 0 0 ?cfg \<noteq> None" using startable_new[OF assms(1), of E 1 0 0] by auto
  obtain t1 where t1: "animate_move_x_from_with_config E (pt_x d) ?cfg t = Some t1"
      "restartable E (tl_move_x_animation t1)" "restartable E (tl_move_y_animation t1)"
    using animate_x_total[OF n assms(2,3)] by blast
  from animate_y_total[OF n t1(2,3), of "pt_y d"] t1(1) show ?thesis
    by (auto simp: animate_move_from_def Let_def)
qed

lemma movable_trace: "movable E c \<longleftrightarrow> (case trace (co_tile c) of (_, x, y) \<Rightarrow> restartable E x \<and> restartable E y)"
  by (simp add: movable_def trace_def)

text \<open>A floating window that is not to be fullscreen or maximized is tiled as an ordinary column, and can be
  animated again.\<close>

lemma toggled_column:
  assumes inv: "ws_inv E w" and ac: "ws_acyclic w" and k: "fs_idx_of i (ws_floating w) = Some k"
    and n: "win_pending_sizing_mode (tl_window (fs_tiles (ws_floating w) ! k)) = Normal"
    and mv: "ss_movable E (ws_scrolling w)" and ez: "fs_movable E (ws_floating w)"
  shows "\<exists>w' j. ws_toggle_window_floating E (Some i) w = Some w' \<and> j < length (columns (ws_scrolling w')) \<and>
    (let c = columns (ws_scrolling w') ! j in
      column_id c = i \<and> \<not> co_is_pending_fullscreen c \<and> \<not> co_is_pending_maximized c \<and>
      win_pending_sizing_mode (tl_window (co_tile c)) = Normal) \<and>
    ss_movable E (ws_scrolling w') \<and> fs_movable E (ws_floating w') \<and> ws_acyclic w'"
proof -
  note v = ws_invD[OF inv]
  have i: "i \<in> set (fs_ids (ws_floating w))" and kl: "k < length (fs_tiles (ws_floating w))"
    using idx_of_Some[OF k] by (auto simp: fs_ids_def)
  then have iw: "i \<in> set (ws_ids w)" by (simp add: ws_ids_def)
  define a where "a = (Some i = map_option mw_id (ws_active_window w))"
  have act: "\<not> a \<Longrightarrow> ws_active_id w \<noteq> Some i" by (auto simp: a_def ws_active_id_def)
  obtain w' where ex: "ws_toggle_window_floating E (Some i) w = Some w'" using toggle_total[OF inv ac iw mv ez] by blast
  obtain q w1 where w1: "ws_float_to_tile E i a w = Some w1" "ws_update_tile i (animate_move_from E q) w1 = Some w'"
    using ex i unfolding ws_toggle_window_floating_def Let_def
    by (auto simp: fs_has_ids bind_eq_Some_conv a_def)
  obtain rt f where rt: "fs_remove_tile E i (ws_floating w) = Some (rt, f)"
      "w1 = ws_add_scrolling E (rt_tile rt) a (rt_width rt) (rt_is_full_width rt) (w\<lparr>ws_floating := f\<rparr>)"
    using w1(1) by (auto simp: ws_float_to_tile_def bind_eq_Some_conv)
  have kd: "k < length (fs_data (ws_floating w))" using core_length[OF fs_inv_core[OF v(2)]] kl by simp
  note sh = removed_shape[OF rt(1) k kd]
  obtain sz p where t: "rt_tile rt = (fs_tiles (ws_floating w) ! k)\<lparr>tl_floating_window_size := sz, tl_floating_pos := p\<rparr>"
    using sh(4) by auto
  have mem: "fs_tiles (ws_floating w) ! k \<in> set (fs_tiles (ws_floating w))" using kl by simp
  have tk: "tkey (rt_tile rt) = tkey (fs_tiles (ws_floating w) ! k)" unfolding t by (rule tkey_stored)
  have id: "tile_id (rt_tile rt) = i" using idx_of_Some[OF k] by (simp add: t)
  have new: "tile_id (rt_tile rt) \<notin> set (ss_ids (ws_scrolling w))" using v(3) i id by auto
  have rs: "restartable E (tl_move_x_animation (rt_tile rt))" "restartable E (tl_move_y_animation (rt_tile rt))"
    using ez mem by (auto simp: t fs_movable_def list_all_iff)
  have sc: "ws_scrolling w1 = ss_add_tile E (rt_tile rt) a (rt_width rt) (rt_is_full_width rt) (ws_scrolling w)"
      "ws_floating w1 = f"
    by (simp_all add: rt(2) ws_add_scrolling_def on_ss_def)
  obtain c where c: "c \<in> set (columns (ws_scrolling w1))" "follows (ws_options w) (rt_tile rt) (co_tile c)"
      "\<not> co_is_pending_fullscreen c" "\<not> co_is_pending_maximized c"
    using added_tile[OF v(1) new, of E a "rt_width rt" "rt_is_full_width rt"] ss_fs_options[OF inv] n
    by (auto simp: sc t)
  obtain j where j: "j < length (columns (ws_scrolling w1))" "columns (ws_scrolling w1) ! j = c"
    using c(1) by (auto simp: in_set_conv_nth)
  have ci: "column_id c = i" using c(2) id by (simp add: follows_def)
  have inv1: "ws_inv E w1"
    using float_to_tile_law[OF inv act w1(1)] by (auto simp: ws_moved_to_tiling_def ws_same_def)
  have "i \<notin> set (fs_ids (ws_floating w1))" using ws_invD(3)[OF inv1] c(1) ci by (auto simp: ss_ids_def)
  then have "fs_idx_of i (ws_floating w1) = None" using idx_of_None by blast
  with w1(2) obtain s where s: "ss_update_tile i (animate_move_from E q) (ws_scrolling w1) = Some s" "w' = w1\<lparr>ws_scrolling := s\<rparr>"
    by (auto simp: ws_update_tile_def try_ss_def)
  have "startable (ao_window_movement (op_animations (tl_options (co_tile c))))"
    using ez ss_fs_options[OF inv] c(2) by (simp add: fs_movable_def follows_def)
  then obtain t' where t': "animate_move_from E q (co_tile c) = Some t'"
      "restartable E (tl_move_x_animation t')" "restartable E (tl_move_y_animation t')"
    using animate_restartable[of "co_tile c" E q] rs c(2) by (auto simp: follows_def)
  have cs: "columns s = (columns (ws_scrolling w1))[j := c\<lparr>co_tile := t'\<rparr>]"
    using ss_update_at[OF ws_invD(1)[OF inv1] j(1), of i "animate_move_from E q" t'] j(2) ci t'(1) s(1) by auto
  note tr = add_tile_traces[OF v(1), of E "rt_tile rt" a "rt_width rt" "rt_is_full_width rt", folded sc(1)]
  have "list_all (movable E) (columns (ws_scrolling w1))"
  proof -
    have "list_all (\<lambda>(_, x, y). restartable E x \<and> restartable E y) (map (trace \<circ> co_tile) (columns (ws_scrolling w1)))"
      unfolding tr using mv rs by (auto simp: ss_movable_def movable_trace list_all_iff trace_def)
    then show ?thesis by (simp add: list_all_iff movable_trace comp_def)
  qed
  then have "list_all (movable E) (columns s)" unfolding cs by (rule list_all_update) (simp add: movable_def t')
  moreover have inv': "ws_inv E w'" using toggle_floating_same[OF inv ac ex] by (simp add: ws_same_def)
  moreover have "ws_options w' = ws_options w" by (simp add: s(2) rt(2) ws_add_scrolling_def on_ss_def ws_activated_def)
  ultimately have "ss_movable E (ws_scrolling w')"
    using mv ss_fs_options[OF inv] ss_fs_options[OF inv'] by (simp add: ss_movable_def s(2))
  moreover have fsub: "set (fs_tiles f) \<subseteq> set (fs_tiles (ws_floating w))"
    unfolding sh(5) by (auto dest: in_set_takeD in_set_dropD)
  then have "fs_movable E (ws_floating w')"
    using ez sh(9) by (auto simp: s(2) sc(2) fs_movable_def list_all_iff)
  moreover have "ws_acyclic w'"
  proof -
    have kt: "tkey t' = tkey (co_tile c)" using keeps_moves[OF t'(1), of E] by (simp add: keeps_def)
    have "map (tkey \<circ> co_tile) (columns s) = map (tkey \<circ> co_tile) (columns (ws_scrolling w1))"
      unfolding cs map_update using j kt by (simp add: list_update_same_conv)
    also have "\<dots> = map fst (map (trace \<circ> co_tile) (columns (ws_scrolling w1)))" by (simp add: trace_def)
    also have "\<dots> = map (tkey \<circ> co_tile) (columns (ws_scrolling w)) @ [tkey (rt_tile rt)]"
      unfolding tr by (simp add: trace_def)
    finally have "tkey ` set (ss_tiles s) = insert (tkey (rt_tile rt)) (tkey ` set (ss_tiles (ws_scrolling w)))"
      unfolding ss_tiles_def by (metis list.set_map map_map list.simps(15) rotate1.simps(2) set_rotate1)
    then have "tkey ` set (ws_tiles w') \<subseteq> tkey ` set (ws_tiles w)"
      using fsub mem tk by (auto simp: ws_tiles_def s(2) sc(2) image_Un)
    from acyclic_subset[OF ac[unfolded ws_acyclic_def] this] show ?thesis by (simp add: ws_acyclic_def)
  qed
  moreover have "j < length (columns (ws_scrolling w'))" using j(1) by (simp add: s(2) cs)
  moreover have "columns (ws_scrolling w') ! j = c\<lparr>co_tile := t'\<rparr>" using j(1) by (simp add: s(2) cs)
  ultimately show ?thesis
    using ex c animate_window[OF t'(1)] keeps_moves[OF t'(1), of E] ci n t
    by (intro exI[of _ w'] exI[of _ j]) (auto simp: Let_def follows_def keeps_def tile_id_key)
qed

section \<open>Examples\<close>

text \<open>Window 1 alone on the workspace, tiled and floating.\<close>

lemma blank_spaces:
  "ws_scrolling ws_blank = ss_new (env_blank 1) (mk_size 1280 720) \<lparr>rloc = mk_point 0 0, rsize = mk_size 1280 720\<rparr> 1 (ws_options ws_blank)"
  "ws_floating ws_blank = fs_new (mk_size 1280 720) \<lparr>rloc = mk_point 0 0, rsize = mk_size 1280 720\<rparr> 1 (ws_options ws_blank)"
  by (simp_all add: ws_blank_def ws_new_no_outputs_def ws_new_with_config_no_outputs_def ws_build_def Let_def)

lemma blank_animations: "op_animations (ws_options ws_blank) = op_animations options_blank"
  by (simp add: ws_blank_def ws_new_no_outputs_def ws_new_with_config_no_outputs_def ws_build_def Let_def
      ws_compute_options_def options_with_merged_layout_def options_adjusted_for_scale_def)

lemma blank_startable: "startable anim_config_blank" "anim_new (env_blank 1) 1 0 0 anim_config_blank \<noteq> None"
  by (simp_all add: startable_def blank_defs anim_new_def anim_replace_config_def Let_def)

lemma floating_example:
  obtains w where "ws_reach (env_blank 1) w" "ws_ids w = [1]" "fs_idx_of 1 (ws_floating w) = Some 0" "ws_acyclic w"
    "win_pending_sizing_mode (tl_window (fs_tiles (ws_floating w) ! 0)) = Normal"
    "ss_movable (env_blank 1) (ws_scrolling w)" "fs_movable (env_blank 1) (ws_floating w)"
proof -
  let ?E = "env_blank 1" let ?t = "tile_blank 1\<lparr>tl_restore_to_floating := True\<rparr>" let ?f0 = "ws_floating ws_blank"
  obtain w where w: "ws_exec ?E (WAddTile (tile_blank 1) AddAuto ActYes (Fixed 300) False True) ws_blank = Some w"
      "ws_reach ?E w" "ws_ids w = [1]" "ws_inv ?E w"
    using ws_example_add by blast
  have n: "win_pending_sizing_mode (tl_window (tile_blank 1)) = Normal" by (simp add: blank_defs)
  then obtain f where f: "fs_add_tile ?E ?t True ?f0 = Some f" "ws_floating w = f" "ws_scrolling w = ws_scrolling ws_blank"
    using w(1) by (auto simp: ws_add_tile_def ws_add_floating_def fs_put_def try_fs_def ws_activated_def Let_def bind_eq_Some_conv
        split: if_splits)
  have e: "fs_tiles ?f0 = []" "fs_data ?f0 = []" by (simp_all add: blank_spaces fs_new_def)
  have tiles: "fs_tiles f = [fs_prepared ?E ?t ?f0]"
    using f(1) add_to_empty[OF e, of ?E ?t True] by auto
  have prep: "tl_move_x_animation (fs_prepared ?E ?t ?f0) = None" "tl_move_y_animation (fs_prepared ?E ?t ?f0) = None"
    "tile_id (fs_prepared ?E ?t ?f0) = 1" "tkey (fs_prepared ?E ?t ?f0) = (1, 1, None)"
    by (simp_all add: fs_prepared_def tile_update_config_def Let_def win_simps tkey_def) (simp_all add: blank_defs)
  have sz: "isz = floating_request_size ?E t \<Longrightarrow> win_pending_sizing_mode (win_request_size_once ?E isz True (tl_window (tile_blank 1))) = Normal" for isz t
    by (simp add: win_request_size_once_def note_pending_maximized_def with_pending_state_def Let_def blank_defs
        last_uncommitted_configure_def split: option.split)
  have m: "win_pending_sizing_mode (tl_window (fs_prepared ?E ?t ?f0)) = Normal"
    using sz by (simp add: fs_prepared_def tile_update_config_def Let_def)
  have "fs_idx_of 1 f = Some 0" using prep(3) by (simp add: fs_idx_of_def tiles)
  moreover have o1: "fs_options f = ws_options ws_blank"
    using f(1) fs_config_kept[of ?E "FAddTile ?t True" ?f0 f] by (simp add: fs_config_def blank_spaces fs_new_def)
  have "fs_movable ?E f"
    using blank_startable by (simp add: fs_movable_def o1 blank_animations tiles prep[unfolded One_nat_def] restartable_def)
       (simp add: options_blank_def)
  moreover have "ss_movable ?E (ws_scrolling w)"
    using blank_startable by (simp add: f(3) blank_spaces ss_movable_def ss_new_def columns_def blank_animations)
       (simp add: options_blank_def)
  moreover have "ws_acyclic w"
    using float_one_acyclic[of "fs_prepared ?E ?t ?f0" 1] prep(4)
    by (simp add: ws_acyclic_def ws_tiles_def f tiles blank_spaces ss_new_def ss_tiles_def columns_def)
  ultimately show thesis using that w(2,3) m by (simp add: f(2) tiles)
qed

section \<open>Properties\<close>

text \<open>Property C24. Toggling a window between tiling and floating never panics when the
  configured movement animations can be started, being off, an easing or a spring that is not overdamped (as the defaults
  are), the running ones can be restarted and no window is its own ancestor; it puts this window,
  and no other, into the other space, and never changes which window is active, whether or not it is the one
  that moves and even when its space becomes empty.\<close>

theorem toggle_keeps_focus:
  assumes "ws_reach E w" "ws_acyclic w" "ws_has_window i w" "ss_movable E (ws_scrolling w)" "fs_movable E (ws_floating w)"
  shows "\<exists>w'. ws_toggle_window_floating E (Some i) w = Some w' \<and>
    map_option mw_id (ws_active_window w') = map_option mw_id (ws_active_window w) \<and>
    ws_is_floating i w' = (\<not> ws_is_floating i w) \<and>
    (\<forall>j. ws_has_window j w' = ws_has_window j w) \<and>
    (\<forall>j. j \<noteq> i \<longrightarrow> ws_is_floating j w' = ws_is_floating j w)"
proof -
  note inv = ws_reach_inv[OF assms(1)]
  have ids: "ws_has_window j v \<longleftrightarrow> j \<in> set (ws_ids v)" for j v
    by (auto simp: ws_has_window_def list_ex_iff ws_windows_def ws_tiles_ids[symmetric])
  obtain w' where w': "ws_toggle_window_floating E (Some i) w = Some w'"
    using toggle_total[OF inv assms(2) _ assms(4,5), of i] assms(3) ids by blast
  note law = toggle_floating_law[OF inv assms(2) w']
  have same: "ws_same E w w'" by (rule toggle_floating_same[OF inv assms(2) w'])
  then have set: "set (ws_ids w') = set (ws_ids w)" by (auto simp: ws_same_def dest: mset_eq_setD)
  have disj: "set (ss_ids (ws_scrolling w')) \<inter> set (fs_ids (ws_floating w')) = {}"
    using same ws_invD(3) by (auto simp: ws_same_def)
  show ?thesis
    using w' law set disj
    by (auto simp: toggle_target_def ws_active_id_def ws_is_floating_def fs_has_ids ids ws_moved_to_tiling_def
        ws_moved_to_floating_def split: if_splits)
qed

theorem toggle_keeps_focus_witness:
  "\<exists>w w'. ws_is_floating 1 w \<and> ws_toggle_window_floating (env_blank 1) (Some 1) w = Some w' \<and> \<not> ws_is_floating 1 w'"
proof -
  obtain w where w: "ws_reach (env_blank 1) w" "ws_ids w = [1]" "fs_idx_of 1 (ws_floating w) = Some 0" "ws_acyclic w"
    "ss_movable (env_blank 1) (ws_scrolling w)" "fs_movable (env_blank 1) (ws_floating w)"
    by (rule floating_example)
  have "1 \<in> set (fs_ids (ws_floating w))" using w(3) idx_of_None[of 1 "ws_floating w"] by auto
  then have f: "ws_is_floating 1 w" by (simp add: ws_is_floating_def fs_has_ids)
  have "ws_has_window 1 w"
    using w(2) by (auto simp: ws_has_window_def list_ex_iff ws_windows_def ws_tiles_ids[symmetric])
  from toggle_keeps_focus[OF w(1,4) this w(5,6)] f show ?thesis by blast
qed

text \<open>Property C26. \<open>toggle_fullscreen\<close> makes a tiled window fullscreen, but can never
  take it back: the request for fullscreen is sent to the client as maximized, so the pending sizing mode the
  toggle looks at is never fullscreen, and toggling again does nothing at all.\<close>

theorem fullscreen_toggle_sticks:
  assumes "ws_reach E w" "k < length (columns (ws_scrolling w))" "column_id (columns (ws_scrolling w) ! k) = i"
    and "\<not> co_is_pending_fullscreen (columns (ws_scrolling w) ! k)"
    and "win_pending_sizing_mode (tl_window (co_tile (columns (ws_scrolling w) ! k))) \<noteq> Fullscreen"
  shows "\<exists>w1. ws_toggle_fullscreen E i w = Some w1 \<and> co_is_pending_fullscreen (columns (ws_scrolling w1) ! k) \<and>
    ws_toggle_fullscreen E i w1 = Some w1"
proof -
  note inv = ws_reach_inv[OF assms(1)]
  have find: "find (\<lambda>t. tile_id t = i) (ws_tiles v) = Some (co_tile (columns (ws_scrolling v) ! k))"
      "\<not> fs_has_window i (ws_floating v)"
    if "ws_inv E v" "k < length (columns (ws_scrolling v))" "column_id (columns (ws_scrolling v) ! k) = i" for v
    using find_at(2)[OF ws_invD(1)[OF that(1)] that(2,3)] ws_invD(3)[OF that(1)] nth_mem[OF that(2)] that(3)
    by (auto simp: ws_tiles_def fs_has_ids ss_ids_def intro: find_append)
  obtain w1 where set: "ws_set_takeover (\<lambda>s. map_option fst (ss_set_fullscreen E i True s)) i False w = Some w1"
    and k1: "k < length (columns (ws_scrolling w1))" "column_id (columns (ws_scrolling w1) ! k) = i"
      "co_is_pending_fullscreen (columns (ws_scrolling w1) ! k)"
      "win_pending_sizing_mode (tl_window (co_tile (columns (ws_scrolling w1) ! k))) = Maximized"
    using takeover_fullscreen[OF inv assms(2,3,4), of E False] assms(2) by (auto simp: Let_def)
  have inv1: "ws_inv E w1" by (rule takeover_inv[OF inv set])
  have "ws_toggle_fullscreen E i w = Some w1"
    using assms(5) find[OF inv assms(2,3)] set by (simp add: ws_toggle_fullscreen_def ws_set_fullscreen_def Let_def)
  moreover have "ws_toggle_fullscreen E i w1 = Some w1"
    using find[OF inv1 k1(1,2)] k1(4) takeover_again[OF inv1 k1(1-3), of E False]
    by (simp add: ws_toggle_fullscreen_def ws_set_fullscreen_def Let_def)
  ultimately show ?thesis using k1(3) by blast
qed

theorem fullscreen_toggle_sticks_witness:
  "\<exists>w w1. ws_ids w = [1] \<and> ws_toggle_fullscreen (env_blank 1) 1 w = Some w1 \<and> ws_toggle_fullscreen (env_blank 1) 1 w1 = Some w1"
proof -
  let ?E = "env_blank 1" let ?t = "tile_blank 1\<lparr>tl_restore_to_floating := False\<rparr>"
  obtain w where w: "ws_exec ?E (WAddTile (tile_blank 1) AddAuto ActYes (Fixed 300) False False) ws_blank = Some w"
      "ws_reach ?E w" "ws_ids w = [1]"
    using ws_example_add by blast
  have n: "win_pending_sizing_mode (tl_window ?t) = Normal" "tile_id ?t = 1" by (simp_all add: blank_defs)
  have sc: "ws_scrolling w = ss_add_tile ?E ?t True (Fixed 300) False (ws_scrolling ws_blank)"
    using w(1) by (simp add: ws_add_tile_def ws_add_scrolling_def on_ss_def ws_activated_def Let_def)
       (auto simp: on_ss_def)
  have "tile_id ?t \<notin> set (ss_ids (ws_scrolling ws_blank))" by (simp add: blank_spaces ss_new_def ss_ids_def columns_def)
  from added_tile[OF ws_invD(1)[OF ws_reach_inv[OF ws_blank_reach]] this, of ?E True "Fixed 300" False] n
  obtain c where c: "c \<in> set (columns (ws_scrolling w))" "column_id c = 1" "\<not> co_is_pending_fullscreen c"
      "win_pending_sizing_mode (tl_window (co_tile c)) = Normal"
    unfolding sc[symmetric] by (auto simp: follows_def)
  then obtain k where "k < length (columns (ws_scrolling w))" "columns (ws_scrolling w) ! k = c" by (auto simp: in_set_conv_nth)
  with fullscreen_toggle_sticks[OF w(2), of k 1] c w(3) show ?thesis by auto
qed

text \<open>Property C25. A floating window that is made fullscreen is tiled for it, and leaving
  fullscreen makes it float again; no other window changes its space, and nothing on the way panics when the
  movement animations can be started, being off, an easing or a spring that is not overdamped (as the defaults are), and
  the running ones can be restarted.\<close>

theorem fullscreen_returns:
  assumes "ws_reach E w" "ws_acyclic w" "fs_idx_of i (ws_floating w) = Some k"
    and "win_pending_sizing_mode (tl_window (fs_tiles (ws_floating w) ! k)) = Normal"
    and "ss_movable E (ws_scrolling w)" "fs_movable E (ws_floating w)"
  shows "\<exists>w1 w2. ws_set_fullscreen E i True w = Some w1 \<and> ws_set_fullscreen E i False w1 = Some w2 \<and>
    \<not> ws_is_floating i w1 \<and> (\<forall>j. ws_is_floating j w2 = ws_is_floating j w) \<and>
    (\<forall>j. ws_has_window j w2 = ws_has_window j w)"
proof -
  note inv = ws_reach_inv[OF assms(1)]
  have i: "i \<in> set (fs_ids (ws_floating w))" using idx_of_Some[OF assms(3)] by (auto simp: fs_ids_def)
  obtain w0 j where w0: "ws_toggle_window_floating E (Some i) w = Some w0"
    and j: "j < length (columns (ws_scrolling w0))" "column_id (columns (ws_scrolling w0) ! j) = i"
      "\<not> co_is_pending_fullscreen (columns (ws_scrolling w0) ! j)"
      "win_pending_sizing_mode (tl_window (co_tile (columns (ws_scrolling w0) ! j))) = Normal"
    and mv0: "ss_movable E (ws_scrolling w0)" "fs_movable E (ws_floating w0)" "ws_acyclic w0"
    using toggled_column[OF inv assms(2-6)] by (auto simp: Let_def)
  have same0: "ws_same E w w0" by (rule toggle_floating_same[OF inv assms(2) w0])
  have m0: "ws_moved_to_tiling E i w w0"
    using toggle_floating_law[OF inv assms(2) w0] i by (simp add: toggle_target_def)
  note inv0 = same_inv[OF same0]
  obtain w1 where w1: "ws_set_takeover (\<lambda>s. map_option fst (ss_set_fullscreen E i True s)) i True w0 = Some w1"
      "ws_floating w1 = ws_floating w0" "ss_options (ws_scrolling w1) = ss_options (ws_scrolling w0)"
      "map (trace \<circ> co_tile) (columns (ws_scrolling w1)) = map (trace \<circ> co_tile) (columns (ws_scrolling w0))"
    and k1: "j < length (columns (ws_scrolling w1))" "column_id (columns (ws_scrolling w1) ! j) = i"
      "co_is_pending_fullscreen (columns (ws_scrolling w1) ! j)" "\<not> co_is_pending_maximized (columns (ws_scrolling w1) ! j)"
      "tl_restore_to_floating (co_tile (columns (ws_scrolling w1) ! j))"
    using takeover_fullscreen[OF inv0 j(1-3), of E True] j(1,4) by (auto simp: Let_def)
  have q: "ws_quiet E w0 w1"
    by (rule set_takeover_quiet[OF inv0 _ _ w1(1), where op = "SetFullscreen i True"]) simp_all
  note inv1 = quiet_inv[OF q]
  have fs1: "set (fs_ids (ws_floating w1)) = set (fs_ids (ws_floating w)) - {i}"
    using w1(2) m0 by (simp add: ws_moved_to_tiling_def)
  have mv1: "ss_movable E (ws_scrolling w1)"
  proof -
    have "list_all (\<lambda>(_, x, y). restartable E x \<and> restartable E y) (map (trace \<circ> co_tile) (columns (ws_scrolling w1)))"
      unfolding w1(4) using mv0(1) by (auto simp: ss_movable_def movable_trace list_all_iff trace_def)
    then show ?thesis using mv0(1) w1(3) by (simp add: ss_movable_def list_all_iff movable_trace comp_def)
  qed
  have "tkey ` set (ss_tiles (ws_scrolling w1)) = tkey ` set (ss_tiles (ws_scrolling w0))"
    using arg_cong[OF w1(4), of "\<lambda>xs. fst ` set xs"] by (simp add: ss_tiles_def image_image trace_def)
  then have ac1: "ws_acyclic w1"
    using mv0(3) w1(2) unfolding ws_acyclic_def by (elim acyclic_subset) (simp add: ws_tiles_def image_Un)
  have iw: "i \<in> set (ws_ids w1)" using k1(1,2) by (auto simp: ws_ids_def ss_ids_def)
  obtain w2 where w2: "ws_toggle_window_floating E (Some i) w1 = Some w2"
    using toggle_total[OF inv1 ac1 iw mv1] mv0(2) w1(2) by auto
  have "ws_set_fullscreen E i True w = Some w1"
    using w0 w1(1) i by (simp add: ws_set_fullscreen_def Let_def fs_has_ids)
  moreover have "ws_set_fullscreen E i False w1 = Some w2"
    using w2 k1 fs1 find_at(1)[OF ws_invD(1)[OF inv1] k1(1,2)]
    by (simp add: ws_set_fullscreen_def Let_def fs_has_ids)
  moreover have "set (fs_ids (ws_floating w2)) = insert i (set (fs_ids (ws_floating w1)))"
    using toggle_floating_law[OF inv1 ac1 w2] fs1 by (simp add: toggle_target_def ws_moved_to_floating_def)
  then have "set (fs_ids (ws_floating w2)) = set (fs_ids (ws_floating w))" using fs1 i by auto
  moreover have "set (ws_ids w2) = set (ws_ids w)"
    using toggle_floating_same[OF inv1 ac1 w2] quiet_same[OF q] same0 by (auto simp: ws_same_def dest: mset_eq_setD)
  moreover have "ws_has_window j v \<longleftrightarrow> j \<in> set (ws_ids v)" for j v
    by (auto simp: ws_has_window_def list_ex_iff ws_windows_def ws_tiles_ids[symmetric])
  ultimately show ?thesis using fs1 by (auto simp: ws_is_floating_def fs_has_ids)
qed

theorem fullscreen_returns_witness:
  "\<exists>w w1 w2. ws_is_floating 1 w \<and> ws_set_fullscreen (env_blank 1) 1 True w = Some w1 \<and>
     ws_set_fullscreen (env_blank 1) 1 False w1 = Some w2 \<and> \<not> ws_is_floating 1 w1 \<and> ws_is_floating 1 w2"
proof -
  obtain w where w: "ws_reach (env_blank 1) w" "fs_idx_of 1 (ws_floating w) = Some 0" "ws_acyclic w"
    "win_pending_sizing_mode (tl_window (fs_tiles (ws_floating w) ! 0)) = Normal"
    "ss_movable (env_blank 1) (ws_scrolling w)" "fs_movable (env_blank 1) (ws_floating w)"
    by (rule floating_example)
  have "1 \<in> set (fs_ids (ws_floating w))" using w(2) idx_of_None[of 1 "ws_floating w"] by auto
  then have "ws_is_floating 1 w" by (simp add: ws_is_floating_def fs_has_ids)
  with fullscreen_returns[OF w(1,3,2,4,5,6)] show ?thesis by blast
qed

end
