(* ===== verification/Gestures.thy ===== *)
theory Gestures
  imports Clocks Scaling "HOL-Library.Signed_Division"
begin

text \<open>
  What turns pointer events into gestures: the swipe tracker (\<^verbatim>\<open>input/swipe_tracker.rs\<close>) that gives
  a gesture its position and its velocity, the scroll tracker (\<^verbatim>\<open>input/scroll_tracker.rs\<close>) that cuts scrolling
  into ticks, and the swipe made of scroll events (\<^verbatim>\<open>input/scroll_swipe_gesture.rs\<close>). For the first two a reference
  definition reads all the events at once.
\<close>

section \<open>The swipe tracker\<close>

record swipe_event = se_delta :: f64  se_timestamp :: duration

record swipe_tracker = sw_history :: "swipe_event list"  sw_pos :: f64

definition history_limit :: duration where "history_limit = dur_of_millis 150"
definition deceleration_touchpad :: f64 where "deceleration_touchpad = 0.997"

definition swipe_new :: swipe_tracker where
  "swipe_new = \<lparr>sw_history = [], sw_pos = 0\<rparr>"

text \<open>The loop of \<open>trim_history\<close>, for the timestamp of the newest event.\<close>

fun trim_front :: "duration \<Rightarrow> swipe_event list \<Rightarrow> swipe_event list" where
  "trim_front t [] = []"
| "trim_front t (e # es) = (if t \<le> se_timestamp e + history_limit then e # es else trim_front t es)"

definition trim_history :: "swipe_tracker \<Rightarrow> swipe_tracker" where
  "trim_history s =
    (if sw_history s = [] then s
     else s\<lparr>sw_history := trim_front (se_timestamp (last (sw_history s))) (sw_history s)\<rparr>)"

definition swipe_push :: "f64 \<Rightarrow> duration \<Rightarrow> swipe_tracker \<Rightarrow> swipe_tracker" where
  "swipe_push delta timestamp s =
    (if sw_history s \<noteq> [] \<and> timestamp < se_timestamp (last (sw_history s)) then s
     else trim_history (s\<lparr>sw_history := sw_history s @ [\<lparr>se_delta = delta, se_timestamp = timestamp\<rparr>],
                          sw_pos := sw_pos s + delta\<rparr>))"

definition swipe_velocity :: "swipe_tracker \<Rightarrow> f64" where
  "swipe_velocity s =
    (if sw_history s = [] then 0
     else
       let total_time = dur_as_secs (se_timestamp (last (sw_history s)) - se_timestamp (hd (sw_history s)))
       in if total_time = 0 then 0 else sum_list (map se_delta (sw_history s)) / total_time)"

definition swipe_projected_end_pos :: "swipe_tracker \<Rightarrow> f64" where
  "swipe_projected_end_pos s = sw_pos s - swipe_velocity s / (1000 * ln deceleration_touchpad)"

section \<open>The scroll tracker\<close>

text \<open>The tick is an \<open>i8\<close>; a tick that is not positive panics once it is reached, in \<open>clamp\<close> or in the
  division. \<open>as i16\<close> saturates, the \<open>as i8\<close> of the quotient wraps.\<close>

record scroll_tracker = sc_tick :: int  sc_last :: f64  sc_acc :: f64

definition scroll_new :: "int \<Rightarrow> scroll_tracker" where
  "scroll_new tick = \<lparr>sc_tick = tick, sc_last = 0, sc_acc = 0\<rparr>"

definition scroll_accumulate :: "f64 \<Rightarrow> scroll_tracker \<Rightarrow> (scroll_tracker \<times> int) option" where
  "scroll_accumulate amount s =
    (let changed_direction = (0 < sc_last s \<and> amount < 0 \<or> sc_last s < 0 \<and> 0 < amount);
         acc = (if changed_direction then 0 else sc_acc s) + amount;
         tick = real_of_int (sc_tick s);
         s = s\<lparr>sc_last := amount, sc_acc := acc\<rparr>
     in if tick \<le> \<bar>acc\<bar> then
          if sc_tick s \<le> 0 then None
          else
            let clamped = f_clamp acc (- 127 * tick) (127 * tick);
                ticks = i_clamp (f_trunc clamped) (- (2 ^ 15)) (2 ^ 15 - 1) sdiv sc_tick s
            in Some (s\<lparr>sc_acc := f_rem acc tick\<rparr>, signed_take_bit 7 ticks)
        else Some (s, 0))"

definition scroll_reset :: "scroll_tracker \<Rightarrow> scroll_tracker" where
  "scroll_reset s = s\<lparr>sc_last := 0, sc_acc := 0\<rparr>"

text \<open>The ticks of a sequence of scroll events.\<close>

fun scroll_ticks :: "f64 list \<Rightarrow> scroll_tracker \<Rightarrow> (scroll_tracker \<times> int) option" where
  "scroll_ticks [] s = Some (s, 0)"
| "scroll_ticks (a # as) s = do {
     (s, t) \<leftarrow> scroll_accumulate a s;
     (s, ts) \<leftarrow> scroll_ticks as s;
     Some (s, t + ts) }"

section \<open>Swipes made of scroll events\<close>

record scroll_swipe = sg_ongoing :: bool  sg_vertical :: bool

datatype swipe_action = BeginUpdate | SwipeUpdate | SwipeEnd

definition scroll_swipe_new :: scroll_swipe where
  "scroll_swipe_new = \<lparr>sg_ongoing = False, sg_vertical = False\<rparr>"

definition scroll_swipe_update :: "f64 \<Rightarrow> f64 \<Rightarrow> scroll_swipe \<Rightarrow> scroll_swipe \<times> swipe_action" where
  "scroll_swipe_update dx dy s =
    (if dx = 0 \<and> dy = 0 then (s\<lparr>sg_ongoing := False\<rparr>, SwipeEnd)
     else if \<not> sg_ongoing s then (s\<lparr>sg_ongoing := True, sg_vertical := dy \<noteq> 0\<rparr>, BeginUpdate)
     else (s, SwipeUpdate))"

definition scroll_swipe_reset :: "scroll_swipe \<Rightarrow> scroll_swipe \<times> bool" where
  "scroll_swipe_reset s = (if sg_ongoing s then (s\<lparr>sg_ongoing := False\<rparr>, True) else (s, False))"

section \<open>Reference definitions\<close>

text \<open>The events that are not earlier than the last accepted one, and what is left of them.\<close>

fun accepted :: "duration \<Rightarrow> swipe_event list \<Rightarrow> swipe_event list" where
  "accepted t [] = []"
| "accepted t (e # es) = (if se_timestamp e < t then accepted t es else e # accepted (se_timestamp e) es)"

definition swipe_reference :: "swipe_event list \<Rightarrow> swipe_tracker" where
  "swipe_reference es =
    (let as = accepted 0 es
     in \<lparr>sw_history = filter (\<lambda>e. se_timestamp (last as) \<le> se_timestamp e + history_limit) as,
         sw_pos = sum_list (map se_delta as)\<rparr>)"

lemma accepted_from: "a \<in> set (accepted t es) \<Longrightarrow> t \<le> se_timestamp a"
  by (induction es arbitrary: t) (fastforce split: if_splits)+

lemma accepted_sorted: "sorted (map se_timestamp (accepted t es))"
  by (induction es arbitrary: t) (auto dest: accepted_from)

lemma accepted_snoc:
  "accepted t (es @ [e]) =
     (if se_timestamp e < (if accepted t es = [] then t else se_timestamp (last (accepted t es)))
      then accepted t es else accepted t es @ [e])"
  by (induction es arbitrary: t) auto

lemma trim_front_filter:
  "sorted (map se_timestamp es) \<Longrightarrow> trim_front t es = filter (\<lambda>e. t \<le> se_timestamp e + history_limit) es"
  by (induction es) (fastforce intro!: filter_True[symmetric])+

lemma filter_last: "xs \<noteq> [] \<Longrightarrow> P (last xs) \<Longrightarrow> filter P xs \<noteq> [] \<and> last (filter P xs) = last xs"
  by (induction xs rule: rev_induct) auto

lemma sorted_filter_last:
  assumes "sorted (map f xs)" "xs \<noteq> []" "x \<in> set xs"
  shows "f x \<le> (f (last xs) :: 'a :: linorder)"
proof -
  from assms(3) obtain k where k: "k < length xs" "xs ! k = x" by (auto simp: in_set_conv_nth)
  with assms(1,2) sorted_nth_mono[OF assms(1), of k "length xs - 1"] show ?thesis by (simp add: last_conv_nth)
qed

lemma swipe_push_reference:
  "swipe_push (se_delta e) (se_timestamp e) (swipe_reference es) = swipe_reference (es @ [e])"
proof -
  define as where "as = accepted 0 es"
  define P :: "duration \<Rightarrow> swipe_event \<Rightarrow> bool" where "P t = (\<lambda>e. t \<le> se_timestamp e + history_limit)" for t
  have r: "swipe_reference es = \<lparr>sw_history = filter (P (se_timestamp (last as))) as, sw_pos = sum_list (map se_delta as)\<rparr>"
    by (simp add: swipe_reference_def as_def P_def Let_def)
  note r' = swipe_reference_def[of "es @ [e]"]
  have e: "\<lparr>se_delta = se_delta e, se_timestamp = se_timestamp e\<rparr> = e" by simp
  have s: "sorted (map se_timestamp as)" by (simp add: as_def accepted_sorted)
  show ?thesis
  proof (cases "as = []")
    case True
    then have "accepted 0 (es @ [e]) = [e]" by (simp add: as_def accepted_snoc)
    with True show ?thesis
      by (simp add: r e r' swipe_push_def trim_history_def Let_def)
  next
    case False
    have l: "filter (P (se_timestamp (last as))) as \<noteq> []" "last (filter (P (se_timestamp (last as))) as) = last as"
      using filter_last[OF False, of "P (se_timestamp (last as))"] by (simp_all add: P_def)
    show ?thesis
    proof (cases "se_timestamp e < se_timestamp (last as)")
      case True
      with False have "accepted 0 (es @ [e]) = as" by (simp add: as_def accepted_snoc)
      then have "swipe_reference (es @ [e]) = swipe_reference es" by (simp add: swipe_reference_def as_def Let_def)
      with True l show ?thesis by (simp add: r swipe_push_def)
    next
      case ge: False
      with False have a: "accepted 0 (es @ [e]) = as @ [e]" by (simp add: as_def accepted_snoc)
      have ts: "se_timestamp x \<le> se_timestamp e" if "x \<in> set as" for x
        using sorted_filter_last[OF s False that] ge by linarith
      have "sorted (map se_timestamp (filter (P (se_timestamp (last as))) as @ [e]))"
        using ts by (auto simp: sorted_append intro!: sorted_filter s)
      then have "trim_front (se_timestamp e) (filter (P (se_timestamp (last as))) as @ [e]) =
          filter (P (se_timestamp e)) (filter (P (se_timestamp (last as))) as @ [e])"
        by (simp only: trim_front_filter P_def)
      also have "\<dots> = filter (P (se_timestamp e)) (as @ [e])"
        using ge by (auto simp: P_def intro!: filter_cong)
      finally show ?thesis using ge l
        by (simp add: r e a r' swipe_push_def trim_history_def Let_def P_def)
    qed
  qed
qed

lemma swipe_fold_reference:
  "fold (\<lambda>e. swipe_push (se_delta e) (se_timestamp e)) es swipe_new = swipe_reference es"
proof (induction es rule: rev_induct)
  case Nil
  show ?case by (simp add: swipe_new_def swipe_reference_def)
next
  case (snoc e es)
  then show ?case by (simp add: swipe_push_reference)
qed

subsection \<open>Ticks\<close>

lemma f_trunc_of_int [simp]: "f_trunc (of_int n) = n"
  by (simp add: f_trunc_def)

lemma f_trunc_minus: "f_trunc (- x) = - f_trunc x"
  by (auto simp: f_trunc_def ceiling_minus floor_minus)

lemma sdiv_trunc:
  assumes "0 < n"
  shows "f_trunc x sdiv n = f_trunc (x / of_int n)"
proof -
  have pos: "f_trunc y sdiv n = f_trunc (y / of_int n)" if y: "0 \<le> y" for y
  proof -
    have "\<lfloor>y\<rfloor> div n = \<lfloor>y / of_int n\<rfloor>" using assms floor_divide_real_eq_div[of n y] by simp
    moreover have "0 \<le> \<lfloor>y\<rfloor>" using y by simp
    then have "\<lfloor>y\<rfloor> sdiv n = \<lfloor>y\<rfloor> div n" using assms by (cases "\<lfloor>y\<rfloor> = 0") (simp_all add: signed_divide_int_def sgn_if del: zero_le_floor zero_less_floor)
    ultimately show ?thesis using y assms by (simp add: f_trunc_def)
  qed
  show ?thesis
  proof (cases "0 \<le> x")
    case False
    then have "f_trunc (- x) sdiv n = f_trunc (- x / of_int n)" by (intro pos) simp
    with f_trunc_minus[of x] f_trunc_minus[of "x / of_int n"] show ?thesis by (simp add: signed_divide_int_def)
  qed (rule pos)
qed

lemma f_trunc_bounds: "\<bar>x - of_int (f_trunc x)\<bar> < 1" "\<bar>x\<bar> < of_int k + 1 \<Longrightarrow> \<bar>f_trunc x\<bar> \<le> k"
proof -
  show "\<bar>x - of_int (f_trunc x)\<bar> < 1" by (auto simp: f_trunc_def abs_if) linarith+
  assume x: "\<bar>x\<bar> < of_int k + 1"
  show "\<bar>f_trunc x\<bar> \<le> k"
  proof (cases "0 \<le> x")
    case True
    with x have "\<lfloor>x\<rfloor> \<le> k" "0 \<le> \<lfloor>x\<rfloor>" by linarith+
    with True show ?thesis by (simp add: f_trunc_def)
  next
    case False
    with x have "- \<lceil>x\<rceil> \<le> k" "\<lceil>x\<rceil> \<le> 0" by linarith+
    with False show ?thesis by (simp add: f_trunc_def)
  qed
qed

lemma f_trunc_sign: "0 \<le> x \<Longrightarrow> 0 \<le> x - of_int (f_trunc x)" "x \<le> 0 \<Longrightarrow> x - of_int (f_trunc x) \<le> 0"
  by (auto simp: f_trunc_def)

lemma f_trunc_diff:
  assumes "0 \<le> z \<and> z \<le> y \<or> y \<le> z \<and> z \<le> 0"
  shows "f_trunc (y - of_int (f_trunc z)) = f_trunc y - f_trunc z"
proof -
  have pos: "f_trunc (y - of_int (f_trunc z)) = f_trunc y - f_trunc z" if "0 \<le> z" "z \<le> y" for y z
    using that by (auto simp: f_trunc_def) linarith
  show ?thesis
  proof (cases "0 \<le> z \<and> z \<le> y")
    case False
    with assms pos[of "- z" "- y"] have "f_trunc (- (y - of_int (f_trunc z))) = - (f_trunc y - f_trunc z)"
      by (simp add: f_trunc_minus)
    then show ?thesis by (simp only: f_trunc_minus)
  qed (simp add: pos)
qed

text \<open>One event, in the direction of what is accumulated.\<close>

lemma scroll_accumulate_step:
  assumes n: "0 < n" "n \<le> 127" and d: "\<not> (0 < sc_last s \<and> a < 0 \<or> sc_last s < 0 \<and> 0 < a)"
    and b: "\<bar>sc_acc s + a\<bar> \<le> 127 * of_int n" and t: "sc_tick s = n"
  shows "scroll_accumulate a s = Some (\<lparr>sc_tick = n, sc_last = a, sc_acc = f_rem (sc_acc s + a) (of_int n)\<rparr>,
    f_trunc ((sc_acc s + a) / of_int n))"
proof -
  define x where "x = sc_acc s + a"
  have d': "(0 < sc_last s \<and> a < 0 \<or> sc_last s < 0 \<and> 0 < a) = False" using d by blast
  note un = scroll_accumulate_def[of a s, unfolded Let_def d' if_False]
  have q: "\<bar>x / of_int n\<bar> \<le> 127" using b n by (simp add: x_def abs_divide field_simps)
  show ?thesis
  proof (cases "of_int n \<le> \<bar>x\<bar>")
    case True
    have "f_trunc x sdiv n = f_trunc (x / of_int n)" by (rule sdiv_trunc[OF n(1)])
    moreover have "f_clamp x (- 127 * of_int n) (127 * of_int n) = x" using b by (intro f_clamp_id) (auto simp: x_def)
    moreover have "\<bar>f_trunc x\<bar> \<le> 127 * n" using b by (intro f_trunc_bounds) (simp add: x_def)
    then have "i_clamp (f_trunc x) (- (2 ^ 15)) (2 ^ 15 - 1) = f_trunc x" using n by (auto simp: i_clamp_def)
    moreover have "\<bar>f_trunc (x / of_int n)\<bar> \<le> 127" using q by (intro f_trunc_bounds) simp
    then have "signed_take_bit 7 (f_trunc (x / of_int n)) = f_trunc (x / of_int n)"
      by (intro signed_take_bit_int_eq_self) auto
    ultimately show ?thesis using True n t unfolding un by (cases s) (simp add: x_def)
  next
    case False
    then have "\<bar>x / of_int n\<bar> < 1" using n by (simp add: abs_divide field_simps)
    then have "f_trunc (x / of_int n) = 0" using f_trunc_bounds(2)[of "x / of_int n" 0] by simp
    with False t show ?thesis unfolding un by (cases s) (simp add: x_def f_rem_def)
  qed
qed

lemma scroll_ticks_from:
  assumes n: "0 < n" "n \<le> 127"
    and dir: "\<forall>a\<in>set as. 0 \<le> sg * a \<and> \<bar>a\<bar> \<le> 126 * of_int n" "sg = 1 \<or> sg = -1"
    and s: "sc_tick s = n" "0 \<le> sg * sc_last s" "0 \<le> sg * sc_acc s" "\<bar>sc_acc s\<bar> < of_int n" "as \<noteq> []"
  shows "scroll_ticks as s = Some (\<lparr>sc_tick = n, sc_last = last as, sc_acc = f_rem (sc_acc s + sum_list as) (of_int n)\<rparr>,
    f_trunc ((sc_acc s + sum_list as) / of_int n))"
  using dir(1) s
proof (induction as arbitrary: s)
  case (Cons a as)
  define x where "x = sc_acc s + a"
  define t where "t = f_trunc (x / of_int n)"
  define s' where "s' = \<lparr>sc_tick = n, sc_last = a, sc_acc = f_rem x (of_int n)\<rparr>"
  have step: "scroll_accumulate a s = Some (s', t)"
    unfolding s'_def t_def x_def using Cons.prems dir(2) n by (intro scroll_accumulate_step) auto
  have x: "0 \<le> sg * x" using Cons.prems by (simp add: x_def algebra_simps)
  have acc: "sc_acc s' = x - of_int t * of_int n" by (simp add: s'_def f_rem_def t_def)
  have small: "\<bar>sc_acc s'\<bar> < of_int n"
    using f_trunc_bounds(1)[of "x / of_int n"] n by (simp add: acc t_def abs_if field_simps split: if_splits)
  have "sc_acc s' = (x / of_int n - of_int t) * of_int n" using n by (simp add: acc algebra_simps)
  then have sign: "0 \<le> sg * sc_acc s'"
    using x dir(2) n f_trunc_sign[of "x / of_int n"]
    by (auto simp: t_def divide_le_0_iff mult_nonneg_nonneg mult_nonpos_nonneg)
  show ?case
  proof (cases "as = []")
    case True
    then show ?thesis using step by (simp add: s'_def t_def x_def)
  next
    case False
    then have ih: "scroll_ticks as s' = Some (\<lparr>sc_tick = n, sc_last = last as,
        sc_acc = f_rem (sc_acc s' + sum_list as) (of_int n)\<rparr>, f_trunc ((sc_acc s' + sum_list as) / of_int n))"
      using Cons.prems small sign by (intro Cons.IH) (auto simp: s'_def)
    have S: "0 \<le> sg * sum_list as" using Cons.prems(1) sum_list_nonneg[of "map ((*) sg) as"]
      by (auto simp: sum_list_const_mult)
    have e: "(sc_acc s' + sum_list as) / of_int n = (x + sum_list as) / of_int n - of_int t"
      using n by (simp add: acc field_simps)
    have f: "f_trunc ((sc_acc s' + sum_list as) / of_int n) = f_trunc ((x + sum_list as) / of_int n) - t"
      unfolding e unfolding t_def using x S dir(2) n
      by (intro f_trunc_diff) (auto simp: divide_le_0_iff intro!: divide_right_mono)
    then have r: "f_rem (sc_acc s' + sum_list as) (of_int n) = f_rem (x + sum_list as) (of_int n)"
      unfolding f_rem_def f using n by (simp add: acc algebra_simps)
    show ?thesis using step ih f r False by (simp add: x_def add.assoc)
  qed
qed simp

section \<open>Properties\<close>

text \<open>Property C38. The swipe tracker, which keeps a sliding window and a running position, is the
  reference that reads all the events at once: an event earlier than the last accepted one is ignored, the
  position is the sum of the accepted deltas, the history is the accepted events of the last 150 ms.\<close>

theorem swipe_tracker_reference:
  "fold (\<lambda>e. swipe_push (se_delta e) (se_timestamp e)) es swipe_new =
    (let as = accepted 0 es
     in \<lparr>sw_history = filter (\<lambda>e. se_timestamp (last as) \<le> se_timestamp e + history_limit) as,
         sw_pos = sum_list (map se_delta as)\<rparr>)"
  by (simp add: swipe_fold_reference swipe_reference_def)

text \<open>Property C39. As long as the direction does not change, and no event is worth more than 126
  ticks, the ticks the scroll tracker gives out one event at a time add up to the whole ticks in the total
  scrolled, however it is cut into events: nothing is lost, and what is not given out yet is less than one tick.\<close>

theorem scroll_ticks_total:
  assumes "0 < tick" "tick \<le> 127" "as \<noteq> []"
    and "(\<forall>a\<in>set as. 0 \<le> a \<and> a \<le> 126 * of_int tick) \<or> (\<forall>a\<in>set as. a \<le> 0 \<and> - a \<le> 126 * of_int tick)"
  shows "scroll_ticks as (scroll_new tick) =
    Some (\<lparr>sc_tick = tick, sc_last = last as, sc_acc = f_rem (sum_list as) (of_int tick)\<rparr>,
      f_trunc (sum_list as / of_int tick))"
  using assms(4)
proof
  assume "\<forall>a\<in>set as. 0 \<le> a \<and> a \<le> 126 * of_int tick"
  with assms scroll_ticks_from[of tick as 1 "scroll_new tick"] show ?thesis by (simp add: scroll_new_def)
next
  assume "\<forall>a\<in>set as. a \<le> 0 \<and> - a \<le> 126 * of_int tick"
  with assms scroll_ticks_from[of tick as "-1" "scroll_new tick"] show ?thesis by (simp add: scroll_new_def)
qed

theorem scroll_ticks_total_witness:
  "scroll_ticks [70, 60, 250] (scroll_new 120) =
    Some (\<lparr>sc_tick = 120, sc_last = 250, sc_acc = f_rem 380 120\<rparr>, f_trunc (380 / 120)) \<and> f_trunc (380 / 120) = 3"
  using scroll_ticks_total[of 120 "[70, 60, 250]"] by (simp add: f_trunc_def floor_eq_iff)

end
