(* ===== verification/Monitor.thy ===== *)
theory Monitor
  imports WorkspaceProps Gestures
begin

text \<open>
  A monitor, \<^verbatim>\<open>layout/monitor.rs\<close>: its workspaces, which one is active, the switch between workspaces in
  progress (an animation or a gesture), the progress of the overview, and the operations on them. The number
  of workspaces is fixed in this program: the operations that grew and cleaned up the list do nothing, but
  their callers still count with them. The output is the shared handle with its current readings, of
  which the monitor keeps copies. Hit tests are in theory \<open>HitTest\<close>; rendering is left out.
\<close>

section \<open>The state\<close>

text \<open>The options: those the workspaces share and the two sections only a monitor reads.\<close>

record monitor_options =
  mp_shared :: options
  mp_overview_zoom :: f64
  mp_dnd_trigger_height :: f64
  mp_dnd_delay_ms :: nat
  mp_dnd_max_speed :: f64

definition mp_with_merged_layout :: "layout_part option \<Rightarrow> monitor_options \<Rightarrow> monitor_options" where
  "mp_with_merged_layout part p = p\<lparr>mp_shared := options_with_merged_layout part (mp_shared p)\<rparr>"

definition mp_above_first :: "monitor_options \<Rightarrow> bool" where
  "mp_above_first p = lo_empty_workspace_above_first (op_layout (mp_shared p))"

record switch_gesture =
  wg_center_idx :: nat
  wg_start_idx :: f64
  wg_current_idx :: f64
  wg_animation :: "animation option"
  wg_tracker :: swipe_tracker
  wg_is_touchpad :: bool
  wg_is_clamped :: bool
  wg_dnd_last_event_time :: "duration option"
  wg_dnd_nonzero_start_time :: "duration option"

datatype workspace_switch = SwitchAnimation animation | SwitchGesture switch_gesture

text \<open>The overview of the layout, and what a monitor keeps of it.\<close>

record overview_gesture = og_tracker :: swipe_tracker  og_start :: f64  og_value :: f64

datatype layout_overview = LayoutOverviewAnimation animation | LayoutOverviewGesture overview_gesture | LayoutOverviewOpen

datatype overview_progress = OverviewAnimation animation | OverviewValue f64

record monitor =
  mn_output :: wl_output
  mn_scale :: out_scale
  mn_view_size :: size
  mn_working_area :: rect
  mn_workspaces :: "workspace list"
  mn_active_workspace_idx :: nat
  mn_previous_workspace_id :: "nat option"
  mn_workspace_switch :: "workspace_switch option"
  mn_overview_open :: bool
  mn_overview_progress :: "overview_progress option"
  mn_base_options :: monitor_options
  mn_options :: monitor_options
  mn_layout_config :: "layout_part option"

datatype monitor_target = MonitorAuto | MonitorWorkspace nat "nat option" | MonitorNextTo nat

definition workspace_gesture_movement :: f64 where "workspace_gesture_movement = 300"
definition workspace_gesture_rubber_band :: rubber_band where
  "workspace_gesture_rubber_band = \<lparr>rb_stiffness = 0.5, rb_limit = 0.05\<rparr>"
definition workspace_dnd_edge_scroll_movement :: f64 where "workspace_dnd_edge_scroll_movement = 1500"

section \<open>Switches and the overview\<close>

definition switch_current_idx :: "env \<Rightarrow> workspace_switch \<Rightarrow> f64" where
  "switch_current_idx E s = (case s of
     SwitchAnimation a \<Rightarrow> anim_value E a
   | SwitchGesture g \<Rightarrow> wg_current_idx g + (case wg_animation g of Some a \<Rightarrow> anim_value E a | None \<Rightarrow> 0))"

definition switch_target_idx :: "workspace_switch \<Rightarrow> f64" where
  "switch_target_idx s = (case s of SwitchAnimation a \<Rightarrow> an_to a | SwitchGesture g \<Rightarrow> wg_current_idx g)"

definition switch_offset :: "int \<Rightarrow> workspace_switch \<Rightarrow> workspace_switch option" where
  "switch_offset delta s = (case s of
     SwitchAnimation a \<Rightarrow> Some (SwitchAnimation (anim_offset (of_int delta) a))
   | SwitchGesture g \<Rightarrow> do {
       center \<leftarrow> (if 0 \<le> delta then Some (wg_center_idx g + nat delta)
                 else if nat (- delta) \<le> wg_center_idx g then Some (wg_center_idx g - nat (- delta)) else None);
       Some (SwitchGesture (g\<lparr>wg_center_idx := center, wg_start_idx := wg_start_idx g + of_int delta,
                              wg_current_idx := wg_current_idx g + of_int delta\<rparr>)) })"

definition switch_is_animation_ongoing :: "workspace_switch \<Rightarrow> bool" where
  "switch_is_animation_ongoing s = (case s of SwitchAnimation _ \<Rightarrow> True | SwitchGesture g \<Rightarrow> wg_animation g \<noteq> None)"

text \<open>The range of a gesture; \<open>clamp\<close> panics on an empty one.\<close>

definition gesture_min_max :: "nat \<Rightarrow> switch_gesture \<Rightarrow> (f64 \<times> f64) option" where
  "gesture_min_max workspace_count g =
    (if workspace_count = 0 then None
     else
       let (mn, mx) = (if wg_is_clamped g then (wg_center_idx g - 1, min (wg_center_idx g + 1) (workspace_count - 1))
                       else (0, workspace_count - 1))
       in if mn \<le> mx then Some (real mn, real mx) else None)"

definition gesture_animate_from :: "env \<Rightarrow> f64 \<Rightarrow> anim_config \<Rightarrow> switch_gesture \<Rightarrow> switch_gesture option" where
  "gesture_animate_from E from config g = do {
     let current = (case wg_animation g of Some a \<Rightarrow> anim_value E a | None \<Rightarrow> 0);
     a \<leftarrow> anim_new E (from + current) 0 0 config;
     Some (g\<lparr>wg_animation := Some a\<rparr>) }"

definition overview_value :: "env \<Rightarrow> overview_progress \<Rightarrow> f64" where
  "overview_value E p = (case p of OverviewAnimation a \<Rightarrow> anim_value E a | OverviewValue v \<Rightarrow> v)"

definition overview_clamped_value :: "env \<Rightarrow> overview_progress \<Rightarrow> f64" where
  "overview_clamped_value E p = (case p of OverviewAnimation a \<Rightarrow> anim_clamped_value E a | OverviewValue v \<Rightarrow> v)"

fun overview_from :: "layout_overview \<Rightarrow> overview_progress" where
  "overview_from (LayoutOverviewAnimation a) = OverviewAnimation a"
| "overview_from (LayoutOverviewGesture g) = OverviewValue (og_value g)"
| "overview_from LayoutOverviewOpen = OverviewValue 1"

definition compute_overview_zoom :: "monitor_options \<Rightarrow> f64 option \<Rightarrow> f64" where
  "compute_overview_zoom p progress =
    (let zoom = f_clamp (mp_overview_zoom p) 0.0001 0.75
     in case progress of Some x \<Rightarrow> max (1 - x * (1 - zoom)) 0.0001 | None \<Rightarrow> 1)"

section \<open>Sizes and positions\<close>

definition mn_fractional :: "monitor \<Rightarrow> f64" where
  "mn_fractional m = os_fractional (mn_scale m)"

definition mn_workspace_size :: "env \<Rightarrow> f64 \<Rightarrow> monitor \<Rightarrow> size" where
  "mn_workspace_size E zoom m =
    mk_size (e_phys_ceil E (mn_fractional m) (sz_w (mn_view_size m) * zoom))
            (e_phys_ceil E (mn_fractional m) (sz_h (mn_view_size m) * zoom))"

definition mn_workspace_gap :: "f64 \<Rightarrow> monitor \<Rightarrow> f64" where
  "mn_workspace_gap zoom m = round_logical_in_physical_max1 (mn_fractional m) (sz_h (mn_view_size m) * 0.1 * zoom)"

definition mn_workspace_size_with_gap :: "env \<Rightarrow> f64 \<Rightarrow> monitor \<Rightarrow> size" where
  "mn_workspace_size_with_gap E zoom m =
    (let s = mn_workspace_size E zoom m in mk_size (sz_w s + 0) (sz_h s + mn_workspace_gap zoom m))"

definition mn_overview_zoom :: "env \<Rightarrow> monitor \<Rightarrow> f64" where
  "mn_overview_zoom E m = compute_overview_zoom (mn_options m) (map_option (overview_value E) (mn_overview_progress m))"

text \<open>The switch and the zoom, when they are matching animations.\<close>

definition mn_synchronized :: "monitor \<Rightarrow> (animation \<times> animation) option" where
  "mn_synchronized m = (case (mn_workspace_switch m, mn_overview_progress m) of
     (Some (SwitchAnimation sw), Some (OverviewAnimation pr)) \<Rightarrow>
       if an_start_time sw = an_start_time pr \<and> \<bar>dur_as_secs (an_duration sw) - dur_as_secs (an_duration pr)\<bar> \<le> 0.001
       then Some (sw, pr) else None
   | _ \<Rightarrow> None)"

definition mn_workspace_render_idx :: "env \<Rightarrow> monitor \<Rightarrow> f64" where
  "mn_workspace_render_idx E m = (case mn_synchronized m of
     Some (sw, pr) \<Rightarrow>
       (let from_height = sz_h (mn_workspace_size_with_gap E (compute_overview_zoom (mn_options m) (Some (an_from pr))) m);
            height = sz_h (mn_workspace_size_with_gap E (mn_overview_zoom E m) m);
            first_ws_y = - anim_value E sw * from_height + an_to sw * (from_height - height)
        in - first_ws_y / height)
   | None \<Rightarrow> (case mn_workspace_switch m of
       Some s \<Rightarrow> switch_current_idx E s
     | None \<Rightarrow> real (mn_active_workspace_idx m)))"

definition mn_static_offset :: "env \<Rightarrow> monitor \<Rightarrow> point" where
  "mn_static_offset E m =
    (let s = mn_workspace_size E (mn_overview_zoom E m) m
     in mk_point (e_phys_round E (mn_fractional m) ((sz_w (mn_view_size m) - sz_w s) / 2))
                 (e_phys_round E (mn_fractional m) ((sz_h (mn_view_size m) - sz_h s) / 2)))"

definition mn_active_workspace_static_geo :: "env \<Rightarrow> monitor \<Rightarrow> rect" where
  "mn_active_workspace_static_geo E m =
    \<lparr>rloc = mn_static_offset E m, rsize = mn_workspace_size E (mn_overview_zoom E m) m\<rparr>"

text \<open>One position more than there are workspaces.\<close>

definition mn_workspaces_render_geo :: "env \<Rightarrow> monitor \<Rightarrow> rect list" where
  "mn_workspaces_render_geo E m =
    (let scale = mn_fractional m;
         zoom = mn_overview_zoom E m;
         ws_size = mn_workspace_size E zoom m;
         height = sz_h ws_size + mn_workspace_gap zoom m;
         static_offset = mn_static_offset E m;
         first_ws_y = round_logical_in_physical scale (- mn_workspace_render_idx E m * height)
     in map (\<lambda>idx. let loc = pt_add (mk_point 0 (first_ws_y + real idx * height)) static_offset
              in \<lparr>rloc = mk_point (e_phys_round E scale (pt_x loc)) (e_phys_round E scale (pt_y loc)), rsize = ws_size\<rparr>)
            [0..<Suc (length (mn_workspaces m))])"

definition mn_set_overview_progress :: "env \<Rightarrow> layout_overview option \<Rightarrow> monitor \<Rightarrow> monitor option" where
  "mn_set_overview_progress E progress m =
    (let prev_render_idx = mn_workspace_render_idx E m;
         m = m\<lparr>mn_overview_progress := map_option overview_from progress\<rparr>;
         new_render_idx = mn_workspace_render_idx E m
     in if prev_render_idx \<noteq> new_render_idx then
          (case mn_workspace_switch m of
             Some (SwitchAnimation a) \<Rightarrow>
               map_option (\<lambda>a. m\<lparr>mn_workspace_switch := Some (SwitchAnimation a)\<rparr>)
                 (anim_restarted E prev_render_idx (an_to a) 0 a)
           | _ \<Rightarrow> Some m)
        else Some m)"

section \<open>Workspaces of a monitor\<close>

text \<open>An operation that can panic on every element.\<close>

fun try_map :: "('a \<Rightarrow> 'b option) \<Rightarrow> 'a list \<Rightarrow> 'b list option" where
  "try_map f [] = Some []"
| "try_map f (x # xs) = do { y \<leftarrow> f x; ys \<leftarrow> try_map f xs; Some (y # ys) }"

text \<open>The counter of workspace identifiers is at \<open>i\<close>.\<close>

definition mn_new :: "env \<Rightarrow> nat \<Rightarrow> wl_output \<Rightarrow> workspace list \<Rightarrow> nat option \<Rightarrow> monitor_options \<Rightarrow> layout_part option \<Rightarrow>
    monitor option" where
  "mn_new E i out workspaces ws_id_to_activate base part = do {
     let opts = mp_with_merged_layout part base;
     wss \<leftarrow> try_map (\<lambda>w. if ws_has_windows_or_name w
            then map_option (ws_update_config E (mp_shared opts)) (ws_set_output E (Some out) w) else None) workspaces;
     let active = (case ws_id_to_activate of
            None \<Rightarrow> 0
          | Some j \<Rightarrow> (case find (\<lambda>k. ws_id (wss ! k) = j) (rev [0..<length wss]) of Some k \<Rightarrow> k | None \<Rightarrow> 0));
     let workspace_count = max (lo_workspace_count (op_layout (mp_shared opts))) 1;
     let padding = map (\<lambda>k. ws_new E (i + k) out (mp_shared opts)) [0..<workspace_count - length wss];
     Some \<lparr>mn_output = out, mn_scale = ou_scale out, mn_view_size = ou_size out, mn_working_area = ou_area out,
           mn_workspaces = wss @ padding, mn_active_workspace_idx = active, mn_previous_workspace_id = None,
           mn_workspace_switch = None, mn_overview_open = False, mn_overview_progress = None,
           mn_base_options = base, mn_options = opts, mn_layout_config = part\<rparr> }"

definition mn_into_workspaces :: "env \<Rightarrow> monitor \<Rightarrow> workspace list option" where
  "mn_into_workspaces E m = try_map (ws_set_output E None) (filter ws_has_windows_or_name (mn_workspaces m))"

definition mn_active_workspace :: "monitor \<Rightarrow> workspace option" where
  "mn_active_workspace m = vec_get (mn_workspaces m) (mn_active_workspace_idx m)"

definition ws_is_named :: "string \<Rightarrow> workspace \<Rightarrow> bool" where
  "ws_is_named n w = (case ws_name w of Some name \<Rightarrow> eq_ignore_ascii_case name n | None \<Rightarrow> False)"

definition mn_find_named_workspace :: "string \<Rightarrow> monitor \<Rightarrow> workspace option" where
  "mn_find_named_workspace n m = find (ws_is_named n) (mn_workspaces m)"

definition mn_find_named_workspace_index :: "string \<Rightarrow> monitor \<Rightarrow> nat option" where
  "mn_find_named_workspace_index n m = position (ws_is_named n) (mn_workspaces m)"

definition mn_windows :: "monitor \<Rightarrow> mapped list" where
  "mn_windows m = concat (map ws_windows (mn_workspaces m))"

definition mn_has_window :: "nat \<Rightarrow> monitor \<Rightarrow> bool" where
  "mn_has_window i m \<longleftrightarrow> list_ex (\<lambda>x. mw_id x = i) (mn_windows m)"

definition mn_active_window :: "monitor \<Rightarrow> mapped option option" where
  "mn_active_window m = map_option ws_active_window (mn_active_workspace m)"

definition mn_add_workspace_at :: "env \<Rightarrow> nat \<Rightarrow> nat \<Rightarrow> monitor \<Rightarrow> monitor option" where
  "mn_add_workspace_at E i idx m = do {
     wss \<leftarrow> vec_insert idx (ws_new E i (mn_output m) (mp_shared (mn_options m))) (mn_workspaces m);
     let m = m\<lparr>mn_workspaces := wss\<rparr>;
     let m = (if idx \<le> mn_active_workspace_idx m
              then m\<lparr>mn_active_workspace_idx := mn_active_workspace_idx m + 1\<rparr> else m);
     case mn_workspace_switch m of
       Some s \<Rightarrow> (if real idx \<le> switch_target_idx s
                 then map_option (\<lambda>s. m\<lparr>mn_workspace_switch := Some s\<rparr>) (switch_offset 1 s) else Some m)
     | None \<Rightarrow> Some m }"

definition mn_add_workspace_top :: "monitor \<Rightarrow> monitor" where "mn_add_workspace_top m = m"
definition mn_add_workspace_bottom :: "monitor \<Rightarrow> monitor" where "mn_add_workspace_bottom m = m"

definition mn_clean_up_workspaces :: "monitor \<Rightarrow> monitor option" where
  "mn_clean_up_workspaces m = (if mn_workspace_switch m = None then Some m else None)"

definition mn_clean_up_if_idle :: "monitor \<Rightarrow> monitor option" where
  "mn_clean_up_if_idle m = (if mn_workspace_switch m = None then mn_clean_up_workspaces m else Some m)"

definition mn_activate_workspace_with_anim_config :: "env \<Rightarrow> nat \<Rightarrow> anim_config option \<Rightarrow> monitor \<Rightarrow> monitor option" where
  "mn_activate_workspace_with_anim_config E idx config m = do {
     let current_idx = mn_workspace_render_idx E m;
     let prev_active_idx = mn_active_workspace_idx m;
     m \<leftarrow> (if prev_active_idx \<noteq> idx
          then map_option (\<lambda>w. m\<lparr>mn_previous_workspace_id := Some (ws_id w)\<rparr>) (mn_active_workspace m) else Some m);
     let m = m\<lparr>mn_active_workspace_idx := idx\<rparr>;
     let config = (case config of Some c \<Rightarrow> c | None \<Rightarrow> ao_workspace_switch (op_animations (mp_shared (mn_options m))));
     let animated = (if prev_active_idx = idx then Some m
        else map_option (\<lambda>a. m\<lparr>mn_workspace_switch := Some (SwitchAnimation a)\<rparr>)
               (anim_new E current_idx (real idx) 0 config));
     case mn_workspace_switch m of
       Some (SwitchGesture g) \<Rightarrow>
         if wg_dnd_last_event_time g \<noteq> None then do {
           let current_pos = wg_current_idx g - wg_start_idx g;
           let prev_current_idx = wg_current_idx g;
           let g = g\<lparr>wg_center_idx := idx, wg_start_idx := real idx - current_pos, wg_current_idx := real idx\<rparr>;
           g \<leftarrow> gesture_animate_from E (- (wg_current_idx g - prev_current_idx)) config g;
           Some (m\<lparr>mn_workspace_switch := Some (SwitchGesture g)\<rparr>) }
         else animated
     | _ \<Rightarrow> animated }"

definition mn_activate_workspace :: "env \<Rightarrow> nat \<Rightarrow> monitor \<Rightarrow> monitor option" where
  "mn_activate_workspace E idx m = mn_activate_workspace_with_anim_config E idx None m"

text \<open>\<open>min(idx, self.workspaces.len() - 1)\<close>.\<close>

definition mn_last_or :: "nat \<Rightarrow> monitor \<Rightarrow> nat option" where
  "mn_last_or idx m = (if mn_workspaces m = [] then None else Some (min idx (length (mn_workspaces m) - 1)))"

text \<open>The gesture of a drag and drop in progress, which selects among the apparent workspaces.\<close>

definition mn_dnd_gesture :: "monitor \<Rightarrow> switch_gesture option" where
  "mn_dnd_gesture m = (case mn_workspace_switch m of
     Some (SwitchGesture g) \<Rightarrow> if wg_dnd_last_event_time g \<noteq> None then Some g else None
   | _ \<Rightarrow> None)"

definition mn_switch_workspace_up :: "env \<Rightarrow> monitor \<Rightarrow> monitor option" where
  "mn_switch_workspace_up E m = do {
     new_idx \<leftarrow> (case mn_dnd_gesture m of
         Some g \<Rightarrow> do {
           l \<leftarrow> mn_last_or (length (mn_workspaces m)) m;
           Some (nat (f_trunc (f_clamp (of_int \<lceil>wg_current_idx g\<rceil> - 1) 0 (real l)))) }
       | None \<Rightarrow> Some (mn_active_workspace_idx m - 1));
     mn_activate_workspace E new_idx m }"

definition mn_switch_workspace_down :: "env \<Rightarrow> monitor \<Rightarrow> monitor option" where
  "mn_switch_workspace_down E m = do {
     new_idx \<leftarrow> (case mn_dnd_gesture m of
         Some g \<Rightarrow> do {
           l \<leftarrow> mn_last_or (length (mn_workspaces m)) m;
           Some (nat (f_trunc (f_clamp (of_int \<lfloor>wg_current_idx g\<rfloor> + 1) 0 (real l)))) }
       | None \<Rightarrow> mn_last_or (mn_active_workspace_idx m + 1) m);
     mn_activate_workspace E new_idx m }"

definition mn_previous_workspace_idx :: "monitor \<Rightarrow> nat option" where
  "mn_previous_workspace_idx m = do { i \<leftarrow> mn_previous_workspace_id m; position (\<lambda>w. ws_id w = i) (mn_workspaces m) }"

definition mn_switch_workspace :: "env \<Rightarrow> nat \<Rightarrow> monitor \<Rightarrow> monitor option" where
  "mn_switch_workspace E idx m = do { idx \<leftarrow> mn_last_or idx m; mn_activate_workspace E idx m }"

definition mn_switch_workspace_previous :: "env \<Rightarrow> monitor \<Rightarrow> monitor option" where
  "mn_switch_workspace_previous E m = (case mn_previous_workspace_idx m of
     Some idx \<Rightarrow> mn_switch_workspace E idx m | None \<Rightarrow> Some m)"

definition mn_switch_workspace_auto_back_and_forth :: "env \<Rightarrow> nat \<Rightarrow> monitor \<Rightarrow> monitor option" where
  "mn_switch_workspace_auto_back_and_forth E idx m = do {
     idx \<leftarrow> mn_last_or idx m;
     if idx = mn_active_workspace_idx m then mn_switch_workspace_previous E m else mn_switch_workspace E idx m }"

section \<open>Routine work and configuration\<close>

text \<open>\<open>now\<close> is the unadjusted time of the clock.\<close>

definition gesture_advance :: "env \<Rightarrow> duration \<Rightarrow> switch_gesture \<Rightarrow> switch_gesture" where
  "gesture_advance E now g =
    (let g = (case wg_dnd_last_event_time g of
                Some last_time \<Rightarrow>
                  (if last_time \<noteq> now then g\<lparr>wg_dnd_last_event_time := Some now, wg_dnd_nonzero_start_time := None\<rparr> else g)
              | None \<Rightarrow> g)
     in case wg_animation g of
          Some a \<Rightarrow> (if anim_is_done E a then g\<lparr>wg_animation := None\<rparr> else g)
        | None \<Rightarrow> g)"

definition mn_advance_animations :: "env \<Rightarrow> duration \<Rightarrow> monitor \<Rightarrow> monitor option" where
  "mn_advance_animations E now m = do {
     m \<leftarrow> (case mn_workspace_switch m of
         Some (SwitchAnimation a) \<Rightarrow>
           if anim_is_done E a then mn_clean_up_workspaces (m\<lparr>mn_workspace_switch := None\<rparr>) else Some m
       | Some (SwitchGesture g) \<Rightarrow> Some (m\<lparr>mn_workspace_switch := Some (SwitchGesture (gesture_advance E now g))\<rparr>)
       | None \<Rightarrow> Some m);
     Some (m\<lparr>mn_workspaces := map (ws_advance_animations E) (mn_workspaces m)\<rparr>) }"

definition mn_are_animations_ongoing :: "env \<Rightarrow> monitor \<Rightarrow> bool" where
  "mn_are_animations_ongoing E m \<longleftrightarrow>
     (case mn_workspace_switch m of Some s \<Rightarrow> switch_is_animation_ongoing s | None \<Rightarrow> False) \<or>
     list_ex (ws_are_animations_ongoing E) (mn_workspaces m)"

definition mn_is_keyboard_workspace_switch :: "monitor \<Rightarrow> bool" where
  "mn_is_keyboard_workspace_switch m = (case mn_workspace_switch m of Some (SwitchAnimation _) \<Rightarrow> True | _ \<Rightarrow> False)"

definition mn_update_config :: "env \<Rightarrow> monitor_options \<Rightarrow> monitor \<Rightarrow> monitor" where
  "mn_update_config E base m =
    (let opts = mp_with_merged_layout (mn_layout_config m) base;
         m = (if mp_above_first (mn_options m) \<noteq> mp_above_first opts \<and> 1 < length (mn_workspaces m) then
                if mp_above_first opts then mn_add_workspace_top m
                else if mn_workspace_switch m = None \<and> mn_active_workspace_idx m \<noteq> 0
                then m\<lparr>mn_workspaces := tl (mn_workspaces m), mn_active_workspace_idx := mn_active_workspace_idx m - 1\<rparr>
                else m
              else m)
     in m\<lparr>mn_workspaces := map (ws_update_config E (mp_shared opts)) (mn_workspaces m),
          mn_base_options := base, mn_options := opts\<rparr>)"

definition mn_update_layout_config :: "env \<Rightarrow> layout_part option \<Rightarrow> monitor \<Rightarrow> monitor \<times> bool" where
  "mn_update_layout_config E part m =
    (if mn_layout_config m = part then (m, False)
     else (mn_update_config E (mn_base_options m) (m\<lparr>mn_layout_config := part\<rparr>), True))"

definition mn_update_output_size :: "env \<Rightarrow> monitor \<Rightarrow> monitor option" where
  "mn_update_output_size E m = do {
     let out = mn_output m;
     wss \<leftarrow> try_map (ws_update_output_size E out) (mn_workspaces m);
     Some (m\<lparr>mn_scale := ou_scale out, mn_view_size := ou_size out, mn_working_area := ou_area out,
             mn_workspaces := wss\<rparr>) }"

end
