(* ===== verification/MonitorMoves.thy ===== *)
theory MonitorMoves
  imports Monitor
begin

text \<open>
  Windows and columns that enter a monitor or move between its workspaces, and workspaces that are added,
  removed or reordered (\<^verbatim>\<open>layout/monitor.rs\<close>).
\<close>

section \<open>Adding\<close>

definition mn_resolve_add_window_target :: "monitor_target \<Rightarrow> monitor \<Rightarrow> (nat \<times> add_target) option" where
  "mn_resolve_add_window_target target m = (case target of
     MonitorAuto \<Rightarrow> Some (mn_active_workspace_idx m, AddAuto)
   | MonitorWorkspace i column_idx \<Rightarrow> do {
       idx \<leftarrow> position (\<lambda>w. ws_id w = i) (mn_workspaces m);
       Some (idx, case column_idx of Some k \<Rightarrow> AddNewColumnAt k | None \<Rightarrow> AddAuto) }
   | MonitorNextTo i \<Rightarrow> do {
       idx \<leftarrow> position (ws_has_window i) (mn_workspaces m);
       Some (idx, AddNextTo i) })"

text \<open>What an operation does to one workspace.\<close>

definition mn_at :: "nat \<Rightarrow> (workspace \<Rightarrow> workspace option) \<Rightarrow> monitor \<Rightarrow> monitor option" where
  "mn_at idx f m = do {
     w \<leftarrow> vec_get (mn_workspaces m) idx;
     w \<leftarrow> f w;
     Some (m\<lparr>mn_workspaces := (mn_workspaces m)[idx := w]\<rparr>) }"

text \<open>A workspace without a name becomes this output's own when a window is added.\<close>

definition mn_own :: "monitor \<Rightarrow> workspace \<Rightarrow> workspace" where
  "mn_own m w = (if ws_name w = None then w\<lparr>ws_original_output := output_id_new (mn_output m)\<rparr> else w)"

text \<open>The first and the last workspace used to be kept empty: both calls do nothing now, but the index moves.\<close>

definition mn_make_room :: "nat \<Rightarrow> monitor \<Rightarrow> monitor \<times> nat" where
  "mn_make_room idx m =
    (let m = (if idx = length (mn_workspaces m) - 1 then mn_add_workspace_bottom m else m)
     in if mp_above_first (mn_options m) \<and> idx = 0 then (mn_add_workspace_top m, idx + 1) else (m, idx))"

definition mn_add_column :: "env \<Rightarrow> nat \<Rightarrow> column \<Rightarrow> bool \<Rightarrow> monitor \<Rightarrow> monitor option" where
  "mn_add_column E idx c activate m = do {
     m \<leftarrow> mn_at idx (\<lambda>w. Some (mn_own m (ws_add_column E c activate w))) m;
     let (m, idx) = mn_make_room idx m;
     if activate then mn_activate_workspace E idx m else Some m }"

definition mn_add_tile :: "env \<Rightarrow> tile \<Rightarrow> monitor_target \<Rightarrow> activate_window \<Rightarrow> bool \<Rightarrow> column_width \<Rightarrow> bool \<Rightarrow> bool \<Rightarrow>
    monitor \<Rightarrow> monitor option" where
  "mn_add_tile E t target activate allow_to_activate_workspace width full is_floating m = do {
     (idx, target) \<leftarrow> mn_resolve_add_window_target target m;
     m \<leftarrow> mn_at idx (\<lambda>w. map_option (mn_own m) (ws_add_tile E t target activate width full is_floating w)) m;
     let (m, idx) = mn_make_room idx m;
     if allow_to_activate_workspace \<and> map_smart False activate then mn_activate_workspace E idx m else Some m }"

definition mn_add_window :: "env \<Rightarrow> mapped \<Rightarrow> monitor_target \<Rightarrow> activate_window \<Rightarrow> column_width \<Rightarrow> bool \<Rightarrow> bool \<Rightarrow>
    monitor \<Rightarrow> monitor option" where
  "mn_add_window E win target activate width full is_floating m = do {
     w \<leftarrow> vec_get (mn_workspaces m) 0;
     mn_add_tile E (ws_make_tile win w) target activate True width full is_floating m }"

definition mn_add_tile_to_column :: "env \<Rightarrow> nat \<Rightarrow> tile \<Rightarrow> bool \<Rightarrow> bool \<Rightarrow> monitor \<Rightarrow> monitor option" where
  "mn_add_tile_to_column E idx t activate allow_to_activate_workspace m = do {
     m \<leftarrow> mn_at idx (\<lambda>w. Some (mn_own m (ws_add_tile_to_column E t activate w))) m;
     if allow_to_activate_workspace \<and> activate then mn_activate_workspace E idx m else Some m }"

section \<open>Workspaces\<close>

definition mn_unname_workspace :: "nat \<Rightarrow> monitor \<Rightarrow> (monitor \<times> bool) option" where
  "mn_unname_workspace i m = (case position (\<lambda>w. ws_id w = i) (mn_workspaces m) of
     None \<Rightarrow> Some (m, False)
   | Some idx \<Rightarrow> do {
       m \<leftarrow> mn_at idx (\<lambda>w. Some (ws_unname w)) m;
       m \<leftarrow> mn_clean_up_if_idle m;
       Some (m, True) })"

definition mn_remove_workspace_by_idx :: "env \<Rightarrow> nat \<Rightarrow> monitor \<Rightarrow> (workspace \<times> monitor) option" where
  "mn_remove_workspace_by_idx E idx m = do {
     let (m, idx) = mn_make_room idx m;
     (w, wss) \<leftarrow> vec_remove idx (mn_workspaces m);
     let m = m\<lparr>mn_workspaces := wss\<rparr>;
     w \<leftarrow> ws_set_output E None w;
     let m = (if idx \<le> mn_active_workspace_idx m \<and> 0 < mn_active_workspace_idx m
              then m\<lparr>mn_active_workspace_idx := mn_active_workspace_idx m - 1\<rparr> else m);
     m \<leftarrow> mn_clean_up_workspaces (m\<lparr>mn_workspace_switch := None\<rparr>);
     Some (w, m) }"

text \<open>A workspace joins the monitor: \<open>set_output\<close> and \<open>update_config\<close>.\<close>

definition mn_adopt :: "env \<Rightarrow> monitor \<Rightarrow> workspace \<Rightarrow> workspace option" where
  "mn_adopt E m w = map_option (ws_update_config E (mp_shared (mn_options m))) (ws_set_output E (Some (mn_output m)) w)"

definition mn_insert_workspace :: "env \<Rightarrow> workspace \<Rightarrow> nat \<Rightarrow> bool \<Rightarrow> monitor \<Rightarrow> monitor option" where
  "mn_insert_workspace E w idx activate m = do {
     w \<leftarrow> mn_adopt E m w;
     idx \<leftarrow> (if idx = length (mn_workspaces m) then if idx = 0 then None else Some (idx - 1) else Some idx);
     let (m, idx) = (if idx = 0 \<and> mp_above_first (mn_options m) then (mn_add_workspace_top m, idx + 1) else (m, idx));
     wss \<leftarrow> vec_insert idx w (mn_workspaces m);
     let m = m\<lparr>mn_workspaces := wss\<rparr>;
     let m = (if idx \<le> mn_active_workspace_idx m
              then m\<lparr>mn_active_workspace_idx := mn_active_workspace_idx m + 1\<rparr> else m);
     m \<leftarrow> (if activate then mn_activate_workspace E idx (m\<lparr>mn_workspace_switch := None\<rparr>) else Some m);
     mn_clean_up_workspaces (m\<lparr>mn_workspace_switch := None\<rparr>) }"

definition mn_append_workspaces :: "env \<Rightarrow> workspace list \<Rightarrow> monitor \<Rightarrow> monitor option" where
  "mn_append_workspaces E workspaces m =
    (if workspaces = [] then Some m
     else do {
       workspaces \<leftarrow> try_map (mn_adopt E m) workspaces;
       (l, rest) \<leftarrow> vec_remove (length (mn_workspaces m) - 1) (mn_workspaces m);
       let empty_was_focused = (mn_active_workspace_idx m = length (mn_workspaces m) - 1);
       let m = m\<lparr>mn_workspaces := rest @ workspaces @ [l]\<rparr>;
       let m = (if mp_above_first (mn_options m) \<and> ws_has_windows_or_name (mn_workspaces m ! 0)
                then mn_add_workspace_top m else m);
       let m = (if empty_was_focused then m\<lparr>mn_active_workspace_idx := length (mn_workspaces m) - 1\<rparr> else m);
       mn_clean_up_workspaces (m\<lparr>mn_workspace_switch := None\<rparr>) })"

text \<open>The workspace at \<open>new_idx\<close> becomes the active one without a switch.\<close>

definition mn_refocus :: "env \<Rightarrow> nat \<Rightarrow> monitor \<Rightarrow> monitor option" where
  "mn_refocus E new_idx m = do {
     let previous_workspace_id = mn_previous_workspace_id m;
     m \<leftarrow> mn_activate_workspace E new_idx m;
     mn_clean_up_workspaces
       (m\<lparr>mn_workspace_switch := None, mn_previous_workspace_id := previous_workspace_id\<rparr>) }"

definition mn_move_workspace_down :: "env \<Rightarrow> monitor \<Rightarrow> monitor option" where
  "mn_move_workspace_down E m = do {
     new_idx \<leftarrow> mn_last_or (mn_active_workspace_idx m + 1) m;
     if new_idx = mn_active_workspace_idx m then Some m
     else do {
       wss \<leftarrow> vec_swap (mn_active_workspace_idx m) new_idx (mn_workspaces m);
       let m = m\<lparr>mn_workspaces := wss\<rparr>;
       let m = (if new_idx = length (mn_workspaces m) - 1 then mn_add_workspace_bottom m else m);
       let (m, new_idx) = (if mp_above_first (mn_options m) \<and> mn_active_workspace_idx m = 0
                           then (mn_add_workspace_top m, new_idx + 1) else (m, new_idx));
       mn_refocus E new_idx m } }"

definition mn_move_workspace_up :: "env \<Rightarrow> monitor \<Rightarrow> monitor option" where
  "mn_move_workspace_up E m =
    (let new_idx = mn_active_workspace_idx m - 1
     in if new_idx = mn_active_workspace_idx m then Some m
        else do {
          wss \<leftarrow> vec_swap (mn_active_workspace_idx m) new_idx (mn_workspaces m);
          let m = m\<lparr>mn_workspaces := wss\<rparr>;
          let m = (if mn_active_workspace_idx m = length (mn_workspaces m) - 1 then mn_add_workspace_bottom m else m);
          let (m, new_idx) = (if mp_above_first (mn_options m) \<and> new_idx = 0
                              then (mn_add_workspace_top m, new_idx + 1) else (m, new_idx));
          mn_refocus E new_idx m })"

definition mn_move_workspace_to_idx :: "nat \<Rightarrow> nat \<Rightarrow> monitor \<Rightarrow> monitor option" where
  "mn_move_workspace_to_idx old_idx new_idx m =
    (if length (mn_workspaces m) \<le> old_idx then Some m
     else
       let new_idx = min new_idx (length (mn_workspaces m) - 1)
       in if old_idx = new_idx then Some m
          else do {
            (w, wss) \<leftarrow> vec_remove old_idx (mn_workspaces m);
            wss \<leftarrow> vec_insert new_idx w wss;
            let m = m\<lparr>mn_workspaces := wss\<rparr>;
            let m = (if max old_idx new_idx = length (mn_workspaces m) - 1 then mn_add_workspace_bottom m else m);
            let (m, new_idx) = (if mp_above_first (mn_options m) \<and> min old_idx new_idx = 0
                                then (mn_add_workspace_top m, new_idx + 1) else (m, new_idx));
            let active = mn_active_workspace_idx m;
            let m = m\<lparr>mn_active_workspace_idx :=
              (if active = old_idx then new_idx
               else if new_idx \<le> active \<and> active < old_idx then active + 1
               else if active \<le> new_idx \<and> old_idx < active then active - 1
               else active)\<rparr>;
            mn_clean_up_workspaces (m\<lparr>mn_workspace_switch := None\<rparr>) })"

section \<open>Moving between workspaces\<close>

text \<open>The removed tile is added to the workspace at \<open>new_idx\<close>, with what it was removed with.\<close>

definition mn_add_removed :: "env \<Rightarrow> nat \<Rightarrow> activate_window \<Rightarrow> removed_tile \<Rightarrow> monitor \<Rightarrow> monitor option" where
  "mn_add_removed E new_id activate r m =
     mn_add_tile E (rt_tile r) (MonitorWorkspace new_id None) activate True (rt_width r) (rt_is_full_width r) (rt_is_floating r) m"

text \<open>The active tile of the active workspace goes to the workspace at \<open>new_idx\<close>.\<close>

definition mn_move_active_to :: "env \<Rightarrow> nat \<Rightarrow> activate_window \<Rightarrow> monitor \<Rightarrow> monitor option" where
  "mn_move_active_to E new_idx activate m = do {
     target \<leftarrow> vec_get (mn_workspaces m) new_idx;
     w \<leftarrow> mn_active_workspace m;
     (removed, w) \<leftarrow> ws_remove_active_tile E w;
     let m = m\<lparr>mn_workspaces := (mn_workspaces m)[mn_active_workspace_idx m := w]\<rparr>;
     case removed of None \<Rightarrow> Some m | Some r \<Rightarrow> mn_add_removed E (ws_id target) activate r m }"

definition mn_move_to_workspace_up :: "env \<Rightarrow> bool \<Rightarrow> monitor \<Rightarrow> monitor option" where
  "mn_move_to_workspace_up E focus m =
    (let new_idx = mn_active_workspace_idx m - 1
     in if new_idx = mn_active_workspace_idx m then Some m
        else mn_move_active_to E new_idx (if focus then ActYes else ActSmart) m)"

definition mn_move_to_workspace_down :: "env \<Rightarrow> bool \<Rightarrow> monitor \<Rightarrow> monitor option" where
  "mn_move_to_workspace_down E focus m = do {
     new_idx \<leftarrow> mn_last_or (mn_active_workspace_idx m + 1) m;
     if new_idx = mn_active_workspace_idx m then Some m
     else mn_move_active_to E new_idx (if focus then ActYes else ActSmart) m }"

definition mn_move_to_workspace :: "env \<Rightarrow> nat option \<Rightarrow> nat \<Rightarrow> activate_window \<Rightarrow> monitor \<Rightarrow> monitor option" where
  "mn_move_to_workspace E window idx activate m = do {
     source \<leftarrow> (case window of
         Some i \<Rightarrow> position (ws_has_window i) (mn_workspaces m) | None \<Rightarrow> Some (mn_active_workspace_idx m));
     new_idx \<leftarrow> mn_last_or idx m;
     if new_idx = source then Some m
     else do {
       target \<leftarrow> vec_get (mn_workspaces m) new_idx;
       activate \<leftarrow> (if activate = ActSmart then
           (case window of
              None \<Rightarrow> Some True | Some i \<Rightarrow> map_option (\<lambda>a. map_option mw_id a = Some i) (mn_active_window m))
         else Some (map_smart False activate));
       w \<leftarrow> vec_get (mn_workspaces m) source;
       (removed, w) \<leftarrow> (case window of
           Some i \<Rightarrow> map_option (\<lambda>(r, w). (Some r, w)) (ws_remove_tile E i w)
         | None \<Rightarrow> ws_remove_active_tile E w);
       let m = m\<lparr>mn_workspaces := (mn_workspaces m)[source := w]\<rparr>;
       case removed of
         None \<Rightarrow> Some m
       | Some r \<Rightarrow> do {
           m \<leftarrow> mn_add_removed E (ws_id target) (if activate then ActYes else ActNo) r m;
           mn_clean_up_if_idle m } } }"

text \<open>The same for the active column; a floating window goes on its own.\<close>

definition mn_move_column_to :: "env \<Rightarrow> nat \<Rightarrow> bool \<Rightarrow> (monitor \<Rightarrow> monitor option) \<Rightarrow> monitor \<Rightarrow> monitor option" where
  "mn_move_column_to E new_idx activate move_floating m =
    (if new_idx = mn_active_workspace_idx m then Some m
     else do {
       w \<leftarrow> mn_active_workspace m;
       if fa_get (ws_floating_is_active w) then move_floating m
       else do {
         (c, w) \<leftarrow> ws_remove_active_column E w;
         let m = m\<lparr>mn_workspaces := (mn_workspaces m)[mn_active_workspace_idx m := w]\<rparr>;
         case c of None \<Rightarrow> Some m | Some c \<Rightarrow> mn_add_column E new_idx c activate m } })"

definition mn_move_column_to_workspace_up :: "env \<Rightarrow> bool \<Rightarrow> monitor \<Rightarrow> monitor option" where
  "mn_move_column_to_workspace_up E activate m =
     mn_move_column_to E (mn_active_workspace_idx m - 1) activate (mn_move_to_workspace_up E activate) m"

definition mn_move_column_to_workspace_down :: "env \<Rightarrow> bool \<Rightarrow> monitor \<Rightarrow> monitor option" where
  "mn_move_column_to_workspace_down E activate m = do {
     new_idx \<leftarrow> mn_last_or (mn_active_workspace_idx m + 1) m;
     mn_move_column_to E new_idx activate (mn_move_to_workspace_down E activate) m }"

definition mn_move_column_to_workspace :: "env \<Rightarrow> nat \<Rightarrow> bool \<Rightarrow> monitor \<Rightarrow> monitor option" where
  "mn_move_column_to_workspace E idx activate m = do {
     new_idx \<leftarrow> mn_last_or idx m;
     mn_move_column_to E new_idx activate
       (mn_move_to_workspace E None idx (if activate then ActSmart else ActNo)) m }"

text \<open>\<open>if !self.active_workspace().f() { self.g() }\<close>.\<close>

definition mn_or :: "(workspace \<Rightarrow> (workspace \<times> bool) option) \<Rightarrow> (monitor \<Rightarrow> monitor option) \<Rightarrow> monitor \<Rightarrow> monitor option" where
  "mn_or f g m = do {
     w \<leftarrow> mn_active_workspace m;
     (w, ok) \<leftarrow> f w;
     let m = m\<lparr>mn_workspaces := (mn_workspaces m)[mn_active_workspace_idx m := w]\<rparr>;
     if ok then Some m else g m }"

definition mn_move_down_or_to_workspace_down where
  "mn_move_down_or_to_workspace_down E = mn_or (ws_move_down E) (mn_move_to_workspace_down E True)"
definition mn_move_up_or_to_workspace_up where
  "mn_move_up_or_to_workspace_up E = mn_or (ws_move_up E) (mn_move_to_workspace_up E True)"
definition mn_focus_window_or_workspace_down where
  "mn_focus_window_or_workspace_down E = mn_or ws_focus_down (mn_switch_workspace_down E)"
definition mn_focus_window_or_workspace_up where
  "mn_focus_window_or_workspace_up E = mn_or ws_focus_up (mn_switch_workspace_up E)"

end
