(* ===== verification/MonitorGestures.thy ===== *)
theory MonitorGestures
  imports MonitorMoves
begin

text \<open>
  The gestures that switch the workspace of a monitor: swipes of the touchpad or the pointer and scrolling at
  the edges during a drag and drop (\<^verbatim>\<open>layout/monitor.rs\<close>). \<open>now\<close> is the unadjusted time of the clock.
\<close>

definition gesture_new :: "nat \<Rightarrow> f64 \<Rightarrow> bool \<Rightarrow> bool \<Rightarrow> duration option \<Rightarrow> switch_gesture" where
  "gesture_new center_idx current_idx is_touchpad is_clamped dnd_time =
    \<lparr>wg_center_idx = center_idx, wg_start_idx = current_idx, wg_current_idx = current_idx, wg_animation = None,
     wg_tracker = swipe_new, wg_is_touchpad = is_touchpad, wg_is_clamped = is_clamped,
     wg_dnd_last_event_time = dnd_time, wg_dnd_nonzero_start_time = None\<rparr>"

definition mn_workspace_switch_gesture_begin :: "env \<Rightarrow> bool \<Rightarrow> monitor \<Rightarrow> monitor" where
  "mn_workspace_switch_gesture_begin E is_touchpad m =
    m\<lparr>mn_workspace_switch := Some (SwitchGesture
       (gesture_new (mn_active_workspace_idx m) (mn_workspace_render_idx E m) is_touchpad (\<not> mn_overview_open m) None))\<rparr>"

definition mn_dnd_scroll_gesture_begin :: "env \<Rightarrow> duration \<Rightarrow> monitor \<Rightarrow> monitor" where
  "mn_dnd_scroll_gesture_begin E now m =
    (if mn_dnd_gesture m \<noteq> None then m
     else if \<not> mn_overview_open m then m
     else m\<lparr>mn_workspace_switch := Some (SwitchGesture
       (gesture_new (mn_active_workspace_idx m) (mn_workspace_render_idx E m) False False (Some now)))\<rparr>)"

text \<open>The rubber band over the zoom; \<open>clamp\<close> panics on an empty range.\<close>

definition mn_rubber_band :: "f64 \<Rightarrow> rubber_band" where
  "mn_rubber_band zoom =
    workspace_gesture_rubber_band\<lparr>rb_limit := rb_limit workspace_gesture_rubber_band / zoom\<rparr>"

definition gesture_total_height :: "env \<Rightarrow> monitor \<Rightarrow> switch_gesture \<Rightarrow> f64" where
  "gesture_total_height E m g =
    (if wg_is_touchpad g then workspace_gesture_movement else sz_h (mn_workspace_size_with_gap E 1 m))"

definition mn_workspace_switch_gesture_update ::
  "env \<Rightarrow> f64 \<Rightarrow> duration \<Rightarrow> bool \<Rightarrow> monitor \<Rightarrow> (monitor \<times> bool option) option" where
  "mn_workspace_switch_gesture_update E delta_y timestamp is_touchpad m = (case mn_workspace_switch m of
     Some (SwitchGesture g) \<Rightarrow>
       if wg_is_touchpad g \<noteq> is_touchpad \<or> wg_dnd_last_event_time g \<noteq> None then Some (m, None)
       else do {
         let zoom = mn_overview_zoom E m;
         let total_height = gesture_total_height E m g;
         let delta_scale = (if wg_is_touchpad g then (zoom - 1) / 2.5 + 1 else zoom);
         let g = g\<lparr>wg_tracker := swipe_push (delta_y / delta_scale) timestamp (wg_tracker g)\<rparr>;
         let pos = sw_pos (wg_tracker g) / total_height;
         (mn, mx) \<leftarrow> gesture_min_max (length (mn_workspaces m)) g;
         let new_idx = rb_clamp (mn_rubber_band zoom) mn mx (wg_start_idx g + pos);
         if wg_current_idx g = new_idx then Some (m\<lparr>mn_workspace_switch := Some (SwitchGesture g)\<rparr>, Some False)
         else Some (m\<lparr>mn_workspace_switch := Some (SwitchGesture (g\<lparr>wg_current_idx := new_idx\<rparr>))\<rparr>, Some True) }
   | _ \<Rightarrow> Some (m, None))"

text \<open>How fast a pointer at \<open>pos\<close> scrolls, from -1 at the top edge to 1 at the bottom edge.\<close>

definition dnd_edge_delta :: "monitor_options \<Rightarrow> f64 \<Rightarrow> size \<Rightarrow> rect \<Rightarrow> point \<Rightarrow> f64 option" where
  "dnd_edge_delta p zoom view area pos =
    (let width = sz_w view * zoom;
         x = pt_x pos - (sz_w view - width) / 2;
         y = pt_y pos - pt_y (rloc area);
         height = sz_h (rsize area)
     in if height < 0 then None
        else
          let y = f_clamp y 0 height;
              trigger_height = f_clamp (mp_dnd_trigger_height p) 0 (height / 2);
              delta = (if x < 0 \<or> width \<le> x then 0
                       else if y < trigger_height then - (trigger_height - y)
                       else if height - y < trigger_height then trigger_height - (height - y)
                       else 0)
          in Some (if trigger_height < 0.01 then 0 else delta / trigger_height))"

definition mn_dnd_scroll_gesture_scroll :: "env \<Rightarrow> duration \<Rightarrow> point \<Rightarrow> f64 \<Rightarrow> monitor \<Rightarrow> (monitor \<times> bool) option" where
  "mn_dnd_scroll_gesture_scroll E now pos speed m = (case mn_workspace_switch m of
     Some (SwitchGesture g) \<Rightarrow>
       (case wg_dnd_last_event_time g of
          None \<Rightarrow> Some (m, False)
        | Some last_time \<Rightarrow> do {
            let put = (\<lambda>g. m\<lparr>mn_workspace_switch := Some (SwitchGesture g)\<rparr>);
            delta \<leftarrow> dnd_edge_delta (mn_options m) (mn_overview_zoom E m) (mn_view_size m) (mn_working_area m) pos;
            let delta = delta * speed;
            let g = g\<lparr>wg_dnd_last_event_time := Some now\<rparr>;
            if delta = 0 then Some (put (g\<lparr>wg_dnd_nonzero_start_time := None\<rparr>), False)
            else do {
              let nonzero_start = (case wg_dnd_nonzero_start_time g of Some t \<Rightarrow> t | None \<Rightarrow> now);
              let g = g\<lparr>wg_dnd_nonzero_start_time := Some nonzero_start\<rparr>;
              if now - nonzero_start < dur_of_millis (mp_dnd_delay_ms (mn_options m)) then Some (put g, True)
              else do {
                let delta = delta * dur_as_secs (now - last_time) * mp_dnd_max_speed (mn_options m);
                let g = g\<lparr>wg_tracker := swipe_push delta now (wg_tracker g)\<rparr>;
                let pos = sw_pos (wg_tracker g) / workspace_dnd_edge_scroll_movement;
                let unclamped = wg_start_idx g + pos;
                (mn, mx) \<leftarrow> gesture_min_max (length (mn_workspaces m)) g;
                let clamped = f_clamp unclamped mn mx;
                Some (put (g\<lparr>wg_start_idx := wg_start_idx g + (clamped - unclamped), wg_current_idx := clamped\<rparr>), True)
              } } })
   | _ \<Rightarrow> Some (m, False))"

definition mn_workspace_switch_gesture_end :: "env \<Rightarrow> duration \<Rightarrow> bool option \<Rightarrow> monitor \<Rightarrow> (monitor \<times> bool) option" where
  "mn_workspace_switch_gesture_end E now is_touchpad m = (case mn_workspace_switch m of
     Some (SwitchGesture g) \<Rightarrow>
       if (case is_touchpad of Some x \<Rightarrow> wg_is_touchpad g \<noteq> x | None \<Rightarrow> False) then Some (m, False)
       else do {
         let zoom = mn_overview_zoom E m;
         let total_height = (if wg_dnd_last_event_time g \<noteq> None then workspace_dnd_edge_scroll_movement
                             else gesture_total_height E m g);
         let tracker = swipe_push 0 now (wg_tracker g);
         let velocity = swipe_velocity tracker / total_height;
         let current_pos = sw_pos tracker / total_height;
         let pos = swipe_projected_end_pos tracker / total_height;
         (mn, mx) \<leftarrow> gesture_min_max (length (mn_workspaces m)) g;
         let new_idx = nat (f_trunc (f_round (f_clamp (wg_start_idx g + pos) mn mx)));
         let velocity = velocity * rb_clamp_derivative (mn_rubber_band zoom) mn mx (wg_start_idx g + current_pos);
         m \<leftarrow> (if mn_active_workspace_idx m \<noteq> new_idx
              then map_option (\<lambda>w. m\<lparr>mn_previous_workspace_id := Some (ws_id w)\<rparr>) (mn_active_workspace m) else Some m);
         a \<leftarrow> anim_new E (wg_current_idx g) (real new_idx) velocity
                (ao_workspace_switch (op_animations (mp_shared (mn_options m))));
         Some (m\<lparr>mn_active_workspace_idx := new_idx, mn_workspace_switch := Some (SwitchAnimation a)\<rparr>, True) }
   | _ \<Rightarrow> Some (m, False))"

definition mn_dnd_scroll_gesture_end :: "env \<Rightarrow> duration \<Rightarrow> monitor \<Rightarrow> monitor option" where
  "mn_dnd_scroll_gesture_end E now m =
    (if mn_dnd_gesture m = None then Some m
     else map_option fst (mn_workspace_switch_gesture_end E now None m))"

end
