(* ===== verification/WorkspaceContract.thy ===== *)
theory WorkspaceContract
  imports WorkspaceProps
begin

text \<open>
  A workspace is a space of windows like the two it consists of: it keeps the contract \<open>window_space\<close>, so a
  window that goes from one workspace to another follows \<open>two_spaces\<close>.
\<close>

text \<open>Where and how a tile is added: the target, the width, whether it is full width and whether it floats.\<close>

type_synonym ws_place = "add_target \<times> column_width \<times> bool \<times> bool"

definition ws_put :: "env \<Rightarrow> ws_place \<Rightarrow> tile \<Rightarrow> bool \<Rightarrow> workspace \<Rightarrow> workspace option" where
  "ws_put E p t a w = (case p of (target, width, full, is_floating) \<Rightarrow>
     ws_add_tile E t target (if a then ActYes else ActNo) width full is_floating w)"

definition ws_take :: "env \<Rightarrow> nat \<Rightarrow> workspace \<Rightarrow> (tile \<times> workspace) option" where
  "ws_take E i w = map_option (\<lambda>(r, w). (rt_tile r, w)) (ws_remove_tile E i w)"

definition ws_fits :: "ws_place \<Rightarrow> tile \<Rightarrow> workspace \<Rightarrow> bool" where
  "ws_fits p t w \<longleftrightarrow> parents_acyclic (t # ws_tiles w) \<and>
     (case fst p of AddNextTo i \<Rightarrow> i \<in> set (ws_ids w) | _ \<Rightarrow> True)"

text \<open>\<open>Smart\<close> activation is one of the other two, depending on the workspace.\<close>

definition smart_activates :: "add_target \<Rightarrow> workspace \<Rightarrow> bool" where
  "smart_activates target w = (case target of
     AddAuto \<Rightarrow> \<not> ws_is_active_pending_fullscreen w
   | AddNewColumnAt _ \<Rightarrow> False
   | AddNextTo i \<Rightarrow> ws_active_id w = Some i)"

lemma add_tile_put:
  assumes "\<And>i. activate = ActSmart \<Longrightarrow> target = AddNextTo i \<Longrightarrow> ws_active_id w \<noteq> None"
  shows "ws_add_tile E t target activate width full is_floating w =
    ws_put E (target, width, full, is_floating) t (map_smart (smart_activates target w) activate) w"
  using assms by (cases activate; cases target; cases "ws_active_window w")
    (simp_all add: ws_put_def ws_add_tile_def Let_def smart_activates_def ws_active_id_def)

section \<open>The active window\<close>

lemma add_scrolling_active:
  assumes inv: "ws_inv E w" and inv': "ws_inv E (ws_add_scrolling E t a width full w)" and new: "tile_id t \<notin> set (ws_ids w)"
  shows "ws_active_id (ws_add_scrolling E t a width full w) = (if a \<or> ws_ids w = [] then Some (tile_id t) else ws_active_id w)"
proof -
  let ?w = "ws_add_scrolling E t a width full w"
  note i = ws_invD[OF inv]
  have w: "ws_floating ?w = ws_floating w" "ws_floating_is_active ?w = (if a then FloatNo else ws_floating_is_active w)"
      "ss_active_id (ws_scrolling ?w) =
         (if a \<or> ss_ids (ws_scrolling w) = [] then Some (tile_id t) else ss_active_id (ws_scrolling w))"
    using ss_put_law[OF i(1), of t E a width full] new by (simp_all add: ws_add_scrolling_def on_ss_def ws_ids_def)
  from i(4) show ?thesis
    unfolding ws_active_id_eq[OF inv] ws_active_id_eq[OF inv'] w by (auto simp: ws_ids_def fa_ok_def split: if_splits)
qed

lemma add_floating_active:
  assumes inv: "ws_inv E w" and inv': "ws_inv E w'" and new: "tile_id t \<notin> set (ws_ids w)"
    and fit: "fs_fits n t (ws_floating w)" and ex: "ws_add_floating E n t a w = Some w'"
  shows "ws_active_id w' = (if a \<or> ws_ids w = [] then Some (tile_id t) else ws_active_id w)"
proof -
  note i = ws_invD[OF inv]
  obtain f where f: "fs_put E n t a (ws_floating w) = Some f"
      "w' = ws_activated (a \<or> ss_is_empty (ws_scrolling w)) FloatYes (w\<lparr>ws_floating := f\<rparr>)"
    using ex by (auto simp: ws_add_floating_def try_fs_def bind_eq_Some_conv)
  have "tile_id t \<notin> set (fs_ids (ws_floating w))" using new by (simp add: ws_ids_def)
  note l = floating.added[OF i(2) this fit f(1)]
  have w: "ws_scrolling w' = ws_scrolling w" "ws_floating w' = f"
      "ws_floating_is_active w' = (if a \<or> ss_ids (ws_scrolling w) = [] then FloatYes else ws_floating_is_active w)"
    by (simp_all add: f(2) ss_empty_ids)
  from i(4) l(4) show ?thesis
    unfolding ws_active_id_eq[OF inv] ws_active_id_eq[OF inv'] w by (auto simp: ws_ids_def fa_ok_def split: if_splits)
qed

lemma put_cases:
  assumes "ws_put E (target, width, full, fl) t a w = Some w'"
  obtains (tiled) u where "w' = ws_add_scrolling E u a width full w" "tile_id u = tile_id t"
  | (floating) n u where "ws_add_floating E n u a w = Some w'" "tile_id u = tile_id t" "tkey u = tkey t"
      "\<forall>i\<in>set_option n. i \<in> set (fs_ids (ws_floating w))"
proof -
  have s: "map_smart b (if a then ActYes else ActNo) = a" "(if a then ActYes else ActNo) \<noteq> ActSmart" for b by simp_all
  let ?t = "t\<lparr>tl_restore_to_floating := fl\<rparr>"
  note scroll = tiled[of ?t, unfolded added_fields] and float = floating[of _ ?t, unfolded added_fields]
    and dialog = floating[of None "?t\<lparr>tl_floating_pos := Some p\<rparr>" for p, unfolded added_fields]
  show thesis
  proof (cases target)
    case AddAuto
    show thesis
    proof (cases "fl \<and> win_pending_sizing_mode (tl_window t) = Normal")
      case True
      then have "ws_add_floating E None ?t a w = Some w'"
        using assms unfolding AddAuto by (simp add: ws_put_def ws_add_tile_def Let_def s)
      from float[OF this] show thesis by simp
    next
      case False
      then have "Some (ws_add_scrolling E ?t a width full w) = Some w'"
        using assms unfolding AddAuto by (simp only: ws_put_def ws_add_tile_def Let_def s prod.case add_target.case) auto
      then show thesis using scroll by simp
    qed
  next
    case (AddNewColumnAt k)
    have "w' = ws_add_scrolling E ?t a width full w"
      using assms unfolding AddNewColumnAt by (simp add: ws_put_def ws_add_tile_def Let_def s)
    from scroll[OF this] show thesis by simp
  next
    case (AddNextTo i)
    show thesis
    proof (cases "fl \<and> win_pending_sizing_mode (tl_window t) = Normal")
      case True
      have "(if fs_has_window i (ws_floating w) then ws_add_floating E (Some i) ?t a w
          else ws_dialog_pos E i ?t w \<bind> (\<lambda>p. ws_add_floating E None (?t\<lparr>tl_floating_pos := Some p\<rparr>) a w)) = Some w'"
        using assms True unfolding AddNextTo
        by (cases "fs_has_window i (ws_floating w)") (simp_all add: ws_put_def ws_add_tile_def Let_def s)
      then consider "fs_has_window i (ws_floating w)" "ws_add_floating E (Some i) ?t a w = Some w'"
        | p where "ws_add_floating E None (?t\<lparr>tl_floating_pos := Some p\<rparr>) a w = Some w'"
        by (auto simp: bind_eq_Some_conv split: if_splits)
      then show thesis
      proof cases
        case 1
        from float[OF 1(2)] 1(1) show thesis by (simp add: fs_has_ids)
      next
        case (2 p)
        from dialog[OF this] show thesis by simp
      qed
    next
      case False
      then have "w' = ws_add_scrolling E ?t a width full w"
        using assms unfolding AddNextTo by (auto simp: ws_put_def ws_add_tile_def Let_def s)
      from scroll[OF this] show thesis by simp
    qed
  qed
qed

lemma put_law:
  assumes inv: "ws_inv E w" and new: "tile_id t \<notin> set (ws_ids w)" and fit: "ws_fits p t w"
  shows "\<exists>w'. ws_put E p t a w = Some w' \<and> ws_inv E w' \<and> mset (ws_ids w') = add_mset (tile_id t) (mset (ws_ids w)) \<and>
    ws_active_id w' = (if a \<or> ws_ids w = [] then Some (tile_id t) else ws_active_id w)"
proof -
  obtain target width full fl where p: "p = (target, width, full, fl)" by (cases p) auto
  have ac: "parents_acyclic (t # ws_tiles w)" "\<And>i. target = AddNextTo i \<Longrightarrow> i \<in> set (ws_ids w)"
    using fit by (auto simp: ws_fits_def p)
  obtain w' where w': "ws_put E (target, width, full, fl) t a w = Some w'" "ws_inv E w'"
      "mset (ws_ids w') = add_mset (tile_id t) (mset (ws_ids w))"
    using add_tile_added[OF inv new ac(1), of target "if a then ActYes else ActNo" width full fl] ac(2)
    by (auto simp: ws_put_def ws_added_def)
  from w'(1) have "ws_active_id w' = (if a \<or> ws_ids w = [] then Some (tile_id t) else ws_active_id w)"
  proof (cases rule: put_cases)
    case (tiled u)
    with add_scrolling_active[OF inv, of u a width full] w'(2) new show ?thesis by simp
  next
    case (floating n u)
    have "parents_acyclic (u # fs_tiles (ws_floating w))"
      by (rule acyclic_cons[OF ac(1)]) (auto simp: floating(3) ws_tiles_def)
    with floating add_floating_active[OF inv w'(2), of u n a] new show ?thesis by (simp add: fs_fits_def)
  qed
  with w' p show ?thesis by blast
qed

text \<open>What leaves the workspace was one of its tiles, by what clients say of it.\<close>

lemma removed_key:
  assumes inv: "ws_inv E w" and ex: "ws_remove_tile E i w = Some (r, w')"
  shows "tkey (rt_tile r) \<in> tkey ` set (ws_tiles w)"
proof (cases "fs_has_window i (ws_floating w)")
  case True
  then obtain f where f: "fs_remove_tile E i (ws_floating w) = Some (r, f)"
    using ex by (auto simp: ws_remove_tile_def bind_eq_Some_conv)
  obtain k where k: "fs_idx_of i (ws_floating w) = Some k"
    using idx_of_total True by (auto simp: fs_has_ids)
  then have "k < length (fs_tiles (ws_floating w))" using idx_of_Some by blast
  moreover have "length (fs_data (ws_floating w)) = length (fs_tiles (ws_floating w))"
    using core_length[OF fs_inv_core[OF ws_invD(2)[OF inv]]] by simp
  ultimately obtain sz q where "rt_tile r = (fs_tiles (ws_floating w) ! k)\<lparr>tl_floating_window_size := sz, tl_floating_pos := q\<rparr>"
    using removed_shape(4)[OF f k] by auto
  then have "tkey (rt_tile r) = tkey (fs_tiles (ws_floating w) ! k)" by (simp only: tkey_stored)
  with \<open>k < length _\<close> show ?thesis by (auto simp: ws_tiles_def)
next
  case False
  then obtain s where "ss_remove_tile E i (ws_scrolling w) = Some (r, s)"
    using ex by (auto simp: ws_remove_tile_def bind_eq_Some_conv)
  from taken_tile[OF ws_invD(1)[OF inv] this] show ?thesis by (auto simp: ws_tiles_def)
qed

lemma take_law:
  assumes inv: "ws_inv E w" and ex: "ws_take E i w = Some (t, w')"
  shows "i \<in> set (ws_ids w) \<and> tile_id t = i \<and> ws_inv E w' \<and> mset (ws_ids w') = mset (ws_ids w) - {#i#} \<and>
    (ws_active_id w \<noteq> Some i \<longrightarrow> ws_active_id w' = ws_active_id w)"
proof -
  obtain r where r: "ws_remove_tile E i w = Some (r, w')" "t = rt_tile r" using ex by (auto simp: ws_take_def)
  note rem = remove_tile_removed[OF inv r(1)]
  then have m: "ws_inv E w'" "mset (ws_ids w) = add_mset i (mset (ws_ids w'))" "tile_id t = i"
    by (simp_all add: ws_removed_def r(2))
  have "i \<in> set (ws_ids w)" using m(2) by (metis union_single_eq_member set_mset_mset)
  moreover have "ws_active_id w' = ws_active_id w" if a: "ws_active_id w \<noteq> Some i"
  proof (cases "fs_has_window i (ws_floating w)")
    case True
    then obtain f where f: "fs_take E i (ws_floating w) = Some (t, f)"
        "w' = ws_update_focus_after_removing True (w\<lparr>ws_floating := f\<rparr>)"
      using r by (auto simp: ws_remove_tile_def fs_take_def bind_eq_Some_conv)
    note l = floating.removed[OF ws_invD(2)[OF inv] f(1)]
    have w': "ws_floating_is_active w' = (if fs_ids f = [] then FloatNo else ws_floating_is_active w)"
        "ws_scrolling w' = ws_scrolling w" "ws_floating w' = f"
      by (simp_all add: f(2) ws_update_focus_after_removing_def fs_empty_ids)
    have ne: "fs_ids (ws_floating w) \<noteq> []" using l(4) by auto
    show ?thesis
    proof (cases "ws_floating_is_active w = FloatYes")
      case True
      with a have "fs_active_window_id (ws_floating w) \<noteq> Some i" by (simp add: ws_active_id_eq[OF inv])
      with l(7) have same: "fs_active_window_id f = fs_active_window_id (ws_floating w)" by simp
      then have "fs_ids f \<noteq> []" using floating.active_none[OF l(1)] floating.active_none[OF ws_invD(2)[OF inv]] ne by simp
      with True same show ?thesis unfolding ws_active_id_eq[OF inv] ws_active_id_eq[OF m(1)] w' by simp
    qed (simp add: ws_active_id_eq[OF inv] ws_active_id_eq[OF m(1)] w')
  next
    case False
    then obtain s where s: "ss_take E i (ws_scrolling w) = Some (t, s)"
        "w' = ws_update_focus_after_removing False (w\<lparr>ws_scrolling := s\<rparr>)"
      using r by (auto simp: ws_remove_tile_def ss_take_def bind_eq_Some_conv)
    note l = tiling.removed[OF ws_invD(1)[OF inv] s(1)]
    have w': "ws_floating_is_active w' =
        (if ss_ids s = [] \<and> fs_ids (ws_floating w) \<noteq> [] then FloatYes else ws_floating_is_active w)"
        "ws_scrolling w' = s" "ws_floating w' = ws_floating w"
      by (simp_all add: s(2) ws_update_focus_after_removing_def fs_empty_ids ss_empty_ids)
    have ne: "ss_ids (ws_scrolling w) \<noteq> []" using l(4) by auto
    show ?thesis
    proof (cases "ws_floating_is_active w = FloatYes")
      case False
      with a have "ss_active_id (ws_scrolling w) \<noteq> Some i" by (simp add: ws_active_id_eq[OF inv])
      with l(7) have same: "ss_active_id s = ss_active_id (ws_scrolling w)" by simp
      then have "ss_ids s \<noteq> []" using tiling.active_none[OF l(1)] tiling.active_none[OF ws_invD(1)[OF inv]] ne by simp
      with False same show ?thesis unfolding ws_active_id_eq[OF inv] ws_active_id_eq[OF m(1)] w' by simp
    qed (simp add: ws_active_id_eq[OF inv] ws_active_id_eq[OF m(1)] w')
  qed
  ultimately show ?thesis using m by simp
qed

lemma ws_ids_distinct: "ws_inv E w \<Longrightarrow> distinct (ws_ids w)"
  using tiling.ids_distinct[OF ws_invD(1)] floating.ids_distinct[OF ws_invD(2)] ws_invD(3) by (auto simp: ws_ids_def)

section \<open>The contract\<close>

interpretation workspace: window_space ws_ids "ws_inv E" ws_active_id tile_id ws_fits "ws_put E" "ws_take E"
proof unfold_locales
  show "ws_inv E w \<Longrightarrow> case ws_active_id w of None \<Rightarrow> ws_ids w = [] | Some i \<Rightarrow> i \<in> set (ws_ids w)" for w
    using ws_active_some[of E w] by (cases "ws_active_id w") auto
qed (fact ws_ids_distinct put_law take_law)+

interpretation between: two_spaces ws_ids "ws_inv E" ws_active_id tile_id ws_fits "ws_put E" "ws_take E"
  ws_ids "ws_inv E" ws_active_id ws_fits "ws_put E" "ws_take E"
  by unfold_locales

end
