(* ===== verification/MonitorInv.thy ===== *)
theory MonitorInv
  imports MonitorGestures WorkspaceContract
begin

text \<open>
  The invariant of a monitor (what its \<open>verify_invariants\<close> asserts, without the assertions on empty workspaces
  that the fixed number of workspaces has made obsolete) and what an operation on one of its workspaces
  does to it.
\<close>

section \<open>What no command of a workspace changes\<close>

definition ws_rest :: "workspace \<Rightarrow> nat \<times> nat option \<times> options \<times> out_scale \<times> nat \<times> size \<times> rect" where
  "ws_rest w = (ws_id w, ws_output w, ws_base_options w, ws_scale w, ws_transform w, ws_view_size w, ws_working_area w)"

lemma rest_upd [simp]:
  "ws_rest (w\<lparr>ws_scrolling := s\<rparr>) = ws_rest w" "ws_rest (w\<lparr>ws_floating := f\<rparr>) = ws_rest w"
  "ws_rest (w\<lparr>ws_floating_is_active := fa\<rparr>) = ws_rest w" "ws_rest (w\<lparr>ws_original_output := oo\<rparr>) = ws_rest w"
  "ws_rest (w\<lparr>ws_name := nm\<rparr>) = ws_rest w" "ws_rest (on_ss g w) = ws_rest w" "ws_rest (on_fs h w) = ws_rest w"
  "ws_rest (ws_activated b fa w) = ws_rest w" "ws_rest (ws_update_focus_after_removing b w) = ws_rest w"
  by (simp_all add: ws_rest_def on_ss_def on_fs_def ws_activated_def ws_update_focus_after_removing_def)

lemma rest_try:
  "try_ss f w = Some w' \<Longrightarrow> ws_rest w' = ws_rest w" "try_fs g w = Some w' \<Longrightarrow> ws_rest w' = ws_rest w"
  "ask_ss h w = Some (w', b) \<Longrightarrow> ws_rest w' = ws_rest w" "ask_fs k w = Some (w', b) \<Longrightarrow> ws_rest w' = ws_rest w"
  by (auto simp: try_ss_def try_fs_def ask_ss_def ask_fs_def)

lemma rest_adds:
  "ws_rest (ws_add_scrolling E t a width full w) = ws_rest w" "ws_rest (ws_add_column E c a w) = ws_rest w"
  "ws_rest (ws_add_tile_to_column E t a w) = ws_rest w"
  "ws_add_floating E n t a w = Some w' \<Longrightarrow> ws_rest w' = ws_rest w"
  "ws_add_tile E t target act width full is_floating w = Some w' \<Longrightarrow> ws_rest w' = ws_rest w"
proof -
  show f: "ws_add_floating E n t a w = Some w' \<Longrightarrow> ws_rest w' = ws_rest w" for n t a w'
    by (auto simp: ws_add_floating_def bind_eq_Some_conv dest: rest_try)
  show s: "ws_rest (ws_add_scrolling E t a width full w) = ws_rest w" for t a
    by (simp add: ws_add_scrolling_def)
  show "ws_add_tile E t target act width full is_floating w = Some w' \<Longrightarrow> ws_rest w' = ws_rest w"
    by (auto simp: ws_add_tile_def Let_def s bind_eq_Some_conv dest: f split: add_target.splits if_splits)
qed (simp_all add: ws_add_column_def ws_add_tile_to_column_def)

lemma rest_removes:
  "ws_remove_tile E i w = Some (r, w') \<Longrightarrow> ws_rest w' = ws_rest w"
  "ws_remove_active_tile E w = Some (q, w') \<Longrightarrow> ws_rest w' = ws_rest w"
  "ws_remove_active_column E w = Some (c, w') \<Longrightarrow> ws_rest w' = ws_rest w"
  by (auto simp: ws_remove_tile_def ws_remove_active_tile_def ws_remove_active_column_def Let_def bind_eq_Some_conv
      split: if_splits option.splits)

lemma rest_focus:
  "ws_focus_by f g w = Some (w', b) \<Longrightarrow> ws_rest w' = ws_rest w" "ws_focus_to h k w = Some w' \<Longrightarrow> ws_rest w' = ws_rest w"
  "ws_rest (ws_switch_focus_floating_tiling w) = ws_rest w" "ws_rest (ws_focus_column n w) = ws_rest w"
  by (auto simp: ws_focus_by_def ws_focus_to_def ws_switch_focus_floating_tiling_def ws_focus_column_def
      ws_focus_tiling_def Let_def dest: rest_try split: if_splits)

lemma rest_activate:
  "ws_activate_window i w = Some (w', b) \<Longrightarrow> ws_rest w' = ws_rest w"
  "ws_activate_window_without_raising i w = Some (w', b) \<Longrightarrow> ws_rest w' = ws_rest w"
  by (auto simp: ws_activate_window_def ws_activate_window_without_raising_def bind_eq_Some_conv
      dest!: rest_try split: if_splits)

lemma rest_or:
  assumes "\<And>w w' b. f w = Some (w', b) \<Longrightarrow> ws_rest w' = ws_rest w" "\<And>w w'. g w = Some w' \<Longrightarrow> ws_rest w' = ws_rest w"
    and "ws_or f g w = Some w'"
  shows "ws_rest w' = ws_rest w"
  using assms(3) by (auto simp: ws_or_def bind_eq_Some_conv dest!: assms(1,2) split: if_splits)

lemmas focus_defs = ws_focus_left_def ws_focus_right_def ws_focus_down_def ws_focus_up_def ws_focus_column_first_def
  ws_focus_column_last_def ws_focus_window_top_def ws_focus_window_bottom_def ws_focus_down_or_left_def
  ws_focus_down_or_right_def ws_focus_up_or_left_def ws_focus_up_or_right_def

lemma rest_exec_focus: "ws_exec_focus E op w = Some w' \<Longrightarrow> ws_rest w' = ws_rest w"
  by (cases op) (auto simp: focus_defs ws_focus_column_right_or_first_def ws_focus_column_left_or_last_def
      ws_focus_window_down_or_top_def ws_focus_window_up_or_bottom_def ws_focus_floating_def ws_focus_tiling_def
      rest_focus(3,4) dest: rest_focus(1,2) rest_activate elim!: rest_or[rotated 2])

lemma rest_moves:
  "ws_move_by f g w = Some (w', b) \<Longrightarrow> ws_rest w' = ws_rest w" "ws_tiling_only h w = Some w' \<Longrightarrow> ws_rest w' = ws_rest w"
  "ws_floating_only k i w = Some w' \<Longrightarrow> ws_rest w' = ws_rest w"
  by (auto simp: ws_move_by_def ws_tiling_only_def ws_floating_only_def dest: rest_try split: if_splits)

lemmas move_defs = ws_move_left_def ws_move_right_def ws_move_down_def ws_move_up_def ws_move_left_animated_def
  ws_move_right_animated_def ws_move_down_animated_def ws_move_up_animated_def

lemma rest_exec_move: "ws_exec_move E op w = Some w' \<Longrightarrow> ws_rest w' = ws_rest w"
  by (cases op) (auto simp: move_defs ws_move_column_to_first_def ws_move_column_to_last_def ws_consume_into_column_def
      ws_expel_from_column_def ws_swap_window_in_direction_def ws_nudge_master_ratio_def
      ws_consume_or_expel_window_left_def ws_consume_or_expel_window_right_def
      dest: rest_moves rest_try split: if_splits)

lemma rest_move_floating: "ws_move_floating_window E i x y a w = Some w' \<Longrightarrow> ws_rest w' = ws_rest w"
  by (auto simp: ws_move_floating_window_def Let_def dest: rest_try split: if_splits option.splits)

lemma rest_resize:
  "ws_resize_begin E i e w = Some (w', b) \<Longrightarrow> ws_rest w' = ws_rest w"
  "ws_resize_update E i d w = Some (w', b) \<Longrightarrow> ws_rest w' = ws_rest w"
  "ws_rest (ws_resize_end j w) = ws_rest w" "ws_rest (ws_refresh E a f w) = ws_rest w"
  "ws_rest (ws_advance_animations E w) = ws_rest w"
  by (auto simp: ws_resize_begin_def ws_resize_update_def ws_resize_end_def ws_refresh_def ws_advance_animations_def
      dest: rest_try split: if_splits option.splits)

lemma rest_both:
  "ws_start_open_animation E i w = Some (w', b) \<Longrightarrow> ws_rest w' = ws_rest w"
  "ws_update_window E i c w = Some w' \<Longrightarrow> ws_rest w' = ws_rest w"
  by (auto simp: ws_start_open_animation_def ws_update_window_def bind_eq_Some_conv dest!: rest_try split: if_splits)

lemma rest_exec_size: "ws_exec_size E op w = Some w' \<Longrightarrow> ws_rest w' = ws_rest w"
  by (cases op) (auto simp: ws_center_column_def ws_center_window_def ws_toggle_width_def ws_set_column_width_def
      ws_set_window_width_def ws_set_window_height_def ws_toggle_window_width_def ws_toggle_window_height_def
      rest_resize dest: rest_both rest_moves rest_try rest_move_floating rest_resize(1,2) split: if_splits)

lemma rest_toggle: "ws_toggle_window_floating E i w = Some w' \<Longrightarrow> ws_rest w' = ws_rest w"
proof -
  have u: "ws_update_tile i f w = Some w' \<Longrightarrow> ws_rest w' = ws_rest w" for i f w w'
    by (auto simp: ws_update_tile_def bind_eq_Some_conv dest: rest_try split: option.splits)
  have a: "ws_float_to_tile E i b w = Some w' \<Longrightarrow> ws_rest w' = ws_rest w" for i b w w'
    by (auto simp: ws_float_to_tile_def bind_eq_Some_conv rest_adds)
  have b: "ws_tile_to_float E i b p w = Some w' \<Longrightarrow> ws_rest w' = ws_rest w" for i b p w w'
    by (auto simp: ws_tile_to_float_def bind_eq_Some_conv Let_def dest: rest_try)
  assume "ws_toggle_window_floating E i w = Some w'"
  then show ?thesis
    by (auto simp: ws_toggle_window_floating_def Let_def bind_eq_Some_conv dest!: u a b split: option.splits if_splits)
qed

lemma rest_takeover: "ws_set_takeover f i r w = Some w' \<Longrightarrow> ws_rest w' = ws_rest w"
  by (auto simp: ws_set_takeover_def bind_eq_Some_conv dest!: rest_try)

lemma rest_exec_change: "ws_exec_change E op w = Some w' \<Longrightarrow> ws_rest w' = ws_rest w"
proof -
  have f: "ws_set_fullscreen E i b w = Some w' \<Longrightarrow> ws_rest w' = ws_rest w" for i b
    by (auto simp: ws_set_fullscreen_def Let_def bind_eq_Some_conv dest!: rest_toggle rest_takeover split: if_splits)
  have m: "ws_set_maximized E i b w = Some w' \<Longrightarrow> ws_rest w' = ws_rest w" for i b
    by (auto simp: ws_set_maximized_def Let_def bind_eq_Some_conv dest!: rest_toggle rest_takeover split: if_splits)
  show "ws_exec_change E op w = Some w' \<Longrightarrow> ws_rest w' = ws_rest w"
    by (cases op) (auto simp: ws_toggle_fullscreen_def ws_toggle_maximized_def ws_set_window_floating_def Let_def
        bind_eq_Some_conv dest: f m rest_toggle split: if_splits)
qed

text \<open>Every command but those of the configuration leaves the workspace where and what it is.\<close>

lemma rest_exec:
  assumes "ws_exec E op w = Some w'" "\<And>c. op \<noteq> WConfig c"
  shows "ws_rest w' = ws_rest w"
  using assms by (cases op) (auto simp: rest_adds(1-3) dest: rest_adds(5) rest_removes rest_try rest_exec_focus rest_exec_move
      rest_exec_size rest_exec_change)

section \<open>The invariant\<close>

definition mn_ids :: "monitor \<Rightarrow> nat list" where
  "mn_ids m = concat (map ws_ids (mn_workspaces m))"

definition mn_tiles :: "monitor \<Rightarrow> tile list" where
  "mn_tiles m = concat (map ws_tiles (mn_workspaces m))"

text \<open>A workspace has the output, the options and the sizes of the monitor.\<close>

definition mn_setting :: "monitor \<Rightarrow> nat option \<times> options \<times> out_scale \<times> nat \<times> size \<times> rect" where
  "mn_setting m = (Some (ou_id (mn_output m)), mp_shared (mn_options m), mn_scale m, ou_transform (mn_output m),
     mn_view_size m, mn_working_area m)"

definition ws_belongs :: "env \<Rightarrow> monitor \<Rightarrow> workspace \<Rightarrow> bool" where
  "ws_belongs E m w \<longleftrightarrow> ws_inv E w \<and> snd (ws_rest w) = mn_setting m"

definition wss_ok :: "env \<Rightarrow> monitor \<Rightarrow> workspace list \<Rightarrow> bool" where
  "wss_ok E m wss \<longleftrightarrow> distinct (map ws_id wss) \<and> distinct (concat (map ws_ids wss)) \<and> (\<forall>w\<in>set wss. ws_belongs E m w)"

text \<open>A switch goes to one of the workspaces, a gesture started on one.\<close>

definition goes_to :: "f64 \<Rightarrow> animation \<Rightarrow> bool" where
  "goes_to x a \<longleftrightarrow> an_to a = x \<and> (\<forall>v r. an_kind a \<noteq> Deceleration v r)"

definition switch_ok :: "nat \<Rightarrow> workspace_switch \<Rightarrow> bool" where
  "switch_ok n s = (case s of
     SwitchAnimation a \<Rightarrow> \<exists>k<n. goes_to (real k) a | SwitchGesture g \<Rightarrow> wg_center_idx g < n)"

definition mn_switch_ok :: "monitor \<Rightarrow> bool" where
  "mn_switch_ok m \<longleftrightarrow> mn_active_workspace_idx m < length (mn_workspaces m) \<and>
     (\<forall>s. mn_workspace_switch m = Some s \<longrightarrow> switch_ok (length (mn_workspaces m)) s)"

definition mn_in_sync :: "monitor \<Rightarrow> bool" where
  "mn_in_sync m \<longleftrightarrow> mn_scale m = ou_scale (mn_output m) \<and> mn_view_size m = ou_size (mn_output m) \<and>
     mn_working_area m = ou_area (mn_output m) \<and>
     mn_options m = mp_with_merged_layout (mn_layout_config m) (mn_base_options m)"

definition mn_inv :: "env \<Rightarrow> monitor \<Rightarrow> bool" where
  "mn_inv E m \<longleftrightarrow> wss_ok E m (mn_workspaces m) \<and> mn_switch_ok m \<and> mn_in_sync m"

definition mn_acyclic :: "monitor \<Rightarrow> bool" where
  "mn_acyclic m \<longleftrightarrow> parents_acyclic (mn_tiles m)"

lemma mn_invD:
  assumes "mn_inv E m"
  shows "wss_ok E m (mn_workspaces m)" "mn_switch_ok m" "mn_in_sync m"
    "mn_active_workspace_idx m < length (mn_workspaces m)" "distinct (mn_ids m)"
    "k < length (mn_workspaces m) \<Longrightarrow> ws_inv E (mn_workspaces m ! k)"
    "k < length (mn_workspaces m) \<Longrightarrow> ws_belongs E m (mn_workspaces m ! k)"
  using assms by (auto simp: mn_inv_def mn_switch_ok_def wss_ok_def mn_ids_def ws_belongs_def)

section \<open>Lists of workspaces\<close>

lemma concat_at:
  assumes "k < length wss"
  shows "mset (concat (map f (wss[k := w]))) + mset (f (wss ! k)) = mset (concat (map f wss)) + mset (f w)"
proof -
  have u: "wss[k := w] = take k wss @ w # drop (Suc k) wss" using assms by (simp add: upd_conv_take_nth_drop)
  have v: "wss = take k wss @ wss ! k # drop (Suc k) wss" using assms by (simp add: id_take_nth_drop)
  show ?thesis unfolding u by (subst (4) v) simp
qed

lemma ids_at:
  assumes "k < length (mn_workspaces m)"
  shows "mset (mn_ids (m\<lparr>mn_workspaces := (mn_workspaces m)[k := w]\<rparr>)) + mset (ws_ids (mn_workspaces m ! k)) =
    mset (mn_ids m) + mset (ws_ids w)"
  using concat_at[OF assms, of ws_ids w] by (simp add: mn_ids_def)

lemma distinct_added: "mset ys = add_mset i (mset xs) \<Longrightarrow> i \<notin> set xs \<Longrightarrow> distinct xs \<Longrightarrow> distinct ys"
  using mset_eq_imp_distinct_iff[of ys "i # xs"] by simp

lemma distinct_removed: "mset xs = add_mset i (mset ys) \<Longrightarrow> distinct xs \<Longrightarrow> distinct ys \<and> i \<notin> set ys"
  using mset_eq_imp_distinct_iff[of xs "i # ys"] by simp

lemma wss_ok_mset: "mset wss' = mset wss \<Longrightarrow> wss_ok E m wss \<Longrightarrow> wss_ok E m wss'"
proof -
  assume m: "mset wss' = mset wss" and ok: "wss_ok E m wss"
  have "mset (map ws_id wss') = mset (map ws_id wss)" using m by (simp only: mset_map)
  moreover have "mset (concat (map ws_ids wss')) = mset (concat (map ws_ids wss))"
  proof -
    have c: "mset (concat (map ws_ids xs)) = (\<Sum>w\<in>#mset xs. mset (ws_ids w))" for xs by (induction xs) auto
    show ?thesis unfolding c m by (rule refl)
  qed
  ultimately show ?thesis
    using ok mset_eq_imp_distinct_iff mset_eq_setD[OF m] unfolding wss_ok_def by blast
qed

lemma wss_ok_setting: "mn_setting m' = mn_setting m \<Longrightarrow> wss_ok E m' wss = wss_ok E m wss"
  by (simp add: wss_ok_def ws_belongs_def)

text \<open>One workspace becomes another in its place.\<close>

lemma wss_ok_at:
  assumes "wss_ok E m wss" "k < length wss" "ws_inv E w" "ws_rest w = ws_rest (wss ! k)"
    and "distinct (concat (map ws_ids (wss[k := w])))"
  shows "wss_ok E m (wss[k := w])"
proof -
  have "ws_id w = ws_id (wss ! k)" using assms(4) by (simp add: ws_rest_def)
  then have "map ws_id (wss[k := w]) = map ws_id wss" using assms(2) by (simp add: map_update list_update_same_conv)
  moreover have "ws_belongs E m w" using assms by (auto simp: ws_belongs_def wss_ok_def)
  ultimately show ?thesis using assms(1,5) by (auto simp: wss_ok_def dest: set_update_subset_insert[THEN subsetD])
qed

lemma mn_setting_upd [simp]:
  "mn_setting (m\<lparr>mn_workspaces := wss\<rparr>) = mn_setting m" "mn_setting (m\<lparr>mn_active_workspace_idx := k\<rparr>) = mn_setting m"
  "mn_setting (m\<lparr>mn_previous_workspace_id := p\<rparr>) = mn_setting m" "mn_setting (m\<lparr>mn_workspace_switch := s\<rparr>) = mn_setting m"
  "mn_setting (m\<lparr>mn_overview_progress := op\<rparr>) = mn_setting m" "mn_setting (m\<lparr>mn_overview_open := b\<rparr>) = mn_setting m"
  by (simp_all add: mn_setting_def)

lemma mn_sync_upd [simp]:
  "mn_in_sync (m\<lparr>mn_workspaces := wss\<rparr>) = mn_in_sync m" "mn_in_sync (m\<lparr>mn_active_workspace_idx := k\<rparr>) = mn_in_sync m"
  "mn_in_sync (m\<lparr>mn_previous_workspace_id := p\<rparr>) = mn_in_sync m" "mn_in_sync (m\<lparr>mn_workspace_switch := s\<rparr>) = mn_in_sync m"
  "mn_in_sync (m\<lparr>mn_overview_progress := op\<rparr>) = mn_in_sync m" "mn_in_sync (m\<lparr>mn_overview_open := b\<rparr>) = mn_in_sync m"
  by (simp_all add: mn_in_sync_def)

text \<open>What an operation does to the windows, when it keeps the workspaces in their places.\<close>

definition mn_kept :: "env \<Rightarrow> nat multiset \<Rightarrow> monitor \<Rightarrow> monitor \<Rightarrow> bool" where
  "mn_kept E ids m m' \<longleftrightarrow> mn_inv E m' \<and> mset (mn_ids m') = ids \<and>
     map ws_id (mn_workspaces m') = map ws_id (mn_workspaces m) \<and> mn_output m' = mn_output m \<and>
     mn_setting m' = mn_setting m \<and> mn_options m' = mn_options m"

lemma at_kept:
  assumes inv: "mn_inv E m" and k: "k < length (mn_workspaces m)" and w: "ws_inv E w" "ws_rest w = ws_rest (mn_workspaces m ! k)"
    and ids: "mset (mn_ids (m\<lparr>mn_workspaces := (mn_workspaces m)[k := w]\<rparr>)) = ids"
    and d: "distinct (mn_ids (m\<lparr>mn_workspaces := (mn_workspaces m)[k := w]\<rparr>))"
  shows "mn_kept E ids m (m\<lparr>mn_workspaces := (mn_workspaces m)[k := w]\<rparr>)"
proof -
  let ?m = "m\<lparr>mn_workspaces := (mn_workspaces m)[k := w]\<rparr>"
  note i = mn_invD[OF inv]
  from d have "wss_ok E m (mn_workspaces ?m)" using wss_ok_at[OF i(1) k w] by (simp add: mn_ids_def)
  then have "wss_ok E ?m (mn_workspaces ?m)" using wss_ok_setting[of ?m m] by simp
  moreover have "ws_id w = ws_id (mn_workspaces m ! k)" using w(2) by (simp add: ws_rest_def)
  then have "map ws_id ((mn_workspaces m)[k := w]) = map ws_id (mn_workspaces m)"
    using k by (simp add: map_update list_update_same_conv)
  ultimately show ?thesis using i(2,3) ids by (simp add: mn_kept_def mn_inv_def mn_switch_ok_def)
qed

lemma kept_refl: "mn_inv E m \<Longrightarrow> mn_kept E (mset (mn_ids m)) m m"
  by (simp add: mn_kept_def)

lemma kept_inv: "mn_kept E ids m m' \<Longrightarrow> mn_inv E m'"
  by (simp add: mn_kept_def)

lemma kept_trans: "mn_kept E a m m1 \<Longrightarrow> mn_kept E b m1 m2 \<Longrightarrow> mn_kept E b m m2"
  by (simp add: mn_kept_def)

text \<open>The three things a command does to the windows of a workspace.\<close>

lemma at_same:
  assumes inv: "mn_inv E m" and k: "k < length (mn_workspaces m)"
    and w: "ws_same E (mn_workspaces m ! k) w" "ws_rest w = ws_rest (mn_workspaces m ! k)"
  shows "mn_kept E (mset (mn_ids m)) m (m\<lparr>mn_workspaces := (mn_workspaces m)[k := w]\<rparr>)"
proof -
  have "mset (mn_ids (m\<lparr>mn_workspaces := (mn_workspaces m)[k := w]\<rparr>)) = mset (mn_ids m)"
    using ids_at[OF k, of w] w(1) by (simp add: ws_same_def)
  with at_kept[OF inv k same_inv[OF w(1)] w(2) this] mn_invD(5)[OF inv] mset_eq_imp_distinct_iff[OF this] show ?thesis
    by blast
qed

lemma at_added:
  assumes inv: "mn_inv E m" and k: "k < length (mn_workspaces m)" and new: "i \<notin> set (mn_ids m)"
    and w: "ws_added E i (mn_workspaces m ! k) w" "ws_rest w = ws_rest (mn_workspaces m ! k)"
  shows "mn_kept E (add_mset i (mset (mn_ids m))) m (m\<lparr>mn_workspaces := (mn_workspaces m)[k := w]\<rparr>)"
proof -
  have ids: "mset (mn_ids (m\<lparr>mn_workspaces := (mn_workspaces m)[k := w]\<rparr>)) = add_mset i (mset (mn_ids m))"
    using ids_at[OF k, of w] w(1) by (simp add: ws_added_def)
  from distinct_added[OF ids new mn_invD(5)[OF inv]] at_kept[OF inv k _ w(2) ids] w(1) show ?thesis
    by (simp add: ws_added_def)
qed

lemma at_removed:
  assumes inv: "mn_inv E m" and k: "k < length (mn_workspaces m)"
    and w: "ws_removed E i (mn_workspaces m ! k) w" "ws_rest w = ws_rest (mn_workspaces m ! k)"
    and m': "m' = m\<lparr>mn_workspaces := (mn_workspaces m)[k := w]\<rparr>"
  shows "mn_kept E (mset (mn_ids m) - {#i#}) m m'" "mset (mn_ids m) = add_mset i (mset (mn_ids m'))" "i \<notin> set (mn_ids m')"
proof -
  show ids: "mset (mn_ids m) = add_mset i (mset (mn_ids m'))"
    using ids_at[OF k, of w] w(1) by (simp add: ws_removed_def m')
  from distinct_removed[OF this mn_invD(5)[OF inv]] have d: "distinct (mn_ids m')" "i \<notin> set (mn_ids m')" by simp_all
  then show "i \<notin> set (mn_ids m')" by simp
  have "mset (mn_ids m') = mset (mn_ids m) - {#i#}" using ids by simp
  from at_kept[OF inv k _ w(2) this[unfolded m']] d w(1)
  show "mn_kept E (mset (mn_ids m) - {#i#}) m m'" by (simp add: ws_removed_def m')
qed

end
