(* ===== verification/MonitorSwitch.thy ===== *)
theory MonitorSwitch
  imports MonitorInv
begin

text \<open>
  Changing the active workspace, adding windows to a monitor and taking them from one of its workspaces to
  another, with the default layout setting \<open>empty_workspace_above_first = false\<close>.
\<close>

section \<open>Switching\<close>

lemma anim_new_to: "anim_new E fr to v cfg = Some a \<Longrightarrow> goes_to to a"
  by (auto simp: goes_to_def anim_new_def anim_replace_config_def anim_spring_def anim_ease_def Let_def bind_eq_Some_conv
      split: if_splits cfg_kind.splits)

lemma refocused:
  assumes "mn_inv E m" "k < length (mn_workspaces m)" "\<And>x. s = Some x \<Longrightarrow> switch_ok (length (mn_workspaces m)) x"
  shows "mn_kept E (mset (mn_ids m)) m
    (m\<lparr>mn_previous_workspace_id := p, mn_active_workspace_idx := k, mn_workspace_switch := s\<rparr>)"
proof -
  let ?m = "m\<lparr>mn_previous_workspace_id := p, mn_active_workspace_idx := k, mn_workspace_switch := s\<rparr>"
  have "wss_ok E ?m (mn_workspaces m)" using wss_ok_setting[of ?m m] mn_invD(1)[OF assms(1)] by simp
  with assms mn_invD(3)[OF assms(1)] show ?thesis
    by (simp add: mn_kept_def mn_inv_def mn_switch_ok_def mn_ids_def)
qed

text \<open>What activating a workspace changes.\<close>

definition mn_focused :: "nat \<Rightarrow> monitor \<Rightarrow> monitor \<Rightarrow> bool" where
  "mn_focused k m m' \<longleftrightarrow> (\<exists>p s. m' = m\<lparr>mn_previous_workspace_id := p, mn_active_workspace_idx := k, mn_workspace_switch := s\<rparr> \<and>
     p = (if mn_active_workspace_idx m = k then mn_previous_workspace_id m
          else Some (ws_id (mn_workspaces m ! mn_active_workspace_idx m))))"

lemma focused_same:
  "mn_focused k m m' \<Longrightarrow> mn_active_workspace_idx m' = k \<and> mn_workspaces m' = mn_workspaces m \<and>
     mn_options m' = mn_options m \<and> mn_setting m' = mn_setting m \<and> mn_output m' = mn_output m \<and>
     mn_previous_workspace_id m' = (if mn_active_workspace_idx m = k then mn_previous_workspace_id m
          else Some (ws_id (mn_workspaces m ! mn_active_workspace_idx m)))"
  by (auto simp: mn_focused_def)

lemma dnd_gesture_switch:
  "mn_dnd_gesture m = Some g \<longleftrightarrow> mn_workspace_switch m = Some (SwitchGesture g) \<and> wg_dnd_last_event_time g \<noteq> None"
  by (auto simp: mn_dnd_gesture_def split: option.splits workspace_switch.splits)

lemma activate_cases:
  assumes "mn_activate_workspace_with_anim_config E idx c m = Some m'"
  shows "mn_focused idx m m' \<and> (mn_active_workspace_idx m = idx \<longrightarrow> mn_dnd_gesture m = None \<longrightarrow>
      mn_workspace_switch m' = mn_workspace_switch m) \<and>
    (\<forall>x. mn_workspace_switch m' = Some x \<longrightarrow> mn_active_workspace_idx m = idx \<and> mn_workspace_switch m = Some x \<or>
      (case x of SwitchAnimation a \<Rightarrow> goes_to (real idx) a | SwitchGesture g \<Rightarrow> wg_center_idx g = idx)) \<and>
    (mn_active_workspace_idx m < length (mn_workspaces m) \<or> mn_active_workspace_idx m = idx)"
proof -
  define cfg where "cfg = (case c of Some c \<Rightarrow> c | None \<Rightarrow> ao_workspace_switch (op_animations (mp_shared (mn_options m))))"
  define cur where "cur = mn_workspace_render_idx E m"
  obtain p where p: "(if mn_active_workspace_idx m \<noteq> idx
          then map_option (\<lambda>w. m\<lparr>mn_previous_workspace_id := Some (ws_id w)\<rparr>) (mn_active_workspace m) else Some m) =
        Some (m\<lparr>mn_previous_workspace_id := p\<rparr>)"
      "p = (if mn_active_workspace_idx m = idx then mn_previous_workspace_id m
          else Some (ws_id (mn_workspaces m ! mn_active_workspace_idx m)))"
      "mn_active_workspace_idx m < length (mn_workspaces m) \<or> mn_active_workspace_idx m = idx"
    using assms that[of "mn_previous_workspace_id m"] that[of "Some (ws_id (mn_workspaces m ! mn_active_workspace_idx m))"]
    by (auto simp: mn_activate_workspace_with_anim_config_def Let_def bind_eq_Some_conv mn_active_workspace_def vec_simps
        split: if_splits)
  define m1 where "m1 = m\<lparr>mn_previous_workspace_id := p, mn_active_workspace_idx := idx\<rparr>"
  have m1: "mn_workspace_switch m1 = mn_workspace_switch m" by (simp add: m1_def)
  have ex: "(case mn_workspace_switch m of
       Some (SwitchGesture g) \<Rightarrow>
         if wg_dnd_last_event_time g \<noteq> None then
           gesture_animate_from E (- (real idx - wg_current_idx g)) cfg
             (g\<lparr>wg_center_idx := idx, wg_start_idx := real idx - (wg_current_idx g - wg_start_idx g), wg_current_idx := real idx\<rparr>)
           \<bind> (\<lambda>g. Some (m1\<lparr>mn_workspace_switch := Some (SwitchGesture g)\<rparr>))
         else (if mn_active_workspace_idx m = idx then Some m1
           else map_option (\<lambda>a. m1\<lparr>mn_workspace_switch := Some (SwitchAnimation a)\<rparr>) (anim_new E cur (real idx) 0 cfg))
     | _ \<Rightarrow> (if mn_active_workspace_idx m = idx then Some m1
           else map_option (\<lambda>a. m1\<lparr>mn_workspace_switch := Some (SwitchAnimation a)\<rparr>) (anim_new E cur (real idx) 0 cfg))) = Some m'"
    using assms unfolding mn_activate_workspace_with_anim_config_def Let_def p(1) cfg_def[symmetric] cur_def[symmetric]
    by (simp add: m1_def cfg_def cong: option.case_cong workspace_switch.case_cong if_cong)
  have f: "mn_focused idx m (m1\<lparr>mn_workspace_switch := s\<rparr>)" for s
    unfolding mn_focused_def m1_def by (intro exI[of _ p] exI[of _ s]) (simp add: p(2))
  have f0: "mn_focused idx m m1" using f[of "mn_workspace_switch m"] by (simp add: m1_def)
  have g: "gesture_animate_from E x cfg g = Some g' \<Longrightarrow> wg_center_idx g' = wg_center_idx g" for x g g'
    by (auto simp: gesture_animate_from_def Let_def bind_eq_Some_conv)
  consider (gesture) g g' where "mn_workspace_switch m = Some (SwitchGesture g)" "wg_dnd_last_event_time g \<noteq> None"
      "m' = m1\<lparr>mn_workspace_switch := Some (SwitchGesture g')\<rparr>" "wg_center_idx g' = idx"
    | (same) "mn_active_workspace_idx m = idx" "m' = m1"
    | (anim) a where "mn_active_workspace_idx m \<noteq> idx" "m' = m1\<lparr>mn_workspace_switch := Some (SwitchAnimation a)\<rparr>" "goes_to (real idx) a"
    using ex by (auto simp: bind_eq_Some_conv split: option.splits workspace_switch.splits if_splits dest: anim_new_to g)
  then show ?thesis
  proof cases
    case (gesture g g')
    with f p(3) show ?thesis by (auto simp: mn_dnd_gesture_def)
  next
    case same
    with f0 m1 p(3) show ?thesis by simp
  next
    case (anim a)
    with f p(3) show ?thesis by simp
  qed
qed

lemma activate_kept:
  assumes inv: "mn_inv E m" and k: "idx < length (mn_workspaces m)"
    and ex: "mn_activate_workspace_with_anim_config E' idx c m = Some m'"
  shows "mn_kept E (mset (mn_ids m)) m m'" "mn_focused idx m m'"
proof -
  note a = activate_cases[OF ex]
  show "mn_focused idx m m'" using a by blast
  then obtain p s where m': "m' = m\<lparr>mn_previous_workspace_id := p, mn_active_workspace_idx := idx, mn_workspace_switch := s\<rparr>"
    by (auto simp: mn_focused_def)
  have "switch_ok (length (mn_workspaces m)) x" if "s = Some x" for x
    using a that k mn_invD(2)[OF inv]
    by (auto simp: m' switch_ok_def mn_switch_ok_def split: workspace_switch.splits)
  from refocused[OF inv k this] show "mn_kept E (mset (mn_ids m)) m m'" by (simp add: m')
qed

lemma last_or_Some: "mn_last_or idx m = Some k \<longleftrightarrow> mn_workspaces m \<noteq> [] \<and> k = min idx (length (mn_workspaces m) - 1)"
  by (auto simp: mn_last_or_def)

lemma last_or_less: "mn_last_or idx m = Some k \<Longrightarrow> k < length (mn_workspaces m)"
proof -
  assume "mn_last_or idx m = Some k"
  then have "0 < length (mn_workspaces m)" "k \<le> length (mn_workspaces m) - 1" by (auto simp: last_or_Some)
  then show ?thesis by linarith
qed

lemma clamped_idx: "nat (f_trunc (f_clamp x 0 (real n))) \<le> n"
proof -
  have "0 \<le> f_clamp x 0 (real n)" "f_clamp x 0 (real n) \<le> real n" using f_clamp_bounds[of 0 "real n" x] by auto
  then show ?thesis by (simp add: f_trunc_def) linarith
qed

text \<open>Every way to switch ends on a workspace of the monitor.\<close>

lemma switch_kept:
  assumes inv: "mn_inv E m"
  shows "mn_switch_workspace E' idx m = Some m' \<Longrightarrow> \<exists>k<length (mn_workspaces m). mn_focused k m m' \<and> mn_kept E (mset (mn_ids m)) m m'"
    and "mn_switch_workspace_up E' m = Some m' \<Longrightarrow> \<exists>k<length (mn_workspaces m). mn_focused k m m' \<and> mn_kept E (mset (mn_ids m)) m m'"
    and "mn_switch_workspace_down E' m = Some m' \<Longrightarrow> \<exists>k<length (mn_workspaces m). mn_focused k m m' \<and> mn_kept E (mset (mn_ids m)) m m'"
    and "mn_switch_workspace_previous E' m = Some m' \<Longrightarrow> mn_kept E (mset (mn_ids m)) m m'"
    and "mn_switch_workspace_auto_back_and_forth E' idx m = Some m' \<Longrightarrow> mn_kept E (mset (mn_ids m)) m m'"
proof -
  note act = activate_kept[OF inv, where c = None]
  note l = mn_invD(4)[OF inv]
  show sw: "mn_switch_workspace E' idx m = Some m' \<Longrightarrow> \<exists>k<length (mn_workspaces m). mn_focused k m m' \<and> mn_kept E (mset (mn_ids m)) m m'" for idx
  proof -
    assume "mn_switch_workspace E' idx m = Some m'"
    then obtain k where "k < length (mn_workspaces m)" "mn_activate_workspace E' k m = Some m'"
      by (auto simp: mn_switch_workspace_def bind_eq_Some_conv dest: last_or_less)
    with act show ?thesis unfolding mn_activate_workspace_def by blast
  qed
  have c: "nat (f_trunc (f_clamp x 0 (real k))) < length (mn_workspaces m)" if "mn_last_or n m = Some k" for x k n
    using clamped_idx[of x k] last_or_less[OF that] by linarith
  show "mn_switch_workspace_up E' m = Some m' \<Longrightarrow> \<exists>k<length (mn_workspaces m). mn_focused k m m' \<and> mn_kept E (mset (mn_ids m)) m m'"
  proof -
    assume "mn_switch_workspace_up E' m = Some m'"
    then obtain k where "k < length (mn_workspaces m)" "mn_activate_workspace E' k m = Some m'"
      using less_imp_diff_less[OF l, of 1] by (auto simp: mn_switch_workspace_up_def bind_eq_Some_conv split: option.splits dest: c)
    with act show ?thesis unfolding mn_activate_workspace_def by blast
  qed
  show "mn_switch_workspace_down E' m = Some m' \<Longrightarrow> \<exists>k<length (mn_workspaces m). mn_focused k m m' \<and> mn_kept E (mset (mn_ids m)) m m'"
  proof -
    assume "mn_switch_workspace_down E' m = Some m'"
    then obtain k where "k < length (mn_workspaces m)" "mn_activate_workspace E' k m = Some m'"
      by (auto simp: mn_switch_workspace_down_def bind_eq_Some_conv split: option.splits dest: c last_or_less)
    with act show ?thesis unfolding mn_activate_workspace_def by blast
  qed
  show p: "mn_switch_workspace_previous E' m = Some m' \<Longrightarrow> mn_kept E (mset (mn_ids m)) m m'"
    using sw kept_refl[OF inv] by (auto simp: mn_switch_workspace_previous_def split: option.splits)
  show "mn_switch_workspace_auto_back_and_forth E' idx m = Some m' \<Longrightarrow> mn_kept E (mset (mn_ids m)) m m'"
    using sw p by (auto simp: mn_switch_workspace_auto_back_and_forth_def bind_eq_Some_conv split: if_splits)
qed

section \<open>Adding a window\<close>

lemma activate_if:
  assumes kept: "mn_kept E ids m m1" and k: "k < length (mn_workspaces m1)"
    and ex: "(if b then mn_activate_workspace E' k m1 else Some m1) = Some m'"
  shows "mn_kept E ids m m' \<and> mn_workspaces m' = mn_workspaces m1 \<and>
    mn_active_workspace_idx m' = (if b then k else mn_active_workspace_idx m1)"
proof (cases b)
  case True
  with ex have "mn_activate_workspace_with_anim_config E' k None m1 = Some m'" by (simp add: mn_activate_workspace_def)
  note a = activate_kept[OF kept_inv[OF kept] k this]
  from kept_trans[OF kept a(1)] kept focused_same[OF a(2)] True show ?thesis by (simp add: mn_kept_def)
qed (use kept ex in simp)

text \<open>With \<open>empty-workspace-above-first\<close> on, the operations count with a workspace that is not added at the top: they
  go to the workspace after the first one, which has to be there.\<close>

definition mn_made :: "nat \<Rightarrow> monitor \<Rightarrow> nat" where
  "mn_made k m = (if mp_above_first (mn_options m) \<and> k = 0 then 1 else k)"

definition mn_roomy :: "monitor \<Rightarrow> bool" where
  "mn_roomy m \<longleftrightarrow> (mp_above_first (mn_options m) \<longrightarrow> 1 < length (mn_workspaces m))"

lemma make_room: "mn_make_room k m = (m, mn_made k m)"
  by (simp add: mn_make_room_def mn_made_def Let_def mn_add_workspace_top_def mn_add_workspace_bottom_def)

lemma made_less: "mn_roomy m \<Longrightarrow> k < length (mn_workspaces m) \<Longrightarrow> mn_made k m < length (mn_workspaces m)"
  by (auto simp: mn_made_def mn_roomy_def)

lemma made_off: "\<not> mp_above_first (mn_options m) \<Longrightarrow> mn_made k m = k" "\<not> mp_above_first (mn_options m) \<Longrightarrow> mn_roomy m"
  by (simp_all add: mn_made_def mn_roomy_def)

lemma made_upd [simp]: "mn_made k (m\<lparr>mn_workspaces := wss\<rparr>) = mn_made k m"
  by (simp add: mn_made_def)

lemma no_room: "\<not> mp_above_first (mn_options m) \<Longrightarrow> mn_make_room k m = (m, k)"
  by (simp add: mn_make_room_def mn_add_workspace_bottom_def)

lemma own_upd: "ws_ids (mn_own m w) = ws_ids w" "ws_tiles (mn_own m w) = ws_tiles w" "ws_rest (mn_own m w) = ws_rest w"
  "ws_inv E (mn_own m w) = ws_inv E w" "ws_active_id (mn_own m w) = ws_active_id w"
  by (simp_all add: mn_own_def ws_ids_def ws_tiles_def ws_inv_def fa_ok_def ws_config_ok_def ws_active_id_def
      ws_active_window_def)

lemma own_added: "ws_added E i w w' \<Longrightarrow> ws_added E i w (mn_own m w')"
  by (simp add: ws_added_def own_upd)

lemma at_Some: "mn_at k f m = Some m' \<longleftrightarrow> (\<exists>w. k < length (mn_workspaces m) \<and> f (mn_workspaces m ! k) = Some w \<and>
    m' = m\<lparr>mn_workspaces := (mn_workspaces m)[k := w]\<rparr>)"
  by (auto simp: mn_at_def bind_eq_Some_conv vec_simps)

lemma has_window_ids: "ws_has_window i w \<longleftrightarrow> i \<in> set (ws_ids w)"
  by (auto simp: ws_has_window_def ws_windows_def ws_tiles_ids[symmetric] list_ex_iff)

lemma resolve_less:
  assumes "mn_inv E m" "mn_resolve_add_window_target target m = Some (k, tgt)"
  shows "k < length (mn_workspaces m)" "\<And>i. tgt = AddNextTo i \<Longrightarrow> i \<in> set (ws_ids (mn_workspaces m ! k))"
  using assms(2) mn_invD(4)[OF assms(1)]
  by (auto simp: mn_resolve_add_window_target_def bind_eq_Some_conv has_window_ids split: monitor_target.splits option.splits
      dest!: position_Some)

lemma add_tile_outcome:
  assumes inv: "mn_inv E m" and room: "mn_roomy m"
    and r: "mn_resolve_add_window_target target m = Some (k, tgt)"
    and new: "tile_id t \<notin> set (mn_ids m)" and ac: "parents_acyclic (t # ws_tiles (mn_workspaces m ! k))"
    and ex: "mn_add_tile E t target act allow width full fl m = Some m'"
  obtains w' where "mn_workspaces m' = (mn_workspaces m)[k := w']" "ws_added E (tile_id t) (mn_workspaces m ! k) w'"
    "mn_kept E (add_mset (tile_id t) (mset (mn_ids m))) m m'"
    "mn_active_workspace_idx m' = (if allow \<and> act = ActYes then mn_made k m else mn_active_workspace_idx m)"
    "ws_active_id w' = (if map_smart (smart_activates tgt (mn_workspaces m ! k)) act \<or> ws_ids (mn_workspaces m ! k) = []
       then Some (tile_id t) else ws_active_id (mn_workspaces m ! k))"
proof -
  let ?w = "mn_workspaces m ! k"
  note k = resolve_less[OF inv r]
  note wi = mn_invD(6)[OF inv k(1)]
  have n: "tile_id t \<notin> set (ws_ids ?w)" using new k(1) by (auto simp: mn_ids_def)
  have "ws_active_id ?w \<noteq> None" if "tgt = AddNextTo i" for i
    using k(2)[OF that] ws_active_some(1)[OF wi] by auto
  then have put: "ws_add_tile E t tgt act width full fl ?w =
      ws_put E (tgt, width, full, fl) t (map_smart (smart_activates tgt ?w) act) ?w"
    by (intro add_tile_put) auto
  have fit: "ws_fits (tgt, width, full, fl) t ?w" using ac k(2) by (auto simp: ws_fits_def split: add_target.split)
  have "mn_at k (\<lambda>w. map_option (mn_own m) (ws_add_tile E t tgt act width full fl w)) m \<bind>
      (\<lambda>m1. if allow \<and> map_smart False act then mn_activate_workspace E (mn_made k m1) m1 else Some m1) = Some m'"
    using ex r by (simp add: mn_add_tile_def make_room)
  moreover have "map_smart False act \<longleftrightarrow> act = ActYes" by (cases act) simp_all
  ultimately obtain w m1 where w: "ws_add_tile E t tgt act width full fl ?w = Some w"
    and m1: "m1 = m\<lparr>mn_workspaces := (mn_workspaces m)[k := mn_own m w]\<rparr>"
      "(if allow \<and> act = ActYes then mn_activate_workspace E (mn_made k m) m1 else Some m1) = Some m'"
    by (auto simp: bind_eq_Some_conv at_Some simp del: map_smart.simps cong: if_cong)
  note l = workspace.added[OF wi n fit w[unfolded put]]
  have ad: "ws_added E (tile_id t) ?w (mn_own m w)" using l by (intro own_added) (simp add: ws_added_def)
  note kept = at_added[OF inv k(1) new ad, unfolded own_upd, OF rest_adds(5)[OF w], folded m1(1)]
  have "mn_made k m < length (mn_workspaces m1)" using made_less[OF room k(1)] m1(1) by simp
  note same = activate_if[OF kept this m1(2)]
  show thesis
    by (rule that[of "mn_own m w"]) (use same ad l(4) m1(1) in \<open>auto simp: own_upd\<close>)
qed

lemma add_column_kept:
  assumes inv: "mn_inv E m" and room: "mn_roomy m"
    and new: "column_id c \<notin> set (mn_ids m)" and nb: "not_both c" and ex: "mn_add_column E k c a m = Some m'"
  shows "mn_kept E (add_mset (column_id c) (mset (mn_ids m))) m m' \<and>
    mn_active_workspace_idx m' = (if a then mn_made k m else mn_active_workspace_idx m) \<and> k < length (mn_workspaces m)"
proof -
  have "mn_at k (\<lambda>w. Some (mn_own m (ws_add_column E c a w))) m \<bind>
      (\<lambda>m1. if a then mn_activate_workspace E (mn_made k m1) m1 else Some m1) = Some m'"
    using ex by (simp add: mn_add_column_def make_room)
  then obtain m1 where m1: "k < length (mn_workspaces m)"
      "m1 = m\<lparr>mn_workspaces := (mn_workspaces m)[k := mn_own m (ws_add_column E c a (mn_workspaces m ! k))]\<rparr>"
      "(if a then mn_activate_workspace E (mn_made k m) m1 else Some m1) = Some m'"
    by (auto simp: bind_eq_Some_conv at_Some cong: if_cong)
  let ?w = "mn_workspaces m ! k"
  have "column_id c \<notin> set (ws_ids ?w)" using new m1(1) by (auto simp: mn_ids_def)
  then have ad: "ws_added E (column_id c) ?w (mn_own m (ws_add_column E c a ?w))"
    by (intro own_added add_column_added mn_invD(6)[OF inv m1(1)] nb)
  note kept = at_added[OF inv m1(1) new ad, unfolded own_upd, OF rest_adds(2), folded m1(2)]
  have "mn_made k m < length (mn_workspaces m1)" using made_less[OF room m1(1)] m1(2) by simp
  from activate_if[OF kept this m1(3)] m1(1,2) show ?thesis by simp
qed

lemma add_to_column_kept:
  assumes inv: "mn_inv E m" and new: "tile_id t \<notin> set (mn_ids m)" and ex: "mn_add_tile_to_column E k t a allow m = Some m'"
  shows "mn_kept E (add_mset (tile_id t) (mset (mn_ids m))) m m'"
proof -
  obtain m1 where m1: "k < length (mn_workspaces m)"
      "m1 = m\<lparr>mn_workspaces := (mn_workspaces m)[k := mn_own m (ws_add_tile_to_column E t a (mn_workspaces m ! k))]\<rparr>"
      "(if allow \<and> a then mn_activate_workspace E k m1 else Some m1) = Some m'"
    using ex by (auto simp: mn_add_tile_to_column_def bind_eq_Some_conv at_Some split: if_splits)
  let ?w = "mn_workspaces m ! k"
  have "tile_id t \<notin> set (ws_ids ?w)" using new m1(1) by (auto simp: mn_ids_def)
  then have ad: "ws_added E (tile_id t) ?w (mn_own m (ws_add_tile_to_column E t a ?w))"
    by (intro own_added add_to_column_added mn_invD(6)[OF inv m1(1)])
  note kept = at_added[OF inv m1(1) new ad, unfolded own_upd, OF rest_adds(3), folded m1(2)]
  have "k < length (mn_workspaces m1)" using m1(1,2) by simp
  from activate_if[OF kept this m1(3)] show ?thesis by simp
qed

end
