(* ===== verification/MonitorTransfers.thy ===== *)
theory MonitorTransfers
  imports MonitorSwitch
begin

text \<open>
  Windows and columns that go from one workspace of a monitor to another: none is lost or duplicated, the
  workspaces stay in their places.
\<close>

section \<open>What leaves a workspace\<close>

lemma remove_active_is_remove:
  assumes inv: "ws_inv E w" and ex: "ws_remove_active_tile E w = Some (Some r, w')"
  shows "\<exists>i. ws_active_id w = Some i \<and> ws_remove_tile E i w = Some (r, w')"
proof -
  note i = ws_invD[OF inv]
  show ?thesis
  proof (cases "ws_floating_is_active w = FloatYes")
    case True
    then obtain j f where f: "fs_active_window_id (ws_floating w) = Some j" "fs_remove_tile E j (ws_floating w) = Some (r, f)"
        "w' = ws_update_focus_after_removing True (w\<lparr>ws_floating := f\<rparr>)"
      using ex by (auto simp: ws_remove_active_tile_def fa_get_def fs_remove_active_tile_def bind_eq_Some_conv
          split: option.splits)
    then have "j \<in> set (fs_ids (ws_floating w))" using floating.active_some[OF i(2)] by blast
    with f True show ?thesis by (simp add: ws_active_id_eq[OF inv] ws_remove_tile_def fs_has_ids)
  next
    case False
    then obtain c s where s: "focused_column (ws_scrolling w) = Some c"
        "ss_remove_tile E (column_id c) (ws_scrolling w) = Some (r, s)"
        "w' = ws_update_focus_after_removing False (w\<lparr>ws_scrolling := s\<rparr>)"
      using ex by (auto simp: ws_remove_active_tile_def fa_get_def ss_remove_active_tile_def bind_eq_Some_conv
          split: option.splits)
    have a: "ws_active_id w = Some (column_id c)"
      using s(1) False by (simp add: ws_active_id_eq[OF inv] ss_active_id_def ss_active_window_def)
    then have "column_id c \<in> set (ss_ids (ws_scrolling w))"
      using tiling.active_some[OF i(1)] False by (simp add: ws_active_id_eq[OF inv])
    then have "\<not> fs_has_window (column_id c) (ws_floating w)" using i(3) by (auto simp: fs_has_ids)
    with a s show ?thesis by (simp add: ws_remove_tile_def)
  qed
qed

lemma removed_not_both:
  assumes inv: "ws_inv E w" and ex: "ws_remove_active_column E w = Some (Some c, w')"
  shows "not_both c"
proof -
  obtain k s where "take_column_at E k (ws_scrolling w) = Some (c, s)"
    using ex by (auto simp: ws_remove_active_column_def ss_remove_active_column_def bind_eq_Some_conv
        split: if_splits option.splits focus.splits)
  from take_column_abs[OF ws_invD(1)[OF inv] this] inv_not_both[OF ws_invD(1)[OF inv]] show ?thesis
    by (simp add: list_all_iff)
qed

section \<open>From one workspace to another\<close>

lemma acyclic_dest:
  assumes "mn_acyclic m" "tkey t \<in> tkey ` set (ws_tiles (mn_workspaces m ! s))"
    and "s < length (mn_workspaces m)" "d < length (mn_workspaces m)"
  shows "parents_acyclic (t # ws_tiles (mn_workspaces m ! d))"
proof -
  have "set (ws_tiles (mn_workspaces m ! k)) \<subseteq> set (mn_tiles m)" if "k < length (mn_workspaces m)" for k
    using nth_mem[OF that] by (fastforce simp: mn_tiles_def)
  with assms show ?thesis
    by (intro acyclic_subset[OF assms(1)[unfolded mn_acyclic_def]]) (auto; blast)
qed

lemma position_id:
  assumes "distinct (map ws_id wss)" "d < length wss"
  shows "position (\<lambda>w. ws_id w = ws_id (wss ! d)) wss = Some d"
  using assms by (rule position_nth_distinct)

lemma same_list: "k < length (mn_workspaces m) \<Longrightarrow> m\<lparr>mn_workspaces := (mn_workspaces m)[k := mn_workspaces m ! k]\<rparr> = m"
  by simp

text \<open>A window taken from the workspace at \<open>s\<close> and added to the one at \<open>d\<close>.\<close>

lemma move_tile_outcome:
  assumes inv: "mn_inv E m" and room: "mn_roomy m" and ac: "mn_acyclic m"
    and idx: "s < length (mn_workspaces m)" "d < length (mn_workspaces m)" "s \<noteq> d"
    and rem: "ws_remove_tile E i (mn_workspaces m ! s) = Some (r, w)"
    and ex: "mn_add_removed E (ws_id (mn_workspaces m ! d)) act r (m\<lparr>mn_workspaces := (mn_workspaces m)[s := w]\<rparr>) = Some m'"
  shows "mn_kept E (mset (mn_ids m)) m m' \<and>
    mn_active_workspace_idx m' = (if act = ActYes then mn_made d m else mn_active_workspace_idx m) \<and>
    (act = ActYes \<longrightarrow> ws_active_id (mn_workspaces m' ! d) = Some i) \<and> i \<in> set (ws_ids (mn_workspaces m' ! d)) \<and>
    (\<exists>w'. mn_workspaces m' = (mn_workspaces m)[s := w, d := w'] \<and> ws_added E i (mn_workspaces m ! d) w')"
proof -
  define m1 where "m1 = m\<lparr>mn_workspaces := (mn_workspaces m)[s := w]\<rparr>"
  note wi = mn_invD(6)[OF inv idx(1)]
  note rm = remove_tile_removed[OF wi rem]
  then have rm: "ws_removed E i (mn_workspaces m ! s) w" "tile_id (rt_tile r) = i" by simp_all
  note k1 = at_removed[OF inv idx(1) rm(1) rest_removes(1)[OF rem] m1_def]
  note inv1 = kept_inv[OF k1(1)]
  have d1: "mn_workspaces m1 ! d = mn_workspaces m ! d" "d < length (mn_workspaces m1)" using idx by (simp_all add: m1_def)
  have ids1: "distinct (map ws_id (mn_workspaces m1))" using mn_invD(1)[OF inv1] by (simp add: wss_ok_def)
  have res: "mn_resolve_add_window_target (MonitorWorkspace (ws_id (mn_workspaces m ! d)) None) m1 = Some (d, AddAuto)"
    using position_id[OF ids1 d1(2)] d1(1) by (simp add: mn_resolve_add_window_target_def)
  have room1: "mn_roomy m1" using room by (simp add: m1_def mn_roomy_def)
  have new: "tile_id (rt_tile r) \<notin> set (mn_ids m1)" using k1(3) rm(2) by simp
  have ac1: "parents_acyclic (rt_tile r # ws_tiles (mn_workspaces m1 ! d))"
    using acyclic_dest[OF ac removed_key[OF wi rem] idx(1,2)] d1(1) by simp
  obtain w' where w': "mn_workspaces m' = (mn_workspaces m1)[d := w']"
      "ws_added E (tile_id (rt_tile r)) (mn_workspaces m1 ! d) w'"
      "mn_kept E (add_mset (tile_id (rt_tile r)) (mset (mn_ids m1))) m1 m'"
      "mn_active_workspace_idx m' = (if True \<and> act = ActYes then mn_made d m1 else mn_active_workspace_idx m1)"
      "ws_active_id w' = (if map_smart (smart_activates AddAuto (mn_workspaces m1 ! d)) act \<or> ws_ids (mn_workspaces m1 ! d) = []
         then Some (tile_id (rt_tile r)) else ws_active_id (mn_workspaces m1 ! d))"
    by (rule add_tile_outcome[OF inv1 room1 res new ac1 ex[unfolded mn_add_removed_def, folded m1_def]])
  note w' = w'[unfolded rm(2)]
  have "i \<in> set (ws_ids w')" using w'(2) unfolding ws_added_def by (metis set_mset_mset union_single_eq_member)
  moreover have "mn_kept E (mset (mn_ids m)) m m'" using kept_trans[OF k1(1) w'(3)] k1(2) by simp
  moreover have "mn_workspaces m' ! d = w'" using w'(1) d1(2) by simp
  moreover have "act = ActYes \<longrightarrow> ws_active_id w' = Some i" using w'(5) by simp
  moreover have "mn_active_workspace_idx m' = (if act = ActYes then mn_made d m else mn_active_workspace_idx m)"
    using w'(4) by (simp add: m1_def)
  moreover have "mn_workspaces m' = (mn_workspaces m)[s := w, d := w']" using w'(1) by (simp add: m1_def)
  moreover have "ws_added E i (mn_workspaces m ! d) w'" using w'(2) d1(1) by simp
  ultimately show ?thesis by blast
qed

lemma move_active_outcome:
  assumes inv: "mn_inv E m" and room: "mn_roomy m" and ac: "mn_acyclic m"
    and d: "d \<noteq> mn_active_workspace_idx m" and ex: "mn_move_active_to E d act m = Some m'"
  shows "mn_kept E (mset (mn_ids m)) m m'"
proof -
  note s = mn_invD(4)[OF inv]
  let ?s = "mn_active_workspace_idx m"
  obtain q w where w: "d < length (mn_workspaces m)" "ws_remove_active_tile E (mn_workspaces m ! ?s) = Some (q, w)"
      "(case q of None \<Rightarrow> Some (m\<lparr>mn_workspaces := (mn_workspaces m)[?s := w]\<rparr>)
        | Some r \<Rightarrow> mn_add_removed E (ws_id (mn_workspaces m ! d)) act r (m\<lparr>mn_workspaces := (mn_workspaces m)[?s := w]\<rparr>)) = Some m'"
    using ex by (auto simp: mn_move_active_to_def mn_active_workspace_def bind_eq_Some_conv vec_simps Let_def)
  show ?thesis
  proof (cases q)
    case None
    with remove_active_removed[OF mn_invD(6)[OF inv s] w(2)] w(3) kept_refl[OF inv] show ?thesis by simp
  next
    case (Some r)
    with w(2) obtain i where "ws_remove_tile E i (mn_workspaces m ! ?s) = Some (r, w)"
      using remove_active_is_remove[OF mn_invD(6)[OF inv s]] by blast
    from move_tile_outcome[OF inv room ac s w(1) d[symmetric] this] w(3) Some show ?thesis by simp
  qed
qed

lemma move_to_kept:
  assumes inv: "mn_inv E m" and room: "mn_roomy m" and ac: "mn_acyclic m"
  shows "mn_move_to_workspace_up E f m = Some m' \<Longrightarrow> mn_kept E (mset (mn_ids m)) m m'"
    and "mn_move_to_workspace_down E f m = Some m' \<Longrightarrow> mn_kept E (mset (mn_ids m)) m m'"
  using kept_refl[OF inv] move_active_outcome[OF inv room ac]
  by (auto simp: mn_move_to_workspace_up_def mn_move_to_workspace_down_def Let_def bind_eq_Some_conv split: if_splits)

lemma clean_up_id: "mn_clean_up_if_idle m = Some m' \<Longrightarrow> m' = m" "mn_clean_up_workspaces m = Some m' \<Longrightarrow> m' = m \<and> mn_workspace_switch m = None"
  by (auto simp: mn_clean_up_if_idle_def mn_clean_up_workspaces_def split: if_splits)

lemma move_to_workspace_outcome:
  assumes inv: "mn_inv E m" and room: "mn_roomy m" and ac: "mn_acyclic m"
    and ex: "mn_move_to_workspace E window idx act m = Some m'" and d_def: "d = min idx (length (mn_workspaces m) - 1)"
  shows "mn_kept E (mset (mn_ids m)) m m' \<and>
    (\<forall>i. window = Some i \<longrightarrow> i \<in> set (mn_ids m) \<and>
       (i \<notin> set (ws_ids (mn_workspaces m ! d)) \<longrightarrow> i \<in> set (ws_ids (mn_workspaces m' ! d)) \<and>
         (act = ActYes \<longrightarrow> mn_active_workspace_idx m' = mn_made d m \<and> ws_active_id (mn_workspaces m' ! d) = Some i)))"
proof -
  obtain s where s: "(case window of Some i \<Rightarrow> position (ws_has_window i) (mn_workspaces m)
        | None \<Rightarrow> Some (mn_active_workspace_idx m)) = Some s" "mn_last_or idx m = Some d"
    using ex by (auto simp: mn_move_to_workspace_def bind_eq_Some_conv last_or_Some d_def)
  have sl: "s < length (mn_workspaces m)" "\<And>i. window = Some i \<Longrightarrow> i \<in> set (ws_ids (mn_workspaces m ! s))"
    using s(1) mn_invD(4)[OF inv] by (auto simp: has_window_ids split: option.splits dest!: position_Some)
  note dl = last_or_less[OF s(2)]
  have seen: "\<And>i. window = Some i \<Longrightarrow> i \<in> set (mn_ids m)" using sl by (auto simp: mn_ids_def)
  show ?thesis
  proof (cases "d = s")
    case True
    with ex s have "m' = m" by (simp add: mn_move_to_workspace_def)
    with kept_refl[OF inv] seen sl(2) True show ?thesis by blast
  next
    case False
    then obtain a q w m1 where w: "act \<noteq> ActSmart \<Longrightarrow> a = (act = ActYes)"
        "(case window of Some i \<Rightarrow> map_option (\<lambda>(r, w). (Some r, w)) (ws_remove_tile E i (mn_workspaces m ! s))
          | None \<Rightarrow> ws_remove_active_tile E (mn_workspaces m ! s)) = Some (q, w)"
        "m1 = m\<lparr>mn_workspaces := (mn_workspaces m)[s := w]\<rparr>"
        "(case q of None \<Rightarrow> Some m1 | Some r \<Rightarrow>
           mn_add_removed E (ws_id (mn_workspaces m ! d)) (if a then ActYes else ActNo) r m1 \<bind> mn_clean_up_if_idle) = Some m'"
      using ex s dl sl(1) unfolding mn_move_to_workspace_def Let_def
      by (simp add: bind_eq_Some_conv vec_simps split del: if_split option.split) (cases act; auto)
    show ?thesis
    proof (cases q)
      case None
      with w(2) have wn: "window = None" "ws_remove_active_tile E (mn_workspaces m ! s) = Some (None, w)"
        by (auto split: option.splits)
      with remove_active_removed[OF mn_invD(6)[OF inv sl(1)] wn(2)] w(3,4) None kept_refl[OF inv] show ?thesis by simp
    next
      case (Some r)
      then obtain i where i: "ws_remove_tile E i (mn_workspaces m ! s) = Some (r, w)" "window = Some j \<Longrightarrow> i = j" for j
        using w(2) remove_active_is_remove[OF mn_invD(6)[OF inv sl(1)]] by (cases window) auto
      have "mn_add_removed E (ws_id (mn_workspaces m ! d)) (if a then ActYes else ActNo) r m1 = Some m'"
        using w(4) Some by (auto simp: bind_eq_Some_conv dest: clean_up_id)
      note o = move_tile_outcome[OF inv room ac sl(1) dl False[symmetric] i(1) this[unfolded w(3)]]
      have "mn_active_workspace_idx m' = mn_made d m \<and> ws_active_id (mn_workspaces m' ! d) = Some i" if "act = ActYes"
        using o w(1) that by simp
      with o i(2) seen show ?thesis by blast
    qed
  qed
qed

text \<open>The same for the active column.\<close>

lemma move_column_kept:
  assumes inv: "mn_inv E m" and room: "mn_roomy m"
    and fl: "\<And>m'. mf m = Some m' \<Longrightarrow> mn_kept E (mset (mn_ids m)) m m'"
    and ex: "mn_move_column_to E d a mf m = Some m'"
  shows "mn_kept E (mset (mn_ids m)) m m'"
proof -
  note s = mn_invD(4)[OF inv]
  let ?s = "mn_active_workspace_idx m"
  note wi = mn_invD(6)[OF inv s]
  define put where "put = (\<lambda>(c, w). case c of None \<Rightarrow> Some (m\<lparr>mn_workspaces := (mn_workspaces m)[?s := w]\<rparr>)
     | Some c \<Rightarrow> mn_add_column E d c a (m\<lparr>mn_workspaces := (mn_workspaces m)[?s := w]\<rparr>))"
  have "(if d = ?s then Some m else if fa_get (ws_floating_is_active (mn_workspaces m ! ?s)) then mf m
      else ws_remove_active_column E (mn_workspaces m ! ?s) \<bind> put) = Some m'"
    using ex s by (simp add: mn_move_column_to_def mn_active_workspace_def vec_get_def Let_def put_def cong: if_cong)
  then consider (same) "m' = m" | (floating) "mf m = Some m'"
    | (tiled) c w where "ws_remove_active_column E (mn_workspaces m ! ?s) = Some (c, w)" "put (c, w) = Some m'"
    by (cases "d = ?s"; cases "fa_get (ws_floating_is_active (mn_workspaces m ! ?s))")
      (simp_all only: if_True if_False bind_eq_Some_conv, auto)
  then show ?thesis
  proof cases
    case same
    with kept_refl[OF inv] show ?thesis by simp
  next
    case floating
    from fl[OF this] show ?thesis .
  next
    case (tiled c w)
    show ?thesis
    proof (cases c)
      case None
      with remove_active_column_removed[OF wi tiled(1)] tiled(2) kept_refl[OF inv] show ?thesis by (simp add: put_def)
    next
      case (Some col)
      define m1 where "m1 = m\<lparr>mn_workspaces := (mn_workspaces m)[?s := w]\<rparr>"
      have rm: "ws_removed E (column_id col) (mn_workspaces m ! ?s) w"
        using remove_active_column_removed[OF wi tiled(1)] Some by simp
      note k1 = at_removed[OF inv s rm rest_removes(3)[OF tiled(1)] m1_def]
      have "mn_roomy m1" using room by (simp add: m1_def mn_roomy_def)
      from add_column_kept[OF kept_inv[OF k1(1)] this k1(3) removed_not_both[OF wi]] tiled Some
      have "mn_kept E (add_mset (column_id col) (mset (mn_ids m1))) m1 m'" by (simp add: m1_def put_def)
      from kept_trans[OF k1(1) this] k1(2) show ?thesis by simp
    qed
  qed
qed

lemma move_columns_kept:
  assumes inv: "mn_inv E m" and room: "mn_roomy m" and ac: "mn_acyclic m"
  shows "mn_move_column_to_workspace_up E a m = Some m' \<Longrightarrow> mn_kept E (mset (mn_ids m)) m m'"
    and "mn_move_column_to_workspace_down E a m = Some m' \<Longrightarrow> mn_kept E (mset (mn_ids m)) m m'"
    and "mn_move_column_to_workspace E idx a m = Some m' \<Longrightarrow> mn_kept E (mset (mn_ids m)) m m'"
  using move_to_kept[OF inv room ac] move_to_workspace_outcome[OF inv room ac _ refl, THEN conjunct1]
  by (auto simp: mn_move_column_to_workspace_up_def mn_move_column_to_workspace_down_def mn_move_column_to_workspace_def
      bind_eq_Some_conv elim!: move_column_kept[OF inv room, rotated])

text \<open>\<open>..._or_to_workspace_...\<close>: a command of the active workspace, and when it has no effect one of the monitor.\<close>

lemma or_kept:
  assumes inv: "mn_inv E m"
    and f: "\<And>w w' ok. w \<in> set (mn_workspaces m) \<Longrightarrow> f w = Some (w', ok) \<Longrightarrow> ws_same E w w' \<and> ws_rest w' = ws_rest w"
    and unchanged: "\<And>w w'. f w = Some (w', False) \<Longrightarrow> w' = w"
    and g: "\<And>m2. g m = Some m2 \<Longrightarrow> mn_kept E (mset (mn_ids m)) m m2"
    and ex: "mn_or f g m = Some m'"
  shows "mn_kept E (mset (mn_ids m)) m m'"
proof -
  note s = mn_invD(4)[OF inv]
  let ?s = "mn_active_workspace_idx m"
  obtain w ok where w: "f (mn_workspaces m ! ?s) = Some (w, ok)"
      "(if ok then Some (m\<lparr>mn_workspaces := (mn_workspaces m)[?s := w]\<rparr>)
        else g (m\<lparr>mn_workspaces := (mn_workspaces m)[?s := w]\<rparr>)) = Some m'"
    using ex by (auto simp: mn_or_def mn_active_workspace_def bind_eq_Some_conv vec_simps Let_def split: if_splits)
  have "ws_same E (mn_workspaces m ! ?s) w" "ws_rest w = ws_rest (mn_workspaces m ! ?s)"
    using f[OF nth_mem[OF s] w(1)] by simp_all
  note k1 = at_same[OF inv s this]
  show ?thesis
  proof (cases ok)
    case False
    then have "w = mn_workspaces m ! ?s" using w(1) by (intro unchanged) simp
    with w(2) False g show ?thesis by (simp add: same_list[OF s])
  qed (use k1 w(2) in simp)
qed

end
