(* ===== verification/MonitorLists.thy ===== *)
theory MonitorLists
  imports MonitorTransfers
begin

text \<open>
  The list of workspaces of a monitor: new, removed, inserted, appended and reordered workspaces, changes of
  the configuration and of the output, and the gestures and animations, none of which touches a window.
\<close>

section \<open>Workspaces that join\<close>

lemma setting_in_sync:
  "mn_in_sync m \<Longrightarrow> mn_setting m = (Some (ou_id (mn_output m)), mp_shared (mn_options m), ou_scale (mn_output m),
     ou_transform (mn_output m), ou_size (mn_output m), ou_area (mn_output m))"
  by (simp add: mn_in_sync_def mn_setting_def)

lemma new_ids: "ws_ids (ws_new E i out base) = []" "ws_id (ws_new E i out base) = i"
  by (simp_all add: ws_new_def ws_new_with_config_def ws_build_def Let_def ws_ids_def ss_ids_def ss_new_def columns_def
      fs_new_def fs_ids_def)

lemma new_belongs:
  "mn_in_sync m \<Longrightarrow> ws_belongs E m (ws_new E i (mn_output m) (mp_shared (mn_options m)))"
  using build_inv by (simp add: ws_belongs_def setting_in_sync ws_rest_def ws_new_def ws_new_with_config_def)
    (simp add: ws_build_def Let_def)

lemma update_config_rest: "ws_rest (ws_update_config E base w) =
    (ws_id w, ws_output w, base, ws_scale w, ws_transform w, ws_view_size w, ws_working_area w)"
  by (simp add: ws_rest_def ws_update_config_def Let_def)

lemma set_view_size_rest: "ws_rest (ws_set_view_size E scale transform sz area w) =
    (ws_id w, ws_output w, ws_base_options w, scale, transform, sz, area)"
  by (simp add: ws_set_view_size_def Let_def ws_rest_def ws_update_config_def)

lemma set_output_rest:
  assumes "ws_set_output E (Some out) w = Some w'" "ws_output w \<noteq> Some (ou_id out)"
  shows "ws_rest w' = (ws_id w, Some (ou_id out), ws_base_options w, ou_scale out, ou_transform out, ou_size out, ou_area out)"
proof -
  define v where "v = w\<lparr>ws_output := Some (ou_id out)\<rparr>"
  obtain u where "ws_update_output_size E out u = Some w'" "u = v \<or> u = v\<lparr>ws_original_output := output_id_new out\<rparr>"
    using assms by (auto simp: ws_set_output_def v_def Let_def split: if_splits)
  then have "w' = ws_set_view_size E (ou_scale out) (ou_transform out) (ou_size out) (ou_area out) u"
    "ws_rest u = ws_rest v" by (auto simp: ws_update_output_size_def split: option.splits)
  then show ?thesis by (simp add: set_view_size_rest) (simp add: ws_rest_def v_def)
qed

lemma adopt_belongs:
  assumes "ws_inv E w" "ws_output w \<noteq> Some (ou_id (mn_output m))" "mn_in_sync m" "mn_adopt E m w = Some w'"
  shows "ws_belongs E m w' \<and> mset (ws_ids w') = mset (ws_ids w) \<and> ws_id w' = ws_id w"
proof -
  obtain v where v: "ws_set_output E (Some (mn_output m)) w = Some v" "w' = ws_update_config E (mp_shared (mn_options m)) v"
    using assms(4) by (auto simp: mn_adopt_def)
  note s = set_output_settled[OF assms(1) v(1)]
  have i: "ws_inv E v" using s by (auto dest: settled_same same_inv)
  note c = settled_same[OF update_config_settled[OF ws_invD(1-4)[OF i], of "mp_shared (mn_options m)"], folded v(2)]
  have "ws_rest v = (ws_id w, Some (ou_id (mn_output m)), ws_base_options w, ou_scale (mn_output m), ou_transform (mn_output m),
      ou_size (mn_output m), ou_area (mn_output m))" by (rule set_output_rest[OF v(1) assms(2)])
  then have "ws_rest w' = (ws_id w, mn_setting m)" unfolding v(2) update_config_rest setting_in_sync[OF assms(3)]
    by (simp add: ws_rest_def)
  moreover have "mset (ws_ids w') = mset (ws_ids w)" using c settled_same[OF s] by (simp add: ws_same_def)
  ultimately show ?thesis using same_inv[OF c] by (simp add: ws_belongs_def) (simp add: ws_rest_def)
qed

section \<open>Every workspace at once\<close>

definition ws_follows :: "env \<Rightarrow> monitor \<Rightarrow> workspace \<Rightarrow> workspace \<Rightarrow> bool" where
  "ws_follows E m w w' \<longleftrightarrow> ws_belongs E m w' \<and> mset (ws_ids w') = mset (ws_ids w) \<and> ws_id w' = ws_id w"

lemma follows_lists:
  assumes "list_all2 (ws_follows E m) wss wss'"
  shows "map ws_id wss' = map ws_id wss" "mset (concat (map ws_ids wss')) = mset (concat (map ws_ids wss))"
    "\<forall>w\<in>set wss'. ws_belongs E m w"
  using assms by (induction rule: list_all2_induct) (auto simp: ws_follows_def)

lemma follows_ok:
  assumes "list_all2 (ws_follows E m') wss wss'" "wss_ok E m wss"
  shows "wss_ok E m' wss'"
  using assms(2) follows_lists[OF assms(1)] mset_eq_imp_distinct_iff[OF follows_lists(2)[OF assms(1)]]
  by (simp add: wss_ok_def)

lemma try_map_all2: "try_map f xs = Some ys \<longleftrightarrow> list_all2 (\<lambda>x y. f x = Some y) xs ys"
  by (induction xs arbitrary: ys) (auto simp: bind_eq_Some_conv list_all2_Cons1)

lemma try_map_follows:
  assumes "try_map f wss = Some wss'" "\<And>w w'. w \<in> set wss \<Longrightarrow> f w = Some w' \<Longrightarrow> ws_follows E m w w'"
  shows "list_all2 (ws_follows E m) wss wss'"
  using assms(1) unfolding try_map_all2 by (rule list.rel_mono_strong) (use assms(2) in blast)

lemma map_follows:
  assumes "\<And>w. w \<in> set wss \<Longrightarrow> ws_follows E m w (f w)"
  shows "list_all2 (ws_follows E m) wss (map f wss)"
  using assms by (simp add: list.rel_map list.rel_refl_strong)

section \<open>Longer and shorter lists\<close>

lemma wss_ok_Cons:
  "wss_ok E m (w # wss) \<longleftrightarrow> ws_belongs E m w \<and> ws_id w \<notin> ws_id ` set wss \<and> distinct (ws_ids w) \<and>
     set (ws_ids w) \<inter> set (concat (map ws_ids wss)) = {} \<and> wss_ok E m wss"
  by (auto simp: wss_ok_def)

lemma wss_ok_append:
  "wss_ok E m (xs @ ys) \<longleftrightarrow> wss_ok E m xs \<and> wss_ok E m ys \<and> ws_id ` set xs \<inter> ws_id ` set ys = {} \<and>
     set (concat (map ws_ids xs)) \<inter> set (concat (map ws_ids ys)) = {}"
  by (auto simp: wss_ok_def)

lemma concat_mset: "mset (concat (map f xs)) = (\<Sum>x\<in>#mset xs. mset (f x))"
  by (induction xs) auto

lemma insert_mset: "vec_insert k w wss = Some wss' \<Longrightarrow> mset wss' = add_mset w (mset wss) \<and> length wss' = Suc (length wss)"
  by (auto simp: vec_simps mset_insert_nth[simplified])

lemma remove_mset: "vec_remove k wss = Some (w, wss') \<Longrightarrow> mset wss = add_mset w (mset wss') \<and> length wss = Suc (length wss')"
  using mset_remove_nth[of k wss] by (auto simp: vec_simps add_mset_commute)

lemma swap_mset: "vec_swap i j wss = Some wss' \<Longrightarrow> mset wss' = mset wss \<and> length wss' = length wss"
  by (auto simp: vec_simps mset_swap)

text \<open>What an operation does to the windows, when the list of workspaces may change.\<close>

definition mn_holds :: "env \<Rightarrow> nat multiset \<Rightarrow> monitor \<Rightarrow> bool" where
  "mn_holds E ids m \<longleftrightarrow> mn_inv E m \<and> mset (mn_ids m) = ids"

lemma kept_holds: "mn_kept E ids m m' \<Longrightarrow> mn_holds E ids m'"
  by (simp add: mn_kept_def mn_holds_def)

lemma holds_idle:
  assumes "wss_ok E m wss" "mn_in_sync m" "k < length wss"
  shows "mn_holds E (mset (concat (map ws_ids wss)))
    (m\<lparr>mn_workspaces := wss, mn_active_workspace_idx := k, mn_previous_workspace_id := p, mn_workspace_switch := None\<rparr>)"
proof -
  let ?m = "m\<lparr>mn_workspaces := wss, mn_active_workspace_idx := k, mn_previous_workspace_id := p, mn_workspace_switch := None\<rparr>"
  have "wss_ok E ?m wss" using wss_ok_setting[of ?m m] assms(1) by simp
  with assms show ?thesis by (simp add: mn_holds_def mn_inv_def mn_switch_ok_def mn_ids_def)
qed

section \<open>The operations\<close>

lemma new_ok:
  assumes wss: "\<And>w. w \<in> set workspaces \<Longrightarrow> ws_inv E w \<and> ws_output w \<noteq> Some (ou_id out)"
    and ids: "distinct (map ws_id workspaces)" "\<And>w. w \<in> set workspaces \<Longrightarrow> ws_id w < i"
      "distinct (concat (map ws_ids workspaces))"
    and ex: "mn_new E i out workspaces j base part = Some m"
  shows "mn_holds E (mset (concat (map ws_ids workspaces))) m \<and>
    length (mn_workspaces m) = max (length workspaces) (max (lo_workspace_count (op_layout (mp_shared (mn_options m)))) 1) \<and>
    map ws_id (take (length workspaces) (mn_workspaces m)) = map ws_id workspaces"
proof -
  define opts where "opts = mp_with_merged_layout part base"
  define f where "f = (\<lambda>w. if ws_has_windows_or_name w
            then map_option (ws_update_config E (mp_shared opts)) (ws_set_output E (Some out) w) else None)"
  obtain wss where wss': "try_map f workspaces = Some wss"
    using ex unfolding mn_new_def Let_def f_def opts_def by (auto simp: bind_eq_Some_conv)
  define n where "n = max (lo_workspace_count (op_layout (mp_shared opts))) 1 - length wss"
  define pad where "pad = map (\<lambda>k. ws_new E (i + k) out (mp_shared opts)) [0..<n]"
  define active where "active = (case j of None \<Rightarrow> 0
      | Some j \<Rightarrow> (case find (\<lambda>k. ws_id (wss ! k) = j) (rev [0..<length wss]) of Some k \<Rightarrow> k | None \<Rightarrow> 0))"
  have m: "m = \<lparr>mn_output = out, mn_scale = ou_scale out, mn_view_size = ou_size out, mn_working_area = ou_area out,
       mn_workspaces = wss @ pad, mn_active_workspace_idx = active, mn_previous_workspace_id = None,
       mn_workspace_switch = None, mn_overview_open = False, mn_overview_progress = None,
       mn_base_options = base, mn_options = opts, mn_layout_config = part\<rparr>"
    using ex wss' unfolding mn_new_def Let_def f_def opts_def[symmetric]
    by (simp add: pad_def n_def active_def)
  have sync: "mn_in_sync m" by (simp add: m mn_in_sync_def opts_def)
  have f: "ws_follows E m w w'" if "w \<in> set workspaces" "f w = Some w'" for w w'
  proof -
    from that(2) have "mn_adopt E m w = Some w'" by (auto simp: f_def mn_adopt_def m split: if_splits)
    from adopt_belongs[OF _ _ sync this] wss[OF that(1)] show ?thesis by (simp add: ws_follows_def m)
  qed
  have fl: "list_all2 (ws_follows E m) workspaces wss" by (rule try_map_follows[OF wss' f])
  note l = follows_lists[OF fl]
  have w1: "wss_ok E m wss"
    using l ids mset_eq_imp_distinct_iff[OF l(2)] by (simp add: wss_ok_def)
  have pid: "map ws_id pad = map ((+) i) [0..<n]" "map ws_ids pad = map (\<lambda>_. []) [0..<n]"
    by (simp_all add: pad_def new_ids)
  have pids: "concat (map ws_ids pad) = []" unfolding pid by simp
  have "\<forall>w\<in>set pad. ws_belongs E m w"
    using new_belongs[OF sync] by (auto simp: pad_def m)
  moreover have "distinct (map ws_id pad)" unfolding pid by (simp add: distinct_map)
  ultimately have w2: "wss_ok E m pad" unfolding wss_ok_def pids by simp
  have "ws_id ` set wss = ws_id ` set workspaces" using l(1) by (metis set_map)
  then have "j < i" if "j \<in> ws_id ` set wss" for j using ids(2) that by auto
  moreover have "i \<le> j" if "j \<in> ws_id ` set pad" for j using that by (auto simp: pad_def new_ids)
  ultimately have "ws_id ` set wss \<inter> ws_id ` set pad = {}" by (meson disjoint_iff leD)
  with w1 w2 pids have ok: "wss_ok E m (mn_workspaces m)" by (simp add: m wss_ok_append)
  have len: "length wss = length workspaces" using l(1) by (metis length_map)
  have "length (wss @ pad) = max (length workspaces) (max (lo_workspace_count (op_layout (mp_shared opts))) 1)"
    using len by (simp add: pad_def n_def max_def)
  moreover have "active < length (wss @ pad)"
  proof -
    have "active < length wss \<or> active = 0"
      by (auto simp: active_def find_Some_iff rev_nth split: option.split)
    then show ?thesis using calculation by fastforce
  qed
  ultimately show ?thesis using ok sync l(1,2) pids len by (simp add: mn_holds_def mn_inv_def mn_switch_ok_def mn_ids_def m)
qed

lemma into_workspaces_ok:
  assumes inv: "mn_inv E m" and ex: "mn_into_workspaces E m = Some wss"
  shows "mset (concat (map ws_ids wss)) = mset (mn_ids m) \<and> (\<forall>w\<in>set wss. ws_inv E w \<and> ws_output w = None) \<and>
    map ws_id wss = map ws_id (filter ws_has_windows_or_name (mn_workspaces m))"
proof -
  let ?full = "filter ws_has_windows_or_name (mn_workspaces m)"
  have out: "ws_output w' = None \<and> ws_inv E w' \<and> mset (ws_ids w') = mset (ws_ids w) \<and> ws_id w' = ws_id w"
    if "ws_inv E w" "ws_set_output E None w = Some w'" for w w'
  proof -
    have "ws_output w' = None" "ws_id w' = ws_id w" using that(2) by (auto simp: ws_set_output_def Let_def split: if_splits)
    with settled_same[OF set_output_settled[OF that]] show ?thesis by (simp add: ws_same_def)
  qed
  have all: "\<forall>w\<in>set ?full. ws_inv E w" using mn_invD(1)[OF inv] by (auto simp: wss_ok_def ws_belongs_def)
  have "list_all2 (\<lambda>w w'. ws_set_output E None w = Some w') ?full wss" using ex by (simp add: mn_into_workspaces_def try_map_all2)
  then have "mset (concat (map ws_ids wss)) = mset (concat (map ws_ids ?full)) \<and>
      (\<forall>w\<in>set wss. ws_inv E w \<and> ws_output w = None) \<and> map ws_id wss = map ws_id ?full"
    using all by (induction rule: list_all2_induct) (auto dest: out)
  moreover have "concat (map ws_ids (filter ws_has_windows_or_name xs)) = concat (map ws_ids xs)" for xs
    by (induction xs) (auto simp: ws_has_windows_or_name_def ws_has_windows_def ws_windows_def ws_tiles_ids[symmetric])
  ultimately show ?thesis by (simp add: mn_ids_def)
qed

lemma top_made: "(if k = 0 \<and> mp_above_first (mn_options m) then (mn_add_workspace_top m, k + 1) else (m, k)) = (m, mn_made k m)"
  by (auto simp: mn_made_def mn_add_workspace_top_def)

lemma remove_workspace_ok:
  assumes inv: "mn_inv E m" and two: "1 < length (mn_workspaces m)"
    and ex: "mn_remove_workspace_by_idx E idx m = Some (w, m')"
  shows "mn_holds E (mset (mn_ids m) - mset (ws_ids w)) m' \<and> ws_inv E w \<and> ws_output w = None \<and>
    mset (ws_ids w) \<subseteq># mset (mn_ids m) \<and> mset (ws_ids w) = mset (ws_ids (mn_workspaces m ! mn_made idx m))"
proof -
  define k where "k = mn_made idx m"
  define drop1 where "drop1 = (if k \<le> mn_active_workspace_idx m \<and> 0 < mn_active_workspace_idx m
      then mn_active_workspace_idx m - 1 else mn_active_workspace_idx m)"
  have d1: "(if k \<le> mn_active_workspace_idx m \<and> 0 < mn_active_workspace_idx m
      then m\<lparr>mn_workspaces := wss, mn_active_workspace_idx := mn_active_workspace_idx m - 1\<rparr> else m\<lparr>mn_workspaces := wss\<rparr>) =
      m\<lparr>mn_workspaces := wss, mn_active_workspace_idx := drop1\<rparr>" for wss
    by (simp add: drop1_def)
  obtain v wss where v: "vec_remove k (mn_workspaces m) = Some (v, wss)" "ws_set_output E None v = Some w"
      "mn_clean_up_workspaces (m\<lparr>mn_workspaces := wss, mn_active_workspace_idx := drop1, mn_workspace_switch := None\<rparr>) = Some m'"
    using ex d1[simplified] unfolding mn_remove_workspace_by_idx_def make_room k_def[symmetric]
    by (clarsimp simp: Let_def bind_eq_Some_conv split del: if_split cong: if_cong)
  have m': "m' = m\<lparr>mn_workspaces := wss, mn_active_workspace_idx := drop1, mn_workspace_switch := None\<rparr>"
    using clean_up_id(2)[OF v(3)] by simp
  note r = remove_mset[OF v(1)]
  have "wss_ok E m (v # wss)" by (rule wss_ok_mset[OF _ mn_invD(1)[OF inv]]) (simp add: r)
  then have ok: "wss_ok E m wss" "ws_inv E v" by (simp_all add: wss_ok_Cons ws_belongs_def)
  have idx: "k < length (mn_workspaces m)" using v(1) by (auto simp: vec_simps)
  have kl: "drop1 < length wss"
    using mn_invD(4)[OF inv] r two idx by (auto simp: drop1_def)
  have h: "mn_holds E (mset (concat (map ws_ids wss))) m'"
    using holds_idle[OF ok(1) mn_invD(3)[OF inv] kl, of "mn_previous_workspace_id m"] by (simp add: m')
  have s: "ws_inv E w" "mset (ws_ids w) = mset (ws_ids v)"
    using settled_same[OF set_output_settled[OF ok(2) v(2)]] by (simp_all add: ws_same_def)
  have "mset (mn_ids m) = mset (ws_ids w) + mset (concat (map ws_ids wss))"
    unfolding mn_ids_def concat_mset using r s(2) by simp
  then have "mset (concat (map ws_ids wss)) = mset (mn_ids m) - mset (ws_ids w)" "mset (ws_ids w) \<subseteq># mset (mn_ids m)" by simp_all
  moreover have "ws_output w = None" using v(2) by (auto simp: ws_set_output_def Let_def split: if_splits)
  moreover have "v = mn_workspaces m ! mn_made idx m" using v(1) by (auto simp: vec_simps k_def)
  ultimately show ?thesis using h s by simp
qed

lemma insert_workspace_ok:
  assumes inv: "mn_inv E m"
    and w: "ws_inv E w" "ws_output w \<noteq> Some (ou_id (mn_output m))" "ws_id w \<notin> ws_id ` set (mn_workspaces m)"
      "set (ws_ids w) \<inter> set (mn_ids m) = {}"
    and ex: "mn_insert_workspace E' w idx a m = Some m'" and E': "E' = E"
  shows "mn_holds E (mset (mn_ids m) + mset (ws_ids w)) m'"
proof -
  define bump where "bump k = (if k \<le> mn_active_workspace_idx m then mn_active_workspace_idx m + 1 else mn_active_workspace_idx m)" for k
  have bump: "(if k \<le> mn_active_workspace_idx m
      then m\<lparr>mn_workspaces := wss, mn_active_workspace_idx := Suc (mn_active_workspace_idx m)\<rparr> else m\<lparr>mn_workspaces := wss\<rparr>) =
      m\<lparr>mn_workspaces := wss, mn_active_workspace_idx := bump k\<rparr>" for wss k
    by (simp add: bump_def)
  obtain v k wss m2 where v: "mn_adopt E m w = Some v" "vec_insert k v (mn_workspaces m) = Some wss"
      and m2: "(if a then mn_activate_workspace E k (m\<lparr>mn_workspaces := wss, mn_active_workspace_idx := bump k, mn_workspace_switch := None\<rparr>)
        else Some (m\<lparr>mn_workspaces := wss, mn_active_workspace_idx := bump k\<rparr>)) = Some m2"
        "mn_clean_up_workspaces (m2\<lparr>mn_workspace_switch := None\<rparr>) = Some m'"
    using ex unfolding mn_insert_workspace_def E' top_made
    by (clarsimp simp: Let_def bind_eq_Some_conv bump split del: if_split cong: if_cong)
  have ac: "m' = m2\<lparr>mn_workspace_switch := None\<rparr>" using clean_up_id(2)[OF m2(2)] by simp
  note i = insert_mset[OF v(2)]
  note b = adopt_belongs[OF w(1,2) mn_invD(3)[OF inv] v(1)]
  have bi: "set (ws_ids v) = set (ws_ids w)" "ws_inv E v" using b mset_eq_setD by (auto simp: ws_belongs_def)
  have "wss_ok E m (v # mn_workspaces m)"
    using b bi w(3,4) mn_invD(1)[OF inv] ws_ids_distinct[OF bi(2)] by (simp add: wss_ok_Cons mn_ids_def)
  then have ok: "wss_ok E m wss" by (rule wss_ok_mset[rotated]) (simp add: i)
  have n: "bump k < length wss" using mn_invD(4)[OF inv] i by (auto simp: bump_def)
  have kl: "k < length wss" using v(2) i by (auto simp: vec_simps)
  have "\<exists>p q. m' = m\<lparr>mn_workspaces := wss, mn_active_workspace_idx := q, mn_previous_workspace_id := p, mn_workspace_switch := None\<rparr> \<and>
      q < length wss"
  proof (cases a)
    case True
    then have "mn_activate_workspace_with_anim_config E k None
        (m\<lparr>mn_workspaces := wss, mn_active_workspace_idx := bump k, mn_workspace_switch := None\<rparr>) = Some m2"
      using m2(1) by (simp add: mn_activate_workspace_def)
    from activate_cases[OF this] have "mn_focused k (m\<lparr>mn_workspaces := wss, mn_active_workspace_idx := bump k,
        mn_workspace_switch := None\<rparr>) m2" by blast
    then obtain p s where "m2 = m\<lparr>mn_workspaces := wss, mn_active_workspace_idx := bump k, mn_workspace_switch := None,
        mn_previous_workspace_id := p, mn_active_workspace_idx := k, mn_workspace_switch := s\<rparr>"
      unfolding mn_focused_def by blast
    then have "m' = m\<lparr>mn_workspaces := wss, mn_active_workspace_idx := k, mn_previous_workspace_id := p, mn_workspace_switch := None\<rparr>"
      by (simp add: ac)
    with kl show ?thesis by blast
  next
    case False
    then have "m' = m\<lparr>mn_workspaces := wss, mn_active_workspace_idx := bump k, mn_previous_workspace_id := mn_previous_workspace_id m,
        mn_workspace_switch := None\<rparr>" using ac m2(1) by auto
    with n show ?thesis by blast
  qed
  moreover have "mset (concat (map ws_ids wss)) = mset (mn_ids m) + mset (ws_ids w)"
    unfolding mn_ids_def concat_mset using i b by simp
  ultimately show ?thesis using holds_idle[OF ok mn_invD(3)[OF inv]] by metis
qed

end
