(* ===== verification/MonitorSteps.thy ===== *)
theory MonitorSteps
  imports MonitorLists
begin

text \<open>
  The other operations of a monitor: more workspaces, reordering, names, configuration, output, animations,
  the overview and gestures.
\<close>

section \<open>More workspaces\<close>

lemma holds_switch:
  assumes "wss_ok E m wss" "mn_in_sync m" "k < length wss" "\<And>x. s = Some x \<Longrightarrow> switch_ok (length wss) x"
  shows "mn_holds E (mset (concat (map ws_ids wss)))
    (m\<lparr>mn_workspaces := wss, mn_active_workspace_idx := k, mn_workspace_switch := s\<rparr>)"
proof -
  let ?m = "m\<lparr>mn_workspaces := wss, mn_active_workspace_idx := k, mn_workspace_switch := s\<rparr>"
  have "wss_ok E ?m wss" using wss_ok_setting[of ?m m] assms(1) by simp
  with assms show ?thesis by (simp add: mn_holds_def mn_inv_def mn_switch_ok_def mn_ids_def)
qed

lemma switch_ok_more: "switch_ok n x \<Longrightarrow> n \<le> k \<Longrightarrow> switch_ok k x"
  unfolding switch_ok_def by (auto split: workspace_switch.splits intro: less_le_trans)

lemma same_switch: "mn_workspace_switch m = s \<Longrightarrow> m\<lparr>mn_workspaces := wss, mn_active_workspace_idx := n, mn_workspace_switch := s\<rparr> =
    m\<lparr>mn_workspaces := wss, mn_active_workspace_idx := n\<rparr>"
  by (cases m) simp

lemma offset_ok: "switch_ok n x \<Longrightarrow> switch_offset 1 x = Some y \<Longrightarrow> switch_ok (Suc n) y"
proof (cases x)
  case (SwitchAnimation a)
  assume "switch_ok n x" "switch_offset 1 x = Some y"
  with SwitchAnimation obtain k where k: "k < n" "goes_to (real k) a" "y = SwitchAnimation (anim_offset 1 a)"
    by (auto simp: switch_ok_def switch_offset_def)
  then have "goes_to (real (Suc k)) (anim_offset 1 a)"
    by (auto simp: goes_to_def anim_offset_def split: anim_kind.splits)
  with k show ?thesis by (auto simp: switch_ok_def)
next
  case (SwitchGesture g)
  assume "switch_ok n x" "switch_offset 1 x = Some y"
  with SwitchGesture show ?thesis by (auto simp: switch_ok_def switch_offset_def)
qed

lemma add_workspace_at_ok:
  assumes inv: "mn_inv E m" and new: "i \<notin> ws_id ` set (mn_workspaces m)" and ex: "mn_add_workspace_at E i idx m = Some m'"
  shows "mn_holds E (mset (mn_ids m)) m'"
proof -
  let ?w = "ws_new E i (mn_output m) (mp_shared (mn_options m))"
  define n where "n = (if idx \<le> mn_active_workspace_idx m then Suc (mn_active_workspace_idx m) else mn_active_workspace_idx m)"
  have n: "(if idx \<le> mn_active_workspace_idx m then m\<lparr>mn_workspaces := wss, mn_active_workspace_idx := Suc (mn_active_workspace_idx m)\<rparr>
      else m\<lparr>mn_workspaces := wss\<rparr>) = m\<lparr>mn_workspaces := wss, mn_active_workspace_idx := n\<rparr>" for wss
    by (simp add: n_def)
  obtain wss where wss: "vec_insert idx ?w (mn_workspaces m) = Some wss"
      "(case mn_workspace_switch m of
         Some s \<Rightarrow> (if real idx \<le> switch_target_idx s
            then map_option (\<lambda>s. m\<lparr>mn_workspaces := wss, mn_active_workspace_idx := n, mn_workspace_switch := Some s\<rparr>) (switch_offset 1 s)
            else Some (m\<lparr>mn_workspaces := wss, mn_active_workspace_idx := n\<rparr>))
       | None \<Rightarrow> Some (m\<lparr>mn_workspaces := wss, mn_active_workspace_idx := n\<rparr>)) = Some m'"
    using ex unfolding mn_add_workspace_at_def
    by (clarsimp simp: Let_def bind_eq_Some_conv n split del: if_split option.split cong: if_cong option.case_cong)
  note i = insert_mset[OF wss(1)]
  have "wss_ok E m (?w # mn_workspaces m)"
    using new new_belongs[OF mn_invD(3)[OF inv], of E i] mn_invD(1)[OF inv] by (simp add: wss_ok_Cons new_ids)
  then have ok: "wss_ok E m wss" by (rule wss_ok_mset[rotated]) (simp add: i)
  have l: "n < length wss" using mn_invD(4)[OF inv] i by (auto simp: n_def)
  have ids: "mset (concat (map ws_ids wss)) = mset (mn_ids m)" unfolding mn_ids_def concat_mset using i by (simp add: new_ids)
  have sw: "switch_ok (length (mn_workspaces m)) x" if "mn_workspace_switch m = Some x" for x
    using mn_invD(2)[OF inv] that by (simp add: mn_switch_ok_def)
  obtain s where s: "m' = m\<lparr>mn_workspaces := wss, mn_active_workspace_idx := n, mn_workspace_switch := s\<rparr>"
      "\<And>x. s = Some x \<Longrightarrow> switch_ok (length wss) x"
  proof (cases "mn_workspace_switch m")
    case None
    with wss(2) that[of None] same_switch[where wss = wss and n = n, OF None] show thesis by simp
  next
    case (Some y)
    show thesis
    proof (cases "real idx \<le> switch_target_idx y")
      case True
      with Some wss(2) obtain z where z: "switch_offset 1 y = Some z"
        "m' = m\<lparr>mn_workspaces := wss, mn_active_workspace_idx := n, mn_workspace_switch := Some z\<rparr>" by auto
      with offset_ok[OF sw[OF Some] z(1)] i that[of "Some z"] show thesis by simp
    next
      case False
      with Some wss(2) have "m' = m\<lparr>mn_workspaces := wss, mn_active_workspace_idx := n\<rparr>" by simp
      then have "m' = m\<lparr>mn_workspaces := wss, mn_active_workspace_idx := n, mn_workspace_switch := Some y\<rparr>"
        unfolding same_switch[OF Some] .
      with that[of "Some y"] switch_ok_more[OF sw[OF Some], of "length wss"] i show thesis by simp
    qed
  qed
  from holds_switch[OF ok mn_invD(3)[OF inv] l s(2)] s(1) ids show ?thesis by simp
qed

lemma if_active: "(if c then m\<lparr>mn_workspaces := wss, mn_active_workspace_idx := k\<rparr> else m\<lparr>mn_workspaces := wss\<rparr>) =
    m\<lparr>mn_workspaces := wss, mn_active_workspace_idx := (if c then k else mn_active_workspace_idx m)\<rparr>"
  by (cases m) simp

lemma append_workspaces_ok:
  assumes inv: "mn_inv E m" and wss: "\<And>w. w \<in> set ws \<Longrightarrow> ws_inv E w \<and> ws_output w \<noteq> Some (ou_id (mn_output m))"
    and ids: "distinct (map ws_id ws)" "ws_id ` set ws \<inter> ws_id ` set (mn_workspaces m) = {}"
      "distinct (concat (map ws_ids ws))" "set (concat (map ws_ids ws)) \<inter> set (mn_ids m) = {}"
    and ex: "mn_append_workspaces E ws m = Some m'"
  shows "mn_holds E (mset (mn_ids m) + mset (concat (map ws_ids ws))) m'"
proof (cases "ws = []")
  case True
  with ex inv show ?thesis by (simp add: mn_append_workspaces_def mn_holds_def)
next
  case False
  obtain vs l rest where v: "try_map (mn_adopt E m) ws = Some vs"
      "vec_remove (length (mn_workspaces m) - 1) (mn_workspaces m) = Some (l, rest)"
      "mn_clean_up_workspaces (m\<lparr>mn_workspaces := rest @ vs @ [l], mn_active_workspace_idx :=
         (if mn_active_workspace_idx m = length (mn_workspaces m) - 1 then length rest + length vs else mn_active_workspace_idx m),
         mn_workspace_switch := None\<rparr>) = Some m'"
    using ex False unfolding mn_append_workspaces_def
    by (clarsimp simp: if_active Let_def bind_eq_Some_conv mn_add_workspace_top_def split del: if_split cong: if_cong)
  note r = remove_mset[OF v(2)]
  have "list_all2 (ws_follows E m) ws vs"
    by (rule try_map_follows[OF v(1)]) (use wss adopt_belongs[OF _ _ mn_invD(3)[OF inv]] in \<open>auto simp: ws_follows_def\<close>)
  note f = follows_lists[OF this]
  have vs: "wss_ok E m vs" "ws_id ` set vs = ws_id ` set ws"
    using f ids mset_eq_imp_distinct_iff[OF f(2)] by (simp_all add: wss_ok_def) (metis f(1) set_map)
  have "set (concat (map ws_ids vs)) \<inter> set (mn_ids m) = {}" using mset_eq_setD[OF f(2)] ids(4) by simp
  then have "wss_ok E m (mn_workspaces m @ vs)"
    using mn_invD(1)[OF inv] vs ids(2) by (auto simp: wss_ok_append mn_ids_def)
  then have ok: "wss_ok E m (rest @ vs @ [l])" by (rule wss_ok_mset[rotated]) (simp add: r)
  obtain k where k: "m' = m\<lparr>mn_workspaces := rest @ vs @ [l], mn_active_workspace_idx := k, mn_workspace_switch := None\<rparr>"
      "k < length (rest @ vs @ [l])" using clean_up_id(2)[OF v(3)] r mn_invD(4)[OF inv] by simp
  have "mset (concat (map ws_ids (rest @ vs @ [l]))) = mset (mn_ids m) + mset (concat (map ws_ids ws))"
    unfolding mn_ids_def f(2)[symmetric] unfolding concat_mset using r by simp
  with holds_switch[OF ok mn_invD(3)[OF inv] k(2), of None] show ?thesis by (simp add: k(1))
qed

section \<open>Order and names\<close>

lemma reordered:
  assumes inv: "mn_inv E m" and m: "mset wss = mset (mn_workspaces m)" "k < length wss"
  shows "mn_holds E (mset (mn_ids m)) (m\<lparr>mn_workspaces := wss, mn_active_workspace_idx := k, mn_workspace_switch := None\<rparr>)"
proof -
  have "mset (concat (map ws_ids wss)) = mset (mn_ids m)" unfolding mn_ids_def concat_mset m(1) by (rule refl)
  with holds_switch[OF wss_ok_mset[OF m(1) mn_invD(1)[OF inv]] mn_invD(3)[OF inv] m(2), of None] show ?thesis by simp
qed

lemma refocus_shape:
  assumes "mn_refocus E k m = Some m'"
  shows "m' = m\<lparr>mn_active_workspace_idx := k, mn_workspace_switch := None\<rparr>"
proof -
  obtain m1 where m1: "mn_activate_workspace_with_anim_config E k None m = Some m1"
      "mn_clean_up_workspaces (m1\<lparr>mn_workspace_switch := None, mn_previous_workspace_id := mn_previous_workspace_id m\<rparr>) = Some m'"
    using assms by (auto simp: mn_refocus_def mn_activate_workspace_def bind_eq_Some_conv Let_def)
  have "mn_focused k m m1" using activate_cases[OF m1(1)] by blast
  then obtain p s where "m1 = m\<lparr>mn_previous_workspace_id := p, mn_active_workspace_idx := k, mn_workspace_switch := s\<rparr>"
    unfolding mn_focused_def by blast
  with clean_up_id(2)[OF m1(2)] show ?thesis by (cases m) simp
qed

text \<open>With \<open>empty-workspace-above-first\<close> on, moving the first workspace down activates the one after it.\<close>

definition mn_below :: "monitor \<Rightarrow> nat" where
  "mn_below m = (if mp_above_first (mn_options m) \<and> mn_active_workspace_idx m = 0 then 2 else mn_active_workspace_idx m + 1)"

lemma move_workspace_any:
  assumes inv: "mn_inv E m"
  shows "mn_move_workspace_down E' m = Some m' \<Longrightarrow> m' = m \<or> (\<exists>wss. mn_active_workspace_idx m + 1 < length (mn_workspaces m) \<and>
      vec_swap (mn_active_workspace_idx m) (mn_active_workspace_idx m + 1) (mn_workspaces m) = Some wss \<and>
      m' = m\<lparr>mn_workspaces := wss, mn_active_workspace_idx := mn_below m, mn_workspace_switch := None\<rparr>)"
    and "mn_move_workspace_up E' m = Some m' \<Longrightarrow> m' = m \<or> (\<exists>wss. 0 < mn_active_workspace_idx m \<and>
      vec_swap (mn_active_workspace_idx m) (mn_active_workspace_idx m - 1) (mn_workspaces m) = Some wss \<and>
      m' = m\<lparr>mn_workspaces := wss, mn_active_workspace_idx := mn_made (mn_active_workspace_idx m - 1) m,
             mn_workspace_switch := None\<rparr>)"
proof -
  note k = mn_invD(4)[OF inv]
  { assume ex: "mn_move_workspace_down E' m = Some m'"
    show "m' = m \<or> (\<exists>wss. mn_active_workspace_idx m + 1 < length (mn_workspaces m) \<and>
      vec_swap (mn_active_workspace_idx m) (mn_active_workspace_idx m + 1) (mn_workspaces m) = Some wss \<and>
      m' = m\<lparr>mn_workspaces := wss, mn_active_workspace_idx := mn_below m, mn_workspace_switch := None\<rparr>)"
    proof (cases "mn_active_workspace_idx m + 1 < length (mn_workspaces m)")
      case False
      with k have "mn_last_or (mn_active_workspace_idx m + 1) m = Some (mn_active_workspace_idx m)" by (auto simp: last_or_Some)
      with ex show ?thesis by (simp add: mn_move_workspace_down_def)
    next
      case True
      then have l: "mn_last_or (mn_active_workspace_idx m + 1) m = Some (mn_active_workspace_idx m + 1)"
        by (auto simp: last_or_Some)
      from ex obtain wss where "vec_swap (mn_active_workspace_idx m) (mn_active_workspace_idx m + 1) (mn_workspaces m) = Some wss"
          "mn_refocus E' (mn_below m) (m\<lparr>mn_workspaces := wss\<rparr>) = Some m'"
        unfolding mn_move_workspace_down_def Let_def mn_add_workspace_bottom_def mn_add_workspace_top_def if_cancel l Option.bind_lunit
        by (cases "mp_above_first (mn_options m) \<and> mn_active_workspace_idx m = 0")
          (auto simp: bind_eq_Some_conv mn_below_def numeral_2_eq_2)
      with refocus_shape[OF this(2)] True show ?thesis by simp
    qed }
  assume ex: "mn_move_workspace_up E' m = Some m'"
  show "m' = m \<or> (\<exists>wss. 0 < mn_active_workspace_idx m \<and>
      vec_swap (mn_active_workspace_idx m) (mn_active_workspace_idx m - 1) (mn_workspaces m) = Some wss \<and>
      m' = m\<lparr>mn_workspaces := wss, mn_active_workspace_idx := mn_made (mn_active_workspace_idx m - 1) m,
             mn_workspace_switch := None\<rparr>)"
  proof (cases "0 < mn_active_workspace_idx m")
    case True
    then have ne: "mn_active_workspace_idx m - 1 \<noteq> mn_active_workspace_idx m" by simp
    from ex ne obtain wss where "vec_swap (mn_active_workspace_idx m) (mn_active_workspace_idx m - 1) (mn_workspaces m) = Some wss"
        "mn_refocus E' (mn_made (mn_active_workspace_idx m - 1) m) (m\<lparr>mn_workspaces := wss\<rparr>) = Some m'"
      unfolding mn_move_workspace_up_def Let_def mn_add_workspace_bottom_def mn_add_workspace_top_def if_cancel
      by (cases "mp_above_first (mn_options m) \<and> mn_active_workspace_idx m - 1 = 0")
        (auto simp: bind_eq_Some_conv mn_made_def)
    with refocus_shape[OF this(2)] True show ?thesis by simp
  next
    case False
    with ex show ?thesis by (simp add: mn_move_workspace_up_def)
  qed
qed

lemma move_workspace_shape:
  assumes inv: "mn_inv E m" and room: "\<not> mp_above_first (mn_options m)"
  shows "mn_move_workspace_down E' m = Some m' \<Longrightarrow> m' = m \<or> (\<exists>wss. mn_active_workspace_idx m + 1 < length (mn_workspaces m) \<and>
      vec_swap (mn_active_workspace_idx m) (mn_active_workspace_idx m + 1) (mn_workspaces m) = Some wss \<and>
      m' = m\<lparr>mn_workspaces := wss, mn_active_workspace_idx := mn_active_workspace_idx m + 1, mn_workspace_switch := None\<rparr>)"
    and "mn_move_workspace_up E' m = Some m' \<Longrightarrow> m' = m \<or> (\<exists>wss. 0 < mn_active_workspace_idx m \<and>
      vec_swap (mn_active_workspace_idx m) (mn_active_workspace_idx m - 1) (mn_workspaces m) = Some wss \<and>
      m' = m\<lparr>mn_workspaces := wss, mn_active_workspace_idx := mn_active_workspace_idx m - 1, mn_workspace_switch := None\<rparr>)"
  using move_workspace_any[OF inv, of E' m'] room by (simp_all add: mn_below_def mn_made_def)

lemma holds_refl: "mn_inv E m \<Longrightarrow> mn_holds E (mset (mn_ids m)) m"
  by (simp add: mn_holds_def)

lemma move_workspace_ok:
  assumes inv: "mn_inv E m"
  shows "mn_move_workspace_down E' m = Some m' \<Longrightarrow> mn_below m < length (mn_workspaces m) \<or> length (mn_workspaces m) = 1 \<or>
      mn_active_workspace_idx m \<noteq> 0 \<Longrightarrow> mn_holds E (mset (mn_ids m)) m'"
    and "mn_move_workspace_up E' m = Some m' \<Longrightarrow> mn_holds E (mset (mn_ids m)) m'"
proof -
  note k = mn_invD(4)[OF inv]
  assume "mn_move_workspace_down E' m = Some m'" and fit: "mn_below m < length (mn_workspaces m) \<or> length (mn_workspaces m) = 1 \<or>
      mn_active_workspace_idx m \<noteq> 0"
  with move_workspace_any(1)[OF inv] consider "m' = m" | wss where "mn_active_workspace_idx m + 1 < length (mn_workspaces m)"
      "vec_swap (mn_active_workspace_idx m) (mn_active_workspace_idx m + 1) (mn_workspaces m) = Some wss"
      "m' = m\<lparr>mn_workspaces := wss, mn_active_workspace_idx := mn_below m, mn_workspace_switch := None\<rparr>" by blast
  then show "mn_holds E (mset (mn_ids m)) m'"
  proof cases
    case (2 wss)
    note sw = swap_mset[OF 2(2)]
    have "mn_below m < length wss" using fit 2(1) sw by (auto simp: mn_below_def)
    from reordered[OF inv _ this] sw show ?thesis by (simp add: 2(3))
  qed (simp add: holds_refl[OF inv])
next
  assume "mn_move_workspace_up E' m = Some m'"
  with move_workspace_any(2)[OF inv] consider "m' = m" | wss where "0 < mn_active_workspace_idx m"
      "vec_swap (mn_active_workspace_idx m) (mn_active_workspace_idx m - 1) (mn_workspaces m) = Some wss"
      "m' = m\<lparr>mn_workspaces := wss, mn_active_workspace_idx := mn_made (mn_active_workspace_idx m - 1) m, mn_workspace_switch := None\<rparr>"
    by blast
  then show "mn_holds E (mset (mn_ids m)) m'"
  proof cases
    case (2 wss)
    note sw = swap_mset[OF 2(2)]
    have "mn_made (mn_active_workspace_idx m - 1) m < length wss" using 2(1) sw mn_invD(4)[OF inv] by (auto simp: mn_made_def)
    from reordered[OF inv _ this] sw show ?thesis by (simp add: 2(3))
  qed (simp add: holds_refl[OF inv])
qed

lemma move_to_idx_ok:
  assumes inv: "mn_inv E m" and ex: "mn_move_workspace_to_idx a b m = Some m'"
    and room: "mp_above_first (mn_options m) \<Longrightarrow> mn_active_workspace_idx m = 0 \<Longrightarrow> a = 0 \<Longrightarrow> length (mn_workspaces m) \<le> b + 1 \<Longrightarrow>
      length (mn_workspaces m) = 1"
  shows "mn_holds E (mset (mn_ids m)) m'"
proof (cases "length (mn_workspaces m) \<le> a \<or> a = min b (length (mn_workspaces m) - 1)")
  case True
  then have "m' = m" using ex by (auto simp: mn_move_workspace_to_idx_def Let_def split: if_splits)
  with holds_refl[OF inv] show ?thesis by simp
next
  case False
  define d where "d = min b (length (mn_workspaces m) - 1)"
  define e where "e = (if mp_above_first (mn_options m) \<and> (a = 0 \<or> d = 0) then d + 1 else d)"
  define k where "k = (if mn_active_workspace_idx m = a then e
               else if e \<le> mn_active_workspace_idx m \<and> mn_active_workspace_idx m < a then mn_active_workspace_idx m + 1
               else if mn_active_workspace_idx m \<le> e \<and> a < mn_active_workspace_idx m then mn_active_workspace_idx m - 1
               else mn_active_workspace_idx m)"
  have top: "(if mp_above_first (mn_options m) \<and> min a d = 0 then (mn_add_workspace_top m1, Suc d) else (m1, d)) = (m1, e)"
    for m1 :: monitor by (auto simp: e_def mn_add_workspace_top_def)
  obtain w wss wss' where w: "vec_remove a (mn_workspaces m) = Some (w, wss)" "vec_insert d w wss = Some wss'"
      "mn_clean_up_workspaces (m\<lparr>mn_workspaces := wss', mn_active_workspace_idx := k, mn_workspace_switch := None\<rparr>) = Some m'"
    using ex False unfolding mn_move_workspace_to_idx_def Let_def d_def[symmetric] mn_add_workspace_bottom_def if_cancel
    by (clarsimp simp: bind_eq_Some_conv top k_def split del: if_split cong: if_cong)
  have m: "mset wss' = mset (mn_workspaces m)" "length wss' = length (mn_workspaces m)"
    using remove_mset[OF w(1)] insert_mset[OF w(2)] by simp_all
  have "k < length wss'"
  proof (cases "length (mn_workspaces m) \<le> b + 1")
    case True
    then show ?thesis using mn_invD(4)[OF inv] m(2) False room by (auto simp: k_def d_def e_def)
  next
    case wide: False
    then show ?thesis using mn_invD(4)[OF inv] m(2) False by (auto simp: k_def d_def e_def min_def)
  qed
  from reordered[OF inv m(1) this] clean_up_id(2)[OF w(3)] show ?thesis by simp
qed

lemma unname_kept:
  assumes inv: "mn_inv E m" and ex: "mn_unname_workspace i m = Some (m', b)"
  shows "mn_kept E (mset (mn_ids m)) m m'"
proof (cases "position (\<lambda>w. ws_id w = i) (mn_workspaces m)")
  case None
  with ex kept_refl[OF inv] show ?thesis by (simp add: mn_unname_workspace_def)
next
  case (Some k)
  then have k: "k < length (mn_workspaces m)" "m' = m\<lparr>mn_workspaces := (mn_workspaces m)[k := ws_unname (mn_workspaces m ! k)]\<rparr>"
    using ex by (auto simp: mn_unname_workspace_def bind_eq_Some_conv at_Some dest!: clean_up_id)
  have "ws_rest (ws_unname w) = ws_rest w" for w by (simp add: ws_unname_def)
  moreover have "ws_same E w (ws_unname w)" if "ws_inv E w" for w
    using settled_same[OF config_settled[OF that, of WUnname]] by simp
  ultimately show ?thesis using at_same[OF inv k(1)] mn_invD(6)[OF inv k(1)] k(2) by simp
qed

end
