(* ===== verification/MonitorUpdates.thy ===== *)
theory MonitorUpdates
  imports MonitorSteps
begin

text \<open>
  The operations of a monitor that touch no window: the configuration, the output, animations, the overview and the
  gestures.
\<close>

section \<open>Configuration and output\<close>

lemma same_layout_config: "m\<lparr>mn_layout_config := mn_layout_config m\<rparr> = m"
  by (cases m) simp

text \<open>
  A new configuration keeps every workspace, unless it turns \<open>empty-workspace-above-first\<close> off on a monitor that is
  idle beyond its first workspace.
\<close>

definition mn_config_drops :: "layout_part option \<Rightarrow> monitor_options \<Rightarrow> monitor \<Rightarrow> bool" where
  "mn_config_drops part base m \<longleftrightarrow> mp_above_first (mn_options m) \<and> \<not> mp_above_first (mp_with_merged_layout part base) \<and>
     1 < length (mn_workspaces m) \<and> mn_workspace_switch m = None \<and> mn_active_workspace_idx m \<noteq> 0"

definition mn_config_start :: "layout_part option \<Rightarrow> monitor_options \<Rightarrow> monitor \<Rightarrow> monitor" where
  "mn_config_start part base m =
     (if mn_config_drops part base m
      then m\<lparr>mn_workspaces := tl (mn_workspaces m), mn_active_workspace_idx := mn_active_workspace_idx m - 1\<rparr> else m)"

lemma config_start_ok:
  assumes inv: "mn_inv E m"
  shows "mn_inv E (mn_config_start part base m)"
    and "mset (mn_ids (mn_config_start part base m)) =
      (if mn_config_drops part base m then mset (mn_ids m) - mset (ws_ids (hd (mn_workspaces m))) else mset (mn_ids m))"
proof -
  have *: "mn_holds E (mset (concat (map ws_ids (tl (mn_workspaces m)))))
      (m\<lparr>mn_workspaces := tl (mn_workspaces m), mn_active_workspace_idx := mn_active_workspace_idx m - 1\<rparr>)"
    if d: "mn_config_drops part base m"
  proof -
    obtain v wss where v: "mn_workspaces m = v # wss" using d by (cases "mn_workspaces m") (auto simp: mn_config_drops_def)
    have "wss_ok E m (v # wss)" using mn_invD(1)[OF inv] by (simp add: v)
    then have "wss_ok E m wss" by (simp add: wss_ok_Cons)
    moreover have "mn_active_workspace_idx m - 1 < length wss"
      using d mn_invD(4)[OF inv] by (auto simp: mn_config_drops_def v)
    ultimately have h: "mn_holds E (mset (concat (map ws_ids wss)))
        (m\<lparr>mn_workspaces := wss, mn_active_workspace_idx := mn_active_workspace_idx m - 1,
          mn_previous_workspace_id := mn_previous_workspace_id m, mn_workspace_switch := None\<rparr>)"
      by (rule holds_idle[OF _ mn_invD(3)[OF inv]])
    have "m\<lparr>mn_workspaces := wss, mn_active_workspace_idx := k, mn_previous_workspace_id := mn_previous_workspace_id m,
        mn_workspace_switch := None\<rparr> = m\<lparr>mn_workspaces := wss, mn_active_workspace_idx := k\<rparr>" for k
      using d by (cases m) (simp add: mn_config_drops_def)
    with h show ?thesis unfolding v list.sel by (simp only:)
  qed
  show "mn_inv E (mn_config_start part base m)" using inv * by (simp add: mn_config_start_def mn_holds_def)
  show "mset (mn_ids (mn_config_start part base m)) =
      (if mn_config_drops part base m then mset (mn_ids m) - mset (ws_ids (hd (mn_workspaces m))) else mset (mn_ids m))"
  proof (cases "mn_config_drops part base m")
    case True
    then obtain v wss where "mn_workspaces m = v # wss" by (cases "mn_workspaces m") (auto simp: mn_config_drops_def)
    then show ?thesis using True by (simp add: mn_config_start_def mn_ids_def)
  qed (simp add: mn_config_start_def)
qed

lemma update_config_ok:
  assumes inv: "mn_inv E m"
  shows "mn_holds E (if mn_config_drops part base m then mset (mn_ids m) - mset (ws_ids (hd (mn_workspaces m)))
      else mset (mn_ids m)) (mn_update_config E base (m\<lparr>mn_layout_config := part\<rparr>))"
proof -
  define opts where "opts = mp_with_merged_layout part base"
  define n where "n = mn_config_start part base m"
  define wss where "wss = map (ws_update_config E (mp_shared opts)) (mn_workspaces n)"
  define m' where "m' = n\<lparr>mn_layout_config := part, mn_workspaces := wss, mn_base_options := base, mn_options := opts\<rparr>"
  have m': "mn_update_config E base (m\<lparr>mn_layout_config := part\<rparr>) = m'"
    by (auto simp: mn_update_config_def Let_def m'_def wss_def opts_def n_def mn_config_start_def mn_config_drops_def
        mn_add_workspace_top_def)
  have inv': "mn_inv E n" unfolding n_def by (rule config_start_ok(1)[OF inv])
  have ok: "wss_ok E n (mn_workspaces n)" using inv' by (simp add: mn_inv_def)
  have "ws_follows E m' w (ws_update_config E (mp_shared opts) w)" if "w \<in> set (mn_workspaces n)" for w
  proof -
    have w: "ws_inv E w" "snd (ws_rest w) = mn_setting n" using ok that by (auto simp: wss_ok_def ws_belongs_def)
    have s: "ws_same E w (ws_update_config E (mp_shared opts) w)"
      by (rule settled_same[OF update_config_settled[OF ws_invD(1-4)[OF w(1)]]])
    have "snd (ws_rest (ws_update_config E (mp_shared opts) w)) = mn_setting m'"
      using w(2) by (simp add: update_config_rest) (simp add: ws_rest_def mn_setting_def m'_def)
    moreover have "ws_id (ws_update_config E (mp_shared opts) w) = ws_id w" by (simp add: ws_update_config_def Let_def)
    ultimately show ?thesis using s by (simp add: ws_follows_def ws_belongs_def ws_same_def)
  qed
  then have f: "list_all2 (ws_follows E m') (mn_workspaces n) wss" unfolding wss_def by (rule map_follows)
  have l: "length wss = length (mn_workspaces n)" by (simp add: wss_def)
  have "mn_in_sync m'" using mn_invD(3)[OF inv'] by (simp add: mn_in_sync_def m'_def opts_def)
  moreover have "mn_switch_ok m'" using mn_invD(2)[OF inv'] l by (simp add: mn_switch_ok_def m'_def)
  moreover have "wss_ok E m' wss" by (rule follows_ok[OF f ok])
  moreover have "mset (mn_ids m') = mset (mn_ids n)"
    using follows_lists(2)[OF f] by (simp add: mn_ids_def m'_def)
  ultimately show ?thesis using config_start_ok(2)[OF inv, of part base]
    by (simp add: m' mn_holds_def mn_inv_def n_def) (simp add: m'_def)
qed

text \<open>The readings of the output change (\<open>out\<close>) and the monitor is told.\<close>

lemma update_output_ok:
  assumes inv: "mn_inv E m" and out: "ou_id out = ou_id (mn_output m)"
    and ex: "mn_update_output_size E (m\<lparr>mn_output := out\<rparr>) = Some m'"
  shows "mn_holds E (mset (mn_ids m)) m'"
proof -
  obtain wss where wss: "try_map (ws_update_output_size E out) (mn_workspaces m) = Some wss"
      "m' = m\<lparr>mn_output := out, mn_scale := ou_scale out, mn_view_size := ou_size out, mn_working_area := ou_area out,
        mn_workspaces := wss\<rparr>"
    using ex by (auto simp: mn_update_output_size_def Let_def bind_eq_Some_conv)
  have ok: "wss_ok E m (mn_workspaces m)" using inv by (simp add: mn_inv_def)
  have "ws_follows E m' w w'" if "w \<in> set (mn_workspaces m)" "ws_update_output_size E out w = Some w'" for w w'
  proof -
    have w: "ws_inv E w" "snd (ws_rest w) = mn_setting m" using ok that by (auto simp: wss_ok_def ws_belongs_def)
    have w': "w' = ws_set_view_size E (ou_scale out) (ou_transform out) (ou_size out) (ou_area out) w"
      using that(2) by (auto simp: ws_update_output_size_def split: option.splits)
    have "ws_rest w' = (ws_id w, mn_setting m')" unfolding w' set_view_size_rest
      using w(2) out by (simp add: ws_rest_def mn_setting_def wss)
    with settled_same[OF update_output_size_settled[OF w(1) that(2)]] show ?thesis
      by (simp add: ws_follows_def ws_belongs_def ws_same_def) (simp add: ws_rest_def)
  qed
  from try_map_follows[OF wss(1) this] have f: "list_all2 (ws_follows E m') (mn_workspaces m) wss" by blast
  have l: "length wss = length (mn_workspaces m)" using f by (simp add: list_all2_lengthD)
  have "mn_in_sync m'" using mn_invD(3)[OF inv] by (simp add: mn_in_sync_def wss)
  moreover have "mn_switch_ok m'" using mn_invD(2)[OF inv] l by (simp add: mn_switch_ok_def wss)
  moreover have "wss_ok E m' wss" by (rule follows_ok[OF f ok])
  ultimately show ?thesis using follows_lists(2)[OF f]
    by (simp add: mn_holds_def mn_inv_def mn_ids_def) (simp add: wss(2))
qed

section \<open>Animations and gestures\<close>

lemma switch_changed:
  assumes "mn_inv E m" "\<And>x. s = Some x \<Longrightarrow> switch_ok (length (mn_workspaces m)) x"
  shows "mn_kept E (mset (mn_ids m)) m (m\<lparr>mn_workspace_switch := s\<rparr>)"
proof -
  have eq: "m\<lparr>mn_workspace_switch := s\<rparr> =
      m\<lparr>mn_previous_workspace_id := mn_previous_workspace_id m, mn_active_workspace_idx := mn_active_workspace_idx m,
        mn_workspace_switch := s\<rparr>" by (cases m) simp
  show ?thesis unfolding eq by (rule refocused[OF assms(1) mn_invD(4)[OF assms(1)] assms(2)])
qed

lemma switch_okD: "mn_inv E m \<Longrightarrow> mn_workspace_switch m = Some x \<Longrightarrow> switch_ok (length (mn_workspaces m)) x"
  by (simp add: mn_inv_def mn_switch_ok_def)

lemma kept_simps: "mn_kept E ids m m' \<Longrightarrow> length (mn_workspaces m') = length (mn_workspaces m)"
  unfolding mn_kept_def by (metis length_map)

lemma overview_open_kept: "mn_inv E m \<Longrightarrow> mn_kept E (mset (mn_ids m)) m (m\<lparr>mn_overview_open := b\<rparr>)"
  by (simp add: mn_kept_def mn_inv_def mn_switch_ok_def mn_ids_def wss_ok_setting[of "m\<lparr>mn_overview_open := b\<rparr>" m])

lemma overview_progress_kept: "mn_inv E m \<Longrightarrow> mn_kept E (mset (mn_ids m)) m (m\<lparr>mn_overview_progress := p\<rparr>)"
  by (simp add: mn_kept_def mn_inv_def mn_switch_ok_def mn_ids_def wss_ok_setting[of "m\<lparr>mn_overview_progress := p\<rparr>" m])

lemma restarted_goes_to: "goes_to x a \<Longrightarrow> anim_restarted E fr (an_to a) v a = Some a' \<Longrightarrow> goes_to x a'"
  by (auto simp: goes_to_def anim_restarted_def anim_ease_def anim_spring_def Let_def bind_eq_Some_conv
      split: if_splits anim_kind.splits)

lemma set_overview_ok:
  assumes inv: "mn_inv E m" and ex: "mn_set_overview_progress E' p m = Some m'"
  shows "mn_kept E (mset (mn_ids m)) m m'"
proof -
  define m1 where "m1 = m\<lparr>mn_overview_progress := map_option overview_from p\<rparr>"
  have k1: "mn_kept E (mset (mn_ids m)) m m1" unfolding m1_def by (rule overview_progress_kept[OF inv])
  note inv1 = kept_inv[OF k1]
  have ids: "mset (mn_ids m1) = mset (mn_ids m)" using k1 by (simp add: mn_kept_def)
  define put where "put = (\<lambda>a. m1\<lparr>mn_workspace_switch := Some (SwitchAnimation a)\<rparr>)"
  consider "m' = m1" | a a' where "mn_workspace_switch m1 = Some (SwitchAnimation a)"
      "anim_restarted E' (mn_workspace_render_idx E' m) (an_to a) 0 a = Some a'" "m' = put a'"
    using ex unfolding mn_set_overview_progress_def Let_def m1_def[symmetric] put_def[symmetric]
    by (auto split: if_splits option.splits workspace_switch.splits)
  then show ?thesis
  proof cases
    case (2 a a')
    have "switch_ok (length (mn_workspaces m1)) (SwitchAnimation a')"
      using switch_okD[OF inv1 2(1)] restarted_goes_to[OF _ 2(2)] by (auto simp: switch_ok_def)
    then have "mn_kept E (mset (mn_ids m1)) m1 m'" unfolding 2(3) put_def by (intro switch_changed[OF inv1]) simp
    from kept_trans[OF k1 this] show ?thesis unfolding ids .
  qed (use k1 in simp)
qed

lemma gesture_new_center: "wg_center_idx (gesture_new k x a b t) = k"
  by (simp add: gesture_new_def)

lemma gesture_begin_kept:
  assumes inv: "mn_inv E m"
  shows "mn_kept E (mset (mn_ids m)) m (mn_workspace_switch_gesture_begin E' tp m)"
    and "mn_kept E (mset (mn_ids m)) m (mn_dnd_scroll_gesture_begin E' now m)"
  unfolding mn_workspace_switch_gesture_begin_def mn_dnd_scroll_gesture_begin_def
  using mn_invD(4)[OF inv] by (auto simp: switch_ok_def gesture_new_center kept_refl[OF inv] intro!: switch_changed[OF inv])

text \<open>A gesture that goes on keeps its centre.\<close>

lemma gesture_goes_on:
  assumes inv: "mn_inv E m" and g: "mn_workspace_switch m = Some (SwitchGesture g)" and c: "wg_center_idx g' = wg_center_idx g"
  shows "mn_kept E (mset (mn_ids m)) m (m\<lparr>mn_workspace_switch := Some (SwitchGesture g')\<rparr>)"
  using switch_changed[OF inv, of "Some (SwitchGesture g')"] switch_okD[OF inv g] c by (simp add: switch_ok_def)

lemma gesture_update_kept:
  assumes inv: "mn_inv E m"
  shows "mn_workspace_switch_gesture_update E' dy t tp m = Some (m', b) \<Longrightarrow> mn_kept E (mset (mn_ids m)) m m'"
    and "mn_dnd_scroll_gesture_scroll E' now pos speed m = Some (m', c) \<Longrightarrow> mn_kept E (mset (mn_ids m)) m m'"
  unfolding mn_workspace_switch_gesture_update_def mn_dnd_scroll_gesture_scroll_def using inv
  by (auto simp: Let_def bind_eq_Some_conv split: option.splits workspace_switch.splits if_splits
      intro!: gesture_goes_on intro: kept_refl)

lemma gesture_min_max_less: "gesture_min_max n g = Some (lo, hi) \<Longrightarrow> \<exists>a b. lo = real a \<and> hi = real b \<and> a \<le> b \<and> b < n"
  by (cases n) (auto simp: gesture_min_max_def Let_def split: if_splits
      intro: exI[of _ "0 :: nat"] exI[of _ "n - 1"] exI[of _ "wg_center_idx g - 1"])

text \<open>The workspace a gesture ends on is one of the range.\<close>

lemma gesture_end_idx:
  assumes "a \<le> b"
  shows "nat (f_trunc (f_round (f_clamp x (real a) (real b)))) \<le> b"
proof -
  have "f_clamp x (real a) (real b) \<le> real b" "0 \<le> f_clamp x (real a) (real b)"
    using f_clamp_bounds[of "real a" "real b" x] assms by auto
  then have "f_round (f_clamp x (real a) (real b)) = of_int \<lfloor>f_clamp x (real a) (real b) + 1 / 2\<rfloor>"
    "0 \<le> \<lfloor>f_clamp x (real a) (real b) + 1 / 2\<rfloor>" "\<lfloor>f_clamp x (real a) (real b) + 1 / 2\<rfloor> \<le> int b"
    by (simp_all add: f_round_def) linarith+
  then show ?thesis by (simp add: f_trunc_def)
qed

lemma gesture_end_kept:
  assumes inv: "mn_inv E m"
  shows "mn_workspace_switch_gesture_end E' now tp m = Some (m', b) \<Longrightarrow> mn_kept E (mset (mn_ids m)) m m'"
    and "mn_dnd_scroll_gesture_end E' now m = Some m' \<Longrightarrow> mn_kept E (mset (mn_ids m)) m m'"
proof -
  show e: "mn_workspace_switch_gesture_end E' now tp m = Some (m', b) \<Longrightarrow> mn_kept E (mset (mn_ids m)) m m'" for tp b
  proof (cases "m' = m")
    case False
    assume ex: "mn_workspace_switch_gesture_end E' now tp m = Some (m', b)"
    define prev where "prev k = (if mn_active_workspace_idx m \<noteq> k
       then map_option (\<lambda>w. m\<lparr>mn_previous_workspace_id := Some (ws_id w)\<rparr>) (mn_active_workspace m) else Some m)" for k
    obtain g lo hi k m1 a x v where g: "gesture_min_max (length (mn_workspaces m)) g = Some (lo, hi)"
        "k = nat (f_trunc (f_round (f_clamp x lo hi)))" "prev k = Some m1"
        "anim_new E' (wg_current_idx g) (real k) v
            (ao_workspace_switch (op_animations (mp_shared (mn_options m1)))) = Some a"
        "m' = m1\<lparr>mn_active_workspace_idx := k, mn_workspace_switch := Some (SwitchAnimation a)\<rparr>"
      using ex False unfolding mn_workspace_switch_gesture_end_def Let_def prev_def[symmetric]
      by (auto simp: bind_eq_Some_conv split: option.splits workspace_switch.splits if_splits)
    obtain p where m1: "m1 = m\<lparr>mn_previous_workspace_id := p\<rparr>"
    proof (cases "mn_active_workspace_idx m = k")
      case True
      with g(3) have "m1 = m\<lparr>mn_previous_workspace_id := mn_previous_workspace_id m\<rparr>" by (cases m) (simp add: prev_def)
      then show thesis by (rule that)
    qed (use g(3) that in \<open>auto simp: prev_def\<close>)
    obtain c d where "lo = real c" "hi = real d" "c \<le> d" "d < length (mn_workspaces m)"
      using gesture_min_max_less[OF g(1)] by blast
    then have k: "k < length (mn_workspaces m)" using gesture_end_idx[of c d x] g(2) by simp
    then have "switch_ok (length (mn_workspaces m)) (SwitchAnimation a)"
      using anim_new_to[OF g(4)] by (auto simp: switch_ok_def)
    with refocused[OF inv k, of "Some (SwitchAnimation a)" p] show ?thesis by (simp add: g(5) m1)
  qed (use kept_refl[OF inv] in simp)
  assume "mn_dnd_scroll_gesture_end E' now m = Some m'"
  then show "mn_kept E (mset (mn_ids m)) m m'"
    using kept_refl[OF inv] e by (auto simp: mn_dnd_scroll_gesture_end_def split: if_splits)
qed

text \<open>\<open>advance_animations\<close>: the switch first, then every workspace.\<close>

lemma advance_follows:
  assumes "ws_belongs E m w" "ws_acyclic w" "configure_keeps E"
  shows "ws_follows E m w (ws_advance_animations E w)"
proof -
  have w: "ws_inv E w" using assms(1) by (simp add: ws_belongs_def)
  have "ws_exec E (WSize WAdvanceAnimations) w = Some (ws_advance_animations E w)" by simp
  note e = stays_quiet(3)[OF w assms(2,3), of WAdvanceAnimations] rest_exec[OF this]
  have "ws_same E w (ws_advance_animations E w)" using e(1) quiet_same by simp
  moreover have "ws_rest (ws_advance_animations E w) = ws_rest w" using e(2) by simp
  ultimately show ?thesis using assms(1)
    by (simp add: ws_follows_def ws_belongs_def ws_same_def) (simp add: ws_rest_def)
qed

lemma advance_ok:
  assumes inv: "mn_inv E m" and ac: "mn_acyclic m" and keep: "configure_keeps E"
    and ex: "mn_advance_animations E now m = Some m'"
  shows "mn_holds E (mset (mn_ids m)) m'"
proof -
  obtain s where s: "m' = m\<lparr>mn_workspaces := map (ws_advance_animations E) (mn_workspaces m),
        mn_active_workspace_idx := mn_active_workspace_idx m, mn_workspace_switch := s\<rparr>"
      "\<And>x. s = Some x \<Longrightarrow> switch_ok (length (mn_workspaces m)) x"
  proof -
    obtain m1 where m1: "(case mn_workspace_switch m of
         Some (SwitchAnimation a) \<Rightarrow>
           if anim_is_done E a then mn_clean_up_workspaces (m\<lparr>mn_workspace_switch := None\<rparr>) else Some m
       | Some (SwitchGesture g) \<Rightarrow> Some (m\<lparr>mn_workspace_switch := Some (SwitchGesture (gesture_advance E now g))\<rparr>)
       | None \<Rightarrow> Some m) = Some m1"
       "m' = m1\<lparr>mn_workspaces := map (ws_advance_animations E) (mn_workspaces m1)\<rparr>"
      using ex by (auto simp: mn_advance_animations_def bind_eq_Some_conv)
    have center: "wg_center_idx (gesture_advance E now g) = wg_center_idx g" for g
      by (simp add: gesture_advance_def Let_def split: option.split)
    have "m1 = m\<lparr>mn_workspace_switch := mn_workspace_switch m1\<rparr>"
      using m1(1) by (cases m) (auto split: option.splits workspace_switch.splits if_splits dest!: clean_up_id)
    moreover have "switch_ok (length (mn_workspaces m)) x" if "mn_workspace_switch m1 = Some x" for x
      using m1(1) that switch_okD[OF inv] center
      by (auto simp: switch_ok_def split: option.splits workspace_switch.splits if_splits dest!: clean_up_id)
    ultimately show thesis using m1(2) that[of "mn_workspace_switch m1"] by (cases m; cases m1) auto
  qed
  have a: "ws_acyclic w" if "w \<in> set (mn_workspaces m)" for w
    unfolding ws_acyclic_def by (rule acyclic_subset[OF ac[unfolded mn_acyclic_def]]) (use that in \<open>auto simp: mn_tiles_def\<close>)
  have "ws_follows E m w (ws_advance_animations E w)" if "w \<in> set (mn_workspaces m)" for w
    using advance_follows[OF _ a[OF that] keep] mn_invD(1)[OF inv] that by (auto simp: wss_ok_def)
  from map_follows[OF this]
  have f: "list_all2 (ws_follows E m) (mn_workspaces m) (map (ws_advance_animations E) (mn_workspaces m))" by blast
  from holds_switch[OF follows_ok[OF f mn_invD(1)[OF inv]] mn_invD(3)[OF inv], of "mn_active_workspace_idx m" s]
    mn_invD(4)[OF inv] s follows_lists(2)[OF f]
  show ?thesis by (simp add: mn_ids_def)
qed

end
