(* ===== verification/MonitorCommands.thy ===== *)
theory MonitorCommands
  imports MonitorUpdates
begin

text \<open>
  The operations of a monitor as one type of commands, when the layout runs them, what each does to the windows, and
  the states they reach.
\<close>

section \<open>Commands\<close>

text \<open>Switching, gestures, animations and the overview.\<close>

datatype mn_switch_op =
    MActivate nat | MSwitch nat | MSwitchUp | MSwitchDown | MSwitchPrevious | MSwitchBackAndForth nat
  | MGestureBegin bool | MGestureUpdate f64 duration bool | MGestureEnd duration "bool option"
  | MDndBegin duration | MDndScroll duration point f64 | MDndEnd duration
  | MOverview "layout_overview option" | MOverviewOpen bool | MAdvance duration

primrec mn_exec_switch :: "env \<Rightarrow> mn_switch_op \<Rightarrow> monitor \<Rightarrow> monitor option" where
  "mn_exec_switch E (MActivate idx) m = mn_activate_workspace E idx m"
| "mn_exec_switch E (MSwitch idx) m = mn_switch_workspace E idx m"
| "mn_exec_switch E MSwitchUp m = mn_switch_workspace_up E m"
| "mn_exec_switch E MSwitchDown m = mn_switch_workspace_down E m"
| "mn_exec_switch E MSwitchPrevious m = mn_switch_workspace_previous E m"
| "mn_exec_switch E (MSwitchBackAndForth idx) m = mn_switch_workspace_auto_back_and_forth E idx m"
| "mn_exec_switch E (MGestureBegin tp) m = Some (mn_workspace_switch_gesture_begin E tp m)"
| "mn_exec_switch E (MGestureUpdate dy t tp) m = map_option fst (mn_workspace_switch_gesture_update E dy t tp m)"
| "mn_exec_switch E (MGestureEnd now tp) m = map_option fst (mn_workspace_switch_gesture_end E now tp m)"
| "mn_exec_switch E (MDndBegin now) m = Some (mn_dnd_scroll_gesture_begin E now m)"
| "mn_exec_switch E (MDndScroll now pos speed) m = map_option fst (mn_dnd_scroll_gesture_scroll E now pos speed m)"
| "mn_exec_switch E (MDndEnd now) m = mn_dnd_scroll_gesture_end E now m"
| "mn_exec_switch E (MOverview p) m = mn_set_overview_progress E p m"
| "mn_exec_switch E (MOverviewOpen b) m = Some (m\<lparr>mn_overview_open := b\<rparr>)"
| "mn_exec_switch E (MAdvance now) m = mn_advance_animations E now m"

text \<open>Windows and columns that go to another workspace.\<close>

datatype mn_move_op =
    MMoveUp bool | MMoveDown bool | MMoveTo "nat option" nat activate_window
  | MMoveColumnUp bool | MMoveColumnDown bool | MMoveColumnTo nat bool
  | MMoveDownOrDown | MMoveUpOrUp | MFocusDownOrDown | MFocusUpOrUp

primrec mn_exec_move :: "env \<Rightarrow> mn_move_op \<Rightarrow> monitor \<Rightarrow> monitor option" where
  "mn_exec_move E (MMoveUp focus) m = mn_move_to_workspace_up E focus m"
| "mn_exec_move E (MMoveDown focus) m = mn_move_to_workspace_down E focus m"
| "mn_exec_move E (MMoveTo i idx a) m = mn_move_to_workspace E i idx a m"
| "mn_exec_move E (MMoveColumnUp a) m = mn_move_column_to_workspace_up E a m"
| "mn_exec_move E (MMoveColumnDown a) m = mn_move_column_to_workspace_down E a m"
| "mn_exec_move E (MMoveColumnTo idx a) m = mn_move_column_to_workspace E idx a m"
| "mn_exec_move E MMoveDownOrDown m = mn_move_down_or_to_workspace_down E m"
| "mn_exec_move E MMoveUpOrUp m = mn_move_up_or_to_workspace_up E m"
| "mn_exec_move E MFocusDownOrDown m = mn_focus_window_or_workspace_down E m"
| "mn_exec_move E MFocusUpOrUp m = mn_focus_window_or_workspace_up E m"

text \<open>The list of workspaces, the configuration and the output, whose new readings come with the command.\<close>

datatype mn_list_op =
    MAddWorkspaceAt nat nat | MInsertWorkspace workspace nat bool | MAppendWorkspaces "workspace list"
  | MRemoveWorkspace nat | MMoveWorkspaceDown | MMoveWorkspaceUp | MMoveWorkspaceTo nat nat | MUnname nat
  | MUpdateConfig monitor_options | MUpdateLayoutConfig "layout_part option" | MUpdateOutput wl_output

primrec mn_exec_list :: "env \<Rightarrow> mn_list_op \<Rightarrow> monitor \<Rightarrow> monitor option" where
  "mn_exec_list E (MAddWorkspaceAt i idx) m = mn_add_workspace_at E i idx m"
| "mn_exec_list E (MInsertWorkspace w idx a) m = mn_insert_workspace E w idx a m"
| "mn_exec_list E (MAppendWorkspaces ws) m = mn_append_workspaces E ws m"
| "mn_exec_list E (MRemoveWorkspace idx) m = map_option snd (mn_remove_workspace_by_idx E idx m)"
| "mn_exec_list E MMoveWorkspaceDown m = mn_move_workspace_down E m"
| "mn_exec_list E MMoveWorkspaceUp m = mn_move_workspace_up E m"
| "mn_exec_list E (MMoveWorkspaceTo a b) m = mn_move_workspace_to_idx a b m"
| "mn_exec_list E (MUnname i) m = map_option fst (mn_unname_workspace i m)"
| "mn_exec_list E (MUpdateConfig base) m = Some (mn_update_config E base m)"
| "mn_exec_list E (MUpdateLayoutConfig part) m = Some (fst (mn_update_layout_config E part m))"
| "mn_exec_list E (MUpdateOutput out) m = mn_update_output_size E (m\<lparr>mn_output := out\<rparr>)"

datatype mn_op =
    MAddWindow mapped monitor_target activate_window column_width bool bool
  | MAddTile tile monitor_target activate_window bool column_width bool bool
  | MAddColumn nat column bool
  | MAddTileToColumn nat tile bool bool
  | MSwitching mn_switch_op
  | MMoving mn_move_op
  | MListing mn_list_op
  | MOnWorkspace nat ws_op

primrec mn_exec :: "env \<Rightarrow> mn_op \<Rightarrow> monitor \<Rightarrow> monitor option" where
  "mn_exec E (MAddWindow win target a width full fl) m = mn_add_window E win target a width full fl m"
| "mn_exec E (MAddTile t target a allow width full fl) m = mn_add_tile E t target a allow width full fl m"
| "mn_exec E (MAddColumn idx c a) m = mn_add_column E idx c a m"
| "mn_exec E (MAddTileToColumn idx t a allow) m = mn_add_tile_to_column E idx t a allow m"
| "mn_exec E (MSwitching op) m = mn_exec_switch E op m"
| "mn_exec E (MMoving op) m = mn_exec_move E op m"
| "mn_exec E (MListing op) m = mn_exec_list E op m"
| "mn_exec E (MOnWorkspace k op) m = mn_at k (ws_exec E op) m"

section \<open>When the layout runs them\<close>

text \<open>A workspace that joins comes from nowhere or another output, with windows and an identifier of its own.\<close>

definition joins :: "env \<Rightarrow> workspace list \<Rightarrow> monitor \<Rightarrow> bool" where
  "joins E ws m \<longleftrightarrow> (\<forall>w\<in>set ws. ws_reach E w \<and> ws_output w \<noteq> Some (ou_id (mn_output m))) \<and>
     distinct (map ws_id ws) \<and> ws_id ` set ws \<inter> ws_id ` set (mn_workspaces m) = {} \<and>
     distinct (concat (map ws_ids ws)) \<and> set (concat (map ws_ids ws)) \<inter> set (mn_ids m) = {}"

text \<open>The layout runs the other commands of a workspace directly; windows it adds through the monitor.\<close>

fun ws_local :: "ws_op \<Rightarrow> bool" where
  "ws_local (WAddTile _ _ _ _ _ _) = False"
| "ws_local (WAddTileToColumn _ _) = False"
| "ws_local (WAddColumn _ _) = False"
| "ws_local (WConfig _) = False"
| "ws_local _ = True"

primrec mn_list_allowed :: "env \<Rightarrow> mn_list_op \<Rightarrow> monitor \<Rightarrow> bool" where
  "mn_list_allowed E (MAddWorkspaceAt i _) m \<longleftrightarrow> i \<notin> ws_id ` set (mn_workspaces m)"
| "mn_list_allowed E (MInsertWorkspace w _ _) m \<longleftrightarrow> joins E [w] m"
| "mn_list_allowed E (MAppendWorkspaces ws) m \<longleftrightarrow> joins E ws m"
| "mn_list_allowed E (MRemoveWorkspace _) m \<longleftrightarrow> 1 < length (mn_workspaces m)"
| "mn_list_allowed E MMoveWorkspaceDown m \<longleftrightarrow> True"
| "mn_list_allowed E MMoveWorkspaceUp m \<longleftrightarrow> True"
| "mn_list_allowed E (MMoveWorkspaceTo _ _) m \<longleftrightarrow> True"
| "mn_list_allowed E (MUnname _) m \<longleftrightarrow> True"
| "mn_list_allowed E (MUpdateConfig _) m \<longleftrightarrow> True"
| "mn_list_allowed E (MUpdateLayoutConfig _) m \<longleftrightarrow> True"
| "mn_list_allowed E (MUpdateOutput out) m \<longleftrightarrow> ou_id out = ou_id (mn_output m)"

text \<open>No window is added twice, no window is its own ancestor, and an index the caller found is one of the list.\<close>

fun mn_op_allowed :: "env \<Rightarrow> mn_op \<Rightarrow> monitor \<Rightarrow> bool" where
  "mn_op_allowed E (MAddWindow win _ _ _ _ _) m \<longleftrightarrow> mw_id win \<notin> set (mn_ids m) \<and>
     (\<forall>w\<in>set (mn_workspaces m). parents_acyclic (ws_make_tile win w # mn_tiles m))"
| "mn_op_allowed E (MAddTile t _ _ _ _ _ _) m \<longleftrightarrow> tile_id t \<notin> set (mn_ids m) \<and> parents_acyclic (t # mn_tiles m)"
| "mn_op_allowed E (MAddColumn _ c _) m \<longleftrightarrow> column_id c \<notin> set (mn_ids m) \<and> not_both c"
| "mn_op_allowed E (MAddTileToColumn _ t _ _) m \<longleftrightarrow> tile_id t \<notin> set (mn_ids m)"
| "mn_op_allowed E (MSwitching (MActivate idx)) m \<longleftrightarrow> idx < length (mn_workspaces m)"
| "mn_op_allowed E (MSwitching (MAdvance _)) m \<longleftrightarrow> mn_acyclic m"
| "mn_op_allowed E (MSwitching _) m \<longleftrightarrow> True"
| "mn_op_allowed E (MMoving _) m \<longleftrightarrow> mn_acyclic m"
| "mn_op_allowed E (MListing op) m \<longleftrightarrow> mn_list_allowed E op m"
| "mn_op_allowed E (MOnWorkspace k op) m \<longleftrightarrow> ws_local op \<and> (k < length (mn_workspaces m) \<longrightarrow> ws_allowed op (mn_workspaces m ! k))"

text \<open>
  With the setting \<open>empty-workspace-above-first\<close> on, a command that touches the first workspace counts with a new one
  above it, which is never made. The position it then goes to has to exist.
\<close>

fun above_first_fits :: "mn_op \<Rightarrow> monitor \<Rightarrow> bool" where
  "above_first_fits (MAddWindow _ _ _ _ _ _) m \<longleftrightarrow> 1 < length (mn_workspaces m)"
| "above_first_fits (MAddTile _ _ _ _ _ _ _) m \<longleftrightarrow> 1 < length (mn_workspaces m)"
| "above_first_fits (MAddColumn _ _ _) m \<longleftrightarrow> 1 < length (mn_workspaces m)"
| "above_first_fits (MMoving _) m \<longleftrightarrow> 1 < length (mn_workspaces m)"
| "above_first_fits (MListing MMoveWorkspaceDown) m \<longleftrightarrow>
     \<not> (mn_active_workspace_idx m = 0 \<and> length (mn_workspaces m) = 2)"
| "above_first_fits (MListing (MMoveWorkspaceTo a b)) m \<longleftrightarrow>
     \<not> (mn_active_workspace_idx m = 0 \<and> a = 0 \<and> 1 < length (mn_workspaces m) \<and> length (mn_workspaces m) \<le> b + 1)"
| "above_first_fits _ m \<longleftrightarrow> True"

definition mn_allowed :: "env \<Rightarrow> mn_op \<Rightarrow> monitor \<Rightarrow> bool" where
  "mn_allowed E op m \<longleftrightarrow> (mp_above_first (mn_options m) \<longrightarrow> above_first_fits op m) \<and> mn_op_allowed E op m"

text \<open>The windows after a new configuration, see \<open>mn_config_drops\<close>.\<close>

definition config_windows :: "layout_part option \<Rightarrow> monitor_options \<Rightarrow> monitor \<Rightarrow> nat multiset" where
  "config_windows part base m =
     (if mn_config_drops part base m then mset (mn_ids m) - mset (ws_ids (hd (mn_workspaces m))) else mset (mn_ids m))"

text \<open>What a command does to the windows.\<close>

fun mn_windows_after :: "mn_op \<Rightarrow> monitor \<Rightarrow> nat multiset" where
  "mn_windows_after (MAddWindow win _ _ _ _ _) m = add_mset (mw_id win) (mset (mn_ids m))"
| "mn_windows_after (MAddTile t _ _ _ _ _ _) m = add_mset (tile_id t) (mset (mn_ids m))"
| "mn_windows_after (MAddColumn _ c _) m = add_mset (column_id c) (mset (mn_ids m))"
| "mn_windows_after (MAddTileToColumn _ t _ _) m = add_mset (tile_id t) (mset (mn_ids m))"
| "mn_windows_after (MListing (MInsertWorkspace w _ _)) m = mset (mn_ids m) + mset (ws_ids w)"
| "mn_windows_after (MListing (MAppendWorkspaces ws)) m = mset (mn_ids m) + mset (concat (map ws_ids ws))"
| "mn_windows_after (MListing (MRemoveWorkspace idx)) m = mset (mn_ids m) - mset (ws_ids (mn_workspaces m ! mn_made idx m))"
| "mn_windows_after (MListing (MUpdateConfig base)) m = config_windows (mn_layout_config m) base m"
| "mn_windows_after (MListing (MUpdateLayoutConfig part)) m =
     (if mn_layout_config m = part then mset (mn_ids m) else config_windows part (mn_base_options m) m)"
| "mn_windows_after (MOnWorkspace k op) m =
     mset (mn_ids m) - mset (ws_ids (mn_workspaces m ! k)) + ws_windows_after op (mn_workspaces m ! k)"
| "mn_windows_after _ m = mset (mn_ids m)"

section \<open>Every command\<close>

lemma switch_step:
  assumes inv: "mn_inv E m" and ok: "mn_op_allowed E (MSwitching op) m" and keep: "configure_keeps E"
    and ex: "mn_exec_switch E op m = Some m'"
  shows "mn_holds E (mset (mn_ids m)) m'"
proof (cases op)
  case (MActivate idx)
  with ok ex activate_kept(1)[OF inv, of idx E None m'] show ?thesis by (auto simp: mn_activate_workspace_def intro: kept_holds)
next
  case (MAdvance now)
  with ok ex advance_ok[OF inv _ keep] show ?thesis by simp
next
  case (MSwitchBackAndForth idx)
  with ex show ?thesis by (auto intro: kept_holds switch_kept(5)[OF inv])
qed (use ex switch_kept[OF inv, of E] in \<open>auto intro: kept_holds gesture_begin_kept[OF inv] gesture_update_kept[OF inv]
    gesture_end_kept[OF inv] set_overview_ok[OF inv] overview_open_kept[OF inv]\<close>)

lemma move_down_false: "ws_move_down E w = Some (w', False) \<Longrightarrow> w' = w" "ws_move_up E w = Some (w', False) \<Longrightarrow> w' = w"
  by (auto simp: ws_move_down_def ws_move_up_def ws_move_by_def ask_ss_def move_down_def move_up_def bind_eq_Some_conv
      split: if_splits focus.splits)

lemma acyclic_at: "mn_acyclic m \<Longrightarrow> w \<in> set (mn_workspaces m) \<Longrightarrow> ws_acyclic w"
  unfolding mn_acyclic_def ws_acyclic_def by (erule acyclic_subset) (auto simp: mn_tiles_def)

text \<open>Movement and focus within a workspace of the monitor.\<close>

lemma ws_quiet_at:
  assumes inv: "mn_inv E m" and ac: "mn_acyclic m" and keep: "configure_keeps E" and w: "w \<in> set (mn_workspaces m)"
  shows "ws_exec E (WFocus fop) w = Some w' \<Longrightarrow> ws_same E w w' \<and> ws_rest w' = ws_rest w"
    and "ws_exec E (WMove mop) w = Some w' \<Longrightarrow> ws_same E w w' \<and> ws_rest w' = ws_rest w"
proof -
  have wi: "ws_inv E w" using mn_invD(1)[OF inv] w by (simp add: wss_ok_def ws_belongs_def)
  note q = stays_quiet[OF wi acyclic_at[OF ac w] keep]
  show "ws_exec E (WFocus fop) w = Some w' \<Longrightarrow> ws_same E w w' \<and> ws_rest w' = ws_rest w"
    using q(1)[THEN quiet_same] rest_exec[of E "WFocus fop" w w'] by simp
  show "ws_exec E (WMove mop) w = Some w' \<Longrightarrow> ws_same E w w' \<and> ws_rest w' = ws_rest w"
    using q(2)[THEN quiet_same] rest_exec[of E "WMove mop" w w'] by simp
qed

lemma or_ops_kept:
  assumes inv: "mn_inv E m" and room: "mn_roomy m" and ac: "mn_acyclic m" and keep: "configure_keeps E"
  shows "mn_move_down_or_to_workspace_down E m = Some m' \<Longrightarrow> mn_kept E (mset (mn_ids m)) m m'"
    and "mn_move_up_or_to_workspace_up E m = Some m' \<Longrightarrow> mn_kept E (mset (mn_ids m)) m m'"
    and "mn_focus_window_or_workspace_down E m = Some m' \<Longrightarrow> mn_kept E (mset (mn_ids m)) m m'"
    and "mn_focus_window_or_workspace_up E m = Some m' \<Longrightarrow> mn_kept E (mset (mn_ids m)) m m'"
proof -
  note q = ws_quiet_at[OF inv ac keep]
  note mv = move_to_kept[OF inv room ac] switch_kept[OF inv, of E]
  show "mn_move_down_or_to_workspace_down E m = Some m' \<Longrightarrow> mn_kept E (mset (mn_ids m)) m m'"
    unfolding mn_move_down_or_to_workspace_down_def
    by (erule or_kept[OF inv, rotated 3]) (use q(2)[where mop = WMoveDown] mv move_down_false in auto)
  show "mn_move_up_or_to_workspace_up E m = Some m' \<Longrightarrow> mn_kept E (mset (mn_ids m)) m m'"
    unfolding mn_move_up_or_to_workspace_up_def
    by (erule or_kept[OF inv, rotated 3]) (use q(2)[where mop = WMoveUp] mv move_down_false in auto)
  show "mn_focus_window_or_workspace_down E m = Some m' \<Longrightarrow> mn_kept E (mset (mn_ids m)) m m'"
    unfolding mn_focus_window_or_workspace_down_def
    by (erule or_kept[OF inv, rotated 3]) (use q(1)[where fop = WFocusDown] mv focus_false in auto)
  show "mn_focus_window_or_workspace_up E m = Some m' \<Longrightarrow> mn_kept E (mset (mn_ids m)) m m'"
    unfolding mn_focus_window_or_workspace_up_def
    by (erule or_kept[OF inv, rotated 3]) (use q(1)[where fop = WFocusUp] mv focus_false in auto)
qed

lemma move_step:
  assumes "mn_inv E m" "mn_roomy m" "mn_acyclic m" "configure_keeps E" "mn_exec_move E op m = Some m'"
  shows "mn_holds E (mset (mn_ids m)) m'"
proof (cases op)
  case (MMoveTo i idx a)
  with assms(5) move_to_workspace_outcome[OF assms(1-3) _ refl, of i idx a m'] show ?thesis by (auto dest: kept_holds)
qed (use assms(5) in \<open>auto intro: kept_holds dest: move_to_kept[OF assms(1-3)] move_columns_kept[OF assms(1-3)]
      or_ops_kept[OF assms(1-4)]\<close>)

lemma joinsD:
  assumes "joins E ws m"
  shows "w \<in> set ws \<Longrightarrow> ws_inv E w \<and> ws_output w \<noteq> Some (ou_id (mn_output m))" "distinct (map ws_id ws)"
    "ws_id ` set ws \<inter> ws_id ` set (mn_workspaces m) = {}" "distinct (concat (map ws_ids ws))"
    "set (concat (map ws_ids ws)) \<inter> set (mn_ids m) = {}"
  using assms ws_reach_inv by (auto simp: joins_def)

lemma list_step:
  assumes inv: "mn_inv E m" and room: "mp_above_first (mn_options m) \<longrightarrow> above_first_fits (MListing op) m"
    and ok: "mn_list_allowed E op m"
    and ex: "mn_exec_list E op m = Some m'"
  shows "mn_holds E (mn_windows_after (MListing op) m) m'"
proof (cases op)
  case (MInsertWorkspace w idx a)
  with ok have "joins E [w] m" by simp
  note j = joinsD[OF this]
  from insert_workspace_ok[OF inv, of w E idx a m'] j(1)[of w] j(3,5) ex MInsertWorkspace show ?thesis by simp
next
  case (MAppendWorkspaces ws)
  with ok have "joins E ws m" by simp
  from append_workspaces_ok[OF inv joinsD[OF this]] ex MAppendWorkspaces show ?thesis by simp
next
  case (MRemoveWorkspace idx)
  with ex obtain w where "mn_remove_workspace_by_idx E idx m = Some (w, m')" by auto
  with remove_workspace_ok[OF inv _ this] ok MRemoveWorkspace show ?thesis by (simp add: mn_holds_def)
next
  case (MUnname i)
  with ex unname_kept[OF inv] show ?thesis by (auto intro: kept_holds)
next
  case (MUpdateConfig base)
  with ex update_config_ok[OF inv, of "mn_layout_config m" base] show ?thesis by (simp add: same_layout_config config_windows_def)
next
  case (MUpdateLayoutConfig part)
  with ex update_config_ok[OF inv, of part "mn_base_options m"] holds_refl[OF inv] show ?thesis
    by (simp add: mn_update_layout_config_def config_windows_def split: if_splits)
next
  case MMoveWorkspaceDown
  have "mn_below m < length (mn_workspaces m) \<or> length (mn_workspaces m) = 1 \<or> mn_active_workspace_idx m \<noteq> 0"
  proof -
    consider "length (mn_workspaces m) = 1" | "length (mn_workspaces m) = 2" | "2 < length (mn_workspaces m)"
      using mn_invD(4)[OF inv] by linarith
    then show ?thesis using room MMoveWorkspaceDown by cases (auto simp: mn_below_def)
  qed
  with ex move_workspace_ok(1)[OF inv, of E m'] MMoveWorkspaceDown show ?thesis by simp
next
  case (MMoveWorkspaceTo a b)
  with ex have "mn_move_workspace_to_idx a b m = Some m'" by simp
  from move_to_idx_ok[OF inv this] room mn_invD(4)[OF inv] MMoveWorkspaceTo show ?thesis
    by (cases "length (mn_workspaces m) = 1") auto
qed (use ex ok add_workspace_at_ok[OF inv] move_workspace_ok(2)[OF inv, of E] update_output_ok[OF inv] in auto)

lemma local_windows: "ws_local op \<Longrightarrow> ws_windows_after op w \<subseteq># mset (ws_ids w)"
  by (cases op) (auto split: option.splits)

lemma distinct_subset_mset: "mset xs \<subseteq># mset ys \<Longrightarrow> distinct ys \<Longrightarrow> distinct xs"
proof -
  assume "mset xs \<subseteq># mset ys" "distinct ys"
  moreover obtain zs where "mset ys = mset xs + mset zs"
    using \<open>mset xs \<subseteq># mset ys\<close> by (metis ex_mset subset_mset.le_iff_add)
  ultimately show "distinct xs" using mset_eq_imp_distinct_iff[of ys "xs @ zs"] by simp
qed

lemma ids_split:
  assumes "k < length (mn_workspaces m)"
  shows "\<exists>R. mset (mn_ids m) = mset (ws_ids (mn_workspaces m ! k)) + R \<and>
    (\<forall>w. mset (mn_ids (m\<lparr>mn_workspaces := (mn_workspaces m)[k := w]\<rparr>)) = mset (ws_ids w) + R)"
proof -
  have "mset (mn_workspaces m) = add_mset (mn_workspaces m ! k) (mset (take k (mn_workspaces m) @ drop (Suc k) (mn_workspaces m)))"
    using mset_remove_nth[OF assms] by simp
  moreover have "mset ((mn_workspaces m)[k := w]) = add_mset w (mset (take k (mn_workspaces m) @ drop (Suc k) (mn_workspaces m)))" for w
    using assms calculation by (simp add: mset_update)
  ultimately show ?thesis unfolding mn_ids_def concat_mset by simp
qed

lemma at_step:
  assumes inv: "mn_inv E m" and loc: "ws_local op" and k: "k < length (mn_workspaces m)" and ok: "ws_allowed op (mn_workspaces m ! k)"
    and keep: "configure_keeps E" and ex: "ws_exec E op (mn_workspaces m ! k) = Some w"
  shows "mn_holds E (mn_windows_after (MOnWorkspace k op) m) (m\<lparr>mn_workspaces := (mn_workspaces m)[k := w]\<rparr>)"
proof -
  let ?w = "mn_workspaces m ! k" and ?m = "m\<lparr>mn_workspaces := (mn_workspaces m)[k := w]\<rparr>"
  have a: "ws_inv E w" "mset (ws_ids w) = ws_windows_after op ?w"
    using ws_step[OF mn_invD(6)[OF inv k] ok keep ex] by (simp_all add: ws_after_def)
  have r: "ws_rest w = ws_rest ?w" by (rule rest_exec[OF ex]) (use loc in auto)
  obtain R where R: "mset (mn_ids m) = mset (ws_ids ?w) + R" "mset (mn_ids ?m) = mset (ws_ids w) + R"
    using ids_split[OF k] by blast
  have eq: "mset (mn_ids ?m) = mset (mn_ids m) - mset (ws_ids ?w) + ws_windows_after op ?w" by (simp add: R a(2))
  have "mset (mn_ids ?m) \<subseteq># mset (mn_ids m)" unfolding R a(2) using local_windows[OF loc, of ?w] by simp
  then have "distinct (mn_ids ?m)" using mn_invD(5)[OF inv] by (rule distinct_subset_mset)
  from at_kept[OF inv k a(1) r eq this] show ?thesis by (simp add: kept_holds)
qed

lemma acyclic_add:
  assumes "parents_acyclic (t # mn_tiles m)" "k < length (mn_workspaces m)"
  shows "parents_acyclic (t # ws_tiles (mn_workspaces m ! k))"
proof -
  have "set (ws_tiles (mn_workspaces m ! k)) \<subseteq> set (mn_tiles m)" using nth_mem[OF assms(2)] by (fastforce simp: mn_tiles_def)
  then show ?thesis by (intro acyclic_subset[OF assms(1)]) auto
qed

lemma add_tile_step:
  assumes inv: "mn_inv E m" and room: "mn_roomy m"
    and new: "tile_id t \<notin> set (mn_ids m)" and ac: "parents_acyclic (t # mn_tiles m)"
    and ex: "mn_add_tile E t target a allow width full fl m = Some m'"
  shows "mn_holds E (add_mset (tile_id t) (mset (mn_ids m))) m'"
proof -
  obtain k tgt where r: "mn_resolve_add_window_target target m = Some (k, tgt)"
    using ex by (auto simp: mn_add_tile_def bind_eq_Some_conv)
  from add_tile_outcome[OF inv room r new acyclic_add[OF ac resolve_less(1)[OF inv r]] ex] show ?thesis
    by (rule kept_holds)
qed

lemma mn_step:
  assumes inv: "mn_inv E m" and ok: "mn_allowed E op m" and keep: "configure_keeps E" and ex: "mn_exec E op m = Some m'"
  shows "mn_holds E (mn_windows_after op m) m'"
proof -
  note fits = ok[unfolded mn_allowed_def, THEN conjunct1]
  show ?thesis
  proof (cases op)
    case (MAddWindow win target a width full fl)
    with ex obtain w where w: "w \<in> set (mn_workspaces m)" "mn_add_tile E (ws_make_tile win w) target a True width full fl m = Some m'"
      by (auto simp: mn_add_window_def bind_eq_Some_conv vec_simps intro: nth_mem)
    have id: "tile_id (ws_make_tile win w) = mw_id win" by (simp add: ws_make_tile_def tile_new_def)
    have room: "mn_roomy m" using fits MAddWindow by (simp add: mn_roomy_def)
    from add_tile_step[OF inv room _ _ w(2), unfolded id] ok w(1) MAddWindow show ?thesis by (simp add: mn_allowed_def)
  next
    case (MAddTile t target a allow width full fl)
    with ex have "mn_add_tile E t target a allow width full fl m = Some m'" by simp
    moreover have "mn_roomy m" using fits MAddTile by (simp add: mn_roomy_def)
    ultimately show ?thesis using add_tile_step[OF inv] ok MAddTile by (simp add: mn_allowed_def)
  next
    case (MAddColumn idx c a)
    with ex have "mn_add_column E idx c a m = Some m'" by simp
    note ex' = this
    have room: "mn_roomy m" using fits MAddColumn by (simp add: mn_roomy_def)
    from add_column_kept[OF inv room _ _ ex'] ok MAddColumn show ?thesis by (auto simp: mn_allowed_def intro: kept_holds)
  next
    case (MAddTileToColumn idx t a allow)
    with ex have "mn_add_tile_to_column E idx t a allow m = Some m'" by simp
    from add_to_column_kept[OF inv _ this] ok MAddTileToColumn show ?thesis by (auto simp: mn_allowed_def intro: kept_holds)
  next
    case (MSwitching sop)
    with ok ex switch_step[OF inv _ keep, of sop m'] show ?thesis by (simp add: mn_allowed_def)
  next
    case (MMoving mop)
    have room: "mn_roomy m" using fits MMoving by (simp add: mn_roomy_def)
    from MMoving ok ex move_step[OF inv room _ keep, of mop m'] show ?thesis by (simp add: mn_allowed_def)
  next
    case (MListing lop)
    with ok fits ex list_step[OF inv _ _, of lop m'] show ?thesis by (simp add: mn_allowed_def)
  next
    case (MOnWorkspace k wop)
    with ex obtain w where w: "k < length (mn_workspaces m)" "ws_exec E wop (mn_workspaces m ! k) = Some w"
        "m' = m\<lparr>mn_workspaces := (mn_workspaces m)[k := w]\<rparr>" by (auto simp: at_Some)
    with at_step[OF inv _ w(1) _ keep w(2)] ok MOnWorkspace show ?thesis by (simp add: mn_allowed_def)
  qed
qed

section \<open>Reachable states\<close>

lemma mn_inv_env: "e_phys_ceil E' = e_phys_ceil E \<Longrightarrow> e_phys_round E' = e_phys_round E \<Longrightarrow> mn_inv E' m = mn_inv E m"
  unfolding mn_inv_def wss_ok_def ws_belongs_def by (simp only: ws_inv_env[of E' E])

text \<open>A monitor starts with workspaces that had another output or none, the counter of identifiers being past theirs.\<close>

definition starts_with :: "env \<Rightarrow> nat \<Rightarrow> wl_output \<Rightarrow> workspace list \<Rightarrow> bool" where
  "starts_with E i out ws \<longleftrightarrow> (\<forall>w\<in>set ws. ws_reach E w \<and> ws_output w \<noteq> Some (ou_id out) \<and> ws_id w < i) \<and>
     distinct (map ws_id ws) \<and> distinct (concat (map ws_ids ws))"

inductive mn_reach :: "env \<Rightarrow> monitor \<Rightarrow> bool" for E where
  mn_start: "starts_with E i out ws \<Longrightarrow> mn_new E i out ws j base part = Some m \<Longrightarrow> mn_reach E m"
| mn_next: "mn_reach E m \<Longrightarrow> e_phys_ceil E' = e_phys_ceil E \<Longrightarrow> e_phys_round E' = e_phys_round E \<Longrightarrow>
     configure_keeps E' \<Longrightarrow> mn_allowed E' op m \<Longrightarrow> mn_exec E' op m = Some m' \<Longrightarrow> mn_reach E m'"

inductive_cases mn_reachE: "mn_reach E m"

lemma start_ok:
  assumes "starts_with E i out ws" "mn_new E i out ws j base part = Some m"
  shows "mn_holds E (mset (concat (map ws_ids ws))) m \<and>
    length (mn_workspaces m) = max (length ws) (max (lo_workspace_count (op_layout (mp_shared (mn_options m)))) 1)"
proof -
  have "mn_holds E (mset (concat (map ws_ids ws))) m \<and>
      length (mn_workspaces m) = max (length ws) (max (lo_workspace_count (op_layout (mp_shared (mn_options m)))) 1) \<and>
      map ws_id (take (length ws) (mn_workspaces m)) = map ws_id ws"
    by (rule new_ok[OF _ _ _ _ assms(2)]) (use assms(1) ws_reach_inv in \<open>auto simp: starts_with_def\<close>)
  then show ?thesis by simp
qed

lemma mn_reach_inv: "mn_reach E m \<Longrightarrow> mn_inv E m"
proof (induction rule: mn_reach.induct)
  case (mn_start i out ws j base part m)
  from start_ok[OF this] show ?case by (simp add: mn_holds_def)
next
  case (mn_next m E' op m')
  with mn_step[of E' m op m'] mn_inv_env[OF mn_next.hyps(2,3)] show ?case by (simp add: mn_holds_def)
qed

end
