(* ===== verification/MonitorTotal.thy ===== *)
theory MonitorTotal
  imports MonitorCommands
begin

text \<open>
  That the operations of a monitor return: switching, gestures, adding a window and moving one to another workspace
  succeed whenever the animation configured for the switch is \<open>startable\<close>: off, an easing, or a spring within the
  bounds of the configuration that is not overdamped, as the default is. Starting it cannot panic then.
\<close>

section \<open>Switching\<close>

definition mn_startable :: "monitor \<Rightarrow> bool" where
  "mn_startable m \<longleftrightarrow> startable (ao_workspace_switch (op_animations (mp_shared (mn_options m))))"

lemma activate_total:
  assumes act: "mn_active_workspace_idx m < length (mn_workspaces m)" and ez: "mn_startable m"
  shows "\<exists>m'. mn_activate_workspace E idx m = Some m'"
proof -
  have a: "anim_new E fr to v (ao_workspace_switch (op_animations (mp_shared (mn_options m)))) \<noteq> None" for fr to v
    using startable_new[of _ E fr to v] ez by (auto simp: mn_startable_def)
  have g: "gesture_animate_from E fr (ao_workspace_switch (op_animations (mp_shared (mn_options m)))) g \<noteq> None" for fr g
    using a by (simp add: gesture_animate_from_def Let_def bind_eq_None_conv del: not_None_eq)
  obtain p where p: "(if mn_active_workspace_idx m \<noteq> idx
          then map_option (\<lambda>w. m\<lparr>mn_previous_workspace_id := Some (ws_id w)\<rparr>) (mn_active_workspace m) else Some m) =
        Some (m\<lparr>mn_previous_workspace_id := p\<rparr>)"
  proof (cases "mn_active_workspace_idx m = idx")
    case True
    moreover have "m = m\<lparr>mn_previous_workspace_id := mn_previous_workspace_id m\<rparr>" by (cases m) simp
    ultimately show thesis using that[of "mn_previous_workspace_id m"] by simp
  qed (use act that in \<open>simp add: mn_active_workspace_def vec_get_def\<close>)
  have "mn_activate_workspace E idx m \<noteq> None"
    unfolding mn_activate_workspace_def mn_activate_workspace_with_anim_config_def p Let_def
    using a g by (simp add: Let_def bind_eq_None_conv del: not_None_eq split: option.split workspace_switch.split)
  then show ?thesis by blast
qed

lemma refocus_total:
  "mn_active_workspace_idx m < length (mn_workspaces m) \<Longrightarrow> mn_startable m \<Longrightarrow> \<exists>m'. mn_refocus E k m = Some m'"
  using activate_total[of m E k] by (auto simp: mn_refocus_def mn_clean_up_workspaces_def)

lemma last_or_total: "mn_workspaces m \<noteq> [] \<Longrightarrow> mn_last_or idx m = Some (min idx (length (mn_workspaces m) - 1))"
  by (simp add: mn_last_or_def)

lemma min_max_total: "wg_center_idx g < n \<Longrightarrow> gesture_min_max n g \<noteq> None"
  by (auto simp: gesture_min_max_def Let_def)

text \<open>Scrolling at the edge needs a working area that is not empty, and a running switch must be restartable when the
  overview changes.\<close>

fun switch_fits :: "mn_switch_op \<Rightarrow> monitor \<Rightarrow> bool" where
  "switch_fits (MDndScroll _ _ _) m \<longleftrightarrow> 0 \<le> sz_h (rsize (mn_working_area m))"
| "switch_fits (MOverview _) m \<longleftrightarrow>
     (\<forall>a. mn_workspace_switch m = Some (SwitchAnimation a) \<longrightarrow> restarts_surely a)"
| "switch_fits _ m \<longleftrightarrow> True"

lemma gesture_center: "mn_inv E m \<Longrightarrow> mn_workspace_switch m = Some (SwitchGesture g) \<Longrightarrow> wg_center_idx g < length (mn_workspaces m)"
  using switch_okD[of E m "SwitchGesture g"] by (simp add: switch_ok_def)

lemma gesture_total:
  assumes inv: "mn_inv E m"
  shows "mn_workspace_switch_gesture_update E' dy t tp m \<noteq> None"
    and "0 \<le> sz_h (rsize (mn_working_area m)) \<Longrightarrow> mn_dnd_scroll_gesture_scroll E' now pos speed m \<noteq> None"
    and "mn_startable m \<Longrightarrow> mn_workspace_switch_gesture_end E' now etp m \<noteq> None"
proof -
  note c = gesture_center[OF inv]
  show "mn_workspace_switch_gesture_update E' dy t tp m \<noteq> None"
    using c by (simp add: mn_workspace_switch_gesture_update_def Let_def bind_eq_None_conv min_max_total del: not_None_eq
        split: option.split workspace_switch.split prod.split)
  show "0 \<le> sz_h (rsize (mn_working_area m)) \<Longrightarrow> mn_dnd_scroll_gesture_scroll E' now pos speed m \<noteq> None"
    using c by (simp add: mn_dnd_scroll_gesture_scroll_def dnd_edge_delta_def Let_def bind_eq_None_conv min_max_total
        del: not_None_eq split: option.split workspace_switch.split prod.split)
  assume "mn_startable m"
  then have a: "anim_new E' fr to v (ao_workspace_switch (op_animations (mp_shared (mn_options m)))) \<noteq> None" for fr to v
    using startable_new[of _ E' fr to v] by (auto simp: mn_startable_def)
  obtain w where w: "mn_active_workspace m = Some w" using mn_invD(4)[OF inv] by (simp add: mn_active_workspace_def vec_get_def)
  show "mn_workspace_switch_gesture_end E' now etp m \<noteq> None"
    using c a w by (simp add: mn_workspace_switch_gesture_end_def Let_def bind_eq_None_conv min_max_total del: not_None_eq
        split: option.split workspace_switch.split prod.split)
qed

lemma switch_total:
  assumes inv: "mn_inv E m" and ez: "mn_startable m" and fit: "switch_fits op m"
  shows "mn_exec_switch E' op m \<noteq> None"
proof -
  note act = activate_total[OF mn_invD(4)[OF inv] ez, of E']
  have ne: "mn_workspaces m \<noteq> []" using mn_invD(4)[OF inv] by auto
  have sw: "mn_switch_workspace E' idx m \<noteq> None" for idx
    using act by (simp add: mn_switch_workspace_def last_or_total[OF ne])
  then have pr: "mn_switch_workspace_previous E' m \<noteq> None"
    by (simp add: mn_switch_workspace_previous_def del: not_None_eq split: option.split)
  show ?thesis
  proof (cases op)
    case (MSwitchBackAndForth idx)
    with sw pr show ?thesis by (simp add: mn_switch_workspace_auto_back_and_forth_def last_or_total[OF ne] Let_def del: not_None_eq)
  next
    case (MDndEnd now)
    with gesture_total(3)[OF inv ez, of E' now None] show ?thesis by (simp add: mn_dnd_scroll_gesture_end_def del: not_None_eq)
  next
    case (MOverview p)
    have "anim_restarted E' fr to v a \<noteq> None" if "mn_workspace_switch m = Some (SwitchAnimation a)" for fr to v a
      using startable_restarts[of a E' fr to v] fit MOverview that by force
    with MOverview show ?thesis
      by (simp add: mn_set_overview_progress_def Let_def del: not_None_eq split: option.split workspace_switch.split)
  next
    case (MAdvance now)
    then show ?thesis
      by (simp add: mn_advance_animations_def mn_clean_up_workspaces_def bind_eq_None_conv del: not_None_eq
          split: option.split workspace_switch.split)
  qed (use act sw pr fit gesture_total[OF inv] ez in \<open>auto simp: mn_switch_workspace_up_def mn_switch_workspace_down_def
      last_or_total[OF ne] split: option.split\<close>)
qed

section \<open>Adding and moving windows\<close>

lemma startable_upd [simp]:
  "mn_startable (m\<lparr>mn_workspaces := wss\<rparr>) = mn_startable m" "mn_startable (m\<lparr>mn_active_workspace_idx := k\<rparr>) = mn_startable m"
  by (simp_all add: mn_startable_def)

lemma add_tile_total:
  assumes inv: "mn_inv E m" and ez: "mn_startable m" and r: "mn_resolve_add_window_target target m = Some (k, tgt)"
    and new: "tile_id t \<notin> set (mn_ids m)" and ac: "parents_acyclic (t # ws_tiles (mn_workspaces m ! k))"
  shows "\<exists>m'. mn_add_tile E t target act allow width full fl m = Some m'"
proof -
  note k = resolve_less[OF inv r]
  have n: "tile_id t \<notin> set (ws_ids (mn_workspaces m ! k))" using new k(1) by (auto simp: mn_ids_def)
  obtain w' where w': "ws_add_tile E t tgt act width full fl (mn_workspaces m ! k) = Some w'"
    using add_tile_added[OF mn_invD(6)[OF inv k(1)] n ac, of tgt act width full fl] k(2) by blast
  define m1 where "m1 = m\<lparr>mn_workspaces := (mn_workspaces m)[k := mn_own m w']\<rparr>"
  have at: "mn_at k (\<lambda>w. map_option (mn_own m) (ws_add_tile E t tgt act width full fl w)) m = Some m1"
    using k(1) w' by (simp add: at_Some m1_def)
  obtain l where l: "mn_make_room k m1 = (m1, l)" using make_room by blast
  obtain m2 where "mn_activate_workspace E l m1 = Some m2"
    using activate_total[of m1 E l] mn_invD(4)[OF inv] ez by (auto simp: m1_def)
  then show ?thesis by (auto simp: mn_add_tile_def r at l)
qed

text \<open>A window is on one workspace only.\<close>

lemma concat_unique:
  "distinct (concat xss) \<Longrightarrow> a < length xss \<Longrightarrow> b < length xss \<Longrightarrow> i \<in> set (xss ! a) \<Longrightarrow> i \<in> set (xss ! b) \<Longrightarrow> a = b"
proof (induction xss arbitrary: a b)
  case (Cons xs xss)
  have out: "i \<notin> set (xss ! k)" if "i \<in> set xs" "k < length xss" for k
    using Cons.prems(1) that nth_mem[OF that(2)] by (fastforce simp: disjoint_iff)
  from Cons show ?case by (cases a; cases b) (auto dest: out)
qed simp

lemma window_place:
  assumes inv: "mn_inv E m" and s: "s < length (mn_workspaces m)" "i \<in> set (ws_ids (mn_workspaces m ! s))"
  shows "position (ws_has_window i) (mn_workspaces m) = Some s"
proof -
  have "\<exists>w\<in>set (mn_workspaces m). ws_has_window i w" using s nth_mem[OF s(1)] by (auto simp: has_window_ids)
  then obtain k where k: "position (ws_has_window i) (mn_workspaces m) = Some k" by (auto dest: position_ex)
  then have "k < length (mn_workspaces m)" "i \<in> set (ws_ids (mn_workspaces m ! k))"
    by (auto simp: has_window_ids dest: position_Some)
  then have "k = s" using concat_unique[of "map ws_ids (mn_workspaces m)" k s i] mn_invD(5)[OF inv] s by (simp add: mn_ids_def)
  with k show ?thesis by simp
qed

lemma ws_remove_total:
  assumes inv: "ws_inv E w" and i: "i \<in> set (ws_ids w)"
    and mv: "i \<in> set (ss_ids (ws_scrolling w)) \<Longrightarrow> ss_movable E (ws_scrolling w)"
  shows "\<exists>r w'. ws_remove_tile E i w = Some (r, w')"
proof (cases "i \<in> set (fs_ids (ws_floating w))")
  case True
  with remove_inv[OF ws_invD(2)[OF inv] True, of E] show ?thesis by (auto simp: ws_remove_tile_def fs_has_ids)
next
  case False
  with i have "i \<in> set (ss_ids (ws_scrolling w))" by (simp add: ws_ids_def)
  then obtain r s where "ss_remove_tile E i (ws_scrolling w) = Some (r, s)"
    using remove_tile_total[OF ws_invD(1)[OF inv] mv] by blast
  with False show ?thesis by (auto simp: ws_remove_tile_def fs_has_ids)
qed

lemma clean_up_total: "mn_clean_up_if_idle m = Some m"
  by (simp add: mn_clean_up_if_idle_def mn_clean_up_workspaces_def)

text \<open>Whether a window that is moved takes the focus with it.\<close>

definition move_activates :: "nat \<Rightarrow> activate_window \<Rightarrow> monitor \<Rightarrow> bool" where
  "move_activates i act m \<longleftrightarrow>
     act = ActYes \<or> act = ActSmart \<and> ws_active_id (mn_workspaces m ! mn_active_workspace_idx m) = Some i"

lemma move_to_workspace_total:
  assumes inv: "mn_inv E m" and ac: "mn_acyclic m" and ez: "mn_startable m"
    and idx: "s < length (mn_workspaces m)" "d < length (mn_workspaces m)" "s \<noteq> d"
    and i: "i \<in> set (ws_ids (mn_workspaces m ! s))"
    and mv: "i \<in> set (ss_ids (ws_scrolling (mn_workspaces m ! s))) \<Longrightarrow> ss_movable E (ws_scrolling (mn_workspaces m ! s))"
  shows "\<exists>m' r w a. mn_move_to_workspace E (Some i) d act m = Some m' \<and> ws_remove_tile E i (mn_workspaces m ! s) = Some (r, w) \<and>
    mn_add_removed E (ws_id (mn_workspaces m ! d)) a r (m\<lparr>mn_workspaces := (mn_workspaces m)[s := w]\<rparr>) = Some m' \<and>
    a = (if move_activates i act m then ActYes else ActNo)"
proof -
  note wi = mn_invD(6)[OF inv idx(1)]
  obtain r w where r: "ws_remove_tile E i (mn_workspaces m ! s) = Some (r, w)" using ws_remove_total[OF wi i mv] by blast
  define a where "a = (if move_activates i act m then ActYes else ActNo)"
  define m1 where "m1 = m\<lparr>mn_workspaces := (mn_workspaces m)[s := w]\<rparr>"
  have rm: "ws_removed E i (mn_workspaces m ! s) w" "tile_id (rt_tile r) = i" using remove_tile_removed[OF wi r] by simp_all
  note k1 = at_removed[OF inv idx(1) rm(1) rest_removes(1)[OF r] m1_def]
  note inv1 = kept_inv[OF k1(1)]
  have d1: "mn_workspaces m1 ! d = mn_workspaces m ! d" "d < length (mn_workspaces m1)" using idx by (simp_all add: m1_def)
  have "distinct (map ws_id (mn_workspaces m1))" using mn_invD(1)[OF inv1] by (simp add: wss_ok_def)
  from position_id[OF this d1(2)]
  have res: "mn_resolve_add_window_target (MonitorWorkspace (ws_id (mn_workspaces m ! d)) None) m1 = Some (d, AddAuto)"
    by (simp add: mn_resolve_add_window_target_def d1(1))
  have ac1: "parents_acyclic (rt_tile r # ws_tiles (mn_workspaces m1 ! d))"
    using acyclic_dest[OF ac removed_key[OF wi r] idx(1,2)] d1(1) by simp
  have ez1: "mn_startable m1" using ez by (simp add: m1_def)
  have "tile_id (rt_tile r) \<notin> set (mn_ids m1)" using k1(3) rm(2) by simp
  from add_tile_total[OF inv1 ez1 res this ac1]
  obtain m' where m': "mn_add_removed E (ws_id (mn_workspaces m ! d)) a r m1 = Some m'"
    unfolding mn_add_removed_def by blast
  have l: "mn_last_or d m = Some d" using idx(2) by (auto simp: last_or_Some)
  have act: "(if act = ActSmart then
        (case Some i of None \<Rightarrow> Some True | Some i \<Rightarrow> map_option (\<lambda>a. map_option mw_id a = Some i) (mn_active_window m))
      else Some (map_smart False act)) = Some (move_activates i act m)"
    using mn_invD(4)[OF inv] by (cases act)
      (simp_all add: move_activates_def mn_active_window_def mn_active_workspace_def vec_get_def ws_active_id_def)
  have "mn_move_to_workspace E (Some i) d act m = Some m'"
    unfolding mn_move_to_workspace_def Let_def act
    using idx m' r by (simp add: window_place[OF inv idx(1) i] l vec_get_def m1_def[symmetric] a_def[symmetric] clean_up_total)
  with r m' show ?thesis unfolding m1_def a_def by blast
qed

section \<open>Leaving an output and coming back\<close>

lemma set_output_none: "\<exists>w'. ws_set_output E None w = Some w' \<and> ws_name w' = ws_name w \<and> ws_windows w' = ws_windows w"
  by (auto simp: ws_set_output_def ws_windows_def ws_tiles_def)

lemma set_output_some: "ws_output w = None \<Longrightarrow> ws_set_output E (Some out) w \<noteq> None"
  by (simp add: ws_set_output_def ws_update_output_size_def Let_def)

lemma try_map_total: "(\<And>x. x \<in> set xs \<Longrightarrow> f x \<noteq> None) \<Longrightarrow> \<exists>ys. try_map f xs = Some ys"
proof (induction xs)
  case (Cons x xs)
  then obtain ys where "try_map f xs = Some ys" by auto
  with Cons.prems[of x] show ?case by auto
qed simp

lemma into_workspaces_total:
  "\<exists>wss. mn_into_workspaces E m = Some wss \<and> list_all ws_has_windows_or_name wss"
proof -
  let ?full = "filter ws_has_windows_or_name (mn_workspaces m)"
  have t: "ws_set_output E None w \<noteq> None" for w using set_output_none[of E w] by auto
  obtain wss where wss: "try_map (ws_set_output E None) ?full = Some wss"
    using try_map_total[of ?full "ws_set_output E None"] t by blast
  have keep: "ws_has_windows_or_name w'" if "ws_has_windows_or_name w" "ws_set_output E None w = Some w'" for w w'
    using set_output_none[of E w] that by (auto simp: ws_has_windows_or_name_def ws_has_windows_def)
  have "list_all ws_has_windows_or_name vs"
    if "list_all2 (\<lambda>w w'. ws_set_output E None w = Some w') us vs" "list_all ws_has_windows_or_name us" for us vs
    using that by (induction rule: list_all2_induct) (auto intro: keep)
  from this[OF wss[unfolded try_map_all2]] have "list_all ws_has_windows_or_name wss" by (simp add: list_all_iff)
  with wss show ?thesis by (simp add: mn_into_workspaces_def)
qed

lemma mn_new_total:
  assumes "\<And>w. w \<in> set wss \<Longrightarrow> ws_output w = None \<and> ws_has_windows_or_name w"
  shows "\<exists>m. mn_new E i out wss j base part = Some m"
proof -
  obtain vs where "try_map (\<lambda>w. if ws_has_windows_or_name w
      then map_option (ws_update_config E (mp_shared (mp_with_merged_layout part base))) (ws_set_output E (Some out) w) else None) wss = Some vs"
    using try_map_total[of wss "\<lambda>w. if ws_has_windows_or_name w
      then map_option (ws_update_config E (mp_shared (mp_with_merged_layout part base))) (ws_set_output E (Some out) w) else None"]
      assms set_output_some by auto
  then show ?thesis by (simp add: mn_new_def Let_def)
qed

end
