(* ===== verification/MonitorProps.thy ===== *)
theory MonitorProps
  imports MonitorTotal
begin

text \<open>
  The properties of a monitor: its invariant and the windows it holds, windows and workspaces that move, switching
  there and back, a monitor that is unplugged and comes back, and what the setting \<open>empty-workspace-above-first\<close> breaks.
\<close>

section \<open>Examples\<close>

text \<open>A monitor with \<open>n\<close> empty workspaces, with the setting \<open>empty-workspace-above-first\<close> on or off.\<close>

definition out_blank :: wl_output where
  "out_blank = \<lparr>ou_id = 7, ou_name = OutputName ''DP-1'' None None None,
     ou_scale = \<lparr>os_integer = 1, os_fractional = 1\<rparr>, ou_transform = 0, ou_size = mk_size 1000 800,
     ou_area = \<lparr>rloc = mk_point 0 0, rsize = mk_size 1000 800\<rparr>\<rparr>"

definition mp_blank :: "nat \<Rightarrow> bool \<Rightarrow> monitor_options" where
  "mp_blank n b = \<lparr>mp_shared = options_blank\<lparr>op_layout := (op_layout options_blank)
       \<lparr>lo_workspace_count := n, lo_empty_workspace_above_first := b\<rparr>\<rparr>,
     mp_overview_zoom = 1 / 2, mp_dnd_trigger_height = 50, mp_dnd_delay_ms = 100, mp_dnd_max_speed = 1500\<rparr>"

lemma mp_blank_sel:
  "lo_workspace_count (op_layout (mp_shared (mp_blank n b))) = n" "mp_above_first (mp_blank n b) = b"
  "mp_with_merged_layout None p = p" "startable (ao_workspace_switch (op_animations (mp_shared (mp_blank n b))))"
  by (simp_all add: mp_blank_def mp_above_first_def mp_with_merged_layout_def options_with_merged_layout_def startable_def)
    (simp add: options_blank_def anim_config_blank_def)

lemma ws_ids_tiles: "ws_ids = (\<lambda>w. map tile_id (ws_tiles w))"
  by (rule ext) (simp add: ws_tiles_ids)

lemma mn_tiles_ids: "map tile_id (mn_tiles m) = mn_ids m"
  by (simp add: mn_tiles_def mn_ids_def map_concat comp_def ws_ids_tiles)

lemma mn_windows_ids: "map mw_id (mn_windows m) = mn_ids m"
  by (simp add: mn_windows_def mn_ids_def map_concat comp_def ws_windows_def ws_ids_tiles)

definition mn_fresh :: "nat \<Rightarrow> bool \<Rightarrow> monitor \<Rightarrow> bool" where
  "mn_fresh n b m \<longleftrightarrow> mn_reach (env_blank 1) m \<and> length (mn_workspaces m) = max n 1 \<and> mn_ids m = [] \<and>
     mn_options m = mp_blank n b \<and> mn_active_workspace_idx m = 0 \<and> mn_workspace_switch m = None \<and> mn_layout_config m = None \<and>
     mn_startable m \<and> mn_acyclic m \<and> mp_above_first (mn_options m) = b \<and>
     ws_id ` set (mn_workspaces m) \<subseteq> {1..<1 + max n 1}"

lemma mn_blank: "\<exists>m. mn_fresh n b m"
proof -
  obtain m where m: "mn_new (env_blank 1) 1 out_blank [] None (mp_blank n b) None = Some m"
    using mn_new_total[of "[]"] by (metis list.distinct(1) list.set_cases)
  have s: "starts_with (env_blank 1) 1 out_blank []" by (simp add: starts_with_def)
  have o1: "mn_options m = mp_blank n b" "mn_active_workspace_idx m = 0" "mn_workspace_switch m = None" "mn_layout_config m = None"
    and w: "mn_workspaces m = map (\<lambda>k. ws_new (env_blank 1) (1 + k) out_blank (mp_shared (mp_blank n b))) [0..<max n 1]"
    using m by (auto simp: mn_new_def Let_def mp_blank_sel)
  note h = start_ok[OF s m]
  have ids: "mn_ids m = []" using h by (simp add: mn_holds_def)
  then have "mn_tiles m = []" using mn_tiles_ids[of m] by simp
  then have "mn_acyclic m" by (simp add: mn_acyclic_def parents_acyclic_def parent_links_def acyclic_def)
  moreover have "ws_id ` set (mn_workspaces m) \<subseteq> {1..<1 + max n 1}" by (auto simp: w new_ids)
  ultimately have "mn_fresh n b m"
    using mn_start[OF s m] h ids o1 by (simp add: mn_fresh_def mn_startable_def mp_blank_sel)
  then show ?thesis by blast
qed

text \<open>A floating window on an empty workspace.\<close>

lemma floats_on_empty:
  assumes inv: "ws_inv (env_blank 1) w" and e: "ws_ids w = []"
  shows "\<exists>w' u. ws_add_tile (env_blank 1) (tile_blank 1) AddAuto ActYes (Fixed 300) False True w = Some w' \<and>
    ws_tiles w' = [u] \<and> tkey u = (1, 1, None) \<and> ss_ids (ws_scrolling w') = []"
proof -
  let ?E = "env_blank 1" let ?t = "tile_blank 1\<lparr>tl_restore_to_floating := True\<rparr>" let ?f = "ws_floating w"
  have ids: "ss_ids (ws_scrolling w) = []" "fs_ids ?f = []" using e by (simp_all add: ws_ids_def)
  have st: "ss_tiles (ws_scrolling w) = []" "fs_tiles ?f = []"
    using ids fs_empty_ids(2)[of ?f] ss_tiles_ids[of "ws_scrolling w"] by auto
  have fd: "fs_data ?f = []" using core_length[OF fs_inv_core[OF ws_invD(2)[OF inv]]] st(2) by simp
  have n: "win_pending_sizing_mode (tl_window ?t) = Normal" by (simp add: blank_defs)
  have k: "tkey (fs_prepared ?E ?t ?f) = (1, 1, None)"
    by (simp add: fs_prepared_def tile_update_config_def Let_def win_simps tkey_def) (simp_all add: blank_defs)
  note add = add_to_empty[OF st(2) fd, of ?E ?t True]
  have "ws_add_tile ?E (tile_blank 1) AddAuto ActYes (Fixed 300) False True w =
      Some (ws_activated True FloatYes (w\<lparr>ws_floating := the (fs_add_tile ?E ?t True ?f)\<rparr>))"
    using n add by (simp add: ws_add_tile_def ws_add_floating_def try_fs_def fs_put_def Let_def)
  then show ?thesis using st(1) k ids(1) by (simp add: add ws_tiles_def del: One_nat_def)
qed

text \<open>Two workspaces, the first with a floating window 1 that is active.\<close>

definition mn_example :: "monitor \<Rightarrow> bool" where
  "mn_example m \<longleftrightarrow> mn_reach (env_blank 1) m \<and> \<not> mp_above_first (mn_options m) \<and> mn_acyclic m \<and> mn_startable m \<and>
     length (mn_workspaces m) = 2 \<and> mn_active_workspace_idx m = 0 \<and> ws_ids (mn_workspaces m ! 0) = [1] \<and>
     ss_ids (ws_scrolling (mn_workspaces m ! 0)) = [] \<and> ws_ids (mn_workspaces m ! 1) = [] \<and>
     ws_id ` set (mn_workspaces m) \<subseteq> {1, 2} \<and> mn_workspace_switch m = None"

lemma example_exists: "\<exists>m. mn_example m"
proof -
  let ?E = "env_blank 1" let ?op = "MAddTile (tile_blank 1) MonitorAuto ActYes True (Fixed 300) False True"
  obtain m where "mn_fresh 2 False m" using mn_blank by blast
  then have f: "mn_reach ?E m" "length (mn_workspaces m) = 2" "mn_ids m = []" "mn_active_workspace_idx m = 0"
    "mn_workspace_switch m = None" "mn_startable m" "\<not> mp_above_first (mn_options m)" "ws_id ` set (mn_workspaces m) \<subseteq> {1, 2}"
    by (auto simp: mn_fresh_def)
  note inv = mn_reach_inv[OF f(1)]
  have e: "ws_ids (mn_workspaces m ! k) = []" "ws_tiles (mn_workspaces m ! k) = []" if "k < 2" for k
    using f(2,3) that by (auto simp: mn_ids_def ws_ids_tiles)
  have z: "0 < length (mn_workspaces m)" "0 < (2 :: nat)" using f(2) by simp_all
  obtain w u where w: "ws_add_tile ?E (tile_blank 1) AddAuto ActYes (Fixed 300) False True (mn_workspaces m ! 0) = Some w"
      "ws_tiles w = [u]" "tkey u = (1, 1, None)" "ss_ids (ws_scrolling w) = []"
    using floats_on_empty[OF mn_invD(6)[OF inv z(1)] e(1)[OF z(2)]] by blast
  define m1 where "m1 = m\<lparr>mn_workspaces := (mn_workspaces m)[0 := mn_own m w]\<rparr>"
  have act1: "mn_active_workspace_idx m1 = 0" "mn_workspace_switch m1 = None" "length (mn_workspaces m1) = 2" "mn_startable m1"
    "mn_options m1 = mn_options m"
    using f by (simp_all add: m1_def)
  obtain m2 where m2: "mn_activate_workspace ?E 0 m1 = Some m2" using activate_total[of m1 ?E 0] act1 by auto
  have r: "mn_resolve_add_window_target MonitorAuto m = Some (0, AddAuto)"
    by (simp add: mn_resolve_add_window_target_def f(4))
  have room1: "mn_make_room 0 m1 = (m1, 0)" using f(7) by (simp add: make_room made_off m1_def)
  have at: "mn_at 0 (\<lambda>v. map_option (mn_own m) (ws_add_tile ?E (tile_blank 1) AddAuto ActYes (Fixed 300) False True v)) m = Some m1"
    using w(1) f(2) by (simp add: at_Some m1_def)
  have ex: "mn_add_tile ?E (tile_blank 1) MonitorAuto ActYes True (Fixed 300) False True m = Some m2"
    using m2 by (simp add: mn_add_tile_def r at room1 del: One_nat_def)
  have id: "tile_id (tile_blank 1) = 1" "tkey (tile_blank 1) = (1, 1, None)" by (simp_all add: blank_defs tkey_def)
  have "mn_tiles m = []" using mn_tiles_ids[of m] f(3) by simp
  then have ac: "parents_acyclic (tile_blank 1 # mn_tiles m)" using float_one_acyclic[OF id(2)] by simp
  have new: "tile_id (tile_blank 1) \<notin> set (mn_ids m)" by (simp add: f(3))
  have reach: "mn_reach ?E m2"
    by (rule mn_next[OF f(1) refl refl, where op = ?op]) (use ex ac new f(7) in \<open>simp_all add: mn_allowed_def\<close>)
  have k: "mn_kept ?E (add_mset (tile_id (tile_blank 1)) (mset (mn_ids m))) m m2"
    by (rule add_tile_outcome[OF inv made_off(2)[OF f(7)] r new acyclic_add[OF ac] ex]) (use f(2) in auto)
  have c: "mn_focused 0 m1 m2" "mn_workspace_switch m2 = None"
    using activate_cases[OF m2[unfolded mn_activate_workspace_def]] act1 by (auto simp: mn_dnd_gesture_def)
  note same = focused_same[OF c(1)]
  have ws: "mn_workspaces m2 = [mn_own m w, mn_workspaces m ! 1]"
    using same f(2) by (auto simp: m1_def list_eq_iff_nth_eq nth_Cons' less_2_cases_iff)
  have "mn_acyclic m2" unfolding mn_acyclic_def
    using float_one_acyclic[OF w(3)] w(2) e(2)[of 1] by (simp add: mn_tiles_def ws own_upd)
  moreover have "ws_id ` set (mn_workspaces m2) \<subseteq> {1, 2}"
    using k f(8) unfolding mn_kept_def by (metis set_map)
  moreover have "ws_ids (mn_own m w) = [1]" unfolding own_upd using w(2,3) by (simp add: ws_ids_tiles tkey_def)
  moreover have "ss_ids (ws_scrolling (mn_own m w)) = []" using w(4) by (simp add: mn_own_def)
  ultimately have "mn_example m2" using reach ws same c(2) f e(1)[of 1] act1
    by (simp add: mn_example_def mn_startable_def)
  then show ?thesis by blast
qed

section \<open>Properties\<close>

text \<open>Property C27. Whatever sequence of commands a monitor executes, in a changing environment: it always
  has a workspace, the active one exists, a switch in progress goes to a workspace that exists and so does the centre of
  a gesture, no two workspaces have the same identifier, no window is there twice, and every workspace keeps its own
  invariant and has the output, the options, the scale, the size and the working area of the monitor. The commands are
  those of \<open>mn_allowed\<close>, with the setting \<open>empty-workspace-above-first\<close> on, off or changing. Left out are the removal of
  the only workspace (see \<open>remove_last_workspace\<close>) and, with the setting on, the commands that count with a workspace
  that is not there (\<open>above_first_fits\<close>): adding or moving a window or column with only one workspace, and moving the active
  first workspace to the last place. For those the active workspace does not exist afterwards, as C34 shows.\<close>

theorem mn_reachable_ok:
  assumes "mn_reach E m"
  shows "mn_active_workspace_idx m < length (mn_workspaces m) \<and>
    (\<forall>a. mn_workspace_switch m = Some (SwitchAnimation a) \<longrightarrow> (\<exists>k<length (mn_workspaces m). an_to a = real k)) \<and>
    (\<forall>g. mn_workspace_switch m = Some (SwitchGesture g) \<longrightarrow> wg_center_idx g < length (mn_workspaces m)) \<and>
    distinct (map ws_id (mn_workspaces m)) \<and> distinct (map mw_id (mn_windows m)) \<and>
    (\<forall>w\<in>set (mn_workspaces m). ws_inv E w \<and> ws_output w = Some (ou_id (mn_output m)) \<and>
       ws_base_options w = mp_shared (mn_options m) \<and> ws_scale w = mn_scale m \<and> ws_view_size w = mn_view_size m \<and>
       ws_working_area w = mn_working_area m) \<and>
    mn_options m = mp_with_merged_layout (mn_layout_config m) (mn_base_options m)"
proof -
  note inv = mn_reach_inv[OF assms]
  note i = mn_invD[OF inv]
  have "\<exists>k<length (mn_workspaces m). an_to a = real k" if "mn_workspace_switch m = Some (SwitchAnimation a)" for a
    using switch_okD[OF inv that] by (auto simp: switch_ok_def goes_to_def)
  moreover have "ws_inv E w \<and> ws_output w = Some (ou_id (mn_output m)) \<and>
       ws_base_options w = mp_shared (mn_options m) \<and> ws_scale w = mn_scale m \<and> ws_view_size w = mn_view_size m \<and>
       ws_working_area w = mn_working_area m" if "w \<in> set (mn_workspaces m)" for w
    using i(1) that by (auto simp: wss_ok_def ws_belongs_def ws_rest_def mn_setting_def)
  moreover have "distinct (map ws_id (mn_workspaces m))" "mn_options m = mp_with_merged_layout (mn_layout_config m) (mn_base_options m)"
    using i(1,3) by (simp_all add: wss_ok_def mn_in_sync_def)
  ultimately show ?thesis using i(4,5) gesture_center[OF inv] unfolding mn_windows_ids by blast
qed

theorem mn_reachable_ok_witness:
  "\<exists>m. length (mn_workspaces m) = 2 \<and> mn_ids m = [1] \<and> mn_active_workspace_idx m < 2 \<and> distinct (map mw_id (mn_windows m))"
proof -
  obtain m where m: "mn_example m" using example_exists by blast
  then have l: "length (mn_workspaces m) = 2" "mn_reach (env_blank 1) m" "ws_ids (mn_workspaces m ! 0) = [1]"
    "ws_ids (mn_workspaces m ! 1) = []" by (simp_all add: mn_example_def)
  then obtain v w where "mn_workspaces m = [v, w]" by (auto simp: length_Suc_conv numeral_2_eq_2)
  with l have "mn_ids m = [1]" by (simp add: mn_ids_def)
  with mn_reachable_ok[OF l(2)] l(1) show ?thesis by auto
qed



text \<open>Property C29. Moving a window to another workspace by name never panics, when the switch and, for a tiled
  window, the animations of the tiling space it leaves can be started (\<open>startable\<close>: off, an easing or a spring that is not
  overdamped, as the default is) and no window is its own ancestor. The window leaves its workspace and is on the other
  one, every other window of the two stays where it is and every other workspace is untouched. If activation was asked
  for, or the window was the active one and smart activation was asked for, the moved window is active on the target and
  the target becomes the active workspace, except that with \<open>empty-workspace-above-first\<close> moving to the first workspace
  activates the second one (see C34); otherwise the same workspace stays active.\<close>

theorem move_to_workspace_result:
  assumes "mn_reach E m" "mn_acyclic m" "mn_startable m"
    and "s < length (mn_workspaces m)" "d < length (mn_workspaces m)" "s \<noteq> d"
    and "ws_has_window i (mn_workspaces m ! s)"
    and "ws_is_floating i (mn_workspaces m ! s) \<or> ss_movable E (ws_scrolling (mn_workspaces m ! s))"
  shows "\<exists>m'. mn_move_to_workspace E (Some i) d act m = Some m' \<and>
    length (mn_workspaces m') = length (mn_workspaces m) \<and>
    mset (ws_ids (mn_workspaces m ! s)) = add_mset i (mset (ws_ids (mn_workspaces m' ! s))) \<and>
    mset (ws_ids (mn_workspaces m' ! d)) = add_mset i (mset (ws_ids (mn_workspaces m ! d))) \<and>
    (\<forall>k<length (mn_workspaces m). k \<noteq> s \<longrightarrow> k \<noteq> d \<longrightarrow> mn_workspaces m' ! k = mn_workspaces m ! k) \<and>
    mn_active_workspace_idx m' =
      (if move_activates i act m then if mp_above_first (mn_options m) \<and> d = 0 then 1 else d else mn_active_workspace_idx m) \<and>
    (move_activates i act m \<longrightarrow> map_option mw_id (ws_active_window (mn_workspaces m' ! d)) = Some i)"
proof -
  note inv = mn_reach_inv[OF assms(1)]
  note wi = mn_invD(6)[OF inv assms(4)]
  have i: "i \<in> set (ws_ids (mn_workspaces m ! s))" using assms(7) by (simp add: has_window_ids)
  have mv: "i \<in> set (ss_ids (ws_scrolling (mn_workspaces m ! s))) \<Longrightarrow> ss_movable E (ws_scrolling (mn_workspaces m ! s))"
    using assms(8) ws_invD(3)[OF wi] by (auto simp: ws_is_floating_def fs_has_ids)
  obtain m' r w a where m': "mn_move_to_workspace E (Some i) d act m = Some m'" "ws_remove_tile E i (mn_workspaces m ! s) = Some (r, w)"
      "mn_add_removed E (ws_id (mn_workspaces m ! d)) a r (m\<lparr>mn_workspaces := (mn_workspaces m)[s := w]\<rparr>) = Some m'"
      "a = (if move_activates i act m then ActYes else ActNo)"
    using move_to_workspace_total[OF inv assms(2-6) i mv] by blast
  have room: "mn_roomy m" using assms(4-6) by (auto simp: mn_roomy_def)
  note o = move_tile_outcome[OF inv room assms(2,4-6) m'(2,3)]
  then obtain w' where w': "mn_workspaces m' = (mn_workspaces m)[s := w, d := w']" "ws_added E i (mn_workspaces m ! d) w'" by blast
  have rm: "ws_removed E i (mn_workspaces m ! s) w" using remove_tile_removed[OF wi m'(2)] by blast
  have nth: "mn_workspaces m' ! s = w" "mn_workspaces m' ! d = w'" using w'(1) assms(4-6) by simp_all
  have "mn_active_workspace_idx m' =
      (if move_activates i act m then if mp_above_first (mn_options m) \<and> d = 0 then 1 else d else mn_active_workspace_idx m)"
    "move_activates i act m \<longrightarrow> map_option mw_id (ws_active_window (mn_workspaces m' ! d)) = Some i"
    using o m'(4) by (simp_all add: ws_active_id_def mn_made_def)
  moreover have "\<forall>k<length (mn_workspaces m). k \<noteq> s \<longrightarrow> k \<noteq> d \<longrightarrow> mn_workspaces m' ! k = mn_workspaces m ! k"
    "length (mn_workspaces m') = length (mn_workspaces m)" by (simp_all add: w'(1))
  ultimately show ?thesis
    using m'(1) w'(2) rm unfolding ws_added_def ws_removed_def nth[symmetric] by blast
qed

theorem move_to_workspace_result_witness:
  "\<exists>m m'. mn_example m \<and> mn_move_to_workspace (env_blank 1) (Some 1) 1 ActSmart m = Some m' \<and>
     mn_active_workspace_idx m' = 1 \<and> mset (ws_ids (mn_workspaces m' ! 1)) = {#1#}"
proof -
  obtain m where m: "mn_example m" using example_exists by blast
  note e = m[unfolded mn_example_def]
  note inv = mn_reach_inv[OF e[THEN conjunct1]]
  have w: "ws_has_window 1 (mn_workspaces m ! 0)" "ws_is_floating 1 (mn_workspaces m ! 0)"
    using e by (auto simp: has_window_ids ws_is_floating_def fs_has_ids ws_ids_def)
  have "ws_active_id (mn_workspaces m ! 0) \<noteq> None"
    using ws_active_some(1)[OF mn_invD(6)[OF inv, of 0]] e by simp
  then have "ws_active_id (mn_workspaces m ! 0) = Some 1"
    using ws_active_some(2)[OF mn_invD(6)[OF inv, of 0]] e by auto
  then have "move_activates 1 ActSmart m" using e by (simp add: move_activates_def)
  with move_to_workspace_result[of "env_blank 1" m 0 1 1 ActSmart] e w m show ?thesis by auto
qed

text \<open>Property C30. Nothing that switches the workspace, directly, by a gesture or by scrolling during a
  drag and drop, and no step of the animations panics in a reachable state when the animation configured for the switch
  can be started (\<open>startable\<close>: off, an easing or a spring that is not overdamped, as the default is); scrolling at the
  edge needs a working area of non-negative height, and opening the overview a running switch that can be restarted.\<close>

theorem switch_no_panic:
  assumes "mn_reach E m" "mn_startable m" "switch_fits op m"
  shows "\<exists>m'. mn_exec_switch E' op m = Some m'"
  using switch_total[OF mn_reach_inv[OF assms(1)] assms(2,3), of E'] by simp

theorem switch_no_panic_witness:
  "\<exists>m m'. mn_example m \<and> mn_exec_switch (env_blank 1) (MSwitch 5) m = Some m'"
proof -
  obtain m where "mn_example m" using example_exists by blast
  with switch_no_panic[of "env_blank 1" m "MSwitch 5" "env_blank 1"] show ?thesis by (auto simp: mn_example_def)
qed

text \<open>Property C31. When the animation configured for the switch can be started (\<open>startable\<close>, which covers the
  default spring), switching to another workspace and then to the previous one, or asking for the same workspace again
  with auto-back-and-forth, comes back to where it was, whatever the clock does in between, and changes no workspace.\<close>

theorem switch_back_and_forth:
  assumes "mn_reach E m" "mn_startable m" "k < length (mn_workspaces m)" "k \<noteq> mn_active_workspace_idx m"
  shows "\<exists>m1. mn_switch_workspace E1 k m = Some m1 \<and> mn_active_workspace_idx m1 = k \<and> mn_workspaces m1 = mn_workspaces m \<and>
    (\<exists>m2. mn_switch_workspace_previous E2 m1 = Some m2 \<and> mn_active_workspace_idx m2 = mn_active_workspace_idx m \<and>
       mn_workspaces m2 = mn_workspaces m \<and> mn_previous_workspace_idx m2 = Some k) \<and>
    mn_switch_workspace_auto_back_and_forth E2 k m1 = mn_switch_workspace_previous E2 m1"
proof -
  note inv = mn_reach_inv[OF assms(1)]
  note i = mn_invD[OF inv]
  let ?a = "mn_active_workspace_idx m"
  have d: "distinct (map ws_id (mn_workspaces m))" using i(1) by (simp add: wss_ok_def)
  have ne: "mn_workspaces m \<noteq> []" using assms(3) by auto
  have l: "mn_last_or k m = Some k" using assms(3) by (auto simp: last_or_Some)
  obtain m1 where m1: "mn_activate_workspace E1 k m = Some m1" using activate_total[OF i(4) assms(2)] by blast
  note k1 = activate_kept[OF inv assms(3) m1[unfolded mn_activate_workspace_def]]
  note f1 = focused_same[OF k1(2)]
  have p1: "mn_previous_workspace_idx m1 = Some ?a"
    using f1 assms(4) position_id[OF d i(4)] by (simp add: mn_previous_workspace_idx_def)
  have l1: "mn_last_or ?a m1 = Some ?a" "mn_last_or k m1 = Some k" using f1 i(4) assms(3) ne by (auto simp: last_or_Some)
  have ez1: "mn_startable m1" using assms(2) f1 by (simp add: mn_startable_def)
  obtain m2 where m2: "mn_activate_workspace E2 ?a m1 = Some m2"
    using activate_total[OF mn_invD(4)[OF kept_inv[OF k1(1)]] ez1] by blast
  have "?a < length (mn_workspaces m1)" using f1 i(4) by simp
  note f2 = focused_same[OF activate_kept(2)[OF kept_inv[OF k1(1)] this m2[unfolded mn_activate_workspace_def]]]
  have p2: "mn_previous_workspace_idx m2 = Some k"
    using f1 f2 assms(4) position_id[OF d assms(3)] by (simp add: mn_previous_workspace_idx_def)
  have "mn_switch_workspace E1 k m = Some m1" using m1 l by (simp add: mn_switch_workspace_def)
  moreover have pr: "mn_switch_workspace_previous E2 m1 = Some m2"
    using p1 l1(1) m2 by (simp add: mn_switch_workspace_previous_def mn_switch_workspace_def)
  moreover have "mn_switch_workspace_auto_back_and_forth E2 k m1 = mn_switch_workspace_previous E2 m1"
    using l1(2) f1 by (simp add: mn_switch_workspace_auto_back_and_forth_def)
  ultimately show ?thesis using f1 f2 p2 by simp
qed

theorem switch_back_and_forth_witness:
  "\<exists>m m1 m2. mn_example m \<and> mn_switch_workspace (env_blank 1) 1 m = Some m1 \<and> mn_active_workspace_idx m1 = 1 \<and>
     mn_switch_workspace_previous (env_blank 1) m1 = Some m2 \<and> mn_active_workspace_idx m2 = 0"
proof -
  obtain m where m: "mn_example m" using example_exists by blast
  with switch_back_and_forth[of "env_blank 1" m 1 "env_blank 1" "env_blank 1"] show ?thesis
    by (auto simp: mn_example_def)
qed

text \<open>Property C32. When the animation configured for the switch can be started (\<open>startable\<close>, which covers the
  default spring), moving the active workspace down swaps it with the next one and keeps it active, and moving it up again
  restores every workspace, the focus and the previous workspace; only a switch in progress is dropped. Neither panics.
  The exception is the first workspace with \<open>empty-workspace-above-first\<close> on: moved down, it activates the third one.\<close>

theorem move_workspace_down_up:
  assumes "mn_reach E m" "mn_startable m" "mn_active_workspace_idx m = a" "a + 1 < length (mn_workspaces m)"
  shows "\<exists>m1. mn_move_workspace_down E1 m = Some m1 \<and>
    mn_active_workspace_idx m1 = (if mp_above_first (mn_options m) \<and> a = 0 then 2 else a + 1) \<and>
    mn_workspaces m1 = (mn_workspaces m)[a := mn_workspaces m ! (a + 1), a + 1 := mn_workspaces m ! a] \<and>
    (\<not> (mp_above_first (mn_options m) \<and> a = 0) \<longrightarrow>
       mn_move_workspace_up E2 m1 = Some (m\<lparr>mn_workspace_switch := None\<rparr>))"
proof -
  let ?wss = "(mn_workspaces m)[a := mn_workspaces m ! (a + 1), a + 1 := mn_workspaces m ! a]"
  define k where "k = (if mp_above_first (mn_options m) \<and> a = 0 then 2 else a + 1)"
  define m1 where "m1 = m\<lparr>mn_workspaces := ?wss, mn_active_workspace_idx := k, mn_workspace_switch := None\<rparr>"
  have swap: "vec_swap a (a + 1) (mn_workspaces m) = Some ?wss" "vec_swap (a + 1) a ?wss = Some (mn_workspaces m)"
    using assms(4) by (auto simp: vec_simps list_eq_iff_nth_eq nth_list_update)
  have last: "mn_last_or (a + 1) m = Some (a + 1)" using assms(4) by (auto simp: last_or_Some)
  have "mn_move_workspace_down E1 m = mn_refocus E1 k (m\<lparr>mn_workspaces := ?wss\<rparr>)"
    using assms(3) by (simp add: mn_move_workspace_down_def Let_def last[simplified] swap(1)[simplified] mn_add_workspace_bottom_def
        mn_add_workspace_top_def k_def numeral_2_eq_2)
  moreover obtain n1 where n1: "mn_refocus E1 k (m\<lparr>mn_workspaces := ?wss\<rparr>) = Some n1"
    using refocus_total[of "m\<lparr>mn_workspaces := ?wss\<rparr>" E1 k] assms(2-4) by auto
  moreover have "n1 = m1" using refocus_shape[OF n1] by (simp add: m1_def)
  ultimately have down: "mn_move_workspace_down E1 m = Some m1" by simp
  have "mn_move_workspace_up E2 m1 = Some (m\<lparr>mn_workspace_switch := None\<rparr>)" if off: "\<not> (mp_above_first (mn_options m) \<and> a = 0)"
  proof -
    have k: "k = a + 1" "(mp_above_first (mn_options m) \<and> a = 0) = False" using off by (auto simp: k_def)
    have "mn_move_workspace_up E2 m1 = mn_refocus E2 a (m1\<lparr>mn_workspaces := mn_workspaces m\<rparr>)"
      by (simp add: mn_move_workspace_up_def m1_def k Let_def swap(2)[simplified] mn_add_workspace_bottom_def)
    moreover obtain n2 where n2: "mn_refocus E2 a (m1\<lparr>mn_workspaces := mn_workspaces m\<rparr>) = Some n2"
      using refocus_total[of "m1\<lparr>mn_workspaces := mn_workspaces m\<rparr>" E2 a] assms(2-4) by (auto simp: m1_def k(1) mn_startable_def)
    moreover have "n2 = m\<lparr>mn_workspace_switch := None\<rparr>" using refocus_shape[OF n2] assms(3) by (cases m) (simp add: m1_def)
    ultimately show ?thesis by simp
  qed
  with down show ?thesis by (intro exI[of _ m1]) (simp add: m1_def k_def)
qed

theorem move_workspace_down_up_witness:
  "\<exists>m m1. mn_example m \<and> mn_move_workspace_down (env_blank 1) m = Some m1 \<and> ws_ids (mn_workspaces m1 ! 1) = [1] \<and>
     mn_move_workspace_up (env_blank 1) m1 = Some (m\<lparr>mn_workspace_switch := None\<rparr>)"
proof -
  obtain m where m: "mn_example m" using example_exists by blast
  with move_workspace_down_up[of "env_blank 1" m 0 "env_blank 1" "env_blank 1"] show ?thesis
    by (auto simp: mn_example_def)
qed

text \<open>Property C33. When a monitor goes away its workspaces with windows or a name are handed over,
  and a monitor that is made from them, of whatever output and configuration, has every window again, on workspaces with
  the same identifiers in the same order, and meets the invariant; neither step panics.\<close>

theorem reconnect_keeps_windows:
  assumes "mn_reach E m" "\<forall>w\<in>set (mn_workspaces m). ws_id w < i"
  shows "\<exists>wss m'. mn_into_workspaces E m = Some wss \<and> mn_new E i out wss j base part = Some m' \<and>
    mset (map mw_id (mn_windows m')) = mset (map mw_id (mn_windows m)) \<and>
    map ws_id (take (length wss) (mn_workspaces m')) = map ws_id (filter ws_has_windows_or_name (mn_workspaces m)) \<and>
    mn_inv E m'"
proof -
  note inv = mn_reach_inv[OF assms(1)]
  obtain wss where wss: "mn_into_workspaces E m = Some wss" "list_all ws_has_windows_or_name wss"
    using into_workspaces_total by blast
  note o = into_workspaces_ok[OF inv wss(1)]
  have "distinct (map ws_id (mn_workspaces m))" using mn_invD(1)[OF inv] by (simp add: wss_ok_def)
  then have d: "distinct (map ws_id wss)" using o distinct_map_filter[of ws_id "mn_workspaces m"] by simp
  have "ws_id ` set wss \<subseteq> ws_id ` set (mn_workspaces m)"
    using arg_cong[OF o[THEN conjunct2, THEN conjunct2], of set] by auto
  then have less: "ws_id w < i" if "w \<in> set wss" for w using that assms(2) by auto
  have dd: "distinct (concat (map ws_ids wss))" using o mn_invD(5)[OF inv] mset_eq_imp_distinct_iff by blast
  obtain m' where m': "mn_new E i out wss j base part = Some m'"
    using mn_new_total[of wss E i out j base part] o wss(2) by (auto simp: list_all_iff)
  have "mn_holds E (mset (concat (map ws_ids wss))) m' \<and>
      length (mn_workspaces m') = max (length wss) (max (lo_workspace_count (op_layout (mp_shared (mn_options m')))) 1) \<and>
      map ws_id (take (length wss) (mn_workspaces m')) = map ws_id wss"
    by (rule new_ok[OF _ d less dd m']) (use o in auto)
  with wss(1) m' o show ?thesis by (auto simp: mn_holds_def mn_windows_ids)
qed

theorem reconnect_keeps_windows_witness:
  "\<exists>m wss m'. mn_example m \<and> mn_into_workspaces (env_blank 1) m = Some wss \<and>
     mn_new (env_blank 1) 3 out_blank wss None (mp_blank 4 False) None = Some m' \<and> mset (map mw_id (mn_windows m')) = {#1#}"
proof -
  obtain m where m: "mn_example m" using example_exists by blast
  then have "mn_reach (env_blank 1) m" "\<forall>w\<in>set (mn_workspaces m). ws_id w < 3" "mn_ids m = [1]"
    by (auto simp: mn_example_def mn_ids_def length_Suc_conv numeral_2_eq_2)
  with reconnect_keeps_windows[of "env_blank 1" m 3 out_blank None "mp_blank 4 False" None] m show ?thesis
    by (auto simp: mn_windows_ids)
qed

section \<open>The setting that assumes a growing list\<close>

text \<open>Property C34. With \<open>empty-workspace-above-first\<close> a window that is added to the first
  workspace and activated goes to the first workspace, but the second one is activated: \<open>add_workspace_top\<close> no longer adds
  the workspace the index is moved for. When there is only one workspace, the active workspace does not exist afterwards,
  and the next operation on it panics.\<close>

theorem above_first_activates_wrong:
  assumes "mn_reach E m" "mp_above_first (mn_options m)" "mn_startable m"
    and "tile_id t \<notin> set (mn_ids m)" "parents_acyclic (t # mn_tiles m)"
  shows "\<exists>m'. mn_add_tile E t (MonitorWorkspace (ws_id (mn_workspaces m ! 0)) None) ActYes True width full fl m = Some m' \<and>
    ws_has_window (tile_id t) (mn_workspaces m' ! 0) \<and> length (mn_workspaces m') = length (mn_workspaces m) \<and>
    mn_active_workspace_idx m' = 1 \<and> (length (mn_workspaces m) = 1 \<longrightarrow> mn_active_workspace m' = None)"
proof -
  note inv = mn_reach_inv[OF assms(1)]
  have z: "0 < length (mn_workspaces m)" using mn_invD(4)[OF inv] by auto
  have "distinct (map ws_id (mn_workspaces m))" using mn_invD(1)[OF inv] by (simp add: wss_ok_def)
  from position_id[OF this z]
  have r: "mn_resolve_add_window_target (MonitorWorkspace (ws_id (mn_workspaces m ! 0)) None) m = Some (0, AddAuto)"
    by (simp add: mn_resolve_add_window_target_def)
  have n: "tile_id t \<notin> set (ws_ids (mn_workspaces m ! 0))" using assms(4) nth_mem[OF z] by (auto simp: mn_ids_def)
  obtain w where w: "ws_add_tile E t AddAuto ActYes width full fl (mn_workspaces m ! 0) = Some w"
      "ws_added E (tile_id t) (mn_workspaces m ! 0) w"
    using add_tile_added[OF mn_invD(6)[OF inv z] n acyclic_add[OF assms(5) z], of AddAuto ActYes width full fl] by blast
  define m1 where "m1 = m\<lparr>mn_workspaces := (mn_workspaces m)[0 := mn_own m w]\<rparr>"
  have at: "mn_at 0 (\<lambda>v. map_option (mn_own m) (ws_add_tile E t AddAuto ActYes width full fl v)) m = Some m1"
    using w(1) z by (simp add: at_Some m1_def)
  have room: "mn_make_room 0 m1 = (m1, 1)" using assms(2) by (simp add: make_room mn_made_def m1_def)
  obtain m2 where m2: "mn_activate_workspace E 1 m1 = Some m2"
    using activate_total[of m1 E 1] mn_invD(4)[OF inv] assms(3) by (auto simp: m1_def)
  note f = focused_same[OF activate_cases[OF m2[unfolded mn_activate_workspace_def], THEN conjunct1]]
  have "mn_add_tile E t (MonitorWorkspace (ws_id (mn_workspaces m ! 0)) None) ActYes True width full fl m = Some m2"
    using m2 by (simp add: mn_add_tile_def r at room del: One_nat_def)
  moreover have "tile_id t \<in> set (ws_ids w)"
    using w(2) unfolding ws_added_def by (metis set_mset_mset union_single_eq_member)
  ultimately show ?thesis using f z
    by (simp add: m1_def has_window_ids own_upd mn_active_workspace_def vec_get_def)
qed

theorem above_first_activates_wrong_witness:
  "\<exists>m m'. mn_fresh 1 True m \<and> mn_add_tile (env_blank 1) (tile_blank 1) (MonitorWorkspace (ws_id (mn_workspaces m ! 0)) None)
     ActYes True (Fixed 300) False False m = Some m' \<and> mn_active_workspace m' = None"
proof -
  obtain m where f: "mn_fresh 1 True m" using mn_blank by blast
  then have m: "mn_reach (env_blank 1) m" "mp_above_first (mn_options m)" "mn_startable m" "mn_ids m = []" "length (mn_workspaces m) = 1"
    by (simp_all add: mn_fresh_def mp_blank_sel)
  have "mn_tiles m = []" using mn_tiles_ids[of m] m(4) by simp
  moreover have "tkey (tile_blank 1) = (1, 1, None)" by (simp add: blank_defs tkey_def)
  ultimately have "parents_acyclic (tile_blank 1 # mn_tiles m)" using float_one_acyclic by simp
  from above_first_activates_wrong[OF m(1-3) _ this, of "Fixed 300" False False] m(4,5) f show ?thesis by auto
qed

text \<open>Property C35. Turning \<open>empty-workspace-above-first\<close> off removes the first workspace of every
  monitor that is idle on another one, whether or not it is empty: its windows are gone from the layout.\<close>

theorem above_first_off_drops:
  assumes "mn_reach E m" "mp_above_first (mn_options m)"
    and "\<not> mp_above_first (mp_with_merged_layout (mn_layout_config m) base)"
    and "1 < length (mn_workspaces m)" "mn_workspace_switch m = None" "mn_active_workspace_idx m \<noteq> 0"
  shows "length (mn_workspaces (mn_update_config E base m)) = length (mn_workspaces m) - 1 \<and>
    mset (map mw_id (mn_windows m)) =
      mset (ws_ids (mn_workspaces m ! 0)) + mset (map mw_id (mn_windows (mn_update_config E base m)))"
proof -
  note inv = mn_reach_inv[OF assms(1)]
  obtain w wss where wss: "mn_workspaces m = w # wss" using assms(4) by (cases "mn_workspaces m") auto
  let ?o = "mp_shared (mp_with_merged_layout (mn_layout_config m) base)"
  have u: "mn_workspaces (mn_update_config E base m) = map (ws_update_config E ?o) wss"
    using assms(2-6) by (simp add: mn_update_config_def Let_def wss)
  have "mset (ws_ids (ws_update_config E ?o v)) = mset (ws_ids v)" if "v \<in> set wss" for v
  proof -
    have "ws_inv E v" using mn_invD(1)[OF inv] that by (simp add: wss_ok_def ws_belongs_def wss)
    from settled_same[OF update_config_settled[OF ws_invD(1-4)[OF this]]] show ?thesis by (simp add: ws_same_def)
  qed
  then have "mset (concat (map (ws_ids \<circ> ws_update_config E ?o) wss)) = mset (concat (map ws_ids wss))"
    by (induction wss) auto
  then show ?thesis by (simp add: mn_windows_ids mn_ids_def u wss)
qed

text \<open>An output that comes back to two workspaces, the second of them named and active, with the setting on.\<close>

theorem above_first_off_drops_witness:
  "\<exists>m. mn_reach (env_blank 1) m \<and> mset (map mw_id (mn_windows m)) = {#1#} \<and>
     mn_windows (mn_update_config (env_blank 1) (mp_blank 2 False) m) = []"
proof -
  let ?E = "env_blank 1"
  obtain v where v: "ws_exec ?E (WAddTile (tile_blank 1) AddAuto ActYes (Fixed 300) False False) ws_blank = Some v"
      "ws_reach ?E v" "ws_ids v = [1]" using ws_example_add by blast
  have vr: "ws_id v = 3" "ws_output v = None"
    using rest_adds(5)[of ?E "tile_blank 1" AddAuto ActYes "Fixed 300" False False ws_blank v] v(1)
    by (simp_all add: ws_rest_def ws_blank_def ws_new_no_outputs_def ws_new_with_config_no_outputs_def ws_build_def Let_def)
  define u where "u = ws_new_with_config_no_outputs ?E 4 (Some \<lparr>wc_name = ''b'', wc_open_on_output = None, wc_layout = None\<rparr>) options_blank"
  have ur: "ws_reach ?E u" unfolding u_def ws_new_with_config_no_outputs_def by (rule ws_start)
  have u: "ws_id u = 4" "ws_output u = None" "ws_ids u = []" "ws_name u = Some ''b''"
    by (simp_all add: u_def ws_new_with_config_no_outputs_def ws_build_def Let_def ws_ids_def ss_ids_def columns_def ss_new_def
        fs_new_def fs_ids_def)
  have full: "ws_has_windows_or_name v" "ws_has_windows_or_name u"
    using v(3) u(4) by (auto simp: ws_has_windows_or_name_def ws_has_windows_def ws_windows_def ws_tiles_ids[symmetric])
  let ?o = "mp_shared (mp_blank 2 True)"
  obtain v1 u1 where s: "ws_set_output ?E (Some out_blank) v = Some v1" "ws_set_output ?E (Some out_blank) u = Some u1"
    using set_output_some[OF vr(2)] set_output_some[OF u(2)] by blast
  have id1: "ws_id v1 = 3" "ws_id u1 = 4"
    using set_output_rest[OF s(1)] set_output_rest[OF s(2)] vr u by (simp_all add: ws_rest_def)
  let ?v = "ws_update_config ?E ?o v1" and ?u = "ws_update_config ?E ?o u1"
  define m where "m = \<lparr>mn_output = out_blank,
      mn_scale = ou_scale out_blank, mn_view_size = ou_size out_blank, mn_working_area = ou_area out_blank,
      mn_workspaces = [?v, ?u], mn_active_workspace_idx = 1, mn_previous_workspace_id = None, mn_workspace_switch = None,
      mn_overview_open = False, mn_overview_progress = None, mn_base_options = mp_blank 2 True, mn_options = mp_blank 2 True,
      mn_layout_config = None\<rparr>"
  have new: "mn_new ?E 5 out_blank [v, u] (Some 4) (mp_blank 2 True) None = Some m"
    unfolding m_def using s full id1 update_config_rest[of ?E ?o v1] update_config_rest[of ?E ?o u1]
    by (simp add: mn_new_def Let_def mp_blank_sel upt_rec ws_rest_def)
  have wss: "mn_workspaces m = [?v, ?u]" by (simp add: m_def)
  have "starts_with ?E 5 out_blank [v, u]" using v ur vr u by (simp add: starts_with_def)
  then have m: "mn_reach ?E m" using new by (rule mn_start)
  have inv: "ws_inv ?E v" "ws_inv ?E u" using ws_reach_inv v(2) ur by blast+
  have "ws_settled ?E x (ws_update_config ?E ?o y)" if "ws_inv ?E x" "ws_set_output ?E (Some out_blank) x = Some y" for x y
  proof -
    have y: "ws_settled ?E x y" by (rule set_output_settled[OF that])
    then have "ws_inv ?E y" by (simp add: ws_settled_def)
    from update_config_settled[OF ws_invD(1-4)[OF this]] y show ?thesis by (simp add: ws_settled_def)
  qed
  note st = this[OF inv(1) s(1)] this[OF inv(2) s(2)]
  have ids: "mset (ws_ids ?v) = {#1#}" "mset (ws_ids ?u) = {#}"
    using settled_same[OF st(1)] settled_same[OF st(2)] v(3) u(3) by (simp_all add: ws_same_def)
  then have all: "mset (map mw_id (mn_windows m)) = {#1#}" by (simp add: mn_windows_ids mn_ids_def wss)
  have "mset (map mw_id (mn_windows m)) =
      mset (ws_ids (mn_workspaces m ! 0)) + mset (map mw_id (mn_windows (mn_update_config ?E (mp_blank 2 False) m)))"
    using above_first_off_drops[OF m, of "mp_blank 2 False"] by (simp add: m_def mp_blank_sel)
  with all ids(1) m show ?thesis by (auto simp: wss intro!: exI[of _ m])
qed

text \<open>The only workspace of a monitor can be removed as well, and then there is none, which every other operation takes
  for granted.\<close>

lemma remove_last_workspace:
  assumes inv: "mn_inv E m" and room: "\<not> mp_above_first (mn_options m)" and one: "length (mn_workspaces m) = 1"
  shows "\<exists>w m'. mn_remove_workspace_by_idx E 0 m = Some (w, m') \<and> mn_workspaces m' = [] \<and> mn_active_workspace m' = None"
proof -
  obtain v where v: "mn_workspaces m = [v]" using one by (auto simp: length_Suc_conv)
  then have "mn_active_workspace_idx m = 0" using mn_invD(4)[OF inv] by simp
  moreover obtain w where "ws_set_output E None v = Some w" using set_output_none by blast
  ultimately show ?thesis using v no_room[OF room, of 0]
    by (simp add: mn_remove_workspace_by_idx_def vec_remove_def mn_clean_up_workspaces_def mn_active_workspace_def vec_get_def)
qed

end
