(* ===== verification/Layout.thy ===== *)
theory Layout
  imports MonitorTotal
begin

text \<open>
  The layout, \<^verbatim>\<open>layout/mod.rs\<close>: the monitors, or the workspaces that wait for one when no output is connected,
  which monitor is active and which is the primary one, the overview, the window that is being dragged, and
  the options. This theory has the state, the outputs that come and go, and the windows that are added, removed and
  activated. An \<open>unwrap\<close> of what is missing, an index out of range and a failed assertion are \<open>None\<close>. The counter of
  workspace identifiers, a static of \<^verbatim>\<open>layout/workspace.rs\<close>, is kept with the layout. Rendering is left out.
\<close>

section \<open>The state\<close>

text \<open>\<open>Outputs monitors primary_idx active_monitor_idx\<close> is \<open>MonitorSet::Normal\<close>.\<close>

datatype monitor_set = Outputs "monitor list" nat nat | NoOutputs "workspace list"

record move_data =
  mv_tile :: tile
  mv_output :: wl_output
  mv_pointer_pos :: point
  mv_width :: column_width
  mv_is_full_width :: bool
  mv_is_floating :: bool
  mv_pointer_ratio :: "f64 \<times> f64"
  mv_output_config :: "layout_part option"
  mv_workspace_config :: "(nat \<times> layout_part) option"

datatype interactive_move = Starting nat point "f64 \<times> f64" | Moving move_data

datatype dnd_target = DndWindow nat | DndWorkspace nat

record dnd_hold = dh_start_time :: duration  dh_target :: dnd_target

record dnd_data =
  dd_output :: wl_output
  dd_pointer_pos :: point
  dd_hold :: "dnd_hold option"

record layout =
  la_set :: monitor_set
  la_is_active :: bool
  la_last_active :: "string \<rightharpoonup> nat"
  la_move :: "interactive_move option"
  la_dnd :: "dnd_data option"
  la_overview_open :: bool
  la_overview_progress :: "layout_overview option"
  la_options :: monitor_options
  la_overview_config :: anim_config
  la_next_id :: nat

datatype layout_target = LayoutAuto | LayoutOutput nat | LayoutWorkspace nat | LayoutNextTo nat

text \<open>The animation of the overview is the one section of the options that only the layout reads.
  \<open>Layout::with_options\<close>, and \<open>with_options_and_workspaces\<close> for the named workspaces of the configuration.\<close>

definition la_with_options :: "monitor_options \<Rightarrow> anim_config \<Rightarrow> nat \<Rightarrow> layout" where
  "la_with_options opts cfg i =
    \<lparr>la_set = NoOutputs [], la_is_active = True, la_last_active = Map.empty, la_move = None, la_dnd = None,
     la_overview_open = False, la_overview_progress = None, la_options = opts,
     la_overview_config = cfg, la_next_id = i\<rparr>"

definition la_new :: "env \<Rightarrow> workspace_config list \<Rightarrow> monitor_options \<Rightarrow> anim_config \<Rightarrow> nat \<Rightarrow> layout" where
  "la_new E configs opts cfg i =
    (la_with_options opts cfg (i + length configs))
      \<lparr>la_set := NoOutputs (map (\<lambda>(k, c). ws_new_with_config_no_outputs E (i + k) (Some c) (mp_shared opts))
                        (enumerate 0 configs))\<rparr>"

section \<open>Monitors, workspaces and windows\<close>

definition la_monitors :: "layout \<Rightarrow> monitor list" where
  "la_monitors L = (case la_set L of Outputs ms _ _ \<Rightarrow> ms | NoOutputs _ \<Rightarrow> [])"

definition la_workspaces :: "layout \<Rightarrow> workspace list" where
  "la_workspaces L = (case la_set L of Outputs ms _ _ \<Rightarrow> concat (map mn_workspaces ms) | NoOutputs wss \<Rightarrow> wss)"

definition la_moving :: "layout \<Rightarrow> move_data option" where
  "la_moving L = (case la_move L of Some (Moving v) \<Rightarrow> Some v | _ \<Rightarrow> None)"

text \<open>The dragged window is no longer on a workspace.\<close>

definition la_windows :: "layout \<Rightarrow> mapped list" where
  "la_windows L = (case la_moving L of Some v \<Rightarrow> [tl_window (mv_tile v)] | None \<Rightarrow> []) @
     concat (map ws_windows (la_workspaces L))"

definition la_has_window :: "nat \<Rightarrow> layout \<Rightarrow> bool" where
  "la_has_window i L \<longleftrightarrow> list_ex (\<lambda>x. mw_id x = i) (la_windows L)"

text \<open>Whether the dragged window is the given one; the second is for commands on a given or the focused window.\<close>

definition la_is_moving :: "nat \<Rightarrow> layout \<Rightarrow> bool" where
  "la_is_moving i L \<longleftrightarrow> (case la_moving L of Some v \<Rightarrow> tile_id (mv_tile v) = i | None \<Rightarrow> False)"

definition la_move_blocks :: "nat option \<Rightarrow> layout \<Rightarrow> bool" where
  "la_move_blocks window L \<longleftrightarrow>
     (case la_moving L of Some v \<Rightarrow> window = None \<or> window = Some (tile_id (mv_tile v)) | None \<Rightarrow> False)"

definition ms_index :: "nat \<Rightarrow> monitor list \<Rightarrow> nat option" where
  "ms_index out ms = position (\<lambda>m. ou_id (mn_output m) = out) ms"

definition la_monitor_for_output :: "nat \<Rightarrow> layout \<Rightarrow> monitor option" where
  "la_monitor_for_output out L = find (\<lambda>m. ou_id (mn_output m) = out) (la_monitors L)"

definition la_monitor_for_workspace :: "string \<Rightarrow> layout \<Rightarrow> monitor option" where
  "la_monitor_for_workspace n L = find (\<lambda>m. list_ex (ws_is_named n) (mn_workspaces m)) (la_monitors L)"

text \<open>The active monitor and the active workspace: \<open>Some None\<close> when there is no output.\<close>

definition la_active_monitor :: "layout \<Rightarrow> monitor option option" where
  "la_active_monitor L = (case la_set L of
     Outputs ms _ a \<Rightarrow> map_option Some (vec_get ms a) | NoOutputs _ \<Rightarrow> Some None)"

definition la_active_output :: "layout \<Rightarrow> nat option option" where
  "la_active_output L = map_option (map_option (ou_id \<circ> mn_output)) (la_active_monitor L)"

definition la_active_workspace :: "layout \<Rightarrow> workspace option option" where
  "la_active_workspace L = do {
     m \<leftarrow> la_active_monitor L;
     case m of None \<Rightarrow> Some None | Some m \<Rightarrow> map_option Some (mn_active_workspace m) }"

text \<open>The focused window with its output.\<close>

definition la_focus_with_output :: "layout \<Rightarrow> (nat \<times> nat) option option" where
  "la_focus_with_output L = (case la_moving L of
     Some v \<Rightarrow> Some (Some (tile_id (mv_tile v), ou_id (mv_output v)))
   | None \<Rightarrow> do {
       m \<leftarrow> la_active_monitor L;
       case m of
         None \<Rightarrow> Some None
       | Some m \<Rightarrow> map_option (map_option (\<lambda>win. (mw_id win, ou_id (mn_output m)))) (mn_active_window m) })"

definition la_focus :: "layout \<Rightarrow> nat option option" where
  "la_focus L = map_option (map_option fst) (la_focus_with_output L)"

definition la_windows_for_output :: "nat \<Rightarrow> layout \<Rightarrow> mapped list option" where
  "la_windows_for_output out L = (case la_set L of
     NoOutputs _ \<Rightarrow> None
   | Outputs ms _ _ \<Rightarrow> do {
       m \<leftarrow> find (\<lambda>m. ou_id (mn_output m) = out) ms;
       Some ((case la_moving L of
                Some v \<Rightarrow> if ou_id (mv_output v) = out then [tl_window (mv_tile v)] else []
              | None \<Rightarrow> []) @ mn_windows m) })"

text \<open>A workspace by its identifier, its name, or a reference; an index, counted from 1, is one of the active monitor.\<close>

datatype workspace_reference = RefIndex nat | RefName string | RefId nat

definition la_find_workspace :: "(workspace \<Rightarrow> bool) \<Rightarrow> layout \<Rightarrow> (nat \<times> workspace) option" where
  "la_find_workspace P L = (case la_set L of
     Outputs ms _ _ \<Rightarrow> do {
       m \<leftarrow> find (\<lambda>m. list_ex P (mn_workspaces m)) ms;
       k \<leftarrow> position P (mn_workspaces m);
       Some (k, mn_workspaces m ! k) }
   | NoOutputs wss \<Rightarrow> map_option (\<lambda>k. (k, wss ! k)) (position P wss))"

definition la_find_workspace_by_id :: "nat \<Rightarrow> layout \<Rightarrow> (nat \<times> workspace) option" where
  "la_find_workspace_by_id i = la_find_workspace (\<lambda>w. ws_id w = i)"

definition la_find_workspace_by_name :: "string \<Rightarrow> layout \<Rightarrow> (nat \<times> workspace) option" where
  "la_find_workspace_by_name n = la_find_workspace (ws_is_named n)"

definition la_find_workspace_by_ref :: "workspace_reference \<Rightarrow> layout \<Rightarrow> workspace option option" where
  "la_find_workspace_by_ref r L = (case r of
     RefIndex index \<Rightarrow> do {
       m \<leftarrow> la_active_monitor L;
       Some (case m of None \<Rightarrow> None | Some m \<Rightarrow> vec_get (mn_workspaces m) (index - 1)) }
   | RefName n \<Rightarrow> Some (find (ws_is_named n) (la_workspaces L))
   | RefId i \<Rightarrow> Some (find (\<lambda>w. ws_id w = i) (la_workspaces L)))"

section \<open>Changing monitors and workspaces\<close>

definition la_put :: "monitor_set \<Rightarrow> layout \<Rightarrow> layout" where
  "la_put ms L = L\<lparr>la_set := ms\<rparr>"

text \<open>\<open>for mon in self.monitors_mut()\<close> and \<open>for ws in self.workspaces_mut()\<close>.\<close>

definition la_all_monitors :: "(monitor \<Rightarrow> monitor option) \<Rightarrow> layout \<Rightarrow> layout option" where
  "la_all_monitors f L = (case la_set L of
     Outputs ms p a \<Rightarrow> map_option (\<lambda>ms. la_put (Outputs ms p a) L) (try_map f ms)
   | NoOutputs _ \<Rightarrow> Some L)"

definition mn_map :: "(workspace \<Rightarrow> workspace) \<Rightarrow> monitor \<Rightarrow> monitor" where
  "mn_map f m = m\<lparr>mn_workspaces := map f (mn_workspaces m)\<rparr>"

definition la_map_workspaces :: "(workspace \<Rightarrow> workspace) \<Rightarrow> layout \<Rightarrow> layout" where
  "la_map_workspaces f L = la_put (case la_set L of
     Outputs ms p a \<Rightarrow> Outputs (map (mn_map f) ms) p a
   | NoOutputs wss \<Rightarrow> NoOutputs (map f wss)) L"

text \<open>The same when an operation can panic.\<close>

definition mn_try :: "(workspace \<Rightarrow> workspace option) \<Rightarrow> monitor \<Rightarrow> monitor option" where
  "mn_try f m = map_option (\<lambda>wss. m\<lparr>mn_workspaces := wss\<rparr>) (try_map f (mn_workspaces m))"

definition la_try_workspaces :: "(workspace \<Rightarrow> workspace option) \<Rightarrow> layout \<Rightarrow> layout option" where
  "la_try_workspaces f L = (case la_set L of
     Outputs ms p a \<Rightarrow> map_option (\<lambda>ms. la_put (Outputs ms p a) L) (try_map (mn_try f) ms)
   | NoOutputs wss \<Rightarrow> map_option (\<lambda>wss. la_put (NoOutputs wss) L) (try_map f wss))"

text \<open>The active monitor, a workspace of the active monitor, or nothing when there is no output.\<close>

definition la_on_active_monitor :: "(monitor \<Rightarrow> monitor option) \<Rightarrow> layout \<Rightarrow> layout option" where
  "la_on_active_monitor f L = (case la_set L of
     NoOutputs _ \<Rightarrow> Some L
   | Outputs ms p a \<Rightarrow> do {
       m \<leftarrow> vec_get ms a;
       m \<leftarrow> f m;
       Some (la_put (Outputs (ms[a := m]) p a) L) })"

definition la_on_active :: "env \<Rightarrow> ws_op \<Rightarrow> layout \<Rightarrow> layout option" where
  "la_on_active E op = la_on_active_monitor (\<lambda>m. mn_at (mn_active_workspace_idx m) (ws_exec E op) m)"

text \<open>The first workspace that satisfies \<open>P\<close>; \<open>None\<close> when there is none.\<close>

definition la_on_first :: "(workspace \<Rightarrow> bool) \<Rightarrow> (workspace \<Rightarrow> workspace option) \<Rightarrow> layout \<Rightarrow> layout option" where
  "la_on_first P f L = (case la_set L of
     Outputs ms p a \<Rightarrow> do {
       k \<leftarrow> position (\<lambda>m. list_ex P (mn_workspaces m)) ms;
       j \<leftarrow> position P (mn_workspaces (ms ! k));
       m \<leftarrow> mn_at j f (ms ! k);
       Some (la_put (Outputs (ms[k := m]) p a) L) }
   | NoOutputs wss \<Rightarrow> do {
       j \<leftarrow> position P wss;
       w \<leftarrow> f (wss ! j);
       Some (la_put (NoOutputs (wss[j := w])) L) })"

text \<open>The same with a search that finds nothing and leaves the layout as it is.\<close>

definition la_on_holder :: "env \<Rightarrow> nat \<Rightarrow> ws_op \<Rightarrow> layout \<Rightarrow> layout option" where
  "la_on_holder E i op L =
    (if list_ex (ws_has_window i) (la_workspaces L) then la_on_first (ws_has_window i) (ws_exec E op) L else Some L)"

text \<open>A command on a given window, whose workspace is searched and unwrapped, or on the active workspace; it does
  nothing when it is about the dragged window.\<close>

definition la_on_window :: "env \<Rightarrow> nat option \<Rightarrow> ws_op \<Rightarrow> layout \<Rightarrow> layout option" where
  "la_on_window E window op L =
    (if la_move_blocks window L then Some L
     else case window of
       Some i \<Rightarrow> la_on_first (ws_has_window i) (ws_exec E op) L
     | None \<Rightarrow> la_on_active E op L)"

text \<open>\<open>for x in xs { if x.f() { return } }\<close>, with the position of the element that stopped it.\<close>

fun try_until :: "('a \<Rightarrow> ('a \<times> bool) option) \<Rightarrow> 'a list \<Rightarrow> ('a list \<times> nat option) option" where
  "try_until f [] = Some ([], None)"
| "try_until f (x # xs) = do {
     (x, ok) \<leftarrow> f x;
     if ok then Some (x # xs, Some 0)
     else do { (xs, k) \<leftarrow> try_until f xs; Some (x # xs, map_option Suc k) } }"

definition la_until :: "(workspace \<Rightarrow> (workspace \<times> bool) option) \<Rightarrow> layout \<Rightarrow> (layout \<times> bool) option" where
  "la_until f L = (case la_set L of
     Outputs ms p a \<Rightarrow> do {
       (ms, k) \<leftarrow> try_until (\<lambda>m. do {
                     (wss, j) \<leftarrow> try_until f (mn_workspaces m);
                     Some (m\<lparr>mn_workspaces := wss\<rparr>, j \<noteq> None) }) ms;
       Some (la_put (Outputs ms p a) L, k \<noteq> None) }
   | NoOutputs wss \<Rightarrow> do {
       (wss, j) \<leftarrow> try_until f wss;
       Some (la_put (NoOutputs wss) L, j \<noteq> None) })"

section \<open>Outputs\<close>

text \<open>A monitor for an output that was connected. Its padding takes new identifiers.\<close>

definition la_make_monitor :: "env \<Rightarrow> wl_output \<Rightarrow> workspace list \<Rightarrow> layout_part option \<Rightarrow> layout \<Rightarrow>
    (monitor \<times> layout) option" where
  "la_make_monitor E out workspaces part L = do {
     let name = on_connector (ou_name out);
     let ws_id_to_activate = la_last_active L name;
     let L1 = L\<lparr>la_last_active := (la_last_active L)(name := None)\<rparr>;
     m \<leftarrow> mn_new E (la_next_id L) out workspaces ws_id_to_activate (la_options L) part;
     m \<leftarrow> mn_set_overview_progress E (la_overview_progress L) (m\<lparr>mn_overview_open := la_overview_open L\<rparr>);
     Some (m, L1\<lparr>la_next_id := la_next_id L + (length (mn_workspaces m) - length workspaces)\<rparr>) }"

text \<open>The workspaces of the primary monitor that belong to the new output, from the last to the first; those
  without a window or a name are dropped.\<close>

fun take_matching :: "wl_output \<Rightarrow> nat \<Rightarrow> monitor \<Rightarrow> workspace list \<Rightarrow> bool \<Rightarrow>
    (monitor \<times> workspace list \<times> bool) option" where
  "take_matching out 0 primary workspaces stopped = Some (primary, workspaces, stopped)"
| "take_matching out (Suc i) primary workspaces stopped = do {
     w \<leftarrow> vec_get (mn_workspaces primary) i;
     if output_id_matches (ws_original_output w) out then do {
       (w, wss) \<leftarrow> vec_remove i (mn_workspaces primary);
       let primary = primary\<lparr>mn_workspaces := wss\<rparr>;
       let (primary, stopped) = (if mn_workspace_switch primary \<noteq> None
              then (primary\<lparr>mn_workspace_switch := None\<rparr>, True) else (primary, stopped));
       let workspaces = (if ws_has_windows_or_name w then w # workspaces else workspaces);
       let primary = (if i \<le> mn_active_workspace_idx primary \<and>
                         \<not> (mp_above_first (mn_options primary) \<and> mn_active_workspace_idx primary = 1)
              then primary\<lparr>mn_active_workspace_idx := mn_active_workspace_idx primary - 1\<rparr> else primary);
       take_matching out i primary workspaces stopped }
     else take_matching out i primary workspaces stopped }"

definition la_add_output :: "env \<Rightarrow> wl_output \<Rightarrow> layout_part option \<Rightarrow> layout \<Rightarrow> layout option" where
  "la_add_output E out part L = (case la_set L of
     Outputs ms p a \<Rightarrow> do {
       primary \<leftarrow> vec_get ms p;
       (primary, workspaces, stopped) \<leftarrow> take_matching out (length (mn_workspaces primary)) primary [] False;
       primary \<leftarrow> (if stopped \<or> mp_above_first (mn_options primary) \<and> length (mn_workspaces primary) = 2
                 then mn_clean_up_workspaces primary else Some primary);
       (m, L) \<leftarrow> la_make_monitor E out workspaces part L;
       Some (la_put (Outputs (ms[p := primary] @ [m]) p a) L) }
   | NoOutputs workspaces \<Rightarrow> do {
       (m, L) \<leftarrow> la_make_monitor E out workspaces part L;
       Some (la_put (Outputs [m] 0 0) L) })"

text \<open>The name is remembered with the active workspace; the workspaces go to the primary monitor, if one is left.\<close>

definition la_remove_output :: "env \<Rightarrow> nat \<Rightarrow> layout \<Rightarrow> layout option" where
  "la_remove_output E out L = (case la_set L of
     Outputs ms p a \<Rightarrow> do {
       idx \<leftarrow> ms_index out ms;
       (m, ms) \<leftarrow> vec_remove idx ms;
       active \<leftarrow> mn_active_workspace m;
       let L = L\<lparr>la_last_active := (la_last_active L)(on_connector (ou_name (mn_output m)) \<mapsto> ws_id active)\<rparr>;
       workspaces \<leftarrow> mn_into_workspaces E m;
       if ms = [] then Some (la_put (NoOutputs (map (ws_update_config E (mp_shared (la_options L))) workspaces)) L)
       else do {
         let p = (if idx \<le> p then p - 1 else p);
         let a = (if idx \<le> a then a - 1 else a);
         primary \<leftarrow> vec_get ms p;
         primary \<leftarrow> mn_append_workspaces E workspaces primary;
         Some (la_put (Outputs (ms[p := primary]) p a) L) } }
   | NoOutputs _ \<Rightarrow> None)"

text \<open>The readings of an output changed; a dragged window sees the same output.\<close>

definition la_update_output_size :: "env \<Rightarrow> wl_output \<Rightarrow> layout \<Rightarrow> layout option" where
  "la_update_output_size E out L =
    (let L = (case la_moving L of
                Some v \<Rightarrow> if ou_id (mv_output v) = ou_id out then L\<lparr>la_move := Some (Moving (v\<lparr>mv_output := out\<rparr>))\<rparr> else L
              | None \<Rightarrow> L)
     in case la_set L of
          Outputs ms p a \<Rightarrow> (case ms_index (ou_id out) ms of
            Some k \<Rightarrow> do {
              m \<leftarrow> mn_update_output_size E ((ms ! k)\<lparr>mn_output := out\<rparr>);
              Some (la_put (Outputs (ms[k := m]) p a) L) }
          | None \<Rightarrow> Some L)
        | NoOutputs _ \<Rightarrow> Some L)"

definition la_focus_output :: "nat \<Rightarrow> layout \<Rightarrow> layout" where
  "la_focus_output out L = (case la_set L of
     Outputs ms p a \<Rightarrow> (case ms_index out ms of Some k \<Rightarrow> la_put (Outputs ms p k) L | None \<Rightarrow> L)
   | NoOutputs _ \<Rightarrow> L)"

section \<open>Adding windows\<close>

text \<open>The output a window is dragged over, when the new one is to be next to it.\<close>

definition la_next_to_moving :: "nat \<Rightarrow> layout \<Rightarrow> nat option" where
  "la_next_to_moving i L = (case la_moving L of
     Some v \<Rightarrow> if tile_id (mv_tile v) = i then Some (ou_id (mv_output v)) else None | None \<Rightarrow> None)"

definition la_resolve_target :: "layout_target \<Rightarrow> monitor list \<Rightarrow> nat \<Rightarrow> layout \<Rightarrow> (nat \<times> monitor_target) option" where
  "la_resolve_target target ms a L = (case target of
     LayoutAuto \<Rightarrow> Some (a, MonitorAuto)
   | LayoutOutput out \<Rightarrow> map_option (\<lambda>k. (k, MonitorAuto)) (ms_index out ms)
   | LayoutWorkspace i \<Rightarrow> map_option (\<lambda>k. (k, MonitorWorkspace i None))
        (position (\<lambda>m. list_ex (\<lambda>w. ws_id w = i) (mn_workspaces m)) ms)
   | LayoutNextTo i \<Rightarrow> (case la_next_to_moving i L of
        Some out \<Rightarrow> Some (case ms_index out ms of Some k \<Rightarrow> k | None \<Rightarrow> a, MonitorAuto)
      | None \<Rightarrow> map_option (\<lambda>k. (k, MonitorNextTo i))
          (position (\<lambda>m. list_ex (ws_has_window i) (mn_workspaces m)) ms)))"

text \<open>\<open>set_window_height(Some(&id), change)\<close>, when a height is given for a window that does not float.\<close>

definition ws_default_height :: "env \<Rightarrow> nat \<Rightarrow> preset_size option \<Rightarrow> bool \<Rightarrow> workspace \<Rightarrow> workspace option" where
  "ws_default_height E i height is_floating w = (case height of
     Some h \<Rightarrow> if is_floating then Some w else ws_set_window_height E (Some i) (size_change_from h) w
   | None \<Rightarrow> Some w)"

text \<open>Without outputs there is a new workspace when there is none.\<close>

definition la_some_workspace :: "env \<Rightarrow> layout \<Rightarrow> layout" where
  "la_some_workspace E L = (case la_set L of
     NoOutputs [] \<Rightarrow> (la_put (NoOutputs [ws_new_no_outputs E (la_next_id L) (mp_shared (la_options L))]) L)
        \<lparr>la_next_id := la_next_id L + 1\<rparr>
   | _ \<Rightarrow> L)"

definition la_resolve_without_outputs :: "env \<Rightarrow> layout_target \<Rightarrow> workspace list \<Rightarrow> layout \<Rightarrow>
    (layout \<times> nat \<times> add_target) option" where
  "la_resolve_without_outputs E target wss L = (case target of
     LayoutAuto \<Rightarrow> Some (la_some_workspace E L, 0, AddAuto)
   | LayoutOutput _ \<Rightarrow> None
   | LayoutWorkspace i \<Rightarrow> map_option (\<lambda>k. (L, k, AddAuto)) (position (\<lambda>w. ws_id w = i) wss)
   | LayoutNextTo i \<Rightarrow>
       if la_next_to_moving i L \<noteq> None then Some (la_some_workspace E L, 0, AddAuto)
       else map_option (\<lambda>k. (L, k, AddNextTo i)) (position (ws_has_window i) wss))"

definition la_add_window :: "env \<Rightarrow> mapped \<Rightarrow> layout_target \<Rightarrow> preset_size option \<Rightarrow> preset_size option \<Rightarrow> bool \<Rightarrow> bool \<Rightarrow>
    activate_window \<Rightarrow> layout \<Rightarrow> (layout \<times> nat option) option" where
  "la_add_window E win target width height full is_floating activate L = (case la_set L of
     Outputs ms p a \<Rightarrow> do {
       (k, target) \<leftarrow> la_resolve_target target ms a L;
       m \<leftarrow> vec_get ms k;
       (j, _) \<leftarrow> mn_resolve_add_window_target target m;
       w \<leftarrow> vec_get (mn_workspaces m) j;
       m \<leftarrow> mn_add_window E win target activate (ws_resolve_scrolling_width win width w) full is_floating m;
       let a = (if map_smart False activate then k else a);
       m \<leftarrow> (if is_floating \<or> height = None then Some m
            else do {
              j \<leftarrow> position (ws_has_window (mw_id win)) (mn_workspaces m);
              mn_at j (ws_default_height E (mw_id win) height is_floating) m });
       Some (la_put (Outputs (ms[k := m]) p a) L, Some (ou_id (mn_output m))) }
   | NoOutputs wss \<Rightarrow> do {
       (L, j, target) \<leftarrow> la_resolve_without_outputs E target wss L;
       let wss = la_workspaces L;
       w \<leftarrow> vec_get wss j;
       let scrolling_width = ws_resolve_scrolling_width win width w;
       w \<leftarrow> ws_add_tile E (ws_make_tile win w) target activate scrolling_width full is_floating w;
       w \<leftarrow> ws_default_height E (mw_id win) height is_floating w;
       Some (la_put (NoOutputs (wss[j := w])) L, None) })"

definition la_add_column_by_idx :: "env \<Rightarrow> nat \<Rightarrow> nat \<Rightarrow> column \<Rightarrow> bool \<Rightarrow> layout \<Rightarrow> layout option" where
  "la_add_column_by_idx E monitor_idx workspace_idx c activate L = (case la_set L of
     NoOutputs _ \<Rightarrow> None
   | Outputs ms p a \<Rightarrow> do {
       m \<leftarrow> vec_get ms monitor_idx;
       m \<leftarrow> mn_add_column E workspace_idx c activate m;
       Some (la_put (Outputs (ms[monitor_idx := m]) p (if activate then monitor_idx else a)) L) })"

end
