(* ===== verification/HitTest.thy ===== *)
theory HitTest
  imports MonitorTotal
begin

text \<open>
  What is under the pointer: the hit tests of \<^verbatim>\<open>layout/tile.rs\<close>, \<^verbatim>\<open>layout/scrolling.rs\<close>, \<^verbatim>\<open>layout/workspace.rs\<close> and
  \<^verbatim>\<open>layout/monitor.rs\<close>, and where a dragged window would go. The geometry of Smithay and the input regions of the
  clients are given.
\<close>

section \<open>Given\<close>

record pointer_env =
  pe_intersects :: "rect \<Rightarrow> rect \<Rightarrow> bool"
  pe_contains :: "rect \<Rightarrow> point \<Rightarrow> bool"
  pe_input_region :: "mapped \<Rightarrow> point \<Rightarrow> bool"
  pe_buf_loc :: "mapped \<Rightarrow> point"

text \<open>\<open>iter.find_map(f)\<close>.\<close>

fun find_map :: "('a \<Rightarrow> 'b option) \<Rightarrow> 'a list \<Rightarrow> 'b option" where
  "find_map f [] = None"
| "find_map f (x # xs) = (case f x of Some y \<Rightarrow> Some y | None \<Rightarrow> find_map f xs)"

lemma find_map_Some: "find_map f xs = Some y \<Longrightarrow> \<exists>x\<in>set xs. f x = Some y"
  by (induction xs) (auto split: option.splits)

lemma find_map_None: "find_map f xs = None \<longleftrightarrow> (\<forall>x\<in>set xs. f x = None)"
  by (induction xs) (auto split: option.splits)

lemma find_map_unique:
  assumes "x \<in> set xs" "f x = Some y" "\<And>z. z \<in> set xs \<Longrightarrow> f z = None \<or> f z = Some y"
  shows "find_map f xs = Some y"
proof (cases "find_map f xs")
  case None
  with assms(1,2) show ?thesis unfolding find_map_None by auto
next
  case (Some v)
  from find_map_Some[OF this] obtain x where "x \<in> set xs" "f x = Some v" by auto
  with assms(3)[of x] Some show ?thesis by auto
qed

datatype hit_type = HitInput point | HitActivate bool

fun hit_offset :: "point \<Rightarrow> hit_type \<Rightarrow> hit_type" where
  "hit_offset offset (HitInput win_pos) = HitInput (pt_add win_pos offset)"
| "hit_offset offset (HitActivate b) = HitActivate b"

fun hit_to_activate :: "hit_type \<Rightarrow> hit_type" where
  "hit_to_activate (HitInput _) = HitActivate False"
| "hit_to_activate (HitActivate b) = HitActivate b"

section \<open>Tiles\<close>

definition baba_is_float_offset :: "duration \<Rightarrow> f64 \<Rightarrow> f64" where
  "baba_is_float_offset now view_height = view_height / 96 * (sin (2 * pi * dur_as_secs now / 3.6) - 1)"

definition tile_bob_offset :: "env \<Rightarrow> tile \<Rightarrow> point" where
  "tile_bob_offset E t =
    (if wr_baba_is_float (mw_rules (tl_window t)) \<noteq> Some True then mk_point 0 0
     else mk_point 0 (round_logical_in_physical (tl_scale t) (baba_is_float_offset (e_now E) (sz_h (tl_view_size t)))))"

definition tile_buf_loc :: "pointer_env \<Rightarrow> env \<Rightarrow> tile \<Rightarrow> point" where
  "tile_buf_loc P E t = pt_add (tile_window_loc E t) (pe_buf_loc P (tl_window t))"

definition tile_in_input_region :: "pointer_env \<Rightarrow> env \<Rightarrow> point \<Rightarrow> tile \<Rightarrow> bool" where
  "tile_in_input_region P E p t = pe_input_region P (tl_window t) (pt_sub p (tile_window_loc E t))"

definition tile_in_activation_region :: "pointer_env \<Rightarrow> env \<Rightarrow> point \<Rightarrow> tile \<Rightarrow> bool" where
  "tile_in_activation_region P E p t = pe_contains P \<lparr>rloc = mk_point 0 0, rsize = tile_size E t\<rparr> p"

definition tile_hit :: "pointer_env \<Rightarrow> env \<Rightarrow> point \<Rightarrow> tile \<Rightarrow> hit_type option" where
  "tile_hit P E p t =
    (let offset = tile_bob_offset E t;
         p = pt_sub p offset
     in if tile_in_input_region P E p t then Some (HitInput (pt_add (tile_buf_loc P E t) offset))
        else if tile_in_activation_region P E p t then Some (HitActivate False)
        else None)"

definition hit_tile :: "pointer_env \<Rightarrow> env \<Rightarrow> tile \<Rightarrow> point \<Rightarrow> point \<Rightarrow> (nat \<times> hit_type) option" where
  "hit_tile P E t tile_pos p = map_option (\<lambda>h. (tile_id t, hit_offset tile_pos h)) (tile_hit P E (pt_sub p tile_pos) t)"

section \<open>Workspaces\<close>

text \<open>A fullscreen or maximized window covers the others.\<close>

definition ss_window_under :: "pointer_env \<Rightarrow> env \<Rightarrow> point \<Rightarrow> scrolling_space \<Rightarrow> (nat \<times> hit_type) option" where
  "ss_window_under P E pos s = (case takeover s of
     Some (take_idx, area) \<Rightarrow> do { c \<leftarrow> column_by_unified_idx take_idx s; hit_tile P E (co_tile c) (rloc area) pos }
   | None \<Rightarrow> find_map (\<lambda>(idx, tile_pos, _). do {
        c \<leftarrow> column_by_unified_idx idx s;
        hit_tile P E (co_tile c) tile_pos pos }) (column_layout s))"

definition ws_window_under :: "pointer_env \<Rightarrow> env \<Rightarrow> point \<Rightarrow> workspace \<Rightarrow> (nat \<times> hit_type) option" where
  "ws_window_under P E pos w =
    (case (if ws_is_floating_visible w
           then find_map (\<lambda>(t, tile_pos). hit_tile P E t tile_pos pos) (fs_tiles_with_render_positions E True (ws_floating w))
           else None) of
       Some r \<Rightarrow> Some r
     | None \<Rightarrow> ss_window_under P E pos (ws_scrolling w))"

definition edges_under :: "size \<Rightarrow> point \<Rightarrow> resize_edge" where
  "edges_under sz p =
    (let left = pt_x p < sz_w sz / 3; top = pt_y p < sz_h sz / 3
     in \<lparr>re_top = top, re_bottom = (\<not> top \<and> 2 * sz_h sz / 3 < pt_y p),
         re_left = left, re_right = (\<not> left \<and> 2 * sz_w sz / 3 < pt_x p)\<rparr>)"

definition ws_tiles_with_visibility :: "env \<Rightarrow> workspace \<Rightarrow> (tile \<times> point \<times> bool) list" where
  "ws_tiles_with_visibility E w =
     map (\<lambda>(t, p). (t, p, ws_is_floating_visible w)) (fs_tiles_with_render_positions E True (ws_floating w)) @
     tiles_with_render_positions (ws_scrolling w)"

definition ws_resize_edges_under :: "pointer_env \<Rightarrow> env \<Rightarrow> point \<Rightarrow> workspace \<Rightarrow> resize_edge option" where
  "ws_resize_edges_under P E pos w =
     find_map (\<lambda>(t, tile_pos, visible).
       if \<not> visible then None
       else
         let p = pt_sub pos tile_pos
         in if tile_hit P E p t \<noteq> None then Some (edges_under (tile_size E t) p) else None)
       (ws_tiles_with_visibility E w)"

section \<open>Monitors\<close>

text \<open>The workspaces that are on the output, with their indices.\<close>

definition mn_workspaces_with_render_geo :: "pointer_env \<Rightarrow> env \<Rightarrow> bool \<Rightarrow> monitor \<Rightarrow> (nat \<times> workspace \<times> rect) list" where
  "mn_workspaces_with_render_geo P E cull m =
     filter (\<lambda>(_, _, geo). \<not> cull \<or> pe_intersects P geo \<lparr>rloc = mk_point 0 0, rsize = mn_view_size m\<rparr>)
       (zip [0..<length (mn_workspaces m)] (zip (mn_workspaces m) (mn_workspaces_render_geo E m)))"

text \<open>The first is as wide as the output.\<close>

definition mn_workspace_under :: "pointer_env \<Rightarrow> env \<Rightarrow> point \<Rightarrow> monitor \<Rightarrow> (workspace \<times> rect) option" where
  "mn_workspace_under P E pos m =
     find_map (\<lambda>(_, w, geo).
       if pe_contains P \<lparr>rloc = mk_point 0 (pt_y (rloc geo)), rsize = mk_size (sz_w (mn_view_size m)) (sz_h (rsize geo))\<rparr> pos
       then Some (w, geo) else None) (mn_workspaces_with_render_geo P E True m)"

definition mn_workspace_under_narrow :: "pointer_env \<Rightarrow> env \<Rightarrow> point \<Rightarrow> monitor \<Rightarrow> workspace option" where
  "mn_workspace_under_narrow P E pos m =
     find_map (\<lambda>(_, w, geo). if pe_contains P geo pos then Some w else None) (mn_workspaces_with_render_geo P E True m)"

definition pt_scaled :: "f64 \<Rightarrow> point \<Rightarrow> point" where
  "pt_scaled k p = mk_point (pt_x p * k) (pt_y p * k)"

definition pt_downscaled :: "f64 \<Rightarrow> point \<Rightarrow> point" where
  "pt_downscaled k p = mk_point (pt_x p / k) (pt_y p / k)"

definition mn_window_under :: "pointer_env \<Rightarrow> env \<Rightarrow> point \<Rightarrow> monitor \<Rightarrow> (nat \<times> hit_type) option" where
  "mn_window_under P E pos m = do {
     (w, geo) \<leftarrow> mn_workspace_under P E pos m;
     if mn_overview_progress m \<noteq> None then do {
       (win, hit) \<leftarrow> ws_window_under P E (pt_downscaled (mn_overview_zoom E m) (pt_sub pos (rloc geo))) w;
       Some (win, hit_to_activate hit) }
     else do {
       (win, hit) \<leftarrow> ws_window_under P E (pt_sub pos (rloc geo)) w;
       Some (win, hit_offset (rloc geo) hit) } }"

definition mn_resize_edges_under :: "pointer_env \<Rightarrow> env \<Rightarrow> point \<Rightarrow> monitor \<Rightarrow> resize_edge option" where
  "mn_resize_edges_under P E pos m =
    (if mn_overview_progress m \<noteq> None then None
     else do {
       (w, geo) \<leftarrow> mn_workspace_under P E pos m;
       ws_resize_edges_under P E (pt_sub pos (rloc geo)) w })"

section \<open>Where a dragged window goes\<close>

datatype insert_workspace = InsertExisting nat | InsertNewAt nat

definition rect_default :: rect where
  "rect_default = \<lparr>rloc = mk_point 0 0, rsize = mk_size 0 0\<rparr>"

definition spans :: "f64 \<Rightarrow> rect \<Rightarrow> bool" where
  "spans y geo \<longleftrightarrow> pt_y (rloc geo) \<le> y \<and> y < pt_y (rloc geo) + sz_h (rsize geo)"

fun insert_below :: "f64 \<Rightarrow> rect \<Rightarrow> nat \<Rightarrow> (nat \<times> workspace \<times> rect) list \<Rightarrow> insert_workspace \<times> rect" where
  "insert_below y last_geo last_idx [] = (InsertNewAt (last_idx + 1), rect_default)"
| "insert_below y last_geo last_idx ((idx, w, geo) # rest) =
    (let gap_loc = mk_point (pt_x (rloc last_geo)) (pt_y (rloc last_geo) + sz_h (rsize last_geo));
         gap_size = mk_size (sz_w (rsize geo)) (pt_y (rloc geo) - pt_y gap_loc)
     in if spans y \<lparr>rloc = gap_loc, rsize = gap_size\<rparr> then (InsertNewAt idx, rect_default)
        else if spans y geo then (InsertExisting (ws_id w), geo)
        else insert_below y geo idx rest)"

definition mn_insert_position :: "pointer_env \<Rightarrow> env \<Rightarrow> point \<Rightarrow> monitor \<Rightarrow> (insert_workspace \<times> rect) option" where
  "mn_insert_position P E pos m = (case mn_workspaces_with_render_geo P E True m of
     [] \<Rightarrow> None
   | (idx, w, geo) # rest \<Rightarrow>
       Some (if pt_y pos < pt_y (rloc geo) then (InsertNewAt idx, rect_default)
             else if spans (pt_y pos) geo then (InsertExisting (ws_id w), geo)
             else insert_below (pt_y pos) geo idx rest))"

end
