(* ===== verification/LayoutDrag.thy ===== *)
theory LayoutDrag
  imports Layout HitTest
begin

text \<open>
  Dragging windows with the pointer (\<^verbatim>\<open>layout/mod.rs\<close>): an interactive move starts with the window still in its
  place, takes it out of the layout once the pointer has moved far enough, and puts it back where the pointer is; and
  the removal of windows, which ends a move. The view offset gestures of the workspaces do nothing in the
  master-stack engine and are left out, as are the messages to the client that its output changed. \<open>now\<close> is the
  unadjusted time of the clock, \<open>P\<close> the hit tests.
\<close>

section \<open>The dragged tile\<close>

definition interactive_move_start_threshold :: f64 where "interactive_move_start_threshold = 256 * 256"
definition interactive_move_alpha :: f64 where "interactive_move_alpha = 0.75"

text \<open>Where the dragged tile is drawn: the pointer stays at the same ratio within the window.\<close>

definition mv_render_location :: "env \<Rightarrow> f64 \<Rightarrow> move_data \<Rightarrow> point" where
  "mv_render_location E zoom v =
    (let scale = os_fractional (ou_scale (mv_output v));
         t = mv_tile v;
         sz = tile_window_size E t;
         pointer_offset = mk_point (sz_w sz * fst (mv_pointer_ratio v)) (sz_h sz * snd (mv_pointer_ratio v));
         pos = pt_sub (mv_pointer_pos v)
                 (pt_scaled zoom (pt_sub (pt_add pointer_offset (tile_window_loc E t)) (render_offset E t)))
     in mk_point (e_phys_round E scale (pt_x pos)) (e_phys_round E scale (pt_y pos)))"

definition la_overview_value :: "env \<Rightarrow> layout_overview \<Rightarrow> f64" where
  "la_overview_value E p = overview_value E (overview_from p)"

definition la_overview_zoom :: "env \<Rightarrow> layout \<Rightarrow> f64" where
  "la_overview_zoom E L = compute_overview_zoom (la_options L) (map_option (la_overview_value E) (la_overview_progress L))"

definition la_interactive_moved_window_under :: "pointer_env \<Rightarrow> env \<Rightarrow> nat \<Rightarrow> point \<Rightarrow> layout \<Rightarrow> (nat \<times> hit_type) option" where
  "la_interactive_moved_window_under P E out pos L = do {
     v \<leftarrow> la_moving L;
     if ou_id (mv_output v) \<noteq> out then None
     else if la_overview_progress L \<noteq> None then do {
       let zoom = la_overview_zoom E L;
       (win, hit) \<leftarrow> hit_tile P E (mv_tile v) (mk_point 0 0)
                      (pt_downscaled zoom (pt_sub pos (mv_render_location E zoom v)));
       Some (win, hit_to_activate hit) }
     else hit_tile P E (mv_tile v) (mv_render_location E 1 v) pos }"

definition la_window_under :: "pointer_env \<Rightarrow> env \<Rightarrow> nat \<Rightarrow> point \<Rightarrow> layout \<Rightarrow> (nat \<times> hit_type) option" where
  "la_window_under P E out pos L = do { m \<leftarrow> la_monitor_for_output out L; mn_window_under P E pos m }"

definition la_resize_edges_under :: "pointer_env \<Rightarrow> env \<Rightarrow> nat \<Rightarrow> point \<Rightarrow> layout \<Rightarrow> resize_edge option" where
  "la_resize_edges_under P E out pos L = do { m \<leftarrow> la_monitor_for_output out L; mn_resize_edges_under P E pos m }"

definition la_workspace_under :: "pointer_env \<Rightarrow> env \<Rightarrow> bool \<Rightarrow> nat \<Rightarrow> point \<Rightarrow> layout \<Rightarrow> workspace option" where
  "la_workspace_under P E extended_bounds out pos L =
    (if la_interactive_moved_window_under P E out pos L \<noteq> None then None
     else do {
       m \<leftarrow> la_monitor_for_output out L;
       if extended_bounds then map_option fst (mn_workspace_under P E pos m) else mn_workspace_under_narrow P E pos m })"

text \<open>The options of the dragged tile, with the overrides of the output and of the workspace it came from.\<close>

definition mv_options :: "options \<Rightarrow> move_data \<Rightarrow> options" where
  "mv_options base v = options_adjusted_for_scale (os_fractional (ou_scale (mv_output v)))
     (options_with_merged_layout (map_option snd (mv_workspace_config v))
       (options_with_merged_layout (mv_output_config v) base))"

definition mv_update_config :: "options \<Rightarrow> move_data \<Rightarrow> move_data" where
  "mv_update_config base v =
     v\<lparr>mv_tile := tile_update_config (ou_size (mv_output v)) (os_fractional (ou_scale (mv_output v))) (mv_options base v) (mv_tile v)\<rparr>"

text \<open>\<open>animate_alpha\<close> with the animation for window movement of the layout.\<close>

definition la_animate_alpha :: "env \<Rightarrow> f64 \<Rightarrow> f64 \<Rightarrow> layout \<Rightarrow> tile \<Rightarrow> tile option" where
  "la_animate_alpha E fr to L t = animate_alpha E fr to (ao_window_movement (op_animations (mp_shared (la_options L)))) t"

section \<open>Letting go\<close>

text \<open>A move that has not taken the window out yet: it slides back from where it was pulled.\<close>

definition ws_release :: "env \<Rightarrow> nat \<Rightarrow> workspace \<Rightarrow> workspace option" where
  "ws_release E i w = do {
     w \<leftarrow> (if ws_has_window i w
          then ws_update_tile i (\<lambda>t. animate_move_from E (tl_interactive_move_offset t)
                                       (t\<lparr>tl_interactive_move_offset := mk_point 0 0\<rparr>)) w
          else Some w);
     if map_option mw_id (ws_active_window w) = Some i then map_option fst (ws_activate_window i w) else Some w }"

definition la_end_starting :: "env \<Rightarrow> duration \<Rightarrow> nat \<Rightarrow> layout \<Rightarrow> layout option" where
  "la_end_starting E now i L = do {
     L \<leftarrow> la_all_monitors (mn_dnd_scroll_gesture_end E now) (L\<lparr>la_move := None\<rparr>);
     la_try_workspaces (ws_release E i) L }"

text \<open>Where the tile is dropped: the monitor, the workspace, the place in it and where that workspace is drawn.\<close>

definition la_drop_target :: "pointer_env \<Rightarrow> env \<Rightarrow> move_data \<Rightarrow> monitor list \<Rightarrow> nat \<Rightarrow>
    (nat \<times> insert_workspace \<times> insert_position \<times> point option) option" where
  "la_drop_target P E v ms a = (case ms_index (ou_id (mv_output v)) ms of
     Some k \<Rightarrow> do {
       let m = ms ! k;
       (insert_ws, geo) \<leftarrow> mn_insert_position P E (mv_pointer_pos v) m;
       case insert_ws of
         InsertExisting i \<Rightarrow> do {
           j \<leftarrow> position (\<lambda>w. ws_id w = i) (mn_workspaces m);
           Some (k, insert_ws,
             if mv_is_floating v then InsertFloating else ss_insert_position (ws_scrolling (mn_workspaces m ! j)),
             Some (rloc geo)) }
       | InsertNewAt _ \<Rightarrow> Some (k, insert_ws, if mv_is_floating v then InsertFloating else NewColumn 0, None) }
   | None \<Rightarrow> do {
       m \<leftarrow> vec_get ms a;
       w \<leftarrow> vec_get (mn_workspaces m) 0;
       geo \<leftarrow> vec_get (mn_workspaces_render_geo E m) 0;
       Some (a, InsertExisting (ws_id w),
         if mv_is_floating v then InsertFloating else ss_insert_position (ws_scrolling w), Some (rloc geo)) })"

text \<open>The workspace the tile is dropped on. A new workspace takes the next identifier; at the end of the list the
  last workspace is taken to be empty and reused.\<close>

definition mn_drop_workspace :: "env \<Rightarrow> nat \<Rightarrow> insert_workspace \<Rightarrow> monitor \<Rightarrow> (monitor \<times> nat \<times> nat) option" where
  "mn_drop_workspace E next_id insert_ws m = (case insert_ws of
     InsertExisting i \<Rightarrow> map_option (\<lambda>j. (m, j, next_id)) (position (\<lambda>w. ws_id w = i) (mn_workspaces m))
   | InsertNewAt j \<Rightarrow>
       if mp_above_first (mn_options m) \<and> j = 0 then Some (m, 0, next_id)
       else if mn_workspaces m = [] then None
       else if length (mn_workspaces m) - 1 \<le> j then Some (m, length (mn_workspaces m) - 1, next_id)
       else map_option (\<lambda>m. (m, j, next_id + 1)) (mn_add_workspace_at E next_id j m))"

text \<open>The tile that is dropped as a floating one, with the position it has under the pointer and its current size.\<close>

definition mv_floating_tile :: "env \<Rightarrow> f64 \<Rightarrow> insert_workspace \<Rightarrow> point option \<Rightarrow> workspace \<Rightarrow> move_data \<Rightarrow> tile" where
  "mv_floating_tile E zoom insert_ws offset w v =
    (let t = (mv_tile v)\<lparr>tl_floating_pos := None\<rparr>;
         t = (case (insert_ws, offset) of
                (InsertExisting _, Some offset) \<Rightarrow>
                  t\<lparr>tl_floating_pos := Some (logical_to_size_frac (fs_working_area (ws_floating w))
                      (pt_downscaled zoom (pt_sub (mv_render_location E zoom v) offset)))\<rparr>
              | _ \<Rightarrow> t)
     in case win_expected_size E (tl_window t) of
          Some sz \<Rightarrow> t\<lparr>tl_floating_window_size := Some sz\<rparr> | None \<Rightarrow> t)"

definition mn_drop_tile :: "env \<Rightarrow> f64 \<Rightarrow> insert_workspace \<Rightarrow> insert_position \<Rightarrow> point option \<Rightarrow> bool \<Rightarrow> nat \<Rightarrow> move_data \<Rightarrow>
    monitor \<Rightarrow> monitor option" where
  "mn_drop_tile E zoom insert_ws place offset allow_to_activate j v m = (case place of
     NewColumn column_idx \<Rightarrow> do {
       w \<leftarrow> vec_get (mn_workspaces m) j;
       mn_add_tile E (mv_tile v) (MonitorWorkspace (ws_id w) (Some column_idx)) ActYes allow_to_activate
         (mv_width v) (mv_is_full_width v) False m }
   | InColumn _ _ \<Rightarrow> mn_add_tile_to_column E j (mv_tile v) True allow_to_activate m
   | InsertFloating \<Rightarrow> do {
       w \<leftarrow> vec_get (mn_workspaces m) j;
       mn_add_tile E (mv_floating_tile E zoom insert_ws offset w v) (MonitorWorkspace (ws_id w) None) ActYes allow_to_activate
         (mv_width v) (mv_is_full_width v) True m })"

text \<open>The dropped tile slides to its place from where it was drawn.\<close>

definition mn_slide_from :: "pointer_env \<Rightarrow> env \<Rightarrow> f64 \<Rightarrow> point \<Rightarrow> nat \<Rightarrow> monitor \<Rightarrow> monitor option" where
  "mn_slide_from P E zoom tile_render_loc i m = do {
     (j, ws_loc, tile_offset) \<leftarrow> find_map (\<lambda>(j, w, geo). map_option (\<lambda>p. (j, rloc geo, p)) (ws_pos_of E False i w))
        (mn_workspaces_with_render_geo P E False m);
     let new_tile_render_loc = pt_add ws_loc (pt_scaled zoom tile_offset);
     mn_at j (ws_update_tile i (animate_move_from E (pt_downscaled zoom (pt_sub tile_render_loc new_tile_render_loc)))) m }"

definition la_end_moving :: "pointer_env \<Rightarrow> env \<Rightarrow> duration \<Rightarrow> move_data \<Rightarrow> layout \<Rightarrow> layout option" where
  "la_end_moving P E now v L = do {
     L \<leftarrow> la_all_monitors (mn_dnd_scroll_gesture_end E now) L;
     v \<leftarrow> (if mv_is_floating v then Some v
          else map_option (\<lambda>t. v\<lparr>mv_tile := t\<rparr>) (la_animate_alpha E interactive_move_alpha 1 L (mv_tile v)));
     let allow_to_activate = (\<not> la_overview_open L);
     case la_set L of
       Outputs ms p a \<Rightarrow> do {
         (k, insert_ws, place, offset) \<leftarrow> la_drop_target P E v ms a;
         m \<leftarrow> vec_get ms k;
         let zoom = mn_overview_zoom E m;
         (m, j, next_id) \<leftarrow> mn_drop_workspace E (la_next_id L) insert_ws m;
         m \<leftarrow> mn_drop_tile E zoom insert_ws place offset allow_to_activate j v m;
         m \<leftarrow> mn_slide_from P E zoom (mv_render_location E zoom v) (tile_id (mv_tile v)) m;
         Some ((la_put (Outputs (ms[k := m]) p a) L)\<lparr>la_next_id := next_id\<rparr>) }
     | NoOutputs _ \<Rightarrow> do {
         let L = la_some_workspace E L;
         let wss = la_workspaces L;
         w \<leftarrow> vec_get wss 0;
         w \<leftarrow> ws_add_tile E (mv_tile v) AddAuto ActYes (mv_width v) (mv_is_full_width v) (mv_is_floating v) w;
         Some (la_put (NoOutputs (wss[0 := w])) L) } }"

definition la_interactive_move_end :: "pointer_env \<Rightarrow> env \<Rightarrow> duration \<Rightarrow> nat \<Rightarrow> layout \<Rightarrow> layout option" where
  "la_interactive_move_end P E now i L = (case la_move L of
     None \<Rightarrow> Some L
   | Some (Starting j _ _) \<Rightarrow> if j \<noteq> i then Some L else la_end_starting E now i L
   | Some (Moving v) \<Rightarrow>
       if tile_id (mv_tile v) \<noteq> i then Some L else la_end_moving P E now v (L\<lparr>la_move := None\<rparr>))"

section \<open>Removing windows\<close>

text \<open>A workspace that is left without a window or a name goes too, when it is neither active nor the last.\<close>

definition mn_remove_window :: "env \<Rightarrow> nat \<Rightarrow> nat \<Rightarrow> monitor \<Rightarrow> (removed_tile \<times> monitor) option" where
  "mn_remove_window E i idx m = do {
     w \<leftarrow> vec_get (mn_workspaces m) idx;
     (removed, w) \<leftarrow> ws_remove_tile E i w;
     let m = m\<lparr>mn_workspaces := (mn_workspaces m)[idx := w]\<rparr>;
     let m = (if \<not> ws_has_windows_or_name w \<and> idx \<noteq> mn_active_workspace_idx m \<and> idx \<noteq> length (mn_workspaces m) - 1 \<and>
                 mn_workspace_switch m = None
              then m\<lparr>mn_workspaces := take idx (mn_workspaces m) @ drop (Suc idx) (mn_workspaces m),
                     mn_active_workspace_idx := (if idx < mn_active_workspace_idx m then mn_active_workspace_idx m - 1
                                                 else mn_active_workspace_idx m)\<rparr>
              else m);
     if mp_above_first (mn_options m) \<and> length (mn_workspaces m) = 2 \<and> mn_workspace_switch m = None
     then (if ws_has_windows_or_name (mn_workspaces m ! 0) \<or> ws_has_windows_or_name (mn_workspaces m ! 1) then None
           else Some (removed, m\<lparr>mn_workspaces := take 1 (mn_workspaces m), mn_active_workspace_idx := 0\<rparr>))
     else Some (removed, m) }"

text \<open>The window is searched on the monitors or on the workspaces that wait for one.\<close>

definition la_take_window :: "env \<Rightarrow> nat \<Rightarrow> layout \<Rightarrow> (layout \<times> removed_tile option) option" where
  "la_take_window E i L = (case la_set L of
     Outputs ms p a \<Rightarrow> (case position (\<lambda>m. list_ex (ws_has_window i) (mn_workspaces m)) ms of
       None \<Rightarrow> Some (L, None)
     | Some k \<Rightarrow> do {
         j \<leftarrow> position (ws_has_window i) (mn_workspaces (ms ! k));
         (removed, m) \<leftarrow> mn_remove_window E i j (ms ! k);
         Some (la_put (Outputs (ms[k := m]) p a) L, Some removed) })
   | NoOutputs wss \<Rightarrow> (case position (ws_has_window i) wss of
       None \<Rightarrow> Some (L, None)
     | Some j \<Rightarrow> do {
         (removed, w) \<leftarrow> ws_remove_tile E i (wss ! j);
         Some (la_put (NoOutputs (if ws_has_windows_or_name w then wss[j := w] else take j wss @ drop (Suc j) wss)) L,
               Some removed) }))"

definition la_remove_window :: "env \<Rightarrow> duration \<Rightarrow> nat \<Rightarrow> layout \<Rightarrow> (layout \<times> removed_tile option) option" where
  "la_remove_window E now i L = (case la_move L of
     Some (Moving v) \<Rightarrow>
       if tile_id (mv_tile v) = i then do {
         L \<leftarrow> la_all_monitors (mn_dnd_scroll_gesture_end E now) (L\<lparr>la_move := None\<rparr>);
         Some (L, Some \<lparr>rt_tile = mv_tile v, rt_width = mv_width v, rt_is_full_width = mv_is_full_width v,
                         rt_is_floating = False\<rparr>) }
       else la_take_window E i L
   | Some (Starting j _ _) \<Rightarrow>
       if j = i then do { L \<leftarrow> la_end_starting E now i L; la_take_window E i L } else la_take_window E i L
   | None \<Rightarrow> la_take_window E i L)"

section \<open>Starting to drag and dragging\<close>

text \<open>The monitor on which a window is visible, the workspace and where that is drawn.\<close>

definition la_visible_on :: "pointer_env \<Rightarrow> env \<Rightarrow> nat \<Rightarrow> layout \<Rightarrow> (monitor \<times> workspace \<times> rect) option" where
  "la_visible_on P E i L =
     find_map (\<lambda>m. map_option (\<lambda>(_, w, geo). (m, w, geo))
       (find (\<lambda>(_, w, _). ws_has_window i w) (mn_workspaces_with_render_geo P E True m))) (la_monitors L)"

definition la_interactive_move_begin :: "pointer_env \<Rightarrow> env \<Rightarrow> duration \<Rightarrow> nat \<Rightarrow> nat \<Rightarrow> point \<Rightarrow> layout \<Rightarrow>
    (layout \<times> bool) option" where
  "la_interactive_move_begin P E now i out start_pos L =
    (if la_move L \<noteq> None then Some (L, False)
     else case la_visible_on P E i L of
       None \<Rightarrow> Some (L, False)
     | Some (m, w, geo) \<Rightarrow>
         if ou_id (mn_output m) \<noteq> out then Some (L, False)
         else do {
           let zoom = mn_overview_zoom E m;
           (t, tile_offset, _) \<leftarrow> find (\<lambda>(t, _, _). tile_id t = i) (ws_tiles_with_visibility E w);
           let tile_pos = pt_add (rloc geo) (pt_scaled zoom tile_offset);
           let pointer_offset = pt_sub (pt_sub start_pos tile_pos) (pt_scaled zoom (tile_window_loc E t));
           let sz = tile_window_size E t;
           let ratio = (f_clamp (pt_x pointer_offset / (sz_w sz * zoom)) 0 1, f_clamp (pt_y pointer_offset / (sz_h sz * zoom)) 0 1);
           L \<leftarrow> la_all_monitors (Some \<circ> mn_dnd_scroll_gesture_begin E now)
                  (L\<lparr>la_move := Some (Starting i (mk_point 0 0) ratio)\<rparr>);
           Some (L, True) })"

text \<open>The window leaves the layout: it is not fullscreen or maximized any more, keeps the overrides of its workspace and
  slides from where it was drawn, when that is on the same output.\<close>

definition la_take_out :: "env \<Rightarrow> duration \<Rightarrow> nat \<Rightarrow> wl_output \<Rightarrow> point \<Rightarrow> f64 \<times> f64 \<Rightarrow> (nat \<times> layout_part) option \<Rightarrow>
    (point \<times> f64) option \<Rightarrow> layout \<Rightarrow> layout option" where
  "la_take_out E now i out pointer_pos ratio workspace_config tile_pos L = do {
     let output_config = Option.bind (la_monitor_for_output (ou_id out) L) mn_layout_config;
     L \<leftarrow> la_on_first (ws_has_window i) (\<lambda>w. do { w \<leftarrow> ws_set_fullscreen E i False w; ws_set_maximized E i False w })
            (L\<lparr>la_move := None\<rparr>);
     (L, removed) \<leftarrow> la_remove_window E now i L;
     r \<leftarrow> removed;
     let t = (stop_move_animations (rt_tile r))\<lparr>tl_interactive_move_offset := mk_point 0 0\<rparr>;
     let v = mv_update_config (mp_shared (la_options L))
        \<lparr>mv_tile = t, mv_output = out, mv_pointer_pos = pointer_pos, mv_width = rt_width r,
         mv_is_full_width = rt_is_full_width r, mv_is_floating = rt_is_floating r, mv_pointer_ratio = ratio,
         mv_output_config = output_config, mv_workspace_config = workspace_config\<rparr>;
     t \<leftarrow> (if rt_is_floating r then Some (mv_tile v)
          else map_option hold_alpha_animation_after_done (la_animate_alpha E 1 interactive_move_alpha L (mv_tile v)));
     let v = v\<lparr>mv_tile := t\<rparr>;
     t \<leftarrow> (case tile_pos of
            Some (tile_pos, zoom) \<Rightarrow>
              animate_move_from E (pt_downscaled zoom (pt_sub tile_pos (mv_render_location E zoom v))) (mv_tile v)
          | None \<Rightarrow> Some (mv_tile v));
     Some (L\<lparr>la_move := Some (Moving (v\<lparr>mv_tile := t\<rparr>))\<rparr>) }"

definition la_update_starting :: "pointer_env \<Rightarrow> env \<Rightarrow> duration \<Rightarrow> nat \<Rightarrow> point \<Rightarrow> wl_output \<Rightarrow> point \<Rightarrow> point \<Rightarrow> f64 \<times> f64 \<Rightarrow>
    layout \<Rightarrow> layout option" where
  "la_update_starting P E now i delta out pointer_pos pointer_delta ratio L = do {
     let pointer_delta = pt_add pointer_delta (pt_downscaled (la_overview_zoom E L) delta);
     let sq_dist = pt_x pointer_delta * pt_x pointer_delta + pt_y pointer_delta * pt_y pointer_delta;
     let factor = rb_band \<lparr>rb_stiffness = 1, rb_limit = 0.5\<rparr> (sq_dist / interactive_move_start_threshold);
     w \<leftarrow> find (ws_has_window i) (la_workspaces L);
     let workspace_config = map_option (\<lambda>c. (ws_id w, c)) (ws_layout_config w);
     L \<leftarrow> la_on_first (ws_has_window i)
            (ws_update_tile i (\<lambda>t. Some (t\<lparr>tl_interactive_move_offset := pt_scaled factor pointer_delta\<rparr>))) L;
     let L = L\<lparr>la_move := Some (Starting i pointer_delta ratio)\<rparr>;
     if \<not> ws_is_floating i w \<and> sq_dist < interactive_move_start_threshold then Some L
     else do {
       tile_pos \<leftarrow> (case la_visible_on P E i L of
           Some (m, w, geo) \<Rightarrow>
             if ou_id (mn_output m) = ou_id out then do {
               (_, tile_offset, _) \<leftarrow> find (\<lambda>(t, _, _). tile_id t = i) (ws_tiles_with_visibility E w);
               Some (Some (pt_add (rloc geo) (pt_scaled (mn_overview_zoom E m) tile_offset), mn_overview_zoom E m)) }
             else Some None
         | None \<Rightarrow> Some None);
       la_take_out E now i out pointer_pos ratio workspace_config tile_pos L } }"

text \<open>The workspace under the previous position of the pointer decides whether the overrides still apply.\<close>

definition la_update_moving :: "pointer_env \<Rightarrow> env \<Rightarrow> wl_output \<Rightarrow> point \<Rightarrow> move_data \<Rightarrow> layout \<Rightarrow> layout option" where
  "la_update_moving P E out pointer_pos v L = do {
     over \<leftarrow> (case la_monitor_for_output (ou_id out) L of
         Some m \<Rightarrow> do {
           (insert_ws, _) \<leftarrow> mn_insert_position P E (mv_pointer_pos v) m;
           Some (case insert_ws of InsertExisting i \<Rightarrow> Some i | InsertNewAt _ \<Rightarrow> None) }
       | None \<Rightarrow> Some None);
     let reset = (case mv_workspace_config v of Some (i, _) \<Rightarrow> Some i \<noteq> over | None \<Rightarrow> False);
     let v = (if reset then v\<lparr>mv_workspace_config := None\<rparr> else v);
     let moved = (ou_id out \<noteq> ou_id (mv_output v));
     let L = (if moved then la_focus_output (ou_id out) L else L);
     let v = (if moved then v\<lparr>mv_output := out,
                mv_output_config := Option.bind (la_monitor_for_output (ou_id out) L) mn_layout_config\<rparr> else v);
     let v = (if reset \<or> moved then mv_update_config (mp_shared (la_options L)) v else v);
     Some (L\<lparr>la_move := Some (Moving (v\<lparr>mv_pointer_pos := pointer_pos\<rparr>))\<rparr>) }"

definition la_interactive_move_update :: "pointer_env \<Rightarrow> env \<Rightarrow> duration \<Rightarrow> nat \<Rightarrow> point \<Rightarrow> wl_output \<Rightarrow> point \<Rightarrow> layout \<Rightarrow>
    (layout \<times> bool) option" where
  "la_interactive_move_update P E now i delta out pointer_pos L = (case la_move L of
     None \<Rightarrow> Some (L, False)
   | Some (Starting j pointer_delta ratio) \<Rightarrow>
       if j \<noteq> i then Some (L, False)
       else map_option (\<lambda>L. (L, True)) (la_update_starting P E now i delta out pointer_pos pointer_delta ratio L)
   | Some (Moving v) \<Rightarrow>
       if tile_id (mv_tile v) \<noteq> i then Some (L, False)
       else map_option (\<lambda>L. (L, True)) (la_update_moving P E out pointer_pos v L))"

text \<open>The dragged window changes between tiling and floating.\<close>

definition mv_toggle_floating :: "env \<Rightarrow> layout \<Rightarrow> move_data \<Rightarrow> move_data option" where
  "mv_toggle_floating E L v =
    (if \<not> mv_is_floating v then do {
       let t = mv_tile v;
       let win = tl_window t;
       let sz = (case tl_floating_window_size t of Some sz \<Rightarrow> sz
           | None \<Rightarrow> (case win_expected_size E win of Some sz \<Rightarrow> sz | None \<Rightarrow> \<lparr>isz_w = 0, isz_h = 0\<rparr>));
       let mn = win_min_size win;
       let mx = win_max_size win;
       let sz = \<lparr>isz_w = ensure_min_max_size_maybe_zero (isz_w sz) (isz_w mn) (isz_w mx),
                 isz_h = ensure_min_max_size_maybe_zero (isz_h sz) (isz_h mn) (isz_h mx)\<rparr>;
       t \<leftarrow> la_animate_alpha E interactive_move_alpha 1 L (t\<lparr>tl_window := win_request_size_once E sz True win\<rparr>);
       Some (v\<lparr>mv_tile := t, mv_is_floating := True\<rparr>) }
     else do {
       t \<leftarrow> la_animate_alpha E 1 interactive_move_alpha L (mv_tile v);
       Some (v\<lparr>mv_tile := hold_alpha_animation_after_done t, mv_is_floating := False\<rparr>) })"

definition la_toggle_moving_floating :: "env \<Rightarrow> layout \<Rightarrow> layout option" where
  "la_toggle_moving_floating E L = do {
     v \<leftarrow> la_moving L;
     v \<leftarrow> mv_toggle_floating E L v;
     Some (L\<lparr>la_move := Some (Moving v)\<rparr>) }"

definition la_toggle_window_floating :: "env \<Rightarrow> nat option \<Rightarrow> layout \<Rightarrow> layout option" where
  "la_toggle_window_floating E window L =
    (if la_move_blocks window L then la_toggle_moving_floating E L
     else la_on_window E window (WChange (WToggleWindowFloating window)) L)"

definition la_set_window_floating :: "env \<Rightarrow> nat option \<Rightarrow> bool \<Rightarrow> layout \<Rightarrow> layout option" where
  "la_set_window_floating E window is_floating L =
    (if la_move_blocks window L
     then (if map_option mv_is_floating (la_moving L) \<noteq> Some is_floating then la_toggle_window_floating E window L else Some L)
     else la_on_window E window (WChange (WSetWindowFloating window is_floating)) L)"

section \<open>Drag and drop\<close>

definition la_dnd_moved :: "env \<Rightarrow> duration \<Rightarrow> wl_output \<Rightarrow> point \<Rightarrow> layout \<Rightarrow> layout option" where
  "la_dnd_moved E now out pointer_pos L =
    (let begin_gesture = (la_dnd L = None);
         L = L\<lparr>la_dnd := Some \<lparr>dd_output = out, dd_pointer_pos = pointer_pos, dd_hold = None\<rparr>\<rparr>
     in if begin_gesture then la_all_monitors (Some \<circ> mn_dnd_scroll_gesture_begin E now) L else Some L)"

definition la_dnd_end :: "env \<Rightarrow> duration \<Rightarrow> layout \<Rightarrow> layout option" where
  "la_dnd_end E now L =
    (if la_dnd L = None then Some L else la_all_monitors (mn_dnd_scroll_gesture_end E now) (L\<lparr>la_dnd := None\<rparr>))"

end
