(* ===== verification/LayoutCommands.thy ===== *)
theory LayoutCommands
  imports LayoutDrag
begin

text \<open>
  The commands of the layout (\<^verbatim>\<open>layout/mod.rs\<close>): those that go to the active workspace, to the workspace of a given
  window or to the active monitor, those that take windows, columns and workspaces from one output to another, names,
  the overview, gestures, configuration and the routine work. Commands that do nothing in the master-stack engine
  (tabs, widths and heights of columns, the view offset) are left out.
\<close>

section \<open>The active workspace\<close>

definition la_move_left where "la_move_left E = la_on_active E (WMove WMoveLeft)"
definition la_move_right where "la_move_right E = la_on_active E (WMove WMoveRight)"
definition la_move_column_to_first where "la_move_column_to_first E = la_on_active E (WMove WMoveColumnToFirst)"
definition la_move_column_to_last where "la_move_column_to_last E = la_on_active E (WMove WMoveColumnToLast)"
definition la_move_down where "la_move_down E = la_on_active E (WMove WMoveDown)"
definition la_move_up where "la_move_up E = la_on_active E (WMove WMoveUp)"
definition la_focus_left where "la_focus_left E = la_on_active E (WFocus WFocusLeft)"
definition la_focus_right where "la_focus_right E = la_on_active E (WFocus WFocusRight)"
definition la_focus_column_first where "la_focus_column_first E = la_on_active E (WFocus WFocusColumnFirst)"
definition la_focus_column_last where "la_focus_column_last E = la_on_active E (WFocus WFocusColumnLast)"
definition la_focus_column_right_or_first where "la_focus_column_right_or_first E = la_on_active E (WFocus WFocusColumnRightOrFirst)"
definition la_focus_column_left_or_last where "la_focus_column_left_or_last E = la_on_active E (WFocus WFocusColumnLeftOrLast)"
definition la_focus_down where "la_focus_down E = la_on_active E (WFocus WFocusDown)"
definition la_focus_up where "la_focus_up E = la_on_active E (WFocus WFocusUp)"
definition la_focus_down_or_left where "la_focus_down_or_left E = la_on_active E (WFocus WFocusDownOrLeft)"
definition la_focus_down_or_right where "la_focus_down_or_right E = la_on_active E (WFocus WFocusDownOrRight)"
definition la_focus_up_or_left where "la_focus_up_or_left E = la_on_active E (WFocus WFocusUpOrLeft)"
definition la_focus_up_or_right where "la_focus_up_or_right E = la_on_active E (WFocus WFocusUpOrRight)"
definition la_focus_window_top where "la_focus_window_top E = la_on_active E (WFocus WFocusWindowTop)"
definition la_focus_window_bottom where "la_focus_window_bottom E = la_on_active E (WFocus WFocusWindowBottom)"
definition la_focus_window_down_or_top where "la_focus_window_down_or_top E = la_on_active E (WFocus WFocusWindowDownOrTop)"
definition la_focus_window_up_or_bottom where "la_focus_window_up_or_bottom E = la_on_active E (WFocus WFocusWindowUpOrBottom)"
definition la_consume_into_column where "la_consume_into_column E = la_on_active E (WMove WConsumeIntoColumn)"
definition la_expel_from_column where "la_expel_from_column E = la_on_active E (WMove WExpelFromColumn)"
definition la_center_column where "la_center_column E = la_on_active E (WSize WCenterColumn)"
definition la_focus_floating where "la_focus_floating E = la_on_active E (WFocus WFocusFloating)"
definition la_focus_tiling where "la_focus_tiling E = la_on_active E (WFocus WFocusTiling)"
definition la_switch_focus_floating_tiling where "la_switch_focus_floating_tiling E = la_on_active E (WFocus WSwitchFocusFloatingTiling)"
definition la_focus_column where "la_focus_column E index = la_on_active E (WFocus (WFocusColumn index))"
definition la_swap_window_in_direction where "la_swap_window_in_direction E direction = la_on_active E (WMove (WSwapInDirection direction))"
definition la_toggle_width where "la_toggle_width E forwards = la_on_active E (WSize (WToggleWidth forwards))"
definition la_set_column_width where "la_set_column_width E change = la_on_active E (WSize (WSetColumnWidth change))"
definition la_nudge_master_ratio where "la_nudge_master_ratio E delta = la_on_active E (WMove (WNudgeMasterRatio delta))"

text \<open>The animated moves look the workspace up among those that are drawn, and do nothing when it is not there.\<close>

definition la_on_drawn :: "env \<Rightarrow> ws_op \<Rightarrow> layout \<Rightarrow> layout option" where
  "la_on_drawn E op = la_on_active_monitor (\<lambda>m.
     if mn_active_workspace_idx m < length (mn_workspaces m) then mn_at (mn_active_workspace_idx m) (ws_exec E op) m else Some m)"

definition la_move_left_animated where "la_move_left_animated E = la_on_drawn E (WMove WMoveLeftAnimated)"
definition la_move_right_animated where "la_move_right_animated E = la_on_drawn E (WMove WMoveRightAnimated)"
definition la_move_down_animated where "la_move_down_animated E = la_on_drawn E (WMove WMoveDownAnimated)"
definition la_move_up_animated where "la_move_up_animated E = la_on_drawn E (WMove WMoveUpAnimated)"

text \<open>\<open>if workspace.f() { return false }; self.g(); true\<close>.\<close>

definition la_or :: "(workspace \<Rightarrow> (workspace \<times> bool) option) \<Rightarrow> (layout \<Rightarrow> layout option) \<Rightarrow> layout \<Rightarrow> (layout \<times> bool) option" where
  "la_or f g L = (case la_set L of
     Outputs ms p a \<Rightarrow> do {
       m \<leftarrow> vec_get ms a;
       w \<leftarrow> mn_active_workspace m;
       (w, ok) \<leftarrow> f w;
       let L = la_put (Outputs (ms[a := m\<lparr>mn_workspaces := (mn_workspaces m)[mn_active_workspace_idx m := w]\<rparr>]) p a) L;
       if ok then Some (L, False) else map_option (\<lambda>L. (L, True)) (g L) }
   | NoOutputs _ \<Rightarrow> map_option (\<lambda>L. (L, True)) (g L))"

definition la_focus_window_up_or_output where "la_focus_window_up_or_output out = la_or ws_focus_up (Some \<circ> la_focus_output out)"
definition la_focus_window_down_or_output where "la_focus_window_down_or_output out = la_or ws_focus_down (Some \<circ> la_focus_output out)"
definition la_focus_column_left_or_output where "la_focus_column_left_or_output out = la_or ws_focus_left (Some \<circ> la_focus_output out)"
definition la_focus_column_right_or_output where "la_focus_column_right_or_output out = la_or ws_focus_right (Some \<circ> la_focus_output out)"

section \<open>The workspace of a window\<close>

definition la_consume_or_expel_window_left where
  "la_consume_or_expel_window_left E window = la_on_window E window (WMove (WConsumeOrExpelLeft window))"
definition la_consume_or_expel_window_right where
  "la_consume_or_expel_window_right E window = la_on_window E window (WMove (WConsumeOrExpelRight window))"
definition la_center_window where "la_center_window E window = la_on_window E window (WSize (WCenterWindow window))"
definition la_toggle_window_width where
  "la_toggle_window_width E window forwards = la_on_window E window (WSize (WToggleWindowWidth window forwards))"
definition la_toggle_window_height where
  "la_toggle_window_height E window forwards = la_on_window E window (WSize (WToggleWindowHeight window forwards))"
definition la_set_window_width where
  "la_set_window_width E window change = la_on_window E window (WSize (WSetWindowWidth window change))"
definition la_set_window_height where
  "la_set_window_height E window change = la_on_window E window (WSize (WSetWindowHeight window change))"
definition la_move_floating_window where
  "la_move_floating_window E window x y animate = la_on_window E window (WSize (WMoveFloatingWindow window x y animate))"

text \<open>These search the window and do nothing when it is not there, or is being dragged.\<close>

definition la_unless_moving :: "nat \<Rightarrow> (layout \<Rightarrow> layout option) \<Rightarrow> layout \<Rightarrow> layout option" where
  "la_unless_moving i f L = (if la_is_moving i L then Some L else f L)"

definition la_toggle_fullscreen where
  "la_toggle_fullscreen E i = la_unless_moving i (la_on_holder E i (WChange (WToggleFullscreen i)))"
definition la_set_maximized where
  "la_set_maximized E i maximize = la_unless_moving i (la_on_holder E i (WChange (WSetMaximized i maximize)))"
definition la_toggle_maximized where
  "la_toggle_maximized E i = la_unless_moving i (la_on_holder E i (WChange (WToggleMaximized i)))"
definition la_interactive_resize_begin where "la_interactive_resize_begin E i edges = la_on_holder E i (WSize (WResizeBegin i edges))"
definition la_interactive_resize_update where
  "la_interactive_resize_update E i delta = la_unless_moving i (la_on_holder E i (WSize (WResizeUpdate i delta)))"
definition la_interactive_resize_end where
  "la_interactive_resize_end E i = la_unless_moving i (la_on_holder E i (WSize (WResizeEnd (Some i))))"

definition la_descendants_added :: "nat \<Rightarrow> layout \<Rightarrow> (layout \<times> bool) option" where
  "la_descendants_added i = la_until (ws_descendants_added i)"

definition la_start_open_animation :: "env \<Rightarrow> nat \<Rightarrow> layout \<Rightarrow> layout option" where
  "la_start_open_animation E i = la_unless_moving i (\<lambda>L. map_option fst (la_until (ws_start_open_animation E i) L))"

definition la_update_window :: "env \<Rightarrow> nat \<Rightarrow> serial option \<Rightarrow> layout \<Rightarrow> layout option" where
  "la_update_window E i c L = (case la_moving L of
     Some v \<Rightarrow>
       if tile_id (mv_tile v) = i then do {
         let win = (case c of Some c \<Rightarrow> win_on_commit E c (tl_window (mv_tile v)) | None \<Rightarrow> tl_window (mv_tile v));
         t \<leftarrow> tile_update_window E ((mv_tile v)\<lparr>tl_window := win\<rparr>);
         Some (L\<lparr>la_move := Some (Moving (v\<lparr>mv_tile := t\<rparr>))\<rparr>) }
       else la_on_holder E i (WSize (WUpdateWindow i c)) L
   | None \<Rightarrow> la_on_holder E i (WSize (WUpdateWindow i c)) L)"

text \<open>\<open>with_windows_mut\<close> for one window.\<close>

definition tile_map_window :: "nat \<Rightarrow> (mapped \<Rightarrow> mapped) \<Rightarrow> tile \<Rightarrow> tile" where
  "tile_map_window i f t = (if tile_id t = i then t\<lparr>tl_window := f (tl_window t)\<rparr> else t)"

definition ws_map_window :: "nat \<Rightarrow> (mapped \<Rightarrow> mapped) \<Rightarrow> workspace \<Rightarrow> workspace" where
  "ws_map_window i f w =
     on_fs (\<lambda>s. s\<lparr>fs_tiles := map (tile_map_window i f) (fs_tiles s)\<rparr>)
       (on_ss (with_columns (map (\<lambda>c. c\<lparr>co_tile := tile_map_window i f (co_tile c)\<rparr>))) w)"

definition la_map_window :: "nat \<Rightarrow> (mapped \<Rightarrow> mapped) \<Rightarrow> layout \<Rightarrow> layout" where
  "la_map_window i f L =
    (let L = (case la_moving L of
                Some v \<Rightarrow> L\<lparr>la_move := Some (Moving (v\<lparr>mv_tile := tile_map_window i f (mv_tile v)\<rparr>))\<rparr> | None \<Rightarrow> L)
     in la_map_workspaces (ws_map_window i f) L)"

text \<open>A window in windowed fullscreen only leaves that.\<close>

definition la_set_fullscreen :: "env \<Rightarrow> nat \<Rightarrow> bool \<Rightarrow> layout \<Rightarrow> layout option" where
  "la_set_fullscreen E i is_fullscreen L =
    (if \<not> is_fullscreen \<and> list_ex (\<lambda>x. mw_id x = i \<and> mw_is_pending_windowed_fullscreen x) (la_windows L)
     then Some (la_map_window i (win_request_windowed_fullscreen False) L)
     else la_unless_moving i (la_on_holder E i (WChange (WSetFullscreen i is_fullscreen))) L)"

definition la_toggle_windowed_fullscreen :: "env \<Rightarrow> nat \<Rightarrow> layout \<Rightarrow> layout option" where
  "la_toggle_windowed_fullscreen E i L = do {
     win \<leftarrow> find (\<lambda>x. mw_id x = i) (la_windows L);
     L \<leftarrow> (if win_pending_sizing_mode win = Fullscreen then la_on_holder E i (WChange (WSetFullscreen i False)) L else Some L);
     Some (la_map_window i (\<lambda>x. win_request_windowed_fullscreen (\<not> mw_is_pending_windowed_fullscreen x) x) L) }"

section \<open>The active monitor\<close>

definition la_move_down_or_to_workspace_down where
  "la_move_down_or_to_workspace_down E = la_on_active_monitor (mn_move_down_or_to_workspace_down E)"
definition la_move_up_or_to_workspace_up where
  "la_move_up_or_to_workspace_up E = la_on_active_monitor (mn_move_up_or_to_workspace_up E)"
definition la_focus_window_or_workspace_down where
  "la_focus_window_or_workspace_down E = la_on_active_monitor (mn_focus_window_or_workspace_down E)"
definition la_focus_window_or_workspace_up where
  "la_focus_window_or_workspace_up E = la_on_active_monitor (mn_focus_window_or_workspace_up E)"
definition la_move_to_workspace_up where
  "la_move_to_workspace_up E focus = la_on_active_monitor (mn_move_to_workspace_up E focus)"
definition la_move_to_workspace_down where
  "la_move_to_workspace_down E focus = la_on_active_monitor (mn_move_to_workspace_down E focus)"
definition la_move_column_to_workspace_up where
  "la_move_column_to_workspace_up E activate = la_on_active_monitor (mn_move_column_to_workspace_up E activate)"
definition la_move_column_to_workspace_down where
  "la_move_column_to_workspace_down E activate = la_on_active_monitor (mn_move_column_to_workspace_down E activate)"
definition la_move_column_to_workspace where
  "la_move_column_to_workspace E idx activate = la_on_active_monitor (mn_move_column_to_workspace E idx activate)"
definition la_switch_workspace_up where
  "la_switch_workspace_up E = la_on_active_monitor (mn_switch_workspace_up E)"
definition la_switch_workspace_down where
  "la_switch_workspace_down E = la_on_active_monitor (mn_switch_workspace_down E)"
definition la_switch_workspace where
  "la_switch_workspace E idx = la_on_active_monitor (mn_switch_workspace E idx)"
definition la_switch_workspace_auto_back_and_forth where
  "la_switch_workspace_auto_back_and_forth E idx = la_on_active_monitor (mn_switch_workspace_auto_back_and_forth E idx)"
definition la_switch_workspace_previous where
  "la_switch_workspace_previous E = la_on_active_monitor (mn_switch_workspace_previous E)"
definition la_move_workspace_down where
  "la_move_workspace_down E = la_on_active_monitor (mn_move_workspace_down E)"
definition la_move_workspace_up where
  "la_move_workspace_up E = la_on_active_monitor (mn_move_workspace_up E)"

definition la_move_to_workspace :: "env \<Rightarrow> nat option \<Rightarrow> nat \<Rightarrow> activate_window \<Rightarrow> layout \<Rightarrow> layout option" where
  "la_move_to_workspace E window idx activate L =
    (if la_move_blocks window L then Some L
     else case window of
       Some i \<Rightarrow> (case la_set L of
         Outputs ms p a \<Rightarrow> do {
           k \<leftarrow> position (mn_has_window i) ms;
           m \<leftarrow> mn_move_to_workspace E window idx activate (ms ! k);
           Some (la_put (Outputs (ms[k := m]) p a) L) }
       | NoOutputs _ \<Rightarrow> Some L)
     | None \<Rightarrow> la_on_active_monitor (mn_move_to_workspace E None idx activate) L)"

text \<open>A workspace by its index on a given output, which need not be there, or on the active monitor.\<close>

definition la_move_workspace_to_idx :: "(nat option \<times> nat) option \<Rightarrow> nat \<Rightarrow> layout \<Rightarrow> layout option" where
  "la_move_workspace_to_idx reference new_idx L = (case reference of
     Some (Some out, old_idx) \<Rightarrow> (case la_set L of
       Outputs ms p a \<Rightarrow> (case ms_index out ms of
         Some k \<Rightarrow> map_option (\<lambda>m. la_put (Outputs (ms[k := m]) p a) L) (mn_move_workspace_to_idx old_idx new_idx (ms ! k))
       | None \<Rightarrow> Some L)
     | NoOutputs _ \<Rightarrow> Some L)
   | Some (None, old_idx) \<Rightarrow> la_on_active_monitor (mn_move_workspace_to_idx old_idx new_idx) L
   | None \<Rightarrow> la_on_active_monitor (\<lambda>m. mn_move_workspace_to_idx (mn_active_workspace_idx m) new_idx m) L)"

section \<open>Focus\<close>

text \<open>A window that is activated takes the focus to its monitor and its workspace, unless a swipe is already there.\<close>

definition mn_show_activated :: "env \<Rightarrow> nat \<Rightarrow> monitor \<Rightarrow> monitor option" where
  "mn_show_activated E j m = (case mn_workspace_switch m of
     Some (SwitchGesture g) \<Rightarrow>
       if of_int \<lfloor>wg_current_idx g\<rfloor> = real j \<or> of_int \<lceil>wg_current_idx g\<rceil> = real j then Some m else mn_switch_workspace E j m
   | _ \<Rightarrow> mn_switch_workspace E j m)"

definition la_activate_by :: "env \<Rightarrow> (workspace \<Rightarrow> (workspace \<times> bool) option) \<Rightarrow> layout \<Rightarrow> layout option" where
  "la_activate_by E f L = (case la_set L of
     NoOutputs _ \<Rightarrow> Some L
   | Outputs ms p a \<Rightarrow> do {
       (ms, k) \<leftarrow> try_until (\<lambda>m. do {
         (wss, j) \<leftarrow> try_until f (mn_workspaces m);
         let m = m\<lparr>mn_workspaces := wss\<rparr>;
         case j of None \<Rightarrow> Some (m, False) | Some j \<Rightarrow> map_option (\<lambda>m. (m, True)) (mn_show_activated E j m) }) ms;
       Some (la_put (Outputs ms p (case k of Some k \<Rightarrow> k | None \<Rightarrow> a)) L) })"

definition la_activate_window :: "env \<Rightarrow> nat \<Rightarrow> layout \<Rightarrow> layout option" where
  "la_activate_window E i = la_unless_moving i (la_activate_by E (ws_activate_window i))"

definition la_activate_window_without_raising :: "env \<Rightarrow> nat \<Rightarrow> layout \<Rightarrow> layout option" where
  "la_activate_window_without_raising E i = la_unless_moving i (la_activate_by E (ws_activate_window_without_raising i))"

definition la_should_trigger_focus_follows_mouse_on :: "nat \<Rightarrow> layout \<Rightarrow> bool option" where
  "la_should_trigger_focus_follows_mouse_on i L =
    (if la_is_moving i L then Some True
     else case la_set L of
       NoOutputs _ \<Rightarrow> Some True
     | Outputs ms _ _ \<Rightarrow> do {
         m \<leftarrow> find (\<lambda>m. list_ex (ws_has_window i) (mn_workspaces m)) ms;
         j \<leftarrow> position (ws_has_window i) (mn_workspaces m);
         Some (case mn_workspace_switch m of Some (SwitchGesture _) \<Rightarrow> True | _ \<Rightarrow> j = mn_active_workspace_idx m) })"

section \<open>From one output to another\<close>

definition la_move_to_output :: "env \<Rightarrow> nat option \<Rightarrow> nat \<Rightarrow> nat option \<Rightarrow> activate_window \<Rightarrow> layout \<Rightarrow> layout option" where
  "la_move_to_output E window out target_ws_idx activate L =
    (if la_move_blocks window L then Some L
     else case la_set L of
       NoOutputs _ \<Rightarrow> Some L
     | Outputs ms p a \<Rightarrow> do {
         new_idx \<leftarrow> ms_index out ms;
         (mon_idx, ws_idx) \<leftarrow> (case window of
             Some i \<Rightarrow> do {
               k \<leftarrow> position (\<lambda>m. list_ex (ws_has_window i) (mn_workspaces m)) ms;
               j \<leftarrow> position (ws_has_window i) (mn_workspaces (ms ! k));
               Some (k, j) }
           | None \<Rightarrow> map_option (\<lambda>m. (a, mn_active_workspace_idx m)) (vec_get ms a));
         let target = ms ! new_idx;
         let workspace_idx = (case target_ws_idx of Some j \<Rightarrow> j | None \<Rightarrow> mn_active_workspace_idx target);
         if mon_idx = new_idx \<and> ws_idx = workspace_idx \<or> length (mn_workspaces target) \<le> workspace_idx then Some L
         else do {
           let new_id = ws_id (mn_workspaces target ! workspace_idx);
           m \<leftarrow> vec_get ms mon_idx;
           activate \<leftarrow> (if activate = ActSmart then
               (case window of
                  None \<Rightarrow> Some True
                | Some i \<Rightarrow> if mon_idx = a then map_option (\<lambda>x. map_option mw_id x = Some i) (mn_active_window m) else Some False)
             else Some (map_smart False activate));
           w \<leftarrow> vec_get (mn_workspaces m) ws_idx;
           (removed, w) \<leftarrow> (case window of
               Some i \<Rightarrow> map_option (\<lambda>(r, w). (Some r, w)) (ws_remove_tile E i w)
             | None \<Rightarrow> ws_remove_active_tile E w);
           let ms = ms[mon_idx := m\<lparr>mn_workspaces := (mn_workspaces m)[ws_idx := w]\<rparr>];
           case removed of
             None \<Rightarrow> Some (la_put (Outputs ms p a) L)
           | Some r \<Rightarrow> do {
               m \<leftarrow> mn_add_removed E new_id (if activate then ActYes else ActNo)
                      (r\<lparr>rt_tile := stop_move_animations (rt_tile r)\<rparr>) (ms ! new_idx);
               let ms = ms[new_idx := m];
               m \<leftarrow> mn_clean_up_if_idle (ms ! mon_idx);
               Some (la_put (Outputs (ms[mon_idx := m]) p (if activate then new_idx else a)) L) } } })"

text \<open>A floating window goes on its own, to the active workspace of the output.\<close>

definition la_move_column_to_output :: "env \<Rightarrow> nat \<Rightarrow> nat option \<Rightarrow> bool \<Rightarrow> layout \<Rightarrow> layout option" where
  "la_move_column_to_output E out target_ws_idx activate L = (case la_set L of
     NoOutputs _ \<Rightarrow> Some L
   | Outputs ms p a \<Rightarrow> do {
       new_idx \<leftarrow> ms_index out ms;
       m \<leftarrow> vec_get ms a;
       w \<leftarrow> mn_active_workspace m;
       if fa_get (ws_floating_is_active w) then la_move_to_output E None out None ActSmart L
       else do {
         (c, w) \<leftarrow> ws_remove_active_column E w;
         let ms = ms[a := m\<lparr>mn_workspaces := (mn_workspaces m)[mn_active_workspace_idx m := w]\<rparr>];
         let L = la_put (Outputs ms p a) L;
         case c of
           None \<Rightarrow> Some L
         | Some c \<Rightarrow> do {
             let target = ms ! new_idx;
             idx \<leftarrow> mn_last_or (case target_ws_idx of Some j \<Rightarrow> j | None \<Rightarrow> mn_active_workspace_idx target) target;
             la_add_column_by_idx E new_idx idx c activate L } } })"

definition la_move_column_left_or_to_output where
  "la_move_column_left_or_to_output E out = la_or (ws_move_left E) (la_move_column_to_output E out None True)"
definition la_move_column_right_or_to_output where
  "la_move_column_right_or_to_output E out = la_or (ws_move_right E) (la_move_column_to_output E out None True)"

text \<open>A workspace that is moved belongs to the output it is moved to from then on.\<close>

definition la_move_workspace_to_output_by_id :: "env \<Rightarrow> nat \<Rightarrow> nat option \<Rightarrow> nat \<Rightarrow> layout \<Rightarrow> (layout \<times> bool) option" where
  "la_move_workspace_to_output_by_id E old_idx old_output new_output L = (case la_set L of
     NoOutputs _ \<Rightarrow> Some (L, False)
   | Outputs ms p a \<Rightarrow> do {
       current_idx \<leftarrow> (case old_output of Some out \<Rightarrow> ms_index out ms | None \<Rightarrow> Some a);
       target_idx \<leftarrow> ms_index new_output ms;
       current \<leftarrow> vec_get ms current_idx;
       if length (mn_workspaces current) \<le> old_idx then Some (L, False)
       else if current_idx = target_idx then do {
         m \<leftarrow> mn_at old_idx (\<lambda>w. Some (w\<lparr>ws_original_output := output_id_new (mn_output current)\<rparr>)) current;
         Some (la_put (Outputs (ms[current_idx := m]) p a) L, False) }
       else do {
         let activate = (current_idx = a \<and> old_idx = mn_active_workspace_idx current);
         (w, m) \<leftarrow> mn_remove_workspace_by_idx E old_idx current;
         let target = ms ! target_idx;
         let w = w\<lparr>ws_original_output := output_id_new (mn_output target)\<rparr>;
         target \<leftarrow> mn_insert_workspace E w (mn_active_workspace_idx target + 1) activate target;
         Some (la_put (Outputs (ms[current_idx := m, target_idx := target]) p (if activate then target_idx else a)) L,
               activate) } })"

definition la_move_workspace_to_output :: "env \<Rightarrow> nat \<Rightarrow> layout \<Rightarrow> (layout \<times> bool) option" where
  "la_move_workspace_to_output E out L = do {
     m \<leftarrow> la_active_monitor L;
     case m of
       None \<Rightarrow> Some (L, False)
     | Some m \<Rightarrow> la_move_workspace_to_output_by_id E (mn_active_workspace_idx m) None out L }"

section \<open>Names\<close>

definition la_unname_workspace_by_id :: "nat \<Rightarrow> layout \<Rightarrow> layout option" where
  "la_unname_workspace_by_id i L = (case la_set L of
     Outputs ms p a \<Rightarrow> map_option (\<lambda>(ms, _). la_put (Outputs ms p a) L) (try_until (mn_unname_workspace i) ms)
   | NoOutputs wss \<Rightarrow> Some (case position (\<lambda>w. ws_id w = i) wss of
       None \<Rightarrow> L
     | Some k \<Rightarrow> la_put (NoOutputs (if ws_has_windows (ws_unname (wss ! k)) then wss[k := ws_unname (wss ! k)]
                                  else take k wss @ drop (Suc k) wss)) L))"

definition la_unname_workspace_by_ref :: "workspace_reference \<Rightarrow> layout \<Rightarrow> layout option" where
  "la_unname_workspace_by_ref r L = do {
     w \<leftarrow> la_find_workspace_by_ref r L;
     case w of Some w \<Rightarrow> la_unname_workspace_by_id (ws_id w) L | None \<Rightarrow> Some L }"

definition la_unname_workspace :: "string \<Rightarrow> layout \<Rightarrow> layout option" where
  "la_unname_workspace n = la_unname_workspace_by_ref (RefName n)"

text \<open>The workspace a command on a reference or on the active workspace is about.\<close>

definition la_ref_or_active :: "workspace_reference option \<Rightarrow> layout \<Rightarrow> workspace option option" where
  "la_ref_or_active reference L = (case reference of
     Some r \<Rightarrow> la_find_workspace_by_ref r L | None \<Rightarrow> la_active_workspace L)"

definition la_unset_workspace_name :: "workspace_reference option \<Rightarrow> layout \<Rightarrow> layout option" where
  "la_unset_workspace_name reference L = do {
     w \<leftarrow> la_ref_or_active reference L;
     case w of Some w \<Rightarrow> la_unname_workspace_by_id (ws_id w) L | None \<Rightarrow> Some L }"

text \<open>A name that is in use is refused. The workspace is known by its identifier.\<close>

definition la_set_workspace_name :: "string \<Rightarrow> workspace_reference option \<Rightarrow> layout \<Rightarrow> layout option" where
  "la_set_workspace_name n reference L =
    (if la_find_workspace_by_name n L \<noteq> None then Some L
     else do {
       w \<leftarrow> la_ref_or_active reference L;
       case w of
         None \<Rightarrow> Some L
       | Some w \<Rightarrow> do {
           L \<leftarrow> la_on_first (\<lambda>v. ws_id v = ws_id w) (\<lambda>v. Some (v\<lparr>ws_name := Some n\<rparr>)) L;
           la_on_active_monitor (\<lambda>m.
             let first_is = (\<lambda>wss. wss \<noteq> [] \<and> ws_id (hd wss) = ws_id w);
                 m = (if mp_above_first (mn_options m) \<and> first_is (mn_workspaces m) then mn_add_workspace_top m else m)
             in Some (if first_is (rev (mn_workspaces m)) then mn_add_workspace_bottom m else m)) L } })"

definition la_ensure_named_workspace :: "env \<Rightarrow> workspace_config \<Rightarrow> layout \<Rightarrow> layout option" where
  "la_ensure_named_workspace E config L =
    (if la_find_workspace_by_name (wc_name config) L \<noteq> None then Some L
     else
       let next = L\<lparr>la_next_id := la_next_id L + 1\<rparr>; base = mp_shared (la_options L)
       in case la_set L of
            Outputs ms p a \<Rightarrow> do {
              let k = (case wc_open_on_output config of
                     Some n \<Rightarrow> (case position (\<lambda>m. output_matches (ou_name (mn_output m)) n) ms of Some k \<Rightarrow> k | None \<Rightarrow> p)
                   | None \<Rightarrow> a);
              m \<leftarrow> vec_get ms k;
              m \<leftarrow> mn_insert_workspace E (ws_new_with_config E (la_next_id L) (mn_output m) (Some config) base) 0 False m;
              Some (la_put (Outputs (ms[k := m]) p a) next) }
          | NoOutputs wss \<Rightarrow>
              Some (la_put (NoOutputs (ws_new_with_config_no_outputs E (la_next_id L) (Some config) base # wss)) next))"

section \<open>Configuration\<close>

definition ws_apply_config :: "env \<Rightarrow> workspace_config list \<Rightarrow> workspace \<Rightarrow> workspace" where
  "ws_apply_config E configs w = (case ws_name w of
     None \<Rightarrow> w
   | Some n \<Rightarrow> (case find (\<lambda>c. wc_name c = n) configs of
       Some c \<Rightarrow> ws_update_layout_config E (wc_layout c) w | None \<Rightarrow> w))"

definition la_update_options :: "env \<Rightarrow> monitor_options \<Rightarrow> anim_config \<Rightarrow> layout \<Rightarrow> layout" where
  "la_update_options E opts cfg L =
    (let L = (case la_moving L of
                Some v \<Rightarrow> L\<lparr>la_move := Some (Moving (mv_update_config (mp_shared opts) v))\<rparr> | None \<Rightarrow> L);
         L = la_put (case la_set L of
                Outputs ms p a \<Rightarrow> Outputs (map (mn_update_config E opts) ms) p a
              | NoOutputs wss \<Rightarrow> NoOutputs (map (ws_update_config E (mp_shared opts)) wss)) L
     in L\<lparr>la_options := opts, la_overview_config := cfg\<rparr>)"

definition la_update_config :: "env \<Rightarrow> workspace_config list \<Rightarrow> monitor_options \<Rightarrow> anim_config \<Rightarrow> layout \<Rightarrow> layout" where
  "la_update_config E configs opts cfg L = la_update_options E opts cfg (la_map_workspaces (ws_apply_config E configs) L)"

end
