(* ===== verification/LayoutRoutine.thy ===== *)
theory LayoutRoutine
  imports LayoutCommands
begin

text \<open>
  The overview, the gestures that switch workspaces and open the overview, and what the layout does on every frame and
  on every refresh (\<^verbatim>\<open>layout/mod.rs\<close>). \<open>now\<close> is the unadjusted time of the clock, \<open>P\<close> the hit tests.
\<close>

section \<open>The overview\<close>

definition overview_gesture_movement :: f64 where "overview_gesture_movement = 300"
definition overview_gesture_rubber_band :: rubber_band where
  "overview_gesture_rubber_band = \<lparr>rb_stiffness = 0.5, rb_limit = 0.05\<rparr>"

definition la_set_monitors_overview_state :: "env \<Rightarrow> layout \<Rightarrow> layout option" where
  "la_set_monitors_overview_state E L = la_all_monitors (\<lambda>m.
     mn_set_overview_progress E (la_overview_progress L) (m\<lparr>mn_overview_open := la_overview_open L\<rparr>)) L"

definition la_overview_from :: "env \<Rightarrow> layout \<Rightarrow> f64" where
  "la_overview_from E L = (case la_overview_progress L of Some p \<Rightarrow> la_overview_value E p | None \<Rightarrow> 0)"

definition la_toggle_overview :: "env \<Rightarrow> layout \<Rightarrow> layout option" where
  "la_toggle_overview E L = do {
     let open_now = (\<not> la_overview_open L);
     a \<leftarrow> anim_new E (la_overview_from E L) (if open_now then 1 else 0) 0 (la_overview_config L);
     la_set_monitors_overview_state E
       (L\<lparr>la_overview_open := open_now, la_overview_progress := Some (LayoutOverviewAnimation a)\<rparr>) }"

definition la_open_overview :: "env \<Rightarrow> layout \<Rightarrow> (layout \<times> bool) option" where
  "la_open_overview E L = (if la_overview_open L then Some (L, False) else map_option (\<lambda>L. (L, True)) (la_toggle_overview E L))"

definition la_close_overview :: "env \<Rightarrow> layout \<Rightarrow> (layout \<times> bool) option" where
  "la_close_overview E L = (if \<not> la_overview_open L then Some (L, False) else map_option (\<lambda>L. (L, True)) (la_toggle_overview E L))"

definition la_toggle_overview_to_workspace :: "env \<Rightarrow> nat \<Rightarrow> layout \<Rightarrow> layout option" where
  "la_toggle_overview_to_workspace E ws_idx L = do {
     L \<leftarrow> la_on_active_monitor (mn_activate_workspace_with_anim_config E ws_idx (Some (la_overview_config L))) L;
     la_toggle_overview E L }"

definition la_overview_gesture_begin :: "env \<Rightarrow> layout \<Rightarrow> layout option" where
  "la_overview_gesture_begin E L =
    (let value = la_overview_from E L
     in la_set_monitors_overview_state E (L\<lparr>la_overview_open := True, la_overview_progress :=
          Some (LayoutOverviewGesture \<lparr>og_tracker = swipe_new, og_start = value, og_value = value\<rparr>)\<rparr>))"

definition la_overview_gesture_update :: "env \<Rightarrow> f64 \<Rightarrow> duration \<Rightarrow> layout \<Rightarrow> (layout \<times> bool option) option" where
  "la_overview_gesture_update E delta_y timestamp L = (case la_overview_progress L of
     Some (LayoutOverviewGesture g) \<Rightarrow>
       (let g = g\<lparr>og_tracker := swipe_push delta_y timestamp (og_tracker g)\<rparr>;
            pos = sw_pos (og_tracker g) / overview_gesture_movement;
            new_value = rb_clamp overview_gesture_rubber_band 0 1 (og_start g + pos)
        in if og_value g = new_value then Some (L\<lparr>la_overview_progress := Some (LayoutOverviewGesture g)\<rparr>, Some False)
           else map_option (\<lambda>L. (L, Some True)) (la_set_monitors_overview_state E
             (L\<lparr>la_overview_progress := Some (LayoutOverviewGesture (g\<lparr>og_value := new_value\<rparr>))\<rparr>)))
   | _ \<Rightarrow> Some (L, None))"

definition la_overview_gesture_end :: "env \<Rightarrow> duration \<Rightarrow> layout \<Rightarrow> (layout \<times> bool) option" where
  "la_overview_gesture_end E now L = (case la_overview_progress L of
     Some (LayoutOverviewGesture g) \<Rightarrow> do {
       let tracker = swipe_push 0 now (og_tracker g);
       let velocity = swipe_velocity tracker / overview_gesture_movement;
       let current_pos = sw_pos tracker / overview_gesture_movement;
       let pos = swipe_projected_end_pos tracker / overview_gesture_movement;
       let new_value = f_round (f_clamp (og_start g + pos) 0 1);
       let velocity = velocity * rb_clamp_derivative overview_gesture_rubber_band 0 1 (og_start g + current_pos);
       a \<leftarrow> anim_new E (og_value g) new_value velocity (la_overview_config L);
       L \<leftarrow> la_set_monitors_overview_state E
              (L\<lparr>la_overview_open := (new_value = 1), la_overview_progress := Some (LayoutOverviewAnimation a)\<rparr>);
       Some (L, True) }
   | _ \<Rightarrow> Some (L, False))"

section \<open>The workspace switch\<close>

text \<open>A gesture on one output cancels those on the others.\<close>

definition la_workspace_switch_gesture_begin :: "env \<Rightarrow> duration \<Rightarrow> nat \<Rightarrow> bool \<Rightarrow> layout \<Rightarrow> layout option" where
  "la_workspace_switch_gesture_begin E now out is_touchpad L = (case la_set L of
     NoOutputs _ \<Rightarrow> None
   | Outputs _ _ _ \<Rightarrow> la_all_monitors (\<lambda>m.
       if ou_id (mn_output m) \<noteq> out then map_option fst (mn_workspace_switch_gesture_end E now None m)
       else Some (mn_workspace_switch_gesture_begin E is_touchpad m)) L)"

text \<open>The first monitor that has the gesture answers.\<close>

fun try_find :: "('a \<Rightarrow> ('a \<times> 'r option) option) \<Rightarrow> 'a list \<Rightarrow> ('a list \<times> (nat \<times> 'r) option) option" where
  "try_find f [] = Some ([], None)"
| "try_find f (x # xs) = do {
     (x, r) \<leftarrow> f x;
     case r of
       Some r \<Rightarrow> Some (x # xs, Some (0, r))
     | None \<Rightarrow> do { (xs, k) \<leftarrow> try_find f xs; Some (x # xs, map_option (\<lambda>(k, r). (Suc k, r)) k) } }"

definition la_workspace_switch_gesture_update :: "env \<Rightarrow> f64 \<Rightarrow> duration \<Rightarrow> bool \<Rightarrow> layout \<Rightarrow>
    (layout \<times> nat option option) option" where
  "la_workspace_switch_gesture_update E delta_y timestamp is_touchpad L = (case la_set L of
     NoOutputs _ \<Rightarrow> Some (L, None)
   | Outputs ms p a \<Rightarrow> do {
       (ms, r) \<leftarrow> try_find (mn_workspace_switch_gesture_update E delta_y timestamp is_touchpad) ms;
       Some (la_put (Outputs ms p a) L,
         map_option (\<lambda>(k, refresh). if refresh then Some (ou_id (mn_output (ms ! k))) else None) r) })"

definition la_workspace_switch_gesture_end :: "env \<Rightarrow> duration \<Rightarrow> bool option \<Rightarrow> layout \<Rightarrow> (layout \<times> nat option) option" where
  "la_workspace_switch_gesture_end E now is_touchpad L = (case la_set L of
     NoOutputs _ \<Rightarrow> Some (L, None)
   | Outputs ms p a \<Rightarrow> do {
       (ms, k) \<leftarrow> try_until (mn_workspace_switch_gesture_end E now is_touchpad) ms;
       Some (la_put (Outputs ms p a) L, map_option (\<lambda>k. ou_id (mn_output (ms ! k))) k) })"

section \<open>Every frame\<close>

text \<open>Something held over a window or a workspace for 750 ms activates it.\<close>

definition dnd_hold_delay :: duration where "dnd_hold_delay = dur_of_millis 750"

definition dnd_target_under :: "pointer_env \<Rightarrow> env \<Rightarrow> point \<Rightarrow> monitor \<Rightarrow> dnd_target option" where
  "dnd_target_under P E pos m = (case mn_window_under P E pos m of
     Some (i, _) \<Rightarrow> Some (DndWindow i)
   | None \<Rightarrow> map_option (DndWorkspace \<circ> ws_id) (mn_workspace_under_narrow P E pos m))"

definition dnd_hold_since :: "duration \<Rightarrow> dnd_target \<Rightarrow> dnd_hold option \<Rightarrow> duration" where
  "dnd_hold_since now target hold = (case hold of
     Some h \<Rightarrow> if dh_target h \<noteq> target then now else dh_start_time h | None \<Rightarrow> now)"

definition mn_dnd_activate :: "env \<Rightarrow> duration \<Rightarrow> anim_config option \<Rightarrow> dnd_target \<Rightarrow> monitor \<Rightarrow> monitor option" where
  "mn_dnd_activate E now config target m = do {
     (m, j) \<leftarrow> (case target of
         DndWindow i \<Rightarrow> do {
           (wss, j) \<leftarrow> try_until (ws_activate_window i) (mn_workspaces m);
           j \<leftarrow> j;
           Some (m\<lparr>mn_workspaces := wss\<rparr>, j) }
       | DndWorkspace i \<Rightarrow> map_option (\<lambda>j. (m, j)) (position (\<lambda>w. ws_id w = i) (mn_workspaces m)));
     m \<leftarrow> mn_dnd_scroll_gesture_end E now m;
     mn_activate_workspace_with_anim_config E j config m }"

definition la_dnd_hold :: "pointer_env \<Rightarrow> env \<Rightarrow> duration \<Rightarrow> nat \<Rightarrow> point \<Rightarrow> monitor \<Rightarrow> dnd_data \<Rightarrow> layout \<Rightarrow> layout option" where
  "la_dnd_hold P E now out pos m d L = (case dnd_target_under P E pos m of
     None \<Rightarrow> Some (L\<lparr>la_dnd := Some (d\<lparr>dd_hold := None\<rparr>)\<rparr>)
   | Some target \<Rightarrow>
       let start_time = dnd_hold_since now target (dd_hold d)
       in if now - start_time < dnd_hold_delay
          then Some (L\<lparr>la_dnd := Some (d\<lparr>dd_hold := Some \<lparr>dh_start_time = start_time, dh_target = target\<rparr>\<rparr>)\<rparr>)
          else do {
            let L = L\<lparr>la_dnd := Some (d\<lparr>dd_hold := None\<rparr>)\<rparr>;
            L \<leftarrow> la_all_monitors (\<lambda>m. if ou_id (mn_output m) = out
                   then mn_dnd_activate E now (if la_overview_open L then Some (la_overview_config L) else None) target m
                   else Some m) L;
            let L = la_focus_output out L;
            if la_overview_open L then map_option fst (la_close_overview E L) else Some L })"

text \<open>What is dragged near an edge scrolls the workspaces; a drag that does not scroll is held.\<close>

definition la_dnd_scroll :: "pointer_env \<Rightarrow> env \<Rightarrow> duration \<Rightarrow> layout \<Rightarrow> layout option" where
  "la_dnd_scroll P E now L =
    (case (case la_dnd L of
             Some d \<Rightarrow> Some (ou_id (dd_output d), dd_pointer_pos d)
           | None \<Rightarrow> map_option (\<lambda>v. (ou_id (mv_output v), mv_pointer_pos v)) (la_moving L)) of
       None \<Rightarrow> Some L
     | Some (out, pos) \<Rightarrow> (case la_set L of
         NoOutputs _ \<Rightarrow> Some L
       | Outputs ms p a \<Rightarrow> (case ms_index out ms of
           None \<Rightarrow> Some L
         | Some k \<Rightarrow> do {
             (m, scrolled) \<leftarrow> mn_dnd_scroll_gesture_scroll E now pos (1 / mn_overview_zoom E (ms ! k)) (ms ! k);
             let L = la_put (Outputs (ms[k := m]) p a) L;
             case la_dnd L of
               None \<Rightarrow> Some L
             | Some d \<Rightarrow> if scrolled then Some (L\<lparr>la_dnd := Some (d\<lparr>dd_hold := None\<rparr>)\<rparr>)
                        else la_dnd_hold P E now out pos m d L })))"

text \<open>The overview has opened or closed.\<close>

definition la_overview_settled :: "env \<Rightarrow> layout \<Rightarrow> layout" where
  "la_overview_settled E L = (case la_overview_progress L of
     Some (LayoutOverviewAnimation a) \<Rightarrow>
       if anim_is_done E a then L\<lparr>la_overview_progress := (if la_overview_open L then Some LayoutOverviewOpen else None)\<rparr> else L
   | _ \<Rightarrow> L)"

definition la_advance_animations :: "pointer_env \<Rightarrow> env \<Rightarrow> duration \<Rightarrow> layout \<Rightarrow> layout option" where
  "la_advance_animations P E now L = do {
     let L = (case la_moving L of
                Some v \<Rightarrow> L\<lparr>la_move := Some (Moving (v\<lparr>mv_tile := tile_advance_animations E (mv_tile v)\<rparr>))\<rparr> | None \<Rightarrow> L);
     L \<leftarrow> la_dnd_scroll P E now L;
     let L = la_overview_settled E L;
     case la_set L of
       Outputs _ _ _ \<Rightarrow> la_all_monitors (\<lambda>m. do {
         m \<leftarrow> mn_set_overview_progress E (la_overview_progress L) m;
         mn_advance_animations E now m }) L
     | NoOutputs wss \<Rightarrow> Some (la_put (NoOutputs (map (ws_advance_animations E) wss)) L) }"

definition la_are_animations_ongoing :: "env \<Rightarrow> nat option \<Rightarrow> layout \<Rightarrow> bool" where
  "la_are_animations_ongoing E out L \<longleftrightarrow>
     (let on = (\<lambda>o1. out = None \<or> out = Some (ou_id o1))
      in (case la_dnd L of Some d \<Rightarrow> on (dd_output d) | None \<Rightarrow> False) \<or>
         (case la_moving L of
            Some v \<Rightarrow> on (mv_output v) \<and>
              (tile_are_animations_ongoing E (mv_tile v) \<or> \<not> mv_is_floating v \<or> la_overview_open L)
          | None \<Rightarrow> False) \<or>
         (case la_overview_progress L of Some (LayoutOverviewAnimation _) \<Rightarrow> True | _ \<Rightarrow> False) \<or>
         list_ex (\<lambda>m. on (mn_output m) \<and> mn_are_animations_ongoing E m) (la_monitors L))"

section \<open>Every refresh\<close>

text \<open>Whether something is dragged, and whether it goes to the tiling layout.\<close>

definition la_ongoing_dnd :: "layout \<Rightarrow> bool option option" where
  "la_ongoing_dnd L =
    (if la_dnd L \<noteq> None then Some (Some True)
     else case la_move L of
       None \<Rightarrow> Some None
     | Some (Moving v) \<Rightarrow> Some (Some (\<not> mv_is_floating v))
     | Some (Starting i _ _) \<Rightarrow> map_option (\<lambda>w. Some (\<not> ws_is_floating i w)) (find (ws_has_window i) (la_workspaces L)))"

definition mv_refresh :: "env \<Rightarrow> move_data \<Rightarrow> move_data" where
  "mv_refresh E v =
    (let win = win_set_active_in_column True (tl_window (mv_tile v));
         win = win_set_floating (mv_is_floating v) win;
         win = win_set_activated True win;
         win = win_set_interactive_resize None win;
         win = win_set_bounds (size_to_i32_round E (ou_size (mv_output v))) win
     in v\<lparr>mv_tile := (mv_tile v)\<lparr>tl_window := win_send_pending_configure E win\<rparr>\<rparr>)"

definition mn_refresh :: "env \<Rightarrow> duration \<Rightarrow> bool \<Rightarrow> bool \<Rightarrow> bool \<Rightarrow> monitor \<Rightarrow> monitor option" where
  "mn_refresh E now is_active ongoing_dnd overview_open m = do {
     m \<leftarrow> (if ongoing_dnd \<and> overview_open then Some (mn_dnd_scroll_gesture_begin E now m)
          else if \<not> overview_open then mn_dnd_scroll_gesture_end E now m else Some m);
     Some (m\<lparr>mn_workspaces := map (\<lambda>(j, w). ws_refresh E is_active (is_active \<and> j = mn_active_workspace_idx m) w)
                              (enumerate 0 (mn_workspaces m))\<rparr>) }"

definition la_refresh :: "env \<Rightarrow> duration \<Rightarrow> bool \<Rightarrow> layout \<Rightarrow> layout option" where
  "la_refresh E now is_active L = do {
     let L = L\<lparr>la_is_active := is_active\<rparr>;
     ongoing_dnd \<leftarrow> la_ongoing_dnd L;
     let L = (case la_moving L of Some v \<Rightarrow> L\<lparr>la_move := Some (Moving (mv_refresh E v))\<rparr> | None \<Rightarrow> L);
     case la_set L of
       Outputs ms p a \<Rightarrow> do {
         ms \<leftarrow> try_map (\<lambda>(k, m). mn_refresh E now (is_active \<and> k = a \<and> la_moving L = None) (ongoing_dnd \<noteq> None)
                             (la_overview_open L) m) (enumerate 0 ms);
         Some (la_put (Outputs ms p a) L) }
     | NoOutputs wss \<Rightarrow> Some (la_put (NoOutputs (map (ws_refresh E False False) wss)) L) }"

end
