(* ===== verification/MonitorFrame.thy ===== *)
theory MonitorFrame
  imports MonitorTotal
begin

text \<open>
  What the commands of a monitor leave as it is: its output, what it got from the layout, and which workspaces it has.
\<close>

definition mn_frame :: "monitor \<Rightarrow> wl_output \<times> monitor_options \<times> layout_part option \<times> bool \<times> overview_progress option" where
  "mn_frame m = (mn_output m, mn_base_options m, mn_layout_config m, mn_overview_open m, mn_overview_progress m)"

definition mn_wids :: "monitor \<Rightarrow> nat multiset" where
  "mn_wids m = mset (map ws_id (mn_workspaces m))"

definition mn_framed :: "monitor \<Rightarrow> monitor \<Rightarrow> bool" where
  "mn_framed m m' \<longleftrightarrow> mn_frame m' = mn_frame m \<and> mn_wids m' = mn_wids m"

named_theorems framed "operations that keep the frame of a monitor"

lemma framed_refl [simp, framed]: "mn_framed m m"
  by (simp add: mn_framed_def)

lemma framed_trans: "mn_framed m m1 \<Longrightarrow> mn_framed m1 m2 \<Longrightarrow> mn_framed m m2"
  by (simp add: mn_framed_def)

lemma framed_upd [simp]:
  "mn_framed m (m'\<lparr>mn_active_workspace_idx := k\<rparr>) = mn_framed m m'"
  "mn_framed m (m'\<lparr>mn_previous_workspace_id := q\<rparr>) = mn_framed m m'"
  "mn_framed m (m'\<lparr>mn_workspace_switch := s\<rparr>) = mn_framed m m'"
  "mn_framed (m\<lparr>mn_workspace_switch := s\<rparr>) m' = mn_framed m m'"
  "mn_framed (m\<lparr>mn_active_workspace_idx := k\<rparr>) m' = mn_framed m m'"
  by (simp_all add: mn_framed_def mn_frame_def mn_wids_def)

lemma framed_workspaces:
  "mset (map ws_id wss) = mset (map ws_id (mn_workspaces m)) \<Longrightarrow> mn_framed m (m\<lparr>mn_workspaces := wss\<rparr>)"
  by (simp add: mn_framed_def mn_frame_def mn_wids_def)

lemma framed_update: "k < length (mn_workspaces m) \<Longrightarrow> ws_id w = ws_id (mn_workspaces m ! k) \<Longrightarrow>
    mn_framed m (m\<lparr>mn_workspaces := (mn_workspaces m)[k := w]\<rparr>)"
proof -
  assume k: "k < length (mn_workspaces m)" "ws_id w = ws_id (mn_workspaces m ! k)"
  then have "map ws_id ((mn_workspaces m)[k := w]) = map ws_id (mn_workspaces m)"
    by (simp add: map_update list_update_same_conv)
  then show ?thesis by (intro framed_workspaces) metis
qed

lemma framed_put: "w = mn_workspaces m ! k \<Longrightarrow> ws_id w' = ws_id w \<Longrightarrow>
    mn_framed m (m\<lparr>mn_workspaces := (mn_workspaces m)[k := w']\<rparr>)"
  by (cases "k < length (mn_workspaces m)") (auto intro: framed_update simp: list_update_beyond)

lemma framed_at: "mn_at k f m = Some m' \<Longrightarrow> (\<And>w w'. f w = Some w' \<Longrightarrow> ws_id w' = ws_id w) \<Longrightarrow> mn_framed m m'"
  by (auto simp: at_Some intro: framed_update)

lemma rest_id: "ws_rest w' = ws_rest w \<Longrightarrow> ws_id w' = ws_id w"
  by (simp add: ws_rest_def)

section \<open>Switching\<close>

lemma framed_activate: "mn_activate_workspace_with_anim_config E k c m = Some m' \<Longrightarrow> mn_framed m m'"
proof -
  assume "mn_activate_workspace_with_anim_config E k c m = Some m'"
  from activate_cases[OF this] obtain q s
    where "m' = m\<lparr>mn_previous_workspace_id := q, mn_active_workspace_idx := k, mn_workspace_switch := s\<rparr>"
    unfolding mn_focused_def by blast
  then show ?thesis by simp
qed

lemma framed_activates [framed]: "mn_activate_workspace E k m = Some m' \<Longrightarrow> mn_framed m m'"
  unfolding mn_activate_workspace_def by (rule framed_activate)

lemma framed_switches [framed]:
  "mn_switch_workspace E k m = Some m' \<Longrightarrow> mn_framed m m'"
  "mn_switch_workspace_up E m = Some m' \<Longrightarrow> mn_framed m m'"
  "mn_switch_workspace_down E m = Some m' \<Longrightarrow> mn_framed m m'"
  "mn_switch_workspace_previous E m = Some m' \<Longrightarrow> mn_framed m m'"
  "mn_switch_workspace_auto_back_and_forth E k m = Some m' \<Longrightarrow> mn_framed m m'"
proof -
  show a: "mn_switch_workspace E k m = Some m' \<Longrightarrow> mn_framed m m'" for k m m'
    by (auto simp: mn_switch_workspace_def bind_eq_Some_conv intro: framed_activates)
  show b: "mn_switch_workspace_previous E m = Some m' \<Longrightarrow> mn_framed m m'" for m m'
    by (auto simp: mn_switch_workspace_previous_def intro: a split: option.splits)
  show "mn_switch_workspace_auto_back_and_forth E k m = Some m' \<Longrightarrow> mn_framed m m'"
    by (auto simp: mn_switch_workspace_auto_back_and_forth_def bind_eq_Some_conv intro: a b split: if_splits)
  show "mn_switch_workspace_up E m = Some m' \<Longrightarrow> mn_framed m m'"
    "mn_switch_workspace_down E m = Some m' \<Longrightarrow> mn_framed m m'"
    by (auto simp: mn_switch_workspace_up_def mn_switch_workspace_down_def bind_eq_Some_conv Let_def
        intro: framed_activates)
qed

lemma framed_gestures [framed]:
  "mn_framed m (mn_workspace_switch_gesture_begin E tp m)"
  "mn_framed m (mn_dnd_scroll_gesture_begin E now m)"
  "mn_workspace_switch_gesture_update E dy t tp m = Some (m', b) \<Longrightarrow> mn_framed m m'"
  "mn_dnd_scroll_gesture_scroll E now pos speed m = Some (m', c) \<Longrightarrow> mn_framed m m'"
  by (auto simp: mn_workspace_switch_gesture_begin_def mn_dnd_scroll_gesture_begin_def
      mn_workspace_switch_gesture_update_def mn_dnd_scroll_gesture_scroll_def Let_def bind_eq_Some_conv
      split: option.splits workspace_switch.splits if_splits)

lemma framed_ends [framed]:
  "mn_workspace_switch_gesture_end E now tp m = Some (m', b) \<Longrightarrow> mn_framed m m'"
  "mn_dnd_scroll_gesture_end E now m = Some m' \<Longrightarrow> mn_framed m m'"
proof -
  show e: "mn_workspace_switch_gesture_end E now tp m = Some (m', b) \<Longrightarrow> mn_framed m m'" for tp b
  proof (cases "m' = m")
    case False
    assume ex: "mn_workspace_switch_gesture_end E now tp m = Some (m', b)"
    define prev where "prev k = (if mn_active_workspace_idx m \<noteq> k
       then map_option (\<lambda>w. m\<lparr>mn_previous_workspace_id := Some (ws_id w)\<rparr>) (mn_active_workspace m) else Some m)" for k
    obtain k m1 a where "prev k = Some m1"
        "m' = m1\<lparr>mn_active_workspace_idx := k, mn_workspace_switch := Some (SwitchAnimation a)\<rparr>"
      using ex False unfolding mn_workspace_switch_gesture_end_def Let_def prev_def[symmetric]
      by (auto simp: bind_eq_Some_conv split: option.splits workspace_switch.splits if_splits)
    then show ?thesis by (auto simp: prev_def split: if_splits)
  qed simp
  show "mn_dnd_scroll_gesture_end E now m = Some m' \<Longrightarrow> mn_framed m m'"
    by (auto simp: mn_dnd_scroll_gesture_end_def intro: e split: if_splits)
qed

section \<open>Adding and moving\<close>

lemma framed_room: "mn_framed m (fst (mn_make_room k m))"
  by (simp add: mn_make_room_def Let_def mn_add_workspace_top_def mn_add_workspace_bottom_def)

lemma own_id: "ws_id (mn_own m w) = ws_id w"
  by (simp add: mn_own_def)

lemma framed_adds [framed]:
  "mn_add_column E k c a m = Some m' \<Longrightarrow> mn_framed m m'"
  "mn_add_tile E t target act allow width full fl m = Some m' \<Longrightarrow> mn_framed m m'"
  "mn_add_tile_to_column E k t a allow m = Some m' \<Longrightarrow> mn_framed m m'"
proof -
  have act: "mn_framed m m'" if "mn_framed m m1" "(case mn_make_room k m1 of (m, k) \<Rightarrow> if b then mn_activate_workspace E k m else Some m) = Some m'"
    for m m1 k b m'
    using that framed_room[of m1 k] by (cases "mn_make_room k m1") (auto split: if_splits dest: framed_activates framed_trans)
  show "mn_add_column E k c a m = Some m' \<Longrightarrow> mn_framed m m'"
  proof -
    assume "mn_add_column E k c a m = Some m'"
    then obtain m1 where m1: "mn_at k (\<lambda>w. Some (mn_own m (ws_add_column E c a w))) m = Some m1"
        "(case mn_make_room k m1 of (m, k) \<Rightarrow> if a then mn_activate_workspace E k m else Some m) = Some m'"
      by (auto simp: mn_add_column_def bind_eq_Some_conv)
    from framed_at[OF m1(1)] have "mn_framed m m1" by (auto simp: own_id rest_id[OF rest_adds(2)])
    from act[OF this m1(2)] show ?thesis .
  qed
  show "mn_add_tile E t target act allow width full fl m = Some m' \<Longrightarrow> mn_framed m m'"
  proof -
    assume "mn_add_tile E t target act allow width full fl m = Some m'"
    then obtain k tgt m1 where
        m1: "mn_at k (\<lambda>w. map_option (mn_own m) (ws_add_tile E t tgt act width full fl w)) m = Some m1"
        "(case mn_make_room k m1 of (m, k) \<Rightarrow> if allow \<and> map_smart False act then mn_activate_workspace E k m else Some m) = Some m'"
      by (auto simp: mn_add_tile_def bind_eq_Some_conv)
    have "mn_framed m m1" by (rule framed_at[OF m1(1)]) (auto simp: own_id dest!: rest_adds(5) rest_id)
    from act[OF this m1(2)] show ?thesis .
  qed
  show "mn_add_tile_to_column E k t a allow m = Some m' \<Longrightarrow> mn_framed m m'"
  proof -
    assume "mn_add_tile_to_column E k t a allow m = Some m'"
    then obtain m1 where m1: "mn_at k (\<lambda>w. Some (mn_own m (ws_add_tile_to_column E t a w))) m = Some m1"
        "(if allow \<and> a then mn_activate_workspace E k m1 else Some m1) = Some m'"
      by (auto simp: mn_add_tile_to_column_def bind_eq_Some_conv)
    from framed_at[OF m1(1)] have "mn_framed m m1" by (auto simp: own_id rest_id[OF rest_adds(3)])
    then show ?thesis using m1(2) by (auto split: if_splits dest: framed_activates framed_trans)
  qed
qed

section \<open>Moving between workspaces\<close>

lemma framed_then:
  assumes "mn_framed (m\<lparr>mn_workspaces := (mn_workspaces m)[k := w]\<rparr>) m'" "ws_rest w = ws_rest (mn_workspaces m ! k)"
  shows "mn_framed m m'"
proof (cases "k < length (mn_workspaces m)")
  case True
  from framed_trans[OF framed_update[OF True rest_id[OF assms(2)]] assms(1)] show ?thesis .
next
  case False
  with assms(1) show ?thesis by (simp add: list_update_beyond)
qed

lemma framed_removed: "mn_add_removed E i a r m = Some m' \<Longrightarrow> mn_framed m m'"
  unfolding mn_add_removed_def by (rule framed_adds(2))

lemma framed_active_to: "mn_move_active_to E k a m = Some m' \<Longrightarrow> mn_framed m m'"
proof -
  assume "mn_move_active_to E k a m = Some m'"
  then obtain q w where w: "ws_remove_active_tile E (mn_workspaces m ! mn_active_workspace_idx m) = Some (q, w)"
      "mn_framed (m\<lparr>mn_workspaces := (mn_workspaces m)[mn_active_workspace_idx m := w]\<rparr>) m'"
    by (auto simp: mn_move_active_to_def mn_active_workspace_def bind_eq_Some_conv vec_simps Let_def
        split: option.splits dest: framed_removed)
  from framed_then[OF w(2) rest_removes(2)[OF w(1)]] show ?thesis .
qed

lemma framed_to_workspace: "mn_move_to_workspace E window idx act m = Some m' \<Longrightarrow> mn_framed m m'"
proof (cases "m' = m")
  case False
  assume ex: "mn_move_to_workspace E window idx act m = Some m'"
  then obtain s a q w i where w: "(case window of Some i \<Rightarrow> map_option (\<lambda>(r, w). (Some r, w)) (ws_remove_tile E i (mn_workspaces m ! s))
        | None \<Rightarrow> ws_remove_active_tile E (mn_workspaces m ! s)) = Some (q, w)"
      "(case q of None \<Rightarrow> Some (m\<lparr>mn_workspaces := (mn_workspaces m)[s := w]\<rparr>) | Some r \<Rightarrow>
         mn_add_removed E i a r (m\<lparr>mn_workspaces := (mn_workspaces m)[s := w]\<rparr>) \<bind> mn_clean_up_if_idle) = Some m'"
    using False unfolding mn_move_to_workspace_def Let_def
    by (clarsimp simp: bind_eq_Some_conv vec_simps split del: option.split if_split split: if_split_asm) blast+
  have r: "ws_rest w = ws_rest (mn_workspaces m ! s)" using w(1) by (auto split: option.splits dest: rest_removes(1,2))
  have "mn_framed (m\<lparr>mn_workspaces := (mn_workspaces m)[s := w]\<rparr>) m'"
    using w(2) by (auto simp: bind_eq_Some_conv split: option.splits dest: clean_up_id framed_removed)
  from framed_then[OF this r] show ?thesis .
qed simp

lemma framed_column_to:
  assumes "\<And>m m'. mf m = Some m' \<Longrightarrow> mn_framed m m'" "mn_move_column_to E d a mf m = Some m'"
  shows "mn_framed m m'"
proof (cases "m' = m \<or> mf m = Some m'")
  case True
  with assms(1) show ?thesis by auto
next
  case False
  then obtain c w where w: "ws_remove_active_column E (mn_workspaces m ! mn_active_workspace_idx m) = Some (c, w)"
      "(case c of None \<Rightarrow> Some (m\<lparr>mn_workspaces := (mn_workspaces m)[mn_active_workspace_idx m := w]\<rparr>)
        | Some c \<Rightarrow> mn_add_column E d c a (m\<lparr>mn_workspaces := (mn_workspaces m)[mn_active_workspace_idx m := w]\<rparr>)) = Some m'"
    using assms(2) unfolding mn_move_column_to_def Let_def
    by (auto simp: mn_active_workspace_def bind_eq_Some_conv vec_simps split: if_splits)
  have "mn_framed (m\<lparr>mn_workspaces := (mn_workspaces m)[mn_active_workspace_idx m := w]\<rparr>) m'"
    using w(2) by (auto split: option.splits dest: framed_adds(1))
  from framed_then[OF this rest_removes(3)[OF w(1)]] show ?thesis .
qed

lemma framed_or:
  assumes "\<And>w w' b. f w = Some (w', b) \<Longrightarrow> ws_rest w' = ws_rest w" "\<And>m m'. g m = Some m' \<Longrightarrow> mn_framed m m'"
    and "mn_or f g m = Some m'"
  shows "mn_framed m m'"
proof -
  obtain w b where w: "f (mn_workspaces m ! mn_active_workspace_idx m) = Some (w, b)"
      "(if b then Some (m\<lparr>mn_workspaces := (mn_workspaces m)[mn_active_workspace_idx m := w]\<rparr>)
        else g (m\<lparr>mn_workspaces := (mn_workspaces m)[mn_active_workspace_idx m := w]\<rparr>)) = Some m'"
    using assms(3) by (auto simp: mn_or_def mn_active_workspace_def bind_eq_Some_conv vec_simps Let_def split: if_splits)
  have "mn_framed (m\<lparr>mn_workspaces := (mn_workspaces m)[mn_active_workspace_idx m := w]\<rparr>) m'"
    using w(2) assms(2) by (auto split: if_splits)
  from framed_then[OF this assms(1)[OF w(1)]] show ?thesis .
qed

lemma framed_exec_move [framed]: "mn_exec_move E op m = Some m' \<Longrightarrow> mn_framed m m'"
proof -
  have up: "mn_move_to_workspace_up E f m = Some m' \<Longrightarrow> mn_framed m m'"
    and down: "mn_move_to_workspace_down E f m = Some m' \<Longrightarrow> mn_framed m m'" for f m m'
    by (auto simp: mn_move_to_workspace_up_def mn_move_to_workspace_down_def Let_def bind_eq_Some_conv
        dest: framed_active_to split: if_splits)
  have r: "ws_move_down E w = Some (w', b) \<Longrightarrow> ws_rest w' = ws_rest w" "ws_move_up E w = Some (w', b) \<Longrightarrow> ws_rest w' = ws_rest w"
    "ws_focus_down w = Some (w', b) \<Longrightarrow> ws_rest w' = ws_rest w" "ws_focus_up w = Some (w', b) \<Longrightarrow> ws_rest w' = ws_rest w" for w w' b
    using rest_moves(1) rest_focus(1) unfolding ws_move_down_def ws_move_up_def ws_focus_down_def ws_focus_up_def by blast+
  assume ex: "mn_exec_move E op m = Some m'"
  show ?thesis
  proof (cases op)
    case MMoveDownOrDown
    with ex show ?thesis using framed_or[OF r(1) down] by (simp add: mn_move_down_or_to_workspace_down_def)
  next
    case MMoveUpOrUp
    with ex show ?thesis using framed_or[OF r(2) up] by (simp add: mn_move_up_or_to_workspace_up_def)
  next
    case MFocusDownOrDown
    with ex show ?thesis using framed_or[OF r(3) framed_switches(3)] by (simp add: mn_focus_window_or_workspace_down_def)
  next
    case MFocusUpOrUp
    with ex show ?thesis using framed_or[OF r(4) framed_switches(2)] by (simp add: mn_focus_window_or_workspace_up_def)
  qed (use ex up down framed_to_workspace in \<open>auto simp: mn_move_column_to_workspace_up_def
      mn_move_column_to_workspace_down_def mn_move_column_to_workspace_def bind_eq_Some_conv
      elim!: framed_column_to[rotated]\<close>)
qed

section \<open>Order and names\<close>

lemma framed_permuted: "mset wss = mset (mn_workspaces m) \<Longrightarrow> mn_framed m (m\<lparr>mn_workspaces := wss\<rparr>)"
  by (rule framed_workspaces) simp

lemma framed_lists [framed]:
  assumes "mn_inv E m" "\<not> mp_above_first (mn_options m)"
  shows "mn_move_workspace_down E' m = Some m' \<Longrightarrow> mn_framed m m'" "mn_move_workspace_up E' m = Some m' \<Longrightarrow> mn_framed m m'"
    "mn_move_workspace_to_idx a b m = Some m' \<Longrightarrow> mn_framed m m'"
    "mn_unname_workspace i m = Some (m', ok) \<Longrightarrow> mn_framed m m'"
proof -
  show "mn_move_workspace_down E' m = Some m' \<Longrightarrow> mn_framed m m'"
    using move_workspace_shape(1)[OF assms, of E' m'] framed_permuted swap_mset by fastforce
  show "mn_move_workspace_up E' m = Some m' \<Longrightarrow> mn_framed m m'"
    using move_workspace_shape(2)[OF assms, of E' m'] framed_permuted swap_mset by fastforce
  show "mn_unname_workspace i m = Some (m', ok) \<Longrightarrow> mn_framed m m'"
    by (auto simp: mn_unname_workspace_def bind_eq_Some_conv ws_unname_def split: option.splits
        dest!: clean_up_id(1) intro: framed_at)
  assume ex: "mn_move_workspace_to_idx a b m = Some m'"
  show "mn_framed m m'"
  proof (cases "m' = m")
    case False
    define d where "d = min b (length (mn_workspaces m) - 1)"
    define k where "k = (if mn_active_workspace_idx m = a then d
                 else if d \<le> mn_active_workspace_idx m \<and> mn_active_workspace_idx m < a then mn_active_workspace_idx m + 1
                 else if mn_active_workspace_idx m \<le> d \<and> a < mn_active_workspace_idx m then mn_active_workspace_idx m - 1
                 else mn_active_workspace_idx m)"
    have "\<not> (length (mn_workspaces m) \<le> a \<or> a = d)"
      using False ex unfolding mn_move_workspace_to_idx_def Let_def d_def by (auto simp del: One_nat_def split: if_split_asm)
    then obtain w wss wss' where w: "vec_remove a (mn_workspaces m) = Some (w, wss)" "vec_insert d w wss = Some wss'"
        "mn_clean_up_workspaces (m\<lparr>mn_workspaces := wss', mn_active_workspace_idx := k, mn_workspace_switch := None\<rparr>) = Some m'"
      using ex assms(2) unfolding mn_move_workspace_to_idx_def Let_def d_def[symmetric]
      by (clarsimp simp: bind_eq_Some_conv mn_add_workspace_bottom_def k_def split del: if_split cong: if_cong)
    have "mset wss' = mset (mn_workspaces m)" using remove_mset[OF w(1)] insert_mset[OF w(2)] by simp
    with clean_up_id(2)[OF w(3)] show ?thesis by (simp add: framed_permuted)
  qed simp
qed

end
