(* ===== verification/LayoutInv.thy ===== *)
theory LayoutInv
  imports LayoutRoutine MonitorFrame
begin

text \<open>
  The invariant of the layout, most of what its \<open>verify_invariants\<close> asserts, and the ways in which a command acts on
  the monitors: on one of them, on all of them, or on the workspaces that wait for an output.
\<close>

section \<open>The invariant\<close>

definition la_ids :: "layout \<Rightarrow> nat list" where
  "la_ids L = (case la_moving L of Some v \<Rightarrow> [tile_id (mv_tile v)] | None \<Rightarrow> []) @ concat (map ws_ids (la_workspaces L))"

definition la_tiles :: "layout \<Rightarrow> tile list" where
  "la_tiles L = (case la_moving L of Some v \<Rightarrow> [mv_tile v] | None \<Rightarrow> []) @ concat (map ws_tiles (la_workspaces L))"

definition la_acyclic :: "layout \<Rightarrow> bool" where
  "la_acyclic L \<longleftrightarrow> parents_acyclic (la_tiles L)"

text \<open>A monitor has the options and the overview of the layout. The setting \<open>empty-workspace-above-first\<close> is off.\<close>

definition mn_fits :: "env \<Rightarrow> monitor_options \<Rightarrow> bool \<Rightarrow> overview_progress option \<Rightarrow> monitor \<Rightarrow> bool" where
  "mn_fits E opts opened progress m \<longleftrightarrow> mn_inv E m \<and> mn_base_options m = opts \<and> mn_overview_open m = opened \<and>
     mn_overview_progress m = progress \<and> \<not> mp_above_first (mn_options m)"

definition la_seen :: "layout \<Rightarrow> overview_progress option" where
  "la_seen L = map_option overview_from (la_overview_progress L)"

definition ms_ok :: "env \<Rightarrow> layout \<Rightarrow> monitor list \<Rightarrow> bool" where
  "ms_ok E L ms \<longleftrightarrow> distinct (map (ou_id \<circ> mn_output) ms) \<and>
     (\<forall>m\<in>set ms. mn_fits E (la_options L) (la_overview_open L) (la_seen L) m)"

definition ws_waits :: "env \<Rightarrow> options \<Rightarrow> workspace \<Rightarrow> bool" where
  "ws_waits E opts w \<longleftrightarrow> ws_inv E w \<and> ws_output w = None \<and> ws_base_options w = opts"

definition set_ok :: "env \<Rightarrow> layout \<Rightarrow> bool" where
  "set_ok E L \<longleftrightarrow> (case la_set L of
     Outputs ms p a \<Rightarrow> p < length ms \<and> a < length ms \<and> ms_ok E L ms
   | NoOutputs wss \<Rightarrow> \<forall>w\<in>set wss. ws_waits E (mp_shared (la_options L)) w)"

definition fresh_ids :: "nat \<Rightarrow> nat list \<Rightarrow> bool" where
  "fresh_ids n is \<longleftrightarrow> distinct is \<and> (\<forall>i\<in>set is. i < n)"

definition move_ok :: "layout \<Rightarrow> bool" where
  "move_ok L \<longleftrightarrow> (case la_move L of Some (Starting i _ _) \<Rightarrow> i \<in> set (la_ids L) | _ \<Rightarrow> True)"

definition la_inv :: "env \<Rightarrow> layout \<Rightarrow> bool" where
  "la_inv E L \<longleftrightarrow> set_ok E L \<and> fresh_ids (la_next_id L) (map ws_id (la_workspaces L)) \<and> distinct (la_ids L) \<and> move_ok L"

text \<open>What a command does to the windows.\<close>

definition la_holds :: "env \<Rightarrow> nat multiset \<Rightarrow> layout \<Rightarrow> bool" where
  "la_holds E ids L \<longleftrightarrow> la_inv E L \<and> mset (la_ids L) = ids"

lemma la_holdsD: "la_holds E ids L \<Longrightarrow> la_inv E L" "la_holds E ids L \<Longrightarrow> mset (la_ids L) = ids"
  by (simp_all add: la_holds_def)

lemma la_refl: "la_inv E L \<Longrightarrow> la_holds E (mset (la_ids L)) L"
  by (simp add: la_holds_def)

lemma la_trans: "la_holds E (mset (la_ids L)) L1 \<Longrightarrow> la_holds E (mset (la_ids L1)) L2 \<Longrightarrow> la_holds E (mset (la_ids L)) L2"
  by (simp add: la_holds_def)

section \<open>What the parts are made of\<close>

lemma put_sel [simp]:
  "la_set (la_put s L) = s" "la_move (la_put s L) = la_move L" "la_options (la_put s L) = la_options L"
  "la_overview_open (la_put s L) = la_overview_open L" "la_overview_progress (la_put s L) = la_overview_progress L"
  "la_next_id (la_put s L) = la_next_id L" "la_dnd (la_put s L) = la_dnd L" "la_moving (la_put s L) = la_moving L"
  "la_overview_config (la_put s L) = la_overview_config L" "la_last_active (la_put s L) = la_last_active L"
  "la_seen (la_put s L) = la_seen L"
  by (simp_all add: la_put_def la_moving_def la_seen_def)

lemma moving_upd [simp]:
  "la_moving (L\<lparr>la_set := s\<rparr>) = la_moving L" "la_moving (L\<lparr>la_next_id := n\<rparr>) = la_moving L"
  "la_moving (L\<lparr>la_dnd := d\<rparr>) = la_moving L" "la_moving (L\<lparr>la_last_active := f\<rparr>) = la_moving L"
  "la_moving (L\<lparr>la_is_active := b\<rparr>) = la_moving L" "la_moving (L\<lparr>la_overview_open := b\<rparr>) = la_moving L"
  "la_moving (L\<lparr>la_overview_progress := q\<rparr>) = la_moving L" "la_moving (L\<lparr>la_options := opts\<rparr>) = la_moving L"
  "la_moving (L\<lparr>la_overview_config := c\<rparr>) = la_moving L"
  "la_moving (L\<lparr>la_move := None\<rparr>) = None" "la_moving (L\<lparr>la_move := Some (Moving v)\<rparr>) = Some v"
  "la_moving (L\<lparr>la_move := Some (Starting i x y)\<rparr>) = None"
  by (simp_all add: la_moving_def)

lemma workspaces_upd [simp]:
  "la_workspaces (L\<lparr>la_move := v\<rparr>) = la_workspaces L" "la_workspaces (L\<lparr>la_next_id := n\<rparr>) = la_workspaces L"
  "la_workspaces (L\<lparr>la_dnd := d\<rparr>) = la_workspaces L" "la_workspaces (L\<lparr>la_last_active := f\<rparr>) = la_workspaces L"
  "la_workspaces (L\<lparr>la_is_active := b\<rparr>) = la_workspaces L" "la_workspaces (L\<lparr>la_overview_open := b\<rparr>) = la_workspaces L"
  "la_workspaces (L\<lparr>la_overview_progress := q\<rparr>) = la_workspaces L" "la_workspaces (L\<lparr>la_options := opts\<rparr>) = la_workspaces L"
  "la_workspaces (L\<lparr>la_overview_config := c\<rparr>) = la_workspaces L"
  "la_workspaces (la_put (NoOutputs wss) L) = wss"
  "la_workspaces (la_put (Outputs ms p a) L) = concat (map mn_workspaces ms)"
  by (simp_all add: la_workspaces_def)

lemma la_ids_upd [simp]:
  "la_ids (L\<lparr>la_dnd := d\<rparr>) = la_ids L" "la_ids (L\<lparr>la_last_active := f\<rparr>) = la_ids L" "la_ids (L\<lparr>la_is_active := b\<rparr>) = la_ids L"
  "la_ids (L\<lparr>la_overview_open := b\<rparr>) = la_ids L" "la_ids (L\<lparr>la_overview_progress := q\<rparr>) = la_ids L"
  "la_ids (L\<lparr>la_options := opts\<rparr>) = la_ids L" "la_ids (L\<lparr>la_overview_config := c\<rparr>) = la_ids L"
  "la_ids (L\<lparr>la_next_id := n\<rparr>) = la_ids L"
  by (simp_all add: la_ids_def)

lemma set_ok_upd [simp]:
  "set_ok E (L\<lparr>la_dnd := d\<rparr>) = set_ok E L" "set_ok E (L\<lparr>la_last_active := f\<rparr>) = set_ok E L"
  "set_ok E (L\<lparr>la_is_active := b\<rparr>) = set_ok E L" "set_ok E (L\<lparr>la_move := v\<rparr>) = set_ok E L"
  "set_ok E (L\<lparr>la_next_id := n\<rparr>) = set_ok E L" "set_ok E (L\<lparr>la_overview_config := c\<rparr>) = set_ok E L"
  by (simp_all add: set_ok_def ms_ok_def la_seen_def cong: monitor_set.case_cong)

lemma la_inv_upd [simp]:
  "la_inv E (L\<lparr>la_dnd := d\<rparr>) = la_inv E L" "la_inv E (L\<lparr>la_last_active := f\<rparr>) = la_inv E L"
  "la_inv E (L\<lparr>la_is_active := b\<rparr>) = la_inv E L" "la_inv E (L\<lparr>la_overview_config := c\<rparr>) = la_inv E L"
  by (simp_all add: la_inv_def move_ok_def cong: option.case_cong interactive_move.case_cong)

lemma ms_ids: "concat (map ws_ids (concat (map mn_workspaces ms))) = concat (map mn_ids ms)"
  by (induction ms) (simp_all add: mn_ids_def)

lemma ms_tiles: "concat (map ws_tiles (concat (map mn_workspaces ms))) = concat (map mn_tiles ms)"
  by (induction ms) (simp_all add: mn_tiles_def)

lemma ids_put [simp]:
  "la_ids (la_put (Outputs ms p a) L) = (case la_moving L of Some v \<Rightarrow> [tile_id (mv_tile v)] | None \<Rightarrow> []) @ concat (map mn_ids ms)"
  "la_ids (la_put (NoOutputs wss) L) = (case la_moving L of Some v \<Rightarrow> [tile_id (mv_tile v)] | None \<Rightarrow> []) @ concat (map ws_ids wss)"
  by (simp_all add: la_ids_def ms_ids)

lemma la_ids_set:
  "la_set L = Outputs ms p a \<Longrightarrow>
    la_ids L = (case la_moving L of Some v \<Rightarrow> [tile_id (mv_tile v)] | None \<Rightarrow> []) @ concat (map mn_ids ms)"
  "la_set L = NoOutputs wss \<Longrightarrow>
    la_ids L = (case la_moving L of Some v \<Rightarrow> [tile_id (mv_tile v)] | None \<Rightarrow> []) @ concat (map ws_ids wss)"
  by (simp_all add: la_ids_def la_workspaces_def ms_ids)

lemma la_invD:
  assumes "la_inv E L"
  shows "set_ok E L" "fresh_ids (la_next_id L) (map ws_id (la_workspaces L))" "distinct (la_ids L)" "move_ok L"
  using assms by (simp_all add: la_inv_def)

lemma outputsD:
  assumes "la_inv E L" "la_set L = Outputs ms p a"
  shows "p < length ms" "a < length ms" "ms_ok E L ms" "distinct (map (ou_id \<circ> mn_output) ms)"
    "\<And>m. m \<in> set ms \<Longrightarrow> mn_fits E (la_options L) (la_overview_open L) (la_seen L) m"
    "\<And>m. m \<in> set ms \<Longrightarrow> mn_inv E m" "\<And>m. m \<in> set ms \<Longrightarrow> \<not> mp_above_first (mn_options m)"
    "distinct (concat (map mn_ids ms))" "distinct (concat (map (map ws_id \<circ> mn_workspaces) ms))"
proof -
  show "p < length ms" "a < length ms" "ms_ok E L ms" "distinct (map (ou_id \<circ> mn_output) ms)"
    "\<And>m. m \<in> set ms \<Longrightarrow> mn_fits E (la_options L) (la_overview_open L) (la_seen L) m"
    "\<And>m. m \<in> set ms \<Longrightarrow> mn_inv E m" "\<And>m. m \<in> set ms \<Longrightarrow> \<not> mp_above_first (mn_options m)"
    using la_invD(1)[OF assms(1)] assms(2) by (auto simp: set_ok_def ms_ok_def mn_fits_def)
  show "distinct (concat (map mn_ids ms))" using la_invD(3)[OF assms(1)] by (simp add: la_ids_set(1)[OF assms(2)])
  show "distinct (concat (map (map ws_id \<circ> mn_workspaces) ms))"
    using la_invD(2)[OF assms(1)] by (simp add: fresh_ids_def la_workspaces_def assms(2) map_concat comp_def)
qed

lemma waitsD:
  assumes "la_inv E L" "la_set L = NoOutputs wss"
  shows "\<And>w. w \<in> set wss \<Longrightarrow> ws_waits E (mp_shared (la_options L)) w" "\<And>w. w \<in> set wss \<Longrightarrow> ws_inv E w"
    "distinct (map ws_id wss)" "\<And>w. w \<in> set wss \<Longrightarrow> ws_id w < la_next_id L" "distinct (concat (map ws_ids wss))"
proof -
  show "\<And>w. w \<in> set wss \<Longrightarrow> ws_waits E (mp_shared (la_options L)) w" "\<And>w. w \<in> set wss \<Longrightarrow> ws_inv E w"
    using la_invD(1)[OF assms(1)] assms(2) by (auto simp: set_ok_def ws_waits_def)
  show "distinct (map ws_id wss)" "\<And>w. w \<in> set wss \<Longrightarrow> ws_id w < la_next_id L"
    using la_invD(2)[OF assms(1)] by (simp_all add: fresh_ids_def la_workspaces_def assms(2))
  show "distinct (concat (map ws_ids wss))" using la_invD(3)[OF assms(1)] by (simp add: la_ids_set(2)[OF assms(2)])
qed

section \<open>Actions that keep the windows\<close>

definition ws_goes :: "env \<Rightarrow> workspace \<Rightarrow> workspace \<Rightarrow> bool" where
  "ws_goes E w w' \<longleftrightarrow> ws_inv E w' \<and> mset (ws_ids w') = mset (ws_ids w) \<and> ws_rest w' = ws_rest w"

definition mn_goes :: "env \<Rightarrow> monitor \<Rightarrow> monitor \<Rightarrow> bool" where
  "mn_goes E m m' \<longleftrightarrow> mn_holds E (mset (mn_ids m)) m' \<and> mn_framed m m'"

lemma fresh_ids_sub: "fresh_ids n is \<Longrightarrow> mset js \<subseteq># mset is \<Longrightarrow> fresh_ids n js"
  unfolding fresh_ids_def using distinct_subset_mset[of js "is"] mset_subset_eqD by fastforce

lemma fresh_ids_mset: "fresh_ids n is \<Longrightarrow> mset js = mset is \<Longrightarrow> fresh_ids n js"
  by (erule fresh_ids_sub) simp

lemma fresh_ids_more: "fresh_ids n is \<Longrightarrow> n \<le> k \<Longrightarrow> fresh_ids k is"
  by (auto simp: fresh_ids_def)

lemma ws_goes_refl: "ws_inv E w \<Longrightarrow> ws_goes E w w"
  by (simp add: ws_goes_def)

lemma ws_goes_trans: "ws_goes E w w1 \<Longrightarrow> ws_goes E w1 w2 \<Longrightarrow> ws_goes E w w2"
  by (simp add: ws_goes_def)

lemma same_goes: "ws_same E w w' \<Longrightarrow> ws_rest w' = ws_rest w \<Longrightarrow> ws_goes E w w'"
  by (simp add: ws_same_def ws_goes_def)

lemma goes_refl: "mn_inv E m \<Longrightarrow> mn_goes E m m"
  by (simp add: mn_goes_def holds_refl)

lemma goes_trans: "mn_goes E m m1 \<Longrightarrow> mn_goes E m1 m2 \<Longrightarrow> mn_goes E m m2"
  by (auto simp: mn_goes_def mn_holds_def intro: framed_trans)

lemma goes_inv: "mn_goes E m m' \<Longrightarrow> mn_inv E m'"
  by (simp add: mn_goes_def mn_holds_def)

lemma framedD:
  assumes "mn_framed m m'"
  shows "mn_output m' = mn_output m" "mn_base_options m' = mn_base_options m" "mn_layout_config m' = mn_layout_config m"
    "mn_overview_open m' = mn_overview_open m" "mn_overview_progress m' = mn_overview_progress m"
    "mset (map ws_id (mn_workspaces m')) = mset (map ws_id (mn_workspaces m))"
  using assms by (simp_all add: mn_framed_def mn_frame_def mn_wids_def)

lemma framed_options: "mn_framed m m' \<Longrightarrow> mn_inv E m \<Longrightarrow> mn_inv E m' \<Longrightarrow> mn_options m' = mn_options m"
  by (simp add: mn_inv_def mn_in_sync_def framedD)

lemma framed_fits: "mn_framed m m' \<Longrightarrow> mn_fits E opts b q m \<Longrightarrow> mn_inv E m' \<Longrightarrow> mn_fits E opts b q m'"
  using framed_options[of m m' E] by (auto simp: mn_fits_def framedD)

lemma goes_lists:
  assumes "list_all2 (mn_goes E) ms ms'"
  shows "mset (concat (map mn_ids ms')) = mset (concat (map mn_ids ms))"
    "mset (concat (map (map ws_id \<circ> mn_workspaces) ms')) = mset (concat (map (map ws_id \<circ> mn_workspaces) ms))"
    "map (ou_id \<circ> mn_output) ms' = map (ou_id \<circ> mn_output) ms"
  using assms by (induction rule: list_all2_induct) (auto simp: mn_goes_def mn_holds_def dest: framedD)

lemma goes_ok:
  assumes "list_all2 (mn_goes E) ms ms'" "ms_ok E L ms"
  shows "ms_ok E L ms'"
  unfolding ms_ok_def
proof (intro conjI ballI)
  show "distinct (map (ou_id \<circ> mn_output) ms')" using assms(2) goes_lists(3)[OF assms(1)] by (simp add: ms_ok_def)
  fix m' assume "m' \<in> set ms'"
  then obtain k where k: "k < length ms'" "m' = ms' ! k" by (auto simp: in_set_conv_nth)
  then have g: "mn_goes E (ms ! k) m'" "ms ! k \<in> set ms"
    using list_all2_nthD2[OF assms(1)] list_all2_lengthD[OF assms(1)] by auto
  then show "mn_fits E (la_options L) (la_overview_open L) (la_seen L) m'"
    using framed_fits[of "ms ! k" m'] assms(2) goes_inv by (auto simp: mn_goes_def ms_ok_def)
qed

lemma ms_inv:
  assumes "la_inv E L" "ms_ok E L ms" "p < length ms" "a < length ms"
    and "fresh_ids (la_next_id L) (concat (map (map ws_id \<circ> mn_workspaces) ms))"
    and "distinct (la_ids (la_put (Outputs ms p a) L))" "move_ok (la_put (Outputs ms p a) L)"
  shows "la_inv E (la_put (Outputs ms p a) L)"
proof -
  have "ms_ok E (la_put (Outputs ms p a) L) ms" using assms(2) by (simp add: ms_ok_def)
  with assms show ?thesis by (simp add: la_inv_def set_ok_def map_concat comp_def)
qed

lemma move_ok_ids: "move_ok L \<Longrightarrow> la_move L' = la_move L \<Longrightarrow> mset (la_ids L') = mset (la_ids L) \<Longrightarrow> move_ok L'"
  using mset_eq_setD[of "la_ids L'" "la_ids L"] by (auto simp: move_ok_def split: option.splits interactive_move.splits)

lemma act_monitors:
  assumes inv: "la_inv E L" and L: "la_set L = Outputs ms p a" and ms: "list_all2 (mn_goes E) ms ms'" and a: "a' < length ms"
  shows "la_holds E (mset (la_ids L)) (la_put (Outputs ms' p a') L)"
proof -
  let ?L = "la_put (Outputs ms' p a') L"
  note o = outputsD[OF inv L] and g = goes_lists[OF ms]
  have ids: "mset (la_ids ?L) = mset (la_ids L)" by (simp add: la_ids_set(1)[OF L] g(1))
  have "fresh_ids (la_next_id L) (concat (map (map ws_id \<circ> mn_workspaces) ms'))"
    by (rule fresh_ids_mset[OF _ g(2)])
      (use la_invD(2)[OF inv] in \<open>simp add: la_workspaces_def L map_concat comp_def\<close>)
  moreover have "distinct (la_ids ?L)" using la_invD(3)[OF inv] mset_eq_imp_distinct_iff[OF ids] by simp
  moreover have "move_ok ?L" by (rule move_ok_ids[OF la_invD(4)[OF inv] _ ids]) simp
  ultimately have "la_inv E ?L"
    using ms_inv[OF inv goes_ok[OF ms o(3)]] o(1) a list_all2_lengthD[OF ms] by simp
  with ids show ?thesis by (simp add: la_holds_def)
qed

lemma act_waiting:
  assumes inv: "la_inv E L" and L: "la_set L = NoOutputs wss" and wss: "list_all2 (ws_goes E) wss wss'"
  shows "la_holds E (mset (la_ids L)) (la_put (NoOutputs wss') L)"
proof -
  let ?L = "la_put (NoOutputs wss') L"
  have g: "mset (concat (map ws_ids wss')) = mset (concat (map ws_ids wss))" "map ws_id wss' = map ws_id wss"
    using wss by (induction rule: list_all2_induct) (auto simp: ws_goes_def dest: rest_id)
  have ids: "mset (la_ids ?L) = mset (la_ids L)" by (simp add: la_ids_set(2)[OF L] g(1))
  have w: "ws_waits E (mp_shared (la_options L)) w'" if "w' \<in> set wss'" for w'
  proof -
    from that obtain k where k: "k < length wss'" "w' = wss' ! k" by (auto simp: in_set_conv_nth)
    then have "ws_goes E (wss ! k) w'" "wss ! k \<in> set wss"
      using list_all2_nthD2[OF wss] list_all2_lengthD[OF wss] by auto
    then show ?thesis using waitsD(1)[OF inv L] by (auto simp: ws_waits_def ws_goes_def ws_rest_def)
  qed
  have "fresh_ids (la_next_id L) (map ws_id wss')" unfolding g(2) using la_invD(2)[OF inv] by (simp add: la_workspaces_def L)
  moreover have "distinct (la_ids ?L)" using la_invD(3)[OF inv] mset_eq_imp_distinct_iff[OF ids] by simp
  moreover have "move_ok ?L" by (rule move_ok_ids[OF la_invD(4)[OF inv] _ ids]) simp
  ultimately have "la_inv E ?L" using w by (simp add: la_inv_def set_ok_def)
  with ids show ?thesis by (simp add: la_holds_def)
qed

end
