(* ===== verification/LayoutSteps.thy ===== *)
theory LayoutSteps
  imports LayoutInv
begin

text \<open>
  How the operations of workspaces and monitors act on the layout: the active workspace, the workspace of a window,
  every workspace, the active monitor and every monitor. None of them loses a window or breaks the invariant.
\<close>

section \<open>From a workspace to its monitor\<close>

lemma goes_workspaces:
  assumes inv: "mn_inv E m" and wss: "list_all2 (ws_goes E) (mn_workspaces m) wss"
  shows "mn_goes E m (m\<lparr>mn_workspaces := wss\<rparr>)"
proof -
  let ?m = "m\<lparr>mn_workspaces := wss\<rparr>"
  have ok: "wss_ok E m (mn_workspaces m)" using mn_invD(1)[OF inv] .
  have "ws_follows E m w w'" if "w \<in> set (mn_workspaces m)" "ws_goes E w w'" for w w'
  proof -
    note g = that(2)[unfolded ws_goes_def]
    have "snd (ws_rest w) = mn_setting m" using ok that(1) by (simp add: wss_ok_def ws_belongs_def)
    with g rest_id[of w' w] show ?thesis by (simp add: ws_follows_def ws_belongs_def)
  qed
  then have f: "list_all2 (ws_follows E m) (mn_workspaces m) wss" by (intro list.rel_mono_strong[OF wss]) auto
  have "wss_ok E m wss" by (rule follows_ok[OF f ok])
  then have "wss_ok E ?m wss" using wss_ok_setting[of ?m m] by simp
  moreover have "length wss = length (mn_workspaces m)" using wss by (simp add: list_all2_lengthD)
  ultimately have "mn_inv E ?m" using inv by (simp add: mn_inv_def mn_switch_ok_def)
  moreover have "mn_framed m ?m" by (rule framed_workspaces) (metis follows_lists(1)[OF f])
  ultimately show ?thesis using follows_lists(2)[OF f] by (simp add: mn_goes_def mn_holds_def mn_ids_def)
qed

lemma list_all2_at: "k < length xs \<Longrightarrow> R (xs ! k) y \<Longrightarrow> (\<And>x. x \<in> set xs \<Longrightarrow> R x x) \<Longrightarrow> list_all2 R xs (xs[k := y])"
  by (simp add: list_all2_conv_all_nth nth_list_update)

lemma goes_put:
  assumes inv: "mn_inv E m" and k: "k < length (mn_workspaces m)" and w: "ws_goes E (mn_workspaces m ! k) w"
  shows "mn_goes E m (m\<lparr>mn_workspaces := (mn_workspaces m)[k := w]\<rparr>)"
  by (rule goes_workspaces[OF inv list_all2_at[where R = "ws_goes E", OF k w]])
    (use mn_invD(1)[OF inv] in \<open>auto simp: wss_ok_def ws_belongs_def intro: ws_goes_refl\<close>)

lemma goes_at:
  assumes inv: "mn_inv E m" and ex: "mn_at k f m = Some m'"
    and f: "\<And>w w'. w \<in> set (mn_workspaces m) \<Longrightarrow> f w = Some w' \<Longrightarrow> ws_goes E w w'"
  shows "mn_goes E m m'"
proof -
  obtain w where "k < length (mn_workspaces m)" "f (mn_workspaces m ! k) = Some w"
      "m' = m\<lparr>mn_workspaces := (mn_workspaces m)[k := w]\<rparr>"
    using ex by (auto simp: at_Some)
  with goes_put[OF inv] f show ?thesis by simp
qed

lemma kept_goes: "mn_kept E (mset (mn_ids m)) m m' \<Longrightarrow> mn_framed m m' \<Longrightarrow> mn_goes E m m'"
  by (simp add: mn_goes_def kept_holds)

lemma inv_workspaces: "mn_inv E m \<Longrightarrow> w \<in> set (mn_workspaces m) \<Longrightarrow> ws_inv E w"
  using mn_invD(1) by (auto simp: wss_ok_def ws_belongs_def)

section \<open>Operations that keep the windows of a workspace\<close>

fun ws_keeps :: "ws_op \<Rightarrow> bool" where
  "ws_keeps (WFocus _) = True"
| "ws_keeps (WMove _) = True"
| "ws_keeps (WSize _) = True"
| "ws_keeps (WChange _) = True"
| "ws_keeps _ = False"

lemma exec_goes:
  assumes inv: "ws_inv E w" and op: "ws_keeps op" and ac: "ws_acyclic w" and keep: "configure_keeps E"
    and ex: "ws_exec E op w = Some w'"
  shows "ws_goes E w w'"
proof -
  have "ws_allowed op w" "ws_windows_after op w = mset (ws_ids w)" using op ac by (cases op; simp)+
  moreover have "ws_rest w' = ws_rest w" by (rule rest_exec[OF ex]) (use op in auto)
  ultimately show ?thesis using ws_step[OF inv _ keep ex] by (simp add: ws_goes_def ws_after_def)
qed

lemma activate_goes:
  assumes "ws_inv E w" "ws_acyclic w" "configure_keeps E"
  shows "ws_activate_window i w = Some (w', b) \<Longrightarrow> ws_goes E w w'"
    and "ws_activate_window_without_raising i w = Some (w', b) \<Longrightarrow> ws_goes E w w'"
  using exec_goes[OF assms(1) _ assms(2,3), of "WFocus (WActivateWindow i)" w']
    exec_goes[OF assms(1) _ assms(2,3), of "WFocus (WActivateWindowWithoutRaising i)" w'] by simp_all

text \<open>Windows that are changed without the engine noticing.\<close>

lemma acyclic_parts:
  assumes "la_acyclic L"
  shows "w \<in> set (la_workspaces L) \<Longrightarrow> ws_acyclic w"
    and "la_set L = Outputs ms p a \<Longrightarrow> m \<in> set ms \<Longrightarrow> mn_acyclic m"
proof -
  show "w \<in> set (la_workspaces L) \<Longrightarrow> ws_acyclic w"
    unfolding ws_acyclic_def by (rule acyclic_subset[OF assms[unfolded la_acyclic_def]]) (auto simp: la_tiles_def)
  show "la_set L = Outputs ms p a \<Longrightarrow> m \<in> set ms \<Longrightarrow> mn_acyclic m"
    unfolding mn_acyclic_def by (rule acyclic_subset[OF assms[unfolded la_acyclic_def]])
      (auto simp: la_tiles_def la_workspaces_def mn_tiles_def)
qed

lemma inv_parts:
  assumes "la_inv E L" "w \<in> set (la_workspaces L)"
  shows "ws_inv E w"
proof (cases "la_set L")
  case (Outputs ms p a)
  with assms outputsD(6)[OF assms(1) Outputs] inv_workspaces show ?thesis by (auto simp: la_workspaces_def)
next
  case (NoOutputs wss)
  with assms waitsD(2)[OF assms(1) NoOutputs] show ?thesis by (simp add: la_workspaces_def)
qed

section \<open>Monitors\<close>

lemma act_one:
  assumes inv: "la_inv E L" and L: "la_set L = Outputs ms p a" and k: "k < length ms" "a' < length ms"
    and g: "mn_goes E (ms ! k) m"
  shows "la_holds E (mset (la_ids L)) (la_put (Outputs (ms[k := m]) p a') L)"
  by (rule act_monitors[OF inv L list_all2_at[where R = "mn_goes E", OF k(1) g] k(2)]) (use outputsD(6)[OF inv L] goes_refl in auto)

lemma act_focus:
  assumes inv: "la_inv E L" and L: "la_set L = Outputs ms p a" and a: "a' < length ms"
  shows "la_holds E (mset (la_ids L)) (la_put (Outputs ms p a') L)"
  by (rule act_monitors[OF inv L _ a]) (use outputsD(6)[OF inv L] goes_refl in \<open>simp add: list_all2_same\<close>)

lemma act_active_monitor:
  assumes inv: "la_inv E L" and ex: "la_on_active_monitor f L = Some L'"
    and f: "\<And>ms p a m m'. la_set L = Outputs ms p a \<Longrightarrow> m \<in> set ms \<Longrightarrow> f m = Some m' \<Longrightarrow> mn_goes E m m'"
  shows "la_holds E (mset (la_ids L)) L'"
proof (cases "la_set L")
  case (NoOutputs wss)
  with ex la_refl[OF inv] show ?thesis by (simp add: la_on_active_monitor_def)
next
  case (Outputs ms p a)
  with ex obtain m where m: "a < length ms" "f (ms ! a) = Some m" "L' = la_put (Outputs (ms[a := m]) p a) L"
    by (auto simp: la_on_active_monitor_def bind_eq_Some_conv vec_simps)
  from act_one[OF inv Outputs m(1,1) f[OF Outputs nth_mem[OF m(1)] m(2)]] m(3) show ?thesis by simp
qed

lemma try_map_goes:
  assumes "try_map f xs = Some ys" "\<And>x y. x \<in> set xs \<Longrightarrow> f x = Some y \<Longrightarrow> R x y"
  shows "list_all2 R xs ys"
  using assms(1) unfolding try_map_all2 by (rule list.rel_mono_strong) (use assms(2) in blast)

lemma act_all_monitors:
  assumes inv: "la_inv E L" and ex: "la_all_monitors f L = Some L'"
    and f: "\<And>ms p a m m'. la_set L = Outputs ms p a \<Longrightarrow> m \<in> set ms \<Longrightarrow> f m = Some m' \<Longrightarrow> mn_goes E m m'"
  shows "la_holds E (mset (la_ids L)) L'"
proof (cases "la_set L")
  case (NoOutputs wss)
  with ex la_refl[OF inv] show ?thesis by (simp add: la_all_monitors_def)
next
  case (Outputs ms p a)
  with ex obtain ms' where m: "try_map f ms = Some ms'" "L' = la_put (Outputs ms' p a) L"
    by (auto simp: la_all_monitors_def)
  from act_monitors[OF inv Outputs try_map_goes[OF m(1) f[OF Outputs]] outputsD(2)[OF inv Outputs]] m(2)
  show ?thesis by simp
qed

text \<open>A search that stops early changes what it has passed.\<close>

lemma until_goes:
  assumes "try_until f xs = Some (ys, k)" "\<And>x y b. x \<in> set xs \<Longrightarrow> f x = Some (y, b) \<Longrightarrow> R x y" "\<And>x. x \<in> set xs \<Longrightarrow> R x x"
  shows "list_all2 R xs ys \<and> (\<forall>i. k = Some i \<longrightarrow> i < length xs)"
  using assms by (induction f xs arbitrary: ys k rule: try_until.induct)
    (fastforce simp: bind_eq_Some_conv list_all2_same split: if_splits)+

lemma find_goes:
  assumes "try_find f xs = Some (ys, k)" "\<And>x y b. x \<in> set xs \<Longrightarrow> f x = Some (y, b) \<Longrightarrow> R x y" "\<And>x. x \<in> set xs \<Longrightarrow> R x x"
  shows "list_all2 R xs ys"
  using assms by (induction f xs arbitrary: ys k rule: try_find.induct)
    (fastforce simp: bind_eq_Some_conv list_all2_same split: option.splits)+

section \<open>Workspaces\<close>

lemma in_workspaces: "la_set L = Outputs ms p a \<Longrightarrow> m \<in> set ms \<Longrightarrow> w \<in> set (mn_workspaces m) \<Longrightarrow> w \<in> set (la_workspaces L)"
  by (auto simp: la_workspaces_def)

lemma act_first:
  assumes inv: "la_inv E L" and ex: "la_on_first P f L = Some L'"
    and f: "\<And>w w'. w \<in> set (la_workspaces L) \<Longrightarrow> f w = Some w' \<Longrightarrow> ws_goes E w w'"
  shows "la_holds E (mset (la_ids L)) L'"
proof (cases "la_set L")
  case (Outputs ms p a)
  with ex obtain k j m where m: "k < length ms" "mn_at j f (ms ! k) = Some m" "L' = la_put (Outputs (ms[k := m]) p a) L"
    by (auto simp: la_on_first_def bind_eq_Some_conv dest!: position_Some)
  have "mn_goes E (ms ! k) m"
    by (rule goes_at[OF outputsD(6)[OF inv Outputs nth_mem[OF m(1)]] m(2) f]) (use in_workspaces[OF Outputs nth_mem[OF m(1)]] in auto)
  from act_one[OF inv Outputs m(1) outputsD(2)[OF inv Outputs] this] m(3) show ?thesis by simp
next
  case (NoOutputs wss)
  with ex obtain j w where w: "j < length wss" "f (wss ! j) = Some w" "L' = la_put (NoOutputs (wss[j := w])) L"
    by (auto simp: la_on_first_def bind_eq_Some_conv dest!: position_Some)
  have "ws_goes E (wss ! j) w" by (rule f[OF _ w(2)]) (use w(1) in \<open>simp add: la_workspaces_def NoOutputs\<close>)
  from act_waiting[OF inv NoOutputs list_all2_at[where R = "ws_goes E", OF w(1) this]] waitsD(2)[OF inv NoOutputs] w(3)
  show ?thesis by (simp add: ws_goes_refl)
qed

lemma act_try:
  assumes inv: "la_inv E L" and ex: "la_try_workspaces f L = Some L'"
    and f: "\<And>w w'. w \<in> set (la_workspaces L) \<Longrightarrow> f w = Some w' \<Longrightarrow> ws_goes E w w'"
  shows "la_holds E (mset (la_ids L)) L'"
proof (cases "la_set L")
  case (Outputs ms p a)
  with ex obtain ms' where m: "try_map (mn_try f) ms = Some ms'" "L' = la_put (Outputs ms' p a) L"
    by (auto simp: la_try_workspaces_def)
  have "mn_goes E m m'" if m': "m \<in> set ms" "mn_try f m = Some m'" for m m'
  proof -
    obtain wss where wss: "try_map f (mn_workspaces m) = Some wss" "m' = m\<lparr>mn_workspaces := wss\<rparr>"
      using m'(2) by (auto simp: mn_try_def)
    have "list_all2 (ws_goes E) (mn_workspaces m) wss"
      by (rule try_map_goes[OF wss(1) f]) (use in_workspaces[OF Outputs m'(1)] in auto)
    from goes_workspaces[OF outputsD(6)[OF inv Outputs m'(1)] this] show ?thesis by (simp add: wss(2))
  qed
  from act_monitors[OF inv Outputs try_map_goes[OF m(1) this] outputsD(2)[OF inv Outputs]] m(2) show ?thesis by simp
next
  case (NoOutputs wss)
  with ex obtain wss' where w: "try_map f wss = Some wss'" "L' = la_put (NoOutputs wss') L"
    by (auto simp: la_try_workspaces_def)
  have "list_all2 (ws_goes E) wss wss'" by (rule try_map_goes[OF w(1) f]) (simp_all add: la_workspaces_def NoOutputs)
  from act_waiting[OF inv NoOutputs this] w(2) show ?thesis by simp
qed

lemma try_map_Some: "try_map (\<lambda>x. Some (f x)) xs = Some (map f xs)"
  by (induction xs) simp_all

lemma map_is_try: "la_try_workspaces (\<lambda>w. Some (f w)) L = Some (la_map_workspaces f L)"
proof -
  have "mn_try (\<lambda>w. Some (f w)) = (\<lambda>m. Some (mn_map f m))" by (rule ext) (simp add: mn_try_def mn_map_def try_map_Some)
  then show ?thesis by (simp add: la_try_workspaces_def la_map_workspaces_def try_map_Some split: monitor_set.split)
qed

lemma act_map:
  assumes "la_inv E L" "\<And>w. w \<in> set (la_workspaces L) \<Longrightarrow> ws_goes E w (f w)"
  shows "la_holds E (mset (la_ids L)) (la_map_workspaces f L)"
  by (rule act_try[OF assms(1) map_is_try]) (use assms(2) in auto)

lemma act_until:
  assumes inv: "la_inv E L" and ex: "la_until f L = Some (L', b)"
    and f: "\<And>w w' b. w \<in> set (la_workspaces L) \<Longrightarrow> f w = Some (w', b) \<Longrightarrow> ws_goes E w w'"
  shows "la_holds E (mset (la_ids L)) L'"
proof (cases "la_set L")
  case (Outputs ms p a)
  define g where "g = (\<lambda>m::monitor. do { (wss, j) \<leftarrow> try_until f (mn_workspaces m); Some (m\<lparr>mn_workspaces := wss\<rparr>, j \<noteq> None) })"
  obtain ms' k where m: "try_until g ms = Some (ms', k)" "L' = la_put (Outputs ms' p a) L"
    using ex Outputs by (auto simp: la_until_def g_def bind_eq_Some_conv)
  have "mn_goes E m m'" if m': "m \<in> set ms" "g m = Some (m', c)" for m m' c
  proof -
    obtain wss j where wss: "try_until f (mn_workspaces m) = Some (wss, j)" "m' = m\<lparr>mn_workspaces := wss\<rparr>"
      using m'(2) by (auto simp: g_def bind_eq_Some_conv)
    note mi = outputsD(6)[OF inv Outputs m'(1)]
    have "list_all2 (ws_goes E) (mn_workspaces m) wss"
      by (rule until_goes[OF wss(1), THEN conjunct1]) (use in_workspaces[OF Outputs m'(1)] f inv_workspaces[OF mi] ws_goes_refl in auto)
    from goes_workspaces[OF mi this] show ?thesis by (simp add: wss(2))
  qed
  then have "list_all2 (mn_goes E) ms ms'"
    using until_goes[OF m(1), of "mn_goes E"] outputsD(6)[OF inv Outputs] goes_refl by blast
  from act_monitors[OF inv Outputs this outputsD(2)[OF inv Outputs]] m(2) show ?thesis by simp
next
  case (NoOutputs wss)
  with ex obtain wss' j where w: "try_until f wss = Some (wss', j)" "L' = la_put (NoOutputs wss') L"
    by (auto simp: la_until_def bind_eq_Some_conv)
  have "list_all2 (ws_goes E) wss wss'"
    by (rule until_goes[OF w(1), THEN conjunct1])
      (use f waitsD(2)[OF inv NoOutputs] ws_goes_refl in \<open>auto simp: la_workspaces_def NoOutputs\<close>)
  from act_waiting[OF inv NoOutputs this] w(2) show ?thesis by simp
qed

section \<open>Commands on a workspace\<close>

lemma act_active:
  assumes inv: "la_inv E L" and op: "ws_keeps op" and ac: "la_acyclic L" and keep: "configure_keeps E"
  shows "la_on_active E op L = Some L' \<Longrightarrow> la_holds E (mset (la_ids L)) L'"
    and "la_on_drawn E op L = Some L' \<Longrightarrow> la_holds E (mset (la_ids L)) L'"
    and "la_on_holder E i op L = Some L' \<Longrightarrow> la_holds E (mset (la_ids L)) L'"
    and "la_on_window E window op L = Some L' \<Longrightarrow> la_holds E (mset (la_ids L)) L'"
proof -
  have g: "ws_goes E w w'" if "w \<in> set (la_workspaces L)" "ws_exec E op w = Some w'" for w w'
    by (rule exec_goes[OF inv_parts[OF inv that(1)] op acyclic_parts(1)[OF ac that(1)] keep that(2)])
  have at: "mn_goes E m m'" if "la_set L = Outputs ms p a" "m \<in> set ms" "mn_at k (ws_exec E op) m = Some m'" for ms p a m m' k
    by (rule goes_at[OF outputsD(6)[OF inv that(1,2)] that(3) g]) (use in_workspaces[OF that(1,2)] in auto)
  show a: "la_on_active E op L = Some L' \<Longrightarrow> la_holds E (mset (la_ids L)) L'"
    unfolding la_on_active_def by (rule act_active_monitor[OF inv]) (use at in blast)+
  show "la_on_drawn E op L = Some L' \<Longrightarrow> la_holds E (mset (la_ids L)) L'"
    unfolding la_on_drawn_def
    by (rule act_active_monitor[OF inv]) (use at goes_refl outputsD(6)[OF inv] in \<open>auto split: if_splits\<close>)
  show "la_on_holder E i op L = Some L' \<Longrightarrow> la_holds E (mset (la_ids L)) L'"
    using act_first[OF inv _ g] la_refl[OF inv] by (auto simp: la_on_holder_def split: if_splits)
  show "la_on_window E window op L = Some L' \<Longrightarrow> la_holds E (mset (la_ids L)) L'"
    using act_first[OF inv _ g] a la_refl[OF inv] by (auto simp: la_on_window_def split: if_splits option.splits)
qed

end
