(* ===== verification/LayoutKeeps.thy ===== *)
theory LayoutKeeps
  imports LayoutSteps
begin

text \<open>
  The commands of the layout that leave every window on it: those of the active monitor, focus, names, the overview,
  gestures, commits, animations and refreshing.
\<close>

section \<open>The active monitor\<close>

text \<open>Commands of a monitor that keep its workspaces and what it has from the layout.\<close>

fun mn_keeps :: "mn_op \<Rightarrow> bool" where
  "mn_keeps (MSwitching (MActivate _)) = False"
| "mn_keeps (MSwitching (MOverview _)) = False"
| "mn_keeps (MSwitching (MOverviewOpen _)) = False"
| "mn_keeps (MSwitching (MAdvance _)) = False"
| "mn_keeps (MSwitching _) = True"
| "mn_keeps (MMoving _) = True"
| "mn_keeps (MListing MMoveWorkspaceDown) = True"
| "mn_keeps (MListing MMoveWorkspaceUp) = True"
| "mn_keeps (MListing (MMoveWorkspaceTo _ _)) = True"
| "mn_keeps (MListing (MUnname _)) = True"
| "mn_keeps _ = False"

lemma switching_framed: "mn_keeps (MSwitching op) \<Longrightarrow> mn_exec_switch E op m = Some m' \<Longrightarrow> mn_framed m m'"
  by (cases op) (auto intro: framed)

lemma mn_keeps_goes:
  assumes inv: "mn_inv E m" and room: "\<not> mp_above_first (mn_options m)" and op: "mn_keeps op"
    and ac: "mn_acyclic m" and keep: "configure_keeps E" and ex: "mn_exec E op m = Some m'"
  shows "mn_goes E m m'"
proof -
  have "mn_framed m m'"
  proof (cases op)
    case (MSwitching sop)
    with ex op show ?thesis using switching_framed by simp
  next
    case (MMoving mop)
    with ex show ?thesis using framed_exec_move by simp
  next
    case (MListing lop)
    with ex op show ?thesis using framed_lists[OF inv room] by (cases lop) auto
  qed (use op in auto)
  moreover have "mn_windows_after op m = mset (mn_ids m)" "mn_allowed E op m"
    using op room ac unfolding mn_allowed_def by (induction op rule: mn_keeps.induct) auto
  ultimately show ?thesis using mn_step[OF inv _ keep ex] by (simp add: mn_goes_def)
qed

lemma act_monitor_op:
  assumes inv: "la_inv E L" and op: "mn_keeps op" and ac: "la_acyclic L" and keep: "configure_keeps E"
    and ex: "la_on_active_monitor (mn_exec E op) L = Some L'"
  shows "la_holds E (mset (la_ids L)) L'"
  by (rule act_active_monitor[OF inv ex])
    (use mn_keeps_goes[OF _ _ op _ keep] outputsD(6,7)[OF inv] acyclic_parts(2)[OF ac] in blast)

lemma act_move_to_workspace:
  assumes inv: "la_inv E L" and ac: "la_acyclic L" and keep: "configure_keeps E"
    and ex: "la_move_to_workspace E window idx activate L = Some L'"
  shows "la_holds E (mset (la_ids L)) L'"
proof -
  let ?op = "MMoving (MMoveTo window idx activate)"
  have on: "la_on_active_monitor (mn_exec E ?op) L = Some L' \<Longrightarrow> ?thesis" by (rule act_monitor_op[OF inv _ ac keep]) simp_all
  have e: "mn_exec E (MMoving (MMoveTo None idx activate)) = mn_move_to_workspace E None idx activate" by (rule ext) simp
  show ?thesis
  proof (cases "\<exists>i ms p a k. window = Some i \<and> la_set L = Outputs ms p a \<and> position (mn_has_window i) ms = Some k \<and> \<not> la_move_blocks window L")
    case True
    then obtain i ms p a k where c: "window = Some i" "la_set L = Outputs ms p a" "position (mn_has_window i) ms = Some k"
        "\<not> la_move_blocks window L" by blast
    then have k: "k < length ms" by (simp add: position_Some)
    from ex c obtain m where m: "mn_exec E ?op (ms ! k) = Some m" "L' = la_put (Outputs (ms[k := m]) p a) L"
      by (auto simp: la_move_to_workspace_def bind_eq_Some_conv)
    note o = outputsD[OF inv c(2)]
    have "mn_goes E (ms ! k) m"
      by (rule mn_keeps_goes[OF o(6,7)[OF nth_mem[OF k]] _ acyclic_parts(2)[OF ac c(2) nth_mem[OF k]] keep m(1)]) simp
    from act_one[OF inv c(2) k o(2) this] m(2) show ?thesis by simp
  next
    case False
    then have "L' = L \<or> window = None \<and> la_on_active_monitor (mn_move_to_workspace E None idx activate) L = Some L'"
      using ex by (auto simp: la_move_to_workspace_def bind_eq_Some_conv split: if_splits option.splits monitor_set.splits)
    with on la_refl[OF inv] e show ?thesis by metis
  qed
qed

lemma act_move_workspace_to_idx:
  assumes inv: "la_inv E L" and ex: "la_move_workspace_to_idx r new_idx L = Some L'"
  shows "la_holds E (mset (la_ids L)) L'"
proof -
  have g: "mn_goes E m m'" if "la_set L = Outputs ms p a" "m \<in> set ms" "mn_move_workspace_to_idx k new_idx m = Some m'" for ms p a m m' k
  proof -
    note o = outputsD(6,7)[OF inv that(1,2)]
    from move_to_idx_ok[OF o(1) that(3)] o(2) framed_lists(3)[OF o that(3)] show ?thesis by (simp add: mn_goes_def)
  qed
  have act: "la_holds E (mset (la_ids L)) L'" if "la_on_active_monitor (\<lambda>m. mn_move_workspace_to_idx (k m) new_idx m) L = Some L'" for k
    by (rule act_active_monitor[OF inv that]) (use g in blast)
  show ?thesis
  proof (cases "\<exists>out j. r = Some (Some out, j)")
    case False
    then consider "r = None" | j where "r = Some (None, j)" by (cases r) auto
    then show ?thesis using ex act by cases (auto simp: la_move_workspace_to_idx_def)
  next
    case True
    then obtain out j where r: "r = Some (Some out, j)" by blast
    show ?thesis
    proof (cases "\<exists>ms p a k. la_set L = Outputs ms p a \<and> ms_index out ms = Some k")
      case True
      then obtain ms p a k where c: "la_set L = Outputs ms p a" "ms_index out ms = Some k" by blast
      then have k: "k < length ms" by (simp add: ms_index_def position_Some)
      obtain m where "mn_move_workspace_to_idx j new_idx (ms ! k) = Some m" "L' = la_put (Outputs (ms[k := m]) p a) L"
        using ex c by (auto simp: la_move_workspace_to_idx_def r)
      with act_one[OF inv c(1) k outputsD(2)[OF inv c(1)] g[OF c(1) nth_mem[OF k]]] show ?thesis by simp
    next
      case False
      then have "L' = L" using ex by (simp add: la_move_workspace_to_idx_def r split: monitor_set.splits option.splits)
      with la_refl[OF inv] show ?thesis by simp
    qed
  qed
qed

section \<open>Focus\<close>

lemma act_focus_output: "la_inv E L \<Longrightarrow> la_holds E (mset (la_ids L)) (la_focus_output out L)"
  by (auto simp: la_focus_output_def ms_index_def la_refl act_focus split: monitor_set.split option.split dest!: position_Some)

lemma act_or:
  assumes inv: "la_inv E L" and ex: "la_or f g L = Some (L', b)"
    and f: "\<And>w w' b. w \<in> set (la_workspaces L) \<Longrightarrow> f w = Some (w', b) \<Longrightarrow> ws_goes E w w'"
    and unchanged: "\<And>w w'. f w = Some (w', False) \<Longrightarrow> w' = w"
    and g: "\<And>L'. g L = Some L' \<Longrightarrow> la_holds E (mset (la_ids L)) L'"
  shows "la_holds E (mset (la_ids L)) L'"
proof (cases "la_set L")
  case (NoOutputs wss)
  with ex g show ?thesis by (auto simp: la_or_def)
next
  case (Outputs ms p a)
  let ?j = "mn_active_workspace_idx (ms ! a)"
  obtain w ok L1 where w: "a < length ms" "?j < length (mn_workspaces (ms ! a))" "f (mn_workspaces (ms ! a) ! ?j) = Some (w, ok)"
      "(if ok then Some (L1, False) else map_option (\<lambda>L. (L, True)) (g L1)) = Some (L', b)"
      "L1 = la_put (Outputs (ms[a := (ms ! a)\<lparr>mn_workspaces := (mn_workspaces (ms ! a))[?j := w]\<rparr>]) p a) L"
    using ex Outputs by (auto simp: la_or_def bind_eq_Some_conv vec_simps mn_active_workspace_def Let_def)
  note mi = outputsD(6)[OF inv Outputs nth_mem[OF w(1)]]
  show ?thesis
  proof (cases ok)
    case True
    have "ws_goes E (mn_workspaces (ms ! a) ! ?j) w"
      by (rule f[OF in_workspaces[OF Outputs nth_mem[OF w(1)] nth_mem[OF w(2)]] w(3)])
    from act_one[OF inv Outputs w(1,1) goes_put[OF mi w(2) this]] True w(4) show ?thesis by (simp add: w(5))
  next
    case False
    with w(3) have "w = mn_workspaces (ms ! a) ! ?j" by (intro unchanged) simp
    then have "L1 = L" using Outputs by (simp add: w(5) la_put_def)
    with False w(4) g show ?thesis by auto
  qed
qed

lemma act_activate:
  assumes inv: "la_inv E L" and ex: "la_activate_by E f L = Some L'"
    and f: "\<And>w w' b. w \<in> set (la_workspaces L) \<Longrightarrow> f w = Some (w', b) \<Longrightarrow> ws_goes E w w'"
  shows "la_holds E (mset (la_ids L)) L'"
proof (cases "la_set L")
  case (NoOutputs wss)
  with ex la_refl[OF inv] show ?thesis by (simp add: la_activate_by_def)
next
  case (Outputs ms p a)
  define g where "g = (\<lambda>m::monitor. do {
         (wss, j) \<leftarrow> try_until f (mn_workspaces m);
         let m = m\<lparr>mn_workspaces := wss\<rparr>;
         case j of None \<Rightarrow> Some (m, False) | Some j \<Rightarrow> map_option (\<lambda>m. (m, True)) (mn_show_activated E j m) })"
  obtain ms' k where m: "try_until g ms = Some (ms', k)" "L' = la_put (Outputs ms' p (case k of Some k \<Rightarrow> k | None \<Rightarrow> a)) L"
    using ex Outputs by (auto simp: la_activate_by_def g_def bind_eq_Some_conv)
  have g: "mn_goes E m m'" if m': "m \<in> set ms" "g m = Some (m', b)" for m m' b
  proof -
    note mi = outputsD(6)[OF inv Outputs m'(1)]
    obtain wss j where wss: "try_until f (mn_workspaces m) = Some (wss, j)"
        "(case j of None \<Rightarrow> Some (m\<lparr>mn_workspaces := wss\<rparr>, False)
          | Some j \<Rightarrow> map_option (\<lambda>m. (m, True)) (mn_show_activated E j (m\<lparr>mn_workspaces := wss\<rparr>))) = Some (m', b)"
      using m'(2) by (auto simp: g_def bind_eq_Some_conv Let_def)
    have "list_all2 (ws_goes E) (mn_workspaces m) wss"
      by (rule until_goes[OF wss(1), THEN conjunct1])
        (use in_workspaces[OF Outputs m'(1)] f inv_workspaces[OF mi] ws_goes_refl in auto)
    note m1 = goes_workspaces[OF mi this]
    have "mn_goes E (m\<lparr>mn_workspaces := wss\<rparr>) m'"
    proof (cases "m' = m\<lparr>mn_workspaces := wss\<rparr>")
      case False
      with wss(2) obtain j where "mn_switch_workspace E j (m\<lparr>mn_workspaces := wss\<rparr>) = Some m'"
        by (auto simp: mn_show_activated_def split: option.splits workspace_switch.splits if_splits)
      with framed_switches(1) switch_kept(1)[OF goes_inv[OF m1]] show ?thesis by (intro kept_goes) blast+
    qed (simp add: goes_refl[OF goes_inv[OF m1]])
    from goes_trans[OF m1 this] show ?thesis .
  qed
  have u: "list_all2 (mn_goes E) ms ms'" "\<And>i. k = Some i \<Longrightarrow> i < length ms"
    using until_goes[OF m(1), of "mn_goes E"] g outputsD(6)[OF inv Outputs] goes_refl by blast+
  have "(case k of Some k \<Rightarrow> k | None \<Rightarrow> a) < length ms" using u(2) outputsD(2)[OF inv Outputs] by (simp split: option.split)
  from act_monitors[OF inv Outputs u(1) this] m(2) show ?thesis by simp
qed

section \<open>The dragged window\<close>

lemma act_dragged:
  assumes inv: "la_inv E L" and v: "la_moving L = Some v" "tile_id (mv_tile v') = tile_id (mv_tile v)"
  shows "la_holds E (mset (la_ids L)) (L\<lparr>la_move := Some (Moving v')\<rparr>)"
proof -
  have "la_ids (L\<lparr>la_move := Some (Moving v')\<rparr>) = la_ids L" using v by (simp add: la_ids_def)
  then show ?thesis using la_invD[OF inv] by (simp add: la_holds_def la_inv_def move_ok_def)
qed

section \<open>Changes of one window\<close>

lemma quiet_goes: "ws_quiet E w w' \<Longrightarrow> ws_rest w' = ws_rest w \<Longrightarrow> ws_goes E w w'"
  by (simp add: same_goes quiet_same)

lemma update_tile_goes:
  assumes "ws_inv E w" "\<And>t t'. f t = Some t' \<Longrightarrow> keeps E t t'" "ws_update_tile i f w = Some w'"
  shows "ws_goes E w w'"
  by (rule quiet_goes[OF update_tile_quiet[OF assms]])
    (use assms(3) in \<open>auto simp: ws_update_tile_def bind_eq_Some_conv dest: rest_try split: option.splits\<close>)

lemma map_window_goes:
  assumes inv: "ws_inv E w" and f: "\<And>x. wkey (f x) = wkey x"
  shows "ws_goes E w (ws_map_window i f w)"
proof -
  let ?s = "with_columns (map (\<lambda>c. c\<lparr>co_tile := tile_map_window i f (co_tile c)\<rparr>)) (ws_scrolling w)"
  let ?t = "(ws_floating w)\<lparr>fs_tiles := map (tile_map_window i f) (fs_tiles (ws_floating w))\<rparr>"
  have k: "keeps E t (tile_map_window i f t)" for t by (simp add: tile_map_window_def keeps_window f)
  have id: "tile_id (tile_map_window i f t) = tile_id t" for t using k[of t] by (simp add: keeps_def tkey_def)
  have sk: "skeleton ?s = skeleton (ws_scrolling w)"
    by (rule skeleton_with_columns) (simp add: column_key_tile id)
  have q1: "ws_quiet E w (w\<lparr>ws_scrolling := ?s\<rparr>)"
    using quiet_ss[OF inv _ _ skeleton_config[OF sk]] skeleton_inv[OF sk, of E] skeleton_ids[OF sk] ws_invD(1)[OF inv] by metis
  have "in_place E (ws_floating w) ?t" by (rule keeps_map_in_place[OF ws_invD(2)[OF inv] k])
  then have "ws_quiet E (w\<lparr>ws_scrolling := ?s\<rparr>) (w\<lparr>ws_scrolling := ?s, ws_floating := ?t\<rparr>)"
    using quiet_fs[OF quiet_inv[OF q1], of ?t] by (simp add: in_place_def fs_config_def)
  from quiet_goes[OF quiet_trans[OF q1 this]] show ?thesis by (simp add: ws_map_window_def on_ss_def on_fs_def)
qed

lemma act_map_window:
  assumes inv: "la_inv E L" and f: "\<And>x. wkey (f x) = wkey x"
  shows "la_holds E (mset (la_ids L)) (la_map_window i f L)"
proof -
  define L1 where "L1 = (case la_moving L of
    Some v \<Rightarrow> L\<lparr>la_move := Some (Moving (v\<lparr>mv_tile := tile_map_window i f (mv_tile v)\<rparr>))\<rparr> | None \<Rightarrow> L)"
  have "tile_id (tile_map_window i f t) = tile_id t" for t using f[of "tl_window t"] by (simp add: tile_map_window_def wkey_def)
  then have "la_holds E (mset (la_ids L)) L1"
    using la_refl[OF inv] act_dragged[OF inv] by (auto simp: L1_def split: option.split)
  from la_trans[OF this act_map[OF la_holdsD(1)[OF this] map_window_goes[OF inv_parts[OF la_holdsD(1)[OF this]] f]]]
  show ?thesis by (simp add: la_map_window_def L1_def Let_def)
qed

lemma request_windowed_wkey: "wkey (win_request_windowed_fullscreen b x) = wkey x"
  by (simp add: wkey_def win_size_def win_request_windowed_fullscreen_def with_pending_state_def Let_def)

lemma act_fullscreen:
  assumes inv: "la_inv E L" and ac: "la_acyclic L" and keep: "configure_keeps E"
  shows "la_set_fullscreen E i b L = Some L' \<Longrightarrow> la_holds E (mset (la_ids L)) L'"
    and "la_toggle_windowed_fullscreen E i L = Some L' \<Longrightarrow> la_holds E (mset (la_ids L)) L'"
proof -
  note h = act_active(3)[OF inv _ ac keep, of "WChange (WSetFullscreen i c)" i for c]
  show "la_set_fullscreen E i b L = Some L' \<Longrightarrow> la_holds E (mset (la_ids L)) L'"
    using h la_refl[OF inv] act_map_window[OF inv request_windowed_wkey]
    by (auto simp: la_set_fullscreen_def la_unless_moving_def split: if_splits)
  assume "la_toggle_windowed_fullscreen E i L = Some L'"
  then obtain L1 where L1: "L1 = L \<or> la_on_holder E i (WChange (WSetFullscreen i False)) L = Some L1"
      "L' = la_map_window i (\<lambda>x. win_request_windowed_fullscreen (\<not> mw_is_pending_windowed_fullscreen x) x) L1"
    by (auto simp: la_toggle_windowed_fullscreen_def bind_eq_Some_conv split: if_splits)
  have "la_holds E (mset (la_ids L)) L1" using L1(1) h la_refl[OF inv] by auto
  from la_trans[OF this act_map_window[OF la_holdsD(1)[OF this] request_windowed_wkey]] show "la_holds E (mset (la_ids L)) L'"
    unfolding L1(2) .
qed

text \<open>Commits, opening, resizing, and the children of a window.\<close>

lemma descendants_goes:
  assumes inv: "ws_inv E w" and ac: "ws_acyclic w" and ex: "ws_descendants_added i w = Some (w', b)"
  shows "ws_goes E w w'"
proof (cases "fs_idx_of i (ws_floating w)")
  case None
  with ex ws_goes_refl[OF inv] show ?thesis
    by (auto simp: ws_descendants_added_def ask_fs_def fs_descendants_added_def)
next
  case (Some k)
  note fi = ws_invD(2)[OF inv]
  obtain s where s: "fs_descendants_added i (ws_floating w) = Some (s, b)" "w' = w\<lparr>ws_floating := s\<rparr>"
    using ex by (auto simp: ws_descendants_added_def ask_fs_def)
  have st: "stacked tile_child (fs_tiles (ws_floating w))" using fi by (simp add: fs_inv_def)
  have kl: "k < length (fs_tiles (ws_floating w))" using idx_of_Some[OF Some] by blast
  have "stacked tile_child (take k (fs_tiles (ws_floating w)) @ drop (Suc k) (fs_tiles (ws_floating w)))"
    by (rule stacked_remove[OF st])
  moreover have "\<forall>j<k. \<not> tile_child (fs_tiles (ws_floating w) ! k) (fs_tiles (ws_floating w) ! j)"
    using st kl by (auto simp: stacked_def sorted_wrt_iff_nth_less)
  ultimately obtain s' where s': "fs_descendants_added i (ws_floating w) = Some (s', True)" "fs_inv E s'"
      "mset (fs_tiles s') = mset (fs_tiles (ws_floating w))"
    using descendants_added_inv[OF fs_inv_core[OF fi] Some _ _ ws_acyclicD[OF ac]] by blast
  from s'(1) s(1) have "s' = s" by simp
  with s'(2) mset_tiles_ids[OF s'(3)] have f: "fs_inv E s" "mset (fs_ids s) = mset (fs_ids (ws_floating w))" by simp_all
  have "fs_config s = fs_config (ws_floating w)"
    using s(1) Some by (auto simp: fs_descendants_added_def bind_eq_Some_conv dest: fs_config_bring_up)
  from quiet_goes[OF quiet_fs[OF inv f this]] show ?thesis by (simp add: s(2))
qed

lemma act_window:
  assumes inv: "la_inv E L" and ac: "la_acyclic L" and keep: "configure_keeps E"
  shows "la_update_window E i c L = Some L' \<Longrightarrow> la_holds E (mset (la_ids L)) L'"
    and "la_start_open_animation E i L = Some L' \<Longrightarrow> la_holds E (mset (la_ids L)) L'"
    and "la_descendants_added i L = Some (L', b) \<Longrightarrow> la_holds E (mset (la_ids L)) L'"
proof -
  show "la_update_window E i c L = Some L' \<Longrightarrow> la_holds E (mset (la_ids L)) L'"
  proof -
    assume ex: "la_update_window E i c L = Some L'"
    show ?thesis
    proof (cases "\<exists>v. la_moving L = Some v \<and> tile_id (mv_tile v) = i")
      case False
      then have "la_on_holder E i (WSize (WUpdateWindow i c)) L = Some L'"
        using ex by (auto simp: la_update_window_def split: option.splits)
      from act_active(3)[OF inv _ ac keep this] show ?thesis by simp
    next
      case True
      then obtain v where v: "la_moving L = Some v" "tile_id (mv_tile v) = i" by blast
      then obtain x t where t: "tile_update_window E ((mv_tile v)\<lparr>tl_window := x\<rparr>) = Some t" "mw_id x = i"
          "L' = L\<lparr>la_move := Some (Moving (v\<lparr>mv_tile := t\<rparr>))\<rparr>"
        using ex that[of "case c of Some c \<Rightarrow> win_on_commit E c (tl_window (mv_tile v)) | None \<Rightarrow> tl_window (mv_tile v)"]
        by (cases c) (auto simp: la_update_window_def bind_eq_Some_conv Let_def win_simps)
      have "tile_id t = tile_id (mv_tile v)" using tile_update_window_id[OF t(1)] t(2) v(2) by simp
      with act_dragged[OF inv v(1), of "v\<lparr>mv_tile := t\<rparr>"] show ?thesis by (simp add: t(3))
    qed
  qed
  have o: "ws_goes E w w'" if "w \<in> set (la_workspaces L)" "ws_start_open_animation E i w = Some (w', b)" for w w' b
    using exec_goes[OF inv_parts[OF inv that(1)] _ acyclic_parts(1)[OF ac that(1)] keep, of "WSize (WStartOpenAnimation i)" w'] that(2)
    by simp
  show "la_start_open_animation E i L = Some L' \<Longrightarrow> la_holds E (mset (la_ids L)) L'"
    using act_until[OF inv _ o] la_refl[OF inv] by (auto simp: la_start_open_animation_def la_unless_moving_def split: if_splits)
  show "la_descendants_added i L = Some (L', b) \<Longrightarrow> la_holds E (mset (la_ids L)) L'"
    unfolding la_descendants_added_def
    by (erule act_until[OF inv]) (use descendants_goes inv_parts[OF inv] acyclic_parts(1)[OF ac] in blast)
qed

lemma alpha_id: "animate_alpha E fr to c t = Some t' \<Longrightarrow> tile_id t' = tile_id t"
  by (auto simp: animate_alpha_def Let_def bind_eq_Some_conv)

lemma act_floating:
  assumes inv: "la_inv E L" and ac: "la_acyclic L" and keep: "configure_keeps E"
  shows "la_toggle_window_floating E window L = Some L' \<Longrightarrow> la_holds E (mset (la_ids L)) L'"
    and "la_set_window_floating E window b L = Some L' \<Longrightarrow> la_holds E (mset (la_ids L)) L'"
proof -
  have m: "tile_id (mv_tile v') = tile_id (mv_tile v)" if "mv_toggle_floating E L v = Some v'" for v v'
    using that by (auto simp: mv_toggle_floating_def la_animate_alpha_def Let_def bind_eq_Some_conv win_simps
        hold_alpha_animation_after_done_def split: if_splits option.splits dest!: alpha_id)
  show t: "la_toggle_window_floating E window L = Some L' \<Longrightarrow> la_holds E (mset (la_ids L)) L'"
    using act_active(4)[OF inv _ ac keep, of "WChange (WToggleWindowFloating window)"] act_dragged[OF inv] m
    by (auto simp: la_toggle_window_floating_def la_toggle_moving_floating_def bind_eq_Some_conv split: if_splits)
  show "la_set_window_floating E window b L = Some L' \<Longrightarrow> la_holds E (mset (la_ids L)) L'"
    using act_active(4)[OF inv _ ac keep, of "WChange (WSetWindowFloating window b)"] t la_refl[OF inv]
    by (auto simp: la_set_window_floating_def split: if_splits)
qed

section \<open>Names\<close>

lemma unname_goes: "ws_inv E w \<Longrightarrow> ws_goes E w (ws_unname w)"
  using same_goes[OF settled_same[OF config_settled[of E w WUnname "ws_unname w"]]] by (simp add: ws_unname_def)

lemma act_drop:
  assumes inv: "la_inv E L" and L: "la_set L = NoOutputs wss" and k: "k < length wss" "ws_ids (wss ! k) = []"
  shows "la_holds E (mset (la_ids L)) (la_put (NoOutputs (take k wss @ drop (Suc k) wss)) L)"
proof -
  let ?wss = "take k wss @ drop (Suc k) wss" and ?L = "la_put (NoOutputs (take k wss @ drop (Suc k) wss)) L"
  have m: "mset wss = add_mset (wss ! k) (mset ?wss)" using mset_remove_nth[OF k(1)] by simp
  then have "mset (concat (map ws_ids ?wss)) = mset (concat (map ws_ids wss))"
    unfolding concat_mset using k(2) by simp
  then have ids: "mset (la_ids ?L) = mset (la_ids L)" by (simp add: la_ids_set(2)[OF L])
  have "mset (map ws_id wss) = add_mset (ws_id (wss ! k)) (mset (map ws_id ?wss))" unfolding mset_map m by simp
  then have "fresh_ids (la_next_id L) (map ws_id ?wss)"
    using fresh_ids_sub[OF la_invD(2)[OF inv, unfolded la_workspaces_def L monitor_set.case]] by simp
  moreover have "set ?wss \<subseteq> set wss" by (auto dest: in_set_takeD in_set_dropD)
  ultimately have "la_inv E ?L"
    using waitsD(1)[OF inv L] la_invD(3)[OF inv] mset_eq_imp_distinct_iff[OF ids] move_ok_ids[OF la_invD(4)[OF inv] _ ids]
    by (auto simp: la_inv_def set_ok_def)
  with ids show ?thesis by (simp add: la_holds_def)
qed

lemma no_windows_ids: "ws_has_windows w \<longleftrightarrow> ws_ids w \<noteq> []"
  by (simp add: ws_has_windows_def ws_windows_def ws_tiles_ids[symmetric])

lemma act_unname:
  assumes inv: "la_inv E L" and ex: "la_unname_workspace_by_id i L = Some L'"
  shows "la_holds E (mset (la_ids L)) L'"
proof (cases "la_set L")
  case (Outputs ms p a)
  then obtain ms' k where m: "try_until (mn_unname_workspace i) ms = Some (ms', k)" "L' = la_put (Outputs ms' p a) L"
    using ex by (auto simp: la_unname_workspace_by_id_def)
  have "mn_goes E m m'" if "m \<in> set ms" "mn_unname_workspace i m = Some (m', b)" for m m' b
    using unname_kept[OF _ that(2)] framed_lists(4)[OF _ _ that(2)] outputsD(6,7)[OF inv Outputs that(1)] by (intro kept_goes)
  then have "list_all2 (mn_goes E) ms ms'"
    using until_goes[OF m(1), of "mn_goes E"] outputsD(6)[OF inv Outputs] goes_refl by blast
  from act_monitors[OF inv Outputs this outputsD(2)[OF inv Outputs]] m(2) show ?thesis by simp
next
  case (NoOutputs wss)
  show ?thesis
  proof (cases "position (\<lambda>w. ws_id w = i) wss")
    case None
    with ex NoOutputs la_refl[OF inv] show ?thesis by (simp add: la_unname_workspace_by_id_def)
  next
    case (Some k)
    then have k: "k < length wss" by (simp add: position_Some)
    show ?thesis
    proof (cases "ws_has_windows (ws_unname (wss ! k))")
      case True
      with ex Some NoOutputs have "L' = la_put (NoOutputs (wss[k := ws_unname (wss ! k)])) L"
        by (simp add: la_unname_workspace_by_id_def)
      with act_waiting[OF inv NoOutputs list_all2_at[where R = "ws_goes E", OF k unname_goes]] waitsD(2)[OF inv NoOutputs] k
      show ?thesis by (simp add: ws_goes_refl)
    next
      case False
      then have "ws_ids (wss ! k) = []" unfolding no_windows_ids by (simp add: ws_unname_def ws_ids_def)
      moreover have "L' = la_put (NoOutputs (take k wss @ drop (Suc k) wss)) L"
        using ex Some NoOutputs False by (simp add: la_unname_workspace_by_id_def)
      ultimately show ?thesis using act_drop[OF inv NoOutputs k] by simp
    qed
  qed
qed

lemma act_names:
  assumes inv: "la_inv E L"
  shows "la_unname_workspace_by_ref r L = Some L' \<Longrightarrow> la_holds E (mset (la_ids L)) L'"
    and "la_unset_workspace_name r' L = Some L' \<Longrightarrow> la_holds E (mset (la_ids L)) L'"
    and "la_set_workspace_name n r' L = Some L' \<Longrightarrow> la_holds E (mset (la_ids L)) L'"
proof -
  show "la_unname_workspace_by_ref r L = Some L' \<Longrightarrow> la_holds E (mset (la_ids L)) L'"
    "la_unset_workspace_name r' L = Some L' \<Longrightarrow> la_holds E (mset (la_ids L)) L'"
    using act_unname[OF inv] la_refl[OF inv]
    by (auto simp: la_unname_workspace_by_ref_def la_unset_workspace_name_def bind_eq_Some_conv split: option.splits)
  assume ex: "la_set_workspace_name n r' L = Some L'"
  have named: "ws_goes E w (w\<lparr>ws_name := Some n\<rparr>)" if "ws_inv E w" for w
    using quiet_goes[of E w "w\<lparr>ws_name := Some n\<rparr>"] settled_upd same_goes[OF settled_same] that
    by (simp add: ws_goes_def ws_inv_def fa_ok_def ws_config_ok_def ws_ids_def)
  consider "L' = L" | i L1 where "la_on_first (\<lambda>v. ws_id v = i) (\<lambda>v. Some (v\<lparr>ws_name := Some n\<rparr>)) L = Some L1"
      "la_on_active_monitor Some L1 = Some L'"
    using ex unfolding la_set_workspace_name_def mn_add_workspace_top_def mn_add_workspace_bottom_def Let_def if_cancel
    by (auto simp: bind_eq_Some_conv split: if_splits option.splits)
  then show "la_holds E (mset (la_ids L)) L'"
  proof cases
    case (2 i L1)
    have 1: "la_holds E (mset (la_ids L)) L1"
      by (rule act_first[OF inv 2(1)]) (use named inv_parts[OF inv] in auto)
    note i1 = la_holdsD(1)[OF 1]
    have "la_holds E (mset (la_ids L1)) L'"
      by (rule act_active_monitor[OF i1 2(2)]) (use outputsD(6)[OF i1] goes_refl in auto)
    from la_trans[OF 1 this] show ?thesis .
  qed (simp add: la_refl[OF inv])
qed

end
