(* ===== verification/LayoutSettings.thy ===== *)
theory LayoutSettings
  imports LayoutKeeps
begin

text \<open>
  The overview, the configuration, the outputs' readings, the gestures and what the layout does on every frame and on
  every refresh: every monitor follows the layout.
\<close>

section \<open>Every monitor follows\<close>

definition mn_refits :: "env \<Rightarrow> layout \<Rightarrow> monitor \<Rightarrow> monitor \<Rightarrow> bool" where
  "mn_refits E L m m' \<longleftrightarrow> mn_fits E (la_options L) (la_overview_open L) (la_seen L) m' \<and> mset (mn_ids m') = mset (mn_ids m) \<and>
     ou_id (mn_output m') = ou_id (mn_output m) \<and> mn_wids m' = mn_wids m"

lemma refits_lists:
  assumes "list_all2 (mn_refits E L) ms ms'"
  shows "mset (concat (map mn_ids ms')) = mset (concat (map mn_ids ms))"
    "mset (concat (map (map ws_id \<circ> mn_workspaces) ms')) = mset (concat (map (map ws_id \<circ> mn_workspaces) ms))"
    "map (ou_id \<circ> mn_output) ms' = map (ou_id \<circ> mn_output) ms"
    "\<forall>m\<in>set ms'. mn_fits E (la_options L) (la_overview_open L) (la_seen L) m"
  using assms by (induction rule: list_all2_induct) (auto simp: mn_refits_def mn_wids_def)

lemma move_ok_same: "move_ok L \<Longrightarrow> la_move L' = la_move L \<Longrightarrow> set (la_ids L') = set (la_ids L) \<Longrightarrow> move_ok L'"
  by (auto simp: move_ok_def split: option.splits interactive_move.splits)

text \<open>The layout changes to \<open>L1\<close> in what it gives to its monitors.\<close>

lemma act_refit:
  assumes inv: "la_inv E L" and L: "la_set L = Outputs ms p a" and ms: "list_all2 (mn_refits E L1) ms ms'"
    and L1: "la_set L1 = Outputs ms' p a" "la_move L1 = la_move L" "la_next_id L1 = la_next_id L"
  shows "la_holds E (mset (la_ids L)) L1"
proof -
  note o = outputsD[OF inv L] and g = refits_lists[OF ms]
  have mv: "la_moving L1 = la_moving L" using L1(2) by (simp add: la_moving_def)
  have ids: "mset (la_ids L1) = mset (la_ids L)" by (simp add: la_ids_set(1)[OF L] la_ids_set(1)[OF L1(1)] mv g(1))
  have "fresh_ids (la_next_id L1) (map ws_id (la_workspaces L1))"
    using fresh_ids_mset[OF la_invD(2)[OF inv], of "map ws_id (la_workspaces L1)"] g(2)
    by (simp add: la_workspaces_def L L1(1,3) map_concat comp_def)
  moreover have "distinct (la_ids L1)" using la_invD(3)[OF inv] mset_eq_imp_distinct_iff[OF ids] by simp
  moreover have "move_ok L1" by (rule move_ok_same[OF la_invD(4)[OF inv] L1(2) mset_eq_setD[OF ids]])
  moreover have "set_ok E L1" using o g list_all2_lengthD[OF ms] by (simp add: set_ok_def L1(1) ms_ok_def)
  ultimately show ?thesis using ids by (simp add: la_holds_def la_inv_def)
qed

lemma act_reset:
  assumes inv: "la_inv E L" and L: "la_set L = NoOutputs wss"
    and L1: "la_set L1 = NoOutputs wss'" "la_move L1 = la_move L" "la_next_id L1 = la_next_id L"
    and wss: "list_all2 (\<lambda>w w'. ws_waits E (mp_shared (la_options L1)) w' \<and> mset (ws_ids w') = mset (ws_ids w) \<and> ws_id w' = ws_id w) wss wss'"
  shows "la_holds E (mset (la_ids L)) L1"
proof -
  have g: "mset (concat (map ws_ids wss')) = mset (concat (map ws_ids wss))" "map ws_id wss' = map ws_id wss"
      "\<forall>w\<in>set wss'. ws_waits E (mp_shared (la_options L1)) w"
    using wss by (induction rule: list_all2_induct) auto
  have mv: "la_moving L1 = la_moving L" using L1(2) by (simp add: la_moving_def)
  have ids: "mset (la_ids L1) = mset (la_ids L)" by (simp add: la_ids_set(2)[OF L] la_ids_set(2)[OF L1(1)] mv g(1))
  have "fresh_ids (la_next_id L1) (map ws_id (la_workspaces L1))"
    using la_invD(2)[OF inv] g(2) by (simp add: la_workspaces_def L L1(1,3))
  moreover have "distinct (la_ids L1)" using la_invD(3)[OF inv] mset_eq_imp_distinct_iff[OF ids] by simp
  moreover have "move_ok L1" by (rule move_ok_same[OF la_invD(4)[OF inv] L1(2) mset_eq_setD[OF ids]])
  moreover have "set_ok E L1" using g(3) by (simp add: set_ok_def L1(1))
  ultimately show ?thesis using ids by (simp add: la_holds_def la_inv_def)
qed

lemma act_idle:
  assumes inv: "la_inv E L" and L: "la_set L = NoOutputs wss"
    and L1: "la_set L1 = NoOutputs wss" "la_move L1 = la_move L" "la_next_id L1 = la_next_id L" "la_options L1 = la_options L"
  shows "la_holds E (mset (la_ids L)) L1"
  by (rule act_reset[OF inv L L1(1-3)]) (use waitsD(1)[OF inv L] in \<open>simp add: L1(4) list_all2_same\<close>)

section \<open>The overview\<close>

lemma overview_fits:
  assumes m: "mn_fits E opts b q m" and ex: "mn_set_overview_progress E p m = Some m'"
  shows "mn_fits E opts b (map_option overview_from p) m' \<and> mset (mn_ids m') = mset (mn_ids m) \<and> mn_output m' = mn_output m \<and>
    mn_wids m' = mn_wids m"
proof -
  have k: "mn_kept E (mset (mn_ids m)) m m'" by (rule set_overview_ok[OF _ ex]) (use m in \<open>simp add: mn_fits_def\<close>)
  have "mn_base_options m' = mn_base_options m \<and> mn_overview_open m' = mn_overview_open m \<and>
      mn_overview_progress m' = map_option overview_from p"
    using ex by (auto simp: mn_set_overview_progress_def Let_def split: if_splits option.splits workspace_switch.splits)
  moreover have "mn_wids m' = mn_wids m" unfolding mn_wids_def using k by (simp add: mn_kept_def)
  ultimately show ?thesis using k m by (simp add: mn_fits_def mn_kept_def)
qed

lemma opened_fits: "mn_fits E opts b q m \<Longrightarrow> mn_fits E opts c q (m\<lparr>mn_overview_open := c\<rparr>)"
  using overview_open_kept[of E m c] by (simp add: mn_fits_def mn_kept_def)

lemma opened_same: "mn_ids (m\<lparr>mn_overview_open := c\<rparr>) = mn_ids m" "mn_wids (m\<lparr>mn_overview_open := c\<rparr>) = mn_wids m"
  by (simp_all add: mn_ids_def mn_wids_def)

lemma act_overview_state:
  assumes inv: "la_inv E L" and L1: "L1 = L\<lparr>la_overview_open := b, la_overview_progress := q\<rparr>"
    and ex: "la_set_monitors_overview_state E L1 = Some L'"
  shows "la_holds E (mset (la_ids L)) L'"
proof (cases "la_set L")
  case (NoOutputs wss)
  with ex have "L' = L1" by (simp add: la_set_monitors_overview_state_def la_all_monitors_def L1)
  with act_idle[OF inv NoOutputs, of L'] NoOutputs show ?thesis by (simp add: L1)
next
  case (Outputs ms p a)
  then obtain ms' where m: "try_map (\<lambda>m. mn_set_overview_progress E q (m\<lparr>mn_overview_open := b\<rparr>)) ms = Some ms'"
      "L' = la_put (Outputs ms' p a) L1"
    using ex by (auto simp: la_set_monitors_overview_state_def la_all_monitors_def L1)
  have "mn_refits E L' m m'" if "m \<in> set ms" "mn_set_overview_progress E q (m\<lparr>mn_overview_open := b\<rparr>) = Some m'" for m m'
    using overview_fits[OF opened_fits[OF outputsD(5)[OF inv Outputs that(1)]] that(2)]
    by (simp add: mn_refits_def opened_same m(2) L1 la_seen_def)
  from act_refit[OF inv Outputs try_map_goes[OF m(1) this]] show ?thesis by (simp add: m(2) L1)
qed

lemma act_overview:
  assumes inv: "la_inv E L"
  shows "la_toggle_overview E L = Some L' \<Longrightarrow> la_holds E (mset (la_ids L)) L'"
    and "la_open_overview E L = Some (L', b) \<Longrightarrow> la_holds E (mset (la_ids L)) L'"
    and "la_close_overview E L = Some (L', b) \<Longrightarrow> la_holds E (mset (la_ids L)) L'"
    and "la_overview_gesture_begin E L = Some L' \<Longrightarrow> la_holds E (mset (la_ids L)) L'"
    and "la_overview_gesture_end E now L = Some (L', b) \<Longrightarrow> la_holds E (mset (la_ids L)) L'"
proof -
  note o = act_overview_state[OF inv refl]
  show t: "la_toggle_overview E L = Some L' \<Longrightarrow> la_holds E (mset (la_ids L)) L'" for L'
    using o by (auto simp: la_toggle_overview_def bind_eq_Some_conv Let_def)
  show "la_open_overview E L = Some (L', b) \<Longrightarrow> la_holds E (mset (la_ids L)) L'"
    "la_close_overview E L = Some (L', b) \<Longrightarrow> la_holds E (mset (la_ids L)) L'"
    using t la_refl[OF inv] by (auto simp: la_open_overview_def la_close_overview_def split: if_splits)
  show "la_overview_gesture_begin E L = Some L' \<Longrightarrow> la_holds E (mset (la_ids L)) L'"
    using o by (auto simp: la_overview_gesture_begin_def Let_def)
  show "la_overview_gesture_end E now L = Some (L', b) \<Longrightarrow> la_holds E (mset (la_ids L)) L'"
    using o la_refl[OF inv] by (auto simp: la_overview_gesture_end_def bind_eq_Some_conv Let_def
        split: option.splits layout_overview.splits)
qed

lemma same_seen: "map_option overview_from q = la_seen L \<Longrightarrow> la_inv E (L\<lparr>la_overview_progress := q\<rparr>) = la_inv E L"
  by (simp add: la_inv_def set_ok_def ms_ok_def move_ok_def la_seen_def cong: monitor_set.case_cong option.case_cong
      interactive_move.case_cong)

lemma act_overview_update:
  assumes inv: "la_inv E L" and ex: "la_overview_gesture_update E dy t L = Some (L', r)"
  shows "la_holds E (mset (la_ids L)) L'"
proof (cases "\<exists>g. la_overview_progress L = Some (LayoutOverviewGesture g)")
  case False
  with ex la_refl[OF inv] show ?thesis by (auto simp: la_overview_gesture_update_def split: option.splits layout_overview.splits)
next
  case True
  then obtain g where g: "la_overview_progress L = Some (LayoutOverviewGesture g)" by blast
  define g1 where "g1 = g\<lparr>og_tracker := swipe_push dy t (og_tracker g)\<rparr>"
  consider "L' = L\<lparr>la_overview_progress := Some (LayoutOverviewGesture g1)\<rparr>"
    | x where "la_set_monitors_overview_state E (L\<lparr>la_overview_progress := Some (LayoutOverviewGesture (g1\<lparr>og_value := x\<rparr>))\<rparr>) = Some L'"
    using ex g by (auto simp: la_overview_gesture_update_def Let_def g1_def split: if_splits)
  then show ?thesis
  proof cases
    case 1
    have "map_option overview_from (Some (LayoutOverviewGesture g1)) = la_seen L" by (simp add: la_seen_def g g1_def)
    then have "la_inv E L'" using same_seen inv unfolding 1 by blast
    then show ?thesis unfolding 1 by (simp add: la_holds_def)
  next
    case (2 x)
    have "L\<lparr>la_overview_progress := q\<rparr> = L\<lparr>la_overview_open := la_overview_open L, la_overview_progress := q\<rparr>" for q by (cases L) simp
    from act_overview_state[OF inv this 2] show ?thesis .
  qed
qed

section \<open>Gestures\<close>

lemma gesture_goes:
  assumes m: "mn_inv E m"
  shows "mn_goes E m (mn_workspace_switch_gesture_begin E' tp m)" "mn_goes E m (mn_dnd_scroll_gesture_begin E' now m)"
    and "mn_workspace_switch_gesture_update E' dy t tp m = Some (m', r) \<Longrightarrow> mn_goes E m m'"
    and "mn_workspace_switch_gesture_end E' now etp m = Some (m', b) \<Longrightarrow> mn_goes E m m'"
    and "mn_dnd_scroll_gesture_end E' now m = Some m' \<Longrightarrow> mn_goes E m m'"
    and "mn_dnd_scroll_gesture_scroll E' now pos speed m = Some (m', b) \<Longrightarrow> mn_goes E m m'"
  by (blast intro: kept_goes gesture_begin_kept[OF m] gesture_update_kept[OF m] gesture_end_kept[OF m] framed_gestures framed_ends)+

lemma act_gestures:
  assumes inv: "la_inv E L"
  shows "la_workspace_switch_gesture_begin E now out tp L = Some L' \<Longrightarrow> la_holds E (mset (la_ids L)) L'"
    and "la_workspace_switch_gesture_update E dy t tp L = Some (L', r) \<Longrightarrow> la_holds E (mset (la_ids L)) L'"
    and "la_workspace_switch_gesture_end E now etp L = Some (L', q) \<Longrightarrow> la_holds E (mset (la_ids L)) L'"
proof -
  note o = outputsD[OF inv]
  show "la_workspace_switch_gesture_begin E now out tp L = Some L' \<Longrightarrow> la_holds E (mset (la_ids L)) L'"
    unfolding la_workspace_switch_gesture_begin_def
    by (cases "la_set L"; simp; erule act_all_monitors[OF inv]) (use o(6) gesture_goes in \<open>auto split: if_splits\<close>)
  show "la_workspace_switch_gesture_update E dy t tp L = Some (L', r) \<Longrightarrow> la_holds E (mset (la_ids L)) L'"
  proof (cases "la_set L")
    case (Outputs ms p a)
    assume "la_workspace_switch_gesture_update E dy t tp L = Some (L', r)"
    then obtain ms' k where m: "try_find (mn_workspace_switch_gesture_update E dy t tp) ms = Some (ms', k)"
        "L' = la_put (Outputs ms' p a) L"
      using Outputs by (auto simp: la_workspace_switch_gesture_update_def bind_eq_Some_conv)
    have "list_all2 (mn_goes E) ms ms'"
      by (rule find_goes[OF m(1)]) (use o(6)[OF Outputs] gesture_goes(3) goes_refl in auto)
    from act_monitors[OF inv Outputs this o(2)[OF Outputs]] m(2) show ?thesis by simp
  qed (use la_refl[OF inv] in \<open>auto simp: la_workspace_switch_gesture_update_def\<close>)
  show "la_workspace_switch_gesture_end E now etp L = Some (L', q) \<Longrightarrow> la_holds E (mset (la_ids L)) L'"
  proof (cases "la_set L")
    case (Outputs ms p a)
    assume "la_workspace_switch_gesture_end E now etp L = Some (L', q)"
    then obtain ms' k where m: "try_until (mn_workspace_switch_gesture_end E now etp) ms = Some (ms', k)"
        "L' = la_put (Outputs ms' p a) L"
      using Outputs by (auto simp: la_workspace_switch_gesture_end_def bind_eq_Some_conv)
    have "list_all2 (mn_goes E) ms ms'"
      by (rule until_goes[OF m(1), THEN conjunct1]) (use o(6)[OF Outputs] gesture_goes(4) goes_refl in auto)
    from act_monitors[OF inv Outputs this o(2)[OF Outputs]] m(2) show ?thesis by simp
  qed (use la_refl[OF inv] in \<open>auto simp: la_workspace_switch_gesture_end_def\<close>)
qed

lemma act_scroll_ends:
  assumes inv: "la_inv E L" and ex: "la_all_monitors (mn_dnd_scroll_gesture_end E now) L = Some L'"
  shows "la_holds E (mset (la_ids L)) L'"
  by (rule act_all_monitors[OF inv ex]) (use outputsD(6)[OF inv] gesture_goes(5) in blast)

lemma act_scroll_begins:
  assumes inv: "la_inv E L" and ex: "la_all_monitors (Some \<circ> mn_dnd_scroll_gesture_begin E now) L = Some L'"
  shows "la_holds E (mset (la_ids L)) L'"
  by (rule act_all_monitors[OF inv ex]) (use outputsD(6)[OF inv] gesture_goes(2) in auto)

lemma act_dnd:
  assumes inv: "la_inv E L"
  shows "la_dnd_moved E now out pos L = Some L' \<Longrightarrow> la_holds E (mset (la_ids L)) L'"
    and "la_dnd_end E now L = Some L' \<Longrightarrow> la_holds E (mset (la_ids L)) L'"
proof -
  have i: "la_inv E (L\<lparr>la_dnd := d\<rparr>)" for d using inv by simp
  show "la_dnd_moved E now out pos L = Some L' \<Longrightarrow> la_holds E (mset (la_ids L)) L'"
    using act_scroll_begins[OF i, of now] la_refl[OF i] by (auto simp: la_dnd_moved_def Let_def split: if_splits)
  show "la_dnd_end E now L = Some L' \<Longrightarrow> la_holds E (mset (la_ids L)) L'"
    using act_scroll_ends[OF i, of now] la_refl[OF inv] by (auto simp: la_dnd_end_def split: if_splits)
qed

section \<open>Every frame\<close>

lemma dnd_activate_goes:
  assumes inv: "mn_inv E m" and ac: "mn_acyclic m" and keep: "configure_keeps E"
    and ex: "mn_dnd_activate E now config target m = Some m'"
  shows "mn_goes E m m'"
proof -
  obtain m1 j m2 where m: "mn_goes E m m1" "j < length (mn_workspaces m1)" "mn_dnd_scroll_gesture_end E now m1 = Some m2"
      "mn_activate_workspace_with_anim_config E j config m2 = Some m'"
  proof (cases target)
    case (DndWindow i)
    then obtain wss j m2 where w: "try_until (ws_activate_window i) (mn_workspaces m) = Some (wss, Some j)"
        "mn_dnd_scroll_gesture_end E now (m\<lparr>mn_workspaces := wss\<rparr>) = Some m2"
        "mn_activate_workspace_with_anim_config E j config m2 = Some m'"
      using ex by (auto simp: mn_dnd_activate_def bind_eq_Some_conv)
    have "list_all2 (ws_goes E) (mn_workspaces m) wss \<and> j < length (mn_workspaces m)"
      using until_goes[OF w(1), of "ws_goes E"] activate_goes(1) inv_workspaces[OF inv] acyclic_at[OF ac] keep ws_goes_refl by blast
    with that[OF goes_workspaces[OF inv] _ w(2,3)] show thesis by (auto dest: list_all2_lengthD)
  next
    case (DndWorkspace i)
    with ex that[OF goes_refl[OF inv]] show thesis by (auto simp: mn_dnd_activate_def bind_eq_Some_conv dest: position_length)
  qed
  have g2: "mn_goes E m1 m2" by (rule gesture_goes(5)[OF goes_inv[OF m(1)] m(3)])
  then have "length (mn_workspaces m2) = length (mn_workspaces m1)"
    by (auto simp: mn_goes_def dest!: framedD(6) mset_eq_length)
  then have j: "j < length (mn_workspaces m2)" using m(2) by simp
  have "mn_goes E m2 m'" by (rule kept_goes[OF activate_kept(1)[OF goes_inv[OF g2] j m(4)] framed_activate[OF m(4)]])
  from goes_trans[OF goes_trans[OF m(1) g2] this] show ?thesis .
qed

lemma act_hold:
  assumes inv: "la_inv E L" and ac: "la_acyclic L" and keep: "configure_keeps E"
    and ex: "la_dnd_hold P E now out pos m d L = Some L'"
  shows "la_holds E (mset (la_ids L)) L'"
proof -
  have i: "la_inv E (L\<lparr>la_dnd := e\<rparr>)" for e using inv by simp
  have a: "la_acyclic (L\<lparr>la_dnd := e\<rparr>)" for e using ac by (simp add: la_acyclic_def la_tiles_def)
  consider e where "L' = L\<lparr>la_dnd := e\<rparr>"
    | e config target L1 where "la_all_monitors (\<lambda>m. if ou_id (mn_output m) = out then mn_dnd_activate E now config target m else Some m)
          (L\<lparr>la_dnd := e\<rparr>) = Some L1"
        "(if la_overview_open (la_focus_output out L1) then map_option fst (la_close_overview E (la_focus_output out L1))
          else Some (la_focus_output out L1)) = Some L'"
    using ex by (auto simp: la_dnd_hold_def Let_def bind_eq_Some_conv split: option.splits if_splits)
  then show ?thesis
  proof cases
    case (1 e)
    with la_refl[OF i, of e] show ?thesis by simp
  next
    case (2 e config target L1)
    have h1: "la_holds E (mset (la_ids (L\<lparr>la_dnd := e\<rparr>))) L1"
      by (rule act_all_monitors[OF i 2(1)])
        (use dnd_activate_goes[OF _ _ keep] outputsD(6)[OF i] acyclic_parts(2)[OF a] goes_refl in \<open>auto split: if_splits\<close>)
    then have h1: "la_holds E (mset (la_ids L)) L1" by simp
    note h2 = la_trans[OF h1 act_focus_output[OF la_holdsD(1)[OF h1], of out]]
    have "la_holds E (mset (la_ids (la_focus_output out L1))) L'"
      using 2(2) act_overview(3)[OF la_holdsD(1)[OF h2]] la_refl[OF la_holdsD(1)[OF h2]] by (auto split: if_splits)
    from la_trans[OF h2 this] show ?thesis .
  qed
qed

lemma act_dnd_scroll:
  assumes inv: "la_inv E L" and ac: "la_acyclic L" and keep: "configure_keeps E" and ex: "la_dnd_scroll P E now L = Some L'"
  shows "la_holds E (mset (la_ids L)) L'"
proof (cases "L' = L")
  case False
  then obtain out pos ms p a k where c: "la_set L = Outputs ms p a" "ms_index out ms = Some k"
      "(case (case la_dnd L of
             Some d \<Rightarrow> Some (ou_id (dd_output d), dd_pointer_pos d)
           | None \<Rightarrow> map_option (\<lambda>v. (ou_id (mv_output v), mv_pointer_pos v)) (la_moving L)) of Some z \<Rightarrow> z = (out, pos) | None \<Rightarrow> False)"
    using ex unfolding la_dnd_scroll_def by (auto split: option.splits monitor_set.splits)
  then obtain m b where m: "mn_dnd_scroll_gesture_scroll E now pos (1 / mn_overview_zoom E (ms ! k)) (ms ! k) = Some (m, b)"
      "(case la_dnd (la_put (Outputs (ms[k := m]) p a) L) of
          None \<Rightarrow> Some (la_put (Outputs (ms[k := m]) p a) L)
        | Some d \<Rightarrow> if b then Some ((la_put (Outputs (ms[k := m]) p a) L)\<lparr>la_dnd := Some (d\<lparr>dd_hold := None\<rparr>)\<rparr>)
                   else la_dnd_hold P E now out pos m d (la_put (Outputs (ms[k := m]) p a) L)) = Some L'"
    using ex unfolding la_dnd_scroll_def by (auto simp: bind_eq_Some_conv Let_def split: option.splits)
  define L1 where "L1 = la_put (Outputs (ms[k := m]) p a) L"
  have k: "k < length ms" using c(2) by (simp add: ms_index_def position_Some)
  have g: "mn_goes E (ms ! k) m" by (rule gesture_goes(6)[OF outputsD(6)[OF inv c(1) nth_mem[OF k]] m(1)])
  have h1: "la_holds E (mset (la_ids L)) L1"
    unfolding L1_def by (rule act_one[OF inv c(1) k outputsD(2)[OF inv c(1)] g])
  have "mn_workspaces m = mn_workspaces (ms ! k)"
    using m(1) by (auto simp: mn_dnd_scroll_gesture_scroll_def Let_def bind_eq_Some_conv split: option.splits workspace_switch.splits if_splits)
  then have "map mn_workspaces (ms[k := m]) = map mn_workspaces ms" using k by (simp add: map_update list_update_same_conv)
  then have "la_acyclic L1" using ac by (simp add: L1_def la_acyclic_def la_tiles_def la_workspaces_def c(1))
  note hold = act_hold[OF la_holdsD(1)[OF h1] this keep]
  have "la_holds E (mset (la_ids L1)) L'"
    using m(2) hold la_refl[of E "L1\<lparr>la_dnd := d\<rparr>" for d] la_refl[OF la_holdsD(1)[OF h1]] la_holdsD(1)[OF h1]
    unfolding L1_def[symmetric] by (auto split: option.splits if_splits)
  from la_trans[OF h1 this] show ?thesis .
qed (simp add: la_refl[OF inv])

lemma advance_goes: "ws_inv E w \<Longrightarrow> ws_goes E w (ws_advance_animations E' w)"
proof -
  assume inv: "ws_inv E w"
  have "skeleton (ss_advance_animations E' (ws_scrolling w)) = skeleton (ws_scrolling w)" by (rule advance_skel)
  from quiet_ss[OF inv _ _ skeleton_config[OF this]] skeleton_inv[OF this, of E] skeleton_ids[OF this] ws_invD(1)[OF inv]
  have q: "ws_quiet E w (w\<lparr>ws_scrolling := ss_advance_animations E' (ws_scrolling w)\<rparr>)" by metis
  have "in_place E (ws_floating w) (fs_advance_animations E' (ws_floating w))" by (rule advance_in_place[OF ws_invD(2)[OF inv]])
  then have "ws_quiet E (w\<lparr>ws_scrolling := ss_advance_animations E' (ws_scrolling w)\<rparr>)
      (w\<lparr>ws_scrolling := ss_advance_animations E' (ws_scrolling w), ws_floating := fs_advance_animations E' (ws_floating w)\<rparr>)"
    using quiet_fs[OF quiet_inv[OF q], of "fs_advance_animations E' (ws_floating w)"]
    by (simp add: in_place_def fs_config_def fs_advance_animations_def)
  from quiet_goes[OF quiet_trans[OF q this]] show ?thesis
    by (simp add: ws_advance_animations_def on_ss_def on_fs_def)
qed

lemma refresh_goes: "ws_inv E w \<Longrightarrow> configure_keeps E' \<Longrightarrow> ws_goes E w (ws_refresh E' a f w)"
proof -
  assume inv: "ws_inv E w" and keep: "configure_keeps E'"
  define b c where "b = (a \<and> \<not> fa_get (ws_floating_is_active w))" and "c = (a \<and> fa_get (ws_floating_is_active w))"
  have "skeleton (ss_refresh E' b f (ws_scrolling w)) = skeleton (ws_scrolling w)" by (rule refresh_skel)
  from quiet_ss[OF inv _ _ skeleton_config[OF this]] skeleton_inv[OF this, of E] skeleton_ids[OF this] ws_invD(1)[OF inv]
  have q: "ws_quiet E w (w\<lparr>ws_scrolling := ss_refresh E' b f (ws_scrolling w)\<rparr>)" by metis
  have "in_place E (ws_floating w) (fs_refresh E' c f (ws_floating w))" by (rule refresh_in_place[OF ws_invD(2)[OF inv] keep])
  then have "ws_quiet E (w\<lparr>ws_scrolling := ss_refresh E' b f (ws_scrolling w)\<rparr>)
      (w\<lparr>ws_scrolling := ss_refresh E' b f (ws_scrolling w), ws_floating := fs_refresh E' c f (ws_floating w)\<rparr>)"
    using quiet_fs[OF quiet_inv[OF q], of "fs_refresh E' c f (ws_floating w)"]
    by (simp add: in_place_def fs_config_def fs_refresh_def)
  from quiet_goes[OF quiet_trans[OF q this]] show ?thesis
    by (simp add: ws_refresh_def on_ss_def on_fs_def b_def c_def)
qed

lemma mn_advance_goes:
  assumes inv: "mn_inv E m" and ex: "mn_advance_animations E' now m = Some m'"
  shows "mn_goes E m m'"
proof -
  obtain m1 where m1: "(case mn_workspace_switch m of
       Some (SwitchAnimation a) \<Rightarrow>
         if anim_is_done E' a then mn_clean_up_workspaces (m\<lparr>mn_workspace_switch := None\<rparr>) else Some m
     | Some (SwitchGesture g) \<Rightarrow> Some (m\<lparr>mn_workspace_switch := Some (SwitchGesture (gesture_advance E' now g))\<rparr>)
     | None \<Rightarrow> Some m) = Some m1"
     "m' = m1\<lparr>mn_workspaces := map (ws_advance_animations E') (mn_workspaces m1)\<rparr>"
    using ex by (auto simp: mn_advance_animations_def bind_eq_Some_conv)
  have center: "wg_center_idx (gesture_advance E' now g) = wg_center_idx g" for g
    by (simp add: gesture_advance_def Let_def split: option.split)
  have s: "m1 = m\<lparr>mn_workspace_switch := mn_workspace_switch m1\<rparr>"
    using m1(1) by (cases m) (auto split: option.splits workspace_switch.splits if_splits dest!: clean_up_id)
  have "switch_ok (length (mn_workspaces m)) x" if "mn_workspace_switch m1 = Some x" for x
    using m1(1) that switch_okD[OF inv] center
    by (auto simp: switch_ok_def split: option.splits workspace_switch.splits if_splits dest!: clean_up_id)
  note changed = switch_changed[OF inv this]
  have k: "mn_kept E (mset (mn_ids m)) m (m\<lparr>mn_workspace_switch := mn_workspace_switch m1\<rparr>)"
    by (rule changed)
  have "mn_framed m (m\<lparr>mn_workspace_switch := mn_workspace_switch m1\<rparr>)" by simp
  from kept_goes[OF k this] s have g: "mn_goes E m m1" by metis
  have "list_all2 (ws_goes E) (mn_workspaces m1) (map (ws_advance_animations E') (mn_workspaces m1))"
    using advance_goes inv_workspaces[OF goes_inv[OF g]] by (simp add: list.rel_map list.rel_refl_strong)
  from goes_trans[OF g goes_workspaces[OF goes_inv[OF g] this]] show ?thesis by (simp add: m1(2))
qed

lemma act_advance:
  assumes inv: "la_inv E L" and ac: "la_acyclic L" and keep: "configure_keeps E"
    and ex: "la_advance_animations P E now L = Some L'"
  shows "la_holds E (mset (la_ids L)) L'"
proof -
  define L0 where "L0 = (case la_moving L of
      Some v \<Rightarrow> L\<lparr>la_move := Some (Moving (v\<lparr>mv_tile := tile_advance_animations E (mv_tile v)\<rparr>))\<rparr> | None \<Rightarrow> L)"
  have k: "tkey (tile_advance_animations E t) = tkey t" for t using keeps_fields(7)[of E t E] by (simp add: keeps_def)
  then have h0: "la_holds E (mset (la_ids L)) L0"
    using la_refl[OF inv] act_dragged[OF inv] by (auto simp: L0_def tkey_def split: option.split)
  have a0: "la_acyclic L0"
  proof -
    have "tkey ` set (la_tiles L0) = tkey ` set (la_tiles L)" by (auto simp: L0_def la_tiles_def k split: option.split)
    with ac show ?thesis unfolding la_acyclic_def parents_acyclic_def using links_keys by metis
  qed
  obtain L1 where L1: "la_dnd_scroll P E now L0 = Some L1"
      "(case la_set (la_overview_settled E L1) of
         Outputs _ _ _ \<Rightarrow> la_all_monitors (\<lambda>m. do {
           m \<leftarrow> mn_set_overview_progress E (la_overview_progress (la_overview_settled E L1)) m;
           mn_advance_animations E now m }) (la_overview_settled E L1)
       | NoOutputs wss \<Rightarrow> Some (la_put (NoOutputs (map (ws_advance_animations E) wss)) (la_overview_settled E L1))) = Some L'"
    using ex unfolding la_advance_animations_def L0_def[symmetric] Let_def by (auto simp: bind_eq_Some_conv)
  note h1 = la_trans[OF h0 act_dnd_scroll[OF la_holdsD(1)[OF h0] a0 keep L1(1)]]
  note i1 = la_holdsD(1)[OF h1]
  have "L1 = L1\<lparr>la_overview_progress := la_overview_progress L1\<rparr>" by (cases L1) simp
  then have same: "\<exists>q. L1 = L1\<lparr>la_overview_progress := q\<rparr>" by (rule exI)
  have "\<exists>q. la_overview_settled E L1 = L1\<lparr>la_overview_progress := q\<rparr>"
  proof (cases "\<exists>a. la_overview_progress L1 = Some (LayoutOverviewAnimation a) \<and> anim_is_done E a")
    case False
    then have "la_overview_settled E L1 = L1" by (auto simp: la_overview_settled_def split: option.split layout_overview.split)
    with same show ?thesis by metis
  qed (auto simp: la_overview_settled_def)
  then obtain q where q: "la_overview_settled E L1 = L1\<lparr>la_overview_progress := q\<rparr>" by blast
  have "la_holds E (mset (la_ids L1)) L'"
  proof (cases "la_set L1")
    case (Outputs ms p a)
    let ?f = "\<lambda>m. mn_set_overview_progress E q m \<bind> mn_advance_animations E now"
    obtain ms' where m: "try_map ?f ms = Some ms'" "L' = la_put (Outputs ms' p a) (L1\<lparr>la_overview_progress := q\<rparr>)"
      using L1(2) Outputs by (auto simp: q la_all_monitors_def)
    have "mn_refits E L' m m'" if "m \<in> set ms" "?f m = Some m'" for m m'
    proof -
      obtain m1 where m1: "mn_set_overview_progress E q m = Some m1" "mn_advance_animations E now m1 = Some m'"
        using \<open>?f m = Some m'\<close> by (auto simp: bind_eq_Some_conv)
      have f: "mn_fits E (la_options L1) (la_overview_open L1) (map_option overview_from q) m1 \<and>
          mset (mn_ids m1) = mset (mn_ids m) \<and> mn_output m1 = mn_output m \<and> mn_wids m1 = mn_wids m"
        by (rule overview_fits[OF outputsD(5)[OF i1 Outputs that(1)] m1(1)])
      then have g: "mn_goes E m1 m'" using mn_advance_goes[OF _ m1(2)] by (simp add: mn_fits_def)
      then have fr: "mn_framed m1 m'" by (simp add: mn_goes_def)
      show ?thesis using f framed_fits[OF fr _ goes_inv[OF g]] g framedD(1)[OF fr]
        by (simp add: mn_refits_def m(2) la_seen_def mn_goes_def mn_holds_def mn_framed_def)
    qed
    from act_refit[OF i1 Outputs try_map_goes[OF m(1) this]] show ?thesis by (simp add: m(2))
  next
    case (NoOutputs wss)
    let ?L2 = "L1\<lparr>la_overview_progress := q\<rparr>"
    have h2: "la_holds E (mset (la_ids L1)) ?L2" by (rule act_idle[OF i1 NoOutputs]) (simp_all add: NoOutputs)
    have "list_all2 (ws_goes E) wss (map (ws_advance_animations E) wss)"
      using advance_goes waitsD(2)[OF i1 NoOutputs] by (simp add: list.rel_map list.rel_refl_strong)
    from la_trans[OF h2 act_waiting[OF la_holdsD(1)[OF h2] _ this]] L1(2) NoOutputs show ?thesis by (simp add: q)
  qed
  from la_trans[OF h1 this] show ?thesis .
qed

section \<open>Every refresh\<close>

lemma mn_refresh_goes:
  assumes inv: "mn_inv E m" and keep: "configure_keeps E'" and ex: "mn_refresh E' now b d opened m = Some m'"
  shows "mn_goes E m m'"
proof -
  obtain m1 where m1: "(if d \<and> opened then Some (mn_dnd_scroll_gesture_begin E' now m)
          else if \<not> opened then mn_dnd_scroll_gesture_end E' now m else Some m) = Some m1"
      "m' = m1\<lparr>mn_workspaces := map (\<lambda>(j, w). ws_refresh E' b (b \<and> j = mn_active_workspace_idx m1) w) (enumerate 0 (mn_workspaces m1))\<rparr>"
    using ex by (auto simp: mn_refresh_def bind_eq_Some_conv)
  have g: "mn_goes E m m1" using m1(1) gesture_goes[OF inv] goes_refl[OF inv] by (auto split: if_splits)
  have "list_all2 (ws_goes E) (mn_workspaces m1)
      (map (\<lambda>(j, w). ws_refresh E' b (b \<and> j = mn_active_workspace_idx m1) w) (enumerate 0 (mn_workspaces m1)))"
    using refresh_goes[OF inv_workspaces[OF goes_inv[OF g] nth_mem] keep] by (simp add: list_all2_conv_all_nth nth_enumerate_eq)
  from goes_trans[OF g goes_workspaces[OF goes_inv[OF g] this]] show ?thesis by (simp add: m1(2))
qed

lemma act_refresh:
  assumes inv: "la_inv E L" and keep: "configure_keeps E" and ex: "la_refresh E now b L = Some L'"
  shows "la_holds E (mset (la_ids L)) L'"
proof -
  define L0 where "L0 = L\<lparr>la_is_active := b\<rparr>"
  define L1 where "L1 = (case la_moving L0 of Some v \<Rightarrow> L0\<lparr>la_move := Some (Moving (mv_refresh E v))\<rparr> | None \<Rightarrow> L0)"
  have h0: "la_holds E (mset (la_ids L)) L0" using inv by (simp add: L0_def la_holds_def)
  have k: "tile_id (mv_tile (mv_refresh E v)) = tile_id (mv_tile v)" for v
    using keep by (simp add: mv_refresh_def win_simps configure_keeps_def Let_def)
  have "la_holds E (mset (la_ids L0)) L1"
    using la_refl[OF la_holdsD(1)[OF h0]] act_dragged[OF la_holdsD(1)[OF h0] _ k] unfolding L1_def
    by (auto split: option.split)
  note h1 = la_trans[OF h0 this] and i1 = la_holdsD(1)[OF la_trans[OF h0 this]]
  obtain d where d: "(case la_set L1 of
       Outputs ms p a \<Rightarrow> do {
         ms \<leftarrow> try_map (\<lambda>(k, m). mn_refresh E now (b \<and> k = a \<and> la_moving L1 = None) d (la_overview_open L1) m) (enumerate 0 ms);
         Some (la_put (Outputs ms p a) L1) }
     | NoOutputs wss \<Rightarrow> Some (la_put (NoOutputs (map (ws_refresh E False False) wss)) L1)) = Some L'"
    using ex unfolding la_refresh_def L0_def[symmetric] Let_def L1_def[symmetric] by (auto simp: bind_eq_Some_conv)
  have "la_holds E (mset (la_ids L1)) L'"
  proof (cases "la_set L1")
    case (Outputs ms p a)
    with d obtain ms' where m: "try_map (\<lambda>(k, m). mn_refresh E now (b \<and> k = a \<and> la_moving L1 = None) d (la_overview_open L1) m)
        (enumerate 0 ms) = Some ms'" "L' = la_put (Outputs ms' p a) L1" by (auto simp: bind_eq_Some_conv)
    have "list_all2 (\<lambda>(k, m) m'. mn_goes E m m') (enumerate 0 ms) ms'"
      by (rule try_map_goes[OF m(1)]) (use mn_refresh_goes[OF outputsD(6)[OF i1 Outputs] keep] in \<open>auto simp: in_set_enumerate_eq\<close>)
    then have "list_all2 (mn_goes E) ms ms'" by (simp add: list_all2_conv_all_nth nth_enumerate_eq)
    from act_monitors[OF i1 Outputs this outputsD(2)[OF i1 Outputs]] show ?thesis by (simp add: m(2))
  next
    case (NoOutputs wss)
    have "list_all2 (ws_goes E) wss (map (ws_refresh E False False) wss)"
      using refresh_goes[OF waitsD(2)[OF i1 NoOutputs] keep] by (simp add: list.rel_map list.rel_refl_strong)
    from act_waiting[OF i1 NoOutputs this] d NoOutputs show ?thesis by simp
  qed
  from la_trans[OF h1 this] show ?thesis .
qed

section \<open>Configuration\<close>

lemma apply_config_goes:
  assumes "ws_inv E w"
  shows "ws_goes E w (ws_apply_config E configs w)"
proof -
  have "ws_goes E w (ws_update_layout_config E part w)" for part
  proof (rule same_goes[OF settled_same[OF update_layout_config_settled[OF assms]]])
    show "ws_rest (ws_update_layout_config E part w) = ws_rest w"
      by (simp add: ws_update_layout_config_def update_config_rest) (simp add: ws_rest_def)
  qed
  with ws_goes_refl[OF assms] show ?thesis unfolding ws_apply_config_def by (auto split: option.split)
qed

text \<open>Options that do not turn \<open>empty-workspace-above-first\<close> on.\<close>

definition la_plain :: "monitor_options \<Rightarrow> layout \<Rightarrow> bool" where
  "la_plain opts L \<longleftrightarrow> (\<forall>m\<in>set (la_monitors L). \<not> mp_above_first (mp_with_merged_layout (mn_layout_config m) opts))"

lemma config_fits:
  assumes m: "mn_fits E o1 b q m" and off: "\<not> mp_above_first (mp_with_merged_layout (mn_layout_config m) opts)"
  shows "mn_fits E opts b q (mn_update_config E opts m) \<and> mset (mn_ids (mn_update_config E opts m)) = mset (mn_ids m) \<and>
    mn_output (mn_update_config E opts m) = mn_output m \<and> mn_wids (mn_update_config E opts m) = mn_wids m"
proof -
  let ?o = "mp_with_merged_layout (mn_layout_config m) opts"
  have inv: "mn_inv E m" and room: "\<not> mp_above_first (mn_options m)" using m by (simp_all add: mn_fits_def)
  have u: "mn_update_config E opts m = m\<lparr>mn_workspaces := map (ws_update_config E (mp_shared ?o)) (mn_workspaces m),
      mn_base_options := opts, mn_options := ?o\<rparr>"
    using off room by (simp add: mn_update_config_def Let_def)
  have "mn_holds E (mset (mn_ids m)) (mn_update_config E opts m)"
    using update_config_ok[OF inv, of "mn_layout_config m" opts] room by (simp add: same_layout_config mn_config_drops_def)
  moreover have "ws_id (ws_update_config E base w) = ws_id w" for base w
    using update_config_rest[of E base w] by (simp add: ws_rest_def)
  ultimately show ?thesis using m off by (simp add: mn_fits_def mn_holds_def u mn_wids_def comp_def)
qed

lemma act_update_options:
  assumes inv: "la_inv E L" and plain: "la_plain opts L"
  shows "la_holds E (mset (la_ids L)) (la_update_options E opts cfg L)"
proof -
  define L0 where "L0 = (case la_moving L of
      Some v \<Rightarrow> L\<lparr>la_move := Some (Moving (mv_update_config (mp_shared opts) v))\<rparr> | None \<Rightarrow> L)"
  have k: "tile_id (mv_tile (mv_update_config base v)) = tile_id (mv_tile v)" for base v
    by (simp add: mv_update_config_def tile_update_config_def Let_def)
  have h: "la_holds E (mset (la_ids L)) L0"
    using la_refl[OF inv] act_dragged[OF inv _ k] unfolding L0_def by (auto split: option.split)
  note i0 = la_holdsD(1)[OF h]
  have s: "la_set L0 = la_set L" by (auto simp: L0_def split: option.split)
  have u: "la_update_options E opts cfg L = (la_put (case la_set L0 of
        Outputs ms p a \<Rightarrow> Outputs (map (mn_update_config E opts) ms) p a
      | NoOutputs wss \<Rightarrow> NoOutputs (map (ws_update_config E (mp_shared opts)) wss)) L0)\<lparr>la_options := opts, la_overview_config := cfg\<rparr>"
    unfolding la_update_options_def L0_def[symmetric] Let_def by simp
  have "la_holds E (mset (la_ids L0)) (la_update_options E opts cfg L)"
  proof (cases "la_set L0")
    case (Outputs ms p a)
    let ?L = "(la_put (Outputs (map (mn_update_config E opts) ms) p a) L0)\<lparr>la_options := opts, la_overview_config := cfg\<rparr>"
    have "mn_refits E ?L m (mn_update_config E opts m)" if "m \<in> set ms" for m
      using config_fits[OF outputsD(5)[OF i0 Outputs that], of opts] plain that Outputs s
      by (simp add: mn_refits_def la_seen_def la_plain_def la_monitors_def)
    then have "list_all2 (mn_refits E ?L) ms (map (mn_update_config E opts) ms)"
      by (simp add: list.rel_map list.rel_refl_strong)
    from act_refit[OF i0 Outputs this] show ?thesis by (simp add: u Outputs)
  next
    case (NoOutputs wss)
    let ?L = "(la_put (NoOutputs (map (ws_update_config E (mp_shared opts)) wss)) L0)\<lparr>la_options := opts, la_overview_config := cfg\<rparr>"
    have "ws_waits E (mp_shared opts) (ws_update_config E (mp_shared opts) w) \<and>
        mset (ws_ids (ws_update_config E (mp_shared opts) w)) = mset (ws_ids w) \<and> ws_id (ws_update_config E (mp_shared opts) w) = ws_id w"
      if "w \<in> set wss" for w
    proof -
      note w = waitsD(1)[OF i0 NoOutputs that, unfolded ws_waits_def]
      from settled_same[OF update_config_settled[OF ws_invD(1-4)[OF conjunct1[OF w]], of "mp_shared opts"]]
        update_config_rest[of E "mp_shared opts" w] w
      show ?thesis by (simp add: ws_same_def ws_rest_def ws_waits_def)
    qed
    then have "list_all2 (\<lambda>w w'. ws_waits E (mp_shared (la_options ?L)) w' \<and> mset (ws_ids w') = mset (ws_ids w) \<and> ws_id w' = ws_id w)
        wss (map (ws_update_config E (mp_shared opts)) wss)"
      by (simp add: list.rel_map list.rel_refl_strong)
    from act_reset[OF i0 NoOutputs _ _ _ this] show ?thesis by (simp add: u NoOutputs)
  qed
  from la_trans[OF h this] show ?thesis .
qed

lemma act_update_config:
  assumes inv: "la_inv E L" and plain: "la_plain opts L"
  shows "la_holds E (mset (la_ids L)) (la_update_config E configs opts cfg L)"
proof -
  note h = act_map[OF inv apply_config_goes[OF inv_parts[OF inv]]]
  have "la_plain opts (la_map_workspaces (ws_apply_config E configs) L)"
    using plain by (cases "la_set L") (auto simp: la_plain_def la_monitors_def la_map_workspaces_def mn_map_def)
  from la_trans[OF h act_update_options[OF la_holdsD(1)[OF h] this]] show ?thesis by (simp add: la_update_config_def)
qed

section \<open>An output's readings\<close>

lemma output_fits:
  assumes m: "mn_fits E opts b q m" and out: "ou_id out = ou_id (mn_output m)"
    and ex: "mn_update_output_size E (m\<lparr>mn_output := out\<rparr>) = Some m'"
  shows "mn_fits E opts b q m' \<and> mset (mn_ids m') = mset (mn_ids m) \<and> mn_output m' = out \<and> mn_wids m' = mn_wids m"
proof -
  have inv: "mn_inv E m" using m by (simp add: mn_fits_def)
  obtain wss where wss: "try_map (ws_update_output_size E out) (mn_workspaces m) = Some wss"
      "m' = m\<lparr>mn_output := out, mn_scale := ou_scale out, mn_view_size := ou_size out, mn_working_area := ou_area out, mn_workspaces := wss\<rparr>"
    using ex by (auto simp: mn_update_output_size_def bind_eq_Some_conv)
  have same: "ws_id w' = ws_id w" if "ws_update_output_size E out w = Some w'" for w w'
  proof -
    have "w' = ws_set_view_size E (ou_scale out) (ou_transform out) (ou_size out) (ou_area out) w"
      using that by (auto simp: ws_update_output_size_def split: option.splits)
    with set_view_size_rest[of E "ou_scale out" "ou_transform out" "ou_size out" "ou_area out" w] show ?thesis
      by (simp add: ws_rest_def)
  qed
  have "list_all2 (\<lambda>w w'. ws_id w' = ws_id w) (mn_workspaces m) wss" by (rule try_map_goes[OF wss(1) same])
  then have "map ws_id wss = map ws_id (mn_workspaces m)" by (induction rule: list_all2_induct) simp_all
  then have "mn_wids m' = mn_wids m" by (simp add: wss(2) mn_wids_def)
  with update_output_ok[OF inv out ex] m show ?thesis by (simp add: mn_fits_def mn_holds_def wss(2))
qed

lemma act_update_output_size:
  assumes inv: "la_inv E L" and ex: "la_update_output_size E out L = Some L'"
  shows "la_holds E (mset (la_ids L)) L'"
proof -
  define L0 where "L0 = (case la_moving L of
                Some v \<Rightarrow> if ou_id (mv_output v) = ou_id out then L\<lparr>la_move := Some (Moving (v\<lparr>mv_output := out\<rparr>))\<rparr> else L
              | None \<Rightarrow> L)"
  have h: "la_holds E (mset (la_ids L)) L0"
    using la_refl[OF inv] act_dragged[OF inv] unfolding L0_def by (auto split: option.split)
  note i0 = la_holdsD(1)[OF h]
  have e: "(case la_set L0 of
          Outputs ms p a \<Rightarrow> (case ms_index (ou_id out) ms of
            Some k \<Rightarrow> do { m \<leftarrow> mn_update_output_size E ((ms ! k)\<lparr>mn_output := out\<rparr>); Some (la_put (Outputs (ms[k := m]) p a) L0) }
          | None \<Rightarrow> Some L0)
        | NoOutputs _ \<Rightarrow> Some L0) = Some L'"
    using ex unfolding la_update_output_size_def L0_def[symmetric] Let_def .
  have "la_holds E (mset (la_ids L0)) L'"
  proof (cases "\<exists>ms p a k. la_set L0 = Outputs ms p a \<and> ms_index (ou_id out) ms = Some k")
    case True
    then obtain ms p a k where L: "la_set L0 = Outputs ms p a" and i: "ms_index (ou_id out) ms = Some k" by blast
    then have k: "k < length ms" "ou_id out = ou_id (mn_output (ms ! k))" by (auto simp: ms_index_def dest: position_Some)
    obtain m where m: "mn_update_output_size E ((ms ! k)\<lparr>mn_output := out\<rparr>) = Some m" "L' = la_put (Outputs (ms[k := m]) p a) L0"
      using e L i by (auto simp: bind_eq_Some_conv)
    have r: "mn_refits E L' x x" if "x \<in> set ms" for x
      using outputsD(5)[OF i0 L that] by (simp add: mn_refits_def m(2))
    have "mn_refits E L' (ms ! k) m"
      using output_fits[OF outputsD(5)[OF i0 L nth_mem[OF k(1)]] k(2) m(1)] k(2) by (simp add: mn_refits_def m(2))
    from act_refit[OF i0 L list_all2_at[where R = "mn_refits E L'", OF k(1) this r]] show ?thesis by (simp add: m(2))
  next
    case False
    then have "L' = L0" using e by (auto split: monitor_set.splits option.splits)
    with la_refl[OF i0] show ?thesis by simp
  qed
  from la_trans[OF h this] show ?thesis .
qed

text \<open>Opening the overview with another workspace active.\<close>

lemma act_overview_to_workspace:
  assumes inv: "la_inv E L" and idx: "\<And>m. la_active_monitor L = Some (Some m) \<Longrightarrow> idx < length (mn_workspaces m)"
    and ex: "la_toggle_overview_to_workspace E idx L = Some L'"
  shows "la_holds E (mset (la_ids L)) L'"
proof -
  obtain L1 where L1: "la_on_active_monitor (mn_activate_workspace_with_anim_config E idx (Some (la_overview_config L))) L = Some L1"
      "la_toggle_overview E L1 = Some L'"
    using ex by (auto simp: la_toggle_overview_to_workspace_def bind_eq_Some_conv)
  have "la_holds E (mset (la_ids L)) L1"
  proof (cases "la_set L")
    case (NoOutputs wss)
    with L1(1) la_refl[OF inv] show ?thesis by (simp add: la_on_active_monitor_def)
  next
    case (Outputs ms p a)
    with L1(1) obtain m where m: "a < length ms"
        "mn_activate_workspace_with_anim_config E idx (Some (la_overview_config L)) (ms ! a) = Some m"
        "L1 = la_put (Outputs (ms[a := m]) p a) L"
      by (auto simp: la_on_active_monitor_def bind_eq_Some_conv vec_simps)
    have "idx < length (mn_workspaces (ms ! a))"
      by (rule idx) (simp add: la_active_monitor_def Outputs vec_simps m(1))
    from kept_goes[OF activate_kept(1)[OF outputsD(6)[OF inv Outputs nth_mem[OF m(1)]] this m(2)] framed_activate[OF m(2)]]
    show ?thesis using act_one[OF inv Outputs m(1,1)] m(3) by simp
  qed
  from la_trans[OF this act_overview(1)[OF la_holdsD(1)[OF this] L1(2)]] show ?thesis .
qed

end
