(* ===== verification/Spec2Isabelle.thy ===== *)
theory Spec2Isabelle
  imports EventStream Clocks Scaling MasterStackGeometry WindowSteps FloatingGeometry Outputs WorkspaceTotal MonitorProps LayoutSettings
begin

text \<open>
  A verification development for sol, a fork of the niri Wayland compositor whose tiling engine is a
  master-stack layout. Paths are under \<^verbatim>\<open>src/\<close> of the repository; where a path has no directory it is
  under \<^verbatim>\<open>layout/\<close>.

  \<^bold>\<open>The program.\<close> The compositor keeps a \<open>Layout\<close> of monitors. A \<open>Monitor\<close> has a fixed list of workspaces,
  one of them active, and a switch between workspaces in progress, which is an animation or a gesture. A
  \<open>Workspace\<close> keeps its windows in two spaces, the tiling \<open>ScrollingSpace\<close> (one master column and a stack) and
  the \<open>FloatingSpace\<close> (stacked windows with positions), with a flag for the space that has the focus. Both hold
  \<open>Tile\<close>s: a window with its border and its animations. A \<open>Mapped\<close> window turns the sizes and states the layout
  asks for into Wayland configures and follows the commits of the client; its settings come from the window
  rules. Everything that moves reads one lazy \<open>Clock\<close>. Clients of the IPC rebuild the state of the compositor
  from a stream of events.

  \<^bold>\<open>The theories\<close>, each importing the parts it calls:
    \<^item> \<open>Prelude\<close>: machine integers, doubles as reals with the roundings and casts of Rust, lists with checked
      indices, the shared collections of lemmas.
    \<^item> \<open>HashMaps\<close>, \<open>EventStream\<close>: \<^verbatim>\<open>sol-ipc/src/state.rs\<close> and the types it carries from \<^verbatim>\<open>sol-ipc/src/lib.rs\<close>.
      The trait \<open>EventStreamStatePart\<close> is the locale \<open>state_part\<close>, interpreted on its six implementations and on
      their composition.
    \<^item> \<open>Clocks\<close>: \<^verbatim>\<open>animation/clock.rs\<close>, \<^verbatim>\<open>frame_clock.rs\<close>, \<^verbatim>\<open>utils/vblank_throttle.rs\<close>, \<^verbatim>\<open>utils/id.rs\<close>.
    \<^item> \<open>Animations\<close>: \<^verbatim>\<open>animation/mod.rs\<close>, \<^verbatim>\<open>bezier.rs\<close>, \<^verbatim>\<open>spring.rs\<close> and their configuration; it declares the
      record \<open>env\<close> of everything the model takes as given.
    \<^item> \<open>Scaling\<close>: \<^verbatim>\<open>utils/mod.rs\<close>, \<^verbatim>\<open>utils/scale.rs\<close>, \<^verbatim>\<open>rubber_band.rs\<close>. \<open>Outputs\<close>: the names of outputs in
      \<^verbatim>\<open>sol-config/src/output.rs\<close>. \<open>Gestures\<close>: \<^verbatim>\<open>input/swipe_tracker.rs\<close>, \<^verbatim>\<open>scroll_tracker.rs\<close> and
      \<^verbatim>\<open>scroll_swipe_gesture.rs\<close>.
    \<^item> \<open>Rules\<close>: \<^verbatim>\<open>sol-config/src/window_rule.rs\<close>, \<^verbatim>\<open>appearance.rs\<close> and \<open>ResolvedWindowRules\<close> of
      \<^verbatim>\<open>window/mod.rs\<close>. \<open>Windows\<close>, \<open>WindowSteps\<close>: \<^verbatim>\<open>window/mapped.rs\<close> and its operations as a step relation.
    \<^item> \<open>Tiles\<close>, \<open>LayoutOptions\<close>: \<^verbatim>\<open>tile.rs\<close> and \<^verbatim>\<open>sol-config/src/layout.rs\<close>.
    \<^item> \<open>MasterStack\<close>: \<^verbatim>\<open>scrolling.rs\<close>; \<open>MasterStackSpec\<close> its invariant, \<open>MasterStackProps\<close> its commands and the
      states they reach, \<open>MasterStackRefinement\<close> the simulation of a list with a cursor, \<open>MasterStackGeometry\<close>
      where the windows are.
    \<^item> \<open>Floating\<close>: \<^verbatim>\<open>floating.rs\<close>; \<open>FloatingInv\<close>, \<open>FloatingOps\<close>, \<open>FloatingProps\<close> and \<open>FloatingGeometry\<close> likewise.
    \<^item> \<open>Spaces\<close>: the locale \<open>window_space\<close>, what a workspace relies on of a space of windows, and \<open>two_spaces\<close>, a
      window that changes from one to another; \<open>SpaceContracts\<close> interprets them on the two spaces.
    \<^item> \<open>Workspace\<close>: \<^verbatim>\<open>workspace.rs\<close>; \<open>SpaceConfig\<close>, \<open>WorkspaceInv\<close>, \<open>WorkspaceOps\<close>, \<open>WorkspaceMoves\<close>,
      \<open>WorkspaceChanges\<close>, \<open>WorkspaceTransfers\<close>, \<open>WorkspaceFloating\<close> the lemma of each operation,
      \<open>WorkspaceCommands\<close>, \<open>WorkspaceProps\<close> its commands and reachable states, \<open>WorkspaceTotal\<close> what becomes of a
      tile that changes space, \<open>WorkspaceContract\<close> the interpretation of \<open>window_space\<close> on workspaces.
    \<^item> \<open>Monitor\<close>, \<open>MonitorMoves\<close>, \<open>MonitorGestures\<close>: \<^verbatim>\<open>monitor.rs\<close>; \<open>MonitorInv\<close>, \<open>MonitorSwitch\<close>,
      \<open>MonitorTransfers\<close>, \<open>MonitorLists\<close>, \<open>MonitorSteps\<close>, \<open>MonitorUpdates\<close> the lemma of each operation;
      \<open>MonitorCommands\<close> its commands and reachable states, \<open>MonitorTotal\<close> that they return, \<open>MonitorProps\<close> the
      properties. \<open>MonitorFrame\<close>: what the commands of a monitor leave as the layout set it.
    \<^item> \<open>HitTest\<close>: the hit tests of \<^verbatim>\<open>tile.rs\<close>, \<^verbatim>\<open>scrolling.rs\<close>, \<^verbatim>\<open>workspace.rs\<close> and \<^verbatim>\<open>monitor.rs\<close>, with the
      geometry of smithay as parameters.
    \<^item> \<open>Layout\<close>, \<open>LayoutDrag\<close>, \<open>LayoutCommands\<close>, \<open>LayoutRoutine\<close>: \<^verbatim>\<open>layout/mod.rs\<close>, its outputs and windows,
      interactive moves and drag and drop, the commands, and what it does on every frame and refresh; \<open>LayoutInv\<close> its
      invariant, \<open>LayoutSteps\<close> how operations of workspaces and monitors act on it, \<open>LayoutKeeps\<close> and \<open>LayoutSettings\<close>
      that the commands which neither add nor remove windows keep the invariant and every window.

  \<^bold>\<open>How the code is translated.\<close> A struct is a record whose fields carry a prefix (\<open>ss_\<close> for the tiling space,
  \<open>fs_\<close> floating, \<open>ws_\<close> workspace, \<open>mn_\<close> monitor, \<open>mw_\<close> window), an enum a datatype, a method a function from the
  state to the new state. A method that can panic (an index, \<open>unwrap\<close>, \<open>expect\<close>, \<open>assert!\<close>, \<open>todo!()\<close>, an
  underflow of \<open>usize\<close>, \<open>Duration::from_secs_f64\<close>) returns an option and \<open>None\<close> is the panic. A window is identified by a
  number, as by the id of its surface; the code compares nothing else. Doubles are reals, so rounding errors, NaN and
  infinities are not modelled; what \<open>round\<close>, \<open>floor\<close>, \<open>as i32\<close>, \<open>clamp\<close> and \<open>%\<close> do is. Durations are natural
  numbers of nanoseconds whose sums do not overflow. Shared handles become arguments: the clock is read through
  \<open>env\<close>, an output is a record of its current readings.

  \<^bold>\<open>Parameters.\<close> The record \<open>env\<close> holds what is not in the repository: the easing functions of the keyframe crate,
  smithay's rounding of a scale and its comparison of serials, the sending of a configure. Matching of regular
  expressions is a function argument. Properties that need something of them say so as a hypothesis, for example
  \<open>configure_keeps\<close> (sending a configure changes only the state of the toplevel), and have a witness with a concrete
  environment.

  \<^bold>\<open>Animations.\<close> Starting a spring computes its duration, and for an overdamped one by Newton's iteration, whose result
  nothing keeps in the range of \<open>Duration::from_secs_f64\<close>, which panics outside it. Where a property says that nothing
  panics, the animations the command starts are therefore assumed to be \<open>startable\<close>: off, an easing, or a spring within
  the bounds of the configuration's parser that is not overdamped. All defaults are one of these, and C40 shows that
  such an animation starts and ends. Animations that are running must be restartable, which started ones are.

  \<^bold>\<open>Workspaces above the first.\<close> With the setting \<open>empty-workspace-above-first\<close> the code still moves indices for a
  workspace that is no longer added. The reachable states of a monitor include all states with the setting on, except
  those behind a command that counts with a workspace that is not there (\<open>above_first_fits\<close>); C34 shows what those
  do, C35 what turning the setting off does.

  \<^bold>\<open>Loops.\<close> Almost all recursion is structural. The scan for the duration of a spring is \<open>clamped_scan\<close>, which ends
  because the code gives up after 3000 milliseconds; Newton's iteration in \<open>spring_duration\<close> has fuel 1000, the bound of
  the source; the bisection of a Bezier curve makes its 31 steps. None of the bounds is the model's own.

  \<^bold>\<open>What is shown.\<close> For each of the four nested parts (tiling space, floating space, workspace, monitor): every
  operation keeps an invariant that contains the assertions of the code's \<open>verify_invariants\<close>, every command adds,
  removes or keeps exactly the windows it should, and none is ever in two places; the proofs of the outer parts use
  those of the inner ones through the locales. The tiling space refines a list with a cursor, fills its area and moves
  nothing without an animation from where it was; neither space panics. The floating space keeps windows on the screen
  and children above parents. A window changes between the spaces and comes back; sizes are asked for and answered. The
  trackers of gestures equal reference definitions over all their events, animations stay in range and end, clocks are
  monotone. The event stream is replicated exactly. Where the code does not do what it says, a theorem shows it.

  \<^bold>\<open>Not modelled.\<close> Rendering, shaders, snapshots of closing windows and the drawing of the insert hint, which read the
  state and do not change it; the compositor's main state, its input dispatch, the Wayland handlers and the DRM and winit
  backends (\<^verbatim>\<open>niri.rs\<close>, \<^verbatim>\<open>input/mod.rs\<close>, \<^verbatim>\<open>handlers/\<close>, \<^verbatim>\<open>backend/\<close>), which are calls of smithay, of the
  operating system and of the modelled operations; D-Bus and screen casting; the user interface of \<^verbatim>\<open>ui/\<close>; parsing of the
  configuration, which is done by macros of the knuffel crate. Of the layout, the properties below stop at the monitor;
  for the layout itself the lemmas of \<open>LayoutKeeps\<close> and \<open>LayoutSettings\<close> cover the commands that keep its windows.
\<close>

end
